(* ===== verification/Prelude.thy ===== *)
theory Prelude
  imports Complex_Main "HOL-Library.AList" "HOL-Library.List_Lexorder" "HOL-Library.Char_ord"
begin

section \<open>Shared vocabulary: Python values, JSON documents, datetimes\<close>

text \<open>
  The types and generic lemmas every component uses.

  \<^item> Python \<open>int\<close> is \<open>int\<close>; a Python \<open>float\<close> is \<open>rat\<close> (its exact value: rounding,
    infinities and NaN are not modelled); \<open>str\<close> is \<open>string\<close>; a \<open>dict\<close> with string keys is an
    association list in insertion order, read with \<open>map_of\<close>, stored into with
    \<open>AList.update\<close> (which keeps the place of an existing key and appends a new one, as Python
    does) and popped with \<open>AList.delete\<close>.
  \<^item> A \<open>datetime\<close> is a number of microseconds: \<open>Aware\<close> instants count from the epoch in UTC,
    \<open>Naive\<close> ones are the same count of a reading with no time zone. \<open>replace(tzinfo=UTC)\<close> turns
    the second into the first without changing the number.
  \<^item> A parsed JSON document is \<open>json\<close>. A JSON string that the program writes or reads as a datetime is
    represented by the datetime it denotes (\<open>JTime\<close>), every other string is \<open>JStr\<close>.
  \<^item> The bytes of a stored object are \<open>blob\<close>: either the text of a JSON document, or bytes that
    \<open>json.loads\<close> rejects.
  \<^item> An exception is a value of \<open>exn\<close>; a fallible computation is \<open>exn + 'a\<close>.
\<close>

named_theorems dict_simps \<open>rewrite rules for dictionaries and JSON objects\<close>

datatype datetime = Aware int | Naive int

type_synonym instant = int

datatype json =
    JNull
  | JBool bool
  | JInt int
  | JFloat rat
  | JStr string
  | JTime datetime
  | JList "json list"
  | JObj "(string \<times> json) list"

type_synonym pydict = "(string \<times> json) list"

datatype blob = Json json | Garbage string

datatype exn =
    CASConflict string
  | StorageReadUnavailable string
  | ClientError string "int option"
  | S3UploadFailedError string
  | TimeoutError
  | TransportError
  | ValueError
  | TypeError
  | AttributeError string
  | KeyError
  | NotImplementedError
  | AssertionError
  | OverflowError
  | MaintenanceLeaseBusy
  | MaintenanceLeaseUnavailable
  | StopRequested
  | OtherError string

subsection \<open>Text\<close>

definition digit_char :: "nat \<Rightarrow> char" where
  "digit_char d = char_of (48 + d)"

fun dec_nat :: "nat \<Rightarrow> string" where
  "dec_nat n = (if n < 10 then [digit_char n] else dec_nat (n div 10) @ [digit_char (n mod 10)])"

declare dec_nat.simps [simp del]

definition dec_int :: "int \<Rightarrow> string" where
  "dec_int i = (if i < 0 then CHR ''-'' # dec_nat (nat (- i)) else dec_nat (nat i))"

text \<open>\<open>f"{n:0wd}"\<close>: the decimal text padded with zeros, the sign first.\<close>

definition zero_pad :: "nat \<Rightarrow> int \<Rightarrow> string" where
  "zero_pad w i =
     (let body = dec_nat (nat \<bar>i\<bar>); sign = (if i < 0 then ''-'' else '''')
      in sign @ replicate (w - length sign - length body) (CHR ''0'') @ body)"

definition is_space :: "char \<Rightarrow> bool" where
  "is_space c \<longleftrightarrow> (of_char c :: nat) \<in> {9, 10, 11, 12, 13, 28, 29, 30, 31, 32}"

definition py_strip :: "string \<Rightarrow> string" where
  "py_strip s = rev (dropWhile is_space (rev (dropWhile is_space s)))"

definition py_startswith :: "string \<Rightarrow> string \<Rightarrow> bool" where
  "py_startswith s p \<longleftrightarrow> take (length p) s = p"

definition py_endswith :: "string \<Rightarrow> string \<Rightarrow> bool" where
  "py_endswith s p \<longleftrightarrow> length p \<le> length s \<and> drop (length s - length p) s = p"

fun py_join :: "string \<Rightarrow> string list \<Rightarrow> string" where
  "py_join sep [] = ''''"
| "py_join sep [x] = x"
| "py_join sep (x # y # zs) = x @ sep @ py_join sep (y # zs)"

text \<open>\<open>int(text)\<close>: optional surrounding blanks, a sign, digits with single underscores between.\<close>

definition is_digit :: "char \<Rightarrow> bool" where
  "is_digit c \<longleftrightarrow> 48 \<le> (of_char c :: nat) \<and> (of_char c :: nat) \<le> 57"

fun digits_value :: "int \<Rightarrow> string \<Rightarrow> int option" where
  "digits_value acc [] = Some acc"
| "digits_value acc (c # cs) =
     (if is_digit c then digits_value (10 * acc + int (of_char c - 48)) cs
      else if c = CHR ''_'' then
        (case cs of [] \<Rightarrow> None | d # _ \<Rightarrow> if is_digit d then digits_value acc cs else None)
      else None)"

definition py_int_of_str :: "string \<Rightarrow> int option" where
  "py_int_of_str s =
     (let t = py_strip s in
      case t of
        [] \<Rightarrow> None
      | c # cs \<Rightarrow>
          (let body = (if c = CHR ''-'' \<or> c = CHR ''+'' then cs else t) in
           case body of
             [] \<Rightarrow> None
           | d # _ \<Rightarrow>
               if is_digit d
               then map_option (\<lambda>v. if c = CHR ''-'' then - v else v) (digits_value 0 body)
               else None))"

subsection \<open>Rounding and durations\<close>

text \<open>
  \<open>timedelta(seconds=s)\<close> counts whole microseconds, rounding half to even; \<open>int(x)\<close> of a float
  truncates towards zero.
\<close>

definition round_half_even :: "rat \<Rightarrow> int" where
  "round_half_even q =
     (let f = \<lfloor>q\<rfloor>; r = q - of_int f
      in if r < 1 / 2 then f else if 1 / 2 < r then f + 1 else if even f then f else f + 1)"

definition timedelta_us :: "rat \<Rightarrow> int" where
  "timedelta_us s = round_half_even (s * 1000000)"

definition py_trunc :: "rat \<Rightarrow> int" where
  "py_trunc q = (if q < 0 then - \<lfloor>- q\<rfloor> else \<lfloor>q\<rfloor>)"

subsection \<open>Calendar\<close>

text \<open>
  The proleptic Gregorian calendar, counted in days from 1970-01-01. A day count is turned into a
  year, a month and a day by the usual 400-year cycle arithmetic.
\<close>

definition days_from_civil :: "int \<Rightarrow> int \<Rightarrow> int \<Rightarrow> int" where
  "days_from_civil y m d =
     (let y' = (if m \<le> 2 then y - 1 else y);
          era = y' div 400;
          yoe = y' mod 400;
          doy = (153 * (m + (if 2 < m then -3 else 9)) + 2) div 5 + d - 1;
          doe = yoe * 365 + yoe div 4 - yoe div 100 + doy
      in era * 146097 + doe - 719468)"

definition civil_from_days :: "int \<Rightarrow> int \<times> int \<times> int" where
  "civil_from_days z =
     (let z' = z + 719468;
          era = z' div 146097;
          doe = z' mod 146097;
          yoe = (doe - doe div 1460 + doe div 36524 - doe div 146096) div 365;
          doy = doe - (365 * yoe + yoe div 4 - yoe div 100);
          mp = (5 * doy + 2) div 153;
          d = doy - (153 * mp + 2) div 5 + 1;
          m = (if mp < 10 then mp + 3 else mp - 9);
          y = yoe + era * 400 + (if m \<le> 2 then 1 else 0)
      in (y, m, d))"

definition us_per_day :: int where "us_per_day = 86400000000"

definition iso_date :: "int \<times> int \<times> int \<Rightarrow> string" where
  "iso_date ymd =
     (case ymd of (y, m, d) \<Rightarrow> zero_pad 4 y @ ''-'' @ zero_pad 2 m @ ''-'' @ zero_pad 2 d)"

definition iso_text :: "datetime \<Rightarrow> string" where
  "iso_text dt =
     (let n = (case dt of Aware n \<Rightarrow> n | Naive n \<Rightarrow> n);
          t = n mod us_per_day; s = t div 1000000; us = t mod 1000000
      in iso_date (civil_from_days (n div us_per_day)) @ ''T'' @
         zero_pad 2 (s div 3600) @ '':'' @ zero_pad 2 (s div 60 mod 60) @ '':'' @
         zero_pad 2 (s mod 60) @ (if us = 0 then '''' else ''.'' @ zero_pad 6 us) @
         (case dt of Aware _ \<Rightarrow> ''+00:00'' | Naive _ \<Rightarrow> ''''))"

subsection \<open>Python conversions of JSON values\<close>

fun py_truthy :: "json \<Rightarrow> bool" where
  "py_truthy JNull = False"
| "py_truthy (JBool b) = b"
| "py_truthy (JInt i) = (i \<noteq> 0)"
| "py_truthy (JFloat q) = (q \<noteq> 0)"
| "py_truthy (JStr s) = (s \<noteq> '''')"
| "py_truthy (JTime _) = True"
| "py_truthy (JList xs) = (xs \<noteq> [])"
| "py_truthy (JObj kvs) = (kvs \<noteq> [])"

text \<open>
  \<open>str(x)\<close>. Floats and containers reach it only for objects this program did not write; their
  rendering here is schematic (the exact fraction, the elements without string escapes).
\<close>

fun py_str :: "json \<Rightarrow> string" where
  "py_str JNull = ''None''"
| "py_str (JBool b) = (if b then ''True'' else ''False'')"
| "py_str (JInt i) = dec_int i"
| "py_str (JFloat q) = (case quotient_of q of (a, b) \<Rightarrow> dec_int a @ ''/'' @ dec_int b)"
| "py_str (JStr s) = s"
| "py_str (JTime t) = iso_text t"
| "py_str (JList xs) = ''['' @ py_join '', '' (map py_str xs) @ '']''"
| "py_str (JObj kvs) = ''{'' @ py_join '', '' (map fst kvs) @ ''}''"

text \<open>
  \<open>int(x)\<close> and \<open>float(x)\<close> of a decoded value whose numbers are finite doubles. Python raises
  OverflowError for \<open>int\<close> of an infinity (\<open>json.loads\<close> reads \<open>1e999\<close> as one) and for \<open>float\<close> of an
  integer beyond the doubles: \<open>finite_int\<close> and \<open>finite_float\<close> below add these two errors, and the
  reader of a shard plan, of which a property speaks for every file, uses them. The other readers take
  documents this program wrote, which hold no such number.
\<close>

fun py_int :: "json \<Rightarrow> exn + int" where
  "py_int (JInt i) = Inr i"
| "py_int (JBool b) = Inr (if b then 1 else 0)"
| "py_int (JFloat q) = Inr (py_trunc q)"
| "py_int (JStr s) = (case py_int_of_str s of None \<Rightarrow> Inl ValueError | Some v \<Rightarrow> Inr v)"
| "py_int (JTime _) = Inl ValueError"
| "py_int JNull = Inl TypeError"
| "py_int (JList _) = Inl TypeError"
| "py_int (JObj _) = Inl TypeError"

text \<open>\<open>_parse_dt(raw)\<close> of the coordination modules: a naive reading is taken as UTC.\<close>

fun parse_dt :: "json \<Rightarrow> instant option" where
  "parse_dt (JTime (Aware n)) = Some n"
| "parse_dt (JTime (Naive n)) = Some n"
| "parse_dt _ = None"

definition iso_json :: "instant option \<Rightarrow> json" where
  "iso_json t = (case t of None \<Rightarrow> JNull | Some n \<Rightarrow> JTime (Aware n))"

subsection \<open>JSON documents as stored bytes\<close>

text \<open>
  \<open>json.dumps(x, sort_keys=True)\<close> writes every object with its keys in order; \<open>json.loads\<close> reads
  the document back in that order.
\<close>

primrec jsort :: "json \<Rightarrow> json" where
  "jsort JNull = JNull"
| "jsort (JBool b) = JBool b"
| "jsort (JInt i) = JInt i"
| "jsort (JFloat q) = JFloat q"
| "jsort (JStr s) = JStr s"
| "jsort (JTime t) = JTime t"
| "jsort (JList xs) = JList (map jsort xs)"
| "jsort (JObj kvs) = JObj (sort_key fst (map (map_prod id jsort) kvs))"

definition dumps_sorted :: "json \<Rightarrow> blob" where
  "dumps_sorted j = Json (jsort j)"

fun json_loads :: "blob \<Rightarrow> exn + json" where
  "json_loads (Json j) = Inr j"
| "json_loads (Garbage _) = Inl ValueError"

text \<open>\<open>parsed if isinstance(parsed, dict) else {}\<close>\<close>

fun as_dict :: "json \<Rightarrow> pydict" where
  "as_dict (JObj kvs) = kvs"
| "as_dict _ = []"

definition dget :: "pydict \<Rightarrow> string \<Rightarrow> json \<Rightarrow> json" where
  "dget d k dflt = (case map_of d k of None \<Rightarrow> dflt | Some v \<Rightarrow> v)"

subsection \<open>Lemmas on dictionaries\<close>

lemma map_of_filter_key: "map_of xs k = map_of (filter (\<lambda>p. fst p = k) xs) k"
  by (induction xs) auto

lemma map_of_sort_key [dict_simps]: "map_of (sort_key fst xs) k = map_of xs k"
proof -
  have "filter (\<lambda>p. fst p = k) (sort_key fst xs) = filter (\<lambda>p. fst p = k) xs"
    by (rule sort_key_stable)
  then show ?thesis
    by (metis map_of_filter_key)
qed

lemma map_of_map_snd [dict_simps]: "map_of (map (map_prod id f) xs) k = map_option f (map_of xs k)"
  by (induction xs) auto

lemma dget_as_dict_jsort [dict_simps]:
  "dget (as_dict (jsort (JObj kvs))) k (jsort v) = jsort (dget kvs k v)"
  by (simp add: dget_def dict_simps split: option.splits)

lemma map_of_update_alist [dict_simps]:
  "map_of (AList.update k v xs) k' = (if k' = k then Some v else map_of xs k')"
  by (simp add: update_conv')

lemma map_of_delete_alist [dict_simps]:
  "map_of (AList.delete k xs) k' = (if k' = k then None else map_of xs k')"
  by (simp add: delete_conv')

lemma parse_dt_iso [simp]: "parse_dt (iso_json t) = t"
  by (cases t) (auto simp: iso_json_def)

lemma jsort_iso [simp]: "jsort (iso_json t) = iso_json t"
  by (cases t) (auto simp: iso_json_def)

subsection \<open>More text and number conversions\<close>

definition lower_char :: "char \<Rightarrow> char" where
  "lower_char c = (if 65 \<le> (of_char c :: nat) \<and> (of_char c :: nat) \<le> 90 then char_of (of_char c + 32 :: nat) else c)"

text \<open>\<open>s.lower()\<close>, for the letters of ASCII.\<close>

definition py_lower :: "string \<Rightarrow> string" where
  "py_lower s = map lower_char s"

text \<open>\<open>float(text)\<close> for decimal notation: sign, digits, fraction, exponent (no \<open>inf\<close>, no \<open>nan\<close>).\<close>

fun split_at_char :: "(char \<Rightarrow> bool) \<Rightarrow> string \<Rightarrow> string \<times> string option" where
  "split_at_char P [] = ([], None)"
| "split_at_char P (c # cs) =
     (if P c then ([], Some cs) else (case split_at_char P cs of (a, b) \<Rightarrow> (c # a, b)))"

definition unsigned_digits :: "string \<Rightarrow> int option" where
  "unsigned_digits s = (if s \<noteq> [] \<and> list_all is_digit s then digits_value 0 s else None)"

definition pow10 :: "int \<Rightarrow> rat" where
  "pow10 e = (if 0 \<le> e then 10 ^ nat e else 1 / 10 ^ nat (- e))"

definition mantissa_value :: "string \<Rightarrow> rat option" where
  "mantissa_value s =
     (case split_at_char (\<lambda>c. c = CHR ''.'') s of
        (a, None) \<Rightarrow> map_option of_int (unsigned_digits a)
      | (a, Some b) \<Rightarrow>
          (if a = [] \<and> b = [] then None
           else
             (case (if a = [] then Some 0 else unsigned_digits a, if b = [] then Some 0 else unsigned_digits b) of
                (Some x, Some y) \<Rightarrow> Some (of_int x + of_int y / 10 ^ length b)
              | _ \<Rightarrow> None)))"

definition py_float_of_str :: "string \<Rightarrow> rat option" where
  "py_float_of_str s =
     (let t = py_strip s;
          neg = (case t of c # _ \<Rightarrow> c = CHR ''-'' | [] \<Rightarrow> False);
          body = (case t of c # cs \<Rightarrow> if c = CHR ''-'' \<or> c = CHR ''+'' then cs else t | [] \<Rightarrow> [])
      in case split_at_char (\<lambda>c. c = CHR ''e'' \<or> c = CHR ''E'') body of
           (m, None) \<Rightarrow> map_option (\<lambda>v. if neg then - v else v) (mantissa_value m)
         | (m, Some e) \<Rightarrow>
             (case (mantissa_value m, py_int_of_str e) of
                (Some v, Some k) \<Rightarrow> Some ((if neg then - v else v) * pow10 k)
              | _ \<Rightarrow> None))"

fun py_float :: "json \<Rightarrow> exn + rat" where
  "py_float (JInt i) = Inr (of_int i)"
| "py_float (JBool b) = Inr (if b then 1 else 0)"
| "py_float (JFloat q) = Inr q"
| "py_float (JStr s) = (case py_float_of_str s of None \<Rightarrow> Inl ValueError | Some v \<Rightarrow> Inr v)"
| "py_float (JTime _) = Inl ValueError"
| "py_float JNull = Inl TypeError"
| "py_float (JList _) = Inl TypeError"
| "py_float (JObj _) = Inl TypeError"

text \<open>
  A number literal beyond the doubles: a float it denotes is an infinity, an integer it denotes has no
  float. The bound is the middle between the largest double and \<open>2 ^ 1024\<close>.
\<close>

definition float_overflows :: "rat \<Rightarrow> bool" where
  "float_overflows q \<longleftrightarrow> 2 ^ 1024 - 2 ^ 970 \<le> \<bar>q\<bar>"

definition finite_int :: "json \<Rightarrow> exn + int" where
  "finite_int v =
     (case v of JFloat q \<Rightarrow> if float_overflows q then Inl OverflowError else py_int v | _ \<Rightarrow> py_int v)"

definition finite_float :: "json \<Rightarrow> exn + rat" where
  "finite_float v =
     (case v of JInt i \<Rightarrow> if float_overflows (of_int i) then Inl OverflowError else py_float v | _ \<Rightarrow> py_float v)"

subsection \<open>Fallible maps, months\<close>

primrec mapE :: "('a \<Rightarrow> exn + 'b) \<Rightarrow> 'a list \<Rightarrow> exn + 'b list" where
  "mapE f [] = Inr []"
| "mapE f (x # xs) =
     (case f x of
        Inl e \<Rightarrow> Inl e
      | Inr y \<Rightarrow> (case mapE f xs of Inl e \<Rightarrow> Inl e | Inr ys \<Rightarrow> Inr (y # ys)))"

lemma mapE_ok: "(\<And>x. x \<in> set xs \<Longrightarrow> f x = Inr (g x)) \<Longrightarrow> mapE f xs = Inr (map g xs)"
  by (induction xs) auto

text \<open>Applying a fallible conversion to the values of a dictionary.\<close>

definition map_valuesE :: "('a \<Rightarrow> exn + 'b) \<Rightarrow> (string \<times> 'a) list \<Rightarrow> exn + (string \<times> 'b) list" where
  "map_valuesE f = mapE (\<lambda>(k, v). case f v of Inl e \<Rightarrow> Inl e | Inr w \<Rightarrow> Inr (k, w))"

lemma map_valuesE_ok:
  "(\<And>k v. (k, v) \<in> set xs \<Longrightarrow> f v = Inr (g v)) \<Longrightarrow> map_valuesE f xs = Inr (map (map_prod id g) xs)"
  unfolding map_valuesE_def by (rule mapE_ok) (auto split: prod.split)

lemma insort_key_map_prod:
  "insort_key fst (map_prod id f x) (map (map_prod id f) xs) = map (map_prod id f) (insort_key fst x xs)"
  by (induction xs) auto

lemma sort_key_map_prod [dict_simps]:
  "sort_key fst (map (map_prod id f) xs) = map (map_prod id f) (sort_key fst xs)"
  by (induction xs) (simp, simp only: list.map sort_key_simps insort_key_map_prod)

definition is_leap :: "int \<Rightarrow> bool" where
  "is_leap y \<longleftrightarrow> y mod 4 = 0 \<and> (y mod 100 \<noteq> 0 \<or> y mod 400 = 0)"

definition days_in_month :: "int \<Rightarrow> int \<Rightarrow> int" where
  "days_in_month y m = (if m = 2 then (if is_leap y then 29 else 28) else if m \<in> {4, 6, 9, 11} then 30 else 31)"

definition civil_of :: "instant \<Rightarrow> int \<times> int \<times> int" where
  "civil_of t = civil_from_days (t div us_per_day)"

subsection \<open>Substrings, splitting, optional sub-dictionaries\<close>

text \<open>\<open>needle in text\<close>\<close>

fun py_in_text :: "string \<Rightarrow> string \<Rightarrow> bool" where
  "py_in_text needle [] = (needle = [])"
| "py_in_text needle (c # cs) = (py_startswith (c # cs) needle \<or> py_in_text needle cs)"

text \<open>\<open>text.split()\<close>: the maximal runs without blanks.\<close>

fun split_words :: "string \<Rightarrow> string \<Rightarrow> string list" where
  "split_words word [] = (if word = [] then [] else [rev word])"
| "split_words word (c # cs) =
     (if is_space c then (if word = [] then split_words [] cs else rev word # split_words [] cs)
      else split_words (c # word) cs)"

definition py_split :: "string \<Rightarrow> string list" where
  "py_split s = split_words [] s"

definition bindE :: "exn + 'a \<Rightarrow> ('a \<Rightarrow> exn + 'b) \<Rightarrow> exn + 'b" where
  "bindE x f = (case x of Inl e \<Rightarrow> Inl e | Inr v \<Rightarrow> f v)"

lemma bindE_simps [simp]: "bindE (Inl e) f = Inl e" "bindE (Inr v) f = f v"
  by (simp_all add: bindE_def)

lemma bindE_Inr: "bindE m f = Inr v \<longleftrightarrow> (\<exists>x. m = Inr x \<and> f x = Inr v)"
  by (cases m) simp_all

text \<open>\<open>d.get(k) or {}\<close> whose result is then used as a dictionary.\<close>

definition sub_dict :: "pydict \<Rightarrow> string \<Rightarrow> exn + pydict" where
  "sub_dict d k =
     (let v = dget d k JNull in
      if \<not> py_truthy v then Inr []
      else (case v of JObj kvs \<Rightarrow> Inr kvs | _ \<Rightarrow> Inl (AttributeError ''get'')))"

text \<open>\<open>value in {texts}\<close>: an unhashable value raises.\<close>

fun in_texts :: "json \<Rightarrow> string list \<Rightarrow> exn + bool" where
  "in_texts (JStr s) ts = Inr (s \<in> set ts)"
| "in_texts (JList _) ts = Inl TypeError"
| "in_texts (JObj _) ts = Inl TypeError"
| "in_texts _ ts = Inr False"

text \<open>\<open>list(value)\<close> and \<open>for x in value\<close>\<close>

fun py_iter :: "json \<Rightarrow> exn + json list" where
  "py_iter (JList xs) = Inr xs"
| "py_iter (JStr s) = Inr (map (\<lambda>c. JStr [c]) s)"
| "py_iter (JTime t) = Inr (map (\<lambda>c. JStr [c]) (iso_text t))"
| "py_iter (JObj kvs) = Inr (map (\<lambda>(k, v). JStr k) kvs)"
| "py_iter _ = Inl TypeError"

text \<open>\<open>a or b\<close> on texts\<close>

definition or_text :: "string \<Rightarrow> string \<Rightarrow> string" where
  "or_text a b = (if a \<noteq> '''' then a else b)"

subsection \<open>Decimal texts are read back\<close>

lemma digit_char_value: "d < 10 \<Longrightarrow> is_digit (digit_char d) \<and> of_char (digit_char d) = 48 + d"
  by (simp add: is_digit_def digit_char_def)

lemma dec_nat_digits: "list_all is_digit (dec_nat n) \<and> dec_nat n \<noteq> []"
proof (induction n rule: dec_nat.induct)
  case (1 n)
  show ?case
  proof (cases "n < 10")
    case True
    then show ?thesis
      by (simp add: dec_nat.simps [of n] digit_char_value)
  next
    case False
    then show ?thesis
      using 1 by (simp add: dec_nat.simps [of n] digit_char_value)
  qed
qed

lemma digits_value_append:
  "list_all is_digit xs \<Longrightarrow> digits_value acc (xs @ ys) = (case digits_value acc xs of None \<Rightarrow> None | Some v \<Rightarrow> digits_value v ys)"
  by (induction xs arbitrary: acc) auto

lemma digits_value_dec_nat: "digits_value 0 (dec_nat n) = Some (int n)"
proof (induction n rule: dec_nat.induct)
  case (1 n)
  show ?case
  proof (cases "n < 10")
    case True
    then show ?thesis
      by (simp add: dec_nat.simps [of n] digit_char_value)
  next
    case False
    then have "digits_value 0 (dec_nat (n div 10)) = Some (int (n div 10))"
      using 1 by simp
    moreover have "dec_nat n = dec_nat (n div 10) @ [digit_char (n mod 10)]"
      using False by (simp add: dec_nat.simps [of n])
    moreover have "10 * int (n div 10) + int (n mod 10) = int n"
      by presburger
    ultimately show ?thesis
      using dec_nat_digits [of "n div 10"] digit_char_value [of "n mod 10"]
      by (simp add: digits_value_append)
  qed
qed

lemma dec_nat_inj: "dec_nat m = dec_nat n \<Longrightarrow> m = n"
  by (metis digits_value_dec_nat of_nat_eq_iff option.inject)

end
