(* ===== verification/Store_IO.thy ===== *)
theory Store_IO
  imports Prelude
begin

section \<open>Programs over a compare-and-swap object store\<close>

text \<open>
  Every coordination module takes a duck-typed \<open>storage\<close> argument and talks to it through two
  methods, \<open>get_bytes(key)\<close> and \<open>put_cas(key, data, content_type, if_none_match=, if_match=)\<close>
  (\<open>citypods/storage/base.py\<close>), and to the clock through \<open>datetime.now(UTC)\<close>. A function of such
  a module is an \<open>'a io\<close>: a tree whose nodes are these calls and whose continuations take the
  reply. The same tree is executed in two ways: \<open>run\<close> executes it alone against a store, and
  \<open>sys_step\<close> interleaves the calls of any number of processes on one shared store while time
  passes, which is how the GitHub Actions shards and the external GPU workers run.

  An entity tag is a strong validator: it identifies the representation it was returned with. It is
  modelled as that representation (\<open>ETag b\<close>), so two tags are equal exactly when the contents are,
  as for the content digests S3-compatible stores return for single-part objects.
\<close>

datatype etag = ETag blob

datatype cas_cond = NoCond | IfNoneMatch | IfMatch etag

type_synonym get_reply = "exn + (blob \<times> etag) option"
type_synonym put_reply = "exn + etag"

datatype 'a io =
    Ret 'a
  | Raise exn
  | GetBytes string "get_reply \<Rightarrow> 'a io"
  | PutCas string blob cas_cond "put_reply \<Rightarrow> 'a io"
  | Clock "instant \<Rightarrow> 'a io"

named_theorems io_simps \<open>rewrite rules that execute programs\<close>

subsection \<open>Sequencing, exceptions, the primitive calls\<close>

primrec bind :: "'a io \<Rightarrow> ('a \<Rightarrow> 'b io) \<Rightarrow> 'b io" where
  "bind (Ret a) f = f a"
| "bind (Raise e) f = Raise e"
| "bind (GetBytes k c) f = GetBytes k (\<lambda>r. bind (c r) f)"
| "bind (PutCas k d cnd c) f = PutCas k d cnd (\<lambda>r. bind (c r) f)"
| "bind (Clock c) f = Clock (\<lambda>t. bind (c t) f)"

text \<open>\<open>attempt p\<close> is the body of a \<open>try\<close>: its exception becomes a value the handler looks at.\<close>

primrec attempt :: "'a io \<Rightarrow> (exn + 'a) io" where
  "attempt (Ret a) = Ret (Inr a)"
| "attempt (Raise e) = Ret (Inl e)"
| "attempt (GetBytes k c) = GetBytes k (\<lambda>r. attempt (c r))"
| "attempt (PutCas k d cnd c) = PutCas k d cnd (\<lambda>r. attempt (c r))"
| "attempt (Clock c) = Clock (\<lambda>t. attempt (c t))"

definition get_bytes :: "string \<Rightarrow> (blob \<times> etag) option io" where
  "get_bytes k = GetBytes k (\<lambda>r. case r of Inl e \<Rightarrow> Raise e | Inr v \<Rightarrow> Ret v)"

definition put_cas :: "string \<Rightarrow> blob \<Rightarrow> cas_cond \<Rightarrow> etag io" where
  "put_cas k d cnd = PutCas k d cnd (\<lambda>r. case r of Inl e \<Rightarrow> Raise e | Inr v \<Rightarrow> Ret v)"

definition utc_now :: "instant io" where
  "utc_now = Clock Ret"

text \<open>\<open>now = now or datetime.now(UTC)\<close>: a datetime is always truthy.\<close>

definition now_or_clock :: "instant option \<Rightarrow> instant io" where
  "now_or_clock t = (case t of Some n \<Rightarrow> Ret n | None \<Rightarrow> utc_now)"

definition liftE :: "exn + 'a \<Rightarrow> 'a io" where
  "liftE r = (case r of Inl e \<Rightarrow> Raise e | Inr v \<Rightarrow> Ret v)"

definition forget :: "'a io \<Rightarrow> unit io" where
  "forget p = bind p (\<lambda>_. Ret ())"

text \<open>A \<open>for\<close> loop that threads an accumulator.\<close>

primrec foldIO :: "('x \<Rightarrow> 's \<Rightarrow> 's io) \<Rightarrow> 'x list \<Rightarrow> 's \<Rightarrow> 's io" where
  "foldIO f [] s = Ret s"
| "foldIO f (x # xs) s = bind (f x s) (foldIO f xs)"

definition is_conflict :: "exn \<Rightarrow> bool" where
  "is_conflict e = (case e of CASConflict _ \<Rightarrow> True | _ \<Rightarrow> False)"

text \<open>
  \<open>try: put_cas(...) except CASConflict: ...\<close>: the reply of the conditional write as an option, any
  other exception propagating.
\<close>

definition try_put :: "string \<Rightarrow> blob \<Rightarrow> cas_cond \<Rightarrow> etag option io" where
  "try_put k d cnd =
     bind (attempt (put_cas k d cnd))
       (\<lambda>r. case r of
              Inr et \<Rightarrow> Ret (Some et)
            | Inl e \<Rightarrow> if is_conflict e then Ret None else Raise e)"

definition cond_of :: "etag option \<Rightarrow> cas_cond" where
  "cond_of et = (case et of None \<Rightarrow> IfNoneMatch | Some e \<Rightarrow> IfMatch e)"

lemma bind_Ret [simp]: "bind p Ret = p"
  by (induction p) simp_all

lemma bind_assoc [simp]: "bind (bind p f) g = bind p (\<lambda>x. bind (f x) g)"
  by (induction p) simp_all

lemma attempt_bind [simp]:
  "attempt (bind p f) = bind (attempt p) (\<lambda>r. case r of Inl e \<Rightarrow> Ret (Inl e) | Inr a \<Rightarrow> attempt (f a))"
  by (induction p) simp_all

subsection \<open>Execution by one process\<close>

text \<open>
  A store is a record of its two methods over some state; both return the new state, since a
  method may count operations or spend retries.
\<close>

record 's cas_ops =
  op_get :: "'s \<Rightarrow> string \<Rightarrow> get_reply \<times> 's"
  op_put :: "'s \<Rightarrow> string \<Rightarrow> blob \<Rightarrow> cas_cond \<Rightarrow> put_reply \<times> 's"

primrec run :: "'s cas_ops \<Rightarrow> instant \<Rightarrow> 'a io \<Rightarrow> 's \<Rightarrow> (exn + 'a) \<times> 's" where
  "run ops t (Ret a) = (\<lambda>s. (Inr a, s))"
| "run ops t (Raise e) = (\<lambda>s. (Inl e, s))"
| "run ops t (GetBytes k c) = (\<lambda>s. case op_get ops s k of (r, s') \<Rightarrow> run ops t (c r) s')"
| "run ops t (PutCas k d cnd c) = (\<lambda>s. case op_put ops s k d cnd of (r, s') \<Rightarrow> run ops t (c r) s')"
| "run ops t (Clock c) = (\<lambda>s. run ops t (c t) s)"

lemma run_bind [io_simps]:
  "run ops t (bind p f) s =
     (case run ops t p s of (Inl e, s') \<Rightarrow> (Inl e, s') | (Inr a, s') \<Rightarrow> run ops t (f a) s')"
  by (induction p arbitrary: s) (simp_all split: prod.split)

lemma run_attempt [io_simps]:
  "run ops t (attempt p) s = (case run ops t p s of (r, s') \<Rightarrow> (Inr r, s'))"
  by (induction p arbitrary: s) (simp_all split: prod.split)

lemma run_get_bytes [io_simps]: "run ops t (get_bytes k) s = op_get ops s k"
  by (simp add: get_bytes_def split: prod.split sum.split)

lemma run_put_cas [io_simps]: "run ops t (put_cas k d cnd) s = op_put ops s k d cnd"
  by (simp add: put_cas_def split: prod.split sum.split)

lemma run_now [io_simps]: "run ops t (now_or_clock n) s = (Inr (case n of None \<Rightarrow> t | Some m \<Rightarrow> m), s)"
  by (simp add: now_or_clock_def utc_now_def split: option.split)

lemma run_liftE [io_simps]: "run ops t (liftE r) s = (r, s)"
  by (simp add: liftE_def split: sum.split)

subsection \<open>Interleaved execution by many processes\<close>

record ('s, 'a) sys =
  sys_store :: 's
  sys_time :: instant
  sys_proc :: "nat \<Rightarrow> 'a io"

text \<open>
  One step of the system: a process performs its next call on the shared store or reads the clock,
  time advances, or a process that has finished starts the next operation \<open>launch\<close> allows it.
\<close>

inductive sys_step ::
  "'s cas_ops \<Rightarrow> (nat \<Rightarrow> 'a io \<Rightarrow> bool) \<Rightarrow> ('s, 'a) sys \<Rightarrow> ('s, 'a) sys \<Rightarrow> bool"
  for ops :: "'s cas_ops" and launch :: "nat \<Rightarrow> 'a io \<Rightarrow> bool" where
  step_get: "sys_proc S i = GetBytes k c \<Longrightarrow> op_get ops (sys_store S) k = (r, s') \<Longrightarrow>
     sys_step ops launch S (S\<lparr>sys_store := s', sys_proc := (sys_proc S)(i := c r)\<rparr>)"
| step_put: "sys_proc S i = PutCas k d cnd c \<Longrightarrow> op_put ops (sys_store S) k d cnd = (r, s') \<Longrightarrow>
     sys_step ops launch S (S\<lparr>sys_store := s', sys_proc := (sys_proc S)(i := c r)\<rparr>)"
| step_clock: "sys_proc S i = Clock c \<Longrightarrow>
     sys_step ops launch S (S\<lparr>sys_proc := (sys_proc S)(i := c (sys_time S))\<rparr>)"
| step_tick: "sys_time S \<le> t' \<Longrightarrow> sys_step ops launch S (S\<lparr>sys_time := t'\<rparr>)"
| step_start: "sys_proc S i = Ret a \<or> sys_proc S i = Raise e \<Longrightarrow> launch i p \<Longrightarrow>
     sys_step ops launch S (S\<lparr>sys_proc := (sys_proc S)(i := p)\<rparr>)"

inductive sys_reach ::
  "'s cas_ops \<Rightarrow> (nat \<Rightarrow> 'a io \<Rightarrow> bool) \<Rightarrow> ('s, 'a) sys \<Rightarrow> ('s, 'a) sys \<Rightarrow> bool"
  for ops :: "'s cas_ops" and launch :: "nat \<Rightarrow> 'a io \<Rightarrow> bool" where
  reach_refl: "sys_reach ops launch S S"
| reach_step: "sys_reach ops launch S S' \<Longrightarrow> sys_step ops launch S' S'' \<Longrightarrow> sys_reach ops launch S S''"

definition all_idle :: "('s, 'a) sys \<Rightarrow> bool" where
  "all_idle S \<longleftrightarrow> (\<forall>i. \<exists>a. sys_proc S i = Ret a)"

definition idle_system :: "'s \<Rightarrow> instant \<Rightarrow> ('s, unit) sys" where
  "idle_system s t = \<lparr>sys_store = s, sys_time = t, sys_proc = (\<lambda>_. Ret ())\<rparr>"

lemma idle_system [simp]:
  "all_idle (idle_system s t)" "sys_store (idle_system s t) = s" "sys_time (idle_system s t) = t"
  by (simp_all add: all_idle_def idle_system_def)

text \<open>Executing a given interleaving: a list of the steps to take.\<close>

datatype 'a event = Begin nat "'a io" | Proceed nat | Wait instant

fun perform :: "'s cas_ops \<Rightarrow> 'a event \<Rightarrow> ('s, 'a) sys \<Rightarrow> ('s, 'a) sys" where
  "perform ops (Wait t') S = (if sys_time S \<le> t' then S\<lparr>sys_time := t'\<rparr> else S)"
| "perform ops (Begin i p) S =
     (case sys_proc S i of
        Ret _ \<Rightarrow> S\<lparr>sys_proc := (sys_proc S)(i := p)\<rparr>
      | Raise _ \<Rightarrow> S\<lparr>sys_proc := (sys_proc S)(i := p)\<rparr>
      | _ \<Rightarrow> S)"
| "perform ops (Proceed i) S =
     (case sys_proc S i of
        GetBytes k c \<Rightarrow>
          (case op_get ops (sys_store S) k of (r, s') \<Rightarrow>
             S\<lparr>sys_store := s', sys_proc := (sys_proc S)(i := c r)\<rparr>)
      | PutCas k d cnd c \<Rightarrow>
          (case op_put ops (sys_store S) k d cnd of (r, s') \<Rightarrow>
             S\<lparr>sys_store := s', sys_proc := (sys_proc S)(i := c r)\<rparr>)
      | Clock c \<Rightarrow> S\<lparr>sys_proc := (sys_proc S)(i := c (sys_time S))\<rparr>
      | _ \<Rightarrow> S)"

lemma perform_time:
  "sys_time (perform ops (Begin i p) S) = sys_time S"
  "sys_time (perform ops (Proceed i) S) = sys_time S"
  "sys_time S \<le> t \<Longrightarrow> sys_time (perform ops (Wait t) S) = t"
  by (simp_all split: io.split prod.split)

definition begins :: "(nat \<Rightarrow> 'a io \<Rightarrow> bool) \<Rightarrow> 'a event \<Rightarrow> bool" where
  "begins launch ev = (case ev of Begin i p \<Rightarrow> launch i p | _ \<Rightarrow> True)"

lemma perform_step:
  assumes "begins launch ev"
  shows "perform ops ev S = S \<or> sys_step ops launch S (perform ops ev S)"
proof (cases ev)
  case (Begin i p)
  with assms show ?thesis
    by (auto simp: begins_def split: io.split intro: step_start)
next
  case (Proceed i)
  then show ?thesis
    by (auto split: io.split prod.split intro: sys_step.intros)
qed (auto intro: step_tick)

lemma perform_reach:
  assumes "sys_reach ops launch S S'" and "begins launch ev"
  shows "sys_reach ops launch S (perform ops ev S')"
  using perform_step [OF assms(2), of ops S'] assms(1) by (auto intro: reach_step)

lemma schedule_reach:
  assumes "\<And>ev. ev \<in> set evs \<Longrightarrow> begins launch ev"
  shows "sys_reach ops launch S (fold (perform ops) evs S)"
proof -
  have "sys_reach ops launch S S' \<Longrightarrow> sys_reach ops launch S (fold (perform ops) evs S')" for S'
    using assms by (induction evs arbitrary: S') (auto intro: perform_reach)
  then show ?thesis by (simp add: reach_refl)
qed

text \<open>Running a program alone, from its start to its end, is one of the interleavings.\<close>

definition finished :: "exn + 'a \<Rightarrow> 'a io" where
  "finished r = (case r of Inl e \<Rightarrow> Raise e | Inr a \<Rightarrow> Ret a)"

lemma reach_trans:
  "sys_reach ops launch S1 S2 \<Longrightarrow> sys_reach ops launch S2 S3 \<Longrightarrow> sys_reach ops launch S1 S3"
  by (rotate_tac, induction rule: sys_reach.induct) (auto intro: reach_step)

lemma reach_one: "sys_step ops launch S S' \<Longrightarrow> sys_reach ops launch S S'"
  by (rule reach_step [OF reach_refl])

lemma run_reach:
  "sys_proc S i = p \<Longrightarrow> run ops (sys_time S) p (sys_store S) = (r, s') \<Longrightarrow>
   sys_reach ops launch S (S\<lparr>sys_store := s', sys_proc := (sys_proc S)(i := finished r)\<rparr>)"
proof (induction p arbitrary: S)
  case (Ret a)
  have "S\<lparr>sys_store := s', sys_proc := (sys_proc S)(i := finished r)\<rparr> = S"
    using Ret by (cases S) (auto simp: finished_def)
  then show ?case by (simp only: reach_refl)
next
  case (Raise e)
  have "S\<lparr>sys_store := s', sys_proc := (sys_proc S)(i := finished r)\<rparr> = S"
    using Raise by (cases S) (auto simp: finished_def)
  then show ?case by (simp only: reach_refl)
next
  case (GetBytes k c)
  obtain g s1 where g: "op_get ops (sys_store S) k = (g, s1)" by fastforce
  let ?S = "S\<lparr>sys_store := s1, sys_proc := (sys_proc S)(i := c g)\<rparr>"
  have "sys_reach ops launch ?S (?S\<lparr>sys_store := s', sys_proc := (sys_proc ?S)(i := finished r)\<rparr>)"
    by (rule GetBytes.IH [OF rangeI]) (use GetBytes.prems g in auto)
  moreover have "sys_step ops launch S ?S"
    by (rule step_get [OF GetBytes.prems(1) g])
  ultimately show ?case using reach_trans [OF reach_one] by fastforce
next
  case (PutCas k d cnd c)
  obtain g s1 where g: "op_put ops (sys_store S) k d cnd = (g, s1)" by fastforce
  let ?S = "S\<lparr>sys_store := s1, sys_proc := (sys_proc S)(i := c g)\<rparr>"
  have "sys_reach ops launch ?S (?S\<lparr>sys_store := s', sys_proc := (sys_proc ?S)(i := finished r)\<rparr>)"
    by (rule PutCas.IH [OF rangeI]) (use PutCas.prems g in auto)
  moreover have "sys_step ops launch S ?S"
    by (rule step_put [OF PutCas.prems(1) g])
  ultimately show ?case using reach_trans [OF reach_one] by fastforce
next
  case (Clock c)
  let ?S = "S\<lparr>sys_proc := (sys_proc S)(i := c (sys_time S))\<rparr>"
  have "sys_reach ops launch ?S (?S\<lparr>sys_store := s', sys_proc := (sys_proc ?S)(i := finished r)\<rparr>)"
    by (rule Clock.IH [OF rangeI]) (use Clock.prems in auto)
  moreover have "sys_step ops launch S ?S"
    by (rule step_clock [OF Clock.prems(1)])
  ultimately show ?case using reach_trans [OF reach_one] by fastforce
qed

lemma solo_reach:
  assumes "launch i p" and "run ops t p s = (r, s')"
  shows "sys_reach ops launch (idle_system s t)
     ((idle_system s t)\<lparr>sys_store := s', sys_proc := (\<lambda>_. Ret ())(i := finished r)\<rparr>)"
proof -
  let ?S = "(idle_system s t)\<lparr>sys_proc := (\<lambda>_. Ret ())(i := p)\<rparr>"
  have "sys_step ops launch (idle_system s t) ?S"
    using step_start [of "idle_system s t" i "()" _ launch p ops] assms(1) by (simp add: idle_system_def)
  moreover have "sys_reach ops launch ?S (?S\<lparr>sys_store := s', sys_proc := (sys_proc ?S)(i := finished r)\<rparr>)"
    by (rule run_reach [of _ _ p]) (use assms(2) in simp_all)
  ultimately show ?thesis using reach_trans [OF reach_one] by fastforce
qed

subsection \<open>Write disciplines\<close>

text \<open>
  A write discipline \<open>R t k old new\<close> says that, at time \<open>t\<close>, replacing the content \<open>old\<close> of key
  \<open>k\<close> (\<open>None\<close> when absent) by \<open>new\<close> is a legal transition. \<open>safe R Q t p\<close> says that every
  conditional write of \<open>p\<close>, started at a time not before \<open>t\<close>, is legal for the content its own
  condition names, whatever the store replies, and that \<open>p\<close> ends with a result \<open>Q\<close> accepts.
  This is a property of the program text alone: no store and no other process appears in it.
\<close>

definition cond_legal ::
  "(instant \<Rightarrow> string \<Rightarrow> blob option \<Rightarrow> blob \<Rightarrow> bool) \<Rightarrow> instant \<Rightarrow> string \<Rightarrow> cas_cond \<Rightarrow> blob \<Rightarrow> bool" where
  "cond_legal R t k cnd d =
     (case cnd of
        NoCond \<Rightarrow> (\<forall>old. R t k old d)
      | IfNoneMatch \<Rightarrow> R t k None d
      | IfMatch e \<Rightarrow> (case e of ETag b \<Rightarrow> R t k (Some b) d))"

definition reply_ok :: "get_reply \<Rightarrow> bool" where
  "reply_ok r = (case r of Inr (Some (b, e)) \<Rightarrow> e = ETag b | _ \<Rightarrow> True)"

definition put_reply_ok :: "blob \<Rightarrow> put_reply \<Rightarrow> bool" where
  "put_reply_ok d r = (case r of Inr e \<Rightarrow> e = ETag d | Inl _ \<Rightarrow> True)"

primrec safe ::
  "(instant \<Rightarrow> string \<Rightarrow> blob option \<Rightarrow> blob \<Rightarrow> bool) \<Rightarrow> (instant \<Rightarrow> exn + 'a \<Rightarrow> bool) \<Rightarrow>
   'a io \<Rightarrow> instant \<Rightarrow> bool" where
  "safe R Q (Ret a) = (\<lambda>t. Q t (Inr a))"
| "safe R Q (Raise e) = (\<lambda>t. Q t (Inl e))"
| "safe R Q (GetBytes k c) = (\<lambda>t. \<forall>r. reply_ok r \<longrightarrow> safe R Q (c r) t)"
| "safe R Q (PutCas k d cnd c) = (\<lambda>t. cond_legal R t k cnd d \<and> (\<forall>r. put_reply_ok d r \<longrightarrow> safe R Q (c r) t))"
| "safe R Q (Clock c) = (\<lambda>t. \<forall>t'\<ge>t. safe R Q (c t') t')"

definition discipline :: "(instant \<Rightarrow> string \<Rightarrow> blob option \<Rightarrow> blob \<Rightarrow> bool) \<Rightarrow> bool" where
  "discipline R \<longleftrightarrow> (\<forall>t t' k old new. t \<le> t' \<longrightarrow> R t k old new \<longrightarrow> R t' k old new)"

definition post_mono :: "(instant \<Rightarrow> exn + 'a \<Rightarrow> bool) \<Rightarrow> bool" where
  "post_mono Q \<longleftrightarrow> (\<forall>t t' r. t \<le> t' \<longrightarrow> Q t r \<longrightarrow> Q t' r)"

abbreviation any_result :: "instant \<Rightarrow> exn + 'a \<Rightarrow> bool" where
  "any_result \<equiv> (\<lambda>_ _. True)"

lemma cond_legal_mono: "discipline R \<Longrightarrow> t \<le> t' \<Longrightarrow> cond_legal R t k cnd d \<Longrightarrow> cond_legal R t' k cnd d"
  unfolding cond_legal_def discipline_def
  by (auto split: cas_cond.splits etag.splits)

lemma safe_mono_time: "discipline R \<Longrightarrow> post_mono Q \<Longrightarrow> t \<le> t' \<Longrightarrow> safe R Q p t \<Longrightarrow> safe R Q p t'"
proof (induction p arbitrary: t t')
  case (Clock c)
  then show ?case by (metis order_trans safe.simps(5))
qed (auto simp: post_mono_def intro: cond_legal_mono)

lemma post_mono_any [simp]: "post_mono any_result"
  by (simp add: post_mono_def)

lemma safe_bind:
  assumes "safe R (\<lambda>t r. case r of Inl e \<Rightarrow> Q t (Inl e) | Inr a \<Rightarrow> safe R Q (f a) t) p t"
  shows "safe R Q (bind p f) t"
  using assms by (induction p arbitrary: t) auto

lemma safe_conseq: "safe R Q p t \<Longrightarrow> (\<And>t' r. t \<le> t' \<Longrightarrow> Q t' r \<Longrightarrow> Q' t' r) \<Longrightarrow> safe R Q' p t"
proof (induction p arbitrary: t)
  case (Clock c)
  then show ?case by (simp add: order_trans)
qed auto

lemma safe_attempt: "safe R (\<lambda>t r. Q t (Inr r)) p t \<Longrightarrow> safe R Q (attempt p) t"
  by (induction p arbitrary: t) auto

lemma safe_get_bytes:
  assumes "\<And>r. reply_ok r \<Longrightarrow> Q t r"
  shows "safe R Q (get_bytes k) t"
proof -
  have "safe R Q (case r of Inl e \<Rightarrow> Raise e | Inr v \<Rightarrow> Ret v) t" if "reply_ok r" for r
    using assms [OF that] by (cases r) auto
  then show ?thesis by (simp add: get_bytes_def)
qed

lemma safe_put_cas:
  assumes "cond_legal R t k cnd d" and "\<And>e. Q t (Inl e)" and "Q t (Inr (ETag d))"
  shows "safe R Q (put_cas k d cnd) t"
proof -
  have "safe R Q (case r of Inl e \<Rightarrow> Raise e | Inr v \<Rightarrow> Ret v) t" if "put_reply_ok d r" for r
    using assms(2,3) that by (cases r) (auto simp: put_reply_ok_def)
  then show ?thesis using assms(1) by (simp add: put_cas_def)
qed

lemma safe_try_put:
  assumes "cond_legal R t k cnd d" and "\<And>e. Q t (Inl e)" and "Q t (Inr None)" and "Q t (Inr (Some (ETag d)))"
  shows "safe R Q (try_put k d cnd) t"
  unfolding try_put_def
  by (rule safe_bind, rule safe_attempt, rule safe_put_cas [OF assms(1)])
     (auto simp: assms split: sum.splits)

lemma safe_now_or_clock:
  assumes "\<And>t'. t \<le> t' \<Longrightarrow> Q t' (Inr t')"
  shows "safe R Q (now_or_clock None) t"
  using assms by (simp add: now_or_clock_def utc_now_def)

text \<open>A loop is safe when its body keeps an invariant of the accumulator.\<close>

lemma safe_foldIO:
  assumes body: "\<And>x s t. x \<in> set xs \<Longrightarrow> I s \<Longrightarrow>
           safe R (\<lambda>_ r. case r of Inl e \<Rightarrow> E e | Inr s' \<Rightarrow> I s') (f x s) t"
    and "I s"
  shows "safe R (\<lambda>_ r. case r of Inl e \<Rightarrow> E e | Inr s' \<Rightarrow> I s') (foldIO f xs s) t"
  using assms
proof (induction xs arbitrary: s t)
  case (Cons y ys s0 t0)
  have loop: "safe R (\<lambda>_ r. case r of Inl e \<Rightarrow> E e | Inr s' \<Rightarrow> I s') (foldIO f ys s1) t1" if "I s1" for s1 t1
    using Cons.IH [of s1 t1] Cons.prems(1) that by simp
  then show ?case
    unfolding foldIO.simps
  proof (intro safe_bind safe_conseq [OF Cons.prems(1) [OF _ Cons.prems(2)]])
    fix t' r
    assume "case r of Inl e \<Rightarrow> E e | Inr s' \<Rightarrow> I s'"
    with loop show "case r of
        Inl e \<Rightarrow> (case Inl e of Inl e \<Rightarrow> E e | Inr s' \<Rightarrow> I s')
      | Inr a \<Rightarrow> safe R (\<lambda>_ r. case r of Inl e \<Rightarrow> E e | Inr s' \<Rightarrow> I s') (foldIO f ys a) t'"
      by (cases r) auto
  qed simp
qed simp

text \<open>Safety without a postcondition: time only grows along a program.\<close>

lemma safe_bind_any:
  assumes "safe R any_result p t" and "\<And>t' a. t \<le> t' \<Longrightarrow> safe R any_result (f a) t'"
  shows "safe R any_result (bind p f) t"
  by (rule safe_bind, rule safe_conseq [OF assms(1)]) (simp add: assms(2) split: sum.split)

lemma safe_bind_post:
  assumes "safe R any_result p t" and "\<And>t' a. t \<le> t' \<Longrightarrow> safe R Q (f a) t'" and "\<And>t' e. t \<le> t' \<Longrightarrow> Q t' (Inl e)"
  shows "safe R Q (bind p f) t"
  by (rule safe_bind, rule safe_conseq [OF assms(1)]) (simp add: assms(2,3) split: sum.split)

lemma safe_attempt_any: "safe R any_result p t \<Longrightarrow> safe R any_result (attempt p) t"
  by (rule safe_attempt)

lemma safe_foldIO_any:
  assumes "\<And>x s t'. t \<le> t' \<Longrightarrow> x \<in> set xs \<Longrightarrow> safe R any_result (f x s) t'"
  shows "safe R any_result (foldIO f xs s) t"
  using assms
proof (induction xs arbitrary: s t)
  case (Cons y ys s0 t0)
  then show ?case by (auto intro!: safe_bind_any intro: order_trans)
qed simp

subsection \<open>The store interface\<close>

text \<open>
  What a store promises its clients. \<open>view s k\<close> is the content under key \<open>k\<close>. A read changes
  nothing and returns the current content with its tag; a conditional write either leaves every
  object alone or, only when its condition holds, replaces this one object; when it reports success
  it has done so. Nothing is assumed about reads and writes that fail with an exception: a failed
  write may still have landed.
\<close>

definition cond_holds :: "cas_cond \<Rightarrow> blob option \<Rightarrow> bool" where
  "cond_holds cnd cur =
     (case cnd of
        NoCond \<Rightarrow> True
      | IfNoneMatch \<Rightarrow> cur = None
      | IfMatch e \<Rightarrow> (case e of ETag b \<Rightarrow> cur = Some b))"

lemma cond_holds_current: "cond_holds (cond_of (map_option ETag c)) c"
  by (cases c) (auto simp: cond_holds_def cond_of_def)

lemma cond_legal_holds: "cond_legal R t k cnd d \<Longrightarrow> cond_holds cnd cur \<Longrightarrow> R t k cur d"
  unfolding cond_legal_def cond_holds_def
  by (auto split: cas_cond.splits etag.splits)

definition write_step ::
  "(instant \<Rightarrow> string \<Rightarrow> blob option \<Rightarrow> blob \<Rightarrow> bool) \<Rightarrow> instant \<Rightarrow>
   (string \<Rightarrow> blob option) \<Rightarrow> (string \<Rightarrow> blob option) \<Rightarrow> bool" where
  "write_step R t v v' \<longleftrightarrow> (\<exists>k d. R t k (v k) d \<and> v' = v(k := Some d))"

lemma write_stepI: "R t k (v k) d \<Longrightarrow> write_step R t v (v(k := Some d))"
  by (auto simp: write_step_def)

locale cas_store =
  fixes ops :: "'s cas_ops" and view :: "'s \<Rightarrow> string \<Rightarrow> blob option"
  assumes get_view: "op_get ops s k = (g, s') \<Longrightarrow> view s' = view s"
    and get_reply: "op_get ops s k = (Inr v, s') \<Longrightarrow> v = map_option (\<lambda>b. (b, ETag b)) (view s k)"
    and put_effect: "op_put ops s k d cnd = (r, s') \<Longrightarrow>
           view s' = view s \<or> cond_holds cnd (view s k) \<and> view s' = (view s)(k := Some d)"
    and put_ok: "op_put ops s k d cnd = (Inr e, s') \<Longrightarrow>
           e = ETag d \<and> cond_holds cnd (view s k) \<and> view s' = (view s)(k := Some d)"
begin

lemma get_reply_ok: "op_get ops s k = (g, s') \<Longrightarrow> reply_ok g"
  by (cases g) (auto simp: reply_ok_def dest!: get_reply split: option.splits)

lemma put_reply_tag: "op_put ops s k d cnd = (r, s') \<Longrightarrow> put_reply_ok d r"
  by (cases r) (auto simp: put_reply_ok_def dest: put_ok)

lemma put_write_step:
  assumes "op_put ops s k d cnd = (r, s')" and "cond_legal R t k cnd d"
  shows "view s' = view s \<or> write_step R t (view s) (view s')"
  using put_effect [OF assms(1)] cond_legal_holds [OF assms(2)] by (auto simp: write_step_def)

text \<open>
  Executed alone, a safe program moves the store along legal transitions and ends with a result its
  postcondition accepts.
\<close>

lemma run_safe:
  assumes "safe R Q p t" and "run ops t p s = (r, s')"
  shows "Q t r \<and> (write_step R t)\<^sup>*\<^sup>* (view s) (view s')"
  using assms
proof (induction p arbitrary: s)
  case (GetBytes k c)
  obtain g s1 where g: "op_get ops s k = (g, s1)" by fastforce
  with GetBytes.prems GetBytes.IH [of "c g" s1] show ?case
    by (auto simp: get_view [OF g] dest: get_reply_ok)
next
  case (PutCas k d cnd c)
  obtain g s1 where g: "op_put ops s k d cnd = (g, s1)" by fastforce
  have "Q t r \<and> (write_step R t)\<^sup>*\<^sup>* (view s1) (view s')"
    using PutCas.prems PutCas.IH [of "c g" s1] g put_reply_tag [OF g] by simp
  moreover have "view s1 = view s \<or> write_step R t (view s) (view s1)"
    using put_write_step [OF g] PutCas.prems by simp
  ultimately show ?case by (auto intro: converse_rtranclp_into_rtranclp)
qed auto

text \<open>
  Interleaved with any other processes, each step changes the shared objects by at most one
  transition, legal for the content the object has at that moment.
\<close>

lemma sys_step_write:
  assumes "sys_step ops launch S S'"
    and "\<And>i. safe (R i) any_result (sys_proc S i) (sys_time S)"
  shows "view (sys_store S') = view (sys_store S) \<or>
         (\<exists>i. write_step (R i) (sys_time S) (view (sys_store S)) (view (sys_store S')))"
  using assms(1)
proof (cases rule: sys_step.cases)
  case (step_get i k c g s')
  then show ?thesis by (simp add: get_view)
next
  case (step_put i k d cnd c r s')
  have "cond_legal (R i) (sys_time S) k cnd d"
    using assms(2) [of i] step_put(2) by simp
  from put_write_step [OF step_put(3) this] show ?thesis using step_put(1) by auto
qed auto

lemma sys_step_safe:
  assumes step: "sys_step ops launch S S'"
    and safe: "\<And>i. safe (R i) any_result (sys_proc S i) (sys_time S)"
    and disc: "\<And>i. discipline (R i)"
    and launch: "\<And>i p t. launch i p \<Longrightarrow> safe (R i) any_result p t"
  shows "safe (R j) any_result (sys_proc S' j) (sys_time S')"
  using step
proof (cases rule: sys_step.cases)
  case (step_get i k c g s')
  have "safe (R i) any_result (c g) (sys_time S)"
    using safe [of i] step_get(2) get_reply_ok [OF step_get(3)] by simp
  then show ?thesis using step_get(1) safe [of j] by simp
next
  case (step_put i k d cnd c r s')
  have "safe (R i) any_result (c r) (sys_time S)"
    using safe [of i] step_put(2) put_reply_tag [OF step_put(3)] by simp
  then show ?thesis using step_put(1) safe [of j] by simp
next
  case (step_clock i c)
  have "safe (R i) any_result (c (sys_time S)) (sys_time S)"
    using safe [of i] step_clock(2) by simp
  then show ?thesis using step_clock(1) safe [of j] by simp
next
  case (step_tick t')
  then show ?thesis
    using safe_mono_time [OF disc post_mono_any _ safe [of j]] by simp
next
  case (step_start i a e p)
  then show ?thesis using launch safe [of j] by simp
qed

text \<open>
  The invariant rule for interleavings: a property of the stored objects that legal transitions
  and the passing of time keep holds in every reachable state.
\<close>

lemma reach_invariant_from:
  assumes reach: "sys_reach ops launch S S'"
    and procs: "\<And>i. safe (R i) any_result (sys_proc S i) (sys_time S)"
    and disc: "\<And>i. discipline (R i)"
    and launch: "\<And>i p t. launch i p \<Longrightarrow> safe (R i) any_result p t"
    and init: "I (sys_time S) (view (sys_store S))"
    and time: "\<And>t t' v. t \<le> t' \<Longrightarrow> I t v \<Longrightarrow> I t' v"
    and trans: "\<And>i t v v'. write_step (R i) t v v' \<Longrightarrow> I t v \<Longrightarrow> I t v'"
  shows "I (sys_time S') (view (sys_store S')) \<and>
         (\<forall>i. safe (R i) any_result (sys_proc S' i) (sys_time S'))"
  using reach procs init
proof (induction rule: sys_reach.induct)
  case (reach_step S S1 S2)
  from reach_step have safe1: "\<And>i. safe (R i) any_result (sys_proc S1 i) (sys_time S1)"
    and inv1: "I (sys_time S1) (view (sys_store S1))" by simp_all
  have "safe (R j) any_result (sys_proc S2 j) (sys_time S2)" for j
    by (rule sys_step_safe [OF reach_step(2) safe1 disc launch])
  moreover have "I (sys_time S1) (view (sys_store S2))"
    using sys_step_write [OF reach_step(2) safe1] inv1 trans by auto
  moreover have "sys_time S1 \<le> sys_time S2"
    using reach_step(2) by (cases rule: sys_step.cases) auto
  ultimately show ?case using time by blast
qed simp

lemma all_idle_safe: "all_idle S \<Longrightarrow> safe R any_result (sys_proc S i) (sys_time S)"
  by (metis all_idle_def safe.simps(1))

lemmas reach_invariant = reach_invariant_from [OF _ all_idle_safe]

lemma reach_safe:
  assumes "sys_reach ops launch S S'" and "all_idle S" and "\<And>i. discipline (R i)"
    and "\<And>i p t. launch i p \<Longrightarrow> safe (R i) any_result p t"
  shows "safe (R i) any_result (sys_proc S' i) (sys_time S')"
  using reach_invariant [where I = "\<lambda>_ _. True" and R = R] assms by blast

end

text \<open>
  A reliable store answers every request on the keys it serves: reads succeed, and a conditional
  write succeeds or conflicts exactly as its condition says, a conflict leaving the object alone.
\<close>

locale reliable_store = cas_store +
  fixes serves :: "string \<Rightarrow> bool"
  assumes get_total: "serves k \<Longrightarrow> \<exists>v s'. op_get ops s k = (Inr v, s')"
    and put_total: "serves k \<Longrightarrow> cond_holds cnd (view s k) \<Longrightarrow> \<exists>e s'. op_put ops s k d cnd = (Inr e, s')"
    and put_conflict: "serves k \<Longrightarrow> \<not> cond_holds cnd (view s k) \<Longrightarrow>
           \<exists>s'. op_put ops s k d cnd = (Inl (CASConflict k), s') \<and> view s' = view s"
begin

lemma get_cases:
  assumes "serves k"
  obtains s' where "op_get ops s k = (Inr (map_option (\<lambda>b. (b, ETag b)) (view s k)), s')"
    and "view s' = view s"
proof -
  obtain v s' where "op_get ops s k = (Inr v, s')"
    using get_total [OF assms] by blast
  then show thesis using get_reply get_view that by blast
qed

lemma put_cases:
  assumes "serves k" and "cond_holds cnd (view s k)"
  obtains s' where "op_put ops s k d cnd = (Inr (ETag d), s')" and "view s' = (view s)(k := Some d)"
proof -
  obtain e s' where "op_put ops s k d cnd = (Inr e, s')"
    using put_total [OF assms] by blast
  then show thesis using put_ok that by blast
qed

end

end
