(* ===== verification/S3_Storage.thy ===== *)
theory S3_Storage
  imports Store_IO
begin

section \<open>The S3-compatible backend\<close>

text \<open>
  \<open>citypods/storage/s3.py\<close>: retries, error classification and the two compare-and-swap methods of
  \<open>S3CompatibleStorage\<close>, over a client. The client (boto3 and the R2 or B2 service behind it) is not
  part of this repository: it is the parameter \<open>cl\<close>, a record of the requests the code makes, and
  \<open>slp\<close> is \<open>time.sleep\<close>. The locale \<open>s3_service\<close> states what the code relies on.
\<close>

record 's s3_client =
  c_head :: "'s \<Rightarrow> string \<Rightarrow> (exn + unit) \<times> 's"
  c_get :: "'s \<Rightarrow> string \<Rightarrow> (exn + blob \<times> etag) \<times> 's"
  c_put :: "'s \<Rightarrow> string \<Rightarrow> blob \<Rightarrow> cas_cond \<Rightarrow> put_reply \<times> 's"

subsection \<open>Error classification\<close>

definition TRANSIENT_S3_CODES :: "string list" where
  "TRANSIENT_S3_CODES =
     [''InternalError'', ''RequestTimeout'', ''RequestTimeTooSkewed'', ''ServiceUnavailable'',
      ''SlowDown'', ''Throttling'', ''ThrottlingException'']"

definition TRANSIENT_S3_STATUS :: "int list" where
  "TRANSIENT_S3_STATUS = [408, 425, 429, 500, 502, 503, 504]"

text \<open>
  \<open>is_transient_storage_error\<close>, with the SDK installed. \<open>TransportError\<close> stands for the
  connectivity-level exception types \<open>transient_download_errors\<close> lists.
\<close>

fun is_transient_storage_error :: "exn \<Rightarrow> bool" where
  "is_transient_storage_error (StorageReadUnavailable _) = True"
| "is_transient_storage_error (AttributeError msg) =
     (py_in_text ''StreamingChecksumBody'' msg \<and> py_in_text ''strip'' msg)"
| "is_transient_storage_error TransportError = True"
| "is_transient_storage_error (S3UploadFailedError txt) =
     ((\<exists>code \<in> set TRANSIENT_S3_CODES. py_in_text code txt) \<or>
      (\<exists>status \<in> set TRANSIENT_S3_STATUS. py_in_text (''('' @ dec_int status @ '')'') txt))"
| "is_transient_storage_error (ClientError code status) =
     (code \<in> set TRANSIENT_S3_CODES \<or>
      (case status of None \<Rightarrow> False | Some st \<Rightarrow> st \<in> set TRANSIENT_S3_STATUS))"
| "is_transient_storage_error _ = False"

subsection \<open>Bounded retries\<close>

text \<open>
  Both loops make three attempts, \<open>attempt = 0, 1, 2\<close>. A read may carry a deadline, checked against
  the clock \<open>clk\<close> before each attempt and after each failure.
\<close>

definition deadline_passed :: "('s \<Rightarrow> instant) \<Rightarrow> instant option \<Rightarrow> 's \<Rightarrow> bool" where
  "deadline_passed clk deadline_at s =
     (case deadline_at of None \<Rightarrow> False | Some d \<Rightarrow> d \<le> clk s)"

definition read_delay :: "('s \<Rightarrow> instant) \<Rightarrow> instant option \<Rightarrow> nat \<Rightarrow> 's \<Rightarrow> rat" where
  "read_delay clk deadline_at att s =
     (case deadline_at of
        None \<Rightarrow> 2 ^ att
      | Some d \<Rightarrow> min (2 ^ att) (max 0 (of_int (d - clk s) / 1000000)))"

function retry_storage_read ::
  "('s \<Rightarrow> instant) \<Rightarrow> (rat \<Rightarrow> 's \<Rightarrow> 's) \<Rightarrow> ('s \<Rightarrow> (exn + 'a) \<times> 's) \<Rightarrow> string \<Rightarrow> instant option \<Rightarrow>
   nat \<Rightarrow> 's \<Rightarrow> (exn + 'a) \<times> 's" where
  "retry_storage_read clk slp operation key deadline_at att s =
     (if 3 \<le> att then (Inl AssertionError, s)
      else if deadline_passed clk deadline_at s then (Inl (StorageReadUnavailable key), s)
      else
        (case operation s of
           (Inr v, s') \<Rightarrow> (Inr v, s')
         | (Inl e, s') \<Rightarrow>
             if deadline_passed clk deadline_at s' then (Inl (StorageReadUnavailable key), s')
             else if \<not> is_transient_storage_error e then (Inl e, s')
             else if att = 2 then (Inl (StorageReadUnavailable key), s')
             else
               retry_storage_read clk slp operation key deadline_at (Suc att)
                 (slp (read_delay clk deadline_at att s') s')))"
  by pat_completeness auto
termination
  by (relation "measure (\<lambda>(_, _, _, _, _, att, _). 3 - att)") auto

function retry_storage_write ::
  "(rat \<Rightarrow> 's \<Rightarrow> 's) \<Rightarrow> ('s \<Rightarrow> (exn + 'a) \<times> 's) \<Rightarrow> nat \<Rightarrow> 's \<Rightarrow> (exn + 'a) \<times> 's" where
  "retry_storage_write slp operation att s =
     (if 3 \<le> att then (Inl AssertionError, s)
      else
        (case operation s of
           (Inr v, s') \<Rightarrow> (Inr v, s')
         | (Inl e, s') \<Rightarrow>
             if \<not> is_transient_storage_error e then (Inl e, s')
             else if att = 2 then (Inl e, s')
             else retry_storage_write slp operation (Suc att) (slp (2 ^ att) s')))"
  by pat_completeness auto
termination
  by (relation "measure (\<lambda>(_, _, att, _). 3 - att)") auto

declare retry_storage_read.simps [simp del] retry_storage_write.simps [simp del]

subsection \<open>The methods\<close>

fun is_absent_error :: "exn \<Rightarrow> bool" where
  "is_absent_error (ClientError code status) = (code \<in> {''NoSuchKey'', ''404''} \<or> status = Some 404)"
| "is_absent_error _ = False"

fun is_precondition_error :: "exn \<Rightarrow> bool" where
  "is_precondition_error (ClientError code status) =
     (code \<in> {''PreconditionFailed'', ''ConditionalRequestConflict''} \<or> status = Some 412)"
| "is_precondition_error _ = False"

definition s3_exists :: "'s s3_client \<Rightarrow> (rat \<Rightarrow> 's \<Rightarrow> 's) \<Rightarrow> string \<Rightarrow> 's \<Rightarrow> (exn + bool) \<times> 's" where
  "s3_exists cl slp key s =
     (case retry_storage_read (\<lambda>_. 0) slp (\<lambda>s. c_head cl s key) key None 0 s of
        (Inr _, s') \<Rightarrow> (Inr True, s')
      | (Inl e, s') \<Rightarrow> if is_absent_error e then (Inr False, s') else (Inl e, s'))"

definition s3_get_bytes :: "'s s3_client \<Rightarrow> (rat \<Rightarrow> 's \<Rightarrow> 's) \<Rightarrow> 's \<Rightarrow> string \<Rightarrow> get_reply \<times> 's" where
  "s3_get_bytes cl slp s key =
     (case retry_storage_read (\<lambda>_. 0) slp (\<lambda>s. c_get cl s key) key None 0 s of
        (Inr v, s') \<Rightarrow> (Inr (Some v), s')
      | (Inl e, s') \<Rightarrow> if is_absent_error e then (Inr None, s') else (Inl e, s'))"

definition s3_put_cas ::
  "'s s3_client \<Rightarrow> (rat \<Rightarrow> 's \<Rightarrow> 's) \<Rightarrow> 's \<Rightarrow> string \<Rightarrow> blob \<Rightarrow> cas_cond \<Rightarrow> put_reply \<times> 's" where
  "s3_put_cas cl slp s key data cnd =
     (case retry_storage_write slp (\<lambda>s. c_put cl s key data cnd) 0 s of
        (Inr etag, s') \<Rightarrow> (Inr etag, s')
      | (Inl e, s') \<Rightarrow> if is_precondition_error e then (Inl (CASConflict key), s') else (Inl e, s'))"

definition s3_ops :: "'s s3_client \<Rightarrow> (rat \<Rightarrow> 's \<Rightarrow> 's) \<Rightarrow> 's cas_ops" where
  "s3_ops cl slp = \<lparr>op_get = s3_get_bytes cl slp, op_put = s3_put_cas cl slp\<rparr>"

subsection \<open>The retry loops keep what each attempt keeps\<close>

lemma retry_storage_read_inv:
  assumes "retry_storage_read clk slp operation key dl att s = (r, s')" and "I s"
    and "\<And>s q s'. operation s = (q, s') \<Longrightarrow> I s \<Longrightarrow> I s'"
    and "\<And>d s. I s \<Longrightarrow> I (slp d s)"
  shows "I s' \<and> (\<forall>v. r = Inr v \<longrightarrow> (\<exists>s1. I s1 \<and> operation s1 = (Inr v, s'))) \<and>
         (\<forall>e. r = Inl e \<longrightarrow> is_absent_error e \<longrightarrow> (\<exists>s1. I s1 \<and> operation s1 = (Inl e, s')))"
  using assms
proof (induction clk slp operation key dl att s rule: retry_storage_read.induct)
  case (1 clk slp operation key dl att s)
  show ?case
  proof (cases "3 \<le> att \<or> deadline_passed clk dl s")
    case True
    then show ?thesis
      using "1.prems"(1,2) by (subst (asm) retry_storage_read.simps) (auto split: if_splits)
  next
    case False
    obtain q s1 where q: "operation s = (q, s1)" by fastforce
    have s1: "I s1" using "1.prems"(2,3) q by blast
    show ?thesis
    proof (cases "\<exists>e. q = Inl e \<and> \<not> deadline_passed clk dl s1 \<and> is_transient_storage_error e \<and> att \<noteq> 2")
      case True
      then obtain e where e: "q = Inl e" "\<not> deadline_passed clk dl s1"
        "is_transient_storage_error e" "att \<noteq> 2" by blast
      with False q "1.prems"(1) have rec: "retry_storage_read clk slp operation key dl (Suc att)
          (slp (read_delay clk dl att s1) s1) = (r, s')"
        by (subst (asm) retry_storage_read.simps) simp
      show ?thesis
        by (rule "1.IH" [OF _ _ q [symmetric] e(1,2) _ e(4)])
           (use False e rec "1.prems"(3,4) s1 in auto)
    next
      case no_retry: False
      with False q "1.prems"(1,2) s1 show ?thesis
        by (subst (asm) retry_storage_read.simps) (auto split: sum.splits if_splits)
    qed
  qed
qed

lemma retry_storage_write_cases:
  assumes "retry_storage_write slp operation att s = (r, s')"
    and "\<And>d s. I s \<Longrightarrow> I (slp d s)"
    and "I s" and "\<And>s e s'. operation s = (Inl e, s') \<Longrightarrow> I s \<Longrightarrow> I s'"
  shows "(\<exists>e. r = Inl e) \<and> I s' \<or> (\<exists>v s1. r = Inr v \<and> I s1 \<and> operation s1 = (Inr v, s'))"
  using assms
proof (induction slp operation att s rule: retry_storage_write.induct)
  case (1 slp operation att s)
  obtain q s1 where q: "operation s = (q, s1)" by fastforce
  show ?case
  proof (cases "\<exists>e. q = Inl e \<and> is_transient_storage_error e \<and> att \<noteq> 2 \<and> \<not> 3 \<le> att")
    case True
    then obtain e where e: "q = Inl e" "is_transient_storage_error e" "att \<noteq> 2" "\<not> 3 \<le> att" by blast
    with q "1.prems"(1) have rec: "retry_storage_write slp operation (Suc att) (slp (2 ^ att) s1) = (r, s')"
      by (subst (asm) retry_storage_write.simps) simp
    have "I s1" using "1.prems"(3,4) q e(1) by blast
    then show ?thesis
      by (intro "1.IH" [OF _ q [symmetric] e(1) _ e(3)]) (use e rec "1.prems"(2,4) in auto)
  next
    case False
    with q "1.prems" show ?thesis
      by (subst (asm) retry_storage_write.simps) (auto split: sum.splits if_splits)
  qed
qed

subsection \<open>What the service promises, and what the backend makes of it\<close>

text \<open>
  The documented behaviour of the service: a read changes nothing, returns the current object, and
  answers "absent" only for an absent object; a conditional PUT that reports success met its
  condition and stored the object; one that reports an error either stored it under its condition or
  changed nothing (a lost response is an error too). Sleeping changes no object.
\<close>

locale s3_service =
  fixes cl :: "'s s3_client" and slp :: "rat \<Rightarrow> 's \<Rightarrow> 's" and view :: "'s \<Rightarrow> string \<Rightarrow> blob option"
  assumes get_keeps: "c_get cl s k = (g, s') \<Longrightarrow> view s' = view s"
    and get_found: "c_get cl s k = (Inr (b, e), s') \<Longrightarrow> view s k = Some b \<and> e = ETag b"
    and get_absent: "c_get cl s k = (Inl err, s') \<Longrightarrow> is_absent_error err \<Longrightarrow> view s k = None"
    and put_stored: "c_put cl s k d cnd = (Inr e, s') \<Longrightarrow>
           e = ETag d \<and> cond_holds cnd (view s k) \<and> view s' = (view s)(k := Some d)"
    and put_failed: "c_put cl s k d cnd = (Inl err, s') \<Longrightarrow>
           view s' = view s \<or> cond_holds cnd (view s k) \<and> view s' = (view s)(k := Some d)"
    and sleep_keeps: "view (slp w s) = view s"
begin

lemma s3_get_view: "s3_get_bytes cl slp s k = (g, s') \<Longrightarrow> view s' = view s"
  using retry_storage_read_inv [where I = "\<lambda>s1. view s1 = view s" and slp = slp and s = s
      and operation = "\<lambda>s. c_get cl s k"] get_keeps sleep_keeps
  by (fastforce simp: s3_get_bytes_def split: prod.splits sum.splits if_splits)

lemma s3_get_reply:
  assumes "s3_get_bytes cl slp s k = (Inr v, s')"
  shows "v = map_option (\<lambda>b. (b, ETag b)) (view s k)"
proof -
  obtain q where q: "retry_storage_read (\<lambda>_. 0) slp (\<lambda>s. c_get cl s k) k None 0 s = (q, s')"
    and v: "(\<exists>x. q = Inr x \<and> v = Some x) \<or> (\<exists>e. q = Inl e \<and> is_absent_error e \<and> v = None)"
    using assms by (auto simp: s3_get_bytes_def split: prod.splits sum.splits if_splits)
  have inv: "(\<forall>x. q = Inr x \<longrightarrow> (\<exists>s1. view s1 = view s \<and> c_get cl s1 k = (Inr x, s'))) \<and>
      (\<forall>e. q = Inl e \<longrightarrow> is_absent_error e \<longrightarrow> (\<exists>s1. view s1 = view s \<and> c_get cl s1 k = (Inl e, s')))"
    using retry_storage_read_inv [OF q, where I = "\<lambda>s1. view s1 = view s"] get_keeps sleep_keeps
    by simp
  show ?thesis
    using v
  proof (elim disjE exE conjE)
    fix x assume "q = Inr x" and "v = Some x"
    then show ?thesis using inv get_found by (cases x) fastforce
  next
    fix e assume "q = Inl e" and "is_absent_error e" and "v = None"
    then show ?thesis using inv get_absent by fastforce
  qed
qed

text \<open>
  Across the retries of one write, the store is untouched or holds our data; a reported success
  met the condition in the state the call started from.
\<close>

lemma s3_put_steps:
  assumes "retry_storage_write slp (\<lambda>s. c_put cl s k d cnd) 0 s = (q, s')"
  defines "touched s1 \<equiv> view s1 = view s \<or> cond_holds cnd (view s k) \<and> view s1 = (view s)(k := Some d)"
  shows "touched s' \<and>
         (\<forall>e. q = Inr e \<longrightarrow> e = ETag d \<and> cond_holds cnd (view s k) \<and> view s' = (view s)(k := Some d))"
proof -
  have "touched s1 \<Longrightarrow> touched (slp w s1)" for w s1
    by (simp add: touched_def sleep_keeps)
  moreover have "touched s1 \<Longrightarrow> c_put cl s1 k d cnd = (Inl e, s2) \<Longrightarrow> touched s2" for e s1 s2
    using put_failed [of s1 k d cnd e s2] by (auto simp: touched_def)
  ultimately have "(\<exists>e. q = Inl e) \<and> touched s' \<or>
        (\<exists>v s1. q = Inr v \<and> touched s1 \<and> c_put cl s1 k d cnd = (Inr v, s'))"
    by (intro retry_storage_write_cases [OF assms(1), where I = touched]) (auto simp: touched_def)
  moreover have "v = ETag d \<and> cond_holds cnd (view s k) \<and> view s' = (view s)(k := Some d)"
    if "touched s1" and "c_put cl s1 k d cnd = (Inr v, s')" for v s1
    using put_stored [OF that(2)] that(1) by (auto simp: touched_def)
  ultimately show ?thesis by (auto simp: touched_def)
qed

sublocale cas: cas_store "s3_ops cl slp" view
proof
  show "view s' = view s" if "op_get (s3_ops cl slp) s k = (g, s')" for s k g s'
    using that s3_get_view by (simp add: s3_ops_def)
  show "v = map_option (\<lambda>b. (b, ETag b)) (view s k)"
    if "op_get (s3_ops cl slp) s k = (Inr v, s')" for s k v s'
    using that s3_get_reply by (simp add: s3_ops_def)
  show "view s' = view s \<or> cond_holds cnd (view s k) \<and> view s' = (view s)(k := Some d)"
    if "op_put (s3_ops cl slp) s k d cnd = (r, s')" for s k d cnd r s'
    using that s3_put_steps
    by (fastforce simp: s3_ops_def s3_put_cas_def split: prod.splits sum.splits if_splits)
  show "e = ETag d \<and> cond_holds cnd (view s k) \<and> view s' = (view s)(k := Some d)"
    if "op_put (s3_ops cl slp) s k d cnd = (Inr e, s')" for s k d cnd e s'
    using that s3_put_steps
    by (fastforce simp: s3_ops_def s3_put_cas_def split: prod.splits sum.splits if_splits)
qed

lemma s3_cas_store: "cas_store (s3_ops cl slp) view"
  by (rule cas.cas_store_axioms)

end

text \<open>A service without faults: every request is answered as its condition says, at once.\<close>

locale reliable_s3_service = s3_service +
  assumes get_answers: "\<exists>g s'. c_get cl s k = (g, s') \<and>
           (case view s k of Some b \<Rightarrow> g = Inr (b, ETag b) | None \<Rightarrow> g = Inl (ClientError ''NoSuchKey'' (Some 404)))"
    and put_accepts: "cond_holds cnd (view s k) \<Longrightarrow> \<exists>s'. c_put cl s k d cnd = (Inr (ETag d), s')"
    and put_rejects: "\<not> cond_holds cnd (view s k) \<Longrightarrow>
           \<exists>s'. c_put cl s k d cnd = (Inl (ClientError ''PreconditionFailed'' (Some 412)), s') \<and> view s' = view s"
begin

sublocale rel: reliable_store "s3_ops cl slp" view "\<lambda>_. True"
proof
  fix s k d cnd
  obtain g s' where g: "c_get cl s k = (g, s')" and
    ans: "case view s k of Some b \<Rightarrow> g = Inr (b, ETag b) | None \<Rightarrow> g = Inl (ClientError ''NoSuchKey'' (Some 404))"
    using get_answers by blast
  have "\<not> is_transient_storage_error (ClientError ''NoSuchKey'' (Some 404))"
    by (simp add: TRANSIENT_S3_CODES_def TRANSIENT_S3_STATUS_def)
  with g ans show "\<exists>v s'. op_get (s3_ops cl slp) s k = (Inr v, s')"
    by (simp add: s3_ops_def s3_get_bytes_def retry_storage_read.simps deadline_passed_def split: option.splits)
  show "\<exists>e s'. op_put (s3_ops cl slp) s k d cnd = (Inr e, s')" if "cond_holds cnd (view s k)"
    using put_accepts [OF that, of d]
    by (auto simp: s3_ops_def s3_put_cas_def retry_storage_write.simps)
  have "\<not> is_transient_storage_error (ClientError ''PreconditionFailed'' (Some 412))"
    by (simp add: TRANSIENT_S3_CODES_def TRANSIENT_S3_STATUS_def)
  then show "\<exists>s'. op_put (s3_ops cl slp) s k d cnd = (Inl (CASConflict k), s') \<and> view s' = view s"
    if "\<not> cond_holds cnd (view s k)"
    using put_rejects [OF that, of d]
    by (auto simp: s3_ops_def s3_put_cas_def retry_storage_write.simps)
qed

end

subsection \<open>Two services\<close>

text \<open>
  Services the hypotheses hold for. \<open>bucket_client\<close> answers every request; \<open>flaky_client\<close> takes a
  list of faults: a request can be lost before it is applied, or its answer can be lost afterwards.
\<close>

type_synonym bucket = "string \<Rightarrow> blob option"

definition bucket_get :: "bucket \<Rightarrow> string \<Rightarrow> (exn + blob \<times> etag) \<times> bucket" where
  "bucket_get s k =
     ((case s k of
         Some b \<Rightarrow> Inr (b, ETag b)
       | None \<Rightarrow> Inl (ClientError ''NoSuchKey'' (Some 404))), s)"

definition bucket_put :: "bucket \<Rightarrow> string \<Rightarrow> blob \<Rightarrow> cas_cond \<Rightarrow> put_reply \<times> bucket" where
  "bucket_put s k d cnd =
     (if cond_holds cnd (s k) then (Inr (ETag d), s(k := Some d))
      else (Inl (ClientError ''PreconditionFailed'' (Some 412)), s))"

definition bucket_client :: "bucket s3_client" where
  "bucket_client =
     \<lparr>c_head = (\<lambda>s k. (if s k = None then Inl (ClientError ''404'' (Some 404)) else Inr (), s)),
      c_get = bucket_get, c_put = bucket_put\<rparr>"

datatype fault = NoFault | LostRequest | LostReply

record flaky_bucket =
  fb_objs :: bucket
  fb_faults :: "fault list"

definition next_fault :: "flaky_bucket \<Rightarrow> fault \<times> flaky_bucket" where
  "next_fault s =
     (case fb_faults s of [] \<Rightarrow> (NoFault, s) | f # fs \<Rightarrow> (f, s\<lparr>fb_faults := fs\<rparr>))"

definition unavailable :: exn where
  "unavailable = ClientError ''ServiceUnavailable'' (Some 503)"

definition flaky_client :: "flaky_bucket s3_client" where
  "flaky_client =
     \<lparr>c_head = (\<lambda>s k. case next_fault s of (f, s1) \<Rightarrow>
        (if f \<noteq> NoFault then Inl unavailable
         else if fb_objs s1 k = None then Inl (ClientError ''404'' (Some 404)) else Inr (), s1)),
      c_get = (\<lambda>s k. case next_fault s of (f, s1) \<Rightarrow>
        (if f \<noteq> NoFault then Inl unavailable else fst (bucket_get (fb_objs s1) k), s1)),
      c_put = (\<lambda>s k d cnd. case next_fault s of (f, s1) \<Rightarrow>
        (case bucket_put (fb_objs s1) k d cnd of (r, objs) \<Rightarrow>
          (case f of
             NoFault \<Rightarrow> (r, s1\<lparr>fb_objs := objs\<rparr>)
           | LostRequest \<Rightarrow> (Inl unavailable, s1)
           | LostReply \<Rightarrow> (Inl unavailable, s1\<lparr>fb_objs := objs\<rparr>))))\<rparr>"

abbreviation no_sleep :: "rat \<Rightarrow> 's \<Rightarrow> 's" where "no_sleep \<equiv> (\<lambda>_ s. s)"

definition r2_bucket :: "bucket cas_ops" where
  "r2_bucket = s3_ops bucket_client no_sleep"

interpretation r2: reliable_s3_service bucket_client no_sleep "\<lambda>s. s"
  by unfold_locales
     (auto simp: bucket_client_def bucket_get_def bucket_put_def split: option.splits if_splits)

lemma fb_objs_next_fault: "next_fault s = (f, s1) \<Longrightarrow> fb_objs s1 = fb_objs s"
  by (auto simp: next_fault_def split: list.splits)

interpretation flaky: s3_service flaky_client no_sleep fb_objs
  by unfold_locales
     (auto simp: flaky_client_def bucket_get_def bucket_put_def unavailable_def
       dest!: fb_objs_next_fault split: prod.splits option.splits if_splits fault.splits)

lemma r2_bucket_get [io_simps]: "op_get r2_bucket s k = (Inr (map_option (\<lambda>b. (b, ETag b)) (s k)), s)"
proof -
  obtain s' where s': "op_get r2_bucket s k = (Inr (map_option (\<lambda>b. (b, ETag b)) (s k)), s')" "s' = s"
    using r2.rel.get_cases [of s k] unfolding r2_bucket_def by auto
  then show ?thesis by simp
qed

lemma r2_bucket_put [io_simps]:
  "op_put r2_bucket s k d cnd =
     (if cond_holds cnd (s k) then (Inr (ETag d), s(k := Some d)) else (Inl (CASConflict k), s))"
proof (cases "cond_holds cnd (s k)")
  case True
  then show ?thesis using r2.rel.put_cases [of cnd s k d] unfolding r2_bucket_def by auto
next
  case False
  then show ?thesis using r2.rel.put_conflict [of cnd s k d] unfolding r2_bucket_def by auto
qed

lemma r2_store: "cas_store r2_bucket (\<lambda>s. s)"
  using r2.cas.cas_store_axioms by (simp add: r2_bucket_def)

lemma r2_reliable: "reliable_store r2_bucket (\<lambda>s. s) (\<lambda>_. True)"
  using r2.rel.reliable_store_axioms by (simp add: r2_bucket_def)

text \<open>One call on the flaky service, for the next fault in its list.\<close>

lemma lost_reply_conflict_aux:
  assumes "cond_holds cnd (b k)" and "\<not> cond_holds cnd (Some d)"
  shows "s3_put_cas flaky_client no_sleep \<lparr>fb_objs = b, fb_faults = [LostReply]\<rparr> k d cnd =
    (Inl (CASConflict k), \<lparr>fb_objs = b(k := Some d), fb_faults = []\<rparr>)"
proof -
  have "is_transient_storage_error unavailable"
    "\<not> is_transient_storage_error (ClientError ''PreconditionFailed'' (Some 412))"
    by (simp_all add: unavailable_def TRANSIENT_S3_CODES_def TRANSIENT_S3_STATUS_def)
  then show ?thesis
    using assms
    by (simp add: s3_put_cas_def flaky_client_def next_fault_def bucket_put_def
        retry_storage_write.simps)
qed

abbreviation flaky_bucket_ops :: "flaky_bucket cas_ops" where
  "flaky_bucket_ops \<equiv> s3_ops flaky_client no_sleep"

lemma flaky_get:
  assumes "fs = [] \<and> fs' = [] \<or> fs = NoFault # fs'"
  shows "op_get flaky_bucket_ops \<lparr>fb_objs = b, fb_faults = fs\<rparr> k =
     (Inr (map_option (\<lambda>d. (d, ETag d)) (b k)), \<lparr>fb_objs = b, fb_faults = fs'\<rparr>)"
proof -
  have "\<not> is_transient_storage_error (ClientError ''NoSuchKey'' (Some 404))"
    by (simp add: TRANSIENT_S3_CODES_def TRANSIENT_S3_STATUS_def)
  then show ?thesis
    using assms
    by (auto simp: s3_ops_def s3_get_bytes_def flaky_client_def next_fault_def bucket_get_def
        retry_storage_read.simps deadline_passed_def split: option.split)
qed

lemma flaky_put:
  assumes "fs = [] \<and> fs' = [] \<or> fs = NoFault # fs'" and "cond_holds cnd (b k)"
  shows "op_put flaky_bucket_ops \<lparr>fb_objs = b, fb_faults = fs\<rparr> k d cnd =
     (Inr (ETag d), \<lparr>fb_objs = b(k := Some d), fb_faults = fs'\<rparr>)"
  using assms
  by (auto simp: s3_ops_def s3_put_cas_def flaky_client_def next_fault_def bucket_put_def retry_storage_write.simps)

lemma flaky_put_lost:
  assumes "cond_holds cnd (b k)" and "\<not> cond_holds cnd (Some d)"
  shows "op_put flaky_bucket_ops \<lparr>fb_objs = b, fb_faults = [LostReply]\<rparr> k d cnd =
     (Inl (CASConflict k), \<lparr>fb_objs = b(k := Some d), fb_faults = []\<rparr>)"
  using lost_reply_conflict_aux assms by (simp add: s3_ops_def)

end
