(* ===== verification/Routing_Storage.thy ===== *)
theory Routing_Storage
  imports S3_Storage
begin

section \<open>Routing between the primary and the coordination backend\<close>

text \<open>
  \<open>citypods/storage/routing.py\<close>: \<open>RoutingStorage\<close> sends the keys under the coordination prefixes to
  the compare-and-swap backend and every other key to the primary one, and counts the metered
  operations of the former. Each backend appears as its methods (\<open>cas_ops\<close>) and its \<open>cas_capable\<close>
  flag.
\<close>

definition COORDINATION_PREFIXES :: "string list" where
  "COORDINATION_PREFIXES =
     [''state/compute_budget.json'', ''state/llm_budget.json'', ''state/asr_worker_telemetry.json'',
      ''state/transcript_quality_ledger.json'', ''state/catalog/manifest.json'', ''work-leases/'',
      ''work-leases-index/'', ''provider-leases/'', ''maintenance-leases/'']"

definition EPHEMERAL_R2_PREFIXES :: "string list" where
  "EPHEMERAL_R2_PREFIXES =
     [''state/compute_budget.json'', ''state/llm_budget.json'', ''state/asr_worker_telemetry.json'',
      ''state/transcript_quality_ledger.json'', ''state/catalog/manifest.json'', ''work-leases/'',
      ''work-leases-index/'', ''provider-leases/'', ''maintenance-leases/'']"

definition assert_coordination_prefixes_ephemeral :: "string list \<Rightarrow> string list \<Rightarrow> exn + unit" where
  "assert_coordination_prefixes_ephemeral prefixes allow =
     (let undeclared = filter (\<lambda>p. p \<notin> set allow) prefixes
      in if undeclared \<noteq> [] then Inl AssertionError else Inr ())"

record ('p, 'c) backends =
  b_primary :: "'p cas_ops"
  b_primary_cas :: bool
  b_coord :: "'c cas_ops"
  b_coord_cas :: bool
  b_prefixes :: "string list"

text \<open>The state: both backends' states (no coordination backend: \<open>None\<close>) and the two counters.\<close>

record ('p, 'c) router =
  r_primary :: 'p
  r_coord :: "'c option"
  r_class_a :: nat
  r_class_b :: nat

definition starts_with_any :: "string \<Rightarrow> string list \<Rightarrow> bool" where
  "starts_with_any key prefixes \<longleftrightarrow> (\<exists>p \<in> set prefixes. py_startswith key p)"

definition routing_cas_capable :: "('p, 'c) backends \<Rightarrow> ('p, 'c) router \<Rightarrow> bool" where
  "routing_cas_capable B s \<longleftrightarrow> r_coord s \<noteq> None \<and> b_coord_cas B"

definition is_cas_managed_key :: "('p, 'c) backends \<Rightarrow> ('p, 'c) router \<Rightarrow> string \<Rightarrow> bool" where
  "is_cas_managed_key B s key \<longleftrightarrow> routing_cas_capable B s \<and> starts_with_any key (b_prefixes B)"

definition is_coordination :: "('p, 'c) backends \<Rightarrow> ('p, 'c) router \<Rightarrow> string \<Rightarrow> bool" where
  "is_coordination B s key \<longleftrightarrow> r_coord s \<noteq> None \<and> starts_with_any key (b_prefixes B)"

definition routing_get_bytes ::
  "('p, 'c) backends \<Rightarrow> ('p, 'c) router \<Rightarrow> string \<Rightarrow> get_reply \<times> ('p, 'c) router" where
  "routing_get_bytes B s key =
     (if is_coordination B s key then
        (if \<not> b_coord_cas B then (Inl NotImplementedError, s)
         else
           (case op_get (b_coord B) (the (r_coord s)) key of
              (r, c') \<Rightarrow> (r, s\<lparr>r_class_b := Suc (r_class_b s), r_coord := Some c'\<rparr>)))
      else if \<not> b_primary_cas B then (Inl NotImplementedError, s)
      else (case op_get (b_primary B) (r_primary s) key of (r, p') \<Rightarrow> (r, s\<lparr>r_primary := p'\<rparr>)))"

definition routing_put_cas ::
  "('p, 'c) backends \<Rightarrow> ('p, 'c) router \<Rightarrow> string \<Rightarrow> blob \<Rightarrow> cas_cond \<Rightarrow> put_reply \<times> ('p, 'c) router" where
  "routing_put_cas B s key data cnd =
     (if is_coordination B s key then
        (if \<not> b_coord_cas B then (Inl NotImplementedError, s)
         else
           (case op_put (b_coord B) (the (r_coord s)) key data cnd of
              (r, c') \<Rightarrow> (r, s\<lparr>r_class_a := Suc (r_class_a s), r_coord := Some c'\<rparr>)))
      else if \<not> b_primary_cas B then (Inl NotImplementedError, s)
      else
        (case op_put (b_primary B) (r_primary s) key data cnd of (r, p') \<Rightarrow> (r, s\<lparr>r_primary := p'\<rparr>)))"

definition routing_ops :: "('p, 'c) backends \<Rightarrow> ('p, 'c) router cas_ops" where
  "routing_ops B = \<lparr>op_get = routing_get_bytes B, op_put = routing_put_cas B\<rparr>"

text \<open>The content of a key is the content on the backend the key routes to.\<close>

definition routing_view ::
  "('p, 'c) backends \<Rightarrow> ('p \<Rightarrow> string \<Rightarrow> blob option) \<Rightarrow> ('c \<Rightarrow> string \<Rightarrow> blob option) \<Rightarrow>
   ('p, 'c) router \<Rightarrow> string \<Rightarrow> blob option" where
  "routing_view B pview cview s key =
     (if is_coordination B s key then cview (the (r_coord s)) key else pview (r_primary s) key)"

text \<open>
  A backend is a compare-and-swap store only if it says so: nothing is known of one whose \<open>cas_capable\<close>
  is false, and the router never calls it.
\<close>

locale routed_store =
  fixes B :: "('p, 'c) backends" and pview :: "'p \<Rightarrow> string \<Rightarrow> blob option" and cview :: "'c \<Rightarrow> string \<Rightarrow> blob option"
  assumes prim: "b_primary_cas B \<Longrightarrow> cas_store (b_primary B) pview"
    and coord: "b_coord_cas B \<Longrightarrow> cas_store (b_coord B) cview"
begin

definition split_view :: "('p, 'c) router \<Rightarrow> 'p \<Rightarrow> 'c \<Rightarrow> string \<Rightarrow> blob option" where
  "split_view s p c = (\<lambda>k'. if is_coordination B s k' then cview c k' else pview p k')"

lemma view_split: "routing_view B pview cview s = split_view s (r_primary s) (the (r_coord s))"
  by (simp add: routing_view_def split_view_def fun_eq_iff)

lemma split_view_coord:
  assumes "is_coordination B s k"
  shows "split_view (s\<lparr>r_class_a := n, r_coord := Some c'\<rparr>) p c = split_view s p c"
    and "split_view (s\<lparr>r_class_b := n, r_coord := Some c'\<rparr>) p c = split_view s p c"
    and "split_view (s\<lparr>r_primary := p'\<rparr>) p c = split_view s p c"
    and "cview c' = cview c \<Longrightarrow> split_view s p c' = split_view s p c"
    and "cview c' = (cview c)(k := Some d) \<Longrightarrow> split_view s p c' = (split_view s p c)(k := Some d)"
    and "split_view s p c k = cview c k"
  using assms by (auto simp: split_view_def is_coordination_def fun_eq_iff)

lemma split_view_primary:
  assumes "\<not> is_coordination B s k"
  shows "split_view (s\<lparr>r_primary := p'\<rparr>) p c = split_view s p c"
    and "pview p' = pview p \<Longrightarrow> split_view s p' c = split_view s p c"
    and "pview p' = (pview p)(k := Some d) \<Longrightarrow> split_view s p' c = (split_view s p c)(k := Some d)"
    and "split_view s p c k = pview p k"
  using assms by (auto simp: split_view_def is_coordination_def fun_eq_iff)

lemma routed_get:
  assumes "routing_get_bytes B s k = (g, s')"
  shows "routing_view B pview cview s' = routing_view B pview cview s \<and>
         (\<forall>v. g = Inr v \<longrightarrow> v = map_option (\<lambda>b. (b, ETag b)) (routing_view B pview cview s k))"
proof (cases "if is_coordination B s k then b_coord_cas B else b_primary_cas B")
  case False
  then show ?thesis
    using assms by (auto simp: routing_get_bytes_def split: if_splits)
next
  case capable: True
  show ?thesis
  proof (cases "is_coordination B s k")
    case True
    then have c: "b_coord_cas B" using capable by simp
    obtain q c' where q: "op_get (b_coord B) (the (r_coord s)) k = (q, c')" by fastforce
    then show ?thesis
      using assms True c cas_store.get_reply [OF coord [OF c], of "the (r_coord s)" k]
      by (auto simp: routing_get_bytes_def view_split split_view_coord(1,2,6) [OF True]
          split_view_coord(4) [OF True cas_store.get_view [OF coord [OF c] q]])
  next
    case False
    then have c: "b_primary_cas B" using capable by simp
    obtain q p' where q: "op_get (b_primary B) (r_primary s) k = (q, p')" by fastforce
    then show ?thesis
      using assms False c cas_store.get_reply [OF prim [OF c], of "r_primary s" k]
      by (auto simp: routing_get_bytes_def view_split split_view_primary(1,4) [OF False]
          split_view_primary(2) [OF False cas_store.get_view [OF prim [OF c] q]])
  qed
qed

lemma routed_put:
  assumes "routing_put_cas B s k d cnd = (r, s')"
  shows "(routing_view B pview cview s' = routing_view B pview cview s \<or>
          cond_holds cnd (routing_view B pview cview s k) \<and>
          routing_view B pview cview s' = (routing_view B pview cview s)(k := Some d)) \<and>
         (\<forall>e. r = Inr e \<longrightarrow> e = ETag d \<and> cond_holds cnd (routing_view B pview cview s k) \<and>
            routing_view B pview cview s' = (routing_view B pview cview s)(k := Some d))"
proof (cases "if is_coordination B s k then b_coord_cas B else b_primary_cas B")
  case False
  then show ?thesis
    using assms by (auto simp: routing_put_cas_def split: if_splits)
next
  case capable: True
  show ?thesis
  proof (cases "is_coordination B s k")
    case True
    then have c: "b_coord_cas B" using capable by simp
    obtain q c' where q: "op_put (b_coord B) (the (r_coord s)) k d cnd = (q, c')" by fastforce
    have "cview c' = cview (the (r_coord s)) \<or>
        cond_holds cnd (cview (the (r_coord s)) k) \<and> cview c' = (cview (the (r_coord s)))(k := Some d)"
      if "q = Inl e" for e
      by (rule cas_store.put_effect [OF coord [OF c] q])
    moreover have "e = ETag d \<and> cond_holds cnd (cview (the (r_coord s)) k) \<and>
        cview c' = (cview (the (r_coord s)))(k := Some d)" if "q = Inr e" for e
      using cas_store.put_ok [OF coord [OF c]] q that by blast
    ultimately show ?thesis
      using assms True q c
      by (cases q) (auto simp: routing_put_cas_def view_split split_view_coord(1,6) [OF True]
          dest: split_view_coord(4) [OF True] split_view_coord(5) [OF True])
  next
    case False
    then have c: "b_primary_cas B" using capable by simp
    obtain q p' where q: "op_put (b_primary B) (r_primary s) k d cnd = (q, p')" by fastforce
    have "pview p' = pview (r_primary s) \<or>
        cond_holds cnd (pview (r_primary s) k) \<and> pview p' = (pview (r_primary s))(k := Some d)"
      if "q = Inl e" for e
      by (rule cas_store.put_effect [OF prim [OF c] q])
    moreover have "e = ETag d \<and> cond_holds cnd (pview (r_primary s) k) \<and>
        pview p' = (pview (r_primary s))(k := Some d)" if "q = Inr e" for e
      using cas_store.put_ok [OF prim [OF c]] q that by blast
    ultimately show ?thesis
      using assms False q c
      by (cases q) (auto simp: routing_put_cas_def view_split split_view_primary(1,4) [OF False]
          dest: split_view_primary(2) [OF False] split_view_primary(3) [OF False])
  qed
qed

sublocale cas: cas_store "routing_ops B" "routing_view B pview cview"
  by unfold_locales (use routed_get routed_put in \<open>fastforce simp: routing_ops_def\<close>)+

lemma routed_cas_store: "cas_store (routing_ops B) (routing_view B pview cview)"
  by (rule cas.cas_store_axioms)

end

text \<open>
  The production layout: B2 as the primary backend, which ignores the conditional headers (a write
  always succeeds) and is not \<open>cas_capable\<close>, and R2 as the coordination backend.
\<close>

definition b2_bucket :: "bucket cas_ops" where
  "b2_bucket = r2_bucket\<lparr>op_put := (\<lambda>s k d cnd. (Inr (ETag d), s(k := Some d)))\<rparr>"

definition production :: "(bucket, bucket) backends" where
  "production =
     \<lparr>b_primary = b2_bucket, b_primary_cas = False, b_coord = r2_bucket, b_coord_cas = True,
      b_prefixes = COORDINATION_PREFIXES\<rparr>"

lemma b2_is_no_cas_store: "\<not> cas_store b2_bucket (\<lambda>s. s)"
proof
  assume "cas_store b2_bucket (\<lambda>s. s)"
  then have "cond_holds IfNoneMatch (Some (Garbage ''''))"
    by (rule cas_store.put_ok [where s = "\<lambda>_. Some (Garbage '''')" and k = "''''" and d = "Garbage ''''", THEN conjunct2, THEN conjunct1])
      (simp add: b2_bucket_def)
  then show False
    by (simp add: cond_holds_def)
qed

interpretation prod: routed_store production "\<lambda>s. s" "\<lambda>s. s"
  using r2.cas.cas_store_axioms
  by (simp add: routed_store_def production_def r2_bucket_def)

end
