(* ===== verification/Work_Leases.thy ===== *)
theory Work_Leases
  imports Store_IO
begin

section \<open>The pull-based work-lease ledger\<close>

text \<open>
  \<open>citypods/ops/work_leases.py\<close>: one compare-and-swap object per work item, which workers claim,
  renew, release and abandon and a reaper settles, together with the active-lease index (64
  bucket objects) that lets the reaper visit only what is claimed.

  The digest \<open>hashlib.sha1(...).hexdigest()\<close> read as a number is the parameter \<open>sha\<close>; nothing below
  depends on its values. Log output is not modelled. Backoff sleeps touch nothing; they are the
  passing of time between two calls.
\<close>

subsection \<open>Keys\<close>

definition LEASE_PREFIX :: string where "LEASE_PREFIX = ''work-leases''"
definition LEASE_SCHEMA_VERSION :: int where "LEASE_SCHEMA_VERSION = 1"
definition INDEX_PREFIX :: string where "INDEX_PREFIX = ''work-leases-index''"
definition INDEX_SCHEMA_VERSION :: int where "INDEX_SCHEMA_VERSION = 1"
definition INDEX_BUCKET_COUNT :: int where "INDEX_BUCKET_COUNT = 64"

definition lease_key :: "string \<Rightarrow> string \<Rightarrow> string" where
  "lease_key source_key uid = LEASE_PREFIX @ ''/'' @ source_key @ ''/'' @ uid @ ''.json''"

definition entry_id :: "string \<Rightarrow> string \<Rightarrow> string" where
  "entry_id source_key uid = source_key @ ''|'' @ uid"

definition index_bucket_for :: "(string \<Rightarrow> nat) \<Rightarrow> string \<Rightarrow> string \<Rightarrow> int \<Rightarrow> int" where
  "index_bucket_for sha source_key uid bucket_count =
     (if bucket_count \<le> 0 then 0
      else int (sha (lease_key source_key uid)) mod bucket_count)"

definition index_bucket_key :: "int \<Rightarrow> string" where
  "index_bucket_key n = INDEX_PREFIX @ ''/bucket-'' @ zero_pad 4 n @ ''.json''"

definition integrity_partition_for :: "instant \<Rightarrow> int" where
  "integrity_partition_for now = now div 60000000"

subsection \<open>The active-lease index\<close>

definition load_index_bucket :: "int \<Rightarrow> (pydict \<times> etag option) io" where
  "load_index_bucket n =
     bind (get_bytes (index_bucket_key n)) (\<lambda>got.
       case got of
         None \<Rightarrow> Ret ([], None)
       | Some (data, etag) \<Rightarrow>
           (case json_loads data of
              Inl _ \<Rightarrow> Ret ([], Some etag)
            | Inr parsed \<Rightarrow> Ret (as_dict (dget (as_dict parsed) ''entries'' JNull), Some etag)))"

definition serialize_index_bucket :: "pydict \<Rightarrow> blob" where
  "serialize_index_bucket entries =
     dumps_sorted (JObj [(''schema_version'', JInt INDEX_SCHEMA_VERSION), (''entries'', JObj entries)])"

primrec mutate_index_loop :: "nat \<Rightarrow> exn option \<Rightarrow> int \<Rightarrow> (pydict \<Rightarrow> pydict) \<Rightarrow> unit io" where
  "mutate_index_loop 0 prev n mutate =
     (case prev of None \<Rightarrow> Raise AssertionError | Some e \<Rightarrow> Raise e)"
| "mutate_index_loop (Suc attempts) prev n mutate =
     bind (load_index_bucket n) (\<lambda>(entries, etag).
       bind (attempt (put_cas (index_bucket_key n) (serialize_index_bucket (mutate entries)) (cond_of etag)))
         (\<lambda>r. case r of
                Inr _ \<Rightarrow> Ret ()
              | Inl e \<Rightarrow>
                  if is_conflict e then mutate_index_loop attempts (Some e) n mutate else Raise e))"

definition mutate_index_bucket :: "nat \<Rightarrow> int \<Rightarrow> (pydict \<Rightarrow> pydict) \<Rightarrow> unit io" where
  "mutate_index_bucket max_attempts n mutate = mutate_index_loop max_attempts None n mutate"

definition index_entry :: "string \<Rightarrow> string \<Rightarrow> instant option \<Rightarrow> json" where
  "index_entry source_key uid lease_expiry =
     JObj [(''source_key'', JStr source_key), (''uid'', JStr uid), (''lease_expiry'', iso_json lease_expiry)]"

text \<open>Index maintenance is best effort: whatever it raises is logged and dropped.\<close>

definition index_upsert ::
  "(string \<Rightarrow> nat) \<Rightarrow> string \<Rightarrow> string \<Rightarrow> instant option \<Rightarrow> int \<Rightarrow> unit io" where
  "index_upsert sha source_key uid lease_expiry bucket_count =
     bind (attempt (mutate_index_bucket 8 (index_bucket_for sha source_key uid bucket_count)
             (\<lambda>entries. AList.update (entry_id source_key uid) (index_entry source_key uid lease_expiry) entries)))
       (\<lambda>_. Ret ())"

definition index_remove :: "(string \<Rightarrow> nat) \<Rightarrow> string \<Rightarrow> string \<Rightarrow> int \<Rightarrow> unit io" where
  "index_remove sha source_key uid bucket_count =
     bind (attempt (mutate_index_bucket 8 (index_bucket_for sha source_key uid bucket_count)
             (\<lambda>entries. AList.delete (entry_id source_key uid) entries)))
       (\<lambda>_. Ret ())"

definition drop_index_entries :: "int \<Rightarrow> string list \<Rightarrow> unit io" where
  "drop_index_entries n entry_ids =
     bind (attempt (mutate_index_bucket 8 n (\<lambda>entries. fold AList.delete entry_ids entries)))
       (\<lambda>_. Ret ())"

subsection \<open>Leases\<close>

datatype lease_state = Queued | Leased | Done | Failed

fun state_name :: "lease_state \<Rightarrow> string" where
  "state_name Queued = ''queued''"
| "state_name Leased = ''leased''"
| "state_name Done = ''done''"
| "state_name Failed = ''failed''"

definition state_of_json :: "json \<Rightarrow> exn + lease_state" where
  "state_of_json j =
     (if j = JStr ''queued'' then Inr Queued
      else if j = JStr ''leased'' then Inr Leased
      else if j = JStr ''done'' then Inr Done
      else if j = JStr ''failed'' then Inr Failed
      else case j of JList _ \<Rightarrow> Inl TypeError | JObj _ \<Rightarrow> Inl TypeError | _ \<Rightarrow> Inl ValueError)"

record work_lease =
  wl_source_key :: string
  wl_uid :: string
  wl_state :: lease_state
  wl_owner :: string
  wl_lease_expiry :: "instant option"
  wl_attempts :: int
  wl_pipeline_version :: string
  wl_updated_at :: "instant option"

definition is_expired :: "work_lease \<Rightarrow> instant \<Rightarrow> bool" where
  "is_expired l now = (case wl_lease_expiry l of None \<Rightarrow> False | Some e \<Rightarrow> e \<le> now)"

definition is_claimable :: "work_lease \<Rightarrow> instant \<Rightarrow> bool" where
  "is_claimable l now \<longleftrightarrow> wl_state l = Queued \<or> wl_state l = Leased \<and> is_expired l now"

definition lease_to_dict :: "work_lease \<Rightarrow> pydict" where
  "lease_to_dict l =
     [(''schema_version'', JInt LEASE_SCHEMA_VERSION),
      (''source_key'', JStr (wl_source_key l)),
      (''uid'', JStr (wl_uid l)),
      (''state'', JStr (state_name (wl_state l))),
      (''owner'', JStr (wl_owner l)),
      (''lease_expiry'', iso_json (wl_lease_expiry l)),
      (''attempts'', JInt (wl_attempts l)),
      (''pipeline_version'', JStr (wl_pipeline_version l)),
      (''updated_at'', iso_json (wl_updated_at l))]"

definition lease_from_dict :: "pydict \<Rightarrow> exn + work_lease" where
  "lease_from_dict data =
     (case state_of_json (dget data ''state'' (JStr ''queued'')) of
        Inl e \<Rightarrow> Inl e
      | Inr state \<Rightarrow>
          (case py_int (dget data ''attempts'' (JInt 0)) of
             Inl e \<Rightarrow> Inl e
           | Inr attempts \<Rightarrow>
               Inr \<lparr>wl_source_key = py_str (dget data ''source_key'' (JStr '''')),
                    wl_uid = py_str (dget data ''uid'' (JStr '''')),
                    wl_state = state,
                    wl_owner = py_str (dget data ''owner'' (JStr '''')),
                    wl_lease_expiry = parse_dt (dget data ''lease_expiry'' JNull),
                    wl_attempts = attempts,
                    wl_pipeline_version = py_str (dget data ''pipeline_version'' (JStr '''')),
                    wl_updated_at = parse_dt (dget data ''updated_at'' JNull)\<rparr>))"

definition serialize_lease :: "work_lease \<Rightarrow> blob" where
  "serialize_lease l = dumps_sorted (JObj (lease_to_dict l))"

text \<open>The lease an object's bytes mean; \<open>None\<close> for bytes that are corrupt in any way.\<close>

definition decode_lease :: "blob \<Rightarrow> work_lease option" where
  "decode_lease data =
     (case json_loads data of
        Inl _ \<Rightarrow> None
      | Inr parsed \<Rightarrow> (case lease_from_dict (as_dict parsed) of Inl _ \<Rightarrow> None | Inr l \<Rightarrow> Some l))"

definition read_lease :: "string \<Rightarrow> string \<Rightarrow> (work_lease option \<times> etag option) io" where
  "read_lease source_key uid =
     bind (get_bytes (lease_key source_key uid)) (\<lambda>got.
       case got of
         None \<Rightarrow> Ret (None, None)
       | Some (data, etag) \<Rightarrow> Ret (decode_lease data, Some etag))"

subsection \<open>Claim, renew, release, abandon\<close>

definition stale_terminal :: "work_lease option \<Rightarrow> string \<Rightarrow> bool" where
  "stale_terminal existing pipeline_version =
     (case existing of
        None \<Rightarrow> False
      | Some l \<Rightarrow> wl_state l \<in> {Done, Failed} \<and> pipeline_version \<noteq> '''' \<and>
                  wl_pipeline_version l \<noteq> pipeline_version)"

definition claim_open :: "work_lease option \<Rightarrow> string \<Rightarrow> instant \<Rightarrow> bool" where
  "claim_open existing pipeline_version now =
     (case existing of
        None \<Rightarrow> True
      | Some l \<Rightarrow> stale_terminal existing pipeline_version \<or> is_claimable l now)"

definition held_lease ::
  "work_lease option \<Rightarrow> string \<Rightarrow> string \<Rightarrow> string \<Rightarrow> rat \<Rightarrow> string \<Rightarrow> instant \<Rightarrow> work_lease" where
  "held_lease existing source_key uid owner ttl_seconds pipeline_version now =
     \<lparr>wl_source_key = source_key, wl_uid = uid, wl_state = Leased, wl_owner = owner,
      wl_lease_expiry = Some (now + timedelta_us ttl_seconds),
      wl_attempts = (case existing of None \<Rightarrow> 0 | Some l \<Rightarrow> wl_attempts l) + 1,
      wl_pipeline_version = pipeline_version,
      wl_updated_at = Some now\<rparr>"

definition claim ::
  "(string \<Rightarrow> nat) \<Rightarrow> string \<Rightarrow> string \<Rightarrow> string \<Rightarrow> rat \<Rightarrow> string \<Rightarrow> instant option \<Rightarrow> bool \<Rightarrow>
   work_lease option io" where
  "claim sha source_key uid owner ttl_seconds pipeline_version now_arg update_index =
     bind (now_or_clock now_arg) (\<lambda>now.
     bind (read_lease source_key uid) (\<lambda>(existing, etag).
       if \<not> claim_open existing pipeline_version now then Ret None
       else
         (let held = held_lease existing source_key uid owner ttl_seconds pipeline_version now in
          bind (try_put (lease_key source_key uid) (serialize_lease held) (cond_of etag)) (\<lambda>won.
            case won of
              None \<Rightarrow> Ret None
            | Some _ \<Rightarrow>
                bind (if update_index
                      then index_upsert sha source_key uid (wl_lease_expiry held) INDEX_BUCKET_COUNT
                      else Ret ())
                  (\<lambda>_. Ret (Some held))))))"

text \<open>The guard \<open>renew\<close>, \<open>release\<close> and \<open>abandon\<close> share: the lease we read is ours and alive.\<close>

definition still_ours :: "work_lease option \<Rightarrow> etag option \<Rightarrow> string \<Rightarrow> instant \<Rightarrow> bool" where
  "still_ours existing etag owner now =
     (case (existing, etag) of
        (Some l, Some _) \<Rightarrow> wl_owner l = owner \<and> wl_state l = Leased \<and> \<not> is_expired l now
      | _ \<Rightarrow> False)"

definition renew ::
  "(string \<Rightarrow> nat) \<Rightarrow> string \<Rightarrow> string \<Rightarrow> string \<Rightarrow> rat \<Rightarrow> instant option \<Rightarrow> bool \<Rightarrow> work_lease option io" where
  "renew sha source_key uid owner ttl_seconds now_arg update_index =
     bind (now_or_clock now_arg) (\<lambda>now.
     bind (read_lease source_key uid) (\<lambda>(existing, etag).
       if \<not> still_ours existing etag owner now then Ret None
       else
         (let l = (the existing)\<lparr>wl_lease_expiry := Some (now + timedelta_us ttl_seconds),
                                 wl_updated_at := Some now\<rparr> in
          bind (try_put (lease_key source_key uid) (serialize_lease l) (cond_of etag)) (\<lambda>won.
            case won of
              None \<Rightarrow> Ret None
            | Some _ \<Rightarrow>
                bind (if update_index
                      then index_upsert sha source_key uid (wl_lease_expiry l) INDEX_BUCKET_COUNT
                      else Ret ())
                  (\<lambda>_. Ret (Some l))))))"

definition release ::
  "(string \<Rightarrow> nat) \<Rightarrow> string \<Rightarrow> string \<Rightarrow> string \<Rightarrow> lease_state \<Rightarrow> instant option \<Rightarrow> bool \<Rightarrow> bool io" where
  "release sha source_key uid owner state now_arg update_index =
     (if state \<notin> {Done, Failed} then Raise ValueError
      else
        bind (now_or_clock now_arg) (\<lambda>now.
        bind (read_lease source_key uid) (\<lambda>(existing, etag).
          if \<not> still_ours existing etag owner now then Ret False
          else
            (let l = (the existing)\<lparr>wl_state := state, wl_lease_expiry := None,
                                    wl_updated_at := Some now\<rparr> in
             bind (try_put (lease_key source_key uid) (serialize_lease l) (cond_of etag)) (\<lambda>won.
               case won of
                 None \<Rightarrow> Ret False
               | Some _ \<Rightarrow>
                   bind (if update_index then index_remove sha source_key uid INDEX_BUCKET_COUNT
                         else Ret ())
                     (\<lambda>_. Ret True))))))"

text \<open>A lease put back in the queue: no owner, no expiry.\<close>

definition requeue :: "work_lease \<Rightarrow> instant \<Rightarrow> work_lease" where
  "requeue l now =
     l\<lparr>wl_state := Queued, wl_owner := '''', wl_lease_expiry := None, wl_updated_at := Some now\<rparr>"

definition abandon ::
  "(string \<Rightarrow> nat) \<Rightarrow> string \<Rightarrow> string \<Rightarrow> string \<Rightarrow> instant option \<Rightarrow> bool \<Rightarrow> bool io" where
  "abandon sha source_key uid owner now_arg update_index =
     bind (now_or_clock now_arg) (\<lambda>now.
     bind (read_lease source_key uid) (\<lambda>(existing, etag).
       if \<not> still_ours existing etag owner now then Ret False
       else
         bind (try_put (lease_key source_key uid) (serialize_lease (requeue (the existing) now)) (cond_of etag))
           (\<lambda>won.
             case won of
               None \<Rightarrow> Ret False
             | Some _ \<Rightarrow>
                 bind (if update_index then index_remove sha source_key uid INDEX_BUCKET_COUNT
                       else Ret ())
                   (\<lambda>_. Ret True))))"

subsection \<open>Operator recovery of failed leases\<close>

record requeue_summary =
  rs_scanned :: nat
  rs_requeued :: nat
  rs_skipped :: nat
  rs_conflicts :: nat

definition requeue_failed_item ::
  "(string \<Rightarrow> nat) \<Rightarrow> instant \<Rightarrow> bool \<Rightarrow> string \<times> string \<Rightarrow> requeue_summary \<Rightarrow> requeue_summary io" where
  "requeue_failed_item sha now dry_run item summary0 =
     (case item of (source_key, uid) \<Rightarrow>
        (let summary = summary0\<lparr>rs_scanned := Suc (rs_scanned summary0)\<rparr> in
         bind (read_lease source_key uid) (\<lambda>(existing, etag).
           case (existing, etag) of
             (Some l, Some e) \<Rightarrow>
               (if wl_state l \<noteq> Failed then Ret (summary\<lparr>rs_skipped := Suc (rs_skipped summary)\<rparr>)
                else if dry_run then Ret (summary\<lparr>rs_requeued := Suc (rs_requeued summary)\<rparr>)
                else
                  bind (try_put (lease_key source_key uid) (serialize_lease (requeue l now)) (IfMatch e))
                    (\<lambda>won.
                      case won of
                        None \<Rightarrow> Ret (summary\<lparr>rs_conflicts := Suc (rs_conflicts summary)\<rparr>)
                      | Some _ \<Rightarrow>
                          bind (index_remove sha source_key uid INDEX_BUCKET_COUNT)
                            (\<lambda>_. Ret (summary\<lparr>rs_requeued := Suc (rs_requeued summary)\<rparr>))))
           | _ \<Rightarrow> Ret (summary\<lparr>rs_skipped := Suc (rs_skipped summary)\<rparr>))))"

definition requeue_failed ::
  "(string \<Rightarrow> nat) \<Rightarrow> (string \<times> string) list \<Rightarrow> instant option \<Rightarrow> bool \<Rightarrow> requeue_summary io" where
  "requeue_failed sha candidates now_arg dry_run =
     bind (now_or_clock now_arg) (\<lambda>now.
       foldIO (requeue_failed_item sha now dry_run) candidates
         \<lparr>rs_scanned = 0, rs_requeued = 0, rs_skipped = 0, rs_conflicts = 0\<rparr>)"

subsection \<open>The reaper\<close>

datatype reap_outcome = Completed | Requeued | InFlight | Skip

text \<open>The lease the reaper writes, and the outcome that goes with it; \<open>None\<close> leaves it running.\<close>

definition reap_decision :: "work_lease \<Rightarrow> bool \<Rightarrow> instant \<Rightarrow> (work_lease \<times> reap_outcome) option" where
  "reap_decision existing present now =
     (if present then
        Some (existing\<lparr>wl_state := Done, wl_lease_expiry := None, wl_updated_at := Some now\<rparr>, Completed)
      else if is_expired existing now then Some (requeue existing now, Requeued)
      else None)"

definition settle_leased ::
  "(string \<Rightarrow> string \<Rightarrow> bool io) \<Rightarrow> string \<Rightarrow> string \<Rightarrow> work_lease \<Rightarrow> etag \<Rightarrow> instant \<Rightarrow> bool \<Rightarrow> reap_outcome io" where
  "settle_leased artifact_present source_key uid existing etag now dry_run =
     bind (artifact_present source_key uid) (\<lambda>present.
       case reap_decision existing present now of
         None \<Rightarrow> Ret InFlight
       | Some (l, outcome) \<Rightarrow>
           if dry_run then Ret outcome
           else
             bind (try_put (lease_key source_key uid) (serialize_lease l) (IfMatch etag)) (\<lambda>won.
               case won of None \<Rightarrow> Ret Skip | Some _ \<Rightarrow> Ret outcome))"

type_synonym reap_callback = "(string \<Rightarrow> unit io) option"

definition invoke_reap_callback ::
  "reap_outcome \<Rightarrow> string \<Rightarrow> reap_callback \<Rightarrow> reap_callback \<Rightarrow> bool \<Rightarrow> unit io" where
  "invoke_reap_callback outcome owner on_completed on_requeued dry_run =
     (if dry_run then Ret ()
      else
        bind (attempt
               (case (outcome, on_completed, on_requeued) of
                  (Completed, Some f, _) \<Rightarrow> f owner
                | (Requeued, _, Some f) \<Rightarrow> f owner
                | _ \<Rightarrow> Ret ()))
          (\<lambda>_. Ret ()))"

record reap_counts =
  rc_completed :: nat
  rc_requeued :: nat
  rc_in_flight :: nat

definition no_counts :: reap_counts where
  "no_counts = \<lparr>rc_completed = 0, rc_requeued = 0, rc_in_flight = 0\<rparr>"

fun count_outcome :: "reap_outcome \<Rightarrow> reap_counts \<Rightarrow> reap_counts" where
  "count_outcome Completed c = c\<lparr>rc_completed := Suc (rc_completed c)\<rparr>"
| "count_outcome Requeued c = c\<lparr>rc_requeued := Suc (rc_requeued c)\<rparr>"
| "count_outcome InFlight c = c\<lparr>rc_in_flight := Suc (rc_in_flight c)\<rparr>"
| "count_outcome Skip c = c"

text \<open>
  The reap decision for a lease that was just read: settle it, count the outcome, and tell the
  budget ledger. The result is \<open>None\<close> when the object is not an active lease.
\<close>

definition reap_one ::
  "(string \<Rightarrow> string \<Rightarrow> bool io) \<Rightarrow> reap_callback \<Rightarrow> reap_callback \<Rightarrow> instant \<Rightarrow> bool \<Rightarrow> string \<Rightarrow> string \<Rightarrow>
   (reap_outcome \<times> work_lease) option io" where
  "reap_one artifact_present on_completed on_requeued now dry_run source_key uid =
     bind (read_lease source_key uid) (\<lambda>(existing, etag).
       case (existing, etag) of
         (Some l, Some e) \<Rightarrow>
           (if wl_state l \<noteq> Leased then Ret None
            else
              bind (settle_leased artifact_present source_key uid l e now dry_run) (\<lambda>outcome.
                bind (if outcome \<in> {Completed, Requeued}
                      then invoke_reap_callback outcome (wl_owner l) on_completed on_requeued dry_run
                      else Ret ())
                  (\<lambda>_. Ret (Some (outcome, l)))))
       | _ \<Rightarrow> Ret None)"

definition reap ::
  "(string \<times> string) list \<Rightarrow> (string \<Rightarrow> string \<Rightarrow> bool io) \<Rightarrow> reap_callback \<Rightarrow> reap_callback \<Rightarrow>
   instant option \<Rightarrow> bool \<Rightarrow> reap_counts io" where
  "reap candidates artifact_present on_completed on_requeued now_arg dry_run =
     bind (now_or_clock now_arg) (\<lambda>now.
       foldIO (\<lambda>(source_key, uid) c.
           bind (reap_one artifact_present on_completed on_requeued now dry_run source_key uid)
             (\<lambda>r. case r of None \<Rightarrow> Ret c | Some (outcome, _) \<Rightarrow> Ret (count_outcome outcome c)))
         candidates no_counts)"

subsection \<open>The index-driven reaper\<close>

text \<open>
  The sweep of one bucket reads its entries once, reaps each indexed item, and removes the settled
  and drifted entries with one conditional write.
\<close>

definition entry_item :: "json \<Rightarrow> string \<times> string" where
  "entry_item meta =
     (py_str (dget (as_dict meta) ''source_key'' (JStr '''')), py_str (dget (as_dict meta) ''uid'' (JStr '''')))"

type_synonym bucket_acc = "reap_counts \<times> (string \<times> string) list \<times> string list"

definition sweep_entry ::
  "(string \<Rightarrow> string \<Rightarrow> bool io) \<Rightarrow> reap_callback \<Rightarrow> reap_callback \<Rightarrow> instant \<Rightarrow> bool \<Rightarrow>
   string \<times> json \<Rightarrow> bucket_acc \<Rightarrow> bucket_acc io" where
  "sweep_entry artifact_present on_completed on_requeued now dry_run kv acc =
     (case acc of (c, seen, dropped) \<Rightarrow>
       (case snd kv of
          JObj meta \<Rightarrow>
            (case entry_item (JObj meta) of (source_key, uid) \<Rightarrow>
               if source_key = '''' \<or> uid = '''' then Ret acc
               else
                 bind (reap_one artifact_present on_completed on_requeued now dry_run source_key uid)
                   (\<lambda>r. case r of
                          None \<Rightarrow> Ret (c, (source_key, uid) # seen, dropped @ [entry_id source_key uid])
                        | Some (outcome, _) \<Rightarrow>
                            Ret (count_outcome outcome c, (source_key, uid) # seen,
                                 if outcome \<in> {Completed, Requeued}
                                 then dropped @ [entry_id source_key uid] else dropped)))
        | _ \<Rightarrow> Raise (AttributeError ''get'')))"

definition sweep_bucket ::
  "(string \<Rightarrow> string \<Rightarrow> bool io) \<Rightarrow> reap_callback \<Rightarrow> reap_callback \<Rightarrow> instant \<Rightarrow> bool \<Rightarrow>
   nat \<Rightarrow> reap_counts \<times> (string \<times> string) list \<Rightarrow> (reap_counts \<times> (string \<times> string) list) io" where
  "sweep_bucket artifact_present on_completed on_requeued now dry_run n acc =
     (case acc of (c, seen) \<Rightarrow>
        bind (load_index_bucket (int n)) (\<lambda>(entries, _).
        bind (foldIO (sweep_entry artifact_present on_completed on_requeued now dry_run) entries (c, seen, []))
          (\<lambda>(c', seen', dropped).
             bind (if dropped \<noteq> [] \<and> \<not> dry_run then drop_index_entries (int n) dropped else Ret ())
               (\<lambda>_. Ret (c', seen')))))"

definition sweep_integrity ::
  "(string \<Rightarrow> nat) \<Rightarrow> (string \<Rightarrow> string \<Rightarrow> bool io) \<Rightarrow> reap_callback \<Rightarrow> reap_callback \<Rightarrow> instant \<Rightarrow> bool \<Rightarrow>
   int \<Rightarrow> int \<Rightarrow> (string \<times> string) list \<Rightarrow> string \<times> string \<Rightarrow> reap_counts \<times> nat \<Rightarrow> (reap_counts \<times> nat) io" where
  "sweep_integrity sha artifact_present on_completed on_requeued now dry_run bucket_count slice seen item acc =
     (case item of (source_key, uid) \<Rightarrow>
     (case acc of (c, checked) \<Rightarrow>
       if (source_key, uid) \<in> set seen then Ret acc
       else if index_bucket_for sha source_key uid bucket_count \<noteq> slice then Ret acc
       else
         bind (reap_one artifact_present on_completed on_requeued now dry_run source_key uid) (\<lambda>r.
           case r of
             None \<Rightarrow> Ret (c, Suc checked)
           | Some (outcome, l) \<Rightarrow>
               bind (if outcome = InFlight \<and> \<not> dry_run
                     then index_upsert sha source_key uid (wl_lease_expiry l) bucket_count
                     else Ret ())
                 (\<lambda>_. Ret (count_outcome outcome c, Suc checked)))))"

record indexed_reap =
  ir_counts :: reap_counts
  ir_buckets_read :: int
  ir_integrity_checked :: nat

definition reap_indexed ::
  "(string \<Rightarrow> nat) \<Rightarrow> (string \<Rightarrow> string \<Rightarrow> bool io) \<Rightarrow> reap_callback \<Rightarrow> reap_callback \<Rightarrow> instant option \<Rightarrow>
   bool \<Rightarrow> int \<Rightarrow> (string \<times> string) list option \<Rightarrow> int option \<Rightarrow> indexed_reap io" where
  "reap_indexed sha artifact_present on_completed on_requeued now_arg dry_run bucket_count
       integrity_candidates integrity_partition =
     bind (now_or_clock now_arg) (\<lambda>now.
     bind (foldIO (sweep_bucket artifact_present on_completed on_requeued now dry_run)
             [0..<nat bucket_count] (no_counts, []))
       (\<lambda>(c, seen).
          bind (case (integrity_candidates, integrity_partition) of
                  (Some cs, Some p) \<Rightarrow>
                    (if 0 < bucket_count
                     then foldIO (sweep_integrity sha artifact_present on_completed on_requeued now dry_run
                                    bucket_count (p mod bucket_count) seen) cs (c, 0)
                     else Ret (c, 0))
                | _ \<Rightarrow> Ret (c, 0))
            (\<lambda>(c', checked).
               Ret \<lparr>ir_counts = c', ir_buckets_read = bucket_count, ir_integrity_checked = checked\<rparr>)))"

subsection \<open>Candidate order and the reference pull loop\<close>

definition scan_offset :: "(string \<Rightarrow> nat) \<Rightarrow> string \<Rightarrow> int \<Rightarrow> int" where
  "scan_offset sha owner n = (if n \<le> 0 then 0 else int (sha owner) mod n)"

definition ordered_candidates :: "(string \<Rightarrow> nat) \<Rightarrow> 'a list \<Rightarrow> string \<Rightarrow> int option \<Rightarrow> 'a list" where
  "ordered_candidates sha candidates owner offset_arg =
     (let n = length candidates in
      if n = 0 then []
      else
        (let offset = (case offset_arg of None \<Rightarrow> scan_offset sha owner (int n) | Some k \<Rightarrow> k mod int n)
         in map (\<lambda>i. candidates ! nat ((offset + int i) mod int n)) [0..<n]))"

record claim_summary =
  cs_claimed :: nat
  cs_completed :: nat
  cs_failed :: nat

primrec claim_loop ::
  "(string \<Rightarrow> nat) \<Rightarrow> string \<Rightarrow> (string \<Rightarrow> string \<Rightarrow> unit io) \<Rightarrow> rat \<Rightarrow> string \<Rightarrow> int option \<Rightarrow>
   (bool io) option \<Rightarrow> instant io \<Rightarrow> bool \<Rightarrow> (string \<times> string) list \<Rightarrow> claim_summary \<Rightarrow> claim_summary io" where
  "claim_loop sha owner transcribe ttl pv max_claims should_stop now_fn update_index [] c = Ret c"
| "claim_loop sha owner transcribe ttl pv max_claims should_stop now_fn update_index (item # items) c =
     (if (case max_claims of None \<Rightarrow> False | Some m \<Rightarrow> m \<le> int (cs_claimed c)) then Ret c
      else
        bind (case should_stop of None \<Rightarrow> Ret False | Some stop \<Rightarrow> stop) (\<lambda>stopped.
          if stopped then Ret c
          else
            bind now_fn (\<lambda>now.
            bind (claim sha (fst item) (snd item) owner ttl pv (Some now) update_index) (\<lambda>held.
              case held of
                None \<Rightarrow>
                  claim_loop sha owner transcribe ttl pv max_claims should_stop now_fn update_index items c
              | Some _ \<Rightarrow>
                  bind (attempt (transcribe (fst item) (snd item))) (\<lambda>r.
                    case r of
                      Inr _ \<Rightarrow>
                        claim_loop sha owner transcribe ttl pv max_claims should_stop now_fn update_index items
                          (c\<lparr>cs_claimed := Suc (cs_claimed c), cs_completed := Suc (cs_completed c)\<rparr>)
                    | Inl _ \<Rightarrow>
                        bind now_fn (\<lambda>now'.
                        bind (release sha (fst item) (snd item) owner Failed (Some now') update_index) (\<lambda>_.
                          claim_loop sha owner transcribe ttl pv max_claims should_stop now_fn update_index items
                            (c\<lparr>cs_claimed := Suc (cs_claimed c), cs_failed := Suc (cs_failed c)\<rparr>))))))))"

definition run_claim_loop ::
  "(string \<Rightarrow> nat) \<Rightarrow> (string \<times> string) list \<Rightarrow> string \<Rightarrow> (string \<Rightarrow> string \<Rightarrow> unit io) \<Rightarrow> rat \<Rightarrow> string \<Rightarrow>
   int option \<Rightarrow> (bool io) option \<Rightarrow> (instant io) option \<Rightarrow> bool \<Rightarrow> claim_summary io" where
  "run_claim_loop sha candidates owner transcribe ttl_seconds pipeline_version max_claims should_stop
       now_fn update_index =
     claim_loop sha owner transcribe ttl_seconds pipeline_version max_claims should_stop
       (case now_fn of None \<Rightarrow> utc_now | Some f \<Rightarrow> f) update_index
       (ordered_candidates sha candidates owner None)
       \<lparr>cs_claimed = 0, cs_completed = 0, cs_failed = 0\<rparr>"

end
