(* ===== verification/Work_Lease_Protocol.thy ===== *)
theory Work_Lease_Protocol
  imports Work_Leases S3_Storage
begin

section \<open>The lease state machine, and the operations as its steps\<close>

text \<open>
  \<open>lease_edge\<close> is the abstract specification of the ledger: which actor may move an item's lease
  from what to what, at which time. Every write of every operation of \<open>Work_Leases\<close> is shown to be
  such an edge for the content it replaces; by the invariant rule of \<open>Store_IO\<close> the shared lease
  objects then move only along these edges, however the processes interleave.
\<close>

datatype actor = Worker string | Reaper | Operator

definition lease_of :: "blob option \<Rightarrow> work_lease option" where
  "lease_of c = (case c of None \<Rightarrow> None | Some b \<Rightarrow> decode_lease b)"

inductive lease_edge :: "bool \<Rightarrow> actor \<Rightarrow> instant \<Rightarrow> work_lease option \<Rightarrow> work_lease \<Rightarrow> bool"
  for artifact :: bool where
  edge_claim: "claim_open old pv t \<Longrightarrow>
     lease_edge artifact (Worker o') t old (held_lease old sk uid o' ttl pv t)"
| edge_renew: "wl_owner l = o' \<Longrightarrow> wl_state l = Leased \<Longrightarrow> \<not> is_expired l t \<Longrightarrow>
     lease_edge artifact (Worker o') t (Some l) (l\<lparr>wl_lease_expiry := Some e, wl_updated_at := Some t\<rparr>)"
| edge_release: "wl_owner l = o' \<Longrightarrow> wl_state l = Leased \<Longrightarrow> \<not> is_expired l t \<Longrightarrow> st \<in> {Done, Failed} \<Longrightarrow>
     lease_edge artifact (Worker o') t (Some l)
       (l\<lparr>wl_state := st, wl_lease_expiry := None, wl_updated_at := Some t\<rparr>)"
| edge_abandon: "wl_owner l = o' \<Longrightarrow> wl_state l = Leased \<Longrightarrow> \<not> is_expired l t \<Longrightarrow>
     lease_edge artifact (Worker o') t (Some l) (requeue l t)"
| edge_settle: "artifact \<Longrightarrow> wl_state l = Leased \<Longrightarrow>
     lease_edge artifact Reaper t (Some l)
       (l\<lparr>wl_state := Done, wl_lease_expiry := None, wl_updated_at := Some t\<rparr>)"
| edge_reap: "wl_state l = Leased \<Longrightarrow> is_expired l t \<Longrightarrow>
     lease_edge artifact Reaper t (Some l) (requeue l t)"
| edge_reopen: "wl_state l = Failed \<Longrightarrow>
     lease_edge artifact Operator t (Some l) (requeue l t)"

inductive_simps lease_edge_Some: "lease_edge artifact a t (Some l) l'"

definition is_lease_key :: "string \<Rightarrow> bool" where
  "is_lease_key k \<longleftrightarrow> py_startswith k ''work-leases/''"

definition lease_rule ::
  "string set \<Rightarrow> actor \<Rightarrow> instant \<Rightarrow> string \<Rightarrow> blob option \<Rightarrow> blob \<Rightarrow> bool" where
  "lease_rule arts a t k old d \<longleftrightarrow>
     (is_lease_key k \<longrightarrow>
        (\<exists>t0\<le>t. \<exists>l'. d = serialize_lease l' \<and> lease_edge (k \<in> arts) a t0 (lease_of old) l'))"

lemma discipline_lease_rule: "discipline (lease_rule arts a)"
  unfolding discipline_def lease_rule_def by (blast intro: order_trans)

subsection \<open>Keys and codecs\<close>

lemma is_lease_key_lease_key [simp]: "is_lease_key (lease_key sk uid)"
  by (simp add: is_lease_key_def lease_key_def LEASE_PREFIX_def py_startswith_def)

lemma index_key_not_lease [simp]: "\<not> is_lease_key (index_bucket_key n)"
  by (simp add: is_lease_key_def index_bucket_key_def INDEX_PREFIX_def py_startswith_def)

lemma state_of_json_name [simp]: "state_of_json (JStr (state_name s)) = Inr s"
  by (cases s) (simp_all add: state_of_json_def)

lemma as_dict_jsort_obj: "as_dict (jsort (JObj kvs)) = sort_key fst (map (map_prod id jsort) kvs)"
  by simp

lemma dget_jsort_obj:
  "dget (as_dict (jsort (JObj kvs))) k v = (case map_of kvs k of None \<Rightarrow> v | Some x \<Rightarrow> jsort x)"
  by (simp add: dget_def dict_simps split: option.splits)

lemma decode_serialize: "decode_lease (serialize_lease l) = Some l"
proof -
  have "lease_from_dict (as_dict (jsort (JObj (lease_to_dict l)))) = Inr l"
    unfolding lease_from_dict_def dget_jsort_obj
    by (simp add: lease_to_dict_def)
  then show ?thesis
    by (simp add: decode_lease_def serialize_lease_def dumps_sorted_def del: jsort.simps)
qed

lemma lease_of_serialize [simp]: "lease_of (Some (serialize_lease l)) = Some l"
  by (simp add: lease_of_def decode_serialize)

subsection \<open>Every operation keeps the discipline\<close>

definition tag_content :: "etag option \<Rightarrow> blob option" where
  "tag_content et = (case et of None \<Rightarrow> None | Some (ETag b) \<Rightarrow> Some b)"

lemma cond_legal_cond_of [simp]: "cond_legal R t k (cond_of et) d = R t k (tag_content et) d"
  by (auto simp: cond_legal_def cond_of_def tag_content_def split: option.split etag.split)

lemma cond_of_Some [simp]: "cond_of (Some e) = IfMatch e"
  by (simp add: cond_of_def)

lemma safe_read_lease:
  assumes "\<And>et. Q t (Inr (lease_of (tag_content et), et))" and "\<And>e. Q t (Inl e)"
  shows "safe R Q (read_lease sk uid) t"
  unfolding read_lease_def
proof (rule safe_bind, rule safe_get_bytes)
  fix r assume "reply_ok r"
  then show "case r of Inl e \<Rightarrow> Q t (Inl e)
     | Inr a \<Rightarrow> safe R Q (case a of None \<Rightarrow> Ret (None, None)
                                | Some (data, etag) \<Rightarrow> Ret (decode_lease data, Some etag)) t"
    using assms(2) assms(1) [of None] assms(1) [of "Some (ETag b)" for b]
    by (auto simp: reply_ok_def lease_of_def tag_content_def split: sum.splits option.splits)
qed

text \<open>Index buckets are outside the lease keys, so the discipline leaves them free.\<close>

definition index_free :: "(instant \<Rightarrow> string \<Rightarrow> blob option \<Rightarrow> blob \<Rightarrow> bool) \<Rightarrow> bool" where
  "index_free R \<longleftrightarrow> (\<forall>t n old d. R t (index_bucket_key n) old d)"

lemma index_free_lease_rule [simp]: "index_free (lease_rule arts a)"
  by (simp add: index_free_def lease_rule_def)

lemma safe_load_index_bucket:
  assumes "\<And>v. Q t (Inr v)" and "\<And>e. Q t (Inl e)"
  shows "safe R Q (load_index_bucket n) t"
  unfolding load_index_bucket_def
  by (rule safe_bind, rule safe_get_bytes) (auto simp: assms split: sum.splits option.splits)

lemma safe_mutate_index_loop:
  assumes "index_free R" and "\<And>r. Q t r"
  shows "safe R Q (mutate_index_loop a prev n f) t"
proof (induction a arbitrary: prev)
  case 0
  then show ?case by (simp add: assms split: option.splits)
next
  case (Suc a)
  then show ?case
    unfolding mutate_index_loop.simps
    by (intro safe_bind safe_load_index_bucket)
       (auto intro!: safe_bind safe_attempt safe_put_cas simp: assms index_free_def split: sum.splits
         intro: assms(1) [unfolded index_free_def, rule_format])
qed

lemma safe_index_ops:
  assumes "index_free R" and "\<And>r. Q t r"
  shows "safe R Q (index_upsert sha sk uid ex bc) t" and "safe R Q (index_remove sha sk uid bc) t"
    and "safe R Q (drop_index_entries n ids) t"
  unfolding index_upsert_def index_remove_def drop_index_entries_def mutate_index_bucket_def
  by (rule safe_bind, rule safe_attempt, rule safe_mutate_index_loop [OF assms(1)],
      simp add: assms(2))+

text \<open>
  The shape all holders' operations share: read the clock, read the lease, and either stop or
  replace it by an edge of the state machine.
\<close>

definition timely :: "instant option \<Rightarrow> instant \<Rightarrow> bool" where
  "timely now_arg t = (case now_arg of None \<Rightarrow> True | Some n \<Rightarrow> n \<le> t)"

lemma safe_clock_read:
  assumes "timely na t"
    and "\<And>now t' et. now \<le> t' \<Longrightarrow> safe R any_result (f now (lease_of (tag_content et), et)) t'"
  shows "safe R any_result (bind (now_or_clock na) (\<lambda>now. bind (read_lease sk uid) (f now))) t"
proof -
  have "safe R any_result (bind (read_lease sk uid) (f now)) t'" if "now \<le> t'" for now t'
    by (rule safe_bind, rule safe_read_lease) (simp_all add: assms(2) that)
  then show ?thesis
    using assms(1) by (cases na) (auto simp: now_or_clock_def utc_now_def timely_def)
qed

lemma lease_ruleI:
  assumes "lease_edge (lease_key sk uid \<in> arts) a now (lease_of old) l'" and "now \<le> t"
  shows "lease_rule arts a t (lease_key sk uid) old (serialize_lease l')"
  using assms unfolding lease_rule_def by blast

lemma lease_rule_Some:
  assumes "lease_of old = Some l" and "lease_edge (lease_key sk uid \<in> arts) a now (Some l) l'"
    and "now \<le> t"
  shows "lease_rule arts a t (lease_key sk uid) old (serialize_lease l')"
  using lease_ruleI [of sk uid arts a now old l' t] assms by simp

lemmas holder_rules =
  lease_rule_Some [OF _ edge_renew] lease_rule_Some [OF _ edge_release] lease_rule_Some [OF _ edge_abandon]

lemma safe_put_then:
  assumes "R t k (tag_content et) d" and "\<And>w. safe R any_result (f w) t"
  shows "safe R any_result (bind (try_put k d (cond_of et)) f) t"
  by (rule safe_bind, rule safe_try_put) (simp_all add: assms split: sum.split)

lemma safe_then_ret: "safe R any_result p t \<Longrightarrow> safe R any_result (bind p (\<lambda>_. Ret v)) t"
  by (rule safe_bind, erule safe_conseq) (simp split: sum.split)

lemmas safe_maintain = safe_then_ret [OF safe_index_ops(1)] safe_then_ret [OF safe_index_ops(2)]
  safe_then_ret [OF safe_index_ops(3)]

lemma safe_claim:
  assumes "timely na t"
  shows "safe (lease_rule arts (Worker o')) any_result (claim sha sk uid o' ttl pv na ui) t"
  unfolding claim_def Let_def
  by (rule safe_clock_read [OF assms])
     (auto intro!: safe_put_then safe_maintain intro: lease_ruleI edge_claim split: option.splits)

lemma still_oursD:
  assumes "still_ours (lease_of (tag_content et)) et o' t"
  obtains l where "lease_of (tag_content et) = Some l" and "wl_owner l = o'" and "wl_state l = Leased"
    and "\<not> is_expired l t"
  using assms by (auto simp: still_ours_def split: option.splits)

lemma safe_renew:
  assumes "timely na t"
  shows "safe (lease_rule arts (Worker o')) any_result (renew sha sk uid o' ttl na ui) t"
  unfolding renew_def Let_def
  by (rule safe_clock_read [OF assms])
     (auto elim!: still_oursD intro!: safe_put_then safe_maintain holder_rules
        split: option.splits)

lemma safe_release:
  assumes "timely na t"
  shows "safe (lease_rule arts (Worker o')) any_result (release sha sk uid o' st na ui) t"
proof (cases "st \<in> {Done, Failed}")
  case True
  then have nn: "\<not> st \<notin> {Done, Failed}" by simp
  show ?thesis
    unfolding release_def Let_def if_not_P [OF nn]
    by (rule safe_clock_read [OF assms])
       (use True in \<open>auto elim!: still_oursD intro!: safe_put_then safe_maintain holder_rules split: option.splits\<close>)
qed (simp add: release_def)

lemma safe_abandon:
  assumes "timely na t"
  shows "safe (lease_rule arts (Worker o')) any_result (abandon sha sk uid o' na ui) t"
  unfolding abandon_def Let_def
  by (rule safe_clock_read [OF assms])
     (auto elim!: still_oursD intro!: safe_put_then safe_maintain holder_rules
        split: option.splits)

lemma safe_read_then:
  assumes "\<And>et. safe R any_result (f (lease_of (tag_content et), et)) t"
  shows "safe R any_result (bind (read_lease sk uid) f) t"
  by (rule safe_bind, rule safe_read_lease) (simp_all add: assms)

lemma safe_requeue_failed: "safe (lease_rule arts Operator) any_result (requeue_failed sha cs None dry) t"
proof -
  have item: "safe (lease_rule arts Operator) any_result (requeue_failed_item sha now dry x s) t1"
    if "now \<le> t1" for now x s t1
  proof (cases x)
    case (Pair sk uid)
    have put: "safe (lease_rule arts Operator) any_result
        (bind (try_put (lease_key sk uid) (serialize_lease (requeue l now)) (IfMatch e)) f) t1"
      if "lease_of (tag_content (Some e)) = Some l" and "wl_state l = Failed"
        and "\<And>w. safe (lease_rule arts Operator) any_result (f w) t1" for e l f
      unfolding cond_of_Some [symmetric]
      using that \<open>now \<le> t1\<close> by (intro safe_put_then lease_ruleI) (auto intro: edge_reopen)
    show ?thesis
      unfolding requeue_failed_item_def Let_def Pair prod.case
      by (rule safe_read_then) (auto intro!: put safe_maintain split: option.splits)
  qed
  show ?thesis
    unfolding requeue_failed_def
    by (rule safe_bind, rule safe_now_or_clock) (auto intro!: safe_foldIO_any item)
qed

text \<open>
  The reaper's inputs: \<open>arts\<close> holds the lease keys of the items whose artifact exists, and the
  callbacks write no lease.
\<close>

definition artifact_oracle :: "string set \<Rightarrow> (string \<Rightarrow> string \<Rightarrow> bool io) \<Rightarrow> bool" where
  "artifact_oracle arts ap \<longleftrightarrow>
     (\<forall>sk uid t. safe (lease_rule arts Reaper) (\<lambda>_ r. r = Inr True \<longrightarrow> lease_key sk uid \<in> arts) (ap sk uid) t)"

definition lease_free_callback :: "string set \<Rightarrow> reap_callback \<Rightarrow> bool" where
  "lease_free_callback arts cb \<longleftrightarrow>
     (\<forall>f. cb = Some f \<longrightarrow> (\<forall>o' t. safe (lease_rule arts Reaper) any_result (f o') t))"

lemma reap_decision_edge:
  assumes "reap_decision l present now = Some (l', oc)" and "wl_state l = Leased"
    and "present \<Longrightarrow> artifact"
  shows "lease_edge artifact Reaper now (Some l) l'"
  using assms by (auto simp: reap_decision_def intro: edge_settle edge_reap split: if_splits)

lemma safe_settle_leased:
  assumes "artifact_oracle arts ap" and "lease_of (tag_content (Some e)) = Some l"
    and "wl_state l = Leased" and "now \<le> t"
  shows "safe (lease_rule arts Reaper) any_result (settle_leased ap sk uid l e now dry) t"
  unfolding settle_leased_def
proof (rule safe_bind, rule safe_conseq)
  show "safe (lease_rule arts Reaper) (\<lambda>_ r. r = Inr True \<longrightarrow> lease_key sk uid \<in> arts) (ap sk uid) t"
    using assms(1) by (simp add: artifact_oracle_def)
next
  fix t' :: instant and r :: "exn + bool"
  assume t': "t \<le> t'" and r: "r = Inr True \<longrightarrow> lease_key sk uid \<in> arts"
  have put: "safe (lease_rule arts Reaper) any_result
      (bind (try_put (lease_key sk uid) (serialize_lease l') (IfMatch e)) f) t'"
    if "reap_decision l p now = Some (l', oc)" and "p \<Longrightarrow> lease_key sk uid \<in> arts"
      and "\<And>w. safe (lease_rule arts Reaper) any_result (f w) t'" for l' oc p f
  proof -
    have "lease_edge (lease_key sk uid \<in> arts) Reaper now (lease_of (tag_content (Some e))) l'"
      using reap_decision_edge [OF that(1) assms(3) that(2)] assms(2) by simp
    moreover have "now \<le> t'" using assms(4) t' by simp
    ultimately have "lease_rule arts Reaper t' (lease_key sk uid) (tag_content (Some e)) (serialize_lease l')"
      by (rule lease_ruleI)
    then show ?thesis
      unfolding cond_of_Some [symmetric] using that(3) by (rule safe_put_then)
  qed
  show "case r of Inl e \<Rightarrow> True
     | Inr a \<Rightarrow> safe (lease_rule arts Reaper) any_result
         (case reap_decision l a now of None \<Rightarrow> Ret InFlight
          | Some (l, outcome) \<Rightarrow>
              if dry then Ret outcome
              else bind (try_put (lease_key sk uid) (serialize_lease l) (IfMatch e))
                     (\<lambda>won. case won of None \<Rightarrow> Ret Skip | Some x \<Rightarrow> Ret outcome)) t'"
    using r by (auto split: sum.split option.split intro!: put)
qed

lemma safe_invoke_reap_callback:
  assumes "lease_free_callback arts f" and "lease_free_callback arts g"
  shows "safe (lease_rule arts Reaper) any_result (invoke_reap_callback oc o' f g dry) t"
  unfolding invoke_reap_callback_def
  using assms
  by (auto intro!: safe_bind_any safe_attempt_any simp: lease_free_callback_def
      split: reap_outcome.split option.split)

lemma safe_reap_one:
  assumes "artifact_oracle arts ap" and "lease_free_callback arts f" and "lease_free_callback arts g"
    and "now \<le> t"
  shows "safe (lease_rule arts Reaper) any_result (reap_one ap f g now dry sk uid) t"
  unfolding reap_one_def
  by (rule safe_read_then)
     (auto intro!: safe_bind_any safe_settle_leased safe_invoke_reap_callback simp: assms
       split: option.splits)

lemma safe_reap:
  assumes "artifact_oracle arts ap" and "lease_free_callback arts f" and "lease_free_callback arts g"
  shows "safe (lease_rule arts Reaper) any_result (reap cs ap f g None dry) t"
  unfolding reap_def
  by (rule safe_bind, rule safe_now_or_clock)
     (auto intro!: safe_foldIO_any safe_bind_any safe_reap_one simp: assms split: option.splits)

lemma safe_sweep_entry:
  assumes "artifact_oracle arts ap" and "lease_free_callback arts f" and "lease_free_callback arts g"
    and "now \<le> t"
  shows "safe (lease_rule arts Reaper) any_result (sweep_entry ap f g now dry kv acc) t"
  unfolding sweep_entry_def
  by (auto intro!: safe_bind_any safe_reap_one simp: assms split: prod.splits json.splits option.splits)

lemma safe_sweep_bucket:
  assumes "artifact_oracle arts ap" and "lease_free_callback arts f" and "lease_free_callback arts g"
    and "now \<le> t"
  shows "safe (lease_rule arts Reaper) any_result (sweep_bucket ap f g now dry n acc) t"
  unfolding sweep_bucket_def
  using assms(4)
  by (auto intro!: safe_bind_any safe_load_index_bucket safe_foldIO_any safe_index_ops
      intro: safe_sweep_entry [OF assms(1-3)] order_trans split: prod.splits)

lemma safe_sweep_integrity:
  assumes "artifact_oracle arts ap" and "lease_free_callback arts f" and "lease_free_callback arts g"
    and "now \<le> t"
  shows "safe (lease_rule arts Reaper) any_result (sweep_integrity sha ap f g now dry bc sl seen it acc) t"
  unfolding sweep_integrity_def
  using assms(4)
  by (auto intro!: safe_bind_any safe_index_ops intro: safe_reap_one [OF assms(1-3)]
      split: prod.splits option.splits)

lemma safe_reap_indexed:
  assumes "artifact_oracle arts ap" and "lease_free_callback arts f" and "lease_free_callback arts g"
  shows "safe (lease_rule arts Reaper) any_result (reap_indexed sha ap f g None dry bc cs pt) t"
  unfolding reap_indexed_def
  by (rule safe_bind, rule safe_now_or_clock)
     (auto intro!: safe_foldIO_any safe_bind_any safe_sweep_bucket [OF assms] safe_sweep_integrity [OF assms]
       split: option.splits prod.splits)

text \<open>The worker's pull loop: its \<open>transcribe\<close> callback acts for the same worker.\<close>

definition time_source :: "instant io \<Rightarrow> bool" where
  "time_source f \<longleftrightarrow>
     (\<forall>R t. safe R (\<lambda>t' r. case r of Inl e \<Rightarrow> True | Inr n \<Rightarrow> n \<le> t') f t)"

lemma safe_claim_loop:
  assumes "\<And>sk uid t. safe (lease_rule arts (Worker o')) any_result (transcribe sk uid) t"
    and "\<And>stop t. should_stop = Some stop \<Longrightarrow> safe (lease_rule arts (Worker o')) any_result stop t"
    and "time_source now_fn"
  shows "safe (lease_rule arts (Worker o')) any_result
     (claim_loop sha o' transcribe ttl pv mx should_stop now_fn ui items c) t"
proof (induction items arbitrary: c t)
  case (Cons item items)
  have read: "safe (lease_rule arts (Worker o')) any_result (bind now_fn f) t"
    if "\<And>now t. now \<le> t \<Longrightarrow> safe (lease_rule arts (Worker o')) any_result (f now) t" for f t
    by (rule safe_bind, rule safe_conseq [of _ "\<lambda>t' r. case r of Inl e \<Rightarrow> True | Inr n \<Rightarrow> n \<le> t'"])
       (use assms(3) that in \<open>auto simp: time_source_def split: sum.splits\<close>)
  define st where "st = (case should_stop of None \<Rightarrow> Ret False | Some stop \<Rightarrow> stop)"
  have st: "safe (lease_rule arts (Worker o')) any_result st t" for t
    by (simp add: st_def assms(2) split: option.split)
  have rest: "safe (lease_rule arts (Worker o')) any_result
      (claim_loop sha o' transcribe ttl pv mx should_stop now_fn ui items c) t" for c t
    by (rule Cons.IH)
  define full where "full = (case mx of None \<Rightarrow> False | Some m \<Rightarrow> m \<le> int (cs_claimed c))"
  show ?case
    unfolding claim_loop.simps st_def [symmetric] full_def [symmetric]
    by (auto intro!: safe_bind_any st read safe_claim safe_release safe_attempt_any rest assms(1)
        simp: timely_def split: option.split sum.split)
qed simp

lemma time_source_clock: "time_source utc_now"
  by (simp add: time_source_def utc_now_def)

subsection \<open>The programs that run against the ledger\<close>

inductive lease_program ::
  "(string \<Rightarrow> nat) \<Rightarrow> string set \<Rightarrow> actor \<Rightarrow> unit io \<Rightarrow> bool"
  for sha :: "string \<Rightarrow> nat" and arts :: "string set" where
  prog_claim: "lease_program sha arts (Worker w) (forget (claim sha sk uid w ttl pv None ui))"
| prog_renew: "lease_program sha arts (Worker w) (forget (renew sha sk uid w ttl None ui))"
| prog_release: "lease_program sha arts (Worker w) (forget (release sha sk uid w st None ui))"
| prog_abandon: "lease_program sha arts (Worker w) (forget (abandon sha sk uid w None ui))"
| prog_pull: "(\<And>sk uid t. safe (lease_rule arts (Worker w)) any_result (transcribe sk uid) t) \<Longrightarrow>
     lease_program sha arts (Worker w) (forget (run_claim_loop sha cs w transcribe ttl pv mx None None ui))"
| prog_reap: "artifact_oracle arts ap \<Longrightarrow> lease_free_callback arts f \<Longrightarrow> lease_free_callback arts g \<Longrightarrow>
     lease_program sha arts Reaper (forget (reap cs ap f g None dry))"
| prog_reap_indexed: "artifact_oracle arts ap \<Longrightarrow> lease_free_callback arts f \<Longrightarrow> lease_free_callback arts g \<Longrightarrow>
     lease_program sha arts Reaper (forget (reap_indexed sha ap f g None dry bc ics pt))"
| prog_requeue_failed: "lease_program sha arts Operator (forget (requeue_failed sha cs None dry))"

inductive_cases lease_program_workerE: "lease_program sha arts (Worker w) p"

lemma safe_forget: "safe R any_result p t \<Longrightarrow> safe R any_result (forget p) t"
  unfolding forget_def by (rule safe_then_ret)

lemma lease_program_safe:
  "lease_program sha arts a p \<Longrightarrow> safe (lease_rule arts a) any_result p t"
  by (induction rule: lease_program.induct)
     (auto intro!: safe_forget safe_claim safe_renew safe_release safe_abandon safe_claim_loop safe_reap
        safe_reap_indexed safe_requeue_failed time_source_clock simp: timely_def run_claim_loop_def)

end
