(* ===== verification/Work_Lease_Properties.thy ===== *)
theory Work_Lease_Properties
  imports Work_Lease_Protocol Routing_Storage
begin

section \<open>What the lease ledger guarantees\<close>

text \<open>
  Two kinds of results: for any interleaving of any number of workers, reapers and operators on any
  store with the compare-and-swap contract (\<open>cas_store\<close>), and the outcome of an operation that runs
  alone on a store that answers (\<open>reliable_store\<close>).
\<close>

subsection \<open>Interleavings\<close>

definition ledger_clients ::
  "(string \<Rightarrow> nat) \<Rightarrow> string set \<Rightarrow> (nat \<Rightarrow> actor) \<Rightarrow> (nat \<Rightarrow> unit io \<Rightarrow> bool) \<Rightarrow> bool" where
  "ledger_clients sha arts who launch \<longleftrightarrow> (\<forall>i p. launch i p \<longrightarrow> lease_program sha arts (who i) p)"

lemma ledger_clients_safe:
  "ledger_clients sha arts who launch \<Longrightarrow> launch i p \<Longrightarrow> safe (lease_rule arts (who i)) any_result p t"
  by (auto simp: ledger_clients_def intro: lease_program_safe)

context cas_store
begin

text \<open>The invariant rule, for a property of one lease object.\<close>

lemma lease_reach_invariant:
  assumes clients: "ledger_clients sha arts who launch" and idle: "all_idle S0"
    and reach1: "sys_reach ops launch S0 S" and reach2: "sys_reach ops launch S S'"
    and init: "J (sys_time S) (view (sys_store S) (lease_key sk uid))"
    and time: "\<And>t t' c. t \<le> t' \<Longrightarrow> J t c \<Longrightarrow> J t' c"
    and edge: "\<And>i t t0 c l'. t0 \<le> t \<Longrightarrow> J t c \<Longrightarrow>
           lease_edge (lease_key sk uid \<in> arts) (who i) t0 (lease_of c) l' \<Longrightarrow> J t (Some (serialize_lease l'))"
  shows "J (sys_time S') (view (sys_store S') (lease_key sk uid))"
proof -
  have procs: "safe (lease_rule arts (who i)) any_result (sys_proc S i) (sys_time S)" for i
    by (rule reach_safe [OF reach1 idle discipline_lease_rule ledger_clients_safe [OF clients]])
  have trans: "J t (v' (lease_key sk uid))"
    if "write_step (lease_rule arts (who i)) t v v'" and "J t (v (lease_key sk uid))" for i t v v'
    using that edge by (auto simp: write_step_def lease_rule_def)
  have "J (sys_time S') (view (sys_store S') (lease_key sk uid)) \<and>
        (\<forall>i. safe (lease_rule arts (who i)) any_result (sys_proc S' i) (sys_time S'))"
    using reach2 procs discipline_lease_rule ledger_clients_safe [OF clients] init time trans
    by (rule reach_invariant_from [where R = "\<lambda>i. lease_rule arts (who i)"
          and I = "\<lambda>t v. J t (v (lease_key sk uid))"])
  then show ?thesis ..
qed

lemma lease_step:
  assumes clients: "ledger_clients sha arts who launch" and idle: "all_idle S0"
    and reach: "sys_reach ops launch S0 S" and step: "sys_step ops launch S S'"
    and change: "view (sys_store S') (lease_key sk uid) \<noteq> view (sys_store S) (lease_key sk uid)"
  shows "\<exists>i l' t. t \<le> sys_time S \<and> view (sys_store S') (lease_key sk uid) = Some (serialize_lease l') \<and>
     lease_edge (lease_key sk uid \<in> arts) (who i) t (lease_of (view (sys_store S) (lease_key sk uid))) l'"
proof -
  have procs: "safe (lease_rule arts (who i)) any_result (sys_proc S i) (sys_time S)" for i
    by (rule reach_safe [OF reach idle discipline_lease_rule ledger_clients_safe [OF clients]])
  obtain i where "write_step (lease_rule arts (who i)) (sys_time S) (view (sys_store S)) (view (sys_store S'))"
    using sys_step_write [where R = "\<lambda>i. lease_rule arts (who i)", OF step procs] change by auto
  then show ?thesis
    using change by (auto 0 4 simp: write_step_def lease_rule_def split: if_splits)
qed

end

text \<open>A live lease admits no edge by anybody else; every edge keeps or raises the attempt count.\<close>

lemma live_lease_no_edge:
  assumes "lease_edge False a t (Some l) l'" and "wl_state l = Leased" and "\<not> is_expired l t"
  shows "a = Worker (wl_owner l)"
  using assms by (auto simp: lease_edge_Some claim_open_def stale_terminal_def is_claimable_def)

lemma lease_edge_attempts:
  "lease_edge artifact a t old l' \<Longrightarrow>
     wl_attempts l' = (case old of None \<Rightarrow> 0 | Some l \<Rightarrow> wl_attempts l) +
       (if wl_state l' = Leased \<and> (case old of None \<Rightarrow> True | Some l \<Rightarrow> wl_state l \<noteq> Leased \<or> is_expired l t)
        then 1 else 0)"
  by (induction rule: lease_edge.induct)
     (auto simp: held_lease_def requeue_def claim_open_def stale_terminal_def is_claimable_def
       split: option.splits)

subsection \<open>Outcomes on a store that answers\<close>

definition bucket_entries :: "blob option \<Rightarrow> pydict" where
  "bucket_entries c =
     (case c of
        None \<Rightarrow> []
      | Some b \<Rightarrow> (case json_loads b of
          Inl _ \<Rightarrow> []
        | Inr j \<Rightarrow> as_dict (dget (as_dict j) ''entries'' JNull)))"

lemma bucket_entries_serialize:
  "map_of (bucket_entries (Some (serialize_index_bucket es))) k = map_option jsort (map_of es k)"
  by (simp add: bucket_entries_def serialize_index_bucket_def dumps_sorted_def dget_def dict_simps)

context reliable_store
begin

lemma run_read_lease:
  assumes "serves (lease_key sk uid)"
  obtains s' where "run ops t (read_lease sk uid) s =
      (Inr (lease_of (view s (lease_key sk uid)), map_option ETag (view s (lease_key sk uid))), s')"
    and "view s' = view s"
proof -
  obtain s' where "op_get ops s (lease_key sk uid) =
      (Inr (map_option (\<lambda>b. (b, ETag b)) (view s (lease_key sk uid))), s')" and "view s' = view s"
    using get_cases [OF assms] by blast
  with that show thesis
    by (cases "view s (lease_key sk uid)") (auto simp: read_lease_def io_simps lease_of_def)
qed

lemma run_mutate_index:
  assumes "serves (index_bucket_key n)"
  obtains s' where "run ops t (mutate_index_loop (Suc a) prev n f) s = (Inr (), s')"
    and "view s' = (view s)(index_bucket_key n :=
           Some (serialize_index_bucket (f (bucket_entries (view s (index_bucket_key n))))))"
proof -
  let ?k = "index_bucket_key n"
  let ?e = "bucket_entries (view s ?k)" and ?c = "cond_of (map_option ETag (view s ?k))"
  obtain s1 where g: "op_get ops s ?k = (Inr (map_option (\<lambda>b. (b, ETag b)) (view s ?k)), s1)"
    and s1: "view s1 = view s"
    using get_cases [OF assms] by blast
  have load: "run ops t (load_index_bucket n) s = (Inr (?e, map_option ETag (view s ?k)), s1)"
    using g by (cases "view s ?k")
      (auto simp: load_index_bucket_def io_simps bucket_entries_def split: sum.split)
  have "cond_holds ?c (view s1 ?k)"
    by (auto simp: cond_holds_def cond_of_def s1 split: option.split)
  then obtain s2 where p: "op_put ops s1 ?k (serialize_index_bucket (f ?e)) ?c =
      (Inr (ETag (serialize_index_bucket (f ?e))), s2)"
    and s2: "view s2 = (view s1)(?k := Some (serialize_index_bucket (f ?e)))"
    using put_cases [OF assms] by blast
  show thesis
    by (rule that [of s2]) (simp_all add: io_simps load p s2 s1)
qed

end

context reliable_store
begin

lemma run_try_put_current:
  assumes "serves k"
  obtains s' where "run ops t (try_put k d (cond_of (map_option ETag (view s k)))) s = (Inr (Some (ETag d)), s')"
    and "view s' = (view s)(k := Some d)"
proof -
  obtain s' where "op_put ops s k d (cond_of (map_option ETag (view s k))) = (Inr (ETag d), s')"
    and v: "view s' = (view s)(k := Some d)"
    using put_cases [OF assms cond_holds_current] by blast
  then show thesis
    by (intro that [OF _ v]) (simp add: try_put_def io_simps)
qed

lemma run_index_upsert:
  assumes "serves (index_bucket_key (index_bucket_for sha sk uid bc))"
  obtains s' where "run ops t (index_upsert sha sk uid ex bc) s = (Inr (), s')"
    and "view s' = (view s)(index_bucket_key (index_bucket_for sha sk uid bc) :=
      Some (serialize_index_bucket (AList.update (entry_id sk uid) (index_entry sk uid ex)
        (bucket_entries (view s (index_bucket_key (index_bucket_for sha sk uid bc)))))))"
proof -
  obtain s' where r: "run ops t (mutate_index_loop (Suc 7) None (index_bucket_for sha sk uid bc)
      (AList.update (entry_id sk uid) (index_entry sk uid ex))) s = (Inr (), s')"
    and v: "view s' = (view s)(index_bucket_key (index_bucket_for sha sk uid bc) :=
      Some (serialize_index_bucket (AList.update (entry_id sk uid) (index_entry sk uid ex)
        (bucket_entries (view s (index_bucket_key (index_bucket_for sha sk uid bc)))))))"
    by (rule run_mutate_index [OF assms])
  show thesis
    by (rule that [OF _ v])
       (use r in \<open>simp add: index_upsert_def mutate_index_bucket_def run_bind run_attempt
          del: mutate_index_loop.simps\<close>)
qed

lemma run_index_remove:
  assumes "serves (index_bucket_key (index_bucket_for sha sk uid bc))"
  obtains s' where "run ops t (index_remove sha sk uid bc) s = (Inr (), s')"
    and "view s' = (view s)(index_bucket_key (index_bucket_for sha sk uid bc) :=
      Some (serialize_index_bucket (AList.delete (entry_id sk uid)
        (bucket_entries (view s (index_bucket_key (index_bucket_for sha sk uid bc)))))))"
proof -
  obtain s' where r: "run ops t (mutate_index_loop (Suc 7) None (index_bucket_for sha sk uid bc)
      (AList.delete (entry_id sk uid))) s = (Inr (), s')"
    and v: "view s' = (view s)(index_bucket_key (index_bucket_for sha sk uid bc) :=
      Some (serialize_index_bucket (AList.delete (entry_id sk uid)
        (bucket_entries (view s (index_bucket_key (index_bucket_for sha sk uid bc)))))))"
    by (rule run_mutate_index [OF assms])
  show thesis
    by (rule that [OF _ v])
       (use r in \<open>simp add: index_remove_def mutate_index_bucket_def run_bind run_attempt
          del: mutate_index_loop.simps\<close>)
qed

lemma run_claim:
  fixes w ttl pv t s
  assumes K: "serves (lease_key sk uid)" and B: "serves (index_bucket_key (index_bucket_for sha sk uid 64))"
  defines "old \<equiv> lease_of (view s (lease_key sk uid))"
    and "held \<equiv> held_lease (lease_of (view s (lease_key sk uid))) sk uid w ttl pv t"
  obtains s' where "run ops t (claim sha sk uid w ttl pv None True) s =
      (Inr (if claim_open old pv t then Some held else None), s')"
    and "view s' = (if \<not> claim_open old pv t then view s
           else (view s)(lease_key sk uid := Some (serialize_lease held),
             index_bucket_key (index_bucket_for sha sk uid 64) :=
               Some (serialize_index_bucket (AList.update (entry_id sk uid)
                 (index_entry sk uid (wl_lease_expiry held))
                 (bucket_entries (view s (index_bucket_key (index_bucket_for sha sk uid 64))))))))"
proof -
  obtain s1 where r1: "run ops t (read_lease sk uid) s =
      (Inr (old, map_option ETag (view s (lease_key sk uid))), s1)" and v1: "view s1 = view s"
    unfolding old_def by (rule run_read_lease [OF K])
  show thesis
  proof (cases "claim_open old pv t")
    case False
    then show ?thesis
      by (intro that [of s1]) (simp_all add: claim_def io_simps r1 v1)
  next
    case True
    obtain s2 where r2: "run ops t (try_put (lease_key sk uid) (serialize_lease held)
        (cond_of (map_option ETag (view s1 (lease_key sk uid))))) s1 = (Inr (Some (ETag (serialize_lease held))), s2)"
      and v2: "view s2 = (view s1)(lease_key sk uid := Some (serialize_lease held))"
      by (rule run_try_put_current [OF K])
    obtain s3 where r3: "run ops t (index_upsert sha sk uid (wl_lease_expiry held) 64) s2 = (Inr (), s3)"
      and v3: "view s3 = (view s2)(index_bucket_key (index_bucket_for sha sk uid 64) :=
        Some (serialize_index_bucket (AList.update (entry_id sk uid) (index_entry sk uid (wl_lease_expiry held))
          (bucket_entries (view s2 (index_bucket_key (index_bucket_for sha sk uid 64)))))))"
      by (rule run_index_upsert [OF B])
    have ne: "index_bucket_key n \<noteq> lease_key sk uid" for n
      using is_lease_key_lease_key index_key_not_lease by metis
    have held': "held_lease old sk uid w ttl pv t = held"
      by (simp add: held_def old_def)
    show ?thesis
      by (rule that [of s3])
         (use True r1 r2 r3 in \<open>simp_all add: claim_def Let_def io_simps held'
            INDEX_BUCKET_COUNT_def v1 v2 v3 ne\<close>)
  qed
qed

lemma run_claim_result:
  assumes "serves (lease_key sk uid)" and "serves (index_bucket_key (index_bucket_for sha sk uid 64))"
    and "run ops t (claim sha sk uid w ttl pv None True) s = (r, s')"
  defines "old \<equiv> lease_of (view s (lease_key sk uid))"
    and "held \<equiv> held_lease (lease_of (view s (lease_key sk uid))) sk uid w ttl pv t"
  shows "r = Inr (if claim_open old pv t then Some held else None) \<and>
         view s' = (if \<not> claim_open old pv t then view s
           else (view s)(lease_key sk uid := Some (serialize_lease held),
             index_bucket_key (index_bucket_for sha sk uid 64) :=
               Some (serialize_index_bucket (AList.update (entry_id sk uid)
                 (index_entry sk uid (wl_lease_expiry held))
                 (bucket_entries (view s (index_bucket_key (index_bucket_for sha sk uid 64))))))))"
  unfolding old_def held_def
  by (rule run_claim [OF assms(1,2), where w = w and ttl = ttl and pv = pv and t = t and s = s])
     (use assms(3) in simp)

text \<open>What a holder's operation does, given the lease it writes and the index maintenance after it.\<close>

lemma run_holder:
  assumes K: "serves (lease_key sk uid)"
    and maintain: "\<And>s. \<exists>s'. run ops t m s = (Inr (), s') \<and> (\<forall>k. is_lease_key k \<longrightarrow> view s' k = view s k)"
  obtains s' where "run ops t (bind (read_lease sk uid) (\<lambda>(existing, etag).
        if \<not> still_ours existing etag w t then Ret no
        else bind (try_put (lease_key sk uid) (serialize_lease (f (the existing))) (cond_of etag)) (\<lambda>won.
          case won of None \<Rightarrow> Ret no | Some _ \<Rightarrow> bind m (\<lambda>_. Ret (yes (f (the existing))))))) s =
      (Inr (case lease_of (view s (lease_key sk uid)) of
          Some l \<Rightarrow> if wl_owner l = w \<and> wl_state l = Leased \<and> \<not> is_expired l t then yes (f l) else no
        | None \<Rightarrow> no), s')"
    and "\<And>k. is_lease_key k \<Longrightarrow> view s' k =
       (case lease_of (view s (lease_key sk uid)) of
          Some l \<Rightarrow> if k = lease_key sk uid \<and> wl_owner l = w \<and> wl_state l = Leased \<and> \<not> is_expired l t
                    then Some (serialize_lease (f l)) else view s k
        | None \<Rightarrow> view s k)"
proof -
  let ?c = "view s (lease_key sk uid)"
  obtain s1 where r1: "run ops t (read_lease sk uid) s = (Inr (lease_of ?c, map_option ETag ?c), s1)"
    and v1: "view s1 = view s"
    by (rule run_read_lease [OF K])
  show thesis
  proof (cases "still_ours (lease_of ?c) (map_option ETag ?c) w t")
    case False
    have no: "\<not> (\<exists>l. lease_of ?c = Some l \<and> wl_owner l = w \<and> wl_state l = Leased \<and> \<not> is_expired l t)"
      using False by (cases ?c) (auto simp: still_ours_def lease_of_def)
    show ?thesis
      by (rule that [of s1])
         (use False r1 v1 no in \<open>auto simp: io_simps split: option.split\<close>)
  next
    case True
    then obtain l where l: "lease_of ?c = Some l" "wl_owner l = w" "wl_state l = Leased" "\<not> is_expired l t"
      by (auto simp: still_ours_def split: option.splits)
    obtain s2 where r2: "run ops t (try_put (lease_key sk uid) (serialize_lease (f l))
        (cond_of (map_option ETag (view s1 (lease_key sk uid))))) s1 = (Inr (Some (ETag (serialize_lease (f l)))), s2)"
      and v2: "view s2 = (view s1)(lease_key sk uid := Some (serialize_lease (f l)))"
      by (rule run_try_put_current [OF K])
    obtain s3 where r3: "run ops t m s2 = (Inr (), s3)" and v3: "\<And>k. is_lease_key k \<Longrightarrow> view s3 k = view s2 k"
      using maintain by blast
    show ?thesis
      by (rule that [of s3]) (use True l r1 r2 r3 v1 v2 v3 in \<open>simp_all add: io_simps\<close>)
  qed
qed

lemma run_index_maintenance:
  assumes "serves (index_bucket_key (index_bucket_for sha sk uid bc))"
  shows "\<exists>s'. run ops t (if ui then index_upsert sha sk uid ex bc else Ret ()) s = (Inr (), s') \<and>
           (\<forall>k. is_lease_key k \<longrightarrow> view s' k = view s k)"
    and "\<exists>s'. run ops t (if ui then index_remove sha sk uid bc else Ret ()) s = (Inr (), s') \<and>
           (\<forall>k. is_lease_key k \<longrightarrow> view s' k = view s k)"
proof -
  have "\<exists>s'. run ops t (index_upsert sha sk uid ex bc) s = (Inr (), s') \<and>
           (\<forall>k. is_lease_key k \<longrightarrow> view s' k = view s k)"
    by (rule run_index_upsert [OF assms, of t ex s]) auto
  moreover have "\<exists>s'. run ops t (index_remove sha sk uid bc) s = (Inr (), s') \<and>
           (\<forall>k. is_lease_key k \<longrightarrow> view s' k = view s k)"
    by (rule run_index_remove [OF assms, of t s]) auto
  ultimately show "\<exists>s'. run ops t (if ui then index_upsert sha sk uid ex bc else Ret ()) s = (Inr (), s') \<and>
           (\<forall>k. is_lease_key k \<longrightarrow> view s' k = view s k)"
    and "\<exists>s'. run ops t (if ui then index_remove sha sk uid bc else Ret ()) s = (Inr (), s') \<and>
           (\<forall>k. is_lease_key k \<longrightarrow> view s' k = view s k)"
    by (cases ui; simp)+
qed

end

text \<open>What an operation that replaces a held lease by \<open>f\<close> of it answers and leaves behind.\<close>

definition holder_spec ::
  "string \<Rightarrow> instant \<Rightarrow> (work_lease \<Rightarrow> work_lease) \<Rightarrow> (work_lease \<Rightarrow> 'r) \<Rightarrow> 'r \<Rightarrow> blob option \<Rightarrow> 'r \<times> blob option" where
  "holder_spec w t f yes no c =
     (case lease_of c of
        Some l \<Rightarrow> if wl_owner l = w \<and> wl_state l = Leased \<and> \<not> is_expired l t
                  then (yes (f l), Some (serialize_lease (f l))) else (no, c)
      | None \<Rightarrow> (no, c))"

context reliable_store
begin

lemma run_holder_spec:
  assumes "serves (lease_key sk uid)"
    and "\<And>s. \<exists>s'. run ops t m s = (Inr (), s') \<and> (\<forall>k. is_lease_key k \<longrightarrow> view s' k = view s k)"
    and "run ops t (bind (read_lease sk uid) (\<lambda>(existing, etag).
        if \<not> still_ours existing etag w t then Ret no
        else bind (try_put (lease_key sk uid) (serialize_lease (f (the existing))) (cond_of etag)) (\<lambda>won.
          case won of None \<Rightarrow> Ret no | Some _ \<Rightarrow> bind m (\<lambda>_. Ret (yes (f (the existing))))))) s = (r, s')"
  shows "(r, view s' (lease_key sk uid)) = map_prod Inr id (holder_spec w t f yes no (view s (lease_key sk uid)))"
  by (rule run_holder [OF assms(1,2), where w = w and f = f and yes = yes and no = no and s = s])
     (use assms(3) in \<open>auto simp: holder_spec_def split: option.splits\<close>)

lemma run_holders:
  assumes K: "serves (lease_key sk uid)" and B: "serves (index_bucket_key (index_bucket_for sha sk uid 64))"
  shows "run ops t (renew sha sk uid w ttl None ui) s = (rr, s1) \<Longrightarrow>
      (rr, view s1 (lease_key sk uid)) = map_prod Inr id
        (holder_spec w t (\<lambda>l. l\<lparr>wl_lease_expiry := Some (t + timedelta_us ttl), wl_updated_at := Some t\<rparr>)
           Some None (view s (lease_key sk uid)))"
    and "st \<in> {Done, Failed} \<Longrightarrow> run ops t (release sha sk uid w st None ui) s = (rl, s2) \<Longrightarrow>
      (rl, view s2 (lease_key sk uid)) = map_prod Inr id
        (holder_spec w t (\<lambda>l. l\<lparr>wl_state := st, wl_lease_expiry := None, wl_updated_at := Some t\<rparr>)
           (\<lambda>_. True) False (view s (lease_key sk uid)))"
    and "run ops t (abandon sha sk uid w None ui) s = (ra, s3) \<Longrightarrow>
      (ra, view s3 (lease_key sk uid)) = map_prod Inr id
        (holder_spec w t (\<lambda>l. requeue l t) (\<lambda>_. True) False (view s (lease_key sk uid)))"
proof -
  have clock: "run ops t (bind (now_or_clock None) g) = run ops t (g t)" for g :: "instant \<Rightarrow> 'x io"
    by (simp add: fun_eq_iff io_simps)
  have expiry: "wl_lease_expiry (l\<lparr>wl_lease_expiry := x, wl_updated_at := y\<rparr>) = x" for l :: work_lease and x y
    by simp
  note forms = renew_def release_def abandon_def Let_def INDEX_BUCKET_COUNT_def clock expiry
  note spec = run_holder_spec [OF K run_index_maintenance(1) [OF B, where ui = ui and ex = "Some (t + timedelta_us ttl)"]]
    run_holder_spec [OF K run_index_maintenance(2) [OF B, where ui = ui]]
  show "run ops t (renew sha sk uid w ttl None ui) s = (rr, s1) \<Longrightarrow>
      (rr, view s1 (lease_key sk uid)) = map_prod Inr id
        (holder_spec w t (\<lambda>l. l\<lparr>wl_lease_expiry := Some (t + timedelta_us ttl), wl_updated_at := Some t\<rparr>)
           Some None (view s (lease_key sk uid)))"
    by (rule spec(1)) (unfold forms)
  show "st \<in> {Done, Failed} \<Longrightarrow> run ops t (release sha sk uid w st None ui) s = (rl, s2) \<Longrightarrow>
      (rl, view s2 (lease_key sk uid)) = map_prod Inr id
        (holder_spec w t (\<lambda>l. l\<lparr>wl_state := st, wl_lease_expiry := None, wl_updated_at := Some t\<rparr>)
           (\<lambda>_. True) False (view s (lease_key sk uid)))"
    by (rule spec(2)) (unfold forms if_not_P [of "st \<notin> {Done, Failed}", OF iffD2 [OF not_not]])
  show "run ops t (abandon sha sk uid w None ui) s = (ra, s3) \<Longrightarrow>
      (ra, view s3 (lease_key sk uid)) = map_prod Inr id
        (holder_spec w t (\<lambda>l. requeue l t) (\<lambda>_. True) False (view s (lease_key sk uid)))"
    by (rule spec(2)) (unfold forms)
qed

end

subsection \<open>The properties\<close>

text \<open>
  C1: in any interleaving of workers, reapers and operators on a compare-and-swap store, whatever
  step changes an item's lease object moves the lease along one edge of the state machine: the new
  content is a well-formed lease that one of the running actors may put there for the content it
  replaces, judged at a time not after the write.
\<close>

theorem lease_steps_legal:
  assumes "cas_store ops view" and "ledger_clients sha arts who launch" and "all_idle S0"
    and "sys_reach ops launch S0 S" and "sys_step ops launch S S'"
    and "view (sys_store S') (lease_key sk uid) \<noteq> view (sys_store S) (lease_key sk uid)"
  shows "\<exists>i l' t. t \<le> sys_time S \<and> view (sys_store S') (lease_key sk uid) = Some (serialize_lease l') \<and>
     lease_edge (lease_key sk uid \<in> arts) (who i) t (lease_of (view (sys_store S) (lease_key sk uid))) l'"
  by (rule cas_store.lease_step [OF assms])

text \<open>
  C3: exclusive hold. Once a lease is held and not expired, then until its expiry no interleaving
  of operations by other workers, by operators, or by a reaper that finds no artifact, changes the
  lease object: nobody else claims, renews, releases, abandons, requeues or completes the item.
\<close>

theorem live_lease_protected:
  assumes store: "cas_store ops view" and clients: "ledger_clients sha arts who launch"
    and idle: "all_idle S0" and held: "sys_reach ops launch S0 S" and later: "sys_reach ops launch S S'"
    and lease: "lease_of (view (sys_store S) (lease_key sk uid)) = Some l" "wl_state l = Leased"
      "wl_lease_expiry l = Some e"
    and others: "\<forall>i. who i \<noteq> Worker (wl_owner l)" and no_artifact: "lease_key sk uid \<notin> arts"
    and alive: "sys_time S' < e"
  shows "view (sys_store S') (lease_key sk uid) = view (sys_store S) (lease_key sk uid)"
proof -
  let ?c = "view (sys_store S) (lease_key sk uid)"
  have edge: "t < e \<longrightarrow> Some (serialize_lease l') = ?c"
    if "t0 \<le> t" "t < e \<longrightarrow> c = ?c" "lease_edge (lease_key sk uid \<in> arts) (who i) t0 (lease_of c) l'"
    for i t t0 c l'
  proof
    assume "t < e"
    then have "\<not> is_expired l t0" and "c = ?c" using lease(3) that by (auto simp: is_expired_def)
    with that(3) lease no_artifact have "who i = Worker (wl_owner l)"
      by (auto intro: live_lease_no_edge)
    with others show "Some (serialize_lease l') = ?c" by simp
  qed
  have "sys_time S' < e \<longrightarrow> view (sys_store S') (lease_key sk uid) = ?c"
    by (rule cas_store.lease_reach_invariant [OF store clients idle held later, where J = "\<lambda>t c. t < e \<longrightarrow> c = ?c"])
       (use edge in auto)
  with alive show ?thesis by simp
qed

text \<open>
  a lease object never disappears, stays readable, and its attempt count never goes down, so
  attempts count every hold an item has had across all retries, reaps and requeues.
\<close>

theorem attempts_never_decrease:
  assumes store: "cas_store ops view" and clients: "ledger_clients sha arts who launch"
    and idle: "all_idle S0" and first: "sys_reach ops launch S0 S" and later: "sys_reach ops launch S S'"
    and lease: "lease_of (view (sys_store S) (lease_key sk uid)) = Some l"
  shows "\<exists>l'. lease_of (view (sys_store S') (lease_key sk uid)) = Some l' \<and> wl_attempts l \<le> wl_attempts l'"
proof (rule cas_store.lease_reach_invariant [OF store clients idle first later,
      where J = "\<lambda>t c. \<exists>l'. lease_of c = Some l' \<and> wl_attempts l \<le> wl_attempts l'"])
  fix i :: nat and t t0 :: instant and c l'
  assume "\<exists>l'. lease_of c = Some l' \<and> wl_attempts l \<le> wl_attempts l'"
    and "lease_edge (lease_key sk uid \<in> arts) (who i) t0 (lease_of c) l'"
  then show "\<exists>l'a. lease_of (Some (serialize_lease l')) = Some l'a \<and> wl_attempts l \<le> wl_attempts l'a"
    using lease_edge_attempts [of "lease_key sk uid \<in> arts" "who i" t0 "lease_of c" l']
    by (auto split: if_splits)
qed (use lease in auto)

text \<open>
  the outcome of \<open>claim\<close> on a store that answers. It succeeds exactly when the item has no
  (readable) lease, is queued, holds an expired lease, or is terminal at another pipeline version;
  then the lease object and the index entry are the held lease and nothing else is written, and
  otherwise nothing is written at all.
\<close>

theorem claim_outcome:
  assumes "reliable_store ops view (\<lambda>_. True)"
    and "run ops t (claim sha sk uid w ttl pv None True) s = (r, s')"
  defines "old \<equiv> lease_of (view s (lease_key sk uid))"
    and "bucket \<equiv> index_bucket_key (index_bucket_for sha sk uid INDEX_BUCKET_COUNT)"
  defines "held \<equiv> held_lease old sk uid w ttl pv t"
  shows "if claim_open old pv t
         then r = Inr (Some held) \<and> view s' (lease_key sk uid) = Some (serialize_lease held) \<and>
              map_of (bucket_entries (view s' bucket)) (entry_id sk uid) =
                Some (jsort (index_entry sk uid (wl_lease_expiry held))) \<and>
              (\<forall>k. k \<noteq> lease_key sk uid \<longrightarrow> k \<noteq> bucket \<longrightarrow> view s' k = view s k)
         else r = Inr None \<and> view s' = view s"
proof -
  have "index_bucket_key n \<noteq> lease_key sk uid" "lease_key sk uid \<noteq> index_bucket_key n" for n
    using is_lease_key_lease_key index_key_not_lease by metis+
  then show ?thesis
    using reliable_store.run_claim_result [OF assms(1) TrueI TrueI assms(2)]
    by (simp add: INDEX_BUCKET_COUNT_def bucket_entries_serialize dict_simps held_def old_def bucket_def)
qed

text \<open>
  the outcome of \<open>renew\<close>, \<open>release\<close> and \<open>abandon\<close> on a store that answers: each succeeds exactly
  when the caller still holds the lease and it has not expired, then the lease object is the renewed,
  terminal or requeued lease; otherwise it reports the loss and no lease object changes.
\<close>

theorem holder_outcome:
  assumes "reliable_store ops view (\<lambda>_. True)" and "st \<in> {Done, Failed}"
    and "run ops t (renew sha sk uid w ttl None ui) s = (rr, s1)"
    and "run ops t (release sha sk uid w st None ui) s = (rl, s2)"
    and "run ops t (abandon sha sk uid w None ui) s = (ra, s3)"
  defines "K \<equiv> lease_key sk uid"
  shows "case lease_of (view s K) of
      Some l \<Rightarrow>
        if wl_owner l = w \<and> wl_state l = Leased \<and> \<not> is_expired l t
        then (let l1 = l\<lparr>wl_lease_expiry := Some (t + timedelta_us ttl), wl_updated_at := Some t\<rparr>;
                  l2 = l\<lparr>wl_state := st, wl_lease_expiry := None, wl_updated_at := Some t\<rparr>
              in rr = Inr (Some l1) \<and> view s1 K = Some (serialize_lease l1) \<and>
                 rl = Inr True \<and> view s2 K = Some (serialize_lease l2) \<and>
                 ra = Inr True \<and> view s3 K = Some (serialize_lease (requeue l t)))
        else rr = Inr None \<and> rl = Inr False \<and> ra = Inr False \<and>
             view s1 K = view s K \<and> view s2 K = view s K \<and> view s3 K = view s K
    | None \<Rightarrow> rr = Inr None \<and> rl = Inr False \<and> ra = Inr False \<and>
              view s1 K = view s K \<and> view s2 K = view s K \<and> view s3 K = view s K"
  using reliable_store.run_holders(1) [OF assms(1) TrueI TrueI assms(3)]
    reliable_store.run_holders(2) [OF assms(1) TrueI TrueI assms(2,4)]
    reliable_store.run_holders(3) [OF assms(1) TrueI TrueI assms(5)]
  by (auto simp: holder_spec_def Let_def K_def split: option.split)

subsection \<open>A concrete ledger\<close>

text \<open>
  The inputs of the witnesses: worker \<open>ann\<close> claims item \<open>a/1\<close> of an empty bucket at time 0 for 60
  seconds, and worker \<open>bob\<close> then tries the same item.
\<close>

definition no_sha :: "string \<Rightarrow> nat" where "no_sha s = 5"

definition demo_actor :: "nat \<Rightarrow> actor" where
  "demo_actor i = (if i = 0 then Worker ''ann'' else Worker ''bob'')"

definition demo_claim :: "nat \<Rightarrow> unit io" where
  "demo_claim i =
     forget (claim no_sha ''a'' ''1'' (if i = 0 then ''ann'' else ''bob'') 60 ''v1'' None True)"

definition demo_launch :: "nat \<Rightarrow> unit io \<Rightarrow> bool" where
  "demo_launch i p \<longleftrightarrow> p = demo_claim i"

definition demo_lease :: work_lease where
  "demo_lease = held_lease None ''a'' ''1'' ''ann'' 60 ''v1'' 0"

definition demo_start :: "bucket \<Rightarrow> (bucket, unit) sys" where
  "demo_start b = \<lparr>sys_store = b, sys_time = 0, sys_proc = (\<lambda>_. Ret ())\<rparr>"

definition held_bucket :: bucket where
  "held_bucket = (\<lambda>_. None)(lease_key ''a'' ''1'' := Some (serialize_lease demo_lease))"

lemma demo_clients: "ledger_clients no_sha {} demo_actor demo_launch"
  by (auto simp: ledger_clients_def demo_launch_def demo_claim_def demo_actor_def intro: prog_claim)

lemma demo_start_idle: "all_idle (demo_start b)"
  by (simp add: all_idle_def demo_start_def)

lemma demo_reach:
  "(\<And>i p. Begin i p \<in> set evs \<Longrightarrow> p = demo_claim i) \<Longrightarrow>
   sys_reach r2_bucket demo_launch S (fold (perform r2_bucket) evs S)"
  by (rule schedule_reach) (auto simp: begins_def demo_launch_def split: event.split)

lemma timedelta_minute: "timedelta_us 60 = 60000000"
  by (simp add: timedelta_us_def round_half_even_def)

lemma demo_lease_facts:
  "wl_state demo_lease = Leased" "wl_lease_expiry demo_lease = Some 60000000"
  "wl_owner demo_lease = ''ann''" "wl_attempts demo_lease = 1"
  by (simp_all add: demo_lease_def held_lease_def timedelta_minute)

definition claim_read :: "(bucket, unit) sys" where
  "claim_read = fold (perform r2_bucket) [Begin 0 (demo_claim 0), Proceed 0, Proceed 0] (demo_start (\<lambda>_. None))"

lemmas claim_steps = demo_claim_def claim_def now_or_clock_def utc_now_def forget_def read_lease_def get_bytes_def
  try_put_def put_cas_def io_simps

lemma claim_read_store: "sys_store claim_read = (\<lambda>_. None)" "sys_time claim_read = 0"
  by (simp_all add: claim_read_def demo_start_def claim_steps)

lemma claim_written:
  "sys_store (perform r2_bucket (Proceed 0) claim_read) (lease_key ''a'' ''1'') =
     Some (serialize_lease demo_lease)"
  by (simp add: claim_read_def demo_start_def claim_steps Let_def claim_open_def cond_of_def cond_holds_def
      demo_lease_def)

theorem lease_steps_legal_witness:
  "\<exists>i l' t. t \<le> 0 \<and> Some (serialize_lease demo_lease) = Some (serialize_lease l') \<and>
     lease_edge False (demo_actor i) t None l'"
proof -
  have reach: "sys_reach r2_bucket demo_launch (demo_start (\<lambda>_. None)) claim_read"
    unfolding claim_read_def by (rule demo_reach) auto
  have "perform r2_bucket (Proceed 0) claim_read = claim_read \<or>
      sys_step r2_bucket demo_launch claim_read (perform r2_bucket (Proceed 0) claim_read)"
    by (rule perform_step) (simp add: begins_def)
  moreover have changed: "sys_store (perform r2_bucket (Proceed 0) claim_read) (lease_key ''a'' ''1'') \<noteq>
      sys_store claim_read (lease_key ''a'' ''1'')"
    by (simp only: claim_written claim_read_store) simp
  ultimately have step: "sys_step r2_bucket demo_launch claim_read (perform r2_bucket (Proceed 0) claim_read)"
    by metis
  show ?thesis
    using lease_steps_legal [where view = "\<lambda>s. s", OF r2_store demo_clients demo_start_idle reach step changed]
    by (simp only: claim_written claim_read_store) (simp add: lease_of_def)
qed

definition bob_launch :: "nat \<Rightarrow> unit io \<Rightarrow> bool" where
  "bob_launch i p \<longleftrightarrow> p = demo_claim 1"

lemma bob_clients: "ledger_clients no_sha {} (\<lambda>_. Worker ''bob'') bob_launch"
  by (auto simp: ledger_clients_def bob_launch_def demo_claim_def intro: prog_claim)

definition bob_tries :: "instant \<Rightarrow> (bucket, unit) sys" where
  "bob_tries t = fold (perform r2_bucket)
     [Wait t, Begin 1 (demo_claim 1), Proceed 1, Proceed 1, Proceed 1] (demo_start held_bucket)"

lemma bob_reach: "sys_reach r2_bucket bob_launch (demo_start held_bucket) (bob_tries t)"
  unfolding bob_tries_def
  by (rule schedule_reach) (auto simp: begins_def bob_launch_def)

lemma held_start:
  "lease_of (sys_store (demo_start held_bucket) (lease_key ''a'' ''1'')) = Some demo_lease"
  by (simp add: demo_start_def held_bucket_def)

lemma bob_time: "0 \<le> t \<Longrightarrow> sys_time (bob_tries t) = t"
  by (simp add: bob_tries_def perform_time demo_start_def del: perform.simps)

theorem live_lease_protected_witness:
  "sys_store (bob_tries 30000000) (lease_key ''a'' ''1'') = Some (serialize_lease demo_lease)"
proof -
  have "sys_store (bob_tries 30000000) (lease_key ''a'' ''1'') =
      sys_store (demo_start held_bucket) (lease_key ''a'' ''1'')"
    by (rule live_lease_protected [where view = "\<lambda>s. s" and e = 60000000, OF r2_store bob_clients demo_start_idle reach_refl bob_reach held_start])
       (simp_all add: demo_lease_facts bob_time)
  then show ?thesis by (simp add: demo_start_def held_bucket_def)
qed

theorem attempts_never_decrease_witness:
  "\<exists>l'. lease_of (sys_store (bob_tries 90000000) (lease_key ''a'' ''1'')) = Some l' \<and> 1 \<le> wl_attempts l'"
  using attempts_never_decrease [where view = "\<lambda>s. s", OF r2_store bob_clients demo_start_idle reach_refl bob_reach held_start]
  by (simp add: demo_lease_facts)

theorem claim_outcome_witness:
  "fst (run r2_bucket 0 (claim no_sha ''a'' ''1'' ''ann'' 60 ''v1'' None True) (\<lambda>_. None)) =
     Inr (Some demo_lease)"
  using claim_outcome [where view = "\<lambda>s. s" and s = "\<lambda>_. None" and t = 0 and sha = no_sha and sk = "''a''"
      and uid = "''1''" and w = "''ann''" and ttl = 60 and pv = "''v1''", OF r2_reliable prod.collapse [symmetric]]
  by (simp add: lease_of_def claim_open_def demo_lease_def)

theorem holder_outcome_witness:
  "fst (run r2_bucket 1 (release no_sha ''a'' ''1'' ''ann'' Done None False) held_bucket) = Inr True"
proof -
  have l: "lease_of (held_bucket (lease_key ''a'' ''1'')) = Some demo_lease"
    by (simp add: held_bucket_def)
  show ?thesis
    using holder_outcome [where view = "\<lambda>s. s" and st = Done and t = 1 and sha = no_sha and sk = "''a''"
        and uid = "''1''" and w = "''ann''" and ttl = 60 and ui = False and s = held_bucket,
        OF r2_reliable _ prod.collapse [symmetric] prod.collapse [symmetric] prod.collapse [symmetric]]
    by (simp add: l demo_lease_facts is_expired_def Let_def)
qed

end
