(* ===== verification/Storage_Properties.thy ===== *)
theory Storage_Properties
  imports Routing_Storage Work_Lease_Properties
begin

section \<open>What the storage layer guarantees\<close>

text \<open>
  The S3 backend and the router both implement the compare-and-swap contract of \<open>Store_IO\<close>; the retry
  loops make at most three attempts; and a conditional write whose answer was lost is reported as a
  conflict although it was stored.
\<close>

subsection \<open>The compare-and-swap contract\<close>

text \<open>
  C34: over any S3 service with the documented conditional-write behaviour, the backend's \<open>get_bytes\<close>
  and \<open>put_cas\<close>, retries included, keep the compare-and-swap contract; and a router whose
  \<open>cas_capable\<close> coordination backend is that one keeps it too, for the content of each key on the
  backend it routes to. Nothing is asked of a backend that is not \<open>cas_capable\<close>, such as B2, which
  ignores the conditional headers: a key that routes to one is neither read nor written, the call
  raises NotImplementedError and changes nothing.
\<close>

theorem storage_stack_is_cas_store:
  assumes "s3_service cl slp cview" and "b_coord_cas B \<Longrightarrow> b_coord B = s3_ops cl slp"
    and "b_primary_cas B \<Longrightarrow> cas_store (b_primary B) pview"
  shows "cas_store (s3_ops cl slp) cview \<and> cas_store (routing_ops B) (routing_view B pview cview) \<and>
    (\<forall>s k d cnd. \<not> (if is_coordination B s k then b_coord_cas B else b_primary_cas B) \<longrightarrow>
       routing_put_cas B s k d cnd = (Inl NotImplementedError, s) \<and>
       routing_get_bytes B s k = (Inl NotImplementedError, s))"
proof -
  note s3 = s3_service.s3_cas_store [OF assms(1)]
  have "routed_store B pview cview"
    by (rule routed_store.intro) (use assms(2,3) s3 in auto)
  then show ?thesis
    using s3 routed_store.routed_cas_store by (auto simp: routing_put_cas_def routing_get_bytes_def)
qed

definition flaky_stack :: "(bucket, flaky_bucket) backends" where
  "flaky_stack =
     \<lparr>b_primary = b2_bucket, b_primary_cas = False, b_coord = s3_ops flaky_client no_sleep,
      b_coord_cas = True, b_prefixes = COORDINATION_PREFIXES\<rparr>"

theorem storage_stack_is_cas_store_witness:
  "cas_store (routing_ops flaky_stack) (routing_view flaky_stack (\<lambda>s. s) fb_objs)"
  using storage_stack_is_cas_store [OF flaky.s3_service_axioms, of flaky_stack "\<lambda>s. s"]
  by (simp add: flaky_stack_def)

subsection \<open>A lost answer\<close>

text \<open>
  C39: when the answer of a conditional write is lost, the backend's own retry finds its data already
  stored and reports a conflict, so the caller is told it lost although its write is the stored content.
\<close>

theorem lost_reply_reported_as_conflict:
  assumes "cond_holds cnd (b k)" and "cnd = IfNoneMatch \<or> (\<exists>e. cnd = IfMatch e \<and> e \<noteq> ETag d)"
  shows "s3_put_cas flaky_client no_sleep \<lparr>fb_objs = b, fb_faults = [LostReply]\<rparr> k d cnd =
    (Inl (CASConflict k), \<lparr>fb_objs = b(k := Some d), fb_faults = []\<rparr>)"
proof (rule lost_reply_conflict_aux)
  show "cond_holds cnd (b k)" by (rule assms(1))
  show "\<not> cond_holds cnd (Some d)"
    using assms(2) by (auto simp: cond_holds_def split: etag.splits) (metis etag.exhaust)
qed

theorem lost_reply_reported_as_conflict_witness:
  "fst (s3_put_cas flaky_client no_sleep \<lparr>fb_objs = (\<lambda>_. None), fb_faults = [LostReply]\<rparr>
      (lease_key ''a'' ''1'') (serialize_lease demo_lease) IfNoneMatch) = Inl (CASConflict (lease_key ''a'' ''1''))"
  using lost_reply_reported_as_conflict [of IfNoneMatch "\<lambda>_. None" "lease_key ''a'' ''1''"
      "serialize_lease demo_lease"]
  by (simp add: cond_holds_def)

text \<open>
  consequence for the ledger: a claim whose winning write loses its answer reports that it lost the
  race, while the ledger records the caller as the holder, who neither works on the item nor releases it
  before its time to live ends.
\<close>

theorem claim_lost_reply_strands_item:
  "run (s3_ops flaky_client no_sleep) t (claim sha sk uid w ttl pv None ui)
       \<lparr>fb_objs = (\<lambda>_. None), fb_faults = [NoFault, LostReply]\<rparr> =
     (Inr None, \<lparr>fb_objs = (\<lambda>_. None)(lease_key sk uid :=
        Some (serialize_lease (held_lease None sk uid w ttl pv t))), fb_faults = []\<rparr>)"
proof -
  show ?thesis
    by (simp add: claim_def Let_def io_simps read_lease_def flaky_get flaky_put_lost cond_holds_def try_put_def
        claim_open_def cond_of_def is_conflict_def)
qed

subsection \<open>Bounded retries\<close>

text \<open>A scripted operation: each attempt takes the next reply of the list.\<close>

fun scripted :: "(exn + 'a) list \<Rightarrow> (exn + 'a) \<times> (exn + 'a) list" where
  "scripted [] = (Inl AssertionError, [])"
| "scripted (x # xs) = (x, xs)"

definition transient_reply :: "exn + 'a \<Rightarrow> bool" where
  "transient_reply r = (case r of Inl e \<Rightarrow> is_transient_storage_error e | Inr _ \<Rightarrow> False)"

text \<open>
  both retry loops attempt the operation at most three times, stop at the first reply that is a
  success or an error that is not transient and pass it on; after three transient errors a write
  raises the last one and a read raises \<open>StorageReadUnavailable\<close>.
\<close>

theorem retries_bounded:
  "retry_storage_write (\<lambda>_ s. s) scripted 0 (a # b # c # rest) =
     (if \<not> transient_reply a then (a, b # c # rest)
      else if \<not> transient_reply b then (b, c # rest)
      else (c, rest)) \<and>
   retry_storage_read clk (\<lambda>_ s. s) scripted key None 0 (a # b # c # rest) =
     (if \<not> transient_reply a then (a, b # c # rest)
      else if \<not> transient_reply b then (b, c # rest)
      else if \<not> transient_reply c then (c, rest)
      else (Inl (StorageReadUnavailable key), rest))"
  by (cases a; cases b; cases c)
     (simp_all add: transient_reply_def retry_storage_write.simps retry_storage_read.simps deadline_passed_def)

text \<open>
  a read with a deadline that has passed is not attempted, and one that fails after its deadline
  passed is reported as unavailable instead of being retried or passed on.
\<close>

theorem read_deadline:
  assumes "att < 3"
  shows "(d \<le> clk s \<longrightarrow> retry_storage_read clk slp operation key (Some d) att s = (Inl (StorageReadUnavailable key), s)) \<and>
    (clk s < d \<longrightarrow> operation s = (Inl e, s') \<longrightarrow> d \<le> clk s' \<longrightarrow>
       retry_storage_read clk slp operation key (Some d) att s = (Inl (StorageReadUnavailable key), s'))"
  using assms by (simp add: retry_storage_read.simps deadline_passed_def)

theorem read_deadline_witness:
  "retry_storage_read (\<lambda>s::int. s) (\<lambda>_ s. s) (\<lambda>s. (Inl TransportError :: exn + unit, s + 10)) ''k'' (Some 5) 0 0 =
     (Inl (StorageReadUnavailable ''k''), 10)"
  using read_deadline [of 0 5 "\<lambda>s::int. s" 0 "\<lambda>_ s. s" "\<lambda>s. (Inl TransportError :: exn + unit, s + 10)" "''k''"
      TransportError 10]
  by simp

subsection \<open>Routing\<close>

text \<open>
  the router touches one backend per call. A coordination key goes to the coordination backend and
  counts one Class A operation per conditional write or one Class B operation per read; any other key
  goes to the primary, which in production has no compare-and-swap and refuses without any effect.
\<close>

theorem routing_isolates_backends:
  "(is_coordination B s k \<and> b_coord_cas B \<and> routing_put_cas B s k d cnd = (r, s1) \<longrightarrow>
      r_primary s1 = r_primary s \<and> r_class_a s1 = Suc (r_class_a s) \<and> r_class_b s1 = r_class_b s) \<and>
   (is_coordination B s k \<and> b_coord_cas B \<and> routing_get_bytes B s k = (g, s2) \<longrightarrow>
      r_primary s2 = r_primary s \<and> r_class_b s2 = Suc (r_class_b s) \<and> r_class_a s2 = r_class_a s) \<and>
   (\<not> is_coordination B s k \<and> routing_put_cas B s k d cnd = (r, s1) \<longrightarrow>
      r_coord s1 = r_coord s \<and> r_class_a s1 = r_class_a s \<and> r_class_b s1 = r_class_b s) \<and>
   (\<not> is_coordination B s k \<and> \<not> b_primary_cas B \<longrightarrow>
      routing_put_cas B s k d cnd = (Inl NotImplementedError, s) \<and>
      routing_get_bytes B s k = (Inl NotImplementedError, s))"
  by (auto simp: routing_put_cas_def routing_get_bytes_def split: prod.splits)

theorem routing_isolates_backends_witness:
  "routing_put_cas production \<lparr>r_primary = (\<lambda>_. None), r_coord = Some (\<lambda>_. None), r_class_a = 0, r_class_b = 0\<rparr>
     ''records/x.json'' (Garbage '''') NoCond =
   (Inl NotImplementedError, \<lparr>r_primary = (\<lambda>_. None), r_coord = Some (\<lambda>_. None), r_class_a = 0, r_class_b = 0\<rparr>)"
  using routing_isolates_backends [of production
      "\<lparr>r_primary = (\<lambda>_. None), r_coord = Some (\<lambda>_. None), r_class_a = 0, r_class_b = 0\<rparr>" "''records/x.json''"]
  by (simp add: is_coordination_def starts_with_any_def production_def COORDINATION_PREFIXES_def py_startswith_def)

text \<open>
  every object of the lease ledger and of its index is a coordination key of the production
  layout, and every coordination prefix is declared ephemeral, so the start-up assertion passes.
\<close>

theorem ledger_keys_are_coordinated:
  "starts_with_any (lease_key sk uid) COORDINATION_PREFIXES \<and>
   starts_with_any (index_bucket_key n) COORDINATION_PREFIXES \<and>
   assert_coordination_prefixes_ephemeral COORDINATION_PREFIXES EPHEMERAL_R2_PREFIXES = Inr ()"
  by (simp add: starts_with_any_def COORDINATION_PREFIXES_def EPHEMERAL_R2_PREFIXES_def py_startswith_def
      lease_key_def index_bucket_key_def LEASE_PREFIX_def INDEX_PREFIX_def
      assert_coordination_prefixes_ephemeral_def)

end
