(* ===== verification/Work_Lease_Reaper.thy ===== *)
theory Work_Lease_Reaper
  imports Work_Lease_Properties
begin

section \<open>The reaper, the index and the candidate order\<close>

text \<open>
  Outcomes of the reaper on a store that answers, its dry run on any store, the best-effort index
  maintenance, the lease codec and the order in which workers scan the candidates.
\<close>

subsection \<open>Read-only programs\<close>

abbreviation no_writes :: "instant \<Rightarrow> string \<Rightarrow> blob option \<Rightarrow> blob \<Rightarrow> bool" where
  "no_writes \<equiv> (\<lambda>_ _ _ _. False)"

lemma safe_read_only_lease: "safe no_writes any_result (read_lease sk uid) t"
  unfolding read_lease_def
  by (rule safe_bind_any, rule safe_get_bytes) (auto split: option.split)

lemma safe_read_only_bucket: "safe no_writes any_result (load_index_bucket n) t"
  unfolding load_index_bucket_def
  by (rule safe_bind_any, rule safe_get_bytes) (auto split: option.split sum.split)

lemma safe_dry_reap_one:
  assumes "\<And>sk uid t. safe no_writes any_result (ap sk uid) t"
  shows "safe no_writes any_result (reap_one ap f g now True sk uid) t"
  unfolding reap_one_def settle_leased_def invoke_reap_callback_def
  by (auto intro!: safe_bind_any safe_read_only_lease assms split: option.split)

lemma safe_dry_sweep:
  assumes "\<And>sk uid t. safe no_writes any_result (ap sk uid) t"
  shows "safe no_writes any_result (sweep_bucket ap f g now True n acc) t"
    and "safe no_writes any_result (sweep_integrity sha ap f g now True bc sl seen it acc2) t"
  unfolding sweep_bucket_def sweep_integrity_def sweep_entry_def
  by (auto intro!: safe_bind_any safe_read_only_bucket safe_foldIO_any safe_dry_reap_one assms
      split: prod.split option.split json.split)

lemma run_read_only:
  assumes "cas_store ops view" and "safe no_writes any_result p t" and "run ops t p s = (r, s')"
  shows "view s' = view s"
proof -
  have "(write_step no_writes t)\<^sup>*\<^sup>* (view s) (view s')"
    using cas_store.run_safe [OF assms] by blast
  then show ?thesis
    by (induction rule: rtranclp_induct) (auto simp: write_step_def)
qed

text \<open>
  a dry run of either reaper changes no stored object, on any compare-and-swap store and whatever
  the outcome, provided the artifact check itself only reads.
\<close>

theorem reap_dry_run_writes_nothing:
  assumes "cas_store ops view" and "\<And>sk uid t. safe no_writes any_result (ap sk uid) t"
    and "run ops t (reap cs ap f g None True) s = (r1, s1)"
    and "run ops t (reap_indexed sha ap f g None True bc ics pt) s = (r2, s2)"
  shows "view s1 = view s \<and> view s2 = view s"
proof -
  have plain: "safe no_writes any_result (reap cs ap f g None True) t"
    unfolding reap_def
    by (auto intro!: safe_bind_any safe_now_or_clock safe_foldIO_any safe_dry_reap_one assms(2)
        split: option.split)
  have indexed: "safe no_writes any_result (reap_indexed sha ap f g None True bc ics pt) t"
    unfolding reap_indexed_def
    by (auto intro!: safe_bind_any safe_now_or_clock safe_foldIO_any safe_dry_sweep assms(2)
        split: option.split)
  show ?thesis
    using run_read_only [OF assms(1) plain assms(3)] run_read_only [OF assms(1) indexed assms(4)] by simp
qed

theorem reap_dry_run_writes_nothing_witness:
  "snd (run r2_bucket 90000000 (reap [(''a'', ''1'')] (\<lambda>_ _. Ret False) None None None True) held_bucket) =
     held_bucket"
  using reap_dry_run_writes_nothing [where view = "\<lambda>s. s" and ap = "\<lambda>_ _. Ret False",
      OF r2_store _ prod.collapse [symmetric] prod.collapse [symmetric]]
  by simp

subsection \<open>The reap decision\<close>

text \<open>
  what the reaper does with one item on a store that answers. Only an active lease is touched: it
  becomes done when the artifact exists, returns to the queue without an owner when it expired, and
  is left running otherwise.
\<close>

theorem reap_one_outcome:
  assumes "reliable_store ops view (\<lambda>_. True)"
    and "run ops t (reap_one (\<lambda>_ _. Ret present) None None t False sk uid) s = (r, s')"
  defines "K \<equiv> lease_key sk uid"
  shows "case lease_of (view s K) of
      None \<Rightarrow> r = Inr None \<and> view s' = view s
    | Some l \<Rightarrow>
        if wl_state l \<noteq> Leased then r = Inr None \<and> view s' = view s
        else if present then
          r = Inr (Some (Completed, l)) \<and> view s' = (view s)(K := Some (serialize_lease
            (l\<lparr>wl_state := Done, wl_lease_expiry := None, wl_updated_at := Some t\<rparr>)))
        else if is_expired l t then
          r = Inr (Some (Requeued, l)) \<and> view s' = (view s)(K := Some (serialize_lease (requeue l t)))
        else r = Inr (Some (InFlight, l)) \<and> view s' = view s"
proof -
  let ?c = "view s K"
  obtain s1 where r1: "run ops t (read_lease sk uid) s = (Inr (lease_of ?c, map_option ETag ?c), s1)"
    and v1: "view s1 = view s"
    unfolding K_def by (rule reliable_store.run_read_lease [OF assms(1) TrueI])
  have put: "\<exists>s2. run ops t (try_put K d (IfMatch (ETag b))) s1 = (Inr (Some (ETag d)), s2) \<and>
      view s2 = (view s)(K := Some d)" if "?c = Some b" for b d
    by (rule reliable_store.run_try_put_current [OF assms(1) TrueI, of t K d s1])
       (use that in \<open>simp add: v1 cond_of_def\<close>)
  show ?thesis
  proof (cases ?c)
    case None
    then show ?thesis
      using assms(2) r1 v1 by (simp add: reap_one_def io_simps lease_of_def)
  next
    case (Some b)
    from put [OF this] obtain f where
      put': "\<And>d. run ops t (try_put K d (IfMatch (ETag b))) s1 = (Inr (Some (ETag d)), f d)"
        "\<And>d. view (f d) = (view s)(K := Some d)"
      by metis
    then show ?thesis
      using assms(2) r1 v1 Some put'
      by (auto simp: reap_one_def settle_leased_def reap_decision_def invoke_reap_callback_def io_simps
          K_def [symmetric] split: option.splits if_splits)
  qed
qed

theorem reap_one_outcome_witness:
  "fst (run r2_bucket 90000000 (reap_one (\<lambda>_ _. Ret False) None None 90000000 False ''a'' ''1'') held_bucket) =
     Inr (Some (Requeued, demo_lease))"
proof -
  have "lease_of (held_bucket (lease_key ''a'' ''1'')) = Some demo_lease"
    by (simp add: held_bucket_def)
  then show ?thesis
    using reap_one_outcome [where view = "\<lambda>s. s" and s = held_bucket and sk = "''a''" and uid = "''1''"
        and t = 90000000 and present = False, OF r2_reliable prod.collapse [symmetric]]
    by (simp add: demo_lease_facts is_expired_def)
qed

subsection \<open>Best-effort index maintenance\<close>

text \<open>
  maintaining the index can never fail a lease operation: against any store at all, even one that
  raises on every call, upserting, removing or dropping index entries returns normally.
\<close>

theorem index_maintenance_never_raises:
  "fst (run ops t (index_upsert sha sk uid ex bc) s) = Inr () \<and>
   fst (run ops t (index_remove sha sk uid bc) s) = Inr () \<and>
   fst (run ops t (drop_index_entries n ids) s) = Inr ()"
  by (simp add: index_upsert_def index_remove_def drop_index_entries_def run_bind run_attempt split: prod.split)

subsection \<open>Codec and keys\<close>

text \<open>
  the stored form of a lease is read back as exactly that lease, distinct leases are stored
  differently, and bytes that are not JSON are read as no lease at all (so the item is claimable).
\<close>

theorem lease_codec_roundtrip:
  "decode_lease (serialize_lease l) = Some l \<and>
   (serialize_lease l = serialize_lease l' \<longleftrightarrow> l = l') \<and>
   decode_lease (Garbage bytes) = None \<and> claim_open (decode_lease (Garbage bytes)) pv now"
  by (metis (no_types, lifting) claim_open_def decode_lease_def decode_serialize json_loads.simps(2)
      old.sum.simps(5) option.inject option.simps(4))

subsection \<open>Candidate order\<close>

text \<open>
  a worker scans every candidate exactly once, in the given order rotated to start at the offset
  its identity hashes to, and an explicit offset is taken modulo the number of candidates.
\<close>

theorem ordered_candidates_rotate:
  "ordered_candidates sha xs owner None = rotate (sha owner mod length xs) xs \<and>
   ordered_candidates sha xs owner (Some k) = rotate (nat (k mod int (length xs))) xs"
proof -
  have rot: "map (\<lambda>i. xs ! nat ((off + int i) mod int (length xs))) [0..<length xs] = rotate (nat off) xs"
    if "0 \<le> off" for off
  proof (rule nth_equalityI)
    fix i assume "i < length (map (\<lambda>i. xs ! nat ((off + int i) mod int (length xs))) [0..<length xs])"
    then have i: "i < length xs" by simp
    have "nat ((off + int i) mod int (length xs)) = (nat off + i) mod length xs"
      using that by (simp add: nat_mod_distrib nat_add_distrib)
    with i show "map (\<lambda>i. xs ! nat ((off + int i) mod int (length xs))) [0..<length xs] ! i =
        rotate (nat off) xs ! i"
      by (simp add: nth_rotate)
  qed simp
  show ?thesis
    using rot [of "int (sha owner mod length xs)"] rot [of "k mod int (length xs)"]
    by (auto simp: ordered_candidates_def scan_offset_def Let_def zmod_int nat_mod_distrib)
qed

end
