(* ===== verification/Maintenance_Leases.thy ===== *)
theory Maintenance_Leases
  imports Store_IO
begin

section \<open>Maintenance mutexes\<close>

text \<open>
  \<open>citypods/ops/maintenance_leases.py\<close>: one object per mutex, acquired by a conditional write, renewed
  and released by its owner, and free again once it expired. The random token of a lease
  (\<open>uuid.uuid4().hex\<close>) is an argument. \<open>expires_at\<close> is read as a datetime when it is a string in ISO
  form; any other value counts as unreadable.
\<close>

definition MAINTENANCE_LEASE_PREFIX :: string where
  "MAINTENANCE_LEASE_PREFIX = ''maintenance-leases/''"
definition MAINTENANCE_LEASE_SCHEMA_VERSION :: int where
  "MAINTENANCE_LEASE_SCHEMA_VERSION = 1"
definition CHAPTER_AGENDA_MAINTENANCE_LEASE_KEY :: string where
  "CHAPTER_AGENDA_MAINTENANCE_LEASE_KEY = MAINTENANCE_LEASE_PREFIX @ ''chapter-agenda.json''"
definition CHAPTER_LOCATOR_MAINTENANCE_LEASE_KEY :: string where
  "CHAPTER_LOCATOR_MAINTENANCE_LEASE_KEY = MAINTENANCE_LEASE_PREFIX @ ''chapter-locator.json''"
definition AGENDA_CHAPTER_RESET_MAINTENANCE_LEASE_KEYS :: "string list" where
  "AGENDA_CHAPTER_RESET_MAINTENANCE_LEASE_KEYS =
     [CHAPTER_AGENDA_MAINTENANCE_LEASE_KEY, CHAPTER_LOCATOR_MAINTENANCE_LEASE_KEY]"

definition encode_maintenance :: "string \<Rightarrow> string \<Rightarrow> instant \<Rightarrow> string \<Rightarrow> blob" where
  "encode_maintenance owner token expires_at state =
     dumps_sorted (JObj
       [(''schema_version'', JInt MAINTENANCE_LEASE_SCHEMA_VERSION),
        (''state'', JStr state),
        (''owner'', JStr owner),
        (''token'', JStr token),
        (''expires_at'', JTime (Aware expires_at))])"

text \<open>\<open>str(payload.get("owner") or "unknown")\<close>\<close>

definition owner_name :: "json \<Rightarrow> string" where
  "owner_name v = (if py_truthy v then py_str v else ''unknown'')"

definition active_owner :: "blob \<Rightarrow> instant \<Rightarrow> string option" where
  "active_owner data now =
     (case json_loads data of
        Inr (JObj payload) \<Rightarrow>
          (if dget payload ''state'' JNull \<noteq> JStr ''held'' then None
           else
             (case map_of payload ''expires_at'' of
                None \<Rightarrow> None
              | Some raw \<Rightarrow>
                  (case parse_dt raw of
                     None \<Rightarrow> None
                   | Some expires_at \<Rightarrow>
                       if now < expires_at then Some (owner_name (dget payload ''owner'' JNull)) else None)))
      | _ \<Rightarrow> None)"

record maintenance_lease =
  ml_key :: string
  ml_owner :: string
  ml_token :: string
  ml_etag :: etag
  ml_ttl_seconds :: rat

text \<open>The payload's expiry, or \<open>None\<close> when the object is corrupt.\<close>

definition maintenance_expiry :: "blob \<Rightarrow> (pydict \<times> instant) option" where
  "maintenance_expiry data =
     (case json_loads data of
        Inr (JObj payload) \<Rightarrow>
          (case map_of payload ''expires_at'' of
             None \<Rightarrow> None
           | Some raw \<Rightarrow> map_option (\<lambda>e. (payload, e)) (parse_dt raw))
      | _ \<Rightarrow> None)"

definition read_owned :: "maintenance_lease \<Rightarrow> (pydict \<times> etag) io" where
  "read_owned l =
     bind (get_bytes (ml_key l)) (\<lambda>got.
       case got of
         None \<Rightarrow> Raise MaintenanceLeaseUnavailable
       | Some (data, etag) \<Rightarrow>
           (case maintenance_expiry data of
              None \<Rightarrow> Raise MaintenanceLeaseUnavailable
            | Some (payload, expires_at) \<Rightarrow>
                bind utc_now (\<lambda>now.
                  if dget payload ''state'' JNull \<noteq> JStr ''held''
                     \<or> dget payload ''owner'' JNull \<noteq> JStr (ml_owner l)
                     \<or> dget payload ''token'' JNull \<noteq> JStr (ml_token l)
                     \<or> expires_at \<le> now
                  then Raise MaintenanceLeaseBusy
                  else Ret (payload, etag))))"

definition maintenance_renew :: "maintenance_lease \<Rightarrow> maintenance_lease io" where
  "maintenance_renew l =
     bind (read_owned l) (\<lambda>(_, etag).
     bind utc_now (\<lambda>now.
     bind (put_cas (ml_key l)
             (encode_maintenance (ml_owner l) (ml_token l) (now + timedelta_us (ml_ttl_seconds l)) ''held'')
             (IfMatch etag))
       (\<lambda>etag'. Ret (l\<lparr>ml_etag := etag'\<rparr>))))"

definition assert_held :: "maintenance_lease \<Rightarrow> maintenance_lease io" where
  "assert_held l = bind (read_owned l) (\<lambda>(_, etag). Ret (l\<lparr>ml_etag := etag\<rparr>))"

definition maintenance_release :: "maintenance_lease \<Rightarrow> maintenance_lease io" where
  "maintenance_release l =
     bind (attempt (read_owned l)) (\<lambda>r.
       case r of
         Inl MaintenanceLeaseBusy \<Rightarrow> Ret l
       | Inl MaintenanceLeaseUnavailable \<Rightarrow> Ret l
       | Inl e \<Rightarrow> Raise e
       | Inr (_, etag) \<Rightarrow>
           bind utc_now (\<lambda>now.
           bind (try_put (ml_key l) (encode_maintenance (ml_owner l) (ml_token l) now ''released'') (IfMatch etag))
             (\<lambda>won. case won of None \<Rightarrow> Ret l | Some etag' \<Rightarrow> Ret (l\<lparr>ml_etag := etag'\<rparr>))))"

subsection \<open>Several leases as one\<close>

primrec for_each_lease :: "(maintenance_lease \<Rightarrow> maintenance_lease io) \<Rightarrow> maintenance_lease list \<Rightarrow>
   maintenance_lease list io" where
  "for_each_lease f [] = Ret []"
| "for_each_lease f (l # ls) = bind (f l) (\<lambda>l'. bind (for_each_lease f ls) (\<lambda>ls'. Ret (l' # ls')))"

definition composite_renew :: "maintenance_lease list \<Rightarrow> maintenance_lease list io" where
  "composite_renew leases = for_each_lease maintenance_renew leases"

definition composite_assert_held :: "maintenance_lease list \<Rightarrow> maintenance_lease list io" where
  "composite_assert_held leases = for_each_lease assert_held leases"

definition composite_release :: "maintenance_lease list \<Rightarrow> maintenance_lease list io" where
  "composite_release leases = for_each_lease maintenance_release (rev leases)"

subsection \<open>Acquiring\<close>

primrec acquire_loop :: "nat \<Rightarrow> string \<Rightarrow> string \<Rightarrow> string \<Rightarrow> rat \<Rightarrow> instant \<Rightarrow> maintenance_lease io" where
  "acquire_loop 0 owner key token ttl_seconds now = Raise MaintenanceLeaseBusy"
| "acquire_loop (Suc attempts) owner key token ttl_seconds now =
     bind (get_bytes key) (\<lambda>got.
       let retry = (\<lambda>cnd.
         bind (try_put key (encode_maintenance owner token (now + timedelta_us ttl_seconds) ''held'') cnd)
           (\<lambda>won.
             case won of
               Some etag \<Rightarrow>
                 Ret \<lparr>ml_key = key, ml_owner = owner, ml_token = token, ml_etag = etag,
                      ml_ttl_seconds = ttl_seconds\<rparr>
             | None \<Rightarrow> acquire_loop attempts owner key token ttl_seconds now))
       in case got of
            None \<Rightarrow> retry IfNoneMatch
          | Some (data, etag) \<Rightarrow>
              (case active_owner data now of
                 Some _ \<Rightarrow> Raise MaintenanceLeaseBusy
               | None \<Rightarrow> retry (IfMatch etag)))"

definition acquire_single ::
  "bool \<Rightarrow> string \<Rightarrow> string \<Rightarrow> string \<Rightarrow> rat \<Rightarrow> instant option \<Rightarrow> nat \<Rightarrow> maintenance_lease io" where
  "acquire_single cas_capable owner key token ttl_seconds now_arg max_attempts =
     (if \<not> cas_capable then Raise MaintenanceLeaseUnavailable
      else if py_strip owner = '''' then Raise ValueError
      else if py_strip key = '''' then Raise ValueError
      else if ttl_seconds \<le> 0 then Raise ValueError
      else bind (now_or_clock now_arg) (acquire_loop max_attempts owner key token ttl_seconds))"

text \<open>
  \<open>acquire\<close> with several keys, each with its own fresh token: the leases taken so far are released, in
  reverse, when a later key cannot be claimed.
\<close>

primrec acquire_keys ::
  "bool \<Rightarrow> string \<Rightarrow> (string \<times> string) list \<Rightarrow> rat \<Rightarrow> instant option \<Rightarrow> nat \<Rightarrow> maintenance_lease list \<Rightarrow>
   maintenance_lease list io" where
  "acquire_keys cas_capable owner [] ttl_seconds now_arg max_attempts acquired = Ret acquired"
| "acquire_keys cas_capable owner (kt # kts) ttl_seconds now_arg max_attempts acquired =
     bind (attempt (acquire_single cas_capable owner (fst kt) (snd kt) ttl_seconds now_arg max_attempts)) (\<lambda>r.
       case r of
         Inr l \<Rightarrow> acquire_keys cas_capable owner kts ttl_seconds now_arg max_attempts (acquired @ [l])
       | Inl e \<Rightarrow> bind (composite_release acquired) (\<lambda>_. Raise e))"

definition acquire_all ::
  "bool \<Rightarrow> string \<Rightarrow> (string \<times> string) list \<Rightarrow> rat \<Rightarrow> instant option \<Rightarrow> nat \<Rightarrow> maintenance_lease list io" where
  "acquire_all cas_capable owner keys ttl_seconds now_arg max_attempts =
     (if keys = [] then Raise ValueError
      else acquire_keys cas_capable owner keys ttl_seconds now_arg max_attempts [])"

end
