(* ===== verification/Maintenance_Properties.thy ===== *)
theory Maintenance_Properties
  imports Maintenance_Leases S3_Storage
begin

section \<open>What the maintenance mutexes guarantee\<close>

text \<open>
  \<open>mutex_edge\<close> is the abstract mutex: who may replace its object by what. Every write of every
  operation is such an edge; a held, unexpired object can then only be replaced by its own token, in
  any interleaving. Acquiring several mutexes is all or nothing.
\<close>

lemma active_owner_encode:
  "active_owner (encode_maintenance o' tok e st) t =
     (if st = ''held'' \<and> t < e then Some (if o' = '''' then ''unknown'' else o') else None)"
proof -
  have "map_of (sort_key fst (map (map_prod id jsort)
      [(''schema_version'', JInt MAINTENANCE_LEASE_SCHEMA_VERSION), (''state'', JStr st), (''owner'', JStr o'),
       (''token'', JStr tok), (''expires_at'', JTime (Aware e))])) k =
    map_option jsort (map_of [(''schema_version'', JInt MAINTENANCE_LEASE_SCHEMA_VERSION), (''state'', JStr st),
       (''owner'', JStr o'), (''token'', JStr tok), (''expires_at'', JTime (Aware e))] k)" for k
    by (simp only: dict_simps)
  then show ?thesis
    unfolding active_owner_def encode_maintenance_def dumps_sorted_def dget_def jsort.simps json_loads.simps
    by (simp add: owner_name_def)
qed

lemma maintenance_expiry_encode:
  obtains p where "maintenance_expiry (encode_maintenance o' tok e st) = Some (p, e)"
    and "dget p ''state'' JNull = JStr st" and "dget p ''owner'' JNull = JStr o'"
    and "dget p ''token'' JNull = JStr tok"
proof -
  let ?kvs = "[(''schema_version'', JInt MAINTENANCE_LEASE_SCHEMA_VERSION), (''state'', JStr st), (''owner'', JStr o'),
       (''token'', JStr tok), (''expires_at'', JTime (Aware e))]"
  let ?p = "sort_key fst (map (map_prod id jsort) ?kvs)"
  have look: "map_of ?p k = map_option jsort (map_of ?kvs k)" for k
    by (simp only: dict_simps)
  show thesis
  proof (rule that [of ?p])
    show "maintenance_expiry (encode_maintenance o' tok e st) = Some (?p, e)"
      unfolding maintenance_expiry_def encode_maintenance_def dumps_sorted_def jsort.simps json_loads.simps
        sum.case json.case look
      by simp
  qed (unfold dget_def look, simp_all)
qed

text \<open>The object is held by this owner and token at time \<open>t\<close>.\<close>

definition held_by :: "blob \<Rightarrow> string \<Rightarrow> string \<Rightarrow> instant \<Rightarrow> bool" where
  "held_by b o' tok t \<longleftrightarrow>
     (\<exists>p e. maintenance_expiry b = Some (p, e) \<and> dget p ''state'' JNull = JStr ''held'' \<and>
        dget p ''owner'' JNull = JStr o' \<and> dget p ''token'' JNull = JStr tok \<and> t < e)"

inductive mutex_edge :: "string \<Rightarrow> instant \<Rightarrow> blob option \<Rightarrow> blob \<Rightarrow> bool" where
  mutex_acquire: "(\<And>b. old = Some b \<Longrightarrow> active_owner b t = None) \<Longrightarrow>
     mutex_edge tok t old (encode_maintenance o' tok e ''held'')"
| mutex_renew: "held_by b o' tok t \<Longrightarrow> mutex_edge tok t (Some b) (encode_maintenance o' tok e ''held'')"
| mutex_release: "held_by b o' tok t \<Longrightarrow> mutex_edge tok t (Some b) (encode_maintenance o' tok e ''released'')"

inductive_cases mutex_edgeE: "mutex_edge tok t old d"

definition mutex_rule :: "string set \<Rightarrow> instant \<Rightarrow> string \<Rightarrow> blob option \<Rightarrow> blob \<Rightarrow> bool" where
  "mutex_rule toks t k old d \<longleftrightarrow> (\<exists>tok \<in> toks. \<exists>t0 \<le> t. mutex_edge tok t0 old d)"

lemma discipline_mutex_rule: "discipline (mutex_rule toks)"
  unfolding discipline_def mutex_rule_def by (blast intro: order_trans)

lemma mutex_ruleI: "mutex_edge tok t0 old d \<Longrightarrow> tok \<in> toks \<Longrightarrow> t0 \<le> t \<Longrightarrow> mutex_rule toks t k old d"
  unfolding mutex_rule_def by blast

lemma safe_read_owned:
  assumes "\<And>p b now t'. now \<le> t' \<Longrightarrow> t \<le> t' \<Longrightarrow> held_by b (ml_owner l) (ml_token l) now \<Longrightarrow> Q t' (Inr (p, ETag b))"
    and "\<And>e t'. t \<le> t' \<Longrightarrow> Q t' (Inl e)"
  shows "safe R Q (read_owned l) t"
  unfolding read_owned_def
proof (rule safe_bind, rule safe_get_bytes)
  fix r assume "reply_ok r"
  then show "case r of Inl e \<Rightarrow> Q t (Inl e)
     | Inr a \<Rightarrow> safe R Q (case a of None \<Rightarrow> Raise MaintenanceLeaseUnavailable
         | Some (data, etag) \<Rightarrow>
           (case maintenance_expiry data of None \<Rightarrow> Raise MaintenanceLeaseUnavailable
            | Some (payload, expires_at) \<Rightarrow>
                bind utc_now (\<lambda>now.
                  if dget payload ''state'' JNull \<noteq> JStr ''held''
                     \<or> dget payload ''owner'' JNull \<noteq> JStr (ml_owner l)
                     \<or> dget payload ''token'' JNull \<noteq> JStr (ml_token l)
                     \<or> expires_at \<le> now
                  then Raise MaintenanceLeaseBusy
                  else Ret (payload, etag)))) t"
    by (auto simp: reply_ok_def utc_now_def held_by_def assms split: sum.splits option.splits prod.splits
        intro!: assms)
qed

lemma safe_put_mutex:
  assumes "mutex_edge tok t0 (Some b) d" and "tok \<in> toks" and "t0 \<le> t" and "\<And>r. Q t r"
  shows "safe (mutex_rule toks) Q (put_cas k d (IfMatch (ETag b))) t"
    and "\<And>Q'. (\<And>r. Q' t r) \<Longrightarrow> safe (mutex_rule toks) Q' (try_put k d (IfMatch (ETag b))) t"
  using assms by (auto intro!: safe_put_cas safe_try_put mutex_ruleI simp: cond_legal_def)

lemma safe_maintenance_renew:
  assumes "ml_token l \<in> toks"
  shows "safe (mutex_rule toks) any_result (maintenance_renew l) t"
  unfolding maintenance_renew_def utc_now_def
  by (rule safe_bind, rule safe_read_owned)
     (auto intro!: safe_bind safe_put_mutex(1) mutex_renew assms split: sum.split)

lemma safe_assert_held: "safe R any_result (assert_held l) t"
  unfolding assert_held_def by (rule safe_bind, rule safe_read_owned) auto

lemma safe_maintenance_release:
  assumes "ml_token l \<in> toks"
  shows "safe (mutex_rule toks) any_result (maintenance_release l) t"
  unfolding maintenance_release_def utc_now_def
  by (rule safe_bind, rule safe_attempt, rule safe_read_owned)
     (auto intro!: safe_bind_any safe_put_mutex(2) mutex_release assms split: sum.split exn.split option.split)

text \<open>A lease taken by \<open>acquire_single\<close> carries the token it was given.\<close>

lemma safe_acquire_loop_token:
  assumes "token \<in> toks" and "now \<le> t"
  shows "safe (mutex_rule toks) (\<lambda>_ r. \<forall>l. r = Inr l \<longrightarrow> ml_token l = token) (acquire_loop n owner key token ttl now) t"
proof (induction n)
  case (Suc n)
  have put: "safe (mutex_rule toks) (\<lambda>_ r. \<forall>l. r = Inr l \<longrightarrow> ml_token l = token)
      (bind (try_put key (encode_maintenance owner token e ''held'') cnd) f) t"
    if "\<And>w. safe (mutex_rule toks) (\<lambda>_ r. \<forall>l. r = Inr l \<longrightarrow> ml_token l = token) (f w) t"
      and "cnd = IfNoneMatch \<or> (\<exists>b. cnd = IfMatch (ETag b) \<and> active_owner b now = None)" for cnd f e
    using that(2)
    by (intro safe_bind safe_try_put)
       (auto simp: cond_legal_def that(1) split: sum.split intro!: mutex_ruleI [OF _ assms] mutex_acquire)
  show ?case
    unfolding acquire_loop.simps Let_def
    by (rule safe_bind, rule safe_get_bytes)
       (auto simp: reply_ok_def Suc.IH intro!: put split: sum.splits option.splits)
qed simp

lemma safe_acquire_single_token:
  assumes "token \<in> toks"
  shows "safe (mutex_rule toks) (\<lambda>_ r. \<forall>l. r = Inr l \<longrightarrow> ml_token l = token)
     (acquire_single cas owner key token ttl None n) t"
  unfolding acquire_single_def
  by (auto intro!: safe_bind safe_now_or_clock safe_acquire_loop_token assms)

lemma safe_acquire_single:
  assumes "token \<in> toks"
  shows "safe (mutex_rule toks) any_result (acquire_single cas owner key token ttl None n) t"
  by (rule safe_conseq [OF safe_acquire_single_token [OF assms]]) simp

lemma safe_for_each:
  assumes "\<And>l t'. l \<in> set ls \<Longrightarrow> safe R any_result (f l) t'"
  shows "safe R any_result (for_each_lease f ls) t"
  using assms by (induction ls arbitrary: t) (auto intro!: safe_bind_any)

lemma safe_composites:
  assumes "\<And>l. l \<in> set ls \<Longrightarrow> ml_token l \<in> toks"
  shows "safe (mutex_rule toks) any_result (composite_renew ls) t"
    and "safe (mutex_rule toks) any_result (composite_assert_held ls) t"
    and "safe (mutex_rule toks) any_result (composite_release ls) t"
  unfolding composite_renew_def composite_assert_held_def composite_release_def
  by (auto intro!: safe_for_each safe_maintenance_renew safe_assert_held safe_maintenance_release assms)

lemma safe_acquire_keys:
  assumes "\<And>kt. kt \<in> set kts \<Longrightarrow> snd kt \<in> toks" and "\<And>l. l \<in> set ls \<Longrightarrow> ml_token l \<in> toks"
  shows "safe (mutex_rule toks) any_result (acquire_keys cas owner kts ttl None n ls) t"
  using assms
proof (induction kts arbitrary: ls t)
  case (Cons kt kts ls t)
  obtain key tk where kt: "kt = (key, tk)" by fastforce
  have tok: "snd kt \<in> toks" using Cons.prems(1) by simp
  have "safe (mutex_rule toks) (\<lambda>t' r. case r of
        Inr l \<Rightarrow> safe (mutex_rule toks) any_result (acquire_keys cas owner kts ttl None n (ls @ [l])) t'
      | Inl e \<Rightarrow> safe (mutex_rule toks) any_result (bind (composite_release ls) (\<lambda>_. Raise e)) t')
      (acquire_single cas owner (fst kt) (snd kt) ttl None n) t"
    by (rule safe_conseq [OF safe_acquire_single_token [OF tok]])
       (use Cons.prems tok kt in \<open>auto split: sum.split intro!: Cons.IH safe_bind_any safe_composites\<close>)
  then show ?case
    unfolding acquire_keys.simps
    by (rule safe_bind [OF safe_attempt [OF safe_conseq]]) (auto split: sum.splits)
qed simp

lemma safe_acquire_all:
  assumes "\<And>kt. kt \<in> set kts \<Longrightarrow> snd kt \<in> toks"
  shows "safe (mutex_rule toks) any_result (acquire_all cas owner kts ttl None n) t"
  unfolding acquire_all_def using assms by (auto intro: safe_acquire_keys)

subsection \<open>Exclusion\<close>

inductive mutex_program :: "string set \<Rightarrow> unit io \<Rightarrow> bool" for toks :: "string set" where
  prog_acquire: "token \<in> toks \<Longrightarrow> mutex_program toks (forget (acquire_single cas owner key token ttl None n))"
| prog_acquire_all: "snd ` set kts \<subseteq> toks \<Longrightarrow> mutex_program toks (forget (acquire_all cas owner kts ttl None n))"
| prog_renew: "ml_token ` set ls \<subseteq> toks \<Longrightarrow> mutex_program toks (forget (composite_renew ls))"
| prog_assert: "ml_token ` set ls \<subseteq> toks \<Longrightarrow> mutex_program toks (forget (composite_assert_held ls))"
| prog_release: "ml_token ` set ls \<subseteq> toks \<Longrightarrow> mutex_program toks (forget (composite_release ls))"

lemma mutex_program_safe: "mutex_program toks p \<Longrightarrow> safe (mutex_rule toks) any_result p t"
  by (induction rule: mutex_program.induct)
     (unfold forget_def, auto intro!: safe_bind_any safe_acquire_single safe_acquire_all safe_composites)

text \<open>
  C5: mutual exclusion. While a maintenance mutex is held and not expired, no interleaving of
  acquisitions, renewals, checks and releases by processes that do not know its token changes the
  object: nobody else acquires it, and no one's cleanup releases it.
\<close>

theorem maintenance_mutex_exclusive:
  assumes store: "cas_store ops view" and clients: "\<And>i p. launch i p \<Longrightarrow> mutex_program (toks i) p"
    and idle: "all_idle S0" and held: "sys_reach ops launch S0 S" and later: "sys_reach ops launch S S'"
    and lease: "view (sys_store S) k = Some (encode_maintenance o' tok e ''held'')"
    and others: "\<And>i. tok \<notin> toks i" and alive: "sys_time S' < e"
  shows "view (sys_store S') k = view (sys_store S) k"
proof -
  let ?c = "Some (encode_maintenance o' tok e ''held'')"
  have edge: "d = encode_maintenance o' tok e ''held''"
    if "mutex_edge tok' t0 ?c d" and "tok' \<noteq> tok" and "t0 < e" for tok' t0 d
  proof -
    obtain p where "maintenance_expiry (encode_maintenance o' tok e ''held'') = Some (p, e)"
      and "dget p ''token'' JNull = JStr tok"
      by (rule maintenance_expiry_encode)
    then have "\<not> held_by (encode_maintenance o' tok e ''held'') o'' tok' t0" for o''
      using that(2) by (simp add: held_by_def)
    with that(1,3) show ?thesis
      by (auto elim!: mutex_edgeE simp: active_owner_encode)
  qed
  have trans: "t < e \<longrightarrow> v' k = ?c"
    if "write_step (mutex_rule (toks i)) t v v'" and "t < e \<longrightarrow> v k = ?c" for i t v v'
    using that others [of i] edge
    by (fastforce simp: write_step_def mutex_rule_def)
  have init: "sys_time S < e \<longrightarrow> view (sys_store S) k = ?c"
    using lease by simp
  have time: "t' < e \<longrightarrow> v k = ?c" if "t \<le> t'" and "t < e \<longrightarrow> v k = ?c" for t t' :: instant and v :: bucket
    using that by simp
  have safe: "\<And>i p t. launch i p \<Longrightarrow> safe (mutex_rule (toks i)) any_result p t"
    by (rule mutex_program_safe [OF clients])
  have procs: "safe (mutex_rule (toks i)) any_result (sys_proc S i) (sys_time S)" for i
    by (rule cas_store.reach_safe [OF store held idle discipline_mutex_rule safe])
  have "(sys_time S' < e \<longrightarrow> view (sys_store S') k = ?c) \<and>
      (\<forall>i. safe (mutex_rule (toks i)) any_result (sys_proc S' i) (sys_time S'))"
    using later procs discipline_mutex_rule safe init time trans
    by (rule cas_store.reach_invariant_from [OF store, where R = "\<lambda>i. mutex_rule (toks i)"
          and I = "\<lambda>t v. t < e \<longrightarrow> v k = ?c"])
  with alive lease show ?thesis by simp
qed

subsection \<open>All or nothing\<close>

definition free_at :: "(string \<Rightarrow> blob option) \<Rightarrow> string \<Rightarrow> instant \<Rightarrow> bool" where
  "free_at v k t \<longleftrightarrow> (\<forall>b. v k = Some b \<longrightarrow> active_owner b t = None)"

definition held_object :: "maintenance_lease \<Rightarrow> instant \<Rightarrow> blob" where
  "held_object l e = encode_maintenance (ml_owner l) (ml_token l) e ''held''"

definition released_object :: "maintenance_lease \<Rightarrow> instant \<Rightarrow> blob" where
  "released_object l e = encode_maintenance (ml_owner l) (ml_token l) e ''released''"

definition acquire_ok :: "bool \<Rightarrow> string \<Rightarrow> string \<Rightarrow> rat \<Rightarrow> bool" where
  "acquire_ok cas owner key ttl \<longleftrightarrow> cas \<and> py_strip owner \<noteq> '''' \<and> py_strip key \<noteq> '''' \<and> 0 < ttl"

context reliable_store
begin

lemma run_get:
  assumes "serves k"
  obtains s' where "run ops t (get_bytes k) s = (Inr (map_option (\<lambda>b. (b, ETag b)) (view s k)), s')"
    and "view s' = view s"
  using get_cases [OF assms, of s] by (metis run_get_bytes)

lemma run_try_put_held:
  assumes "serves k" and "cond_holds cnd (view s k)"
  obtains s' where "run ops t (try_put k d cnd) s = (Inr (Some (ETag d)), s')"
    and "view s' = (view s)(k := Some d)"
proof -
  obtain s' where "op_put ops s k d cnd = (Inr (ETag d), s')" and v: "view s' = (view s)(k := Some d)"
    by (rule put_cases [OF assms])
  then show thesis by (intro that [OF _ v]) (simp add: try_put_def io_simps)
qed

lemma run_acquire_single:
  fixes owner key token ttl
  assumes "serves key" and "run ops t (acquire_single cas owner key token ttl None (Suc n)) s = (r, s')"
  defines "l \<equiv> \<lparr>ml_key = key, ml_owner = owner, ml_token = token,
       ml_etag = ETag (encode_maintenance owner token (t + timedelta_us ttl) ''held''), ml_ttl_seconds = ttl\<rparr>"
  shows "if acquire_ok cas owner key ttl \<and> free_at (view s) key t
         then r = Inr l \<and> view s' = (view s)(key := Some (held_object l (t + timedelta_us ttl)))
         else (\<exists>e. r = Inl e) \<and> view s' = view s"
proof (cases "acquire_ok cas owner key ttl")
  case False
  then show ?thesis
    using assms(2) by (auto simp: acquire_single_def acquire_ok_def simp del: acquire_loop.simps split: if_splits)
next
  case True
  let ?d = "encode_maintenance owner token (t + timedelta_us ttl) ''held''"
  obtain s1 where r1: "run ops t (get_bytes key) s = (Inr (map_option (\<lambda>b. (b, ETag b)) (view s key)), s1)"
    and v1: "view s1 = view s"
    by (rule run_get [OF assms(1)])
  have loop: "run ops t (acquire_loop (Suc n) owner key token ttl t) s = (r, s')"
    using assms(2) True by (auto simp: acquire_single_def acquire_ok_def io_simps simp del: acquire_loop.simps)
  show ?thesis
  proof (cases "free_at (view s) key t")
    case False
    then show ?thesis
      using loop r1 v1 by (auto simp: free_at_def run_bind)
  next
    case free: True
    let ?cnd = "cond_of (map_option ETag (view s key))"
    have "cond_holds ?cnd (view s1 key)" by (simp add: v1 cond_holds_current)
    from run_try_put_held [OF assms(1) this, of t ?d]
    obtain s2 where "run ops t (try_put key ?d ?cnd) s1 = (Inr (Some (ETag ?d)), s2)"
      and "view s2 = (view s1)(key := Some ?d)" by metis
    then show ?thesis
      using loop r1 v1 True free
      by (cases "view s key") (auto simp: free_at_def io_simps cond_of_def held_object_def l_def)
  qed
qed

lemma run_release:
  assumes "serves (ml_key l)" and "view s (ml_key l) = Some (held_object l e)" and "t < e"
  obtains l' s' where "run ops t (maintenance_release l) s = (Inr l', s')"
    and "view s' = (view s)(ml_key l := Some (released_object l t))"
proof -
  obtain s1 where r1: "run ops t (get_bytes (ml_key l)) s =
      (Inr (Some (held_object l e, ETag (held_object l e))), s1)" and v1: "view s1 = view s"
    using run_get [OF assms(1), of t s] assms(2) by (metis option.simps(9))
  obtain p where p: "maintenance_expiry (held_object l e) = Some (p, e)" "dget p ''state'' JNull = JStr ''held''"
    "dget p ''owner'' JNull = JStr (ml_owner l)" "dget p ''token'' JNull = JStr (ml_token l)"
    unfolding held_object_def by (rule maintenance_expiry_encode)
  have "cond_holds (IfMatch (ETag (held_object l e))) (view s1 (ml_key l))"
    by (simp add: cond_holds_def v1 assms(2))
  from run_try_put_held [OF assms(1) this, of t "released_object l t"]
  obtain s2 where r2: "run ops t (try_put (ml_key l) (released_object l t) (IfMatch (ETag (held_object l e)))) s1 =
      (Inr (Some (ETag (released_object l t))), s2)"
    and v2: "view s2 = (view s)(ml_key l := Some (released_object l t))"
    by (metis v1)
  show thesis
    by (rule that [OF _ v2])
       (use r1 r2 p assms(3) in \<open>simp add: maintenance_release_def read_owned_def io_simps utc_now_def
          released_object_def\<close>)
qed

lemma run_for_each_release:
  assumes "\<And>k. serves k" and "distinct (map ml_key ls)"
    and "\<And>l. l \<in> set ls \<Longrightarrow> view s (ml_key l) = Some (held_object l e)" and "t < e"
  shows "\<exists>ls' s'. run ops t (for_each_lease maintenance_release ls) s = (Inr ls', s') \<and>
     (\<forall>k. k \<notin> ml_key ` set ls \<longrightarrow> view s' k = view s k) \<and>
     (\<forall>l \<in> set ls. view s' (ml_key l) = Some (released_object l t))"
  using assms(2,3)
proof (induction ls arbitrary: s)
  case (Cons l ls)
  obtain l' s1 where r1: "run ops t (maintenance_release l) s = (Inr l', s1)"
    and v1: "view s1 = (view s)(ml_key l := Some (released_object l t))"
    using run_release [OF assms(1) Cons.prems(2) [of l, simplified] assms(4)] by blast
  have "view s1 (ml_key m) = Some (held_object m e)" if "m \<in> set ls" for m
    using Cons.prems that by (auto simp: v1 image_iff)
  with Cons.IH [of s1] Cons.prems(1) obtain ls' s2 where
    r2: "run ops t (for_each_lease maintenance_release ls) s1 = (Inr ls', s2)"
    and v2: "\<forall>k. k \<notin> ml_key ` set ls \<longrightarrow> view s2 k = view s1 k"
      "\<forall>l \<in> set ls. view s2 (ml_key l) = Some (released_object l t)"
    by auto
  show ?case
    using r1 r2 v1 v2 Cons.prems(1) by (auto simp: io_simps)
qed simp

end

context reliable_store
begin

text \<open>The state while several keys are being acquired: exactly the leases taken so far are held.\<close>

definition taken :: "(string \<Rightarrow> blob option) \<Rightarrow> maintenance_lease list \<Rightarrow> instant \<Rightarrow> (string \<Rightarrow> blob option) \<Rightarrow> bool" where
  "taken v0 ls e v \<longleftrightarrow> distinct (map ml_key ls) \<and>
     (\<forall>l \<in> set ls. v (ml_key l) = Some (held_object l e)) \<and> (\<forall>k. k \<notin> ml_key ` set ls \<longrightarrow> v k = v0 k)"

lemma run_acquire_keys:
  assumes "\<And>k. serves k" and "t < t + timedelta_us ttl" and "taken v0 ls (t + timedelta_us ttl) (view s)"
    and "run ops t (acquire_keys cas owner kts ttl None (Suc n) ls) s = (r, s')"
  shows "case r of
      Inr ls' \<Rightarrow> taken v0 ls' (t + timedelta_us ttl) (view s') \<and> map ml_key ls' = map ml_key ls @ map fst kts
    | Inl e \<Rightarrow> (\<forall>k. view s' k = v0 k \<or> free_at (view s') k t)"
  using assms(3,4)
proof (induction kts arbitrary: ls s)
  case Nil
  then show ?case by auto
next
  case (Cons kt kts)
  obtain key tk where kt: "kt = (key, tk)" by fastforce
  obtain q s1 where q: "run ops t (acquire_single cas owner key tk ttl None (Suc n)) s = (q, s1)" by fastforce
  note one = run_acquire_single [OF assms(1) q]
  show ?case
  proof (cases q)
    case (Inr l)
    with one have l: "ml_key l = key" and v1: "view s1 = (view s)(key := Some (held_object l (t + timedelta_us ttl)))"
      and free: "free_at (view s) key t"
      by (auto split: if_splits)
    have "key \<notin> ml_key ` set ls"
    proof
      assume "key \<in> ml_key ` set ls"
      then obtain m where "view s key = Some (held_object m (t + timedelta_us ttl))"
        using Cons.prems(1) by (auto simp: taken_def)
      with free assms(2) show False
        by (simp add: free_at_def held_object_def active_owner_encode split: if_splits)
    qed
    with Cons.prems(1) l v1 have "taken v0 (ls @ [l]) (t + timedelta_us ttl) (view s1)"
      by (auto simp: taken_def image_iff)
    from Cons.IH [OF this] show ?thesis
      using Cons.prems(2) q Inr l kt by (auto simp: io_simps split: sum.splits)
  next
    case (Inl e)
    with one have v1: "view s1 = view s" by (auto split: if_splits)
    have "distinct (map ml_key (rev ls))"
      using Cons.prems(1) by (simp add: taken_def rev_map [symmetric])
    moreover have "view s1 (ml_key l) = Some (held_object l (t + timedelta_us ttl))" if "l \<in> set (rev ls)" for l
      using Cons.prems(1) that by (simp add: taken_def v1)
    ultimately obtain ls' s2 where "run ops t (for_each_lease maintenance_release (rev ls)) s1 = (Inr ls', s2)"
      and out: "\<forall>k. k \<notin> ml_key ` set ls \<longrightarrow> view s2 k = view s1 k"
      and rel: "\<forall>l \<in> set ls. view s2 (ml_key l) = Some (released_object l t)"
      using run_for_each_release [OF assms(1) _ _ assms(2), of "rev ls" s1] by auto
    then have "r = Inl e" and "s' = s2"
      using Cons.prems(2) q Inl kt by (auto simp: io_simps composite_release_def)
    moreover have "view s2 k = v0 k \<or> free_at (view s2) k t" for k
    proof (cases "k \<in> ml_key ` set ls")
      case True
      then show ?thesis using rel by (auto simp: free_at_def released_object_def active_owner_encode)
    next
      case False
      then show ?thesis using out v1 Cons.prems(1) by (simp add: taken_def)
    qed
    ultimately show ?thesis by simp
  qed
qed

end

text \<open>
  acquiring several mutexes is all or nothing on a store that answers. On success every requested
  key holds an active lease of the caller and nothing else changed; on failure every key is as it
  was before or free, so no partial lock outlives the call.
\<close>

theorem acquire_all_or_nothing:
  assumes "reliable_store ops view (\<lambda>_. True)" and "0 < timedelta_us ttl"
    and "run ops t (acquire_all cas owner kts ttl None (Suc n)) s = (r, s')"
  shows "case r of
      Inr ls \<Rightarrow> map ml_key ls = map fst kts \<and>
        (\<forall>l \<in> set ls. view s' (ml_key l) = Some (held_object l (t + timedelta_us ttl))) \<and>
        (\<forall>k. k \<notin> fst ` set kts \<longrightarrow> view s' k = view s k)
    | Inl e \<Rightarrow> (\<forall>k. view s' k = view s k \<or> free_at (view s') k t)"
proof (cases "kts = []")
  case True
  then show ?thesis using assms(3) by (auto simp: acquire_all_def)
next
  case False
  have start: "reliable_store.taken (view s) [] (t + timedelta_us ttl) (view s)"
    by (simp add: reliable_store.taken_def [OF assms(1)])
  show ?thesis
    using reliable_store.run_acquire_keys [OF assms(1) TrueI _ start, of cas owner kts n r s'] assms(2,3) False
    by (auto simp: acquire_all_def reliable_store.taken_def [OF assms(1)] split: sum.splits
        dest: arg_cong [where f = set])
qed

subsection \<open>Concrete mutexes\<close>

definition demo_mutex :: "blob option" where
  "demo_mutex = Some (encode_maintenance ''ann'' ''t1'' 60000000 ''held'')"

definition demo_acquire :: "unit io" where
  "demo_acquire = forget (acquire_single True ''bob'' ''maintenance-leases/x.json'' ''t2'' 60 None 8)"

definition demo_mutex_run :: "(bucket, unit) sys" where
  "demo_mutex_run = fold (perform r2_bucket) [Wait 30000000, Begin 1 demo_acquire, Proceed 1, Proceed 1]
     (idle_system (\<lambda>_. demo_mutex) 0)"

theorem maintenance_mutex_exclusive_witness:
  "sys_store demo_mutex_run ''maintenance-leases/x.json'' = demo_mutex"
proof -
  have reach: "sys_reach r2_bucket (\<lambda>_ p. p = demo_acquire) (idle_system (\<lambda>_. demo_mutex) 0) demo_mutex_run"
    unfolding demo_mutex_run_def by (rule schedule_reach) (auto simp: begins_def)
  have time: "sys_time demo_mutex_run = 30000000"
    by (simp add: demo_mutex_run_def perform_time del: perform.simps)
  have "sys_store demo_mutex_run ''maintenance-leases/x.json'' =
      sys_store (idle_system (\<lambda>_. demo_mutex) 0) ''maintenance-leases/x.json''"
    using maintenance_mutex_exclusive [where view = "\<lambda>s. s" and e = 60000000 and toks = "\<lambda>_. {''t2''}"
        and tok = "''t1''" and o' = "''ann''" and k = "''maintenance-leases/x.json''",
        OF r2_store _ _ reach_refl reach]
    by (simp add: demo_acquire_def prog_acquire demo_mutex_def time)
  then show ?thesis by simp
qed

theorem acquire_all_or_nothing_witness:
  "case fst (run r2_bucket 0 (acquire_all True ''bob'' [(''a'', ''t2''), (''b'', ''t3'')] 60 None 8) (\<lambda>_. None)) of
     Inr ls \<Rightarrow> map ml_key ls = [''a'', ''b'']
   | Inl e \<Rightarrow> free_at (snd (run r2_bucket 0 (acquire_all True ''bob'' [(''a'', ''t2''), (''b'', ''t3'')] 60 None 8)
                 (\<lambda>_. None))) ''a'' 0"
proof -
  have ttl: "0 < timedelta_us 60"
    by (simp add: timedelta_us_def round_half_even_def)
  have "(8::nat) = Suc 7" by simp
  then show ?thesis
    using acquire_all_or_nothing [where view = "\<lambda>s. s" and s = "\<lambda>_. None" and t = 0 and ttl = 60 and n = 7
        and cas = True and owner = "''bob''" and kts = "[(''a'', ''t2''), (''b'', ''t3'')]",
        OF r2_reliable ttl prod.collapse [symmetric]]
    by (auto simp only: prod.sel list.map split: sum.splits) (simp add: free_at_def, metis option.distinct(1))
qed

end
