(* ===== verification/Provider_Leases.thy ===== *)
theory Provider_Leases
  imports Store_IO
begin

section \<open>Provider concurrency slots\<close>

text \<open>
  \<open>citypods/provider_leases.py\<close>: an N-slot cap on concurrent work against one provider domain, held
  as N compare-and-swap objects per domain. The pool's in-memory state (rules, telemetry, waiting
  counts) is the record \<open>lease_pool\<close>, passed and returned; a lease is the record \<open>provider_lease\<close>.
  The environment variables are the parameter \<open>env\<close>, \<open>sha\<close> is the digest of the owner's identity.
  The renewal thread appears as its loop body \<open>renew_step\<close>, the waiting loop of \<open>_acquire\<close> runs for a
  number of passes; thread locks and log output are not modelled.
\<close>

record lease_rule_config =
  pr_slots :: int
  pr_ttl_seconds :: rat
  pr_poll_seconds :: rat
  pr_settle_seconds :: rat

record lease_metadata =
  lm_owner :: "string option"
  lm_state :: "string option"
  lm_run_id :: "string option"
  lm_run_attempt :: "string option"
  lm_job :: "string option"
  lm_shard :: "string option"

definition metadata_detail :: "lease_metadata \<Rightarrow> string" where
  "metadata_detail m =
     (let parts = concat (map (\<lambda>(label, v). case v of
             Some s \<Rightarrow> if s = '''' then [] else [label @ ''='' @ s] | None \<Rightarrow> [])
           [(''owner'', lm_owner m), (''run_id'', lm_run_id m), (''run_attempt'', lm_run_attempt m),
            (''job'', lm_job m), (''shard'', lm_shard m), (''state'', lm_state m)])
      in if parts = [] then '''' else '' '' @ py_join '' '' parts)"

record domain_telemetry =
  dt_acquisitions :: nat
  dt_wait_seconds :: rat
  dt_max_wait_seconds :: rat
  dt_stale_reaped :: nat
  dt_renewals :: nat

definition no_telemetry :: domain_telemetry where
  "no_telemetry = \<lparr>dt_acquisitions = 0, dt_wait_seconds = 0, dt_max_wait_seconds = 0, dt_stale_reaped = 0,
     dt_renewals = 0\<rparr>"

record lease_pool =
  lp_prefix :: string
  lp_storage :: bool
  lp_rules :: "(string \<times> lease_rule_config) list"
  lp_owner :: string
  lp_shard :: "string option"
  lp_telemetry :: "(string \<times> domain_telemetry) list"
  lp_waiting :: "(string \<times> int) list"

record provider_lease =
  pl_domain :: string
  pl_key :: string
  pl_etag :: "etag option"
  pl_rule :: "lease_rule_config option"
  pl_wait_seconds :: rat
  pl_lost :: bool

subsection \<open>Configuration\<close>

definition parse_rule :: "json \<Rightarrow> lease_rule_config option" where
  "parse_rule raw =
     (case raw of
        JObj d \<Rightarrow>
          (case py_int (dget d ''slots'' (JInt 0)) of
             Inl _ \<Rightarrow> None
           | Inr slots \<Rightarrow>
               if slots \<le> 0 then None
               else
                 (case (py_float (dget d ''ttl_seconds'' (JFloat 3600)), py_float (dget d ''poll_seconds'' (JFloat 2)),
                        py_float (dget d ''settle_seconds'' (JFloat (1 / 4)))) of
                    (Inr ttl, Inr poll, Inr settle) \<Rightarrow>
                      if ttl \<le> 0 \<or> poll \<le> 0 \<or> settle < 0 then None
                      else Some \<lparr>pr_slots = slots, pr_ttl_seconds = ttl, pr_poll_seconds = poll,
                                 pr_settle_seconds = settle\<rparr>
                  | _ \<Rightarrow> None))
      | _ \<Rightarrow>
          (case py_int raw of
             Inl _ \<Rightarrow> None
           | Inr slots \<Rightarrow>
               if 0 < slots
               then Some \<lparr>pr_slots = slots, pr_ttl_seconds = 3600, pr_poll_seconds = 2, pr_settle_seconds = 1 / 4\<rparr>
               else None))"

text \<open>\<open>storage\<close> is \<open>None\<close> or whether it is CAS-capable and whether it has the three methods.\<close>

definition configure ::
  "lease_pool \<Rightarrow> (bool \<times> bool) option \<Rightarrow> pydict \<Rightarrow> string option \<Rightarrow> lease_pool" where
  "configure pool storage config shard =
     (let rules = fold (\<lambda>(domain, raw) rs. case parse_rule raw of
             None \<Rightarrow> rs
           | Some rule \<Rightarrow> AList.update (py_lower (py_strip domain)) rule rs) config [];
          usable = (case storage of Some (cas_ok, has_methods) \<Rightarrow> cas_ok \<and> has_methods | None \<Rightarrow> False)
      in pool\<lparr>lp_storage := usable, lp_rules := (if usable then rules else []), lp_shard := shard,
              lp_telemetry := [], lp_waiting := []\<rparr>)"

definition host_matches :: "string \<Rightarrow> string \<Rightarrow> bool" where
  "host_matches host key \<longleftrightarrow> host = key \<or> py_endswith host (''.'' @ key)"

definition key_for :: "lease_pool \<Rightarrow> string \<Rightarrow> string option" where
  "key_for pool host0 =
     (let host = py_lower host0
      in fold (\<lambda>(key, _) best.
           if host_matches host key
           then (case best of None \<Rightarrow> Some key | Some b \<Rightarrow> if length b < length key then Some key else best)
           else best) (lp_rules pool) None)"

text \<open>\<open>slots\<close>: the domains of the given hosts, without duplicates, sorted.\<close>

definition slots_domains :: "lease_pool \<Rightarrow> string list \<Rightarrow> string list" where
  "slots_domains pool hosts = sort (remdups (concat (map (\<lambda>h. case key_for pool h of None \<Rightarrow> [] | Some k \<Rightarrow> [k]) hosts)))"

subsection \<open>Telemetry\<close>

definition bump :: "(domain_telemetry \<Rightarrow> domain_telemetry) \<Rightarrow> string \<Rightarrow> lease_pool \<Rightarrow> lease_pool" where
  "bump f domain pool =
     (let v = (case map_of (lp_telemetry pool) domain of None \<Rightarrow> no_telemetry | Some v \<Rightarrow> v)
      in pool\<lparr>lp_telemetry := AList.update domain (f v) (lp_telemetry pool)\<rparr>)"

definition record_acquisition :: "string \<Rightarrow> rat \<Rightarrow> lease_pool \<Rightarrow> lease_pool" where
  "record_acquisition domain wait_seconds =
     bump (\<lambda>v. v\<lparr>dt_acquisitions := Suc (dt_acquisitions v), dt_wait_seconds := dt_wait_seconds v + wait_seconds,
                 dt_max_wait_seconds := max (dt_max_wait_seconds v) wait_seconds\<rparr>) domain"

definition increment_stale :: "string \<Rightarrow> lease_pool \<Rightarrow> lease_pool" where
  "increment_stale = bump (\<lambda>v. v\<lparr>dt_stale_reaped := Suc (dt_stale_reaped v)\<rparr>)"

definition increment_renewals :: "string \<Rightarrow> lease_pool \<Rightarrow> lease_pool" where
  "increment_renewals = bump (\<lambda>v. v\<lparr>dt_renewals := Suc (dt_renewals v)\<rparr>)"

definition add_waiting :: "int \<Rightarrow> string \<Rightarrow> lease_pool \<Rightarrow> lease_pool" where
  "add_waiting n domain pool =
     (let w = (case map_of (lp_waiting pool) domain of None \<Rightarrow> 0 | Some w \<Rightarrow> w)
      in pool\<lparr>lp_waiting := AList.update domain (if n < 0 then max 0 (w + n) else w + n) (lp_waiting pool)\<rparr>)"

definition current_waiting_counts :: "lease_pool \<Rightarrow> (string \<times> int) list" where
  "current_waiting_counts pool = filter (\<lambda>(_, n). 0 < n) (lp_waiting pool)"

subsection \<open>Slots and payloads\<close>

definition hex_digit :: "nat \<Rightarrow> char" where
  "hex_digit n = char_of (if n < 10 then 48 + n else 55 + n)"

definition unreserved :: "char \<Rightarrow> bool" where
  "unreserved c \<longleftrightarrow>
     (let n = (of_char c :: nat) in 48 \<le> n \<and> n \<le> 57 \<or> 65 \<le> n \<and> n \<le> 90 \<or> 97 \<le> n \<and> n \<le> 122 \<or> n \<in> {45, 46, 95, 126})"

text \<open>\<open>quote(domain, safe='')\<close> of the bytes of the text.\<close>

definition url_quote :: "string \<Rightarrow> string" where
  "url_quote s =
     concat (map (\<lambda>c. if unreserved c then [c]
        else [CHR ''%'', hex_digit (of_char c div 16), hex_digit (of_char c mod 16)]) s)"

definition domain_prefix :: "lease_pool \<Rightarrow> string \<Rightarrow> string" where
  "domain_prefix pool domain = lp_prefix pool @ ''/'' @ url_quote domain @ ''/''"

definition slot_key :: "lease_pool \<Rightarrow> string \<Rightarrow> int \<Rightarrow> string" where
  "slot_key pool domain index = domain_prefix pool domain @ ''slot-'' @ dec_int index @ ''.json''"

definition slot_scan_offset :: "(string \<Rightarrow> nat) \<Rightarrow> lease_pool \<Rightarrow> string \<Rightarrow> int \<Rightarrow> int" where
  "slot_scan_offset sha pool domain slots =
     (if slots \<le> 1 then 0 else int (sha (lp_owner pool @ '':'' @ domain)) mod slots)"

definition truthy_str :: "string option \<Rightarrow> string option" where
  "truthy_str v = (case v of Some s \<Rightarrow> if s = '''' then None else Some s | None \<Rightarrow> None)"

definition self_metadata :: "(string \<Rightarrow> string option) \<Rightarrow> lease_pool \<Rightarrow> string \<Rightarrow> lease_metadata" where
  "self_metadata env pool state =
     \<lparr>lm_owner = Some (lp_owner pool), lm_state = Some state, lm_run_id = truthy_str (env ''GITHUB_RUN_ID''),
      lm_run_attempt = truthy_str (env ''GITHUB_RUN_ATTEMPT''), lm_job = truthy_str (env ''GITHUB_JOB''),
      lm_shard = lp_shard pool\<rparr>"

definition opt_json :: "string option \<Rightarrow> json" where
  "opt_json v = (case v of None \<Rightarrow> JNull | Some s \<Rightarrow> JStr s)"

definition payload_fields :: "(string \<Rightarrow> string option) \<Rightarrow> lease_pool \<Rightarrow> string \<Rightarrow> string \<Rightarrow> instant \<Rightarrow> instant \<Rightarrow> pydict" where
  "payload_fields env pool domain state expires_at now =
     (let m = self_metadata env pool state;
          extra = [(''github_run_id'', lm_run_id m), (''github_run_attempt'', lm_run_attempt m),
                   (''github_job'', lm_job m), (''github_shard'', lm_shard m)]
      in [(''owner'', opt_json (lm_owner m)), (''domain'', JStr domain), (''state'', opt_json (lm_state m)),
          (''renewed_at'', JTime (Aware now)), (''expires_at'', JTime (Aware expires_at))] @
         concat (map (\<lambda>(k, v). case truthy_str v of None \<Rightarrow> [] | Some s \<Rightarrow> [(k, JStr s)]) extra))"

definition encode_payload ::
  "(string \<Rightarrow> string option) \<Rightarrow> lease_pool \<Rightarrow> string \<Rightarrow> string \<Rightarrow> instant \<Rightarrow> blob io" where
  "encode_payload env pool domain state expires_at =
     bind utc_now (\<lambda>now. Ret (dumps_sorted (JObj (payload_fields env pool domain state expires_at now))))"

definition slot_payload ::
  "(string \<Rightarrow> string option) \<Rightarrow> lease_pool \<Rightarrow> string \<Rightarrow> lease_rule_config \<Rightarrow> blob io" where
  "slot_payload env pool domain rule =
     bind utc_now (\<lambda>now. encode_payload env pool domain ''acquired'' (now + timedelta_us (pr_ttl_seconds rule)))"

definition released_payload :: "(string \<Rightarrow> string option) \<Rightarrow> lease_pool \<Rightarrow> string \<Rightarrow> blob io" where
  "released_payload env pool domain =
     bind utc_now (\<lambda>now. encode_payload env pool domain ''released'' now)"

definition meta_str :: "pydict \<Rightarrow> string \<Rightarrow> string option" where
  "meta_str p k =
     (let v = dget p k JNull in truthy_str (if py_truthy v then Some (py_str v) else None))"

definition payload_metadata :: "pydict \<Rightarrow> lease_metadata" where
  "payload_metadata p =
     \<lparr>lm_owner = meta_str p ''owner'', lm_state = meta_str p ''state'', lm_run_id = meta_str p ''github_run_id'',
      lm_run_attempt = meta_str p ''github_run_attempt'', lm_job = meta_str p ''github_job'',
      lm_shard = meta_str p ''github_shard''\<rparr>"

text \<open>Whether a slot's payload is an expired holder: unreadable or without expiry counts as expired.\<close>

definition slot_expiry :: "blob \<Rightarrow> instant \<Rightarrow> bool \<times> lease_metadata option" where
  "slot_expiry data now =
     (case json_loads data of
        Inr (JObj p) \<Rightarrow>
          (let raw = dget p ''expires_at'' JNull in
           if \<not> py_truthy raw then (True, Some (payload_metadata p))
           else
             (case parse_dt raw of
                None \<Rightarrow> (True, None)
              | Some expires \<Rightarrow> (expires \<le> now, Some (payload_metadata p))))
      | _ \<Rightarrow> (True, None))"

subsection \<open>Acquiring a slot\<close>

definition try_claim_slot ::
  "(string \<Rightarrow> string option) \<Rightarrow> lease_pool \<Rightarrow> string \<Rightarrow> string \<Rightarrow> lease_rule_config \<Rightarrow> cas_cond \<Rightarrow> etag option io" where
  "try_claim_slot env pool key domain rule cnd =
     bind (slot_payload env pool domain rule) (\<lambda>data. try_put key data cnd)"

definition finish_acquire ::
  "lease_pool \<Rightarrow> string \<Rightarrow> string \<Rightarrow> etag \<Rightarrow> lease_rule_config \<Rightarrow> instant \<Rightarrow> (provider_lease \<times> lease_pool) io" where
  "finish_acquire pool domain key etag rule started =
     bind utc_now (\<lambda>now.
       let wait = of_int (now - started) / 1000000 in
       Ret (\<lparr>pl_domain = domain, pl_key = key, pl_etag = Some etag, pl_rule = Some rule, pl_wait_seconds = wait,
             pl_lost = False\<rparr>,
            record_acquisition domain wait pool))"

primrec try_slots ::
  "(string \<Rightarrow> string option) \<Rightarrow> lease_pool \<Rightarrow> string \<Rightarrow> lease_rule_config \<Rightarrow> instant \<Rightarrow> instant \<Rightarrow> int list \<Rightarrow>
   (provider_lease \<times> lease_pool) option io" where
  "try_slots env pool domain rule started now [] = Ret None"
| "try_slots env pool domain rule started now (index # rest) =
     (let key = slot_key pool domain index in
      bind (get_bytes key) (\<lambda>got.
        case got of
          None \<Rightarrow>
            bind (try_claim_slot env pool key domain rule IfNoneMatch) (\<lambda>won.
              case won of
                Some etag \<Rightarrow> bind (finish_acquire pool domain key etag rule started) (\<lambda>r. Ret (Some r))
              | None \<Rightarrow> try_slots env pool domain rule started now rest)
        | Some (data, current_etag) \<Rightarrow>
            if \<not> fst (slot_expiry data now) then try_slots env pool domain rule started now rest
            else
              bind (try_claim_slot env pool key domain rule (IfMatch current_etag)) (\<lambda>won.
                case won of
                  Some etag \<Rightarrow>
                    bind (finish_acquire (increment_stale domain pool) domain key etag rule started)
                      (\<lambda>r. Ret (Some r))
                | None \<Rightarrow> try_slots env pool domain rule started now rest)))"

definition slot_order :: "(string \<Rightarrow> nat) \<Rightarrow> lease_pool \<Rightarrow> string \<Rightarrow> int \<Rightarrow> int list" where
  "slot_order sha pool domain slots =
     map (\<lambda>j. (slot_scan_offset sha pool domain slots + int j) mod slots) [0..<nat slots]"

definition try_one_pass ::
  "(string \<Rightarrow> string option) \<Rightarrow> (string \<Rightarrow> nat) \<Rightarrow> lease_pool \<Rightarrow> string \<Rightarrow> lease_rule_config \<Rightarrow> instant \<Rightarrow>
   (provider_lease \<times> lease_pool) option io" where
  "try_one_pass env sha pool domain rule started =
     bind utc_now (\<lambda>now. try_slots env pool domain rule started now (slot_order sha pool domain (pr_slots rule)))"

text \<open>
  The waiting loop, for at most \<open>fuel\<close> passes; \<open>None\<close> means it is still waiting. The result carries the
  pool in both cases, since the waiting count is restored when an exception escapes, too.
\<close>

definition no_op_lease :: "string \<Rightarrow> lease_rule_config option \<Rightarrow> provider_lease" where
  "no_op_lease domain rule =
     \<lparr>pl_domain = domain, pl_key = '''', pl_etag = None, pl_rule = rule, pl_wait_seconds = 0, pl_lost = False\<rparr>"

primrec acquire_passes ::
  "(string \<Rightarrow> string option) \<Rightarrow> (string \<Rightarrow> nat) \<Rightarrow> (bool io) option \<Rightarrow> string \<Rightarrow> instant \<Rightarrow> nat \<Rightarrow> bool \<Rightarrow> lease_pool \<Rightarrow>
   ((exn + provider_lease) \<times> lease_pool) option io" where
  "acquire_passes env sha stop domain started 0 counted pool = Ret None"
| "acquire_passes env sha stop domain started (Suc fuel) counted pool =
     (let finally = (\<lambda>r p. Ret (Some (r, if counted then add_waiting (-1) domain p else p))) in
      bind (attempt (case stop of None \<Rightarrow> Ret False | Some f \<Rightarrow> f)) (\<lambda>stopped.
        case stopped of
          Inl e \<Rightarrow> finally (Inl e) pool
        | Inr True \<Rightarrow> finally (Inl StopRequested) pool
        | Inr False \<Rightarrow>
            (case (if lp_storage pool then map_of (lp_rules pool) domain else None) of
               None \<Rightarrow> finally (Inr (no_op_lease domain None)) pool
             | Some rule \<Rightarrow>
                 (let pool' = (if counted then pool else add_waiting 1 domain pool) in
                  bind (attempt (try_one_pass env sha pool' domain rule started)) (\<lambda>r.
                    case r of
                      Inl e \<Rightarrow> Ret (Some (Inl e, add_waiting (-1) domain pool'))
                    | Inr (Some (l, pool'')) \<Rightarrow> Ret (Some (Inr l, add_waiting (-1) domain pool''))
                    | Inr None \<Rightarrow> acquire_passes env sha stop domain started fuel True pool')))))"

definition provider_acquire ::
  "(string \<Rightarrow> string option) \<Rightarrow> (string \<Rightarrow> nat) \<Rightarrow> (bool io) option \<Rightarrow> string \<Rightarrow> nat \<Rightarrow> lease_pool \<Rightarrow>
   ((exn + provider_lease) \<times> lease_pool) option io" where
  "provider_acquire env sha stop domain fuel pool =
     bind utc_now (\<lambda>started. acquire_passes env sha stop domain started fuel False pool)"

subsection \<open>Renewal and release\<close>

definition renew_interval :: "lease_rule_config \<Rightarrow> rat" where
  "renew_interval rule = max (5 / 100) (min 60 (max (15 / 100) (pr_ttl_seconds rule) / 3))"

definition etag_cond :: "etag option \<Rightarrow> cas_cond" where
  "etag_cond e = (case e of None \<Rightarrow> NoCond | Some t \<Rightarrow> IfMatch t)"

text \<open>One turn of the renewal thread; the third component says whether it goes on.\<close>

definition renew_step ::
  "(string \<Rightarrow> string option) \<Rightarrow> lease_pool \<Rightarrow> provider_lease \<Rightarrow> (provider_lease \<times> lease_pool \<times> bool) io" where
  "renew_step env pool l =
     (case (lp_storage pool, pl_rule l) of
        (True, Some rule) \<Rightarrow>
          bind (attempt (bind (slot_payload env pool (pl_domain l) rule)
                   (\<lambda>data. put_cas (pl_key l) data (etag_cond (pl_etag l))))) (\<lambda>r.
            case r of
              Inr etag \<Rightarrow> Ret (l\<lparr>pl_etag := Some etag\<rparr>, increment_renewals (pl_domain l) pool, True)
            | Inl e \<Rightarrow> if is_conflict e then Ret (l\<lparr>pl_lost := True\<rparr>, pool, False) else Ret (l, pool, True))
      | _ \<Rightarrow> Ret (l, pool, False))"

definition provider_release ::
  "(string \<Rightarrow> string option) \<Rightarrow> lease_pool \<Rightarrow> provider_lease \<Rightarrow> unit io" where
  "provider_release env pool l =
     (if pl_key l = '''' then Ret ()
      else if \<not> lp_storage pool then Ret ()
      else if pl_lost l then Ret ()
      else
        bind (attempt (bind (released_payload env pool (pl_domain l))
                 (\<lambda>data. put_cas (pl_key l) data (etag_cond (pl_etag l)))))
          (\<lambda>_. Ret ()))"

text \<open>\<open>with slots(...)\<close>: acquire the domains in order, releasing what was taken when one fails.\<close>

primrec release_leases ::
  "(string \<Rightarrow> string option) \<Rightarrow> lease_pool \<Rightarrow> provider_lease list \<Rightarrow> unit io" where
  "release_leases env pool [] = Ret ()"
| "release_leases env pool (l # ls) = bind (provider_release env pool l) (\<lambda>_. release_leases env pool ls)"

primrec enter_slots ::
  "(string \<Rightarrow> string option) \<Rightarrow> (string \<Rightarrow> nat) \<Rightarrow> (bool io) option \<Rightarrow> nat \<Rightarrow> string list \<Rightarrow> provider_lease list \<Rightarrow> lease_pool \<Rightarrow>
   ((exn + provider_lease list) \<times> lease_pool) option io" where
  "enter_slots env sha stop fuel [] acquired pool = Ret (Some (Inr acquired, pool))"
| "enter_slots env sha stop fuel (d # ds) acquired pool =
     bind (provider_acquire env sha stop d fuel pool) (\<lambda>r.
       case r of
         None \<Rightarrow> Ret None
       | Some (Inr l, pool') \<Rightarrow> enter_slots env sha stop fuel ds (acquired @ [l]) pool'
       | Some (Inl e, pool') \<Rightarrow>
           bind (release_leases env pool' (rev acquired)) (\<lambda>_. Ret (Some (Inl e, pool'))))"

end
