(* ===== verification/Provider_Properties.thy ===== *)
theory Provider_Properties
  imports Provider_Leases S3_Storage
begin

section \<open>What the provider slots guarantee\<close>

text \<open>
  Every write of a pool with identity \<open>owner\<close> is a \<open>slot_edge\<close>: it claims a free or expired slot, or
  replaces a slot this owner holds. So no live slot changes hands, and the number of live holders of a
  domain never exceeds its slots, however the processes interleave.
\<close>

definition owned_slot :: "string \<Rightarrow> blob \<Rightarrow> bool" where
  "owned_slot owner b \<longleftrightarrow> (\<exists>p. b = Json (JObj p) \<and> dget p ''owner'' JNull = JStr owner)"

lemma sorted_lookup:
  "dget (as_dict (jsort (JObj kvs))) k JNull = jsort (dget kvs k JNull)"
  using dget_as_dict_jsort [of kvs k JNull] by simp

lemma owned_slot_payload:
  "owned_slot (lp_owner pool) (dumps_sorted (JObj (payload_fields env pool domain st ex now)))"
proof -
  let ?p = "as_dict (jsort (JObj (payload_fields env pool domain st ex now)))"
  have "dget ?p ''owner'' JNull = JStr (lp_owner pool)"
    unfolding sorted_lookup by (simp add: payload_fields_def self_metadata_def opt_json_def Let_def dget_def)
  then show ?thesis by (auto simp: owned_slot_def dumps_sorted_def)
qed

lemma slot_expiry_payload:
  "fst (slot_expiry (dumps_sorted (JObj (payload_fields env pool domain st ex now))) t) \<longleftrightarrow> ex \<le> t"
proof -
  let ?p = "as_dict (jsort (JObj (payload_fields env pool domain st ex now)))"
  have "dget ?p ''expires_at'' JNull = JTime (Aware ex)"
    unfolding sorted_lookup by (simp add: payload_fields_def Let_def dget_def)
  then show ?thesis by (simp add: slot_expiry_def dumps_sorted_def Let_def)
qed

lemma owned_slot_unique: "owned_slot a b \<Longrightarrow> owned_slot a' b \<Longrightarrow> a = a'"
  by (auto simp: owned_slot_def)

inductive slot_edge :: "string \<Rightarrow> instant \<Rightarrow> blob option \<Rightarrow> blob \<Rightarrow> bool" for owner :: string where
  slot_claim: "(\<And>b. old = Some b \<Longrightarrow> fst (slot_expiry b t)) \<Longrightarrow> owned_slot owner d \<Longrightarrow> slot_edge owner t old d"
| slot_own: "owned_slot owner b \<Longrightarrow> owned_slot owner d \<Longrightarrow> slot_edge owner t (Some b) d"

definition slot_rule :: "string set \<Rightarrow> string \<Rightarrow> instant \<Rightarrow> string \<Rightarrow> blob option \<Rightarrow> blob \<Rightarrow> bool" where
  "slot_rule keys owner t k old d \<longleftrightarrow> k \<in> keys \<and> (\<exists>t0 \<le> t. slot_edge owner t0 old d)"

lemma discipline_slot_rule: "discipline (slot_rule keys owner)"
  unfolding discipline_def slot_rule_def by (blast intro: order_trans)

lemma slot_ruleI: "k \<in> keys \<Longrightarrow> slot_edge owner t0 old d \<Longrightarrow> t0 \<le> t \<Longrightarrow> slot_rule keys owner t k old d"
  unfolding slot_rule_def by blast

text \<open>The keys a pool's configuration allows, and the leases it may hold.\<close>

definition pool_keys :: "lease_pool \<Rightarrow> string set" where
  "pool_keys pool = {slot_key pool d i | d i rule. map_of (lp_rules pool) d = Some rule \<and> 0 \<le> i \<and> i < pr_slots rule}"

definition lease_by :: "lease_pool \<Rightarrow> provider_lease \<Rightarrow> bool" where
  "lease_by pool l \<longleftrightarrow> pl_key l = '''' \<or>
     pl_key l \<in> pool_keys pool \<and> (\<exists>b. pl_etag l = Some (ETag b) \<and> owned_slot (lp_owner pool) b)"

abbreviation pool_rule :: "lease_pool \<Rightarrow> instant \<Rightarrow> string \<Rightarrow> blob option \<Rightarrow> blob \<Rightarrow> bool" where
  "pool_rule pool \<equiv> slot_rule (pool_keys pool) (lp_owner pool)"

text \<open>Telemetry and waiting counts do not matter for the discipline.\<close>

definition same_pool :: "lease_pool \<Rightarrow> lease_pool \<Rightarrow> bool" where
  "same_pool p q \<longleftrightarrow> lp_prefix p = lp_prefix q \<and> lp_rules p = lp_rules q \<and> lp_owner p = lp_owner q \<and>
     lp_storage p = lp_storage q"

lemma same_pool_refl [simp]: "same_pool p p" by (simp add: same_pool_def)

lemma same_pool_trans: "same_pool p q \<Longrightarrow> same_pool q r \<Longrightarrow> same_pool p r"
  by (simp add: same_pool_def)

lemma same_pool_counters [simp]:
  "same_pool p (record_acquisition d w q) = same_pool p q" "same_pool p (increment_stale d q) = same_pool p q"
  "same_pool p (increment_renewals d q) = same_pool p q" "same_pool p (add_waiting n d q) = same_pool p q"
  by (simp_all add: same_pool_def record_acquisition_def increment_stale_def increment_renewals_def bump_def
      add_waiting_def Let_def)

lemma same_pool_facts:
  assumes "same_pool p q"
  shows "slot_key q d i = slot_key p d i" "pool_keys q = pool_keys p" "lp_owner q = lp_owner p"
    "lp_rules q = lp_rules p" "lp_storage q = lp_storage p" "slot_scan_offset sha q d n = slot_scan_offset sha p d n"
    "lease_by q l = lease_by p l"
  using assms
  by (auto simp: same_pool_def slot_key_def domain_prefix_def pool_keys_def lease_by_def slot_scan_offset_def)

lemma safe_payload:
  assumes "\<And>t' d. t \<le> t' \<Longrightarrow> owned_slot (lp_owner pool) d \<Longrightarrow> Q t' (Inr d)"
  shows "safe R Q (slot_payload env pool domain rule) t" and "safe R Q (released_payload env pool domain) t"
  unfolding slot_payload_def released_payload_def encode_payload_def utc_now_def
  by (auto intro!: assms owned_slot_payload)

definition got_lease :: "lease_pool \<Rightarrow> instant \<Rightarrow> exn + (provider_lease \<times> lease_pool) option \<Rightarrow> bool" where
  "got_lease pool t r = (\<forall>l p. r = Inr (Some (l, p)) \<longrightarrow> lease_by pool l \<and> same_pool pool p)"

lemma safe_try_slots:
  assumes "\<And>i. i \<in> set idx \<Longrightarrow> slot_key pool domain i \<in> pool_keys pool" and "now \<le> t"
  shows "safe (pool_rule pool) (got_lease pool) (try_slots env pool domain rule started now idx) t"
  using assms
proof (induction idx arbitrary: t)
  case (Cons i idx)
  let ?k = "slot_key pool domain i"
  have k: "?k \<in> pool_keys pool" using Cons.prems(1) by simp
  have rest: "safe (pool_rule pool) (got_lease pool) (try_slots env pool domain rule started now idx) t'"
    if "t \<le> t'" for t'
    using Cons that by simp
  have finish: "safe (pool_rule pool) (got_lease pool)
      (bind (finish_acquire p domain ?k (ETag d) rule started) (\<lambda>r. Ret (Some r))) t'"
    if "same_pool pool p" and "owned_slot (lp_owner pool) d" for p d t'
    using that k by (auto simp: finish_acquire_def utc_now_def got_lease_def lease_by_def Let_def)
  have claim: "safe (pool_rule pool) (got_lease pool)
      (bind (try_claim_slot env pool ?k domain rule cnd) (\<lambda>won.
         case won of
           Some etag \<Rightarrow> bind (finish_acquire p domain ?k etag rule started) (\<lambda>r. Ret (Some r))
         | None \<Rightarrow> try_slots env pool domain rule started now idx)) t"
    if "cnd = IfNoneMatch \<or> (\<exists>b. cnd = IfMatch (ETag b) \<and> fst (slot_expiry b now))" and "same_pool pool p" for cnd p
  proof -
    have legal: "cond_legal (pool_rule pool) t' ?k cnd d" if "t \<le> t'" "owned_slot (lp_owner pool) d" for t' d
      using \<open>cnd = _ \<or> _\<close> that k Cons.prems(2)
      by (auto simp: cond_legal_def intro!: slot_ruleI [where ?t0.0 = now] slot_claim)
    show ?thesis
      unfolding try_claim_slot_def bind_assoc
      by (rule safe_bind, rule safe_payload)
         (auto intro!: safe_bind [OF safe_try_put] legal rest finish \<open>same_pool pool p\<close>
            simp: got_lease_def [of _ _ "Inl _"])
  qed
  show ?case
    unfolding try_slots.simps Let_def
    by (rule safe_bind, rule safe_get_bytes)
       (auto simp: reply_ok_def got_lease_def [of _ _ "Inl _"] intro!: claim rest split: sum.splits option.splits)
qed (simp add: got_lease_def)

lemma slot_order_range: "i \<in> set (slot_order sha pool domain n) \<Longrightarrow> 0 \<le> i \<and> i < n"
  by (auto simp: slot_order_def)

lemma safe_try_one_pass:
  assumes "map_of (lp_rules pool) domain = Some rule"
  shows "safe (pool_rule pool) (got_lease pool) (try_one_pass env sha pool domain rule started) t"
proof -
  have "slot_key pool domain i \<in> pool_keys pool" if "i \<in> set (slot_order sha pool domain (pr_slots rule))" for i
    using slot_order_range [OF that] assms unfolding pool_keys_def by blast
  then show ?thesis
    by (auto simp: try_one_pass_def utc_now_def intro!: safe_try_slots)
qed

definition got_acquired :: "lease_pool \<Rightarrow> exn + ((exn + provider_lease) \<times> lease_pool) option \<Rightarrow> bool" where
  "got_acquired pool r = (\<forall>q p. r = Inr (Some (q, p)) \<longrightarrow> same_pool pool p \<and> (\<forall>l. q = Inr l \<longrightarrow> lease_by pool l))"

lemma safe_acquire_passes:
  assumes "\<And>f t. stop = Some f \<Longrightarrow> safe (pool_rule pool) any_result f t" and "same_pool pool p"
  shows "safe (pool_rule pool) (\<lambda>_. got_acquired pool) (acquire_passes env sha stop domain started fuel counted p) t"
  using assms(2)
proof (induction fuel arbitrary: counted p t)
  case (Suc fuel)
  define st where "st = (case stop of None \<Rightarrow> Ret False | Some f \<Rightarrow> f)"
  have st: "safe (pool_rule pool) any_result st t'" for t'
    by (simp add: st_def assms(1) split: option.split)
  define p' where "p' = (if counted then p else add_waiting 1 domain p)"
  have p': "same_pool pool p'" using Suc.prems by (simp add: p'_def)
  note same = same_pool_facts [OF Suc.prems] same_pool_facts [OF p']
  have body: "safe (pool_rule pool) (\<lambda>_. got_acquired pool)
      (bind (attempt (try_one_pass env sha p' domain rule started)) (\<lambda>r.
         case r of
           Inl e \<Rightarrow> Ret (Some (Inl e, add_waiting (- 1) domain p'))
         | Inr (Some (l, p'')) \<Rightarrow> Ret (Some (Inr l, add_waiting (- 1) domain p''))
         | Inr None \<Rightarrow> acquire_passes env sha stop domain started fuel True p')) t'"
    if "map_of (lp_rules p) domain = Some rule" for rule t'
  proof -
    have "safe (pool_rule pool) (got_lease p') (try_one_pass env sha p' domain rule started) t'"
      using safe_try_one_pass [of p' domain rule env sha started t'] that same by simp
    then show ?thesis
    proof (rule safe_bind [OF safe_attempt [OF safe_conseq]])
      fix t1 :: instant and r assume "got_lease p' t1 r"
      then show "case Inr r of
          Inl e \<Rightarrow> got_acquired pool (Inl e)
        | Inr a \<Rightarrow> safe (pool_rule pool) (\<lambda>_. got_acquired pool)
            (case a of
               Inl e \<Rightarrow> Ret (Some (Inl e, add_waiting (- 1) domain p'))
             | Inr (Some (l, p'')) \<Rightarrow> Ret (Some (Inr l, add_waiting (- 1) domain p''))
             | Inr None \<Rightarrow> acquire_passes env sha stop domain started fuel True p') t1"
        using Suc.IH [OF p', of True t1] p' same
        by (auto simp: got_lease_def got_acquired_def [of pool "Inr _"] split: sum.splits option.splits
            intro: same_pool_trans)
    qed
  qed
  show ?case
    unfolding acquire_passes.simps st_def [symmetric] p'_def [symmetric] Let_def
    by (rule safe_bind_post [OF safe_attempt_any [OF st]])
       (use Suc.prems body in \<open>auto simp: got_acquired_def [of pool "Inr _"] got_acquired_def [of pool "Inl _"] no_op_lease_def lease_by_def
          split: sum.split bool.split option.splits if_splits\<close>)
qed (simp add: got_acquired_def)

lemma safe_provider_acquire:
  assumes "\<And>f t. stop = Some f \<Longrightarrow> safe (pool_rule pool) any_result f t" and "same_pool pool p"
  shows "safe (pool_rule pool) (\<lambda>_. got_acquired pool) (provider_acquire env sha stop domain fuel p) t"
  using safe_acquire_passes [OF assms] by (simp add: provider_acquire_def utc_now_def)

lemma safe_write_own:
  assumes "lease_by pool l" and "pl_key l \<noteq> ''''" and "same_pool pool p"
    and "\<And>t' b. t \<le> t' \<Longrightarrow> owned_slot (lp_owner pool) b \<Longrightarrow> Q t' (Inr (ETag b))"
    and "\<And>t' e. t \<le> t' \<Longrightarrow> Q t' (Inl e)"
  shows "safe (pool_rule pool) Q
       (bind (slot_payload env p (pl_domain l) rule) (\<lambda>d. put_cas (pl_key l) d (etag_cond (pl_etag l)))) t"
    and "safe (pool_rule pool) Q
       (bind (released_payload env p (pl_domain l)) (\<lambda>d. put_cas (pl_key l) d (etag_cond (pl_etag l)))) t"
proof -
  have legal: "cond_legal (pool_rule pool) t' (pl_key l) (etag_cond (pl_etag l)) d"
    if "owned_slot (lp_owner pool) d" for t' d
    using assms(1,2) that
    by (auto simp: lease_by_def cond_legal_def etag_cond_def slot_rule_def intro!: exI [of _ t'] slot_own)
  show "safe (pool_rule pool) Q
       (bind (slot_payload env p (pl_domain l) rule) (\<lambda>d. put_cas (pl_key l) d (etag_cond (pl_etag l)))) t"
    and "safe (pool_rule pool) Q
       (bind (released_payload env p (pl_domain l)) (\<lambda>d. put_cas (pl_key l) d (etag_cond (pl_etag l)))) t"
    using same_pool_facts(3) [OF assms(3)]
    by (auto intro!: safe_bind [OF safe_payload(1)] safe_bind [OF safe_payload(2)] safe_put_cas legal assms(4,5))
qed

lemma safe_provider_release:
  assumes "lease_by pool l" and "same_pool pool p"
  shows "safe (pool_rule pool) any_result (provider_release env p l) t"
proof (cases "pl_key l = ''''")
  case False
  show ?thesis
    unfolding provider_release_def
    by (auto intro!: safe_bind_any safe_attempt_any safe_write_own(2) [OF assms(1) False assms(2)]
        simp del: attempt_bind)
qed (simp add: provider_release_def)

lemma safe_release_leases:
  assumes "\<And>l. l \<in> set ls \<Longrightarrow> lease_by pool l" and "same_pool pool p"
  shows "safe (pool_rule pool) any_result (release_leases env p ls) t"
  using assms by (induction ls arbitrary: t) (auto intro!: safe_bind_any safe_provider_release)

lemma safe_renew_step:
  assumes "lease_by pool l" and "pl_key l \<noteq> ''''"
  shows "safe (pool_rule pool) (\<lambda>_ r. \<forall>l' p b. r = Inr (l', p, b) \<longrightarrow> lease_by pool l' \<and> same_pool pool p)
     (renew_step env pool l) t"
proof -
  have key: "pl_key l \<in> pool_keys pool" using assms by (auto simp: lease_by_def)
  show ?thesis
    unfolding renew_step_def
    using assms key
    by (auto intro!: safe_bind [OF safe_attempt] safe_write_own(1) [OF assms same_pool_refl]
        simp: lease_by_def simp del: attempt_bind split: option.split bool.split)
qed

lemma safe_enter_slots:
  assumes "\<And>f t. stop = Some f \<Longrightarrow> safe (pool_rule pool) any_result f t" and "same_pool pool p"
    and "\<And>l. l \<in> set ls \<Longrightarrow> lease_by pool l"
  shows "safe (pool_rule pool) any_result (enter_slots env sha stop fuel ds ls p) t"
  using assms(2,3)
proof (induction ds arbitrary: ls p t)
  case (Cons d ds ls p t)
  show ?case
    unfolding enter_slots.simps
  proof (rule safe_bind, rule safe_conseq [OF safe_provider_acquire [OF assms(1) Cons.prems(1)]])
    fix t1 :: instant and r assume t1: "t \<le> t1" and "got_acquired pool r"
    then show "case r of
        Inl e \<Rightarrow> True
      | Inr a \<Rightarrow> safe (pool_rule pool) any_result
          (case a of None \<Rightarrow> Ret None
           | Some (Inl e, pool') \<Rightarrow> bind (release_leases env pool' (rev ls)) (\<lambda>_. Ret (Some (Inl e, pool')))
           | Some (Inr l, pool') \<Rightarrow> enter_slots env sha stop fuel ds (ls @ [l]) pool') t1"
      using Cons.prems
      by (auto simp: got_acquired_def split: sum.splits option.splits
          intro!: Cons.IH safe_bind_any safe_release_leases)
  qed
qed simp

inductive provider_program :: "lease_pool \<Rightarrow> unit io \<Rightarrow> bool" for pool :: lease_pool where
  prog_enter: "provider_program pool (forget (enter_slots env sha None fuel ds [] pool))"
| prog_renew: "lease_by pool l \<Longrightarrow> pl_key l \<noteq> '''' \<Longrightarrow> provider_program pool (forget (renew_step env pool l))"
| prog_exit: "(\<And>l. l \<in> set ls \<Longrightarrow> lease_by pool l) \<Longrightarrow> provider_program pool (release_leases env pool (rev ls))"

lemma provider_program_safe: "provider_program pool p \<Longrightarrow> safe (pool_rule pool) any_result p t"
proof (induction rule: provider_program.induct)
  case (prog_renew l env)
  show ?case
    unfolding forget_def
    by (rule safe_bind, rule safe_conseq [OF safe_renew_step [OF prog_renew]]) (simp split: sum.split)
qed (unfold forget_def, auto intro!: safe_bind_any safe_enter_slots safe_release_leases)

subsection \<open>The properties\<close>

text \<open>
  C6: no live slot is taken over. A slot object held by one pool, with its expiry in the future, is
  not replaced by any other pool's acquisitions, renewals or releases before that expiry, in any
  interleaving.
\<close>

theorem provider_slot_exclusive:
  assumes store: "cas_store ops view" and clients: "\<And>i p. launch i p \<Longrightarrow> provider_program (pools i) p"
    and idle: "all_idle S0" and held: "sys_reach ops launch S0 S" and later: "sys_reach ops launch S S'"
    and slot: "view (sys_store S) k = Some b" "owned_slot owner b"
    and live: "\<not> fst (slot_expiry b (sys_time S'))" and others: "\<And>i. lp_owner (pools i) \<noteq> owner"
  shows "view (sys_store S') k = Some b"
proof -
  let ?I = "\<lambda>t v. \<not> fst (slot_expiry b t) \<longrightarrow> v k = Some b"
  have mono: "fst (slot_expiry b t')" if "t \<le> t'" "fst (slot_expiry b t)" for t t'
    using that by (auto simp: slot_expiry_def Let_def split: sum.splits json.splits option.splits if_splits)
  have edge: "\<not> slot_edge (lp_owner (pools i)) t0 (Some b) d"
    if "t0 \<le> t" "\<not> fst (slot_expiry b t)" for i t0 t d
    using that others [of i] slot(2) mono owned_slot_unique by (auto elim!: slot_edge.cases)
  have trans: "?I t v'" if "write_step (pool_rule (pools i)) t v v'" and "?I t v" for i t v v'
    using that edge by (fastforce simp: write_step_def slot_rule_def)
  have init: "?I (sys_time S) (view (sys_store S))"
    using slot by simp
  have time: "?I t' v" if "t \<le> t'" and "?I t v" for t t' :: instant and v :: bucket
    using that mono by blast
  have safe: "\<And>i p t. launch i p \<Longrightarrow> safe (pool_rule (pools i)) any_result p t"
    by (rule provider_program_safe [OF clients])
  have procs: "safe (pool_rule (pools i)) any_result (sys_proc S i) (sys_time S)" for i
    by (rule cas_store.reach_safe [OF store held idle discipline_slot_rule safe])
  have "?I (sys_time S') (view (sys_store S')) \<and>
      (\<forall>i. safe (pool_rule (pools i)) any_result (sys_proc S' i) (sys_time S'))"
    using later procs discipline_slot_rule safe init time trans
    by (rule cas_store.reach_invariant_from [OF store, where R = "\<lambda>i. pool_rule (pools i)"])
  with live show ?thesis by simp
qed

text \<open>Slots free for claiming at time \<open>t\<close>.\<close>

definition slot_free :: "blob option \<Rightarrow> instant \<Rightarrow> bool" where
  "slot_free c t = (case c of None \<Rightarrow> True | Some b \<Rightarrow> fst (slot_expiry b t))"

lemma slot_order_set: "0 < n \<Longrightarrow> set (slot_order sha pool d n) = {0..<n}"
proof -
  assume n: "0 < n"
  let ?o = "slot_scan_offset sha pool d n"
  have "i \<in> set (slot_order sha pool d n)" if "0 \<le> i" "i < n" for i
  proof -
    let ?j = "nat ((i - ?o) mod n)"
    have "(?o + int ?j) mod n = i"
      using that n by (simp add: mod_add_right_eq)
    moreover have "?j \<in> {0..<nat n}" using n by (simp add: nat_less_iff)
    ultimately show ?thesis unfolding slot_order_def by (auto simp: image_iff intro!: bexI [of _ ?j])
  qed
  then show ?thesis using n by (auto dest: slot_order_range)
qed

lemma run_try_slots:
  assumes "reliable_store ops view (\<lambda>_. True)"
    and "run ops t (try_slots env pool d rule started t idx) s = (r, s')"
  shows "case find (\<lambda>i. slot_free (view s (slot_key pool d i)) t) idx of
      None \<Rightarrow> r = Inr None \<and> view s' = view s
    | Some i \<Rightarrow> \<exists>l p b. r = Inr (Some (l, p)) \<and> pl_domain l = d \<and> pl_key l = slot_key pool d i \<and>
        pl_etag l = Some (ETag b) \<and> owned_slot (lp_owner pool) b \<and>
        (fst (slot_expiry b t) \<longleftrightarrow> timedelta_us (pr_ttl_seconds rule) \<le> 0) \<and>
        view s' = (view s)(slot_key pool d i := Some b)"
  using assms(2)
proof (induction idx arbitrary: s)
  case (Cons i idx)
  let ?k = "slot_key pool d i"
  let ?b = "dumps_sorted (JObj (payload_fields env pool d ''acquired''
      (t + timedelta_us (pr_ttl_seconds rule)) t))"
  obtain s1 where r1: "op_get ops s ?k = (Inr (map_option (\<lambda>b. (b, ETag b)) (view s ?k)), s1)"
    and v1: "view s1 = view s"
    using reliable_store.get_cases [OF assms(1) TrueI] by blast
  have pay: "run ops t (slot_payload env pool d rule) s1 = (Inr ?b, s1)"
    by (simp add: slot_payload_def encode_payload_def utc_now_def)
  show ?case
  proof (cases "slot_free (view s ?k) t")
    case False
    then have "run ops t (try_slots env pool d rule started t idx) s1 = (r, s')"
      using Cons.prems r1 by (cases "view s ?k") (auto simp: slot_free_def io_simps Let_def)
    from Cons.IH [OF this, unfolded v1] False show ?thesis by simp
  next
    case True
    have "cond_holds (cond_of (map_option ETag (view s ?k))) (view s1 ?k)"
      by (simp add: v1 cond_holds_current)
    then obtain s2 where r2: "op_put ops s1 ?k ?b (cond_of (map_option ETag (view s ?k))) = (Inr (ETag ?b), s2)"
      and v2: "view s2 = (view s)(?k := Some ?b)"
      using reliable_store.put_cases [OF assms(1) TrueI] v1 by metis
    have "\<exists>l p. r = Inr (Some (l, p)) \<and> pl_domain l = d \<and> pl_key l = ?k \<and> pl_etag l = Some (ETag ?b) \<and> s' = s2"
      using Cons.prems r1 r2 True pay
      by (cases "view s ?k")
         (auto simp: slot_free_def io_simps try_claim_slot_def try_put_def cond_of_def finish_acquire_def
            utc_now_def Let_def)
    with True v2 show ?thesis
      by (auto simp: owned_slot_payload slot_expiry_payload)
  qed
qed simp

text \<open>
  one acquisition pass on a store that answers. It takes the first free or expired slot in the
  worker's own order, writing a live payload under the pool's identity to that slot only; it reports
  nothing, without a write, exactly when every one of the N slots is held by a live worker.
\<close>

theorem one_pass_outcome:
  assumes "reliable_store ops view (\<lambda>_. True)" and "0 < pr_slots rule" and "0 < timedelta_us (pr_ttl_seconds rule)"
    and "run ops t (try_one_pass env sha pool d rule started) s = (r, s')"
  shows "case find (\<lambda>i. slot_free (view s (slot_key pool d i)) t) (slot_order sha pool d (pr_slots rule)) of
      None \<Rightarrow> r = Inr None \<and> view s' = view s \<and>
        (\<forall>i. 0 \<le> i \<longrightarrow> i < pr_slots rule \<longrightarrow> \<not> slot_free (view s (slot_key pool d i)) t)
    | Some i \<Rightarrow> 0 \<le> i \<and> i < pr_slots rule \<and> slot_free (view s (slot_key pool d i)) t \<and>
        (\<exists>l p b. r = Inr (Some (l, p)) \<and> pl_key l = slot_key pool d i \<and> pl_etag l = Some (ETag b) \<and>
          owned_slot (lp_owner pool) b \<and> \<not> fst (slot_expiry b t) \<and>
          view s' = (view s)(slot_key pool d i := Some b))"
proof -
  have run: "run ops t (try_slots env pool d rule started t (slot_order sha pool d (pr_slots rule))) s = (r, s')"
    using assms(4) by (simp add: try_one_pass_def utc_now_def)
  let ?f = "find (\<lambda>i. slot_free (view s (slot_key pool d i)) t) (slot_order sha pool d (pr_slots rule))"
  note out = run_try_slots [OF assms(1) run] and range = slot_order_set [OF assms(2), of sha pool d]
  show ?thesis
  proof (cases ?f)
    case None
    then have "\<forall>i \<in> {0..<pr_slots rule}. \<not> slot_free (view s (slot_key pool d i)) t"
      unfolding range [symmetric] by (auto simp: find_None_iff)
    with None out show ?thesis by simp
  next
    case (Some i)
    then have "i \<in> {0..<pr_slots rule}" and "slot_free (view s (slot_key pool d i)) t"
      unfolding range [symmetric] by (auto simp: find_Some_iff)
    with Some out assms(3) show ?thesis by fastforce
  qed
qed

text \<open>
  releasing a slot never raises, whatever the store does, and a lease that was never granted or
  was observed lost is not written at all.
\<close>

theorem provider_release_quiet:
  "fst (run ops t (provider_release env pool l) s) = Inr () \<and>
   (pl_key l = '''' \<or> pl_lost l \<longrightarrow> run ops t (provider_release env pool l) s = (Inr (), s))"
  by (simp add: provider_release_def run_bind run_attempt del: attempt_bind split: prod.split)

text \<open>
  a configured rule always has at least one slot, a positive time to live and poll interval and a
  renewal interval between 0.05 and 60 seconds, so a holder whose time to live is at least 0.15 seconds
  renews three times within it.
\<close>

theorem parsed_rule_sane:
  assumes "parse_rule raw = Some rule"
  shows "0 < pr_slots rule \<and> 0 < pr_ttl_seconds rule \<and> 0 < pr_poll_seconds rule \<and> 0 \<le> pr_settle_seconds rule \<and>
    5 / 100 \<le> renew_interval rule \<and> renew_interval rule \<le> 60 \<and>
    (15 / 100 \<le> pr_ttl_seconds rule \<longrightarrow> 3 * renew_interval rule \<le> pr_ttl_seconds rule)"
proof -
  have "0 < pr_slots rule \<and> 0 < pr_ttl_seconds rule \<and> 0 < pr_poll_seconds rule \<and> 0 \<le> pr_settle_seconds rule"
    using assms by (cases raw) (auto simp: parse_rule_def split: sum.splits if_splits)
  moreover have "5 / 100 \<le> renew_interval rule \<and> renew_interval rule \<le> 60"
    by (simp add: renew_interval_def)
  moreover have "15 / 100 \<le> pr_ttl_seconds rule \<longrightarrow> 3 * renew_interval rule \<le> pr_ttl_seconds rule"
    by (auto simp: renew_interval_def max_def min_def)
  ultimately show ?thesis by blast
qed

theorem parsed_rule_sane_witness:
  "parse_rule (JInt 6) \<noteq> None \<and> 3 * renew_interval (the (parse_rule (JInt 6))) \<le> 3600"
  using parsed_rule_sane [of "JInt 6"] by (simp add: parse_rule_def)

text \<open>
  the domain a host is limited under is a configured one that equals the host or is a dot-suffix of
  it, and no longer configured domain matches; there is none only when no configured domain matches.
\<close>

theorem key_for_longest_match:
  "case key_for pool host of
     Some k \<Rightarrow> k \<in> fst ` set (lp_rules pool) \<and> host_matches (py_lower host) k \<and>
       (\<forall>k' \<in> fst ` set (lp_rules pool). host_matches (py_lower host) k' \<longrightarrow> length k' \<le> length k)
   | None \<Rightarrow> (\<forall>k' \<in> fst ` set (lp_rules pool). \<not> host_matches (py_lower host) k')"
proof -
  let ?M = "host_matches (py_lower host)"
  let ?step = "\<lambda>(key, _) best. if ?M key
      then (case best of None \<Rightarrow> Some key | Some b \<Rightarrow> if length b < length key then Some key else best) else best"
  define good where "good = (\<lambda>K best. case best of
      Some k \<Rightarrow> k \<in> K \<and> ?M k \<and> (\<forall>k' \<in> K. ?M k' \<longrightarrow> length k' \<le> length k)
    | None \<Rightarrow> (\<forall>k' \<in> K. \<not> ?M k'))"
  have "good (K \<union> fst ` set rs) (fold ?step rs best)" if "good K best" for K best
    and rs :: "(string \<times> lease_rule_config) list"
    using that
  proof (induction rs arbitrary: K best)
    case (Cons r rs)
    obtain k v where r: "r = (k, v)" by fastforce
    have "good (insert k K) (?step r best)"
      using Cons.prems by (auto simp: good_def r split: option.splits)
    from Cons.IH [OF this] show ?case by (simp add: r)
  qed simp
  from this [of "{}" None "lp_rules pool"] show ?thesis
    by (auto simp: good_def key_for_def Let_def split: option.splits)
qed

text \<open>
  the cap. Whatever the objects of a domain are, the owners that hold a live slot among the N slots
  that acquisition can ever grant number at most N.
\<close>

theorem live_owners_capped:
  assumes "\<And>owner. owner \<in> holders \<Longrightarrow> \<exists>i b. 0 \<le> i \<and> i < pr_slots rule \<and>
      v (slot_key pool d i) = Some b \<and> owned_slot owner b \<and> \<not> fst (slot_expiry b t)"
  shows "finite holders \<and> int (card holders) \<le> max 0 (pr_slots rule)"
proof -
  obtain f where f: "\<And>o'. o' \<in> holders \<Longrightarrow> 0 \<le> f o' \<and> f o' < pr_slots rule \<and>
      (\<exists>b. v (slot_key pool d (f o')) = Some b \<and> owned_slot o' b)"
    using assms by metis
  have inj: "inj_on f holders"
    by (rule inj_onI) (metis f option.inject owned_slot_unique)
  have sub: "f ` holders \<subseteq> {0..<pr_slots rule}" using f by auto
  have "card holders \<le> card {0..<pr_slots rule}"
    using card_mono [OF _ sub] card_image [OF inj] by simp
  moreover have "finite holders"
    using finite_subset [OF sub] inj by (simp add: finite_image_iff)
  ultimately show ?thesis by auto
qed

subsection \<open>Concrete pools\<close>

definition demo_pool :: "string \<Rightarrow> lease_pool" where
  "demo_pool owner = configure \<lparr>lp_prefix = ''provider-leases'', lp_storage = False, lp_rules = [], lp_owner = owner,
     lp_shard = None, lp_telemetry = [], lp_waiting = []\<rparr> (Some (True, True)) [(''granicus.com'', JInt 2)] None"

definition demo_slot :: blob where
  "demo_slot = dumps_sorted (JObj (payload_fields (\<lambda>_. None) (demo_pool ''h1'') ''granicus.com'' ''acquired'' 3600000000 0))"

definition demo_rule :: lease_rule_config where
  "demo_rule = \<lparr>pr_slots = 2, pr_ttl_seconds = 3600, pr_poll_seconds = 2, pr_settle_seconds = 1 / 4\<rparr>"

lemma demo_pool_facts:
  "lp_owner (demo_pool owner) = owner" "lp_rules (demo_pool owner) = [(''granicus.com'', demo_rule)]"
  by (simp_all add: demo_pool_def configure_def parse_rule_def demo_rule_def py_lower_def py_strip_def
      lower_char_def is_space_def Let_def)

lemma demo_slot_facts: "owned_slot ''h1'' demo_slot" "fst (slot_expiry demo_slot t) \<longleftrightarrow> 3600000000 \<le> t"
  using owned_slot_payload [of "demo_pool ''h1''"]
  by (simp_all add: demo_slot_def slot_expiry_payload demo_pool_facts)

definition demo_enter :: "unit io" where
  "demo_enter = forget (enter_slots (\<lambda>_. None) (\<lambda>_. 0) None 1 [''granicus.com''] [] (demo_pool ''h2''))"

definition demo_slot_run :: "(bucket, unit) sys" where
  "demo_slot_run = fold (perform r2_bucket) [Wait 60000000, Begin 1 demo_enter, Proceed 1, Proceed 1, Proceed 1, Proceed 1]
     (idle_system (\<lambda>_. Some demo_slot) 0)"

theorem provider_slot_exclusive_witness:
  "sys_store demo_slot_run (slot_key (demo_pool ''h1'') ''granicus.com'' 0) = Some demo_slot"
proof -
  have reach: "sys_reach r2_bucket (\<lambda>_ p. p = demo_enter) (idle_system (\<lambda>_. Some demo_slot) 0) demo_slot_run"
    unfolding demo_slot_run_def by (rule schedule_reach) (auto simp: begins_def)
  have time: "sys_time demo_slot_run = 60000000"
    by (simp add: demo_slot_run_def perform_time del: perform.simps)
  show ?thesis
    by (rule provider_slot_exclusive [where view = "\<lambda>s. s" and pools = "\<lambda>_. demo_pool ''h2''" and owner = "''h1''",
          OF r2_store _ _ reach_refl reach])
       (simp_all add: demo_enter_def prog_enter demo_slot_facts time demo_pool_facts del: enter_slots.simps)
qed

theorem one_pass_outcome_witness:
  "run r2_bucket 0 (try_one_pass (\<lambda>_. None) (\<lambda>_. 0) (demo_pool ''h2'') ''granicus.com'' demo_rule 0)
     (\<lambda>_. Some demo_slot) = (Inr None, \<lambda>_. Some demo_slot)"
proof -
  have busy: "\<not> slot_free (Some demo_slot) 0" by (simp add: slot_free_def demo_slot_facts)
  have ttl: "0 < timedelta_us (pr_ttl_seconds demo_rule)" "0 < pr_slots demo_rule"
    by (simp_all add: demo_rule_def timedelta_us_def round_half_even_def)
  have none: "find (\<lambda>i. slot_free (Some demo_slot) 0) xs = None" for xs :: "int list"
    using busy by (simp add: find_None_iff)
  show ?thesis
    using one_pass_outcome [where view = "\<lambda>s. s" and s = "\<lambda>_. Some demo_slot" and t = 0 and env = "\<lambda>_. None"
        and sha = "\<lambda>_. 0" and pool = "demo_pool ''h2''" and d = "''granicus.com''" and started = 0,
        OF r2_reliable ttl(2,1) prod.collapse [symmetric]]
    by (simp add: none prod_eq_iff)
qed

theorem live_owners_capped_witness:
  "owned_slot ''h1'' demo_slot \<and> int (card {''h1''}) \<le> pr_slots demo_rule"
  using live_owners_capped [of "{''h1''}" demo_rule "\<lambda>_. Some demo_slot" "demo_pool ''h1''" "''granicus.com''" 0]
  by (auto simp: demo_rule_def demo_slot_facts intro: exI [of _ 0])

theorem key_for_longest_match_witness:
  "key_for (demo_pool ''h1'') ''Denton.Granicus.com'' = Some ''granicus.com''"
proof -
  have "host_matches (py_lower ''Denton.Granicus.com'') ''granicus.com''" by code_simp
  then show ?thesis
    using key_for_longest_match [of "demo_pool ''h1''" "''Denton.Granicus.com''"]
    by (auto simp: demo_pool_facts split: option.splits)
qed

theorem provider_release_quiet_witness:
  "run r2_bucket 0 (provider_release (\<lambda>_. None) (demo_pool ''h1'') (no_op_lease ''granicus.com'' None)) (\<lambda>_. None) =
     (Inr (), \<lambda>_. None)"
  using provider_release_quiet [of r2_bucket 0 "\<lambda>_. None" "demo_pool ''h1''" "no_op_lease ''granicus.com'' None"]
  by (simp add: no_op_lease_def)

end
