(* ===== verification/Compute_Budget.thy ===== *)
theory Compute_Budget
  imports Store_IO
begin

section \<open>The free-tier compute budget\<close>

text \<open>
  \<open>citypods/compute/budget.py\<close>: per backend, what has been spent in the provider's billing cycle and
  what is reserved by jobs in flight. The \<open>Budget\<close> class is the record \<open>budget\<close>, each method a
  function from budget to budget; the durable ledger is one object, changed by compare-and-swap with
  bounded retries. A loaded budget reads the clock for its default month whether or not it needs it.
\<close>

definition BUDGET_STATE_KEY :: string where "BUDGET_STATE_KEY = ''state/compute_budget.json''"
definition BUDGET_SCHEMA_VERSION :: int where "BUDGET_SCHEMA_VERSION = 3"

subsection \<open>Months and billing cycles\<close>

definition month_key :: "instant \<Rightarrow> string" where
  "month_key now = (case civil_of now of (y, m, d) \<Rightarrow> dec_int y @ ''-'' @ zero_pad 2 m)"

definition anchor :: "int \<Rightarrow> int \<Rightarrow> int \<Rightarrow> int \<times> int \<times> int" where
  "anchor rollover year month = (year, month, min rollover (days_in_month year month))"

definition anchor_instant :: "int \<times> int \<times> int \<Rightarrow> instant" where
  "anchor_instant a = (case a of (y, m, d) \<Rightarrow> days_from_civil y m d * us_per_day)"

definition cycle_start :: "instant \<Rightarrow> int \<Rightarrow> int \<times> int \<times> int" where
  "cycle_start now rollover_day_of_month =
     (let rollover = max 1 (min 31 rollover_day_of_month) in
      case civil_of now of (year, month, _) \<Rightarrow>
        if anchor_instant (anchor rollover year month) \<le> now then anchor rollover year month
        else if month = 1 then anchor rollover (year - 1) 12
        else anchor rollover year (month - 1))"

definition cycle_key :: "instant \<Rightarrow> int \<Rightarrow> string" where
  "cycle_key now rollover_day_of_month =
     (case cycle_start now rollover_day_of_month of
        (y, m, d) \<Rightarrow> dec_int y @ ''-'' @ zero_pad 2 m @ ''-'' @ zero_pad 2 d)"

subsection \<open>The data\<close>

record runtime_estimate =
  re_seconds_per_audio_second :: rat
  re_samples :: int
  re_updated_at :: json
  re_last_estimated_seconds :: "rat option"
  re_last_actual_seconds :: "rat option"

definition observe_estimate ::
  "runtime_estimate \<Rightarrow> rat \<Rightarrow> rat option \<Rightarrow> rat \<Rightarrow> instant \<Rightarrow> runtime_estimate" where
  "observe_estimate e audio_seconds estimated_seconds actual_seconds now =
     (if audio_seconds \<le> 0 \<or> actual_seconds \<le> 0 then e
      else
        (let observed_ratio = actual_seconds / audio_seconds;
             alpha = (if re_samples e < 10 then 3 / 10 else 2 / 10)
         in e\<lparr>re_seconds_per_audio_second :=
                max 0 ((1 - alpha) * re_seconds_per_audio_second e + alpha * observed_ratio),
              re_samples := re_samples e + 1,
              re_updated_at := JTime (Aware now),
              re_last_estimated_seconds := estimated_seconds,
              re_last_actual_seconds := Some actual_seconds\<rparr>))"

record backend_ledger =
  bl_used_units :: rat
  bl_inflight :: "(string \<times> rat) list"
  bl_cycle_key :: string

definition empty_ledger :: backend_ledger where
  "empty_ledger = \<lparr>bl_used_units = 0, bl_inflight = [], bl_cycle_key = ''''\<rparr>"

definition inflight_count :: "backend_ledger \<Rightarrow> int" where
  "inflight_count l = int (length (bl_inflight l))"

record budget =
  bg_month :: string
  bg_backends :: "(string \<times> backend_ledger) list"
  bg_runtime_estimates :: "(string \<times> runtime_estimate) list"

definition empty_budget :: "string \<Rightarrow> budget" where
  "empty_budget month = \<lparr>bg_month = month, bg_backends = [], bg_runtime_estimates = []\<rparr>"

subsection \<open>Operations\<close>

definition put_ledger :: "string \<Rightarrow> backend_ledger \<Rightarrow> budget \<Rightarrow> budget" where
  "put_ledger backend l b = b\<lparr>bg_backends := AList.update backend l (bg_backends b)\<rparr>"

text \<open>\<open>cycle or self.month\<close>: an empty cycle counts as absent.\<close>

definition target_cycle :: "string option \<Rightarrow> budget \<Rightarrow> string" where
  "target_cycle cycle b = (case cycle of Some c \<Rightarrow> if c = '''' then bg_month b else c | None \<Rightarrow> bg_month b)"

text \<open>\<open>_ledger\<close>: the backend's ledger, zeroed when it belongs to another cycle; it is stored back.\<close>

definition current_ledger :: "string \<Rightarrow> string option \<Rightarrow> budget \<Rightarrow> backend_ledger \<times> budget" where
  "current_ledger backend cycle b =
     (let l = (case map_of (bg_backends b) backend of None \<Rightarrow> empty_ledger | Some l \<Rightarrow> l);
          target = target_cycle cycle b;
          l' = (if bl_cycle_key l \<noteq> target then l\<lparr>bl_used_units := 0, bl_inflight := []\<rparr> else l)
                 \<lparr>bl_cycle_key := target\<rparr>
      in (l', put_ledger backend l' b))"

definition roll_month :: "instant \<Rightarrow> budget \<Rightarrow> budget" where
  "roll_month now b = (if month_key now = bg_month b then b else b\<lparr>bg_month := month_key now\<rparr>)"

definition available :: "string \<Rightarrow> rat \<Rightarrow> int \<Rightarrow> rat \<Rightarrow> string option \<Rightarrow> budget \<Rightarrow> bool \<times> budget" where
  "available backend cap max_inflight est cycle b =
     (case current_ledger backend cycle b of
        (l, b') \<Rightarrow> (bl_used_units l + est \<le> cap \<and> inflight_count l < max_inflight, b'))"

definition reserve :: "string \<Rightarrow> string \<Rightarrow> rat \<Rightarrow> string option \<Rightarrow> budget \<Rightarrow> budget" where
  "reserve owner backend est cycle b =
     (case current_ledger backend cycle b of
        (l, b') \<Rightarrow> put_ledger backend
          (l\<lparr>bl_used_units := bl_used_units l + est, bl_inflight := AList.update owner est (bl_inflight l)\<rparr>) b')"

definition observe_runtime ::
  "string \<Rightarrow> rat \<Rightarrow> rat \<Rightarrow> rat option \<Rightarrow> rat option \<Rightarrow> instant \<Rightarrow> budget \<Rightarrow> budget" where
  "observe_runtime key audio_seconds actual_runtime_seconds estimated_runtime_seconds default_ratio now b =
     (let e = (case map_of (bg_runtime_estimates b) key of
                 Some e \<Rightarrow> e
               | None \<Rightarrow>
                   \<lparr>re_seconds_per_audio_second = max 0 (case default_ratio of
                        Some r \<Rightarrow> r
                      | None \<Rightarrow> if 0 < audio_seconds then actual_runtime_seconds / audio_seconds else 0),
                    re_samples = 0, re_updated_at = JNull, re_last_estimated_seconds = None,
                    re_last_actual_seconds = None\<rparr>)
      in b\<lparr>bg_runtime_estimates := AList.update key
             (observe_estimate e audio_seconds estimated_runtime_seconds actual_runtime_seconds now)
             (bg_runtime_estimates b)\<rparr>)"

definition runtime_seconds_per_audio_second :: "budget \<Rightarrow> string \<Rightarrow> rat \<Rightarrow> rat" where
  "runtime_seconds_per_audio_second b key default_ratio =
     (case map_of (bg_runtime_estimates b) key of
        None \<Rightarrow> default_ratio
      | Some e \<Rightarrow> max 0 (re_seconds_per_audio_second e))"

record settle_args =
  sa_actual :: "rat option"
  sa_cycle :: "string option"
  sa_estimate_key :: "string option"
  sa_audio_seconds :: "rat option"
  sa_actual_runtime :: "rat option"
  sa_estimated_runtime :: "rat option"

definition settle :: "string \<Rightarrow> string \<Rightarrow> settle_args \<Rightarrow> instant \<Rightarrow> budget \<Rightarrow> budget" where
  "settle owner backend a now b =
     (case map_of (bg_backends b) backend of
        None \<Rightarrow> b
      | Some l \<Rightarrow>
          if (case sa_cycle a of None \<Rightarrow> False | Some c \<Rightarrow> bl_cycle_key l \<noteq> c) then b
          else
            (case map_of (bl_inflight l) owner of
               None \<Rightarrow> b
             | Some reserved \<Rightarrow>
                 (let l' = l\<lparr>bl_inflight := AList.delete owner (bl_inflight l)\<rparr>;
                      l'' = (case sa_actual a of
                               None \<Rightarrow> l'
                             | Some actual \<Rightarrow> l'\<lparr>bl_used_units := max 0 (bl_used_units l' - reserved + actual)\<rparr>);
                      b' = put_ledger backend l'' b
                  in case (sa_estimate_key a, sa_audio_seconds a, sa_actual_runtime a) of
                       (Some key, Some audio, Some actual_runtime) \<Rightarrow>
                         if key = '''' then b'
                         else observe_runtime key audio actual_runtime (sa_estimated_runtime a) None now b'
                     | _ \<Rightarrow> b')))"

definition release_budget :: "string \<Rightarrow> string \<Rightarrow> string option \<Rightarrow> budget \<Rightarrow> budget" where
  "release_budget owner backend cycle b =
     (case map_of (bg_backends b) backend of
        None \<Rightarrow> b
      | Some l \<Rightarrow>
          if (case cycle of None \<Rightarrow> False | Some c \<Rightarrow> bl_cycle_key l \<noteq> c) then b
          else
            (case map_of (bl_inflight l) owner of
               None \<Rightarrow> b
             | Some reserved \<Rightarrow>
                 put_ledger backend
                   (l\<lparr>bl_inflight := AList.delete owner (bl_inflight l),
                      bl_used_units := max 0 (bl_used_units l - reserved)\<rparr>) b))"

subsection \<open>Stored form\<close>

definition opt_float :: "rat option \<Rightarrow> json" where
  "opt_float v = (case v of None \<Rightarrow> JNull | Some q \<Rightarrow> JFloat q)"

definition ledger_to_json :: "backend_ledger \<Rightarrow> json" where
  "ledger_to_json l =
     JObj [(''used_units'', JFloat (bl_used_units l)),
           (''inflight'', JObj (map (map_prod id JFloat) (bl_inflight l))),
           (''cycle_key'', JStr (bl_cycle_key l))]"

definition estimate_to_json :: "runtime_estimate \<Rightarrow> json" where
  "estimate_to_json e =
     JObj [(''seconds_per_audio_second'', JFloat (re_seconds_per_audio_second e)),
           (''samples'', JInt (re_samples e)),
           (''updated_at'', re_updated_at e),
           (''last_estimated_seconds'', opt_float (re_last_estimated_seconds e)),
           (''last_actual_seconds'', opt_float (re_last_actual_seconds e))]"

definition budget_to_dict :: "budget \<Rightarrow> pydict" where
  "budget_to_dict b =
     [(''schema_version'', JInt BUDGET_SCHEMA_VERSION),
      (''month'', JStr (bg_month b)),
      (''backends'', JObj (map (map_prod id ledger_to_json) (bg_backends b))),
      (''runtime_estimates'', JObj (map (map_prod id estimate_to_json) (bg_runtime_estimates b)))]"

text \<open>\<open>(data.get(key) or {}).items()\<close>\<close>

definition dict_items :: "pydict \<Rightarrow> string \<Rightarrow> exn + pydict" where
  "dict_items data key =
     (let raw = dget data key JNull in
      if \<not> py_truthy raw then Inr []
      else (case raw of JObj kvs \<Rightarrow> Inr kvs | _ \<Rightarrow> Inl (AttributeError ''items'')))"

definition is_obj :: "json \<Rightarrow> bool" where
  "is_obj j = (case j of JObj _ \<Rightarrow> True | _ \<Rightarrow> False)"

definition ledger_from_json :: "json \<Rightarrow> exn + backend_ledger" where
  "ledger_from_json j =
     (let raw = as_dict j in
      case dict_items raw ''inflight'' of
        Inl e \<Rightarrow> Inl e
      | Inr items \<Rightarrow>
          (case map_valuesE py_float items of
             Inl e \<Rightarrow> Inl e
           | Inr inflight \<Rightarrow>
               (case py_float (dget raw ''used_units'' (dget raw ''used_gpu_seconds'' (JFloat 0))) of
                  Inl e \<Rightarrow> Inl e
                | Inr used \<Rightarrow>
                    (let ck = dget raw ''cycle_key'' JNull in
                     Inr \<lparr>bl_used_units = used, bl_inflight = inflight,
                          bl_cycle_key = (if py_truthy ck then py_str ck else '''')\<rparr>))))"

definition opt_py_float :: "json \<Rightarrow> exn + rat option" where
  "opt_py_float j = (if j = JNull then Inr None else map_sum id Some (py_float j))"

definition estimate_from_json :: "json \<Rightarrow> exn + runtime_estimate" where
  "estimate_from_json j =
     (let raw = as_dict j in
      case py_float (dget raw ''seconds_per_audio_second'' (JFloat 0)) of
        Inl e \<Rightarrow> Inl e
      | Inr ratio \<Rightarrow>
          (case py_int (dget raw ''samples'' (JInt 0)) of
             Inl e \<Rightarrow> Inl e
           | Inr samples \<Rightarrow>
               (case opt_py_float (dget raw ''last_estimated_seconds'' JNull) of
                  Inl e \<Rightarrow> Inl e
                | Inr est \<Rightarrow>
                    (case opt_py_float (dget raw ''last_actual_seconds'' JNull) of
                       Inl e \<Rightarrow> Inl e
                     | Inr act \<Rightarrow>
                         Inr \<lparr>re_seconds_per_audio_second = ratio, re_samples = samples,
                              re_updated_at = dget raw ''updated_at'' JNull,
                              re_last_estimated_seconds = est, re_last_actual_seconds = act\<rparr>))))"

text \<open>\<open>current_month\<close> is \<open>month_key()\<close>, used when the document has no month.\<close>

definition budget_from_dict :: "string \<Rightarrow> pydict \<Rightarrow> exn + budget" where
  "budget_from_dict current_month data =
     (case dict_items data ''backends'' of
        Inl e \<Rightarrow> Inl e
      | Inr backend_items \<Rightarrow>
          (case map_valuesE ledger_from_json (filter (\<lambda>(_, v). is_obj v) backend_items) of
             Inl e \<Rightarrow> Inl e
           | Inr backends \<Rightarrow>
               (case dict_items data ''runtime_estimates'' of
                  Inl e \<Rightarrow> Inl e
                | Inr estimate_items \<Rightarrow>
                    (case map_valuesE estimate_from_json (filter (\<lambda>(_, v). is_obj v) estimate_items) of
                       Inl e \<Rightarrow> Inl e
                     | Inr estimates \<Rightarrow>
                         (let m = dget data ''month'' JNull in
                          Inr \<lparr>bg_month = (if py_truthy m then py_str m else current_month),
                               bg_backends = backends, bg_runtime_estimates = estimates\<rparr>)))))"

definition serialize_budget :: "budget \<Rightarrow> blob" where
  "serialize_budget b = dumps_sorted (JObj (budget_to_dict b))"

text \<open>A corrupt or malformed document reads as the empty budget.\<close>

definition decode_budget :: "string \<Rightarrow> blob \<Rightarrow> budget" where
  "decode_budget current_month data =
     (case json_loads data of
        Inl _ \<Rightarrow> empty_budget current_month
      | Inr parsed \<Rightarrow>
          (case budget_from_dict current_month (as_dict parsed) of
             Inl _ \<Rightarrow> empty_budget current_month
           | Inr b \<Rightarrow> b))"

text \<open>The local file: \<open>None\<close> when it does not exist.\<close>

definition load_budget :: "string \<Rightarrow> blob option \<Rightarrow> budget" where
  "load_budget current_month file =
     (case file of None \<Rightarrow> empty_budget current_month | Some text \<Rightarrow> decode_budget current_month text)"

subsection \<open>The durable ledger\<close>

definition load_budget_cas :: "(budget \<times> etag option) io" where
  "load_budget_cas =
     bind (get_bytes BUDGET_STATE_KEY) (\<lambda>got.
     bind utc_now (\<lambda>t.
       case got of
         None \<Rightarrow> Ret (empty_budget (month_key t), None)
       | Some (data, etag) \<Rightarrow> Ret (decode_budget (month_key t) data, Some etag)))"

primrec mutate_budget_loop ::
  "nat \<Rightarrow> exn option \<Rightarrow> (instant \<Rightarrow> budget \<Rightarrow> budget) \<Rightarrow> instant option \<Rightarrow> budget io" where
  "mutate_budget_loop 0 prev mutate now_arg =
     (case prev of None \<Rightarrow> Raise AssertionError | Some e \<Rightarrow> Raise e)"
| "mutate_budget_loop (Suc attempts) prev mutate now_arg =
     bind load_budget_cas (\<lambda>(b, etag).
     bind (now_or_clock now_arg) (\<lambda>now.
     bind (now_or_clock now_arg) (\<lambda>now'.
       let b' = mutate now' (roll_month now b) in
       bind (attempt (put_cas BUDGET_STATE_KEY (serialize_budget b') (cond_of etag))) (\<lambda>r.
         case r of
           Inr _ \<Rightarrow> Ret b'
         | Inl e \<Rightarrow>
             if is_conflict e then mutate_budget_loop attempts (Some e) mutate now_arg else Raise e))))"

definition mutate_budget :: "(instant \<Rightarrow> budget \<Rightarrow> budget) \<Rightarrow> instant option \<Rightarrow> nat \<Rightarrow> budget io" where
  "mutate_budget mutate now_arg max_attempts = mutate_budget_loop max_attempts None mutate now_arg"

primrec reserve_if_available ::
  "string \<Rightarrow> string \<Rightarrow> rat \<Rightarrow> rat \<Rightarrow> int \<Rightarrow> string option \<Rightarrow> instant option \<Rightarrow> nat \<Rightarrow> bool io" where
  "reserve_if_available owner backend est cap max_inflight cycle now_arg 0 = Ret False"
| "reserve_if_available owner backend est cap max_inflight cycle now_arg (Suc attempts) =
     bind load_budget_cas (\<lambda>(b, etag).
     bind (now_or_clock now_arg) (\<lambda>now.
       case available backend cap max_inflight est cycle (roll_month now b) of
         (ok, b1) \<Rightarrow>
           if \<not> ok then Ret False
           else
             bind (try_put BUDGET_STATE_KEY (serialize_budget (reserve owner backend est cycle b1)) (cond_of etag))
               (\<lambda>won.
                 case won of
                   Some _ \<Rightarrow> Ret True
                 | None \<Rightarrow> reserve_if_available owner backend est cap max_inflight cycle now_arg attempts)))"

definition release_reservation :: "string \<Rightarrow> string \<Rightarrow> string option \<Rightarrow> instant option \<Rightarrow> nat \<Rightarrow> budget io" where
  "release_reservation owner backend cycle now_arg max_attempts =
     mutate_budget (\<lambda>_. release_budget owner backend cycle) now_arg max_attempts"

definition settle_reservation :: "string \<Rightarrow> string \<Rightarrow> settle_args \<Rightarrow> instant option \<Rightarrow> nat \<Rightarrow> budget io" where
  "settle_reservation owner backend a now_arg max_attempts =
     mutate_budget (settle owner backend a) now_arg max_attempts"

definition observe_runtime_estimate ::
  "string \<Rightarrow> rat \<Rightarrow> rat \<Rightarrow> rat option \<Rightarrow> rat option \<Rightarrow> instant option \<Rightarrow> nat \<Rightarrow> budget io" where
  "observe_runtime_estimate key audio_seconds actual estimated default_ratio now_arg max_attempts =
     mutate_budget (observe_runtime key audio_seconds actual estimated default_ratio) now_arg max_attempts"

end
