(* ===== verification/Budget_Properties.thy ===== *)
theory Budget_Properties
  imports Compute_Budget S3_Storage "HOL-Library.Multiset"
begin

section \<open>What the compute budget guarantees\<close>

text \<open>
  The stored form is read back as the same budget. A property of the budget that every operation keeps
  holds of the shared ledger in every interleaving; two such properties are the cap and the covering of
  reservations by the spend. The outcomes of the operations and two limits of the design follow.
\<close>

subsection \<open>Reading back what was stored\<close>

definition norm_ledger :: "backend_ledger \<Rightarrow> backend_ledger" where
  "norm_ledger l = l\<lparr>bl_inflight := sort_key fst (bl_inflight l)\<rparr>"

definition norm_estimate :: "runtime_estimate \<Rightarrow> runtime_estimate" where
  "norm_estimate e = e\<lparr>re_updated_at := jsort (re_updated_at e)\<rparr>"

definition norm_budget :: "string \<Rightarrow> budget \<Rightarrow> budget" where
  "norm_budget cur b =
     \<lparr>bg_month = (if bg_month b = '''' then cur else bg_month b),
      bg_backends = map (map_prod id norm_ledger) (sort_key fst (bg_backends b)),
      bg_runtime_estimates = map (map_prod id norm_estimate) (sort_key fst (bg_runtime_estimates b))\<rparr>"

lemma jsort_dict: "jsort (JObj (map (map_prod id f) xs)) = JObj (map (map_prod id (jsort \<circ> f)) (sort_key fst xs))"
  by (simp only: jsort.simps list.map_comp map_prod_compose [symmetric] id_comp sort_key_map_prod)

lemma dict_items_sorted:
  assumes "dget d k JNull = JObj (map (map_prod id f) xs)"
  shows "dict_items (as_dict (jsort (JObj d))) k = Inr (map (map_prod id (jsort \<circ> f)) (sort_key fst xs))"
proof -
  have "dget (as_dict (jsort (JObj d))) k JNull = JObj (map (map_prod id (jsort \<circ> f)) (sort_key fst xs))"
    using dget_as_dict_jsort [of d k JNull] assms jsort_dict [of f xs] by simp
  then show ?thesis by (simp add: dict_items_def Let_def)
qed

lemma py_float_dict: "map_valuesE py_float (map (map_prod id (jsort \<circ> JFloat)) xs) = Inr xs"
proof -
  have "map_valuesE py_float (map (map_prod id (jsort \<circ> JFloat)) xs) =
      Inr (map (map_prod id (\<lambda>j. case j of JFloat q \<Rightarrow> q)) (map (map_prod id (jsort \<circ> JFloat)) xs))"
    by (rule map_valuesE_ok) auto
  also have "map (map_prod id (\<lambda>j. case j of JFloat q \<Rightarrow> q)) (map (map_prod id (jsort \<circ> JFloat)) xs) = xs"
    by (induction xs) auto
  finally show ?thesis .
qed

lemma ledger_roundtrip: "ledger_from_json (jsort (ledger_to_json l)) = Inr (norm_ledger l)"
proof -
  define d where "d = [(''used_units'', JFloat (bl_used_units l)),
      (''inflight'', JObj (map (map_prod id JFloat) (bl_inflight l))), (''cycle_key'', JStr (bl_cycle_key l))]"
  let ?r = "as_dict (jsort (JObj d))"
  have items: "dict_items ?r ''inflight'' = Inr (map (map_prod id (jsort \<circ> JFloat)) (sort_key fst (bl_inflight l)))"
    by (rule dict_items_sorted) (simp add: d_def dget_def)
  have "map_of ?r ''used_units'' = Some (JFloat (bl_used_units l))"
    by (simp add: d_def dict_simps)
  then have used: "dget ?r ''used_units'' v = JFloat (bl_used_units l)" for v
    by (simp add: dget_def)
  have ck: "dget ?r ''cycle_key'' JNull = JStr (bl_cycle_key l)"
    using dget_as_dict_jsort [of d "''cycle_key''" JNull] by (simp add: d_def dget_def)
  have "ledger_from_json (jsort (JObj d)) = Inr (norm_ledger l)"
    unfolding ledger_from_json_def Let_def items used ck py_float_dict sum.case py_float.simps
    by (simp add: norm_ledger_def)
  then show ?thesis by (simp add: ledger_to_json_def d_def)
qed

lemma estimate_roundtrip: "estimate_from_json (jsort (estimate_to_json e)) = Inr (norm_estimate e)"
proof -
  have opt: "opt_py_float (jsort (opt_float v)) = Inr v" for v
    by (cases v) (simp_all add: opt_float_def opt_py_float_def)
  show ?thesis
    unfolding estimate_from_json_def estimate_to_json_def Let_def dget_def
    by (simp add: dict_simps opt norm_estimate_def del: jsort.simps(8))
      (simp add: dict_simps opt norm_estimate_def)
qed

lemma map_valuesE_roundtrip:
  assumes "\<And>v. g (jsort (f v)) = Inr (h v)" and "\<And>v. is_obj (jsort (f v))"
  shows "map_valuesE g (filter (\<lambda>(_, v). is_obj v) (map (map_prod id (jsort \<circ> f)) xs)) = Inr (map (map_prod id h) xs)"
proof -
  have "filter (\<lambda>(_, v). is_obj v) (map (map_prod id (jsort \<circ> f)) xs) = map (map_prod id (jsort \<circ> f)) xs"
    using assms(2) by (induction xs) auto
  moreover have "map_valuesE g (map (map_prod id (jsort \<circ> f)) xs) = Inr (map (map_prod id h) xs)"
    using assms(1) by (induction xs) (auto simp: map_valuesE_def)
  ultimately show ?thesis by simp
qed

lemma budget_decode_serialize: "decode_budget cur (serialize_budget b) = norm_budget cur b"
proof -
  let ?r = "as_dict (jsort (JObj (budget_to_dict b)))"
  have be: "dict_items ?r ''backends'' = Inr (map (map_prod id (jsort \<circ> ledger_to_json)) (sort_key fst (bg_backends b)))"
    by (rule dict_items_sorted) (simp add: budget_to_dict_def dget_def)
  have es: "dict_items ?r ''runtime_estimates'' =
      Inr (map (map_prod id (jsort \<circ> estimate_to_json)) (sort_key fst (bg_runtime_estimates b)))"
    by (rule dict_items_sorted) (simp add: budget_to_dict_def dget_def)
  have mo: "dget ?r ''month'' JNull = JStr (bg_month b)"
    using dget_as_dict_jsort [of "budget_to_dict b" "''month''" JNull] by (simp add: budget_to_dict_def dget_def)
  have lb: "map_valuesE ledger_from_json (filter (\<lambda>(_, v). is_obj v)
      (map (map_prod id (jsort \<circ> ledger_to_json)) xs)) = Inr (map (map_prod id norm_ledger) xs)" for xs
    by (rule map_valuesE_roundtrip) (simp add: ledger_roundtrip, simp add: ledger_to_json_def is_obj_def)
  have le: "map_valuesE estimate_from_json (filter (\<lambda>(_, v). is_obj v)
      (map (map_prod id (jsort \<circ> estimate_to_json)) xs)) = Inr (map (map_prod id norm_estimate) xs)" for xs
    by (rule map_valuesE_roundtrip) (simp add: estimate_roundtrip, simp add: estimate_to_json_def is_obj_def)
  have "budget_from_dict cur ?r = Inr (norm_budget cur b)"
    unfolding budget_from_dict_def be es mo Let_def sum.case lb le
    by (simp add: norm_budget_def)
  then show ?thesis
    by (simp add: decode_budget_def serialize_budget_def dumps_sorted_def del: jsort.simps)
qed

lemma norm_budget_backend:
  "map_of (bg_backends (norm_budget cur b)) k = map_option norm_ledger (map_of (bg_backends b) k)"
  by (simp add: norm_budget_def dict_simps)

text \<open>
  a budget written to storage is read back as the same budget: the same month, and for every
  backend the same spend, cycle and reservations, and for every profile the same learned estimate.
\<close>

theorem budget_roundtrip:
  assumes "bg_month b \<noteq> ''''" and "decode_budget cur (serialize_budget b) = b'"
  shows "bg_month b' = bg_month b \<and>
    (\<forall>k. map_of (bg_backends b') k = map_option norm_ledger (map_of (bg_backends b) k)) \<and>
    (\<forall>k. map_of (bg_runtime_estimates b') k = map_option norm_estimate (map_of (bg_runtime_estimates b) k)) \<and>
    (\<forall>l. bl_used_units (norm_ledger l) = bl_used_units l \<and> bl_cycle_key (norm_ledger l) = bl_cycle_key l \<and>
         mset (bl_inflight (norm_ledger l)) = mset (bl_inflight l))"
  using assms by (auto simp: budget_decode_serialize norm_budget_def dict_simps norm_ledger_def)

theorem budget_roundtrip_witness:
  "bg_month (decode_budget ''x'' (serialize_budget (reserve ''o'' ''modal'' 2 None (empty_budget ''2026-07'')))) = ''2026-07''"
  using budget_roundtrip [of "reserve ''o'' ''modal'' 2 None (empty_budget ''2026-07'')" "''x''", OF _ refl]
  by (simp add: reserve_def current_ledger_def empty_budget_def put_ledger_def Let_def split: prod.split)

subsection \<open>Properties that every operation keeps\<close>

text \<open>
  A predicate on one backend's ledger, lifted to budgets and to the stored object. The discipline asks
  each write to keep it, and leaves the other objects alone.
\<close>

definition backend_ok :: "(backend_ledger \<Rightarrow> bool) \<Rightarrow> string \<Rightarrow> budget \<Rightarrow> bool" where
  "backend_ok P backend b = (case map_of (bg_backends b) backend of None \<Rightarrow> True | Some l \<Rightarrow> P l)"

definition stored_ok :: "(backend_ledger \<Rightarrow> bool) \<Rightarrow> string \<Rightarrow> blob option \<Rightarrow> bool" where
  "stored_ok P backend c = (\<forall>cur b. c = Some b \<longrightarrow> backend_ok P backend (decode_budget cur b))"

definition budget_rule ::
  "(backend_ledger \<Rightarrow> bool) \<Rightarrow> string \<Rightarrow> instant \<Rightarrow> string \<Rightarrow> blob option \<Rightarrow> blob \<Rightarrow> bool" where
  "budget_rule P backend t k old d \<longleftrightarrow>
     k = BUDGET_STATE_KEY \<and> (stored_ok P backend old \<longrightarrow> stored_ok P backend (Some d))"

lemma discipline_budget_rule: "discipline (budget_rule P backend)"
  by (simp add: discipline_def budget_rule_def)

text \<open>Sorting the reservations must not matter to the predicate.\<close>

definition order_free :: "(backend_ledger \<Rightarrow> bool) \<Rightarrow> bool" where
  "order_free P \<longleftrightarrow> (\<forall>l. P (norm_ledger l) \<longleftrightarrow> P l)"

lemma backend_ok_norm: "order_free P \<Longrightarrow> backend_ok P k (norm_budget cur b) \<longleftrightarrow> backend_ok P k b"
  by (auto simp: backend_ok_def norm_budget_backend order_free_def split: option.split)

lemma backend_ok_empty [simp]: "backend_ok P k (empty_budget m)"
  by (simp add: backend_ok_def empty_budget_def)

lemma backend_ok_month [simp]: "backend_ok P k (roll_month t b) = backend_ok P k b"
  by (simp add: backend_ok_def roll_month_def)

lemma stored_ok_serialize:
  "order_free P \<Longrightarrow> stored_ok P k (Some (serialize_budget b)) \<longleftrightarrow> backend_ok P k b"
  by (auto simp: stored_ok_def budget_decode_serialize backend_ok_norm)

definition tag_blob :: "etag option \<Rightarrow> blob option" where
  "tag_blob et = (case et of None \<Rightarrow> None | Some (ETag b) \<Rightarrow> Some b)"

lemma cond_legal_tag: "cond_legal R t k (cond_of et) d = R t k (tag_blob et) d"
  by (auto simp: cond_legal_def cond_of_def tag_blob_def split: option.split etag.split)

lemma safe_load_budget:
  assumes "\<And>b et t'. t \<le> t' \<Longrightarrow> (stored_ok P k (tag_blob et) \<Longrightarrow> backend_ok P k b) \<Longrightarrow> Q t' (Inr (b, et))"
    and "\<And>e. Q t (Inl e)"
  shows "safe R Q load_budget_cas t"
  unfolding load_budget_cas_def
proof (rule safe_bind, rule safe_get_bytes)
  fix r assume "reply_ok r"
  then show "case r of Inl e \<Rightarrow> Q t (Inl e)
     | Inr got \<Rightarrow> safe R Q (bind utc_now (\<lambda>t. case got of
           None \<Rightarrow> Ret (empty_budget (month_key t), None)
         | Some (data, etag) \<Rightarrow> Ret (decode_budget (month_key t) data, Some etag))) t"
    by (auto simp: reply_ok_def utc_now_def tag_blob_def stored_ok_def split: sum.splits option.splits
        intro!: assms)
qed

lemma safe_mutate_budget_loop:
  assumes "order_free P" and "\<And>t b. backend_ok P k b \<Longrightarrow> backend_ok P k (mutate t b)"
  shows "safe (budget_rule P k) any_result (mutate_budget_loop n prev mutate now_arg) t"
proof (induction n arbitrary: prev t)
  case (Suc n)
  have put: "safe (budget_rule P k) any_result
      (bind (attempt (put_cas BUDGET_STATE_KEY (serialize_budget (mutate t1 (roll_month t2 b))) (cond_of et))) f) t'"
    if "stored_ok P k (tag_blob et) \<Longrightarrow> backend_ok P k b" and "\<And>r. safe (budget_rule P k) any_result (f r) t'"
    for b et f t' t1 t2
    using that assms
    by (intro safe_bind [OF safe_attempt [OF safe_put_cas]])
       (auto simp: cond_legal_tag budget_rule_def stored_ok_serialize)
  have now: "safe (budget_rule P k) any_result (bind (now_or_clock now_arg) g) t'"
    if "\<And>m t''. t' \<le> t'' \<Longrightarrow> safe (budget_rule P k) any_result (g m) t''" for g :: "instant \<Rightarrow> budget io" and t'
    using that by (cases now_arg) (auto simp: now_or_clock_def utc_now_def)
  show ?case
    unfolding mutate_budget_loop.simps Let_def
    by (rule safe_bind, rule safe_load_budget [where P = P and k = k])
       (auto intro!: now put Suc.IH simp del: attempt_bind split: sum.split)
qed (simp split: option.split)

lemma safe_reserve_if_available:
  assumes "order_free P"
    and "\<And>b. backend_ok P k b \<Longrightarrow> fst (available backend cap mx est cycle b) \<Longrightarrow>
           backend_ok P k (reserve owner backend est cycle (snd (available backend cap mx est cycle b)))"
  shows "safe (budget_rule P k) any_result (reserve_if_available owner backend est cap mx cycle now_arg n) t"
proof (induction n arbitrary: t)
  case (Suc n)
  have now: "safe (budget_rule P k) any_result (bind (now_or_clock now_arg) g) t'"
    if "\<And>m t''. t' \<le> t'' \<Longrightarrow> safe (budget_rule P k) any_result (g m) t''" for g :: "instant \<Rightarrow> bool io" and t'
    using that by (cases now_arg) (auto simp: now_or_clock_def utc_now_def)
  have put: "safe (budget_rule P k) any_result
      (bind (try_put BUDGET_STATE_KEY (serialize_budget (reserve owner backend est cycle b1)) (cond_of et)) f) t'"
    if "stored_ok P k (tag_blob et) \<Longrightarrow> backend_ok P k b" and "available backend cap mx est cycle (roll_month m b) = (True, b1)"
      and "\<And>r. safe (budget_rule P k) any_result (f r) t'" for b b1 et f t' m
    using that assms(1) assms(2) [of "roll_month m b"]
    by (intro safe_bind [OF safe_try_put]) (auto simp: cond_legal_tag budget_rule_def stored_ok_serialize)
  show ?case
    unfolding reserve_if_available.simps
    by (rule safe_bind, rule safe_load_budget [where P = P and k = k])
       (auto intro!: now put Suc.IH split: prod.split option.split)
qed simp

subsection \<open>The operations keep the predicates\<close>

lemma current_ledger_facts:
  assumes "current_ledger k cycle b = (l, b1)"
  shows "map_of (bg_backends b1) k = Some l" "bg_month b1 = bg_month b"
    "\<And>k'. k' \<noteq> k \<Longrightarrow> map_of (bg_backends b1) k' = map_of (bg_backends b) k'"
    "current_ledger k cycle b1 = (l, put_ledger k l b1)"
    "l = (case map_of (bg_backends b) k of
        None \<Rightarrow> empty_ledger\<lparr>bl_cycle_key := target_cycle cycle b\<rparr>
      | Some l0 \<Rightarrow> if bl_cycle_key l0 = target_cycle cycle b then l0
                   else l0\<lparr>bl_used_units := 0, bl_inflight := [], bl_cycle_key := target_cycle cycle b\<rparr>)"
  using assms
  by (auto simp: current_ledger_def put_ledger_def target_cycle_def empty_ledger_def dict_simps Let_def
      split: option.splits if_splits)

lemma backend_ok_put [simp]:
  "backend_ok P k (put_ledger k' l b) \<longleftrightarrow> (if k' = k then P l else backend_ok P k b)"
  by (auto simp: backend_ok_def put_ledger_def dict_simps)

lemma backend_ok_current:
  assumes "current_ledger k' cycle b = (l, b1)" and "k' \<noteq> k"
  shows "backend_ok P k b1 = backend_ok P k b"
  using current_ledger_facts(3) [OF assms(1), of k] assms(2) by (simp add: backend_ok_def)

lemma backend_ok_observe [simp]: "backend_ok P k (observe_runtime key a r e d now b) = backend_ok P k b"
  by (simp add: backend_ok_def observe_runtime_def Let_def)

text \<open>What reserving leaves for the backend: the ledger of the current cycle, charged.\<close>

lemma reserve_ledger:
  assumes "current_ledger k cycle b = (l, b1)"
  shows "map_of (bg_backends (reserve owner k est cycle b1)) k =
      Some (l\<lparr>bl_used_units := bl_used_units l + est, bl_inflight := AList.update owner est (bl_inflight l)\<rparr>)"
  unfolding reserve_def current_ledger_facts(4) [OF assms] by (simp add: put_ledger_def dict_simps)

lemma backend_ok_reserve:
  assumes "bk = k \<Longrightarrow> (\<And>l. (bl_used_units l = 0 \<and> bl_inflight l = [] \<or> P l) \<Longrightarrow> bl_used_units l + est \<le> cap \<Longrightarrow>
         inflight_count l < mx \<Longrightarrow>
         P (l\<lparr>bl_used_units := bl_used_units l + est, bl_inflight := AList.update owner est (bl_inflight l)\<rparr>))"
    and cycle_free: "\<And>l c. P (l\<lparr>bl_cycle_key := c\<rparr>) \<longleftrightarrow> P l"
    and ok: "backend_ok P k b" and av: "fst (available bk cap mx est cycle b)"
  shows "backend_ok P k (reserve owner bk est cycle (snd (available bk cap mx est cycle b)))"
proof -
  obtain l b1 where c: "current_ledger bk cycle b = (l, b1)" by fastforce
  then have s: "snd (available bk cap mx est cycle b) = b1" and g: "bl_used_units l + est \<le> cap" "inflight_count l < mx"
    using av by (auto simp: available_def)
  show ?thesis
  proof (cases "bk = k")
    case True
    have "bl_used_units l = 0 \<and> bl_inflight l = [] \<or> P l"
      using current_ledger_facts(5) [OF c] ok True
      by (auto simp: backend_ok_def empty_ledger_def split: option.splits if_splits)
    from assms(1) [OF True this g] show ?thesis
      using reserve_ledger [OF c [unfolded True], of owner est] True
      by (simp add: s [unfolded True] backend_ok_def)
  next
    case False
    obtain l2 b2 where c2: "current_ledger bk cycle b1 = (l2, b2)" by fastforce
    show ?thesis
      using ok backend_ok_current [OF c False, of P] backend_ok_current [OF c2 False, of P] False
      by (simp add: s reserve_def c2)
  qed
qed

lemma backend_ok_release:
  assumes "bk = k \<Longrightarrow> (\<And>l r. P l \<Longrightarrow> map_of (bl_inflight l) owner = Some r \<Longrightarrow>
         P (l\<lparr>bl_inflight := AList.delete owner (bl_inflight l), bl_used_units := max 0 (bl_used_units l - r)\<rparr>))"
    and "backend_ok P k b"
  shows "backend_ok P k (release_budget owner bk cycle b)"
  using assms by (auto simp: release_budget_def split: option.split) (auto simp: backend_ok_def)

lemma backend_ok_settle:
  assumes "bk = k \<Longrightarrow> (\<And>l r. P l \<Longrightarrow> map_of (bl_inflight l) owner = Some r \<Longrightarrow>
         P (case sa_actual a of
              None \<Rightarrow> l\<lparr>bl_inflight := AList.delete owner (bl_inflight l)\<rparr>
            | Some x \<Rightarrow> l\<lparr>bl_inflight := AList.delete owner (bl_inflight l), bl_used_units := max 0 (bl_used_units l - r + x)\<rparr>))"
    and "backend_ok P k b"
  shows "backend_ok P k (settle owner bk a now b)"
proof -
  have step: "backend_ok P k (case (sa_estimate_key a, sa_audio_seconds a, sa_actual_runtime a) of
        (Some key, Some audio, Some actual_runtime) \<Rightarrow>
          if key = '''' then b' else observe_runtime key audio actual_runtime (sa_estimated_runtime a) None now b'
      | _ \<Rightarrow> b') = backend_ok P k b'" for b'
    by (auto split: option.split)
  show ?thesis
    using assms
    by (auto simp: settle_def Let_def step split: option.split) (auto simp: backend_ok_def split: option.splits)
qed

subsection \<open>Two predicates: the cap, and spend covering the reservations\<close>

definition nonneg :: "(string \<times> rat) list \<Rightarrow> bool" where
  "nonneg xs \<longleftrightarrow> (\<forall>p \<in> set xs. 0 \<le> snd p)"

definition within_cap :: "rat \<Rightarrow> int \<Rightarrow> backend_ledger \<Rightarrow> bool" where
  "within_cap cap mx l \<longleftrightarrow> bl_used_units l \<le> cap \<and> inflight_count l \<le> mx \<and> nonneg (bl_inflight l)"

definition covers :: "backend_ledger \<Rightarrow> bool" where
  "covers l \<longleftrightarrow> sum_list (map snd (bl_inflight l)) \<le> bl_used_units l \<and> nonneg (bl_inflight l)"

lemma sum_list_sort_key: "sum_list (map g (sort_key f xs)) = sum_list (map (g :: 'a \<Rightarrow> rat) xs)"
  by (metis mset_map mset_sort sum_mset_sum_list)

lemma order_free_preds: "order_free (within_cap cap mx)" "order_free covers"
  by (simp_all add: order_free_def within_cap_def covers_def nonneg_def norm_ledger_def inflight_count_def
      sum_list_sort_key)

lemma nonneg_simps [simp]: "nonneg []" "nonneg (p # xs) \<longleftrightarrow> 0 \<le> snd p \<and> nonneg xs"
  by (auto simp: nonneg_def)

lemma nonneg_update [intro]: "nonneg xs \<Longrightarrow> 0 \<le> v \<Longrightarrow> nonneg (AList.update k v xs)"
  by (induction xs) auto

lemma nonneg_delete [intro]: "nonneg xs \<Longrightarrow> nonneg (AList.delete k xs)"
  by (induction xs) auto

lemma update_length: "length (AList.update k v xs) \<le> Suc (length xs)"
  by (induction xs) auto

lemma delete_length: "length (AList.delete k xs) \<le> length xs"
  by (induction xs) auto

lemma update_sum: "nonneg xs \<Longrightarrow> sum_list (map snd (AList.update k v xs)) \<le> sum_list (map snd xs) + v"
  by (induction xs) auto

lemma delete_sum: "nonneg xs \<Longrightarrow> sum_list (map snd (AList.delete k xs)) \<le> sum_list (map snd xs)"
  by (induction xs) (auto intro: order_trans)

lemma delete_sum_entry:
  "nonneg xs \<Longrightarrow> map_of xs k = Some q \<Longrightarrow> sum_list (map snd (AList.delete k xs)) \<le> sum_list (map snd xs) - q"
  using delete_sum by (induction xs) (auto split: if_splits)

lemma cycle_free_preds [simp]:
  "within_cap cap mx (l\<lparr>bl_cycle_key := c\<rparr>) \<longleftrightarrow> within_cap cap mx l" "covers (l\<lparr>bl_cycle_key := c\<rparr>) \<longleftrightarrow> covers l"
  by (simp_all add: within_cap_def covers_def inflight_count_def)

lemma within_cap_reserve:
  assumes "bl_used_units l = 0 \<and> bl_inflight l = [] \<or> within_cap cap mx l" and "bl_used_units l + est \<le> cap"
    and "inflight_count l < mx" and "0 \<le> est"
  shows "within_cap cap mx
     (l\<lparr>bl_used_units := bl_used_units l + est, bl_inflight := AList.update owner est (bl_inflight l)\<rparr>)"
  using assms update_length [of owner est "bl_inflight l"]
  by (auto simp: within_cap_def inflight_count_def)

lemma within_cap_release:
  assumes "within_cap cap mx l" and "map_of (bl_inflight l) owner = Some r" and "0 \<le> cap"
  shows "within_cap cap mx (l\<lparr>bl_inflight := AList.delete owner (bl_inflight l), bl_used_units := max 0 (bl_used_units l - r)\<rparr>)"
    and "within_cap cap mx (l\<lparr>bl_inflight := AList.delete owner (bl_inflight l)\<rparr>)"
proof -
  have "0 \<le> r" using assms(1) map_of_SomeD [OF assms(2)] by (force simp: within_cap_def nonneg_def)
  then show "within_cap cap mx (l\<lparr>bl_inflight := AList.delete owner (bl_inflight l), bl_used_units := max 0 (bl_used_units l - r)\<rparr>)"
    and "within_cap cap mx (l\<lparr>bl_inflight := AList.delete owner (bl_inflight l)\<rparr>)"
    using assms delete_length [of owner "bl_inflight l"]
    by (auto simp: within_cap_def inflight_count_def)
qed

lemma covers_reserve:
  assumes "bl_used_units l = 0 \<and> bl_inflight l = [] \<or> covers l" and "0 \<le> est"
  shows "covers (l\<lparr>bl_used_units := bl_used_units l + est, bl_inflight := AList.update owner est (bl_inflight l)\<rparr>)"
proof -
  have "covers l" using assms(1) by (auto simp: covers_def)
  then show ?thesis
    using assms(2) update_sum [of "bl_inflight l" owner est] by (auto simp: covers_def)
qed

lemma covers_settle:
  assumes "covers l" and "map_of (bl_inflight l) owner = Some r" and "0 \<le> x"
  shows "covers (l\<lparr>bl_inflight := AList.delete owner (bl_inflight l), bl_used_units := max 0 (bl_used_units l - r + x)\<rparr>)"
    and "covers (l\<lparr>bl_inflight := AList.delete owner (bl_inflight l)\<rparr>)"
  using assms delete_sum [of "bl_inflight l" owner] delete_sum_entry [of "bl_inflight l" owner r]
  by (auto simp: covers_def)

subsection \<open>The shared ledger under any interleaving\<close>

text \<open>
  The clients of the ledger, for a backend \<open>k\<close> with the configured cap and slots: reservations go through
  \<open>reserve_if_available\<close> with non-negative estimates, and \<open>charge\<close> says what a settlement may report.
\<close>

inductive budget_client :: "(rat option \<Rightarrow> bool) \<Rightarrow> string \<Rightarrow> rat \<Rightarrow> int \<Rightarrow> unit io \<Rightarrow> bool"
  for charge :: "rat option \<Rightarrow> bool" and k :: string and cap :: rat and mx :: int where
  client_reserve: "(bk = k \<Longrightarrow> cap' = cap \<and> mx' = mx \<and> 0 \<le> est) \<Longrightarrow>
     budget_client charge k cap mx (forget (reserve_if_available owner bk est cap' mx' cycle now_arg n))"
| client_release: "budget_client charge k cap mx (forget (release_reservation owner bk cycle now_arg n))"
| client_settle: "(bk = k \<Longrightarrow> charge (sa_actual a)) \<Longrightarrow>
     budget_client charge k cap mx (forget (settle_reservation owner bk a now_arg n))"
| client_observe: "budget_client charge k cap mx (forget (observe_runtime_estimate key au act est' d now_arg n))"

lemma safe_forget_any: "safe R any_result p t \<Longrightarrow> safe R any_result (forget p) t"
  unfolding forget_def by (rule safe_bind_any) auto

lemma budget_client_safe:
  assumes "budget_client charge k cap mx p" and "order_free P"
    and cycle_free: "\<And>l c. P (l\<lparr>bl_cycle_key := c\<rparr>) \<longleftrightarrow> P l"
    and res: "\<And>l est owner. (bl_used_units l = 0 \<and> bl_inflight l = [] \<or> P l) \<Longrightarrow> bl_used_units l + est \<le> cap \<Longrightarrow>
       inflight_count l < mx \<Longrightarrow> 0 \<le> est \<Longrightarrow>
       P (l\<lparr>bl_used_units := bl_used_units l + est, bl_inflight := AList.update owner est (bl_inflight l)\<rparr>)"
    and rel: "\<And>l owner r. P l \<Longrightarrow> map_of (bl_inflight l) owner = Some r \<Longrightarrow>
       P (l\<lparr>bl_inflight := AList.delete owner (bl_inflight l), bl_used_units := max 0 (bl_used_units l - r)\<rparr>)"
    and set: "\<And>l owner r x. P l \<Longrightarrow> map_of (bl_inflight l) owner = Some r \<Longrightarrow> charge x \<Longrightarrow>
       P (case x of None \<Rightarrow> l\<lparr>bl_inflight := AList.delete owner (bl_inflight l)\<rparr>
          | Some x \<Rightarrow> l\<lparr>bl_inflight := AList.delete owner (bl_inflight l), bl_used_units := max 0 (bl_used_units l - r + x)\<rparr>)"
  shows "safe (budget_rule P k) any_result p t"
  using assms(1)
proof cases
  case (client_reserve bk cap' mx' est owner cycle now_arg n)
  have "backend_ok P k (reserve owner bk est cycle (snd (available bk cap' mx' est cycle b)))"
    if "backend_ok P k b" and "fst (available bk cap' mx' est cycle b)" for b
    by (rule backend_ok_reserve [OF _ cycle_free that]) (use client_reserve(2) res in auto)
  then show ?thesis
    unfolding client_reserve(1)
    by (intro safe_forget_any safe_reserve_if_available [OF assms(2)])
next
  case (client_release owner bk cycle now_arg n)
  then show ?thesis
    by (auto simp: release_reservation_def mutate_budget_def
        intro!: safe_forget_any safe_mutate_budget_loop [OF assms(2)] backend_ok_release rel)
next
  case (client_settle bk a owner now_arg n)
  then show ?thesis
    using set by (auto simp: settle_reservation_def mutate_budget_def
        intro!: safe_forget_any safe_mutate_budget_loop [OF assms(2)] backend_ok_settle)
next
  case (client_observe key au act est' d now_arg n)
  then show ?thesis
    by (auto simp: observe_runtime_estimate_def mutate_budget_def
        intro!: safe_forget_any safe_mutate_budget_loop [OF assms(2)])
qed

lemma ledger_reach:
  assumes store: "cas_store ops view" and idle: "all_idle S0" and reach: "sys_reach ops launch S0 S"
    and safe: "\<And>i p t. launch (i :: nat) p \<Longrightarrow> safe (budget_rule P k) any_result p t"
    and init: "stored_ok P k (view (sys_store S0) BUDGET_STATE_KEY)"
  shows "stored_ok P k (view (sys_store S) BUDGET_STATE_KEY)"
proof -
  have trans: "stored_ok P k (v' BUDGET_STATE_KEY)"
    if "write_step (budget_rule P k) t v v'" and "stored_ok P k (v BUDGET_STATE_KEY)" for t v v'
    using that by (auto simp: write_step_def budget_rule_def)
  have "stored_ok P k (view (sys_store S) BUDGET_STATE_KEY) \<and>
      (\<forall>i. safe (budget_rule P k) any_result (sys_proc S i) (sys_time S))"
    using reach idle discipline_budget_rule safe init _ trans
    by (rule cas_store.reach_invariant [OF store, where R = "\<lambda>_. budget_rule P k"
          and I = "\<lambda>_ v. stored_ok P k (v BUDGET_STATE_KEY)"])
  then show ?thesis ..
qed

text \<open>
  the cap. If a backend's ledger starts within its monthly cap and in-flight slots, then it is within
  them in every reachable state of any interleaving of reservations, releases, settlements that report no
  actual cost, and runtime observations by any number of dispatchers, whatever writes conflict, fail or
  lose their answer.
\<close>

theorem cap_never_breached:
  assumes "cas_store ops view" and "\<And>i p. launch i p \<Longrightarrow> budget_client (\<lambda>x. x = None) k cap mx p"
    and "all_idle S0" and "sys_reach ops launch S0 S" and "0 \<le> cap"
    and "stored_ok (within_cap cap mx) k (view (sys_store S0) BUDGET_STATE_KEY)"
    and "view (sys_store S) BUDGET_STATE_KEY = Some d"
    and "map_of (bg_backends (decode_budget cur d)) k = Some l"
  shows "bl_used_units l \<le> cap \<and> inflight_count l \<le> mx"
proof -
  have "safe (budget_rule (within_cap cap mx) k) any_result p t" if "launch i p" for i p t
    by (rule budget_client_safe [OF assms(2) [OF that] order_free_preds(1)])
       (auto intro: within_cap_reserve within_cap_release assms(5))
  then have "stored_ok (within_cap cap mx) k (view (sys_store S) BUDGET_STATE_KEY)"
    by (intro ledger_reach [OF assms(1,3,4) _ assms(6)])
  then show ?thesis
    using assms(7,8) by (auto simp: stored_ok_def backend_ok_def within_cap_def dest!: spec [of _ cur])
qed

text \<open>
  pessimistic accounting. In every interleaving, settlements with reported costs included, a
  backend's recorded spend is at least the sum of the reservations in flight, so no outstanding
  reservation is ever missing from the number the cap is checked against.
\<close>

theorem spend_covers_reservations:
  assumes "cas_store ops view" and "\<And>i p. launch i p \<Longrightarrow> budget_client (\<lambda>x. \<forall>v. x = Some v \<longrightarrow> 0 \<le> v) k cap mx p"
    and "all_idle S0" and "sys_reach ops launch S0 S"
    and "stored_ok covers k (view (sys_store S0) BUDGET_STATE_KEY)"
    and "view (sys_store S) BUDGET_STATE_KEY = Some d"
    and "map_of (bg_backends (decode_budget cur d)) k = Some l"
  shows "sum_list (map snd (bl_inflight l)) \<le> bl_used_units l"
proof -
  have rel: "covers (l\<lparr>bl_inflight := AList.delete owner (bl_inflight l), bl_used_units := max 0 (bl_used_units l - r)\<rparr>)"
    if "covers l" and "map_of (bl_inflight l) owner = Some r" for l owner r
    using covers_settle(1) [OF that, of 0] by simp
  have "safe (budget_rule covers k) any_result p t" if "launch i p" for i p t
    by (rule budget_client_safe [OF assms(2) [OF that] order_free_preds(2)])
       (auto intro: covers_reserve rel covers_settle split: option.split)
  then have "stored_ok (covers) k (view (sys_store S) BUDGET_STATE_KEY)"
    by (intro ledger_reach [OF assms(1,3,4) _ assms(5)])
  then show ?thesis
    using assms(6,7) by (auto simp: stored_ok_def backend_ok_def covers_def dest!: spec [of _ cur])
qed

subsection \<open>Outcomes of single operations\<close>

text \<open>
  settling a job replaces its reservation by the reported cost, exactly once: the spend becomes the
  spend before the reservation plus the cost, the slot is free, other backends are untouched, and a
  second settlement or release changes nothing. The reported cost is not checked against the cap.
\<close>

theorem settle_exact:
  assumes "current_ledger k cycle b = (l, b1)" and "0 \<le> bl_used_units l" and "0 \<le> est" and "0 \<le> actual"
    and "sa_actual a = Some actual" and "sa_cycle a = None"
    and b2_def: "b2 = settle owner k a now (reserve owner k est cycle b1)"
  shows "\<exists>l2. map_of (bg_backends b2) k = Some l2 \<and> bl_used_units l2 = bl_used_units l + actual \<and>
      map_of (bl_inflight l2) owner = None \<and>
      (\<forall>k'. k' \<noteq> k \<longrightarrow> map_of (bg_backends b2) k' = map_of (bg_backends b1) k') \<and>
      settle owner k a' now' b2 = b2 \<and> release_budget owner k cycle' b2 = b2"
proof -
  let ?l1 = "l\<lparr>bl_used_units := bl_used_units l + est, bl_inflight := AList.update owner est (bl_inflight l)\<rparr>"
  let ?l2 = "?l1\<lparr>bl_inflight := AList.delete owner (bl_inflight ?l1), bl_used_units := bl_used_units l + actual\<rparr>"
  have r: "map_of (bg_backends (reserve owner k est cycle b1)) k = Some ?l1"
    by (rule reserve_ledger [OF assms(1)])
  have other: "map_of (bg_backends (reserve owner k est cycle b1)) k' = map_of (bg_backends b1) k'" if "k' \<noteq> k" for k'
    unfolding reserve_def current_ledger_facts(4) [OF assms(1)] using that by (simp add: put_ledger_def dict_simps)
  have obs: "bg_backends (observe_runtime key x y z w n c) = bg_backends c" for key x y z w n c
    by (simp add: observe_runtime_def Let_def)
  have "bg_backends b2 = bg_backends (put_ledger k ?l2 (reserve owner k est cycle b1))"
    using assms(2-6) by (simp add: b2_def settle_def r dict_simps Let_def obs max_def split: option.split)
  then have l2: "map_of (bg_backends b2) k' = (if k' = k then Some ?l2 else map_of (bg_backends b1) k')" for k'
    using other by (simp add: put_ledger_def dict_simps)
  moreover have "settle owner k a' now' b2 = b2" and "release_budget owner k cycle' b2 = b2"
    by (simp_all add: settle_def release_budget_def l2 dict_simps)
  ultimately show ?thesis by (simp add: dict_simps)
qed

text \<open>
  a delayed callback cannot touch another billing cycle: settling or releasing with an explicit cycle
  that is not the ledger's changes nothing, while the first admission check of a new cycle finds the
  backend with no spend and no jobs in flight.
\<close>

theorem cycle_isolation:
  assumes "map_of (bg_backends b) k = Some l" and "bl_cycle_key l \<noteq> c" and "c \<noteq> ''''"
  shows "release_budget owner k (Some c) b = b \<and>
    (sa_cycle a = Some c \<longrightarrow> settle owner k a now b = b) \<and>
    fst (current_ledger k (Some c) b) = \<lparr>bl_used_units = 0, bl_inflight = [], bl_cycle_key = c\<rparr> \<and>
    (fst (available k cap mx est (Some c) b) \<longleftrightarrow> est \<le> cap \<and> 0 < mx)"
  using assms
  by (cases l) (auto simp: release_budget_def settle_def current_ledger_def available_def target_cycle_def
      inflight_count_def Let_def)

text \<open>The budget an object stands for at time \<open>t\<close>.\<close>

definition stored_budget :: "instant \<Rightarrow> blob option \<Rightarrow> budget" where
  "stored_budget t c = (case c of None \<Rightarrow> empty_budget (month_key t) | Some d \<Rightarrow> decode_budget (month_key t) d)"

text \<open>
  the outcome of \<open>reserve_if_available\<close> on a store that answers: it is granted exactly when the stored
  ledger of the current cycle has room for the estimate and a free slot; then the stored ledger is
  charged, and otherwise nothing is written.
\<close>

theorem reserve_outcome:
  assumes "reliable_store ops view (\<lambda>_. True)"
    and "run ops t (reserve_if_available owner k est cap mx cycle None (Suc n)) s = (r, s')"
    and "available k cap mx est cycle (roll_month t (stored_budget t (view s BUDGET_STATE_KEY))) = (ok, b1)"
  shows "if ok then r = Inr True \<and>
           view s' = (view s)(BUDGET_STATE_KEY := Some (serialize_budget (reserve owner k est cycle b1)))
         else r = Inr False \<and> view s' = view s"
proof -
  let ?c = "view s BUDGET_STATE_KEY" and ?d = "serialize_budget (reserve owner k est cycle b1)"
  obtain s1 where g: "op_get ops s BUDGET_STATE_KEY = (Inr (map_option (\<lambda>b. (b, ETag b)) ?c), s1)"
    and v1: "view s1 = view s"
    using reliable_store.get_cases [OF assms(1) TrueI] by blast
  then have load: "run ops t load_budget_cas s = (Inr (stored_budget t ?c, map_option ETag ?c), s1)"
    by (cases ?c) (simp_all add: load_budget_cas_def io_simps utc_now_def stored_budget_def)
  have "cond_holds (cond_of (map_option ETag ?c)) (view s1 BUDGET_STATE_KEY)"
    by (simp add: v1 cond_holds_current)
  then obtain s2 where p: "op_put ops s1 BUDGET_STATE_KEY ?d (cond_of (map_option ETag ?c)) = (Inr (ETag ?d), s2)"
    and v2: "view s2 = (view s1)(BUDGET_STATE_KEY := Some ?d)"
    using reliable_store.put_cases [OF assms(1) TrueI] by metis
  show ?thesis
    using assms(2,3) load p v1 v2
    by (auto simp: io_simps try_put_def split: if_splits)
qed

text \<open>
  a reservation whose first conditional write loses its answer is charged twice: the backend's retry
  reports a conflict, the loop reserves again on top of its own reservation, and the ledger holds one
  reservation but twice its cost, which releasing it cannot return.
\<close>

theorem lost_reply_double_charge:
  assumes "0 \<le> est" and "2 * est \<le> cap" and "1 < mx"
  shows "\<exists>b. run flaky_bucket_ops t (reserve_if_available owner k est cap mx None None (Suc (Suc n)))
         \<lparr>fb_objs = (\<lambda>_. None), fb_faults = [NoFault, LostReply]\<rparr> =
       (Inr True, \<lparr>fb_objs = (\<lambda>_. None)(BUDGET_STATE_KEY := Some (serialize_budget b)), fb_faults = []\<rparr>) \<and>
     map_option bl_used_units (map_of (bg_backends b) k) = Some (2 * est) \<and>
     map_option bl_inflight (map_of (bg_backends b) k) = Some [(owner, est)] \<and>
     map_option bl_used_units (map_of (bg_backends (release_budget owner k None b)) k) = Some est"
proof -
  let ?m = "month_key t"
  let ?l = "\<lambda>u. \<lparr>bl_used_units = u, bl_inflight = [(owner, est)], bl_cycle_key = ?m\<rparr>"
  let ?b = "\<lambda>u. \<lparr>bg_month = ?m, bg_backends = [(k, ?l u)], bg_runtime_estimates = []\<rparr>"
  let ?start = "\<lparr>bg_month = ?m, bg_backends = [(k, empty_ledger\<lparr>bl_cycle_key := ?m\<rparr>)], bg_runtime_estimates = []\<rparr>"
  have month: "?m \<noteq> ''''"
    by (simp add: month_key_def split: prod.split)
  have av1: "available k cap mx est None (empty_budget ?m) =
      (True, ?start)"
    using assms by (auto simp: available_def current_ledger_def empty_budget_def empty_ledger_def target_cycle_def
        put_ledger_def inflight_count_def Let_def)
  have r1: "reserve owner k est None (?start) = ?b est"
    by (simp add: reserve_def current_ledger_def empty_ledger_def target_cycle_def put_ledger_def Let_def)
  have dec: "decode_budget ?m (serialize_budget (?b est)) = ?b est"
    by (simp add: budget_decode_serialize norm_budget_def norm_ledger_def)
  have av2: "available k cap mx est None (?b est) = (True, ?b est)"
    using assms by (simp add: available_def current_ledger_def target_cycle_def put_ledger_def inflight_count_def Let_def)
  have r2: "reserve owner k est None (?b est) = ?b (2 * est)"
    by (simp add: reserve_def current_ledger_def target_cycle_def put_ledger_def Let_def)
  have roll: "roll_month t (?b u) = ?b u" "roll_month t (empty_budget ?m) = empty_budget ?m" for u
    by (simp_all add: roll_month_def empty_budget_def)
  have "run flaky_bucket_ops t (reserve_if_available owner k est cap mx None None (Suc (Suc n)))
         \<lparr>fb_objs = (\<lambda>_. None), fb_faults = [NoFault, LostReply]\<rparr> =
       (Inr True, \<lparr>fb_objs = (\<lambda>_. None)(BUDGET_STATE_KEY := Some (serialize_budget (?b (2 * est)))), fb_faults = []\<rparr>)"
    by (simp add: load_budget_cas_def io_simps utc_now_def flaky_get flaky_put flaky_put_lost av1 r1 av2 r2 dec roll
        try_put_def cond_of_def cond_holds_def is_conflict_def)
  moreover have "release_budget owner k None (?b (2 * est)) =
      ?b 0\<lparr>bg_backends := [(k, \<lparr>bl_used_units = est, bl_inflight = [], bl_cycle_key = ?m\<rparr>)]\<rparr>"
    using assms by (simp add: release_budget_def put_ledger_def max_def)
  ultimately show ?thesis by (intro exI [of _ "?b (2 * est)"]) simp
qed

subsection \<open>Concrete ledgers\<close>

definition demo_ledger :: backend_ledger where
  "demo_ledger = \<lparr>bl_used_units = 4, bl_inflight = [(''w1'', 4)], bl_cycle_key = month_key 0\<rparr>"

definition demo_budget :: budget where
  "demo_budget = \<lparr>bg_month = month_key 0, bg_backends = [(''modal'', demo_ledger)], bg_runtime_estimates = []\<rparr>"

lemma month_key_nonempty: "month_key t \<noteq> ''''"
  by (simp add: month_key_def split: prod.split)

definition demo_reserve :: "unit io" where
  "demo_reserve = forget (reserve_if_available ''w1'' ''modal'' 4 10 2 None None 8)"

lemma demo_reserve_run:
  "run r2_bucket 0 demo_reserve (\<lambda>_. None) = (Inr (), [BUDGET_STATE_KEY \<mapsto> serialize_budget demo_budget])"
proof -
  have "run r2_bucket 0 (forget (reserve_if_available ''w1'' ''modal'' 4 10 2 None None (Suc n))) (\<lambda>_. None) =
      (Inr (), [BUDGET_STATE_KEY \<mapsto> serialize_budget demo_budget])" for n
    by (simp add: forget_def load_budget_cas_def try_put_def utc_now_def io_simps available_def current_ledger_def
        empty_budget_def empty_ledger_def target_cycle_def put_ledger_def inflight_count_def reserve_def
        roll_month_def Let_def cond_of_def cond_holds_def demo_budget_def demo_ledger_def)
  from this [of 7] show ?thesis by (simp add: demo_reserve_def)
qed

lemmas demo_budget_reach = solo_reach [where launch = "\<lambda>_ p. p = demo_reserve" and i = 0, OF refl demo_reserve_run]

lemma demo_budget_client: "budget_client charge ''modal'' 10 2 demo_reserve"
  unfolding demo_reserve_def by (rule client_reserve) simp

lemma demo_budget_read: "map_of (bg_backends (decode_budget cur (serialize_budget demo_budget))) ''modal'' = Some demo_ledger"
  by (simp add: budget_decode_serialize norm_budget_backend demo_budget_def demo_ledger_def norm_ledger_def)

theorem cap_never_breached_witness:
  "bl_used_units demo_ledger \<le> 10 \<and> inflight_count demo_ledger \<le> 2"
  by (rule cap_never_breached [where view = "\<lambda>s. s" and k = "''modal''" and cap = 10 and mx = 2
        and d = "serialize_budget demo_budget" and cur = "''x''",
        OF r2_store _ _ demo_budget_reach _ _ _ demo_budget_read])
     (simp_all add: demo_budget_client stored_ok_def)

theorem spend_covers_reservations_witness:
  "sum_list (map snd (bl_inflight demo_ledger)) \<le> bl_used_units demo_ledger"
  by (rule spend_covers_reservations [where view = "\<lambda>s. s" and k = "''modal''" and cap = 10 and mx = 2
        and d = "serialize_budget demo_budget" and cur = "''x''",
        OF r2_store _ _ demo_budget_reach _ _ demo_budget_read])
     (simp_all add: demo_budget_client stored_ok_def)

theorem settle_exact_witness:
  "\<exists>l2. map_of (bg_backends (settle ''w2'' ''modal''
       \<lparr>sa_actual = Some 3, sa_cycle = None, sa_estimate_key = None, sa_audio_seconds = None, sa_actual_runtime = None,
        sa_estimated_runtime = None\<rparr> 0 (reserve ''w2'' ''modal'' 5 None (snd (current_ledger ''modal'' None demo_budget)))))
     ''modal'' = Some l2 \<and> bl_used_units l2 = 7"
proof -
  have c: "current_ledger ''modal'' None demo_budget = (demo_ledger, snd (current_ledger ''modal'' None demo_budget))"
    by (simp add: current_ledger_def demo_budget_def demo_ledger_def target_cycle_def Let_def)
  show ?thesis
    using settle_exact [OF c, of 5 3 "\<lparr>sa_actual = Some 3, sa_cycle = None, sa_estimate_key = None,
        sa_audio_seconds = None, sa_actual_runtime = None, sa_estimated_runtime = None\<rparr>" _ "''w2''" 0, OF _ _ _ _ _ refl]
    by (force simp: demo_ledger_def)
qed

theorem cycle_isolation_witness:
  "release_budget ''w1'' ''modal'' (Some ''x'') demo_budget = demo_budget"
proof -
  have "month_key 0 = ''1970-01''" by code_simp
  then have "bl_cycle_key demo_ledger \<noteq> ''x''" by (simp add: demo_ledger_def)
  then show ?thesis
    using cycle_isolation [of demo_budget "''modal''" demo_ledger "''x''"] by (simp add: demo_budget_def)
qed

theorem reserve_outcome_witness:
  "fst (run r2_bucket 0 (reserve_if_available ''w1'' ''modal'' 4 10 2 None None 8) (\<lambda>_. None)) = Inr True"
proof -
  have av: "available ''modal'' 10 2 4 None (roll_month 0 (stored_budget 0 None)) =
      (True, snd (available ''modal'' 10 2 4 None (roll_month 0 (stored_budget 0 None))))"
    by (simp add: stored_budget_def roll_month_def empty_budget_def available_def current_ledger_def empty_ledger_def
        target_cycle_def inflight_count_def Let_def)
  have "(8::nat) = Suc 7" by simp
  then show ?thesis
    using reserve_outcome [where view = "\<lambda>s. s" and s = "\<lambda>_. None" and n = 7, OF r2_reliable prod.collapse [symmetric] av,
        of "''w1''"]
    by (simp only: if_True)
qed

theorem lost_reply_double_charge_witness:
  "\<exists>b :: budget. map_option bl_used_units (map_of (bg_backends b) ''modal'') = Some 8 \<and>
     map_option bl_inflight (map_of (bg_backends b) ''modal'') = Some [(''w1'', 4)]"
proof -
  have "0 \<le> (4::rat)" "2 * 4 \<le> (10::rat)" "(1::int) < 2" by simp_all
  from lost_reply_double_charge [OF this, of 0 "''w1''" "''modal''" 6]
  obtain b :: budget where "map_option bl_used_units (map_of (bg_backends b) ''modal'') = Some (2 * 4)"
    and "map_option bl_inflight (map_of (bg_backends b) ''modal'') = Some [(''w1'', 4)]"
    by blast
  then show ?thesis by (intro exI [of _ b]) simp
qed

end
