(* ===== verification/Timeline.thy ===== *)
theory Timeline
  imports Prelude
begin

section \<open>The edit decision list of a served enclosure\<close>

text \<open>
  \<open>citypods/timeline.py\<close>: the mapping between served time and source time. Times are rationals: the
  code's floating-point arithmetic without its rounding. A value error of a constructor and a type error
  of a comparison with \<open>None\<close> are results. The digest \<open>hashlib.sha1(...).hexdigest()[:12]\<close> is the
  parameter \<open>sha1_12\<close>.
\<close>

record source_media =
  sm_id :: string
  sm_provider :: string
  sm_ref :: string
  sm_media_kind :: string
  sm_duration :: "rat option"
  sm_watch_url :: "string option"
  sm_backup_key :: "string option"
  sm_duration_basis :: "string option"

record segment =
  sg_served_start :: rat
  sg_served_end :: rat
  sg_kind :: string
  sg_source_id :: "string option"
  sg_source_start :: "rat option"
  sg_source_end :: "rat option"
  sg_insert :: "string option"
  sg_asset_id :: "string option"
  sg_asset_version :: "string option"

text \<open>\<open>Segment.__post_init__\<close>: a segment whose fields do not fit its kind is rejected.\<close>

definition segment_ok :: "segment \<Rightarrow> bool" where
  "segment_ok s =
     (if sg_kind s = ''source'' then
        sg_source_id s \<noteq> None \<and> sg_source_start s \<noteq> None \<and>
        sg_insert s = None \<and> sg_asset_id s = None \<and> sg_asset_version s = None
      else if sg_kind s = ''insert'' then
        sg_insert s \<noteq> None \<and> sg_source_id s = None \<and> sg_source_start s = None \<and> sg_source_end s = None
      else False)"

definition make_segment :: "segment \<Rightarrow> exn + segment" where
  "make_segment s = (if segment_ok s then Inr s else Inl ValueError)"

record timeline =
  tl_version :: string
  tl_segments :: "segment list"
  tl_basis :: string

definition source_segment :: "rat \<Rightarrow> rat \<Rightarrow> string \<Rightarrow> rat \<Rightarrow> rat option \<Rightarrow> segment" where
  "source_segment a b sid c d =
     \<lparr>sg_served_start = a, sg_served_end = b, sg_kind = ''source'', sg_source_id = Some sid,
      sg_source_start = Some c, sg_source_end = d, sg_insert = None, sg_asset_id = None, sg_asset_version = None\<rparr>"

definition identity_timeline :: "source_media \<Rightarrow> rat \<Rightarrow> timeline" where
  "identity_timeline source duration =
     \<lparr>tl_version = ''identity'',
      tl_segments = [source_segment 0 duration (sm_id source) 0 (Some duration)],
      tl_basis = ''served''\<rparr>"

subsection \<open>Digest and duration\<close>

definition is_identity :: "timeline \<Rightarrow> source_media list \<Rightarrow> bool" where
  "is_identity edl sources =
     (case tl_segments edl of
        [s] \<Rightarrow>
          sg_kind s = ''source'' \<and> sg_source_id s \<noteq> None \<and> sg_served_start s = 0 \<and>
          sg_source_start s = Some 0 \<and> Some (sg_served_start s) = sg_source_start s \<and>
          Some (sg_served_end s) = sg_source_end s \<and>
          (sources = [] \<or>
           (case find (\<lambda>m. Some (sm_id m) = sg_source_id s) sources of
              None \<Rightarrow> False
            | Some m \<Rightarrow> (case sm_duration m of None \<Rightarrow> True | Some d \<Rightarrow> sg_source_end s = Some d)))
      | _ \<Rightarrow> False)"

definition opt_rat_json :: "rat option \<Rightarrow> json" where
  "opt_rat_json v = (case v of None \<Rightarrow> JNull | Some q \<Rightarrow> JFloat q)"

definition opt_str_json :: "string option \<Rightarrow> json" where
  "opt_str_json v = (case v of None \<Rightarrow> JNull | Some s \<Rightarrow> JStr s)"

definition segment_to_json :: "segment \<Rightarrow> json" where
  "segment_to_json s =
     JObj [(''served_start'', JFloat (sg_served_start s)), (''served_end'', JFloat (sg_served_end s)),
           (''kind'', JStr (sg_kind s)), (''source_id'', opt_str_json (sg_source_id s)),
           (''source_start'', opt_rat_json (sg_source_start s)), (''source_end'', opt_rat_json (sg_source_end s)),
           (''insert'', opt_str_json (sg_insert s)), (''asset_id'', opt_str_json (sg_asset_id s)),
           (''asset_version'', opt_str_json (sg_asset_version s))]"

definition timeline_to_json :: "timeline \<Rightarrow> json" where
  "timeline_to_json edl =
     JObj [(''version'', JStr (tl_version edl)), (''segments'', JList (map segment_to_json (tl_segments edl))),
           (''basis'', JStr (tl_basis edl))]"

definition timeline_digest :: "(blob \<Rightarrow> string) \<Rightarrow> timeline \<Rightarrow> source_media list \<Rightarrow> string" where
  "timeline_digest sha1_12 edl sources =
     (if is_identity edl sources then '''' else sha1_12 (dumps_sorted (timeline_to_json edl)))"

definition edl_duration :: "timeline option \<Rightarrow> rat option" where
  "edl_duration edl =
     (case edl of
        None \<Rightarrow> None
      | Some edl \<Rightarrow>
          (if tl_segments edl = [] then None
           else (let total = sum_list (map (\<lambda>s. sg_served_end s - sg_served_start s) (tl_segments edl))
                 in if 0 < total then Some total else None)))"

subsection \<open>Time maps\<close>

text \<open>Half-open spans, the last one closed.\<close>

primrec served_scan :: "segment list \<Rightarrow> rat \<Rightarrow> (string \<times> rat) option" where
  "served_scan [] t = None"
| "served_scan (s # segs) t =
     (if sg_served_start s \<le> t \<and> (if segs \<noteq> [] then t < sg_served_end s else t \<le> sg_served_end s)
      then (if sg_kind s = ''insert'' then None
            else Some (the (sg_source_id s), the (sg_source_start s) + (t - sg_served_start s)))
      else served_scan segs t)"

definition served_to_source :: "timeline \<Rightarrow> rat \<Rightarrow> (string \<times> rat) option" where
  "served_to_source edl t = served_scan (tl_segments edl) t"

definition source_segs :: "timeline \<Rightarrow> string option \<Rightarrow> segment list" where
  "source_segs edl source_id = filter (\<lambda>s. sg_kind s = ''source'' \<and> sg_source_id s = source_id) (tl_segments edl)"

text \<open>Comparing a time with an absent \<open>source_end\<close> is a type error.\<close>

primrec source_scan :: "segment list \<Rightarrow> rat \<Rightarrow> exn + rat option" where
  "source_scan [] t = Inr None"
| "source_scan (s # segs) t =
     (case sg_source_start s of
        None \<Rightarrow> Inl TypeError
      | Some a \<Rightarrow>
          if \<not> a \<le> t then source_scan segs t
          else
            (case sg_source_end s of
               None \<Rightarrow> Inl TypeError
             | Some b \<Rightarrow>
                 if (if segs \<noteq> [] then t < b else t \<le> b) then Inr (Some (sg_served_start s + (t - a)))
                 else source_scan segs t))"

definition source_to_served :: "timeline \<Rightarrow> string option \<Rightarrow> rat \<Rightarrow> exn + rat option" where
  "source_to_served edl source_id t = source_scan (source_segs edl source_id) t"

definition by_source_start :: "segment list \<Rightarrow> segment list" where
  "by_source_start segs = sort_key (\<lambda>s. the (sg_source_start s)) segs"

primrec cut_boundary_scan :: "segment list \<Rightarrow> rat \<Rightarrow> rat option \<Rightarrow> rat option" where
  "cut_boundary_scan [] t boundary = boundary"
| "cut_boundary_scan (s # segs) t boundary =
     (if the (sg_source_start s) \<le> t then cut_boundary_scan segs t (Some (sg_served_end s)) else boundary)"

definition nearest_cut_boundary :: "timeline \<Rightarrow> string option \<Rightarrow> rat \<Rightarrow> rat option" where
  "nearest_cut_boundary edl source_id t = cut_boundary_scan (by_source_start (source_segs edl source_id)) t None"

definition next_kept_boundary :: "timeline \<Rightarrow> string option \<Rightarrow> rat \<Rightarrow> rat option" where
  "next_kept_boundary edl source_id t =
     map_option sg_served_start
       (find (\<lambda>s. case sg_source_start s of None \<Rightarrow> False | Some a \<Rightarrow> t < a)
         (by_source_start (source_segs edl source_id)))"

subsection \<open>Remapping items\<close>

text \<open>A timestamp of an item is compared with the spans of its source: anything but a number raises, when
there is a span to compare it with.\<close>

fun json_number :: "json \<Rightarrow> exn + rat" where
  "json_number (JInt i) = Inr (of_int i)"
| "json_number (JFloat q) = Inr q"
| "json_number (JBool b) = Inr (if b then 1 else 0)"
| "json_number _ = Inl TypeError"

definition item_time :: "timeline \<Rightarrow> string option \<Rightarrow> json \<Rightarrow> exn + rat" where
  "item_time edl source_id raw = (if source_segs edl source_id = [] then Inr 0 else json_number raw)"

definition remap_end ::
  "timeline \<Rightarrow> string option \<Rightarrow> rat option \<Rightarrow> pydict \<Rightarrow> pydict \<Rightarrow> exn + pydict" where
  "remap_end edl source_id clamp_to item new_item =
     (case map_of item ''end'' of
        None \<Rightarrow> Inr new_item
      | Some JNull \<Rightarrow> Inr new_item
      | Some raw \<Rightarrow>
          (case item_time edl source_id raw of
             Inl e \<Rightarrow> Inl e
           | Inr t \<Rightarrow>
               (case source_to_served edl source_id t of
                  Inl e \<Rightarrow> Inl e
                | Inr found \<Rightarrow>
                    (let new_end =
                       (case (found, clamp_to) of
                          (None, Some c) \<Rightarrow>
                            (case nearest_cut_boundary edl source_id t of None \<Rightarrow> Some c | Some b \<Rightarrow> Some b)
                        | _ \<Rightarrow> found)
                     in Inr (AList.update ''end'' (opt_rat_json new_end) new_item)))))"

definition remap_item ::
  "timeline \<Rightarrow> string option \<Rightarrow> rat option \<Rightarrow> bool \<Rightarrow> pydict \<Rightarrow> exn + pydict option" where
  "remap_item edl source_id clamp_to snap_cut_starts item =
     (case map_of item ''start'' of
        None \<Rightarrow> Inl KeyError
      | Some raw \<Rightarrow>
          (case item_time edl source_id raw of
             Inl e \<Rightarrow> Inl e
           | Inr t \<Rightarrow>
               (case source_to_served edl source_id t of
                  Inl e \<Rightarrow> Inl e
                | Inr found \<Rightarrow>
                    (let new_start = (case found of
                         Some x \<Rightarrow> Some x
                       | None \<Rightarrow> if snap_cut_starts then next_kept_boundary edl source_id t else None)
                     in case new_start of
                          None \<Rightarrow> Inr None
                        | Some x \<Rightarrow>
                            map_sum id Some
                              (remap_end edl source_id clamp_to item (AList.update ''start'' (JFloat x) item))))))"

primrec remap_items ::
  "timeline \<Rightarrow> string option \<Rightarrow> rat option \<Rightarrow> bool \<Rightarrow> pydict list \<Rightarrow> exn + pydict list" where
  "remap_items edl source_id clamp_to snap_cut_starts [] = Inr []"
| "remap_items edl source_id clamp_to snap_cut_starts (item # items) =
     (case remap_item edl source_id clamp_to snap_cut_starts item of
        Inl e \<Rightarrow> Inl e
      | Inr r \<Rightarrow>
          (case remap_items edl source_id clamp_to snap_cut_starts items of
             Inl e \<Rightarrow> Inl e
           | Inr rs \<Rightarrow> Inr ((case r of None \<Rightarrow> [] | Some x \<Rightarrow> [x]) @ rs)))"

definition default_source_id :: "timeline \<Rightarrow> string option" where
  "default_source_id edl =
     (case find (\<lambda>s. sg_kind s = ''source'' \<and> sg_source_id s \<noteq> None) (tl_segments edl) of
        None \<Rightarrow> None
      | Some s \<Rightarrow> sg_source_id s)"

definition remap ::
  "timeline \<Rightarrow> pydict list \<Rightarrow> string option \<Rightarrow> rat option \<Rightarrow> bool \<Rightarrow> exn + pydict list" where
  "remap edl items source_id clamp_to snap_cut_starts =
     remap_items edl (case source_id of None \<Rightarrow> default_source_id edl | Some s \<Rightarrow> Some s)
       clamp_to snap_cut_starts items"

end
