(* ===== verification/Timeline_Properties.thy ===== *)
theory Timeline_Properties
  imports Timeline
begin

section \<open>The two time maps are inverse and monotone\<close>

text \<open>
  A well-formed timeline covers \<open>[0, D]\<close> with abutting spans, maps every source span to a served span of
  its length and takes the spans of each source in order. On these, the two maps are inverse to each other
  up to the seam the code documents, and remapped items stay ordered and inside the episode.
\<close>

primrec span_chain :: "rat \<Rightarrow> segment list \<Rightarrow> bool" where
  "span_chain a [] = True"
| "span_chain a (s # segs) =
     (sg_served_start s = a \<and> a < sg_served_end s \<and> span_chain (sg_served_end s) segs)"

definition same_length :: "segment \<Rightarrow> bool" where
  "same_length s =
     (segment_ok s \<and>
      (sg_kind s = ''source'' \<longrightarrow>
         sg_source_end s = Some (the (sg_source_start s) + (sg_served_end s - sg_served_start s))))"

abbreviation src_lo :: "segment \<Rightarrow> rat" where "src_lo s \<equiv> the (sg_source_start s)"
abbreviation src_hi :: "segment \<Rightarrow> rat" where "src_hi s \<equiv> the (sg_source_end s)"

definition source_order :: "segment \<Rightarrow> segment \<Rightarrow> bool" where
  "source_order s u =
     (sg_kind s = ''source'' \<and> sg_kind u = ''source'' \<and> sg_source_id s = sg_source_id u \<longrightarrow>
        src_hi s \<le> src_lo u)"

definition wf_edl :: "timeline \<Rightarrow> bool" where
  "wf_edl edl =
     (tl_segments edl \<noteq> [] \<and> span_chain 0 (tl_segments edl) \<and>
      list_all same_length (tl_segments edl) \<and> sorted_wrt source_order (tl_segments edl))"

subsection \<open>A scan over ordered spans\<close>

primrec span_find ::
  "(segment \<Rightarrow> rat) \<Rightarrow> (segment \<Rightarrow> rat) \<Rightarrow> segment list \<Rightarrow> rat \<Rightarrow> segment option" where
  "span_find lo hi [] t = None"
| "span_find lo hi (s # segs) t =
     (if lo s \<le> t \<and> (if segs \<noteq> [] then t < hi s else t \<le> hi s) then Some s else span_find lo hi segs t)"

definition ordered_spans :: "(segment \<Rightarrow> rat) \<Rightarrow> (segment \<Rightarrow> rat) \<Rightarrow> segment list \<Rightarrow> bool" where
  "ordered_spans lo hi segs = (sorted_wrt (\<lambda>s u. hi s \<le> lo u) segs \<and> (\<forall>s\<in>set segs. lo s < hi s))"

lemma ordered_spans_Cons:
  "ordered_spans lo hi (s # segs) =
     (lo s < hi s \<and> (\<forall>u\<in>set segs. hi s \<le> lo u) \<and> ordered_spans lo hi segs)"
  by (auto simp: ordered_spans_def)

lemma ordered_spans_filter: "ordered_spans lo hi segs \<Longrightarrow> ordered_spans lo hi (filter P segs)"
  by (auto simp: ordered_spans_def sorted_wrt_filter)

lemma span_len: "ordered_spans lo hi segs \<Longrightarrow> s \<in> set segs \<Longrightarrow> lo s < hi s"
  by (simp add: ordered_spans_def)

lemma span_apart:
  assumes "ordered_spans lo hi segs" "s \<in> set segs" "u \<in> set segs"
  shows "s = u \<or> hi s \<le> lo u \<or> hi u \<le> lo s"
  using assms by (induction segs) (simp, metis ordered_spans_Cons set_ConsD)

lemma span_before:
  assumes ord: "ordered_spans lo hi segs" and s: "s \<in> set segs" and u: "u \<in> set segs" and less: "lo s < lo u"
  shows "hi s \<le> lo u"
  using span_apart [OF ord s u] span_len [OF ord u] less by auto

lemma span_same:
  assumes ord: "ordered_spans lo hi segs" and s: "s \<in> set segs" and u: "u \<in> set segs" and eq: "lo s = lo u"
  shows "s = u"
  using span_apart [OF ord s u] span_len [OF ord u] span_len [OF ord s] eq by auto

lemma span_find_Some:
  assumes "span_find lo hi segs t = Some s" "ordered_spans lo hi segs"
  shows "s \<in> set segs \<and> lo s \<le> t \<and> t \<le> hi s \<and> (t < hi s \<or> (\<forall>u\<in>set segs. lo u \<le> lo s))"
  using assms
proof (induction segs)
  case (Cons a segs)
  show ?case
  proof (cases "lo a \<le> t \<and> (if segs \<noteq> [] then t < hi a else t \<le> hi a)")
    case True
    then show ?thesis using Cons.prems by (auto split: if_splits)
  next
    case False
    then have found: "span_find lo hi segs t = Some s" using Cons.prems(1) by (simp only: span_find.simps if_False)
    have "lo a \<le> lo u" if "u \<in> set segs" for u using that Cons.prems(2) by (force simp: ordered_spans_Cons)
    then show ?thesis using Cons.IH [OF found] Cons.prems(2) by (auto simp: ordered_spans_Cons)
  qed
qed simp

lemma span_find_None:
  assumes "span_find lo hi segs t = None" "s \<in> set segs"
  shows "\<not> (lo s \<le> t \<and> t < hi s)"
  using assms by (induction segs) (auto split: if_splits)

lemma span_find_None_last:
  assumes "span_find lo hi segs t = None" "ordered_spans lo hi segs" "s \<in> set segs" "\<forall>u\<in>set segs. lo u \<le> lo s"
  shows "\<not> (lo s \<le> t \<and> t \<le> hi s)"
  using assms
proof (induction segs)
  case (Cons a segs)
  show ?case
  proof (cases "segs = []")
    case True
    then show ?thesis using Cons.prems by (auto split: if_splits)
  next
    case False
    then have rest: "span_find lo hi segs t = None" using Cons.prems(1) by (simp split: if_splits)
    obtain u where "u \<in> set segs" using False by (cases segs) auto
    then have "s \<noteq> a" using Cons.prems(2,4) by (force simp: ordered_spans_Cons)
    then show ?thesis using Cons.IH [OF rest] Cons.prems(2-4) by (simp add: ordered_spans_Cons)
  qed
qed simp

lemma span_find_hit:
  assumes ord: "ordered_spans lo hi segs" and s: "s \<in> set segs" and t: "lo s \<le> t" "t \<le> hi s"
    and last: "t < hi s \<or> (\<forall>u\<in>set segs. lo u \<le> lo s)"
  shows "span_find lo hi segs t = Some s"
proof (cases "span_find lo hi segs t")
  case None
  then show ?thesis using span_find_None [OF None s] span_find_None_last [OF None ord s] t last by auto
next
  case (Some u)
  note u = span_find_Some [OF Some ord]
  have "lo s = lo u"
  proof (rule ccontr)
    assume "lo s \<noteq> lo u"
    then consider "lo s < lo u" | "lo u < lo s" by linarith
    then show False
    proof cases
      case 1
      then have "hi s \<le> lo u" using span_before [OF ord s] u by blast
      then show False using 1 last u t by force
    next
      case 2
      then have "hi u \<le> lo s" using span_before [OF ord _ s] u by blast
      then show False using 2 s u t by force
    qed
  qed
  then have "s = u" using span_same [OF ord s] u by blast
  then show ?thesis using Some by simp
qed

subsection \<open>Well-formed timelines\<close>

lemma chain_ordered:
  "span_chain a segs \<Longrightarrow>
     ordered_spans sg_served_start sg_served_end segs \<and> (\<forall>s\<in>set segs. a \<le> sg_served_start s)"
  by (induction segs arbitrary: a) (auto simp: ordered_spans_Cons ordered_spans_def, force+)

lemma chain_end:
  "span_chain a segs \<Longrightarrow> segs \<noteq> [] \<Longrightarrow>
     a < sg_served_end (last segs) \<and> (\<forall>s\<in>set segs. sg_served_end s \<le> sg_served_end (last segs)) \<and>
     sum_list (map (\<lambda>s. sg_served_end s - sg_served_start s) segs) = sg_served_end (last segs) - a"
proof (induction segs arbitrary: a)
  case (Cons s segs)
  show ?case
  proof (cases "segs = []")
    case False
    then show ?thesis using Cons.IH [of "sg_served_end s"] Cons.prems by (auto simp: chain_ordered)
  qed (use Cons.prems in auto)
qed simp

lemma wf_served: "wf_edl edl \<Longrightarrow> ordered_spans sg_served_start sg_served_end (tl_segments edl)"
  unfolding wf_edl_def by (blast dest: chain_ordered)

text \<open>What is known of a source span of a well-formed timeline.\<close>

lemma source_seg_facts:
  assumes "wf_edl edl" "s \<in> set (source_segs edl sid)"
  shows "s \<in> set (tl_segments edl)" "sg_kind s = ''source''" "sg_source_id s = sid" "sid \<noteq> None"
    "sg_source_start s = Some (src_lo s)" "sg_source_end s = Some (src_hi s)"
    "src_hi s - src_lo s = sg_served_end s - sg_served_start s" "sg_served_start s < sg_served_end s"
    "src_lo s < src_hi s" "0 \<le> sg_served_start s" "sg_served_end s \<le> sg_served_end (last (tl_segments edl))"
proof -
  have mem: "s \<in> set (tl_segments edl)" "sg_kind s = ''source''" "sg_source_id s = sid"
    using assms(2) by (auto simp: source_segs_def)
  then have ok: "same_length s" using assms(1) by (auto simp: wf_edl_def list_all_iff)
  have chain: "span_chain 0 (tl_segments edl)" "tl_segments edl \<noteq> []" using assms(1) by (auto simp: wf_edl_def)
  show "s \<in> set (tl_segments edl)" "sg_kind s = ''source''" "sg_source_id s = sid" by fact+
  show "sid \<noteq> None" "sg_source_start s = Some (src_lo s)" "sg_source_end s = Some (src_hi s)"
    "src_hi s - src_lo s = sg_served_end s - sg_served_start s"
    using ok mem by (auto simp: same_length_def segment_ok_def)
  show "sg_served_start s < sg_served_end s"
    using mem(1) chain_ordered [OF chain(1)] by (auto dest: span_len)
  then show "src_lo s < src_hi s" using ok mem by (auto simp: same_length_def segment_ok_def)
  show "0 \<le> sg_served_start s" "sg_served_end s \<le> sg_served_end (last (tl_segments edl))"
    using mem(1) chain_ordered [OF chain(1)] chain_end [OF chain] by auto
qed

lemma wf_source:
  assumes wf: "wf_edl edl"
  shows "ordered_spans src_lo src_hi (source_segs edl sid)"
proof -
  have "sorted_wrt source_order (source_segs edl sid)"
    using wf by (simp add: wf_edl_def source_segs_def sorted_wrt_filter)
  moreover have "\<And>s u. s \<in> set (source_segs edl sid) \<Longrightarrow> u \<in> set (source_segs edl sid) \<Longrightarrow>
      source_order s u \<Longrightarrow> src_hi s \<le> src_lo u"
    by (auto simp: source_order_def source_segs_def)
  ultimately have "sorted_wrt (\<lambda>s u. src_hi s \<le> src_lo u) (source_segs edl sid)"
    by (blast intro: sorted_wrt_mono_rel)
  then show ?thesis using source_seg_facts(9) [OF wf] by (simp add: ordered_spans_def)
qed

lemma wf_source_served:
  "wf_edl edl \<Longrightarrow> ordered_spans sg_served_start sg_served_end (source_segs edl sid)"
  unfolding source_segs_def by (blast intro: ordered_spans_filter wf_served)

text \<open>Source order and served order agree on the spans of one source.\<close>

lemma wf_both_order:
  assumes wf: "wf_edl edl" and s: "s \<in> set (source_segs edl sid)" and u: "u \<in> set (source_segs edl sid)"
    and less: "src_lo s < src_lo u"
  shows "sg_served_end s \<le> sg_served_start u"
proof -
  have "sorted_wrt (\<lambda>s u. src_hi s \<le> src_lo u \<and> sg_served_end s \<le> sg_served_start u) (source_segs edl sid)"
    using wf_source [OF wf] wf_source_served [OF wf]
    by (simp add: ordered_spans_def sorted_wrt_iff_nth_less)
  then obtain i j where ij: "i < length (source_segs edl sid)" "j < length (source_segs edl sid)"
      "s = source_segs edl sid ! i" "u = source_segs edl sid ! j"
      and nth: "\<And>i j. i < j \<Longrightarrow> j < length (source_segs edl sid) \<Longrightarrow>
         src_hi (source_segs edl sid ! i) \<le> src_lo (source_segs edl sid ! j) \<and>
         sg_served_end (source_segs edl sid ! i) \<le> sg_served_start (source_segs edl sid ! j)"
    using s u unfolding sorted_wrt_iff_nth_less in_set_conv_nth by metis
  have "i < j"
  proof (rule ccontr)
    assume "\<not> i < j"
    then have "i = j \<or> j < i" by auto
    then show False using nth [of j i] ij less source_seg_facts(9) [OF wf u] source_seg_facts(9) [OF wf s] by auto
  qed
  then show ?thesis using nth [of i j] ij by simp
qed

lemma served_scan_find:
  "served_scan segs t =
     (case span_find sg_served_start sg_served_end segs t of
        None \<Rightarrow> None
      | Some s \<Rightarrow> if sg_kind s = ''insert'' then None
                  else Some (the (sg_source_id s), src_lo s + (t - sg_served_start s)))"
  by (induction segs) auto

lemma source_scan_find:
  "(\<And>s. s \<in> set segs \<Longrightarrow> sg_source_start s = Some (src_lo s) \<and> sg_source_end s = Some (src_hi s)) \<Longrightarrow>
   source_scan segs t =
     Inr (map_option (\<lambda>s. sg_served_start s + (t - src_lo s)) (span_find src_lo src_hi segs t))"
proof (induction segs)
  case (Cons s segs)
  obtain a b where "sg_source_start s = Some a" "sg_source_end s = Some b"
    using Cons.prems [of s] by (metis list.set_intros(1))
  moreover have "source_scan segs t =
     Inr (map_option (\<lambda>s. sg_served_start s + (t - src_lo s)) (span_find src_lo src_hi segs t))"
    by (rule Cons.IH) (use Cons.prems in auto)
  ultimately show ?case by (cases "a \<le> t") auto
qed simp

lemma source_to_served_find:
  assumes "wf_edl edl"
  shows "source_to_served edl sid t =
     Inr (map_option (\<lambda>s. sg_served_start s + (t - src_lo s)) (span_find src_lo src_hi (source_segs edl sid) t))"
  unfolding source_to_served_def
  by (rule source_scan_find) (use source_seg_facts(5,6) [OF assms] in blast)

subsection \<open>The maps are inverse\<close>

lemma served_hit:
  assumes wf: "wf_edl edl" and hit: "served_to_source edl t = Some (sid, u)"
  obtains s where "s \<in> set (source_segs edl (Some sid))" "sg_served_start s \<le> t" "t \<le> sg_served_end s"
    "u = src_lo s + (t - sg_served_start s)"
    "t < sg_served_end s \<or> (\<forall>v\<in>set (tl_segments edl). sg_served_start v \<le> sg_served_start s)"
proof -
  obtain s where found: "span_find sg_served_start sg_served_end (tl_segments edl) t = Some s"
      and val: "sg_kind s \<noteq> ''insert''" "sid = the (sg_source_id s)" "u = src_lo s + (t - sg_served_start s)"
    using hit by (auto simp: served_to_source_def served_scan_find split: option.splits if_splits)
  note s = span_find_Some [OF found wf_served [OF wf]]
  have "segment_ok s" using s wf by (auto simp: wf_edl_def list_all_iff same_length_def)
  then have "s \<in> set (source_segs edl (Some sid))"
    using s val(1,2) by (auto simp: source_segs_def segment_ok_def split: if_splits)
  then show thesis using s val(3) that by blast
qed

lemma source_hit:
  assumes wf: "wf_edl edl" and hit: "source_to_served edl sid u = Inr (Some t)"
  obtains s where "s \<in> set (source_segs edl sid)" "src_lo s \<le> u" "u \<le> src_hi s"
    "t = sg_served_start s + (u - src_lo s)"
    "u < src_hi s \<or> (\<forall>v\<in>set (source_segs edl sid). src_lo v \<le> src_lo s)"
  using hit span_find_Some [OF _ wf_source [OF wf, of sid], of u]
  by (auto simp: source_to_served_find [OF wf])

lemma served_then_source:
  assumes wf: "wf_edl edl" and hit: "served_to_source edl t = Some (sid, u)"
  shows "source_to_served edl (Some sid) u = Inr (Some t)"
proof -
  from served_hit [OF wf hit] obtain s where s: "s \<in> set (source_segs edl (Some sid))"
      "sg_served_start s \<le> t" "t \<le> sg_served_end s" "u = src_lo s + (t - sg_served_start s)"
      "t < sg_served_end s \<or> (\<forall>v\<in>set (tl_segments edl). sg_served_start v \<le> sg_served_start s)" .
  have "u < src_hi s \<or> (\<forall>v\<in>set (source_segs edl (Some sid)). src_lo v \<le> src_lo s)"
  proof (cases "t < sg_served_end s")
    case True
    then show ?thesis using s(4) source_seg_facts(7) [OF wf s(1)] by auto
  next
    case False
    have "src_lo v \<le> src_lo s" if v: "v \<in> set (source_segs edl (Some sid))" for v
      using False s(5) source_seg_facts(1) [OF wf v] wf_both_order [OF wf s(1) v] source_seg_facts(8) [OF wf s(1)]
      by force
    then show ?thesis by blast
  qed
  then have "span_find src_lo src_hi (source_segs edl (Some sid)) u = Some s"
    using s source_seg_facts(7) [OF wf s(1)] by (intro span_find_hit wf_source [OF wf]) auto
  then show "source_to_served edl (Some sid) u = Inr (Some t)"
    using s(4) by (simp add: source_to_served_find [OF wf])
qed

definition seam :: "timeline \<Rightarrow> string \<Rightarrow> rat \<Rightarrow> rat \<Rightarrow> bool" where
  "seam edl sid u t =
     list_ex (\<lambda>s. sg_source_end s = Some u \<and> sg_served_end s = t \<and>
                sg_served_end s < sg_served_end (last (tl_segments edl))) (source_segs edl (Some sid))"

lemma source_then_served:
  assumes wf: "wf_edl edl" and hit: "source_to_served edl (Some sid) u = Inr (Some t)"
  shows "served_to_source edl t = Some (sid, u) \<or> seam edl sid u t"
proof -
  from source_hit [OF wf hit] obtain s where s: "s \<in> set (source_segs edl (Some sid))"
      "src_lo s \<le> u" "u \<le> src_hi s" "t = sg_served_start s + (u - src_lo s)" by blast
  note facts = source_seg_facts [OF wf s(1)]
  have chain: "span_chain 0 (tl_segments edl)" "tl_segments edl \<noteq> []" using wf by (auto simp: wf_edl_def)
  consider "t < sg_served_end s \<or> sg_served_end s = sg_served_end (last (tl_segments edl))"
    | "t = sg_served_end s" "sg_served_end s < sg_served_end (last (tl_segments edl))"
    using facts(7,11) s(3,4) by fastforce
  then show ?thesis
  proof cases
    case 1
    have "sg_served_start v \<le> sg_served_start s"
      if v: "v \<in> set (tl_segments edl)" and stop: "sg_served_end s = sg_served_end (last (tl_segments edl))" for v
    proof (rule ccontr)
      assume "\<not> sg_served_start v \<le> sg_served_start s"
      then have "sg_served_end s \<le> sg_served_start v"
        using span_before [OF wf_served [OF wf] facts(1) v] by simp
      moreover have "sg_served_start v < sg_served_end v" by (rule span_len [OF wf_served [OF wf] v])
      moreover have "sg_served_end v \<le> sg_served_end (last (tl_segments edl))" using chain_end [OF chain] v by blast
      ultimately show False using stop by simp
    qed
    with 1 have "t < sg_served_end s \<or> (\<forall>v\<in>set (tl_segments edl). sg_served_start v \<le> sg_served_start s)"
      by blast
    then have "span_find sg_served_start sg_served_end (tl_segments edl) t = Some s"
      using s(2-4) facts(1,7,8) by (intro span_find_hit wf_served [OF wf]) auto
    then show ?thesis using s(4) facts(2,3) by (simp add: served_to_source_def served_scan_find)
  next
    case 2
    then have "u = src_hi s" using s(4) facts(7) by simp
    then show ?thesis using 2 s(1) facts(6) unfolding seam_def list_ex_iff by metis
  qed
qed

text \<open>C38: On a well-formed edit list, mapping a listener's instant to the city's video and back gives the same
instant. Mapping a source instant to the served clock and back gives the same source instant, except at the
end of the last span kept of a source when another segment follows it: the concatenation seam which the
documentation of \<open>source_to_served\<close> describes, and nowhere else.\<close>

theorem time_maps_inverse:
  assumes "wf_edl edl"
  shows "(served_to_source edl t = Some (sid, u) \<longrightarrow> source_to_served edl (Some sid) u = Inr (Some t)) \<and>
    (source_to_served edl (Some sid) u = Inr (Some t) \<longrightarrow>
       served_to_source edl t = Some (sid, u) \<or> seam edl sid u t)"
  using served_then_source [OF assms] source_then_served [OF assms] by blast

text \<open>Two sources with a title card between them: minutes 10 to 40 of the first, a 5-second insert, and the
first 20 minutes of the second.\<close>

definition sample_edl :: timeline where
  "sample_edl =
     \<lparr>tl_version = ''v2'',
      tl_segments =
        [source_segment 0 1800 ''s0'' 600 (Some 2400),
         \<lparr>sg_served_start = 1800, sg_served_end = 1805, sg_kind = ''insert'', sg_source_id = None,
          sg_source_start = None, sg_source_end = None, sg_insert = Some ''gap'', sg_asset_id = None,
          sg_asset_version = None\<rparr>,
         source_segment 1805 3005 ''s1'' 0 (Some 1200)],
      tl_basis = ''served''\<rparr>"

lemmas sample_simps = sample_edl_def source_segment_def wf_edl_def same_length_def segment_ok_def
  source_order_def source_segs_def source_to_served_def served_to_source_def

lemma sample_edl_wf: "wf_edl sample_edl"
  by (simp add: sample_simps)

theorem time_maps_inverse_witness:
  "source_to_served sample_edl (Some ''s1'') 100 = Inr (Some 1905)"
proof -
  have "served_to_source sample_edl 1905 = Some (''s1'', 100)" by (simp add: sample_simps)
  then show ?thesis using time_maps_inverse [OF sample_edl_wf, of 1905 "''s1''" 100] by blast
qed

subsection \<open>Remapped items\<close>

definition timestamp :: "string \<Rightarrow> pydict \<Rightarrow> rat option" where
  "timestamp k item =
     (case map_of item k of
        None \<Rightarrow> None
      | Some j \<Rightarrow> (case json_number j of Inl e \<Rightarrow> None | Inr q \<Rightarrow> Some q))"

definition timed_item :: "pydict \<Rightarrow> bool" where
  "timed_item item =
     (timestamp ''start'' item \<noteq> None \<and>
      (map_of item ''end'' = None \<or> map_of item ''end'' = Some JNull \<or> timestamp ''end'' item \<noteq> None))"

definition new_start :: "timeline \<Rightarrow> string option \<Rightarrow> bool \<Rightarrow> rat \<Rightarrow> rat option" where
  "new_start edl sid snap u =
     (case source_to_served edl sid u of
        Inl e \<Rightarrow> None
      | Inr (Some x) \<Rightarrow> Some x
      | Inr None \<Rightarrow> if snap then next_kept_boundary edl sid u else None)"

lemma by_source_start_id:
  assumes "wf_edl edl"
  shows "by_source_start (source_segs edl sid) = source_segs edl sid"
proof -
  have "sorted_wrt (\<lambda>s u. src_lo s \<le> src_lo u) (source_segs edl sid)"
  proof (rule sorted_wrt_mono_rel)
    show "sorted_wrt (\<lambda>s u. src_hi s \<le> src_lo u) (source_segs edl sid)"
      using wf_source [OF assms, of sid] by (simp add: ordered_spans_def)
    show "src_lo s \<le> src_lo u" if "s \<in> set (source_segs edl sid)" "src_hi s \<le> src_lo u" for s u
      using source_seg_facts(9) [OF assms that(1)] that(2) by simp
  qed
  then show ?thesis by (simp add: by_source_start_def sort_key_id_if_sorted sorted_map)
qed

lemma find_first_after:
  assumes "find (\<lambda>s. u < lo s) segs = Some s" "ordered_spans lo hi segs"
  shows "s \<in> set segs \<and> u < lo s \<and> (\<forall>v\<in>set segs. lo v < lo s \<longrightarrow> lo v \<le> u)"
  using assms
proof (induction segs)
  case (Cons a segs)
  show ?case
  proof (cases "u < lo a")
    case True
    then have "s = a" using Cons.prems(1) by simp
    then show ?thesis using True Cons.prems(2) by (force simp: ordered_spans_Cons)
  next
    case False
    then show ?thesis using Cons by (auto simp: ordered_spans_Cons)
  qed
qed simp

lemma next_kept_find:
  assumes "wf_edl edl"
  shows "next_kept_boundary edl sid u =
     map_option sg_served_start (find (\<lambda>s. u < src_lo s) (source_segs edl sid))"
proof -
  have "find (\<lambda>s. case sg_source_start s of None \<Rightarrow> False | Some a \<Rightarrow> u < a) (source_segs edl sid) =
      find (\<lambda>s. u < src_lo s) (source_segs edl sid)"
    by (rule find_cong) (use source_seg_facts(5) [OF assms] in \<open>auto split: option.splits\<close>, fastforce+)
  then show ?thesis by (simp add: next_kept_boundary_def by_source_start_id [OF assms])
qed

text \<open>Where a remapped start comes from: the span that holds it, or the first span after its cut.\<close>

lemma new_start_cases:
  assumes wf: "wf_edl edl" and x: "new_start edl sid snap u = Some x"
  obtains (kept) s where "s \<in> set (source_segs edl sid)" "src_lo s \<le> u" "u \<le> src_hi s"
      "u < src_hi s \<or> (\<forall>v\<in>set (source_segs edl sid). src_lo v \<le> src_lo s)"
      "x = sg_served_start s + (u - src_lo s)"
    | (snapped) s where "s \<in> set (source_segs edl sid)" "u < src_lo s" "x = sg_served_start s"
      "\<forall>v\<in>set (source_segs edl sid). src_lo v < src_lo s \<longrightarrow> src_hi v \<le> u"
proof (cases "span_find src_lo src_hi (source_segs edl sid) u")
  case (Some s)
  then show thesis
    using kept span_find_Some [OF Some wf_source [OF wf]] x
    by (auto simp: new_start_def source_to_served_find [OF wf])
next
  case None
  then obtain s where found: "find (\<lambda>s. u < src_lo s) (source_segs edl sid) = Some s" "x = sg_served_start s"
    using x by (auto simp: new_start_def source_to_served_find [OF wf] next_kept_find [OF wf] split: if_splits)
  note s = find_first_after [OF found(1) wf_source [OF wf]]
  have "\<forall>v\<in>set (source_segs edl sid). src_lo v < src_lo s \<longrightarrow> src_hi v \<le> u"
    using s span_find_None [OF None] by force
  then show thesis using snapped s found(2) by blast
qed

lemma new_start_range:
  assumes wf: "wf_edl edl" and x: "new_start edl sid snap u = Some x"
  shows "0 \<le> x \<and> x \<le> sg_served_end (last (tl_segments edl))"
  using wf x
proof (cases rule: new_start_cases)
  case (kept s)
  then show ?thesis using source_seg_facts(7,10,11) [OF wf kept(1)] by auto
next
  case (snapped s)
  then show ?thesis using source_seg_facts(8,10,11) [OF wf snapped(1)] by auto
qed

lemma new_start_mono:
  assumes wf: "wf_edl edl" and le: "u \<le> u'"
    and x: "new_start edl sid snap u = Some x" and x': "new_start edl sid snap u' = Some x'"
  shows "x \<le> x'"
  using wf x
proof (cases rule: new_start_cases)
  case (kept s)
  note s = kept source_seg_facts(7,8) [OF wf kept(1)]
  from wf x' show ?thesis
  proof (cases rule: new_start_cases)
    case (kept s')
    consider "s = s'" | "src_lo s < src_lo s'" | "src_lo s' < src_lo s"
      using span_same [OF wf_source [OF wf] s(1) kept(1)] by force
    then show ?thesis
    proof cases
      case 2
      then show ?thesis using wf_both_order [OF wf s(1) kept(1)] s kept by auto
    next
      case 3
      then have "src_hi s' \<le> src_lo s" by (rule span_before [OF wf_source [OF wf] kept(1) s(1)])
      then show ?thesis using 3 s kept le by force
    qed (use le s kept in auto)
  next
    case (snapped s')
    then show ?thesis using wf_both_order [OF wf s(1) snapped(1)] s le by auto
  qed
next
  case (snapped s)
  note s = snapped source_seg_facts(8) [OF wf snapped(1)]
  from wf x' show ?thesis
  proof (cases rule: new_start_cases)
    case (kept s')
    have "\<not> src_lo s' < src_lo s" using s(1,4) kept le by force
    then consider "s = s'" | "src_lo s < src_lo s'"
      using span_same [OF wf_source [OF wf] s(1) kept(1)] by force
    then show ?thesis using wf_both_order [OF wf s(1) kept(1)] s kept by cases auto
  next
    case (snapped s')
    have "\<not> src_lo s' < src_lo s"
      using s(4) snapped(1,2) source_seg_facts(9) [OF wf snapped(1)] le by force
    then consider "s = s'" | "src_lo s < src_lo s'"
      using span_same [OF wf_source [OF wf] s(1) snapped(1)] by force
    then show ?thesis using wf_both_order [OF wf s(1) snapped(1)] s snapped by cases auto
  qed
qed

lemma timestamp_update: "timestamp k (AList.update k' v item) = (if k = k' then
    (case json_number v of Inl e \<Rightarrow> None | Inr q \<Rightarrow> Some q) else timestamp k item)"
  by (simp add: timestamp_def update_conv')

lemma item_time_timestamp:
  assumes "map_of item k = Some raw" "timestamp k item = Some q"
  shows "item_time edl sid raw = Inr (if source_segs edl sid = [] then 0 else q)"
  using assms by (auto simp: item_time_def timestamp_def split: sum.splits)

lemma no_spans_no_map: "source_segs edl sid = [] \<Longrightarrow> source_to_served edl sid t = Inr None"
  by (simp add: source_to_served_def)

lemma no_spans_no_start: "source_segs edl sid = [] \<Longrightarrow> new_start edl sid snap t = None"
  by (simp add: new_start_def no_spans_no_map next_kept_boundary_def by_source_start_def)

lemma mapped_total: "wf_edl edl \<Longrightarrow> \<exists>r. source_to_served edl sid t = Inr r"
  by (simp add: source_to_served_find)

lemma remap_end_start:
  assumes wf: "wf_edl edl" and item: "timed_item item"
  shows "\<exists>out. remap_end edl sid clamp item new = Inr out \<and> map_of out ''start'' = map_of new ''start''"
proof -
  have upd: "map_of (AList.update ''end'' v new) ''start'' = map_of new ''start''" for v
    by (simp add: update_conv')
  show ?thesis
  proof (cases "map_of item ''end''")
    case (Some raw)
    show ?thesis
    proof (cases "raw = JNull")
      case False
      then obtain q where "timestamp ''end'' item = Some q" using item Some by (auto simp: timed_item_def)
      then obtain t where t: "item_time edl sid raw = Inr t" using item_time_timestamp [OF Some] by blast
      obtain r where "source_to_served edl sid t = Inr r" using mapped_total [OF wf] by blast
      then show ?thesis using False Some t upd by (cases raw) (simp_all add: remap_end_def Let_def)
    qed (simp add: remap_end_def Some)
  qed (simp add: remap_end_def)
qed

lemma remap_item_start:
  assumes wf: "wf_edl edl" and item: "timed_item item" and u: "timestamp ''start'' item = Some u"
  obtains r where "remap_item edl sid clamp snap item = Inr r"
    "case r of None \<Rightarrow> new_start edl sid snap u = None
     | Some out \<Rightarrow> new_start edl sid snap u \<noteq> None \<and> timestamp ''start'' out = new_start edl sid snap u"
proof -
  obtain raw where raw: "map_of item ''start'' = Some raw" using u by (auto simp: timestamp_def split: option.splits)
  define t where "t = (if source_segs edl sid = [] then 0 else u)"
  have time: "item_time edl sid raw = Inr t" unfolding t_def by (rule item_time_timestamp [OF raw u])
  obtain found where found: "source_to_served edl sid t = Inr found" using mapped_total [OF wf] by blast
  have new: "new_start edl sid snap u =
      (case found of Some x \<Rightarrow> Some x | None \<Rightarrow> if snap then next_kept_boundary edl sid t else None)"
    using found unfolding t_def
    by (cases "source_segs edl sid = []")
      (auto simp: new_start_def no_spans_no_map next_kept_boundary_def by_source_start_def split: option.splits)
  show thesis
  proof (cases "new_start edl sid snap u")
    case None
    then show thesis using that [of None] raw time found new by (simp add: remap_item_def)
  next
    case (Some x)
    obtain out where out: "remap_end edl sid clamp item (AList.update ''start'' (JFloat x) item) = Inr out"
        "map_of out ''start'' = Some (JFloat x)"
      using remap_end_start [OF wf item] by (metis update_conv' fun_upd_same)
    then have "timestamp ''start'' out = Some x" by (simp add: timestamp_def)
    moreover have "(case found of Some x \<Rightarrow> Some x | None \<Rightarrow> if snap then next_kept_boundary edl sid t else None) = Some x"
      using new Some by simp
    then have "remap_item edl sid clamp snap item = Inr (Some out)"
      using raw time found out(1) by (simp add: remap_item_def)
    ultimately show thesis using that [of "Some out"] Some by simp
  qed
qed

lemma remap_items_start:
  assumes wf: "wf_edl edl"
  shows "list_all timed_item items \<Longrightarrow>
    \<exists>out. remap_items edl sid clamp snap items = Inr out \<and>
      map (timestamp ''start'') out =
        filter (\<lambda>x. x \<noteq> None) (map (\<lambda>i. new_start edl sid snap (the (timestamp ''start'' i))) items)"
proof (induction items)
  case (Cons item items)
  obtain u where u: "timestamp ''start'' item = Some u" using Cons.prems by (auto simp: timed_item_def)
  have item: "timed_item item" using Cons.prems by simp
  obtain r where r: "remap_item edl sid clamp snap item = Inr r"
    "case r of None \<Rightarrow> new_start edl sid snap u = None
     | Some out \<Rightarrow> new_start edl sid snap u \<noteq> None \<and> timestamp ''start'' out = new_start edl sid snap u"
    by (rule remap_item_start [OF wf item u])
  obtain out where "remap_items edl sid clamp snap items = Inr out"
      "map (timestamp ''start'') out =
        filter (\<lambda>x. x \<noteq> None) (map (\<lambda>i. new_start edl sid snap (the (timestamp ''start'' i))) items)"
    using Cons by auto
  then show ?case using r u by (cases r) auto
qed simp

lemma sorted_new_starts:
  assumes wf: "wf_edl edl"
  shows "sorted us \<Longrightarrow> sorted (map the (filter (\<lambda>x. x \<noteq> None) (map (new_start edl sid snap) us)))"
proof (induction us)
  case (Cons u us)
  show ?case
  proof (cases "new_start edl sid snap u")
    case (Some x)
    have "x \<le> the y" if "y \<in> set (filter (\<lambda>x. x \<noteq> None) (map (new_start edl sid snap) us))" for y
      using that Cons.prems new_start_mono [OF wf _ Some] by auto
    then show ?thesis using Cons Some by auto
  qed (use Cons in simp)
qed simp

subsection \<open>Remapped ends\<close>

lemma cut_scan_grows:
  assumes "ordered_spans sg_served_start sg_served_end segs" "\<forall>v\<in>set segs. b \<le> sg_served_end v"
  shows "\<exists>e. cut_boundary_scan segs t (Some b) = Some e \<and> b \<le> e"
  using assms
proof (induction segs arbitrary: b)
  case (Cons a segs)
  have "\<forall>v\<in>set segs. sg_served_end a \<le> sg_served_end v"
    using Cons.prems(1) by (force simp: ordered_spans_Cons ordered_spans_def)
  then obtain e where "cut_boundary_scan segs t (Some (sg_served_end a)) = Some e" "sg_served_end a \<le> e"
    using Cons.IH [of "sg_served_end a"] Cons.prems(1) by (auto simp: ordered_spans_Cons)
  moreover have "b \<le> sg_served_end a" using Cons.prems(2) by simp
  ultimately show ?case by auto
qed simp

lemma cut_scan_reaches:
  assumes "ordered_spans sg_served_start sg_served_end segs" "ordered_spans src_lo src_hi segs"
    "s \<in> set segs" "src_lo s \<le> t"
  shows "\<exists>e. cut_boundary_scan segs t b = Some e \<and> sg_served_end s \<le> e"
  using assms
proof (induction segs arbitrary: b)
  case (Cons a segs)
  have le: "src_lo a \<le> t" using Cons.prems(2-4) by (force simp: ordered_spans_Cons)
  show ?case
  proof (cases "s = a")
    case True
    have "\<forall>v\<in>set segs. sg_served_end a \<le> sg_served_end v"
      using Cons.prems(1) by (force simp: ordered_spans_Cons ordered_spans_def)
    then show ?thesis
      using cut_scan_grows [of segs "sg_served_end a" t] Cons.prems(1) le True by (auto simp: ordered_spans_Cons)
  next
    case False
    then show ?thesis using Cons.IH [of "Some (sg_served_end a)"] Cons.prems le by (simp add: ordered_spans_Cons)
  qed
qed simp

lemma remap_end_after:
  assumes wf: "wf_edl edl" and e: "timestamp ''end'' item = Some e" and le: "u \<le> e"
    and x: "new_start edl sid False u = Some x"
  shows "\<exists>out y. remap_end edl sid (Some c) item new = Inr out \<and> timestamp ''end'' out = Some y \<and> x \<le> y"
proof -
  obtain raw where raw: "map_of item ''end'' = Some raw" using e by (auto simp: timestamp_def split: option.splits)
  have notnull: "raw \<noteq> JNull" using e raw by (auto simp: timestamp_def)
  have "source_to_served edl sid u = Inr (Some x)"
    using x by (simp add: new_start_def split: sum.splits option.splits)
  from source_hit [OF wf this] obtain s where s: "s \<in> set (source_segs edl sid)" "src_lo s \<le> u" "u \<le> src_hi s"
      "x = sg_served_start s + (u - src_lo s)" by blast
  have time: "item_time edl sid raw = Inr e"
    using item_time_timestamp [OF raw e, of edl sid] s(1) by (cases "source_segs edl sid") auto
  have last: "x \<le> sg_served_end s" using s source_seg_facts(7) [OF wf s(1)] by simp
  have end_at: "timestamp ''end'' (AList.update ''end'' (opt_rat_json (Some y)) new) = Some y" for y
    by (simp add: timestamp_update opt_rat_json_def)
  show ?thesis
  proof (cases "source_to_served edl sid e")
    case (Inl ex)
    then show ?thesis by (simp add: source_to_served_find [OF wf])
  next
    case (Inr found)
    show ?thesis
    proof (cases found)
      case None
      obtain y where "nearest_cut_boundary edl sid e = Some y" "sg_served_end s \<le> y"
        using cut_scan_reaches [OF wf_source_served [OF wf] wf_source [OF wf] s(1), of e None] s(2) le
        by (auto simp: nearest_cut_boundary_def by_source_start_id [OF wf])
      then show ?thesis using raw notnull time Inr None last end_at [of y] by (cases raw) (simp_all add: remap_end_def)
    next
      case (Some y)
      then have "new_start edl sid False e = Some y" using Inr by (simp add: new_start_def)
      then have "x \<le> y" by (rule new_start_mono [OF wf le x])
      then show ?thesis using raw notnull time Inr Some end_at [of y] by (cases raw) (simp_all add: remap_end_def)
    qed
  qed
qed

text \<open>Remapping the chapters or cues of a well-formed edit list never fails, keeps exactly the items whose
start was not cut (or, when cut starts snap, every item with audio left after it), leaves items that were in
order in order, and places each start inside the served episode.\<close>

theorem remap_keeps_order:
  assumes wf: "wf_edl edl" and items: "list_all timed_item items"
  shows "\<exists>out. remap edl items (Some sid) clamp snap = Inr out \<and>
    map (timestamp ''start'') out =
      filter (\<lambda>x. x \<noteq> None) (map (\<lambda>i. new_start edl (Some sid) snap (the (timestamp ''start'' i))) items) \<and>
    (sorted (map (\<lambda>i. the (timestamp ''start'' i)) items) \<longrightarrow>
       sorted (map (\<lambda>i. the (timestamp ''start'' i)) out)) \<and>
    list_all (\<lambda>i. 0 \<le> the (timestamp ''start'' i) \<and>
       the (timestamp ''start'' i) \<le> sg_served_end (last (tl_segments edl))) out"
proof -
  obtain out where out: "remap_items edl (Some sid) clamp snap items = Inr out"
      and starts: "map (timestamp ''start'') out =
        filter (\<lambda>x. x \<noteq> None) (map (\<lambda>i. new_start edl (Some sid) snap (the (timestamp ''start'' i))) items)"
    using remap_items_start [OF wf items] by blast
  have "sorted (map (\<lambda>i. the (timestamp ''start'' i)) out)"
    if "sorted (map (\<lambda>i. the (timestamp ''start'' i)) items)"
    using sorted_new_starts [OF wf that, of "Some sid" snap] arg_cong [OF starts, of "map the"] by (simp add: comp_def)
  moreover have "0 \<le> the (timestamp ''start'' i) \<and> the (timestamp ''start'' i) \<le> sg_served_end (last (tl_segments edl))"
    if "i \<in> set out" for i
  proof -
    have "timestamp ''start'' i \<in> set (map (timestamp ''start'') out)" using that by simp
    then obtain u x where "new_start edl (Some sid) snap u = Some x" "timestamp ''start'' i = Some x"
      unfolding starts by (auto, metis)
    then show ?thesis using new_start_range [OF wf] by simp
  qed
  ultimately show ?thesis using out starts by (auto simp: remap_def list_all_iff)
qed

theorem remap_keeps_order_witness:
  "\<exists>out. remap sample_edl [[(''start'', JInt 100)], [(''start'', JInt 700)], [(''start'', JInt 2500)]]
       (Some ''s0'') None False = Inr out \<and> map (timestamp ''start'') out = [Some 100]"
proof -
  have "list_all timed_item [[(''start'', JInt 100)], [(''start'', JInt 700)], [(''start'', JInt 2500)]]"
    by (simp add: timed_item_def timestamp_def)
  from remap_keeps_order [OF sample_edl_wf this, of "''s0''" None False]
  show ?thesis by (auto simp: new_start_def sample_simps timestamp_def)
qed

text \<open>A transcript cue is never inverted by an edit. When its start survives, the cue comes out with an end
that is not before its start, even where the end was cut: it then stops at the edge of the kept audio
before the cut and not at the end of the episode.\<close>

theorem remapped_cue_not_inverted:
  assumes wf: "wf_edl edl" and u: "timestamp ''start'' item = Some u" and e: "timestamp ''end'' item = Some e"
    and le: "u \<le> e"
  shows "remap edl [item] (Some sid) (Some c) False = Inr [] \<or>
    (\<exists>out x y. remap edl [item] (Some sid) (Some c) False = Inr [out] \<and>
       timestamp ''start'' out = Some x \<and> timestamp ''end'' out = Some y \<and> x \<le> y)"
proof -
  have item: "timed_item item" using u e by (simp add: timed_item_def)
  obtain raw where raw: "map_of item ''start'' = Some raw" using u by (auto simp: timestamp_def split: option.splits)
  show ?thesis
  proof (cases "new_start edl (Some sid) False u")
    case None
    obtain r where "remap_item edl (Some sid) (Some c) False item = Inr r" "r = None"
      by (rule remap_item_start [OF wf item u, of "Some sid" "Some c" False]) (use None in \<open>auto split: option.splits\<close>)
    then show ?thesis by (simp add: remap_def)
  next
    case (Some x)
    have "source_segs edl (Some sid) \<noteq> []" using Some no_spans_no_start by force
    then have "item_time edl (Some sid) raw = Inr u" using item_time_timestamp [OF raw u] by simp
    moreover have "source_to_served edl (Some sid) u = Inr (Some x)"
      using Some by (simp add: new_start_def split: sum.splits option.splits)
    moreover obtain out y where "remap_end edl (Some sid) (Some c) item (AList.update ''start'' (JFloat x) item) = Inr out"
        "timestamp ''end'' out = Some y" "x \<le> y"
      using remap_end_after [OF wf e le Some] by blast
    moreover from this(1) have "timestamp ''start'' out = Some x"
      using remap_end_start [OF wf item, of "Some sid" "Some c" "AList.update ''start'' (JFloat x) item"]
      by (auto simp: timestamp_def update_conv')
    ultimately show ?thesis using raw by (simp add: remap_def remap_item_def)
  qed
qed

theorem remapped_cue_not_inverted_witness:
  "\<exists>out x y. remap sample_edl [[(''start'', JInt 2000), (''end'', JInt 2500)]] (Some ''s0'') (Some 3005) False = Inr [out] \<and>
     timestamp ''start'' out = Some x \<and> timestamp ''end'' out = Some y \<and> x \<le> y"
proof -
  have start: "timestamp ''start'' [(''start'', JInt 2000), (''end'', JInt 2500)] = Some 2000"
    and stop: "timestamp ''end'' [(''start'', JInt 2000), (''end'', JInt 2500)] = Some 2500"
    by (simp_all add: timestamp_def)
  have "remap sample_edl [[(''start'', JInt 2000), (''end'', JInt 2500)]] (Some ''s0'') (Some 3005) False \<noteq> Inr []"
    by (simp add: remap_def remap_item_def remap_end_def item_time_def sample_simps)
  then show ?thesis using remapped_cue_not_inverted [OF sample_edl_wf start stop, of "''s0''" 3005] by simp
qed

text \<open>The identity edit list of an untouched episode maps every instant to itself in both directions, has the
empty digest whatever the hash function (so that the episode is not encoded again), and its listener clock is
the duration of the source.\<close>

theorem identity_is_no_edit:
  assumes "0 \<le> t" "t \<le> duration" "0 < duration"
  shows "served_to_source (identity_timeline m duration) t = Some (sm_id m, t) \<and>
    source_to_served (identity_timeline m duration) (Some (sm_id m)) t = Inr (Some t) \<and>
    timeline_digest sha1_12 (identity_timeline m duration) [] = '''' \<and>
    edl_duration (Some (identity_timeline m duration)) = Some duration"
  using assms
  by (simp add: identity_timeline_def source_segment_def served_to_source_def source_to_served_def
      source_segs_def timeline_digest_def is_identity_def edl_duration_def)

definition sample_media :: source_media where
  "sample_media =
     \<lparr>sm_id = ''s0'', sm_provider = ''granicus'', sm_ref = ''clip/1'', sm_media_kind = ''hls'',
      sm_duration = Some 3600, sm_watch_url = None, sm_backup_key = None, sm_duration_basis = None\<rparr>"

theorem identity_is_no_edit_witness:
  "source_to_served (identity_timeline sample_media 3600) (Some ''s0'') 1200 = Inr (Some 1200)"
proof -
  have "sm_id sample_media = ''s0''" by (simp add: sample_media_def)
  then show ?thesis using identity_is_no_edit [of 1200 3600 sample_media] by simp
qed

end
