(* ===== verification/Bodies.thy ===== *)
theory Bodies
  imports Prelude
begin

section \<open>Meeting bodies and durations\<close>

text \<open>
  \<open>citypods/bodies.py\<close> (the normalization of body names, matching of complete labels, ranking within a
  body) and the record side of \<open>citypods/durations.py\<close>. Text is ASCII, as in the rest of the development.
\<close>

subsection \<open>Normalized names\<close>

definition is_lower_alnum :: "char \<Rightarrow> bool" where
  "is_lower_alnum c = (let n = (of_char c :: nat) in 97 \<le> n \<and> n \<le> 122 \<or> 48 \<le> n \<and> n \<le> 57)"

definition singular :: "string \<Rightarrow> string" where
  "singular w = (if 3 < length w \<and> last w = CHR ''s'' then butlast w else w)"

definition body_key :: "string \<Rightarrow> string" where
  "body_key body =
     (let s = concat (map (\<lambda>c. if c = CHR ''&'' then '' and '' else [c]) (py_lower body));
          t = map (\<lambda>c. if is_lower_alnum c \<or> is_space c then c else CHR '' '') s
      in py_join '' '' (map singular (py_split t)))"

text \<open>\<open>re.sub(r"\s+", " ", body).strip()\<close> leaves single spaces between the words.\<close>

definition collapse_spaces :: "string \<Rightarrow> string" where
  "collapse_spaces s = py_join '' '' (py_split s)"

text \<open>\<open>_ON_DATETIME\<close> on text without double spaces: cut at the first \<open> on YYYY-MM-DD\<close>.\<close>

definition starts_on_datetime :: "string \<Rightarrow> bool" where
  "starts_on_datetime s =
     (py_startswith s '' on '' \<and> 14 \<le> length s \<and>
      list_all (\<lambda>i. is_digit (s ! i)) [4, 5, 6, 7, 9, 10, 12, 13] \<and> s ! 8 = CHR ''-'' \<and> s ! 11 = CHR ''-'')"

fun drop_on_datetime :: "string \<Rightarrow> string" where
  "drop_on_datetime [] = []"
| "drop_on_datetime (c # cs) = (if starts_on_datetime (c # cs) then [] else c # drop_on_datetime cs)"

text \<open>\<open>_SUBTYPE\<close>: cut at the last \<open>-\<close> or \<open>:\<close> when text follows it, with the blanks before it.\<close>

definition drop_subtype :: "string \<Rightarrow> string" where
  "drop_subtype s =
     (let delim = (\<lambda>c. c = CHR ''-'' \<or> c = CHR '':'');
          after = takeWhile (\<lambda>c. \<not> delim c) (rev s);
          kept = dropWhile (\<lambda>c. \<not> delim c) (rev s)
      in if after = [] \<or> kept = [] then s else rev (dropWhile is_space (drop 1 kept)))"

definition QUALIFIERS :: "string list" where
  "QUALIFIERS = [''evening'', ''afternoon'', ''morning'', ''special'', ''regular'', ''joint'', ''called'']"

definition strip_commas :: "string \<Rightarrow> string" where
  "strip_commas s = rev (dropWhile (\<lambda>c. c = CHR '','') (rev (dropWhile (\<lambda>c. c = CHR '','') s)))"

definition is_qualifier :: "string \<Rightarrow> bool" where
  "is_qualifier w = (strip_commas (py_lower w) \<in> set QUALIFIERS)"

definition is_upper_char :: "char \<Rightarrow> bool" where
  "is_upper_char c = (let n = (of_char c :: nat) in 65 \<le> n \<and> n \<le> 90)"

definition is_lower_char :: "char \<Rightarrow> bool" where
  "is_lower_char c = (let n = (of_char c :: nat) in 97 \<le> n \<and> n \<le> 122)"

definition upper_char :: "char \<Rightarrow> char" where
  "upper_char c = (if is_lower_char c then char_of (of_char c - 32 :: nat) else c)"

definition py_isupper :: "string \<Rightarrow> bool" where
  "py_isupper s = (list_ex is_upper_char s \<and> \<not> list_ex is_lower_char s)"

primrec title_from :: "bool \<Rightarrow> string \<Rightarrow> string" where
  "title_from inside [] = []"
| "title_from inside (c # cs) =
     (if is_upper_char c \<or> is_lower_char c
      then (if inside then lower_char c else upper_char c) # title_from True cs
      else c # title_from False cs)"

definition py_title :: "string \<Rightarrow> string" where
  "py_title s = title_from False s"

definition canonical_body :: "string \<Rightarrow> string" where
  "canonical_body body =
     (let b = py_strip (drop_subtype (drop_on_datetime (collapse_spaces body)));
          tokens = rev (dropWhile is_qualifier (rev (dropWhile is_qualifier (py_split b))));
          joined = py_join '' '' tokens;
          name = (if joined \<noteq> '''' then joined else b)
      in if py_isupper name then py_title name else name)"

text \<open>\<open>matches_exact_body_label\<close>: the expected words, once or repeated.\<close>

definition matches_exact_body_label :: "string \<Rightarrow> string \<Rightarrow> bool" where
  "matches_exact_body_label body expected =
     (let actual_words = py_split (body_key body); expected_words = py_split (body_key expected) in
      if actual_words = [] \<or> expected_words = [] \<or> length actual_words mod length expected_words \<noteq> 0 then False
      else actual_words = concat (replicate (length actual_words div length expected_words) expected_words))"

subsection \<open>Ranking within a body\<close>

text \<open>
  \<open>rank_by_body\<close>: groups in the order of their first item; within a group newest first, undated last,
  ties in the given order (\<open>sort(reverse=True)\<close> keeps it).
\<close>

definition newest_first :: "int option \<Rightarrow> int list" where
  "newest_first t = (case t of None \<Rightarrow> [1] | Some n \<Rightarrow> [0, - n])"

definition group_by_key :: "('a \<Rightarrow> string) \<Rightarrow> 'a list \<Rightarrow> (string \<times> 'a list) list" where
  "group_by_key key items =
     fold (\<lambda>x groups. AList.update (key x) ((case map_of groups (key x) of None \<Rightarrow> [] | Some g \<Rightarrow> g) @ [x]) groups)
       items []"

definition rank_by_body :: "('a \<Rightarrow> string) \<Rightarrow> ('a \<Rightarrow> int option) \<Rightarrow> 'a list \<Rightarrow> 'a list list" where
  "rank_by_body body_of published_of items =
     map (\<lambda>(k, g). sort_key (\<lambda>x. newest_first (published_of x)) g)
       (group_by_key (\<lambda>x. body_key (canonical_body (body_of x))) items)"

subsection \<open>Durations of a record\<close>

definition positive_seconds :: "json \<Rightarrow> rat option" where
  "positive_seconds value =
     (case py_float value of Inl e \<Rightarrow> None | Inr s \<Rightarrow> if 0 < s then Some s else None)"

definition first_some :: "'a option \<Rightarrow> 'a option \<Rightarrow> 'a option" where
  "first_some a b = (case a of Some x \<Rightarrow> Some x | None \<Rightarrow> b)"

definition record_source_duration_seconds :: "pydict \<Rightarrow> rat option" where
  "record_source_duration_seconds rec =
     first_some (positive_seconds (dget rec ''source_duration_seconds'' JNull))
       (positive_seconds (dget rec ''duration'' JNull))"

definition record_served_duration_seconds :: "pydict \<Rightarrow> rat option" where
  "record_served_duration_seconds rec =
     (let legacy = (case dget rec ''audio'' JNull of
                      JObj audio \<Rightarrow> dget audio ''duration_served'' JNull
                    | _ \<Rightarrow> JNull)
      in first_some (positive_seconds (dget rec ''served_duration_seconds'' JNull)) (positive_seconds legacy))"

definition record_duration_hours :: "pydict \<Rightarrow> rat \<times> string" where
  "record_duration_hours rec =
     (case record_served_duration_seconds rec of
        Some s \<Rightarrow> (s / 3600, ''served'')
      | None \<Rightarrow>
          (case record_source_duration_seconds rec of
             Some s \<Rightarrow> (s / 3600, ''source'')
           | None \<Rightarrow> (0, ''unknown'')))"

end
