(* ===== verification/Work_Queue.thy ===== *)
theory Work_Queue
  imports Bodies
begin

section \<open>The backlog work queue\<close>

text \<open>
  \<open>citypods/ops/workqueue.py\<close>: work items, the comparators of a backlog policy, the manifest derived from
  the records of each source, its counts, its persisted form and the leases re-applied to it. Dates of an
  item are \<open>datetime option\<close>; a naive one is read as UTC where the code does (\<open>_aware\<close>).
\<close>

subsection \<open>Work items\<close>

definition WORK_CLASSES :: "string list" where
  "WORK_CLASSES =
     [''audio'', ''transcript-asr'', ''transcript-asr-comparison'', ''transcript-align'',
      ''provider-transcript-align'', ''provider-transcript-diarize'']"

definition RESERVED_WORK_CLASSES :: "string list" where
  "RESERVED_WORK_CLASSES = [''transcript-merge'', ''transcript-diarize'']"

definition DURATION_AWARE_WORK_CLASSES :: "string list" where
  "DURATION_AWARE_WORK_CLASSES = filter (\<lambda>c. c \<noteq> ''audio'') WORK_CLASSES @ RESERVED_WORK_CLASSES"

definition BUCKET_FEED_VISIBLE :: string where "BUCKET_FEED_VISIBLE = ''feed_visible''"
definition BUCKET_RECENT_ARCHIVE :: string where "BUCKET_RECENT_ARCHIVE = ''recent_archive''"
definition BUCKET_DEEP_ARCHIVE :: string where "BUCKET_DEEP_ARCHIVE = ''deep_archive''"

lemmas bucket_names = BUCKET_FEED_VISIBLE_def BUCKET_RECENT_ARCHIVE_def BUCKET_DEEP_ARCHIVE_def

definition RESERVED_KEYS :: "string list" where
  "RESERVED_KEYS = [''requested_first'', ''strong_towns_first'', ''population'']"

record work_item =
  wi_source_key :: string
  wi_episode_uid :: string
  wi_work_class :: string
  wi_published :: "datetime option"
  wi_city_slug :: string
  wi_body :: string
  wi_priority_bucket :: string
  wi_duration_hours :: rat
  wi_stage_version :: string
  wi_input_hashes :: "json list"
  wi_state :: string
  wi_est_seconds :: rat
  wi_observed_seconds :: rat
  wi_last_error :: string
  wi_next_retry :: "datetime option"
  wi_lease_owner :: string
  wi_lease_expires :: "datetime option"

text \<open>The constructor with its defaults.\<close>

definition new_item :: "string \<Rightarrow> string \<Rightarrow> string \<Rightarrow> work_item" where
  "new_item source_key uid work_class =
     \<lparr>wi_source_key = source_key, wi_episode_uid = uid, wi_work_class = work_class, wi_published = None,
      wi_city_slug = '''', wi_body = '''', wi_priority_bucket = BUCKET_FEED_VISIBLE, wi_duration_hours = 0,
      wi_stage_version = '''', wi_input_hashes = [], wi_state = ''queued'', wi_est_seconds = 0,
      wi_observed_seconds = 0, wi_last_error = '''', wi_next_retry = None, wi_lease_owner = '''',
      wi_lease_expires = None\<rparr>"

type_synonym item_id = "string \<times> string \<times> string"

definition item_id :: "work_item \<Rightarrow> item_id" where
  "item_id wi = (wi_source_key wi, wi_episode_uid wi, wi_work_class wi)"

subsection \<open>Sort keys\<close>

text \<open>
  The values the comparators return: numbers, the infinity of a missing date, text. The tuples they return
  are lists of these, compared lexicographically as Python compares tuples.
\<close>

datatype sort_atom = Num rat | Inf | Text string

instantiation sort_atom :: linorder
begin

fun less_eq_sort_atom :: "sort_atom \<Rightarrow> sort_atom \<Rightarrow> bool" where
  "less_eq_sort_atom (Num a) (Num b) = (a \<le> b)"
| "less_eq_sort_atom (Num a) _ = True"
| "less_eq_sort_atom Inf (Num b) = False"
| "less_eq_sort_atom Inf _ = True"
| "less_eq_sort_atom (Text s) (Text t) = (s \<le> t)"
| "less_eq_sort_atom (Text s) _ = False"

definition less_sort_atom :: "sort_atom \<Rightarrow> sort_atom \<Rightarrow> bool" where
  "less_sort_atom a b = (a \<le> b \<and> \<not> b \<le> a)"

instance
proof
  fix x y z :: sort_atom
  show "(x < y) = (x \<le> y \<and> \<not> y \<le> x)" by (rule less_sort_atom_def)
  show "x \<le> x" by (cases x) simp_all
  show "x \<le> y \<Longrightarrow> y \<le> z \<Longrightarrow> x \<le> z" by (cases x; cases y; cases z) simp_all
  show "x \<le> y \<Longrightarrow> y \<le> x \<Longrightarrow> x = y" by (cases x; cases y) simp_all
  show "x \<le> y \<or> y \<le> x" by (cases x; cases y) auto
qed

end

type_synonym key_fn = "work_item \<Rightarrow> sort_atom list"

definition aware :: "datetime \<Rightarrow> instant" where
  "aware dt = (case dt of Aware n \<Rightarrow> n | Naive n \<Rightarrow> n)"

definition age_days :: "datetime option \<Rightarrow> instant \<Rightarrow> rat option" where
  "age_days dt now = map_option (\<lambda>d. of_int (now - aware d) / 1000000 / 86400) dt"

text \<open>\<open>_age_days(dt, now) <= horizon\<close>: a missing date is infinitely old.\<close>

definition within_horizon :: "datetime option \<Rightarrow> instant \<Rightarrow> rat \<Rightarrow> bool" where
  "within_horizon dt now horizon = (case age_days dt now of None \<Rightarrow> False | Some a \<Rightarrow> a \<le> horizon)"

definition timestamp_key :: "bool \<Rightarrow> datetime \<Rightarrow> rat" where
  "timestamp_key desc dt = (let ts = of_int (aware dt) / 1000000 in if desc then - ts else ts)"

definition recency_unbounded :: "bool \<Rightarrow> key_fn" where
  "recency_unbounded desc wi =
     (case wi_published wi of None \<Rightarrow> [Inf] | Some dt \<Rightarrow> [Num (timestamp_key desc dt)])"

definition recency_windowed :: "bool \<Rightarrow> rat \<Rightarrow> instant \<Rightarrow> key_fn" where
  "recency_windowed desc horizon now wi =
     (case wi_published wi of
        Some dt \<Rightarrow> if within_horizon (Some dt) now horizon then [Num 0, Num (timestamp_key desc dt)]
                   else [Num 1, Num 0]
      | None \<Rightarrow> [Num 1, Num 0])"

fun text_of_json :: "json \<Rightarrow> string option" where
  "text_of_json (JStr s) = Some s"
| "text_of_json (JTime t) = Some (iso_text t)"
| "text_of_json _ = None"

definition recency_params :: "json \<Rightarrow> exn + string \<times> json" where
  "recency_params params =
     (case params of
        JNull \<Rightarrow> Inr (''desc'', JNull)
      | JObj d \<Rightarrow> Inr (py_str (dget d ''order'' (JStr ''desc'')), dget d ''within_days'' JNull)
      | _ \<Rightarrow>
          (case text_of_json params of
             None \<Rightarrow> Inl ValueError
           | Some s \<Rightarrow> Inr (if s \<noteq> '''' then s else ''desc'', JNull)))"

definition build_recency :: "json \<Rightarrow> instant \<Rightarrow> exn + key_fn" where
  "build_recency params now =
     bindE (recency_params params)
       (\<lambda>(direction, days).
          if direction \<noteq> ''asc'' \<and> direction \<noteq> ''desc'' then Inl ValueError
          else if days = JNull then Inr (recency_unbounded (direction = ''desc''))
          else bindE (py_float days)
                 (\<lambda>horizon. if horizon \<le> 0 then Inl ValueError
                            else Inr (recency_windowed (direction = ''desc'') horizon now)))"

definition build_recent_first :: "json \<Rightarrow> instant \<Rightarrow> exn + key_fn" where
  "build_recent_first params now =
     (if params = JNull then Inl ValueError
      else bindE (py_float params)
             (\<lambda>horizon. if horizon \<le> 0 then Inl ValueError
                        else Inr (\<lambda>wi. if within_horizon (wi_published wi) now horizon then [Num 0] else [Num 1])))"

text \<open>A rank dictionary \<open>{x: i for i, x in enumerate(xs)}\<close>: the last position of a repeated key counts.\<close>

definition rank_of :: "'a list \<Rightarrow> 'a \<Rightarrow> nat" where
  "rank_of xs x = (case map_of (rev (zip xs [0..<length xs])) x of None \<Rightarrow> length xs | Some i \<Rightarrow> i)"

definition hashable :: "json \<Rightarrow> bool" where
  "hashable j = (case j of JList _ \<Rightarrow> False | JObj _ \<Rightarrow> False | _ \<Rightarrow> True)"

definition build_city_order :: "json \<Rightarrow> json list \<Rightarrow> exn + key_fn" where
  "build_city_order params city_order =
     (let order_list = (case params of JList xs \<Rightarrow> xs | _ \<Rightarrow> city_order) in
      if \<not> list_all hashable order_list then Inl TypeError
      else Inr (\<lambda>wi. [Num (of_nat (rank_of order_list (JStr (wi_city_slug wi))))]))"

definition body_key_json :: "json \<Rightarrow> exn + string" where
  "body_key_json j =
     (if \<not> py_truthy j then Inr (body_key '''')
      else case text_of_json j of None \<Rightarrow> Inl (AttributeError ''lower'') | Some s \<Rightarrow> Inr (body_key s))"

definition build_body_order :: "json \<Rightarrow> exn + key_fn" where
  "build_body_order params =
     (case params of
        JList xs \<Rightarrow>
          bindE (mapE body_key_json xs)
            (\<lambda>keys. Inr (\<lambda>wi. let bk = body_key (wi_body wi) in [Num (of_nat (rank_of keys bk)), Text bk]))
      | _ \<Rightarrow> Inr (\<lambda>wi. [Num 0, Text (body_key (wi_body wi))]))"

definition bucket_rank :: "string \<Rightarrow> rat" where
  "bucket_rank b =
     (if b = BUCKET_FEED_VISIBLE then 0 else if b = BUCKET_RECENT_ARCHIVE then 1 else 2)"

definition build_feed_visible_first :: "exn + key_fn" where
  "build_feed_visible_first = Inr (\<lambda>wi. [Num (bucket_rank (wi_priority_bucket wi))])"

definition build_long_first :: "json \<Rightarrow> exn + key_fn" where
  "build_long_first params =
     (if params = JNull then Inl ValueError
      else bindE (py_float params)
             (\<lambda>threshold.
                if threshold \<le> 0 then Inl ValueError
                else Inr (\<lambda>wi. if wi_work_class wi \<notin> set DURATION_AWARE_WORK_CLASSES then [Num 1]
                                else if threshold < wi_duration_hours wi then [Num 0] else [Num 1])))"

subsection \<open>Policies\<close>

definition BUILDERS :: "(string \<times> (json \<Rightarrow> json list \<Rightarrow> instant \<Rightarrow> exn + key_fn)) list" where
  "BUILDERS =
     [(''recency'', \<lambda>params city_order now. build_recency params now),
      (''recent_first'', \<lambda>params city_order now. build_recent_first params now),
      (''city_order'', \<lambda>params city_order now. build_city_order params city_order),
      (''body_order'', \<lambda>params city_order now. build_body_order params),
      (''feed_visible_first'', \<lambda>params city_order now. build_feed_visible_first),
      (''long_first'', \<lambda>params city_order now. build_long_first params)]"

record backlog_key =
  sk_name :: string
  sk_fn :: key_fn

type_synonym backlog_policy = "backlog_key list"

definition split_entry :: "json \<Rightarrow> exn + string \<times> json" where
  "split_entry entry =
     (case text_of_json entry of
        Some s \<Rightarrow> Inr (s, JNull)
      | None \<Rightarrow> (case entry of JObj [(name, params)] \<Rightarrow> Inr (name, params) | _ \<Rightarrow> Inl ValueError))"

definition build_key :: "pydict \<Rightarrow> json list \<Rightarrow> instant \<Rightarrow> json \<Rightarrow> exn + backlog_key" where
  "build_key defaults city_order now entry =
     bindE (split_entry entry)
       (\<lambda>(name, params).
          if name \<in> set RESERVED_KEYS then Inl ValueError
          else
            (case map_of BUILDERS name of
               None \<Rightarrow> Inl ValueError
             | Some builder \<Rightarrow>
                 (let params' =
                    (if name = ''long_first'' \<and> params = JNull
                     then dget defaults ''asr_local_max_duration_hours'' (JFloat 4) else params)
                  in bindE (builder params' city_order now) (\<lambda>fn. Inr \<lparr>sk_name = name, sk_fn = fn\<rparr>))))"

text \<open>\<open>a.get(k) or b.get(k) or []\<close>, then iterated.\<close>

definition config_list :: "pydict \<Rightarrow> pydict \<Rightarrow> string \<Rightarrow> exn + json list" where
  "config_list site defaults k =
     (if py_truthy (dget site k JNull) then py_iter (dget site k JNull)
      else if py_truthy (dget defaults k JNull) then py_iter (dget defaults k JNull)
      else Inr [])"

definition from_site_config :: "pydict \<Rightarrow> instant \<Rightarrow> exn + backlog_policy" where
  "from_site_config site now =
     bindE (sub_dict site ''defaults'') (\<lambda>defaults.
     bindE (config_list site defaults ''city_order'') (\<lambda>city_order.
     bindE (config_list site defaults ''backlog_priority'') (\<lambda>raw.
       mapE (build_key defaults city_order now) raw)))"

definition sort_key_for :: "backlog_policy \<Rightarrow> work_item \<Rightarrow> sort_atom list list" where
  "sort_key_for policy wi = map (\<lambda>k. sk_fn k wi) policy"

definition order :: "work_item list \<Rightarrow> backlog_policy option \<Rightarrow> work_item list" where
  "order items policy =
     (case policy of
        None \<Rightarrow> items
      | Some keys \<Rightarrow> if keys = [] then items else sort_key (sort_key_for keys) items)"

subsection \<open>The manifest derived from the records\<close>

record city =
  city_slug :: string
  city_extract_audio :: bool
  city_asr_enabled :: bool
  city_asr_alignment_enabled :: bool
  city_max_episodes :: int
  city_full_artifact_episodes :: int

type_synonym records = "(string \<times> pydict) list"

definition published_of :: "pydict \<Rightarrow> instant option" where
  "published_of rec = parse_dt (dget rec ''published'' JNull)"

text \<open>\<open>rec.get("body") or ""\<close>, given to a regular expression.\<close>

definition body_text :: "pydict \<Rightarrow> exn + string" where
  "body_text rec =
     (let b = dget rec ''body'' JNull in
      if \<not> py_truthy b then Inr ''''
      else case text_of_json b of None \<Rightarrow> Inl TypeError | Some s \<Rightarrow> Inr s)"

definition bucket_of_rank :: "int \<Rightarrow> int \<Rightarrow> nat \<Rightarrow> string" where
  "bucket_of_rank feed_visible_per_body full_artifact_per_body i =
     (if int i < feed_visible_per_body then BUCKET_FEED_VISIBLE
      else if int i < full_artifact_per_body then BUCKET_RECENT_ARCHIVE
      else BUCKET_DEEP_ARCHIVE)"

definition bucket_group :: "int \<Rightarrow> int \<Rightarrow> (string \<times> 'a) list \<Rightarrow> (string \<times> string) list" where
  "bucket_group feed full members =
     map (\<lambda>(i, uid, x). (uid, bucket_of_rank feed full i)) (zip [0..<length members] members)"

text \<open>The body is computed once per record; a record whose body is not text fails the whole classification.\<close>

definition episode_buckets :: "records \<Rightarrow> int \<Rightarrow> int \<Rightarrow> exn + (string \<times> string) list" where
  "episode_buckets recs feed_visible_per_body full_artifact_per_body =
     bindE (mapE (\<lambda>(uid, rec). bindE (body_text rec) (\<lambda>b. Inr (uid, b, published_of rec))) recs)
       (\<lambda>rows. Inr (concat (map (bucket_group feed_visible_per_body full_artifact_per_body)
          (rank_by_body (\<lambda>(uid, b, p). b) (\<lambda>(uid, b, p). p) rows))))"

fun provider_slot :: "pydict \<Rightarrow> string list \<Rightarrow> exn + pydict option" where
  "provider_slot registry [] = Inr None"
| "provider_slot registry (slot # slots) =
     (case dget registry slot JNull of
        JObj entry \<Rightarrow>
          if py_truthy (dget entry ''key'' JNull)
          then bindE (in_texts (dget entry ''format'' JNull) [''txt'', ''vtt'', ''srt''])
                 (\<lambda>known. if known then Inr (Some entry) else provider_slot registry slots)
          else provider_slot registry slots
      | _ \<Rightarrow> provider_slot registry slots)"

definition provider_transcript_entry :: "json \<Rightarrow> exn + pydict option" where
  "provider_transcript_entry registry =
     (case registry of
        JObj slots \<Rightarrow> provider_slot slots [''candidate'', ''known_good'']
      | _ \<Rightarrow> Inr None)"

definition PROVIDER_ALIGN_PIPELINE_VERSION :: string where "PROVIDER_ALIGN_PIPELINE_VERSION = ''7''"

definition provider_align_ineligible :: "json \<Rightarrow> bool" where
  "provider_align_ineligible registry =
     (case registry of
        JObj slots \<Rightarrow>
          list_ex (\<lambda>slot. case dget slots slot JNull of
              JObj artifact \<Rightarrow>
                dget artifact ''align_ineligible_pipeline_version'' JNull =
                  JStr (''provider-align:'' @ PROVIDER_ALIGN_PIPELINE_VERSION)
            | _ \<Rightarrow> False)
            [''candidate'', ''known_good'']
      | _ \<Rightarrow> False)"

text \<open>\<open>_slug\<close> and \<open>quality_body_key\<close> of \<open>citypods/transcript_quality.py\<close>.\<close>

fun hyphenate :: "bool \<Rightarrow> string \<Rightarrow> string" where
  "hyphenate gap [] = []"
| "hyphenate gap (c # cs) =
     (if is_lower_alnum c then c # hyphenate False cs
      else if gap then hyphenate True cs else CHR ''-'' # hyphenate True cs)"

definition slug :: "string \<Rightarrow> string" where
  "slug s =
     (let h = hyphenate False (py_lower s);
          t = rev (dropWhile (\<lambda>c. c = CHR ''-'') (rev (dropWhile (\<lambda>c. c = CHR ''-'') h)))
      in if t \<noteq> '''' then t else ''sample'')"

definition quality_body_key :: "string \<Rightarrow> string" where
  "quality_body_key body = slug (or_text (canonical_body body) (or_text body ''unknown''))"

text \<open>The quality routes by source and body, each with its \<open>route_mode\<close>.\<close>

type_synonym quality_routes = "((string \<times> string) \<times> string) list"

definition quality_route_for :: "string \<Rightarrow> string \<Rightarrow> quality_routes \<Rightarrow> string option" where
  "quality_route_for source_key body routes =
     (if routes = [] then None
      else map_of routes (source_key, quality_body_key (or_text (canonical_body body) body)))"

definition prefers_fresh_asr :: "string option \<Rightarrow> bool" where
  "prefers_fresh_asr route = (route = Some ''fresh-asr'')"

definition prefers_provider_align :: "string option \<Rightarrow> bool" where
  "prefers_provider_align route = (route = Some ''provider-align'')"

definition transcript_class :: "pydict \<Rightarrow> string option \<Rightarrow> exn + string" where
  "transcript_class rec route =
     (if prefers_fresh_asr route then Inr ''transcript-asr''
      else if provider_align_ineligible (dget rec ''provider_transcript'' JNull) then Inr ''transcript-asr''
      else
        bindE (provider_transcript_entry (dget rec ''provider_transcript'' JNull)) (\<lambda>entry.
          if entry \<noteq> None then Inr ''provider-transcript-align''
          else bindE (sub_dict rec ''links'')
                 (\<lambda>links. Inr (if py_truthy (dget links ''transcript'' JNull)
                               then ''provider-transcript-align'' else ''transcript-asr''))))"

definition align_done :: "pydict \<Rightarrow> pydict option \<Rightarrow> bool" where
  "align_done transcript provider =
     (case provider of
        None \<Rightarrow> False
      | Some p \<Rightarrow>
          py_truthy (dget p ''word_timed'' JNull) \<and>
          dget transcript ''key'' JNull = dget p ''key'' JNull \<and>
          dget transcript ''selection'' JNull = JStr ''provider-native'' \<and>
          py_truthy (dget transcript ''words_key'' JNull)
        \<or>
          py_truthy (dget transcript ''key'' JNull) \<and>
          py_in_text ''-provider-align-'' (py_str (dget transcript ''key'' JNull)) \<and>
          dget transcript ''spec_hash'' JNull = dget p ''align_spec_hash'' JNull \<and>
          py_truthy (dget transcript ''words_key'' JNull) \<and>
          dget p ''align_pipeline_version'' JNull = JStr PROVIDER_ALIGN_PIPELINE_VERSION)"

definition last_path_part :: "string \<Rightarrow> string" where
  "last_path_part s = rev (takeWhile (\<lambda>c. c \<noteq> CHR ''/'') (rev s))"

definition asr_done :: "string \<Rightarrow> pydict \<Rightarrow> pydict \<Rightarrow> pydict option \<Rightarrow> bool" where
  "asr_done uid links transcript provider =
     (let raw = dget transcript ''key'' JNull;
          transcript_key = (if py_truthy raw then py_str raw else '''');
          provider_source_exists = (provider \<noteq> None \<or> py_truthy (dget links ''transcript'' JNull))
      in transcript_key \<noteq> '''' \<and>
         (\<not> provider_source_exists \<or> dget transcript ''selection'' JNull = JStr ''asr'' \<or>
          py_in_text (uid @ ''-asr-'') (last_path_part transcript_key)))"

definition transcript_done ::
  "string \<Rightarrow> pydict \<Rightarrow> string \<Rightarrow> pydict \<Rightarrow> pydict option \<Rightarrow> exn + bool" where
  "transcript_done uid rec work_class transcript provider =
     (if work_class = ''provider-transcript-align'' then Inr (align_done transcript provider)
      else if provider \<noteq> None then Inr (asr_done uid [] transcript provider)
      else bindE (sub_dict rec ''links'') (\<lambda>links. Inr (asr_done uid links transcript provider)))"

definition transcript_item_state :: "city \<Rightarrow> string option \<Rightarrow> string \<Rightarrow> bool \<Rightarrow> string" where
  "transcript_item_state city route work_class finished =
     (if finished then ''done''
      else if work_class = ''transcript-align'' \<and> \<not> city_asr_alignment_enabled city \<and>
              \<not> prefers_provider_align route then ''alignment-disabled''
      else ''queued'')"

definition comparison_items :: "work_item \<Rightarrow> pydict \<Rightarrow> bool \<Rightarrow> exn + work_item list" where
  "comparison_items base transcript finished =
     (if \<not> finished then Inr []
      else bindE (in_texts (dget transcript ''selection'' JNull) [''provider-native'', ''provider-aligned''])
        (\<lambda>selected.
           if \<not> selected then Inr []
           else
             (let comparison_done =
                (case dget transcript ''asr_comparison'' JNull of
                   JObj c \<Rightarrow> py_truthy (dget c ''key'' JNull) \<and> py_truthy (dget c ''words_key'' JNull)
                 | _ \<Rightarrow> False)
              in Inr [base\<lparr>wi_work_class := ''transcript-asr-comparison'',
                            wi_state := (if comparison_done then ''done'' else ''queued'')\<rparr>])))"

definition transcript_items ::
  "string \<Rightarrow> city \<Rightarrow> string \<Rightarrow> pydict \<Rightarrow> quality_routes \<Rightarrow> work_item \<Rightarrow> exn + work_item list" where
  "transcript_items source_key city uid rec routes base =
     (let route = quality_route_for source_key (wi_body base) routes in
      bindE (transcript_class rec route) (\<lambda>work_class.
      bindE (sub_dict rec ''transcript'') (\<lambda>transcript.
      bindE (provider_transcript_entry (dget rec ''provider_transcript'' JNull)) (\<lambda>provider.
      bindE (transcript_done uid rec work_class transcript provider) (\<lambda>finished.
      bindE (comparison_items base transcript finished) (\<lambda>comparison.
        Inr (base\<lparr>wi_work_class := work_class,
                   wi_state := transcript_item_state city route work_class finished\<rparr> # comparison)))))))"

definition episode_work_items ::
  "string \<Rightarrow> city \<Rightarrow> string \<Rightarrow> pydict \<Rightarrow> string \<Rightarrow> quality_routes \<Rightarrow> exn + work_item list" where
  "episode_work_items source_key city uid rec bucket routes =
     bindE (body_text rec) (\<lambda>body.
     bindE (sub_dict rec ''audio'') (\<lambda>audio.
       (let base = (new_item source_key uid ''audio'')
              \<lparr>wi_published := map_option Aware (published_of rec), wi_city_slug := city_slug city, wi_body := body,
               wi_priority_bucket := bucket, wi_duration_hours := fst (record_duration_hours rec)\<rparr>;
            audio_done = py_truthy (dget audio ''url'' JNull);
            hosted = (if dget rec ''media_kind'' JNull = JStr ''hls'' \<or> city_extract_audio city \<or> audio_done
                      then [base\<lparr>wi_state := (if audio_done then ''done'' else ''queued'')\<rparr>] else [])
        in if audio_done \<and> city_asr_enabled city
           then bindE (transcript_items source_key city uid rec routes base) (\<lambda>items. Inr (hosted @ items))
           else Inr hosted)))"

definition source_items :: "quality_routes \<Rightarrow> string \<times> city \<times> records \<Rightarrow> exn + work_item list" where
  "source_items routes src =
     (case src of (source_key, city, recs) \<Rightarrow>
        bindE (episode_buckets recs (city_max_episodes city) (city_full_artifact_episodes city)) (\<lambda>buckets.
        bindE (mapE (\<lambda>(uid, rec). episode_work_items source_key city uid rec
                 (case map_of (rev buckets) uid of None \<Rightarrow> BUCKET_FEED_VISIBLE | Some b \<Rightarrow> b) routes) recs)
          (\<lambda>items. Inr (concat items))))"

definition build_manifest ::
  "(string \<times> city \<times> records) list \<Rightarrow> backlog_policy option \<Rightarrow> quality_routes \<Rightarrow> exn + work_item list" where
  "build_manifest sources policy routes =
     bindE (mapE (source_items routes) sources) (\<lambda>items. Inr (order (concat items) policy))"

text \<open>\<open>order_cities_by_policy\<close>: a city ranks as its newest episode.\<close>

definition newest_published :: "records \<Rightarrow> instant option" where
  "newest_published recs =
     fold (\<lambda>(uid, rec) newest.
         case published_of rec of
           None \<Rightarrow> newest
         | Some p \<Rightarrow> (case newest of None \<Rightarrow> Some p | Some n \<Rightarrow> if n < p then Some p else Some n))
       recs None"

definition city_proxy :: "(string \<times> records) list \<Rightarrow> city \<Rightarrow> work_item" where
  "city_proxy records_by_slug city =
     (new_item (city_slug city) '''' ''audio'')
       \<lparr>wi_published := map_option Aware
          (newest_published (case map_of records_by_slug (city_slug city) of None \<Rightarrow> [] | Some r \<Rightarrow> r)),
        wi_city_slug := city_slug city\<rparr>"

definition order_cities_by_policy ::
  "city list \<Rightarrow> (string \<times> records) list \<Rightarrow> backlog_policy option \<Rightarrow> city list" where
  "order_cities_by_policy cities records_by_slug policy =
     (case policy of
        None \<Rightarrow> cities
      | Some keys \<Rightarrow>
          if keys = [] then cities else sort_key (\<lambda>c. sort_key_for keys (city_proxy records_by_slug c)) cities)"

subsection \<open>Counts\<close>

record manifest_count =
  mc_by_work_class :: "(string \<times> (string \<times> int) list) list"
  mc_feed_visible_pending :: int
  mc_archive_backfill_pending :: int
  mc_alignment_disabled :: int
  mc_deep_archive_items :: int

definition no_count :: manifest_count where
  "no_count =
     \<lparr>mc_by_work_class = [], mc_feed_visible_pending = 0, mc_archive_backfill_pending = 0,
      mc_alignment_disabled = 0, mc_deep_archive_items = 0\<rparr>"

definition int_at :: "(string \<times> int) list \<Rightarrow> string \<Rightarrow> int" where
  "int_at d k = (case map_of d k of None \<Rightarrow> 0 | Some n \<Rightarrow> n)"

definition states_of :: "(string \<times> (string \<times> int) list) list \<Rightarrow> string \<Rightarrow> (string \<times> int) list" where
  "states_of d k = (case map_of d k of None \<Rightarrow> [] | Some s \<Rightarrow> s)"

definition count_item :: "work_item \<Rightarrow> manifest_count \<Rightarrow> manifest_count" where
  "count_item it c =
     (if wi_priority_bucket it = BUCKET_DEEP_ARCHIVE
      then c\<lparr>mc_deep_archive_items := mc_deep_archive_items c + 1\<rparr>
      else
        (let states = states_of (mc_by_work_class c) (wi_work_class it);
             c1 = c\<lparr>mc_by_work_class := AList.update (wi_work_class it)
                       (AList.update (wi_state it) (int_at states (wi_state it) + 1) states) (mc_by_work_class c)\<rparr>;
             c2 = (if wi_state it = ''alignment-disabled''
                   then c1\<lparr>mc_alignment_disabled := mc_alignment_disabled c1 + 1\<rparr> else c1)
         in if wi_state it = ''queued''
            then (if wi_priority_bucket it = BUCKET_RECENT_ARCHIVE
                  then c2\<lparr>mc_archive_backfill_pending := mc_archive_backfill_pending c2 + 1\<rparr>
                  else c2\<lparr>mc_feed_visible_pending := mc_feed_visible_pending c2 + 1\<rparr>)
            else c2))"

definition manifest_counts :: "work_item list \<Rightarrow> manifest_count" where
  "manifest_counts items = fold count_item items no_count"

subsection \<open>The persisted manifest\<close>

definition iso_of :: "datetime option \<Rightarrow> json" where
  "iso_of dt = (case dt of None \<Rightarrow> JNull | Some d \<Rightarrow> JTime d)"

fun datetime_of_json :: "json \<Rightarrow> datetime option" where
  "datetime_of_json (JTime d) = Some d"
| "datetime_of_json _ = None"

definition workitem_to_dict :: "work_item \<Rightarrow> pydict" where
  "workitem_to_dict wi =
     [(''source_key'', JStr (wi_source_key wi)),
      (''episode_uid'', JStr (wi_episode_uid wi)),
      (''work_class'', JStr (wi_work_class wi)),
      (''published'', iso_of (wi_published wi)),
      (''city_slug'', JStr (wi_city_slug wi)),
      (''body'', JStr (wi_body wi)),
      (''priority_bucket'', JStr (wi_priority_bucket wi)),
      (''duration_hours'', JFloat (wi_duration_hours wi)),
      (''state'', JStr (wi_state wi)),
      (''stage_version'', JStr (wi_stage_version wi)),
      (''input_hashes'', JList (wi_input_hashes wi)),
      (''est_seconds'', JFloat (wi_est_seconds wi)),
      (''observed_seconds'', JFloat (wi_observed_seconds wi)),
      (''last_error'', JStr (wi_last_error wi)),
      (''next_retry'', iso_of (wi_next_retry wi)),
      (''lease_owner'', JStr (wi_lease_owner wi)),
      (''lease_expires'', iso_of (wi_lease_expires wi))]"

text \<open>
  A text field is kept as it is found; only \<open>save_manifest\<close> writes the file, so it is text (another JSON
  value has no place in the record and is read as its \<open>str\<close>).
\<close>

definition text_field :: "pydict \<Rightarrow> string \<Rightarrow> string \<Rightarrow> string" where
  "text_field d k dflt = py_str (dget d k (JStr dflt))"

definition list_field :: "pydict \<Rightarrow> string \<Rightarrow> exn + json list" where
  "list_field d k = (if py_truthy (dget d k JNull) then py_iter (dget d k JNull) else Inr [])"

definition workitem_from_dict :: "pydict \<Rightarrow> exn + work_item" where
  "workitem_from_dict d =
     bindE (py_float (dget d ''duration_hours'' (JFloat 0))) (\<lambda>hours.
     bindE (list_field d ''input_hashes'') (\<lambda>hashes.
     bindE (py_float (dget d ''est_seconds'' (JFloat 0))) (\<lambda>est.
     bindE (py_float (dget d ''observed_seconds'' (JFloat 0))) (\<lambda>observed.
       Inr \<lparr>wi_source_key = text_field d ''source_key'' '''',
            wi_episode_uid = text_field d ''episode_uid'' '''',
            wi_work_class = text_field d ''work_class'' '''',
            wi_published = datetime_of_json (dget d ''published'' JNull),
            wi_city_slug = text_field d ''city_slug'' '''',
            wi_body = text_field d ''body'' '''',
            wi_priority_bucket = text_field d ''priority_bucket'' BUCKET_FEED_VISIBLE,
            wi_duration_hours = hours,
            wi_stage_version = text_field d ''stage_version'' '''',
            wi_input_hashes = hashes,
            wi_state = text_field d ''state'' ''queued'',
            wi_est_seconds = est,
            wi_observed_seconds = observed,
            wi_last_error = text_field d ''last_error'' '''',
            wi_next_retry = datetime_of_json (dget d ''next_retry'' JNull),
            wi_lease_owner = text_field d ''lease_owner'' '''',
            wi_lease_expires = datetime_of_json (dget d ''lease_expires'' JNull)\<rparr>))))"

definition save_manifest :: "work_item list \<Rightarrow> blob" where
  "save_manifest items =
     Json (JObj [(''version'', JInt 1), (''items'', JList (map (\<lambda>i. JObj (workitem_to_dict i)) items))])"

definition item_from_json :: "json \<Rightarrow> exn + work_item" where
  "item_from_json j = (case j of JObj d \<Rightarrow> workitem_from_dict d | _ \<Rightarrow> Inl (AttributeError ''get''))"

definition load_manifest :: "blob option \<Rightarrow> exn + work_item list" where
  "load_manifest file =
     (case file of
        None \<Rightarrow> Inr []
      | Some text \<Rightarrow>
          (case json_loads text of
             Inl e \<Rightarrow> Inr []
           | Inr (JObj data) \<Rightarrow> bindE (py_iter (dget data ''items'' (JList []))) (mapE item_from_json)
           | Inr _ \<Rightarrow> Inl (AttributeError ''get'')))"

subsection \<open>Leases of queue items\<close>

definition lease_item :: "work_item \<Rightarrow> string \<Rightarrow> rat \<Rightarrow> instant \<Rightarrow> work_item" where
  "lease_item wi owner ttl_seconds now =
     wi\<lparr>wi_lease_owner := owner, wi_lease_expires := Some (Aware (now + timedelta_us ttl_seconds)),
        wi_state := ''running''\<rparr>"

definition release_item :: "work_item \<Rightarrow> work_item" where
  "release_item wi = wi\<lparr>wi_lease_owner := '''', wi_lease_expires := None\<rparr>"

text \<open>Comparing a naive expiry with the clock raises.\<close>

definition is_leased :: "work_item \<Rightarrow> instant \<Rightarrow> exn + bool" where
  "is_leased wi now =
     (if wi_lease_owner wi = '''' then Inr False
      else
        (case wi_lease_expires wi of
           None \<Rightarrow> Inr False
         | Some (Aware t) \<Rightarrow> Inr (now < t)
         | Some (Naive t) \<Rightarrow> Inl TypeError))"

definition overlay_lease :: "(item_id \<times> string \<times> datetime option) list \<Rightarrow> work_item \<Rightarrow> work_item" where
  "overlay_lease leases wi =
     (if wi_state wi = ''done'' then wi
      else
        (case map_of leases (item_id wi) of
           None \<Rightarrow> wi
         | Some (owner, expires) \<Rightarrow>
             wi\<lparr>wi_lease_owner := owner, wi_lease_expires := expires, wi_state := ''running''\<rparr>))"

definition overlay_leases :: "work_item list \<Rightarrow> (item_id \<times> string \<times> datetime option) list \<Rightarrow> work_item list" where
  "overlay_leases items leases = (if leases = [] then items else map (overlay_lease leases) items)"

text \<open>The last persisted item of an identity counts.\<close>

definition persisted_by_key :: "work_item list \<Rightarrow> item_id \<Rightarrow> work_item option" where
  "persisted_by_key persisted = map_of (rev (map (\<lambda>it. (item_id it, it)) persisted))"

definition overlay_persisted_item :: "work_item list \<Rightarrow> work_item \<Rightarrow> work_item" where
  "overlay_persisted_item persisted item =
     (if wi_state item = ''done'' then item
      else
        (case persisted_by_key persisted (item_id item) of
           None \<Rightarrow> item
         | Some prev \<Rightarrow>
             if wi_lease_owner prev \<noteq> '''' \<or> wi_state prev \<in> {''running'', ''backoff'', ''dead''}
             then item\<lparr>wi_state := wi_state prev, wi_lease_owner := wi_lease_owner prev,
                       wi_lease_expires := wi_lease_expires prev, wi_last_error := wi_last_error prev,
                       wi_next_retry := wi_next_retry prev, wi_observed_seconds := wi_observed_seconds prev,
                       wi_est_seconds := wi_est_seconds prev\<rparr>
             else item))"

definition overlay_persisted_operational_state :: "work_item list \<Rightarrow> work_item list \<Rightarrow> work_item list" where
  "overlay_persisted_operational_state items persisted = map (overlay_persisted_item persisted) items"

text \<open>
  One representative city per source key, in order of first appearance. \<open>record_source_key\<close>, the records
  on disk and the quality routes are arguments.
\<close>

definition representative_cities :: "(city \<Rightarrow> string) \<Rightarrow> city list \<Rightarrow> (string \<times> city) list" where
  "representative_cities record_source_key cities =
     fold (\<lambda>c seen. if map_of seen (record_source_key c) = None then seen @ [(record_source_key c, c)] else seen)
       cities []"

definition rebuild_manifest_from_state ::
  "(city \<Rightarrow> string) \<Rightarrow> (string \<Rightarrow> records) \<Rightarrow> quality_routes \<Rightarrow> city list \<Rightarrow> pydict \<Rightarrow> blob option \<Rightarrow> instant \<Rightarrow>
   exn + work_item list" where
  "rebuild_manifest_from_state record_source_key load_records routes cities site file now =
     bindE (load_manifest file) (\<lambda>persisted.
       if cities = [] then Inr persisted
       else
         bindE (sub_dict site ''defaults'') (\<lambda>defaults.
         bindE (if py_truthy (dget site ''backlog_priority'' JNull) \<or> py_truthy (dget defaults ''backlog_priority'' JNull)
                then bindE (from_site_config site now) (\<lambda>p. Inr (Some p)) else Inr None) (\<lambda>policy.
         bindE (build_manifest
                  (map (\<lambda>(key, c). (key, c, load_records key)) (representative_cities record_source_key cities))
                  policy routes)
           (\<lambda>derived. Inr (overlay_persisted_operational_state derived persisted)))))"

end
