(* ===== verification/Queue_Properties.thy ===== *)
theory Queue_Properties
  imports Work_Queue "HOL-Library.Multiset"
begin

section \<open>Ordering, counting and overlaying the work queue\<close>

text \<open>
  The order of a policy is a stable sort whose first comparator dominates; the counts partition the items;
  a manifest survives its file; a rebuild counts no item twice, ranks each body newest first and never loses
  a lease or reopens finished work.
\<close>

subsection \<open>Ordering\<close>

lemma less_Num [simp]: "(Num a < Num b) = (a < b)"
  by (auto simp: less_sort_atom_def)

lemma order_Some: "order items (Some keys) = sort_key (sort_key_for keys) items"
proof -
  have "sorted (map (\<lambda>x. [] :: sort_atom list list) items)" by (induction items) auto
  then have "sort_key (\<lambda>x. [] :: sort_atom list list) items = items" by (rule sort_key_id_if_sorted)
  moreover have "sort_key_for [] = (\<lambda>x. [])" by (simp add: sort_key_for_def fun_eq_iff)
  ultimately show ?thesis by (simp add: order_def)
qed

lemma sort_key_for_Cons: "sort_key_for (k # ks) x = sk_fn k x # sort_key_for ks x"
  by (simp add: sort_key_for_def)

lemma order_sorted:
  "sorted_wrt (\<lambda>x y. sort_key_for keys x \<le> sort_key_for keys y) (order items (Some keys))"
  unfolding order_Some using sorted_sort_key [of "sort_key_for keys" items] by (simp add: sorted_map)

lemma first_key_sorted:
  "sorted_wrt (\<lambda>x y. sk_fn k x \<le> sk_fn k y) (order items (Some (k # ks)))"
  using order_sorted [of "k # ks" items] by (rule sorted_wrt_mono_rel [rotated]) (auto simp: sort_key_for_Cons)

text \<open>Ordering by a policy permutes the items, sorts them by the comparators lexicographically with the first
comparator dominating every later one, and keeps items on which all comparators agree in their given order.
With no policy the order is the identity.\<close>

theorem order_stable_sort:
  "mset (order items policy) = mset items \<and>
   order items None = items \<and>
   sorted_wrt (\<lambda>x y. sort_key_for keys x \<le> sort_key_for keys y) (order items (Some keys)) \<and>
   sorted_wrt (\<lambda>x y. sk_fn k x \<le> sk_fn k y) (order items (Some (k # keys))) \<and>
   filter (\<lambda>x. sort_key_for keys x = v) (order items (Some keys)) = filter (\<lambda>x. sort_key_for keys x = v) items"
proof (intro conjI)
  show "mset (order items policy) = mset items" by (simp add: order_def split: option.split)
  show "filter (\<lambda>x. sort_key_for keys x = v) (order items (Some keys)) = filter (\<lambda>x. sort_key_for keys x = v) items"
    by (simp add: order_Some sort_key_stable)
qed (simp_all add: order_def [of items None] order_sorted first_key_sorted)

text \<open>A configuration whose first comparator is \<open>feed_visible_first\<close> and which is accepted orders every
feed-visible item before every archive item, whatever the later comparators.\<close>

theorem feed_visible_comes_first:
  assumes "map_of site ''backlog_priority'' = Some (JList (JStr ''feed_visible_first'' # entries))"
    and "from_site_config site now = Inr policy"
    and "i < j" "j < length items"
    and "wi_priority_bucket (order items (Some policy) ! j) = BUCKET_FEED_VISIBLE"
  shows "wi_priority_bucket (order items (Some policy) ! i) = BUCKET_FEED_VISIBLE"
proof -
  obtain k ks where policy: "policy = k # ks" and fn: "sk_fn k = (\<lambda>wi. [Num (bucket_rank (wi_priority_bucket wi))])"
    using assms(1,2)
    by (auto simp: from_site_config_def config_list_def dget_def bindE_def build_key_def split_entry_def
        RESERVED_KEYS_def BUILDERS_def build_feed_visible_first_def split: sum.splits)
  have len: "length (order items (Some policy)) = length items" by (simp add: order_Some)
  have "sorted_wrt (\<lambda>x y. sk_fn k x \<le> sk_fn k y) (order items (Some policy))"
    unfolding policy by (rule first_key_sorted)
  then have "sk_fn k (order items (Some policy) ! i) \<le> sk_fn k (order items (Some policy) ! j)"
    using assms(3,4) len by (simp add: sorted_wrt_iff_nth_less)
  then show ?thesis using assms(5) by (auto simp: fn bucket_rank_def bucket_names less_Num split: if_splits)
qed

definition archive_item :: work_item where
  "archive_item = (new_item ''src'' ''old'' ''audio'')\<lparr>wi_priority_bucket := BUCKET_DEEP_ARCHIVE\<rparr>"

abbreviation "fresh_item uid \<equiv> new_item ''src'' uid ''audio''"

theorem feed_visible_comes_first_witness:
  "\<exists>policy. from_site_config [(''backlog_priority'', JList [JStr ''feed_visible_first'', JStr ''recency''])] 0 = Inr policy \<and>
     wi_priority_bucket (order [archive_item, fresh_item ''a'', fresh_item ''b''] (Some policy) ! 0) = BUCKET_FEED_VISIBLE"
proof -
  define site where "site = [(''backlog_priority'', JList [JStr ''feed_visible_first'', JStr ''recency''])]"
  define policy where "policy =
    [\<lparr>sk_name = ''feed_visible_first'', sk_fn = (\<lambda>wi. [Num (bucket_rank (wi_priority_bucket wi))])\<rparr>,
     \<lparr>sk_name = ''recency'', sk_fn = recency_unbounded True\<rparr>]"
  have ok: "from_site_config site 0 = Inr policy"
    by (simp add: site_def policy_def from_site_config_def config_list_def dget_def build_key_def split_entry_def
        sub_dict_def RESERVED_KEYS_def BUILDERS_def build_feed_visible_first_def build_recency_def recency_params_def)
  have "order [archive_item, fresh_item ''a'', fresh_item ''b''] (Some policy) =
      [fresh_item ''a'', fresh_item ''b'', archive_item]"
    by (simp add: order_Some policy_def sort_key_for_def recency_unbounded_def archive_item_def new_item_def
        bucket_rank_def bucket_names)
  then have "wi_priority_bucket (order [archive_item, fresh_item ''a'', fresh_item ''b''] (Some policy) ! 1) = BUCKET_FEED_VISIBLE"
    by (simp add: new_item_def)
  from feed_visible_comes_first [OF _ ok _ _ this, of "[JStr ''recency'']" 0] ok
  show ?thesis by (auto simp: site_def)
qed

subsection \<open>Counts\<close>

definition count_where :: "(work_item \<Rightarrow> bool) \<Rightarrow> work_item list \<Rightarrow> int" where
  "count_where P items = int (length (filter P items))"

lemma count_where_simps [simp]:
  "count_where P [] = 0"
  "count_where P (items @ [it]) = count_where P items + (if P it then 1 else 0)"
  by (simp_all add: count_where_def)

lemma manifest_counts_snoc: "manifest_counts (items @ [it]) = count_item it (manifest_counts items)"
  by (simp add: manifest_counts_def)

lemma manifest_counts_Nil: "manifest_counts [] = no_count"
  by (simp add: manifest_counts_def)

lemmas counting = manifest_counts_snoc manifest_counts_Nil count_item_def no_count_def Let_def bucket_names

lemma class_state_count:
  "int_at (states_of (mc_by_work_class (manifest_counts items)) cls) st =
     count_where (\<lambda>i. wi_priority_bucket i \<noteq> BUCKET_DEEP_ARCHIVE \<and> wi_work_class i = cls \<and> wi_state i = st) items"
proof (induction items rule: rev_induct)
  case Nil
  then show ?case by (simp add: counting states_of_def int_at_def)
next
  case (snoc it items)
  then show ?case by (auto simp: counting states_of_def int_at_def update_conv')
qed

text \<open>The counts of the status page are exact: for every work class and state the number of items outside the
metadata-only archive, and the pending work split into feed-visible and backfill items, so that the two pending
figures together are the queued items and nothing queued outside the metadata-only archive is left out.\<close>

theorem manifest_counts_exact:
  "int_at (states_of (mc_by_work_class (manifest_counts items)) cls) st =
     count_where (\<lambda>i. wi_priority_bucket i \<noteq> BUCKET_DEEP_ARCHIVE \<and> wi_work_class i = cls \<and> wi_state i = st) items \<and>
   mc_archive_backfill_pending (manifest_counts items) =
     count_where (\<lambda>i. wi_priority_bucket i = BUCKET_RECENT_ARCHIVE \<and> wi_state i = ''queued'') items \<and>
   mc_feed_visible_pending (manifest_counts items) + mc_archive_backfill_pending (manifest_counts items) =
     count_where (\<lambda>i. wi_priority_bucket i \<noteq> BUCKET_DEEP_ARCHIVE \<and> wi_state i = ''queued'') items \<and>
   mc_alignment_disabled (manifest_counts items) =
     count_where (\<lambda>i. wi_priority_bucket i \<noteq> BUCKET_DEEP_ARCHIVE \<and> wi_state i = ''alignment-disabled'') items \<and>
   mc_deep_archive_items (manifest_counts items) =
     count_where (\<lambda>i. wi_priority_bucket i = BUCKET_DEEP_ARCHIVE) items"
proof -
  have "mc_archive_backfill_pending (manifest_counts items) =
     count_where (\<lambda>i. wi_priority_bucket i = BUCKET_RECENT_ARCHIVE \<and> wi_state i = ''queued'') items"
    by (induction items rule: rev_induct) (auto simp: counting)
  moreover have "mc_feed_visible_pending (manifest_counts items) + mc_archive_backfill_pending (manifest_counts items) =
     count_where (\<lambda>i. wi_priority_bucket i \<noteq> BUCKET_DEEP_ARCHIVE \<and> wi_state i = ''queued'') items"
    by (induction items rule: rev_induct) (auto simp: counting)
  moreover have "mc_alignment_disabled (manifest_counts items) =
     count_where (\<lambda>i. wi_priority_bucket i \<noteq> BUCKET_DEEP_ARCHIVE \<and> wi_state i = ''alignment-disabled'') items"
    by (induction items rule: rev_induct) (auto simp: counting)
  moreover have "mc_deep_archive_items (manifest_counts items) =
     count_where (\<lambda>i. wi_priority_bucket i = BUCKET_DEEP_ARCHIVE) items"
    by (induction items rule: rev_induct) (auto simp: counting)
  ultimately show ?thesis using class_state_count by blast
qed

subsection \<open>The file\<close>

lemma datetime_iso [simp]: "datetime_of_json (iso_of d) = d"
  by (cases d) (simp_all add: iso_of_def)

lemma workitem_roundtrip: "workitem_from_dict (workitem_to_dict wi) = Inr wi"
  by (cases "wi_input_hashes wi = []")
    (simp_all add: workitem_from_dict_def workitem_to_dict_def text_field_def list_field_def dget_def)

text \<open>A manifest written to \<open>work.json\<close> is read back unchanged: every field of every item, with its leases,
retry times and durations, in order; a missing or unreadable file is an empty manifest.\<close>

theorem manifest_file_roundtrip:
  "load_manifest (Some (save_manifest items)) = Inr items \<and>
   load_manifest None = Inr [] \<and> load_manifest (Some (Garbage text)) = Inr []"
proof -
  have "mapE item_from_json (map (\<lambda>i. JObj (workitem_to_dict i)) items) = Inr items"
    by (induction items) (simp_all add: item_from_json_def workitem_roundtrip)
  then show ?thesis by (simp add: load_manifest_def save_manifest_def dget_def)
qed

subsection \<open>Overlays\<close>

text \<open>Rebuilding the manifest never loses operational state and never reopens finished work. The overlay keeps
every derived field and the identity of each item; an item whose artifact exists stays done and without the old
lease; otherwise a lease, a back-off or a dead mark persisted for the identity is on the rebuilt item, and a
lease that was live still is.\<close>

theorem overlay_keeps_operational_state:
  "length (overlay_persisted_operational_state items persisted) = length items \<and>
   map item_id (overlay_persisted_operational_state items persisted) = map item_id items \<and>
   map wi_priority_bucket (overlay_persisted_operational_state items persisted) = map wi_priority_bucket items \<and>
   map wi_published (overlay_persisted_operational_state items persisted) = map wi_published items \<and>
   (wi_state item = ''done'' \<longrightarrow> overlay_persisted_item persisted item = item) \<and>
   (wi_state item \<noteq> ''done'' \<and> persisted_by_key persisted (item_id item) = Some prev \<and>
      (wi_lease_owner prev \<noteq> '''' \<or> wi_state prev \<in> {''running'', ''backoff'', ''dead''}) \<longrightarrow>
      wi_state (overlay_persisted_item persisted item) = wi_state prev \<and>
      wi_next_retry (overlay_persisted_item persisted item) = wi_next_retry prev \<and>
      is_leased (overlay_persisted_item persisted item) now = is_leased prev now)"
  unfolding overlay_persisted_operational_state_def
  by (auto simp: overlay_persisted_item_def item_id_def is_leased_def split: option.split)

definition running_item :: work_item where
  "running_item = lease_item (fresh_item ''a'') ''w1'' 60 0"

theorem overlay_keeps_operational_state_witness:
  "is_leased (overlay_persisted_item [running_item] (fresh_item ''a'')) 1000 = Inr True"
proof -
  have "persisted_by_key [running_item] (item_id (fresh_item ''a'')) = Some running_item"
    by (simp add: persisted_by_key_def item_id_def running_item_def lease_item_def new_item_def)
  moreover have "is_leased running_item 1000 = Inr True"
    by (simp add: is_leased_def running_item_def lease_item_def timedelta_us_def round_half_even_def)
  ultimately show ?thesis
    using overlay_keeps_operational_state [of "[]" "[running_item]" "fresh_item ''a''" running_item 1000]
    by (simp add: running_item_def lease_item_def new_item_def)
qed

subsection \<open>Ranking within a body\<close>

lemma group_by_key_snoc:
  "group_by_key key (xs @ [x]) =
     AList.update (key x) ((case map_of (group_by_key key xs) (key x) of None \<Rightarrow> [] | Some g \<Rightarrow> g) @ [x])
       (group_by_key key xs)"
  by (simp add: group_by_key_def)

lemma group_by_key_map:
  "map_of (group_by_key key xs) k =
     (if filter (\<lambda>x. key x = k) xs = [] then None else Some (filter (\<lambda>x. key x = k) xs))"
proof (induction xs arbitrary: k rule: rev_induct)
  case Nil
  then show ?case by (simp add: group_by_key_def)
next
  case (snoc x xs)
  then show ?case by (simp add: group_by_key_snoc update_conv')
qed

lemma group_by_key_distinct: "distinct (map fst (group_by_key key xs))"
  by (induction xs rule: rev_induct) (simp_all add: group_by_key_def distinct_update)

lemma group_by_key_in:
  "(k, g) \<in> set (group_by_key key xs) \<longleftrightarrow> g = filter (\<lambda>x. key x = k) xs \<and> g \<noteq> []"
proof -
  have "(k, g) \<in> set (group_by_key key xs) \<longleftrightarrow> map_of (group_by_key key xs) k = Some g"
    by (rule map_of_eq_Some_iff [OF group_by_key_distinct, symmetric])
  then show ?thesis by (auto simp: group_by_key_map split: if_splits)
qed

lemma bucket_group_nth:
  "i < length members \<Longrightarrow> bucket_group feed full members ! i = (fst (members ! i), bucket_of_rank feed full i)"
  by (simp add: bucket_group_def case_prod_beta')

lemma bucket_group_length [simp]: "length (bucket_group feed full members) = length members"
  by (simp add: bucket_group_def)

lemma sort_key_Nil_iff [simp]: "sort_key f xs = [] \<longleftrightarrow> xs = []"
  by (metis set_empty set_sort)

lemma rank_by_body_set:
  "set (rank_by_body b p rows) =
     {sort_key (\<lambda>x. newest_first (p x)) (filter (\<lambda>x. body_key (canonical_body (b x)) = k) rows) | k.
        filter (\<lambda>x. body_key (canonical_body (b x)) = k) rows \<noteq> []}" (is "?L = ?R")
proof (intro set_eqI iffI)
  fix g assume "g \<in> ?R"
  then obtain k where g: "g = sort_key (\<lambda>x. newest_first (p x)) (filter (\<lambda>x. body_key (canonical_body (b x)) = k) rows)"
      "filter (\<lambda>x. body_key (canonical_body (b x)) = k) rows \<noteq> []" by blast
  then have "(k, filter (\<lambda>x. body_key (canonical_body (b x)) = k) rows) \<in>
      set (group_by_key (\<lambda>x. body_key (canonical_body (b x))) rows)" by (simp add: group_by_key_in)
  then show "g \<in> ?L" unfolding rank_by_body_def g(1) by (force simp: image_iff)
qed (auto simp: rank_by_body_def group_by_key_in)

text \<open>The rows the buckets are made of, and the ranked group of a body.\<close>

definition record_body :: "pydict \<Rightarrow> string" where
  "record_body rec = (case body_text rec of Inl e \<Rightarrow> '''' | Inr b \<Rightarrow> b)"

definition record_body_key :: "pydict \<Rightarrow> string" where
  "record_body_key rec = body_key (canonical_body (record_body rec))"

definition ranked_group :: "records \<Rightarrow> string \<Rightarrow> (string \<times> string \<times> instant option) list" where
  "ranked_group recs k =
     sort_key (\<lambda>(u, b, p). newest_first p)
       (map (\<lambda>(u, r). (u, record_body r, published_of r)) (filter (\<lambda>(u, r). record_body_key r = k) recs))"

lemma mapE_rows:
  "mapE (\<lambda>(uid, rec). bindE (body_text rec) (\<lambda>b. Inr (uid, b, published_of rec))) recs = Inr rows \<Longrightarrow>
     rows = map (\<lambda>(u, r). (u, record_body r, published_of r)) recs"
  by (induction recs arbitrary: rows)
    (auto simp: record_body_def bindE_def split: sum.splits)

lemma episode_buckets_in:
  assumes "episode_buckets recs feed full = Inr buckets"
  shows "(uid, v) \<in> set buckets \<longleftrightarrow>
    (\<exists>k i. i < length (ranked_group recs k) \<and> fst (ranked_group recs k ! i) = uid \<and> v = bucket_of_rank feed full i)"
proof -
  define rows where "rows = map (\<lambda>(u, r). (u, record_body r, published_of r)) recs"
  have buckets: "buckets = concat (map (bucket_group feed full) (rank_by_body (\<lambda>(uid, b, p). b) (\<lambda>(uid, b, p). p) rows))"
    using assms mapE_rows unfolding episode_buckets_def rows_def by (auto simp: bindE_def split: sum.splits)
  have ranked: "ranked_group recs k =
      sort_key (\<lambda>(u, b, p). newest_first p) (filter (\<lambda>(u, b, p). body_key (canonical_body b) = k) rows)" for k
    by (simp add: ranked_group_def rows_def filter_map comp_def record_body_key_def case_prod_beta')
  have member: "(uid, v) \<in> set (bucket_group feed full g) \<longleftrightarrow>
      (\<exists>i < length g. fst (g ! i) = uid \<and> v = bucket_of_rank feed full i)" for g :: "(string \<times> string \<times> instant option) list"
    unfolding in_set_conv_nth by (auto simp: bucket_group_nth)
  have "set (rank_by_body (\<lambda>(uid, b, p). b) (\<lambda>(uid, b, p). p) rows) = {ranked_group recs k | k. ranked_group recs k \<noteq> []}"
    unfolding rank_by_body_set ranked by (simp add: case_prod_beta')
  then have "(uid, v) \<in> set buckets \<longleftrightarrow>
      (\<exists>k. ranked_group recs k \<noteq> [] \<and> (uid, v) \<in> set (bucket_group feed full (ranked_group recs k)))"
    unfolding buckets by auto
  then show ?thesis unfolding member by (metis gr_implies_not_zero list.size(3))
qed

lemma ranked_group_in:
  "(u, b, p) \<in> set (ranked_group recs k) \<longleftrightarrow>
     (\<exists>r. (u, r) \<in> set recs \<and> b = record_body r \<and> p = published_of r \<and> record_body_key r = k)"
  by (auto simp: ranked_group_def)

lemma ranked_group_sorted:
  "sorted_wrt (\<lambda>x y. newest_first (snd (snd x)) \<le> newest_first (snd (snd y))) (ranked_group recs k)"
  using sorted_sort_key [of "\<lambda>x. newest_first (snd (snd x))"
      "map (\<lambda>(u, r). (u, record_body r, published_of r)) (filter (\<lambda>(u, r). record_body_key r = k) recs)"]
  by (simp add: ranked_group_def sorted_map case_prod_beta')

lemma ranked_group_distinct:
  "distinct (map fst recs) \<Longrightarrow> distinct (map fst (ranked_group recs k))"
proof -
  assume d: "distinct (map fst recs)"
  have "distinct (map fst (filter (\<lambda>(u, r). record_body_key r = k) recs))" using d by (induction recs) auto
  then have "distinct (map fst (map (\<lambda>(u, r). (u, record_body r, published_of r)) (filter (\<lambda>(u, r). record_body_key r = k) recs)))"
    by (simp add: comp_def case_prod_beta')
  then show ?thesis unfolding ranked_group_def
    by (metis (no_types, lifting) distinct_map distinct_sort set_sort)
qed

text \<open>The bucket of a record is that of its rank within its body.\<close>

lemma bucket_is_rank:
  assumes d: "distinct (map fst recs)" and b: "episode_buckets recs feed full = Inr buckets"
    and i: "i < length (ranked_group recs k)"
  shows "map_of (rev buckets) (fst (ranked_group recs k ! i)) = Some (bucket_of_rank feed full i)"
proof -
  define uid where "uid = fst (ranked_group recs k ! i)"
  have "(uid, bucket_of_rank feed full i) \<in> set (rev buckets)"
    using i unfolding uid_def set_rev episode_buckets_in [OF b] by blast
  then obtain v where v: "map_of (rev buckets) uid = Some v"
    using weak_map_of_SomeI by fastforce
  then have "(uid, v) \<in> set buckets" by (metis map_of_SomeD set_rev)
  then obtain k' j where j: "j < length (ranked_group recs k')" "fst (ranked_group recs k' ! j) = uid"
      "v = bucket_of_rank feed full j" unfolding episode_buckets_in [OF b] by blast
  obtain b1 p1 where m1: "(uid, b1, p1) \<in> set (ranked_group recs k)"
    using nth_mem [OF i] unfolding uid_def by (metis prod.collapse)
  obtain b2 p2 where m2: "(uid, b2, p2) \<in> set (ranked_group recs k')"
    using nth_mem [OF j(1)] j(2) by (metis prod.collapse)
  have "k = k'" using m1 m2 d unfolding ranked_group_in by (metis eq_key_imp_eq_value)
  then have "i = j"
    using j(1,2) i ranked_group_distinct [OF d, of k] unfolding uid_def
    by (metis distinct_conv_nth length_map nth_map)
  then show ?thesis using v j(3) unfolding uid_def by simp
qed

lemma newest_first_le:
  "newest_first p \<le> newest_first q \<longleftrightarrow> (case q of None \<Rightarrow> True | Some n \<Rightarrow> (case p of None \<Rightarrow> False | Some m \<Rightarrow> n \<le> m))"
  by (auto simp: newest_first_def split: option.splits)

lemma feed_bucket_iff: "bucket_of_rank feed full i = BUCKET_FEED_VISIBLE \<longleftrightarrow> int i < feed"
  by (simp add: bucket_of_rank_def bucket_names)

lemma length_filter_prefix:
  assumes "\<And>i. i < length xs \<Longrightarrow> P (xs ! i) \<Longrightarrow> i < n"
  shows "length (filter P xs) \<le> n"
proof -
  have "filter P (drop n xs) = []"
    using assms by (auto simp: filter_empty_conv in_set_conv_nth) (metis add.commute less_diff_conv not_add_less2)
  then have "filter P xs = filter P (take n xs)" by (metis append_Nil2 append_take_drop_id filter_append)
  also have "length \<dots> \<le> n" by (metis length_filter_le length_take min.bounded_iff)
  finally show ?thesis .
qed

lemma feed_count:
  "length (filter (\<lambda>(u, r). record_body_key r = k \<and> P u) recs) = length (filter P (map fst (ranked_group recs k)))"
proof -
  have "mset (map fst (ranked_group recs k)) = mset (map fst (filter (\<lambda>(u, r). record_body_key r = k) recs))"
    by (simp add: ranked_group_def comp_def case_prod_beta' image_mset.compositionality)
  then have "mset (filter P (map fst (ranked_group recs k))) =
      mset (filter P (map fst (filter (\<lambda>(u, r). record_body_key r = k) recs)))"
    by (metis mset_filter)
  then have "length (filter P (map fst (ranked_group recs k))) =
      length (filter P (map fst (filter (\<lambda>(u, r). record_body_key r = k) recs)))"
    by (rule mset_eq_length)
  also have "\<dots> = length (filter (\<lambda>(u, r). record_body_key r = k \<and> P u) recs)"
    by (induction recs) auto
  finally show ?thesis by simp
qed

text \<open>Within each body the feed shows the newest episodes and no more of them than configured. No more than
\<open>max_episodes\<close> records of one body are feed-visible, and a record that is feed-visible is dated and at least
as recent as any dated record of its body that is not; an undated record is never preferred to a dated one.\<close>

theorem buckets_rank_newest_first:
  assumes d: "distinct (map fst recs)" and b: "episode_buckets recs feed full = Inr buckets"
  shows "length (filter (\<lambda>(u, r). record_body_key r = k \<and> map_of (rev buckets) u = Some BUCKET_FEED_VISIBLE) recs)
           \<le> nat feed \<and>
    ((u1, r1) \<in> set recs \<and> (u2, r2) \<in> set recs \<and> record_body_key r1 = record_body_key r2 \<and>
     map_of (rev buckets) u1 = Some BUCKET_FEED_VISIBLE \<and> map_of (rev buckets) u2 \<noteq> Some BUCKET_FEED_VISIBLE \<longrightarrow>
     (case published_of r2 of
        None \<Rightarrow> True
      | Some p2 \<Rightarrow> (case published_of r1 of None \<Rightarrow> False | Some p1 \<Rightarrow> p2 \<le> p1)))"
proof (intro conjI impI)
  have "map_of (rev buckets) (map fst (ranked_group recs k) ! i) = Some BUCKET_FEED_VISIBLE \<Longrightarrow> i < nat feed"
    if "i < length (map fst (ranked_group recs k))" for i
    using bucket_is_rank [OF d b, of i k] that by (simp add: feed_bucket_iff zless_nat_eq_int_zless)
  then show "length (filter (\<lambda>(u, r). record_body_key r = k \<and> map_of (rev buckets) u = Some BUCKET_FEED_VISIBLE) recs)
      \<le> nat feed"
    unfolding feed_count by (rule length_filter_prefix)
next
  assume a: "(u1, r1) \<in> set recs \<and> (u2, r2) \<in> set recs \<and> record_body_key r1 = record_body_key r2 \<and>
     map_of (rev buckets) u1 = Some BUCKET_FEED_VISIBLE \<and> map_of (rev buckets) u2 \<noteq> Some BUCKET_FEED_VISIBLE"
  define g where "g = ranked_group recs (record_body_key r1)"
  have "(u1, record_body r1, published_of r1) \<in> set g" "(u2, record_body r2, published_of r2) \<in> set g"
    using a unfolding g_def ranked_group_in by auto
  then obtain i j where i: "i < length g" "g ! i = (u1, record_body r1, published_of r1)"
      and j: "j < length g" "g ! j = (u2, record_body r2, published_of r2)" by (metis in_set_conv_nth)
  have "int i < feed" "\<not> int j < feed"
    using bucket_is_rank [OF d b, of i "record_body_key r1"] bucket_is_rank [OF d b, of j "record_body_key r1"] a i j
    unfolding g_def by (auto simp: feed_bucket_iff [symmetric, where full = full])
  then have "i < j" by linarith
  then have "newest_first (snd (snd (g ! i))) \<le> newest_first (snd (snd (g ! j)))"
    using ranked_group_sorted [of recs "record_body_key r1"] j(1) unfolding g_def sorted_wrt_iff_nth_less by blast
  then have "newest_first (published_of r1) \<le> newest_first (published_of r2)" using i j by simp
  then show "case published_of r2 of None \<Rightarrow> True
      | Some p2 \<Rightarrow> (case published_of r1 of None \<Rightarrow> False | Some p1 \<Rightarrow> p2 \<le> p1)"
    by (simp add: newest_first_le)
qed

definition council_record :: "int \<Rightarrow> pydict" where
  "council_record t = [(''body'', JStr ''Council''), (''published'', JTime (Aware t))]"

theorem buckets_rank_newest_first_witness:
  "length (filter (\<lambda>(u, r). record_body_key r = ''council'' \<and>
       map_of (rev [(''b'', BUCKET_FEED_VISIBLE), (''a'', BUCKET_RECENT_ARCHIVE)]) u = Some BUCKET_FEED_VISIBLE)
       [(''a'', council_record 1), (''b'', council_record 2)]) \<le> 1"
proof -
  have key: "body_key (canonical_body ''Council'') = ''council''" by code_simp
  have "episode_buckets [(''a'', council_record 1), (''b'', council_record 2)] 1 2 =
      Inr [(''b'', BUCKET_FEED_VISIBLE), (''a'', BUCKET_RECENT_ARCHIVE)]"
    by (simp add: episode_buckets_def body_text_def council_record_def dget_def published_of_def rank_by_body_def
        group_by_key_def key newest_first_def bucket_group_def bucket_of_rank_def)
  from buckets_rank_newest_first [OF _ this, of "''council''"] show ?thesis by simp
qed

subsection \<open>One item per artifact\<close>

lemma transcript_class_cases:
  "transcript_class rec route = Inr c \<Longrightarrow> c = ''transcript-asr'' \<or> c = ''provider-transcript-align''"
  by (auto simp: transcript_class_def bindE_Inr split: if_splits)

lemma comparison_items_cases:
  "comparison_items base transcript finished = Inr items \<Longrightarrow>
     items = [] \<or> (\<exists>st. items = [base\<lparr>wi_work_class := ''transcript-asr-comparison'', wi_state := st\<rparr>])"
  by (auto simp: comparison_items_def bindE_Inr Let_def split: if_splits)

lemma transcript_items_shape:
  assumes "transcript_items source_key city uid rec routes base = Inr items"
  shows "\<exists>c st rest. items = base\<lparr>wi_work_class := c, wi_state := st\<rparr> # rest \<and>
     (c = ''transcript-asr'' \<or> c = ''provider-transcript-align'') \<and>
     (rest = [] \<or> (\<exists>st. rest = [base\<lparr>wi_work_class := ''transcript-asr-comparison'', wi_state := st\<rparr>]))"
  using assms transcript_class_cases comparison_items_cases
  by (fastforce simp: transcript_items_def bindE_Inr Let_def)

definition artifact_list :: "string \<Rightarrow> string \<Rightarrow> work_item list \<Rightarrow> bool" where
  "artifact_list source_key uid items =
     (distinct (map item_id items) \<and>
      list_all (\<lambda>i. wi_source_key i = source_key \<and> wi_episode_uid i = uid) items \<and>
      list_all (\<lambda>i. wi_work_class i = ''audio'' \<or>
         list_ex (\<lambda>a. wi_work_class a = ''audio'' \<and> wi_state a = ''done'') items) items)"

lemma episode_items_ok:
  assumes "episode_work_items source_key city uid rec bucket routes = Inr items"
  shows "artifact_list source_key uid items"
proof -
  define base where "base body = (new_item source_key uid ''audio'')
      \<lparr>wi_published := map_option Aware (published_of rec), wi_city_slug := city_slug city, wi_body := body,
       wi_priority_bucket := bucket, wi_duration_hours := fst (record_duration_hours rec)\<rparr>" for body
  have ids: "wi_source_key (base body) = source_key" "wi_episode_uid (base body) = uid"
    "wi_work_class (base body) = ''audio''" for body
    by (simp_all add: base_def new_item_def)
  obtain body audio where steps: "body_text rec = Inr body" "sub_dict rec ''audio'' = Inr audio"
    using assms by (auto simp: episode_work_items_def bindE_Inr)
  define audio_done where "audio_done = py_truthy (dget audio ''url'' JNull)"
  define hosted where "hosted = (if dget rec ''media_kind'' JNull = JStr ''hls'' \<or> city_extract_audio city \<or> audio_done
      then [(base body)\<lparr>wi_state := (if audio_done then ''done'' else ''queued'')\<rparr>] else [])"
  have items: "(if audio_done \<and> city_asr_enabled city
      then bindE (transcript_items source_key city uid rec routes (base body)) (\<lambda>items. Inr (hosted @ items))
      else Inr hosted) = Inr items"
    using assms unfolding episode_work_items_def steps bindE_simps Let_def base_def audio_done_def hosted_def .
  show ?thesis
  proof (cases "audio_done \<and> city_asr_enabled city")
    case True
    then obtain ts where ts: "transcript_items source_key city uid rec routes (base body) = Inr ts" "items = hosted @ ts"
      using items by (auto simp: bindE_Inr)
    from transcript_items_shape [OF ts(1)] True show ?thesis
      unfolding ts(2) by (auto simp: hosted_def artifact_list_def item_id_def ids)
  next
    case False
    then show ?thesis using items by (auto simp: hosted_def artifact_list_def item_id_def ids)
  qed
qed

lemma mapE_Inr: "mapE f xs = Inr ys \<Longrightarrow> list_all2 (\<lambda>x y. f x = Inr y) xs ys"
  by (induction xs arbitrary: ys) (auto split: sum.splits)

lemma list_all2_member: "list_all2 R xs ys \<Longrightarrow> y \<in> set ys \<Longrightarrow> \<exists>x\<in>set xs. R x y"
  by (induction rule: list_all2_induct) auto

text \<open>Lists made of parts with disjoint keys have no repeated identity.\<close>

lemma distinct_concat_parts:
  assumes "list_all2 (\<lambda>x items. distinct (map item_id items) \<and> (\<forall>i\<in>set items. key (item_id i) = f x)) xs parts"
    and "distinct (map f xs)"
  shows "distinct (map item_id (concat parts))"
  using assms
proof (induction rule: list_all2_induct)
  case (Cons x xs items parts)
  have "key (item_id i) \<in> set (map f xs)" if "i \<in> set (concat parts)" for i
    using that list_all2_member [OF Cons.hyps(2)] by fastforce
  then have "set (map item_id items) \<inter> set (map item_id (concat parts)) = {}"
    using Cons.hyps(1) Cons.prems by (auto, metis)
  then show ?case using Cons by simp
qed simp

lemma source_items_ok:
  assumes "source_items routes (source_key, city, recs) = Inr items" and d: "distinct (map fst recs)"
  shows "distinct (map item_id items) \<and> (\<forall>i\<in>set items. fst (item_id i) = source_key) \<and>
    (\<forall>i\<in>set items. wi_work_class i \<noteq> ''audio'' \<longrightarrow>
       (\<exists>a\<in>set items. wi_source_key a = wi_source_key i \<and> wi_episode_uid a = wi_episode_uid i \<and>
          wi_work_class a = ''audio'' \<and> wi_state a = ''done''))"
proof -
  obtain buckets parts where
    parts: "mapE (\<lambda>(uid, rec). episode_work_items source_key city uid rec
                 (case map_of (rev buckets) uid of None \<Rightarrow> BUCKET_FEED_VISIBLE | Some b \<Rightarrow> b) routes) recs = Inr parts"
      and items: "items = concat parts"
    using assms(1) by (auto simp: source_items_def bindE_Inr)
  have ok: "list_all2 (\<lambda>(uid, rec) part. artifact_list source_key uid part) recs parts"
    using mapE_Inr [OF parts] by (rule list_all2_mono) (auto dest: episode_items_ok)
  have "list_all2 (\<lambda>x part. distinct (map item_id part) \<and> (\<forall>i\<in>set part. fst (snd (item_id i)) = fst x)) recs parts"
    using ok by (rule list_all2_mono) (auto simp: artifact_list_def item_id_def list_all_iff)
  then have "distinct (map item_id items)"
    unfolding items using distinct_concat_parts [where key = "\<lambda>k. fst (snd k)" and f = fst] d by blast
  moreover have "fst (item_id i) = source_key \<and> (wi_work_class i \<noteq> ''audio'' \<longrightarrow>
       (\<exists>a\<in>set items. wi_source_key a = wi_source_key i \<and> wi_episode_uid a = wi_episode_uid i \<and>
          wi_work_class a = ''audio'' \<and> wi_state a = ''done''))" if i: "i \<in> set items" for i
  proof -
    obtain part where part: "part \<in> set parts" "i \<in> set part" using i items by auto
    obtain uid where "artifact_list source_key uid part"
      using list_all2_member [OF ok part(1)] by auto
    then show ?thesis using part items
      by (fastforce simp: artifact_list_def list_all_iff list_ex_iff item_id_def)
  qed
  ultimately show ?thesis by blast
qed

lemma order_mset: "mset (order items policy) = mset items"
  by (simp add: order_def split: option.split)

lemma order_set [simp]: "set (order items policy) = set items"
  by (metis order_mset set_mset_mset)

lemma order_distinct: "distinct (map f (order items policy)) = distinct (map f items)"
proof -
  have "mset (map f (order items policy)) = mset (map f items)" by (simp add: order_mset)
  then show ?thesis by (metis mset_eq_imp_distinct_iff)
qed

text \<open>C37: The manifest derived from the records of distinct sources has one item per artifact: no two items share
source, episode and work class, so no work is counted or dispatched twice, and a transcript item appears only
beside an audio item of the same episode which is done.\<close>

theorem manifest_one_item_per_artifact:
  assumes built: "build_manifest sources policy routes = Inr items"
    and keys: "distinct (map fst sources)"
    and uids: "list_all (\<lambda>(k, c, recs). distinct (map fst recs)) sources"
  shows "distinct (map item_id items) \<and>
    list_all (\<lambda>i. wi_work_class i = ''audio'' \<or>
      list_ex (\<lambda>a. wi_source_key a = wi_source_key i \<and> wi_episode_uid a = wi_episode_uid i \<and>
         wi_work_class a = ''audio'' \<and> wi_state a = ''done'') items) items"
proof -
  obtain parts where parts: "mapE (source_items routes) sources = Inr parts" and items: "items = order (concat parts) policy"
    using built by (auto simp: build_manifest_def bindE_Inr)
  define good where "good part \<longleftrightarrow> (\<forall>i\<in>set part. wi_work_class i \<noteq> ''audio'' \<longrightarrow>
       (\<exists>a\<in>set part. wi_source_key a = wi_source_key i \<and> wi_episode_uid a = wi_episode_uid i \<and>
          wi_work_class a = ''audio'' \<and> wi_state a = ''done''))" for part :: "work_item list"
  have ok: "list_all2 (\<lambda>x part. (distinct (map item_id part) \<and> (\<forall>i\<in>set part. fst (item_id i) = fst x)) \<and> good part)
      sources parts"
    using mapE_Inr [OF parts] uids source_items_ok unfolding good_def
    by (fastforce simp: list_all2_conv_all_nth list_all_length)
  have "list_all2 (\<lambda>x part. distinct (map item_id part) \<and> (\<forall>i\<in>set part. fst (item_id i) = fst x)) sources parts"
    using ok by (rule list_all2_mono) blast
  then have "distinct (map item_id (concat parts))"
    using distinct_concat_parts [where key = fst and f = fst] keys by blast
  moreover have "good part" if "part \<in> set parts" for part
    using list_all2_member [OF ok that] by blast
  ultimately show ?thesis
    unfolding items by (fastforce simp: order_distinct list_all_iff list_ex_iff good_def)
qed

definition sample_city :: city where
  "sample_city = \<lparr>city_slug = ''plano'', city_extract_audio = False, city_asr_enabled = True,
     city_asr_alignment_enabled = True, city_max_episodes = 500, city_full_artifact_episodes = 2000\<rparr>"

definition hosted_record :: pydict where
  "hosted_record = [(''body'', JStr ''Council''), (''audio'', JObj [(''url'', JStr ''u'')])]"

theorem manifest_one_item_per_artifact_witness:
  "\<exists>items. build_manifest [(''src'', sample_city, [(''e1'', hosted_record)])] None [] = Inr items \<and>
     map wi_work_class items = [''audio'', ''transcript-asr''] \<and> distinct (map item_id items)"
proof -
  have key: "body_key (canonical_body ''Council'') = ''council''" by code_simp
  obtain items where items: "build_manifest [(''src'', sample_city, [(''e1'', hosted_record)])] None [] = Inr items"
      and classes: "map wi_work_class items = [''audio'', ''transcript-asr'']"
    by (simp add: build_manifest_def source_items_def episode_buckets_def body_text_def hosted_record_def dget_def
        published_of_def rank_by_body_def group_by_key_def key newest_first_def bucket_group_def bucket_of_rank_def
        sample_city_def episode_work_items_def sub_dict_def transcript_items_def transcript_class_def
        prefers_fresh_asr_def quality_route_for_def provider_align_ineligible_def provider_transcript_entry_def
        transcript_done_def asr_done_def comparison_items_def transcript_item_state_def order_def
        record_duration_hours_def record_served_duration_seconds_def record_source_duration_seconds_def
        positive_seconds_def first_some_def new_item_def)
  then show ?thesis using manifest_one_item_per_artifact [OF items] by simp
qed

end
