(* ===== verification/Media_Availability.thy ===== *)
theory Media_Availability
  imports Prelude
begin

section \<open>Durable verdicts on the media of an episode\<close>

text \<open>
  \<open>citypods/availability.py\<close>: the state machine that folds one observation per run into the stored
  verdict, the operator's override, the fingerprint that ties a verdict to the source it is about and the
  measure of what is not silent in a recording. The hash is the parameter \<open>sha256_16\<close>, the text of a float
  the parameter \<open>float_text\<close>.
\<close>

definition DETECTOR_VERSION :: string where "DETECTOR_VERSION = ''1''"

definition AVAILABLE :: string where "AVAILABLE = ''available''"
definition SUSPECTED_EMPTY :: string where "SUSPECTED_EMPTY = ''suspected_empty''"
definition CONFIRMED_EMPTY :: string where "CONFIRMED_EMPTY = ''confirmed_empty''"
definition MISSING :: string where "MISSING = ''missing''"
definition INVALID :: string where "INVALID = ''invalid''"
definition RECOVERED :: string where "RECOVERED = ''recovered''"
definition SUSPECTED_PARTIAL :: string where "SUSPECTED_PARTIAL = ''suspected_partial''"
definition CONFIRMED_PARTIAL :: string where "CONFIRMED_PARTIAL = ''confirmed_partial''"

lemmas verdict_names = AVAILABLE_def SUSPECTED_EMPTY_def CONFIRMED_EMPTY_def MISSING_def INVALID_def
  RECOVERED_def SUSPECTED_PARTIAL_def CONFIRMED_PARTIAL_def

definition WITHHELD_STATES :: "string list" where
  "WITHHELD_STATES = [SUSPECTED_EMPTY, CONFIRMED_EMPTY, MISSING, INVALID]"

definition CONFIRMED_DEAD_STATES :: "string list" where
  "CONFIRMED_DEAD_STATES = [CONFIRMED_EMPTY, MISSING, INVALID]"

definition OVERRIDE_STATES :: "string list" where
  "OVERRIDE_STATES = WITHHELD_STATES @ [AVAILABLE, RECOVERED, SUSPECTED_PARTIAL, CONFIRMED_PARTIAL]"

definition CONFIRM_THRESHOLD :: int where "CONFIRM_THRESHOLD = 2"

definition SILENT :: string where "SILENT = ''silent''"
definition PLAYABLE :: string where "PLAYABLE = ''playable''"
definition PARTIAL :: string where "PARTIAL = ''partial''"
definition TRANSPORT_FAILED :: string where "TRANSPORT_FAILED = ''transport_failed''"
definition DEAD :: string where "DEAD = ''dead''"
definition ABSENT :: string where "ABSENT = ''missing''"

lemmas observation_names = SILENT_def PLAYABLE_def PARTIAL_def TRANSPORT_FAILED_def DEAD_def ABSENT_def

text \<open>The \<open>now\<close> argument: text that is passed through, a datetime, or none (the clock).\<close>

datatype now_arg = NowText string | NowTime datetime | NowClock

definition now_iso :: "instant \<Rightarrow> now_arg \<Rightarrow> string" where
  "now_iso clock now =
     (case now of NowText s \<Rightarrow> s | NowTime t \<Rightarrow> iso_text t | NowClock \<Rightarrow> iso_text (Aware clock))"

record media_availability =
  ma_state :: string
  ma_reason :: string
  ma_detector_version :: string
  ma_source_fingerprint :: "string option"
  ma_profile :: string
  ma_last_check :: "string option"
  ma_silent_confirmations :: int
  ma_partial_confirmations :: int
  ma_evidence_ref :: "string option"
  ma_operator_override :: "string option"
  ma_operator_reason :: string
  ma_recovered_at :: "string option"

definition new_availability :: "string \<Rightarrow> string \<Rightarrow> media_availability" where
  "new_availability state reason =
     \<lparr>ma_state = state, ma_reason = reason, ma_detector_version = DETECTOR_VERSION,
      ma_source_fingerprint = None, ma_profile = '''', ma_last_check = None, ma_silent_confirmations = 0,
      ma_partial_confirmations = 0, ma_evidence_ref = None, ma_operator_override = None,
      ma_operator_reason = '''', ma_recovered_at = None\<rparr>"

definition effective_state :: "media_availability \<Rightarrow> string" where
  "effective_state v =
     (case ma_operator_override v of Some s \<Rightarrow> if s \<noteq> '''' then s else ma_state v | None \<Rightarrow> ma_state v)"

definition is_withheld :: "media_availability \<Rightarrow> bool" where
  "is_withheld v = (effective_state v \<in> set WITHHELD_STATES)"

definition is_confirmed_dead :: "media_availability \<Rightarrow> bool" where
  "is_confirmed_dead v = (effective_state v \<in> set CONFIRMED_DEAD_STATES)"

definition is_confirmed_partial :: "media_availability \<Rightarrow> bool" where
  "is_confirmed_partial v = (effective_state v = CONFIRMED_PARTIAL)"

definition is_suspected_partial :: "media_availability \<Rightarrow> bool" where
  "is_suspected_partial v = (effective_state v = SUSPECTED_PARTIAL)"

record observation =
  ob_kind :: string
  ob_fingerprint :: "string option"
  ob_profile :: string
  ob_reason :: string
  ob_now :: now_arg

subsection \<open>Fingerprints\<close>

definition is_scheme_char :: "char \<Rightarrow> bool" where
  "is_scheme_char c =
     (let n = (of_char c :: nat) in
      97 \<le> n \<and> n \<le> 122 \<or> 65 \<le> n \<and> n \<le> 90 \<or> 48 \<le> n \<and> n \<le> 57 \<or> c = CHR ''+'' \<or> c = CHR ''-'' \<or> c = CHR ''.'')"

definition is_letter :: "char \<Rightarrow> bool" where
  "is_letter c = (let n = (of_char c :: nat) in 97 \<le> n \<and> n \<le> 122 \<or> 65 \<le> n \<and> n \<le> 90)"

text \<open>The scheme, the host part and the path of \<open>urllib.parse.urlsplit\<close>.\<close>

definition split_scheme :: "string \<Rightarrow> string \<times> string" where
  "split_scheme url =
     (let s = takeWhile (\<lambda>c. c \<noteq> CHR '':'') url in
      if s \<noteq> [] \<and> length s < length url \<and> is_letter (hd s) \<and> list_all is_scheme_char s
      then (py_lower s, drop (length s + 1) url) else ('''', url))"

definition url_parts :: "string \<Rightarrow> string \<times> string \<times> string" where
  "url_parts url =
     (case split_scheme url of
        (scheme, rest) \<Rightarrow>
          (let has_host = py_startswith rest ''//'';
               netloc = (if has_host then takeWhile (\<lambda>c. c \<notin> set ''/?#'') (drop 2 rest) else '''');
               tail = (if has_host then drop (length netloc + 2) rest else rest);
               path = takeWhile (\<lambda>c. c \<notin> set ''?#'') tail
           in (scheme, netloc, path)))"

definition stable_url :: "string \<Rightarrow> string" where
  "stable_url raw =
     (case url_parts raw of
        (scheme, netloc, path) \<Rightarrow> if netloc \<noteq> '''' then scheme @ ''://'' @ netloc @ path else raw)"

record fingerprinted =
  fp_resolved_audio_url :: "string option"
  fp_source_duration :: "rat option"
  fp_media_kind :: "string option"

definition or_empty :: "string option \<Rightarrow> string" where
  "or_empty s = (case s of None \<Rightarrow> '''' | Some t \<Rightarrow> t)"

definition source_fingerprint ::
  "(string \<Rightarrow> string) \<Rightarrow> (rat \<Rightarrow> string) \<Rightarrow> fingerprinted \<Rightarrow> string \<Rightarrow> string" where
  "source_fingerprint sha256_16 float_text ep profile =
     sha256_16 (py_join [char_of (10 :: nat)]
       [stable_url (or_empty (fp_resolved_audio_url ep)),
        (case fp_source_duration ep of None \<Rightarrow> '''' | Some d \<Rightarrow> if d = 0 then '''' else float_text d),
        or_empty (fp_media_kind ep), profile, DETECTOR_VERSION])"

subsection \<open>What is not silent\<close>

definition clamp_to :: "rat \<Rightarrow> rat \<Rightarrow> rat" where
  "clamp_to d x = max 0 (min x d)"

definition clamped_spans :: "rat \<Rightarrow> (rat \<times> rat) list \<Rightarrow> (rat \<times> rat) list" where
  "clamped_spans d silences =
     filter (\<lambda>(lo, hi). lo < hi) (map (\<lambda>(a, b). (clamp_to d a, clamp_to d b)) silences)"

fun add_span :: "rat \<times> rat \<Rightarrow> rat \<times> (rat \<times> rat) option \<Rightarrow> rat \<times> (rat \<times> rat) option" where
  "add_span (lo, hi) (silent, None) = (silent, Some (lo, hi))"
| "add_span (lo, hi) (silent, Some (a, b)) =
     (if lo \<le> b then (silent, Some (a, max b hi)) else (silent + (b - a), Some (lo, hi)))"

definition content_seconds :: "(rat \<times> rat) list \<Rightarrow> rat \<Rightarrow> rat" where
  "content_seconds silences source_duration =
     (if source_duration \<le> 0 then 0
      else
        (case fold add_span (sort_key (\<lambda>(lo, hi). [lo, hi]) (clamped_spans source_duration silences)) (0, None) of
           (silent, last_span) \<Rightarrow>
             max 0 (source_duration - (case last_span of None \<Rightarrow> silent | Some (a, b) \<Rightarrow> silent + (b - a)))))"

definition is_effectively_silent :: "(rat \<times> rat) list \<Rightarrow> rat \<Rightarrow> rat \<Rightarrow> rat \<Rightarrow> bool" where
  "is_effectively_silent silences source_duration min_seconds min_fraction =
     (if source_duration \<le> 0 then False
      else content_seconds silences source_duration < max min_seconds (source_duration * min_fraction))"

subsection \<open>The classifier\<close>

definition fresh_source :: "media_availability option \<Rightarrow> observation \<Rightarrow> bool" where
  "fresh_source prior obs =
     (case prior of
        None \<Rightarrow> False
      | Some v \<Rightarrow>
          (case (ob_fingerprint obs, ma_source_fingerprint v) of
             (Some f, Some g) \<Rightarrow> f \<noteq> g
           | _ \<Rightarrow> False))"

definition or_text_opt :: "string option \<Rightarrow> string option \<Rightarrow> string option" where
  "or_text_opt a b = (case a of Some s \<Rightarrow> if s \<noteq> '''' then Some s else b | None \<Rightarrow> b)"

definition build_verdict ::
  "instant \<Rightarrow> media_availability option \<Rightarrow> observation \<Rightarrow> string \<Rightarrow> int \<Rightarrow> int \<Rightarrow> string \<Rightarrow> string option \<Rightarrow> media_availability" where
  "build_verdict clock prior obs state silent_confirmations partial_confirmations reason recovered_at =
     (let base = (if fresh_source prior obs then None else prior) in
      \<lparr>ma_state = state, ma_reason = reason, ma_detector_version = DETECTOR_VERSION,
       ma_source_fingerprint = or_text_opt (ob_fingerprint obs) (case prior of None \<Rightarrow> None | Some v \<Rightarrow> ma_source_fingerprint v),
       ma_profile = or_text (ob_profile obs) (case prior of None \<Rightarrow> '''' | Some v \<Rightarrow> ma_profile v),
       ma_last_check = Some (now_iso clock (ob_now obs)),
       ma_silent_confirmations = silent_confirmations,
       ma_partial_confirmations = partial_confirmations,
       ma_evidence_ref = (case base of None \<Rightarrow> None | Some v \<Rightarrow> ma_evidence_ref v),
       ma_operator_override = (case base of None \<Rightarrow> None | Some v \<Rightarrow> ma_operator_override v),
       ma_operator_reason = (case base of None \<Rightarrow> '''' | Some v \<Rightarrow> ma_operator_reason v),
       ma_recovered_at = recovered_at\<rparr>)"

definition classify :: "instant \<Rightarrow> media_availability option \<Rightarrow> observation \<Rightarrow> exn + media_availability option" where
  "classify clock prior obs =
     (if ob_kind obs = TRANSPORT_FAILED then
        Inr (map_option (\<lambda>v. v\<lparr>ma_last_check := Some (now_iso clock (ob_now obs))\<rparr>) prior)
      else
        (let base = (if fresh_source prior obs then None else prior);
             kept_recovery = (case base of None \<Rightarrow> None | Some v \<Rightarrow> ma_recovered_at v);
             build = (\<lambda>st n m why rec. Inr (Some (build_verdict clock prior obs st n m why rec)))
         in if ob_kind obs = DEAD then
              build INVALID 0 0 (or_text (ob_reason obs) ''provider reports no usable media'') kept_recovery
            else if ob_kind obs = ABSENT then
              build MISSING 0 0 (or_text (ob_reason obs) ''source resolved to no media'') kept_recovery
            else if ob_kind obs = SILENT then
              (let n = (case base of None \<Rightarrow> 0 | Some v \<Rightarrow> ma_silent_confirmations v) + 1;
                   st = (if CONFIRM_THRESHOLD \<le> n then CONFIRMED_EMPTY else SUSPECTED_EMPTY)
               in build st n 0
                    (or_text (ob_reason obs)
                       (if st = CONFIRMED_EMPTY
                        then ''near-total silence confirmed on '' @ dec_int n @ '' independent fetches''
                        else ''near-total silence on a successful fetch (awaiting confirmation)''))
                    kept_recovery)
            else if ob_kind obs = PARTIAL then
              (let n = (case base of None \<Rightarrow> 0 | Some v \<Rightarrow> ma_partial_confirmations v) + 1;
                   st = (if CONFIRM_THRESHOLD \<le> n then CONFIRMED_PARTIAL else SUSPECTED_PARTIAL)
               in build st 0 n
                    (or_text (ob_reason obs)
                       (if st = CONFIRMED_PARTIAL
                        then ''short source confirmed on '' @ dec_int n @ '' independent fetches''
                        else ''decoded audio far shorter than source-advertised on a successful fetch (awaiting confirmation)''))
                    kept_recovery)
            else if ob_kind obs = PLAYABLE then
              (if (case base of None \<Rightarrow> False | Some v \<Rightarrow> effective_state v \<in> set WITHHELD_STATES)
               then build RECOVERED 0 0
                      (or_text (ob_reason obs) ''playable audio fetched after a prior withheld verdict'')
                      (Some (now_iso clock (ob_now obs)))
               else build AVAILABLE 0 0 (or_text (ob_reason obs) ''playable audio'') kept_recovery)
            else Inl ValueError))"

definition with_operator_override ::
  "instant \<Rightarrow> media_availability option \<Rightarrow> string option \<Rightarrow> string \<Rightarrow> now_arg \<Rightarrow> exn + media_availability" where
  "with_operator_override clock prior state reason now =
     (if (case state of None \<Rightarrow> False | Some s \<Rightarrow> s \<notin> set OVERRIDE_STATES) then Inl ValueError
      else if prior = None \<and> state = None then Inl ValueError
      else
        (let v = (case prior of None \<Rightarrow> new_availability AVAILABLE ''created by operator override'' | Some v \<Rightarrow> v) in
         Inr (v\<lparr>ma_operator_override := state, ma_operator_reason := (if state \<noteq> None then reason else ''''),
                ma_last_check := Some (now_iso clock now)\<rparr>)))"

end
