(* ===== verification/Availability_Properties.thy ===== *)
theory Availability_Properties
  imports Media_Availability
begin

section \<open>Properties of the availability verdicts\<close>

text \<open>
  A run of observations folded over the stored verdict: two independent silent fetches of one source always
  confirm the emptiness, nothing less ever does, a transport failure decides nothing, an operator's override
  lives exactly as long as the source it was set for. The measure of the content is compared with counting
  the uncovered cells of a grid, and the fingerprint with the rotation of signed queries.
\<close>

subsection \<open>Runs of observations\<close>

primrec observe_all ::
  "media_availability option \<Rightarrow> (instant \<times> observation) list \<Rightarrow> exn + media_availability option" where
  "observe_all prior [] = Inr prior"
| "observe_all prior (x # xs) = bindE (classify (fst x) prior (snd x)) (\<lambda>v. observe_all v xs)"

lemma observe_all_append:
  "observe_all v (xs @ ys) = bindE (observe_all v xs) (\<lambda>w. observe_all w ys)"
proof (induction xs arbitrary: v)
  case (Cons x xs)
  then show ?case
    by (cases "classify (fst x) v (snd x)") auto
qed simp

lemma observe_all_snoc:
  assumes "observe_all v (xs @ [x]) = Inr w"
  obtains u where "observe_all v xs = Inr u" and "classify (fst x) u (snd x) = Inr w"
  using assms by (cases "observe_all v xs") (auto simp: observe_all_append bindE_def split: sum.splits)

lemma kinds_distinct:
  "SILENT \<noteq> PLAYABLE" "SILENT \<noteq> PARTIAL" "SILENT \<noteq> TRANSPORT_FAILED" "SILENT \<noteq> DEAD" "SILENT \<noteq> ABSENT"
  "PLAYABLE \<noteq> PARTIAL" "PLAYABLE \<noteq> TRANSPORT_FAILED" "PLAYABLE \<noteq> DEAD" "PLAYABLE \<noteq> ABSENT"
  "PARTIAL \<noteq> TRANSPORT_FAILED" "PARTIAL \<noteq> DEAD" "PARTIAL \<noteq> ABSENT"
  "TRANSPORT_FAILED \<noteq> DEAD" "TRANSPORT_FAILED \<noteq> ABSENT" "DEAD \<noteq> ABSENT"
  by (simp_all add: observation_names)

lemmas kind_simps = kinds_distinct kinds_distinct [symmetric]

lemma states_distinct:
  "CONFIRMED_EMPTY \<noteq> SUSPECTED_EMPTY" "CONFIRMED_EMPTY \<noteq> MISSING" "CONFIRMED_EMPTY \<noteq> INVALID"
  "CONFIRMED_EMPTY \<noteq> AVAILABLE" "CONFIRMED_EMPTY \<noteq> RECOVERED" "CONFIRMED_EMPTY \<noteq> SUSPECTED_PARTIAL"
  "CONFIRMED_EMPTY \<noteq> CONFIRMED_PARTIAL" "CONFIRMED_PARTIAL \<noteq> SUSPECTED_PARTIAL"
  "CONFIRMED_PARTIAL \<noteq> SUSPECTED_EMPTY" "CONFIRMED_PARTIAL \<noteq> MISSING" "CONFIRMED_PARTIAL \<noteq> INVALID"
  "CONFIRMED_PARTIAL \<noteq> AVAILABLE" "CONFIRMED_PARTIAL \<noteq> RECOVERED" "SUSPECTED_EMPTY \<noteq> SUSPECTED_PARTIAL"
  "SUSPECTED_EMPTY \<noteq> MISSING" "SUSPECTED_EMPTY \<noteq> INVALID" "SUSPECTED_EMPTY \<noteq> AVAILABLE"
  "SUSPECTED_EMPTY \<noteq> RECOVERED" "SUSPECTED_PARTIAL \<noteq> MISSING" "SUSPECTED_PARTIAL \<noteq> INVALID"
  "SUSPECTED_PARTIAL \<noteq> AVAILABLE" "SUSPECTED_PARTIAL \<noteq> RECOVERED"
  by (simp_all add: verdict_names)

lemmas state_simps = states_distinct states_distinct [symmetric]

subsection \<open>The counters and the state agree\<close>

definition counters_agree :: "media_availability \<Rightarrow> bool" where
  "counters_agree v \<longleftrightarrow>
     0 \<le> ma_silent_confirmations v \<and> 0 \<le> ma_partial_confirmations v \<and>
     (0 < ma_silent_confirmations v \<longrightarrow> ma_partial_confirmations v = 0) \<and>
     (ma_state v = CONFIRMED_EMPTY \<longleftrightarrow> 2 \<le> ma_silent_confirmations v) \<and>
     (ma_state v = SUSPECTED_EMPTY \<longleftrightarrow> ma_silent_confirmations v = 1) \<and>
     (ma_state v = CONFIRMED_PARTIAL \<longleftrightarrow> 2 \<le> ma_partial_confirmations v) \<and>
     (ma_state v = SUSPECTED_PARTIAL \<longleftrightarrow> ma_partial_confirmations v = 1)"

definition agrees :: "media_availability option \<Rightarrow> bool" where
  "agrees v \<longleftrightarrow> (case v of None \<Rightarrow> True | Some w \<Rightarrow> counters_agree w)"

text \<open>One classification, case by case on the kind of the observation.\<close>

lemma classify_cases:
  assumes "classify t prior obs = Inr w"
  obtains (transport) "ob_kind obs = TRANSPORT_FAILED"
      "w = map_option (\<lambda>v. v\<lparr>ma_last_check := Some (now_iso t (ob_now obs))\<rparr>) prior"
  | (silent) n why rec where "ob_kind obs = SILENT"
      "n = (case if fresh_source prior obs then None else prior of None \<Rightarrow> 0 | Some v \<Rightarrow> ma_silent_confirmations v) + 1"
      "w = Some (build_verdict t prior obs (if 2 \<le> n then CONFIRMED_EMPTY else SUSPECTED_EMPTY) n 0 why rec)"
  | (partial) n why rec where "ob_kind obs = PARTIAL"
      "n = (case if fresh_source prior obs then None else prior of None \<Rightarrow> 0 | Some v \<Rightarrow> ma_partial_confirmations v) + 1"
      "w = Some (build_verdict t prior obs (if 2 \<le> n then CONFIRMED_PARTIAL else SUSPECTED_PARTIAL) 0 n why rec)"
  | (plain) st why rec where "ob_kind obs \<in> {DEAD, ABSENT, PLAYABLE}"
      "st \<in> {INVALID, MISSING, RECOVERED, AVAILABLE}"
      "w = Some (build_verdict t prior obs st 0 0 why rec)"
  using assms
  unfolding classify_def CONFIRM_THRESHOLD_def Let_def
  by (fastforce split: if_splits simp: kind_simps)

lemma classify_agrees:
  assumes "classify t prior obs = Inr w" and "agrees prior"
  shows "agrees w"
  using assms(1)
proof (cases rule: classify_cases)
  case transport
  then show ?thesis
    using assms(2) by (auto simp: agrees_def counters_agree_def split: option.splits)
next
  case (silent n why rec)
  then show ?thesis
    using assms(2)
    by (auto simp: agrees_def counters_agree_def build_verdict_def Let_def state_simps
        split: option.splits if_splits)
next
  case (partial n why rec)
  then show ?thesis
    using assms(2)
    by (auto simp: agrees_def counters_agree_def build_verdict_def Let_def state_simps
        split: option.splits if_splits)
next
  case (plain st why rec)
  then show ?thesis
    by (auto simp: agrees_def counters_agree_def build_verdict_def Let_def state_simps)
qed

lemma observe_all_agrees: "observe_all v obs = Inr w \<Longrightarrow> agrees v \<Longrightarrow> agrees w"
proof (induction obs arbitrary: v)
  case (Cons x xs)
  then show ?case
    by (cases "classify (fst x) v (snd x)") (auto dest: classify_agrees)
qed simp

subsection \<open>Two silent fetches\<close>

definition silent_count :: "(instant \<times> observation) list \<Rightarrow> nat" where
  "silent_count xs = length (filter (\<lambda>x. ob_kind (snd x) = SILENT) xs)"

definition silent_or_lost :: "string \<Rightarrow> instant \<times> observation \<Rightarrow> bool" where
  "silent_or_lost f x \<longleftrightarrow>
     (ob_kind (snd x) = SILENT \<and> ob_fingerprint (snd x) = Some f) \<or> ob_kind (snd x) = TRANSPORT_FAILED"

lemma classify_silent:
  assumes "ob_kind obs = SILENT" and "ob_fingerprint obs = Some f" and "f \<noteq> ''''" and "agrees prior"
  obtains v where "classify t prior obs = Inr (Some v)" and "ma_source_fingerprint v = Some f"
    and "ma_silent_confirmations v =
      (case if fresh_source prior obs then None else prior of None \<Rightarrow> 0 | Some u \<Rightarrow> ma_silent_confirmations u) + 1"
    and "counters_agree v"
proof -
  obtain n why rec st where n: "n = (case if fresh_source prior obs then None else prior of None \<Rightarrow> 0 | Some u \<Rightarrow> ma_silent_confirmations u) + 1"
    and c: "classify t prior obs = Inr (Some (build_verdict t prior obs st n 0 why rec))"
    using assms(1) unfolding classify_def Let_def by (simp add: kind_simps)
  have "agrees (Some (build_verdict t prior obs st n 0 why rec))"
    using c assms(4) by (rule classify_agrees)
  then show thesis
    using that [OF c] n assms(2,3) by (simp add: build_verdict_def Let_def or_text_opt_def agrees_def)
qed

lemma silent_run:
  assumes "\<forall>x\<in>set obs. silent_or_lost f x" and "f \<noteq> ''''"
    and "ma_source_fingerprint v = Some f" and "counters_agree v"
  shows "\<exists>w. observe_all (Some v) obs = Inr (Some w) \<and> counters_agree w \<and>
           ma_silent_confirmations w = ma_silent_confirmations v + int (silent_count obs)"
  using assms
proof (induction obs arbitrary: v)
  case (Cons x xs)
  show ?case
  proof (cases "ob_kind (snd x) = TRANSPORT_FAILED")
    case True
    then have "classify (fst x) (Some v) (snd x) = Inr (Some (v\<lparr>ma_last_check := Some (now_iso (fst x) (ob_now (snd x)))\<rparr>))"
      by (simp add: classify_def)
    moreover have "counters_agree (v\<lparr>ma_last_check := c\<rparr>)" for c
      using Cons.prems(4) by (simp add: counters_agree_def)
    ultimately show ?thesis
      using Cons.IH [of "v\<lparr>ma_last_check := Some (now_iso (fst x) (ob_now (snd x)))\<rparr>"] Cons.prems True
      by (simp add: silent_count_def kind_simps)
  next
    case False
    then have x: "ob_kind (snd x) = SILENT" "ob_fingerprint (snd x) = Some f"
      using Cons.prems(1) by (auto simp: silent_or_lost_def)
    obtain u where u: "classify (fst x) (Some v) (snd x) = Inr (Some u)" "ma_source_fingerprint u = Some f"
      "ma_silent_confirmations u = ma_silent_confirmations v + 1" "counters_agree u"
      using classify_silent [OF x Cons.prems(2), of "Some v" "fst x"] Cons.prems(3,4) x(2)
      by (auto simp: agrees_def fresh_source_def)
    then show ?thesis
      using Cons.IH [OF _ Cons.prems(2) u(2) u(4)] Cons.prems(1) x by (auto simp: silent_count_def)
  qed
qed (simp add: silent_count_def)

lemma silent_run_from_any:
  assumes "\<forall>x\<in>set obs. silent_or_lost f x" and "f \<noteq> ''''" and "agrees prior" and "0 < silent_count obs"
  shows "\<exists>w. observe_all prior obs = Inr (Some w) \<and> counters_agree w \<and>
           int (silent_count obs) \<le> ma_silent_confirmations w"
  using assms
proof (induction obs arbitrary: prior)
  case (Cons x xs)
  show ?case
  proof (cases "ob_kind (snd x) = TRANSPORT_FAILED")
    case True
    then obtain p where "classify (fst x) prior (snd x) = Inr p"
      by (simp add: classify_def)
    then show ?thesis
      using Cons.IH [of p] Cons.prems True classify_agrees by (auto simp: silent_count_def kind_simps)
  next
    case False
    then have x: "ob_kind (snd x) = SILENT" "ob_fingerprint (snd x) = Some f"
      using Cons.prems(1) by (auto simp: silent_or_lost_def)
    obtain u where u: "classify (fst x) prior (snd x) = Inr (Some u)" "ma_source_fingerprint u = Some f"
      and n: "ma_silent_confirmations u = (case if fresh_source prior (snd x) then None else prior of
          None \<Rightarrow> 0 | Some u \<Rightarrow> ma_silent_confirmations u) + 1" and "counters_agree u"
      using classify_silent [OF x Cons.prems(2,3), of "fst x"] by metis
    have "1 \<le> ma_silent_confirmations u"
      using Cons.prems(3) unfolding n by (cases prior) (simp_all add: agrees_def counters_agree_def)
    with u \<open>counters_agree u\<close> show ?thesis
      using silent_run [of xs f u] Cons.prems(1,2) x by (auto simp: silent_count_def)
  qed
qed (simp add: silent_count_def)

text \<open>
  Liveness of the confirmation: whatever verdict is stored, two successful silent fetches of one source,
  with any number of transport failures before, between and after them, end in the confirmed verdict.
\<close>

theorem two_silent_fetches_confirm:
  assumes "\<forall>x\<in>set obs. silent_or_lost f x" and "f \<noteq> ''''" and "agrees prior" and "2 \<le> silent_count obs"
  shows "\<exists>w. observe_all prior obs = Inr (Some w) \<and> ma_state w = CONFIRMED_EMPTY \<and>
           (ma_operator_override w = None \<longrightarrow> is_withheld w \<and> is_confirmed_dead w)"
proof -
  obtain w where w: "observe_all prior obs = Inr (Some w)" "counters_agree w" "2 \<le> ma_silent_confirmations w"
    using silent_run_from_any [OF assms(1-3)] assms(4) by force
  then show ?thesis
    by (auto simp: counters_agree_def is_withheld_def is_confirmed_dead_def effective_state_def
        WITHHELD_STATES_def CONFIRMED_DEAD_STATES_def)
qed

definition sample_obs :: "string \<Rightarrow> string option \<Rightarrow> instant \<times> observation" where
  "sample_obs kind f = (0, \<lparr>ob_kind = kind, ob_fingerprint = f, ob_profile = '''', ob_reason = '''', ob_now = NowClock\<rparr>)"

theorem two_silent_fetches_confirm_witness:
  "\<exists>w. observe_all None [sample_obs SILENT (Some ''f''), sample_obs TRANSPORT_FAILED None, sample_obs SILENT (Some ''f'')] =
         Inr (Some w) \<and> ma_state w = CONFIRMED_EMPTY"
proof -
  have "\<forall>x\<in>set [sample_obs SILENT (Some ''f''), sample_obs TRANSPORT_FAILED None, sample_obs SILENT (Some ''f'')].
      silent_or_lost ''f'' x" and "''f'' \<noteq> ''''" and "agrees None"
    and "2 \<le> silent_count [sample_obs SILENT (Some ''f''), sample_obs TRANSPORT_FAILED None, sample_obs SILENT (Some ''f'')]"
    by (simp_all add: sample_obs_def silent_or_lost_def agrees_def silent_count_def kind_simps)
  from two_silent_fetches_confirm [OF this] show ?thesis by blast
qed

subsection \<open>Nothing less confirms\<close>

definition same_source :: "observation \<Rightarrow> observation \<Rightarrow> bool" where
  "same_source a b \<longleftrightarrow>
     (case (ob_fingerprint a, ob_fingerprint b) of
        (Some f, Some g) \<Rightarrow> f \<noteq> '''' \<longrightarrow> f = g
      | _ \<Rightarrow> True)"

definition quiet :: "(instant \<times> observation) list \<Rightarrow> bool" where
  "quiet xs \<longleftrightarrow> (\<forall>x\<in>set xs. ob_kind (snd x) \<in> {SILENT, TRANSPORT_FAILED})"

definition backed_by :: "(instant \<times> observation) list \<Rightarrow> media_availability \<Rightarrow> bool" where
  "backed_by xs v \<longleftrightarrow>
     (\<exists>pre a post. xs = pre @ [a] @ post \<and> ob_kind (snd a) = SILENT \<and> quiet post \<and>
        (case ob_fingerprint (snd a) of None \<Rightarrow> True | Some f \<Rightarrow> f \<noteq> '''' \<longrightarrow> ma_source_fingerprint v = Some f))"

definition twice_backed :: "(instant \<times> observation) list \<Rightarrow> bool" where
  "twice_backed xs \<longleftrightarrow>
     (\<exists>pre a mid b post. xs = pre @ [a] @ mid @ [b] @ post \<and> ob_kind (snd a) = SILENT \<and> ob_kind (snd b) = SILENT \<and>
        quiet mid \<and> quiet post \<and> same_source (snd a) (snd b))"

lemma quiet_append [simp]: "quiet (xs @ ys) \<longleftrightarrow> quiet xs \<and> quiet ys"
  by (auto simp: quiet_def)

lemma twice_backed_snoc:
  assumes "twice_backed xs" and "ob_kind (snd x) \<in> {SILENT, TRANSPORT_FAILED}"
  shows "twice_backed (xs @ [x])"
proof -
  obtain pre a mid b post where d: "xs = pre @ [a] @ mid @ [b] @ post" "ob_kind (snd a) = SILENT"
    "ob_kind (snd b) = SILENT" "quiet mid" "quiet post" "same_source (snd a) (snd b)"
    using assms(1) unfolding twice_backed_def by blast
  have "quiet (post @ [x])" "xs @ [x] = pre @ [a] @ mid @ [b] @ (post @ [x])"
    using d(1,5) assms(2) by (auto simp: quiet_def)
  then show ?thesis
    unfolding twice_backed_def using d by blast
qed

lemma backed_by_last: "ob_kind (snd x) = SILENT \<Longrightarrow>
  (case ob_fingerprint (snd x) of None \<Rightarrow> True | Some f \<Rightarrow> f \<noteq> '''' \<longrightarrow> ma_source_fingerprint v = Some f) \<Longrightarrow>
  backed_by (xs @ [x]) v"
  unfolding backed_by_def by (rule exI [of _ xs], rule exI [of _ x], rule exI [of _ "[]"]) (simp add: quiet_def)

lemma evidence_behind_confirmations:
  assumes "observe_all None xs = Inr w"
  shows "case w of None \<Rightarrow> True | Some v \<Rightarrow>
           (1 \<le> ma_silent_confirmations v \<longrightarrow> backed_by xs v) \<and> (2 \<le> ma_silent_confirmations v \<longrightarrow> twice_backed xs)"
  using assms
proof (induction xs arbitrary: w rule: rev_induct)
  case (snoc x xs)
  obtain u where u: "observe_all None xs = Inr u" and c: "classify (fst x) u (snd x) = Inr w"
    using snoc.prems by (rule observe_all_snoc)
  note IH = snoc.IH [OF u]
  from c show ?case
  proof (cases rule: classify_cases)
    case transport
    show ?thesis
    proof (cases u)
      case (Some v)
      have "backed_by (xs @ [x]) (v\<lparr>ma_last_check := c\<rparr>)" if b: "backed_by xs v" for c
      proof -
        obtain pre a post where d: "xs = pre @ [a] @ post" "ob_kind (snd a) = SILENT" "quiet post"
          "case ob_fingerprint (snd a) of None \<Rightarrow> True | Some f \<Rightarrow> f \<noteq> '''' \<longrightarrow> ma_source_fingerprint v = Some f"
          using b unfolding backed_by_def by blast
        show ?thesis
          unfolding backed_by_def
          by (rule exI [of _ pre], rule exI [of _ a], rule exI [of _ "post @ [x]"])
            (use d transport(1) in \<open>auto simp: quiet_def split: option.splits\<close>)
      qed
      then show ?thesis
        using IH transport Some twice_backed_snoc [of xs x] by auto
    qed (use transport in simp)
  next
    case (silent n why rec)
    let ?v = "build_verdict (fst x) u (snd x) (if 2 \<le> n then CONFIRMED_EMPTY else SUSPECTED_EMPTY) n 0 why rec"
    have b: "backed_by (xs @ [x]) ?v"
      by (rule backed_by_last) (use silent in \<open>auto simp: build_verdict_def Let_def or_text_opt_def split: option.splits\<close>)
    have "twice_backed (xs @ [x])" if n2: "2 \<le> n"
    proof -
      obtain v where v: "u = Some v" "\<not> fresh_source u (snd x)" "1 \<le> ma_silent_confirmations v"
        using silent(2) n2 by (auto split: if_splits option.splits)
      then have "backed_by xs v"
        using IH by simp
      then obtain pre a post where d: "xs = pre @ [a] @ post" "ob_kind (snd a) = SILENT" "quiet post"
        "case ob_fingerprint (snd a) of None \<Rightarrow> True | Some f \<Rightarrow> f \<noteq> '''' \<longrightarrow> ma_source_fingerprint v = Some f"
        unfolding backed_by_def by blast
      have "same_source (snd a) (snd x)"
        using d(4) v(1,2) by (auto simp: same_source_def fresh_source_def split: option.splits)
      then show ?thesis
        unfolding twice_backed_def
        by (intro exI [of _ pre] exI [of _ a] exI [of _ post] exI [of _ x] exI [of _ "[]"])
          (use d silent(1) in \<open>simp add: quiet_def\<close>)
    qed
    then show ?thesis
      using silent(3) b by (simp add: build_verdict_def Let_def)
  next
    case (partial n why rec)
    then show ?thesis
      by (simp add: build_verdict_def Let_def)
  next
    case (plain st why rec)
    then show ?thesis
      by (simp add: build_verdict_def Let_def)
  qed
qed simp

text \<open>
  C36: Safety of the confirmation: a verdict built from nothing by any run of observations is confirmed empty only
  when the run holds two silent fetches of one source with nothing but silence and transport failures since
  the first of them.
\<close>

theorem confirmed_only_after_two_silent_fetches:
  assumes "observe_all None xs = Inr (Some v)" and "ma_state v = CONFIRMED_EMPTY"
  shows "\<exists>pre a mid b post. xs = pre @ [a] @ mid @ [b] @ post \<and> ob_kind (snd a) = SILENT \<and> ob_kind (snd b) = SILENT \<and>
           quiet mid \<and> quiet post \<and> same_source (snd a) (snd b)"
proof -
  have "agrees (Some v)"
    using observe_all_agrees [OF assms(1)] by (simp add: agrees_def)
  then have "2 \<le> ma_silent_confirmations v"
    using assms(2) by (simp add: agrees_def counters_agree_def)
  then show ?thesis
    using evidence_behind_confirmations [OF assms(1)] by (simp add: twice_backed_def)
qed

theorem confirmed_only_after_two_silent_fetches_witness:
  "\<exists>v. observe_all None [sample_obs SILENT (Some ''f''), sample_obs SILENT (Some ''f'')] = Inr (Some v) \<and>
     (\<exists>pre a mid b post. [sample_obs SILENT (Some ''f''), sample_obs SILENT (Some ''f'')] = pre @ [a] @ mid @ [b] @ post \<and>
        ob_kind (snd a) = SILENT \<and> ob_kind (snd b) = SILENT \<and> quiet mid \<and> quiet post \<and> same_source (snd a) (snd b))"
proof -
  let ?xs = "[sample_obs SILENT (Some ''f''), sample_obs SILENT (Some ''f'')]"
  obtain v where v: "observe_all None ?xs = Inr (Some v)" "counters_agree v" "2 \<le> ma_silent_confirmations v"
    using silent_run_from_any [of ?xs "''f''" None]
    by (auto simp: sample_obs_def silent_or_lost_def agrees_def silent_count_def)
  then have "ma_state v = CONFIRMED_EMPTY"
    by (simp add: counters_agree_def)
  from confirmed_only_after_two_silent_fetches [OF v(1) this] v(1) show ?thesis
    by blast
qed

subsection \<open>Transport failures decide nothing\<close>

definition forget_check :: "media_availability \<Rightarrow> media_availability" where
  "forget_check v = v\<lparr>ma_last_check := None\<rparr>"

definition same_verdict :: "media_availability option \<Rightarrow> media_availability option \<Rightarrow> bool" where
  "same_verdict u v \<longleftrightarrow> map_option forget_check u = map_option forget_check v"

lemma forget_check_fields:
  assumes "forget_check u = forget_check v"
  shows "ma_state u = ma_state v" "ma_source_fingerprint u = ma_source_fingerprint v"
    "ma_profile u = ma_profile v" "ma_silent_confirmations u = ma_silent_confirmations v"
    "ma_partial_confirmations u = ma_partial_confirmations v" "ma_evidence_ref u = ma_evidence_ref v"
    "ma_operator_override u = ma_operator_override v" "ma_operator_reason u = ma_operator_reason v"
    "ma_recovered_at u = ma_recovered_at v"
  using assms unfolding forget_check_def by (cases u; cases v; simp)+

lemma same_verdict_trans: "same_verdict u v \<Longrightarrow> same_verdict v w \<Longrightarrow> same_verdict u w"
  by (simp add: same_verdict_def)

lemma classify_ignores_last_check:
  assumes "same_verdict u v"
  shows "rel_sum (=) same_verdict (classify t u obs) (classify t v obs)"
proof (cases u)
  case None
  then have "v = None"
    using assms by (simp add: same_verdict_def)
  then show ?thesis
    using None by (cases "classify t None obs") (simp_all add: same_verdict_def)
next
  case (Some a)
  then obtain b where b: "v = Some b" "forget_check a = forget_check b"
    using assms by (cases v) (auto simp: same_verdict_def)
  note f = forget_check_fields [OF b(2)]
  have fresh: "fresh_source (Some a) obs = fresh_source (Some b) obs"
    by (simp add: fresh_source_def f)
  have eff: "effective_state a = effective_state b"
    unfolding effective_state_def f ..
  have build: "build_verdict t (Some a) obs = build_verdict t (Some b) obs"
    by (intro ext) (simp add: build_verdict_def fresh f Let_def)
  show ?thesis
  proof (cases "ob_kind obs = TRANSPORT_FAILED")
    case True
    then show ?thesis
      using b(2) Some b(1) by (simp add: classify_def same_verdict_def forget_check_def)
  next
    case False
    then have "classify t (Some a) obs = classify t (Some b) obs"
      unfolding classify_def by (simp add: fresh build f eff Let_def)
    then show ?thesis
      using Some b(1) by (cases "classify t (Some b) obs") (simp_all add: same_verdict_def)
  qed
qed

lemma observe_all_ignores_last_check:
  "same_verdict u v \<Longrightarrow> rel_sum (=) same_verdict (observe_all u xs) (observe_all v xs)"
proof (induction xs arbitrary: u v)
  case (Cons x xs)
  from classify_ignores_last_check [OF Cons.prems, of "fst x" "snd x"] show ?case
    by (cases rule: rel_sum.cases) (auto intro: Cons.IH)
qed simp

text \<open>
  Deleting every transport failure from a run of observations leaves the verdict the same but for the time of
  the last check, whatever the stored verdict was.
\<close>

theorem transport_failures_decide_nothing:
  "rel_sum (=) same_verdict (observe_all prior xs)
     (observe_all prior (filter (\<lambda>x. ob_kind (snd x) \<noteq> TRANSPORT_FAILED) xs))"
proof (induction xs arbitrary: prior)
  case Nil
  show ?case
    by (simp add: same_verdict_def)
next
  case (Cons x xs)
  let ?rest = "filter (\<lambda>x. ob_kind (snd x) \<noteq> TRANSPORT_FAILED) xs"
  show ?case
  proof (cases "ob_kind (snd x) = TRANSPORT_FAILED")
    case True
    then obtain p where p: "classify (fst x) prior (snd x) = Inr p" "same_verdict p prior"
      by (cases prior) (auto simp: classify_def same_verdict_def forget_check_def)
    have "rel_sum (=) same_verdict (observe_all p ?rest) (observe_all prior ?rest)"
      using p(2) by (rule observe_all_ignores_last_check)
    with Cons.IH [of p] have "rel_sum (=) same_verdict (observe_all p xs) (observe_all prior ?rest)"
      by (auto simp: rel_sum.simps intro: same_verdict_trans)
    then show ?thesis
      using p True by simp
  next
    case False
    then show ?thesis
      using Cons.IH by (cases "classify (fst x) prior (snd x)") auto
  qed
qed

subsection \<open>The operator's override\<close>

lemma classify_keeps_override:
  assumes "classify t (Some v) obs = Inr w" and "\<not> fresh_source (Some v) obs"
  obtains u where "w = Some u" and "ma_operator_override u = ma_operator_override v"
    and "ma_operator_reason u = ma_operator_reason v"
    and "ma_source_fingerprint u = or_text_opt (ob_fingerprint obs) (ma_source_fingerprint v) \<or>
         ob_kind obs = TRANSPORT_FAILED \<and> ma_source_fingerprint u = ma_source_fingerprint v"
  using assms(1)
  by (cases rule: classify_cases) (use assms(2) that in \<open>auto simp: build_verdict_def Let_def\<close>)

lemma override_kept_by_run:
  assumes "observe_all (Some v) xs = Inr w" and "ma_source_fingerprint v = Some f" and "f \<noteq> ''''"
    and "\<forall>x\<in>set xs. ob_fingerprint (snd x) \<in> {None, Some f}"
  shows "\<exists>u. w = Some u \<and> ma_operator_override u = ma_operator_override v \<and>
           ma_operator_reason u = ma_operator_reason v \<and> ma_source_fingerprint u = Some f"
  using assms
proof (induction xs arbitrary: v)
  case (Cons x xs)
  obtain p where p: "classify (fst x) (Some v) (snd x) = Inr p" "observe_all p xs = Inr w"
    using Cons.prems(1) by (cases "classify (fst x) (Some v) (snd x)") auto
  have fp: "ob_fingerprint (snd x) = None \<or> ob_fingerprint (snd x) = Some f"
    using Cons.prems(4) by simp
  then have "\<not> fresh_source (Some v) (snd x)"
    using Cons.prems(2) by (auto simp: fresh_source_def)
  with p(1) obtain u where u: "p = Some u" "ma_operator_override u = ma_operator_override v"
    "ma_operator_reason u = ma_operator_reason v" "ma_source_fingerprint u = Some f"
    using fp Cons.prems(2,3) by (auto elim!: classify_keeps_override simp: or_text_opt_def)
  then show ?case
    using Cons.IH [of u] p(2) Cons.prems(3,4) by auto
qed auto

text \<open>
  An override set by the operator decides the effective state through any run of observations of the same
  source, and the first observation of a swapped source that is not a transport failure retires it.
\<close>

theorem override_lives_as_long_as_its_source:
  assumes "with_operator_override t0 (Some v0) (Some s) why now = Inr v"
    and "observe_all (Some v) xs = Inr w" and "ma_source_fingerprint v = Some f" and "f \<noteq> ''''"
    and "\<forall>x\<in>set xs. ob_fingerprint (snd x) \<in> {None, Some f}"
    and "ob_kind y \<noteq> TRANSPORT_FAILED" and "ob_fingerprint y = Some g" and "g \<noteq> f"
    and "classify t w y = Inr (Some z)"
  shows "\<exists>u. w = Some u \<and> effective_state u = s \<and> ma_operator_reason u = why \<and>
           ma_operator_override z = None \<and> effective_state z = ma_state z"
proof -
  have s: "s \<noteq> ''''" "ma_operator_override v = Some s" "ma_operator_reason v = why"
    using assms(1) by (auto simp: with_operator_override_def Let_def OVERRIDE_STATES_def WITHHELD_STATES_def
        verdict_names split: if_splits)
  obtain u where u: "w = Some u" "ma_operator_override u = Some s" "ma_operator_reason u = why"
    "ma_source_fingerprint u = Some f"
    using override_kept_by_run [OF assms(2-5)] s by auto
  have "fresh_source (Some u) y"
    using assms(7,8) u(4) by (simp add: fresh_source_def)
  then have "ma_operator_override z = None"
    using assms(6,9) unfolding u(1)
    by (auto elim!: classify_cases simp: build_verdict_def Let_def)
  then show ?thesis
    using u s(1) by (simp add: effective_state_def)
qed

theorem override_lives_as_long_as_its_source_witness:
  "\<exists>v u z. with_operator_override 0 (Some ((new_availability CONFIRMED_EMPTY '''')\<lparr>ma_source_fingerprint := Some ''f''\<rparr>))
              (Some AVAILABLE) ''heard it'' NowClock = Inr v \<and>
     observe_all (Some v) [sample_obs SILENT (Some ''f''), sample_obs DEAD None] = Inr (Some u) \<and>
     classify 0 (Some u) (snd (sample_obs SILENT (Some ''g''))) = Inr (Some z) \<and>
     effective_state u = AVAILABLE \<and> ma_operator_override z = None \<and> effective_state z = ma_state z"
proof -
  let ?v0 = "(new_availability CONFIRMED_EMPTY '''')\<lparr>ma_source_fingerprint := Some ''f''\<rparr>"
  let ?xs = "[sample_obs SILENT (Some ''f''), sample_obs DEAD None]"
  obtain v where v: "with_operator_override 0 (Some ?v0) (Some AVAILABLE) ''heard it'' NowClock = Inr v"
    "ma_source_fingerprint v = Some ''f''"
    by (simp add: with_operator_override_def OVERRIDE_STATES_def Let_def new_availability_def)
  obtain w where w: "observe_all (Some v) ?xs = Inr w"
    by (simp add: sample_obs_def classify_def kind_simps Let_def)
  obtain z where z: "classify 0 w (snd (sample_obs SILENT (Some ''g''))) = Inr (Some z)"
    by (simp add: sample_obs_def classify_def kind_simps Let_def)
  have "\<exists>u. w = Some u \<and> effective_state u = AVAILABLE \<and> ma_operator_reason u = ''heard it'' \<and>
          ma_operator_override z = None \<and> effective_state z = ma_state z"
    by (rule override_lives_as_long_as_its_source [OF v(1) w v(2) _ _ _ _ _ z, of "''g''"])
      (simp_all add: sample_obs_def kind_simps)
  then show ?thesis
    using v(1) w z by blast
qed

subsection \<open>Counting what is not silent\<close>

definition cover :: "rat \<Rightarrow> (rat \<times> rat) list \<Rightarrow> int set" where
  "cover k xs = {i. \<exists>(a, b)\<in>set xs. a * k \<le> of_int i \<and> of_int i + 1 \<le> b * k}"

definition on_grid :: "rat \<Rightarrow> rat \<Rightarrow> bool" where
  "on_grid k x \<longleftrightarrow> x * k \<in> \<int>"

lemma cover_Nil [simp]: "cover k [] = {}"
  by (simp add: cover_def)

lemma cover_Cons: "cover k (p # xs) = cover k [p] \<union> cover k xs"
  by (auto simp: cover_def)

lemma cover_single:
  assumes "on_grid k a" and "on_grid k b"
  obtains m n where "a * k = of_int m" and "b * k = of_int n" and "cover k [(a, b)] = {m..<n}"
proof -
  obtain m n where mn: "a * k = of_int m" "b * k = of_int n"
    using assms by (auto simp: on_grid_def Ints_def)
  have "of_int i + 1 \<le> (of_int n :: rat) \<longleftrightarrow> i < n" for i
    by linarith
  then have "cover k [(a, b)] = {m..<n}"
    by (simp add: cover_def mn set_eq_iff)
  then show thesis
    using that mn by blast
qed

lemma cover_join:
  assumes "0 < k" and "a \<le> lo" and "lo \<le> b" and "on_grid k a" and "on_grid k b" and "on_grid k lo" and "on_grid k hi"
  shows "cover k [(a, b)] \<union> cover k [(lo, hi)] = cover k [(a, max b hi)]"
proof -
  obtain m n where mn: "a * k = of_int m" "b * k = of_int n" "cover k [(a, b)] = {m..<n}"
    using assms(4,5) by (rule cover_single)
  obtain p q where pq: "lo * k = of_int p" "hi * k = of_int q" "cover k [(lo, hi)] = {p..<q}"
    using assms(6,7) by (rule cover_single)
  have "on_grid k (max b hi)"
    using assms(5,7) by (simp add: max_def)
  then obtain m' r where r: "a * k = of_int m'" "max b hi * k = of_int r" "cover k [(a, max b hi)] = {m'..<r}"
    using cover_single [OF assms(4)] by metis
  have "m' = m"
    using mn(1) r(1) by simp
  moreover have "of_int r = (of_int (max n q) :: rat)"
    using r(2) mn(2) pq(2) assms(1) by (metis max_mult_distrib_right of_int_max less_eq_rat_def)
  then have "r = max n q"
    by (simp only: of_int_eq_iff)
  moreover have "of_int m \<le> (of_int p :: rat)" "of_int p \<le> (of_int n :: rat)"
    using assms(1-3) mn(1,2) pq(1) by (metis mult_right_mono less_eq_rat_def)+
  then have "m \<le> p" "p \<le> n"
    by (simp_all only: of_int_le_iff)
  ultimately show ?thesis
    by (auto simp: mn(3) pq(3) r(3))
qed

lemma finite_cover: "(\<forall>(a, b)\<in>set xs. on_grid k a \<and> on_grid k b) \<Longrightarrow> finite (cover k xs)"
proof (induction xs)
  case (Cons p xs)
  obtain a b where p: "p = (a, b)"
    by (cases p)
  then obtain m n where "cover k [p] = {m..<n}"
    using Cons.prems cover_single [of k a b] by (metis list.set_intros(1) case_prodD)
  then show ?case
    using Cons cover_Cons [of k p xs] by auto
qed simp

definition span_total :: "rat \<times> (rat \<times> rat) option \<Rightarrow> rat" where
  "span_total st = (case st of (silent, None) \<Rightarrow> silent | (silent, Some (a, b)) \<Rightarrow> silent + (b - a))"

lemma card_cover_single:
  assumes "0 < k" and "on_grid k a" and "on_grid k b" and "a \<le> b"
  shows "of_nat (card (cover k [(a, b)])) = (b - a) * k"
proof -
  obtain m n where mn: "a * k = of_int m" "b * k = of_int n" "cover k [(a, b)] = {m..<n}"
    using assms(2,3) by (rule cover_single)
  have "of_int m \<le> (of_int n :: rat)"
    using assms(1,4) mn(1,2) by (metis mult_right_mono less_eq_rat_def)
  then have "m \<le> n"
    by (simp only: of_int_le_iff)
  then have "of_nat (card {m..<n}) = (of_int n - of_int m :: rat)"
    by (simp add: of_nat_nat)
  then show ?thesis
    using mn by (simp add: left_diff_distrib)
qed

lemma fold_spans:
  assumes "0 < k" and "sorted (map fst xs)" and "\<forall>(lo, hi)\<in>set xs. a \<le> lo \<and> lo < hi \<and> on_grid k lo \<and> on_grid k hi"
    and "on_grid k a" and "on_grid k b" and "a \<le> b"
  shows "span_total (fold add_span xs (silent, Some (a, b))) * k = silent * k + of_nat (card (cover k ((a, b) # xs)))"
  using assms(2-6)
proof (induction xs arbitrary: a b silent)
  case Nil
  then show ?case
    using card_cover_single [OF assms(1) Nil.prems(3,4,5)] by (simp add: span_total_def distrib_right)
next
  case (Cons p xs)
  obtain lo hi where p: "p = (lo, hi)"
    by (cases p)
  have h: "a \<le> lo" "lo < hi" "on_grid k lo" "on_grid k hi" and rest: "sorted (map fst xs)"
    "\<forall>q\<in>set xs. lo \<le> fst q"
    using Cons.prems(1,2) p by auto
  show ?case
  proof (cases "lo \<le> b")
    case True
    have "cover k ((a, b) # p # xs) = cover k ((a, max b hi) # xs)"
      using cover_join [OF assms(1) h(1) True Cons.prems(3,4) h(3,4)] p
      by (metis Un_assoc cover_Cons)
    moreover have "span_total (fold add_span xs (silent, Some (a, max b hi))) * k =
        silent * k + of_nat (card (cover k ((a, max b hi) # xs)))"
      by (rule Cons.IH) (use Cons.prems h rest(1) in \<open>auto simp: max_def\<close>)
    ultimately show ?thesis
      using True p by simp
  next
    case False
    have "cover k [(a, b)] \<inter> cover k (p # xs) = {}"
    proof -
      have "b * k < q * k" if "lo \<le> q" for q
        using False that assms(1) by simp
      then show ?thesis
        using rest(2) p by (fastforce simp: cover_def)
    qed
    moreover have "finite (cover k [(a, b)])" "finite (cover k (p # xs))"
      using Cons.prems by (auto intro!: finite_cover)
    ultimately have "card (cover k ((a, b) # p # xs)) = card (cover k [(a, b)]) + card (cover k (p # xs))"
      by (metis card_Un_disjoint cover_Cons)
    moreover have "span_total (fold add_span xs (silent + (b - a), Some (lo, hi))) * k =
        (silent + (b - a)) * k + of_nat (card (cover k ((lo, hi) # xs)))"
      by (rule Cons.IH) (use Cons.prems h rest in auto)
    ultimately show ?thesis
      using False p card_cover_single [OF assms(1) Cons.prems(3,4,5)] by (simp add: distrib_right)
  qed
qed

lemma clamp_scaled: "0 < k \<Longrightarrow> clamp_to d x * k = max 0 (min (x * k) (d * k))"
  by (simp add: clamp_to_def max_mult_distrib_right min_mult_distrib_right)

lemma clamp_on_grid: "0 < k \<Longrightarrow> on_grid k d \<Longrightarrow> on_grid k x \<Longrightarrow> on_grid k (clamp_to d x)"
  by (simp add: on_grid_def clamp_to_def max_def min_def)

lemma cover_clamped:
  assumes "0 < k" and "d * k = of_int n"
  shows "cover k (clamped_spans d xs) = cover k xs \<inter> {0..<n}"
proof -
  have cell: "clamp_to d a * k \<le> of_int i \<and> of_int i + 1 \<le> clamp_to d b * k \<longleftrightarrow>
      a * k \<le> of_int i \<and> of_int i + 1 \<le> b * k \<and> 0 \<le> i \<and> i < n" for a b i
  proof -
    have "of_int i + 1 \<le> (of_int n :: rat) \<longleftrightarrow> i < n" "0 \<le> (of_int i :: rat) \<longleftrightarrow> 0 \<le> i"
      by linarith+
    then show ?thesis
      unfolding clamp_scaled [OF assms(1)] assms(2) by (auto simp: max_def min_def split: if_splits)
  qed
  have nonempty: "a < b" if "a * k \<le> of_int i" "of_int i + 1 \<le> b * k" for a b :: rat and i
  proof -
    have "a * k < b * k"
      using that by linarith
    then show ?thesis
      using assms(1) by (simp add: mult_less_cancel_right)
  qed
  have "i \<in> cover k (clamped_spans d xs) \<longleftrightarrow>
      (\<exists>(a, b)\<in>set xs. clamp_to d a < clamp_to d b \<and> clamp_to d a * k \<le> of_int i \<and> of_int i + 1 \<le> clamp_to d b * k)" for i
    by (simp add: cover_def clamped_spans_def split_beta)
  moreover have "clamp_to d a < clamp_to d b \<and> clamp_to d a * k \<le> of_int i \<and> of_int i + 1 \<le> clamp_to d b * k \<longleftrightarrow>
      a * k \<le> of_int i \<and> of_int i + 1 \<le> b * k \<and> 0 \<le> i \<and> i < n" for a b i
    using cell [of a i b] nonempty [of "clamp_to d a" i "clamp_to d b"] by blast
  moreover have "i \<in> cover k xs \<inter> {0..<n} \<longleftrightarrow>
      (\<exists>(a, b)\<in>set xs. a * k \<le> of_int i \<and> of_int i + 1 \<le> b * k \<and> 0 \<le> i \<and> i < n)" for i
    by (simp add: cover_def split_beta) blast
  ultimately show ?thesis
    by (intro set_eqI) (simp add: split_beta)
qed

lemma cover_set: "set xs = set ys \<Longrightarrow> cover k xs = cover k ys"
  by (simp add: cover_def)

lemma sorted_by_start: "sorted (map fst (sort_key (\<lambda>(lo, hi). [lo, hi :: rat]) xs))"
proof -
  have "sorted (map (\<lambda>(lo, hi). [lo, hi]) (sort_key (\<lambda>(lo, hi). [lo, hi]) xs))"
    by (rule sorted_sort_key)
  then show ?thesis
    by (fastforce simp: sorted_iff_nth_mono split_beta)
qed

text \<open>
  Equivalence with counting: when the duration and the ends of the silences are multiples of 1/k, the content
  is 1/k times the number of cells of the recording that no silence covers, however the silences overlap, run
  past the ends or are ordered. (Finitely many rational times always have such a k.)
\<close>

theorem content_is_the_uncovered_cells:
  assumes "0 < k" and "source_duration * k = of_int n"
    and "\<forall>(a, b)\<in>set silences. on_grid k a \<and> on_grid k b"
  shows "content_seconds silences source_duration * k = of_nat (card ({0..<n} - cover k silences))"
proof (cases "source_duration \<le> 0")
  case True
  then have "of_int n \<le> (0 :: rat)"
    unfolding assms(2) [symmetric] using assms(1) by (simp add: mult_nonpos_nonneg)
  then show ?thesis
    using True by (simp add: content_seconds_def)
next
  case False
  define xs where "xs = sort_key (\<lambda>(lo, hi). [lo, hi]) (clamped_spans source_duration silences)"
  have d: "on_grid k source_duration"
    by (simp add: on_grid_def assms(2))
  have spans: "\<forall>(lo, hi)\<in>set xs. 0 \<le> lo \<and> lo < hi \<and> on_grid k lo \<and> on_grid k hi"
    using assms(3) clamp_on_grid [OF assms(1) d]
    by (fastforce simp: xs_def clamped_spans_def clamp_to_def [of _ "_ :: rat"])
  have total: "span_total (fold add_span xs (0, None)) * k = of_nat (card (cover k xs))"
  proof (cases xs)
    case (Cons p ys)
    obtain lo hi where p: "p = (lo, hi)"
      by (cases p)
    have sorted: "sorted (map fst (p # ys))"
      using sorted_by_start [of "clamped_spans source_duration silences"] by (simp add: xs_def [symmetric] Cons)
    have "span_total (fold add_span ys (0, Some (lo, hi))) * k = 0 * k + of_nat (card (cover k ((lo, hi) # ys)))"
      by (rule fold_spans) (use assms(1) sorted spans p Cons in auto)
    then show ?thesis
      by (simp add: Cons p)
  qed (simp add: span_total_def)
  have "cover k xs = cover k silences \<inter> {0..<n}"
    using cover_set [of xs "clamped_spans source_duration silences"] cover_clamped [OF assms(1,2)]
    by (simp add: xs_def)
  then have rest: "of_nat (card ({0..<n} - cover k silences)) = (of_int n - of_nat (card (cover k xs)) :: rat)"
    and le: "of_nat (card (cover k xs)) \<le> (of_int n :: rat)"
  proof -
    assume c: "cover k xs = cover k silences \<inter> {0..<n}"
    have n: "0 \<le> n"
      using False assms(1,2) by (metis less_eq_rat_def mult_nonneg_nonneg not_le of_int_0_le_iff)
    have "card (cover k xs) \<le> card {0..<n}"
      by (rule card_mono) (auto simp: c)
    then have le': "card (cover k xs) \<le> nat n"
      by simp
    moreover have "card ({0..<n} - cover k silences) = nat n - card (cover k xs)"
      using card_Diff_subset [of "cover k xs" "{0..<n}"] finite_subset [of "cover k xs" "{0..<n}"]
      by (simp add: c Diff_Int_distrib Diff_Int)
    ultimately show "of_nat (card ({0..<n} - cover k silences)) = (of_int n - of_nat (card (cover k xs)) :: rat)"
      and "of_nat (card (cover k xs)) \<le> (of_int n :: rat)"
      using n by (simp_all add: of_nat_diff of_nat_nat le_nat_iff)
  qed
  have "content_seconds silences source_duration = max 0 (source_duration - span_total (fold add_span xs (0, None)))"
    using False by (simp add: content_seconds_def xs_def span_total_def split: prod.split option.split)
  then have "content_seconds silences source_duration * k =
      max 0 (source_duration * k - span_total (fold add_span xs (0, None)) * k)"
    using assms(1) by (simp add: max_mult_distrib_right left_diff_distrib)
  then show ?thesis
    unfolding total assms(2) rest using le by simp
qed

theorem content_is_the_uncovered_cells_witness:
  "content_seconds [(5, 30), (1, 3), (2, 6)] 20 * 1 = of_nat (card ({0..<20} - cover 1 [(5, 30), (1, 3), (2, 6)]))"
  by (rule content_is_the_uncovered_cells) (simp_all add: on_grid_def)

subsection \<open>Rotated signatures\<close>

definition plain_scheme :: "string \<Rightarrow> bool" where
  "plain_scheme s \<longleftrightarrow> s \<noteq> '''' \<and> is_letter (hd s) \<and> list_all is_scheme_char s \<and> py_lower s = s"

lemma scheme_char_not_colon: "is_scheme_char c \<Longrightarrow> c \<noteq> CHR '':''"
  by (auto simp: is_scheme_char_def Let_def)

lemma takeWhile_stops: "(\<forall>x\<in>set xs. P x) \<Longrightarrow> (ys = [] \<or> \<not> P (hd ys)) \<Longrightarrow> takeWhile P (xs @ ys) = xs"
  by (cases ys) (auto simp: takeWhile_append)

lemma split_scheme_plain: "plain_scheme s \<Longrightarrow> split_scheme (s @ '':'' @ r) = (s, r)"
proof -
  assume s: "plain_scheme s"
  then have "takeWhile (\<lambda>c. c \<noteq> CHR '':'') (s @ '':'' @ r) = s"
    by (intro takeWhile_stops) (auto simp: plain_scheme_def list_all_iff scheme_char_not_colon)
  then show ?thesis
    using s by (simp add: split_scheme_def plain_scheme_def Let_def)
qed

lemma url_parts_plain:
  assumes "plain_scheme s" and "\<forall>c\<in>set h. c \<notin> set ''/?#''" and "\<forall>c\<in>set p. c \<notin> set ''?#''"
    and "p = '''' \<or> hd p = CHR ''/''" and "q = '''' \<or> hd q \<in> set ''?#''"
  shows "url_parts (s @ ''://'' @ h @ p @ q) = (s, h, p)"
proof -
  have host: "takeWhile (\<lambda>c. c \<notin> set ''/?#'') (h @ p @ q) = h"
    by (rule takeWhile_stops) (use assms(2,4,5) in \<open>cases p; auto\<close>)+
  have path: "takeWhile (\<lambda>c. c \<notin> set ''?#'') (p @ q) = p"
    by (rule takeWhile_stops) (use assms(3,5) in auto)
  show ?thesis
    using split_scheme_plain [OF assms(1), of "''//'' @ h @ p @ q"] host path
    by (simp add: url_parts_def py_startswith_def Let_def)
qed

text \<open>
  A signed query that rotates does not look like new media: the fingerprint of an episode is the same for
  every query or fragment behind one scheme, host and path.
\<close>

theorem signed_query_keeps_fingerprint:
  assumes "plain_scheme s" and "h \<noteq> ''''" and "\<forall>c\<in>set h. c \<notin> set ''/?#''"
    and "\<forall>c\<in>set p. c \<notin> set ''?#''" and "p = '''' \<or> hd p = CHR ''/''"
    and "q = '''' \<or> hd q \<in> set ''?#''"
    and "fp_resolved_audio_url ep = Some (s @ ''://'' @ h @ p @ q)"
  shows "source_fingerprint sha float_text ep profile =
         source_fingerprint sha float_text (ep\<lparr>fp_resolved_audio_url := Some (s @ ''://'' @ h @ p)\<rparr>) profile"
proof -
  have "stable_url (s @ ''://'' @ h @ p @ q) = s @ ''://'' @ h @ p"
    using url_parts_plain [OF assms(1,3,4,5,6)] assms(2) by (simp add: stable_url_def)
  moreover have "stable_url (s @ ''://'' @ h @ p) = s @ ''://'' @ h @ p"
    using url_parts_plain [OF assms(1,3,4,5), of "''''"] assms(2) by (simp add: stable_url_def)
  ultimately show ?thesis
    using assms(7) by (simp add: source_fingerprint_def or_empty_def)
qed

theorem signed_query_keeps_fingerprint_witness:
  "source_fingerprint id (\<lambda>_. ''60.0'') \<lparr>fp_resolved_audio_url = Some ''https://c.org/a.mp3?X-Amz-Date=1'',
       fp_source_duration = Some 60, fp_media_kind = Some ''audio''\<rparr> ''p'' =
   source_fingerprint id (\<lambda>_. ''60.0'') \<lparr>fp_resolved_audio_url = Some ''https://c.org/a.mp3'',
       fp_source_duration = Some 60, fp_media_kind = Some ''audio''\<rparr> ''p''"
  using signed_query_keeps_fingerprint [of "''https''" "''c.org''" "''/a.mp3''" "''?X-Amz-Date=1''"
      "\<lparr>fp_resolved_audio_url = Some ''https://c.org/a.mp3?X-Amz-Date=1'', fp_source_duration = Some 60, fp_media_kind = Some ''audio''\<rparr>"
      id "\<lambda>_. ''60.0''" "''p''"]
  by (simp add: plain_scheme_def is_letter_def is_scheme_char_def py_lower_def lower_char_def Let_def)

end
