(* ===== verification/Backoff.thy ===== *)
theory Backoff
  imports Media_Availability
begin

section \<open>Retry clocks of an episode\<close>

text \<open>
  \<open>citypods/records.py\<close>: the capped exponential backoff of every failing piece of work and the flat recheck
  clock of media known to be dead. A \<open>timedelta\<close> is its whole number of microseconds; reading a stored
  timestamp is the parameter \<open>from_iso\<close> (\<open>datetime.fromisoformat\<close>, \<open>None\<close> for its \<open>ValueError\<close>).
\<close>

definition td_days :: "int \<Rightarrow> int" where
  "td_days d = d * us_per_day"

definition BACKOFF_BASE :: int where "BACKOFF_BASE = td_days 1"
definition BACKOFF_MAX :: int where "BACKOFF_MAX = td_days 30"
definition TRANSCRIPT_TIMEOUT_BACKOFF_BASE :: int where "TRANSCRIPT_TIMEOUT_BACKOFF_BASE = td_days 1"
definition TRANSCRIPT_TIMEOUT_BACKOFF_MAX :: int where "TRANSCRIPT_TIMEOUT_BACKOFF_MAX = td_days 30"
definition TRANSCRIPT_INVALID_WORDS_BACKOFF_BASE :: int where "TRANSCRIPT_INVALID_WORDS_BACKOFF_BASE = td_days 1"
definition TRANSCRIPT_INVALID_WORDS_BACKOFF_MAX :: int where "TRANSCRIPT_INVALID_WORDS_BACKOFF_MAX = td_days 30"
definition AGENDA_TEXT_BACKOFF_BASE :: int where "AGENDA_TEXT_BACKOFF_BASE = td_days 1"
definition AGENDA_TEXT_BACKOFF_MAX :: int where "AGENDA_TEXT_BACKOFF_MAX = td_days 14"
definition AGENDA_BACKUP_BACKOFF_BASE :: int where "AGENDA_BACKUP_BACKOFF_BASE = td_days 1"
definition AGENDA_BACKUP_BACKOFF_MAX :: int where "AGENDA_BACKUP_BACKOFF_MAX = td_days 14"
definition MINUTES_TEXT_BACKOFF_BASE :: int where "MINUTES_TEXT_BACKOFF_BASE = td_days 1"
definition MINUTES_TEXT_BACKOFF_MAX :: int where "MINUTES_TEXT_BACKOFF_MAX = td_days 14"
definition CONFIRMED_DEAD_RECHECK_INTERVAL :: int where "CONFIRMED_DEAD_RECHECK_INTERVAL = td_days 30"

text \<open>\<open>n.bit_length()\<close>\<close>

fun bit_length :: "nat \<Rightarrow> nat" where
  "bit_length n = (if n = 0 then 0 else Suc (bit_length (n div 2)))"

declare bit_length.simps [simp del]

definition capped_exponential_backoff :: "int \<Rightarrow> int \<Rightarrow> int \<Rightarrow> int" where
  "capped_exponential_backoff base cap attempts =
     (if attempts \<le> 0 then 0
      else if base \<le> 0 \<or> cap \<le> base then cap
      else
        (let multiplier_cap = max 1 ((cap + base - 1) div base);
             exponent = attempts - 1
         in if int (bit_length (nat (multiplier_cap - 1))) \<le> exponent then cap
            else min cap (base * 2 ^ nat exponent)))"

record retry_log =
  rl_agenda_text_attempts :: int
  rl_agenda_text_last_attempt :: "string option"
  rl_agenda_backup_attempts :: int
  rl_agenda_backup_last_attempt :: "string option"
  rl_minutes_text_attempts :: int
  rl_minutes_text_last_attempt :: "string option"
  rl_transcript_timeout_attempts :: int
  rl_transcript_timeout_last_attempt :: "string option"
  rl_transcript_invalid_words_attempts :: int
  rl_transcript_invalid_words_last_attempt :: "string option"

fun as_utc :: "datetime \<Rightarrow> instant" where
  "as_utc (Aware n) = n"
| "as_utc (Naive n) = n"

definition parse_iso_utc :: "(string \<Rightarrow> datetime option) \<Rightarrow> string option \<Rightarrow> instant option" where
  "parse_iso_utc from_iso value =
     (case value of
        None \<Rightarrow> None
      | Some s \<Rightarrow> if s = '''' then None else map_option as_utc (from_iso s))"

definition agenda_text_backoff_until :: "(string \<Rightarrow> datetime option) \<Rightarrow> retry_log \<Rightarrow> instant option" where
  "agenda_text_backoff_until from_iso ep =
     (case parse_iso_utc from_iso (rl_agenda_text_last_attempt ep) of
        None \<Rightarrow> None
      | Some stamp \<Rightarrow>
          if rl_agenda_text_attempts ep \<le> 0 then None
          else Some (stamp + capped_exponential_backoff AGENDA_TEXT_BACKOFF_BASE AGENDA_TEXT_BACKOFF_MAX
                       (rl_agenda_text_attempts ep)))"

definition agenda_backup_backoff_until :: "(string \<Rightarrow> datetime option) \<Rightarrow> retry_log \<Rightarrow> instant option" where
  "agenda_backup_backoff_until from_iso ep =
     (case parse_iso_utc from_iso (rl_agenda_backup_last_attempt ep) of
        None \<Rightarrow> None
      | Some stamp \<Rightarrow>
          if rl_agenda_backup_attempts ep \<le> 0 then None
          else Some (stamp + capped_exponential_backoff AGENDA_BACKUP_BACKOFF_BASE AGENDA_BACKUP_BACKOFF_MAX
                       (rl_agenda_backup_attempts ep)))"

definition minutes_text_backoff_until :: "(string \<Rightarrow> datetime option) \<Rightarrow> retry_log \<Rightarrow> instant option" where
  "minutes_text_backoff_until from_iso ep =
     (case parse_iso_utc from_iso (rl_minutes_text_last_attempt ep) of
        None \<Rightarrow> None
      | Some stamp \<Rightarrow>
          if rl_minutes_text_attempts ep \<le> 0 then None
          else Some (stamp + capped_exponential_backoff MINUTES_TEXT_BACKOFF_BASE MINUTES_TEXT_BACKOFF_MAX
                       (rl_minutes_text_attempts ep)))"

definition in_backoff ::
  "(string \<Rightarrow> datetime option) \<Rightarrow> int \<Rightarrow> string option \<Rightarrow> instant \<Rightarrow> bool" where
  "in_backoff from_iso materialize_attempts materialize_last_attempt now =
     (if materialize_attempts \<le> 0 then False
      else
        (case parse_iso_utc from_iso materialize_last_attempt of
           None \<Rightarrow> False
         | Some stamp \<Rightarrow> now < stamp + capped_exponential_backoff BACKOFF_BASE BACKOFF_MAX materialize_attempts))"

definition confirmed_dead_recheck_due ::
  "(string \<Rightarrow> datetime option) \<Rightarrow> media_availability option \<Rightarrow> instant \<Rightarrow> bool" where
  "confirmed_dead_recheck_due from_iso av now =
     (case parse_iso_utc from_iso (case av of None \<Rightarrow> None | Some v \<Rightarrow> ma_last_check v) of
        None \<Rightarrow> True
      | Some stamp \<Rightarrow> stamp + CONFIRMED_DEAD_RECHECK_INTERVAL \<le> now)"

definition transcript_timeout_backoff_until :: "(string \<Rightarrow> datetime option) \<Rightarrow> retry_log \<Rightarrow> instant option" where
  "transcript_timeout_backoff_until from_iso ep =
     (if rl_transcript_timeout_attempts ep \<le> 0 then None
      else
        map_option
          (\<lambda>stamp. stamp + capped_exponential_backoff TRANSCRIPT_TIMEOUT_BACKOFF_BASE TRANSCRIPT_TIMEOUT_BACKOFF_MAX
                            (rl_transcript_timeout_attempts ep))
          (parse_iso_utc from_iso (rl_transcript_timeout_last_attempt ep)))"

definition transcript_invalid_words_backoff_until ::
  "(string \<Rightarrow> datetime option) \<Rightarrow> retry_log \<Rightarrow> instant option" where
  "transcript_invalid_words_backoff_until from_iso ep =
     (if rl_transcript_invalid_words_attempts ep \<le> 0 then None
      else
        map_option
          (\<lambda>stamp. stamp + capped_exponential_backoff TRANSCRIPT_INVALID_WORDS_BACKOFF_BASE
                            TRANSCRIPT_INVALID_WORDS_BACKOFF_MAX (rl_transcript_invalid_words_attempts ep))
          (parse_iso_utc from_iso (rl_transcript_invalid_words_last_attempt ep)))"

subsection \<open>The guarded power is the plain one\<close>

lemma bit_length_bound: "n < 2 ^ bit_length n"
proof (induction n rule: bit_length.induct)
  case (1 n)
  show ?case
  proof (cases "n = 0")
    case False
    then have "n div 2 < 2 ^ bit_length (n div 2)"
      using 1 by simp
    then show ?thesis
      using False by (simp add: bit_length.simps [of n])
  qed (simp add: bit_length.simps [of 0])
qed

lemma capped_when_large:
  assumes "0 < base" and "base < cap"
    and "int (bit_length (nat (max 1 ((cap + base - 1) div base) - 1))) \<le> int k"
  shows "cap \<le> base * 2 ^ k"
proof -
  define m where "m = (cap + base - 1) div base"
  have m: "1 \<le> m"
    using assms(1,2) unfolding m_def by (simp add: pos_imp_zdiv_pos_iff zdiv_mono1 int_one_le_iff_zero_less)
  have "nat (m - 1) < 2 ^ bit_length (nat (m - 1))"
    by (rule bit_length_bound)
  moreover have "(2 :: nat) ^ bit_length (nat (m - 1)) \<le> 2 ^ k"
    using assms(3) m by (simp add: m_def [symmetric] max_absorb2)
  ultimately have "nat (m - 1) < 2 ^ k"
    by linarith
  then have "m \<le> 2 ^ k"
    using m by (simp add: nat_less_iff)
  moreover have "cap \<le> base * m"
  proof -
    have "cap + base - 1 < base * m + base"
      using assms(1) unfolding m_def by (metis mult.commute div_mult_mod_eq add_strict_left_mono pos_mod_bound)
    then show ?thesis
      by linarith
  qed
  ultimately show ?thesis
    using assms(1) by (meson mult_left_mono order_trans less_imp_le)
qed

text \<open>
  The guard against large exponents does not change the delay: for a positive base below the cap the delay of
  the n-th attempt is the smaller of the cap and the base doubled n - 1 times.
\<close>

theorem backoff_is_capped_doubling:
  assumes "0 < base" and "base < cap" and "0 < attempts"
  shows "capped_exponential_backoff base cap attempts = min cap (base * 2 ^ nat (attempts - 1))"
proof (cases "int (bit_length (nat (max 1 ((cap + base - 1) div base) - 1))) \<le> attempts - 1")
  case True
  then have "cap \<le> base * 2 ^ nat (attempts - 1)"
    using capped_when_large [OF assms(1,2), of "nat (attempts - 1)"] assms(3) by simp
  then show ?thesis
    using True assms by (simp add: capped_exponential_backoff_def Let_def)
next
  case False
  then show ?thesis
    using assms by (simp add: capped_exponential_backoff_def Let_def)
qed

theorem backoff_is_capped_doubling_witness:
  "capped_exponential_backoff BACKOFF_BASE BACKOFF_MAX 4 = min BACKOFF_MAX (BACKOFF_BASE * 2 ^ nat (4 - 1))"
  by (rule backoff_is_capped_doubling)
    (simp_all add: BACKOFF_BASE_def BACKOFF_MAX_def td_days_def us_per_day_def)

end
