(* ===== verification/Silence_Trim.thy ===== *)
theory Silence_Trim
  imports Timeline Bodies Backoff
begin

section \<open>Planning the cut of silences\<close>

text \<open>
  \<open>citypods/silence.py\<close> and the planner of \<open>citypods/concat.py\<close>: reading the detector's log, cutting the silences
  out of a source, judging the result, and the plan of one episode with every early return. The runs of ffmpeg
  and ffprobe, the provider's resolution of the media, the source cache and the work gate are inputs; log lines
  are not modelled.
\<close>

definition DEFER_CACHE_UNAVAILABLE :: string where "DEFER_CACHE_UNAVAILABLE = ''deferred_cache_unavailable''"
definition DEFER_CACHE_STOP :: string where "DEFER_CACHE_STOP = ''deferred_cache_stop''"
definition DEFER_DECODE_UNAVAILABLE :: string where "DEFER_DECODE_UNAVAILABLE = ''deferred_decode_unavailable''"
definition DEFER_DEGENERATE_TIMELINE :: string where "DEFER_DEGENERATE_TIMELINE = ''deferred_degenerate_timeline''"
definition DEFER_NATIVE_GATE :: string where "DEFER_NATIVE_GATE = ''deferred_native_gate''"
definition DEFER_PARTIAL_SOURCE :: string where "DEFER_PARTIAL_SOURCE = ''deferred_partial_source''"
definition SOURCE_TRUNCATION_MIN_RATIO :: rat where "SOURCE_TRUNCATION_MIN_RATIO = 9 / 10"

subsection \<open>Reading the log\<close>

text \<open>\<open>str.splitlines\<close>: a carriage return before a line feed belongs to it.\<close>

definition is_line_break :: "char \<Rightarrow> bool" where
  "is_line_break c \<longleftrightarrow> (of_char c :: nat) \<in> {10, 11, 12, 13, 28, 29, 30}"

fun split_lines :: "string \<Rightarrow> string \<Rightarrow> string list" where
  "split_lines line [] = (if line = [] then [] else [rev line])"
| "split_lines line [c] = (if is_line_break c then [rev line] else [rev (c # line)])"
| "split_lines line (c # d # cs) =
     (if of_char c = (13 :: nat) \<and> of_char d = (10 :: nat) then rev line # split_lines [] cs
      else if is_line_break c then rev line # split_lines [] (d # cs)
      else split_lines (c # line) (d # cs))"

definition is_num_char :: "char \<Rightarrow> bool" where
  "is_num_char c = (is_digit c \<or> c = CHR ''.'')"

text \<open>\<open>re.search(mark + r"\s*([\d.]+)", text)\<close>\<close>

fun number_after :: "string \<Rightarrow> string \<Rightarrow> string option" where
  "number_after mark [] = None"
| "number_after mark (c # cs) =
     (let number = takeWhile is_num_char (dropWhile is_space (drop (length mark) (c # cs)))
      in if py_startswith (c # cs) mark \<and> number \<noteq> [] then Some number else number_after mark cs)"

definition float_of_text :: "string \<Rightarrow> exn + rat" where
  "float_of_text s = (case py_float_of_str s of None \<Rightarrow> Inl ValueError | Some v \<Rightarrow> Inr v)"

text \<open>The open starts are a stack: an end closes the latest.\<close>

primrec scan_silences :: "string list \<Rightarrow> rat list \<Rightarrow> exn + (rat \<times> rat) list" where
  "scan_silences [] starts = Inr []"
| "scan_silences (line # lines) starts =
     (case number_after ''silence_start:'' line of
        Some n \<Rightarrow> bindE (float_of_text n) (\<lambda>x. scan_silences lines (x # starts))
      | None \<Rightarrow>
          (case (number_after ''silence_end:'' line, starts) of
             (Some n, x # rest) \<Rightarrow>
               bindE (float_of_text n) (\<lambda>y. bindE (scan_silences lines rest) (\<lambda>pairs. Inr ((x, y) # pairs)))
           | _ \<Rightarrow> scan_silences lines starts))"

definition parse_silences :: "string \<Rightarrow> exn + (rat \<times> rat) list" where
  "parse_silences stderr = scan_silences (split_lines [] stderr) []"

text \<open>\<open>(\d+):(\d+):([\d.]+)\<close> and \<open>(\d+):(\d{2}):(\d{2}(?:\.\d+)?)\<close> at the head of a text.\<close>

definition clock_at :: "string \<Rightarrow> (string \<times> string \<times> string) option" where
  "clock_at s =
     (let h = takeWhile is_digit s; r1 = drop (length h) s;
          m = takeWhile is_digit (tl r1); r2 = drop (length m) (tl r1);
          x = takeWhile is_num_char (tl r2)
      in if h \<noteq> [] \<and> r1 \<noteq> [] \<and> hd r1 = CHR '':'' \<and> m \<noteq> [] \<and> r2 \<noteq> [] \<and> hd r2 = CHR '':'' \<and> x \<noteq> []
         then Some (h, m, x) else None)"

fun duration_after :: "string \<Rightarrow> (string \<times> string \<times> string) option" where
  "duration_after [] = None"
| "duration_after (c # cs) =
     (case (py_startswith (c # cs) ''Duration:'', clock_at (dropWhile is_space (drop 9 (c # cs)))) of
        (True, Some hms) \<Rightarrow> Some hms
      | _ \<Rightarrow> duration_after cs)"

definition digits_int :: "string \<Rightarrow> rat" where
  "digits_int s = (case digits_value 0 s of None \<Rightarrow> 0 | Some v \<Rightarrow> of_int v)"

definition parse_ffmpeg_duration :: "string \<Rightarrow> exn + rat option" where
  "parse_ffmpeg_duration stderr =
     (case duration_after stderr of
        None \<Rightarrow> Inr None
      | Some (h, m, s) \<Rightarrow>
          bindE (float_of_text s) (\<lambda>x. Inr (Some (digits_int h * 3600 + digits_int m * 60 + x))))"

definition stats_clock_at :: "string \<Rightarrow> rat option" where
  "stats_clock_at s =
     (let h = takeWhile is_digit s; r = drop (length h) s;
          fraction = takeWhile is_digit (drop 7 r)
      in if h \<noteq> [] \<and> 6 \<le> length r \<and> r ! 0 = CHR '':'' \<and> is_digit (r ! 1) \<and> is_digit (r ! 2) \<and>
            r ! 3 = CHR '':'' \<and> is_digit (r ! 4) \<and> is_digit (r ! 5)
         then Some (digits_int h * 3600 + digits_int (take 2 (drop 1 r)) * 60 + digits_int (take 2 (drop 4 r)) +
                    (if 6 < length r \<and> r ! 6 = CHR ''.'' \<and> fraction \<noteq> []
                     then digits_int fraction / 10 ^ length fraction else 0))
         else None)"

fun stats_clocks :: "string \<Rightarrow> rat list" where
  "stats_clocks [] = []"
| "stats_clocks (c # cs) =
     (case (py_startswith (c # cs) ''time='', stats_clock_at (dropWhile is_space (drop 5 (c # cs)))) of
        (True, Some x) \<Rightarrow> x # stats_clocks cs
      | _ \<Rightarrow> stats_clocks cs)"

definition keep_largest :: "rat \<Rightarrow> rat option \<Rightarrow> rat option" where
  "keep_largest secs best =
     (if secs \<le> 0 then best
      else (case best of None \<Rightarrow> Some secs | Some b \<Rightarrow> if b < secs then Some secs else best))"

definition parse_ffmpeg_decoded_end :: "string \<Rightarrow> rat option" where
  "parse_ffmpeg_decoded_end stderr = fold keep_largest (stats_clocks stderr) None"

text \<open>A run of ffmpeg: an exception the code catches, or the exit status and the log.\<close>

definition detect_silences :: "exn + int \<times> string \<Rightarrow> (rat \<times> rat) list \<times> rat option \<times> rat option" where
  "detect_silences run =
     (case run of
        Inl e \<Rightarrow> ([], None, None)
      | Inr (returncode, stderr) \<Rightarrow>
          (if returncode \<noteq> 0 then ([], None, None)
           else
             (case (parse_silences stderr, parse_ffmpeg_duration stderr) of
                (Inr silences, Inr container_duration) \<Rightarrow>
                  (silences, container_duration, parse_ffmpeg_decoded_end stderr)
              | _ \<Rightarrow> ([], None, None))))"

subsection \<open>Cutting\<close>

definition qualifying_cut :: "rat \<Rightarrow> rat \<Rightarrow> rat \<Rightarrow> rat \<times> rat \<Rightarrow> bool" where
  "qualifying_cut source_duration lead_trail_min mid_min gap =
     (case gap of
        (start, end) \<Rightarrow>
          (if start \<le> 1 / 1000 \<or> source_duration - 1 / 1000 \<le> end then lead_trail_min \<le> end - start
           else mid_min \<le> end - start))"

primrec invert_cuts :: "(rat \<times> rat) list \<Rightarrow> rat \<Rightarrow> rat \<Rightarrow> (rat \<times> rat) list" where
  "invert_cuts [] cursor source_duration =
     (if cursor < source_duration - 1 / 1000 then [(cursor, source_duration)] else [])"
| "invert_cuts (c # cuts) cursor source_duration =
     (case c of
        (cut_start, cut_end) \<Rightarrow>
          (if cursor + 1 / 1000 < cut_start then [(cursor, cut_start)] else []) @
          invert_cuts cuts cut_end source_duration)"

primrec pack_spans :: "string \<Rightarrow> (rat \<times> rat) list \<Rightarrow> rat \<Rightarrow> segment list" where
  "pack_spans source_id [] served_cursor = []"
| "pack_spans source_id (kept # keep) served_cursor =
     (case kept of
        (src_start, src_end) \<Rightarrow>
          source_segment served_cursor (served_cursor + (src_end - src_start)) source_id src_start (Some src_end) #
          pack_spans source_id keep (served_cursor + (src_end - src_start)))"

definition sorted_spans :: "(rat \<times> rat) list \<Rightarrow> (rat \<times> rat) list" where
  "sorted_spans spans = sort_key (\<lambda>(a, b). [a, b]) spans"

definition build_silence_timeline ::
  "string \<Rightarrow> rat \<Rightarrow> (rat \<times> rat) list \<Rightarrow> rat \<Rightarrow> rat \<Rightarrow> timeline option" where
  "build_silence_timeline source_id source_duration silences lead_trail_min mid_min =
     (if silences = [] \<and> source_duration \<le> 0 then None
      else
        (let cuts = filter (qualifying_cut source_duration lead_trail_min mid_min) silences
         in if cuts = [] then None
            else
              (let keep = invert_cuts (sorted_spans cuts) 0 source_duration
               in if keep = [] then None
                  else Some \<lparr>tl_version = ''identity'', tl_segments = pack_spans source_id keep 0,
                             tl_basis = ''served''\<rparr>)))"

definition is_degenerate_served_duration :: "timeline \<Rightarrow> rat \<Rightarrow> rat \<Rightarrow> rat \<Rightarrow> bool" where
  "is_degenerate_served_duration edl source_duration min_seconds min_fraction =
     ((if tl_segments edl = [] then 0 else sg_served_end (last (tl_segments edl)))
       < max min_seconds (source_duration * min_fraction))"

subsection \<open>The episode as the planners see it\<close>

record planned_episode =
  pe_uid :: string
  pe_media_kind :: string
  pe_audio_url :: "string option"
  pe_video_url :: string
  pe_duration :: "int option"
  pe_source_duration_seconds :: "rat option"
  pe_sources :: "source_media list"
  pe_timeline :: "timeline option"
  pe_chapters :: "pydict list"
  pe_source_chapters :: "pydict list"
  pe_chapters_basis :: string
  pe_canonical_video :: "string option"
  pe_availability :: "media_availability option"
  pe_defer_reason :: string
  pe_attempts :: int
  pe_last_attempt :: "string option"
  pe_error :: "string option"
  pe_error_spec_hash :: "string option"
  pe_integrity :: json

definition record_materialize_failure :: "instant \<Rightarrow> string \<Rightarrow> planned_episode \<Rightarrow> planned_episode" where
  "record_materialize_failure clock code ep =
     ep\<lparr>pe_attempts := pe_attempts ep + 1, pe_last_attempt := Some (iso_text (Aware clock)),
        pe_error := Some code, pe_error_spec_hash := None\<rparr>"

definition defer_timeline_plan :: "instant \<Rightarrow> string \<Rightarrow> string option \<Rightarrow> planned_episode \<Rightarrow> planned_episode" where
  "defer_timeline_plan clock reason failure_code ep =
     (let ep' = ep\<lparr>pe_defer_reason := reason\<rparr> in
      case failure_code of
        None \<Rightarrow> ep'
      | Some code \<Rightarrow> if code \<noteq> '''' then record_materialize_failure clock code ep' else ep')"

definition REPAIR_TIMELINE_REPLAN :: string where "REPAIR_TIMELINE_REPLAN = ''timeline-replan''"
definition REPAIR_AUDIO_REMATERIALIZE :: string where "REPAIR_AUDIO_REMATERIALIZE = ''audio-rematerialize''"
definition REPAIR_TRANSCRIPT_REGENERATE :: string where "REPAIR_TRANSCRIPT_REGENERATE = ''transcript-regenerate''"

definition REPAIR_ACTIONS :: "string list" where
  "REPAIR_ACTIONS = [REPAIR_TIMELINE_REPLAN, REPAIR_AUDIO_REMATERIALIZE, REPAIR_TRANSCRIPT_REGENERATE]"

definition timeline_audio_integrity :: "json \<Rightarrow> pydict" where
  "timeline_audio_integrity integrity = as_dict (dget (as_dict integrity) ''timeline_audio'' JNull)"

definition timeline_audio_repair_actions :: "json \<Rightarrow> string list" where
  "timeline_audio_repair_actions integrity =
     (let block = timeline_audio_integrity integrity in
      if dget block ''status'' JNull = JStr ''ok'' then []
      else
        (case dget block ''repair'' JNull of
           JList repair \<Rightarrow> filter (\<lambda>a. a \<in> set REPAIR_ACTIONS) (map py_str repair)
         | _ \<Rightarrow> []))"

definition needs_timeline_audio_repair :: "planned_episode \<Rightarrow> string \<Rightarrow> bool" where
  "needs_timeline_audio_repair ep action = (action \<in> set (timeline_audio_repair_actions (pe_integrity ep)))"

text \<open>\<open>episode_source_duration_seconds\<close>: the fields of an episode are numbers or \<open>None\<close>.\<close>

definition positive_rat :: "rat option \<Rightarrow> rat option" where
  "positive_rat x = (case x of None \<Rightarrow> None | Some s \<Rightarrow> if 0 < s then Some s else None)"

definition episode_source_duration_seconds :: "planned_episode \<Rightarrow> rat option" where
  "episode_source_duration_seconds ep =
     first_some (positive_rat (pe_source_duration_seconds ep)) (positive_rat (map_option of_int (pe_duration ep)))"

definition resolved_audio_url :: "planned_episode \<Rightarrow> string" where
  "resolved_audio_url ep = or_text (or_empty (pe_audio_url ep)) (pe_video_url ep)"

record silence_ctx =
  sx_trim_silence :: json
  sx_noise_db :: rat
  sx_min_served_seconds :: rat
  sx_min_served_fraction :: rat
  sx_lead_trail_min_s :: rat
  sx_mid_min_s :: rat

record silence_city =
  sy_extra :: pydict
  sy_extract_audio :: bool
  sy_provider :: string

text \<open>What the planner asks of the world: its answers are inputs.\<close>

datatype resolved = ResolvedUrl string | ResolvedDead | ResolveFailed

datatype fetched = FetchedFile | FetchedNothing | FetchStopped | FetchRaised exn

record silence_world =
  sw_ffmpeg_installed :: bool
  sw_resolved :: resolved
  sw_source_cache :: bool
  sw_fetched :: fetched
  sw_gate :: "bool option"
  sw_run :: "exn + int \<times> string"
  sw_sha256_16 :: "string \<Rightarrow> string"
  sw_float_text :: "rat \<Rightarrow> string"
  sw_partial_reason :: "rat \<Rightarrow> rat \<Rightarrow> string"

definition availability_profile :: "(rat \<Rightarrow> string) \<Rightarrow> silence_ctx \<Rightarrow> string" where
  "availability_profile float_text ctx =
     ''noise='' @ float_text (sx_noise_db ctx) @ ''dB;'' @
     ''min_s='' @ float_text (sx_min_served_seconds ctx) @ '';'' @
     ''min_f='' @ float_text (sx_min_served_fraction ctx)"

text \<open>\<open>classify\<close> is called here with observation kinds it knows.\<close>

definition stamp_availability ::
  "instant \<Rightarrow> silence_world \<Rightarrow> string \<Rightarrow> string \<Rightarrow> string \<Rightarrow> planned_episode \<Rightarrow> planned_episode \<times> (exn + media_availability option)" where
  "stamp_availability clock w obs_kind profile reason ep =
     (let fingerprint = source_fingerprint (sw_sha256_16 w) (sw_float_text w)
            \<lparr>fp_resolved_audio_url = Some (resolved_audio_url ep),
             fp_source_duration = episode_source_duration_seconds ep, fp_media_kind = Some (pe_media_kind ep)\<rparr> profile;
          obs = \<lparr>ob_kind = obs_kind, ob_fingerprint = Some fingerprint, ob_profile = profile,
                 ob_reason = reason, ob_now = NowClock\<rparr>
      in case classify clock (pe_availability ep) obs of
           Inl e \<Rightarrow> (ep, Inl e)
         | Inr None \<Rightarrow> (ep, Inr None)
         | Inr (Some verdict) \<Rightarrow> (ep\<lparr>pe_availability := Some verdict\<rparr>, Inr (Some verdict)))"

subsection \<open>The plan of one episode\<close>

definition expected_duration :: "rat option \<Rightarrow> int option \<Rightarrow> rat option" where
  "expected_duration container_duration declared =
     (case (positive_rat container_duration, positive_rat (map_option of_int declared)) of
        (Some a, Some b) \<Rightarrow> Some (min a b)
      | (Some a, None) \<Rightarrow> Some a
      | (None, b) \<Rightarrow> b)"

definition planned_source :: "silence_city \<Rightarrow> planned_episode \<Rightarrow> rat \<Rightarrow> source_media" where
  "planned_source city ep source_duration =
     (case pe_sources ep of
        [] \<Rightarrow>
          \<lparr>sm_id = ''s0'', sm_provider = sy_provider city, sm_ref = pe_video_url ep,
           sm_media_kind = pe_media_kind ep, sm_duration = Some source_duration,
           sm_watch_url = pe_canonical_video ep, sm_backup_key = None, sm_duration_basis = Some ''decoded''\<rparr>
      | s # _ \<Rightarrow>
          \<lparr>sm_id = sm_id s, sm_provider = sm_provider s, sm_ref = sm_ref s, sm_media_kind = sm_media_kind s,
           sm_duration = Some source_duration,
           sm_watch_url = first_some (sm_watch_url s) (pe_canonical_video ep),
           sm_backup_key = sm_backup_key s, sm_duration_basis = Some ''decoded''\<rparr>)"

text \<open>From the decoded duration on: the timeline, unless it is degenerate.\<close>

definition plan_cut ::
  "instant \<Rightarrow> silence_city \<Rightarrow> silence_ctx \<Rightarrow> timeline option \<Rightarrow> (rat \<times> rat) list \<Rightarrow> rat \<Rightarrow> planned_episode \<Rightarrow>
     planned_episode \<times> (exn + timeline option)" where
  "plan_cut clock city ctx current silences source_duration ep =
     (let src = planned_source city ep source_duration;
          planned = ep\<lparr>pe_sources := [src]\<rparr>
      in case build_silence_timeline (sm_id src) source_duration silences
                (sx_lead_trail_min_s ctx) (sx_mid_min_s ctx) of
           None \<Rightarrow> (planned, Inr (Some (identity_timeline src source_duration)))
         | Some edl \<Rightarrow>
             (if is_degenerate_served_duration edl source_duration
                   (sx_min_served_seconds ctx) (sx_min_served_fraction ctx)
              then
                (let cleared = (if current \<noteq> None \<and> needs_timeline_audio_repair ep REPAIR_TIMELINE_REPLAN
                                then ep\<lparr>pe_timeline := None\<rparr> else ep)
                 in (defer_timeline_plan clock DEFER_DEGENERATE_TIMELINE (Some ''timeline-degenerate'') cleared, Inr None))
              else (planned, Inr (Some edl))))"

definition plan_decoded ::
  "instant \<Rightarrow> silence_world \<Rightarrow> silence_city \<Rightarrow> silence_ctx \<Rightarrow> timeline option \<Rightarrow> planned_episode \<Rightarrow>
     planned_episode \<times> (exn + timeline option)" where
  "plan_decoded clock w city ctx current ep =
     (case detect_silences (sw_run w) of
        (silences, container_duration, decoded_duration) \<Rightarrow>
          (let profile = availability_profile (sw_float_text w) ctx in
           case decoded_duration of
             None \<Rightarrow>
               (case stamp_availability clock w TRANSPORT_FAILED profile '''' ep of
                  (ep', Inl e) \<Rightarrow> (ep', Inl e)
                | (ep', Inr _) \<Rightarrow>
                    (defer_timeline_plan clock DEFER_DECODE_UNAVAILABLE (Some ''timeline-decode'') ep', Inr None))
           | Some probed \<Rightarrow>
               (if is_effectively_silent silences probed (sx_min_served_seconds ctx) (sx_min_served_fraction ctx) then
                  (case stamp_availability clock w SILENT profile ''successful decode is near-totally silent'' ep of
                     (ep', Inl e) \<Rightarrow> (ep', Inl e)
                   | (ep', Inr _) \<Rightarrow> plan_cut clock city ctx current silences probed ep')
                else
                  (case expected_duration container_duration (pe_duration ep) of
                     Some expected \<Rightarrow>
                       if probed < SOURCE_TRUNCATION_MIN_RATIO * expected then
                         (case stamp_availability clock w PARTIAL profile (sw_partial_reason w probed expected) ep of
                            (ep', Inl e) \<Rightarrow> (ep', Inl e)
                          | (ep', Inr verdict) \<Rightarrow>
                              (if (case verdict of None \<Rightarrow> True | Some v \<Rightarrow> \<not> is_confirmed_partial v)
                               then (defer_timeline_plan clock DEFER_PARTIAL_SOURCE (Some ''timeline-partial-source'') ep',
                                     Inr None)
                               else plan_cut clock city ctx current silences probed
                                      (if py_startswith (pe_chapters_basis ep') ''served''
                                       then ep'\<lparr>pe_chapters_basis := ''source:s0''\<rparr> else ep')))
                       else
                         (case stamp_availability clock w PLAYABLE profile '''' ep of
                            (ep', Inl e) \<Rightarrow> (ep', Inl e)
                          | (ep', Inr _) \<Rightarrow> plan_cut clock city ctx current silences probed ep')
                   | None \<Rightarrow>
                       (case stamp_availability clock w PLAYABLE profile '''' ep of
                          (ep', Inl e) \<Rightarrow> (ep', Inl e)
                        | (ep', Inr _) \<Rightarrow> plan_cut clock city ctx current silences probed ep')))))"

definition silence_plan ::
  "instant \<Rightarrow> silence_world \<Rightarrow> silence_city \<Rightarrow> silence_ctx \<Rightarrow> timeline option \<Rightarrow> planned_episode \<Rightarrow>
     planned_episode \<times> (exn + timeline option)" where
  "silence_plan clock w city ctx current ep =
     (if \<not> py_truthy (dget (sy_extra city) ''trim_silence'' (sx_trim_silence ctx)) then (ep, Inr None)
      else if \<not> (pe_media_kind ep = ''hls'' \<or> sy_extract_audio city) then (ep, Inr None)
      else if 1 < length (pe_sources ep) then (ep, Inr None)
      else if \<not> sw_ffmpeg_installed w then (ep, Inr None)
      else
        (case sw_resolved w of
           ResolveFailed \<Rightarrow> (ep, Inr None)
         | ResolvedDead \<Rightarrow>
             (case stamp_availability clock w ABSENT (availability_profile (sw_float_text w) ctx)
                     ''provider reports no usable media'' ep of
                (ep', Inl e) \<Rightarrow> (ep', Inl e)
              | (ep', Inr _) \<Rightarrow> (ep', Inr None))
         | ResolvedUrl source_url \<Rightarrow>
             (if \<not> sw_source_cache w \<or> pe_uid ep = ''''
              then (defer_timeline_plan clock DEFER_CACHE_UNAVAILABLE (Some ''timeline-cache'') ep, Inr None)
              else
                (case sw_fetched w of
                   FetchRaised e \<Rightarrow> (ep, Inl e)
                 | FetchStopped \<Rightarrow> (defer_timeline_plan clock DEFER_CACHE_STOP None ep, Inr None)
                 | FetchedNothing \<Rightarrow>
                     (defer_timeline_plan clock DEFER_CACHE_UNAVAILABLE (Some ''timeline-cache'') ep, Inr None)
                 | FetchedFile \<Rightarrow>
                     (if sw_gate w = Some False then (defer_timeline_plan clock DEFER_NATIVE_GATE None ep, Inr None)
                      else plan_decoded clock w city ctx current ep)))))"

end
