(* ===== verification/Timeline_Stage.thy ===== *)
theory Timeline_Stage
  imports Silence_Trim
begin

section \<open>The timeline and remap stages of one episode\<close>

text \<open>
  \<open>citypods/concat.py\<close> and the stages \<open>TimelineStage\<close> and \<open>RemapStage\<close> of \<open>citypods/stages.py\<close>: the planner
  of multi-segment meetings, the decision to plan, reuse or defer, the order of the planners, and the move
  of the chapters to the served clock. The selection of the episodes and their number in flight are not
  modelled: an episode is processed alone.
\<close>

subsection \<open>Probing a duration\<close>

text \<open>What ffprobe printed: nothing, a plain line, or text that starts with a brace.\<close>

datatype probe_output = ProbeFailed exn | ProbeSilent | ProbeLine string | ProbeDocument blob

text \<open>\<open>Fraction(text)\<close>: a quotient of integers or a decimal.\<close>

definition py_fraction :: "string \<Rightarrow> exn + rat" where
  "py_fraction s =
     (case split_at_char (\<lambda>c. c = CHR ''/'') s of
        (a, None) \<Rightarrow> float_of_text a
      | (a, Some b) \<Rightarrow>
          (case (py_int_of_str a, unsigned_digits b) of
             (Some n, Some d) \<Rightarrow> if d = 0 then Inl (OtherError ''ZeroDivisionError'') else Inr (of_int n / of_int d)
           | _ \<Rightarrow> Inl ValueError))"

definition positive_or_none :: "exn + rat \<Rightarrow> exn + rat option" where
  "positive_or_none x = bindE x (\<lambda>v. Inr (if 0 < v then Some v else None))"

text \<open>
  The clock of the first stream: its sample count times its time base, else its own duration; \<open>Inr None\<close> in the
  second component when the stream exposes neither.
\<close>

definition stream_clock :: "json \<Rightarrow> exn + rat option option" where
  "stream_clock streams =
     (case streams of
        JList (JObj stream # _) \<Rightarrow>
          (let ts = dget stream ''duration_ts'' JNull; base = dget stream ''time_base'' JNull;
               own = dget stream ''duration'' JNull;
               fallback = (if py_truthy own then map_sum id Some (positive_or_none (py_float own)) else Inr None)
           in if ts \<noteq> JNull \<and> py_truthy base
              then bindE (py_int ts) (\<lambda>n. bindE (py_fraction (py_str base)) (\<lambda>q.
                     if 0 < of_int n * q then Inr (Some (Some (of_int n * q))) else fallback))
              else fallback)
      | JList _ \<Rightarrow> Inr None
      | JStr _ \<Rightarrow> Inr None
      | JTime _ \<Rightarrow> Inr None
      | JObj _ \<Rightarrow> Inl KeyError
      | _ \<Rightarrow> Inl TypeError)"

definition streams_of :: "pydict \<Rightarrow> json" where
  "streams_of data = (let v = dget data ''streams'' JNull in if py_truthy v then v else JList [])"

definition probe_errors :: "exn list" where
  "probe_errors = [ValueError, TypeError, OtherError ''TimeoutExpired'', OtherError ''CalledProcessError'', OtherError ''OSError'']"

text \<open>\<open>silence.py\<close>: a clock of the stream or nothing, whatever fails.\<close>

definition probe_stream_sample_duration :: "probe_output \<Rightarrow> exn + rat option" where
  "probe_stream_sample_duration out =
     (case (case out of
              ProbeFailed e \<Rightarrow> Inl e
            | ProbeSilent \<Rightarrow> Inr None
            | ProbeLine s \<Rightarrow> positive_or_none (float_of_text s)
            | ProbeDocument doc \<Rightarrow>
                bindE (json_loads doc) (\<lambda>data. bindE (stream_clock (streams_of (as_dict data))) (\<lambda>c.
                  Inr (case c of None \<Rightarrow> None | Some d \<Rightarrow> d)))) of
        Inl e \<Rightarrow> if e \<in> set (OtherError ''ZeroDivisionError'' # probe_errors) then Inr None else Inl e
      | Inr d \<Rightarrow> Inr d)"

text \<open>\<open>concat.py\<close>: the container's duration is the last resort, a plain line is taken as it is.\<close>

definition probe_duration_url :: "probe_output \<Rightarrow> exn + rat option" where
  "probe_duration_url out =
     (case (case out of
              ProbeFailed e \<Rightarrow> Inl e
            | ProbeSilent \<Rightarrow> Inr None
            | ProbeLine s \<Rightarrow> bindE (float_of_text s) (\<lambda>v. Inr (Some v))
            | ProbeDocument doc \<Rightarrow>
                bindE (json_loads doc) (\<lambda>data. bindE (stream_clock (streams_of (as_dict data))) (\<lambda>c.
                  case c of
                    Some d \<Rightarrow> Inr d
                  | None \<Rightarrow>
                      bindE (sub_dict (as_dict data) ''format'') (\<lambda>fmt.
                        (let raw = dget fmt ''duration'' JNull in
                         if py_truthy raw then positive_or_none (py_float raw) else Inr None))))) of
        Inl e \<Rightarrow> if e \<in> set probe_errors then Inr None else Inl e
      | Inr d \<Rightarrow> Inr d)"

subsection \<open>The planner of multi-segment meetings\<close>

text \<open>\<open>fetch_segment_objects\<close>: the URL and the title of each segment. A probe that meets the end of the run's
budget stops the planning.\<close>

datatype probed = Probed "rat option" | ProbeStopped | ProbeRaised exn

record concat_world =
  cw_ffmpeg_installed :: bool
  cw_segments :: "exn + (string \<times> string option) list option"
  cw_probe :: "string \<Rightarrow> probed"

datatype probe_scan = AllProbed "rat list" | ScanStopped | ScanFailed nat | ScanRaised exn

primrec scan_probes :: "(string \<Rightarrow> probed) \<Rightarrow> nat \<Rightarrow> (string \<times> string option) list \<Rightarrow> probe_scan" where
  "scan_probes probe i [] = AllProbed []"
| "scan_probes probe i (obj # objs) =
     (case probe (fst obj) of
        ProbeRaised e \<Rightarrow> ScanRaised e
      | ProbeStopped \<Rightarrow> ScanStopped
      | Probed None \<Rightarrow> ScanFailed i
      | Probed (Some d) \<Rightarrow>
          (case scan_probes probe (Suc i) objs of AllProbed ds \<Rightarrow> AllProbed (d # ds) | other \<Rightarrow> other))"

definition source_name :: "nat \<Rightarrow> string" where
  "source_name i = ''s'' @ dec_nat i"

definition concat_source :: "string option \<Rightarrow> nat \<Rightarrow> string \<Rightarrow> rat \<Rightarrow> source_media" where
  "concat_source canonical_video i url dur =
     \<lparr>sm_id = source_name i, sm_provider = ''swagit'', sm_ref = url, sm_media_kind = ''direct'',
      sm_duration = Some dur, sm_watch_url = canonical_video, sm_backup_key = None,
      sm_duration_basis = Some ''stream-sample''\<rparr>"

fun concat_sources :: "string option \<Rightarrow> nat \<Rightarrow> (string \<times> string option) list \<Rightarrow> rat list \<Rightarrow> source_media list" where
  "concat_sources video i (obj # objs) (dur # durs) =
     concat_source video i (fst obj) dur # concat_sources video (Suc i) objs durs"
| "concat_sources video i _ _ = []"

fun concat_chapters :: "rat \<Rightarrow> (string \<times> string option) list \<Rightarrow> rat list \<Rightarrow> pydict list" where
  "concat_chapters offset (obj # objs) (dur # durs) =
     (case snd obj of
        Some title \<Rightarrow>
          if title \<noteq> ''''
          then [[(''start'', JFloat offset), (''end'', JFloat (offset + dur)), (''title'', JStr title)]] else []
      | None \<Rightarrow> []) @ concat_chapters (offset + dur) objs durs"
| "concat_chapters offset _ _ = []"

fun concat_segments :: "rat \<Rightarrow> source_media list \<Rightarrow> rat list \<Rightarrow> segment list" where
  "concat_segments offset (src # srcs) (dur # durs) =
     source_segment offset (offset + dur) (sm_id src) 0 (Some dur) # concat_segments (offset + dur) srcs durs"
| "concat_segments offset _ _ = []"

definition concat_plan ::
  "instant \<Rightarrow> concat_world \<Rightarrow> string \<Rightarrow> planned_episode \<Rightarrow> planned_episode \<times> (exn + timeline option)" where
  "concat_plan clock w city_provider ep =
     (if city_provider \<noteq> ''swagit'' then (ep, Inr None)
      else if pe_media_kind ep \<noteq> ''hls'' then (ep, Inr None)
      else if \<not> cw_ffmpeg_installed w then (ep, Inr None)
      else
        (case cw_segments w of
           Inl e \<Rightarrow> (record_materialize_failure clock ''concat-fetch'' ep, Inr None)
         | Inr None \<Rightarrow> (ep, Inr None)
         | Inr (Some objs) \<Rightarrow>
             (if length objs \<le> 1 then (ep, Inr None)
              else
                (case scan_probes (cw_probe w) 0 objs of
                   ScanRaised e \<Rightarrow> (ep, Inl e)
                 | ScanStopped \<Rightarrow> (ep, Inr None)
                 | ScanFailed i \<Rightarrow>
                     (record_materialize_failure clock (''concat-probe:'' @ source_name i) ep, Inr None)
                 | AllProbed durs \<Rightarrow>
                     (let sources = concat_sources (pe_canonical_video ep) 0 objs durs;
                          chapters = concat_chapters 0 objs durs;
                          ep1 = ep\<lparr>pe_sources := sources, pe_source_chapters := []\<rparr>;
                          ep2 = (if chapters \<noteq> []
                                 then ep1\<lparr>pe_chapters := chapters, pe_chapters_basis := ''served''\<rparr> else ep1)
                      in (ep2, Inr (Some \<lparr>tl_version = '''', tl_segments = concat_segments 0 sources durs,
                                          tl_basis = ''served''\<rparr>)))))))"

subsection \<open>The timeline stage\<close>

record planner =
  pl_name :: string
  pl_version :: string
  pl_plan :: "timeline option \<Rightarrow> planned_episode \<Rightarrow> planned_episode \<times> (exn + timeline option)"

definition stage_signature :: "planner list \<Rightarrow> string" where
  "stage_signature planners =
     (if planners = [] then ''identity''
      else py_join ''+'' (sort (map (\<lambda>p. pl_name p @ '':'' @ pl_version p) planners)))"

definition requires_decoded_source_basis :: "planner list \<Rightarrow> bool" where
  "requires_decoded_source_basis planners = list_ex (\<lambda>p. pl_name p = ''silence'') planners"

definition has_healthy_source_basis :: "string option \<Rightarrow> bool \<Rightarrow> bool" where
  "has_healthy_source_basis basis allow_concat_legacy =
     (case basis of
        None \<Rightarrow> allow_concat_legacy
      | Some b \<Rightarrow>
          (if b = ''decoded'' \<or> py_startswith b ''decoded:'' then True
           else allow_concat_legacy \<and> b = ''stream-sample''))"

definition source_by_id :: "source_media list \<Rightarrow> string \<Rightarrow> source_media option" where
  "source_by_id sources sid = map_of (rev (map (\<lambda>s. (sm_id s, s)) sources)) sid"

definition timeline_source_ids :: "timeline \<Rightarrow> string list" where
  "timeline_source_ids edl =
     remdups (map (\<lambda>s. the (sg_source_id s))
       (filter (\<lambda>s. sg_kind s = ''source'' \<and> sg_source_id s \<noteq> None) (tl_segments edl)))"

text \<open>\<open>timeline_digest(...) == ""\<close>: the digest of another timeline is never empty.\<close>

definition has_healthy_decoded_source_basis :: "planned_episode \<Rightarrow> bool" where
  "has_healthy_decoded_source_basis ep =
     (case pe_timeline ep of
        None \<Rightarrow> True
      | Some edl \<Rightarrow>
          (if is_identity edl (pe_sources ep) then True
           else if timeline_source_ids edl = [] then True
           else if pe_sources ep = [] then True
           else list_all
                  (\<lambda>sid. case source_by_id (pe_sources ep) sid of
                           None \<Rightarrow> False
                         | Some src \<Rightarrow>
                             has_healthy_source_basis (sm_duration_basis src) (1 < length (pe_sources ep)))
                  (timeline_source_ids edl)))"

definition TIMELINE_BACKOFF_ERRORS :: "string list" where
  "TIMELINE_BACKOFF_ERRORS =
     [''timeline-cache'', ''timeline-decode'', ''timeline-degenerate'', ''timeline-partial-source'',
      ''rate_limited'', ''timeline-plan-error'']"

datatype stage_outcome = StageReused | StageRan | StageDeferred string | StageRateLimited | StageError

text \<open>The planners in order, each on the timeline so far; a deferral or an exception ends the episode.\<close>

primrec run_planners ::
  "planner list \<Rightarrow> timeline option \<Rightarrow> bool \<Rightarrow> planned_episode \<Rightarrow> planned_episode \<times> (exn + (timeline option \<times> bool) option)" where
  "run_planners [] current changed ep = (ep, Inr (Some (current, changed)))"
| "run_planners (p # ps) current changed ep =
     (case pl_plan p current ep of
        (ep', Inl e) \<Rightarrow> (ep', Inl e)
      | (ep', Inr result) \<Rightarrow>
          (if pe_defer_reason ep' \<noteq> '''' then (ep', Inr None)
           else (case result of
                   None \<Rightarrow> run_planners ps current changed ep'
                 | Some edl \<Rightarrow> run_planners ps (Some edl) True ep')))"

definition RATE_LIMITED :: exn where "RATE_LIMITED = OtherError ''RateLimitedMediaFetchError''"

definition plan_one ::
  "(string \<Rightarrow> datetime option) \<Rightarrow> instant \<Rightarrow> bool \<Rightarrow> planner list \<Rightarrow> planned_episode \<Rightarrow> planned_episode \<times> stage_outcome" where
  "plan_one from_iso now stopping planners ep0 =
     (let ep = ep0\<lparr>pe_defer_reason := ''''\<rparr>;
          sig = stage_signature planners;
          force_replan = needs_timeline_audio_repair ep REPAIR_TIMELINE_REPLAN;
          stale_source_basis = (requires_decoded_source_basis planners \<and> \<not> has_healthy_decoded_source_basis ep);
          verdict = pe_availability ep
      in if (case pe_timeline ep of None \<Rightarrow> False | Some edl \<Rightarrow> tl_version edl = sig) \<and> \<not> force_replan \<and> \<not> stale_source_basis
         then (ep, StageReused)
         else if (case verdict of None \<Rightarrow> False | Some v \<Rightarrow> is_confirmed_dead v) \<and>
                 \<not> confirmed_dead_recheck_due from_iso verdict now
         then (ep, StageDeferred ''dead-cooldown'')
         else if (case verdict of None \<Rightarrow> False | Some v \<Rightarrow> is_confirmed_partial v) \<and>
                 \<not> confirmed_dead_recheck_due from_iso verdict now
         then (ep, StageDeferred ''partial-cooldown'')
         else if \<not> force_replan \<and> (case pe_error ep of None \<Rightarrow> False | Some e \<Rightarrow> e \<in> set TIMELINE_BACKOFF_ERRORS) \<and>
                 in_backoff from_iso (pe_attempts ep) (pe_last_attempt ep) now
         then (ep, StageDeferred (or_empty (pe_error ep) @ ''-backoff''))
         else if stopping then (ep, StageDeferred ''stop-signal'')
         else
           (case run_planners planners (pe_timeline ep) False ep of
              (ep', Inl e) \<Rightarrow>
                (if e = RATE_LIMITED then (record_materialize_failure now ''rate_limited'' ep', StageRateLimited)
                 else (record_materialize_failure now ''timeline-plan-error'' ep', StageError))
            | (ep', Inr None) \<Rightarrow> (ep', StageDeferred (pe_defer_reason ep'))
            | (ep', Inr (Some (current, changed))) \<Rightarrow>
                (case (changed, current) of
                   (True, Some edl) \<Rightarrow> (ep'\<lparr>pe_timeline := Some (edl\<lparr>tl_version := sig\<rparr>)\<rparr>, StageRan)
                 | _ \<Rightarrow> (ep', StageReused))))"

text \<open>\<open>TimelineStage.process\<close> for one episode of the batch.\<close>

definition timeline_process ::
  "(string \<Rightarrow> datetime option) \<Rightarrow> instant \<Rightarrow> bool \<Rightarrow> planner list \<Rightarrow> planned_episode \<Rightarrow> planned_episode \<times> stage_outcome" where
  "timeline_process from_iso now stopping planners ep =
     (if planners = [] then (ep, StageReused) else plan_one from_iso now stopping planners ep)"

definition silence_planner ::
  "instant \<Rightarrow> silence_world \<Rightarrow> silence_city \<Rightarrow> silence_ctx \<Rightarrow> planner" where
  "silence_planner clock w city ctx =
     \<lparr>pl_name = ''silence'', pl_version = ''3'', pl_plan = silence_plan clock w city ctx\<rparr>"

definition concat_planner :: "instant \<Rightarrow> concat_world \<Rightarrow> silence_city \<Rightarrow> planner" where
  "concat_planner clock w city =
     \<lparr>pl_name = ''swagit-concat'', pl_version = ''1'', pl_plan = (\<lambda>current ep. concat_plan clock w (sy_provider city) ep)\<rparr>"

definition timeline_ready :: "planned_episode list \<Rightarrow> planned_episode list" where
  "timeline_ready episodes = filter (\<lambda>ep. pe_defer_reason ep = '''') episodes"

definition playable :: "planned_episode list \<Rightarrow> planned_episode list" where
  "playable episodes =
     filter (\<lambda>ep. \<not> (case pe_availability ep of None \<Rightarrow> False | Some v \<Rightarrow> is_withheld v)) episodes"

subsection \<open>The remap stage\<close>

definition served_chapter_basis_version :: "planned_episode \<Rightarrow> string option" where
  "served_chapter_basis_version ep =
     (if \<not> py_startswith (pe_chapters_basis ep) ''served:'' then None
      else (let version = drop (length ''served:'') (pe_chapters_basis ep)
            in if version \<noteq> '''' then Some version else None))"

definition chapters_in_source_time :: "planned_episode \<Rightarrow> pydict list" where
  "chapters_in_source_time ep =
     (if pe_source_chapters ep \<noteq> [] then pe_source_chapters ep
      else if py_startswith (pe_chapters_basis ep) ''served'' then []
      else pe_chapters ep)"

definition needs_chapter_remap :: "planned_episode \<Rightarrow> bool" where
  "needs_chapter_remap ep =
     (if py_startswith (pe_chapters_basis ep) ''served''
      then (if pe_source_chapters ep = [] then False
            else (case pe_timeline ep of
                    None \<Rightarrow> False
                  | Some edl \<Rightarrow> served_chapter_basis_version ep \<noteq> Some (tl_version edl)))
      else if chapters_in_source_time ep = [] then False
      else (case pe_timeline ep of
              None \<Rightarrow> False
            | Some edl \<Rightarrow> \<not> is_identity edl (pe_sources ep)))"

definition remap_process :: "planned_episode \<Rightarrow> planned_episode \<times> (exn + stage_outcome)" where
  "remap_process ep =
     (if \<not> needs_chapter_remap ep then (ep, Inr StageReused)
      else if chapters_in_source_time ep = [] then (ep, Inr StageReused)
      else
        (case pe_timeline ep of
           None \<Rightarrow> (ep, Inl (AttributeError ''segments''))
         | Some edl \<Rightarrow>
             (let source_id = (case pe_sources ep of [] \<Rightarrow> ''s0'' | s # _ \<Rightarrow> sm_id s);
                  raw_chapters = chapters_in_source_time ep;
                  ep1 = ep\<lparr>pe_source_chapters := raw_chapters\<rparr>
              in case remap edl raw_chapters (Some source_id) None True of
                   Inl e \<Rightarrow> (ep1, Inl e)
                 | Inr chapters \<Rightarrow>
                     (ep1\<lparr>pe_chapters := chapters, pe_chapters_basis := ''served:'' @ tl_version edl\<rparr>,
                      Inr StageRan))))"

end
