(* ===== verification/Silence_Properties.thy ===== *)
theory Silence_Properties
  imports Timeline_Stage Timeline_Properties
begin

section \<open>What the silence planner and the timeline stage guarantee\<close>

text \<open>
  The cut of ordered silences is a well-formed timeline that loses no speech and keeps no removed silence; the
  plan of a multi-segment meeting is well formed and its chapters start where its segments do; the stage plans
  an episode once and the remap moves its chapters once. The last theorem shows that a fully silent source is
  observed only once.
\<close>

subsection \<open>Ordered gaps and what is between them\<close>

fun gaps_from :: "rat \<Rightarrow> (rat \<times> rat) list \<Rightarrow> bool" where
  "gaps_from lo [] = True"
| "gaps_from lo ((a, b) # gaps) = (lo \<le> a \<and> a < b \<and> gaps_from b gaps)"

lemma gaps_from_mono: "gaps_from lo gaps \<Longrightarrow> lo' \<le> lo \<Longrightarrow> gaps_from lo' gaps"
  by (cases gaps) auto

lemma gaps_from_filter: "gaps_from lo gaps \<Longrightarrow> gaps_from lo (filter P gaps)"
proof (induction gaps arbitrary: lo)
  case (Cons g gaps)
  obtain a b where g: "g = (a, b)"
    by (cases g)
  then have "gaps_from b (filter P gaps)" "lo \<le> b"
    using Cons by auto
  then show ?case
    using Cons.prems g gaps_from_mono by auto
qed simp

lemma gaps_from_member: "gaps_from lo gaps \<Longrightarrow> (a, b) \<in> set gaps \<Longrightarrow> lo \<le> a \<and> a < b"
  by (induction gaps arbitrary: lo) (auto, force)

lemma sorted_spans_ordered: "gaps_from lo gaps \<Longrightarrow> sorted_spans gaps = gaps"
proof (induction gaps arbitrary: lo)
  case (Cons g gaps)
  obtain a b where g: "g = (a, b)"
    by (cases g)
  have "[a, b] \<le> (case h of (c, d) \<Rightarrow> [c, d])" if "h \<in> set gaps" for h
    using gaps_from_member [of b gaps "fst h" "snd h"] that Cons.prems g by (cases h) auto
  then show ?case
    using Cons.IH [of b] Cons.prems g by (simp add: sorted_spans_def insort_is_Cons)
qed (simp add: sorted_spans_def)

lemma invert_cuts_ordered: "gaps_from c cuts \<Longrightarrow> gaps_from c (invert_cuts cuts c d)"
proof (induction cuts arbitrary: c)
  case (Cons g cuts)
  obtain a b where g: "g = (a, b)"
    by (cases g)
  have "gaps_from b (invert_cuts cuts b d)"
    using Cons g by simp
  then show ?case
    using Cons.prems g by (auto intro: gaps_from_mono)
qed simp

lemma invert_cuts_apart:
  "gaps_from c cuts \<Longrightarrow> (x, y) \<in> set (invert_cuts cuts c d) \<Longrightarrow> (a, b) \<in> set cuts \<Longrightarrow> y \<le> a \<or> b \<le> x"
proof (induction cuts arbitrary: c)
  case (Cons g cuts)
  obtain p q where g: "g = (p, q)"
    by (cases g)
  have rest: "gaps_from q (invert_cuts cuts q d)" "gaps_from q cuts" "c \<le> p" "p < q"
    using Cons.prems(1) g invert_cuts_ordered by auto
  consider (here) "x = c" "y = p" | (later) "(x, y) \<in> set (invert_cuts cuts q d)"
    using Cons.prems(2) g by (auto split: if_splits)
  then show ?case
  proof cases
    case here
    then show ?thesis
      using Cons.prems(3) g rest gaps_from_member [OF rest(2), of a b] by auto
  next
    case later
    then show ?thesis
      using Cons.prems(3) g rest Cons.IH [OF rest(2) later] gaps_from_member [OF rest(1) later] by auto
  qed
qed (auto split: if_splits)

lemma invert_cuts_covers:
  assumes "gaps_from c cuts" and "c \<le> t" and "t < d"
    and "\<forall>(a, b)\<in>set cuts. t < a - 1 / 1000 \<or> b + 1 / 1000 < t"
    and "cuts = [] \<Longrightarrow> c + 1 / 1000 < t \<or> c + 1 / 1000 < d"
  shows "\<exists>(x, y)\<in>set (invert_cuts cuts c d). x \<le> t \<and> t < y"
  using assms
proof (induction cuts arbitrary: c)
  case Nil
  then show ?case
    by auto
next
  case (Cons g cuts)
  obtain a b where g: "g = (a, b)"
    by (cases g)
  have ab: "t < a - 1 / 1000 \<or> b + 1 / 1000 < t" "c \<le> a" "a < b" "gaps_from b cuts"
    using Cons.prems g by auto
  show ?case
  proof (cases "t < a - 1 / 1000")
    case True
    then show ?thesis
      using Cons.prems(2) g by auto
  next
    case False
    then have "b + 1 / 1000 < t"
      using ab(1) by simp
    then have "\<exists>(x, y)\<in>set (invert_cuts cuts b d). x \<le> t \<and> t < y"
      using Cons.IH [OF ab(4) _ Cons.prems(3)] Cons.prems(4) by auto
    then show ?thesis
      using g by auto
  qed
qed

subsection \<open>Packing\<close>

lemma pack_spans_nil [simp]: "pack_spans sid keep v = [] \<longleftrightarrow> keep = []"
  by (cases keep) (auto split: prod.splits)

lemma pack_spans_chain: "gaps_from lo keep \<Longrightarrow> span_chain v (pack_spans sid keep v)"
proof (induction keep arbitrary: lo v)
  case (Cons k keep)
  then show ?case
    by (cases k) (auto simp: source_segment_def)
qed simp

lemma pack_spans_member:
  "s \<in> set (pack_spans sid keep v) \<Longrightarrow>
     \<exists>a b. (a, b) \<in> set keep \<and> sg_kind s = ''source'' \<and> sg_source_id s = Some sid \<and> sg_source_start s = Some a \<and>
           sg_source_end s = Some b \<and> sg_served_end s - sg_served_start s = b - a \<and> segment_ok s"
proof (induction keep arbitrary: v)
  case (Cons k keep)
  obtain a b where k: "k = (a, b)"
    by (cases k)
  show ?case
  proof (cases "s \<in> set (pack_spans sid keep (v + (b - a)))")
    case True
    then show ?thesis
      using Cons.IH by fastforce
  next
    case False
    then show ?thesis
      using Cons.prems k by (auto simp: source_segment_def segment_ok_def)
  qed
qed simp

lemma pack_spans_hit: "(a, b) \<in> set keep \<Longrightarrow>
  \<exists>s\<in>set (pack_spans sid keep v). sg_source_start s = Some a \<and> sg_source_end s = Some b"
proof (induction keep arbitrary: v)
  case (Cons k keep)
  then show ?case
    by (cases k) (auto simp: source_segment_def)
qed simp

lemma pack_spans_order: "gaps_from lo keep \<Longrightarrow> sorted_wrt source_order (pack_spans sid keep v)"
proof (induction keep arbitrary: lo v)
  case (Cons k keep)
  obtain a b where k: "k = (a, b)"
    by (cases k)
  have rest: "gaps_from b keep"
    using Cons.prems k by simp
  have "b \<le> src_lo s" if "s \<in> set (pack_spans sid keep v')" for s v'
    using pack_spans_member [OF that] gaps_from_member [OF rest] by auto
  then show ?case
    using Cons.IH [OF rest] k by (auto simp: source_order_def source_segment_def)
qed simp

lemma pack_spans_wf:
  assumes "gaps_from 0 keep" and "keep \<noteq> []"
  shows "wf_edl \<lparr>tl_version = v, tl_segments = pack_spans sid keep 0, tl_basis = b\<rparr>"
  using assms pack_spans_chain [OF assms(1)] pack_spans_order [OF assms(1)]
  by (auto simp: wf_edl_def list_all_iff same_length_def dest!: pack_spans_member)

lemma pack_spans_end: "keep \<noteq> [] \<Longrightarrow>
  sg_served_end (last (pack_spans sid keep v)) = v + sum_list (map (\<lambda>(a, b). b - a) keep)"
proof (induction keep arbitrary: v)
  case (Cons k keep)
  then show ?case
    by (cases k; cases "keep = []") (auto simp: source_segment_def)
qed simp

subsection \<open>The cut\<close>

definition cuts_of :: "rat \<Rightarrow> (rat \<times> rat) list \<Rightarrow> rat \<Rightarrow> rat \<Rightarrow> (rat \<times> rat) list" where
  "cuts_of d silences lead_trail_min mid_min = filter (qualifying_cut d lead_trail_min mid_min) silences"

lemma build_silence_shape:
  assumes "build_silence_timeline sid d silences lead_trail mid = Some edl" and "gaps_from 0 silences"
  obtains keep where "keep = invert_cuts (cuts_of d silences lead_trail mid) 0 d" and "keep \<noteq> []" and "gaps_from 0 keep"
    and "gaps_from 0 (cuts_of d silences lead_trail mid)" and "cuts_of d silences lead_trail mid \<noteq> []"
    and "edl = \<lparr>tl_version = ''identity'', tl_segments = pack_spans sid keep 0, tl_basis = ''served''\<rparr>"
proof -
  have cuts: "gaps_from 0 (cuts_of d silences lead_trail mid)"
    unfolding cuts_of_def using assms(2) by (rule gaps_from_filter)
  then show thesis
    using assms(1) that invert_cuts_ordered [OF cuts, of d] sorted_spans_ordered [OF cuts]
    by (auto simp: build_silence_timeline_def cuts_of_def Let_def split: if_splits)
qed

text \<open>
  Cutting ordered silences out of a source gives a well-formed timeline: it starts at zero, its spans abut and
  take the source in order, each as long as what it plays, and the last one ends at the sum of what is kept.
\<close>

theorem silence_timeline_well_formed:
  assumes "gaps_from 0 silences" and "build_silence_timeline sid d silences lead_trail mid = Some edl"
  shows "wf_edl edl \<and> (\<forall>s\<in>set (tl_segments edl). sg_source_id s = Some sid) \<and>
         sg_served_end (last (tl_segments edl)) =
           sum_list (map (\<lambda>(a, b). b - a) (invert_cuts (cuts_of d silences lead_trail mid) 0 d))"
proof -
  obtain keep where k: "keep = invert_cuts (cuts_of d silences lead_trail mid) 0 d" "keep \<noteq> []" "gaps_from 0 keep"
    "edl = \<lparr>tl_version = ''identity'', tl_segments = pack_spans sid keep 0, tl_basis = ''served''\<rparr>"
    using build_silence_shape [OF assms(2,1)] by blast
  then show ?thesis
    using pack_spans_wf [OF k(3,2)] pack_spans_end [OF k(2)] by (auto dest!: pack_spans_member)
qed

lemma silence_source_segs:
  assumes "gaps_from 0 silences" and "build_silence_timeline sid d silences lead_trail mid = Some edl"
  shows "source_segs edl (Some sid) = pack_spans sid (invert_cuts (cuts_of d silences lead_trail mid) 0 d) 0"
proof -
  obtain keep where k: "keep = invert_cuts (cuts_of d silences lead_trail mid) 0 d"
    "edl = \<lparr>tl_version = ''identity'', tl_segments = pack_spans sid keep 0, tl_basis = ''served''\<rparr>"
    using build_silence_shape [OF assms(2,1)] by blast
  then show ?thesis
    by (auto simp: source_segs_def filter_id_conv dest!: pack_spans_member)
qed

theorem silence_timeline_well_formed_witness:
  "wf_edl \<lparr>tl_version = ''identity'', tl_segments = pack_spans ''s0'' [(5, 100), (130, 200)] 0, tl_basis = ''served''\<rparr> \<and>
   sg_served_end (last (pack_spans ''s0'' [(5, 100), (130, 200)] 0)) = 165"
proof -
  have cuts: "cuts_of 200 [(0, 5), (50, 55), (100, 130)] 1 10 = [(0, 5), (100, 130)]"
    by (simp add: cuts_of_def qualifying_cut_def)
  have "sorted_spans [(0, 5), (100, 130)] = [(0, 5), (100, 130 :: rat)]"
    by (rule sorted_spans_ordered [of 0]) simp
  then have "build_silence_timeline ''s0'' 200 [(0, 5), (50, 55), (100, 130)] 1 10 =
      Some \<lparr>tl_version = ''identity'', tl_segments = pack_spans ''s0'' [(5, 100), (130, 200)] 0, tl_basis = ''served''\<rparr>"
    using cuts by (simp add: build_silence_timeline_def cuts_of_def)
  from silence_timeline_well_formed [OF _ this] cuts show ?thesis
    by simp
qed

text \<open>
  C35: No speech is lost and no removed silence is kept: an instant of the source inside a removed silence has no
  served time, and every other instant that is more than a millisecond from a removed silence has one.
\<close>

theorem only_silence_is_cut:
  assumes "gaps_from 0 silences" and "build_silence_timeline sid d silences lead_trail mid = Some edl"
    and "0 \<le> t" and "t < d"
  shows "((\<exists>(a, b)\<in>set (cuts_of d silences lead_trail mid). a < t \<and> t < b) \<longrightarrow>
            source_to_served edl (Some sid) t = Inr None) \<and>
         ((\<forall>(a, b)\<in>set (cuts_of d silences lead_trail mid). t < a - 1 / 1000 \<or> b + 1 / 1000 < t) \<longrightarrow>
            (\<exists>u. source_to_served edl (Some sid) t = Inr (Some u) \<and>
                 0 \<le> u \<and> u \<le> sg_served_end (last (tl_segments edl))))"
proof (intro conjI impI)
  let ?cuts = "cuts_of d silences lead_trail mid"
  obtain keep where k: "keep = invert_cuts ?cuts 0 d" "gaps_from 0 ?cuts" "?cuts \<noteq> []"
    "edl = \<lparr>tl_version = ''identity'', tl_segments = pack_spans sid keep 0, tl_basis = ''served''\<rparr>"
    using build_silence_shape [OF assms(2,1)] by blast
  have segs: "source_segs edl (Some sid) = pack_spans sid keep 0"
    using silence_source_segs [OF assms(1,2)] k(1) by simp
  have wf: "wf_edl edl"
    using silence_timeline_well_formed [OF assms(1,2)] by blast
  show "source_to_served edl (Some sid) t = Inr None"
    if cut: "\<exists>(a, b)\<in>set ?cuts. a < t \<and> t < b"
  proof (rule ccontr)
    assume "source_to_served edl (Some sid) t \<noteq> Inr None"
    then obtain u where "source_to_served edl (Some sid) t = Inr (Some u)"
      using source_to_served_find [OF wf, of "Some sid" t] by auto
    then obtain s where s: "s \<in> set (pack_spans sid keep 0)" "src_lo s \<le> t" "t \<le> src_hi s"
      using source_hit [OF wf] segs by metis
    then obtain x y where "(x, y) \<in> set keep" "x \<le> t" "t \<le> y"
      using pack_spans_member [OF s(1)] by auto
    then show False
      using cut invert_cuts_apart [OF k(2), of x y d] k(1) by fastforce
  qed
  show "\<exists>u. source_to_served edl (Some sid) t = Inr (Some u) \<and> 0 \<le> u \<and> u \<le> sg_served_end (last (tl_segments edl))"
    if away: "\<forall>(a, b)\<in>set ?cuts. t < a - 1 / 1000 \<or> b + 1 / 1000 < t"
  proof -
    obtain x y where xy: "(x, y) \<in> set keep" "x \<le> t" "t < y"
      using invert_cuts_covers [OF k(2) assms(3,4) away] k(1,3) by auto
    then obtain s where s: "s \<in> set (source_segs edl (Some sid))" "src_lo s = x" "src_hi s = y"
      using pack_spans_hit [of x y keep sid 0] segs by auto
    have "span_find src_lo src_hi (source_segs edl (Some sid)) t = Some s"
      by (rule span_find_hit [OF wf_source [OF wf] s(1)]) (use s xy in auto)
    then have "source_to_served edl (Some sid) t = Inr (Some (sg_served_start s + (t - src_lo s)))"
      using source_to_served_find [OF wf, of "Some sid" t] by simp
    moreover note source_seg_facts [OF wf s(1)]
    ultimately show ?thesis
      using s xy by auto
  qed
qed

theorem only_silence_is_cut_witness:
  "\<exists>edl. build_silence_timeline ''s0'' 200 [(0, 5), (50, 55), (100, 130)] 1 10 = Some edl \<and>
     source_to_served edl (Some ''s0'') 110 = Inr None \<and> (\<exists>u. source_to_served edl (Some ''s0'') 52 = Inr (Some u))"
proof -
  have cuts: "cuts_of 200 [(0, 5), (50, 55), (100, 130)] 1 10 = [(0, 5), (100, 130)]"
    by (simp add: cuts_of_def qualifying_cut_def)
  obtain edl where edl: "build_silence_timeline ''s0'' 200 [(0, 5), (50, 55), (100, 130)] 1 10 = Some edl"
    using cuts sorted_spans_ordered [of 0 "[(0, 5), (100, 130)]"] by (simp add: build_silence_timeline_def cuts_of_def)
  show ?thesis
    using only_silence_is_cut [OF _ edl, of 110] only_silence_is_cut [OF _ edl, of 52] cuts edl by auto
qed

end
