(* ===== verification/Stage_Properties.thy ===== *)
theory Stage_Properties
  imports Silence_Properties Availability_Properties
begin

section \<open>What the timeline and remap stages guarantee\<close>

text \<open>
  The plan of a multi-segment meeting is well formed and its chapters start where its segments do; the stage
  plans an episode once and the remap moves its chapters once; a decode that fails decides nothing. The last
  theorem shows that a fully silent source is observed only once.
\<close>

definition blank_episode :: planned_episode where
  "blank_episode =
     \<lparr>pe_uid = ''u1'', pe_media_kind = ''hls'', pe_audio_url = None, pe_video_url = ''https://v/1'',
      pe_duration = None, pe_source_duration_seconds = None, pe_sources = [], pe_timeline = None,
      pe_chapters = [], pe_source_chapters = [], pe_chapters_basis = ''source:s0'', pe_canonical_video = None,
      pe_availability = None, pe_defer_reason = '''', pe_attempts = 0, pe_last_attempt = None, pe_error = None,
      pe_error_spec_hash = None, pe_integrity = JNull\<rparr>"

subsection \<open>Multi-segment meetings\<close>

definition offset_of :: "rat \<Rightarrow> rat list \<Rightarrow> nat \<Rightarrow> rat" where
  "offset_of base durs i = base + sum_list (take i durs)"

lemma offset_of_0 [simp]: "offset_of base durs 0 = base"
  by (simp add: offset_of_def)

lemma offset_of_Suc [simp]: "offset_of base (d # durs) (Suc i) = offset_of (base + d) durs i"
  by (simp add: offset_of_def)

lemma scan_probes_length: "scan_probes probe i objs = AllProbed durs \<Longrightarrow> length durs = length objs"
  by (induction objs arbitrary: i durs) (auto split: probed.splits option.splits probe_scan.splits)

lemma scan_probes_positive:
  assumes "scan_probes probe i objs = AllProbed durs" and "\<And>url d. probe url = Probed (Some d) \<Longrightarrow> 0 < d"
  shows "\<forall>d\<in>set durs. 0 < d"
  using assms(1)
  by (induction objs arbitrary: i durs) (auto split: probed.splits option.splits probe_scan.splits dest: assms(2))

lemma concat_sources_length [simp]: "length (concat_sources video i objs durs) = min (length objs) (length durs)"
  by (induction video i objs durs rule: concat_sources.induct) auto

lemma concat_sources_nth: "j < length objs \<Longrightarrow> j < length durs \<Longrightarrow>
  concat_sources video i objs durs ! j = concat_source video (i + j) (fst (objs ! j)) (durs ! j)"
proof (induction video i objs durs arbitrary: j rule: concat_sources.induct)
  case (1 video i obj objs dur durs)
  then show ?case
    by (cases j) auto
qed auto

lemma concat_segments_length [simp]: "length (concat_segments off srcs durs) = min (length srcs) (length durs)"
  by (induction off srcs durs rule: concat_segments.induct) auto

lemma concat_segments_nth: "j < length srcs \<Longrightarrow> j < length durs \<Longrightarrow>
  concat_segments off srcs durs ! j =
    source_segment (offset_of off durs j) (offset_of off durs j + durs ! j) (sm_id (srcs ! j)) 0 (Some (durs ! j))"
proof (induction off srcs durs arbitrary: j rule: concat_segments.induct)
  case (1 offset src srcs dur durs)
  then show ?case
    by (cases j) auto
qed auto

lemma concat_segments_chain:
  "\<forall>d\<in>set durs. 0 < d \<Longrightarrow> span_chain off (concat_segments off srcs durs)"
  by (induction off srcs durs rule: concat_segments.induct) (auto simp: source_segment_def)

lemma concat_chapters_origin: "ch \<in> set (concat_chapters off objs durs) \<Longrightarrow>
  \<exists>j<min (length objs) (length durs). \<exists>title. snd (objs ! j) = Some title \<and>
     ch = [(''start'', JFloat (offset_of off durs j)), (''end'', JFloat (offset_of off durs j + durs ! j)),
           (''title'', JStr title)]"
proof (induction off objs durs rule: concat_chapters.induct)
  case (1 offset obj objs dur durs)
  show ?case
  proof (cases "ch \<in> set (concat_chapters (offset + dur) objs durs)")
    case True
    then obtain j title where "j < min (length objs) (length durs)" "snd (objs ! j) = Some title"
      "ch = [(''start'', JFloat (offset_of (offset + dur) durs j)),
             (''end'', JFloat (offset_of (offset + dur) durs j + durs ! j)), (''title'', JStr title)]"
      using 1 by blast
    then show ?thesis
      by (intro exI [of _ "Suc j"]) auto
  next
    case False
    then show ?thesis
      using 1(2) by (intro exI [of _ 0]) (auto split: option.splits if_splits)
  qed
qed auto

lemma source_name_inj: "source_name i = source_name j \<Longrightarrow> i = j"
  by (simp add: source_name_def dec_nat_inj)

lemma concat_wf:
  assumes "\<forall>d\<in>set durs. 0 < d" and "length durs = length objs" and "objs \<noteq> []"
  shows "wf_edl \<lparr>tl_version = v, tl_segments = concat_segments 0 (concat_sources video 0 objs durs) durs, tl_basis = b\<rparr>"
proof -
  let ?segs = "concat_segments 0 (concat_sources video 0 objs durs) durs"
  have nth: "?segs ! j = source_segment (offset_of 0 durs j) (offset_of 0 durs j + durs ! j) (source_name j) 0 (Some (durs ! j))"
    if "j < length objs" for j
    using that assms(2) by (simp add: concat_segments_nth concat_sources_nth concat_source_def)
  have len: "length ?segs = length objs"
    using assms(2) by simp
  have "list_all same_length ?segs"
    using len by (auto simp: list_all_length nth same_length_def source_segment_def segment_ok_def)
  moreover have "sorted_wrt source_order ?segs"
    using len by (auto simp: sorted_wrt_iff_nth_less nth source_order_def source_segment_def dest: source_name_inj)
  moreover have "?segs \<noteq> []"
    using len assms(3) by (metis length_0_conv)
  ultimately show ?thesis
    using concat_segments_chain [OF assms(1)] by (simp add: wf_edl_def)
qed

text \<open>
  A multi-segment meeting: when every probed duration is positive, the planned timeline is well formed, plays
  every segment once and in full, and each chapter the planner wrote starts exactly where its segment does and
  ends where that segment ends.
\<close>

theorem concat_plan_sound:
  assumes "concat_plan clock w provider ep = (ep', Inr (Some edl))"
    and "\<And>url d. cw_probe w url = Probed (Some d) \<Longrightarrow> 0 < d"
  shows "wf_edl edl \<and> 2 \<le> length (pe_sources ep') \<and> length (tl_segments edl) = length (pe_sources ep') \<and>
         (pe_chapters ep' = pe_chapters ep \<or>
          (\<forall>ch\<in>set (pe_chapters ep'). \<exists>j<length (tl_segments edl).
             served_to_source edl (sg_served_start (tl_segments edl ! j)) = Some (source_name j, 0) \<and>
             map_of ch ''start'' = Some (JFloat (sg_served_start (tl_segments edl ! j))) \<and>
             map_of ch ''end'' = Some (JFloat (sg_served_end (tl_segments edl ! j)))))"
proof -
  obtain objs durs where "cw_segments w = Inr (Some objs)"
    and r: "1 < length objs" "scan_probes (cw_probe w) 0 objs = AllProbed durs"
    "edl = \<lparr>tl_version = '''', tl_segments = concat_segments 0 (concat_sources (pe_canonical_video ep) 0 objs durs) durs,
            tl_basis = ''served''\<rparr>"
    "pe_sources ep' = concat_sources (pe_canonical_video ep) 0 objs durs"
    "pe_chapters ep' = pe_chapters ep \<or> pe_chapters ep' = concat_chapters 0 objs durs"
    using assms(1) by (auto simp: concat_plan_def Let_def split: if_splits sum.splits option.splits probe_scan.splits)
  have len: "length durs = length objs"
    using r(2) by (rule scan_probes_length)
  have pos: "\<forall>d\<in>set durs. 0 < d"
    using r(2) assms(2) by (rule scan_probes_positive)
  have wf: "wf_edl edl"
    unfolding r(3) by (rule concat_wf) (use pos len r(1) in auto)
  have nth: "tl_segments edl ! j =
      source_segment (offset_of 0 durs j) (offset_of 0 durs j + durs ! j) (source_name j) 0 (Some (durs ! j))"
    if "j < length objs" for j
    using that len by (simp add: r(3) concat_segments_nth concat_sources_nth concat_source_def)
  have slen: "length (tl_segments edl) = length objs"
    using len by (simp add: r(3))
  have start: "served_to_source edl (sg_served_start (tl_segments edl ! j)) = Some (source_name j, 0)"
    if j: "j < length objs" for j
  proof -
    have s: "tl_segments edl ! j \<in> set (tl_segments edl)"
      using j slen by simp
    have "span_find sg_served_start sg_served_end (tl_segments edl) (sg_served_start (tl_segments edl ! j)) =
        Some (tl_segments edl ! j)"
      by (rule span_find_hit [OF wf_served [OF wf] s])
        (use span_len [OF wf_served [OF wf] s] in auto)
    then show ?thesis
      unfolding served_to_source_def served_scan_find using nth [OF j] by (simp add: source_segment_def)
  qed
  have "\<exists>j<length (tl_segments edl).
      served_to_source edl (sg_served_start (tl_segments edl ! j)) = Some (source_name j, 0) \<and>
      map_of ch ''start'' = Some (JFloat (sg_served_start (tl_segments edl ! j))) \<and>
      map_of ch ''end'' = Some (JFloat (sg_served_end (tl_segments edl ! j)))"
    if "ch \<in> set (concat_chapters 0 objs durs)" for ch
    using concat_chapters_origin [OF that] start nth slen len by (auto simp: source_segment_def)
  then show ?thesis
    using wf r(1,4,5) slen len by auto
qed

theorem concat_plan_sound_witness:
  "\<exists>ep' edl. concat_plan 0
      \<lparr>cw_ffmpeg_installed = True, cw_segments = Inr (Some [(''a'', Some ''Roll call''), (''b'', None)]),
       cw_probe = (\<lambda>url. Probed (Some 60))\<rparr> ''swagit'' blank_episode = (ep', Inr (Some edl)) \<and>
     wf_edl edl \<and> 2 \<le> length (pe_sources ep')"
proof -
  let ?w = "\<lparr>cw_ffmpeg_installed = True, cw_segments = Inr (Some [(''a'', Some ''Roll call''), (''b'', None)]),
       cw_probe = (\<lambda>url. Probed (Some 60))\<rparr>"
  obtain ep' edl where r: "concat_plan 0 ?w ''swagit'' blank_episode = (ep', Inr (Some edl))"
    by (simp add: concat_plan_def blank_episode_def Let_def)
  show ?thesis
    using concat_plan_sound [OF r] r by auto
qed

subsection \<open>What a plan leaves behind\<close>

definition pipeline ::
  "instant \<Rightarrow> concat_world \<Rightarrow> silence_world \<Rightarrow> silence_city \<Rightarrow> silence_ctx \<Rightarrow> planner list" where
  "pipeline clock cw sw city ctx = [concat_planner clock cw city, silence_planner clock sw city ctx]"

lemma pipeline_signature: "stage_signature (pipeline t cw sw city ctx) = stage_signature (pipeline t' cw' sw' city' ctx')"
  by (simp add: stage_signature_def pipeline_def concat_planner_def silence_planner_def)

lemma pipeline_decoded: "requires_decoded_source_basis (pipeline t cw sw city ctx)"
  by (simp add: requires_decoded_source_basis_def pipeline_def silence_planner_def)

lemma stamp_keeps:
  assumes "stamp_availability clock w kind profile reason ep = (ep', r)"
  shows "\<exists>v. ep' = ep\<lparr>pe_availability := v\<rparr>"
proof -
  have "ep' = ep \<or> (\<exists>v. ep' = ep\<lparr>pe_availability := v\<rparr>)"
    using assms by (auto simp: stamp_availability_def Let_def split: sum.splits option.splits)
  moreover have "ep = ep\<lparr>pe_availability := pe_availability ep\<rparr>"
    by simp
  ultimately show ?thesis
    by metis
qed

definition stamped :: "planned_episode \<Rightarrow> planned_episode \<Rightarrow> bool" where
  "stamped ep ep1 \<longleftrightarrow> (\<exists>v basis. ep1 = ep\<lparr>pe_availability := v, pe_chapters_basis := basis\<rparr>)"

lemma stamp_stamped:
  assumes "stamp_availability clock w kind profile reason ep = (ep1, r)"
  shows "stamped ep ep1" and "stamped ep (ep1\<lparr>pe_chapters_basis := basis\<rparr>)"
proof -
  obtain v where v: "ep1 = ep\<lparr>pe_availability := v\<rparr>"
    using stamp_keeps [OF assms] by blast
  then have "ep1 = ep\<lparr>pe_availability := v, pe_chapters_basis := pe_chapters_basis ep\<rparr>"
    by simp
  then show "stamped ep ep1"
    unfolding stamped_def by blast
  show "stamped ep (ep1\<lparr>pe_chapters_basis := basis\<rparr>)"
    unfolding stamped_def v by blast
qed

definition decoded_plan :: "planned_episode \<Rightarrow> timeline \<Rightarrow> rat \<Rightarrow> bool" where
  "decoded_plan ep edl d \<longleftrightarrow>
     (\<exists>src. pe_sources ep = [src] \<and> sm_duration_basis src = Some ''decoded'' \<and> sm_duration src = Some d \<and>
        (\<forall>s\<in>set (tl_segments edl). sg_source_id s = Some (sm_id src)))"

lemma planned_source_facts:
  "sm_duration_basis (planned_source city ep d) = Some ''decoded''" "sm_duration (planned_source city ep d) = Some d"
  by (simp_all add: planned_source_def split: list.split)

lemma plan_cut_result:
  assumes "plan_cut clock city ctx current silences d ep = (ep', Inr (Some edl))"
  shows "decoded_plan ep' edl d \<and> pe_defer_reason ep' = pe_defer_reason ep \<and> pe_integrity ep' = pe_integrity ep \<and>
         (\<exists>src. pe_sources ep' = [src] \<and>
            (edl = identity_timeline src d \<or>
             build_silence_timeline (sm_id src) d silences (sx_lead_trail_min_s ctx) (sx_mid_min_s ctx) = Some edl \<and>
             \<not> is_degenerate_served_duration edl d (sx_min_served_seconds ctx) (sx_min_served_fraction ctx)))"
proof (cases "build_silence_timeline (sm_id (planned_source city ep d)) d silences (sx_lead_trail_min_s ctx) (sx_mid_min_s ctx)")
  case None
  then show ?thesis
    using assms planned_source_facts [of city ep d]
    by (auto simp: plan_cut_def Let_def decoded_plan_def identity_timeline_def source_segment_def)
next
  case (Some built)
  then have "edl = built" "ep' = ep\<lparr>pe_sources := [planned_source city ep d]\<rparr>"
    "\<not> is_degenerate_served_duration built d (sx_min_served_seconds ctx) (sx_min_served_fraction ctx)"
    using assms by (auto simp: plan_cut_def Let_def split: if_splits)
  moreover have "\<forall>s\<in>set (tl_segments built). sg_source_id s = Some (sm_id (planned_source city ep d))"
    using Some by (auto simp: build_silence_timeline_def Let_def split: if_splits dest!: pack_spans_member)
  ultimately show ?thesis
    using planned_source_facts [of city ep d] Some by (auto simp: decoded_plan_def)
qed

text \<open>The planner answers with a timeline only from a successful decode, and only through the cut.\<close>

lemma plan_decoded_result:
  assumes "plan_decoded clock w city ctx current ep = (ep', Inr (Some edl))"
  obtains silences cd d ep1 where "detect_silences (sw_run w) = (silences, cd, Some d)" and "stamped ep ep1"
    and "plan_cut clock city ctx current silences d ep1 = (ep', Inr (Some edl))"
proof -
  obtain silences cd dd where det: "detect_silences (sw_run w) = (silences, cd, dd)"
    by (cases "detect_silences (sw_run w)") auto
  show thesis
  proof (cases dd)
    case None
    then show ?thesis
      using assms det by (simp add: plan_decoded_def Let_def split: prod.splits sum.splits)
  next
    case (Some d)
    note that' = that [OF det [unfolded Some]]
    show ?thesis
      using assms det Some
      by (simp add: plan_decoded_def Let_def split: prod.splits sum.splits if_splits option.splits)
        (auto intro: that' stamp_stamped)
  qed
qed

lemma silence_plan_result:
  assumes "silence_plan clock w city ctx current ep = (ep', Inr (Some edl))"
  obtains silences cd d ep1 where "detect_silences (sw_run w) = (silences, cd, Some d)" and "stamped ep ep1"
    and "plan_cut clock city ctx current silences d ep1 = (ep', Inr (Some edl))" and "length (pe_sources ep) \<le> 1"
proof -
  have "plan_decoded clock w city ctx current ep = (ep', Inr (Some edl))" "length (pe_sources ep) \<le> 1"
    using assms by (auto simp: silence_plan_def split: if_splits resolved.splits fetched.splits prod.splits sum.splits)
  then show thesis
    using plan_decoded_result that by metis
qed

lemma silence_plan_many: "1 < length (pe_sources ep) \<Longrightarrow> silence_plan clock w city ctx current ep = (ep, Inr None)"
  by (simp add: silence_plan_def)

lemma concat_plan_result:
  assumes "concat_plan clock w provider ep = (ep', Inr (Some edl))"
  obtains objs durs where "cw_segments w = Inr (Some objs)" and "scan_probes (cw_probe w) 0 objs = AllProbed durs"
    and "1 < length objs" and "length durs = length objs"
    and "pe_sources ep' = concat_sources (pe_canonical_video ep) 0 objs durs"
    and "tl_segments edl = concat_segments 0 (concat_sources (pe_canonical_video ep) 0 objs durs) durs"
    and "pe_defer_reason ep' = pe_defer_reason ep" and "pe_integrity ep' = pe_integrity ep"
  using assms
  by (auto simp: concat_plan_def Let_def dest: scan_probes_length intro: that
      split: if_splits sum.splits option.splits probe_scan.splits)

lemma decoded_plan_healthy:
  assumes "decoded_plan ep edl d" and "pe_timeline ep = Some edl'" and "tl_segments edl' = tl_segments edl"
  shows "has_healthy_decoded_source_basis ep"
proof -
  obtain src where src: "pe_sources ep = [src]" "sm_duration_basis src = Some ''decoded''"
    "\<forall>s\<in>set (tl_segments edl). sg_source_id s = Some (sm_id src)"
    using assms(1) by (auto simp: decoded_plan_def)
  have "sid = sm_id src" if "sid \<in> set (timeline_source_ids edl')" for sid
    using that src(3) assms(3) by (auto simp: timeline_source_ids_def)
  then show ?thesis
    using assms(2) src(1,2)
    by (auto simp: has_healthy_decoded_source_basis_def list_all_iff source_by_id_def has_healthy_source_basis_def)
qed

lemma source_by_id_member: "sid \<in> sm_id ` set sources \<Longrightarrow> \<exists>src\<in>set sources. source_by_id sources sid = Some src"
proof -
  assume "sid \<in> sm_id ` set sources"
  then have "map_of (rev (map (\<lambda>s. (sm_id s, s)) sources)) sid \<noteq> None"
    unfolding map_of_eq_None_iff by (simp add: image_image)
  then obtain src where "map_of (rev (map (\<lambda>s. (sm_id s, s)) sources)) sid = Some src"
    by auto
  then show ?thesis
    using map_of_SomeD by (force simp: source_by_id_def)
qed

lemma concat_plan_healthy:
  assumes "1 < length objs" and "length durs = length objs" and "pe_sources ep = concat_sources video 0 objs durs"
    and "pe_timeline ep = Some edl" and "tl_segments edl = concat_segments 0 (concat_sources video 0 objs durs) durs"
  shows "has_healthy_decoded_source_basis ep"
proof -
  have basis: "sm_duration_basis src = Some ''stream-sample''" if "src \<in> set (concat_sources video 0 objs durs)" for src
    using that by (auto simp: in_set_conv_nth concat_sources_nth concat_source_def)
  have many: "1 < length (pe_sources ep)"
    using assms(1,2,3) by simp
  have "sid \<in> sm_id ` set (pe_sources ep)" if "sid \<in> set (timeline_source_ids edl)" for sid
  proof -
    obtain s where s: "s \<in> set (tl_segments edl)" "sid = the (sg_source_id s)"
      using \<open>sid \<in> set (timeline_source_ids edl)\<close> by (auto simp: timeline_source_ids_def)
    then obtain j where j: "j < length objs" "s = tl_segments edl ! j"
      using assms(2,5) by (auto simp: in_set_conv_nth)
    then have "sid = sm_id (concat_sources video 0 objs durs ! j)"
      using s(2) assms(2,5) by (simp add: concat_segments_nth source_segment_def)
    moreover have "concat_sources video 0 objs durs ! j \<in> set (pe_sources ep)"
      using j(1) assms(2,3) by simp
    ultimately show ?thesis
      by blast
  qed
  moreover have "has_healthy_source_basis (sm_duration_basis src) (1 < length (pe_sources ep))"
    if "src \<in> set (pe_sources ep)" for src
    using basis that assms(3) many by (simp add: has_healthy_source_basis_def py_startswith_def)
  ultimately have "case source_by_id (pe_sources ep) sid of None \<Rightarrow> False
      | Some src \<Rightarrow> has_healthy_source_basis (sm_duration_basis src) (1 < length (pe_sources ep))"
    if "sid \<in> set (timeline_source_ids edl)" for sid
    using source_by_id_member [of sid "pe_sources ep"] that by auto
  then show ?thesis
    using assms(4) by (simp add: has_healthy_decoded_source_basis_def list_all_iff)
qed

subsection \<open>An episode is planned once\<close>

definition same_segments :: "timeline option \<Rightarrow> timeline \<Rightarrow> bool" where
  "same_segments t edl \<longleftrightarrow> (case t of None \<Rightarrow> False | Some e \<Rightarrow> tl_segments e = tl_segments edl)"

lemma pipeline_run_healthy:
  assumes "run_planners (pipeline t cw sw city ctx) (pe_timeline ep) False ep = (ep', Inr (Some (Some edl, True)))"
    and "pe_defer_reason ep = ''''"
  shows "pe_defer_reason ep' = '''' \<and> has_healthy_decoded_source_basis (ep'\<lparr>pe_timeline := Some (edl\<lparr>tl_version := v\<rparr>)\<rparr>)"
proof -
  obtain ep1 r1 where c: "concat_plan t cw (sy_provider city) ep = (ep1, Inr r1)" "pe_defer_reason ep1 = ''''"
    using assms(1) by (auto simp: pipeline_def concat_planner_def split: prod.splits sum.splits if_splits)
  let ?cur = "case r1 of None \<Rightarrow> pe_timeline ep | Some e \<Rightarrow> Some e"
  obtain r2 where s: "silence_plan t sw city ctx ?cur ep1 = (ep', Inr r2)" "pe_defer_reason ep' = ''''"
    and out: "(case r2 of None \<Rightarrow> (?cur, r1 \<noteq> None) | Some e \<Rightarrow> (Some e, True)) = (Some edl, True)"
    using assms(1) c
    by (auto simp: pipeline_def concat_planner_def silence_planner_def split: prod.splits sum.splits if_splits option.splits)
  show ?thesis
  proof (cases r2)
    case None
    then obtain e where r1: "r1 = Some e" "e = edl"
      using out by (auto split: option.splits)
    then obtain objs durs where o: "1 < length objs" "length durs = length objs"
      "pe_sources ep1 = concat_sources (pe_canonical_video ep) 0 objs durs"
      "tl_segments edl = concat_segments 0 (concat_sources (pe_canonical_video ep) 0 objs durs) durs"
      using c(1) by (auto elim: concat_plan_result)
    then have "ep' = ep1"
      using s(1) silence_plan_many [of ep1] by simp
    then show ?thesis
      using s(2) o by (auto intro!: concat_plan_healthy)
  next
    case (Some e)
    then have "e = edl"
      using out by simp
    with Some s(1) obtain silences cd d ep2 where "plan_cut t city ctx ?cur silences d ep2 = (ep', Inr (Some edl))"
      by (auto elim: silence_plan_result)
    then have "decoded_plan ep' edl d"
      using plan_cut_result by blast
    then have "decoded_plan (ep'\<lparr>pe_timeline := Some (edl\<lparr>tl_version := v\<rparr>)\<rparr>) edl d"
      by (simp add: decoded_plan_def)
    then show ?thesis
      using s(2) by (auto intro: decoded_plan_healthy)
  qed
qed

lemma planned_is_reused:
  assumes "plan_one from_iso now stopping (pipeline t cw sw city ctx) ep = (ep', StageRan)"
    and "\<not> needs_timeline_audio_repair ep' REPAIR_TIMELINE_REPLAN"
  shows "(\<exists>edl. pe_timeline ep' = Some edl \<and> tl_version edl = stage_signature (pipeline t cw sw city ctx)) \<and>
         plan_one from_iso' now' stopping' (pipeline t' cw' sw' city' ctx') ep' = (ep', StageReused)"
proof -
  let ?ps = "pipeline t cw sw city ctx" and ?ep = "ep\<lparr>pe_defer_reason := ''''\<rparr>"
  let ?sig = "stage_signature ?ps"
  obtain ep1 edl where r: "run_planners ?ps (pe_timeline ?ep) False ?ep = (ep1, Inr (Some (Some edl, True)))"
    "ep' = ep1\<lparr>pe_timeline := Some (edl\<lparr>tl_version := ?sig\<rparr>)\<rparr>"
    using assms(1)
    by (auto simp: plan_one_def Let_def split: if_splits prod.splits sum.splits option.splits bool.splits)
  have h: "pe_defer_reason ep1 = ''''" "has_healthy_decoded_source_basis ep'"
    using pipeline_run_healthy [OF r(1)] r(2) by auto
  have tl: "pe_timeline ep' = Some (edl\<lparr>tl_version := stage_signature (pipeline t' cw' sw' city' ctx')\<rparr>)"
    using r(2) pipeline_signature by simp
  have "ep'\<lparr>pe_defer_reason := ''''\<rparr> = ep'"
    using h(1) r(2) by (cases ep1) simp
  then have "plan_one from_iso' now' stopping' (pipeline t' cw' sw' city' ctx') ep' = (ep', StageReused)"
    using tl assms(2) h(2) by (simp add: plan_one_def Let_def)
  then show ?thesis
    using r(2) by simp
qed

text \<open>
  Plan once: an episode the stage has planned is left alone by every later run of the same planners, whatever
  the media then look like and whatever the clock says, as long as no repair is flagged.
\<close>

theorem planned_once:
  assumes "plan_one from_iso now stopping (pipeline t cw sw city ctx) ep = (ep', StageRan)"
    and "\<not> needs_timeline_audio_repair ep' REPAIR_TIMELINE_REPLAN"
  shows "(\<exists>edl. pe_timeline ep' = Some edl \<and> tl_version edl = stage_signature (pipeline t cw sw city ctx)) \<and>
         plan_one from_iso' now' stopping' (pipeline t' cw' sw' city' ctx') ep' = (ep', StageReused)"
  using assms by (rule planned_is_reused)

subsection \<open>A fully silent source\<close>

definition reaches_decode :: "silence_world \<Rightarrow> silence_city \<Rightarrow> silence_ctx \<Rightarrow> planned_episode \<Rightarrow> bool" where
  "reaches_decode w city ctx ep \<longleftrightarrow>
     py_truthy (dget (sy_extra city) ''trim_silence'' (sx_trim_silence ctx)) \<and>
     (pe_media_kind ep = ''hls'' \<or> sy_extract_audio city) \<and> length (pe_sources ep) \<le> 1 \<and> sw_ffmpeg_installed w \<and>
     (\<exists>url. sw_resolved w = ResolvedUrl url) \<and> sw_source_cache w \<and> pe_uid ep \<noteq> '''' \<and>
     sw_fetched w = FetchedFile \<and> sw_gate w \<noteq> Some False"

lemma silence_plan_reaches: "reaches_decode w city ctx ep \<Longrightarrow>
  silence_plan clock w city ctx current ep = plan_decoded clock w city ctx current ep"
  by (auto simp: reaches_decode_def silence_plan_def)

lemma all_silent_content: "0 < d \<Longrightarrow> content_seconds [(0, d)] d = 0"
  by (simp add: content_seconds_def clamped_spans_def clamp_to_def)

lemma all_silent_uncut: "0 < d \<Longrightarrow> build_silence_timeline sid d [(0, d)] lead_trail mid = None"
  by (auto simp: build_silence_timeline_def Let_def sorted_spans_def qualifying_cut_def)

lemma first_silence_suspects:
  assumes "pe_availability ep = None"
  shows "\<exists>v. stamp_availability clock w SILENT profile reason ep = (ep\<lparr>pe_availability := Some v\<rparr>, Inr (Some v)) \<and>
             ma_state v = SUSPECTED_EMPTY \<and> ma_operator_override v = None"
  using assms
  by (simp add: stamp_availability_def classify_def kind_simps Let_def build_verdict_def CONFIRM_THRESHOLD_def fresh_source_def)

lemma all_silent_plan:
  assumes "reaches_decode w city ctx ep" and "detect_silences (sw_run w) = ([(0, d)], cd, Some d)" and "0 < d"
    and "0 < sx_min_served_seconds ctx" and "pe_availability ep = None"
  obtains v where "silence_plan clock w city ctx current ep =
      (ep\<lparr>pe_availability := Some v, pe_sources := [planned_source city ep d]\<rparr>,
       Inr (Some (identity_timeline (planned_source city ep d) d)))"
    and "ma_state v = SUSPECTED_EMPTY" and "ma_operator_override v = None"
proof -
  let ?profile = "availability_profile (sw_float_text w) ctx"
  obtain v where v: "stamp_availability clock w SILENT ?profile ''successful decode is near-totally silent'' ep =
      (ep\<lparr>pe_availability := Some v\<rparr>, Inr (Some v))" "ma_state v = SUSPECTED_EMPTY" "ma_operator_override v = None"
    using first_silence_suspects [OF assms(5)] by blast
  have silent: "is_effectively_silent [(0, d)] d (sx_min_served_seconds ctx) f" for f
    using assms(3,4) by (simp add: is_effectively_silent_def all_silent_content less_max_iff_disj)
  have src: "planned_source city (ep\<lparr>pe_availability := Some v\<rparr>) d = planned_source city ep d"
    by (cases "pe_sources ep") (simp_all add: planned_source_def)
  have "silence_plan clock w city ctx current ep =
      (ep\<lparr>pe_availability := Some v, pe_sources := [planned_source city ep d]\<rparr>,
       Inr (Some (identity_timeline (planned_source city ep d) d)))"
    using silence_plan_reaches [OF assms(1)] assms(2) v(1) silent all_silent_uncut [OF assms(3)] src
    by (simp add: plan_decoded_def plan_cut_def Let_def)
  then show thesis
    using that v(2,3) by blast
qed

lemma all_silent_run:
  assumes "reaches_decode sw city ctx ep" and "detect_silences (sw_run sw) = ([(0, d)], cd, Some d)" and "0 < d"
    and "0 < sx_min_served_seconds ctx" and "sy_provider city \<noteq> ''swagit''"
    and "pe_availability ep = None" and "pe_timeline ep = None" and "pe_error ep = None"
    and "\<not> needs_timeline_audio_repair ep REPAIR_TIMELINE_REPLAN"
  shows "\<exists>ep' v. plan_one from_iso now False (pipeline t cw sw city ctx) ep = (ep', StageRan) \<and>
           pe_availability ep' = Some v \<and> ma_state v = SUSPECTED_EMPTY \<and> \<not> is_confirmed_dead v \<and>
           \<not> needs_timeline_audio_repair ep' REPAIR_TIMELINE_REPLAN"
proof -
  let ?ep = "ep\<lparr>pe_defer_reason := ''''\<rparr>"
  let ?sig = "stage_signature (pipeline t cw sw city ctx)"
  let ?edl = "identity_timeline (planned_source city ?ep d) d"
  have reach: "reaches_decode sw city ctx ?ep"
    using assms(1) by (simp add: reaches_decode_def)
  have av: "pe_availability ?ep = None"
    using assms(6) by simp
  obtain v where v: "silence_plan t sw city ctx None ?ep =
      (?ep\<lparr>pe_availability := Some v, pe_sources := [planned_source city ?ep d]\<rparr>, Inr (Some ?edl))"
    "ma_state v = SUSPECTED_EMPTY" "ma_operator_override v = None"
    using all_silent_plan [OF reach assms(2-4) av] by blast
  let ?out = "?ep\<lparr>pe_availability := Some v, pe_sources := [planned_source city ?ep d],
           pe_timeline := Some (?edl\<lparr>tl_version := ?sig\<rparr>)\<rparr>"
  have "run_planners (pipeline t cw sw city ctx) None False ?ep =
      (?ep\<lparr>pe_availability := Some v, pe_sources := [planned_source city ?ep d]\<rparr>, Inr (Some (Some ?edl, True)))"
    using v(1) assms(5) by (simp add: pipeline_def concat_planner_def silence_planner_def concat_plan_def)
  moreover have "\<not> needs_timeline_audio_repair ?ep REPAIR_TIMELINE_REPLAN"
    using assms(9) by (simp add: needs_timeline_audio_repair_def)
  ultimately have ran: "plan_one from_iso now False (pipeline t cw sw city ctx) ep = (?out, StageRan)"
    using assms(6-8) by (simp add: plan_one_def Let_def)
  have "\<not> is_confirmed_dead v"
    using v(2,3) by (simp add: is_confirmed_dead_def effective_state_def CONFIRMED_DEAD_STATES_def state_simps)
  moreover have "\<not> needs_timeline_audio_repair ?out REPAIR_TIMELINE_REPLAN"
    using assms(9) by (simp add: needs_timeline_audio_repair_def)
  moreover have "pe_availability ?out = Some v"
    by simp
  ultimately show ?thesis
    using ran v(2) by blast
qed

text \<open>
  A fully silent source is observed once: its first successful decode is suspected empty, and since nothing of
  it is kept the planner answers with the identity timeline, which every later run reuses. So the second silent
  fetch that would confirm it, or the playable one that would recover it, is never made.
\<close>

theorem fully_silent_source_is_never_reexamined:
  assumes "reaches_decode sw city ctx ep" and "detect_silences (sw_run sw) = ([(0, d)], cd, Some d)" and "0 < d"
    and "0 < sx_min_served_seconds ctx" and "sy_provider city \<noteq> ''swagit''"
    and "pe_availability ep = None" and "pe_timeline ep = None" and "pe_error ep = None"
    and "\<not> needs_timeline_audio_repair ep REPAIR_TIMELINE_REPLAN"
  shows "\<exists>ep' v. plan_one from_iso now False (pipeline t cw sw city ctx) ep = (ep', StageRan) \<and>
           pe_availability ep' = Some v \<and> ma_state v = SUSPECTED_EMPTY \<and> \<not> is_confirmed_dead v \<and>
           plan_one from_iso' now' stopping' (pipeline t' cw' sw' city' ctx') ep' = (ep', StageReused)"
  using all_silent_run [OF assms, of from_iso now t cw] planned_is_reused by metis

definition sample_log :: string where
  "sample_log = ''silence_start: 0'' @ [CHR 0x0A] @ ''silence_end: 60 | silence_duration: 60'' @ [CHR 0x0A] @ ''time=00:01:00''"

lemma sample_log_detected: "detect_silences (Inr (0, sample_log)) = ([(0, 60)], None, Some 60)"
  by code_simp

definition sample_silence_world :: "exn + int \<times> string \<Rightarrow> silence_world" where
  "sample_silence_world run =
     \<lparr>sw_ffmpeg_installed = True, sw_resolved = ResolvedUrl ''https://v/1'', sw_source_cache = True,
      sw_fetched = FetchedFile, sw_gate = None, sw_run = run, sw_sha256_16 = id, sw_float_text = (\<lambda>_. ''x''),
      sw_partial_reason = (\<lambda>_ _. ''short'')\<rparr>"

definition sample_silence_city :: silence_city where
  "sample_silence_city = \<lparr>sy_extra = [], sy_extract_audio = False, sy_provider = ''granicus''\<rparr>"

definition sample_silence_ctx :: silence_ctx where
  "sample_silence_ctx =
     \<lparr>sx_trim_silence = JBool True, sx_noise_db = -40, sx_min_served_seconds = 5, sx_min_served_fraction = 1 / 50,
      sx_lead_trail_min_s = 1, sx_mid_min_s = 10\<rparr>"

definition sample_concat_world :: concat_world where
  "sample_concat_world = \<lparr>cw_ffmpeg_installed = True, cw_segments = Inr None, cw_probe = (\<lambda>_. ProbeStopped)\<rparr>"

lemmas sample_stage_defs = sample_silence_world_def sample_silence_city_def sample_silence_ctx_def blank_episode_def

lemma sample_reaches_decode: "reaches_decode (sample_silence_world run) sample_silence_city sample_silence_ctx blank_episode"
  by (simp add: reaches_decode_def sample_stage_defs dget_def)

lemma sample_no_repair: "\<not> needs_timeline_audio_repair blank_episode REPAIR_TIMELINE_REPLAN"
  by (simp add: needs_timeline_audio_repair_def timeline_audio_repair_actions_def timeline_audio_integrity_def
      blank_episode_def dget_def)

abbreviation sample_pipeline :: "instant \<Rightarrow> (exn + int \<times> string) \<Rightarrow> planner list" where
  "sample_pipeline t run \<equiv>
     pipeline t sample_concat_world (sample_silence_world run) sample_silence_city sample_silence_ctx"

theorem fully_silent_source_is_never_reexamined_witness:
  "\<exists>ep' v. plan_one (\<lambda>_. None) 0 False (sample_pipeline 0 (Inr (0, sample_log))) blank_episode = (ep', StageRan) \<and>
     pe_availability ep' = Some v \<and> ma_state v = SUSPECTED_EMPTY \<and> \<not> is_confirmed_dead v \<and>
     plan_one (\<lambda>_. None) 1 False (sample_pipeline 1 (Inr (0, ''time=01:00:00''))) ep' = (ep', StageReused)"
proof (rule fully_silent_source_is_never_reexamined [OF sample_reaches_decode])
  show "detect_silences (sw_run (sample_silence_world (Inr (0, sample_log)))) = ([(0, 60)], None, Some 60)"
    by (simp add: sample_silence_world_def sample_log_detected)
qed (simp_all add: sample_stage_defs sample_no_repair [unfolded blank_episode_def])

theorem planned_once_witness:
  "\<exists>ep'. plan_one (\<lambda>_. None) 0 False (sample_pipeline 0 (Inr (0, sample_log))) blank_episode = (ep', StageRan) \<and>
     plan_one (\<lambda>_. None) 1 False (sample_pipeline 1 (Inr (1, ''''))) ep' = (ep', StageReused)"
proof -
  have det: "detect_silences (sw_run (sample_silence_world (Inr (0, sample_log)))) = ([(0, 60)], None, Some 60)"
    by (simp add: sample_silence_world_def sample_log_detected)
  have "\<exists>ep' v. plan_one (\<lambda>_. None) 0 False (sample_pipeline 0 (Inr (0, sample_log))) blank_episode = (ep', StageRan) \<and>
     pe_availability ep' = Some v \<and> ma_state v = SUSPECTED_EMPTY \<and> \<not> is_confirmed_dead v \<and>
     \<not> needs_timeline_audio_repair ep' REPAIR_TIMELINE_REPLAN"
    by (rule all_silent_run [OF sample_reaches_decode det])
      (simp_all add: sample_stage_defs sample_no_repair [unfolded blank_episode_def])
  then obtain ep' where r: "plan_one (\<lambda>_. None) 0 False (sample_pipeline 0 (Inr (0, sample_log))) blank_episode = (ep', StageRan)"
    "\<not> needs_timeline_audio_repair ep' REPAIR_TIMELINE_REPLAN"
    by blast
  show ?thesis
    using planned_once [OF r] r(1) by blast
qed

subsection \<open>A decode that fails\<close>

text \<open>
  A failed decode decides nothing: the plan of an episode whose audio could not be decoded gives no timeline and
  leaves the stored verdict (but for its last check), timeline, sources and chapters as they were.
\<close>

theorem failed_decode_decides_nothing:
  assumes "detect_silences (sw_run w) = (silences, cd, None)" and "sw_resolved w \<noteq> ResolvedDead"
    and "silence_plan clock w city ctx current ep = (ep', r)"
  shows "(\<forall>edl. r \<noteq> Inr (Some edl)) \<and> same_verdict (pe_availability ep') (pe_availability ep) \<and>
         pe_timeline ep' = pe_timeline ep \<and> pe_sources ep' = pe_sources ep \<and> pe_chapters ep' = pe_chapters ep \<and>
         pe_chapters_basis ep' = pe_chapters_basis ep"
proof -
  have stamp: "\<exists>v r'. stamp_availability clock w TRANSPORT_FAILED profile reason ep = (ep\<lparr>pe_availability := v\<rparr>, Inr r') \<and>
      same_verdict v (pe_availability ep)" for profile reason
    by (cases "pe_availability ep")
      (auto simp: stamp_availability_def classify_def Let_def same_verdict_def forget_check_def)
  have decoded: "\<exists>v. same_verdict v (pe_availability ep) \<and> plan_decoded clock w city ctx current ep =
      (defer_timeline_plan clock DEFER_DECODE_UNAVAILABLE (Some ''timeline-decode'') (ep\<lparr>pe_availability := v\<rparr>), Inr None)"
    using assms(1) stamp [of "availability_profile (sw_float_text w) ctx" "''''"]
    by (auto simp: plan_decoded_def Let_def)
  show ?thesis
    using assms(2,3) decoded
    by (auto simp: silence_plan_def defer_timeline_plan_def record_materialize_failure_def Let_def same_verdict_def
        split: if_splits resolved.splits fetched.splits)
qed

theorem failed_decode_decides_nothing_witness:
  "\<exists>ep' r. silence_plan 0 (sample_silence_world (Inl TimeoutError)) sample_silence_city sample_silence_ctx None blank_episode =
       (ep', r) \<and> (\<forall>edl. r \<noteq> Inr (Some edl)) \<and> same_verdict (pe_availability ep') None"
proof -
  let ?w = "sample_silence_world (Inl TimeoutError)"
  obtain ep' r where r: "silence_plan 0 ?w sample_silence_city sample_silence_ctx None blank_episode = (ep', r)"
    by (cases "silence_plan 0 ?w sample_silence_city sample_silence_ctx None blank_episode")
  have "detect_silences (sw_run ?w) = ([], None, None)" "sw_resolved ?w \<noteq> ResolvedDead"
    by (simp_all add: sample_silence_world_def detect_silences_def)
  from failed_decode_decides_nothing [OF this r] r show ?thesis
    by (simp add: blank_episode_def)
qed

subsection \<open>Chapters are moved once\<close>

text \<open>
  The remap is idempotent: once the chapters of an episode are on the served clock of its timeline, running the
  stage again changes nothing, and the source-time originals it keeps are those it started from.
\<close>

theorem remap_once:
  assumes "remap_process ep = (ep', Inr outcome)" and "\<And>edl. pe_timeline ep = Some edl \<Longrightarrow> tl_version edl \<noteq> ''''"
  shows "remap_process ep' = (ep', Inr StageReused) \<and>
         (outcome = StageRan \<longrightarrow> pe_source_chapters ep' = chapters_in_source_time ep)"
proof (cases "outcome = StageRan")
  case True
  obtain edl chapters where e: "pe_timeline ep = Some edl"
    "ep' = ep\<lparr>pe_source_chapters := chapters_in_source_time ep, pe_chapters := chapters,
              pe_chapters_basis := ''served:'' @ tl_version edl\<rparr>"
    using assms(1) True by (auto simp: remap_process_def Let_def split: if_splits option.splits sum.splits)
  then have "\<not> needs_chapter_remap ep'"
    using assms(2) by (simp add: needs_chapter_remap_def served_chapter_basis_version_def py_startswith_def)
  then show ?thesis
    using e(2) by (simp add: remap_process_def)
next
  case False
  then have "ep' = ep" "remap_process ep = (ep, Inr StageReused)"
    using assms(1) by (auto simp: remap_process_def Let_def split: if_splits option.splits sum.splits)
  then show ?thesis
    using False by simp
qed

definition sample_remap :: planned_episode where
  "sample_remap = blank_episode\<lparr>pe_chapters := [[(''start'', JInt 100)]],
     pe_timeline := Some (sample_edl\<lparr>tl_version := ''silence:3''\<rparr>)\<rparr>"

theorem remap_once_witness:
  "\<exists>ep' outcome. remap_process sample_remap = (ep', Inr outcome) \<and> remap_process ep' = (ep', Inr StageReused)"
proof -
  have wf: "wf_edl (sample_edl\<lparr>tl_version := ''silence:3''\<rparr>)"
    using sample_edl_wf by (simp add: wf_edl_def)
  have "list_all timed_item [[(''start'', JInt 100)]]"
    by (simp add: timed_item_def timestamp_def)
  then obtain out where "remap (sample_edl\<lparr>tl_version := ''silence:3''\<rparr>) [[(''start'', JInt 100)]] (Some ''s0'') None True = Inr out"
    unfolding remap_def option.case by (elim remap_items_start [OF wf, THEN exE] conjE) blast
  moreover have "chapters_in_source_time sample_remap = [[(''start'', JInt 100)]]" "pe_sources sample_remap = []"
    "pe_timeline sample_remap = Some (sample_edl\<lparr>tl_version := ''silence:3''\<rparr>)"
    by (simp_all add: sample_remap_def blank_episode_def chapters_in_source_time_def py_startswith_def)
  ultimately obtain ep' outcome where r: "remap_process sample_remap = (ep', Inr outcome)"
    by (cases "needs_chapter_remap sample_remap") (simp_all add: remap_process_def)
  show ?thesis
    using remap_once [OF r] r by (auto simp: sample_remap_def)
qed

end
