(* ===== verification/LLM_Policy.thy ===== *)
theory LLM_Policy
  imports Prelude
begin

section \<open>Model policy and the capabilities of routes\<close>

text \<open>
  \<open>citypods/compute/llm_policy.py\<close>: what a request allows, what a physical route offers, its dated rate cards,
  the aliases of models and the units tokens are counted in. Of a route the fields the scheduler and the
  ledger read are kept; the adapter fields of the HTTP client are not. A limit is a rational, since catalogues
  hold fractional rates. The wall clock of a time zone is the parameter \<open>zones\<close>.
\<close>

definition DEFAULT_OUTPUT_TOKEN_MARGIN :: int where "DEFAULT_OUTPUT_TOKEN_MARGIN = 1024"
definition MAX_ROUTE_OUTPUT_TOKENS :: int where "MAX_ROUTE_OUTPUT_TOKENS = 65536"

record llm_request_policy =
  rp_allowed_models :: "string list option"
  rp_allow_paid :: bool
  rp_allow_experimental :: bool
  rp_deadline_at :: "instant option"
  rp_allow_dispatch_overflow :: bool
  rp_allowed_route_ids :: "string list option"

text \<open>A time of day is its microsecond.\<close>

record peak_window =
  pw_tz :: string
  pw_start :: int
  pw_end :: int
  pw_multiplier :: rat

record pricing_period =
  pp_effective_at :: instant
  pp_input_per_token :: "rat option"
  pp_output_per_token :: "rat option"
  pp_windows :: "peak_window list"

record pricing_policy =
  pc_input_per_token :: rat
  pc_output_per_token :: rat
  pc_windows :: "peak_window list"
  pc_periods :: "pricing_period list"
  pc_cost_cap :: "rat option"
  pc_daily_cost_cap :: "rat option"

record quota_policy =
  qp_rpm :: "rat option"
  qp_rpd :: "rat option"
  qp_tpm :: "rat option"
  qp_tpd :: "rat option"
  qp_concurrency :: "rat option"
  qp_reset_timezone :: string

record llm_route =
  lr_model :: string
  lr_free :: bool
  lr_quota :: quota_policy
  lr_pricing :: pricing_policy
  lr_experimental :: bool
  lr_max_provider_attempts :: "int option"
  lr_transports :: "string list"
  lr_route_id :: string
  lr_provider :: string
  lr_provider_rpm :: "rat option"
  lr_provider_tpm :: "rat option"
  lr_provider_concurrency :: "rat option"
  lr_input_context_limit :: int
  lr_output_context_limit :: int
  lr_hard_input_ceiling :: "int option"
  lr_input_token_ratio :: rat
  lr_also_serves :: "string list"

subsection \<open>Rate cards\<close>

text \<open>\<open>max(xs, key=...)\<close>: the first of the largest.\<close>

definition max_first :: "('a \<Rightarrow> 'k::linorder) \<Rightarrow> 'a list \<Rightarrow> 'a option" where
  "max_first key xs =
     fold (\<lambda>x best. case best of None \<Rightarrow> Some x | Some b \<Rightarrow> if key b < key x then Some x else best) xs None"

definition rates_at :: "pricing_policy \<Rightarrow> instant \<Rightarrow> rat \<times> rat \<times> peak_window list" where
  "rates_at p now =
     (case max_first pp_effective_at (filter (\<lambda>q. pp_effective_at q \<le> now) (pc_periods p)) of
        None \<Rightarrow> (pc_input_per_token p, pc_output_per_token p, pc_windows p)
      | Some q \<Rightarrow>
          ((case pp_input_per_token q of None \<Rightarrow> pc_input_per_token p | Some r \<Rightarrow> r),
           (case pp_output_per_token q of None \<Rightarrow> pc_output_per_token p | Some r \<Rightarrow> r),
           (if pp_windows q \<noteq> [] then pp_windows q else pc_windows p)))"

subsection \<open>Aliases\<close>

text \<open>The walk along the aliases ends: each step sees one more of them.\<close>

function follow_alias :: "(string \<times> string) list \<Rightarrow> string list \<Rightarrow> string \<Rightarrow> string" where
  "follow_alias aliases seen current =
     (case map_of aliases current of
        None \<Rightarrow> current
      | Some target \<Rightarrow>
          if current \<in> set seen then current else follow_alias aliases (current # seen) target)"
  by pat_completeness auto

termination
proof (relation "measure (\<lambda>(aliases, seen, _). card (set (map fst aliases) - set seen))")
  fix aliases :: "(string \<times> string) list" and seen :: "string list" and current target
  assume "map_of aliases current = Some target" and "current \<notin> set seen"
  then have "current \<in> set (map fst aliases) - set seen"
    using map_of_SomeD [of aliases current target] by force
  then have "card (set (map fst aliases) - set seen - {current}) < card (set (map fst aliases) - set seen)"
    by (intro card_Diff1_less) auto
  moreover have "set (map fst aliases) - set (current # seen) = set (map fst aliases) - set seen - {current}"
    by auto
  ultimately show "((aliases, current # seen, target), aliases, seen, current)
      \<in> measure (\<lambda>(aliases, seen, _). card (set (map fst aliases) - set seen))"
    by simp
qed simp

declare follow_alias.simps [simp del]

definition canonical_model :: "(string \<times> string) list \<Rightarrow> string \<Rightarrow> string" where
  "canonical_model aliases model = follow_alias aliases [] model"

subsection \<open>Counting tokens\<close>

text \<open>\<open>messages\<close>: the contents, as \<open>str\<close> renders them.\<close>

definition estimate_tokens :: "pydict list \<Rightarrow> int" where
  "estimate_tokens messages =
     \<lceil>(of_int (sum_list (map (\<lambda>m. int (length (py_str (dget m ''content'' (JStr ''''))))) messages)) :: rat) / 4\<rceil>"

definition route_input_tokens :: "int \<Rightarrow> llm_route option \<Rightarrow> int" where
  "route_input_tokens raw_estimate route =
     (let declared = (case route of None \<Rightarrow> 1 | Some r \<Rightarrow> lr_input_token_ratio r);
          ratio = (if declared = 0 then 1 else declared)
      in \<lceil>of_int (max 0 raw_estimate) * ratio\<rceil>)"

definition route_output_tokens :: "llm_route \<Rightarrow> int \<Rightarrow> int \<Rightarrow> int" where
  "route_output_tokens route requested input_tokens =
     (let output_limit = min (lr_output_context_limit route) MAX_ROUTE_OUTPUT_TOKENS in
      if output_limit = 0 then requested
      else if lr_input_context_limit route = 0 \<or> input_tokens = 0 then output_limit
      else
        (let room = lr_input_context_limit route - route_input_tokens input_tokens (Some route)
         in if 0 < room then min output_limit room else requested))"

subsection \<open>The compiled catalogue\<close>

text \<open>\<open>item.get(key)\<close> where a limit is expected: a number, or none.\<close>

definition limit_of :: "json \<Rightarrow> rat option" where
  "limit_of v = (case v of JInt i \<Rightarrow> Some (of_int i) | JFloat q \<Rightarrow> Some q | _ \<Rightarrow> None)"

definition float_or_zero :: "json \<Rightarrow> exn + rat" where
  "float_or_zero v = (if py_truthy v then py_float v else Inr 0)"

definition opt_floatE :: "json \<Rightarrow> exn + rat option" where
  "opt_floatE v = (if v = JNull then Inr None else map_sum id Some (py_float v))"

definition opt_intE :: "json \<Rightarrow> exn + int option" where
  "opt_intE v = (if v = JNull then Inr None else map_sum id Some (py_int v))"

text \<open>A limit of the catalogue: absent or zero means the default, and at least one.\<close>

definition context_limit :: "json \<Rightarrow> int \<Rightarrow> exn + int" where
  "context_limit v dflt = bindE (if py_truthy v then py_int v else Inr dflt) (\<lambda>n. Inr (max 1 n))"

definition str_items :: "json \<Rightarrow> exn + string list" where
  "str_items v = (if py_truthy v then map_sum id (map py_str) (py_iter v) else Inr [])"

definition parse_catalog_quota :: "pydict \<Rightarrow> quota_policy" where
  "parse_catalog_quota item =
     \<lparr>qp_rpm = limit_of (dget item ''rpm'' JNull), qp_rpd = limit_of (dget item ''rpd'' JNull),
      qp_tpm = limit_of (dget item ''tpm'' JNull), qp_tpd = limit_of (dget item ''tpd'' JNull),
      qp_concurrency = limit_of (dget item ''concurrency'' JNull),
      qp_reset_timezone = py_str (dget item ''reset_timezone'' (JStr ''UTC''))\<rparr>"

text \<open>The rate card periods of an item are an argument: their dates are read by the time zone library.\<close>

definition parse_catalog_route ::
  "peak_window list \<Rightarrow> pricing_period list \<Rightarrow> pydict \<Rightarrow> exn + llm_route" where
  "parse_catalog_route deepseek_windows periods item =
     bindE (case map_of item ''model'' of None \<Rightarrow> Inl KeyError | Some m \<Rightarrow> Inr (py_str m)) (\<lambda>model.
     bindE (float_or_zero (dget item ''input_per_token'' (JInt 0))) (\<lambda>input_rate.
     bindE (float_or_zero (dget item ''output_per_token'' (JInt 0))) (\<lambda>output_rate.
     bindE (context_limit (dget item ''input_context_limit'' (JInt 32768)) 32768) (\<lambda>input_limit.
     bindE (context_limit (dget item ''output_context_limit'' (JInt 1024)) 1024) (\<lambda>output_limit.
     bindE (opt_intE (dget item ''hard_input_ceiling'' JNull)) (\<lambda>ceiling.
     bindE (let r = dget item ''input_token_ratio'' JNull in if py_truthy r then py_float r else Inr 1) (\<lambda>ratio.
     bindE (str_items (dget item ''also_serves'' JNull)) (\<lambda>pools.
     bindE (map_sum id (map py_str) (py_iter (dget item ''transports'' (JList [JStr ''direct''])))) (\<lambda>transports.
       Inr \<lparr>lr_model = model, lr_free = py_truthy (dget item ''free'' (JBool False)),
            lr_quota = parse_catalog_quota item,
            lr_pricing = \<lparr>pc_input_per_token = input_rate, pc_output_per_token = output_rate,
                          pc_windows = (if py_str (dget item ''provider'' (JStr '''')) = ''deepseek''
                                        then deepseek_windows else []),
                          pc_periods = periods, pc_cost_cap = None, pc_daily_cost_cap = None\<rparr>,
            lr_experimental = False, lr_max_provider_attempts = None, lr_transports = transports,
            lr_route_id = py_str (dget item ''route_id'' (dget item ''model'' JNull)),
            lr_provider = py_str (dget item ''provider'' (JStr '''')),
            lr_provider_rpm = limit_of (dget item ''provider_rpm'' JNull),
            lr_provider_tpm = limit_of (dget item ''provider_tpm'' JNull),
            lr_provider_concurrency = limit_of (dget item ''provider_concurrency'' JNull),
            lr_input_context_limit = input_limit, lr_output_context_limit = output_limit,
            lr_hard_input_ceiling = ceiling, lr_input_token_ratio = ratio,
            lr_also_serves = pools\<rparr>)))))))))"

text \<open>The registry of physical routes and the candidates of every logical model, secondary pools last.\<close>

definition route_registry :: "llm_route list \<Rightarrow> (string \<times> llm_route) list" where
  "route_registry generated =
     fold (\<lambda>r. AList.update (if lr_route_id r \<noteq> '''' then lr_route_id r else lr_model r) r) generated []"

definition add_candidate :: "string \<Rightarrow> llm_route \<Rightarrow> (string \<times> llm_route list) list \<Rightarrow> (string \<times> llm_route list) list" where
  "add_candidate model r m = AList.update model ((case map_of m model of None \<Rightarrow> [] | Some rs \<Rightarrow> rs) @ [r]) m"

definition route_candidates :: "llm_route list \<Rightarrow> (string \<times> llm_route list) list" where
  "route_candidates generated =
     fold (\<lambda>r m. fold (\<lambda>pool. add_candidate pool r) (lr_also_serves r) m) generated
       (fold (\<lambda>r. add_candidate (lr_model r) r) generated [])"

definition routes_view :: "(string \<times> llm_route list) list \<Rightarrow> (string \<times> llm_route) list" where
  "routes_view candidates = map (\<lambda>(model, rs). (model, hd rs)) candidates"

end
