(* ===== verification/LLM_Budget.thy ===== *)
theory LLM_Budget
  imports Compute_Budget LLM_Policy
begin

section \<open>The quota ledger of the LLM routes\<close>

text \<open>
  \<open>citypods/compute/llm_budget.py\<close>: per physical route and per provider, what is spent of each window, the
  continuous request and token schedules, and the reservations in flight, each with what is needed to undo it.
  Methods that change the budget in place return it; a broken timestamp or a zero rate is an exception. The
  ledger is one stored object changed by compare-and-swap. The calendar day of a time zone is a parameter.
\<close>

definition LLM_BUDGET_STATE_KEY :: string where "LLM_BUDGET_STATE_KEY = ''state/llm_budget.json''"
definition LLM_RESERVATION_TTL_SECONDS :: int where "LLM_RESERVATION_TTL_SECONDS = 20 * 60"

subsection \<open>Timestamps\<close>

text \<open>
  A stored timestamp: the empty text, a time with its zone, or a text whose use raises (\<open>ValueError\<close> when it is
  no timestamp, \<open>TypeError\<close> when it has no zone and is compared with one that has).
\<close>

datatype stamp = NoStamp | Stamp instant | BadStamp json

fun stamp_of :: "json \<Rightarrow> stamp" where
  "stamp_of (JTime (Aware n)) = Stamp n"
| "stamp_of v = (if py_truthy v then BadStamp (case v of JTime t \<Rightarrow> JTime t | _ \<Rightarrow> JStr (py_str v)) else NoStamp)"

fun stamp_json :: "stamp \<Rightarrow> json" where
  "stamp_json NoStamp = JNull"
| "stamp_json (Stamp n) = JTime (Aware n)"
| "stamp_json (BadStamp v) = v"

fun read_stamp :: "stamp \<Rightarrow> exn + instant" where
  "read_stamp NoStamp = Inl ValueError"
| "read_stamp (Stamp n) = Inr n"
| "read_stamp (BadStamp (JTime t)) = Inl TypeError"
| "read_stamp (BadStamp v) = Inl ValueError"

text \<open>\<open>not expires_at\<close> never expires; unreadable or without a zone counts as expired.\<close>

fun stamp_expired :: "instant \<Rightarrow> stamp \<Rightarrow> bool" where
  "stamp_expired now NoStamp = False"
| "stamp_expired now (Stamp n) = (n \<le> now)"
| "stamp_expired now (BadStamp v) = True"

text \<open>\<open>stamp and now < stamp\<close>\<close>

definition before_stamp :: "instant \<Rightarrow> stamp \<Rightarrow> exn + bool" where
  "before_stamp now s = (if s = NoStamp then Inr False else bindE (read_stamp s) (\<lambda>n. Inr (now < n)))"

definition us_seconds :: "int \<Rightarrow> rat" where
  "us_seconds us = of_int us / 1000000"

definition div_py :: "rat \<Rightarrow> rat \<Rightarrow> exn + rat" where
  "div_py a b = (if b = 0 then Inl (OtherError ''ZeroDivisionError'') else Inr (a / b))"

subsection \<open>The data\<close>

record llm_reservation =
  rv_cost :: rat
  rv_requests :: int
  rv_tokens :: int
  rv_minute_key :: string
  rv_day_key :: string
  rv_cost_cycle_key :: string
  rv_cost_day_key :: string
  rv_tokens_available_at_before :: stamp
  rv_tokens_available_at_after :: stamp
  rv_tokens_minute_before :: int
  rv_requests_available_at_before :: stamp
  rv_requests_available_at_after :: stamp
  rv_provider_key :: string
  rv_provider_requests_available_at_before :: stamp
  rv_provider_requests_available_at_after :: stamp
  rv_provider_tokens_available_at_before :: stamp
  rv_provider_tokens_available_at_after :: stamp
  rv_reserved_at :: stamp
  rv_expires_at :: stamp

record route_ledger =
  lg_cost_used :: rat
  lg_cost_cycle_key :: string
  lg_cost_day_used :: rat
  lg_cost_day_key :: string
  lg_requests_minute :: int
  lg_requests_minute_key :: string
  lg_tokens_day :: rat
  lg_tokens_day_updated_at :: stamp
  lg_requests_day :: int
  lg_requests_day_key :: string
  lg_tokens_minute :: int
  lg_tokens_available_at :: stamp
  lg_requests_available_at :: stamp
  lg_inflight :: "(string \<times> llm_reservation) list"
  lg_blocked_until :: stamp

record provider_ledger =
  pv_requests_available_at :: stamp
  pv_tokens_available_at :: stamp

record llm_budget =
  lb_routes :: "(string \<times> route_ledger) list"
  lb_providers :: "(string \<times> provider_ledger) list"

definition empty_route_ledger :: route_ledger where
  "empty_route_ledger =
     \<lparr>lg_cost_used = 0, lg_cost_cycle_key = '''', lg_cost_day_used = 0, lg_cost_day_key = '''',
      lg_requests_minute = 0, lg_requests_minute_key = '''', lg_tokens_day = 0, lg_tokens_day_updated_at = NoStamp,
      lg_requests_day = 0, lg_requests_day_key = '''', lg_tokens_minute = 0, lg_tokens_available_at = NoStamp,
      lg_requests_available_at = NoStamp, lg_inflight = [], lg_blocked_until = NoStamp\<rparr>"

definition empty_provider_ledger :: provider_ledger where
  "empty_provider_ledger = \<lparr>pv_requests_available_at = NoStamp, pv_tokens_available_at = NoStamp\<rparr>"

definition empty_llm_budget :: llm_budget where
  "empty_llm_budget = \<lparr>lb_routes = [], lb_providers = []\<rparr>"

definition llm_inflight_count :: "route_ledger \<Rightarrow> int" where
  "llm_inflight_count led = int (length (lg_inflight led))"

subsection \<open>Keys and windows\<close>

type_synonym day_clock = "string \<Rightarrow> instant \<Rightarrow> exn + string"

definition minute_key :: "instant \<Rightarrow> string" where
  "minute_key now = take 16 (iso_text (Aware now))"

definition route_key :: "string \<Rightarrow> llm_route \<Rightarrow> string" where
  "route_key model route = or_text (lr_route_id route) model"

definition paced_provider :: "llm_route \<Rightarrow> bool" where
  "paced_provider route \<longleftrightarrow>
     lr_provider route \<noteq> '''' \<and>
     (lr_provider_rpm route \<noteq> None \<or> lr_provider_tpm route \<noteq> None \<or> lr_provider_concurrency route \<noteq> None)"

text \<open>\<open>_provider_ledger\<close>, without and with creation.\<close>

definition find_provider_ledger :: "llm_route \<Rightarrow> llm_budget \<Rightarrow> provider_ledger option" where
  "find_provider_ledger route b = (if paced_provider route then map_of (lb_providers b) (lr_provider route) else None)"

definition make_provider_ledger :: "llm_route \<Rightarrow> llm_budget \<Rightarrow> provider_ledger option \<times> llm_budget" where
  "make_provider_ledger route b =
     (if \<not> paced_provider route then (None, b)
      else (case map_of (lb_providers b) (lr_provider route) of
              Some p \<Rightarrow> (Some p, b)
            | None \<Rightarrow> (Some empty_provider_ledger,
                 b\<lparr>lb_providers := AList.update (lr_provider route) empty_provider_ledger (lb_providers b)\<rparr>)))"

text \<open>The end of a schedule after more work: from where it stood, or from now when it has drained.\<close>

definition advance_schedule :: "stamp \<Rightarrow> rat \<Rightarrow> instant \<Rightarrow> exn + stamp" where
  "advance_schedule before seconds now =
     bindE (if before = NoStamp then Inr now else read_stamp before) (\<lambda>ready.
       Inr (Stamp (max now ready + timedelta_us seconds)))"

definition request_schedule_after :: "stamp \<Rightarrow> rat option \<Rightarrow> int \<Rightarrow> instant \<Rightarrow> exn + stamp" where
  "request_schedule_after before rpm requests now =
     (case rpm of
        None \<Rightarrow> Inr before
      | Some r \<Rightarrow> bindE (div_py (60 * of_int requests) r) (\<lambda>seconds. advance_schedule before seconds now))"

definition token_seconds :: "int \<Rightarrow> rat \<Rightarrow> exn + rat" where
  "token_seconds tokens tpm = div_py (of_int tokens * 60) tpm"

subsection \<open>Undoing a reservation\<close>

text \<open>No condition looks at a field an earlier step has changed, so the undoing is one update.\<close>

definition unwind_route :: "llm_reservation \<Rightarrow> route_ledger \<Rightarrow> route_ledger" where
  "unwind_route r led =
     (let same_minute = (lg_requests_minute_key led = rv_minute_key r);
          same_tokens = (rv_tokens_available_at_after r \<noteq> NoStamp \<and>
                         lg_tokens_available_at led = rv_tokens_available_at_after r);
          same_requests = (rv_requests_available_at_after r \<noteq> NoStamp \<and>
                           lg_requests_available_at led = rv_requests_available_at_after r)
      in led\<lparr>
        lg_cost_used := (if lg_cost_cycle_key led = rv_cost_cycle_key r
                         then max 0 (lg_cost_used led - rv_cost r) else lg_cost_used led),
        lg_cost_day_used := (if rv_cost_day_key r \<noteq> '''' \<and> lg_cost_day_key led = rv_cost_day_key r
                             then max 0 (lg_cost_day_used led - rv_cost r) else lg_cost_day_used led),
        lg_tokens_day := (if lg_tokens_day_updated_at led \<noteq> NoStamp
                          then max 0 (lg_tokens_day led - of_int (rv_tokens r)) else lg_tokens_day led),
        lg_requests_minute := (if same_minute then max 0 (lg_requests_minute led - rv_requests r)
                               else lg_requests_minute led),
        lg_tokens_minute := (if same_tokens then rv_tokens_minute_before r
                             else if same_minute then max 0 (lg_tokens_minute led - rv_tokens r)
                             else lg_tokens_minute led),
        lg_tokens_available_at := (if same_tokens then rv_tokens_available_at_before r else lg_tokens_available_at led),
        lg_requests_available_at := (if same_requests then rv_requests_available_at_before r
                                     else lg_requests_available_at led),
        lg_requests_day := (if rv_day_key r \<noteq> '''' \<and> lg_requests_day_key led = rv_day_key r
                            then max 0 (lg_requests_day led - rv_requests r) else lg_requests_day led)\<rparr>)"

definition unwind_provider :: "llm_reservation \<Rightarrow> provider_ledger \<Rightarrow> provider_ledger" where
  "unwind_provider r p =
     (let p1 = (if rv_provider_requests_available_at_after r \<noteq> NoStamp \<and>
                   pv_requests_available_at p = rv_provider_requests_available_at_after r
                then p\<lparr>pv_requests_available_at := rv_provider_requests_available_at_before r\<rparr> else p)
      in if rv_provider_tokens_available_at_after r \<noteq> NoStamp \<and>
            pv_tokens_available_at p1 = rv_provider_tokens_available_at_after r
         then p1\<lparr>pv_tokens_available_at := rv_provider_tokens_available_at_before r\<rparr> else p1)"

definition change_provider ::
  "string \<Rightarrow> (provider_ledger \<Rightarrow> provider_ledger) \<Rightarrow> (string \<times> provider_ledger) list \<Rightarrow> (string \<times> provider_ledger) list" where
  "change_provider key f providers =
     (case map_of providers key of None \<Rightarrow> providers | Some p \<Rightarrow> AList.update key (f p) providers)"

definition unwind_reservation ::
  "llm_reservation \<Rightarrow> route_ledger \<times> (string \<times> provider_ledger) list \<Rightarrow> route_ledger \<times> (string \<times> provider_ledger) list" where
  "unwind_reservation r st =
     (case st of (led, providers) \<Rightarrow>
        (unwind_route r led,
         if rv_provider_key r \<noteq> '''' then change_provider (rv_provider_key r) (unwind_provider r) providers
         else providers))"

text \<open>The reservations of a ledger that have expired are undone one after the other.\<close>

definition drop_owner ::
  "string \<times> llm_reservation \<Rightarrow> route_ledger \<times> (string \<times> provider_ledger) list \<Rightarrow> route_ledger \<times> (string \<times> provider_ledger) list" where
  "drop_owner entry st =
     (case entry of (owner, r) \<Rightarrow>
        (case st of (led, providers) \<Rightarrow>
           unwind_reservation r (led\<lparr>lg_inflight := AList.delete owner (lg_inflight led)\<rparr>, providers)))"

definition reap_expired ::
  "instant \<Rightarrow> route_ledger \<times> (string \<times> provider_ledger) list \<Rightarrow> route_ledger \<times> (string \<times> provider_ledger) list" where
  "reap_expired now st =
     fold drop_owner (filter (\<lambda>(owner, r). stamp_expired now (rv_expires_at r)) (lg_inflight (fst st))) st"

subsection \<open>The current ledger of a route\<close>

definition roll_minute :: "instant \<Rightarrow> route_ledger \<Rightarrow> route_ledger" where
  "roll_minute now led =
     (if lg_requests_minute_key led \<noteq> minute_key now
      then led\<lparr>lg_requests_minute := 0, lg_tokens_minute := 0, lg_requests_minute_key := minute_key now\<rparr> else led)"

definition roll_day :: "day_clock \<Rightarrow> instant \<Rightarrow> quota_policy \<Rightarrow> route_ledger \<Rightarrow> exn + route_ledger" where
  "roll_day day now q led =
     (if qp_rpd q = None \<and> qp_tpd q = None then Inr led
      else bindE (day (qp_reset_timezone q) now) (\<lambda>dk.
        Inr (if lg_requests_day_key led \<noteq> dk then led\<lparr>lg_requests_day := 0, lg_requests_day_key := dk\<rparr> else led)))"

text \<open>The daily token count leaks away at the daily rate.\<close>

definition leak_tokens :: "instant \<Rightarrow> quota_policy \<Rightarrow> route_ledger \<Rightarrow> exn + route_ledger" where
  "leak_tokens now q led =
     (case qp_tpd q of
        None \<Rightarrow> Inr led
      | Some tpd \<Rightarrow>
          bindE (if lg_tokens_day_updated_at led = NoStamp then Inr now else read_stamp (lg_tokens_day_updated_at led))
            (\<lambda>updated_at.
               Inr (led\<lparr>lg_tokens_day := max 0 (lg_tokens_day led - max 0 (us_seconds (now - updated_at)) * tpd / 86400),
                        lg_tokens_day_updated_at := Stamp now\<rparr>)))"

definition drain_tokens :: "instant \<Rightarrow> quota_policy \<Rightarrow> route_ledger \<Rightarrow> exn + route_ledger" where
  "drain_tokens now q led =
     (if qp_tpm q = None \<or> lg_tokens_available_at led = NoStamp then Inr led
      else bindE (read_stamp (lg_tokens_available_at led)) (\<lambda>n.
        Inr (if n \<le> now then led\<lparr>lg_tokens_available_at := NoStamp, lg_tokens_minute := 0\<rparr> else led)))"

definition roll_cost :: "day_clock \<Rightarrow> instant \<Rightarrow> llm_route \<Rightarrow> route_ledger \<Rightarrow> exn + route_ledger" where
  "roll_cost day now route led =
     (let ck = cycle_key now 1;
          l1 = (if lg_cost_cycle_key led \<noteq> ck then led\<lparr>lg_cost_used := 0, lg_cost_cycle_key := ck\<rparr> else led)
      in if pc_daily_cost_cap (lr_pricing route) = None then Inr l1
         else bindE (day (qp_reset_timezone (lr_quota route)) now) (\<lambda>dk.
           Inr (if lg_cost_day_key l1 \<noteq> dk then l1\<lparr>lg_cost_day_used := 0, lg_cost_day_key := dk\<rparr> else l1)))"

definition roll_ledger :: "day_clock \<Rightarrow> instant \<Rightarrow> llm_route \<Rightarrow> route_ledger \<Rightarrow> exn + route_ledger" where
  "roll_ledger day now route led =
     bindE (roll_day day now (lr_quota route) (roll_minute now led)) (\<lambda>l1.
     bindE (leak_tokens now (lr_quota route) l1) (\<lambda>l2.
     bindE (drain_tokens now (lr_quota route) l2) (\<lambda>l3. roll_cost day now route l3)))"

definition put_route :: "string \<Rightarrow> route_ledger \<Rightarrow> llm_budget \<Rightarrow> llm_budget" where
  "put_route key led b = b\<lparr>lb_routes := AList.update key led (lb_routes b)\<rparr>"

text \<open>A ledger kept under the model's name moves to the physical key.\<close>

definition promote_legacy :: "string \<Rightarrow> llm_route \<Rightarrow> llm_budget \<Rightarrow> llm_budget" where
  "promote_legacy key route b =
     (case (map_of (lb_routes b) key, map_of (lb_routes b) (lr_model route)) of
        (None, Some led) \<Rightarrow>
          if key \<noteq> lr_model route
          then b\<lparr>lb_routes := AList.update key led (AList.delete (lr_model route) (lb_routes b))\<rparr> else b
      | _ \<Rightarrow> b)"

text \<open>\<open>_ledger\<close>: the ledger rolled to \<open>now\<close>, and the budget that holds it.\<close>

definition llm_ledger ::
  "day_clock \<Rightarrow> string \<Rightarrow> instant \<Rightarrow> llm_route \<Rightarrow> bool \<Rightarrow> llm_budget \<Rightarrow> exn + route_ledger option \<times> llm_budget" where
  "llm_ledger day model now route create b =
     (let key = route_key model route;
          b1 = promote_legacy key route b;
          found = (case map_of (lb_routes b1) key of
                     Some led \<Rightarrow> Some led
                   | None \<Rightarrow> if create then Some empty_route_ledger else None)
      in case found of
           None \<Rightarrow> Inr (None, b1)
         | Some led \<Rightarrow>
             bindE (roll_ledger day now route led) (\<lambda>rolled.
               case reap_expired now (rolled, lb_providers b1) of
                 (led', providers) \<Rightarrow> Inr (Some led', put_route key led' b1\<lparr>lb_providers := providers\<rparr>)))"

subsection \<open>Admission\<close>

text \<open>
  The provider's requests in flight, over all its routes; the expired ones met on the way are undone.
\<close>

definition count_entry ::
  "instant \<Rightarrow> string \<Rightarrow> string \<times> llm_reservation \<Rightarrow> (route_ledger \<times> (string \<times> provider_ledger) list) \<times> int \<Rightarrow>
     (route_ledger \<times> (string \<times> provider_ledger) list) \<times> int" where
  "count_entry now provider entry acc =
     (case acc of (st, n) \<Rightarrow>
        if rv_provider_key (snd entry) \<noteq> provider then (st, n)
        else if stamp_expired now (rv_expires_at (snd entry)) then (drop_owner entry st, n)
        else (st, n + 1))"

definition count_route :: "instant \<Rightarrow> string \<Rightarrow> string \<Rightarrow> llm_budget \<times> int \<Rightarrow> llm_budget \<times> int" where
  "count_route now provider key acc =
     (case acc of (b, n) \<Rightarrow>
        (case map_of (lb_routes b) key of
           None \<Rightarrow> (b, n)
         | Some led \<Rightarrow>
             (case fold (count_entry now provider) (lg_inflight led) ((led, lb_providers b), n) of
                ((led', providers), m) \<Rightarrow> (put_route key led' b\<lparr>lb_providers := providers\<rparr>, m))))"

definition provider_inflight :: "instant \<Rightarrow> string \<Rightarrow> llm_budget \<Rightarrow> llm_budget \<times> int" where
  "provider_inflight now provider b = fold (count_route now provider) (map fst (lb_routes b)) (b, 0)"

definition under_limit :: "rat option \<Rightarrow> rat \<Rightarrow> bool" where
  "under_limit limit x = (case limit of None \<Rightarrow> True | Some l \<Rightarrow> x \<le> l)"

text \<open>The schedules, fallible; then the counters.\<close>

definition rpm_admits :: "instant \<Rightarrow> quota_policy \<Rightarrow> route_ledger \<Rightarrow> int \<Rightarrow> exn + bool" where
  "rpm_admits now q led requests =
     (case qp_rpm q of
        None \<Rightarrow> Inr True
      | Some rpm \<Rightarrow>
          if lg_requests_available_at led \<noteq> NoStamp
          then bindE (read_stamp (lg_requests_available_at led)) (\<lambda>n. Inr (n \<le> now))
          else Inr (of_int (lg_requests_minute led + requests) \<le> max (of_int requests) rpm))"

definition tpm_admits :: "instant \<Rightarrow> quota_policy \<Rightarrow> route_ledger \<Rightarrow> exn + bool" where
  "tpm_admits now q led =
     (if qp_tpm q = None \<or> lg_tokens_available_at led = NoStamp then Inr True
      else bindE (read_stamp (lg_tokens_available_at led)) (\<lambda>n. Inr (n \<le> now)))"

definition andE :: "exn + bool \<Rightarrow> exn + bool \<Rightarrow> exn + bool" where
  "andE a b = bindE a (\<lambda>x. if x then b else Inr False)"

definition route_admits :: "instant \<Rightarrow> llm_route \<Rightarrow> route_ledger \<Rightarrow> int \<Rightarrow> int \<Rightarrow> rat \<Rightarrow> exn + bool" where
  "route_admits now route led requests tokens cost =
     (let q = lr_quota route; p = lr_pricing route in
      andE (rpm_admits now q led requests)
      (andE (Inr (under_limit (qp_rpd q) (of_int (lg_requests_day led + requests))))
      (andE (Inr (under_limit (qp_tpd q) (lg_tokens_day led + of_int tokens)))
      (andE (tpm_admits now q led)
      (Inr ((case qp_concurrency q of None \<Rightarrow> True | Some c \<Rightarrow> of_int (llm_inflight_count led) < c) \<and>
            under_limit (pc_cost_cap p) (lg_cost_used led + cost) \<and>
            under_limit (pc_daily_cost_cap p) (lg_cost_day_used led + cost)))))))"

definition provider_admits :: "instant \<Rightarrow> llm_route \<Rightarrow> provider_ledger option \<Rightarrow> exn + bool" where
  "provider_admits now route p =
     (case p of
        None \<Rightarrow> Inr True
      | Some led \<Rightarrow>
          andE (map_sum id Not (before_stamp now (pv_requests_available_at led)))
            (if (case lr_provider_tpm route of None \<Rightarrow> False | Some tpm \<Rightarrow> 0 < tpm)
             then map_sum id Not (before_stamp now (pv_tokens_available_at led)) else Inr True))"

definition llm_available ::
  "day_clock \<Rightarrow> string \<Rightarrow> llm_route \<Rightarrow> int \<Rightarrow> int \<Rightarrow> rat \<Rightarrow> instant \<Rightarrow> llm_budget \<Rightarrow> exn + bool \<times> llm_budget" where
  "llm_available day model route requests tokens cost now b =
     bindE (llm_ledger day model now route False b) (\<lambda>(found, b1).
       if (case lr_provider_tpm route of None \<Rightarrow> False | Some tpm \<Rightarrow> tpm \<le> 0) then Inr (False, b1)
       else
         (let counted = (if lr_provider_concurrency route = None then (b1, 0)
                         else provider_inflight now (lr_provider route) b1);
              b2 = fst counted
          in if (case lr_provider_concurrency route of None \<Rightarrow> False | Some c \<Rightarrow> c \<le> of_int (snd counted))
             then Inr (False, b2)
             else
               bindE (provider_admits now route (find_provider_ledger route b2)) (\<lambda>ok.
                 if \<not> ok then Inr (False, b2)
                 else
                   (case found of
                      None \<Rightarrow> Inr (True, b2)
                    | Some _ \<Rightarrow>
                        (case map_of (lb_routes b2) (route_key model route) of
                           None \<Rightarrow> Inr (True, b2)
                         | Some led \<Rightarrow>
                             bindE (before_stamp now (lg_blocked_until led)) (\<lambda>blocked.
                               if blocked then Inr (False, b2)
                               else bindE (route_admits now route led requests tokens cost) (\<lambda>admitted.
                                      Inr (admitted, b2))))))))"

subsection \<open>Operations\<close>

text \<open>An operation that always has its ledger: \<open>create=True\<close>.\<close>

definition with_ledger ::
  "day_clock \<Rightarrow> string \<Rightarrow> instant \<Rightarrow> llm_route \<Rightarrow> (route_ledger \<Rightarrow> llm_budget \<Rightarrow> exn + llm_budget) \<Rightarrow> llm_budget \<Rightarrow> exn + llm_budget" where
  "with_ledger day model now route body b =
     bindE (llm_ledger day model now route True b) (\<lambda>(found, b1).
       case found of None \<Rightarrow> Inl AssertionError | Some led \<Rightarrow> body led b1)"

definition llm_block :: "day_clock \<Rightarrow> string \<Rightarrow> instant \<Rightarrow> llm_route \<Rightarrow> instant \<Rightarrow> llm_budget \<Rightarrow> exn + llm_budget" where
  "llm_block day model until route now =
     with_ledger day model now route (\<lambda>led b.
       bindE (if lg_blocked_until led = NoStamp then Inr None else map_sum id Some (read_stamp (lg_blocked_until led)))
         (\<lambda>current.
            Inr (if (case current of None \<Rightarrow> True | Some c \<Rightarrow> c < until)
                 then put_route (route_key model route) (led\<lparr>lg_blocked_until := Stamp until\<rparr>) b else b)))"

definition find_inflight_owner :: "string \<Rightarrow> llm_budget \<Rightarrow> string option" where
  "find_inflight_owner owner b =
     map_option fst (find (\<lambda>(model, led). owner \<in> fst ` set (lg_inflight led)) (lb_routes b))"

text \<open>
  Reserving: the schedules the request moves, the ledger charged with it, and the reservation that can undo it.
\<close>

record schedules =
  sc_tokens :: stamp
  sc_requests :: stamp
  sc_provider_requests :: stamp
  sc_provider_tokens :: stamp

definition provider_stamps :: "provider_ledger option \<Rightarrow> stamp \<times> stamp" where
  "provider_stamps p =
     (case p of None \<Rightarrow> (NoStamp, NoStamp) | Some l \<Rightarrow> (pv_requests_available_at l, pv_tokens_available_at l))"

definition advance_schedules ::
  "llm_route \<Rightarrow> int \<Rightarrow> int \<Rightarrow> instant \<Rightarrow> route_ledger \<Rightarrow> provider_ledger option \<Rightarrow> exn + schedules" where
  "advance_schedules route requests tokens now led provider_led =
     bindE (case qp_tpm (lr_quota route) of
              None \<Rightarrow> Inr (lg_tokens_available_at led)
            | Some tpm \<Rightarrow>
                bindE (token_seconds tokens tpm) (\<lambda>s. advance_schedule (lg_tokens_available_at led) s now))
       (\<lambda>token_after.
     bindE (request_schedule_after (lg_requests_available_at led) (qp_rpm (lr_quota route)) requests now) (\<lambda>request_after.
     bindE (request_schedule_after (fst (provider_stamps provider_led)) (lr_provider_rpm route) requests now) (\<lambda>p_requests_after.
     bindE (case (provider_led, lr_provider_tpm route) of
              (Some _, Some tpm) \<Rightarrow>
                if 0 < tpm
                then bindE (token_seconds tokens tpm) (\<lambda>s. advance_schedule (snd (provider_stamps provider_led)) s now)
                else Inr (snd (provider_stamps provider_led))
            | _ \<Rightarrow> Inr (snd (provider_stamps provider_led))) (\<lambda>p_tokens_after.
       Inr \<lparr>sc_tokens = token_after, sc_requests = request_after, sc_provider_requests = p_requests_after,
            sc_provider_tokens = p_tokens_after\<rparr>))))"

definition charge_route :: "llm_route \<Rightarrow> int \<Rightarrow> int \<Rightarrow> rat \<Rightarrow> schedules \<Rightarrow> route_ledger \<Rightarrow> route_ledger" where
  "charge_route route requests tokens cost after led =
     led\<lparr>lg_cost_used := lg_cost_used led + cost,
         lg_cost_day_used := (if pc_daily_cost_cap (lr_pricing route) = None
                              then lg_cost_day_used led else lg_cost_day_used led + cost),
         lg_requests_minute := lg_requests_minute led + requests,
         lg_tokens_minute := lg_tokens_minute led + tokens,
         lg_tokens_day := (if qp_tpd (lr_quota route) = None then lg_tokens_day led
                           else lg_tokens_day led + of_int tokens),
         lg_requests_day := (if qp_rpd (lr_quota route) = None then lg_requests_day led
                             else lg_requests_day led + requests),
         lg_tokens_available_at := sc_tokens after,
         lg_requests_available_at := sc_requests after\<rparr>"

definition new_reservation ::
  "llm_route \<Rightarrow> int \<Rightarrow> int \<Rightarrow> rat \<Rightarrow> schedules \<Rightarrow> instant \<Rightarrow> route_ledger \<Rightarrow> provider_ledger option \<Rightarrow> llm_reservation" where
  "new_reservation route requests tokens cost after now led provider_led =
     \<lparr>rv_cost = cost, rv_requests = requests, rv_tokens = tokens,
      rv_minute_key = lg_requests_minute_key led, rv_day_key = lg_requests_day_key led,
      rv_cost_cycle_key = lg_cost_cycle_key led, rv_cost_day_key = lg_cost_day_key led,
      rv_tokens_available_at_before = lg_tokens_available_at led,
      rv_tokens_available_at_after = sc_tokens after,
      rv_tokens_minute_before = lg_tokens_minute led,
      rv_requests_available_at_before = lg_requests_available_at led,
      rv_requests_available_at_after = sc_requests after,
      rv_provider_key = (if provider_led = None then '''' else lr_provider route),
      rv_provider_requests_available_at_before = fst (provider_stamps provider_led),
      rv_provider_requests_available_at_after = sc_provider_requests after,
      rv_provider_tokens_available_at_before = snd (provider_stamps provider_led),
      rv_provider_tokens_available_at_after = sc_provider_tokens after,
      rv_reserved_at = Stamp now,
      rv_expires_at = Stamp (now + LLM_RESERVATION_TTL_SECONDS * 1000000)\<rparr>"

definition charge_provider :: "llm_route \<Rightarrow> schedules \<Rightarrow> provider_ledger option \<Rightarrow> llm_budget \<Rightarrow> llm_budget" where
  "charge_provider route after provider_led b =
     (if provider_led = None then b
      else b\<lparr>lb_providers := change_provider (lr_provider route)
               (\<lambda>p. p\<lparr>pv_requests_available_at := sc_provider_requests after,
                      pv_tokens_available_at := sc_provider_tokens after\<rparr>) (lb_providers b)\<rparr>)"

definition llm_reserve ::
  "day_clock \<Rightarrow> string \<Rightarrow> string \<Rightarrow> llm_route \<Rightarrow> int \<Rightarrow> int \<Rightarrow> rat \<Rightarrow> instant \<Rightarrow> llm_budget \<Rightarrow> exn + llm_budget" where
  "llm_reserve day owner model route requests tokens cost now =
     with_ledger day model now route (\<lambda>led b.
       if owner \<in> fst ` set (lg_inflight led) then Inr b
       else
         (case make_provider_ledger route b of (provider_led, b1) \<Rightarrow>
            bindE (advance_schedules route requests tokens now led provider_led) (\<lambda>after.
              let charged = charge_route route requests tokens cost after led;
                  r = new_reservation route requests tokens cost after now led provider_led
              in Inr (put_route (route_key model route)
                        (charged\<lparr>lg_inflight := AList.update owner r (lg_inflight charged)\<rparr>)
                        (charge_provider route after provider_led b1)))))"

text \<open>
  \<open>settle\<close>: each counter is corrected only in the window it was charged in, each schedule only when nothing was
  appended to it since.
\<close>

definition settle_counters :: "int option \<Rightarrow> int option \<Rightarrow> quota_policy \<Rightarrow> llm_reservation \<Rightarrow> route_ledger \<Rightarrow> route_ledger" where
  "settle_counters actual_requests actual_tokens q r led =
     (let same_minute = (lg_requests_minute_key led = rv_minute_key r);
          same_day = (rv_day_key r \<noteq> '''' \<and> lg_requests_day_key led = rv_day_key r)
      in led\<lparr>
        lg_requests_minute := (case actual_requests of
            Some a \<Rightarrow> if same_minute then max 0 (lg_requests_minute led + a - rv_requests r) else lg_requests_minute led
          | None \<Rightarrow> lg_requests_minute led),
        lg_tokens_minute := (case actual_tokens of
            Some a \<Rightarrow> if same_minute then max 0 (lg_tokens_minute led + a - rv_tokens r) else lg_tokens_minute led
          | None \<Rightarrow> lg_tokens_minute led),
        lg_tokens_day := (case actual_tokens of
            Some a \<Rightarrow> if qp_tpd q \<noteq> None then max 0 (lg_tokens_day led + of_int a - of_int (rv_tokens r))
                      else lg_tokens_day led
          | None \<Rightarrow> lg_tokens_day led),
        lg_requests_day := (case actual_requests of
            Some a \<Rightarrow> if same_day then max 0 (lg_requests_day led + a - rv_requests r) else lg_requests_day led
          | None \<Rightarrow> lg_requests_day led)\<rparr>)"

definition resettle_requests :: "int option \<Rightarrow> rat option \<Rightarrow> stamp \<Rightarrow> stamp \<Rightarrow> stamp \<Rightarrow> stamp \<Rightarrow> exn + stamp" where
  "resettle_requests actual rpm before after reserved_at current =
     (case (actual, rpm) of
        (Some a, Some _) \<Rightarrow>
          if after \<noteq> NoStamp \<and> current = after
          then bindE (read_stamp reserved_at) (\<lambda>t. request_schedule_after before rpm a t) else Inr current
      | _ \<Rightarrow> Inr current)"

definition resettle_tokens :: "int option \<Rightarrow> rat option \<Rightarrow> stamp \<Rightarrow> stamp \<Rightarrow> stamp \<Rightarrow> stamp \<Rightarrow> exn + stamp" where
  "resettle_tokens actual tpm before after reserved_at current =
     (case (actual, tpm) of
        (Some a, Some rate) \<Rightarrow>
          if after \<noteq> NoStamp \<and> current = after
          then bindE (read_stamp reserved_at) (\<lambda>t.
                 bindE (token_seconds a rate) (\<lambda>s. advance_schedule before s t))
          else Inr current
      | _ \<Rightarrow> Inr current)"

definition settle_provider ::
  "int option \<Rightarrow> int option \<Rightarrow> llm_route \<Rightarrow> llm_reservation \<Rightarrow> (string \<times> provider_ledger) list \<Rightarrow> exn + (string \<times> provider_ledger) list" where
  "settle_provider actual_requests actual_tokens route r providers =
     (if rv_provider_key r = '''' then Inr providers
      else
        (case map_of providers (rv_provider_key r) of
           None \<Rightarrow> Inr providers
         | Some p \<Rightarrow>
             bindE (resettle_requests actual_requests (lr_provider_rpm route) (rv_provider_requests_available_at_before r)
                      (rv_provider_requests_available_at_after r) (rv_reserved_at r) (pv_requests_available_at p)) (\<lambda>rs.
             bindE (resettle_tokens actual_tokens (lr_provider_tpm route) (rv_provider_tokens_available_at_before r)
                      (rv_provider_tokens_available_at_after r) (rv_reserved_at r) (pv_tokens_available_at p)) (\<lambda>ts.
               Inr (AList.update (rv_provider_key r)
                      (p\<lparr>pv_requests_available_at := rs, pv_tokens_available_at := ts\<rparr>) providers)))))"

definition settle_costs :: "rat option \<Rightarrow> llm_reservation \<Rightarrow> route_ledger \<Rightarrow> route_ledger" where
  "settle_costs actual_cost r led =
     (case actual_cost of
        None \<Rightarrow> led
      | Some a \<Rightarrow>
          (let l1 = (if lg_cost_cycle_key led = rv_cost_cycle_key r
                     then led\<lparr>lg_cost_used := max 0 (lg_cost_used led + a - rv_cost r)\<rparr> else led)
           in if rv_cost_day_key r \<noteq> '''' \<and> lg_cost_day_key l1 = rv_cost_day_key r
              then l1\<lparr>lg_cost_day_used := max 0 (lg_cost_day_used l1 + a - rv_cost r)\<rparr> else l1))"

definition llm_settle ::
  "day_clock \<Rightarrow> string \<Rightarrow> string \<Rightarrow> llm_route \<Rightarrow> int option \<Rightarrow> int option \<Rightarrow> rat option \<Rightarrow> instant \<Rightarrow> llm_budget \<Rightarrow> exn + llm_budget" where
  "llm_settle day owner model route actual_requests actual_tokens actual_cost now =
     with_ledger day model now route (\<lambda>led b.
       case map_of (lg_inflight led) owner of
         None \<Rightarrow> Inr b
       | Some r \<Rightarrow>
           (let l1 = settle_counters actual_requests actual_tokens (lr_quota route) r
                       (led\<lparr>lg_inflight := AList.delete owner (lg_inflight led)\<rparr>)
            in
            bindE (resettle_requests actual_requests (qp_rpm (lr_quota route)) (rv_requests_available_at_before r)
                     (rv_requests_available_at_after r) (rv_reserved_at r) (lg_requests_available_at l1)) (\<lambda>rs.
            bindE (resettle_tokens actual_tokens (qp_tpm (lr_quota route)) (rv_tokens_available_at_before r)
                     (rv_tokens_available_at_after r) (rv_reserved_at r) (lg_tokens_available_at l1)) (\<lambda>ts.
            bindE (settle_provider actual_requests actual_tokens route r (lb_providers b)) (\<lambda>providers.
              Inr (put_route (route_key model route)
                     (settle_costs actual_cost r (l1\<lparr>lg_requests_available_at := rs, lg_tokens_available_at := ts\<rparr>))
                     (b\<lparr>lb_providers := providers\<rparr>)))))))"

definition llm_release :: "day_clock \<Rightarrow> string \<Rightarrow> string \<Rightarrow> llm_route \<Rightarrow> instant \<Rightarrow> llm_budget \<Rightarrow> exn + llm_budget" where
  "llm_release day owner model route now =
     with_ledger day model now route (\<lambda>led b.
       case map_of (lg_inflight led) owner of
         None \<Rightarrow> Inr b
       | Some r \<Rightarrow>
           (case drop_owner (owner, r) (led, lb_providers b) of
              (led', providers) \<Rightarrow>
                Inr (put_route (route_key model route) led' (b\<lparr>lb_providers := providers\<rparr>))))"

subsection \<open>Stored form\<close>

definition text_or_null :: "string \<Rightarrow> json" where
  "text_or_null s = (if s = '''' then JNull else JStr s)"

definition reservation_to_json :: "llm_reservation \<Rightarrow> json" where
  "reservation_to_json r =
     JObj [(''cost'', JFloat (rv_cost r)), (''requests'', JInt (rv_requests r)), (''tokens'', JInt (rv_tokens r)),
           (''minute_key'', JStr (rv_minute_key r)), (''day_key'', JStr (rv_day_key r)),
           (''cost_cycle_key'', JStr (rv_cost_cycle_key r)), (''cost_day_key'', JStr (rv_cost_day_key r)),
           (''tokens_available_at_before'', stamp_json (rv_tokens_available_at_before r)),
           (''tokens_available_at_after'', stamp_json (rv_tokens_available_at_after r)),
           (''tokens_minute_before'', JInt (rv_tokens_minute_before r)),
           (''requests_available_at_before'', stamp_json (rv_requests_available_at_before r)),
           (''requests_available_at_after'', stamp_json (rv_requests_available_at_after r)),
           (''provider_key'', text_or_null (rv_provider_key r)),
           (''provider_requests_available_at_before'', stamp_json (rv_provider_requests_available_at_before r)),
           (''provider_requests_available_at_after'', stamp_json (rv_provider_requests_available_at_after r)),
           (''provider_tokens_available_at_before'', stamp_json (rv_provider_tokens_available_at_before r)),
           (''provider_tokens_available_at_after'', stamp_json (rv_provider_tokens_available_at_after r)),
           (''reserved_at'', stamp_json (rv_reserved_at r)), (''expires_at'', stamp_json (rv_expires_at r))]"

definition route_ledger_to_json :: "route_ledger \<Rightarrow> json" where
  "route_ledger_to_json l =
     JObj [(''cost_used'', JFloat (lg_cost_used l)), (''cost_cycle_key'', JStr (lg_cost_cycle_key l)),
           (''cost_day_used'', JFloat (lg_cost_day_used l)), (''cost_day_key'', JStr (lg_cost_day_key l)),
           (''requests_minute'', JInt (lg_requests_minute l)), (''requests_minute_key'', JStr (lg_requests_minute_key l)),
           (''tokens_day'', JFloat (lg_tokens_day l)), (''tokens_day_updated_at'', stamp_json (lg_tokens_day_updated_at l)),
           (''requests_day'', JInt (lg_requests_day l)), (''requests_day_key'', JStr (lg_requests_day_key l)),
           (''tokens_minute'', JInt (lg_tokens_minute l)),
           (''requests_available_at'', stamp_json (lg_requests_available_at l)),
           (''tokens_available_at'', stamp_json (lg_tokens_available_at l)),
           (''blocked_until'', stamp_json (lg_blocked_until l)),
           (''inflight'', JObj (map (map_prod id reservation_to_json) (lg_inflight l)))]"

definition provider_ledger_to_json :: "provider_ledger \<Rightarrow> json" where
  "provider_ledger_to_json p =
     JObj [(''requests_available_at'', stamp_json (pv_requests_available_at p)),
           (''tokens_available_at'', stamp_json (pv_tokens_available_at p))]"

definition llm_budget_to_dict :: "llm_budget \<Rightarrow> pydict" where
  "llm_budget_to_dict b =
     [(''version'', JInt 1),
      (''routes'', JObj (map (map_prod id route_ledger_to_json) (lb_routes b))),
      (''providers'', JObj (map (map_prod id provider_ledger_to_json) (lb_providers b)))]"

text \<open>\<open>str(raw.get(key) or "")\<close>\<close>

definition get_text :: "pydict \<Rightarrow> string \<Rightarrow> string" where
  "get_text raw key = (let v = dget raw key JNull in if py_truthy v then py_str v else '''')"

definition get_stamp :: "pydict \<Rightarrow> string \<Rightarrow> stamp" where
  "get_stamp raw key = stamp_of (dget raw key JNull)"

definition reservation_from_json :: "json \<Rightarrow> exn + llm_reservation" where
  "reservation_from_json j =
     (let raw = as_dict j in
      bindE (py_float (dget raw ''cost'' (JFloat 0))) (\<lambda>cost.
      bindE (py_int (dget raw ''requests'' (JInt 0))) (\<lambda>requests.
      bindE (py_int (dget raw ''tokens'' (JInt 0))) (\<lambda>tokens.
      bindE (py_int (dget raw ''tokens_minute_before'' (JInt 0))) (\<lambda>tokens_minute_before.
        Inr \<lparr>rv_cost = cost, rv_requests = requests, rv_tokens = tokens,
             rv_minute_key = get_text raw ''minute_key'', rv_day_key = get_text raw ''day_key'',
             rv_cost_cycle_key = get_text raw ''cost_cycle_key'', rv_cost_day_key = get_text raw ''cost_day_key'',
             rv_tokens_available_at_before = get_stamp raw ''tokens_available_at_before'',
             rv_tokens_available_at_after = get_stamp raw ''tokens_available_at_after'',
             rv_tokens_minute_before = tokens_minute_before,
             rv_requests_available_at_before = get_stamp raw ''requests_available_at_before'',
             rv_requests_available_at_after = get_stamp raw ''requests_available_at_after'',
             rv_provider_key = get_text raw ''provider_key'',
             rv_provider_requests_available_at_before = get_stamp raw ''provider_requests_available_at_before'',
             rv_provider_requests_available_at_after = get_stamp raw ''provider_requests_available_at_after'',
             rv_provider_tokens_available_at_before = get_stamp raw ''provider_tokens_available_at_before'',
             rv_provider_tokens_available_at_after = get_stamp raw ''provider_tokens_available_at_after'',
             rv_reserved_at = get_stamp raw ''reserved_at'', rv_expires_at = get_stamp raw ''expires_at''\<rparr>)))))"

definition route_ledger_from_json :: "json \<Rightarrow> exn + route_ledger" where
  "route_ledger_from_json j =
     (let raw = as_dict j in
      bindE (dict_items raw ''inflight'') (\<lambda>items.
      bindE (map_valuesE reservation_from_json (filter (\<lambda>(_, v). is_obj v) items)) (\<lambda>inflight.
      bindE (py_float (dget raw ''cost_used'' (JFloat 0))) (\<lambda>cost_used.
      bindE (py_float (dget raw ''cost_day_used'' (JFloat 0))) (\<lambda>cost_day_used.
      bindE (py_int (dget raw ''requests_minute'' (JInt 0))) (\<lambda>requests_minute.
      bindE (py_float (dget raw ''tokens_day'' (JInt 0))) (\<lambda>tokens_day.
      bindE (py_int (dget raw ''requests_day'' (JInt 0))) (\<lambda>requests_day.
      bindE (py_int (dget raw ''tokens_minute'' (JInt 0))) (\<lambda>tokens_minute.
        Inr \<lparr>lg_cost_used = cost_used, lg_cost_cycle_key = get_text raw ''cost_cycle_key'',
             lg_cost_day_used = cost_day_used, lg_cost_day_key = get_text raw ''cost_day_key'',
             lg_requests_minute = requests_minute, lg_requests_minute_key = get_text raw ''requests_minute_key'',
             lg_tokens_day = tokens_day, lg_tokens_day_updated_at = get_stamp raw ''tokens_day_updated_at'',
             lg_requests_day = requests_day, lg_requests_day_key = get_text raw ''requests_day_key'',
             lg_tokens_minute = tokens_minute, lg_tokens_available_at = get_stamp raw ''tokens_available_at'',
             lg_requests_available_at = get_stamp raw ''requests_available_at'', lg_inflight = inflight,
             lg_blocked_until = get_stamp raw ''blocked_until''\<rparr>)))))))))"

definition provider_ledger_from_json :: "json \<Rightarrow> exn + provider_ledger" where
  "provider_ledger_from_json j =
     (let raw = as_dict j in
      Inr \<lparr>pv_requests_available_at = get_stamp raw ''requests_available_at'',
           pv_tokens_available_at = get_stamp raw ''tokens_available_at''\<rparr>)"

definition llm_budget_from_dict :: "pydict \<Rightarrow> exn + llm_budget" where
  "llm_budget_from_dict data =
     bindE (dict_items data ''routes'') (\<lambda>route_items.
     bindE (map_valuesE route_ledger_from_json (filter (\<lambda>(_, v). is_obj v) route_items)) (\<lambda>routes.
     bindE (dict_items data ''providers'') (\<lambda>provider_items.
     bindE (map_valuesE provider_ledger_from_json (filter (\<lambda>(_, v). is_obj v) provider_items)) (\<lambda>providers.
       Inr \<lparr>lb_routes = routes, lb_providers = providers\<rparr>))))"

definition serialize_llm_budget :: "llm_budget \<Rightarrow> blob" where
  "serialize_llm_budget b = dumps_sorted (JObj (llm_budget_to_dict b))"

definition decode_llm_budget :: "blob \<Rightarrow> llm_budget" where
  "decode_llm_budget data =
     (case bindE (json_loads data) (\<lambda>parsed. llm_budget_from_dict (as_dict parsed)) of
        Inl _ \<Rightarrow> empty_llm_budget
      | Inr b \<Rightarrow> b)"

subsection \<open>The durable ledger\<close>

definition load_llm_budget_cas :: "(llm_budget \<times> etag option) io" where
  "load_llm_budget_cas =
     bind (get_bytes LLM_BUDGET_STATE_KEY) (\<lambda>got.
       case got of
         None \<Rightarrow> Ret (empty_llm_budget, None)
       | Some (data, etag) \<Rightarrow> Ret (decode_llm_budget data, Some etag))"

text \<open>The clock is read anew before every attempt, unless the caller gave the time.\<close>

primrec mutate_llm_budget_loop ::
  "nat \<Rightarrow> exn option \<Rightarrow> (instant \<Rightarrow> llm_budget \<Rightarrow> exn + llm_budget) \<Rightarrow> instant option \<Rightarrow> llm_budget io" where
  "mutate_llm_budget_loop 0 prev mutate now_arg =
     (case prev of None \<Rightarrow> Raise AssertionError | Some e \<Rightarrow> Raise e)"
| "mutate_llm_budget_loop (Suc attempts) prev mutate now_arg =
     bind (now_or_clock now_arg) (\<lambda>now.
     bind load_llm_budget_cas (\<lambda>(b, etag).
     bind (liftE (mutate now b)) (\<lambda>b'.
     bind (attempt (put_cas LLM_BUDGET_STATE_KEY (serialize_llm_budget b') (cond_of etag))) (\<lambda>r.
       case r of
         Inr _ \<Rightarrow> Ret b'
       | Inl e \<Rightarrow>
           if is_conflict e then mutate_llm_budget_loop attempts (Some e) mutate now_arg else Raise e))))"

definition mutate_llm_budget ::
  "(instant \<Rightarrow> llm_budget \<Rightarrow> exn + llm_budget) \<Rightarrow> instant option \<Rightarrow> nat \<Rightarrow> llm_budget io" where
  "mutate_llm_budget mutate now_arg max_attempts = mutate_llm_budget_loop max_attempts None mutate now_arg"

definition settle_route_reservation ::
  "day_clock \<Rightarrow> string \<Rightarrow> string \<Rightarrow> llm_route \<Rightarrow> int option \<Rightarrow> int option \<Rightarrow> rat option \<Rightarrow> instant option \<Rightarrow> nat \<Rightarrow> llm_budget io" where
  "settle_route_reservation day owner model route actual_requests actual_tokens actual_cost =
     mutate_llm_budget (llm_settle day owner model route actual_requests actual_tokens actual_cost)"

definition release_route_reservation ::
  "day_clock \<Rightarrow> string \<Rightarrow> string \<Rightarrow> llm_route \<Rightarrow> instant option \<Rightarrow> nat \<Rightarrow> llm_budget io" where
  "release_route_reservation day owner model route = mutate_llm_budget (llm_release day owner model route)"

definition block_route_until ::
  "day_clock \<Rightarrow> string \<Rightarrow> instant \<Rightarrow> llm_route \<Rightarrow> instant option \<Rightarrow> nat \<Rightarrow> llm_budget io" where
  "block_route_until day model until route = mutate_llm_budget (llm_block day model until route)"

end
