(* ===== verification/LLM_Scheduler.thy ===== *)
theory LLM_Scheduler
  imports LLM_Budget "HOL-Library.Product_Lexorder"
begin

section \<open>Choosing a route and reserving it\<close>

text \<open>
  \<open>citypods/compute/llm_scheduler.py\<close>: the gates every route passes, the wait for a cheaper price, the prediction
  of the next free moment, the ranking, and the reservation written by compare-and-swap. The catalogue, the
  aliases, the time zones and the fresh owner ids are parameters. A selection rolls the ledger's windows, so it
  returns the ledger too.
\<close>

record zones =
  zn_local :: "string \<Rightarrow> instant \<Rightarrow> instant option"
  zn_utc :: "string \<Rightarrow> instant \<Rightarrow> instant"

text \<open>\<open>daily_reset_key\<close>: the local calendar day; an unknown zone raises.\<close>

definition daily_reset_key :: "zones \<Rightarrow> day_clock" where
  "daily_reset_key z tz now =
     (case zn_local z tz now of
        None \<Rightarrow> Inl (OtherError ''ZoneInfoNotFoundError'')
      | Some local \<Rightarrow> Inr (iso_date (civil_of local)))"

record selection =
  se_model :: "string option"
  se_route :: "llm_route option"
  se_reason :: string
  se_rejected :: "(string \<times> string) list"
  se_owner :: "string option"
  se_retry_at :: "instant option"
  se_reserved_requests :: "int option"
  se_reserved_tokens :: "int option"
  se_transport :: "string option"

definition no_selection :: "string \<Rightarrow> (string \<times> string) list \<Rightarrow> instant option \<Rightarrow> selection" where
  "no_selection reason rejected retry_at =
     \<lparr>se_model = None, se_route = None, se_reason = reason, se_rejected = rejected, se_owner = None,
      se_retry_at = retry_at, se_reserved_requests = None, se_reserved_tokens = None, se_transport = None\<rparr>"

definition DISPATCH_TRANSPORT :: string where "DISPATCH_TRANSPORT = ''llm-dispatch-v2''"

definition reservation_size :: "llm_route \<Rightarrow> int \<Rightarrow> int \<Rightarrow> string option \<Rightarrow> exn + int \<times> int" where
  "reservation_size route requests tokens transport =
     (let max_attempts = (if transport = Some DISPATCH_TRANSPORT then 1
                          else (case lr_max_provider_attempts route of
                                  Some a \<Rightarrow> if a \<noteq> 0 then a else requests
                                | None \<Rightarrow> requests));
          route_requests = min requests max_attempts
      in bindE (div_py (of_int tokens) (of_int requests)) (\<lambda>per_attempt.
           Inr (route_requests, max 1 \<lceil>per_attempt\<rceil> * route_requests)))"

subsection \<open>Price windows\<close>

definition window_bounds :: "zones \<Rightarrow> peak_window \<Rightarrow> instant \<Rightarrow> (instant \<times> instant) option" where
  "window_bounds z w now =
     (case zn_local z (pw_tz w) now of
        None \<Rightarrow> None
      | Some local \<Rightarrow>
          (let midnight = local div us_per_day * us_per_day;
               bounds =
                 (if pw_start w < pw_end w then
                    (if midnight + pw_end w \<le> local
                     then (midnight + pw_start w + us_per_day, midnight + pw_end w + us_per_day)
                     else (midnight + pw_start w, midnight + pw_end w))
                  else if local mod us_per_day < pw_end w
                  then (midnight - us_per_day + pw_start w, midnight + pw_end w)
                  else (midnight + pw_start w, midnight + us_per_day + pw_end w))
           in Some (zn_utc z (pw_tz w) (fst bounds), zn_utc z (pw_tz w) (snd bounds))))"

definition window_open :: "zones \<Rightarrow> instant \<Rightarrow> peak_window \<Rightarrow> bool" where
  "window_open z now w =
     (case window_bounds z w now of None \<Rightarrow> False | Some (start, end) \<Rightarrow> start \<le> now \<and> now < end)"

definition active_multiplier :: "zones \<Rightarrow> llm_route \<Rightarrow> instant \<Rightarrow> rat" where
  "active_multiplier z route now =
     (case rates_at (lr_pricing route) now of
        (_, _, windows) \<Rightarrow>
          (case find (window_open z now) windows of None \<Rightarrow> 1 | Some w \<Rightarrow> pw_multiplier w))"

definition min_of :: "'a::linorder list \<Rightarrow> 'a option" where
  "min_of xs = (case xs of [] \<Rightarrow> None | x # rest \<Rightarrow> Some (fold min rest x))"

definition next_cheapest_window :: "zones \<Rightarrow> llm_route \<Rightarrow> instant \<Rightarrow> instant option" where
  "next_cheapest_window z route now =
     (case rates_at (lr_pricing route) now of
        (_, _, windows) \<Rightarrow>
          (if windows = [] then None
           else
             (let active = active_multiplier z route now;
                  cheapest = fold min (map pw_multiplier windows) 1
              in if active \<le> cheapest then None
                 else
                   (let cheapest_at =
                          (if cheapest = 1
                           then (case find (\<lambda>w. window_open z now w \<and> pw_multiplier w = active) windows of
                                   None \<Rightarrow> None
                                 | Some w \<Rightarrow> map_option snd (window_bounds z w now))
                           else min_of (filter (\<lambda>t. now < t)
                                  (List.map_filter (\<lambda>w. if pw_multiplier w = cheapest
                                                    then map_option fst (window_bounds z w now) else None) windows)));
                        next_period = min_of (filter (\<lambda>t. now < t) (map pp_effective_at (pc_periods (lr_pricing route))))
                    in min_of (List.map_filter id [cheapest_at, next_period])))))"

subsection \<open>The next free moment\<close>

definition next_minute :: "instant \<Rightarrow> instant" where
  "next_minute now = (now div 60000000 + 1) * 60000000"

definition next_local_midnight :: "zones \<Rightarrow> string \<Rightarrow> instant \<Rightarrow> exn + instant" where
  "next_local_midnight z tz now =
     (case zn_local z tz now of
        None \<Rightarrow> Inl (OtherError ''ZoneInfoNotFoundError'')
      | Some local \<Rightarrow> Inr (zn_utc z tz ((local div us_per_day + 1) * us_per_day)))"

text \<open>A schedule's end, when it is still ahead.\<close>

definition pending :: "instant \<Rightarrow> stamp \<Rightarrow> exn + instant list" where
  "pending now s =
     (if s = NoStamp then Inr [] else bindE (read_stamp s) (\<lambda>n. Inr (if now < n then [n] else [])))"

definition over_limit :: "rat option \<Rightarrow> rat \<Rightarrow> bool" where
  "over_limit limit x = (case limit of None \<Rightarrow> False | Some l \<Rightarrow> l < x)"

definition appendE :: "exn + 'a list \<Rightarrow> exn + 'a list \<Rightarrow> exn + 'a list" where
  "appendE xs ys = bindE xs (\<lambda>a. bindE ys (\<lambda>b. Inr (a @ b)))"

definition quota_resets ::
  "zones \<Rightarrow> llm_route \<Rightarrow> route_ledger \<Rightarrow> instant \<Rightarrow> int \<Rightarrow> int \<Rightarrow> rat \<Rightarrow> provider_ledger option \<Rightarrow> exn + instant list" where
  "quota_resets z route led now requests tokens cost provider_led =
     (let q = lr_quota route; p = lr_pricing route;
          midnight = map_sum id (\<lambda>t. [t]) (next_local_midnight z (qp_reset_timezone q) now)
      in
      appendE
        (case qp_rpm q of
           None \<Rightarrow> Inr []
         | Some rpm \<Rightarrow>
             if lg_requests_available_at led \<noteq> NoStamp then pending now (lg_requests_available_at led)
             else if max (of_int requests) rpm < of_int (lg_requests_minute led + requests) then Inr [next_minute now]
             else Inr [])
      (appendE
        (case (lr_provider_rpm route, provider_led) of
           (Some _, Some pl) \<Rightarrow> pending now (pv_requests_available_at pl)
         | _ \<Rightarrow> Inr [])
      (appendE (if qp_tpm q = None then Inr [] else pending now (lg_tokens_available_at led))
      (appendE
        (case qp_tpd q of
           None \<Rightarrow> Inr []
         | Some tpd \<Rightarrow>
             if tpd < lg_tokens_day led + of_int tokens
             then bindE (div_py ((lg_tokens_day led + of_int tokens - tpd) * 86400) tpd) (\<lambda>s. Inr [now + timedelta_us s])
             else Inr [])
      (appendE (if over_limit (qp_rpd q) (of_int (lg_requests_day led + requests)) then midnight else Inr [])
      (appendE (if over_limit (pc_daily_cost_cap p) (lg_cost_day_used led + cost) then midnight else Inr [])
         (pending now (lg_blocked_until led))))))))"

definition next_quota_reset ::
  "zones \<Rightarrow> llm_route \<Rightarrow> route_ledger \<Rightarrow> instant \<Rightarrow> int \<Rightarrow> int \<Rightarrow> rat \<Rightarrow> provider_ledger option \<Rightarrow> exn + instant" where
  "next_quota_reset z route led now requests tokens cost provider_led =
     bindE (quota_resets z route led now requests tokens cost provider_led) (\<lambda>resets.
       case resets of [] \<Rightarrow> Inr (next_minute now) | t # ts \<Rightarrow> Inr (fold max ts t))"

definition estimated_cost :: "zones \<Rightarrow> llm_route \<Rightarrow> int \<Rightarrow> instant \<Rightarrow> rat" where
  "estimated_cost z route estimated_tokens now =
     (case rates_at (lr_pricing route) now of
        (input_rate, output_rate, _) \<Rightarrow>
          of_int estimated_tokens * (input_rate + output_rate) * active_multiplier z route now)"

definition cost_caps_allow_at ::
  "zones \<Rightarrow> string \<Rightarrow> llm_route \<Rightarrow> rat \<Rightarrow> instant \<Rightarrow> instant \<Rightarrow> llm_budget \<Rightarrow> exn + bool \<times> llm_budget" where
  "cost_caps_allow_at z key route cost later now b =
     bindE (llm_ledger (daily_reset_key z) key now route False b) (\<lambda>(found, b1).
       case found of
         None \<Rightarrow> Inr (True, b1)
       | Some entry \<Rightarrow>
           bindE (daily_reset_key z (qp_reset_timezone (lr_quota route)) later) (\<lambda>day_at.
             let cycle_used = (if lg_cost_cycle_key entry = cycle_key later 1 then lg_cost_used entry else 0);
                 day_used = (if lg_cost_day_key entry = day_at then lg_cost_day_used entry else 0)
             in Inr (under_limit (pc_cost_cap (lr_pricing route)) (cycle_used + cost) \<and>
                     under_limit (pc_daily_cost_cap (lr_pricing route)) (day_used + cost), b1)))"

definition utilization :: "llm_route \<Rightarrow> route_ledger \<Rightarrow> rat" where
  "utilization route led =
     (case (case qp_rpm (lr_quota route) of None \<Rightarrow> [] | Some r \<Rightarrow> if r = 0 then [] else [of_int (lg_requests_minute led) / r]) @
           (case qp_rpd (lr_quota route) of None \<Rightarrow> [] | Some r \<Rightarrow> if r = 0 then [] else [of_int (lg_requests_day led) / r]) of
        [] \<Rightarrow> 0
      | f # fs \<Rightarrow> fold max fs f)"

definition selected_transport :: "llm_route \<Rightarrow> string list \<Rightarrow> bool \<Rightarrow> string option" where
  "selected_transport route available_transports allow_dispatch_overflow =
     (let reachable = set (lr_transports route) \<inter> set available_transports in
      if reachable = {} then None
      else if DISPATCH_TRANSPORT \<in> reachable \<and> (allow_dispatch_overflow \<or> ''direct'' \<notin> reachable)
      then Some DISPATCH_TRANSPORT else Some ''direct'')"

definition owner_for :: "string \<Rightarrow> string \<Rightarrow> string option \<Rightarrow> string" where
  "owner_for fresh_id recipe_hash transport =
     (if transport = Some DISPATCH_TRANSPORT then recipe_hash else recipe_hash @ '':'' @ fresh_id)"

subsection \<open>Selection\<close>

record catalog =
  ct_routes :: "(string \<times> llm_route) list"
  ct_aliases :: "(string \<times> string) list"
  ct_routing :: "(string \<times> string list) list"

record llm_request =
  rq_estimated_tokens :: int
  rq_input_tokens :: "int option"
  rq_output_tokens :: "int option"
  rq_requests :: int

definition requested_models :: "catalog \<Rightarrow> llm_request_policy \<Rightarrow> string list option" where
  "requested_models c policy = map_option (map (canonical_model (ct_aliases c))) (rp_allowed_models policy)"

text \<open>The requested models and the overflow targets configured for them.\<close>

definition allowed_models :: "catalog \<Rightarrow> llm_request_policy \<Rightarrow> string list option" where
  "allowed_models c policy =
     map_option
       (\<lambda>models. concat (map (\<lambda>m. m # map (canonical_model (ct_aliases c))
                                     (case map_of (ct_routing c) m of None \<Rightarrow> [] | Some ts \<Rightarrow> ts)) models))
       (requested_models c policy)"

record candidate =
  cd_route :: llm_route
  cd_route_key :: string
  cd_cost :: rat
  cd_predicted :: instant
  cd_utilization :: rat
  cd_requests :: int
  cd_tokens :: int
  cd_transport :: "string option"

record selection_state =
  st_rejected :: "(string \<times> string) list"
  st_candidates :: "candidate list"
  st_retry_ats :: "instant list"
  st_ledger :: llm_budget

definition reject :: "string \<Rightarrow> string \<Rightarrow> selection_state \<Rightarrow> selection_state" where
  "reject model reason st = st\<lparr>st_rejected := st_rejected st @ [(model, reason)]\<rparr>"

text \<open>The gates that do not look at the ledger: the route as the candidate it is admitted for, or the reason.\<close>

definition pool_for :: "string list option \<Rightarrow> string list option \<Rightarrow> llm_route \<Rightarrow> string + llm_route" where
  "pool_for allowed requested route =
     (case allowed of
        None \<Rightarrow> Inr route
      | Some names \<Rightarrow>
          (if lr_model route \<in> set names then Inr route
           else
             (case find (\<lambda>p. p \<in> set (case requested of None \<Rightarrow> [] | Some rs \<Rightarrow> rs) \<or> p \<in> set names) (lr_also_serves route) of
                None \<Rightarrow> Inl ''allowlist gate''
              | Some pool \<Rightarrow> Inr (route\<lparr>lr_model := pool\<rparr>))))"

definition static_gates ::
  "catalog \<Rightarrow> llm_request_policy \<Rightarrow> string list \<Rightarrow> llm_request \<Rightarrow> llm_route \<Rightarrow> (string \<times> string) + llm_route" where
  "static_gates c policy transports req route =
     (if (case rp_allowed_route_ids policy of None \<Rightarrow> False | Some ids \<Rightarrow> lr_route_id route \<notin> set ids)
      then Inl (lr_model route, ''physical route allowlist gate'')
      else if \<not> list_ex (\<lambda>t. t \<in> set transports) (lr_transports route) then Inl (lr_model route, ''transport gate'')
      else
        (case pool_for (allowed_models c policy) (requested_models c policy) route of
           Inl why \<Rightarrow> Inl (lr_model route, why)
         | Inr r \<Rightarrow>
             (let input = (case rq_input_tokens req of None \<Rightarrow> rq_estimated_tokens req | Some n \<Rightarrow> n);
                  route_input = route_input_tokens input (Some r)
              in if lr_input_context_limit r < route_input then Inl (lr_model r, ''input context limit'')
                 else if (case lr_hard_input_ceiling r of None \<Rightarrow> False | Some cap_tokens \<Rightarrow> cap_tokens < route_input)
                 then Inl (lr_model r, ''hard input ceiling'')
                 else if lr_output_context_limit r < (case rq_output_tokens req of None \<Rightarrow> 0 | Some n \<Rightarrow> n)
                 then Inl (lr_model r, ''output context limit'')
                 else if \<not> rp_allow_paid policy \<and> \<not> lr_free r then Inl (lr_model r, ''paid model disallowed'')
                 else if lr_experimental r \<and> \<not> rp_allow_experimental policy
                 then Inl (lr_model r, ''experimental route disallowed'')
                 else Inr r)))"

definition route_estimate :: "llm_request \<Rightarrow> llm_route \<Rightarrow> int" where
  "route_estimate req route =
     (case rq_input_tokens req of
        Some input \<Rightarrow>
          rq_estimated_tokens req + max 0 (route_input_tokens input (Some route) - input) * max 1 (rq_requests req)
      | None \<Rightarrow> route_input_tokens (rq_estimated_tokens req) (Some route))"

text \<open>What happens to a route the ledger does not admit: its ledger must exist, or the assertion fails.\<close>

definition reject_exhausted ::
  "zones \<Rightarrow> llm_request_policy \<Rightarrow> string \<Rightarrow> llm_route \<Rightarrow> int \<Rightarrow> int \<Rightarrow> rat \<Rightarrow> instant \<Rightarrow> selection_state \<Rightarrow> exn + selection_state" where
  "reject_exhausted z policy key route requests tokens cost now st =
     bindE (llm_ledger (daily_reset_key z) key now route False (st_ledger st)) (\<lambda>(found, b).
       case found of
         None \<Rightarrow> Inl AssertionError
       | Some led \<Rightarrow>
           bindE (next_quota_reset z route led now requests tokens cost (find_provider_ledger route b)) (\<lambda>predicted.
             let st1 = st\<lparr>st_ledger := b, st_retry_ats := st_retry_ats st @ [predicted]\<rparr> in
             Inr (if (case rp_deadline_at policy of None \<Rightarrow> False | Some d \<Rightarrow> d < predicted)
                  then reject (lr_model route) (''deadline gate: next eligibility '' @ iso_text (Aware predicted)) st1
                  else reject (lr_model route) ''quota or budget exhausted'' st1)))"

definition admit_candidate ::
  "zones \<Rightarrow> llm_request_policy \<Rightarrow> string \<Rightarrow> llm_route \<Rightarrow> int \<Rightarrow> int \<Rightarrow> rat \<Rightarrow> string option \<Rightarrow> instant \<Rightarrow> selection_state \<Rightarrow> exn + selection_state" where
  "admit_candidate z policy key route requests tokens cost transport now st =
     (if (case rp_deadline_at policy of None \<Rightarrow> False | Some d \<Rightarrow> d < now)
      then Inr (reject (lr_model route) ''deadline gate'' st)
      else
        bindE (llm_ledger (daily_reset_key z) key now route False (st_ledger st)) (\<lambda>(found, b).
          Inr (st\<lparr>st_ledger := b,
                  st_candidates := st_candidates st @
                    [\<lparr>cd_route = route, cd_route_key = key, cd_cost = cost, cd_predicted = now,
                      cd_utilization = utilization route (case found of None \<Rightarrow> empty_route_ledger | Some led \<Rightarrow> led),
                      cd_requests = requests, cd_tokens = tokens, cd_transport = transport\<rparr>]\<rparr>)))"

definition ledger_gates ::
  "zones \<Rightarrow> llm_request_policy \<Rightarrow> string list \<Rightarrow> llm_request \<Rightarrow> instant \<Rightarrow> string \<Rightarrow> llm_route \<Rightarrow> selection_state \<Rightarrow> exn + selection_state" where
  "ledger_gates z policy transports req now key route st =
     (let transport = selected_transport route transports (rp_allow_dispatch_overflow policy) in
      bindE (reservation_size route (rq_requests req) (route_estimate req route) transport) (\<lambda>(requests, tokens).
        if over_limit (qp_tpd (lr_quota route)) (of_int tokens)
        then Inr (reject (lr_model route) ''daily token limit per reservation'' st)
        else
          bindE (case next_cheapest_window z route now of
                   None \<Rightarrow> Inr (None, st_ledger st)
                 | Some ready \<Rightarrow>
                     if (case rp_deadline_at policy of None \<Rightarrow> True | Some d \<Rightarrow> ready \<le> d)
                     then bindE (cost_caps_allow_at z key route (estimated_cost z route tokens ready) ready now (st_ledger st))
                            (\<lambda>(ok, b). Inr (if ok then Some ready else None, b))
                     else Inr (None, st_ledger st))
            (\<lambda>(wait, b).
               case wait of
                 Some ready \<Rightarrow>
                   Inr (reject (lr_model route) (''price-window gate: waits until '' @ iso_text (Aware ready))
                          (st\<lparr>st_ledger := b, st_retry_ats := st_retry_ats st @ [ready]\<rparr>))
               | None \<Rightarrow>
                   (let cost = estimated_cost z route tokens now in
                    bindE (llm_available (daily_reset_key z) key route requests tokens cost now b) (\<lambda>(ok, b1).
                      if ok then admit_candidate z policy key route requests tokens cost transport now (st\<lparr>st_ledger := b1\<rparr>)
                      else reject_exhausted z policy key route requests tokens cost now (st\<lparr>st_ledger := b1\<rparr>))))))"

primrec scan_routes ::
  "zones \<Rightarrow> catalog \<Rightarrow> llm_request_policy \<Rightarrow> string list \<Rightarrow> llm_request \<Rightarrow> instant \<Rightarrow> (string \<times> llm_route) list \<Rightarrow>
     selection_state \<Rightarrow> exn + selection_state" where
  "scan_routes z c policy transports req now [] st = Inr st"
| "scan_routes z c policy transports req now (entry # entries) st =
     bindE (case static_gates c policy transports req (snd entry) of
              Inl (model, why) \<Rightarrow> Inr (reject model why st)
            | Inr route \<Rightarrow> ledger_gates z policy transports req now (fst entry) route st)
       (scan_routes z c policy transports req now entries)"

definition rank_of :: "string list option \<Rightarrow> candidate \<Rightarrow> bool \<times> bool \<times> rat \<times> rat \<times> instant \<times> string \<times> string" where
  "rank_of requested cd =
     ((case requested of None \<Rightarrow> False | Some ms \<Rightarrow> lr_model (cd_route cd) \<notin> set ms),
      \<not> lr_free (cd_route cd), cd_cost cd, cd_utilization cd, cd_predicted cd, lr_model (cd_route cd), cd_route_key cd)"

text \<open>\<open>min(xs, key=...)\<close>: the first of the smallest.\<close>

definition min_first :: "('a \<Rightarrow> 'k::linorder) \<Rightarrow> 'a \<Rightarrow> 'a list \<Rightarrow> 'a" where
  "min_first key x xs = fold (\<lambda>y best. if key y < key best then y else best) xs x"

definition select_route ::
  "zones \<Rightarrow> catalog \<Rightarrow> llm_request_policy \<Rightarrow> string list \<Rightarrow> llm_request \<Rightarrow> instant \<Rightarrow> llm_budget \<Rightarrow> exn + selection \<times> llm_budget" where
  "select_route z c policy transports req now b =
     bindE (scan_routes z c policy transports req now (sort_key fst (ct_routes c))
              \<lparr>st_rejected = [], st_candidates = [], st_retry_ats = [], st_ledger = b\<rparr>) (\<lambda>st.
       case st_candidates st of
         [] \<Rightarrow> Inr (no_selection ''no configured LLM route is eligible right now'' (st_rejected st)
                      (min_of (st_retry_ats st)), st_ledger st)
       | cd # cds \<Rightarrow>
           (let best = min_first (rank_of (requested_models c policy)) cd cds in
            Inr (\<lparr>se_model = Some (lr_model (cd_route best)), se_route = Some (cd_route best),
                  se_reason = ''selected eligible route'',
                  se_rejected = st_rejected st @
                    map (\<lambda>x. (lr_model (cd_route x), ''lower-ranked eligible route''))
                      (filter (\<lambda>x. cd_route_key x \<noteq> cd_route_key best) (cd # cds)),
                  se_owner = None, se_retry_at = None, se_reserved_requests = Some (cd_requests best),
                  se_reserved_tokens = Some (cd_tokens best), se_transport = cd_transport best\<rparr>, st_ledger st)))"

subsection \<open>Selection and reservation\<close>

text \<open>A reservation of the same request still in flight at the dispatch Worker is used again.\<close>

definition reusable :: "catalog \<Rightarrow> string list \<Rightarrow> string \<Rightarrow> llm_budget \<Rightarrow> selection option" where
  "reusable c transports recipe_hash b =
     (case find_inflight_owner recipe_hash b of
        None \<Rightarrow> None
      | Some key \<Rightarrow>
          (case map_of (ct_routes c) key of
             None \<Rightarrow> None
           | Some route \<Rightarrow>
               (case find (\<lambda>t. t = DISPATCH_TRANSPORT) (lr_transports route) of
                  None \<Rightarrow> None
                | Some t \<Rightarrow>
                    (if t \<in> set transports
                     then Some \<lparr>se_model = Some (lr_model route), se_route = Some route,
                               se_reason = ''reusing in-flight reservation'', se_rejected = [],
                               se_owner = Some recipe_hash, se_retry_at = None, se_reserved_requests = None,
                               se_reserved_tokens = None, se_transport = Some t\<rparr>
                     else None))))"

definition int_or :: "int option \<Rightarrow> int \<Rightarrow> int" where
  "int_or v dflt = (case v of None \<Rightarrow> dflt | Some n \<Rightarrow> if n = 0 then dflt else n)"

definition reserve_selection ::
  "zones \<Rightarrow> string \<Rightarrow> selection \<Rightarrow> llm_request \<Rightarrow> instant \<Rightarrow> llm_budget \<Rightarrow> exn + llm_budget" where
  "reserve_selection z owner sel req now b =
     (case se_route sel of
        None \<Rightarrow> Inr b
      | Some route \<Rightarrow>
          (let tokens = int_or (se_reserved_tokens sel) (rq_estimated_tokens req) in
           llm_reserve (daily_reset_key z) owner (or_text (lr_route_id route) (case se_model sel of None \<Rightarrow> '''' | Some m \<Rightarrow> m)) route
             (int_or (se_reserved_requests sel) (rq_requests req)) tokens (estimated_cost z route tokens now) now b))"


text \<open>
  One attempt: the in-flight reservation, else a selection; without a route the rolled windows are written back when
  they changed, with a route the reservation is written. None: another writer won, so the next attempt reads
  again. \<open>fresh\<close> is the \<open>uuid4\<close> of each attempt, \<open>left\<close> the number of attempts still to come.
\<close>

definition write_rolled :: "llm_budget \<Rightarrow> etag option \<Rightarrow> selection \<Rightarrow> selection option io" where
  "write_rolled b etag sel =
     (case etag of
        None \<Rightarrow> Ret (Some sel)
      | Some e \<Rightarrow>
          bind (get_bytes LLM_BUDGET_STATE_KEY) (\<lambda>got.
            if map_option fst got = Some (serialize_llm_budget b) then Ret (Some sel)
            else bind (try_put LLM_BUDGET_STATE_KEY (serialize_llm_budget b) (IfMatch e))
                   (\<lambda>won. Ret (map_option (\<lambda>_. sel) won))))"

definition write_reservation :: "llm_budget \<Rightarrow> etag option \<Rightarrow> string \<Rightarrow> llm_request \<Rightarrow> selection \<Rightarrow> selection option io" where
  "write_reservation b etag owner req sel =
     bind (try_put LLM_BUDGET_STATE_KEY (serialize_llm_budget b) (cond_of etag))
       (\<lambda>won. Ret (map_option (\<lambda>_. sel\<lparr>se_owner := Some owner, se_retry_at := None,
          se_reserved_requests := Some (int_or (se_reserved_requests sel) (rq_requests req)),
          se_reserved_tokens := Some (int_or (se_reserved_tokens sel) (rq_estimated_tokens req))\<rparr>) won))"

definition exhausted_selection :: "selection \<Rightarrow> selection" where
  "exhausted_selection prior = no_selection (se_reason prior) (se_rejected prior) (se_retry_at prior)"

primrec select_and_reserve_loop ::
  "nat \<Rightarrow> zones \<Rightarrow> catalog \<Rightarrow> llm_request_policy \<Rightarrow> string list \<Rightarrow> llm_request \<Rightarrow> (nat \<Rightarrow> string) \<Rightarrow> string \<Rightarrow> instant option \<Rightarrow>
     selection \<Rightarrow> selection io" where
  "select_and_reserve_loop 0 z c policy transports req fresh recipe_hash now_arg prior = Ret (exhausted_selection prior)"
| "select_and_reserve_loop (Suc left) z c policy transports req fresh recipe_hash now_arg prior =
     bind (now_or_clock now_arg) (\<lambda>now.
     bind load_llm_budget_cas (\<lambda>(b, etag).
       case reusable c transports recipe_hash b of
         Some sel \<Rightarrow> Ret sel
       | None \<Rightarrow>
           bind (liftE (select_route z c policy transports req now b)) (\<lambda>(sel, rolled).
           bind (if se_route sel = None then write_rolled rolled etag sel
                 else (let owner = owner_for (fresh left) recipe_hash (se_transport sel) in
                       bind (liftE (reserve_selection z owner sel req now rolled)) (\<lambda>b'.
                         write_reservation b' etag owner req sel)))
             (\<lambda>won. case won of
                Some result \<Rightarrow> Ret result
              | None \<Rightarrow> select_and_reserve_loop left z c policy transports req fresh recipe_hash now_arg sel))))"

definition select_and_reserve ::
  "zones \<Rightarrow> catalog \<Rightarrow> llm_request_policy \<Rightarrow> string list \<Rightarrow> llm_request \<Rightarrow> (nat \<Rightarrow> string) \<Rightarrow> string \<Rightarrow> instant option \<Rightarrow> nat \<Rightarrow>
     selection io" where
  "select_and_reserve z c policy transports req fresh recipe_hash now_arg max_attempts =
     select_and_reserve_loop max_attempts z c policy transports req fresh recipe_hash now_arg
       (no_selection ''CAS reservation attempts exhausted'' [] None)"

end
