(* ===== verification/LLM_Ledger_Properties.thy ===== *)
theory LLM_Ledger_Properties
  imports LLM_Scheduler Budget_Properties
begin

section \<open>The stored form of the quota ledger\<close>

text \<open>
  The ledger is read back as it was written, up to the order of the keys; an operation that keeps a property of the
  ledger keeps it for the stored object.
\<close>

definition norm_stamp :: "stamp \<Rightarrow> stamp" where
  "norm_stamp s = stamp_of (jsort (stamp_json s))"

lemma norm_stamp_simps [simp]: "norm_stamp NoStamp = NoStamp" "norm_stamp (Stamp n) = Stamp n"
  by (simp_all add: norm_stamp_def iso_json_def)

definition norm_reservation :: "llm_reservation \<Rightarrow> llm_reservation" where
  "norm_reservation r = r\<lparr>
     rv_tokens_available_at_before := norm_stamp (rv_tokens_available_at_before r),
     rv_tokens_available_at_after := norm_stamp (rv_tokens_available_at_after r),
     rv_requests_available_at_before := norm_stamp (rv_requests_available_at_before r),
     rv_requests_available_at_after := norm_stamp (rv_requests_available_at_after r),
     rv_provider_requests_available_at_before := norm_stamp (rv_provider_requests_available_at_before r),
     rv_provider_requests_available_at_after := norm_stamp (rv_provider_requests_available_at_after r),
     rv_provider_tokens_available_at_before := norm_stamp (rv_provider_tokens_available_at_before r),
     rv_provider_tokens_available_at_after := norm_stamp (rv_provider_tokens_available_at_after r),
     rv_reserved_at := norm_stamp (rv_reserved_at r), rv_expires_at := norm_stamp (rv_expires_at r)\<rparr>"

definition norm_route_ledger :: "route_ledger \<Rightarrow> route_ledger" where
  "norm_route_ledger l = l\<lparr>
     lg_tokens_day_updated_at := norm_stamp (lg_tokens_day_updated_at l),
     lg_tokens_available_at := norm_stamp (lg_tokens_available_at l),
     lg_requests_available_at := norm_stamp (lg_requests_available_at l),
     lg_blocked_until := norm_stamp (lg_blocked_until l),
     lg_inflight := map (map_prod id norm_reservation) (sort_key fst (lg_inflight l))\<rparr>"

definition norm_provider_ledger :: "provider_ledger \<Rightarrow> provider_ledger" where
  "norm_provider_ledger p =
     \<lparr>pv_requests_available_at = norm_stamp (pv_requests_available_at p),
      pv_tokens_available_at = norm_stamp (pv_tokens_available_at p)\<rparr>"

definition norm_llm_budget :: "llm_budget \<Rightarrow> llm_budget" where
  "norm_llm_budget b =
     \<lparr>lb_routes = map (map_prod id norm_route_ledger) (sort_key fst (lb_routes b)),
      lb_providers = map (map_prod id norm_provider_ledger) (sort_key fst (lb_providers b))\<rparr>"

lemma dget_sorted:
  "dget (as_dict (jsort (JObj d))) k JNull = jsort (dget d k JNull)"
  "dget (as_dict (jsort (JObj d))) k (JInt i) = jsort (dget d k (JInt i))"
  "dget (as_dict (jsort (JObj d))) k (JFloat q) = jsort (dget d k (JFloat q))"
  using dget_as_dict_jsort [of d k JNull] dget_as_dict_jsort [of d k "JInt i"] dget_as_dict_jsort [of d k "JFloat q"]
  by simp_all

lemma get_text_sorted: "get_text (as_dict (jsort (JObj d))) k = get_text [(k, jsort (dget d k JNull))] k"
  by (simp only: get_text_def dget_sorted Let_def) (simp add: dget_def)

lemma get_stamp_sorted: "get_stamp (as_dict (jsort (JObj d))) k = stamp_of (jsort (dget d k JNull))"
  by (simp only: get_stamp_def dget_sorted)

lemma get_text_str: "get_text [(k, JStr s)] k = s" "get_text [(k, JNull)] k = ''''"
  by (auto simp: get_text_def dget_def)

lemma get_text_or_null: "get_text [(k, jsort (text_or_null s))] k = s"
  by (simp add: text_or_null_def get_text_str)

lemma dget_cons: "dget ((k', v) # d) k x = (if k = k' then v else dget d k x)"
  by (simp add: dget_def)

lemma reservation_roundtrip: "reservation_from_json (jsort (reservation_to_json r)) = Inr (norm_reservation r)"
  unfolding reservation_from_json_def reservation_to_json_def Let_def dget_sorted get_text_sorted get_stamp_sorted
  by (simp add: dget_cons get_text_str get_text_or_null norm_reservation_def norm_stamp_def)

lemma provider_ledger_roundtrip:
  "provider_ledger_from_json (jsort (provider_ledger_to_json p)) = Inr (norm_provider_ledger p)"
  unfolding provider_ledger_from_json_def provider_ledger_to_json_def Let_def get_stamp_sorted
  by (simp add: dget_cons norm_provider_ledger_def norm_stamp_def)

lemma route_ledger_roundtrip: "route_ledger_from_json (jsort (route_ledger_to_json l)) = Inr (norm_route_ledger l)"
proof -
  define d where "d = (case route_ledger_to_json l of JObj d \<Rightarrow> d | _ \<Rightarrow> [])"
  have j: "route_ledger_to_json l = JObj d"
    by (simp add: d_def route_ledger_to_json_def)
  have items: "dict_items (as_dict (jsort (JObj d))) ''inflight'' =
      Inr (map (map_prod id (jsort \<circ> reservation_to_json)) (sort_key fst (lg_inflight l)))"
    by (rule dict_items_sorted) (simp add: d_def route_ledger_to_json_def dget_cons)
  have vals: "map_valuesE reservation_from_json (filter (\<lambda>(_, v). is_obj v)
      (map (map_prod id (jsort \<circ> reservation_to_json)) xs)) = Inr (map (map_prod id norm_reservation) xs)" for xs
    by (rule map_valuesE_roundtrip) (simp add: reservation_roundtrip, simp add: reservation_to_json_def is_obj_def)
  show ?thesis
    unfolding j route_ledger_from_json_def Let_def items bindE_simps vals dget_sorted get_text_sorted get_stamp_sorted
    by (simp add: d_def route_ledger_to_json_def dget_cons get_text_str norm_route_ledger_def norm_stamp_def)
qed

lemma llm_budget_decode_serialize: "decode_llm_budget (serialize_llm_budget b) = norm_llm_budget b"
proof -
  let ?r = "as_dict (jsort (JObj (llm_budget_to_dict b)))"
  have rs: "dict_items ?r ''routes'' = Inr (map (map_prod id (jsort \<circ> route_ledger_to_json)) (sort_key fst (lb_routes b)))"
    by (rule dict_items_sorted) (simp add: llm_budget_to_dict_def dget_cons)
  have ps: "dict_items ?r ''providers'' =
      Inr (map (map_prod id (jsort \<circ> provider_ledger_to_json)) (sort_key fst (lb_providers b)))"
    by (rule dict_items_sorted) (simp add: llm_budget_to_dict_def dget_cons)
  have lr: "map_valuesE route_ledger_from_json (filter (\<lambda>(_, v). is_obj v)
      (map (map_prod id (jsort \<circ> route_ledger_to_json)) xs)) = Inr (map (map_prod id norm_route_ledger) xs)" for xs
    by (rule map_valuesE_roundtrip) (simp add: route_ledger_roundtrip, simp add: route_ledger_to_json_def is_obj_def)
  have lp: "map_valuesE provider_ledger_from_json (filter (\<lambda>(_, v). is_obj v)
      (map (map_prod id (jsort \<circ> provider_ledger_to_json)) xs)) = Inr (map (map_prod id norm_provider_ledger) xs)" for xs
    by (rule map_valuesE_roundtrip)
       (simp add: provider_ledger_roundtrip, simp add: provider_ledger_to_json_def is_obj_def)
  have "llm_budget_from_dict ?r = Inr (norm_llm_budget b)"
    unfolding llm_budget_from_dict_def rs ps bindE_simps lr lp by (simp add: norm_llm_budget_def)
  then show ?thesis
    by (simp add: decode_llm_budget_def serialize_llm_budget_def dumps_sorted_def del: jsort.simps)
qed

lemma norm_llm_budget_maps:
  "map_of (lb_routes (norm_llm_budget b)) k = map_option norm_route_ledger (map_of (lb_routes b) k)"
  "map_of (lb_providers (norm_llm_budget b)) k = map_option norm_provider_ledger (map_of (lb_providers b) k)"
  by (simp_all add: norm_llm_budget_def dict_simps)

subsection \<open>Properties every writer keeps\<close>

text \<open>
  The contract between the ledger's operations and the writers of the stored object: a property of ledgers that
  holds of the empty one and does not depend on the order of the keys. Every program that only writes ledgers with
  the property, when the one it read had it, keeps it in every interleaving.
\<close>

definition llm_stored :: "(llm_budget \<Rightarrow> bool) \<Rightarrow> blob option \<Rightarrow> bool" where
  "llm_stored P c = (case c of None \<Rightarrow> True | Some d \<Rightarrow> P (decode_llm_budget d))"

definition llm_rule :: "(llm_budget \<Rightarrow> bool) \<Rightarrow> instant \<Rightarrow> string \<Rightarrow> blob option \<Rightarrow> blob \<Rightarrow> bool" where
  "llm_rule P t k old d \<longleftrightarrow> k = LLM_BUDGET_STATE_KEY \<and> (llm_stored P old \<longrightarrow> llm_stored P (Some d))"

locale ledger_law =
  fixes P :: "llm_budget \<Rightarrow> bool"
  assumes law_empty: "P empty_llm_budget"
    and law_norm: "P (norm_llm_budget b) = P b"
begin

lemma discipline_rule: "discipline (llm_rule P)"
  by (simp add: discipline_def llm_rule_def)

lemma stored_serialize: "llm_stored P (Some (serialize_llm_budget b)) = P b"
  by (simp add: llm_stored_def llm_budget_decode_serialize law_norm)

lemma safe_load:
  assumes "\<And>b et. (llm_stored P (tag_blob et) \<Longrightarrow> P b) \<Longrightarrow> Q t (Inr (b, et))" and "\<And>e. Q t (Inl e)"
  shows "safe R Q load_llm_budget_cas t"
  unfolding load_llm_budget_cas_def
proof (rule safe_bind, rule safe_get_bytes)
  fix r assume "reply_ok r"
  then show "case r of Inl e \<Rightarrow> Q t (Inl e)
     | Inr got \<Rightarrow> safe R Q (case got of
           None \<Rightarrow> Ret (empty_llm_budget, None)
         | Some (data, etag) \<Rightarrow> Ret (decode_llm_budget data, Some etag)) t"
    by (auto simp: reply_ok_def tag_blob_def llm_stored_def law_empty split: sum.splits option.splits intro!: assms)
qed

lemma safe_now:
  assumes "\<And>m t'. t \<le> t' \<Longrightarrow> safe R Q (g m) t'"
  shows "safe R Q (bind (now_or_clock now_arg) g) t"
  using assms by (cases now_arg) (auto simp: now_or_clock_def utc_now_def)

lemma legal_write:
  "(llm_stored P (tag_blob et) \<Longrightarrow> P b) \<Longrightarrow>
     cond_legal (llm_rule P) t LLM_BUDGET_STATE_KEY (cond_of et) (serialize_llm_budget b)"
  by (auto simp: cond_legal_tag llm_rule_def stored_serialize)

lemma safe_mutate:
  assumes "\<And>m b b'. P b \<Longrightarrow> mutate m b = Inr b' \<Longrightarrow> P b'"
  shows "safe (llm_rule P) any_result (mutate_llm_budget_loop n prev mutate now_arg) t"
proof (induction n arbitrary: prev t)
  case (Suc n)
  have put: "safe (llm_rule P) any_result
      (bind (liftE (mutate m b)) (\<lambda>b'. bind (attempt (put_cas LLM_BUDGET_STATE_KEY (serialize_llm_budget b') (cond_of et))) (f b'))) t'"
    if "llm_stored P (tag_blob et) \<Longrightarrow> P b" and "\<And>b' r. safe (llm_rule P) any_result (f b' r) t'"
    for b et f t' m
  proof (cases "mutate m b")
    case (Inr b')
    then show ?thesis
      using that assms [of b m b']
      by (auto simp del: attempt_bind simp: liftE_def intro!: safe_bind [OF safe_attempt [OF safe_put_cas]] legal_write)
  qed (simp add: liftE_def)
  show ?case
    unfolding mutate_llm_budget_loop.simps
    by (rule safe_now, rule safe_bind, rule safe_load)
       (auto intro!: put Suc.IH simp del: attempt_bind split: sum.split)
qed (simp split: option.split)

text \<open>Selecting must keep the property, and so must reserving what was selected.\<close>

lemma safe_select_and_reserve:
  assumes sel: "\<And>m b sel b'. P b \<Longrightarrow> select_route z c policy transports req m b = Inr (sel, b') \<Longrightarrow> P b'"
    and res: "\<And>m b sel b1 owner b2. P b \<Longrightarrow> select_route z c policy transports req m b = Inr (sel, b1) \<Longrightarrow>
       reserve_selection z owner sel req m b1 = Inr b2 \<Longrightarrow> P b2"
  shows "safe (llm_rule P) any_result (select_and_reserve_loop n z c policy transports req fresh h now_arg prior) t"
proof (induction n arbitrary: prior t)
  case (Suc n)
  have rolled: "safe (llm_rule P) any_result (bind (write_rolled b et sel) f) t'"
    if "llm_stored P (tag_blob et) \<Longrightarrow> P b" and "\<And>r. safe (llm_rule P) any_result (f r) t'" for b et sel f t'
  proof (cases et)
    case (Some e)
    have "cond_legal (llm_rule P) t' LLM_BUDGET_STATE_KEY (IfMatch e) (serialize_llm_budget b)"
      using legal_write [of et b t'] that(1) by (simp add: Some cond_of_def)
    then show ?thesis
      using that(2)
      by (auto simp: write_rolled_def Some intro!: safe_bind [OF safe_get_bytes] safe_bind [OF safe_try_put]
          split: sum.split)
  qed (simp add: write_rolled_def that)
  have reserved: "safe (llm_rule P) any_result (bind (write_reservation b et owner req sel) f) t'"
    if "llm_stored P (tag_blob et) \<Longrightarrow> P b" and "\<And>r. safe (llm_rule P) any_result (f r) t'" for b et owner sel f t'
    using that by (auto simp: write_reservation_def intro!: safe_bind [OF safe_try_put] legal_write)
  have body: "safe (llm_rule P) any_result
      (bind (liftE (select_route z c policy transports req m b)) (\<lambda>(sel, b1).
         bind (if se_route sel = None then write_rolled b1 et sel
               else (let owner = owner_for (fresh n) h (se_transport sel) in
                     bind (liftE (reserve_selection z owner sel req m b1)) (\<lambda>b'. write_reservation b' et owner req sel)))
           (\<lambda>won. case won of
                Some result \<Rightarrow> Ret result
              | None \<Rightarrow> select_and_reserve_loop n z c policy transports req fresh h now_arg sel))) t'"
    if ok: "llm_stored P (tag_blob et) \<Longrightarrow> P b" for b et m t'
  proof (cases "select_route z c policy transports req m b")
    case (Inr out)
    obtain s b1 where out: "out = (s, b1)" by fastforce
    let ?o = "owner_for (fresh n) h (se_transport s)"
    show ?thesis
    proof (cases "se_route s = None")
      case True
      then show ?thesis
        using ok sel [of b m s b1] Inr Suc.IH
        by (auto simp: out liftE_def intro!: rolled split: option.split)
    next
      case False
      then show ?thesis
        using ok res [of b m s b1 ?o] Inr Suc.IH
        by (cases "reserve_selection z ?o s req m b1")
           (auto simp: out liftE_def Let_def intro!: reserved split: option.split)
    qed
  qed (simp add: liftE_def)
  show ?case
    unfolding select_and_reserve_loop.simps
    by (rule safe_now, rule safe_bind, rule safe_load)
       (auto intro!: body split: option.split)
qed simp

lemma law_reach:
  assumes store: "cas_store ops view" and idle: "all_idle S0" and reach: "sys_reach ops launch S0 S"
    and safe: "\<And>i p t. launch (i :: nat) p \<Longrightarrow> safe (llm_rule P) any_result p t"
    and init: "llm_stored P (view (sys_store S0) LLM_BUDGET_STATE_KEY)"
  shows "llm_stored P (view (sys_store S) LLM_BUDGET_STATE_KEY)"
proof -
  have trans: "llm_stored P (v' LLM_BUDGET_STATE_KEY)"
    if "write_step (llm_rule P) t v v'" and "llm_stored P (v LLM_BUDGET_STATE_KEY)" for t v v'
    using that by (auto simp: write_step_def llm_rule_def)
  have "llm_stored P (view (sys_store S) LLM_BUDGET_STATE_KEY) \<and>
      (\<forall>i. safe (llm_rule P) any_result (sys_proc S i) (sys_time S))"
    using reach idle discipline_rule safe init _ trans
    by (rule cas_store.reach_invariant [OF store, where R = "\<lambda>_. llm_rule P"
          and I = "\<lambda>_ v. llm_stored P (v LLM_BUDGET_STATE_KEY)"])
  then show ?thesis ..
qed

end

end
