(* ===== verification/LLM_Concurrency.thy ===== *)
theory LLM_Concurrency
  imports LLM_Ledger_Properties
begin

section \<open>Requests in flight per provider\<close>

text \<open>
  How many reservations of a provider the ledger holds, over all its routes; that no operation but a reservation
  raises the number, a reservation by one at most; and the resulting bound on every interleaving.
\<close>

definition in_flight :: "string \<Rightarrow> route_ledger \<Rightarrow> nat" where
  "in_flight p led = length (filter (\<lambda>e. rv_provider_key (snd e) = p) (lg_inflight led))"

definition slot :: "string \<Rightarrow> (string \<times> route_ledger) list \<Rightarrow> string \<Rightarrow> nat" where
  "slot p rs k = (case map_of rs k of None \<Rightarrow> 0 | Some led \<Rightarrow> in_flight p led)"

definition provider_load :: "string \<Rightarrow> llm_budget \<Rightarrow> nat" where
  "provider_load p b = (\<Sum>k\<in>dom (map_of (lb_routes b)). slot p (lb_routes b) k)"

lemma finite_keys [simp]: "finite (dom (map_of rs))"
  by (rule finite_dom_map_of)

lemma load_superset:
  assumes "finite K" and "dom (map_of (lb_routes b)) \<subseteq> K"
  shows "provider_load p b = (\<Sum>k\<in>K. slot p (lb_routes b) k)"
  unfolding provider_load_def using assms
  by (intro sum.mono_neutral_left) (auto simp: slot_def split: option.split)

lemma load_le:
  assumes "\<And>k. slot p (lb_routes b') k \<le> slot p (lb_routes b) k"
  shows "provider_load p b' \<le> provider_load p b"
proof -
  let ?K = "dom (map_of (lb_routes b)) \<union> dom (map_of (lb_routes b'))"
  have "provider_load p b' = (\<Sum>k\<in>?K. slot p (lb_routes b') k)" by (rule load_superset) auto
  also have "\<dots> \<le> (\<Sum>k\<in>?K. slot p (lb_routes b) k)" by (rule sum_mono) (rule assms)
  also have "\<dots> = provider_load p b" by (rule load_superset [symmetric]) auto
  finally show ?thesis .
qed

lemma load_put_le:
  assumes "in_flight p led \<le> slot p (lb_routes b) k + n"
  shows "provider_load p (put_route k led b) \<le> provider_load p b + n"
proof -
  let ?K = "insert k (dom (map_of (lb_routes b)))"
  let ?f = "\<lambda>j. slot p (AList.update k led (lb_routes b)) j"
  have eq: "?f j = slot p (lb_routes b) j" if "j \<noteq> k" for j
    using that by (simp add: slot_def dict_simps)
  have "provider_load p (put_route k led b) = (\<Sum>j\<in>?K. ?f j)"
    by (subst load_superset [of ?K]) (auto simp: put_route_def dict_simps split: if_splits)
  also have "\<dots> = ?f k + (\<Sum>j\<in>?K - {k}. ?f j)" by (rule sum.remove) auto
  also have "\<dots> \<le> slot p (lb_routes b) k + n + (\<Sum>j\<in>?K - {k}. slot p (lb_routes b) j)"
    using assms eq by (intro add_mono sum_mono) (auto simp: slot_def dict_simps)
  also have "\<dots> = (\<Sum>j\<in>?K. slot p (lb_routes b) j) + n"
    using sum.remove [of ?K k "slot p (lb_routes b)"] by simp
  also have "(\<Sum>j\<in>?K. slot p (lb_routes b) j) = provider_load p b"
    by (rule load_superset [symmetric]) auto
  finally show ?thesis .
qed

lemma load_providers [simp]: "provider_load p (b\<lparr>lb_providers := ps\<rparr>) = provider_load p b"
  by (simp add: provider_load_def)

lemma load_norm [simp]: "provider_load p (norm_llm_budget b) = provider_load p b"
proof -
  have count: "length (filter f xs) = size (filter_mset f (mset xs))" for f and xs :: "(string \<times> llm_reservation) list"
    by (metis mset_filter size_mset)
  have "in_flight p (norm_route_ledger l) = in_flight p l" for l
    by (simp add: in_flight_def norm_route_ledger_def filter_map comp_def norm_reservation_def count)
  then have "slot p (lb_routes (norm_llm_budget b)) k = slot p (lb_routes b) k" for k
    by (simp add: slot_def norm_llm_budget_maps split: option.split)
  then show ?thesis by (simp add: provider_load_def norm_llm_budget_maps dom_def)
qed

lemma load_empty [simp]: "provider_load p empty_llm_budget = 0"
  by (simp add: provider_load_def empty_llm_budget_def)

subsection \<open>Undoing and rolling never add\<close>

lemma unwind_inflight [simp]: "lg_inflight (unwind_route r led) = lg_inflight led"
  by (simp add: unwind_route_def Let_def)

lemma drop_owner_inflight: "lg_inflight (fst (drop_owner e st)) = AList.delete (fst e) (lg_inflight (fst st))"
  by (simp add: drop_owner_def unwind_reservation_def split: prod.split)

lemma in_flight_drop: "in_flight p (fst (drop_owner e st)) \<le> in_flight p (fst st)"
proof -
  have "length (filter f (AList.delete k xs)) \<le> length (filter f xs)" for f k and xs :: "(string \<times> llm_reservation) list"
    by (induction xs) auto
  then show ?thesis by (simp add: in_flight_def drop_owner_inflight)
qed

lemma in_flight_reap: "in_flight p (fst (reap_expired now st)) \<le> in_flight p (fst st)"
proof -
  have "in_flight p (fst (fold drop_owner es st')) \<le> in_flight p (fst st')" for es st'
    by (induction es arbitrary: st') (simp, metis fold_Cons comp_apply in_flight_drop order_trans)
  then show ?thesis by (simp add: reap_expired_def)
qed

lemma roll_steps_inflight:
  "lg_inflight (roll_minute now led) = lg_inflight led"
  "roll_day day now q led = Inr led' \<Longrightarrow> lg_inflight led' = lg_inflight led"
  "leak_tokens now q led = Inr led' \<Longrightarrow> lg_inflight led' = lg_inflight led"
  "drain_tokens now q led = Inr led' \<Longrightarrow> lg_inflight led' = lg_inflight led"
  "roll_cost day now route led = Inr led' \<Longrightarrow> lg_inflight led' = lg_inflight led"
  by (auto simp: roll_minute_def roll_day_def leak_tokens_def drain_tokens_def roll_cost_def bindE_Inr Let_def
      split: option.splits if_splits)

lemma roll_inflight: "roll_ledger day now route led = Inr led' \<Longrightarrow> lg_inflight led' = lg_inflight led"
  by (auto simp: roll_ledger_def bindE_Inr dest!: roll_steps_inflight(2-5) simp: roll_steps_inflight(1))

lemma load_promote [simp]: "provider_load p (promote_legacy key route b) = provider_load p b"
proof (cases "map_of (lb_routes b) key = None \<and> (\<exists>led. map_of (lb_routes b) (lr_model route) = Some led) \<and> key \<noteq> lr_model route")
  case True
  then obtain led where k: "map_of (lb_routes b) key = None" "map_of (lb_routes b) (lr_model route) = Some led"
    "key \<noteq> lr_model route" by blast
  let ?m = "lr_model route" and ?rs = "lb_routes b"
  let ?rs' = "AList.update key led (AList.delete ?m ?rs)"
  have b': "promote_legacy key route b = b\<lparr>lb_routes := ?rs'\<rparr>"
    using k by (simp add: promote_legacy_def)
  let ?K = "insert key (dom (map_of ?rs))"
  have mem: "key \<in> ?K" "?m \<in> ?K - {key}" using k by auto
  have eq: "slot p ?rs' j = slot p ?rs j" if "j \<noteq> key" "j \<noteq> ?m" for j
    using that by (simp add: slot_def dict_simps)
  have split: "(\<Sum>j\<in>?K. f j) = f key + (f ?m + (\<Sum>j\<in>?K - {key} - {?m}. f j))" for f :: "string \<Rightarrow> nat"
    using sum.remove [of ?K key f] sum.remove [of "?K - {key}" ?m f] mem by simp
  have "provider_load p (b\<lparr>lb_routes := ?rs'\<rparr>) = (\<Sum>j\<in>?K. slot p ?rs' j)"
    by (subst load_superset [of ?K]) (auto simp: dict_simps split: if_splits)
  also have "\<dots> = (\<Sum>j\<in>?K. slot p ?rs j)"
    unfolding split using k eq by (simp add: slot_def dict_simps)
  also have "\<dots> = provider_load p b" by (rule load_superset [symmetric]) auto
  finally show ?thesis by (simp add: b')
qed (auto simp: promote_legacy_def split: option.split)

lemma llm_ledger_load:
  assumes "llm_ledger day model now route create b = Inr (found, b')"
  shows "provider_load p b' \<le> provider_load p b"
    and "found = Some led \<Longrightarrow> map_of (lb_routes b') (route_key model route) = Some led"
proof -
  let ?k = "route_key model route" and ?b1 = "promote_legacy (route_key model route) route b"
  have new: "in_flight p empty_route_ledger = 0" by (simp add: in_flight_def empty_route_ledger_def)
  have "provider_load p b' \<le> provider_load p ?b1 \<and>
      (found = Some led \<longrightarrow> map_of (lb_routes b') ?k = Some led)"
  proof (cases "case map_of (lb_routes ?b1) ?k of Some led \<Rightarrow> Some led | None \<Rightarrow> if create then Some empty_route_ledger else None")
    case None
    then show ?thesis using assms by (auto simp: llm_ledger_def Let_def)
  next
    case (Some l)
    then have slot: "in_flight p l \<le> slot p (lb_routes ?b1) ?k"
      using new by (auto simp: slot_def split: option.splits if_splits)
    from Some assms obtain l1 where roll: "roll_ledger day now route l = Inr l1"
      by (auto simp: llm_ledger_def Let_def bindE_def split: sum.splits)
    obtain l2 ps where reap: "reap_expired now (l1, lb_providers ?b1) = (l2, ps)" by fastforce
    have "in_flight p l2 \<le> in_flight p l"
      using in_flight_reap [of p now "(l1, lb_providers ?b1)"] roll_inflight [OF roll] by (simp add: reap in_flight_def)
    then have "provider_load p ((put_route ?k l2 ?b1)\<lparr>lb_providers := ps\<rparr>) \<le> provider_load p ?b1"
      using load_put_le [of p l2 ?b1 ?k 0] slot by simp
    moreover have "found = Some l2" "b' = (put_route ?k l2 ?b1)\<lparr>lb_providers := ps\<rparr>"
      using assms Some roll reap by (auto simp: llm_ledger_def Let_def)
    ultimately show ?thesis by (simp add: put_route_def dict_simps)
  qed
  then show "provider_load p b' \<le> provider_load p b"
    and "found = Some led \<Longrightarrow> map_of (lb_routes b') (route_key model route) = Some led" by auto
qed

subsection \<open>Counting what is in flight\<close>

text \<open>Of a route's reservations, those of the provider that are left are among the ones counted.\<close>

lemma count_entries:
  assumes "fold (count_entry now p) es ((led, ps), n) = ((led', ps'), m)"
  shows "set (lg_inflight led') \<subseteq> set (lg_inflight led)"
    and "\<And>e. e \<in> set es \<Longrightarrow> rv_provider_key (snd e) = p \<Longrightarrow> stamp_expired now (rv_expires_at (snd e)) \<Longrightarrow>
           fst e \<notin> fst ` set (lg_inflight led')"
    and "m = n + int (length (filter (\<lambda>e. rv_provider_key (snd e) = p \<and> \<not> stamp_expired now (rv_expires_at (snd e))) es))"
    and "\<exists>f. lg_inflight led' = filter f (lg_inflight led)"
proof -
  have "set (lg_inflight led') \<subseteq> set (lg_inflight led) \<and>
      (\<forall>e\<in>set es. rv_provider_key (snd e) = p \<longrightarrow> stamp_expired now (rv_expires_at (snd e)) \<longrightarrow>
           fst e \<notin> fst ` set (lg_inflight led')) \<and>
      m = n + int (length (filter (\<lambda>e. rv_provider_key (snd e) = p \<and> \<not> stamp_expired now (rv_expires_at (snd e))) es)) \<and>
      (\<exists>f. lg_inflight led' = filter f (lg_inflight led))"
    using assms
  proof (induction es arbitrary: led ps n)
    case Nil
    then show ?case by (auto intro: exI [of _ "\<lambda>_. True"])
  next
    case (Cons e es)
    obtain led1 ps1 n1 where s1: "count_entry now p e ((led, ps), n) = ((led1, ps1), n1)"
      by (metis prod.collapse)
    with Cons.prems have "fold (count_entry now p) es ((led1, ps1), n1) = ((led', ps'), m)" by simp
    note IH = Cons.IH [OF this]
    show ?case
    proof (cases "rv_provider_key (snd e) = p \<and> stamp_expired now (rv_expires_at (snd e))")
      case True
      with s1 have d: "drop_owner e (led, ps) = (led1, ps1)" "n1 = n" by (auto simp: count_entry_def)
      then have inf: "lg_inflight led1 = AList.delete (fst e) (lg_inflight led)"
        using drop_owner_inflight [of e "(led, ps)"] by simp
      then have "fst e \<notin> fst ` set (lg_inflight led1)" by (auto simp: AList.delete_eq)
      moreover have "set (lg_inflight led1) \<subseteq> set (lg_inflight led)" by (auto simp: inf AList.delete_eq)
      moreover have "\<exists>f. lg_inflight led' = filter f (lg_inflight led)"
        using IH by (auto simp: inf AList.delete_eq)
      ultimately show ?thesis using IH True d(2) by auto
    next
      case False
      with s1 have "led1 = led" "n1 = n + (if rv_provider_key (snd e) = p then 1 else 0)"
        by (auto simp: count_entry_def split: if_splits)
      then show ?thesis using IH False by auto
    qed
  qed
  then show "set (lg_inflight led') \<subseteq> set (lg_inflight led)"
    and "\<And>e. e \<in> set es \<Longrightarrow> rv_provider_key (snd e) = p \<Longrightarrow> stamp_expired now (rv_expires_at (snd e)) \<Longrightarrow>
           fst e \<notin> fst ` set (lg_inflight led')"
    and "m = n + int (length (filter (\<lambda>e. rv_provider_key (snd e) = p \<and> \<not> stamp_expired now (rv_expires_at (snd e))) es))"
    and "\<exists>f. lg_inflight led' = filter f (lg_inflight led)"
    by auto
qed

lemma filter_length_le: "(\<And>x. x \<in> set xs \<Longrightarrow> f x \<Longrightarrow> g x) \<Longrightarrow> length (filter f xs) \<le> length (filter g xs)"
  by (induction xs) auto

lemma count_ledger:
  assumes "fold (count_entry now p) (lg_inflight led) ((led, ps), n) = ((led', ps'), m)"
  shows "n + int (in_flight p led') \<le> m" and "in_flight q led' \<le> in_flight q led" and "n \<le> m"
proof -
  note c = count_entries [OF assms]
  obtain f where f: "lg_inflight led' = filter f (lg_inflight led)" using c(4) by blast
  have "in_flight p led' \<le> length (filter (\<lambda>e. rv_provider_key (snd e) = p \<and> \<not> stamp_expired now (rv_expires_at (snd e)))
          (lg_inflight led))"
    unfolding in_flight_def f filter_filter
  proof (rule filter_length_le)
    fix e assume "e \<in> set (lg_inflight led)" "f e \<and> rv_provider_key (snd e) = p"
    then have "e \<in> set (lg_inflight led')" by (simp add: f)
    then show "rv_provider_key (snd e) = p \<and> \<not> stamp_expired now (rv_expires_at (snd e))"
      using c(2) [of e] \<open>e \<in> set (lg_inflight led)\<close> \<open>f e \<and> _\<close> by auto
  qed
  then show "n + int (in_flight p led') \<le> m" by (simp add: c(3))
  show "in_flight q led' \<le> in_flight q led"
    unfolding in_flight_def f filter_filter by (rule filter_length_le) simp
  show "n \<le> m" by (simp add: c(3))
qed

lemma count_route_facts:
  assumes "count_route now p key (b, n) = (b', m)"
  shows "slot q (lb_routes b') k \<le> slot q (lb_routes b) k"
    and "n + int (slot p (lb_routes b') key) \<le> m" and "n \<le> m"
    and "dom (map_of (lb_routes b')) = dom (map_of (lb_routes b))"
proof -
  have "slot q (lb_routes b') k \<le> slot q (lb_routes b) k \<and> n + int (slot p (lb_routes b') key) \<le> m \<and> n \<le> m \<and>
      dom (map_of (lb_routes b')) = dom (map_of (lb_routes b))"
  proof (cases "map_of (lb_routes b) key")
    case (Some led)
    obtain led' ps' m' where f: "fold (count_entry now p) (lg_inflight led) ((led, lb_providers b), n) = ((led', ps'), m')"
      by (metis prod.collapse)
    with assms Some have "b' = (put_route key led' b)\<lparr>lb_providers := ps'\<rparr>" "m = m'"
      by (auto simp: count_route_def)
    then show ?thesis
      using count_ledger [OF f] Some by (auto simp: put_route_def slot_def dict_simps split: if_splits option.split)
  qed (use assms in \<open>auto simp: count_route_def slot_def\<close>)
  then show "slot q (lb_routes b') k \<le> slot q (lb_routes b) k" "n + int (slot p (lb_routes b') key) \<le> m" "n \<le> m"
    "dom (map_of (lb_routes b')) = dom (map_of (lb_routes b))" by auto
qed

lemma count_routes:
  assumes "fold (count_route now p) ks (b, n) = (b', m)"
  shows "slot q (lb_routes b') k \<le> slot q (lb_routes b) k"
    and "n + int (\<Sum>k\<in>set ks. slot p (lb_routes b') k) \<le> m"
    and "dom (map_of (lb_routes b')) = dom (map_of (lb_routes b))"
proof -
  have "(\<forall>q k. slot q (lb_routes b') k \<le> slot q (lb_routes b) k) \<and>
      n + int (\<Sum>k\<in>set ks. slot p (lb_routes b') k) \<le> m \<and> dom (map_of (lb_routes b')) = dom (map_of (lb_routes b))"
    using assms
  proof (induction ks arbitrary: b n)
    case (Cons key ks)
    obtain b1 n1 where s1: "count_route now p key (b, n) = (b1, n1)" by fastforce
    with Cons.prems have "fold (count_route now p) ks (b1, n1) = (b', m)" by simp
    note IH = Cons.IH [OF this] and facts = count_route_facts [OF s1]
    have "slot q (lb_routes b') k \<le> slot q (lb_routes b) k" for q k
      using IH facts(1) [of q k] order_trans by blast
    moreover have "n + int (\<Sum>k\<in>set (key # ks). slot p (lb_routes b') k) \<le> m"
    proof (cases "key \<in> set ks")
      case True
      then show ?thesis using IH facts(3) by (simp add: insert_absorb)
    next
      case False
      have "slot p (lb_routes b') key \<le> slot p (lb_routes b1) key" using IH by blast
      moreover have "n1 + int (\<Sum>k\<in>set ks. slot p (lb_routes b') k) \<le> m" using IH by blast
      ultimately show ?thesis using facts(2) False by simp
    qed
    ultimately show ?case using IH facts(4) by simp
  qed simp
  then show "slot q (lb_routes b') k \<le> slot q (lb_routes b) k" "n + int (\<Sum>k\<in>set ks. slot p (lb_routes b') k) \<le> m"
    "dom (map_of (lb_routes b')) = dom (map_of (lb_routes b))" by auto
qed

lemma provider_inflight_load:
  assumes "provider_inflight now p b = (b', n)"
  shows "provider_load q b' \<le> provider_load q b" and "int (provider_load p b') \<le> n"
proof -
  note c = count_routes [OF assms [unfolded provider_inflight_def]]
  show "provider_load q b' \<le> provider_load q b" by (rule load_le) (rule c(1))
  have "provider_load p b' = (\<Sum>k\<in>set (map fst (lb_routes b)). slot p (lb_routes b') k)"
    by (rule load_superset) (use c(3) in \<open>auto simp: dom_map_of_conv_image_fst\<close>)
  then show "int (provider_load p b') \<le> n" using c(2) by simp
qed

subsection \<open>The operations\<close>

lemma available_load:
  assumes "llm_available day model route requests tokens cost now b = Inr (ok, b')"
  shows "provider_load q b' \<le> provider_load q b"
    and "ok \<Longrightarrow> lr_provider_concurrency route = Some c \<Longrightarrow> of_int (int (provider_load (lr_provider route) b')) < c"
proof -
  obtain found b1 where l: "llm_ledger day model now route False b = Inr (found, b1)"
    using assms by (auto simp: llm_available_def bindE_Inr)
  note le1 = llm_ledger_load(1) [OF l]
  show "provider_load q b' \<le> provider_load q b"
  proof (cases "lr_provider_concurrency route")
    case None
    then have "b' = b1" using assms l by (auto simp: llm_available_def bindE_Inr Let_def split: if_splits option.splits)
    then show ?thesis using le1 by simp
  next
    case (Some c')
    obtain b2 n where n: "provider_inflight now (lr_provider route) b1 = (b2, n)" by fastforce
    then have "b' = b1 \<or> b' = b2"
      using assms l Some by (auto simp: llm_available_def bindE_Inr Let_def split: if_splits option.splits)
    then show ?thesis using le1 provider_inflight_load(1) [OF n, of q] order_trans by metis
  qed
  assume ok and c: "lr_provider_concurrency route = Some c"
  obtain b2 n where n: "provider_inflight now (lr_provider route) b1 = (b2, n)" by fastforce
  then have b': "b' = b2" "of_int n < c"
    using assms l \<open>ok\<close> c by (auto simp: llm_available_def bindE_Inr Let_def split: if_splits option.splits)
  have "(of_int (int (provider_load (lr_provider route) b')) :: rat) \<le> of_int n"
    using provider_inflight_load(2) [OF n] b'(1) by (simp only: of_int_le_iff)
  then show "of_int (int (provider_load (lr_provider route) b')) < c" using b'(2) by linarith
qed

lemma with_ledger_load:
  assumes "with_ledger day model now route body b = Inr b'"
    and "\<And>led b1. map_of (lb_routes b1) (route_key model route) = Some led \<Longrightarrow> body led b1 = Inr b' \<Longrightarrow>
           provider_load p b' \<le> provider_load p b1 + n"
  shows "provider_load p b' \<le> provider_load p b + n"
proof -
  obtain found b1 where l: "llm_ledger day model now route True b = Inr (found, b1)"
    and r: "(case found of None \<Rightarrow> Inl AssertionError | Some led \<Rightarrow> body led b1) = Inr b'"
    using assms(1) by (auto simp: with_ledger_def bindE_Inr)
  then obtain led where led: "found = Some led" "body led b1 = Inr b'" by (auto split: option.splits)
  show ?thesis
    using assms(2) [OF llm_ledger_load(2) [OF l led(1)] led(2)] llm_ledger_load(1) [OF l, of p] by simp
qed

lemma in_flight_same: "lg_inflight led' = lg_inflight led \<Longrightarrow> in_flight p led' = in_flight p led"
  by (simp add: in_flight_def)

lemma block_load: "llm_block day model until route now b = Inr b' \<Longrightarrow> provider_load p b' \<le> provider_load p b"
  unfolding llm_block_def
  by (drule with_ledger_load [where n = 0 and p = p])
     (auto simp: bindE_Inr intro!: load_put_le [where n = 0, simplified] simp: slot_def in_flight_def split: if_splits)

lemma settle_inflight [simp]:
  "lg_inflight (settle_counters ar ta q r led) = lg_inflight led"
  "lg_inflight (settle_costs ac r led) = lg_inflight led"
  by (simp_all add: settle_counters_def settle_costs_def Let_def split: option.split)

lemma in_flight_delete: "lg_inflight led' = AList.delete k (lg_inflight led) \<Longrightarrow> in_flight p led' \<le> in_flight p led"
  by (simp add: in_flight_def AList.delete_eq filter_filter) (rule filter_length_le, simp)

lemma load_put_known:
  assumes "map_of (lb_routes b) k = Some led" and "in_flight p led' \<le> in_flight p led + n"
  shows "provider_load p (put_route k led' (b\<lparr>lb_providers := ps\<rparr>)) \<le> provider_load p b + n"
  using load_put_le [of p led' "b\<lparr>lb_providers := ps\<rparr>" k n] assms by (simp add: slot_def)

lemma release_load:
  assumes "llm_release day owner model route now b = Inr b'"
  shows "provider_load p b' \<le> provider_load p b"
proof -
  have "provider_load p b' \<le> provider_load p b + 0"
  proof (rule with_ledger_load [OF assms [unfolded llm_release_def]], goal_cases)
    case (1 led b1)
    show ?case
    proof (cases "map_of (lg_inflight led) owner")
      case (Some x)
      obtain led' ps where d: "drop_owner (owner, x) (led, lb_providers b1) = (led', ps)" by fastforce
      then have "in_flight p led' \<le> in_flight p led + 0"
        using in_flight_drop [of p "(owner, x)" "(led, lb_providers b1)"] by simp
      from load_put_known [OF 1(1) this, of ps] show ?thesis using 1(2) Some d by simp
    qed (use 1 in simp)
  qed
  then show ?thesis by simp
qed

lemma settle_load:
  assumes "llm_settle day owner model route actual_requests actual_tokens actual_cost now b = Inr b'"
  shows "provider_load p b' \<le> provider_load p b"
proof -
  have "provider_load p b' \<le> provider_load p b + 0"
  proof (rule with_ledger_load [OF assms [unfolded llm_settle_def]], goal_cases)
    case (1 led b1)
    show ?case
    proof (cases "map_of (lg_inflight led) owner")
      case (Some x)
      with 1(2) obtain led' ps where b': "b' = put_route (route_key model route) led' (b1\<lparr>lb_providers := ps\<rparr>)"
        and i: "lg_inflight led' = AList.delete owner (lg_inflight led)"
        by (auto simp: bindE_Inr Let_def)
      have "in_flight p led' \<le> in_flight p led + 0" using in_flight_delete [OF i] by simp
      then show ?thesis unfolding b' by (rule load_put_known [OF 1(1)])
    qed (use 1 in simp)
  qed
  then show ?thesis by simp
qed

lemma in_flight_update:
  assumes "lg_inflight led' = AList.update k r (lg_inflight led)"
  shows "in_flight p led' \<le> in_flight p led + (if rv_provider_key r = p then 1 else 0)"
proof -
  have "length (filter f (AList.update k r xs)) \<le> length (filter f xs) + (if f (k, r) then 1 else 0)"
    if "\<And>k k' r. f (k, r) = f (k', r)" for f and xs :: "(string \<times> llm_reservation) list"
    using that by (induction xs) auto
  from this [of "\<lambda>e. rv_provider_key (snd e) = p"] show ?thesis by (simp add: in_flight_def assms)
qed

lemma make_provider_routes [simp]: "lb_routes (snd (make_provider_ledger route b)) = lb_routes b"
  by (simp add: make_provider_ledger_def split: option.split)

text \<open>A reservation adds one, to its own provider only.\<close>

lemma reserve_load:
  assumes "llm_reserve day owner model route requests tokens cost now b = Inr b'" and "p \<noteq> ''''"
  shows "provider_load p b' \<le> provider_load p b + (if lr_provider route = p then 1 else 0)"
proof (rule with_ledger_load [OF assms(1) [unfolded llm_reserve_def]], goal_cases)
  case (1 led b1)
  show ?case
  proof (cases "owner \<in> fst ` set (lg_inflight led)")
    case False
    obtain pl b2 where m: "make_provider_ledger route b1 = (pl, b2)" by fastforce
    then have rs: "lb_routes b2 = lb_routes b1" using make_provider_routes [of route b1] by simp
    from 1(2) False m obtain after where after: "advance_schedules route requests tokens now led pl = Inr after"
      by (auto simp: bindE_Inr)
    let ?r = "new_reservation route requests tokens cost after now led pl"
    let ?led = "(charge_route route requests tokens cost after led)\<lparr>lg_inflight := AList.update owner ?r (lg_inflight led)\<rparr>"
    have b': "b' = put_route (route_key model route) ?led (charge_provider route after pl b2)"
      using 1(2) False m after by (auto simp: Let_def charge_route_def)
    have rs3: "lb_routes (charge_provider route after pl b2) = lb_routes b1"
      by (simp add: charge_provider_def rs)
    have i: "lg_inflight ?led = AList.update owner ?r (lg_inflight led)" by simp
    have key: "rv_provider_key ?r = (if pl = None then '''' else lr_provider route)"
      by (simp add: new_reservation_def)
    have "in_flight p ?led \<le> in_flight p led + (if lr_provider route = p then 1 else 0)"
      using in_flight_update [OF i, of p] key assms(2) by (auto split: if_splits)
    then have "provider_load p b' \<le> provider_load p (charge_provider route after pl b2) + (if lr_provider route = p then 1 else 0)"
      unfolding b' using 1(1) rs3 by (intro load_put_le) (simp add: slot_def)
    moreover have "provider_load p (charge_provider route after pl b2) = provider_load p b1"
      by (simp add: provider_load_def rs3)
    ultimately show ?thesis by simp
  qed (use 1 in simp)
qed

subsection \<open>Selecting\<close>

text \<open>
  While the routes are scanned the load only falls, and once a route of the provider is a candidate it stays below
  the provider's limit.
\<close>

definition scan_ok :: "string \<Rightarrow> int \<Rightarrow> nat \<Rightarrow> selection_state \<Rightarrow> bool" where
  "scan_ok p limit n st \<longleftrightarrow> provider_load p (st_ledger st) \<le> n \<and>
     (\<forall>cd \<in> set (st_candidates st). lr_provider (cd_route cd) = p \<longrightarrow> int (provider_load p (st_ledger st)) < limit)"

lemma scan_ok_ledger:
  assumes "scan_ok p limit n st" and "provider_load p b \<le> provider_load p (st_ledger st)"
    and "st_candidates st' = st_candidates st" and "st_ledger st' = b"
  shows "scan_ok p limit n st'"
proof -
  have "int (provider_load p b) \<le> int (provider_load p (st_ledger st))" using assms(2) by simp
  then show ?thesis using assms by (fastforce simp: scan_ok_def)
qed

lemma scan_ok_reject [simp]: "scan_ok p limit n (reject m why st) = scan_ok p limit n st"
  by (simp add: scan_ok_def reject_def)

lemma scan_ok_retry [simp]: "scan_ok p limit n (st\<lparr>st_retry_ats := ts\<rparr>) = scan_ok p limit n st"
  by (simp add: scan_ok_def)

lemma static_gates_route:
  "static_gates c policy transports req route = Inr r \<Longrightarrow>
     lr_provider r = lr_provider route \<and> lr_provider_concurrency r = lr_provider_concurrency route \<and>
     lr_route_id r = lr_route_id route \<and> lr_transports r = lr_transports route \<and> lr_quota r = lr_quota route \<and>
     lr_pricing r = lr_pricing route"
  by (auto simp: static_gates_def pool_for_def Let_def split: if_splits option.splits sum.splits)

lemma caps_load: "cost_caps_allow_at z key route cost later now b = Inr (ok, b') \<Longrightarrow> provider_load p b' \<le> provider_load p b"
  by (auto simp: cost_caps_allow_at_def bindE_Inr Let_def dest: llm_ledger_load(1) split: option.splits)

lemma scan_ok_exhausted:
  assumes "reject_exhausted z policy key route requests tokens cost now st = Inr st'" and "scan_ok p limit n st"
  shows "scan_ok p limit n st'"
proof -
  obtain led b where l: "llm_ledger (daily_reset_key z) key now route False (st_ledger st) = Inr (Some led, b)"
    using assms(1) by (auto simp: reject_exhausted_def bindE_Inr split: option.splits)
  have eqs: "st_candidates st' = st_candidates st" "st_ledger st' = b"
    using assms(1) l by (auto simp: reject_exhausted_def bindE_Inr Let_def reject_def)
  show ?thesis by (rule scan_ok_ledger [OF assms(2) llm_ledger_load(1) [OF l] eqs])
qed

lemma scan_ok_admit:
  assumes "admit_candidate z policy key route requests tokens cost transport now st = Inr st'" and "scan_ok p limit n st"
    and "lr_provider route = p \<Longrightarrow> int (provider_load p (st_ledger st)) < limit"
  shows "scan_ok p limit n st'"
proof (cases "st' = reject (lr_model route) ''deadline gate'' st")
  case False
  then obtain found b where l: "llm_ledger (daily_reset_key z) key now route False (st_ledger st) = Inr (found, b)"
    and led: "st_ledger st' = b" and cds: "set (st_candidates st') = set (st_candidates st) \<union> {last (st_candidates st')}"
      "cd_route (last (st_candidates st')) = route"
    using assms(1) by (auto simp: admit_candidate_def bindE_Inr split: if_splits option.splits)
  have "int (provider_load p b) \<le> int (provider_load p (st_ledger st))"
    using llm_ledger_load(1) [OF l] by simp
  then show ?thesis using assms(2,3) led cds by (fastforce simp: scan_ok_def)
qed (use assms(2) in simp)

lemma scan_ok_gates:
  assumes g: "ledger_gates z policy transports req now key route st = Inr st'" and ok: "scan_ok p limit n st"
    and lim: "lr_provider route = p \<Longrightarrow> lr_provider_concurrency route = Some (of_int limit)"
  shows "scan_ok p limit n st'"
proof -
  let ?tr = "selected_transport route transports (rp_allow_dispatch_overflow policy)"
  obtain rs ts where size: "reservation_size route (rq_requests req) (route_estimate req route) ?tr = Inr (rs, ts)"
    using g by (auto simp: ledger_gates_def Let_def bindE_Inr)
  show ?thesis
  proof (cases "over_limit (qp_tpd (lr_quota route)) (of_int ts)")
    case False
    then obtain wait b where w: "(case next_cheapest_window z route now of
                   None \<Rightarrow> Inr (None, st_ledger st)
                 | Some ready \<Rightarrow>
                     if (case rp_deadline_at policy of None \<Rightarrow> True | Some d \<Rightarrow> ready \<le> d)
                     then bindE (cost_caps_allow_at z key route (estimated_cost z route ts ready) ready now (st_ledger st))
                            (\<lambda>(ok, b). Inr (if ok then Some ready else None, b))
                     else Inr (None, st_ledger st)) = Inr (wait, b)"
      and rest: "(case wait of
                 Some ready \<Rightarrow>
                   Inr (reject (lr_model route) (''price-window gate: waits until '' @ iso_text (Aware ready))
                          (st\<lparr>st_ledger := b, st_retry_ats := st_retry_ats st @ [ready]\<rparr>))
               | None \<Rightarrow>
                   (let cost = estimated_cost z route ts now in
                    bindE (llm_available (daily_reset_key z) key route rs ts cost now b) (\<lambda>(ok, b1).
                      if ok then admit_candidate z policy key route rs ts cost ?tr now (st\<lparr>st_ledger := b1\<rparr>)
                      else reject_exhausted z policy key route rs ts cost now (st\<lparr>st_ledger := b1\<rparr>)))) = Inr st'"
      using g size by (auto simp: ledger_gates_def Let_def bindE_Inr)
    have b: "provider_load p b \<le> provider_load p (st_ledger st)"
      using w caps_load by (auto simp: bindE_Inr split: option.splits if_splits)
    show ?thesis
    proof (cases wait)
      case (Some ready)
      then show ?thesis using rest by (auto intro!: scan_ok_ledger [OF ok b] simp: reject_def)
    next
      case None
      obtain av b1 where a: "llm_available (daily_reset_key z) key route rs ts (estimated_cost z route ts now) now b = Inr (av, b1)"
        using rest None by (auto simp: Let_def bindE_Inr)
      have b1: "provider_load p b1 \<le> provider_load p (st_ledger st)"
        using available_load(1) [OF a, of p] b by simp
      have st1: "scan_ok p limit n (st\<lparr>st_ledger := b1\<rparr>)" by (rule scan_ok_ledger [OF ok b1]) simp_all
      have below: "int (provider_load p b1) < limit" if "av" "lr_provider route = p"
        using available_load(2) [OF a that(1) lim [OF that(2)]] that(2) by (simp only: of_int_less_iff)
      show ?thesis
      proof (cases av)
        case True
        then have "admit_candidate z policy key route rs ts (estimated_cost z route ts now) ?tr now (st\<lparr>st_ledger := b1\<rparr>) = Inr st'"
          using rest None a by (simp add: Let_def)
        then show ?thesis by (rule scan_ok_admit [OF _ st1]) (use below [OF True] in simp)
      next
        case False
        then have "reject_exhausted z policy key route rs ts (estimated_cost z route ts now) now (st\<lparr>st_ledger := b1\<rparr>) = Inr st'"
          using rest None a by (simp add: Let_def)
        then show ?thesis using st1 by (rule scan_ok_exhausted)
      qed
    qed
  qed (use g ok size in \<open>auto simp: ledger_gates_def Let_def\<close>)
qed

lemma scan_ok_routes:
  assumes "scan_routes z c policy transports req now entries st = Inr st'" and "scan_ok p limit n st"
    and "\<And>k r. (k, r) \<in> set entries \<Longrightarrow> lr_provider r = p \<Longrightarrow> lr_provider_concurrency r = Some (of_int limit)"
  shows "scan_ok p limit n st'"
  using assms
proof (induction entries arbitrary: st)
  case (Cons e es)
  obtain st1 where s1: "(case static_gates c policy transports req (snd e) of
              Inl (model, why) \<Rightarrow> Inr (reject model why st)
            | Inr route \<Rightarrow> ledger_gates z policy transports req now (fst e) route st) = Inr st1"
    and rest: "scan_routes z c policy transports req now es st1 = Inr st'"
    using Cons.prems(1) by (auto simp: bindE_Inr)
  have lim: "lr_provider (snd e) = p \<Longrightarrow> lr_provider_concurrency (snd e) = Some (of_int limit)"
    using Cons.prems(3) [of "fst e" "snd e"] by simp
  have "scan_ok p limit n st1"
  proof (cases "static_gates c policy transports req (snd e)")
    case (Inl x)
    then show ?thesis using s1 Cons.prems(2) by (cases x) auto
  next
    case (Inr r)
    then have "ledger_gates z policy transports req now (fst e) r st = Inr st1" using s1 by simp
    then show ?thesis
      by (rule scan_ok_gates [OF _ Cons.prems(2)]) (use static_gates_route [OF Inr] lim in auto)
  qed
  then show ?case using Cons.IH [OF rest] Cons.prems(3) by (metis list.set_intros(2))
qed simp

lemma min_first_in: "min_first key x xs \<in> set (x # xs)"
proof -
  have "fold (\<lambda>y best. if key y < key best then y else best) ys b \<in> insert b (set ys)" for ys b
    by (induction ys arbitrary: b) (auto split: if_splits)
  then show ?thesis by (simp add: min_first_def)
qed

text \<open>After a selection the load has not risen, and it leaves a slot to the route that was chosen.\<close>

lemma select_load:
  assumes "select_route z c policy transports req now b = Inr (sel, b')"
    and "\<And>k r. (k, r) \<in> set (ct_routes c) \<Longrightarrow> lr_provider r = p \<Longrightarrow> lr_provider_concurrency r = Some (of_int limit)"
  shows "provider_load p b' \<le> provider_load p b"
    and "se_route sel = Some r \<Longrightarrow> lr_provider r = p \<Longrightarrow> int (provider_load p b') < limit"
proof -
  let ?st = "\<lparr>st_rejected = [], st_candidates = [], st_retry_ats = [], st_ledger = b\<rparr>"
  obtain st where st: "scan_routes z c policy transports req now (sort_key fst (ct_routes c)) ?st = Inr st"
    using assms(1) by (auto simp: select_route_def bindE_Inr)
  have "scan_ok p limit (provider_load p b) ?st" by (simp add: scan_ok_def)
  with st have ok: "scan_ok p limit (provider_load p b) st"
    by (rule scan_ok_routes) (use assms(2) in auto)
  have led: "st_ledger st = b'" using assms(1) st by (auto simp: select_route_def Let_def split: list.splits)
  then show "provider_load p b' \<le> provider_load p b" using ok by (simp add: scan_ok_def)
  assume r: "se_route sel = Some r" "lr_provider r = p"
  then obtain cd cds where cds: "st_candidates st = cd # cds"
    and "r = cd_route (min_first (rank_of (requested_models c policy)) cd cds)"
    using assms(1) st by (auto simp: select_route_def Let_def no_selection_def split: list.splits)
  then show "int (provider_load p b') < limit"
    using ok led r(2) min_first_in [of "rank_of (requested_models c policy)" cd cds]
    by (auto simp: scan_ok_def)
qed

subsection \<open>Every interleaving\<close>

text \<open>The programs that write the ledger; \<open>c\<close> is the route catalogue of the process.\<close>

inductive llm_client :: "(catalog \<Rightarrow> bool) \<Rightarrow> unit io \<Rightarrow> bool" for good :: "catalog \<Rightarrow> bool" where
  client_select: "good c \<Longrightarrow>
     llm_client good (forget (select_and_reserve z c policy transports req fresh h now_arg n))"
| client_settle_route: "llm_client good (forget (settle_route_reservation day owner model route ar ta ac now_arg n))"
| client_release_route: "llm_client good (forget (release_route_reservation day owner model route now_arg n))"
| client_block_route: "llm_client good (forget (block_route_until day model until route now_arg n))"

definition provider_limit :: "string \<Rightarrow> int \<Rightarrow> catalog \<Rightarrow> bool" where
  "provider_limit p limit c \<longleftrightarrow>
     (\<forall>(k, r) \<in> set (ct_routes c). lr_provider r = p \<longrightarrow> lr_provider_concurrency r = Some (of_int limit))"

definition within_slots :: "string \<Rightarrow> int \<Rightarrow> llm_budget \<Rightarrow> bool" where
  "within_slots p limit b \<longleftrightarrow> int (provider_load p b) \<le> max 0 limit"

interpretation slots: ledger_law "within_slots p limit" for p limit
  by unfold_locales (simp_all add: within_slots_def)

lemma within_slots_le: "within_slots p limit b \<Longrightarrow> provider_load p b' \<le> provider_load p b \<Longrightarrow> within_slots p limit b'"
  by (simp add: within_slots_def)

lemma llm_client_slots:
  assumes "llm_client (provider_limit p limit) prog" and "p \<noteq> ''''"
  shows "safe (llm_rule (within_slots p limit)) any_result prog t"
  using assms(1)
proof cases
  case (client_select c z policy transports req fresh h now_arg n)
  have lim: "lr_provider_concurrency r = Some (of_int limit)" if "(k, r) \<in> set (ct_routes c)" "lr_provider r = p" for k r
    using client_select(2) that by (auto simp: provider_limit_def)
  show ?thesis
    unfolding client_select(1) select_and_reserve_def
  proof (intro safe_forget_any slots.safe_select_and_reserve)
    fix m b sel b' assume "within_slots p limit b" "select_route z c policy transports req m b = Inr (sel, b')"
    then show "within_slots p limit b'" using select_load(1) [OF _ lim] by (fastforce simp: within_slots_def)
  next
    fix m b sel b1 owner b2
    assume b: "within_slots p limit b" and s: "select_route z c policy transports req m b = Inr (sel, b1)"
      and r: "reserve_selection z owner sel req m b1 = Inr b2"
    show "within_slots p limit b2"
    proof (cases "se_route sel")
      case None
      then show ?thesis
        using r b select_load(1) [OF s lim] by (fastforce simp: reserve_selection_def within_slots_def)
    next
      case (Some route)
      have "provider_load p b2 \<le> provider_load p b1 + (if lr_provider route = p then 1 else 0)"
        using r Some reserve_load [OF _ assms(2)] by (auto simp: reserve_selection_def Let_def)
      moreover have "lr_provider route = p \<Longrightarrow> int (provider_load p b1) < limit"
        using select_load(2) [OF s lim Some] by simp
      moreover have "provider_load p b1 \<le> provider_load p b" by (rule select_load(1) [OF s lim])
      ultimately show ?thesis using b by (auto simp: within_slots_def split: if_splits)
    qed
  qed
next
  case (client_settle_route day owner model route ar ta ac now_arg n)
  then show ?thesis
    by (auto simp: settle_route_reservation_def mutate_llm_budget_def
        intro!: safe_forget_any slots.safe_mutate elim!: within_slots_le dest!: settle_load)
next
  case (client_release_route day owner model route now_arg n)
  then show ?thesis
    by (auto simp: release_route_reservation_def mutate_llm_budget_def
        intro!: safe_forget_any slots.safe_mutate elim!: within_slots_le dest!: release_load)
next
  case (client_block_route day model until route now_arg n)
  then show ?thesis
    by (auto simp: block_route_until_def mutate_llm_budget_def
        intro!: safe_forget_any slots.safe_mutate elim!: within_slots_le dest!: block_load)
qed

lemma within_slots_limit: "0 \<le> limit \<Longrightarrow> within_slots p limit b \<Longrightarrow> int (provider_load p b) \<le> limit"
  by (simp add: within_slots_def)

text \<open>
  C2: A provider's account-wide concurrency is never exceeded. When every route of the provider carries the same limit
  and the stored ledger starts within it, the reservations the ledger holds for the provider, over all its routes,
  stay within the limit in every interleaving of selections, settlements, releases and blocks by any number of
  processes, with their own catalogues of other routes, whatever writes conflict, fail or lose their answer.
\<close>

theorem provider_concurrency_never_exceeded:
  assumes "cas_store ops view" and "\<And>i prog. launch i prog \<Longrightarrow> llm_client (provider_limit p limit) prog"
    and "all_idle S0" and "sys_reach ops launch S0 S" and "p \<noteq> ''''" and "0 \<le> limit"
    and "llm_stored (within_slots p limit) (view (sys_store S0) LLM_BUDGET_STATE_KEY)"
    and "view (sys_store S) LLM_BUDGET_STATE_KEY = Some d"
  shows "int (provider_load p (decode_llm_budget d)) \<le> limit"
proof -
  have "llm_stored (within_slots p limit) (view (sys_store S) LLM_BUDGET_STATE_KEY)"
    using assms(1,3,4) llm_client_slots [OF assms(2,5)] assms(7) by (rule slots.law_reach)
  then show ?thesis using within_slots_limit [OF assms(6)] by (simp add: llm_stored_def assms(8))
qed

subsection \<open>A concrete catalogue\<close>

definition demo_quota :: quota_policy where
  "demo_quota = \<lparr>qp_rpm = None, qp_rpd = None, qp_tpm = None, qp_tpd = None, qp_concurrency = None,
     qp_reset_timezone = ''UTC''\<rparr>"

definition demo_pricing :: pricing_policy where
  "demo_pricing = \<lparr>pc_input_per_token = 0, pc_output_per_token = 0, pc_windows = [], pc_periods = [],
     pc_cost_cap = None, pc_daily_cost_cap = None\<rparr>"

definition demo_route :: llm_route where
  "demo_route = \<lparr>lr_model = ''m'', lr_free = True, lr_quota = demo_quota, lr_pricing = demo_pricing,
     lr_experimental = False, lr_max_provider_attempts = None, lr_transports = [''direct''], lr_route_id = ''r'',
     lr_provider = ''p'', lr_provider_rpm = None, lr_provider_tpm = None, lr_provider_concurrency = Some 1,
     lr_input_context_limit = 100, lr_output_context_limit = 100, lr_hard_input_ceiling = None,
     lr_input_token_ratio = 1, lr_also_serves = []\<rparr>"

definition demo_catalog :: catalog where
  "demo_catalog = \<lparr>ct_routes = [(''r'', demo_route)], ct_aliases = [], ct_routing = []\<rparr>"

definition demo_policy :: llm_request_policy where
  "demo_policy = \<lparr>rp_allowed_models = None, rp_allow_paid = False, rp_allow_experimental = False, rp_deadline_at = None,
     rp_allow_dispatch_overflow = False, rp_allowed_route_ids = None\<rparr>"

definition demo_request :: llm_request where
  "demo_request = \<lparr>rq_estimated_tokens = 10, rq_input_tokens = None, rq_output_tokens = None, rq_requests = 1\<rparr>"

definition demo_zones :: zones where
  "demo_zones = \<lparr>zn_local = (\<lambda>_ t. Some t), zn_utc = (\<lambda>_ t. t)\<rparr>"

lemmas demo_defs = demo_quota_def demo_pricing_def demo_route_def demo_catalog_def demo_policy_def demo_request_def
  demo_zones_def

definition demo_candidate :: candidate where
  "demo_candidate = \<lparr>cd_route = demo_route, cd_route_key = ''r'', cd_cost = 0, cd_predicted = 0, cd_utilization = 0,
     cd_requests = 1, cd_tokens = 10, cd_transport = Some ''direct''\<rparr>"

lemma demo_rates: "rates_at demo_pricing t = (0, 0, [])"
  by (simp add: rates_at_def demo_pricing_def max_first_def)

lemma demo_cost: "estimated_cost demo_zones demo_route tokens t = 0"
  by (simp add: estimated_cost_def demo_route_def demo_rates)

lemma demo_ledger_empty: "llm_ledger day k t demo_route False empty_llm_budget = Inr (None, empty_llm_budget)"
  by (simp add: llm_ledger_def Let_def promote_legacy_def empty_llm_budget_def)

lemma demo_available:
  "llm_available day k demo_route n tk c t empty_llm_budget = Inr (True, empty_llm_budget)"
proof -
  have "provider_inflight t ''p'' empty_llm_budget = (empty_llm_budget, 0)"
    by (simp add: provider_inflight_def empty_llm_budget_def)
  moreover have "find_provider_ledger demo_route empty_llm_budget = None"
    by (simp add: find_provider_ledger_def empty_llm_budget_def)
  moreover have "lr_provider_tpm demo_route = None" "lr_provider_concurrency demo_route = Some 1" "lr_provider demo_route = ''p''"
    by (simp_all add: demo_route_def)
  moreover have "provider_admits t demo_route None = Inr True" by (simp add: provider_admits_def)
  ultimately show ?thesis by (simp add: llm_available_def demo_ledger_empty)
qed

lemma demo_select:
  "select_route demo_zones demo_catalog demo_policy [''direct''] demo_request 0 empty_llm_budget =
     Inr (\<lparr>se_model = Some ''m'', se_route = Some demo_route, se_reason = ''selected eligible route'', se_rejected = [],
           se_owner = None, se_retry_at = None, se_reserved_requests = Some 1, se_reserved_tokens = Some 10,
           se_transport = Some ''direct''\<rparr>, empty_llm_budget)"
proof -
  have st: "static_gates demo_catalog demo_policy [''direct''] demo_request demo_route = Inr demo_route"
    by code_simp
  have tr: "selected_transport demo_route [''direct''] False = Some ''direct''"
    by (simp add: selected_transport_def demo_route_def DISPATCH_TRANSPORT_def)
  have sz: "reservation_size demo_route 1 10 (Some ''direct'') = Inr (1, 10)"
    by (simp add: reservation_size_def DISPATCH_TRANSPORT_def demo_route_def div_py_def Let_def)
  have es: "route_estimate demo_request demo_route = 10" "rq_requests demo_request = 1"
    "rp_allow_dispatch_overflow demo_policy = False" "rp_deadline_at demo_policy = None"
    by (simp_all add: route_estimate_def route_input_tokens_def demo_defs)
  have wn: "next_cheapest_window demo_zones demo_route 0 = None"
    by (simp add: next_cheapest_window_def demo_route_def demo_rates)
  have ut: "utilization demo_route empty_route_ledger = 0" "qp_tpd (lr_quota demo_route) = None"
    by (simp_all add: utilization_def demo_defs)
  have rt: "lr_model demo_route = ''m''" "ct_routes demo_catalog = [(''r'', demo_route)]" by (simp_all add: demo_defs)
  have "ledger_gates demo_zones demo_policy [''direct''] demo_request 0 ''r'' demo_route
      \<lparr>st_rejected = [], st_candidates = [], st_retry_ats = [], st_ledger = empty_llm_budget\<rparr> =
    Inr \<lparr>st_rejected = [], st_candidates = [demo_candidate], st_retry_ats = [], st_ledger = empty_llm_budget\<rparr>"
    by (simp add: ledger_gates_def Let_def es tr sz ut over_limit_def wn demo_cost demo_available admit_candidate_def
        demo_ledger_empty demo_candidate_def)
  then have "scan_routes demo_zones demo_catalog demo_policy [''direct''] demo_request 0 (sort_key fst (ct_routes demo_catalog))
      \<lparr>st_rejected = [], st_candidates = [], st_retry_ats = [], st_ledger = empty_llm_budget\<rparr> =
    Inr \<lparr>st_rejected = [], st_candidates = [demo_candidate], st_retry_ats = [], st_ledger = empty_llm_budget\<rparr>"
    by (simp add: st rt)
  then show ?thesis
    by (simp add: select_route_def min_first_def demo_candidate_def rt)
qed

definition demo_reservation :: llm_reservation where
  "demo_reservation =
     new_reservation demo_route 1 10 0 \<lparr>sc_tokens = NoStamp, sc_requests = NoStamp, sc_provider_requests = NoStamp, sc_provider_tokens = NoStamp\<rparr>
       0 (empty_route_ledger\<lparr>lg_requests_minute_key := minute_key 0, lg_cost_cycle_key := cycle_key 0 1\<rparr>)
       (Some empty_provider_ledger)"

definition demo_llm_budget :: llm_budget where
  "demo_llm_budget =
     \<lparr>lb_routes = [(''r'', empty_route_ledger\<lparr>lg_requests_minute_key := minute_key 0, lg_cost_cycle_key := cycle_key 0 1,
          lg_requests_minute := 1, lg_tokens_minute := 10, lg_inflight := [(''h:u'', demo_reservation)]\<rparr>)],
      lb_providers = [(''p'', empty_provider_ledger)]\<rparr>"

lemma demo_reserve_ledger:
  "llm_reserve day ''h:u'' ''r'' demo_route 1 10 0 0 empty_llm_budget = Inr demo_llm_budget"
proof -
  let ?l = "empty_route_ledger\<lparr>lg_requests_minute_key := minute_key 0, lg_cost_cycle_key := cycle_key 0 1\<rparr>"
  have keys: "minute_key 0 \<noteq> ''''" "cycle_key 0 1 \<noteq> ''''" by code_simp+
  have k: "route_key ''r'' demo_route = ''r''" by (simp add: route_key_def or_text_def demo_route_def)
  have q: "lr_quota demo_route = demo_quota" "lr_pricing demo_route = demo_pricing" "lr_provider demo_route = ''p''"
    "lr_provider_rpm demo_route = None" "lr_provider_tpm demo_route = None" by (simp_all add: demo_route_def)
  have roll: "roll_ledger day 0 demo_route empty_route_ledger = Inr ?l"
    using keys by (simp add: roll_ledger_def roll_minute_def roll_day_def leak_tokens_def drain_tokens_def roll_cost_def q
        demo_quota_def demo_pricing_def empty_route_ledger_def)
  have reap: "reap_expired 0 (?l, ps) = (?l, ps)" for ps by (simp add: reap_expired_def empty_route_ledger_def)
  have led: "llm_ledger day ''r'' 0 demo_route True empty_llm_budget =
      Inr (Some ?l, \<lparr>lb_routes = [(''r'', ?l)], lb_providers = []\<rparr>)"
    by (simp add: llm_ledger_def Let_def k promote_legacy_def empty_llm_budget_def roll reap put_route_def)
  have adv: "advance_schedules demo_route 1 10 0 ?l (Some empty_provider_ledger) =
      Inr \<lparr>sc_tokens = NoStamp, sc_requests = NoStamp, sc_provider_requests = NoStamp, sc_provider_tokens = NoStamp\<rparr>"
    by (simp add: advance_schedules_def q demo_quota_def request_schedule_after_def provider_stamps_def
        empty_route_ledger_def empty_provider_ledger_def)
  have mk: "make_provider_ledger demo_route \<lparr>lb_routes = [(''r'', ?l)], lb_providers = []\<rparr> =
      (Some empty_provider_ledger, \<lparr>lb_routes = [(''r'', ?l)], lb_providers = [(''p'', empty_provider_ledger)]\<rparr>)"
    by (simp add: make_provider_ledger_def paced_provider_def demo_route_def)
  have "lg_inflight ?l = []" by (simp add: empty_route_ledger_def)
  then show ?thesis
    by (simp add: llm_reserve_def with_ledger_def led mk adv Let_def k)
      (simp add: charge_provider_def change_provider_def charge_route_def q demo_quota_def demo_pricing_def put_route_def
        demo_llm_budget_def demo_reservation_def empty_route_ledger_def empty_provider_ledger_def)
qed

definition demo_selection_client :: "unit io" where
  "demo_selection_client =
     forget (select_and_reserve demo_zones demo_catalog demo_policy [''direct''] demo_request (\<lambda>_. ''u'') ''h'' None 8)"

lemma demo_selection_run:
  "run r2_bucket 0 demo_selection_client (\<lambda>_. None) = (Inr (), [LLM_BUDGET_STATE_KEY \<mapsto> serialize_llm_budget demo_llm_budget])"
proof -
  have reuse: "reusable c ts h empty_llm_budget = None" for c ts h
    by (simp add: reusable_def find_inflight_owner_def empty_llm_budget_def)
  have own: "owner_for ''u'' ''h'' (Some ''direct'') = ''h:u''" by (simp add: owner_for_def DISPATCH_TRANSPORT_def)
  have rt: "lr_route_id demo_route = ''r''" by (simp add: demo_route_def)
  have "run r2_bucket 0 (forget (select_and_reserve demo_zones demo_catalog demo_policy [''direct''] demo_request
      (\<lambda>_. ''u'') ''h'' None (Suc n))) (\<lambda>_. None) =
      (Inr (), [LLM_BUDGET_STATE_KEY \<mapsto> serialize_llm_budget demo_llm_budget])" for n
    by (simp add: forget_def select_and_reserve_def load_llm_budget_cas_def io_simps reuse demo_select own
        reserve_selection_def rt or_text_def int_or_def demo_cost demo_reserve_ledger write_reservation_def try_put_def
        cond_of_def cond_holds_def Let_def)
  from this [of 7] show ?thesis by (simp add: demo_selection_client_def)
qed

lemmas demo_selection_reach = solo_reach [where launch = "\<lambda>_ p. p = demo_selection_client" and i = 0, OF refl demo_selection_run]

theorem provider_concurrency_never_exceeded_witness:
  "int (provider_load ''p'' (decode_llm_budget (serialize_llm_budget demo_llm_budget))) \<le> 1"
  by (rule provider_concurrency_never_exceeded [where view = "\<lambda>s. s" and p = "''p''" and limit = 1,
        OF r2_store _ _ demo_selection_reach])
     (auto simp: demo_selection_client_def provider_limit_def demo_catalog_def demo_route_def llm_stored_def
        intro!: client_select)

end
