(* ===== verification/LLM_Properties.thy ===== *)
theory LLM_Properties
  imports LLM_Concurrency
begin

section \<open>What the quota ledger and the scheduler guarantee\<close>

text \<open>
  A reservation can be undone without a trace; the request schedule paces a route; a selected route passed every
  gate and ranks first; and a provider that is full while a sibling route has no ledger yet stops the selection with
  an assertion failure.
\<close>

subsection \<open>Rolling twice\<close>


lemma timedelta_zero [simp]: "timedelta_us 0 = 0"
  by (simp add: timedelta_us_def round_half_even_def Let_def)

text \<open>What rolling to \<open>now\<close> leaves, and what is already as rolling leaves it.\<close>

definition rolled :: "day_clock \<Rightarrow> instant \<Rightarrow> llm_route \<Rightarrow> route_ledger \<Rightarrow> bool" where
  "rolled day now route led \<longleftrightarrow>
     lg_requests_minute_key led = minute_key now \<and>
     (qp_rpd (lr_quota route) = None \<and> qp_tpd (lr_quota route) = None \<or>
        day (qp_reset_timezone (lr_quota route)) now = Inr (lg_requests_day_key led)) \<and>
     (qp_tpd (lr_quota route) = None \<or> lg_tokens_day_updated_at led = Stamp now) \<and>
     lg_cost_cycle_key led = cycle_key now 1 \<and>
     (pc_daily_cost_cap (lr_pricing route) = None \<or>
        day (qp_reset_timezone (lr_quota route)) now = Inr (lg_cost_day_key led))"




lemma unwind_keys [simp]:
  "lg_requests_minute_key (unwind_route r led) = lg_requests_minute_key led"
  "lg_requests_day_key (unwind_route r led) = lg_requests_day_key led"
  "lg_tokens_day_updated_at (unwind_route r led) = lg_tokens_day_updated_at led"
  "lg_cost_cycle_key (unwind_route r led) = lg_cost_cycle_key led"
  "lg_cost_day_key (unwind_route r led) = lg_cost_day_key led"
  by (simp_all add: unwind_route_def Let_def)

lemma drop_owner_led:
  "fst (drop_owner e st) = unwind_route (snd e) (fst st\<lparr>lg_inflight := AList.delete (fst e) (lg_inflight (fst st))\<rparr>)"
  by (simp add: drop_owner_def unwind_reservation_def split: prod.split)

lemma rolled_drop [simp]: "rolled day now route (fst (drop_owner e st)) = rolled day now route (fst st)"
  by (simp add: drop_owner_led rolled_def)



lemma reap_fresh:
  "\<forall>e\<in>set (lg_inflight led). \<not> stamp_expired now (rv_expires_at (snd e)) \<Longrightarrow> reap_expired now (led, ps) = (led, ps)"
proof -
  assume "\<forall>e\<in>set (lg_inflight led). \<not> stamp_expired now (rv_expires_at (snd e))"
  then have "filter (\<lambda>(owner, r). stamp_expired now (rv_expires_at r)) (lg_inflight led) = []"
    by (force simp: filter_empty_conv)
  then show ?thesis by (simp add: reap_expired_def)
qed

subsection \<open>Undoing a reservation\<close>


lemma max_cancel [simp]:
  "0 \<le> x \<Longrightarrow> max 0 (x + y - y) = (x :: rat)" "0 \<le> i \<Longrightarrow> max 0 (i + j - j) = (i :: int)"
  "0 \<le> y \<Longrightarrow> max 0 (- y) = (0 :: rat)" "0 \<le> j \<Longrightarrow> max 0 (- j) = (0 :: int)"
  by simp_all











text \<open>What a reservation writes.\<close>

lemma reserve_writes:
  assumes led: "llm_ledger day model now route True b = Inr (Some led, b1)"
    and fresh: "owner \<notin> fst ` set (lg_inflight led)"
    and res: "llm_reserve day owner model route requests tokens cost now b = Inr b2"
  obtains pl bp after where "make_provider_ledger route b1 = (pl, bp)"
    and "advance_schedules route requests tokens now led pl = Inr after"
    and "b2 = put_route (route_key model route) ((charge_route route requests tokens cost after led)
         \<lparr>lg_inflight := AList.update owner (new_reservation route requests tokens cost after now led pl) (lg_inflight led)\<rparr>)
       (charge_provider route after pl bp)"
proof -
  obtain pl bp where m: "make_provider_ledger route b1 = (pl, bp)" by fastforce
  then obtain after where "advance_schedules route requests tokens now led pl = Inr after"
    using res led fresh by (auto simp: llm_reserve_def with_ledger_def bindE_Inr)
  with m show ?thesis
    using res led fresh that by (auto simp: llm_reserve_def with_ledger_def Let_def charge_route_def)
qed

lemma charge_route_fields [simp]:
  "lg_inflight (charge_route route requests tokens cost after led) = lg_inflight led"
  "lg_requests_minute_key (charge_route route requests tokens cost after led) = lg_requests_minute_key led"
  "lg_requests_day_key (charge_route route requests tokens cost after led) = lg_requests_day_key led"
  "lg_tokens_day_updated_at (charge_route route requests tokens cost after led) = lg_tokens_day_updated_at led"
  "lg_cost_cycle_key (charge_route route requests tokens cost after led) = lg_cost_cycle_key led"
  "lg_cost_day_key (charge_route route requests tokens cost after led) = lg_cost_day_key led"
  "lg_requests_available_at (charge_route route requests tokens cost after led) = sc_requests after"
  "lg_tokens_available_at (charge_route route requests tokens cost after led) = sc_tokens after"
  by (simp_all add: charge_route_def)

lemma new_reservation_live: "t < now + LLM_RESERVATION_TTL_SECONDS * 1000000 \<Longrightarrow>
    \<not> stamp_expired t (rv_expires_at (new_reservation route requests tokens cost after now led pl))"
  by (simp add: new_reservation_def)

lemma update_entries: "e \<in> set (AList.update k v xs) \<Longrightarrow> e = (k, v) \<or> e \<in> set xs"
  by (induction xs) (auto split: if_splits)


definition moved_back :: "stamp \<Rightarrow> stamp \<Rightarrow> stamp \<Rightarrow> stamp" where
  "moved_back before after current = (if current = after then before else current)"


definition provider_back ::
  "provider_ledger option \<Rightarrow> provider_ledger option \<Rightarrow> provider_ledger option \<Rightarrow> provider_ledger option" where
  "provider_back before after found =
     (case (before, after) of
        (Some p, Some q) \<Rightarrow> map_option (\<lambda>c. c
          \<lparr>pv_requests_available_at := moved_back (pv_requests_available_at p) (pv_requests_available_at q) (pv_requests_available_at c),
           pv_tokens_available_at := moved_back (pv_tokens_available_at p) (pv_tokens_available_at q) (pv_tokens_available_at c)\<rparr>) found
      | _ \<Rightarrow> found)"

lemma moved_back_same [simp]: "moved_back x x c = c"
  by (simp add: moved_back_def)

lemma provider_back_same [simp]: "provider_back p p c = c"
  by (simp add: provider_back_def option.map_ident split: option.split)






subsection \<open>Pacing\<close>

lemma roll_steps_schedule:
  "lg_requests_available_at (roll_minute now led) = lg_requests_available_at led"
  "roll_day day now q led = Inr led' \<Longrightarrow> lg_requests_available_at led' = lg_requests_available_at led"
  "leak_tokens now q led = Inr led' \<Longrightarrow> lg_requests_available_at led' = lg_requests_available_at led"
  "drain_tokens now q led = Inr led' \<Longrightarrow> lg_requests_available_at led' = lg_requests_available_at led"
  "roll_cost day now route led = Inr led' \<Longrightarrow> lg_requests_available_at led' = lg_requests_available_at led"
  by (auto simp: roll_minute_def roll_day_def leak_tokens_def drain_tokens_def roll_cost_def bindE_Inr Let_def
      split: option.splits if_splits)

lemma roll_schedule: "roll_ledger day now route led = Inr led' \<Longrightarrow> lg_requests_available_at led' = lg_requests_available_at led"
  by (auto simp: roll_ledger_def bindE_Inr dest!: roll_steps_schedule(2-5) simp: roll_steps_schedule(1))

lemma count_entries_live:
  "\<forall>e\<in>set es. \<not> stamp_expired now (rv_expires_at (snd e)) \<Longrightarrow> fst (fold (count_entry now p) es (st, n)) = st"
proof (induction es arbitrary: n)
  case (Cons e es)
  then show ?case by (cases st) (auto simp: count_entry_def)
qed simp

lemma count_route_live:
  assumes "map_of (lb_routes b) k = Some led" and "\<forall>e\<in>set (lg_inflight led). \<not> stamp_expired now (rv_expires_at (snd e))"
    and "count_route now p key (b, n) = (b', m)"
  shows "map_of (lb_routes b') k = Some led"
proof (cases "map_of (lb_routes b) key")
  case (Some l)
  obtain l' ps' m' where f: "fold (count_entry now p) (lg_inflight l) ((l, lb_providers b), n) = ((l', ps'), m')"
    by (metis prod.collapse)
  have "l' = led" if "key = k"
    using count_entries_live [OF assms(2), of p "(led, lb_providers b)" n] f that Some assms(1) by simp
  then show ?thesis using assms(1,3) Some f by (auto simp: count_route_def put_route_def dict_simps)
qed (use assms in \<open>simp add: count_route_def\<close>)

lemma provider_inflight_live:
  assumes "map_of (lb_routes b) k = Some led" and "\<forall>e\<in>set (lg_inflight led). \<not> stamp_expired now (rv_expires_at (snd e))"
  shows "map_of (lb_routes (fst (provider_inflight now p b))) k = Some led"
proof -
  have "map_of (lb_routes (fst (fold (count_route now p) ks (b, n)))) k = Some led"
    if "map_of (lb_routes b) k = Some led" for ks b n
    using that
  proof (induction ks arbitrary: b n)
    case (Cons key ks)
    obtain b' m where c: "count_route now p key (b, n) = (b', m)" by fastforce
    show ?case using Cons.IH [OF count_route_live [OF Cons.prems assms(2) c]] by (simp add: c)
  qed simp
  then show ?thesis using assms(1) by (simp add: provider_inflight_def)
qed

text \<open>The route's gates are asked of the ledger rolled to the time of the call.\<close>

lemma available_admits:
  assumes "llm_available day model route n tk c t b = Inr (True, b')"
    and known: "map_of (lb_routes b) (route_key model route) = Some l"
    and live: "\<forall>e\<in>set (lg_inflight l). \<not> stamp_expired t (rv_expires_at (snd e))"
  obtains l' where "lg_requests_available_at l' = lg_requests_available_at l" and "route_admits t route l' n tk c = Inr True"
proof -
  have promote: "promote_legacy (route_key model route) route b = b" by (simp add: promote_legacy_def known)
  obtain l1 where roll: "roll_ledger day t route l = Inr l1"
    using assms(1) promote by (auto simp: llm_available_def llm_ledger_def Let_def bindE_Inr known)
  have live1: "\<forall>e\<in>set (lg_inflight l1). \<not> stamp_expired t (rv_expires_at (snd e))"
    using live roll_inflight [OF roll] by simp
  let ?b1 = "put_route (route_key model route) l1 b"
  have led: "llm_ledger day model t route False b = Inr (Some l1, ?b1)"
    using reap_fresh [OF live1, of "lb_providers b"]
    by (simp add: llm_ledger_def Let_def promote known roll put_route_def)
  have k1: "map_of (lb_routes ?b1) (route_key model route) = Some l1" by (simp add: put_route_def dict_simps)
  have k2: "map_of (lb_routes (fst (provider_inflight t p ?b1))) (route_key model route) = Some l1" for p
    by (rule provider_inflight_live [OF k1 live1])
  have "route_admits t route l1 n tk c = Inr True"
    using assms(1) k1 k2 by (auto simp: llm_available_def led bindE_Inr Let_def split: if_splits)
  then show ?thesis by (rule that [OF roll_schedule [OF roll]])
qed

text \<open>
  The request rate is kept: after a reservation of some requests on a route limited to \<open>rpm\<close> per minute, the route
  admits no further request before the schedule has moved past the reservation and its share of the minute, for as
  long as the reservation and those before it are live.
\<close>

theorem reservation_paces_the_route:
  assumes led: "llm_ledger day model now route True b = Inr (Some led, b1)"
    and fresh: "owner \<notin> fst ` set (lg_inflight led)" and rpm: "qp_rpm (lr_quota route) = Some r"
    and res: "llm_reserve day owner model route requests tokens cost now b = Inr b2"
    and "t < now + timedelta_us (60 * of_int requests / r)" and "t < now + LLM_RESERVATION_TTL_SECONDS * 1000000"
    and live: "\<And>e. e \<in> set (lg_inflight led) \<Longrightarrow> \<not> stamp_expired t (rv_expires_at (snd e))"
  shows "llm_available day model route n tk c t b2 \<noteq> Inr (True, b')"
proof
  assume av: "llm_available day model route n tk c t b2 = Inr (True, b')"
  obtain pl bp after where m: "make_provider_ledger route b1 = (pl, bp)"
    and after: "advance_schedules route requests tokens now led pl = Inr after"
    and b2: "b2 = put_route (route_key model route) ((charge_route route requests tokens cost after led)
         \<lparr>lg_inflight := AList.update owner (new_reservation route requests tokens cost after now led pl) (lg_inflight led)\<rparr>)
       (charge_provider route after pl bp)"
    by (rule reserve_writes [OF led fresh res])
  obtain pos where pos: "sc_requests after = Stamp pos" "now + timedelta_us (60 * of_int requests / r) \<le> pos"
    using after rpm by (auto simp: advance_schedules_def bindE_Inr request_schedule_after_def advance_schedule_def
        div_py_def split: if_splits)
  let ?r = "new_reservation route requests tokens cost after now led pl"
  let ?l = "(charge_route route requests tokens cost after led)\<lparr>lg_inflight := AList.update owner ?r (lg_inflight led)\<rparr>"
  have known: "map_of (lb_routes b2) (route_key model route) = Some ?l" by (simp add: b2 put_route_def dict_simps)
  have "\<forall>e\<in>set (lg_inflight ?l). \<not> stamp_expired t (rv_expires_at (snd e))"
    using live new_reservation_live [OF assms(6)] by (auto dest!: update_entries)
  from available_admits [OF av known this] obtain l' where l': "lg_requests_available_at l' = Stamp pos"
    and adm: "route_admits t route l' n tk c = Inr True" by (auto simp: pos)
  then have "pos \<le> t" using rpm by (auto simp: route_admits_def rpm_admits_def andE_def bindE_Inr Let_def split: if_splits)
  then show False using pos(2) assms(5) by simp
qed

subsection \<open>Concrete reservations\<close>

definition demo_day :: day_clock where "demo_day = (\<lambda>tz now. Inr ''1970-01-01'')"

definition paced_route :: llm_route where
  "paced_route = demo_route\<lparr>lr_quota := demo_quota\<lparr>qp_rpm := Some 6\<rparr>\<rparr>"

definition demo_fresh :: route_ledger where
  "demo_fresh = empty_route_ledger\<lparr>lg_requests_minute_key := minute_key 0, lg_cost_cycle_key := cycle_key 0 1\<rparr>"

lemma demo_rolled:
  assumes "route = demo_route \<or> route = paced_route"
  shows "llm_ledger day ''r'' 0 route True empty_llm_budget =
      Inr (Some demo_fresh, \<lparr>lb_routes = [(''r'', demo_fresh)], lb_providers = []\<rparr>)"
proof -
  have keys: "minute_key 0 \<noteq> ''''" "cycle_key 0 1 \<noteq> ''''" by code_simp+
  have q: "qp_rpd (lr_quota route) = None" "qp_tpd (lr_quota route) = None" "qp_tpm (lr_quota route) = None"
    "pc_daily_cost_cap (lr_pricing route) = None" "route_key ''r'' route = ''r''"
    using assms by (auto simp: demo_defs paced_route_def route_key_def or_text_def)
  have roll: "roll_ledger day 0 route empty_route_ledger = Inr demo_fresh"
    using keys by (simp add: roll_ledger_def roll_minute_def roll_day_def leak_tokens_def drain_tokens_def roll_cost_def q
        empty_route_ledger_def demo_fresh_def)
  have reap: "reap_expired 0 (demo_fresh, ps) = (demo_fresh, ps)" for ps
    by (simp add: reap_expired_def demo_fresh_def empty_route_ledger_def)
  show ?thesis
    by (simp add: llm_ledger_def Let_def q promote_legacy_def empty_llm_budget_def roll reap put_route_def)
qed


theorem reservation_paces_the_route_witness:
  "\<exists>b. llm_reserve demo_day ''o'' ''r'' paced_route 1 10 0 0 empty_llm_budget = Inr b \<and>
     (\<forall>b'. llm_available demo_day ''r'' paced_route 1 10 0 9000000 b \<noteq> Inr (True, b'))"
proof -
  have "case llm_reserve demo_day ''o'' ''r'' paced_route 1 10 0 0 empty_llm_budget of Inr _ \<Rightarrow> True | Inl _ \<Rightarrow> False"
    by code_simp
  then obtain b where b: "llm_reserve demo_day ''o'' ''r'' paced_route 1 10 0 0 empty_llm_budget = Inr b"
    by (auto split: sum.splits)
  have "qp_rpm (lr_quota paced_route) = Some 6" by (simp add: paced_route_def)
  moreover have "timedelta_us (60 * of_int 1 / 6) = 10000000" by code_simp
  moreover have "lg_inflight demo_fresh = []" by (simp add: demo_fresh_def empty_route_ledger_def)
  ultimately have "llm_available demo_day ''r'' paced_route 1 10 0 9000000 b \<noteq> Inr (True, b')" for b'
    by (intro reservation_paces_the_route [OF demo_rolled _ _ b]) (auto simp: LLM_RESERVATION_TTL_SECONDS_def)
  with b show ?thesis by blast
qed

subsection \<open>The selected route\<close>




















lemma reject_candidates [simp]: "st_candidates (reject m why st) = st_candidates st"
  by (simp add: reject_def)











subsection \<open>A full provider and a route without a ledger\<close>

text \<open>
  The selection does not survive a provider whose slots are taken by a sibling route: for a route of the same provider
  that has no ledger yet the admission check answers no, the code asserts that such a route has a ledger, and the
  whole selection fails, whatever routes come after it and however idle they are.
\<close>

theorem full_provider_stops_selection:
  assumes gates: "static_gates c policy transports req route0 = Inr route"
    and none: "map_of (lb_routes (st_ledger st)) (route_key key route) = None"
      "map_of (lb_routes (st_ledger st)) (lr_model route) = None"
    and conc: "lr_provider_concurrency route = Some conc" and window: "next_cheapest_window z route now = None"
    and full: "conc \<le> of_int (snd (provider_inflight now (lr_provider route) (st_ledger st)))"
    and size: "reservation_size route (rq_requests req) (route_estimate req route)
        (selected_transport route transports (rp_allow_dispatch_overflow policy)) = Inr (n, tk)"
    and "qp_tpd (lr_quota route) = None"
  shows "scan_routes z c policy transports req now ((key, route0) # entries) st = Inl AssertionError"
proof -
  let ?b = "st_ledger st"
  obtain b2 m where cnt: "provider_inflight now (lr_provider route) ?b = (b2, m)" by fastforce
  have missing: "llm_ledger (daily_reset_key z) key now route False b' = Inr (None, b')"
    if "map_of (lb_routes b') (route_key key route) = None" "map_of (lb_routes b') (lr_model route) = None" for b'
    using that by (simp add: llm_ledger_def Let_def promote_legacy_def)
  have "dom (map_of (lb_routes b2)) = dom (map_of (lb_routes ?b))"
    by (rule count_routes(3) [OF cnt [unfolded provider_inflight_def]])
  then have none2: "map_of (lb_routes b2) (route_key key route) = None" "map_of (lb_routes b2) (lr_model route) = None"
    using none by (auto simp: domIff)
  have no: "\<exists>b3. llm_available (daily_reset_key z) key route n tk cost now ?b = Inr (False, b3) \<and>
      map_of (lb_routes b3) (route_key key route) = None \<and> map_of (lb_routes b3) (lr_model route) = None" for cost
    using none none2 full conc cnt by (auto simp: llm_available_def missing)
  then obtain b3 where av: "llm_available (daily_reset_key z) key route n tk (estimated_cost z route tk now) now ?b = Inr (False, b3)"
    and none3: "map_of (lb_routes b3) (route_key key route) = None" "map_of (lb_routes b3) (lr_model route) = None"
    by blast
  have "ledger_gates z policy transports req now key route st = Inl AssertionError"
    using size assms(8) window av missing [OF none3]
    by (simp add: ledger_gates_def Let_def over_limit_def reject_exhausted_def)
  then show ?thesis by (simp add: gates)
qed

definition sibling_route :: llm_route where
  "sibling_route = demo_route\<lparr>lr_route_id := ''r2'', lr_model := ''m2''\<rparr>"

theorem full_provider_stops_selection_witness:
  "select_route demo_zones \<lparr>ct_routes = [(''r2'', sibling_route)], ct_aliases = [], ct_routing = []\<rparr> demo_policy [''direct'']
     demo_request 1 demo_llm_budget = Inl AssertionError"
proof -
  let ?c = "\<lparr>ct_routes = [(''r2'', sibling_route)], ct_aliases = [], ct_routing = []\<rparr>"
  let ?st = "\<lparr>st_rejected = [], st_candidates = [], st_retry_ats = [], st_ledger = demo_llm_budget\<rparr>"
  have st: "static_gates ?c demo_policy [''direct''] demo_request sibling_route = Inr sibling_route" by code_simp
  have none: "map_of (lb_routes (st_ledger ?st)) (route_key ''r2'' sibling_route) = None"
    "map_of (lb_routes (st_ledger ?st)) (lr_model sibling_route) = None"
    by (simp_all add: demo_llm_budget_def route_key_def or_text_def sibling_route_def)
  have conc: "lr_provider_concurrency sibling_route = Some 1" "qp_tpd (lr_quota sibling_route) = None"
    by (simp_all add: sibling_route_def demo_defs)
  have w: "next_cheapest_window demo_zones sibling_route 1 = None"
    by (simp add: next_cheapest_window_def sibling_route_def demo_route_def demo_rates)
  have full: "1 \<le> (of_int (snd (provider_inflight 1 (lr_provider sibling_route) (st_ledger ?st))) :: rat)"
  proof -
    have "fold (count_entry 1 ''p'') [(''h:u'', demo_reservation)] (x, 0) = (x, 1)" for x
      by (cases x) (simp add: count_entry_def demo_reservation_def new_reservation_def demo_route_def LLM_RESERVATION_TTL_SECONDS_def)
    then have "snd (provider_inflight 1 ''p'' demo_llm_budget) = 1"
      by (simp add: provider_inflight_def demo_llm_budget_def count_route_def split: prod.splits)
    then show ?thesis by (simp add: sibling_route_def demo_route_def)
  qed
  have sz: "reservation_size sibling_route (rq_requests demo_request) (route_estimate demo_request sibling_route)
      (selected_transport sibling_route [''direct''] (rp_allow_dispatch_overflow demo_policy)) = Inr (1, 10)"
    by code_simp
  have "scan_routes demo_zones ?c demo_policy [''direct''] demo_request 1 [(''r2'', sibling_route)] ?st = Inl AssertionError"
    by (rule full_provider_stops_selection [OF st none conc(1) w full sz conc(2)])
  then show ?thesis by (simp add: select_route_def)
qed

subsection \<open>The stored ledger\<close>

text \<open>
  The ledger survives storage: what is written is read back with the same routes and providers, the same counters and
  window keys and, for schedules that are absent or carry their zone, the same schedules.
\<close>

theorem llm_ledger_roundtrip:
  assumes "decode_llm_budget (serialize_llm_budget b) = b'" and "map_of (lb_routes b) k = Some l"
  shows "\<exists>l'. map_of (lb_routes b') k = Some l' \<and> lg_cost_used l' = lg_cost_used l \<and>
     lg_requests_minute l' = lg_requests_minute l \<and> lg_requests_day l' = lg_requests_day l \<and>
     lg_tokens_minute l' = lg_tokens_minute l \<and> lg_tokens_day l' = lg_tokens_day l \<and>
     lg_cost_day_used l' = lg_cost_day_used l \<and> lg_requests_minute_key l' = lg_requests_minute_key l \<and>
     lg_requests_day_key l' = lg_requests_day_key l \<and>
     (\<forall>n. lg_requests_available_at l = Stamp n \<longrightarrow> lg_requests_available_at l' = Stamp n) \<and>
     (\<forall>n. lg_tokens_available_at l = Stamp n \<longrightarrow> lg_tokens_available_at l' = Stamp n) \<and>
     (\<forall>n. lg_blocked_until l = Stamp n \<longrightarrow> lg_blocked_until l' = Stamp n) \<and>
     (\<forall>owner. map_of (lg_inflight l') owner = map_option norm_reservation (map_of (lg_inflight l) owner))"
  using assms by (auto simp: llm_budget_decode_serialize norm_llm_budget_maps norm_route_ledger_def dict_simps)

theorem llm_ledger_roundtrip_witness:
  "\<exists>l'. map_of (lb_routes (decode_llm_budget (serialize_llm_budget demo_llm_budget))) ''r'' = Some l' \<and>
     lg_tokens_minute l' = 10"
  using llm_ledger_roundtrip [of demo_llm_budget _ "''r''", OF refl] by (fastforce simp: demo_llm_budget_def)

end
