(* ===== verification/Record_Merge.thy ===== *)
theory Record_Merge
  imports Work_Queue Store_IO
begin

section \<open>Merging, pruning and pushing episode records (records.py, statesync.py)\<close>

text \<open>
  An episode record is a JSON object (\<open>pydict\<close>), an archive a dictionary from uid to record
  (\<open>records\<close>, from the work queue). Modelled here: the ownership tables of the lanes, the ranks
  of planning metadata, \<open>merge_preserving_foreign\<close> and the helpers it calls, \<open>merge_records\<close> and
  the retention functions of \<open>records.py\<close>, and the read-merge-write of one source in
  \<open>push_records_merged\<close> of \<open>statesync.py\<close>.

  Sets of keys (\<open>frozenset\<close>) are lists without order; the order in which a set is traversed only
  decides the insertion order of the resulting dictionary, which the sorted serialization hides.
  The merge copies records shallowly. The one place where that aliasing is visible is the served
  duration: it is written into the audio block the merged record shares with the remote one, so
  \<open>preserve_remote_served_duration\<close> returns both.
\<close>

subsection \<open>Python equality and conversions of JSON values\<close>

text \<open>\<open>a == b\<close>: numbers by value, objects without regard to order.\<close>

fun json_num :: "json \<Rightarrow> rat option" where
  "json_num (JBool b) = Some (if b then 1 else 0)"
| "json_num (JInt i) = Some (of_int i)"
| "json_num (JFloat q) = Some q"
| "json_num _ = None"

function (sequential) py_eq :: "json \<Rightarrow> json \<Rightarrow> bool" where
  "py_eq (JObj a) (JObj b) =
     (length a = length b \<and>
      list_all (\<lambda>(k, v). case map_of b k of None \<Rightarrow> False | Some w \<Rightarrow> py_eq v w) a)"
| "py_eq (JList xs) (JList ys) = (length xs = length ys \<and> list_all (\<lambda>(x, y). py_eq x y) (zip xs ys))"
| "py_eq JNull JNull = True"
| "py_eq (JStr s) (JStr t) = (s = t)"
| "py_eq (JTime s) (JTime t) = (s = t)"
| "py_eq x y = (case (json_num x, json_num y) of (Some p, Some q) \<Rightarrow> p = q | _ \<Rightarrow> False)"
  by pat_completeness auto
termination
proof (relation "measure (\<lambda>p. size (fst p))", goal_cases)
  case (2 a b p k v w)
  then have "size v \<le> size_list (size_prod (\<lambda>_. 0) size) a"
    by (auto intro!: size_list_estimation'[of p])
  then show ?case
    by simp
next
  case (3 xs ys p x y)
  then have "size x \<le> size_list size xs"
    by (auto dest!: set_zip_leftD intro!: size_list_estimation'[of x])
  then show ?case
    by simp
qed simp

definition is_dict :: "json \<Rightarrow> bool" where
  "is_dict v = (case v of JObj _ \<Rightarrow> True | _ \<Rightarrow> False)"

text \<open>\<open>dict(v) if isinstance(v, dict) else {}\<close> is \<open>as_dict\<close>; \<open>(v or {}).items()\<close>: \<close>

definition items_or_empty :: "json \<Rightarrow> exn + pydict" where
  "items_or_empty v =
     (if \<not> py_truthy v then Inr []
      else (case v of JObj d \<Rightarrow> Inr d | _ \<Rightarrow> Inl (AttributeError ''items'')))"

text \<open>\<open>frozenset(v or {})\<close> of a value that is not a dictionary may already raise.\<close>

definition frozenset_check :: "json \<Rightarrow> exn + unit" where
  "frozenset_check v =
     (if \<not> py_truthy v then Inr ()
      else bindE (py_iter v)
             (\<lambda>xs. if list_ex (\<lambda>x. case x of JList _ \<Rightarrow> True | JObj _ \<Rightarrow> True | _ \<Rightarrow> False) xs
                    then Inl TypeError else Inr ()))"

subsection \<open>Ownership tables\<close>

definition ARTIFACT_BLOCKS :: "string list" where
  "ARTIFACT_BLOCKS =
     [''audio'', ''transcript'', ''provider_transcript'', ''speakers'', ''media_availability'',
      ''integrity'', ''agenda_text'', ''agenda_backup'', ''minutes_text'', ''minutes_votes'',
      ''minutes_roster'', ''tags'', ''chapter_tags'', ''llm_tag_candidates'',
      ''tags_llm_call_attempts'', ''tags_llm_recipe_hash'', ''tags_spec_hash'',
      ''tags_input_fingerprint'', ''generated_agenda_candidates'', ''generated_chapters'',
      ''generated_chapters_spec_hash'', ''moments'', ''judging'']"

definition PLANNING_FIELDS :: "string list" where
  "PLANNING_FIELDS = [''sources'', ''timeline'', ''source_chapters'', ''chapters'', ''chapters_basis'']"

definition CHAPTER_BLOCKS :: "string list" where
  "CHAPTER_BLOCKS =
     [''generated_agenda_candidates'', ''generated_chapters'', ''generated_chapters_spec_hash'']"

definition LANE_OWNED_BLOCKS :: "(string \<times> string list) list" where
  "LANE_OWNED_BLOCKS =
     [(''audio'', [''audio'', ''media_availability'', ''agenda_text'', ''agenda_backup'',
                   ''minutes_text'', ''minutes_votes'', ''minutes_roster'']),
      (''transcribe'', [''transcript'', ''provider_transcript'']),
      (''align'', [''transcript'', ''provider_transcript'']),
      (''diarize'', [''speakers'']),
      (''speaker-identity'', [''moments'']),
      (''tag'', [''tags'', ''chapter_tags'', ''llm_tag_candidates'', ''tags_llm_call_attempts'',
                 ''tags_llm_recipe_hash'', ''tags_spec_hash'', ''tags_input_fingerprint'']),
      (''moments'', [''moments'']),
      (''judge'', [''judging'']),
      (''chapter-agenda'', [''generated_agenda_candidates'']),
      (''chapter-locator'', CHAPTER_BLOCKS),
      (''chapter'', CHAPTER_BLOCKS)]"

definition LANE_OWNED_STAGE_STATUS :: "(string \<times> string list) list" where
  "LANE_OWNED_STAGE_STATUS =
     [(''audio'', [''chapters'', ''timeline'', ''remap'', ''audio'', ''links'', ''agenda_text'',
                   ''minutes_text'']),
      (''transcribe'', [''transcript'']),
      (''align'', [''transcript'']),
      (''diarize'', [''native_diarize'']),
      (''speaker-identity'', [''speaker_identity'']),
      (''tag'', [''tags'']),
      (''moments'', [''moments'', ''moment-admission'', ''video-clips'']),
      (''judge'', [''judge'']),
      (''chapter-agenda'', [''chapter_agenda'']),
      (''chapter-locator'', [''chapter_locator'', ''generated_chapters'']),
      (''chapter'', [''chapter_agenda'', ''chapter_locator'', ''generated_chapters''])]"

definition RESET_GUARDED_AGENDA_LINK_KEYS :: "string list" where
  "RESET_GUARDED_AGENDA_LINK_KEYS =
     [''agenda_text_artifact'', ''agenda_text_artifact_key'', ''agenda_backup_artifact'',
      ''agenda_backup_artifact_key'']"

definition TRANSCRIPT_LINK_LANES :: "string list" where
  "TRANSCRIPT_LINK_LANES = [''transcribe'', ''align'']"

definition LOCATOR_AGENDA_CANDIDATE_KEYS :: "string list" where
  "LOCATOR_AGENDA_CANDIDATE_KEYS =
     [''locator_status'', ''locator_recipe'', ''locator_job_ref'', ''boundary_artifact_key'',
      ''boundary_artifact_url'', ''transcript_unit_source'']"

definition owned_agenda_candidate_keys :: "string option \<Rightarrow> pydict \<Rightarrow> string list" where
  "owned_agenda_candidate_keys lane local_agenda =
     (let keys = map fst local_agenda in
      if lane = Some ''chapter-agenda'' then filter (\<lambda>k. k \<notin> set LOCATOR_AGENDA_CANDIDATE_KEYS) keys
      else if lane = Some ''chapter-locator'' then filter (\<lambda>k. k \<in> set LOCATOR_AGENDA_CANDIDATE_KEYS) keys
      else if lane = Some ''chapter'' \<or> lane = None then keys
      else [])"

definition owned_link_keys :: "string option \<Rightarrow> pydict \<Rightarrow> string list" where
  "owned_link_keys lane local_links =
     (if lane = Some ''audio'' then filter (\<lambda>k. k \<noteq> ''transcript'') (map fst local_links)
      else if lane \<in> Some ` set TRANSCRIPT_LINK_LANES then [''transcript'']
      else [])"

definition owned_blocks_of_lane :: "string option \<Rightarrow> string list" where
  "owned_blocks_of_lane lane =
     (case lane of
        None \<Rightarrow> ARTIFACT_BLOCKS
      | Some l \<Rightarrow> (case map_of LANE_OWNED_BLOCKS l of None \<Rightarrow> ARTIFACT_BLOCKS | Some bs \<Rightarrow> bs))"

definition protected_blocks_for_lane :: "string option \<Rightarrow> string list" where
  "protected_blocks_for_lane lane = filter (\<lambda>b. b \<notin> set (owned_blocks_of_lane lane)) ARTIFACT_BLOCKS"

subsection \<open>Ranks of planning metadata\<close>

definition basis_rank :: "json \<Rightarrow> int" where
  "basis_rank basis =
     (case text_of_json basis of
        None \<Rightarrow> 0
      | Some s \<Rightarrow>
          if s = ''decoded'' \<or> py_startswith s ''decoded:'' then 3
          else if s = ''stream-sample'' then 2
          else if s = ''container'' then 1
          else 0)"

text \<open>\<open>x = d.get(key) or []\<close>, then iterated.\<close>

definition iter_or_empty :: "json \<Rightarrow> exn + json list" where
  "iter_or_empty v = (if py_truthy v then py_iter v else Inr [])"

definition record_source_basis_rank :: "pydict \<Rightarrow> exn + int" where
  "record_source_basis_rank rec =
     bindE (iter_or_empty (dget rec ''sources'' JNull))
       (\<lambda>sources.
          let ranks = [basis_rank (dget (as_dict s) ''duration_basis'' JNull). s \<leftarrow> sources, is_dict s]
          in Inr (if ranks = [] then 0 else Min (set ranks)))"

text \<open>\<open>[int(n) for n in re.findall(r":(\d+)", text)]\<close>\<close>

function colon_numbers :: "string \<Rightarrow> int list" where
  "colon_numbers [] = []"
| "colon_numbers (c # cs) =
     (if c = CHR '':'' \<and> takeWhile is_digit cs \<noteq> []
      then (case digits_value 0 (takeWhile is_digit cs) of None \<Rightarrow> 0 | Some n \<Rightarrow> n)
           # colon_numbers (dropWhile is_digit cs)
      else colon_numbers cs)"
  by pat_completeness auto
termination
  by (relation "measure length") (auto simp: length_dropWhile_le le_imp_less_Suc)

definition record_timeline_version_rank :: "pydict \<Rightarrow> int list" where
  "record_timeline_version_rank rec =
     (let version = (case dget rec ''timeline'' JNull of
                       JObj tl_doc \<Rightarrow> dget tl_doc ''version'' JNull
                     | _ \<Rightarrow> JStr '''')
      in colon_numbers (if py_truthy version then py_str version else ''''))"

record planning_rank =
  pr_version :: "int list"
  pr_basis :: int
  pr_chapters :: int
  pr_timeline :: int

definition record_planning_rank :: "pydict \<Rightarrow> exn + planning_rank" where
  "record_planning_rank rec =
     bindE (record_source_basis_rank rec)
       (\<lambda>basis. Inr \<lparr>pr_version = record_timeline_version_rank rec, pr_basis = basis,
          pr_chapters = (if py_truthy (dget rec ''source_chapters'' JNull) then 1 else 0),
          pr_timeline = (if py_truthy (dget rec ''timeline'' JNull) then 1 else 0)\<rparr>)"

text \<open>Python compares the tuples, and the version tuple in their first place, lexicographically.\<close>

definition rank_less :: "planning_rank \<Rightarrow> planning_rank \<Rightarrow> bool" where
  "rank_less p q =
     (pr_version p < pr_version q \<or>
      pr_version p = pr_version q \<and>
        [pr_basis p, pr_chapters p, pr_timeline p] < [pr_basis q, pr_chapters q, pr_timeline q])"


subsection \<open>Preserving the remote side\<close>

text \<open>\<open>set_served_duration_seconds(record, value)\<close>\<close>

definition set_served_duration_seconds :: "pydict \<Rightarrow> rat option \<Rightarrow> pydict" where
  "set_served_duration_seconds rec value =
     (let seconds = (case value of Some s \<Rightarrow> if 0 < s then JFloat s else JNull | None \<Rightarrow> JNull);
          audio = as_dict (dget rec ''audio'' JNull)
      in AList.update ''audio'' (JObj (AList.update ''duration_served'' seconds audio))
           (AList.update ''served_duration_seconds'' seconds rec))"

text \<open>
  The second component is the remote record afterwards: when its audio block is a dictionary and
  protected, the merged record holds that very dictionary, and the store is visible in both.
\<close>

definition preserve_remote_served_duration ::
  "pydict \<Rightarrow> pydict \<Rightarrow> string list \<Rightarrow> pydict \<times> pydict" where
  "preserve_remote_served_duration rec remote_rec protected =
     (if ''audio'' \<notin> set protected then (rec, remote_rec)
      else
        (case record_served_duration_seconds remote_rec of
           None \<Rightarrow> (rec, remote_rec)
         | Some s \<Rightarrow>
             (set_served_duration_seconds rec (Some s),
              if is_dict (dget remote_rec ''audio'' JNull)
              then AList.update ''audio''
                     (JObj (AList.update ''duration_served'' (JFloat s) (as_dict (dget remote_rec ''audio'' JNull))))
                     remote_rec
              else remote_rec)))"

definition keep_better_key :: "pydict \<Rightarrow> string list \<Rightarrow> string \<Rightarrow> pydict \<Rightarrow> pydict" where
  "keep_better_key remote_rec owned_artifacts key rec =
     (if py_truthy (dget remote_rec key JNull) then AList.update key (dget remote_rec key JNull) rec
      else if key = ''source_chapters'' \<and> py_truthy (dget rec key JNull) then rec
      else if key \<in> set owned_artifacts then rec
      else AList.delete key rec)"

definition preserve_remote_planning_if_better ::
  "pydict \<Rightarrow> pydict \<Rightarrow> string list \<Rightarrow> exn + pydict" where
  "preserve_remote_planning_if_better rec remote_rec protected =
     bindE (record_planning_rank remote_rec) (\<lambda>remote_rank.
     bindE (record_planning_rank rec) (\<lambda>rank.
       Inr (if rank_less rank remote_rank
            then fold (keep_better_key remote_rec (filter (\<lambda>b. b \<notin> set protected) ARTIFACT_BLOCKS))
                   (PLANNING_FIELDS @ ARTIFACT_BLOCKS) rec
            else rec)))"

subsection \<open>\<open>merge_preserving_foreign\<close>\<close>

text \<open>\<open>for key, value in local.items(): if key in owned or key not in merged: merged[key] = value\<close>\<close>

definition merge_keys :: "string list \<Rightarrow> pydict \<Rightarrow> pydict \<Rightarrow> pydict" where
  "merge_keys owned local merged =
     fold (\<lambda>(k, v) m. if k \<in> set owned \<or> map_of m k = None then AList.update k v m else m) local merged"

definition merge_stage_completion ::
  "string option \<Rightarrow> string list \<Rightarrow> pydict \<Rightarrow> pydict \<Rightarrow> pydict \<Rightarrow> exn + pydict" where
  "merge_stage_completion lane protected local_rec remote_rec rec =
     (let local_status = dget local_rec ''stage_completion'' JNull;
          remote_status = dget remote_rec ''stage_completion'' JNull
      in if is_dict local_status \<or> is_dict remote_status then
           bindE (if protected = [] then frozenset_check local_status else Inr ()) (\<lambda>_.
           bindE (items_or_empty local_status) (\<lambda>items.
             let owned = (if protected = [] then map fst items
                          else (case map_of LANE_OWNED_STAGE_STATUS (case lane of None \<Rightarrow> '''' | Some l \<Rightarrow> l) of
                                  None \<Rightarrow> [] | Some names \<Rightarrow> names))
             in Inr (AList.update ''stage_completion'' (JObj (merge_keys owned items (as_dict remote_status))) rec)))
         else Inr rec)"

definition keeps_remote_link :: "string list \<Rightarrow> pydict option \<Rightarrow> string \<times> json \<Rightarrow> pydict \<Rightarrow> bool" where
  "keeps_remote_link owned uid_baseline kv merged =
     (case map_of merged (fst kv) of
        None \<Rightarrow> False
      | Some current \<Rightarrow>
          fst kv \<notin> set owned \<or>
          (case uid_baseline of
             None \<Rightarrow> False
           | Some base \<Rightarrow>
               fst kv \<in> set RESET_GUARDED_AGENDA_LINK_KEYS \<and>
               py_eq (snd kv) (dget base (fst kv) JNull) \<and>
               \<not> py_eq current (dget base (fst kv) JNull)))"

definition merge_link_items :: "string list \<Rightarrow> pydict option \<Rightarrow> pydict \<Rightarrow> pydict \<Rightarrow> pydict" where
  "merge_link_items owned uid_baseline local merged =
     fold (\<lambda>kv m. if keeps_remote_link owned uid_baseline kv m then m else AList.update (fst kv) (snd kv) m)
       local merged"

definition merge_links ::
  "string option \<Rightarrow> string list \<Rightarrow> pydict option \<Rightarrow> pydict \<Rightarrow> pydict \<Rightarrow> pydict \<Rightarrow> exn + pydict" where
  "merge_links lane protected uid_baseline local_rec remote_rec rec =
     (let local_links = dget local_rec ''links'' JNull;
          remote_links = dget remote_rec ''links'' JNull
      in if is_dict local_links \<or> is_dict remote_links then
           bindE (if protected = [] \<or> lane = Some ''audio'' then frozenset_check local_links else Inr ()) (\<lambda>_.
           bindE (items_or_empty local_links) (\<lambda>items.
             let owned = (if protected = [] then map fst items else owned_link_keys lane items)
             in Inr (AList.update ''links''
                       (JObj (merge_link_items owned uid_baseline items (as_dict remote_links))) rec)))
         else Inr rec)"

definition GAC :: string where "GAC = ''generated_agenda_candidates''"

definition merge_agenda_candidates ::
  "string option \<Rightarrow> string list \<Rightarrow> pydict \<Rightarrow> pydict \<Rightarrow> pydict \<Rightarrow> exn + pydict" where
  "merge_agenda_candidates lane protected local_rec remote_rec rec =
     (let local_agenda = dget local_rec GAC JNull;
          remote_agenda = dget remote_rec GAC JNull
      in if lane \<in> {Some ''chapter-agenda'', Some ''chapter-locator'', Some ''chapter'', None} then
           (if map_of local_rec GAC = None \<and> GAC \<notin> set protected then Inr (AList.delete GAC rec)
            else if is_dict local_agenda \<or> is_dict remote_agenda then
              bindE (frozenset_check local_agenda) (\<lambda>_.
              bindE (items_or_empty local_agenda) (\<lambda>items.
                let owned = (if protected = [] then map fst items else owned_agenda_candidate_keys lane items)
                in Inr (AList.update GAC (JObj (merge_keys owned items (as_dict remote_agenda))) rec)))
            else Inr rec)
         else
           (case map_of remote_rec GAC of
              None \<Rightarrow> Inr rec
            | Some v \<Rightarrow> Inr (AList.update GAC v rec)))"

definition copy_protected :: "string list \<Rightarrow> pydict \<Rightarrow> pydict \<Rightarrow> pydict" where
  "copy_protected protected remote_rec rec =
     fold (\<lambda>b r. if b = GAC then r
                  else (case map_of remote_rec b of None \<Rightarrow> r | Some v \<Rightarrow> AList.update b v r))
       protected rec"

text \<open>The record written for a uid this run owns.\<close>

definition merge_owned_record ::
  "string option \<Rightarrow> string list \<Rightarrow> pydict option \<Rightarrow> pydict \<Rightarrow> pydict \<Rightarrow> exn + pydict" where
  "merge_owned_record lane protected uid_baseline local_rec remote_rec =
     bindE (merge_stage_completion lane protected local_rec remote_rec local_rec) (\<lambda>r1.
     bindE (merge_links lane protected uid_baseline local_rec remote_rec r1) (\<lambda>r2.
     bindE (merge_agenda_candidates lane protected local_rec remote_rec r2) (\<lambda>r3.
       let r4 = copy_protected protected remote_rec r3;
           (r5, remote') = preserve_remote_served_duration r4 remote_rec protected
       in preserve_remote_planning_if_better r5 remote' protected)))"

definition drop_artifact_blocks :: "pydict \<Rightarrow> pydict" where
  "drop_artifact_blocks rec = filter (\<lambda>(k, v). k \<notin> set ARTIFACT_BLOCKS) rec"

text \<open>What one local record does to the merged archive.\<close>

definition merge_one ::
  "string option \<Rightarrow> string list \<Rightarrow> string list option \<Rightarrow> (string \<times> pydict) list option \<Rightarrow> records \<Rightarrow>
     string \<times> pydict \<Rightarrow> records \<Rightarrow> exn + records" where
  "merge_one lane protected owned_uids baseline remote item merged =
     (let uid = fst item; local_rec = snd item in
      if (case owned_uids of None \<Rightarrow> False | Some us \<Rightarrow> uid \<notin> set us) then
        Inr (if map_of remote uid = None then AList.update uid (drop_artifact_blocks local_rec) merged
             else merged)
      else
        bindE (case map_of remote uid of
                 None \<Rightarrow> Inr local_rec
               | Some remote_rec \<Rightarrow>
                   if remote_rec = [] then Inr local_rec
                   else merge_owned_record lane protected
                          (if lane = Some ''audio'' then
                             (case baseline of None \<Rightarrow> None | Some b \<Rightarrow> map_of b uid)
                           else None)
                          local_rec remote_rec)
          (\<lambda>rec. Inr (AList.update uid rec merged)))"

primrec foldE :: "('x \<Rightarrow> 's \<Rightarrow> exn + 's) \<Rightarrow> 'x list \<Rightarrow> 's \<Rightarrow> exn + 's" where
  "foldE f [] s = Inr s"
| "foldE f (x # xs) s = bindE (f x s) (foldE f xs)"

definition merge_preserving_foreign ::
  "records \<Rightarrow> records \<Rightarrow> string list \<Rightarrow> string list option \<Rightarrow> string option \<Rightarrow>
     (string \<times> pydict) list option \<Rightarrow> exn + records" where
  "merge_preserving_foreign remote local protected owned_uids lane baseline =
     foldE (merge_one lane protected owned_uids baseline remote) local remote"


subsection \<open>Retention\<close>

text \<open>
  \<open>_record_timestamp\<close> in microseconds. A reading without a time zone counts as UTC, the local zone
  of the runners.
\<close>

definition record_timestamp :: "pydict \<Rightarrow> exn + int option" where
  "record_timestamp rec =
     (let published = dget rec ''published'' JNull in
      if \<not> py_truthy published then Inr None
      else (case published of
              JTime t \<Rightarrow> Inr (parse_dt (JTime t))
            | JStr _ \<Rightarrow> Inr None
            | _ \<Rightarrow> Inl TypeError))"

definition age_cutoff :: "rat \<Rightarrow> instant \<Rightarrow> rat" where
  "age_cutoff max_age_years now = of_int now - max_age_years * (36525 / 100) * 86400 * 1000000"

definition merge_records :: "records \<Rightarrow> records \<Rightarrow> records" where
  "merge_records persisted fresh = fold (\<lambda>(uid, rec). AList.update uid rec) fresh persisted"

definition young_enough :: "rat \<Rightarrow> int option \<Rightarrow> bool" where
  "young_enough cutoff t = (case t of None \<Rightarrow> True | Some n \<Rightarrow> cutoff \<le> of_int n)"

text \<open>The records of an archive with their timestamps, in order.\<close>

definition stamped :: "records \<Rightarrow> exn + ((string \<times> pydict) \<times> int option) list" where
  "stamped recs = mapE (\<lambda>item. bindE (record_timestamp (snd item)) (\<lambda>t. Inr (item, t))) recs"

text \<open>\<open>xs[:n]\<close>\<close>

definition py_take :: "int \<Rightarrow> 'a list \<Rightarrow> 'a list" where
  "py_take n xs = (if 0 \<le> n then take (nat n) xs else take (length xs - nat (- n)) xs)"

definition prune_archive :: "records \<Rightarrow> int \<Rightarrow> rat \<Rightarrow> instant \<Rightarrow> exn + records" where
  "prune_archive recs max_items max_age_years now =
     bindE (stamped recs) (\<lambda>rows.
       let kept = filter (\<lambda>(item, t). young_enough (age_cutoff max_age_years now) t) rows
       in if int (length kept) \<le> max_items then Inr (map fst kept)
          else Inr (map fst (py_take max_items (sort_key (\<lambda>(item, t). newest_first t) kept))))"

definition project_retained_archive ::
  "records \<Rightarrow> records \<Rightarrow> int \<Rightarrow> rat \<Rightarrow> instant \<Rightarrow> exn + records" where
  "project_retained_archive persisted fresh max_items max_age_years now =
     prune_archive (merge_records persisted fresh) max_items max_age_years now"

text \<open>One body: the newest keep everything, those after them lose the audio block.\<close>

definition retain_group ::
  "int \<Rightarrow> int \<Rightarrow> ((string \<times> pydict) \<times> string \<times> int option) list \<Rightarrow> records" where
  "retain_group full metadata items =
     map (\<lambda>(rank, ((uid, rec), _)). (uid, if full \<le> int rank then AList.delete ''audio'' rec else rec))
       (zip [0..<nat metadata] items)"

definition project_body_retained_archive ::
  "records \<Rightarrow> records \<Rightarrow> int \<Rightarrow> int \<Rightarrow> rat \<Rightarrow> instant \<Rightarrow> exn + records" where
  "project_body_retained_archive persisted fresh full metadata max_age_years now =
     (if \<not> (0 < full \<and> full \<le> metadata) then Inl ValueError
      else
        bindE (stamped (merge_records persisted fresh)) (\<lambda>rows.
        bindE (mapE (\<lambda>(item, t). bindE (body_text (snd item)) (\<lambda>b. Inr (item, b, t)))
                 (filter (\<lambda>(item, t). young_enough (age_cutoff max_age_years now) t) rows)) (\<lambda>survivors.
          Inr (fold (\<lambda>(uid, rec). AList.update uid rec)
                 (concat (map (retain_group full metadata)
                    (rank_by_body (\<lambda>(item, b, t). b) (\<lambda>(item, b, t). t) survivors)))
                 []))))"

subsection \<open>Pushing one source (statesync.py)\<close>

text \<open>
  \<open>fetch_remote_records\<close>: what the remote file holds. The listing that distinguishes an absent file
  from an unreadable one is part of the read: an absent object is \<open>Some []\<close>, an object that does not
  parse is None. The records of a file are objects, as \<open>save_records\<close> writes them.
\<close>

definition records_of :: "json \<Rightarrow> exn + records" where
  "records_of v =
     (case v of
        JObj kvs \<Rightarrow>
          mapE (\<lambda>(uid, r). case r of JObj rec \<Rightarrow> Inr (uid, rec) | _ \<Rightarrow> Inl (AttributeError ''get'')) kvs
      | _ \<Rightarrow> Inl (AttributeError ''items''))"

definition episodes_of_file :: "json \<Rightarrow> json" where
  "episodes_of_file data = (case data of JObj kvs \<Rightarrow> dget kvs ''episodes'' (JObj []) | _ \<Rightarrow> JObj [])"

definition fetch_remote_records :: "blob option \<Rightarrow> exn + records option" where
  "fetch_remote_records object =
     (case object of
        None \<Rightarrow> Inr (Some [])
      | Some b \<Rightarrow>
          (case json_loads b of
             Inl _ \<Rightarrow> Inr None
           | Inr data \<Rightarrow>
               (let eps = episodes_of_file data in
                if eps = JNull then Inr None else bindE (records_of eps) (\<lambda>rs. Inr (Some rs)))))"

definition RECORD_SCHEMA_VERSION :: int where "RECORD_SCHEMA_VERSION = 2"

definition save_records :: "records \<Rightarrow> blob" where
  "save_records recs =
     dumps_sorted (JObj [(''schema_version'', JInt RECORD_SCHEMA_VERSION),
                         (''episodes'', JObj (map (map_prod id JObj) recs))])"

definition records_key :: "string \<Rightarrow> string" where
  "records_key src_key = ''state/sources/'' @ src_key @ ''/episodes.json''"

text \<open>
  \<open>_push_one\<close>: read the remote file, merge, upload. A read error or an unreadable file skips the
  source (or raises, with \<open>raise_on_transient\<close>); the upload is unconditional. The diagnostics
  and the local journal that follow it decide nothing about the remote file.
\<close>

record push_lane =
  pu_lane :: "string option"
  pu_protected :: "string list"
  pu_owned_uids :: "string list option"
  pu_baseline :: "(string \<times> pydict) list option"

definition push_one :: "push_lane \<Rightarrow> bool \<Rightarrow> string \<Rightarrow> records \<Rightarrow> int io" where
  "push_one lane raise_on_transient src_key local =
     bind (attempt (get_bytes (records_key src_key))) (\<lambda>reply.
       case reply of
         Inl _ \<Rightarrow> if raise_on_transient then Raise (OtherError ''TransientStateSyncError'') else Ret 0
       | Inr found \<Rightarrow>
           bind (liftE (fetch_remote_records (map_option fst found))) (\<lambda>remote.
             case remote of
               None \<Rightarrow> if raise_on_transient then Raise (OtherError ''TransientStateSyncError'') else Ret 0
             | Some rs \<Rightarrow>
                 bind (liftE (merge_preserving_foreign rs local (pu_protected lane) (pu_owned_uids lane)
                                (pu_lane lane) (pu_baseline lane))) (\<lambda>merged.
                 bind (put_cas (records_key src_key) (save_records merged) NoCond) (\<lambda>_. Ret 1))))"

end
