(* ===== verification/Record_Properties.thy ===== *)
theory Record_Properties
  imports Record_Merge Storage_Properties
begin

section \<open>What a scoped push may and may not change\<close>

text \<open>
  The merge is a sequence of steps, each of which stores into a few keys of the record. One lemma
  per step says what it does to an arbitrary key; the properties combine them.
\<close>

named_theorems record_keys \<open>the value of a key after a step of the merge\<close>

subsection \<open>Steps on one record\<close>

lemma merge_stage_completion_key:
  "merge_stage_completion lane protected l r rec = Inr rec' \<Longrightarrow> k \<noteq> ''stage_completion'' \<Longrightarrow>
     map_of rec' k = map_of rec k"
  by (auto simp: merge_stage_completion_def Let_def bindE_Inr dict_simps split: if_splits)

lemma merge_links_key:
  "merge_links lane protected base l r rec = Inr rec' \<Longrightarrow> k \<noteq> ''links'' \<Longrightarrow> map_of rec' k = map_of rec k"
  by (auto simp: merge_links_def Let_def bindE_Inr dict_simps split: if_splits)

lemma merge_agenda_candidates_key:
  "merge_agenda_candidates lane protected l r rec = Inr rec' \<Longrightarrow> k \<noteq> GAC \<Longrightarrow> map_of rec' k = map_of rec k"
  by (auto simp: merge_agenda_candidates_def Let_def bindE_Inr dict_simps split: if_splits option.splits)

lemma merge_agenda_candidates_foreign:
  assumes "merge_agenda_candidates lane protected l r rec = Inr rec'"
    and "lane \<notin> {Some ''chapter-agenda'', Some ''chapter-locator'', Some ''chapter'', None}"
    and "map_of r GAC = Some v"
  shows "map_of rec' GAC = Some v"
  using assms by (auto simp: merge_agenda_candidates_def Let_def dict_simps)

lemma copy_protected_key [record_keys]:
  "map_of (copy_protected protected remote rec) k =
     (if k \<in> set protected \<and> k \<noteq> GAC \<and> map_of remote k \<noteq> None then map_of remote k else map_of rec k)"
  unfolding copy_protected_def
  by (induction protected arbitrary: rec) (auto simp: dict_simps split: option.splits)

lemma set_served_key [record_keys]:
  "k \<noteq> ''audio'' \<Longrightarrow> k \<noteq> ''served_duration_seconds'' \<Longrightarrow>
     map_of (set_served_duration_seconds rec v) k = map_of rec k"
  by (simp add: set_served_duration_seconds_def Let_def dict_simps)

lemma preserve_served_key:
  assumes "preserve_remote_served_duration rec remote protected = (rec', remote')"
    and "k \<noteq> ''audio'' \<and> k \<noteq> ''served_duration_seconds'' \<or> ''audio'' \<notin> set protected"
  shows "map_of rec' k = map_of rec k \<and> map_of remote' k = map_of remote k"
  using assms
  by (auto simp: preserve_remote_served_duration_def record_keys dict_simps split: if_splits option.splits)

lemma keep_better_key_other [record_keys]:
  "k \<noteq> key \<Longrightarrow> map_of (keep_better_key remote owned key rec) k = map_of rec k"
  by (simp add: keep_better_key_def dict_simps)

lemma keep_better_key_cong:
  "map_of rec k = map_of rec' k \<Longrightarrow>
     map_of (keep_better_key remote owned k rec) k = map_of (keep_better_key remote owned k rec') k"
proof -
  assume eq: "map_of rec k = map_of rec' k"
  then have "dget rec k JNull = dget rec' k JNull"
    by (simp add: dget_def)
  with eq show ?thesis
    by (cases "k = ''source_chapters''") (simp_all add: keep_better_key_def dict_simps)
qed

lemma keep_better_keys [record_keys]:
  "distinct ks \<Longrightarrow>
     map_of (fold (keep_better_key remote owned) ks rec) k =
       (if k \<in> set ks then map_of (keep_better_key remote owned k rec) k else map_of rec k)"
proof (induction ks arbitrary: rec)
  case (Cons key ks)
  show ?case
  proof (cases "k = key")
    case False
    then have "map_of (keep_better_key remote owned k (keep_better_key remote owned key rec)) k =
                 map_of (keep_better_key remote owned k rec) k"
      by (intro keep_better_key_cong) (simp add: record_keys)
    with False Cons show ?thesis
      by (auto simp: record_keys)
  qed (use Cons in auto)
qed simp

lemma guarded_keys_distinct [simp]: "distinct (PLANNING_FIELDS @ ARTIFACT_BLOCKS)"
  by (simp add: PLANNING_FIELDS_def ARTIFACT_BLOCKS_def)

lemma preserve_planning_key:
  assumes "preserve_remote_planning_if_better rec remote protected = Inr rec'"
  obtains "map_of rec' k = map_of rec k"
  | "k \<in> set (PLANNING_FIELDS @ ARTIFACT_BLOCKS)"
    and "map_of rec' k =
           map_of (keep_better_key remote (filter (\<lambda>b. b \<notin> set protected) ARTIFACT_BLOCKS) k rec) k"
proof -
  let ?owned = "filter (\<lambda>b. b \<notin> set protected) ARTIFACT_BLOCKS"
  from assms have "rec' = rec \<or> rec' = fold (keep_better_key remote ?owned) (PLANNING_FIELDS @ ARTIFACT_BLOCKS) rec"
    by (auto simp: preserve_remote_planning_if_better_def bindE_Inr simp del: fold_append split: if_splits)
  then show ?thesis
    using that keep_better_keys[OF guarded_keys_distinct, of remote ?owned rec k]
    by (cases "k \<in> set (PLANNING_FIELDS @ ARTIFACT_BLOCKS)") (auto simp del: fold_append)
qed

text \<open>An artifact block after the planning step: unchanged, the remote one, or (if foreign) dropped.\<close>

lemma preserve_planning_block:
  assumes "preserve_remote_planning_if_better rec remote protected = Inr rec'" and "b \<in> set ARTIFACT_BLOCKS"
  obtains "map_of rec' b = map_of rec b"
  | "py_truthy (dget remote b JNull)" and "map_of rec' b = map_of remote b"
  | "b \<in> set protected" and "\<not> py_truthy (dget remote b JNull)" and "map_of rec' b = None"
proof -
  have "b \<noteq> ''source_chapters''"
    using assms(2) by (auto simp: ARTIFACT_BLOCKS_def)
  with assms show ?thesis
    using that
    by (elim preserve_planning_key[where k = b])
       (auto simp: keep_better_key_def dict_simps dget_def split: if_splits option.splits)
qed

subsection \<open>The record of one uid\<close>

lemma merge_owned_record_steps:
  assumes "merge_owned_record lane protected base l r = Inr rec"
  obtains r1 r2 r3 r5 remote' where
    "merge_stage_completion lane protected l r l = Inr r1"
    "merge_links lane protected base l r r1 = Inr r2"
    "merge_agenda_candidates lane protected l r r2 = Inr r3"
    "preserve_remote_served_duration (copy_protected protected r r3) r protected = (r5, remote')"
    "preserve_remote_planning_if_better r5 remote' protected = Inr rec"
proof -
  from assms obtain r1 r2 r3 where
    "merge_stage_completion lane protected l r l = Inr r1"
    "merge_links lane protected base l r r1 = Inr r2"
    "merge_agenda_candidates lane protected l r r2 = Inr r3"
    and last: "(case preserve_remote_served_duration (copy_protected protected r r3) r protected of
       (r5, remote') \<Rightarrow> preserve_remote_planning_if_better r5 remote' protected) = Inr rec"
    by (auto simp: merge_owned_record_def Let_def bindE_Inr)
  then show ?thesis
    using that by (cases "preserve_remote_served_duration (copy_protected protected r r3) r protected") auto
qed

lemma artifact_key_facts:
  assumes "b \<in> set ARTIFACT_BLOCKS"
  shows "b \<noteq> ''stage_completion'' \<and> b \<noteq> ''links'' \<and> b \<noteq> ''served_duration_seconds''"
  using assms by (auto simp: ARTIFACT_BLOCKS_def)

lemma foreign_block_of_record:
  assumes "merge_owned_record lane protected base l r = Inr rec"
    and b: "b \<in> set ARTIFACT_BLOCKS" "b \<in> set protected" "b \<noteq> ''audio''"
    and gac: "b = GAC \<Longrightarrow> lane \<notin> {Some ''chapter-agenda'', Some ''chapter-locator'', Some ''chapter'', None}"
    and r: "map_of r b = Some v" "py_truthy v"
  shows "map_of rec b = Some v"
  using assms(1)
proof (rule merge_owned_record_steps)
  fix r1 r2 r3 r5 remote'
  assume steps: "merge_agenda_candidates lane protected l r r2 = Inr r3"
      "preserve_remote_served_duration (copy_protected protected r r3) r protected = (r5, remote')"
      "preserve_remote_planning_if_better r5 remote' protected = Inr rec"
  have "map_of r3 b = Some v" if "b = GAC"
    using merge_agenda_candidates_foreign[OF steps(1) gac] that r by simp
  then have "map_of (copy_protected protected r r3) b = Some v"
    using b r by (auto simp: record_keys)
  then have "map_of r5 b = Some v \<and> map_of remote' b = Some v"
    using preserve_served_key[OF steps(2), of b] b artifact_key_facts[OF b(1)] r by auto
  with r(2) show ?thesis
    by - (rule preserve_planning_block[OF steps(3) b(1)]; simp add: dget_def)
qed

lemma served_duration_positive: "record_served_duration_seconds r = Some s \<Longrightarrow> 0 < s"
  by (auto simp: record_served_duration_seconds_def positive_seconds_def first_some_def Let_def
      split: option.splits sum.splits if_splits)

lemma foreign_audio_of_record:
  assumes "merge_owned_record lane protected base l r = Inr rec"
    and audio: "''audio'' \<in> set protected" "map_of r ''audio'' = Some (JObj a)" "a \<noteq> []"
  shows "\<exists>a'. map_of rec ''audio'' = Some (JObj a') \<and> a' \<noteq> [] \<and>
    (\<forall>k. k \<noteq> ''duration_served'' \<longrightarrow> map_of a' k = map_of a k)"
  using assms(1)
proof (rule merge_owned_record_steps)
  fix r1 r2 r3 r5 remote'
  assume steps: "preserve_remote_served_duration (copy_protected protected r r3) r protected = (r5, remote')"
      "preserve_remote_planning_if_better r5 remote' protected = Inr rec"
  have "map_of (copy_protected protected r r3) ''audio'' = Some (JObj a)"
    using audio by (simp add: record_keys GAC_def)
  then obtain a' where a': "map_of r5 ''audio'' = Some (JObj a')" "map_of remote' ''audio'' = Some (JObj a')"
      "a' \<noteq> []" "\<And>k. k \<noteq> ''duration_served'' \<Longrightarrow> map_of a' k = map_of a k"
    using steps(1) audio served_duration_positive[of r]
    by (auto simp: preserve_remote_served_duration_def set_served_duration_seconds_def Let_def dget_def
        is_dict_def dict_simps split: if_splits option.splits)
  have "''audio'' \<in> set ARTIFACT_BLOCKS"
    by (simp add: ARTIFACT_BLOCKS_def)
  with a' show ?thesis
    by - (rule preserve_planning_block[OF steps(2)], assumption; auto simp: dget_def)
qed

lemma own_block_of_record:
  assumes "merge_owned_record lane protected base l r = Inr rec"
    and b: "b \<in> set ARTIFACT_BLOCKS" "b \<notin> set protected" "b \<noteq> GAC"
  shows "map_of rec b = map_of l b \<or> py_truthy (dget r b JNull) \<and> map_of rec b = map_of r b"
  using assms(1)
proof (rule merge_owned_record_steps)
  fix r1 r2 r3 r5 remote'
  assume steps: "merge_stage_completion lane protected l r l = Inr r1"
      "merge_links lane protected base l r r1 = Inr r2"
      "merge_agenda_candidates lane protected l r r2 = Inr r3"
      "preserve_remote_served_duration (copy_protected protected r r3) r protected = (r5, remote')"
      "preserve_remote_planning_if_better r5 remote' protected = Inr rec"
  have "map_of (copy_protected protected r r3) b = map_of l b"
    using b artifact_key_facts[OF b(1)] merge_stage_completion_key[OF steps(1), of b]
      merge_links_key[OF steps(2), of b] merge_agenda_candidates_key[OF steps(3), of b]
    by (simp add: record_keys)
  moreover have "map_of r5 b = map_of (copy_protected protected r r3) b \<and> map_of remote' b = map_of r b"
    using preserve_served_key[OF steps(4), of b] b artifact_key_facts[OF b(1)] by auto
  ultimately show ?thesis
    using b by - (rule preserve_planning_block[OF steps(5) b(1)]; simp add: dget_def)
qed

lemma links_of_record:
  assumes "merge_owned_record lane protected base l r = Inr rec"
    and dict: "is_dict (dget l ''links'' JNull) \<or> is_dict (dget r ''links'' JNull)"
    and prot: "''links'' \<notin> set protected"
  obtains items where "items_or_empty (dget l ''links'' JNull) = Inr items"
    and "map_of rec ''links'' =
       Some (JObj (merge_link_items (if protected = [] then map fst items else owned_link_keys lane items)
                     base items (as_dict (dget r ''links'' JNull))))"
  using assms(1)
proof (rule merge_owned_record_steps)
  fix r1 r2 r3 r5 remote'
  assume steps: "merge_links lane protected base l r r1 = Inr r2"
      "merge_agenda_candidates lane protected l r r2 = Inr r3"
      "preserve_remote_served_duration (copy_protected protected r r3) r protected = (r5, remote')"
      "preserve_remote_planning_if_better r5 remote' protected = Inr rec"
  have links: "''links'' \<notin> set (PLANNING_FIELDS @ ARTIFACT_BLOCKS)" "''links'' \<noteq> GAC"
    by (simp_all add: ARTIFACT_BLOCKS_def PLANNING_FIELDS_def GAC_def)
  have "map_of rec ''links'' = map_of r5 ''links''"
    using links(1) by - (rule preserve_planning_key[OF steps(4), of "''links''"]; simp)
  moreover have "map_of r5 ''links'' = map_of r3 ''links''"
    using preserve_served_key[OF steps(3), of "''links''"] prot by (simp add: record_keys)
  moreover have "map_of r3 ''links'' = map_of r2 ''links''"
    by (rule merge_agenda_candidates_key[OF steps(2)]) (rule links(2)[THEN not_sym, THEN not_sym])
  moreover obtain items where "items_or_empty (dget l ''links'' JNull) = Inr items"
    and "r2 = AList.update ''links''
       (JObj (merge_link_items (if protected = [] then map fst items else owned_link_keys lane items)
          base items (as_dict (dget r ''links'' JNull)))) r1"
    using steps(1) dict by (auto simp: merge_links_def Let_def bindE_Inr)
  ultimately show ?thesis
    using that by (simp add: dict_simps)
qed

subsection \<open>The archive\<close>

lemma merge_one_other:
  "merge_one lane protected owned base remote item m = Inr m' \<Longrightarrow> k \<noteq> fst item \<Longrightarrow> map_of m' k = map_of m k"
  by (auto simp: merge_one_def Let_def bindE_Inr dict_simps split: if_splits)

lemma merge_one_own:
  assumes "merge_one lane protected owned base remote item m = Inr m'" and "map_of m (fst item) = map_of n (fst item)"
  shows "\<exists>n'. merge_one lane protected owned base remote item n = Inr n' \<and> map_of m' (fst item) = map_of n' (fst item)"
  using assms by (auto simp: merge_one_def Let_def bindE_Inr dict_simps split: if_splits)

lemma foldE_merge_absent:
  "foldE (merge_one lane protected owned base remote) local m = Inr m' \<Longrightarrow> k \<notin> fst ` set local \<Longrightarrow>
     map_of m' k = map_of m k"
  by (induction local arbitrary: m) (auto simp: bindE_Inr dest: merge_one_other)

lemma foldE_merge_lookup:
  assumes "foldE (merge_one lane protected owned base remote) local m = Inr m'"
    and "distinct (map fst local)" and "map_of local uid = Some l" and "map_of m uid = map_of n uid"
  shows "\<exists>n'. merge_one lane protected owned base remote (uid, l) n = Inr n' \<and> map_of m' uid = map_of n' uid"
  using assms
proof (induction local arbitrary: m)
  case (Cons item local)
  from Cons.prems(1) obtain m1 where m1: "merge_one lane protected owned base remote item m = Inr m1"
      "foldE (merge_one lane protected owned base remote) local m1 = Inr m'"
    by (auto simp: bindE_Inr)
  show ?case
  proof (cases "fst item = uid")
    case True
    with Cons.prems have "item = (uid, l)" "uid \<notin> fst ` set local"
      by (auto simp: prod_eq_iff split: if_splits)
    with foldE_merge_absent[OF m1(2)] merge_one_own[OF m1(1), of n] Cons.prems(4) show ?thesis
      by fastforce
  next
    case False
    then have "map_of m1 uid = map_of n uid"
      using merge_one_other[OF m1(1), of uid] Cons.prems(4) by auto
    moreover have "distinct (map fst local)" "map_of local uid = Some l"
      using Cons.prems(2,3) False by (auto split: if_splits)
    ultimately show ?thesis
      using Cons.IH[OF m1(2)] by simp
  qed
qed simp

lemma merge_lookup:
  assumes "merge_preserving_foreign remote local protected owned lane base = Inr merged"
    and "distinct (map fst local)" and "map_of local uid = Some l"
  obtains m' where "merge_one lane protected owned base remote (uid, l) remote = Inr m'"
    and "map_of merged uid = map_of m' uid"
  using foldE_merge_lookup[OF assms(1)[unfolded merge_preserving_foreign_def] assms(2,3) refl] that by blast

lemma merge_absent:
  "merge_preserving_foreign remote local protected owned lane base = Inr merged \<Longrightarrow> map_of local uid = None \<Longrightarrow>
     map_of merged uid = map_of remote uid"
  by (simp add: merge_preserving_foreign_def foldE_merge_absent map_of_eq_None_iff)

definition owns_uid :: "string list option \<Rightarrow> string \<Rightarrow> bool" where
  "owns_uid owned uid = (case owned of None \<Rightarrow> True | Some us \<Rightarrow> uid \<in> set us)"

text \<open>What the merge leaves at a uid: the cases of the code.\<close>

lemma merge_cases:
  assumes "merge_preserving_foreign remote local protected owned lane base = Inr merged"
    and "distinct (map fst local)"
  obtains (absent) "map_of local uid = None" "map_of merged uid = map_of remote uid"
  | (unowned_known) r where "\<not> owns_uid owned uid" "map_of remote uid = Some r" "map_of merged uid = Some r"
  | (unowned_new) l where "\<not> owns_uid owned uid" "map_of remote uid = None" "map_of local uid = Some l"
      "map_of merged uid = Some (drop_artifact_blocks l)"
  | (new) l where "owns_uid owned uid" "map_of local uid = Some l"
      "map_of remote uid = None \<or> map_of remote uid = Some []" "map_of merged uid = Some l"
  | (both) l r rec b where "owns_uid owned uid" "map_of local uid = Some l" "map_of remote uid = Some r" "r \<noteq> []"
      "merge_owned_record lane protected b l r = Inr rec" "map_of merged uid = Some rec"
      "b = (if lane = Some ''audio'' then (case base of None \<Rightarrow> None | Some d \<Rightarrow> map_of d uid) else None)"
proof (cases "map_of local uid")
  case None
  then show ?thesis
    using absent merge_absent[OF assms(1)] by simp
next
  case (Some l)
  then obtain m' where m': "merge_one lane protected owned base remote (uid, l) remote = Inr m'"
      and merged: "map_of merged uid = map_of m' uid"
    by (rule merge_lookup[OF assms])
  show ?thesis
  proof (cases "owns_uid owned uid")
    case False
    then have "m' = (if map_of remote uid = None then AList.update uid (drop_artifact_blocks l) remote else remote)"
      using m' by (auto simp: merge_one_def owns_uid_def split: option.splits)
    with False merged Some show ?thesis
      using unowned_known unowned_new by (cases "map_of remote uid") (auto simp: dict_simps)
  next
    case True
    then have "\<not> (case owned of None \<Rightarrow> False | Some us \<Rightarrow> uid \<notin> set us)"
      by (simp add: owns_uid_def split: option.splits)
    then obtain rec where rec: "(case map_of remote uid of
                 None \<Rightarrow> Inr l
               | Some r \<Rightarrow>
                   if r = [] then Inr l
                   else merge_owned_record lane protected
                          (if lane = Some ''audio'' then
                             (case base of None \<Rightarrow> None | Some b \<Rightarrow> map_of b uid)
                           else None) l r) = Inr rec" and m'_eq: "m' = AList.update uid rec remote"
      using m' by (simp only: merge_one_def Let_def fst_conv snd_conv if_False bindE_Inr) auto
    have look: "map_of merged uid = Some rec"
      by (simp add: merged m'_eq dict_simps)
    show ?thesis
    proof (cases "map_of remote uid")
      case None
      with rec look True Some show ?thesis
        using new by simp
    next
      case r: (Some r)
      with rec look True Some show ?thesis
        using new both by (cases "r = []") simp_all
    qed
  qed
qed

subsection \<open>Blocks\<close>

lemma protected_iff:
  "b \<in> set (protected_blocks_for_lane lane) \<longleftrightarrow> b \<in> set ARTIFACT_BLOCKS \<and> b \<notin> set (owned_blocks_of_lane lane)"
  by (simp add: protected_blocks_for_lane_def)

lemma chapter_lanes_own_candidates:
  "lane \<in> {Some ''chapter-agenda'', Some ''chapter-locator'', Some ''chapter'', None} \<Longrightarrow>
     GAC \<in> set (owned_blocks_of_lane lane)"
  by (auto simp: owned_blocks_of_lane_def LANE_OWNED_BLOCKS_def CHAPTER_BLOCKS_def GAC_def ARTIFACT_BLOCKS_def)

lemma owned_in_artifacts: "b \<in> set (owned_blocks_of_lane lane) \<Longrightarrow> b \<in> set ARTIFACT_BLOCKS"
proof -
  have "list_all (\<lambda>(l, bs). list_all (\<lambda>b. b \<in> set ARTIFACT_BLOCKS) bs) LANE_OWNED_BLOCKS"
    by (simp add: LANE_OWNED_BLOCKS_def CHAPTER_BLOCKS_def ARTIFACT_BLOCKS_def)
  then show "b \<in> set (owned_blocks_of_lane lane) \<Longrightarrow> b \<in> set ARTIFACT_BLOCKS"
    by (auto simp: owned_blocks_of_lane_def list_all_iff dest!: map_of_SomeD split: option.splits)
qed

lemma links_not_protected: "''links'' \<notin> set (protected_blocks_for_lane lane)"
  by (simp add: protected_iff ARTIFACT_BLOCKS_def)

text \<open>Equal blocks; of an audio block the served duration may have been refreshed.\<close>

definition same_block :: "string \<Rightarrow> json \<Rightarrow> json \<Rightarrow> bool" where
  "same_block b v w =
     (v = w \<or>
      b = ''audio'' \<and> is_dict v \<and> is_dict w \<and>
        (\<forall>k. k \<noteq> ''duration_served'' \<longrightarrow> map_of (as_dict w) k = map_of (as_dict v) k) \<and> py_truthy w)"

lemma same_block_refl [simp]: "same_block b v v"
  by (simp add: same_block_def)

lemma same_block_trans: "same_block b u v \<Longrightarrow> same_block b v w \<Longrightarrow> same_block b u w"
  by (auto simp: same_block_def)

lemma is_dictE: assumes "is_dict v" obtains d where "v = JObj d"
  using assms by (auto simp: is_dict_def split: json.splits)

lemma dget_truthy: "py_truthy (dget r b JNull) \<Longrightarrow> map_of r b = Some (dget r b JNull)"
  by (simp add: dget_def split: option.splits)

definition block_ok :: "string \<Rightarrow> pydict \<Rightarrow> bool" where
  "block_ok b r \<longleftrightarrow> py_truthy (dget r b JNull) \<and> (b = ''audio'' \<longrightarrow> is_dict (dget r b JNull))"

lemma foreign_block_kept:
  assumes merge: "merge_preserving_foreign remote local (protected_blocks_for_lane lane) owned lane base = Inr merged"
    and "distinct (map fst local)"
    and r: "map_of remote uid = Some r" "block_ok b r"
    and b: "b \<in> set (protected_blocks_for_lane lane)"
  shows "\<exists>rec. map_of merged uid = Some rec \<and> block_ok b rec \<and> same_block b (dget r b JNull) (dget rec b JNull)"
  using merge assms(2)
proof (cases rule: merge_cases[where uid = uid])
  case (both l r' rec b')
  with r have [simp]: "r' = r"
    by simp
  have held: "map_of r b = Some (dget r b JNull)" and truthy: "py_truthy (dget r b JNull)"
    using r(2) by (auto simp: block_ok_def intro: dget_truthy)
  show ?thesis
  proof (cases "b = ''audio''")
    case True
    then obtain a where a: "dget r ''audio'' JNull = JObj a" "a \<noteq> []"
      using r(2) truthy by (auto simp: block_ok_def elim!: is_dictE)
    with True held have "map_of r ''audio'' = Some (JObj a)"
      by simp
    then obtain a' where a': "map_of rec ''audio'' = Some (JObj a')"
        "a' \<noteq> []" "\<And>k. k \<noteq> ''duration_served'' \<Longrightarrow> map_of a' k = map_of a k"
      using foreign_audio_of_record[OF both(5)] b True a(2) by auto
    then show ?thesis
      using both(6) True a a' by (auto simp: dget_def block_ok_def is_dict_def same_block_def)
  next
    case False
    have "map_of rec b = Some (dget r b JNull)"
      using foreign_block_of_record[OF both(5) _ b False _ _ truthy] b held chapter_lanes_own_candidates
      by (auto simp: protected_iff)
    then show ?thesis
      using both(6) r(2) False by (auto simp: dget_def block_ok_def)
  qed
qed (use r in \<open>auto simp: block_ok_def dget_def\<close>)

end
