(* ===== verification/Push_Properties.thy ===== *)
theory Push_Properties
  imports Record_Properties
begin

section \<open>Histories of pushes\<close>

text \<open>
  What the per-record lemmas give for the archive of a source: blocks of other lanes survive every
  history of pushes that run one after the other, a lane's own block is written unless the remote
  plan is strictly better, uids of other shards are left alone, links are never lost, and a
  maintenance reset is not undone by a run that did not recompute the pointer. The last property
  shows what two overlapping pushes do: the upload is unconditional, so the second erases what the
  first wrote.
\<close>

subsection \<open>One push, many pushes\<close>

definition push_merge :: "push_lane \<times> records \<Rightarrow> records \<Rightarrow> exn + records" where
  "push_merge p remote =
     merge_preserving_foreign remote (snd p) (pu_protected (fst p)) (pu_owned_uids (fst p))
       (pu_lane (fst p)) (pu_baseline (fst p))"

text \<open>A push by a lane that does not own the block, with that lane's own protection list.\<close>

definition foreign_push :: "string \<Rightarrow> push_lane \<times> records \<Rightarrow> bool" where
  "foreign_push b p \<longleftrightarrow>
     pu_protected (fst p) = protected_blocks_for_lane (pu_lane (fst p)) \<and>
     b \<in> set ARTIFACT_BLOCKS \<and> b \<notin> set (owned_blocks_of_lane (pu_lane (fst p))) \<and>
     distinct (map fst (snd p))"

lemma foreign_push_keeps:
  assumes "push_merge p remote = Inr merged" and "foreign_push b p"
    and "map_of remote uid = Some r" and "block_ok b r"
  shows "\<exists>rec. map_of merged uid = Some rec \<and> block_ok b rec \<and> same_block b (dget r b JNull) (dget rec b JNull)"
  using assms by (intro foreign_block_kept) (auto simp: push_merge_def foreign_push_def protected_iff)

lemma foreign_pushes_keep:
  assumes "foldE push_merge pushes remote = Inr final" and "list_all (foreign_push b) pushes"
    and "map_of remote uid = Some r" and "block_ok b r"
  shows "\<exists>rec. map_of final uid = Some rec \<and> block_ok b rec \<and> same_block b (dget r b JNull) (dget rec b JNull)"
  using assms
proof (induction pushes arbitrary: remote r)
  case (Cons p pushes)
  then obtain merged where merged: "push_merge p remote = Inr merged"
      and rest: "foldE push_merge pushes merged = Inr final"
    by (auto simp: bindE_Inr)
  with Cons.prems foreign_push_keeps[of p remote merged b uid r] obtain rec where
    "map_of merged uid = Some rec" "block_ok b rec" "same_block b (dget r b JNull) (dget rec b JNull)"
    by auto
  with Cons.IH[OF rest] Cons.prems(2) show ?case
    by (auto intro: same_block_trans)
qed auto

subsection \<open>When the remote plan wins\<close>

lemma planning_rank_cong:
  assumes "\<And>k. k \<in> {''sources'', ''timeline'', ''source_chapters''} \<Longrightarrow> map_of r k = map_of r' k"
  shows "record_planning_rank r = record_planning_rank r'"
  using assms
  by (simp add: record_planning_rank_def record_source_basis_rank_def record_timeline_version_rank_def dget_def)

definition remote_plan_better :: "pydict \<Rightarrow> pydict \<Rightarrow> bool" where
  "remote_plan_better l r \<longleftrightarrow>
     (case (record_planning_rank l, record_planning_rank r) of
        (Inr p, Inr q) \<Rightarrow> rank_less p q | _ \<Rightarrow> False)"

text \<open>Without a better remote plan the record is the local one up to the blocks that are merged key by key.\<close>

lemma merge_owned_record_kept:
  assumes rec: "merge_owned_record lane protected base l r = Inr rec"
    and prot: "set protected \<subseteq> set ARTIFACT_BLOCKS" and plan: "\<not> remote_plan_better l r"
  obtains r2 r3 where "merge_agenda_candidates lane protected l r r2 = Inr r3"
    and "\<And>k. k \<notin> {''stage_completion'', ''links''} \<Longrightarrow> map_of r2 k = map_of l k"
    and "\<And>k. k \<noteq> GAC \<Longrightarrow> map_of r3 k = map_of r2 k"
    and "\<And>k. k \<in> set ARTIFACT_BLOCKS \<Longrightarrow> k \<notin> set protected \<Longrightarrow> map_of rec k = map_of r3 k"
  using rec
proof (rule merge_owned_record_steps)
  fix r1 r2 r3 r5 remote'
  assume steps: "merge_stage_completion lane protected l r l = Inr r1"
      "merge_links lane protected base l r r1 = Inr r2"
      "merge_agenda_candidates lane protected l r r2 = Inr r3"
      "preserve_remote_served_duration (copy_protected protected r r3) r protected = (r5, remote')"
      "preserve_remote_planning_if_better r5 remote' protected = Inr rec"
  have local: "map_of r2 k = map_of l k" if "k \<notin> {''stage_completion'', ''links''}" for k
    using that merge_stage_completion_key[OF steps(1), of k] merge_links_key[OF steps(2), of k] by auto
  have same: "map_of r5 k = map_of r3 k \<and> map_of remote' k = map_of r k"
    if "k \<notin> set protected" "k \<noteq> ''audio'' \<and> k \<noteq> ''served_duration_seconds'' \<or> ''audio'' \<notin> set protected" for k
    using that preserve_served_key[OF steps(4), of k] by (auto simp: record_keys)
  have plan_keys: "k \<notin> set protected" "k \<notin> {''stage_completion'', ''links'', GAC}"
      "k \<noteq> ''audio'' \<and> k \<noteq> ''served_duration_seconds''"
    if "k \<in> {''sources'', ''timeline'', ''source_chapters''}" for k
    using that prot by (auto simp: ARTIFACT_BLOCKS_def GAC_def)
  have "map_of r5 k = map_of l k" "map_of remote' k = map_of r k" if "k \<in> {''sources'', ''timeline'', ''source_chapters''}" for k
    using same [of k] plan_keys [OF that] local [of k] merge_agenda_candidates_key[OF steps(3), of k] by simp_all
  then have "record_planning_rank r5 = record_planning_rank l" "record_planning_rank remote' = record_planning_rank r"
    by (auto intro!: planning_rank_cong)
  with plan steps(5) have "rec = r5"
    by (auto simp: preserve_remote_planning_if_better_def remote_plan_better_def bindE_Inr split: sum.splits if_splits)
  then have kept: "map_of rec k = map_of r3 k" if "k \<in> set ARTIFACT_BLOCKS" "k \<notin> set protected" for k
    using that same [of k] artifact_key_facts [OF that(1)] by auto
  show thesis
    by (rule that [OF steps(3) local merge_agenda_candidates_key [OF steps(3)] kept])
qed

lemma own_block_of_record_rank:
  assumes rec: "merge_owned_record lane protected base l r = Inr rec"
    and prot: "set protected \<subseteq> set ARTIFACT_BLOCKS"
    and b: "b \<in> set ARTIFACT_BLOCKS" "b \<notin> set protected" "b \<noteq> GAC"
    and plan: "\<not> remote_plan_better l r"
  shows "map_of rec b = map_of l b"
  using merge_owned_record_kept [OF rec prot plan] b artifact_key_facts [OF b(1)] by (metis insertE singletonD)

subsection \<open>The generated agenda candidates\<close>

text \<open>
  The one block that several lanes write: its extraction keys are those of the lane \<open>chapter-agenda\<close>, its locator keys
  those of \<open>chapter-locator\<close>, the lane \<open>chapter\<close> and a full run write both.
\<close>

definition writes_candidate :: "string option \<Rightarrow> string \<Rightarrow> bool" where
  "writes_candidate lane k \<longleftrightarrow>
     (if lane = Some ''chapter-agenda'' then k \<notin> set LOCATOR_AGENDA_CANDIDATE_KEYS
      else if lane = Some ''chapter-locator'' then k \<in> set LOCATOR_AGENDA_CANDIDATE_KEYS
      else True)"

text \<open>
  The candidates after a push: gone if the run removed them; else key by key the run's value where the lane writes
  the key or the archive has none, and the archive's value everywhere else. A value of the run that is no dictionary
  (\<open>null\<close>) counts as no keys when the archive has a dictionary.
\<close>

definition candidates_merged :: "string option \<Rightarrow> pydict \<Rightarrow> pydict \<Rightarrow> pydict \<Rightarrow> bool" where
  "candidates_merged lane l r rec \<longleftrightarrow>
     (let old = as_dict (dget r GAC JNull) in
      case map_of l GAC of
        None \<Rightarrow> map_of rec GAC = None
      | Some v \<Rightarrow>
          if is_dict v \<or> is_dict (dget r GAC JNull) then
            \<exists>d. map_of rec GAC = Some (JObj d) \<and>
              (\<forall>k. map_of d k =
                 (case map_of (as_dict v) k of
                    None \<Rightarrow> map_of old k
                  | Some x \<Rightarrow> if writes_candidate lane k \<or> map_of old k = None then Some x else map_of old k))
          else map_of rec GAC = Some v)"

lemma merge_keys_step:
  "merge_keys owned (kv # local) m =
     merge_keys owned local (if fst kv \<in> set owned \<or> map_of m (fst kv) = None then AList.update (fst kv) (snd kv) m else m)"
  by (cases kv) (simp add: merge_keys_def)

lemma merge_keys_lookup:
  "distinct (map fst local) \<Longrightarrow>
     map_of (merge_keys owned local m) k =
       (case map_of local k of
          None \<Rightarrow> map_of m k
        | Some v \<Rightarrow> if k \<in> set owned \<or> map_of m k = None then Some v else map_of m k)"
proof (induction local arbitrary: m)
  case (Cons kv local)
  then have "k = fst kv \<Longrightarrow> map_of local k = None"
    by (auto simp: map_of_eq_None_iff)
  with Cons show ?case
    by (cases kv) (auto simp: merge_keys_step dict_simps split: option.split)
qed (simp add: merge_keys_def)

definition candidate_lane :: "string option \<Rightarrow> bool" where
  "candidate_lane lane \<longleftrightarrow> lane \<in> {Some ''chapter-agenda'', Some ''chapter-locator'', Some ''chapter'', None}"

lemma owned_candidates:
  "candidate_lane lane \<Longrightarrow> k \<in> set (owned_agenda_candidate_keys lane items) \<longleftrightarrow> k \<in> fst ` set items \<and> writes_candidate lane k"
  by (auto simp: candidate_lane_def owned_agenda_candidate_keys_def writes_candidate_def)

lemma candidates_of_lane:
  assumes merge: "merge_agenda_candidates lane protected l r rec = Inr rec'" and lane: "candidate_lane lane"
    and prot: "GAC \<notin> set protected" "protected = [] \<Longrightarrow> lane \<in> {Some ''chapter'', None}"
    and keys: "distinct (map fst (as_dict (dget l GAC JNull)))" and same: "map_of rec GAC = map_of l GAC"
  shows "candidates_merged lane l r rec'"
proof (cases "map_of l GAC")
  case None
  with merge lane prot(1) show ?thesis
    by (auto simp: merge_agenda_candidates_def candidates_merged_def candidate_lane_def Let_def dict_simps)
next
  case (Some v)
  then have v: "dget l GAC JNull = v"
    by (simp add: dget_def)
  show ?thesis
  proof (cases "is_dict v \<or> is_dict (dget r GAC JNull)")
    case True
    have merges: "lane \<in> {Some ''chapter-agenda'', Some ''chapter-locator'', Some ''chapter'', None}"
      using lane by (simp add: candidate_lane_def)
    then obtain items where items: "items_or_empty v = Inr items"
      and rec': "rec' = AList.update GAC (JObj (merge_keys
          (if protected = [] then map fst items else owned_agenda_candidate_keys lane items)
          items (as_dict (dget r GAC JNull)))) rec"
      using merge Some True unfolding merge_agenda_candidates_def Let_def v if_P [OF merges] by (auto simp: bindE_Inr)
    have as: "items = as_dict v"
      using items by (cases v) (auto simp: items_or_empty_def split: if_splits)
    have own: "k \<in> set (if protected = [] then map fst items else owned_agenda_candidate_keys lane items) \<longleftrightarrow>
        k \<in> fst ` set items \<and> writes_candidate lane k" for k
    proof (cases "protected = []")
      case True
      with prot(2) have "writes_candidate lane k"
        by (auto simp: writes_candidate_def)
      with True show ?thesis
        by simp
    qed (simp add: owned_candidates [OF lane])
    define owned where "owned = (if protected = [] then map fst items else owned_agenda_candidate_keys lane items)"
    have "map_of d k =
        (case map_of items k of
           None \<Rightarrow> map_of old k
         | Some x \<Rightarrow> if writes_candidate lane k \<or> map_of old k = None then Some x else map_of old k)"
      if "d = merge_keys owned items old" for d old k
    proof -
      have "k \<in> set owned \<longleftrightarrow> writes_candidate lane k" if "map_of items k \<noteq> None"
        using own [of k] that unfolding owned_def [symmetric] by (simp add: map_of_eq_None_iff)
      then show ?thesis
        using keys merge_keys_lookup [of items owned old k] that
        unfolding v as [symmetric] by (cases "map_of items k") simp_all
    qed
    then show ?thesis
      using True Some unfolding candidates_merged_def Let_def rec' owned_def [symmetric]
      by (auto simp: dict_simps as)
  next
    case False
    with merge lane Some same show ?thesis
      by (auto simp: merge_agenda_candidates_def candidates_merged_def candidate_lane_def Let_def v)
  qed
qed

lemma candidates_of_record:
  assumes rec: "merge_owned_record lane protected base l r = Inr rec"
    and prot: "protected = protected_blocks_for_lane lane"
    and lane: "candidate_lane lane" and plan: "\<not> remote_plan_better l r"
    and keys: "distinct (map fst (as_dict (dget l GAC JNull)))"
  shows "candidates_merged lane l r rec"
proof -
  have sub: "set protected \<subseteq> set ARTIFACT_BLOCKS" and gac: "GAC \<in> set ARTIFACT_BLOCKS" "GAC \<notin> set protected"
    using lane prot chapter_lanes_own_candidates [of lane] by (auto simp: protected_iff candidate_lane_def GAC_def ARTIFACT_BLOCKS_def)
  have full: "lane \<in> {Some ''chapter'', None}" if "protected = []"
  proof -
    have "''audio'' \<in> set protected" if "lane \<in> {Some ''chapter-agenda'', Some ''chapter-locator''}"
      using that by (auto simp: prot protected_iff ARTIFACT_BLOCKS_def owned_blocks_of_lane_def LANE_OWNED_BLOCKS_def CHAPTER_BLOCKS_def)
    with that lane show ?thesis
      by (auto simp: candidate_lane_def)
  qed
  obtain r2 r3 where "merge_agenda_candidates lane protected l r r2 = Inr r3" "map_of r2 GAC = map_of l GAC"
    and same: "map_of rec GAC = map_of r3 GAC"
    using merge_owned_record_kept [OF rec sub plan] gac artifact_key_facts [OF gac(1)] by (metis insertE singletonD)
  then have "candidates_merged lane l r r3"
    by (intro candidates_of_lane [where rec = r2]) (use lane gac full keys in auto)
  with same show ?thesis
    unfolding candidates_merged_def by (simp only:)
qed

lemma candidates_taken_whole:
  "map_of remote uid = None \<or> map_of remote uid = Some [] \<Longrightarrow>
     candidates_merged lane l (case map_of remote uid of None \<Rightarrow> [] | Some r \<Rightarrow> r) l"
  by (auto simp: candidates_merged_def Let_def dget_def is_dict_def split: option.split json.splits)

lemma known_lane_candidates:
  assumes "GAC \<in> set (owned_blocks_of_lane lane)" and "lane \<in> insert None (Some ` fst ` set LANE_OWNED_BLOCKS)"
  shows "candidate_lane lane"
proof -
  have owners: "list_all (\<lambda>(l, bs). GAC \<in> set bs \<longrightarrow> candidate_lane (Some l)) LANE_OWNED_BLOCKS"
    by code_simp
  show ?thesis
  proof (cases lane)
    case None
    then show ?thesis
      by (simp add: candidate_lane_def)
  next
    case (Some n)
    with assms(2) obtain bs where bs: "map_of LANE_OWNED_BLOCKS n = Some bs"
      by (cases "map_of LANE_OWNED_BLOCKS n") (auto simp: map_of_eq_None_iff)
    then have "GAC \<in> set bs"
      using assms(1) Some by (simp add: owned_blocks_of_lane_def)
    with owners map_of_SomeD [OF bs] Some show ?thesis
      by (auto simp: list_all_iff)
  qed
qed

subsection \<open>Links\<close>

lemma merge_link_items_absent [record_keys]:
  "k \<notin> fst ` set local \<Longrightarrow> map_of (merge_link_items owned base local m) k = map_of m k"
  unfolding merge_link_items_def
  by (induction local arbitrary: m) (auto simp: dict_simps)

lemma keeps_remote_link_cong:
  "map_of m (fst kv) = map_of n (fst kv) \<Longrightarrow> keeps_remote_link owned base kv m = keeps_remote_link owned base kv n"
  by (simp add: keeps_remote_link_def)

lemma merge_link_items_step:
  "merge_link_items owned base (kv # local) m =
     merge_link_items owned base local
       (if keeps_remote_link owned base kv m then m else AList.update (fst kv) (snd kv) m)"
  by (simp add: merge_link_items_def)

lemma merge_link_items_key:
  assumes "distinct (map fst local)" and "map_of local k = Some v"
  shows "map_of (merge_link_items owned base local m) k =
           (if keeps_remote_link owned base (k, v) m then map_of m k else Some v)"
  using assms
proof (induction local arbitrary: m)
  case (Cons kv local)
  show ?case
  proof (cases "fst kv = k")
    case True
    with Cons.prems have "kv = (k, v)" "k \<notin> fst ` set local"
      by (auto simp: prod_eq_iff)
    then show ?thesis
      by (simp add: merge_link_items_step record_keys dict_simps)
  next
    case False
    let ?m = "if keeps_remote_link owned base kv m then m else AList.update (fst kv) (snd kv) m"
    have "map_of ?m k = map_of m k"
      using False by (simp add: dict_simps)
    moreover from this have "keeps_remote_link owned base (k, v) ?m = keeps_remote_link owned base (k, v) m"
      by (intro keeps_remote_link_cong) simp
    moreover have "map_of (merge_link_items owned base local ?m) k =
           (if keeps_remote_link owned base (k, v) ?m then map_of ?m k else Some v)"
      using Cons.prems False by (intro Cons.IH) (auto split: if_splits)
    ultimately show ?thesis
      by (simp add: merge_link_items_step)
  qed
qed simp

lemma keeps_foreign_link:
  "k \<notin> set owned \<Longrightarrow> map_of m k = Some v \<Longrightarrow> map_of (merge_link_items owned base local m) k = Some v"
proof (induction local arbitrary: m)
  case (Cons kv local)
  then have "map_of (if keeps_remote_link owned base kv m then m else AList.update (fst kv) (snd kv) m) k = Some v"
    by (auto simp: keeps_remote_link_def dict_simps)
  with Cons.IH Cons.prems(1) show ?case
    unfolding merge_link_items_step by blast
qed (simp add: merge_link_items_def)

lemma owned_link_keys_other:
  "lane \<noteq> Some ''audio'' \<Longrightarrow> k \<noteq> ''transcript'' \<Longrightarrow> k \<notin> set (owned_link_keys lane items)"
  by (simp add: owned_link_keys_def)

lemma guarded_keys_owned_by_audio:
  "k \<in> set RESET_GUARDED_AGENDA_LINK_KEYS \<Longrightarrow> map_of items k = Some v \<Longrightarrow>
     k \<in> set (owned_link_keys (Some ''audio'') items)"
  by (force simp: owned_link_keys_def RESET_GUARDED_AGENDA_LINK_KEYS_def dest: map_of_SomeD)

subsection \<open>The properties\<close>

text \<open>
  C8: across any history of pushes that run one after the other, an artifact block whose owner is
  none of the pushing lanes stays in the archive: its value is the one that was there (of an audio
  block the recorded served duration may be refreshed), whatever stale copies the lanes hold.
\<close>

theorem foreign_blocks_survive_pushes:
  assumes "foldE push_merge pushes remote = Inr final" and "list_all (foreign_push b) pushes"
    and "map_of remote uid = Some r" and "block_ok b r"
  shows "\<exists>rec. map_of final uid = Some rec \<and> same_block b (dget r b JNull) (dget rec b JNull)"
  using foreign_pushes_keep[OF assms] by blast

text \<open>
  C9: a lane's own block is written: after its push the archive holds exactly the value the run produced (a missing
  block stays missing), unless the remote record has a strictly better edit plan. The one block several lanes write,
  the generated agenda candidates, is merged key by key: the run's value of every key its lane writes and of every key the
  archive lacked, the archive's value of all others; a run that removed the block removes it from the archive.
\<close>

theorem own_block_is_written:
  assumes merge: "push_merge p remote = Inr merged" and "distinct (map fst (snd p))"
    and prot: "pu_protected (fst p) = protected_blocks_for_lane (pu_lane (fst p))"
    and l: "map_of (snd p) uid = Some l" and own: "owns_uid (pu_owned_uids (fst p)) uid"
    and b: "b \<in> set (owned_blocks_of_lane (pu_lane (fst p)))"
    and lane: "pu_lane (fst p) \<in> insert None (Some ` fst ` set LANE_OWNED_BLOCKS)"
    and keys: "distinct (map fst (as_dict (dget l GAC JNull)))"
    and r: "r = (case map_of remote uid of None \<Rightarrow> [] | Some r \<Rightarrow> r)"
    and plan: "\<not> remote_plan_better l r"
  shows "\<exists>rec. map_of merged uid = Some rec \<and>
    (if b = GAC then candidates_merged (pu_lane (fst p)) l r rec else map_of rec b = map_of l b)"
  using merge[unfolded push_merge_def] assms(2)
proof (cases rule: merge_cases[where uid = uid])
  case (new l')
  with l have "l' = l"
    by simp
  with new(3,4) show ?thesis
    using candidates_taken_whole [OF new(3)] by (auto simp: r)
next
  case (both l' r' rec b')
  with l r have eqs: "l' = l" "r' = r"
    by simp_all
  with both have rec: "merge_owned_record (pu_lane (fst p)) (pu_protected (fst p)) b' l r = Inr rec"
    by simp
  have "map_of rec b = map_of l b" if "b \<noteq> GAC"
    by (rule own_block_of_record_rank [OF rec _ _ _ that plan]) (use b prot in \<open>auto simp: protected_iff owned_in_artifacts\<close>)
  moreover have "candidates_merged (pu_lane (fst p)) l r rec" if "b = GAC"
    using candidates_of_record [OF rec prot _ plan keys] known_lane_candidates b lane that by simp
  ultimately show ?thesis
    using both by auto
qed (use l own in simp_all)

text \<open>
  a run that is sharded by episode leaves the uids of its siblings alone: an unowned uid keeps
  its remote record exactly, a newly discovered one is recorded without any artifact block, and
  no record of the remote archive disappears.
\<close>

theorem unowned_uids_untouched:
  assumes "push_merge p remote = Inr merged" and "distinct (map fst (snd p))"
    and "\<not> owns_uid (pu_owned_uids (fst p)) uid"
  shows "map_of merged uid =
           (case map_of remote uid of
              Some r \<Rightarrow> Some r
            | None \<Rightarrow> map_option drop_artifact_blocks (map_of (snd p) uid))"
  using assms(1)[unfolded push_merge_def] assms(2)
  by (cases rule: merge_cases[where uid = uid]) (use assms(3) in \<open>auto split: option.splits\<close>)

text \<open>
  a pointer that a maintenance reset cleared in the archive while an audio run was under way is
  not resurrected: if the run still holds the value it started from, the remote value stays; if it
  recomputed the pointer, its own value is written.
\<close>

theorem reset_pointer_outcome:
  assumes merge: "push_merge p remote = Inr merged" and "distinct (map fst (snd p))"
    and audio: "pu_lane (fst p) = Some ''audio''" "pu_protected (fst p) = protected_blocks_for_lane (Some ''audio'')"
    and base: "map_of (case pu_baseline (fst p) of None \<Rightarrow> [] | Some d \<Rightarrow> d) uid = Some base"
    and l: "map_of (snd p) uid = Some l" "dget l ''links'' JNull = JObj items" "distinct (map fst items)"
    and r: "map_of remote uid = Some r" "dget r ''links'' JNull = JObj links" "map_of links k = Some current"
    and k: "k \<in> set RESET_GUARDED_AGENDA_LINK_KEYS" "map_of items k = Some v"
    and own: "owns_uid (pu_owned_uids (fst p)) uid"
  shows "\<exists>rec links'. map_of merged uid = Some rec \<and> dget rec ''links'' JNull = JObj links' \<and>
           map_of links' k = Some (if py_eq v (dget base k JNull) \<and> \<not> py_eq current (dget base k JNull)
                                   then current else v)"
  using merge[unfolded push_merge_def] assms(2)
proof (cases rule: merge_cases[where uid = uid])
  case (both l' r' rec b')
  then have "l' = l" "r' = r"
    using l r by simp_all
  then have one: "merge_owned_record (Some ''audio'') (pu_protected (fst p)) (Some base) l r = Inr rec"
    using both audio base by (simp split: option.splits)
  have dict: "is_dict (dget l ''links'' JNull) \<or> is_dict (dget r ''links'' JNull)"
    by (simp add: l is_dict_def)
  have protected: "pu_protected (fst p) \<noteq> []" "''links'' \<notin> set (pu_protected (fst p))"
    unfolding audio by (simp_all add: links_not_protected protected_blocks_for_lane_def ARTIFACT_BLOCKS_def
        owned_blocks_of_lane_def LANE_OWNED_BLOCKS_def)
  obtain found where found: "items_or_empty (dget l ''links'' JNull) = Inr found"
      and links': "map_of rec ''links'' = Some (JObj (merge_link_items (owned_link_keys (Some ''audio'') found)
                     (Some base) found links))"
    using links_of_record[OF one dict protected(2)] protected(1) r(2) by auto
  have "items \<noteq> []"
    using k(2) by auto
  with found l(2) have [simp]: "found = items"
    by (simp add: items_or_empty_def)
  have "keeps_remote_link (owned_link_keys (Some ''audio'') items) (Some base) (k, v) links \<longleftrightarrow>
          py_eq v (dget base k JNull) \<and> \<not> py_eq current (dget base k JNull)"
    using guarded_keys_owned_by_audio[OF k] k(1) r(3) by (simp add: keeps_remote_link_def)
  then show ?thesis
    using both(6) links' merge_link_items_key[OF l(3) k(2)] r(3) by (simp add: dget_def)
next
  case (new l')
  then show ?thesis
    using r by (auto simp: dget_def)
qed (use l own in simp_all)

subsection \<open>The push as a program\<close>

lemma mapE_map: "mapE f (map g xs) = mapE (\<lambda>x. f (g x)) xs"
  by (induction xs) (auto split: sum.splits)

text \<open>What a file written by \<open>save_records\<close> holds: the same records, their keys sorted.\<close>

definition sorted_records :: "records \<Rightarrow> records" where
  "sorted_records recs = sort_key fst (map (map_prod id (\<lambda>r. sort_key fst (map (map_prod id jsort) r))) recs)"

lemma fetch_saved: "fetch_remote_records (Some (save_records recs)) = Inr (Some (sorted_records recs))"
proof -
  have "jsort (JObj (map (map_prod id JObj) recs)) = JObj (map (map_prod id JObj) (sorted_records recs))"
    using sort_key_map_prod[of JObj "map (map_prod id (\<lambda>r. sort_key fst (map (map_prod id jsort) r))) recs"]
    by (simp add: sorted_records_def comp_def map_prod_def split_def)
  moreover have "records_of (JObj (map (map_prod id JObj) rs)) = Inr rs" for rs
  proof -
    have "mapE (\<lambda>x. case map_prod id JObj x of (uid, r) \<Rightarrow>
            (case r of JObj rec \<Rightarrow> Inr (uid, rec) | _ \<Rightarrow> Inl (AttributeError ''get''))) rs = Inr (map id rs)"
      by (intro mapE_ok) (auto split: prod.splits)
    then show ?thesis
      by (simp add: records_of_def mapE_map)
  qed
  ultimately show ?thesis
    by (simp add: fetch_remote_records_def save_records_def dumps_sorted_def episodes_of_file_def dget_def
        sort_key_def)
qed

lemma map_of_sorted_records:
  "map_of (sorted_records recs) uid = map_option (\<lambda>r. sort_key fst (map (map_prod id jsort) r)) (map_of recs uid)"
  by (simp add: sorted_records_def dict_simps)

lemma run_push_one:
  "run r2_bucket t (push_one lane strict sk local) s =
     (case fetch_remote_records (s (records_key sk)) of
        Inl e \<Rightarrow> (Inl e, s)
      | Inr None \<Rightarrow> (if strict then Inl (OtherError ''TransientStateSyncError'') else Inr 0, s)
      | Inr (Some remote) \<Rightarrow>
          (case push_merge (lane, local) remote of
             Inl e \<Rightarrow> (Inl e, s)
           | Inr merged \<Rightarrow> (Inr 1, s(records_key sk := Some (save_records merged)))))"
proof -
  have "map_option fst (map_option (\<lambda>b. (b, ETag b)) (s (records_key sk))) = s (records_key sk)"
    by (cases "s (records_key sk)") simp_all
  then show ?thesis
    by (simp add: push_one_def push_merge_def io_simps cond_holds_def del: option.map_comp
        split: sum.splits option.splits)
qed

text \<open>
  one push of one source either leaves the remote file exactly as it was (the remote file was
  unreadable, or an exception is raised) or replaces it by the merge of what the file held with the
  local records, and a later read finds that merge.
\<close>

theorem push_is_merge_or_nothing:
  assumes "run r2_bucket t (push_one lane strict sk local) s = (res, s')"
  shows "s' = s \<and> res \<noteq> Inr 1 \<or>
         (\<exists>remote merged. fetch_remote_records (s (records_key sk)) = Inr (Some remote) \<and>
            push_merge (lane, local) remote = Inr merged \<and> res = Inr 1 \<and>
            s' = s(records_key sk := Some (save_records merged)) \<and>
            fetch_remote_records (s' (records_key sk)) = Inr (Some (sorted_records merged)))"
  using assms by (auto simp: run_push_one fetch_saved split: sum.splits option.splits if_splits)

text \<open>
  C11: two pushes of the same source that overlap lose an update: both read the file, and the second
  upload replaces the whole file by a merge that never saw the first one, although both report success.
\<close>

theorem overlapping_push_is_erased:
  assumes remote: "fetch_remote_records (s (records_key sk)) = Inr (Some remote)"
    and a: "push_merge (a, la) remote = Inr ma" and b: "push_merge (b, lb) remote = Inr mb"
    and S: "S = fold (perform r2_bucket)
        [Begin 1 (forget (push_one a strict sk la)), Begin 2 (forget (push_one b strict sk lb)),
         Proceed 1, Proceed 2, Proceed 1, Proceed 2] (idle_system s t)"
  shows "sys_proc S 1 = Ret () \<and> sys_proc S 2 = Ret () \<and>
         fetch_remote_records (sys_store S (records_key sk)) = Inr (Some (sorted_records mb))"
proof -
  have stored: "map_option fst (map_option (\<lambda>b. (b, ETag b)) (s (records_key sk))) = s (records_key sk)"
    by (cases "s (records_key sk)") simp_all
  have merges: "merge_preserving_foreign remote la (pu_protected a) (pu_owned_uids a) (pu_lane a) (pu_baseline a) = Inr ma"
      "merge_preserving_foreign remote lb (pu_protected b) (pu_owned_uids b) (pu_lane b) (pu_baseline b) = Inr mb"
    using a b by (simp_all add: push_merge_def)
  show ?thesis
    unfolding S
    by (simp add: idle_system_def push_one_def forget_def get_bytes_def put_cas_def liftE_def r2_bucket_get
        r2_bucket_put stored remote merges cond_holds_def fetch_saved del: option.map_comp)
qed

subsection \<open>A concrete source\<close>

definition demo_record :: "string \<Rightarrow> string \<Rightarrow> pydict" where
  "demo_record audio transcript =
     [(''uid'', JStr ''e1''),
      (''audio'', JObj [(''key'', JStr audio)]),
      (''transcript'', JObj [(''key'', JStr transcript)]),
      (''links'', JObj [(''agenda'', JStr ''u''), (''agenda_text_artifact_key'', JStr audio)])]"

definition demo_remote :: records where
  "demo_remote = [(''e1'', demo_record ''a0'' ''t0''), (''e2'', demo_record ''a2'' ''t2'')]"

definition demo_lane :: "string \<Rightarrow> push_lane" where
  "demo_lane lane = \<lparr>pu_lane = Some lane, pu_protected = protected_blocks_for_lane (Some lane),
     pu_owned_uids = None, pu_baseline = Some [(''e1'', [(''agenda_text_artifact_key'', JStr ''old'')])]\<rparr>"

definition demo_shard :: push_lane where
  "demo_shard = (demo_lane ''transcribe'')\<lparr>pu_owned_uids := Some [''e2'']\<rparr>"

definition audio_key_at :: "records \<Rightarrow> string \<Rightarrow> json" where
  "audio_key_at recs uid =
     dget (as_dict (dget (case map_of recs uid of None \<Rightarrow> [] | Some r \<Rightarrow> r) ''audio'' JNull)) ''key'' JNull"


definition merged_or_empty :: "exn + records \<Rightarrow> records" where
  "merged_or_empty r = (case r of Inl _ \<Rightarrow> [] | Inr m \<Rightarrow> m)"

definition audio_push :: "push_lane \<times> records" where
  "audio_push = (demo_lane ''audio'', [(''e1'', demo_record ''a1'' ''stale'')])"

definition transcribe_push :: "push_lane \<times> records" where
  "transcribe_push = (demo_lane ''transcribe'', [(''e1'', demo_record ''a0'' ''t1'')])"

definition shard_push :: "push_lane \<times> records" where
  "shard_push = (demo_shard, [(''e1'', demo_record ''a0'' ''stale''), (''e2'', demo_record ''a2'' ''t3'')])"

lemma merged_or_empty: "\<not> isl r \<Longrightarrow> r = Inr (merged_or_empty r)"
  by (cases r) (simp_all add: merged_or_empty_def)

lemma demo_merges:
  "push_merge audio_push demo_remote = Inr (merged_or_empty (push_merge audio_push demo_remote))"
  "push_merge transcribe_push demo_remote = Inr (merged_or_empty (push_merge transcribe_push demo_remote))"
  "push_merge shard_push demo_remote = Inr (merged_or_empty (push_merge shard_push demo_remote))"
  "foldE push_merge [audio_push] demo_remote = Inr (merged_or_empty (push_merge audio_push demo_remote))"
proof -
  have ok: "\<not> isl (push_merge audio_push demo_remote)" "\<not> isl (push_merge transcribe_push demo_remote)"
    "\<not> isl (push_merge shard_push demo_remote)"
    by code_simp+
  show "push_merge audio_push demo_remote = Inr (merged_or_empty (push_merge audio_push demo_remote))"
    "push_merge transcribe_push demo_remote = Inr (merged_or_empty (push_merge transcribe_push demo_remote))"
    "push_merge shard_push demo_remote = Inr (merged_or_empty (push_merge shard_push demo_remote))"
    by (rule merged_or_empty, rule ok)+
  then show "foldE push_merge [audio_push] demo_remote = Inr (merged_or_empty (push_merge audio_push demo_remote))"
    by (auto simp: bindE_def split: sum.splits)
qed

theorem foreign_blocks_survive_pushes_witness:
  "\<exists>rec. map_of (merged_or_empty (push_merge audio_push demo_remote)) ''e1'' = Some rec \<and>
     same_block ''transcript'' (JObj [(''key'', JStr ''t0'')]) (dget rec ''transcript'' JNull)"
proof -
  have "list_all (foreign_push ''transcript'') [audio_push]" "block_ok ''transcript'' (demo_record ''a0'' ''t0'')"
    by code_simp+
  from foreign_blocks_survive_pushes[OF demo_merges(4) this(1) _ this(2), of "''e1''"] show ?thesis
    by (simp add: demo_remote_def demo_record_def dget_def)
qed

theorem own_block_is_written_witness:
  "\<exists>rec. map_of (merged_or_empty (push_merge audio_push demo_remote)) ''e1'' = Some rec \<and>
     map_of rec ''audio'' = Some (JObj [(''key'', JStr ''a1'')])"
proof -
  have "distinct (map fst (snd audio_push))"
      "pu_protected (fst audio_push) = protected_blocks_for_lane (pu_lane (fst audio_push))"
      "map_of (snd audio_push) ''e1'' = Some (demo_record ''a1'' ''stale'')"
      "owns_uid (pu_owned_uids (fst audio_push)) ''e1''"
      "''audio'' \<in> set (owned_blocks_of_lane (pu_lane (fst audio_push)))"
      "pu_lane (fst audio_push) \<in> insert None (Some ` fst ` set LANE_OWNED_BLOCKS)"
      "distinct (map fst (as_dict (dget (demo_record ''a1'' ''stale'') GAC JNull)))"
      "\<not> remote_plan_better (demo_record ''a1'' ''stale'')
           (case map_of demo_remote ''e1'' of None \<Rightarrow> [] | Some r \<Rightarrow> r)" "''audio'' \<noteq> GAC"
    by code_simp+
  with own_block_is_written[OF demo_merges(1) this(1-7) refl this(8)] show ?thesis
    by (simp add: demo_record_def)
qed

theorem unowned_uids_untouched_witness:
  "map_of (merged_or_empty (push_merge shard_push demo_remote)) ''e1'' = Some (demo_record ''a0'' ''t0'')"
proof -
  have "distinct (map fst (snd shard_push))" "\<not> owns_uid (pu_owned_uids (fst shard_push)) ''e1''"
    by code_simp+
  from unowned_uids_untouched[OF demo_merges(3) this] show ?thesis
    by (simp add: demo_remote_def)
qed

text \<open>The run started from \<open>old\<close>, still holds it, and finds \<open>a0\<close> in the archive.\<close>

definition stale_push :: "push_lane \<times> records" where
  "stale_push = (demo_lane ''audio'',
     [(''e1'', [(''links'', JObj [(''agenda_text_artifact_key'', JStr ''old'')])])])"

theorem reset_pointer_outcome_witness:
  "\<exists>rec links'. map_of (merged_or_empty (push_merge stale_push demo_remote)) ''e1'' = Some rec \<and>
     dget rec ''links'' JNull = JObj links' \<and> map_of links' ''agenda_text_artifact_key'' = Some (JStr ''a0'')"
proof -
  have ok: "\<not> isl (push_merge stale_push demo_remote)"
    by code_simp
  have pre: "distinct (map fst (snd stale_push))" "pu_lane (fst stale_push) = Some ''audio''"
      "pu_protected (fst stale_push) = protected_blocks_for_lane (Some ''audio'')"
      "owns_uid (pu_owned_uids (fst stale_push)) ''e1''"
      "''agenda_text_artifact_key'' \<in> set RESET_GUARDED_AGENDA_LINK_KEYS"
    by code_simp+
  show ?thesis
    using reset_pointer_outcome[OF merged_or_empty[OF ok] pre(1-3) _ _ _ _ _ _ _ pre(5) _ pre(4),
        of "[(''agenda_text_artifact_key'', JStr ''old'')]"
           "[(''links'', JObj [(''agenda_text_artifact_key'', JStr ''old'')])]"
           "[(''agenda_text_artifact_key'', JStr ''old'')]" "demo_record ''a0'' ''t0''"
           "[(''agenda'', JStr ''u''), (''agenda_text_artifact_key'', JStr ''a0'')]" "JStr ''a0''" "JStr ''old''"]
    by (simp add: stale_push_def demo_lane_def demo_remote_def demo_record_def dget_def)
qed

theorem push_is_merge_or_nothing_witness:
  "fetch_remote_records (snd (run r2_bucket 0 (push_one (fst audio_push) False ''k'' (snd audio_push))
      (\<lambda>_. Some (save_records []))) (records_key ''k'')) \<noteq> Inr None"
  using push_is_merge_or_nothing[of 0 "fst audio_push" False "''k''" "snd audio_push" "\<lambda>_. Some (save_records [])",
      OF prod.collapse[symmetric]]
  by (auto simp: fetch_saved)

text \<open>Both lanes report success; the audio key the first one wrote is gone.\<close>

definition demo_overlap :: "((string \<Rightarrow> blob option), unit) sys" where
  "demo_overlap = fold (perform r2_bucket)
     [Begin 1 (forget (push_one (fst audio_push) False ''k'' (snd audio_push))),
      Begin 2 (forget (push_one (fst transcribe_push) False ''k'' (snd transcribe_push))),
      Proceed 1, Proceed 2, Proceed 1, Proceed 2]
     (idle_system (\<lambda>_. Some (save_records demo_remote)) 0)"

theorem overlapping_push_is_erased_witness:
  "case fetch_remote_records (sys_store demo_overlap (records_key ''k'')) of
     Inr (Some recs) \<Rightarrow> audio_key_at recs ''e1'' = JStr ''a0'' | _ \<Rightarrow> False"
proof -
  have ok: "\<not> isl (push_merge audio_push (sorted_records demo_remote))"
      "\<not> isl (push_merge transcribe_push (sorted_records demo_remote))"
    by code_simp+
  have erased: "audio_key_at (sorted_records (merged_or_empty (push_merge transcribe_push (sorted_records demo_remote))))
                  ''e1'' = JStr ''a0''"
    by code_simp
  have merges: "push_merge (fst p, snd p) r = push_merge p r" for p r
    by simp
  show ?thesis
    using overlapping_push_is_erased[of "\<lambda>_. Some (save_records demo_remote)" "''k''" "sorted_records demo_remote"
        "fst audio_push" "snd audio_push" _ "fst transcribe_push" "snd transcribe_push" _ demo_overlap False 0,
        OF fetch_saved, unfolded merges, OF merged_or_empty[OF ok(1)] merged_or_empty[OF ok(2)] demo_overlap_def] erased
    by simp
qed

end
