(* ===== verification/Shard_Work.thy ===== *)
theory Shard_Work
  imports Record_Merge Backoff Media_Availability
begin

section \<open>The transcription backlog of a source (records.py)\<close>

text \<open>
  \<open>_iter_transcribe_routes\<close> decides which episodes of a source are transcription work of this run and
  by which route; \<open>estimate_transcribe_shard_work\<close> sums them into one weight per source,
  \<open>pending_transcribe_items\<close> lists them with a weight each. The episode view holds what these functions
  read of \<open>record_to_episode\<close>, for a record that function accepts. The route classifier and the
  staleness predicate are callbacks of the callers.
\<close>

record shard_episode =
  se_uid :: json
  se_guid :: json
  se_audio_key :: json
  se_audio_url :: json
  se_audio_spec_hash :: json
  se_materialize_error :: json
  se_availability :: "json option"
  se_transcript_synced :: bool
  se_transcript_key :: json
  se_transcript_version :: json
  se_timeout_attempts :: int
  se_timeout_last_attempt :: json
  se_duration_hours :: rat

definition coerce_non_negative_int :: "json \<Rightarrow> int" where
  "coerce_non_negative_int v = (case py_int v of Inl e \<Rightarrow> 0 | Inr i \<Rightarrow> max 0 i)"

text \<open>\<open>_availability_from_rec(rec)\<close>: None, or the verdict, of which only the effective state is read.\<close>

definition availability_of_record :: "pydict \<Rightarrow> json option" where
  "availability_of_record rec =
     (case dget rec ''media_availability'' JNull of
        JObj block \<Rightarrow>
          if py_truthy (dget block ''state'' JNull)
          then Some (let override = dget block ''operator_override'' JNull in
                     if py_truthy override then override else dget block ''state'' JNull)
          else None
      | _ \<Rightarrow> None)"

text \<open>\<open>(rec.get("audio") or {}).get(name)\<close>; a transcript that is not a dictionary counts as absent.\<close>

definition shard_episode_of :: "pydict \<Rightarrow> exn + shard_episode" where
  "shard_episode_of rec =
     bindE (sub_dict rec ''audio'') (\<lambda>audio.
       let t = dget rec ''transcript'' JNull;
           transcript = (if py_truthy t then as_dict t else []);
           guid = dget rec ''provider_guid'' JNull
       in Inr \<lparr>se_uid = dget rec ''uid'' JNull,
               se_guid = (if py_truthy guid then guid else JStr ''''),
               se_audio_key = dget audio ''key'' JNull,
               se_audio_url = dget audio ''url'' JNull,
               se_audio_spec_hash = dget audio ''spec_hash'' JNull,
               se_materialize_error = dget audio ''error'' JNull,
               se_availability = availability_of_record rec,
               se_transcript_synced = py_truthy (dget transcript ''synced'' (JBool False)),
               se_transcript_key = dget transcript ''key'' JNull,
               se_transcript_version = dget transcript ''pipeline_version'' JNull,
               se_timeout_attempts = coerce_non_negative_int (dget transcript ''timeout_attempts'' JNull),
               se_timeout_last_attempt = dget transcript ''timeout_last_attempt'' JNull,
               se_duration_hours = fst (record_duration_hours rec)\<rparr>)"

subsection \<open>Routes\<close>

datatype route = LocalRoute | DispatchRoute | BlockedRoute | InflightRoute | CopyRoute

definition route_of_text :: "string \<Rightarrow> exn + route" where
  "route_of_text s =
     (if s = ''local'' then Inr LocalRoute
      else if s = ''dispatch'' then Inr DispatchRoute
      else if s = ''blocked'' then Inr BlockedRoute
      else if s = ''inflight'' then Inr InflightRoute
      else if s = ''copy'' then Inr CopyRoute
      else Inl ValueError)"

text \<open>\<open>transcript_timeout_backoff_until(ep)\<close> on the stored attempt counter and stamp.\<close>

definition timeout_backoff_until :: "shard_episode \<Rightarrow> exn + instant option" where
  "timeout_backoff_until ep =
     (if se_timeout_attempts ep \<le> 0 then Inr None
      else
        (let stamp = se_timeout_last_attempt ep;
             delay = capped_exponential_backoff TRANSCRIPT_TIMEOUT_BACKOFF_BASE TRANSCRIPT_TIMEOUT_BACKOFF_MAX
                       (se_timeout_attempts ep)
         in if \<not> py_truthy stamp then Inr None
            else (case stamp of
                    JTime t \<Rightarrow> Inr (Some (as_utc t + delay))
                  | JStr _ \<Rightarrow> Inr None
                  | _ \<Rightarrow> Inl TypeError)))"

definition is_asr_key :: "shard_episode \<Rightarrow> exn + bool" where
  "is_asr_key ep =
     (let key = se_transcript_key ep;
          name = (if py_truthy (se_uid ep) then se_uid ep else se_guid ep)
      in if \<not> py_truthy key then Inr (py_startswith '''' (py_str name @ ''-asr-''))
         else (case text_of_json key of
                 None \<Rightarrow> Inl (AttributeError ''rsplit'')
               | Some k \<Rightarrow> Inr (py_startswith (last_path_part k) (py_str name @ ''-asr-''))))"

text \<open>What the synced transcript of an episode makes of it: nothing to do, a copy, or work as if unsynced.\<close>

datatype synced_verdict = SyncedSkip | SyncedCopy | SyncedWork

definition synced_verdict :: "(shard_episode \<Rightarrow> bool) option \<Rightarrow> string \<Rightarrow> shard_episode \<Rightarrow> exn + synced_verdict" where
  "synced_verdict stale version ep =
     (if \<not> se_transcript_synced ep then Inr SyncedWork
      else
        bindE (is_asr_key ep) (\<lambda>asr.
          let current = (se_transcript_version ep = JStr version) in
          Inr (if asr \<and> current \<and> (case stale of None \<Rightarrow> False | Some f \<Rightarrow> f ep) then SyncedCopy
               else if asr \<and> \<not> current then SyncedWork
               else SyncedSkip)))"

definition classify_route ::
  "(shard_episode \<Rightarrow> rat option \<Rightarrow> string) option \<Rightarrow> rat \<Rightarrow> shard_episode \<Rightarrow> rat option \<Rightarrow> exn + route" where
  "classify_route classifier max_hours ep seconds =
     (case classifier of
        Some f \<Rightarrow> route_of_text (f ep seconds)
      | None \<Rightarrow>
          (case seconds of
             None \<Rightarrow> Inr LocalRoute
           | Some d \<Rightarrow> Inr (if 0 < max_hours \<and> max_hours * 3600 < d then BlockedRoute else LocalRoute)))"

record route_ctx =
  rx_version :: string
  rx_max_hours :: rat
  rx_classifier :: "(shard_episode \<Rightarrow> rat option \<Rightarrow> string) option"
  rx_stale :: "(shard_episode \<Rightarrow> bool) option"
  rx_now :: instant

definition transcribable :: "shard_episode \<Rightarrow> exn + bool" where
  "transcribable ep =
     (if \<not> (py_truthy (se_audio_key ep) \<and> py_truthy (se_audio_spec_hash ep) \<and> py_truthy (se_audio_url ep))
      then Inr False
      else
        bindE (case se_availability ep of None \<Rightarrow> Inr False | Some s \<Rightarrow> in_texts s WITHHELD_STATES)
          (\<lambda>withheld. Inr (\<not> withheld \<and> \<not> py_truthy (se_materialize_error ep))))"

definition episode_route :: "route_ctx \<Rightarrow> shard_episode \<Rightarrow> exn + (route \<times> rat option) option" where
  "episode_route ctx ep =
     bindE (transcribable ep) (\<lambda>ready.
       if \<not> ready then Inr None
       else
        bindE (synced_verdict (rx_stale ctx) (rx_version ctx) ep) (\<lambda>verdict.
          case verdict of
            SyncedSkip \<Rightarrow> Inr None
          | SyncedCopy \<Rightarrow> Inr (Some (CopyRoute, None))
          | SyncedWork \<Rightarrow>
              bindE (timeout_backoff_until ep) (\<lambda>until.
                if (case until of None \<Rightarrow> False | Some u \<Rightarrow> rx_now ctx < u) then Inr (Some (BlockedRoute, None))
                else
                  (let seconds = (if 0 < se_duration_hours ep then Some (se_duration_hours ep * 3600) else None)
                   in bindE (classify_route (rx_classifier ctx) (rx_max_hours ctx) ep seconds)
                        (\<lambda>r. Inr (Some (r, seconds)))))))"

definition record_route :: "route_ctx \<Rightarrow> string \<times> pydict \<Rightarrow> exn + (string \<times> route \<times> rat option) list" where
  "record_route ctx item =
     bindE (shard_episode_of (snd item)) (\<lambda>ep.
     bindE (episode_route ctx ep) (\<lambda>found.
       Inr (case found of None \<Rightarrow> [] | Some (r, seconds) \<Rightarrow> [(fst item, r, seconds)])))"

definition iter_transcribe_routes :: "route_ctx \<Rightarrow> bool \<Rightarrow> records \<Rightarrow> exn + (string \<times> route \<times> rat option) list" where
  "iter_transcribe_routes ctx asr_enabled recs =
     (if \<not> asr_enabled then Inr [] else bindE (mapE (record_route ctx) recs) (\<lambda>rows. Inr (concat rows)))"

subsection \<open>Weights\<close>

definition TRANSCRIBE_DISPATCH_WEIGHT_SECONDS :: rat where "TRANSCRIBE_DISPATCH_WEIGHT_SECONDS = 60"
definition TRANSCRIBE_BLOCKED_WEIGHT_SECONDS :: rat where "TRANSCRIBE_BLOCKED_WEIGHT_SECONDS = 1"
definition TRANSCRIBE_COPY_WEIGHT_SECONDS :: rat where "TRANSCRIBE_COPY_WEIGHT_SECONDS = 1"
definition TRANSCRIBE_UNKNOWN_LOCAL_WEIGHT_SECONDS :: rat where
  "TRANSCRIBE_UNKNOWN_LOCAL_WEIGHT_SECONDS = 2 * 3600"

record transcribe_work =
  tw_local_seconds :: rat
  tw_local_items :: nat
  tw_dispatch_items :: nat
  tw_blocked_items :: nat
  tw_inflight_items :: nat
  tw_copy_items :: nat

definition shard_weight :: "transcribe_work \<Rightarrow> rat" where
  "shard_weight w =
     tw_local_seconds w + of_nat (tw_dispatch_items w) * TRANSCRIBE_DISPATCH_WEIGHT_SECONDS +
     of_nat (tw_blocked_items w) * TRANSCRIBE_BLOCKED_WEIGHT_SECONDS +
     of_nat (tw_copy_items w) * TRANSCRIBE_COPY_WEIGHT_SECONDS"

text \<open>The loop of the estimator: the work so far and the number of local items of unknown duration.\<close>

definition count_route :: "string \<times> route \<times> rat option \<Rightarrow> transcribe_work \<times> nat \<Rightarrow> transcribe_work \<times> nat" where
  "count_route row acc =
     (case (row, acc) of ((uid, r, seconds), (w, unknown)) \<Rightarrow>
        (case r of
           LocalRoute \<Rightarrow>
             (case seconds of
                Some d \<Rightarrow> (w\<lparr>tw_local_items := tw_local_items w + 1,
                            tw_local_seconds := tw_local_seconds w + d\<rparr>, unknown)
              | None \<Rightarrow> (w\<lparr>tw_local_items := tw_local_items w + 1\<rparr>, unknown + 1))
         | DispatchRoute \<Rightarrow> (w\<lparr>tw_dispatch_items := tw_dispatch_items w + 1\<rparr>, unknown)
         | BlockedRoute \<Rightarrow> (w\<lparr>tw_blocked_items := tw_blocked_items w + 1\<rparr>, unknown)
         | InflightRoute \<Rightarrow> (w\<lparr>tw_inflight_items := tw_inflight_items w + 1\<rparr>, unknown)
         | CopyRoute \<Rightarrow> (w\<lparr>tw_copy_items := tw_copy_items w + 1\<rparr>, unknown)))"

definition no_work :: transcribe_work where
  "no_work = \<lparr>tw_local_seconds = 0, tw_local_items = 0, tw_dispatch_items = 0, tw_blocked_items = 0,
              tw_inflight_items = 0, tw_copy_items = 0\<rparr>"

definition work_of_routes :: "rat \<Rightarrow> (string \<times> route \<times> rat option) list \<Rightarrow> transcribe_work" where
  "work_of_routes unknown_local_seconds rows =
     (case fold count_route rows (no_work, 0) of (w, unknown) \<Rightarrow>
        if unknown = 0 then w
        else
          (let known = tw_local_items w - unknown;
               per_item = (if known = 0 then max 0 unknown_local_seconds
                           else tw_local_seconds w / of_nat known)
           in w\<lparr>tw_local_seconds := tw_local_seconds w + of_nat unknown * per_item\<rparr>))"

definition estimate_transcribe_shard_work :: "route_ctx \<Rightarrow> bool \<Rightarrow> rat \<Rightarrow> records \<Rightarrow> exn + transcribe_work" where
  "estimate_transcribe_shard_work ctx asr_enabled unknown_local_seconds recs =
     bindE (iter_transcribe_routes ctx asr_enabled recs)
       (\<lambda>rows. Inr (work_of_routes unknown_local_seconds rows))"

definition item_weight :: "rat \<Rightarrow> route \<Rightarrow> rat option \<Rightarrow> rat" where
  "item_weight unknown_per_item r seconds =
     (case r of
        DispatchRoute \<Rightarrow> TRANSCRIBE_DISPATCH_WEIGHT_SECONDS
      | BlockedRoute \<Rightarrow> TRANSCRIBE_BLOCKED_WEIGHT_SECONDS
      | CopyRoute \<Rightarrow> TRANSCRIBE_COPY_WEIGHT_SECONDS
      | _ \<Rightarrow> (case seconds of Some d \<Rightarrow> d | None \<Rightarrow> unknown_per_item))"

definition known_local :: "(string \<times> route \<times> rat option) list \<Rightarrow> rat list" where
  "known_local rows = [d. (uid, r, seconds) \<leftarrow> rows, r = LocalRoute, d \<leftarrow> (case seconds of None \<Rightarrow> [] | Some d \<Rightarrow> [d])]"

definition items_of_routes :: "rat \<Rightarrow> (string \<times> route \<times> rat option) list \<Rightarrow> (string \<times> rat) list" where
  "items_of_routes unknown_local_seconds rows =
     (let known = known_local rows;
          unknown_per_item = (if known \<noteq> [] then sum_list known / of_nat (length known)
                              else max 0 unknown_local_seconds)
      in [(uid, item_weight unknown_per_item r seconds). (uid, r, seconds) \<leftarrow> rows, r \<noteq> InflightRoute])"

definition pending_transcribe_items :: "route_ctx \<Rightarrow> bool \<Rightarrow> rat \<Rightarrow> records \<Rightarrow> exn + (string \<times> rat) list" where
  "pending_transcribe_items ctx asr_enabled unknown_local_seconds recs =
     bindE (iter_transcribe_routes ctx asr_enabled recs)
       (\<lambda>rows. Inr (items_of_routes unknown_local_seconds rows))"

end
