(* ===== verification/Shard_Plan.thy ===== *)
theory Shard_Plan
  imports Shard_Work
begin

section \<open>Shard plans (sharding.py, records.py)\<close>

text \<open>
  One job plans, every shard of the matrix reads the plan: \<open>shard_assignment\<close> distributes keys over
  shards by weight (the heaviest key first, each to the shard that is lightest so far),
  \<open>create_shard_plan\<close> applies it to episodes or to sources, \<open>save_shard_plan\<close>, \<open>load_shard_plan\<close> and
  \<open>episodes_for_shard\<close> carry it to the shards. The state directory is the function from source key to
  records; the digests (\<open>hashlib\<close>) and the text \<open>json.dumps\<close> gives them are parameters, as is the recipe
  hash of an episode, which the planner passes as a callback and only compares for equality (its memo
  by uid within one source is left out).
\<close>

subsection \<open>Balancing keys over shards\<close>

text \<open>A shard while keys are handed out: its load and the number of its keys.\<close>

type_synonym slot = "rat \<times> nat"

definition less_slot :: "slot \<Rightarrow> slot \<Rightarrow> bool" where
  "less_slot a b = (fst a < fst b \<or> fst a = fst b \<and> snd a < snd b)"

text \<open>\<open>min(range(n), key=lambda i: (loads[i], counts[i], i))\<close>\<close>

fun lightest_from :: "nat \<Rightarrow> nat \<Rightarrow> slot \<Rightarrow> slot list \<Rightarrow> nat" where
  "lightest_from i best held [] = best"
| "lightest_from i best held (s # slots) =
     (if less_slot s held then lightest_from (Suc i) i s slots else lightest_from (Suc i) best held slots)"

definition lightest :: "slot list \<Rightarrow> nat" where
  "lightest slots = (case slots of [] \<Rightarrow> 0 | s # rest \<Rightarrow> lightest_from 1 0 s rest)"

definition assign_key ::
  "(string \<Rightarrow> rat) \<Rightarrow> string \<Rightarrow> slot list \<times> (string \<times> int) list \<Rightarrow> slot list \<times> (string \<times> int) list" where
  "assign_key w key st =
     (let slots = fst st; i = lightest slots
      in (slots[i := (fst (slots ! i) + w key, Suc (snd (slots ! i)))], AList.update key (int i) (snd st)))"

definition weight_in :: "(string \<times> rat) list option \<Rightarrow> string \<Rightarrow> rat" where
  "weight_in weights key =
     (case weights of None \<Rightarrow> 1 | Some ws \<Rightarrow> (case map_of ws key of None \<Rightarrow> 1 | Some w \<Rightarrow> w))"

text \<open>Sorting the distinct keys and then stably by weight is sorting by \<open>(-weight, key)\<close>.\<close>

definition shard_order :: "(string \<Rightarrow> rat) \<Rightarrow> string list \<Rightarrow> string list" where
  "shard_order w keys = sort_key (\<lambda>k. - w k) (sort (remdups keys))"

definition shard_assignment :: "string list \<Rightarrow> int \<Rightarrow> (string \<times> rat) list option \<Rightarrow> exn + (string \<times> int) list" where
  "shard_assignment keys num_shards weights =
     (if num_shards < 1 then Inl ValueError
      else if list_ex (\<lambda>k. weight_in weights k < 0) keys then Inl ValueError
      else Inr (snd (fold (assign_key (weight_in weights)) (shard_order (weight_in weights) keys)
                  (replicate (nat num_shards) (0, 0), []))))"

subsection \<open>Plans\<close>

definition SHARD_PLAN_VERSION :: int where "SHARD_PLAN_VERSION = 2"

definition episode_key :: "string \<Rightarrow> string \<Rightarrow> string" where
  "episode_key src_key uid = src_key @ ''/'' @ uid"

text \<open>\<open>key.rpartition("/")\<close>\<close>

definition split_episode_key :: "string \<Rightarrow> string \<times> string" where
  "split_episode_key key =
     (let uid = rev (takeWhile (\<lambda>c. c \<noteq> CHR ''/'') (rev key))
      in (take (length key - Suc (length uid)) key, uid))"

record shard_plan =
  sp_lane :: string
  sp_num_shards :: int
  sp_assignment :: "(string \<times> int) list"
  sp_weights :: "(string \<times> rat) list"
  sp_unit :: string
  sp_fingerprint :: "string option"
  sp_version :: int

definition LANE_UNITS :: "(string \<times> string) list" where
  "LANE_UNITS = [(''audio'', ''source''), (''align'', ''source''), (''transcribe'', ''episode'')]"

definition validate_lane_unit :: "string \<Rightarrow> string \<Rightarrow> exn + unit" where
  "validate_lane_unit lane unit =
     (case map_of LANE_UNITS lane of
        None \<Rightarrow> Inl ValueError
      | Some expected \<Rightarrow> if unit \<noteq> expected then Inl ValueError else Inr ())"

definition opt_text :: "string option \<Rightarrow> json" where
  "opt_text s = (case s of None \<Rightarrow> JNull | Some t \<Rightarrow> JStr t)"

definition plan_to_dict :: "shard_plan \<Rightarrow> pydict" where
  "plan_to_dict plan =
     [(''version'', JInt (sp_version plan)),
      (''lane'', JStr (sp_lane plan)),
      (''unit'', JStr (sp_unit plan)),
      (''num_shards'', JInt (sp_num_shards plan)),
      (''assignment'', JObj (map (map_prod id JInt) (sort_key fst (sp_assignment plan)))),
      (''weights'', JObj (map (map_prod id JFloat) (sort_key fst (sp_weights plan)))),
      (''snapshot_fingerprint'', opt_text (sp_fingerprint plan))]"

definition save_shard_plan :: "shard_plan \<Rightarrow> blob" where
  "save_shard_plan plan = dumps_sorted (JObj (plan_to_dict plan))"

subsection \<open>Reading a plan\<close>

definition required :: "pydict \<Rightarrow> string \<Rightarrow> exn + json" where
  "required d k = (case map_of d k of None \<Rightarrow> Inl KeyError | Some v \<Rightarrow> Inr v)"

definition items_of :: "json \<Rightarrow> exn + pydict" where
  "items_of v = (case v of JObj d \<Rightarrow> Inr d | _ \<Rightarrow> Inl (AttributeError ''items''))"

text \<open>
  The \<open>try\<close> block that builds the fields. Every exception it names becomes ValueError in
  \<open>load_shard_plan\<close>; OverflowError, which it does not name, leaves the function.
\<close>

definition parse_plan :: "pydict \<Rightarrow> exn + shard_plan" where
  "parse_plan data =
     bindE (required data ''lane'') (\<lambda>lane.
     bindE (bindE (required data ''num_shards'') finite_int) (\<lambda>num.
     bindE (bindE (bindE (required data ''assignment'') items_of) (map_valuesE finite_int)) (\<lambda>assignment.
     bindE (bindE (bindE (required data ''weights'') items_of) (map_valuesE finite_float)) (\<lambda>weights.
       let fp = dget data ''snapshot_fingerprint'' JNull in
       Inr \<lparr>sp_lane = py_str lane, sp_num_shards = num, sp_assignment = assignment, sp_weights = weights,
            sp_unit = py_str (dget data ''unit'' (JStr ''source'')),
            sp_fingerprint = (if py_truthy fp then Some (py_str fp) else None),
            sp_version = SHARD_PLAN_VERSION\<rparr>))))"

definition check_plan :: "shard_plan \<Rightarrow> exn + shard_plan" where
  "check_plan plan =
     (if sp_lane plan \<notin> {''audio'', ''transcribe'', ''align''} then Inl ValueError
      else if sp_unit plan \<notin> {''source'', ''episode''} then Inl ValueError
      else
        bindE (validate_lane_unit (sp_lane plan) (sp_unit plan)) (\<lambda>_.
          if sp_num_shards plan < 1 then Inl ValueError
          else if set (map fst (sp_assignment plan)) \<noteq> set (map fst (sp_weights plan)) then Inl ValueError
          else if list_ex (\<lambda>(k, shard). shard < 0 \<or> sp_num_shards plan \<le> shard) (sp_assignment plan)
               then Inl ValueError
          else Inr plan))"

definition caught_by_loader :: "exn \<Rightarrow> bool" where
  "caught_by_loader e \<longleftrightarrow> (case e of KeyError \<Rightarrow> True | TypeError \<Rightarrow> True | ValueError \<Rightarrow> True | AttributeError _ \<Rightarrow> True | _ \<Rightarrow> False)"

definition load_shard_plan :: "blob option \<Rightarrow> exn + shard_plan" where
  "load_shard_plan content =
     (case content of
        None \<Rightarrow> Inl ValueError
      | Some b \<Rightarrow>
          bindE (json_loads b) (\<lambda>data.
            case data of
              JObj d \<Rightarrow>
                (if \<not> py_eq (dget d ''version'' JNull) (JInt SHARD_PLAN_VERSION) then Inl ValueError
                 else (case parse_plan d of
                         Inl e \<Rightarrow> if caught_by_loader e then Inl ValueError else Inl e
                       | Inr plan \<Rightarrow> check_plan plan))
            | _ \<Rightarrow> Inl ValueError))"

subsection \<open>What one shard owns\<close>

text \<open>The uids per source of the keys a shard owns, in the order of the plan.\<close>

definition owned_episode_uids :: "(string \<times> int) list \<Rightarrow> int \<Rightarrow> (string \<times> string list) list" where
  "owned_episode_uids assignment shard_index =
     fold (\<lambda>(key, owner) acc.
             if owner \<noteq> shard_index then acc
             else (case split_episode_key key of
                     (src, uid) \<Rightarrow>
                       AList.update src
                         (List.insert uid (case map_of acc src of None \<Rightarrow> [] | Some us \<Rightarrow> us)) acc))
       assignment []"

definition episodes_for_shard ::
  "shard_plan \<Rightarrow> string \<Rightarrow> int \<Rightarrow> int \<Rightarrow> string list \<Rightarrow> exn + string list \<times> (string \<times> string list) list option" where
  "episodes_for_shard plan lane shard_index num_shards expected_sources =
     (if sp_lane plan \<noteq> lane then Inl ValueError
      else
        bindE (validate_lane_unit (sp_lane plan) (sp_unit plan)) (\<lambda>_.
          if sp_num_shards plan \<noteq> num_shards then Inl ValueError
          else if \<not> (0 \<le> shard_index \<and> shard_index < num_shards) then Inl ValueError
          else if sp_unit plan = ''episode'' then
            (if list_ex (\<lambda>(key, _). fst (split_episode_key key) \<notin> set expected_sources) (sp_assignment plan)
             then Inl ValueError
             else
               (let owned = owned_episode_uids (sp_assignment plan) shard_index
                in Inr (map fst owned, Some owned)))
          else if set (map fst (sp_assignment plan)) \<noteq> set expected_sources then Inl ValueError
          else Inr ([key. (key, owner) \<leftarrow> sp_assignment plan, owner = shard_index], None)))"

text \<open>\<open>loads[owner] += plan.weights[key]\<close>: a negative index counts from the end.\<close>

definition py_index :: "nat \<Rightarrow> int \<Rightarrow> exn + nat" where
  "py_index n i =
     (if 0 \<le> i \<and> i < int n then Inr (nat i)
      else if i < 0 \<and> - int n \<le> i then Inr (nat (int n + i))
      else Inl (OtherError ''IndexError''))"

definition add_load :: "(string \<times> rat) list \<Rightarrow> string \<times> int \<Rightarrow> rat list \<Rightarrow> exn + rat list" where
  "add_load weights item loads =
     bindE (py_index (length loads) (snd item)) (\<lambda>i.
       case map_of weights (fst item) of
         None \<Rightarrow> Inl KeyError
       | Some w \<Rightarrow> Inr (loads[i := loads ! i + w]))"

definition matrix_for_plan :: "shard_plan \<Rightarrow> exn + nat list" where
  "matrix_for_plan plan =
     bindE (foldE (add_load (sp_weights plan)) (sp_assignment plan) (replicate (nat (sp_num_shards plan)) 0))
       (\<lambda>loads. Inr [i. i \<leftarrow> [0..<length loads], 0 < loads ! i])"

subsection \<open>Sources\<close>

record plan_city =
  pc_source_id :: "string option"
  pc_provider :: string
  pc_source :: pydict
  pc_entity :: "string option"
  pc_asr_enabled :: bool

record digests =
  dg_sha1_12 :: "string \<Rightarrow> string"
  dg_dumps :: "json \<Rightarrow> string"

definition present_text :: "string option \<Rightarrow> string option" where
  "present_text s = (case s of Some t \<Rightarrow> if t = '''' then None else Some t | None \<Rightarrow> None)"

definition source_key :: "digests \<Rightarrow> plan_city \<Rightarrow> string" where
  "source_key dg city =
     (case present_text (pc_source_id city) of
        Some k \<Rightarrow> k
      | None \<Rightarrow>
          dg_sha1_12 dg (pc_provider city @ ''|'' @
            dg_dumps dg (JObj (filter (\<lambda>(k, v). k \<notin> {''body'', ''body_any'', ''body_exact'', ''body_includes''})
              (pc_source city)))))"

definition source_family_key :: "digests \<Rightarrow> plan_city \<Rightarrow> string" where
  "source_family_key dg city =
     (case present_text (pc_entity city) of
        Some e \<Rightarrow> dg_sha1_12 dg (pc_provider city @ ''|entity:'' @ e)
      | None \<Rightarrow> source_key dg city)"

text \<open>\<open>{source_key(city): city for city in cities}\<close>\<close>

definition source_cities :: "digests \<Rightarrow> plan_city list \<Rightarrow> (string \<times> plan_city) list" where
  "source_cities dg cities = fold (\<lambda>c. AList.update (source_key dg c) c) cities []"

subsection \<open>Planning\<close>

text \<open>\<open>grouped.setdefault(key, []).append(member)\<close>\<close>

definition add_member :: "string \<Rightarrow> 'm \<Rightarrow> (string \<times> 'm list) list \<Rightarrow> (string \<times> 'm list) list" where
  "add_member key m groups =
     AList.update key ((case map_of groups key of None \<Rightarrow> [] | Some ms \<Rightarrow> ms) @ [m]) groups"

record plan_ctx =
  px_digests :: digests
  px_records :: "string \<Rightarrow> records option"
  px_recipe :: "plan_city \<Rightarrow> pydict \<Rightarrow> string"
  px_route :: "plan_city \<Rightarrow> route_ctx"
  px_audio_work :: "string \<Rightarrow> plan_city \<Rightarrow> exn + rat"
  px_fingerprint :: string

text \<open>The pending episodes of all sources, each with the group it is charged to.\<close>

definition pending_of_source ::
  "plan_ctx \<Rightarrow> string \<times> plan_city \<Rightarrow> exn + (string \<times> string \<times> rat) list" where
  "pending_of_source ctx source =
     (case source of (key, city) \<Rightarrow>
        (case px_records ctx key of
           None \<Rightarrow> Inr []
         | Some recs \<Rightarrow>
             bindE (pending_transcribe_items (px_route ctx city) (pc_asr_enabled city)
                      TRANSCRIBE_UNKNOWN_LOCAL_WEIGHT_SECONDS recs)
               (\<lambda>items. mapE (\<lambda>(uid, w).
                  case map_of recs uid of
                    None \<Rightarrow> Inl KeyError
                  | Some rec \<Rightarrow> Inr (uid @ ''/'' @ px_recipe ctx city rec, episode_key key uid, w)) items)))"

definition group_members :: "(string \<times> string \<times> rat) list \<Rightarrow> (string \<times> (string \<times> rat) list) list" where
  "group_members rows = fold (\<lambda>(work_key, member). add_member work_key member) rows []"

definition group_weights :: "(string \<times> (string \<times> rat) list) list \<Rightarrow> (string \<times> rat) list" where
  "group_weights groups = map (\<lambda>(work_key, members). (work_key, Max (set (map snd members)))) groups"

text \<open>\<open>sorted(members)\<close>: by episode key; within a plan the keys are distinct.\<close>

definition place_group ::
  "(string \<times> int) list \<Rightarrow> (string \<times> rat) list \<Rightarrow> string \<times> (string \<times> rat) list \<Rightarrow>
     (string \<times> int) list \<times> (string \<times> rat) list \<Rightarrow> (string \<times> int) list \<times> (string \<times> rat) list" where
  "place_group owners ws grp st =
     (case grp of (work_key, members) \<Rightarrow>
        fold (\<lambda>(index, ekey, _) (asg, wts).
                (AList.update ekey (case map_of owners work_key of None \<Rightarrow> 0 | Some o' \<Rightarrow> o') asg,
                 AList.update ekey (if index = 0 then weight_in (Some ws) work_key else 0) wts))
          (zip [0..<length members] (sort_key fst members)) st)"

definition create_transcribe_plan :: "plan_ctx \<Rightarrow> plan_city list \<Rightarrow> int \<Rightarrow> exn + shard_plan" where
  "create_transcribe_plan ctx cities num_shards =
     bindE (mapE (pending_of_source ctx) (source_cities (px_digests ctx) cities)) (\<lambda>rows.
       let groups = group_members (concat rows); ws = group_weights groups in
       bindE (shard_assignment (map fst ws) num_shards (Some ws)) (\<lambda>owners.
         case fold (place_group owners ws) (sort_key fst groups) ([], []) of
           (asg, wts) \<Rightarrow>
             Inr \<lparr>sp_lane = ''transcribe'', sp_num_shards = num_shards, sp_assignment = asg, sp_weights = wts,
                  sp_unit = ''episode'', sp_fingerprint = Some (px_fingerprint ctx),
                  sp_version = SHARD_PLAN_VERSION\<rparr>))"

definition AUDIO_UNKNOWN_DURATION_WEIGHT_SECONDS :: rat where
  "AUDIO_UNKNOWN_DURATION_WEIGHT_SECONDS = 2 * 3600"

definition source_weight :: "plan_ctx \<Rightarrow> string \<Rightarrow> string \<times> plan_city \<Rightarrow> exn + string \<times> rat" where
  "source_weight ctx lane source =
     (case source of (key, city) \<Rightarrow>
        if px_records ctx key = None then
          Inr (key, if lane = ''audio'' then AUDIO_UNKNOWN_DURATION_WEIGHT_SECONDS else 1)
        else if lane = ''audio'' then bindE (px_audio_work ctx key city) (\<lambda>w. Inr (key, w))
        else Inr (key, 1))"

definition family_weights :: "(string \<times> rat) list \<Rightarrow> (string \<times> string list) list \<Rightarrow> (string \<times> rat) list" where
  "family_weights ws families =
     map (\<lambda>(family, members). (family, sum_list (map (weight_in (Some ws)) members))) families"

definition create_source_plan :: "plan_ctx \<Rightarrow> plan_city list \<Rightarrow> string \<Rightarrow> int \<Rightarrow> exn + shard_plan" where
  "create_source_plan ctx cities lane num_shards =
     (let sources = source_cities (px_digests ctx) cities in
      bindE (mapE (source_weight ctx lane) sources) (\<lambda>ws.
      bindE (if lane = ''audio'' then
               (let families = fold (\<lambda>(key, city). add_member (source_family_key (px_digests ctx) city) key)
                                 sources [] in
                bindE (shard_assignment (map fst families) num_shards (Some (family_weights ws families)))
                  (\<lambda>owners. Inr (fold (\<lambda>(family, members) asg.
                      fold (\<lambda>key. AList.update key (case map_of owners family of None \<Rightarrow> 0 | Some o' \<Rightarrow> o'))
                        members asg) families [])))
             else shard_assignment (map fst sources) num_shards (Some ws)) (\<lambda>asg.
        Inr \<lparr>sp_lane = lane, sp_num_shards = num_shards, sp_assignment = asg, sp_weights = ws,
             sp_unit = ''source'', sp_fingerprint = Some (px_fingerprint ctx),
             sp_version = SHARD_PLAN_VERSION\<rparr>)))"

definition create_shard_plan :: "plan_ctx \<Rightarrow> plan_city list \<Rightarrow> string \<Rightarrow> int \<Rightarrow> exn + shard_plan" where
  "create_shard_plan ctx cities lane num_shards =
     (if map_of LANE_UNITS lane = None then Inl ValueError
      else if num_shards < 1 then Inl ValueError
      else if lane = ''transcribe'' then create_transcribe_plan ctx cities num_shards
      else create_source_plan ctx cities lane num_shards)"

text \<open>\<open>state_snapshot_fingerprint\<close>: the digest of the manifest, or of every record file under its path.\<close>

definition state_snapshot_fingerprint ::
  "(string list \<Rightarrow> string) \<Rightarrow> string option \<Rightarrow> (string \<times> string) list \<Rightarrow> string" where
  "state_snapshot_fingerprint sha256 manifest record_files =
     (case manifest of
        Some content \<Rightarrow> sha256 [content]
      | None \<Rightarrow> sha256 (concat (map (\<lambda>(path, content). [path, content]) (sort_key fst record_files))))"

end
