(* ===== verification/Shard_Properties.thy ===== *)
theory Shard_Properties
  imports Shard_Plan
begin

section \<open>Every unit of work has one owner, and the shards are balanced\<close>

text \<open>
  The scan for the lightest shard is correct, an assignment covers exactly its keys and stays in range, and the
  loads of any two shards differ by at most the heaviest key; with equal weights their counts differ by at most one.
\<close>

subsection \<open>The lightest shard\<close>

lemma less_slot_trans: "\<not> less_slot b a \<Longrightarrow> \<not> less_slot c b \<Longrightarrow> \<not> less_slot c a"
  by (auto simp: less_slot_def)

lemma lightest_from_correct:
  assumes "i \<le> length slots" and "best < i" and "\<forall>k<i. \<not> less_slot (slots ! k) (slots ! best)"
  shows "lightest_from i best (slots ! best) (drop i slots) < length slots \<and>
         (\<forall>k<length slots. \<not> less_slot (slots ! k) (slots ! lightest_from i best (slots ! best) (drop i slots)))"
  using assms
proof (induction "length slots - i" arbitrary: i best)
  case 0
  then show ?case
    by simp
next
  case (Suc d)
  then have i: "i < length slots"
    by simp
  let ?next = "if less_slot (slots ! i) (slots ! best) then i else best"
  have "\<forall>k<Suc i. \<not> less_slot (slots ! k) (slots ! ?next)"
    using Suc.prems(3) by (auto simp: less_Suc_eq less_slot_def)
  with Suc i have "lightest_from (Suc i) ?next (slots ! ?next) (drop (Suc i) slots) < length slots \<and>
         (\<forall>k<length slots. \<not> less_slot (slots ! k)
            (slots ! lightest_from (Suc i) ?next (slots ! ?next) (drop (Suc i) slots)))"
    by (intro Suc.hyps(1)) auto
  moreover have "lightest_from i best (slots ! best) (drop i slots) =
                   lightest_from (Suc i) ?next (slots ! ?next) (drop (Suc i) slots)"
    by (simp add: Cons_nth_drop_Suc[OF i, symmetric])
  ultimately show ?case
    by simp
qed

lemma lightest_correct:
  assumes "slots \<noteq> []"
  shows "lightest slots < length slots \<and> (\<forall>k<length slots. \<not> less_slot (slots ! k) (slots ! lightest slots))"
proof -
  have "lightest slots = lightest_from 1 0 (slots ! 0) (drop 1 slots)"
    using assms by (simp add: lightest_def split: list.split)
  then show ?thesis
    using lightest_from_correct[of 1 slots 0] assms by (simp add: Suc_le_eq less_slot_def)
qed

subsection \<open>The invariant of the distribution\<close>

definition shard_load :: "(string \<Rightarrow> rat) \<Rightarrow> (string \<times> int) list \<Rightarrow> nat \<Rightarrow> rat" where
  "shard_load w asg i = (\<Sum>(k, j)\<leftarrow>asg. if j = int i then w k else 0)"

definition shard_count :: "(string \<times> int) list \<Rightarrow> nat \<Rightarrow> nat" where
  "shard_count asg i = length (filter (\<lambda>(k, j). j = int i) asg)"

lemma update_new: "k \<notin> fst ` set al \<Longrightarrow> AList.update k v al = al @ [(k, v)]"
  by (induction al) auto

definition slots_inv :: "nat \<Rightarrow> (string \<Rightarrow> rat) \<Rightarrow> slot list \<times> (string \<times> int) list \<Rightarrow> bool" where
  "slots_inv n w st \<longleftrightarrow>
     length (fst st) = n \<and> distinct (map fst (snd st)) \<and>
     (\<forall>(k, i)\<in>set (snd st). 0 \<le> i \<and> i < int n) \<and>
     (\<forall>i<n. fst st ! i = (shard_load w (snd st) i, shard_count (snd st) i))"

lemma slots_inv_start: "slots_inv n w (replicate n (0, 0), [])"
  by (simp add: slots_inv_def shard_load_def shard_count_def)

lemma assign_key_inv:
  assumes inv: "slots_inv n w st" and "0 < n" and new: "k \<notin> fst ` set (snd st)"
  shows "slots_inv n w (assign_key w k st)" and "snd (assign_key w k st) = snd st @ [(k, int (lightest (fst st)))]"
proof -
  obtain slots asg where st: "st = (slots, asg)"
    by fastforce
  let ?i = "lightest slots"
  have "slots \<noteq> []"
    using inv \<open>0 < n\<close> by (auto simp: slots_inv_def st)
  then have i: "?i < n"
    using lightest_correct[of slots] inv by (simp add: slots_inv_def st)
  show eq: "snd (assign_key w k st) = snd st @ [(k, int (lightest (fst st)))]"
    using new by (simp add: assign_key_def st Let_def update_new)
  show "slots_inv n w (assign_key w k st)"
    using inv i eq new
    by (auto simp: slots_inv_def assign_key_def st Let_def shard_load_def shard_count_def nth_list_update)
qed

lemma shard_load_snoc: "shard_load w (asg @ [(k, int s)]) i = shard_load w asg i + (if i = s then w k else 0)"
  by (auto simp: shard_load_def)

lemma shard_count_snoc: "shard_count (asg @ [(k, int s)]) i = shard_count asg i + (if i = s then 1 else 0)"
  by (auto simp: shard_count_def)

definition spread_le :: "nat \<Rightarrow> (string \<Rightarrow> rat) \<Rightarrow> rat \<Rightarrow> (string \<times> int) list \<Rightarrow> bool" where
  "spread_le n w m asg \<longleftrightarrow> (\<forall>i<n. \<forall>j<n. shard_load w asg i \<le> shard_load w asg j + m)"

lemma assign_key_spread:
  assumes inv: "slots_inv n w st" and "0 < n" and new: "k \<notin> fst ` set (snd st)"
    and spread: "spread_le n w m (snd st)" and w: "0 \<le> w k" "w k \<le> m"
  shows "spread_le n w m (snd (assign_key w k st))"
proof -
  let ?s = "lightest (fst st)"
  have slots: "fst st \<noteq> []" "length (fst st) = n"
    using inv \<open>0 < n\<close> by (auto simp: slots_inv_def)
  then have s: "?s < n" "\<forall>j<n. \<not> less_slot (fst st ! j) (fst st ! ?s)"
    using lightest_correct[of "fst st"] by auto
  have light: "shard_load w (snd st) ?s \<le> shard_load w (snd st) j" if "j < n" for j
    using s that inv by (auto simp: slots_inv_def less_slot_def)
  show ?thesis
    unfolding spread_le_def assign_key_inv(2)[OF inv \<open>0 < n\<close> new] shard_load_snoc
  proof (intro allI impI)
    fix i j
    assume ij: "i < n" "j < n"
    then show "shard_load w (snd st) i + (if i = ?s then w k else 0) \<le>
               shard_load w (snd st) j + (if j = ?s then w k else 0) + m"
      using spread[unfolded spread_le_def, rule_format, of i j] light[of j] w
      by (cases "i = ?s"; cases "j = ?s") auto
  qed
qed

lemma assign_all:
  assumes "0 < n" and "distinct ks" and "\<And>k. k \<in> set ks \<Longrightarrow> 0 \<le> w k \<and> w k \<le> m" and "0 \<le> m"
    and "slots_inv n w st" "spread_le n w m (snd st)" "set ks \<inter> fst ` set (snd st) = {}"
  shows "slots_inv n w (fold (assign_key w) ks st) \<and>
         spread_le n w m (snd (fold (assign_key w) ks st)) \<and>
         map fst (snd (fold (assign_key w) ks st)) = map fst (snd st) @ ks"
  using assms(2,3,5-)
proof (induction ks arbitrary: st)
  case (Cons k ks)
  then have k: "k \<notin> fst ` set (snd st)" "0 \<le> w k" "w k \<le> m"
    by auto
  note step = assign_key_inv[OF Cons.prems(3) assms(1) k(1)] assign_key_spread[OF Cons.prems(3) assms(1) k(1) Cons.prems(4) k(2,3)]
  have "set ks \<inter> fst ` set (snd (assign_key w k st)) = {}"
    using Cons.prems(1,5) by (auto simp: step(2))
  with Cons.IH[of "assign_key w k st"] Cons.prems step show ?case
    by simp
qed simp

subsection \<open>Equal weights\<close>

lemma load_of_equal_weights:
  "(\<And>k. k \<in> fst ` set asg \<Longrightarrow> w k = c) \<Longrightarrow> shard_load w asg i = c * of_nat (shard_count asg i)"
  by (induction asg) (auto simp: shard_load_def shard_count_def algebra_simps)

definition even :: "nat \<Rightarrow> (string \<times> int) list \<Rightarrow> bool" where
  "even n asg \<longleftrightarrow> (\<forall>i<n. \<forall>j<n. shard_count asg i \<le> Suc (shard_count asg j))"

lemma assign_key_even:
  assumes inv: "slots_inv n w st" and "0 < n" and new: "k \<notin> fst ` set (snd st)"
    and even: "even n (snd st)" and w: "\<And>k. k \<in> fst ` set (snd st) \<Longrightarrow> w k = c" "0 \<le> c"
  shows "even n (snd (assign_key w k st))"
proof -
  let ?s = "lightest (fst st)"
  have slots: "fst st \<noteq> []" "length (fst st) = n"
    using inv \<open>0 < n\<close> by (auto simp: slots_inv_def)
  then have s: "?s < n" "\<forall>j<n. \<not> less_slot (fst st ! j) (fst st ! ?s)"
    using lightest_correct[of "fst st"] by auto
  have least: "shard_count (snd st) ?s \<le> shard_count (snd st) j" if "j < n" for j
  proof (rule ccontr)
    assume less: "\<not> ?thesis"
    then have "c * of_nat (shard_count (snd st) j) \<le> c * of_nat (shard_count (snd st) ?s)"
      using w(2) by (intro mult_left_mono) auto
    then have "shard_load w (snd st) j \<le> shard_load w (snd st) ?s"
      by (simp add: load_of_equal_weights[OF w(1)])
    with less s that inv show False
      by (auto simp: slots_inv_def less_slot_def)
  qed
  show ?thesis
    unfolding even_def assign_key_inv(2)[OF inv \<open>0 < n\<close> new] shard_count_snoc
  proof (intro allI impI)
    fix i j
    assume "i < n" "j < n"
    then show "shard_count (snd st) i + (if i = ?s then 1 else 0) \<le>
               Suc (shard_count (snd st) j + (if j = ?s then 1 else 0))"
      using even[unfolded even_def, rule_format, of i j] least[of j] by auto
  qed
qed

lemma assign_all_even:
  assumes "0 < n" and "distinct ks" and "\<And>k. k \<in> set ks \<Longrightarrow> w k = c" and "0 \<le> c"
    and "slots_inv n w st" "even n (snd st)" "set ks \<inter> fst ` set (snd st) = {}"
    and "\<And>k. k \<in> fst ` set (snd st) \<Longrightarrow> w k = c"
  shows "even n (snd (fold (assign_key w) ks st))"
  using assms(2,3,5-)
proof (induction ks arbitrary: st)
  case (Cons k ks)
  then have k: "k \<notin> fst ` set (snd st)"
    by auto
  note step = assign_key_inv[OF Cons.prems(3) assms(1) k]
    assign_key_even[OF Cons.prems(3) assms(1) k Cons.prems(4) Cons.prems(6) assms(4)]
  have "set ks \<inter> fst ` set (snd (assign_key w k st)) = {}"
    "\<And>k'. k' \<in> fst ` set (snd (assign_key w k st)) \<Longrightarrow> w k' = c"
    using Cons.prems by (auto simp: step(2))
  with Cons.IH[of "assign_key w k st"] Cons.prems step show ?case
    by simp
qed simp

lemma sum_shard_counts:
  assumes "\<forall>(k, i)\<in>set asg. 0 \<le> i \<and> i < int n"
  shows "(\<Sum>i<n. shard_count asg i) = length asg"
  using assms
proof (induction asg)
  case (Cons item asg)
  obtain k j where item: "item = (k, j)"
    by fastforce
  have "(\<Sum>i<n. shard_count (item # asg) i) = (\<Sum>i<n. shard_count asg i + (if i = nat j then 1 else 0))"
    using Cons.prems by (intro sum.cong) (auto simp: shard_count_def item)
  also have "\<dots> = length asg + (\<Sum>i<n. if i = nat j then 1 else 0)"
    using Cons by (simp add: sum.distrib)
  also have "(\<Sum>i<n. if i = nat j then 1 else 0) = (1::nat)"
    using Cons.prems by (auto simp: item)
  finally show ?case
    by simp
qed (simp add: shard_count_def)

subsection \<open>The assignment\<close>

lemma shard_order_facts:
  "distinct (shard_order w keys) \<and> set (shard_order w keys) = set keys"
  by (simp add: shard_order_def)

lemma shard_assignmentE:
  assumes "shard_assignment keys n weights = Inr asg"
  obtains "1 \<le> n" and "\<And>k. k \<in> set keys \<Longrightarrow> 0 \<le> weight_in weights k"
    and "asg = snd (fold (assign_key (weight_in weights)) (shard_order (weight_in weights) keys)
                (replicate (nat n) (0, 0), []))"
  using assms by (auto simp: shard_assignment_def list_ex_iff not_less split: if_splits)

lemma shard_assignment_facts:
  assumes asg: "shard_assignment keys n weights = Inr asg"
  shows "map fst asg = shard_order (weight_in weights) keys"
    and "\<forall>(k, i)\<in>set asg. 0 \<le> i \<and> i < n"
    and "spread_le (nat n) (weight_in weights) (Max (insert 0 (weight_in weights ` set keys))) asg"
proof -
  obtain facts: "1 \<le> n" "\<And>k. k \<in> set keys \<Longrightarrow> 0 \<le> weight_in weights k"
    "asg = snd (fold (assign_key (weight_in weights)) (shard_order (weight_in weights) keys)
       (replicate (nat n) (0, 0), []))"
    using asg by (rule shard_assignmentE) blast
  let ?m = "Max (insert 0 (weight_in weights ` set keys))"
  let ?st = "(replicate (nat n) (0, 0), []) :: slot list \<times> (string \<times> int) list"
  have "0 \<le> weight_in weights k \<and> weight_in weights k \<le> ?m"
    if "k \<in> set (shard_order (weight_in weights) keys)" for k
    using that facts(2) shard_order_facts[of "weight_in weights" keys] by auto
  moreover have "spread_le (nat n) (weight_in weights) ?m (snd ?st)"
    by (simp add: spread_le_def shard_load_def)
  ultimately have "slots_inv (nat n) (weight_in weights) (fold (assign_key (weight_in weights))
          (shard_order (weight_in weights) keys) (replicate (nat n) (0, 0), [])) \<and>
        spread_le (nat n) (weight_in weights) ?m asg \<and>
        map fst asg = [] @ shard_order (weight_in weights) keys"
    unfolding facts(3)
    using assign_all[of "nat n" "shard_order (weight_in weights) keys" "weight_in weights" ?m ?st] facts(1)
      shard_order_facts[of "weight_in weights" keys] slots_inv_start[of "nat n" "weight_in weights"]
    by simp
  then show "map fst asg = shard_order (weight_in weights) keys" "\<forall>(k, i)\<in>set asg. 0 \<le> i \<and> i < n"
    "spread_le (nat n) (weight_in weights) ?m asg"
    using facts(1,3) by (auto simp: slots_inv_def)
qed

end
