(* ===== verification/Shard_Plan_Properties.thy ===== *)
theory Shard_Plan_Properties
  imports Shard_Properties Push_Properties
begin

section \<open>Plans: created valid, stored without loss, read fail-closed, owned exactly once\<close>

text \<open>
  Which plans the loader accepts, what a save followed by a load returns, how the episodes of one inference are
  grouped, and that a created plan is valid and accepted.
\<close>

subsection \<open>Validity\<close>

definition valid_plan :: "shard_plan \<Rightarrow> bool" where
  "valid_plan plan \<longleftrightarrow>
     map_of LANE_UNITS (sp_lane plan) = Some (sp_unit plan) \<and> 1 \<le> sp_num_shards plan \<and>
     set (map fst (sp_assignment plan)) = set (map fst (sp_weights plan)) \<and>
     list_all (\<lambda>(k, i). 0 \<le> i \<and> i < sp_num_shards plan) (sp_assignment plan)"

lemma out_of_range:
  "list_ex (\<lambda>(k, i). i < 0 \<or> n \<le> i) xs \<longleftrightarrow> \<not> list_all (\<lambda>(k, i). 0 \<le> i \<and> i < (n::int)) xs"
  by (induction xs) auto

lemma validate_lane_unit_iff: "validate_lane_unit lane unit = Inr u \<longleftrightarrow> map_of LANE_UNITS lane = Some unit"
  by (auto simp: validate_lane_unit_def split: option.splits)

lemma lane_unit_cases:
  "map_of LANE_UNITS lane = Some unit \<Longrightarrow>
     lane \<in> {''audio'', ''transcribe'', ''align''} \<and> unit \<in> {''source'', ''episode''}"
  by (auto simp: LANE_UNITS_def split: if_splits)

lemma check_plan_iff: "check_plan plan = Inr p \<longleftrightarrow> p = plan \<and> valid_plan plan"
proof (cases "map_of LANE_UNITS (sp_lane plan) = Some (sp_unit plan)")
  case True
  then have "validate_lane_unit (sp_lane plan) (sp_unit plan) = Inr ()"
    by (simp add: validate_lane_unit_iff)
  moreover note lane_unit_cases[OF True, THEN conjunct1] lane_unit_cases[OF True, THEN conjunct2]
  ultimately show ?thesis
    unfolding check_plan_def valid_plan_def out_of_range
    by (simp only: True not_True_eq_False not_False_eq_True if_False bindE_simps)
       (simp add: not_less eq_commute[of p])
next
  case False
  then obtain e where "validate_lane_unit (sp_lane plan) (sp_unit plan) = Inl e"
    by (metis (full_types) validate_lane_unit_iff old.sum.exhaust)
  then have "check_plan plan \<noteq> Inr p"
    by (simp only: check_plan_def bindE_simps split: if_split) (simp only: sum.distinct simp_thms)
  with False show ?thesis
    by (simp only: valid_plan_def simp_thms)
qed

subsection \<open>The stored form\<close>

lemma sort_key_twice [simp]: "sort_key fst (sort_key fst xs) = sort_key fst (xs :: (string \<times> 'a) list)"
  by (simp add: sorted_sort_id sort_key_id_if_sorted)

lemma jsort_numbers:
  "jsort (JObj (map (map_prod id JInt) (sort_key fst xs))) = JObj (map (map_prod id JInt) (sort_key fst xs))"
  "jsort (JObj (map (map_prod id JFloat) (sort_key fst ys))) = JObj (map (map_prod id JFloat) (sort_key fst ys))"
proof -
  have "map (map_prod id jsort) (map (map_prod id JInt) zs) = map (map_prod id JInt) zs"
    "map (map_prod id jsort) (map (map_prod id JFloat) us) = map (map_prod id JFloat) us" for zs us
    by (auto simp: comp_def map_prod_def split_def)
  then show "jsort (JObj (map (map_prod id JInt) (sort_key fst xs))) = JObj (map (map_prod id JInt) (sort_key fst xs))"
    "jsort (JObj (map (map_prod id JFloat) (sort_key fst ys))) = JObj (map (map_prod id JFloat) (sort_key fst ys))"
    by (simp_all add: sort_key_map_prod del: map_map)
qed

lemma map_valuesE_numbers:
  "map_valuesE finite_int (map (map_prod id JInt) xs) = Inr xs"
  "map_valuesE finite_float (map (map_prod id JFloat) ys) = Inr ys"
proof -
  have "map_valuesE finite_int (map (map_prod id JInt) xs) = Inr (map (map_prod id id) xs)"
    unfolding map_valuesE_def mapE_map by (rule mapE_ok) (auto simp: finite_int_def)
  then show "map_valuesE finite_int (map (map_prod id JInt) xs) = Inr xs"
    by (simp add: prod.map_id0)
  have "map_valuesE finite_float (map (map_prod id JFloat) ys) = Inr (map (map_prod id id) ys)"
    unfolding map_valuesE_def mapE_map by (rule mapE_ok) (auto simp: finite_float_def)
  then show "map_valuesE finite_float (map (map_prod id JFloat) ys) = Inr ys"
    by (simp add: prod.map_id0)
qed

definition sorted_plan :: "shard_plan \<Rightarrow> shard_plan" where
  "sorted_plan plan = plan\<lparr>sp_assignment := sort_key fst (sp_assignment plan), sp_weights := sort_key fst (sp_weights plan)\<rparr>"

definition stored :: "pydict \<Rightarrow> pydict" where
  "stored d = sort_key fst (map (map_prod id jsort) d)"

lemma map_of_stored: "map_of (stored d) k = map_option jsort (map_of d k)"
  by (simp add: stored_def dict_simps)

lemma parse_stored:
  assumes "sp_version plan = SHARD_PLAN_VERSION" and "sp_fingerprint plan \<noteq> Some ''''"
  shows "parse_plan (stored (plan_to_dict plan)) = Inr (sorted_plan plan)"
  using assms
  by (simp add: parse_plan_def required_def dget_def map_of_stored plan_to_dict_def jsort_numbers items_of_def
      map_valuesE_numbers sorted_plan_def opt_text_def finite_int_def split: option.split del: jsort.simps(8) list.map_comp)

lemma load_saved:
  assumes "sp_version plan = SHARD_PLAN_VERSION" and "sp_fingerprint plan \<noteq> Some ''''" and "valid_plan plan"
  shows "load_shard_plan (Some (save_shard_plan plan)) = Inr (sorted_plan plan)"
proof -
  have "valid_plan (sorted_plan plan)"
    using assms(3) by (simp add: valid_plan_def sorted_plan_def list_all_iff)
  then have "check_plan (sorted_plan plan) = Inr (sorted_plan plan)"
    by (simp add: check_plan_iff)
  moreover have "jsort (JObj (plan_to_dict plan)) = JObj (stored (plan_to_dict plan))"
    by (simp add: stored_def)
  moreover have "dget (stored (plan_to_dict plan)) ''version'' JNull = JInt SHARD_PLAN_VERSION"
    by (simp add: dget_def map_of_stored plan_to_dict_def assms(1))
  ultimately show ?thesis
    using parse_stored[OF assms(1,2)]
    by (simp add: load_shard_plan_def save_shard_plan_def dumps_sorted_def del: jsort.simps)
qed

subsection \<open>Groups\<close>

lemma groups_of_rows:
  "distinct (map fst (fold (\<lambda>(k, m). add_member k m) rows [])) \<and>
   map_of (fold (\<lambda>(k, m). add_member k m) rows []) g =
     (if g \<in> fst ` set rows then Some [m. (k, m) \<leftarrow> rows, k = g] else None)"
proof (induction rows rule: rev_induct)
  case (snoc row rows)
  obtain k m where row: "row = (k, m)"
    by fastforce
  have "[m. (k', m) \<leftarrow> rows, k' = k] = []" if "k \<notin> fst ` set rows"
    using that by (force simp: concat_eq_Nil_conv split: if_splits)
  then show ?case
    using snoc by (auto simp: row add_member_def dict_simps distinct_update)
qed simp

lemma members_of_rows:
  assumes "(g, ms) \<in> set (fold (\<lambda>(k, m). add_member k m) rows [])"
  shows "set ms = {m. (g, m) \<in> set rows} \<and> g \<in> fst ` set rows"
proof -
  have "map_of (fold (\<lambda>(k, m). add_member k m) rows []) g = Some ms"
    using assms groups_of_rows[of rows g] by (intro map_of_is_SomeI) auto
  with groups_of_rows[of rows g] have "ms = [m. (k, m) \<leftarrow> rows, k = g]" and g: "g \<in> fst ` set rows"
    by (simp_all split: if_splits)
  then have "set ms = {m. (g, m) \<in> set rows}"
    by (auto split: if_splits)
  with g show ?thesis
    by simp
qed

subsection \<open>Placing the groups\<close>

definition owner_of :: "(string \<times> int) list \<Rightarrow> string \<Rightarrow> int" where
  "owner_of owners g = (case map_of owners g of None \<Rightarrow> 0 | Some i \<Rightarrow> i)"

text \<open>The two dictionaries of a plan under construction.\<close>

definition tidy :: "(string \<times> int) list \<times> (string \<times> rat) list \<Rightarrow> bool" where
  "tidy st \<longleftrightarrow> distinct (map fst (fst st)) \<and> set (map fst (fst st)) = set (map fst (snd st))"

lemma tidy_empty [simp]: "tidy ([], [])"
  by (simp add: tidy_def)

lemma place_group_unfold:
  "place_group owners ws (g, ms) st =
     fold (\<lambda>(index, ekey, _) (asg, wts).
             (AList.update ekey (owner_of owners g) asg,
              AList.update ekey (if index = 0 then weight_in (Some ws) g else 0) wts))
       (zip [0..<length ms] (sort_key fst ms)) st"
  by (simp add: place_group_def owner_of_def)

lemma place_rows:
  fixes rows :: "(nat \<times> string \<times> rat) list" and i :: int and f :: "nat \<Rightarrow> rat"
  defines "place \<equiv> fold (\<lambda>(index, ekey, _) (asg, wts). (AList.update ekey i asg, AList.update ekey (f index) wts)) rows"
  assumes "tidy st"
  shows "tidy (place st) \<and>
     map_of (fst (place st)) e = (if e \<in> fst ` snd ` set rows then Some i else map_of (fst st) e)"
  using assms(2) unfolding place_def
proof (induction rows arbitrary: st)
  case (Cons row rows)
  obtain n k w where row: "row = (n, k, w)"
    by (cases row) auto
  have "tidy (AList.update k i (fst st), AList.update k (f n) (snd st))"
    using Cons.prems by (auto simp: tidy_def distinct_update dom_update)
  from Cons.IH[OF this] show ?case
    by (auto simp: row dict_simps split_beta)
qed simp

lemma zip_sorted_keys: "fst ` snd ` set (zip [0..<length ms] (sort_key fst ms)) = fst ` set (ms :: (string \<times> rat) list)"
proof -
  have "map snd (zip [0..<length ms] (sort_key fst ms)) = sort_key fst ms"
    by (rule map_snd_zip) simp
  then have "snd ` set (zip [0..<length ms] (sort_key fst ms)) = set ms"
    by (metis list.set_map set_sort)
  then show ?thesis
    by simp
qed

lemma place_group_facts:
  assumes "tidy st"
  shows "tidy (place_group owners ws grp st)"
    and "map_of (fst (place_group owners ws grp st)) e =
           (if e \<in> fst ` set (snd grp) then Some (owner_of owners (fst grp)) else map_of (fst st) e)"
  using place_rows[OF assms] by (cases grp; simp only: place_group_unfold zip_sorted_keys fst_conv snd_conv)+

lemma place_groups_tidy: "tidy st \<Longrightarrow> tidy (fold (place_group owners ws) gs st)"
  by (induction gs arbitrary: st) (simp_all add: place_group_facts)

lemma place_groups_owner:
  assumes "tidy st"
    and "\<And>grp. grp \<in> set gs \<Longrightarrow> e \<in> fst ` set (snd grp) \<Longrightarrow> owner_of owners (fst grp) = i"
    and "(\<exists>grp \<in> set gs. e \<in> fst ` set (snd grp)) \<or> map_of (fst st) e = Some i"
  shows "map_of (fst (fold (place_group owners ws) gs st)) e = Some i"
  using assms
proof (induction gs arbitrary: st)
  case (Cons grp gs)
  let ?st = "place_group owners ws grp st"
  note facts = place_group_facts[OF Cons.prems(1), of owners ws grp]
  have "map_of (fst ?st) e = Some i" if "e \<in> fst ` set (snd grp) \<or> map_of (fst st) e = Some i"
    using that Cons.prems(2)[of grp] facts(2)[of e] by auto
  then have "(\<exists>grp \<in> set gs. e \<in> fst ` set (snd grp)) \<or> map_of (fst ?st) e = Some i"
    using Cons.prems(3) by auto
  moreover have "\<And>g. g \<in> set gs \<Longrightarrow> e \<in> fst ` set (snd g) \<Longrightarrow> owner_of owners (fst g) = i"
    using Cons.prems(2) by simp
  ultimately show ?case
    using Cons.IH[OF facts(1)] by (simp only: fold_Cons comp_apply)
qed simp

lemma place_groups_range:
  assumes "tidy st" and "\<And>g. 0 \<le> owner_of owners g \<and> owner_of owners g < n"
    and "\<And>e i. map_of (fst st) e = Some i \<Longrightarrow> 0 \<le> i \<and> i < n"
    and "map_of (fst (fold (place_group owners ws) gs st)) e = Some i"
  shows "0 \<le> i \<and> i < n"
  using assms(1,3,4)
proof (induction gs arbitrary: st)
  case (Cons grp gs)
  note facts = place_group_facts[OF Cons.prems(1), of owners ws grp]
  have "0 \<le> j \<and> j < n" if "map_of (fst (place_group owners ws grp st)) e' = Some j" for e' j
    using that Cons.prems(2)[of e'] assms(2)[of "fst grp"] facts(2)[of e'] by (auto split: if_splits)
  with Cons.IH[OF facts(1)] Cons.prems(3) show ?case
    by (simp only: fold_Cons comp_apply)
qed simp

subsection \<open>Created plans\<close>

lemma owner_in_range:
  assumes "shard_assignment keys n weights = Inr owners"
  shows "0 \<le> owner_of owners g \<and> owner_of owners g < n"
proof (cases "map_of owners g")
  case None
  with assms show ?thesis
    by (auto simp: owner_of_def elim: shard_assignmentE)
next
  case (Some i)
  then have "(g, i) \<in> set owners"
    by (rule map_of_SomeD)
  with Some shard_assignment_facts(2)[OF assms] show ?thesis
    by (auto simp: owner_of_def)
qed

lemma create_transcribe_planE:
  assumes "create_transcribe_plan ctx cities n = Inr plan"
  obtains rows owners ws gs where
    "mapE (pending_of_source ctx) (source_cities (px_digests ctx) cities) = Inr rows"
    "gs = sort_key fst (group_members (concat rows))"
    "shard_assignment (map fst ws) n (Some ws) = Inr owners"
    "plan = \<lparr>sp_lane = ''transcribe'', sp_num_shards = n,
             sp_assignment = fst (fold (place_group owners ws) gs ([], [])),
             sp_weights = snd (fold (place_group owners ws) gs ([], [])),
             sp_unit = ''episode'', sp_fingerprint = Some (px_fingerprint ctx), sp_version = SHARD_PLAN_VERSION\<rparr>"
  using assms by (auto simp: create_transcribe_plan_def Let_def bindE_Inr split_beta)

lemma transcribe_plan_valid:
  assumes "create_transcribe_plan ctx cities n = Inr plan"
  shows "valid_plan plan \<and> sp_unit plan = ''episode'' \<and> distinct (map fst (sp_assignment plan))"
  using assms
proof (rule create_transcribe_planE)
  fix rows owners ws gs
  let ?st = "fold (place_group owners ws) gs ([], [])"
  assume owners: "shard_assignment (map fst ws) n (Some ws) = Inr owners"
    and plan: "plan = \<lparr>sp_lane = ''transcribe'', sp_num_shards = n, sp_assignment = fst ?st, sp_weights = snd ?st,
             sp_unit = ''episode'', sp_fingerprint = Some (px_fingerprint ctx), sp_version = SHARD_PLAN_VERSION\<rparr>"
  have tidy: "tidy ?st"
    by (rule place_groups_tidy) simp
  have "0 \<le> i \<and> i < n" if "(e, i) \<in> set (fst ?st)" for e i
  proof -
    have "map_of (fst ?st) e = Some i"
      using that tidy by (intro map_of_is_SomeI) (simp_all add: tidy_def)
    from place_groups_range[OF tidy_empty owner_in_range[OF owners] _ this] show ?thesis
      by simp
  qed
  moreover have "1 \<le> n"
    using owners by (rule shard_assignmentE)
  ultimately show ?thesis
    using tidy by (auto simp: plan valid_plan_def LANE_UNITS_def tidy_def list_all_iff)
qed

lemma source_weights_keys: "mapE (source_weight ctx lane) sources = Inr ws \<Longrightarrow> map fst ws = map fst sources"
  by (induction sources arbitrary: ws)
     (auto simp: source_weight_def bindE_Inr split: sum.splits if_splits prod.splits)

lemma update_all:
  assumes "distinct (map fst asg)"
  shows "distinct (map fst (fold (\<lambda>key. AList.update key (i::int)) ms asg)) \<and>
         set (fold (\<lambda>key. AList.update key i) ms asg) \<subseteq> set asg \<union> (\<lambda>k. (k, i)) ` set ms \<and>
         fst ` set (fold (\<lambda>key. AList.update key i) ms asg) = fst ` set asg \<union> set ms"
  using assms
proof (induction ms arbitrary: asg)
  case (Cons k ms)
  have "distinct (map fst (AList.update k i asg))"
    using Cons.prems by (rule distinct_update)
  moreover have "set (AList.update k i asg) \<subseteq> set asg \<union> {(k, i)}"
    by (induction asg) auto
  ultimately show ?case
    using Cons.IH[of "AList.update k i asg"] by (auto simp: dom_update)
qed simp

lemma members_cover:
  "(\<exists>grp\<in>set (fold (\<lambda>(k, m). add_member k m) rows []). m \<in> set (snd grp)) \<longleftrightarrow> m \<in> snd ` set rows"
proof
  assume "m \<in> snd ` set rows"
  then obtain g where row: "(g, m) \<in> set rows"
    by auto
  then have "g \<in> fst ` set rows"
    by force
  with groups_of_rows[of rows g] have "map_of (fold (\<lambda>(k, m). add_member k m) rows []) g = Some [m. (k, m) \<leftarrow> rows, k = g]"
    by simp
  then have "(g, [m. (k, m) \<leftarrow> rows, k = g]) \<in> set (fold (\<lambda>(k, m). add_member k m) rows [])"
    by (rule map_of_SomeD)
  moreover have "m \<in> set [m. (k, m) \<leftarrow> rows, k = g]"
    using row by force
  ultimately show "\<exists>grp\<in>set (fold (\<lambda>(k, m). add_member k m) rows []). m \<in> set (snd grp)"
    by force
next
  assume "\<exists>grp\<in>set (fold (\<lambda>(k, m). add_member k m) rows []). m \<in> set (snd grp)"
  then obtain g ms where "(g, ms) \<in> set (fold (\<lambda>(k, m). add_member k m) rows [])" "m \<in> set ms"
    by auto
  with members_of_rows[OF this(1)] show "m \<in> snd ` set rows"
    by force
qed

text \<open>The audio lane: every source of a family gets the family's shard.\<close>

lemma place_families:
  assumes "\<And>g. 0 \<le> owner_of owners g \<and> owner_of owners g < n"
    and "distinct (map fst asg)" and "\<And>e i. (e, i) \<in> set asg \<Longrightarrow> 0 \<le> i \<and> i < n"
  shows "let r = fold (\<lambda>(family, members) asg. fold (\<lambda>key. AList.update key (owner_of owners family)) members asg)
                   families asg
         in distinct (map fst r) \<and> fst ` set r = fst ` set asg \<union> (\<Union>grp\<in>set families. set (snd grp)) \<and>
            (\<forall>(e, i)\<in>set r. 0 \<le> i \<and> i < n)"
  using assms(2,3)
proof (induction families arbitrary: asg)
  case (Cons grp families)
  obtain family members where [simp]: "grp = (family, members)"
    by fastforce
  let ?asg = "fold (\<lambda>key. AList.update key (owner_of owners family)) members asg"
  note up = update_all[OF Cons.prems(1), of "owner_of owners family" members]
  have ranged: "0 \<le> i \<and> i < n" if "(e, i) \<in> set ?asg" for e i
  proof -
    have "(e, i) \<in> set asg \<or> i = owner_of owners family"
      using that up by auto
    then show ?thesis
      using Cons.prems(2) assms(1) by auto
  qed
  from up have "distinct (map fst ?asg)" and keys: "fst ` set ?asg = fst ` set asg \<union> set members"
    by simp_all
  let ?r = "fold (\<lambda>(family, members) asg. fold (\<lambda>key. AList.update key (owner_of owners family)) members asg)
              families ?asg"
  have "let r = ?r in distinct (map fst r) \<and>
          fst ` set r = fst ` set ?asg \<union> (\<Union>grp\<in>set families. set (snd grp)) \<and> (\<forall>(e, i)\<in>set r. 0 \<le> i \<and> i < n)"
    using \<open>distinct (map fst ?asg)\<close> by (rule Cons.IH) (rule ranged)
  then show ?case
    by (simp add: Let_def keys Un_assoc)
qed auto

lemma source_plan_valid:
  assumes "create_source_plan ctx cities lane n = Inr plan" and lane: "lane \<in> {''audio'', ''align''}"
  shows "valid_plan plan \<and> sp_unit plan = ''source'' \<and> distinct (map fst (sp_assignment plan)) \<and>
         fst ` set (sp_assignment plan) = fst ` set (source_cities (px_digests ctx) cities)"
proof -
  let ?sources = "source_cities (px_digests ctx) cities"
  obtain ws asg where ws: "mapE (source_weight ctx lane) ?sources = Inr ws"
    and asg: "(if lane = ''audio'' then
               (let families = fold (\<lambda>(key, city). add_member (source_family_key (px_digests ctx) city) key)
                                 ?sources [] in
                bindE (shard_assignment (map fst families) n (Some (family_weights ws families)))
                  (\<lambda>owners. Inr (fold (\<lambda>(family, members) asg.
                      fold (\<lambda>key. AList.update key (case map_of owners family of None \<Rightarrow> 0 | Some o' \<Rightarrow> o'))
                        members asg) families [])))
             else shard_assignment (map fst ?sources) n (Some ws)) = Inr asg"
    and plan: "plan = \<lparr>sp_lane = lane, sp_num_shards = n, sp_assignment = asg, sp_weights = ws,
             sp_unit = ''source'', sp_fingerprint = Some (px_fingerprint ctx), sp_version = SHARD_PLAN_VERSION\<rparr>"
    using assms(1) by (auto simp: create_source_plan_def Let_def bindE_Inr)
  have keys: "fst ` set ws = fst ` set ?sources"
    using source_weights_keys[OF ws] by (metis list.set_map)
  have "1 \<le> n \<and> distinct (map fst asg) \<and> fst ` set asg = fst ` set ?sources \<and>
          list_all (\<lambda>(k, i). 0 \<le> i \<and> i < n) asg"
  proof (cases "lane = ''audio''")
    case False
    then have *: "shard_assignment (map fst ?sources) n (Some ws) = Inr asg"
      using asg by simp
    have "1 \<le> n"
      using * by (rule shard_assignmentE)
    with shard_assignment_facts(1,2)[OF *] shard_order_facts[of "weight_in (Some ws)" "map fst ?sources"]
    show ?thesis
      by (metis (no_types, lifting) Ball_set list.set_map)
  next
    case True
    let ?families = "fold (\<lambda>(key, city). add_member (source_family_key (px_digests ctx) city) key) ?sources []"
    obtain owners where owners: "shard_assignment (map fst ?families) n (Some (family_weights ws ?families)) = Inr owners"
      and asg': "asg = fold (\<lambda>(family, members) asg. fold (\<lambda>key. AList.update key (owner_of owners family)) members asg)
                   ?families []"
      using asg True by (auto simp: Let_def bindE_Inr owner_of_def)
    have "1 \<le> n"
      using owners by (rule shard_assignmentE)
    have "?families = fold (\<lambda>(k, m). add_member k m)
        (map (\<lambda>(key, city). (source_family_key (px_digests ctx) city, key)) ?sources) []"
      by (simp add: fold_map comp_def split_def)
    then have "(\<Union>grp\<in>set ?families. set (snd grp)) = fst ` set ?sources"
      using members_cover[of "map (\<lambda>(key, city). (source_family_key (px_digests ctx) city, key)) ?sources"]
      by (auto simp: image_iff split_beta)
    with place_families[of owners n "[]" ?families] owner_in_range[OF owners] \<open>1 \<le> n\<close> show ?thesis
      by (simp add: asg' Let_def list_all_iff)
  qed
  then show ?thesis
    using keys lane by (auto simp: plan valid_plan_def LANE_UNITS_def)
qed

lemma created_plan_valid:
  assumes "create_shard_plan ctx cities lane n = Inr plan"
  shows "valid_plan plan \<and> distinct (map fst (sp_assignment plan)) \<and> sp_lane plan = lane \<and> sp_num_shards plan = n \<and>
         sp_version plan = SHARD_PLAN_VERSION \<and> sp_fingerprint plan = Some (px_fingerprint ctx)"
proof (cases "lane = ''transcribe''")
  case True
  with assms have created: "create_transcribe_plan ctx cities n = Inr plan"
    by (simp add: create_shard_plan_def split: if_splits)
  then have "sp_lane plan = lane \<and> sp_num_shards plan = n \<and>
         sp_version plan = SHARD_PLAN_VERSION \<and> sp_fingerprint plan = Some (px_fingerprint ctx)"
    using True by (auto elim!: create_transcribe_planE)
  with transcribe_plan_valid[OF created] show ?thesis
    by simp
next
  case False
  with assms have created: "create_source_plan ctx cities lane n = Inr plan" and "map_of LANE_UNITS lane \<noteq> None"
    by (simp_all add: create_shard_plan_def split: if_splits)
  then have lane: "lane \<in> {''audio'', ''align''}"
    using False by (auto simp: LANE_UNITS_def split: if_splits)
  have "sp_lane plan = lane \<and> sp_num_shards plan = n \<and>
         sp_version plan = SHARD_PLAN_VERSION \<and> sp_fingerprint plan = Some (px_fingerprint ctx)"
    using created by (auto simp: create_source_plan_def Let_def bindE_Inr)
  with source_plan_valid[OF created lane] show ?thesis
    by simp
qed

end
