(* ===== verification/Shard_Theorems.thy ===== *)
theory Shard_Theorems
  imports Shard_Plan_Properties
begin

section \<open>The properties of sharding\<close>

text \<open>
  The two estimates of the backlog agree, the assignment is balanced, plans are read back and accepted only when well
  formed, each episode is read by exactly one shard, and the matrix starts every shard that has work.
\<close>

subsection \<open>The two estimates of the backlog\<close>

definition routes_with :: "route \<Rightarrow> (string \<times> route \<times> rat option) list \<Rightarrow> nat" where
  "routes_with r rows = length (filter (\<lambda>(uid, r', s). r' = r) rows)"

definition unknown_local :: "(string \<times> route \<times> rat option) list \<Rightarrow> nat" where
  "unknown_local rows = length (filter (\<lambda>(uid, r, s). r = LocalRoute \<and> s = None) rows)"

lemma known_local_Cons:
  "known_local ((uid, r, s) # rows) =
     (case (r, s) of (LocalRoute, Some d) \<Rightarrow> d # known_local rows | _ \<Rightarrow> known_local rows)"
  by (cases r; cases s) (simp_all add: known_local_def)

lemma fold_count_route:
  "fold count_route rows (w, n) =
     (w\<lparr>tw_local_seconds := tw_local_seconds w + sum_list (known_local rows),
        tw_local_items := tw_local_items w + routes_with LocalRoute rows,
        tw_dispatch_items := tw_dispatch_items w + routes_with DispatchRoute rows,
        tw_blocked_items := tw_blocked_items w + routes_with BlockedRoute rows,
        tw_inflight_items := tw_inflight_items w + routes_with InflightRoute rows,
        tw_copy_items := tw_copy_items w + routes_with CopyRoute rows\<rparr>, n + unknown_local rows)"
proof (induction rows arbitrary: w n)
  case Nil
  show ?case
    by (simp add: known_local_def routes_with_def unknown_local_def)
next
  case (Cons row rows)
  obtain uid r s where row: "row = (uid, r, s)"
    by (cases row) auto
  show ?case
    unfolding row fold_Cons comp_apply
    by (cases r; cases s)
       (simp_all add: count_route_def Cons.IH known_local_Cons routes_with_def unknown_local_def algebra_simps)
qed

lemma local_split: "routes_with LocalRoute rows = length (known_local rows) + unknown_local rows"
proof (induction rows)
  case (Cons row rows)
  obtain uid r s where row: "row = (uid, r, s)"
    by (cases row) auto
  show ?case
    using Cons by (cases r; cases s) (simp_all add: row known_local_Cons routes_with_def unknown_local_def)
qed (simp add: known_local_def routes_with_def unknown_local_def)

lemma sum_of_items:
  "sum_list (map snd [(uid, item_weight u r s). (uid, r, s) \<leftarrow> rows, r \<noteq> InflightRoute]) =
     sum_list (known_local rows) + of_nat (unknown_local rows) * u +
     of_nat (routes_with DispatchRoute rows) * TRANSCRIBE_DISPATCH_WEIGHT_SECONDS +
     of_nat (routes_with BlockedRoute rows) * TRANSCRIBE_BLOCKED_WEIGHT_SECONDS +
     of_nat (routes_with CopyRoute rows) * TRANSCRIBE_COPY_WEIGHT_SECONDS"
proof (induction rows)
  case (Cons row rows)
  obtain uid r s where row: "row = (uid, r, s)"
    by (cases row) auto
  show ?case
    using Cons by (cases r; cases s)
      (simp_all add: row known_local_Cons item_weight_def routes_with_def unknown_local_def algebra_simps)
qed (simp add: known_local_def routes_with_def unknown_local_def)

lemma items_weigh_the_work: "sum_list (map snd (items_of_routes u rows)) = shard_weight (work_of_routes u rows)"
  by (cases "unknown_local rows = 0"; cases "known_local rows = []")
     (simp_all add: items_of_routes_def work_of_routes_def Let_def sum_of_items fold_count_route no_work_def
       shard_weight_def local_split)

text \<open>
  the two estimates of the transcription backlog agree, errors included: the weights of the pending
  episodes add up to the weight of the source, whatever the route classifier answers.
\<close>

theorem pending_weights_are_the_source_weight:
  "bindE (pending_transcribe_items ctx enabled u recs) (\<lambda>items. Inr (sum_list (map snd items))) =
   bindE (estimate_transcribe_shard_work ctx enabled u recs) (\<lambda>w. Inr (shard_weight w))"
  by (cases "iter_transcribe_routes ctx enabled recs")
     (simp_all add: pending_transcribe_items_def estimate_transcribe_shard_work_def items_weigh_the_work)

subsection \<open>Balance\<close>

text \<open>
  C13: every key gets exactly one shard of the range, and the shards are balanced: no shard carries more
  than any other plus the heaviest single key.
\<close>

theorem shard_assignment_balanced:
  assumes "shard_assignment keys n weights = Inr asg"
  shows "distinct (map fst asg) \<and> set (map fst asg) = set keys \<and> list_all (\<lambda>(k, i). 0 \<le> i \<and> i < n) asg \<and>
         spread_le (nat n) (weight_in weights) (Max (insert 0 (weight_in weights ` set keys))) asg"
  using shard_assignment_facts[OF assms] shard_order_facts[of "weight_in weights" keys]
  by (simp add: list_all_iff)

text \<open>
  with equal weights the shards differ by at most one key, so a shard is empty only when there are
  fewer keys than shards.
\<close>

theorem equal_weights_spread_evenly:
  assumes asg: "shard_assignment keys n weights = Inr asg"
    and equal: "\<And>k. k \<in> set keys \<Longrightarrow> weight_in weights k = c"
    and ij: "i < nat n" "j < nat n"
  shows "shard_count asg i \<le> Suc (shard_count asg j) \<and> (shard_count asg i = 0 \<longrightarrow> card (set keys) < nat n)"
proof -
  let ?w = "weight_in weights"
  let ?st = "(replicate (nat n) (0, 0), []) :: slot list \<times> (string \<times> int) list"
  obtain facts: "1 \<le> n" "\<And>k. k \<in> set keys \<Longrightarrow> 0 \<le> ?w k"
      "asg = snd (fold (assign_key ?w) (shard_order ?w keys) ?st)"
    using asg by (rule shard_assignmentE) blast
  have keys: "distinct (map fst asg)" "set (map fst asg) = set keys"
    using shard_assignment_facts(1)[OF asg] shard_order_facts[of ?w keys] by simp_all
  have even: "even (nat n) asg"
  proof (cases "keys = []")
    case True
    then show ?thesis
      by (simp add: facts(3) shard_order_def even_def shard_count_def)
  next
    case False
    then have "0 \<le> c"
      using facts(2)[of "hd keys"] equal[of "hd keys"] by simp
    have "even (nat n) (snd ?st)"
      by (simp add: even_def shard_count_def)
    then show ?thesis
      unfolding facts(3)
      using assign_all_even[of "nat n" "shard_order ?w keys" ?w c ?st] facts(1) \<open>0 \<le> c\<close> equal
        shard_order_facts[of ?w keys] slots_inv_start[of "nat n" ?w] by simp
  qed
  then have "shard_count asg i \<le> Suc (shard_count asg j)"
    using ij by (simp add: even_def)
  moreover have "card (set keys) < nat n" if empty: "shard_count asg i = 0"
  proof -
    have "shard_count asg k \<le> 1" if "k < nat n" for k
      using even[unfolded even_def, rule_format, OF that ij(1)] empty by simp
    then have "(\<Sum>k<nat n. shard_count asg k) \<le> (\<Sum>k<nat n. if k = i then 0 else 1)"
      using empty by (intro sum_mono) auto
    also have "(\<Sum>k<nat n. if k = i then 0 else (1::nat)) + (\<Sum>k<nat n. if k = i then 1 else 0) = (\<Sum>k<nat n. 1)"
      unfolding sum.distrib[symmetric] by (rule sum.cong) auto
    then have "(\<Sum>k<nat n. if k = i then 0 else (1::nat)) = nat n - 1"
      using ij(1) by simp
    finally have "length asg \<le> nat n - 1"
      using sum_shard_counts[of asg "nat n"] shard_assignment_facts(2)[OF asg] facts(1) by simp
    moreover have "length asg = card (set keys)"
      using keys distinct_card[of "map fst asg"] by simp
    ultimately show ?thesis
      using ij(1) by simp
  qed
  ultimately show ?thesis
    by simp
qed

subsection \<open>From the planner to the shards\<close>

text \<open>
  every plan the planner creates is well formed and survives storage: reading the saved file gives
  the same plan with its dictionaries in key order.
\<close>

theorem created_plan_is_read_back:
  assumes "create_shard_plan ctx cities lane n = Inr plan" and "px_fingerprint ctx \<noteq> ''''"
  shows "valid_plan plan \<and> load_shard_plan (Some (save_shard_plan plan)) = Inr (sorted_plan plan)"
  using created_plan_valid[OF assms(1)] load_saved[of plan] assms(2) by simp

text \<open>A plan document with a number no double holds where the loader needs a finite one.\<close>

definition oversized_plan :: "pydict \<Rightarrow> bool" where
  "oversized_plan d \<longleftrightarrow>
     (\<exists>q. map_of d ''num_shards'' = Some (JFloat q) \<and> float_overflows q) \<or>
     (\<exists>kvs k q. map_of d ''assignment'' = Some (JObj kvs) \<and> (k, JFloat q) \<in> set kvs \<and> float_overflows q) \<or>
     (\<exists>kvs k i. map_of d ''weights'' = Some (JObj kvs) \<and> (k, JInt i) \<in> set kvs \<and> float_overflows (of_int i))"

lemma py_number_errors:
  "py_int v = Inl e \<Longrightarrow> e = ValueError \<or> e = TypeError"
  "py_float v = Inl e \<Longrightarrow> e = ValueError \<or> e = TypeError"
  by (cases v; simp split: option.splits)+

lemma finite_number_errors:
  "finite_int v = Inl e \<Longrightarrow> caught_by_loader e \<or> e = OverflowError \<and> (\<exists>q. v = JFloat q \<and> float_overflows q)"
  "finite_float v = Inl e \<Longrightarrow>
     caught_by_loader e \<or> e = OverflowError \<and> (\<exists>i. v = JInt i \<and> float_overflows (of_int i))"
  using py_number_errors[of v e]
  by (auto simp: finite_int_def finite_float_def caught_by_loader_def split: json.splits if_splits)

lemma map_valuesE_error: "map_valuesE f kvs = Inl e \<Longrightarrow> \<exists>k v. (k, v) \<in> set kvs \<and> f v = Inl e"
  unfolding map_valuesE_def by (induction kvs) (fastforce split: prod.splits sum.splits)+

lemma bindE_error: "bindE m f = Inl e \<longleftrightarrow> m = Inl e \<or> (\<exists>x. m = Inr x \<and> f x = Inl e)"
  by (cases m) auto

lemma bindE_step:
  assumes "bindE m f = Inl e" and "m = Inl e \<Longrightarrow> P" and "\<And>x. f x = Inl e \<Longrightarrow> P"
  shows P
  using assms by (cases m) auto

lemma parse_plan_errors:
  assumes "parse_plan d = Inl e"
  shows "caught_by_loader e \<or> e = OverflowError \<and> oversized_plan d"
proof -
  have field: "required d k = Inl e \<Longrightarrow> caught_by_loader e" "items_of v = Inl e \<Longrightarrow> caught_by_loader e" for k v
    by (auto simp: required_def items_of_def caught_by_loader_def split: option.splits json.splits)
  have got: "required d k = Inr v \<Longrightarrow> map_of d k = Some v" "items_of v = Inr kvs \<Longrightarrow> v = JObj kvs" for k v kvs
    by (auto simp: required_def items_of_def split: option.splits json.splits)
  have num: "caught_by_loader e \<or> e = OverflowError \<and> oversized_plan d"
    if "bindE (required d ''num_shards'') finite_int = Inl e"
    using that field(1) finite_number_errors(1) got(1) unfolding bindE_error oversized_plan_def by blast
  have asg: "caught_by_loader e \<or> e = OverflowError \<and> oversized_plan d"
    if "bindE (bindE (required d ''assignment'') items_of) (map_valuesE finite_int) = Inl e"
  proof (cases "caught_by_loader e")
    case False
    with that field obtain v kvs where "required d ''assignment'' = Inr v" "items_of v = Inr kvs"
        "map_valuesE finite_int kvs = Inl e"
      unfolding bindE_error bindE_Inr by blast
    then have "map_of d ''assignment'' = Some (JObj kvs)" "\<exists>k v. (k, v) \<in> set kvs \<and> finite_int v = Inl e"
      using got map_valuesE_error by blast+
    with False show ?thesis
      using finite_number_errors(1) unfolding oversized_plan_def by blast
  qed simp
  have wts: "caught_by_loader e \<or> e = OverflowError \<and> oversized_plan d"
    if "bindE (bindE (required d ''weights'') items_of) (map_valuesE finite_float) = Inl e"
  proof (cases "caught_by_loader e")
    case False
    with that field obtain v kvs where "required d ''weights'' = Inr v" "items_of v = Inr kvs"
        "map_valuesE finite_float kvs = Inl e"
      unfolding bindE_error bindE_Inr by blast
    then have "map_of d ''weights'' = Some (JObj kvs)" "\<exists>k v. (k, v) \<in> set kvs \<and> finite_float v = Inl e"
      using got map_valuesE_error by blast+
    with False show ?thesis
      using finite_number_errors(2) unfolding oversized_plan_def by blast
  qed simp
  have "bindE (required d ''num_shards'') finite_int = Inl e \<or>
      bindE (bindE (required d ''assignment'') items_of) (map_valuesE finite_int) = Inl e \<or>
      bindE (bindE (required d ''weights'') items_of) (map_valuesE finite_float) = Inl e \<or>
      required d ''lane'' = Inl e"
    by (insert assms[unfolded parse_plan_def Let_def]) ((erule bindE_step, blast)+, simp)
  then show ?thesis
    using num asg wts field(1) by blast
qed

text \<open>
  C12: reading a plan is fail-closed: whatever the file holds, a plan that is accepted has a known lane
  with its own unit of work, at least one shard, a weight for exactly the planned keys, and every key
  on a shard that exists; anything else is rejected. The rejection is the ValueError the loader
  documents, except for a document with a number beyond the doubles (an infinite shard count or
  shard number such as \<open>1e999\<close>, or a weight written as a huge integer): only then OverflowError, which
  the loader does not catch, can leave it.
\<close>

theorem loaded_plan_is_well_formed:
  "case load_shard_plan content of
     Inr plan \<Rightarrow> valid_plan plan
   | Inl e \<Rightarrow> e = ValueError \<or>
       e = OverflowError \<and> (\<exists>d. content = Some (Json (JObj d)) \<and> oversized_plan d)"
proof (cases content)
  case (Some b)
  have checked: "case check_plan p of Inr plan \<Rightarrow> valid_plan plan | Inl e \<Rightarrow> e = ValueError" for p
  proof (cases "check_plan p")
    case (Inr plan)
    then have "valid_plan plan"
      by (simp only: check_plan_iff)
    with Inr show ?thesis
      by (simp only: sum.case)
  next
    case (Inl e)
    moreover have "validate_lane_unit lane unit = Inl e' \<Longrightarrow> e' = ValueError" for lane unit e'
      by (auto simp: validate_lane_unit_def split: option.splits if_splits)
    ultimately have "e = ValueError"
      by (cases "validate_lane_unit (sp_lane p) (sp_unit p)")
         (simp_all only: check_plan_def bindE_simps sum.inject sum.distinct split: if_splits)
    with Inl show ?thesis
      by simp
  qed
  show ?thesis
  proof (cases b)
    case (Json data)
    have "case (case parse_plan d of
             Inl e \<Rightarrow> if caught_by_loader e then Inl ValueError else Inl e | Inr plan \<Rightarrow> check_plan plan) of
            Inr plan \<Rightarrow> valid_plan plan | Inl e \<Rightarrow> e = ValueError \<or>
              e = OverflowError \<and> (\<exists>d. content = Some (Json (JObj d)) \<and> oversized_plan d)"
      if "data = JObj d" for d
    proof (cases "parse_plan d")
      case (Inl e)
      then show ?thesis
        using parse_plan_errors[of d e] Some Json that by auto
    next
      case (Inr plan)
      then show ?thesis
        using checked[of plan] by (auto split: sum.splits)
    qed
    with Some Json show ?thesis
      by (cases data) (simp_all add: load_shard_plan_def del: py_eq.simps)
  next
    case (Garbage s)
    with Some show ?thesis
      by (simp add: load_shard_plan_def)
  qed
qed (simp add: load_shard_plan_def)

text \<open>An infinite shard count is such a document: the error that leaves the loader is OverflowError.\<close>

lemma infinite_shard_count_escapes:
  "load_shard_plan (Some (Json (JObj [(''version'', JInt 2), (''lane'', JStr ''audio''),
     (''num_shards'', JFloat (2 ^ 1024))]))) = Inl OverflowError"
  by (simp add: load_shard_plan_def parse_plan_def required_def dget_def SHARD_PLAN_VERSION_def
      finite_int_def float_overflows_def caught_by_loader_def)

lemma split_episode_key [simp]:
  "CHR ''/'' \<notin> set uid \<Longrightarrow> split_episode_key (episode_key src uid) = (src, uid)"
proof -
  assume "CHR ''/'' \<notin> set uid"
  then have "takeWhile (\<lambda>c. c \<noteq> CHR ''/'') (rev uid @ CHR ''/'' # rev src) =
      rev uid @ takeWhile (\<lambda>c. c \<noteq> CHR ''/'') (CHR ''/'' # rev src)"
    by (intro takeWhile_append2) auto
  then have "takeWhile (\<lambda>c. c \<noteq> CHR ''/'') (rev (episode_key src uid)) = rev uid"
    by (simp add: episode_key_def)
  then show ?thesis
    by (simp add: split_episode_key_def Let_def episode_key_def)
qed

lemma split_episode_key_iff:
  assumes "CHR ''/'' \<notin> set uid" and "src \<noteq> ''''"
  shows "split_episode_key key = (src, uid) \<longleftrightarrow> key = episode_key src uid"
proof
  assume split: "split_episode_key key = (src, uid)"
  let ?P = "\<lambda>c. c \<noteq> CHR ''/''"
  have uid: "uid = rev (takeWhile ?P (rev key))" and src: "src = take (length key - Suc (length uid)) key"
    using split by (auto simp: split_episode_key_def Let_def)
  let ?d = "dropWhile ?P (rev key)"
  have key: "key = rev ?d @ uid"
    by (metis uid rev_append rev_rev_ident takeWhile_dropWhile_id)
  have "?d \<noteq> []"
  proof
    assume "?d = []"
    with key have "length key = length uid"
      by simp
    with src assms(2) show False
      by simp
  qed
  then obtain rest where "?d = CHR ''/'' # rest"
    using hd_dropWhile[of ?P "rev key"] by (cases ?d) auto
  with key have "key = rev rest @ CHR ''/'' # uid"
    by simp
  with src show "key = episode_key src uid"
    by (simp add: episode_key_def)
qed (use assms in simp)

lemma owned_uids:
  "(case map_of (owned_episode_uids asg j) src of None \<Rightarrow> False | Some us \<Rightarrow> uid \<in> set us) \<longleftrightarrow>
     (\<exists>key. (key, j) \<in> set asg \<and> split_episode_key key = (src, uid))"
proof (induction asg rule: rev_induct)
  case (snoc item asg)
  obtain key owner where item: "item = (key, owner)"
    by fastforce
  obtain s u where split: "split_episode_key key = (s, u)"
    by fastforce
  have step: "owned_episode_uids (asg @ [(key, owner)]) j =
      (if owner \<noteq> j then owned_episode_uids asg j
       else AList.update s (List.insert u (case map_of (owned_episode_uids asg j) s of None \<Rightarrow> [] | Some us \<Rightarrow> us))
              (owned_episode_uids asg j))"
    by (simp add: owned_episode_uids_def split)
  show ?case
  proof (cases "owner = j")
    case False
    then show ?thesis
      using snoc unfolding item step by auto
  next
    case True
    show ?thesis
    proof (cases "s = src")
      case same: True
      have "(case map_of (owned_episode_uids (asg @ [(key, owner)]) j) src of None \<Rightarrow> False | Some us \<Rightarrow> uid \<in> set us) \<longleftrightarrow>
              uid = u \<or> (case map_of (owned_episode_uids asg j) src of None \<Rightarrow> False | Some us \<Rightarrow> uid \<in> set us)"
        unfolding step using True same by (auto simp: dict_simps split: option.splits)
      then show ?thesis
        using snoc True same split by (auto simp: item)
    next
      case other: False
      then show ?thesis
        using snoc True split unfolding item step by (auto simp: dict_simps)
    qed
  qed
qed (simp add: owned_episode_uids_def)

text \<open>Whether shard \<open>j\<close> of the workflow transcribes an episode under a plan.\<close>

definition shard_owns :: "shard_plan \<Rightarrow> int \<Rightarrow> string list \<Rightarrow> int \<Rightarrow> string \<Rightarrow> string \<Rightarrow> bool" where
  "shard_owns plan n expected j src uid =
     (case episodes_for_shard plan ''transcribe'' j n expected of
        Inr (_, Some owned) \<Rightarrow> (case map_of owned src of None \<Rightarrow> False | Some us \<Rightarrow> uid \<in> set us)
      | _ \<Rightarrow> False)"

lemma shard_owns_iff:
  assumes "valid_plan plan" and "sp_lane plan = ''transcribe''" "sp_num_shards plan = n"
    and "distinct (map fst (sp_assignment plan))"
    and "list_all (\<lambda>(k, _). fst (split_episode_key k) \<in> set expected) (sp_assignment plan)"
    and "0 \<le> j" "j < n" and "src \<noteq> ''''" "CHR ''/'' \<notin> set uid"
  shows "shard_owns plan n expected j src uid \<longleftrightarrow> map_of (sp_assignment plan) (episode_key src uid) = Some j"
proof -
  have unit: "sp_unit plan = ''episode''" "validate_lane_unit ''transcribe'' (sp_unit plan) = Inr ()"
    using assms(1,2) by (auto simp: valid_plan_def LANE_UNITS_def validate_lane_unit_iff)
  have "\<not> list_ex (\<lambda>(key, _). fst (split_episode_key key) \<notin> set expected) (sp_assignment plan)"
    using assms(5) by (auto simp: list_ex_iff list_all_iff)
  then have "episodes_for_shard plan ''transcribe'' j n expected =
      Inr (map fst (owned_episode_uids (sp_assignment plan) j), Some (owned_episode_uids (sp_assignment plan) j))"
    using assms(2,3,6,7) unit by (simp add: episodes_for_shard_def Let_def)
  then have "shard_owns plan n expected j src uid \<longleftrightarrow> (episode_key src uid, j) \<in> set (sp_assignment plan)"
    using owned_uids[where asg = "sp_assignment plan" and j = j and src = src and uid = uid] split_episode_key_iff[OF assms(9,8)]
    by (simp add: shard_owns_def)
  also have "\<dots> \<longleftrightarrow> map_of (sp_assignment plan) (episode_key src uid) = Some j"
    using assms(4) by (auto intro: map_of_is_SomeI dest: map_of_SomeD)
  finally show ?thesis .
qed

text \<open>
  C10: the shards divide the backlog: each shard reads the stored plan for itself, and shard \<open>j\<close> transcribes
  an episode exactly when the planner gave it to \<open>j\<close>, so no episode has two owners and none that
  was planned is left out.
\<close>

theorem each_shard_reads_its_part:
  assumes created: "create_shard_plan ctx cities ''transcribe'' n = Inr plan" and fp: "px_fingerprint ctx \<noteq> ''''"
    and known: "list_all (\<lambda>(k, _). fst (split_episode_key k) \<in> set expected) (sp_assignment plan)"
    and "0 \<le> j" "j < n" and "src \<noteq> ''''" "CHR ''/'' \<notin> set uid"
  shows "\<exists>read. load_shard_plan (Some (save_shard_plan plan)) = Inr read \<and>
           (shard_owns read n expected j src uid \<longleftrightarrow> map_of (sp_assignment plan) (episode_key src uid) = Some j)"
proof -
  note valid = created_plan_valid[OF created]
  have read: "load_shard_plan (Some (save_shard_plan plan)) = Inr (sorted_plan plan)"
    using valid fp by (intro load_saved) simp_all
  have "valid_plan (sorted_plan plan)"
    using valid by (auto simp: valid_plan_def sorted_plan_def list_all_iff)
  then have "shard_owns (sorted_plan plan) n expected j src uid \<longleftrightarrow>
      map_of (sp_assignment (sorted_plan plan)) (episode_key src uid) = Some j"
    using valid known assms(4-)
    by (intro shard_owns_iff) (simp_all add: sorted_plan_def list_all_iff distinct_map)
  with read show ?thesis
    by (simp add: sorted_plan_def dict_simps)
qed

lemma row_group_unique:
  assumes "distinct (map (fst \<circ> snd) rows)" and "(g, e, w) \<in> set rows" and "(g', e, w') \<in> set rows"
  shows "g' = g"
proof -
  have "inj_on (fst \<circ> snd) (set rows)"
    using assms(1) by (simp add: distinct_map)
  from inj_onD[OF this _ assms(2,3)] show ?thesis
    by simp
qed

lemma transcribe_owner:
  assumes "create_transcribe_plan ctx cities n = Inr plan"
    and rows: "mapE (pending_of_source ctx) (source_cities (px_digests ctx) cities) = Inr rows"
    and distinct: "distinct (map (fst \<circ> snd) (concat rows))"
  shows "\<exists>owners. \<forall>g e w. (g, e, w) \<in> set (concat rows) \<longrightarrow> map_of (sp_assignment plan) e = Some (owner_of owners g)"
  using assms(1)
proof (rule create_transcribe_planE)
  fix rows' owners ws gs
  assume rows': "mapE (pending_of_source ctx) (source_cities (px_digests ctx) cities) = Inr rows'"
    and gs: "gs = sort_key fst (group_members (concat rows'))"
    and plan: "plan = \<lparr>sp_lane = ''transcribe'', sp_num_shards = n,
             sp_assignment = fst (fold (place_group owners ws) gs ([], [])),
             sp_weights = snd (fold (place_group owners ws) gs ([], [])),
             sp_unit = ''episode'', sp_fingerprint = Some (px_fingerprint ctx), sp_version = SHARD_PLAN_VERSION\<rparr>"
  have [simp]: "rows' = rows"
    using rows rows' by simp
  have groups: "set gs = set (fold (\<lambda>(k, m). add_member k m) (concat rows) [])"
    by (simp add: gs group_members_def)
  have "map_of (sp_assignment plan) e = Some (owner_of owners g)" if row: "(g, e, w) \<in> set (concat rows)" for g e w
  proof -
    have "owner_of owners (fst grp) = owner_of owners g" if grp: "grp \<in> set gs" "e \<in> fst ` set (snd grp)" for grp
    proof -
      obtain g' ms where grp_eq: "grp = (g', ms)"
        by fastforce
      with grp groups have "set ms = {m. (g', m) \<in> set (concat rows)}"
        by (simp add: members_of_rows)
      moreover obtain w' where "(e, w') \<in> set ms"
        using grp(2) grp_eq by auto
      ultimately have "(g', e, w') \<in> set (concat rows)"
        by blast
      from row_group_unique[OF distinct row this] grp_eq show ?thesis
        by simp
    qed
    moreover have "\<exists>grp\<in>set gs. e \<in> fst ` set (snd grp)"
    proof -
      have "(e, w) \<in> snd ` set (concat rows)"
        using row by force
      then obtain grp where "grp \<in> set gs" "(e, w) \<in> set (snd grp)"
        using members_cover[of "concat rows" "(e, w)"] groups by blast
      then show ?thesis
        by (intro bexI[of _ grp]) (simp_all add: rev_image_eqI)
    qed
    ultimately have "map_of (fst (fold (place_group owners ws) gs ([], []))) e = Some (owner_of owners g)"
      by (intro place_groups_owner[OF tidy_empty]) blast+
    then show ?thesis
      by (simp add: plan)
  qed
  then show ?thesis
    by blast
qed

text \<open>
  two pending episodes of different sources that need the same inference (same uid, same recipe) are
  given to the same shard, which can then transcribe once and copy.
\<close>

theorem same_inference_same_shard:
  assumes "create_shard_plan ctx cities ''transcribe'' n = Inr plan"
    and "mapE (pending_of_source ctx) (source_cities (px_digests ctx) cities) = Inr rows"
    and "distinct (map (fst \<circ> snd) (concat rows))"
    and "(g, e1, w1) \<in> set (concat rows)" and "(g, e2, w2) \<in> set (concat rows)"
  shows "\<exists>i. map_of (sp_assignment plan) e1 = Some i \<and> map_of (sp_assignment plan) e2 = Some i \<and> 0 \<le> i \<and> i < n"
proof -
  have created: "create_transcribe_plan ctx cities n = Inr plan"
    using assms(1) by (simp add: create_shard_plan_def split: if_splits)
  obtain owners where owner: "map_of (sp_assignment plan) e = Some (owner_of owners g)"
    if "(g, e, w) \<in> set (concat rows)" for g e w
    using transcribe_owner[OF created assms(2,3)] by blast
  have "(e1, owner_of owners g) \<in> set (sp_assignment plan)"
    using owner[OF assms(4)] by (rule map_of_SomeD)
  then have "0 \<le> owner_of owners g \<and> owner_of owners g < n"
    using created_plan_valid[OF assms(1)] by (auto simp: valid_plan_def list_all_iff)
  with owner[OF assms(4)] owner[OF assms(5)] show ?thesis
    by simp
qed

lemma add_loads:
  assumes "list_all (\<lambda>(k, i). 0 \<le> i \<and> i < int (length loads) \<and> map_of weights k \<noteq> None) asg"
  shows "\<exists>r. foldE (add_load weights) asg loads = Inr r \<and> length r = length loads \<and>
           (\<forall>i<length loads. r ! i = loads ! i + shard_load (weight_in (Some weights)) asg i)"
  using assms
proof (induction asg arbitrary: loads)
  case (Cons item asg)
  obtain k j where item: "item = (k, j)"
    by fastforce
  then obtain w where w: "map_of weights k = Some w" "0 \<le> j" "j < int (length loads)"
    using Cons.prems by auto
  let ?loads = "loads[nat j := loads ! nat j + w]"
  have "add_load weights item loads = Inr ?loads"
    using w by (simp add: add_load_def py_index_def item)
  moreover obtain r where "foldE (add_load weights) asg ?loads = Inr r" "length r = length loads"
      "\<forall>i<length loads. r ! i = ?loads ! i + shard_load (weight_in (Some weights)) asg i"
    using Cons.IH[of ?loads] Cons.prems by auto
  moreover have "?loads ! i + shard_load (weight_in (Some weights)) asg i =
      loads ! i + shard_load (weight_in (Some weights)) (item # asg) i" if "i < length loads" for i
    using w that by (auto simp: shard_load_def item weight_in_def nth_list_update)
  ultimately show ?case
    by auto
qed (simp add: shard_load_def)

lemma shard_load_positive:
  "(k, int i) \<in> set asg \<Longrightarrow> 0 < w k \<Longrightarrow> (\<And>k. 0 \<le> w k) \<Longrightarrow> 0 < shard_load w asg i"
proof -
  assume k: "(k, int i) \<in> set asg" "0 < w k" and w: "\<And>k. 0 \<le> w k"
  have nonneg: "0 \<le> shard_load w asg i" for asg
    using w by (induction asg) (auto simp: shard_load_def)
  from k(1) show "0 < shard_load w asg i"
  proof (induction asg)
    case (Cons item asg)
    then show ?case
      using nonneg[of asg] k(2) w by (cases item) (auto simp: shard_load_def add_pos_nonneg add_nonneg_pos)
  qed simp
qed

text \<open>
  the dynamic matrix of a well-formed plan starts every shard that has work: the owner of a key with a
  positive weight is listed, and only shards of the plan are.
\<close>

theorem matrix_starts_every_loaded_shard:
  assumes "valid_plan plan" and "\<And>k. 0 \<le> weight_in (Some (sp_weights plan)) k"
    and "(k, i) \<in> set (sp_assignment plan)" and "0 < weight_in (Some (sp_weights plan)) k"
  shows "\<exists>shards. matrix_for_plan plan = Inr shards \<and> nat i \<in> set shards \<and>
           list_all (\<lambda>s. int s < sp_num_shards plan) shards"
proof -
  let ?n = "nat (sp_num_shards plan)" and ?w = "weight_in (Some (sp_weights plan))"
  have "map_of (sp_weights plan) e \<noteq> None" if "(e, j) \<in> set (sp_assignment plan)" for e j
  proof -
    have "fst ` set (sp_assignment plan) = fst ` set (sp_weights plan)"
      using assms(1) by (simp add: valid_plan_def)
    moreover have "e \<in> fst ` set (sp_assignment plan)"
      using that by force
    ultimately show ?thesis
      by (simp add: map_of_eq_None_iff)
  qed
  then have "list_all (\<lambda>(k, i). 0 \<le> i \<and> i < int (length (replicate ?n (0::rat))) \<and> map_of (sp_weights plan) k \<noteq> None)
      (sp_assignment plan)"
    using assms(1) by (auto simp: valid_plan_def list_all_iff)
  from add_loads[OF this] obtain r where r: "foldE (add_load (sp_weights plan)) (sp_assignment plan) (replicate ?n 0) = Inr r"
      "length r = ?n" "\<forall>i<?n. r ! i = shard_load ?w (sp_assignment plan) i"
    by auto
  have i: "0 \<le> i" "nat i < ?n"
    using assms(1,3) by (auto simp: valid_plan_def list_all_iff)
  then have "0 < r ! nat i"
    using r(3) shard_load_positive[of k "nat i" "sp_assignment plan" ?w] assms(2-4) by simp
  with r(1,2) i show ?thesis
    by (auto simp: matrix_for_plan_def list_all_iff)
qed

subsection \<open>A concrete backlog\<close>

definition demo_backlog_record :: "string \<Rightarrow> rat \<Rightarrow> pydict" where
  "demo_backlog_record uid seconds =
     [(''uid'', JStr uid), (''source_duration_seconds'', JFloat seconds),
      (''audio'', JObj [(''key'', JStr ''k''), (''url'', JStr ''u''), (''spec_hash'', JStr ''h'')])]"

definition demo_city :: "string \<Rightarrow> plan_city" where
  "demo_city key = \<lparr>pc_source_id = Some key, pc_provider = ''granicus'', pc_source = [], pc_entity = None,
     pc_asr_enabled = True\<rparr>"

definition demo_plan_ctx :: plan_ctx where
  "demo_plan_ctx =
     \<lparr>px_digests = \<lparr>dg_sha1_12 = id, dg_dumps = (\<lambda>_. '''')\<rparr>,
      px_records = (\<lambda>key. if key = ''s1'' then Some [(''u1'', demo_backlog_record ''u1'' 3600),
                                                     (''u2'', demo_backlog_record ''u2'' 60)]
                          else if key = ''s2'' then Some [(''u1'', demo_backlog_record ''u1'' 3600)]
                          else None),
      px_recipe = (\<lambda>_ _. ''r''),
      px_route = (\<lambda>_. \<lparr>rx_version = ''1'', rx_max_hours = 4, rx_classifier = None, rx_stale = None, rx_now = 0\<rparr>),
      px_audio_work = (\<lambda>_ _. Inr 1),
      px_fingerprint = ''f''\<rparr>"

definition demo_plan :: shard_plan where
  "demo_plan =
     \<lparr>sp_lane = ''transcribe'', sp_num_shards = 2,
      sp_assignment = [(''s1/u1'', 0), (''s2/u1'', 0), (''s1/u2'', 1)],
      sp_weights = [(''s1/u1'', 3600), (''s2/u1'', 0), (''s1/u2'', 60)],
      sp_unit = ''episode'', sp_fingerprint = Some ''f'', sp_version = 2\<rparr>"

lemma demo_plan_created:
  "create_shard_plan demo_plan_ctx [demo_city ''s1'', demo_city ''s2''] ''transcribe'' 2 = Inr demo_plan"
  by code_simp

definition demo_rows :: "(string \<times> string \<times> rat) list list" where
  "demo_rows = [[(''u1/r'', ''s1/u1'', 3600), (''u2/r'', ''s1/u2'', 60)], [(''u1/r'', ''s2/u1'', 3600)]]"

lemma demo_rows:
  "mapE (pending_of_source demo_plan_ctx)
     (source_cities (px_digests demo_plan_ctx) [demo_city ''s1'', demo_city ''s2'']) = Inr demo_rows"
  by code_simp

theorem shard_assignment_balanced_witness:
  "spread_le 2 (weight_in (Some [(''a'', 3), (''b'', 2), (''c'', 2)])) 3 [(''a'', 0), (''b'', 1), (''c'', 1)]"
proof -
  have "shard_assignment [''a'', ''b'', ''c''] 2 (Some [(''a'', 3), (''b'', 2), (''c'', 2)]) =
          Inr [(''a'', 0), (''b'', 1), (''c'', 1)]"
    by code_simp
  from shard_assignment_balanced[OF this] show ?thesis
    by (simp add: weight_in_def)
qed

theorem equal_weights_spread_evenly_witness:
  "shard_count [(''a'', 0), (''b'', 1), (''c'', 0)] 0 \<le> Suc (shard_count [(''a'', 0), (''b'', 1), (''c'', 0)] 1)"
proof -
  have "shard_assignment [''a'', ''b'', ''c''] 2 None = Inr [(''a'', 0), (''b'', 1), (''c'', 0)]"
    by code_simp
  from equal_weights_spread_evenly[OF this, of 1 0 1] show ?thesis
    by (simp add: weight_in_def)
qed

theorem created_plan_is_read_back_witness:
  "load_shard_plan (Some (save_shard_plan demo_plan)) = Inr (sorted_plan demo_plan)"
  using created_plan_is_read_back[OF demo_plan_created] by (simp add: demo_plan_ctx_def)

theorem each_shard_reads_its_part_witness:
  "shard_owns (sorted_plan demo_plan) 2 [''s1'', ''s2''] 1 ''s1'' ''u2'' \<and>
   \<not> shard_owns (sorted_plan demo_plan) 2 [''s1'', ''s2''] 1 ''s2'' ''u1''"
proof -
  have known: "list_all (\<lambda>(k, _). fst (split_episode_key k) \<in> set [''s1'', ''s2'']) (sp_assignment demo_plan)"
    by code_simp
  have fp: "px_fingerprint demo_plan_ctx \<noteq> ''''"
    by (simp add: demo_plan_ctx_def)
  have read: "load_shard_plan (Some (save_shard_plan demo_plan)) = Inr (sorted_plan demo_plan)"
    by code_simp
  have "map_of (sp_assignment demo_plan) (episode_key ''s1'' ''u2'') = Some 1"
    "map_of (sp_assignment demo_plan) (episode_key ''s2'' ''u1'') = Some 0"
    by code_simp+
  with each_shard_reads_its_part[OF demo_plan_created fp known, of 1 "''s1''" "''u2''"]
    each_shard_reads_its_part[OF demo_plan_created fp known, of 1 "''s2''" "''u1''"] read
  show ?thesis
    by simp
qed

theorem same_inference_same_shard_witness:
  "\<exists>i. map_of (sp_assignment demo_plan) ''s1/u1'' = Some i \<and> map_of (sp_assignment demo_plan) ''s2/u1'' = Some i"
proof -
  have "distinct (map (fst \<circ> snd) (concat demo_rows))" "(''u1/r'', ''s1/u1'', 3600) \<in> set (concat demo_rows)"
    "(''u1/r'', ''s2/u1'', 3600) \<in> set (concat demo_rows)"
    by (simp_all add: demo_rows_def)
  from same_inference_same_shard[OF demo_plan_created demo_rows this] show ?thesis
    by blast
qed

theorem matrix_starts_every_loaded_shard_witness:
  "\<exists>shards. matrix_for_plan demo_plan = Inr shards \<and> 1 \<in> set shards"
proof -
  have "valid_plan demo_plan"
    using created_plan_valid[OF demo_plan_created] by simp
  moreover have "0 \<le> weight_in (Some (sp_weights demo_plan)) k" for k
    by (simp add: demo_plan_def weight_in_def)
  moreover have "(''s1/u2'', 1) \<in> set (sp_assignment demo_plan)"
    "0 < weight_in (Some (sp_weights demo_plan)) ''s1/u2''"
    by (simp_all add: demo_plan_def weight_in_def)
  ultimately show ?thesis
    using matrix_starts_every_loaded_shard[of demo_plan "''s1/u2''" 1] by auto
qed

end
