(* ===== verification/Compute_Dispatch.thy ===== *)
theory Compute_Dispatch
  imports Compute_Budget Work_Queue Work_Leases Record_Merge
begin

section \<open>Dispatch of inference jobs and reconciliation (compute/dispatch.py)\<close>

text \<open>
  \<open>DispatchCoordinator\<close> hands jobs to external GPU backends as long as their monthly budget and their slots
  allow it; \<open>reconcile_compute\<close> settles or reaps, at the start of the next run, what was handed out. Both
  work on the durable ledger of \<open>Compute_Budget\<close>, the queue items of \<open>Work_Queue\<close> and the lease objects of
  \<open>Work_Leases\<close>.

  No dispatch backend is part of the repository: a backend is the record of what the code uses of one,
  its name, its estimate and the reply to one submission (each call brings its own). The coordinator is a
  record, passed and returned; where a method raises, what it did to the coordinator before is dropped, which
  is only its copy of the ledger, read again before the next use. The lock serializes the calls on one
  coordinator, so a call is one program. The synchronous \<open>local\<close> backend is the caller's.
\<close>

definition REAPABLE_WORK_CLASSES :: "string list" where
  "REAPABLE_WORK_CLASSES = filter (\<lambda>c. c \<noteq> ''audio'') WORK_CLASSES"

definition ASR_WORK_CLASSES :: "string list" where
  "ASR_WORK_CLASSES = [''transcript-asr'', ''transcript-asr-comparison'']"

definition ALIGN_WORK_CLASSES :: "string list" where
  "ALIGN_WORK_CLASSES = [''transcript-align'', ''provider-transcript-align'']"

definition DEFAULT_LEASE_TTL_SECONDS :: rat where "DEFAULT_LEASE_TTL_SECONDS = 6 * 3600"

text \<open>\<open>max_attempts\<close> of the budget operations.\<close>

definition BUDGET_ATTEMPTS :: nat where "BUDGET_ATTEMPTS = 8"

subsection \<open>Backends\<close>

record inference_job =
  ij_task :: string
  ij_inputs :: pydict
  ij_recipe_hash :: string

record job_handle =
  jh_backend :: string
  jh_ref :: string

datatype inference_reply = Handle job_handle | Finished

definition lease_owner_for :: "job_handle \<Rightarrow> string" where
  "lease_owner_for h = jh_backend h @ '':'' @ jh_ref h"

record dispatch_backend =
  db_name :: string
  db_estimate_gpu_seconds :: "inference_job \<Rightarrow> rat"
  db_run_inference :: "inference_job \<Rightarrow> exn + inference_reply"

record dispatch_target =
  dt_backend :: "dispatch_backend"
  dt_monthly_gpu_seconds :: rat
  dt_max_inflight :: int

text \<open>\<open>available\<close> zeroes the ledger of a past month on its way, so the budget is returned too.\<close>

primrec select_backend :: "inference_job \<Rightarrow> dispatch_target list \<Rightarrow> budget \<Rightarrow> dispatch_target option \<times> budget" where
  "select_backend job [] b = (None, b)"
| "select_backend job (t # ts) b =
     (case available (db_name (dt_backend t)) (dt_monthly_gpu_seconds t) (dt_max_inflight t)
             (db_estimate_gpu_seconds (dt_backend t) job) None b of
        (ok, b') \<Rightarrow> if ok then (Some t, b') else select_backend job ts b')"

subsection \<open>The coordinator\<close>

type_synonym leases = "(item_id \<times> string \<times> datetime option) list"

record coordinator =
  co_targets :: "dispatch_target list"
  co_cas :: bool
  co_budget :: budget
  co_budget_file :: "blob option"
  co_lease_ttl :: rat
  co_leases :: leases

definition new_coordinator ::
  "dispatch_target list \<Rightarrow> bool \<Rightarrow> budget \<Rightarrow> blob option \<Rightarrow> rat \<Rightarrow> coordinator io" where
  "new_coordinator targets cas budget file ttl =
     bind (if cas then bind load_budget_cas (\<lambda>(b, _). Ret b) else Ret budget) (\<lambda>b.
       Ret \<lparr>co_targets = targets, co_cas = cas, co_budget = b, co_budget_file = file,
            co_lease_ttl = ttl, co_leases = []\<rparr>)"

definition dispatch_enabled :: "coordinator \<Rightarrow> bool" where
  "dispatch_enabled co \<longleftrightarrow> co_targets co \<noteq> []"

text \<open>Comparing a naive expiry with the clock raises.\<close>

definition expires_later :: "datetime option \<Rightarrow> instant \<Rightarrow> exn + bool" where
  "expires_later expires now =
     (case expires of
        None \<Rightarrow> Inr False
      | Some (Aware t) \<Rightarrow> Inr (now < t)
      | Some (Naive t) \<Rightarrow> Inl TypeError)"

definition seed_lease :: "instant \<Rightarrow> work_item \<Rightarrow> leases \<Rightarrow> exn + leases" where
  "seed_lease now wi leases =
     bindE (is_leased wi now) (\<lambda>held.
       Inr (if held then AList.update (item_id wi) (wi_lease_owner wi, wi_lease_expires wi) leases else leases))"

definition seed_leases :: "work_item list \<Rightarrow> instant \<Rightarrow> coordinator \<Rightarrow> exn + coordinator" where
  "seed_leases items now co =
     bindE (foldE (seed_lease now) items (co_leases co)) (\<lambda>ls. Inr (co\<lparr>co_leases := ls\<rparr>))"

definition is_inflight :: "coordinator \<Rightarrow> item_id \<Rightarrow> instant \<Rightarrow> exn + bool" where
  "is_inflight co key now =
     (case map_of (co_leases co) key of None \<Rightarrow> Inr False | Some (owner, expires) \<Rightarrow> expires_later expires now)"

definition keep_live :: "instant \<Rightarrow> item_id \<times> string \<times> datetime option \<Rightarrow> leases \<Rightarrow> exn + leases" where
  "keep_live now entry live =
     bindE (expires_later (snd (snd entry)) now) (\<lambda>later. Inr (if later then live @ [entry] else live))"

definition live_leases :: "coordinator \<Rightarrow> instant \<Rightarrow> exn + leases" where
  "live_leases co now = foldE (keep_live now) (co_leases co) []"

definition flush_coordinator :: "coordinator \<Rightarrow> coordinator" where
  "flush_coordinator co =
     (if co_cas co then co else co\<lparr>co_budget_file := Some (serialize_budget (co_budget co))\<rparr>)"

subsection \<open>Dispatching one job\<close>

text \<open>The item leased to the owner, and the coordinator that remembers it.\<close>

definition record_dispatch ::
  "job_handle \<Rightarrow> string \<Rightarrow> instant \<Rightarrow> work_item \<Rightarrow> coordinator \<Rightarrow>
   job_handle option \<times> work_item \<times> coordinator" where
  "record_dispatch handle owner now item co =
     (let item' = lease_item item owner (co_lease_ttl co) now
      in (Some handle, item',
          co\<lparr>co_leases := AList.update (item_id item) (owner, wi_lease_expires item') (co_leases co)\<rparr>))"

text \<open>With a compare-and-swap store: reserve, submit, and give the reservation back when that fails.\<close>

definition dispatch_reserved ::
  "dispatch_target \<Rightarrow> inference_job \<Rightarrow> string \<Rightarrow> instant \<Rightarrow> work_item \<Rightarrow> coordinator \<Rightarrow>
   (job_handle option \<times> work_item \<times> coordinator) io" where
  "dispatch_reserved target job hex now item co =
     (let backend = dt_backend target; owner = db_name backend @ '':'' @ hex in
      bind (reserve_if_available owner (db_name backend) (db_estimate_gpu_seconds backend job)
              (dt_monthly_gpu_seconds target) (dt_max_inflight target) None (Some now) BUDGET_ATTEMPTS) (\<lambda>won.
        if \<not> won then Ret (None, item, co)
        else
          (case db_run_inference backend job of
             Inl e \<Rightarrow>
               bind (release_reservation owner (db_name backend) None (Some now) BUDGET_ATTEMPTS) (\<lambda>_. Raise e)
           | Inr Finished \<Rightarrow>
               bind (release_reservation owner (db_name backend) None (Some now) BUDGET_ATTEMPTS)
                 (\<lambda>_. Ret (None, item, co))
           | Inr (Handle h) \<Rightarrow>
               bind load_budget_cas (\<lambda>(b, _). Ret (record_dispatch h owner now item (co\<lparr>co_budget := b\<rparr>))))))"

text \<open>Without one: submit, then reserve in the local ledger and save it.\<close>

definition dispatch_unshared ::
  "dispatch_target \<Rightarrow> inference_job \<Rightarrow> instant \<Rightarrow> work_item \<Rightarrow> coordinator \<Rightarrow>
   (job_handle option \<times> work_item \<times> coordinator) io" where
  "dispatch_unshared target job now item co =
     (case db_run_inference (dt_backend target) job of
        Inl e \<Rightarrow> Raise e
      | Inr Finished \<Rightarrow> Ret (None, item, co)
      | Inr (Handle h) \<Rightarrow>
          (let owner = lease_owner_for h;
               b = reserve owner (jh_backend h) (db_estimate_gpu_seconds (dt_backend target) job) None (co_budget co)
           in Ret (record_dispatch h owner now item
                (co\<lparr>co_budget := b, co_budget_file := Some (serialize_budget b)\<rparr>))))"

text \<open>\<open>hex\<close> is \<open>uuid.uuid4().hex\<close>.\<close>

definition try_dispatch ::
  "string \<Rightarrow> work_item \<Rightarrow> inference_job \<Rightarrow> instant option \<Rightarrow> coordinator \<Rightarrow>
   (job_handle option \<times> work_item \<times> coordinator) io" where
  "try_dispatch hex item job now_arg co =
     bind (now_or_clock now_arg) (\<lambda>now.
     bind (if co_cas co then bind load_budget_cas (\<lambda>(b, _). Ret (roll_month now b)) else Ret (co_budget co)) (\<lambda>b.
       case select_backend job (co_targets co) b of
         (None, b') \<Rightarrow> Ret (None, item, co\<lparr>co_budget := b'\<rparr>)
       | (Some target, b') \<Rightarrow>
           if co_cas co then dispatch_reserved target job hex now item (co\<lparr>co_budget := b'\<rparr>)
           else dispatch_unshared target job now item (co\<lparr>co_budget := b'\<rparr>)))"

subsection \<open>Is the artifact in the bucket?\<close>

text \<open>
  What the probe sees of the artifact objects: the keys a listing yields before it ends or fails (a failure
  after the last key ends the loop with the same answer), whether an object exists and the content of a
  download. A run of the reconciler sees one view. \<open>None\<close> stands for no storage, or one without \<open>list_objects\<close>.
\<close>

record object_view =
  ov_list_objects :: "string \<Rightarrow> string list"
  ov_exists :: "string \<Rightarrow> exn + bool"
  ov_get_file :: "(string \<Rightarrow> exn + blob option) option"

text \<open>A row of a word sidecar is usable when it is timed forwards and has text.\<close>

definition number_of :: "json \<Rightarrow> rat option" where
  "number_of j = (case j of JInt n \<Rightarrow> Some (of_int n) | JFloat q \<Rightarrow> Some q | _ \<Rightarrow> None)"

definition timed_word :: "json \<Rightarrow> bool" where
  "timed_word row =
     (case row of
        JObj r \<Rightarrow>
          (case (number_of (dget r ''start'' (dget r ''s'' JNull)), number_of (dget r ''end'' (dget r ''e'' JNull)),
                 text_of_json (dget r ''word'' (dget r ''w'' (dget r ''text'' (JStr ''''))))) of
             (Some a, Some b, Some text) \<Rightarrow> py_strip text \<noteq> '''' \<and> a < b
           | _ \<Rightarrow> False)
      | _ \<Rightarrow> False)"

definition json_list :: "json \<Rightarrow> json list" where
  "json_list j = (case j of JList xs \<Rightarrow> xs | _ \<Rightarrow> [])"

definition segment_words :: "json \<Rightarrow> json list" where
  "segment_words seg = (case seg of JObj s \<Rightarrow> json_list (dget s ''words'' JNull) | _ \<Rightarrow> [])"

definition first_truthy :: "json \<Rightarrow> json \<Rightarrow> json" where
  "first_truthy a b = (if py_truthy a then a else b)"

definition word_rows :: "pydict \<Rightarrow> exn + json list" where
  "word_rows words =
     (let rows = json_list (first_truthy (dget words ''word_segments'' JNull) (dget words ''words'' JNull)) in
      if rows \<noteq> [] then Inr rows
      else
        bindE (if py_truthy (dget words ''segments'' JNull) then py_iter (dget words ''segments'' JNull) else Inr [])
          (\<lambda>segments. Inr (concat (map segment_words segments))))"

definition has_valid_timed_words :: "blob \<Rightarrow> exn + bool" where
  "has_valid_timed_words payload =
     (case json_loads payload of
        Inl e \<Rightarrow> Inr False
      | Inr (JObj words) \<Rightarrow> bindE (word_rows words) (\<lambda>rows. Inr (list_ex timed_word rows))
      | Inr _ \<Rightarrow> Inr False)"

definition artifact_prefixes :: "string \<Rightarrow> string list \<Rightarrow> string list" where
  "artifact_prefixes uid classes =
     (if \<exists>c\<in>set classes. c \<in> set ASR_WORK_CLASSES then [uid @ ''-asr-''] else []) @
     (if \<exists>c\<in>set classes. c \<in> set ALIGN_WORK_CLASSES then [uid @ ''-provider-align-''] else []) @
     (if ''provider-transcript-diarize'' \<in> set classes then [uid @ ''-provider-diarize-''] else [])"

text \<open>The sidecar of a transcript exists, downloads and holds timed words.\<close>

definition words_present :: "object_view \<Rightarrow> string \<Rightarrow> exn + bool" where
  "words_present ov key =
     (let words_key = take (length key - 4) key @ ''.words.json'' in
      bindE (ov_exists ov words_key) (\<lambda>there.
        if \<not> there then Inr False
        else
          (case ov_get_file ov of
             None \<Rightarrow> Inr False
           | Some get_file \<Rightarrow>
               bindE (get_file words_key) (\<lambda>got.
                 case got of None \<Rightarrow> Inr False | Some payload \<Rightarrow> has_valid_timed_words payload))))"

primrec scan_artifacts :: "object_view \<Rightarrow> string list \<Rightarrow> bool \<Rightarrow> string list \<Rightarrow> exn + bool" where
  "scan_artifacts ov prefixes needs_words [] = Inr False"
| "scan_artifacts ov prefixes needs_words (key # keys) =
     (let fname = last_path_part key in
      if list_ex (py_startswith fname) prefixes \<and> py_endswith fname ''.vtt'' then
        (if needs_words
         then bindE (words_present ov key)
                (\<lambda>ok. if ok then Inr True else scan_artifacts ov prefixes needs_words keys)
         else Inr True)
      else scan_artifacts ov prefixes needs_words keys)"

definition transcript_artifact_present :: "object_view option \<Rightarrow> string \<Rightarrow> string \<Rightarrow> string list \<Rightarrow> bool" where
  "transcript_artifact_present storage src_key uid work_classes =
     (case storage of
        None \<Rightarrow> False
      | Some ov \<Rightarrow>
          (let classes = (if work_classes = [] then [''transcript-asr''] else work_classes);
               prefixes = artifact_prefixes uid classes
           in if prefixes = [] then False
              else
                (case scan_artifacts ov prefixes
                        (\<exists>c\<in>set classes. c \<in> set (ASR_WORK_CLASSES @ ALIGN_WORK_CLASSES))
                        (ov_list_objects ov (''transcripts/'' @ src_key @ ''/'')) of
                   Inl e \<Rightarrow> False
                 | Inr b \<Rightarrow> b)))"

subsection \<open>Reconciliation\<close>

text \<open>\<open>owner.split(":", 1)[0]\<close>\<close>

definition owner_backend :: "string \<Rightarrow> string" where
  "owner_backend owner = takeWhile (\<lambda>c. c \<noteq> CHR '':'') owner"

datatype budget_op = Settle_Op string string "rat option" | Release_Op string string

definition bare_settlement :: "rat option \<Rightarrow> settle_args" where
  "bare_settlement actual =
     \<lparr>sa_actual = actual, sa_cycle = None, sa_estimate_key = None, sa_audio_seconds = None,
      sa_actual_runtime = None, sa_estimated_runtime = None\<rparr>"

fun apply_op :: "instant \<Rightarrow> budget_op \<Rightarrow> budget \<Rightarrow> budget" where
  "apply_op now (Settle_Op owner backend actual) b = settle owner backend (bare_settlement actual) now b"
| "apply_op now (Release_Op owner backend) b = release_budget owner backend None b"

definition apply_ops :: "budget_op list \<Rightarrow> instant \<Rightarrow> budget \<Rightarrow> budget" where
  "apply_ops ops now b = fold (apply_op now) ops b"

record reconcile_state =
  rs_items :: "work_item list"
  rs_ops :: "budget_op list"
  rs_reaped :: nat
  rs_settled :: nat
  rs_in_flight :: nat

definition settle_item :: "work_item \<Rightarrow> reconcile_state \<Rightarrow> reconcile_state" where
  "settle_item wi st =
     st\<lparr>rs_items := rs_items st @ [(release_item wi)\<lparr>wi_state := ''done''\<rparr>],
        rs_ops := rs_ops st @
          [Settle_Op (wi_lease_owner wi) (owner_backend (wi_lease_owner wi))
             (if 0 < wi_observed_seconds wi then Some (wi_observed_seconds wi) else None)],
        rs_settled := Suc (rs_settled st)\<rparr>"

definition reap_item :: "work_item \<Rightarrow> reconcile_state \<Rightarrow> reconcile_state" where
  "reap_item wi st =
     st\<lparr>rs_items := rs_items st @ [(release_item wi)\<lparr>wi_state := ''queued''\<rparr>],
        rs_ops := rs_ops st @ [Release_Op (wi_lease_owner wi) (owner_backend (wi_lease_owner wi))],
        rs_reaped := Suc (rs_reaped st)\<rparr>"

definition keep_item :: "work_item \<Rightarrow> reconcile_state \<Rightarrow> reconcile_state" where
  "keep_item wi st = st\<lparr>rs_items := rs_items st @ [wi]\<rparr>"

definition reconcile_item ::
  "object_view option \<Rightarrow> instant \<Rightarrow> work_item \<Rightarrow> reconcile_state \<Rightarrow> exn + reconcile_state" where
  "reconcile_item objects now wi st =
     (if wi_lease_owner wi = '''' then Inr (keep_item wi st)
      else if transcript_artifact_present objects (wi_source_key wi) (wi_episode_uid wi) [wi_work_class wi]
      then Inr (settle_item wi st)
      else
        bindE (is_leased wi now) (\<lambda>held.
          Inr (if held then (keep_item wi st)\<lparr>rs_in_flight := Suc (rs_in_flight st)\<rparr> else reap_item wi st)))"

definition reconcile_items ::
  "object_view option \<Rightarrow> instant \<Rightarrow> work_item list \<Rightarrow> exn + reconcile_state" where
  "reconcile_items objects now items =
     foldE (reconcile_item objects now) items
       \<lparr>rs_items = [], rs_ops = [], rs_reaped = 0, rs_settled = 0, rs_in_flight = 0\<rparr>"

text \<open>The files of the state directory that are read and written.\<close>

record state_dir =
  sd_manifest :: "blob option"
  sd_budget :: "blob option"

definition write_ledger ::
  "bool \<Rightarrow> budget_op list \<Rightarrow> instant \<Rightarrow> state_dir \<Rightarrow> state_dir io" where
  "write_ledger cas ops now dir =
     (if cas then bind (mutate_budget (apply_ops ops) (Some now) BUDGET_ATTEMPTS) (\<lambda>_. Ret dir)
      else
        bind utc_now (\<lambda>t.
          Ret (dir\<lparr>sd_budget :=
            Some (serialize_budget (apply_ops ops now (roll_month now (load_budget (month_key t) (sd_budget dir)))))\<rparr>)))"

text \<open>The first half: the queue items and the ledger.\<close>

definition reconcile_manifest ::
  "object_view option \<Rightarrow> bool \<Rightarrow> instant \<Rightarrow> state_dir \<Rightarrow> (reconcile_state \<times> state_dir) io" where
  "reconcile_manifest objects cas now dir =
     bind (liftE (load_manifest (sd_manifest dir))) (\<lambda>items.
     bind (liftE (reconcile_items objects now items)) (\<lambda>st.
     bind (write_ledger cas (rs_ops st) now dir) (\<lambda>dir'.
       Ret (st, if rs_settled st + rs_reaped st = 0 then dir'
                else dir'\<lparr>sd_manifest := Some (save_manifest (rs_items st))\<rparr>))))"

text \<open>The second half: the lease objects of the items that are not done.\<close>

definition reapable :: "work_item \<Rightarrow> bool" where
  "reapable wi \<longleftrightarrow> wi_work_class wi \<in> set REAPABLE_WORK_CLASSES \<and> wi_state wi \<noteq> ''done''"

definition reap_candidates :: "work_item list \<Rightarrow> (string \<times> string) list" where
  "reap_candidates items = map (\<lambda>wi. (wi_source_key wi, wi_episode_uid wi)) (filter reapable items)"

definition work_classes_by_key :: "work_item list \<Rightarrow> string \<Rightarrow> string \<Rightarrow> string list" where
  "work_classes_by_key items source_key uid =
     map wi_work_class
       (filter (\<lambda>wi. reapable wi \<and> wi_source_key wi = source_key \<and> wi_episode_uid wi = uid) items)"

definition sweep_leases ::
  "(string \<Rightarrow> nat) \<Rightarrow> object_view option \<Rightarrow> bool \<Rightarrow> instant \<Rightarrow> work_item list \<Rightarrow> reap_counts io" where
  "sweep_leases sha objects use_lease_index now items =
     (let artifact_present = (\<lambda>source_key uid.
            Ret (transcript_artifact_present objects source_key uid (work_classes_by_key items source_key uid)));
          on_completed = Some (\<lambda>owner.
            forget (settle_reservation owner (owner_backend owner) (bare_settlement None) (Some now) BUDGET_ATTEMPTS));
          on_requeued = Some (\<lambda>owner.
            forget (release_reservation owner (owner_backend owner) None (Some now) BUDGET_ATTEMPTS))
      in if use_lease_index then
           bind (reap_indexed sha artifact_present on_completed on_requeued (Some now) False INDEX_BUCKET_COUNT
                   (Some (reap_candidates items)) (Some (integrity_partition_for now))) (\<lambda>r. Ret (ir_counts r))
         else reap (reap_candidates items) artifact_present on_completed on_requeued (Some now) False)"

record reconcile_summary =
  cr_reaped :: nat
  cr_settled :: nat
  cr_in_flight :: nat
  cr_leases :: reap_counts

text \<open>An exception of the sweep leaves the files the first half wrote.\<close>

definition reconcile_compute ::
  "(string \<Rightarrow> nat) \<Rightarrow> object_view option \<Rightarrow> bool \<Rightarrow> instant option \<Rightarrow> bool \<Rightarrow> bool \<Rightarrow> state_dir \<Rightarrow>
   ((exn + reconcile_summary) \<times> state_dir) io" where
  "reconcile_compute sha objects cas now_arg sweep_work_leases use_lease_index dir =
     bind (now_or_clock now_arg) (\<lambda>now.
     bind (reconcile_manifest objects cas now dir) (\<lambda>(st, dir').
     bind (if cas \<and> sweep_work_leases then attempt (sweep_leases sha objects use_lease_index now (rs_items st))
           else Ret (Inr no_counts)) (\<lambda>swept.
       Ret (bindE swept (\<lambda>c.
              Inr \<lparr>cr_reaped = rs_reaped st, cr_settled = rs_settled st, cr_in_flight = rs_in_flight st, cr_leases = c\<rparr>),
            dir'))))"

definition requeue_failed_work_leases ::
  "(string \<Rightarrow> nat) \<Rightarrow> bool \<Rightarrow> string \<Rightarrow> instant option \<Rightarrow> bool \<Rightarrow> blob option \<Rightarrow> requeue_summary io" where
  "requeue_failed_work_leases sha cas work_class now_arg dry_run manifest =
     (if work_class \<notin> set REAPABLE_WORK_CLASSES then Raise ValueError
      else if \<not> cas then Raise (OtherError ''RuntimeError'')
      else
        bind (liftE (load_manifest manifest)) (\<lambda>items.
          requeue_failed sha
            (map (\<lambda>wi. (wi_source_key wi, wi_episode_uid wi))
               (filter (\<lambda>wi. wi_work_class wi = work_class \<and> wi_state wi \<noteq> ''done'') items))
            now_arg dry_run))"

end
