(* ===== verification/Dispatch_Properties.thy ===== *)
theory Dispatch_Properties
  imports Compute_Dispatch Budget_Properties Queue_Properties Work_Lease_Protocol
begin

section \<open>Dispatchers and reconcilers on one ledger\<close>

text \<open>
  Applying the ledger operations of a reconciliation twice is applying them once, so a second run changes
  nothing, whether the first one finished or died between its two writes. Any number of coordinators and
  reconcilers keep the shared ledger within its caps. A dispatched item carries the reservation's owner; a read
  that fails after the submission leaves a reservation nobody owns.
\<close>

subsection \<open>Ledger operations are idempotent\<close>

definition op_target :: "budget_op \<Rightarrow> string \<times> string" where
  "op_target op = (case op of Settle_Op owner backend actual \<Rightarrow> (owner, backend) | Release_Op owner backend \<Rightarrow> (owner, backend))"

lemma op_target_simps [simp]:
  "op_target (Settle_Op owner backend actual) = (owner, backend)" "op_target (Release_Op owner backend) = (owner, backend)"
  by (simp_all add: op_target_def)

text \<open>The backend has no reservation of the owner.\<close>

definition reserved :: "budget \<Rightarrow> string \<times> string \<Rightarrow> bool" where
  "reserved b ob \<longleftrightarrow> (\<exists>l. map_of (bg_backends b) (snd ob) = Some l \<and> map_of (bl_inflight l) (fst ob) \<noteq> None)"

lemma apply_op_absent: "\<not> reserved b (op_target op) \<Longrightarrow> apply_op now op b = b"
  by (cases op) (auto simp: reserved_def settle_def release_budget_def bare_settlement_def split: option.split)

lemma apply_op_ledgers:
  "map_of (bg_backends (apply_op now op b)) k =
     (if k = snd (op_target op) \<and> reserved b (op_target op)
      then map_of (bg_backends (apply_op now op b)) k else map_of (bg_backends b) k)"
  by (cases op)
     (auto simp: reserved_def settle_def release_budget_def bare_settlement_def put_ledger_def Let_def dict_simps
       split: option.split)

lemma apply_op_inflight:
  "map_of (bg_backends b) (snd (op_target op)) = Some l \<Longrightarrow> reserved b (op_target op) \<Longrightarrow>
   \<exists>l'. map_of (bg_backends (apply_op now op b)) (snd (op_target op)) = Some l' \<and>
        bl_inflight l' = AList.delete (fst (op_target op)) (bl_inflight l)"
  by (cases op)
     (auto simp: reserved_def settle_def release_budget_def bare_settlement_def put_ledger_def Let_def dict_simps
       split: option.split)

lemma reserved_after: "reserved (apply_op now op b) ob \<longleftrightarrow> reserved b ob \<and> ob \<noteq> op_target op"
proof (cases "snd ob = snd (op_target op) \<and> reserved b (op_target op)")
  case True
  then obtain l where l: "map_of (bg_backends b) (snd (op_target op)) = Some l"
    by (auto simp: reserved_def)
  obtain l' where "map_of (bg_backends (apply_op now op b)) (snd (op_target op)) = Some l'"
    and "bl_inflight l' = AList.delete (fst (op_target op)) (bl_inflight l)"
    using apply_op_inflight [OF l] True by blast
  then show ?thesis
    using l True by (auto simp: reserved_def dict_simps prod_eq_iff)
next
  case False
  then have "map_of (bg_backends (apply_op now op b)) (snd ob) = map_of (bg_backends b) (snd ob)"
    using apply_op_ledgers [of now op b "snd ob"] by auto
  then show ?thesis using False by (auto simp: reserved_def)
qed

lemma apply_ops_absent: "(\<And>op. op \<in> set ops \<Longrightarrow> \<not> reserved b (op_target op)) \<Longrightarrow> apply_ops ops now b = b"
  unfolding apply_ops_def by (induction ops) (simp_all add: apply_op_absent)

lemma reserved_after_all:
  "reserved (apply_ops ops now b) ob \<longleftrightarrow> reserved b ob \<and> ob \<notin> op_target ` set ops"
  unfolding apply_ops_def by (induction ops arbitrary: b) (auto simp: reserved_after)

lemma apply_ops_month: "bg_month (apply_ops ops now b) = bg_month b"
proof -
  have "bg_month (apply_op now op b) = bg_month b" for op b
    by (cases op) (auto simp: settle_def release_budget_def put_ledger_def bare_settlement_def Let_def
        split: option.split)
  then show ?thesis unfolding apply_ops_def by (induction ops arbitrary: b) simp_all
qed

lemma reserved_norm [simp]: "reserved (norm_budget cur b) ob \<longleftrightarrow> reserved b ob"
  by (auto simp: reserved_def norm_budget_backend norm_ledger_def dict_simps)

lemma apply_ops_twice: "apply_ops ops now' (norm_budget cur (apply_ops ops now b)) = norm_budget cur (apply_ops ops now b)"
  by (rule apply_ops_absent) (auto simp: reserved_after_all)

subsection \<open>Writing back what was read\<close>

lemma sort_key_idem: "sort_key f (sort_key f xs) = sort_key f xs"
  by (rule sort_key_id_if_sorted) simp

lemma jsort_idem: "jsort (jsort j) = jsort j"
proof (induction j)
  case (JObj kvs)
  then have "jsort (jsort (snd p)) = jsort (snd p)" if "p \<in> set kvs" for p
    using that by (cases p) (auto intro: snds.intros)
  then have "map (map_prod id jsort) (map (map_prod id jsort) (sort_key fst kvs)) = map (map_prod id jsort) (sort_key fst kvs)"
    by (auto simp: map_prod_def)
  then show ?case
    by (simp only: jsort.simps sort_key_map_prod sort_key_idem)
qed (auto simp: comp_def cong: map_cong)

text \<open>A dictionary whose values were replaced by ones that sort alike, and whose keys were sorted.\<close>

lemma sorted_again:
  "(\<And>v. jsort (f (g v)) = jsort (f v)) \<Longrightarrow>
   sort_key fst (map (map_prod id jsort) (map (map_prod id f) (map (map_prod id g) (sort_key fst xs)))) =
   sort_key fst (map (map_prod id jsort) (map (map_prod id f) xs))"
  by (simp only: sort_key_map_prod sort_key_idem) (auto simp: map_prod_def)

lemma jsort_ledger_norm: "jsort (ledger_to_json (norm_ledger l)) = jsort (ledger_to_json l)"
proof -
  have "sort_key fst (map (map_prod id jsort) (map (map_prod id JFloat) (sort_key fst xs))) =
      sort_key fst (map (map_prod id jsort) (map (map_prod id JFloat) xs))" for xs :: "(string \<times> rat) list"
    by (simp only: sort_key_map_prod sort_key_idem)
  then show ?thesis by (simp add: ledger_to_json_def norm_ledger_def del: map_map)
qed

lemma jsort_estimate_norm: "jsort (estimate_to_json (norm_estimate e)) = jsort (estimate_to_json e)"
  by (simp add: estimate_to_json_def norm_estimate_def jsort_idem)

lemma serialize_norm: "bg_month b \<noteq> '''' \<Longrightarrow> serialize_budget (norm_budget cur b) = serialize_budget b"
  unfolding serialize_budget_def dumps_sorted_def budget_to_dict_def norm_budget_def
  by (simp add: sorted_again [where f = ledger_to_json and g = norm_ledger, OF jsort_ledger_norm]
      sorted_again [where f = estimate_to_json and g = norm_estimate, OF jsort_estimate_norm] del: map_map)

subsection \<open>What a reconciliation does to the items\<close>

text \<open>An item a reconciliation leaves alone: unleased, or leased, unexpired and without its artifact.\<close>

definition artifact_of :: "object_view option \<Rightarrow> work_item \<Rightarrow> bool" where
  "artifact_of objects wi =
     transcript_artifact_present objects (wi_source_key wi) (wi_episode_uid wi) [wi_work_class wi]"

definition calm :: "object_view option \<Rightarrow> instant \<Rightarrow> work_item \<Rightarrow> bool" where
  "calm objects now wi \<longleftrightarrow>
     wi_lease_owner wi = '''' \<or> \<not> artifact_of objects wi \<and> is_leased wi now = Inr True"

definition leased_items :: "work_item list \<Rightarrow> nat" where
  "leased_items items = length (filter (\<lambda>wi. wi_lease_owner wi \<noteq> '''') items)"

lemma leased_items_snoc [simp]:
  "leased_items [] = 0"
  "leased_items (items @ [wi]) = (if wi_lease_owner wi = '''' then leased_items items else Suc (leased_items items))"
  by (simp_all add: leased_items_def)

text \<open>The invariant of the loop, for the items \<open>past\<close> it has passed.\<close>

definition settled_as :: "object_view option \<Rightarrow> instant \<Rightarrow> work_item \<Rightarrow> work_item \<Rightarrow> bool" where
  "settled_as objects now wi wi' \<longleftrightarrow>
     item_id wi' = item_id wi \<and> calm objects now wi' \<and>
     (if calm objects now wi then wi' = wi
      else wi_lease_owner wi' = '''' \<and> wi_state wi' = (if artifact_of objects wi then ''done'' else ''queued''))"

definition reconciled :: "object_view option \<Rightarrow> instant \<Rightarrow> work_item list \<Rightarrow> reconcile_state \<Rightarrow> bool" where
  "reconciled objects now past st \<longleftrightarrow>
     list_all2 (settled_as objects now) past (rs_items st) \<and>
     op_target ` set (rs_ops st) =
       (\<lambda>wi. (wi_lease_owner wi, owner_backend (wi_lease_owner wi))) ` {wi \<in> set past. \<not> calm objects now wi} \<and>
     length (rs_ops st) = rs_settled st + rs_reaped st \<and> rs_in_flight st = leased_items (rs_items st)"

lemma item_id_released: "item_id ((release_item wi)\<lparr>wi_state := s\<rparr>) = item_id wi"
  "wi_lease_owner ((release_item wi)\<lparr>wi_state := s\<rparr>) = ''''"
  by (simp_all add: item_id_def release_item_def)

lemma reconcile_item_calm:
  "calm objects now wi \<Longrightarrow> reconcile_item objects now wi st =
     Inr ((keep_item wi st)\<lparr>rs_in_flight := (if wi_lease_owner wi = '''' then rs_in_flight st else Suc (rs_in_flight st))\<rparr>)"
  by (auto simp: calm_def artifact_of_def reconcile_item_def bindE_def keep_item_def)

lemma reconcile_item_busy:
  assumes "\<not> calm objects now wi" and "reconcile_item objects now wi st = Inr st'"
  shows "st' = (if artifact_of objects wi then settle_item wi st else reap_item wi st)"
  using assms by (auto simp: calm_def artifact_of_def reconcile_item_def bindE_def split: sum.splits if_splits)

lemma reconciled_step:
  assumes "reconciled objects now past st" and "reconcile_item objects now wi st = Inr st'"
  shows "reconciled objects now (past @ [wi]) st'"
proof (cases "calm objects now wi")
  case True
  then have "st' = (keep_item wi st)\<lparr>rs_in_flight := (if wi_lease_owner wi = '''' then rs_in_flight st else Suc (rs_in_flight st))\<rparr>"
    using reconcile_item_calm assms(2) by simp
  moreover have "{w \<in> set (past @ [wi]). \<not> calm objects now w} = {w \<in> set past. \<not> calm objects now w}"
    using True by auto
  ultimately show ?thesis
    using assms(1) True by (simp add: reconciled_def keep_item_def list_all2_appendI settled_as_def)
next
  case False
  have set: "{w. (w = wi \<or> w \<in> set past) \<and> \<not> calm objects now w} = insert wi {w \<in> set past. \<not> calm objects now w}"
    using False by auto
  have c: "settled_as objects now wi ((release_item wi)\<lparr>wi_state := (if artifact_of objects wi then ''done'' else ''queued'')\<rparr>)"
  proof -
    have "calm objects now ((release_item wi)\<lparr>wi_state := s\<rparr>)" for s
      by (simp add: calm_def item_id_released)
    then show ?thesis using False by (simp add: settled_as_def item_id_released)
  qed
  have "st' = (if artifact_of objects wi then settle_item wi st else reap_item wi st)"
    by (rule reconcile_item_busy [OF False assms(2)])
  then show ?thesis
    using assms(1) c
    by (cases "artifact_of objects wi")
       (simp_all add: reconciled_def settle_item_def reap_item_def set item_id_released list_all2_appendI)
qed

lemma reconciled_fold:
  "reconciled objects now past st \<Longrightarrow> foldE (reconcile_item objects now) items st = Inr st' \<Longrightarrow>
   reconciled objects now (past @ items) st'"
proof (induction items arbitrary: past st)
  case (Cons wi items)
  then obtain st1 where "reconcile_item objects now wi st = Inr st1"
    and "foldE (reconcile_item objects now) items st1 = Inr st'"
    by (auto simp: bindE_Inr)
  with Cons.IH [OF reconciled_step [OF Cons.prems(1)]] show ?case by simp
qed simp

lemma reconcile_items_reconciled:
  "reconcile_items objects now items = Inr st \<Longrightarrow> reconciled objects now items st"
  using reconciled_fold [of objects now "[]" "\<lparr>rs_items = [], rs_ops = [], rs_reaped = 0, rs_settled = 0, rs_in_flight = 0\<rparr>"
      items st]
  by (simp add: reconcile_items_def) (simp add: reconciled_def)

lemma reconcile_calm_items:
  "list_all (calm objects now) items \<Longrightarrow>
   reconcile_items objects now items =
     Inr \<lparr>rs_items = items, rs_ops = [], rs_reaped = 0, rs_settled = 0, rs_in_flight = leased_items items\<rparr>"
proof -
  have "list_all (calm objects now) items \<Longrightarrow> foldE (reconcile_item objects now) items st =
      Inr (st\<lparr>rs_items := rs_items st @ items, rs_in_flight := rs_in_flight st + leased_items items\<rparr>)" for st
    by (induction items arbitrary: st) (simp_all add: reconcile_item_calm keep_item_def bindE_def leased_items_def)
  then show "list_all (calm objects now) items \<Longrightarrow> ?thesis"
    by (simp add: reconcile_items_def)
qed

lemma reconciled_calm: "reconciled objects now items st \<Longrightarrow> list_all (calm objects now) (rs_items st)"
  by (auto simp: reconciled_def settled_as_def list_all2_conv_all_nth list_all_length)

lemma reconciled_nothing:
  assumes "reconciled objects now items st" and "rs_settled st + rs_reaped st = 0"
  shows "rs_items st = items" and "rs_ops st = []"
proof -
  show ops: "rs_ops st = []" using assms by (simp add: reconciled_def)
  then have "list_all (calm objects now) items"
    using assms(1) by (auto simp: reconciled_def list_all_iff)
  with assms(1) show "rs_items st = items"
    by (auto simp: reconciled_def settled_as_def list_all2_conv_all_nth list_all_length intro: nth_equalityI)
qed

subsection \<open>Running a reconciliation twice\<close>

lemma run_load_budget:
  assumes "reliable_store ops view (\<lambda>_. True)"
  obtains s1 where "run ops t load_budget_cas s =
      (Inr (stored_budget t (view s BUDGET_STATE_KEY), map_option ETag (view s BUDGET_STATE_KEY)), s1)"
    and "view s1 = view s"
proof -
  let ?c = "view s BUDGET_STATE_KEY"
  obtain s1 where "op_get ops s BUDGET_STATE_KEY = (Inr (map_option (\<lambda>b. (b, ETag b)) ?c), s1)"
    and v1: "view s1 = view s"
    using reliable_store.get_cases [OF assms TrueI] by blast
  then have "run ops t load_budget_cas s = (Inr (stored_budget t ?c, map_option ETag ?c), s1)"
    by (cases ?c) (simp_all add: load_budget_cas_def io_simps utc_now_def stored_budget_def)
  then show thesis using v1 that by blast
qed

lemma run_mutate_budget:
  assumes "reliable_store ops view (\<lambda>_. True)"
    and "b' = f now (roll_month now (stored_budget t (view s BUDGET_STATE_KEY)))"
  obtains s' where "run ops t (mutate_budget f (Some now) (Suc n)) s = (Inr b', s')"
    and "view s' = (view s)(BUDGET_STATE_KEY := Some (serialize_budget b'))"
proof -
  let ?c = "view s BUDGET_STATE_KEY" and ?d = "serialize_budget b'"
  obtain s1 where load: "run ops t load_budget_cas s = (Inr (stored_budget t ?c, map_option ETag ?c), s1)"
    and v1: "view s1 = view s"
    by (rule run_load_budget [OF assms(1)])
  have "cond_holds (cond_of (map_option ETag ?c)) (view s1 BUDGET_STATE_KEY)"
    by (simp add: v1 cond_holds_current)
  then obtain s2 where "op_put ops s1 BUDGET_STATE_KEY ?d (cond_of (map_option ETag ?c)) = (Inr (ETag ?d), s2)"
    and "view s2 = (view s1)(BUDGET_STATE_KEY := Some ?d)"
    using reliable_store.put_cases [OF assms(1) TrueI] by metis
  with load v1 show thesis
    by (intro that [of s2]) (simp_all add: mutate_budget_def io_simps assms(2) Let_def)
qed

lemma month_of_roll: "bg_month (roll_month now b) = month_key now"
  by (auto simp: roll_month_def)

lemma roll_month_id: "bg_month b = month_key now \<Longrightarrow> roll_month now b = b"
  by (simp add: roll_month_def)

text \<open>The ledger a reconciliation leaves, and that reading it back changes nothing it would do again.\<close>

definition settled_ledger :: "budget_op list \<Rightarrow> instant \<Rightarrow> instant \<Rightarrow> blob option \<Rightarrow> budget" where
  "settled_ledger ops now t c = apply_ops ops now (roll_month now (stored_budget t c))"

lemma settled_again:
  assumes "ops' = [] \<or> ops' = ops"
  shows "serialize_budget (settled_ledger ops' now t' (Some (serialize_budget (settled_ledger ops now t c)))) =
     serialize_budget (settled_ledger ops now t c)"
proof -
  let ?b = "settled_ledger ops now t c"
  have m: "bg_month ?b = month_key now"
    by (simp add: settled_ledger_def apply_ops_month month_of_roll)
  then have "stored_budget t' (Some (serialize_budget ?b)) = norm_budget (month_key t') ?b"
    by (simp add: stored_budget_def budget_decode_serialize)
  moreover have "roll_month now (norm_budget (month_key t') ?b) = norm_budget (month_key t') ?b"
    by (rule roll_month_id) (simp add: norm_budget_def m month_key_nonempty)
  moreover have "apply_ops ops' now (norm_budget (month_key t') ?b) = norm_budget (month_key t') ?b"
    using assms apply_ops_twice by (auto simp: settled_ledger_def apply_ops_def)
  ultimately have "settled_ledger ops' now t' (Some (serialize_budget ?b)) = norm_budget (month_key t') ?b"
    by (simp add: settled_ledger_def [of ops'])
  then show ?thesis by (simp add: serialize_norm m month_key_nonempty)
qed

lemma run_reconcile_manifest:
  assumes "reliable_store ops view (\<lambda>_. True)"
    and "load_manifest (sd_manifest dir) = Inr items" and "reconcile_items objects now items = Inr st"
  obtains s' where "run ops t (reconcile_manifest objects True now dir) s =
      (Inr (st, if rs_settled st + rs_reaped st = 0 then dir
                else dir\<lparr>sd_manifest := Some (save_manifest (rs_items st))\<rparr>), s')"
    and "view s' = (view s)(BUDGET_STATE_KEY :=
           Some (serialize_budget (settled_ledger (rs_ops st) now t (view s BUDGET_STATE_KEY))))"
proof -
  obtain s' where "run ops t (mutate_budget (apply_ops (rs_ops st)) (Some now) (Suc 7)) s =
      (Inr (settled_ledger (rs_ops st) now t (view s BUDGET_STATE_KEY)), s')"
    and v: "view s' = (view s)(BUDGET_STATE_KEY :=
           Some (serialize_budget (settled_ledger (rs_ops st) now t (view s BUDGET_STATE_KEY))))"
    by (rule run_mutate_budget [where f = "apply_ops (rs_ops st)" and now = now and n = 7 and s = s and t = t,
          OF assms(1) settled_ledger_def])
  then have "run ops t (mutate_budget (apply_ops (rs_ops st)) (Some now) BUDGET_ATTEMPTS) s =
      (Inr (settled_ledger (rs_ops st) now t (view s BUDGET_STATE_KEY)), s')"
    by (simp add: BUDGET_ATTEMPTS_def eval_nat_numeral)
  then show thesis
    by (intro that [OF _ v]) (simp add: reconcile_manifest_def write_ledger_def io_simps assms(2,3))
qed

lemma run_reconcile_manifestD:
  assumes "run ops t (reconcile_manifest objects cas now dir) s = (Inr (st, dir'), s')"
  obtains items where "load_manifest (sd_manifest dir) = Inr items" and "reconcile_items objects now items = Inr st"
  using assms
  by (auto simp: reconcile_manifest_def io_simps split: sum.splits prod.splits)

text \<open>
  C7: reconciliation can be repeated. Run again on the files and the ledger it left, it settles and reaps
  nothing, counts the same jobs in flight and writes the ledger it finds; and when the first run died after the
  ledger was written and before \<open>work.json\<close> was, running it on the old manifest gives the files and the ledger an
  undisturbed run would have given: no reservation is returned or charged twice.
\<close>

theorem reconcile_repeatable:
  assumes store: "reliable_store ops view (\<lambda>_. True)"
    and first: "run ops t (reconcile_manifest objects True now dir) s = (Inr (st, dir'), s1)"
  shows "(\<exists>s2. run ops t' (reconcile_manifest objects True now dir') s1 =
            (Inr (\<lparr>rs_items = rs_items st, rs_ops = [], rs_reaped = 0, rs_settled = 0, rs_in_flight = rs_in_flight st\<rparr>, dir'), s2) \<and>
            view s2 = view s1) \<and>
         (\<exists>s2. run ops t' (reconcile_manifest objects True now dir) s1 = (Inr (st, dir'), s2) \<and> view s2 = view s1)"
proof -
  obtain items where items: "load_manifest (sd_manifest dir) = Inr items"
    and st: "reconcile_items objects now items = Inr st"
    by (rule run_reconcile_manifestD [OF first])
  note r = reconcile_items_reconciled [OF st]
  obtain s' where "run ops t (reconcile_manifest objects True now dir) s =
      (Inr (st, if rs_settled st + rs_reaped st = 0 then dir
                else dir\<lparr>sd_manifest := Some (save_manifest (rs_items st))\<rparr>), s')"
    and "view s' = (view s)(BUDGET_STATE_KEY :=
           Some (serialize_budget (settled_ledger (rs_ops st) now t (view s BUDGET_STATE_KEY))))"
    by (rule run_reconcile_manifest [OF store items st])
  with first have dir': "dir' = (if rs_settled st + rs_reaped st = 0 then dir
      else dir\<lparr>sd_manifest := Some (save_manifest (rs_items st))\<rparr>)"
    and v1: "view s1 = (view s)(BUDGET_STATE_KEY :=
           Some (serialize_budget (settled_ledger (rs_ops st) now t (view s BUDGET_STATE_KEY))))"
    by auto
  have same: "view s2 = view s1" if "ops' = [] \<or> ops' = rs_ops st"
    and "view s2 = (view s1)(BUDGET_STATE_KEY := Some (serialize_budget (settled_ledger ops' now t' (view s1 BUDGET_STATE_KEY))))"
    for s2 ops'
    using that(2) by (simp add: v1 settled_again [OF that(1)])
  let ?st = "\<lparr>rs_items = rs_items st, rs_ops = [], rs_reaped = 0, rs_settled = 0, rs_in_flight = rs_in_flight st\<rparr>"
  have items': "load_manifest (sd_manifest dir') = Inr (rs_items st)"
    using items reconciled_nothing [OF r] manifest_file_roundtrip by (simp add: dir')
  have "rs_in_flight st = leased_items (rs_items st)"
    using r by (simp add: reconciled_def)
  then have st': "reconcile_items objects now (rs_items st) = Inr ?st"
    using reconcile_calm_items [OF reconciled_calm [OF r]] by simp
  obtain s2 where "run ops t' (reconcile_manifest objects True now dir') s1 = (Inr (?st, dir'), s2)"
    and "view s2 = (view s1)(BUDGET_STATE_KEY := Some (serialize_budget (settled_ledger [] now t' (view s1 BUDGET_STATE_KEY))))"
    using run_reconcile_manifest [OF store items' st', of t' s1] by auto
  moreover obtain s3 where "run ops t' (reconcile_manifest objects True now dir) s1 = (Inr (st, dir'), s3)"
    and "view s3 = (view s1)(BUDGET_STATE_KEY := Some (serialize_budget (settled_ledger (rs_ops st) now t' (view s1 BUDGET_STATE_KEY))))"
    using run_reconcile_manifest [OF store items st, of t' s1] by (auto simp: dir')
  ultimately show ?thesis
    using same by blast
qed

text \<open>
  C15: what a reconciliation decides about each leased item of the manifest. With the artifact in the bucket, or
  without it when the lease has expired, the item comes back unleased, done or queued, in the manifest that is
  written, and its reservation is gone from the ledger; an unexpired lease without artifact is left as it was.
\<close>

theorem reconcile_settles_each_lease:
  assumes store: "reliable_store ops view (\<lambda>_. True)"
    and run: "run ops t (reconcile_manifest objects True now dir) s = (Inr (st, dir'), s1)"
    and items: "load_manifest (sd_manifest dir) = Inr items" and wi: "wi \<in> set items"
    and leased: "wi_lease_owner wi = owner" "owner \<noteq> ''''"
    and present: "present = transcript_artifact_present objects (wi_source_key wi) (wi_episode_uid wi) [wi_work_class wi]"
  shows "load_manifest (sd_manifest dir') = Inr (rs_items st) \<and>
    (if \<not> present \<and> is_leased wi now = Inr True then wi \<in> set (rs_items st)
     else (\<exists>wi'\<in>set (rs_items st). item_id wi' = item_id wi \<and> wi_lease_owner wi' = '''' \<and>
             wi_state wi' = (if present then ''done'' else ''queued'')) \<and>
          (\<forall>l. map_of (bg_backends (stored_budget t (view s1 BUDGET_STATE_KEY))) (owner_backend owner) = Some l \<longrightarrow>
             map_of (bl_inflight l) owner = None))"
proof -
  obtain st0 where "reconcile_items objects now items = Inr st0"
    and "st0 = st"
    using run_reconcile_manifestD [OF run] items by fastforce
  then have st: "reconcile_items objects now items = Inr st" by simp
  note r = reconcile_items_reconciled [OF st]
  obtain s' where "run ops t (reconcile_manifest objects True now dir) s =
      (Inr (st, if rs_settled st + rs_reaped st = 0 then dir
                else dir\<lparr>sd_manifest := Some (save_manifest (rs_items st))\<rparr>), s')"
    and "view s' = (view s)(BUDGET_STATE_KEY :=
           Some (serialize_budget (settled_ledger (rs_ops st) now t (view s BUDGET_STATE_KEY))))"
    by (rule run_reconcile_manifest [OF store items st])
  with run have dir': "dir' = (if rs_settled st + rs_reaped st = 0 then dir
      else dir\<lparr>sd_manifest := Some (save_manifest (rs_items st))\<rparr>)"
    and v1: "view s1 BUDGET_STATE_KEY =
           Some (serialize_budget (settled_ledger (rs_ops st) now t (view s BUDGET_STATE_KEY)))"
    by auto
  have saved: "load_manifest (sd_manifest dir') = Inr (rs_items st)"
    using items reconciled_nothing [OF r] manifest_file_roundtrip by (simp add: dir')
  obtain wi' where wi': "wi' \<in> set (rs_items st)" "settled_as objects now wi wi'"
    using r wi unfolding reconciled_def by (metis list_all2_conv_all_nth in_set_conv_nth)
  show ?thesis
  proof (cases "calm objects now wi")
    case True
    then show ?thesis
      using wi' saved leased present by (auto simp: settled_as_def calm_def artifact_of_def)
  next
    case False
    then have "(owner, owner_backend owner) \<in> op_target ` set (rs_ops st)"
      using r wi leased(1) by (auto simp: reconciled_def)
    then have "\<not> reserved (settled_ledger (rs_ops st) now t (view s BUDGET_STATE_KEY)) (owner, owner_backend owner)"
      by (simp add: settled_ledger_def reserved_after_all)
    then have "\<not> reserved (stored_budget t (view s1 BUDGET_STATE_KEY)) (owner, owner_backend owner)"
      by (simp add: v1 stored_budget_def budget_decode_serialize)
    then show ?thesis
      using False wi' saved leased present
      by (auto simp: reserved_def settled_as_def calm_def artifact_of_def)
  qed
qed

subsection \<open>Programs that touch the ledger through its operations only\<close>

lemma cond_legal_weaken:
  "(\<And>old. R t k old d \<Longrightarrow> R' t k old d) \<Longrightarrow> cond_legal R t k cnd d \<Longrightarrow> cond_legal R' t k cnd d"
  by (auto simp: cond_legal_def split: cas_cond.splits etag.splits)

lemma safe_weaken:
  "(\<And>t k old d. R t k old d \<Longrightarrow> R' t k old d) \<Longrightarrow> safe R Q p t \<Longrightarrow> safe R' Q p t"
  by (induction p arbitrary: t) (auto intro: cond_legal_weaken [of R _ _ _ R'])

text \<open>The discipline of the ledger, leaving every other object free.\<close>

definition ledger_rule ::
  "(backend_ledger \<Rightarrow> bool) \<Rightarrow> string \<Rightarrow> instant \<Rightarrow> string \<Rightarrow> blob option \<Rightarrow> blob \<Rightarrow> bool" where
  "ledger_rule P k t key old d \<longleftrightarrow> (key = BUDGET_STATE_KEY \<longrightarrow> stored_ok P k old \<longrightarrow> stored_ok P k (Some d))"

lemma discipline_ledger_rule: "discipline (ledger_rule P k)"
  by (simp add: discipline_def ledger_rule_def)

lemma safe_ledger_rule: "safe (budget_rule P k) Q p t \<Longrightarrow> safe (ledger_rule P k) Q p t"
  by (erule safe_weaken [rotated]) (simp add: budget_rule_def ledger_rule_def)

lemma index_free_ledger_rule: "index_free (ledger_rule P k)"
  by (simp add: index_free_def ledger_rule_def index_bucket_key_def INDEX_PREFIX_def BUDGET_STATE_KEY_def)

lemma safe_put_lease: "safe (ledger_rule P k) any_result (try_put (lease_key sk uid) d (IfMatch e)) t"
  by (rule safe_try_put)
     (auto simp: cond_legal_def ledger_rule_def lease_key_def LEASE_PREFIX_def BUDGET_STATE_KEY_def split: etag.split)

lemma safe_read_lease_any: "safe R any_result (read_lease sk uid) t"
  by (rule safe_read_lease) simp_all

lemma safe_now_any: "safe R any_result (now_or_clock na) t"
  by (cases na) (simp_all add: now_or_clock_def utc_now_def)

lemma safe_liftE_any: "safe R any_result (liftE r) t"
  by (cases r) (simp_all add: liftE_def)

text \<open>The reaper, for callbacks that keep the discipline.\<close>

definition ledger_callback :: "(backend_ledger \<Rightarrow> bool) \<Rightarrow> string \<Rightarrow> reap_callback \<Rightarrow> bool" where
  "ledger_callback P k cb \<longleftrightarrow> (\<forall>f. cb = Some f \<longrightarrow> (\<forall>o' t. safe (ledger_rule P k) any_result (f o') t))"

lemma safe_reap_one_ledger:
  assumes "\<And>sk uid t. safe (ledger_rule P k) any_result (ap sk uid) t"
    and "ledger_callback P k f" and "ledger_callback P k g"
  shows "safe (ledger_rule P k) any_result (reap_one ap f g now dry sk uid) t"
  using assms(2,3)
  unfolding reap_one_def settle_leased_def invoke_reap_callback_def
  by (auto intro!: safe_bind_any safe_attempt_any safe_read_lease_any safe_put_lease assms(1)
      simp: ledger_callback_def split: option.split reap_outcome.split)

lemma safe_reap_ledger:
  assumes "\<And>sk uid t. safe (ledger_rule P k) any_result (ap sk uid) t"
    and "ledger_callback P k f" and "ledger_callback P k g"
  shows "safe (ledger_rule P k) any_result (reap cs ap f g na dry) t"
  unfolding reap_def
  by (auto intro!: safe_bind_any safe_now_any safe_foldIO_any safe_reap_one_ledger [OF assms] split: option.split)

lemma safe_sweep_entry_ledger:
  assumes "\<And>sk uid t. safe (ledger_rule P k) any_result (ap sk uid) t"
    and "ledger_callback P k f" and "ledger_callback P k g"
  shows "safe (ledger_rule P k) any_result (sweep_entry ap f g now dry kv acc) t"
  unfolding sweep_entry_def
  by (auto intro!: safe_bind_any safe_reap_one_ledger [OF assms] split: prod.splits json.splits option.splits)

lemma safe_sweep_bucket_ledger:
  assumes "\<And>sk uid t. safe (ledger_rule P k) any_result (ap sk uid) t"
    and "ledger_callback P k f" and "ledger_callback P k g"
  shows "safe (ledger_rule P k) any_result (sweep_bucket ap f g now dry n acc) t"
  unfolding sweep_bucket_def
  by (auto intro!: safe_bind_any safe_load_index_bucket safe_foldIO_any safe_index_ops index_free_ledger_rule
      safe_sweep_entry_ledger [OF assms] split: prod.splits)

lemma safe_sweep_integrity_ledger:
  assumes "\<And>sk uid t. safe (ledger_rule P k) any_result (ap sk uid) t"
    and "ledger_callback P k f" and "ledger_callback P k g"
  shows "safe (ledger_rule P k) any_result (sweep_integrity sha ap f g now dry bc sl seen it acc) t"
  unfolding sweep_integrity_def
  by (auto intro!: safe_bind_any safe_index_ops index_free_ledger_rule safe_reap_one_ledger [OF assms]
      split: prod.splits option.splits)

lemma safe_reap_indexed_ledger:
  assumes "\<And>sk uid t. safe (ledger_rule P k) any_result (ap sk uid) t"
    and "ledger_callback P k f" and "ledger_callback P k g"
  shows "safe (ledger_rule P k) any_result (reap_indexed sha ap f g na dry bc cs pt) t"
  unfolding reap_indexed_def
  by (auto intro!: safe_bind_any safe_now_any safe_foldIO_any safe_sweep_bucket_ledger [OF assms]
      safe_sweep_integrity_ledger [OF assms] split: option.splits prod.splits)

subsection \<open>Configured targets, permitted charges\<close>

text \<open>A target that is this backend has its caps and never estimates below zero.\<close>

definition configured :: "string \<Rightarrow> rat \<Rightarrow> int \<Rightarrow> dispatch_target \<Rightarrow> bool" where
  "configured k cap mx target \<longleftrightarrow> (db_name (dt_backend target) = k \<longrightarrow>
     dt_monthly_gpu_seconds target = cap \<and> dt_max_inflight target = mx \<and>
     (\<forall>job. 0 \<le> db_estimate_gpu_seconds (dt_backend target) job))"

text \<open>What the items report for this backend may be charged.\<close>

definition permitted :: "(rat option \<Rightarrow> bool) \<Rightarrow> string \<Rightarrow> work_item list \<Rightarrow> bool" where
  "permitted charge k items \<longleftrightarrow> list_all (\<lambda>wi. owner_backend (wi_lease_owner wi) = k \<longrightarrow>
     charge (if 0 < wi_observed_seconds wi then Some (wi_observed_seconds wi) else None)) items"

definition op_permitted :: "(rat option \<Rightarrow> bool) \<Rightarrow> string \<Rightarrow> budget_op \<Rightarrow> bool" where
  "op_permitted charge k op = (case op of Settle_Op owner backend actual \<Rightarrow> backend = k \<longrightarrow> charge actual | Release_Op owner backend \<Rightarrow> True)"

lemma op_permitted_simps [simp]:
  "op_permitted charge k (Settle_Op owner backend actual) \<longleftrightarrow> (backend = k \<longrightarrow> charge actual)"
  "op_permitted charge k (Release_Op owner backend)"
  by (simp_all add: op_permitted_def)

lemma select_backend_member: "select_backend job ts b = (Some target, b') \<Longrightarrow> target \<in> set ts"
  by (induction ts arbitrary: b) (auto split: prod.splits if_splits)

subsection \<open>Laws of a ledger predicate\<close>

text \<open>
  What a predicate on the ledger of one backend must satisfy for every program that changes the ledger by
  reservations within the caps, releases and permitted settlements to keep it.
\<close>

locale budget_law =
  fixes P :: "backend_ledger \<Rightarrow> bool" and charge :: "rat option \<Rightarrow> bool" and k :: string and cap :: rat and mx :: int
  assumes order_free: "order_free P"
    and cycle_free: "P (l\<lparr>bl_cycle_key := c\<rparr>) \<longleftrightarrow> P l"
    and charge_none: "charge None"
    and reserving: "(bl_used_units l = 0 \<and> bl_inflight l = []) \<or> P l \<Longrightarrow> bl_used_units l + est \<le> cap \<Longrightarrow>
       inflight_count l < mx \<Longrightarrow> 0 \<le> est \<Longrightarrow>
       P (l\<lparr>bl_used_units := bl_used_units l + est, bl_inflight := AList.update owner est (bl_inflight l)\<rparr>)"
    and releasing: "P l \<Longrightarrow> map_of (bl_inflight l) owner = Some r \<Longrightarrow>
       P (l\<lparr>bl_inflight := AList.delete owner (bl_inflight l), bl_used_units := max 0 (bl_used_units l - r)\<rparr>)"
    and settling: "P l \<Longrightarrow> map_of (bl_inflight l) owner = Some r \<Longrightarrow> charge x \<Longrightarrow>
       P (case x of None \<Rightarrow> l\<lparr>bl_inflight := AList.delete owner (bl_inflight l)\<rparr>
          | Some x \<Rightarrow> l\<lparr>bl_inflight := AList.delete owner (bl_inflight l), bl_used_units := max 0 (bl_used_units l - r + x)\<rparr>)"
begin

lemma safe_client: "budget_client charge k cap mx p \<Longrightarrow> safe (ledger_rule P k) any_result p t"
  by (rule safe_ledger_rule, erule budget_client_safe [OF _ order_free cycle_free])
     (auto intro: reserving releasing settling)

lemma keeps_reserve:
  assumes "bk = k \<Longrightarrow> cap' = cap \<and> mx' = mx \<and> 0 \<le> est" and "backend_ok P k b"
    and "fst (available bk cap' mx' est cycle b)"
  shows "backend_ok P k (reserve owner bk est cycle (snd (available bk cap' mx' est cycle b)))"
  by (rule backend_ok_reserve [OF _ cycle_free assms(2,3)]) (use assms(1) reserving in auto)

lemma safe_reserve:
  assumes "bk = k \<Longrightarrow> cap' = cap \<and> mx' = mx \<and> 0 \<le> est"
  shows "safe (ledger_rule P k) any_result (reserve_if_available owner bk est cap' mx' cycle na n) t"
  by (intro safe_ledger_rule safe_reserve_if_available [OF order_free] keeps_reserve assms)

lemma keeps_release: "backend_ok P k b \<Longrightarrow> backend_ok P k (release_budget owner bk cycle b)"
  by (rule backend_ok_release) (auto intro: releasing)

lemma keeps_settle:
  "(bk = k \<Longrightarrow> charge (sa_actual a)) \<Longrightarrow> backend_ok P k b \<Longrightarrow> backend_ok P k (settle owner bk a now b)"
  by (rule backend_ok_settle) (auto intro: settling)

lemma safe_mutate:
  assumes "\<And>t b. backend_ok P k b \<Longrightarrow> backend_ok P k (f t b)"
  shows "safe (ledger_rule P k) any_result (mutate_budget f na n) t"
  unfolding mutate_budget_def by (intro safe_ledger_rule safe_mutate_budget_loop [OF order_free] assms)

lemma safe_give_back: "safe (ledger_rule P k) any_result (release_reservation owner bk cycle na n) t"
  unfolding release_reservation_def by (intro safe_mutate keeps_release)

lemma safe_settle:
  "(bk = k \<Longrightarrow> charge (sa_actual a)) \<Longrightarrow> safe (ledger_rule P k) any_result (settle_reservation owner bk a na n) t"
  unfolding settle_reservation_def by (intro safe_mutate keeps_settle)

lemma safe_load: "safe (ledger_rule P k) any_result load_budget_cas t"
  by (rule safe_load_budget [where P = P and k = k]) simp_all

subsection \<open>Dispatching\<close>

lemma safe_dispatch_reserved:
  assumes "configured k cap mx target"
  shows "safe (ledger_rule P k) any_result (dispatch_reserved target job hex now item co) t"
  unfolding dispatch_reserved_def Let_def
  using assms
  by (auto simp: configured_def intro!: safe_bind_any safe_reserve safe_give_back safe_load
      split: sum.split inference_reply.split prod.split)

lemma safe_try_dispatch:
  assumes "co_cas co" and "list_all (configured k cap mx) (co_targets co)"
  shows "safe (ledger_rule P k) any_result (try_dispatch hex item job na co) t"
  unfolding try_dispatch_def
  using assms select_backend_member [of job "co_targets co"]
  by (auto simp: list_all_iff intro!: safe_bind_any safe_now_any safe_load safe_dispatch_reserved
      split: prod.split option.split)

subsection \<open>Reconciling\<close>

lemma reconcile_item_permitted:
  assumes "reconcile_item objects now wi st = Inr st'" and "permitted charge k [wi]" and "list_all (op_permitted charge k) (rs_ops st)"
  shows "list_all (op_permitted charge k) (rs_ops st')"
proof (cases "calm objects now wi")
  case True
  then show ?thesis using assms by (auto simp: reconcile_item_calm keep_item_def)
next
  case False
  from reconcile_item_busy [OF this assms(1)] show ?thesis
    using assms(2,3) by (simp add: settle_item_def reap_item_def permitted_def)
qed

lemma reconcile_items_permitted:
  "foldE (reconcile_item objects now) items st = Inr st' \<Longrightarrow> permitted charge k items \<Longrightarrow> list_all (op_permitted charge k) (rs_ops st) \<Longrightarrow>
   list_all (op_permitted charge k) (rs_ops st')"
proof (induction items arbitrary: st)
  case (Cons wi items)
  then obtain st1 where s: "reconcile_item objects now wi st = Inr st1"
    and r: "foldE (reconcile_item objects now) items st1 = Inr st'"
    by (auto simp: bindE_Inr)
  have "permitted charge k [wi]" and "permitted charge k items"
    using Cons.prems(2) by (simp_all add: permitted_def)
  with Cons.IH [OF r] reconcile_item_permitted [OF s] Cons.prems(3) show ?case by simp
qed simp

lemma keeps_apply_ops: "list_all (op_permitted charge k) ops \<Longrightarrow> backend_ok P k b \<Longrightarrow> backend_ok P k (apply_ops ops now b)"
proof -
  have "op_permitted charge k op \<Longrightarrow> backend_ok P k c \<Longrightarrow> backend_ok P k (apply_op now op c)" for op c
    by (cases op) (auto simp: bare_settlement_def intro: keeps_settle keeps_release)
  then show "list_all (op_permitted charge k) ops \<Longrightarrow> backend_ok P k b \<Longrightarrow> ?thesis"
    unfolding apply_ops_def by (induction ops arbitrary: b) simp_all
qed

lemma safe_sweep: "safe (ledger_rule P k) any_result (sweep_leases sha objects use_index now items) t"
proof -
  have "ledger_callback P k (Some (\<lambda>owner.
          forget (settle_reservation owner (owner_backend owner) (bare_settlement None) (Some now) BUDGET_ATTEMPTS)))"
    and "ledger_callback P k (Some (\<lambda>owner.
          forget (release_reservation owner (owner_backend owner) None (Some now) BUDGET_ATTEMPTS)))"
    by (auto simp: ledger_callback_def bare_settlement_def charge_none intro!: safe_forget_any safe_settle safe_give_back)
  then show ?thesis
    unfolding sweep_leases_def Let_def
    by (auto intro!: safe_bind_any safe_reap_ledger safe_reap_indexed_ledger)
qed

lemma safe_reconcile_manifest:
  assumes "\<And>items. load_manifest (sd_manifest dir) = Inr items \<Longrightarrow> permitted charge k items"
  shows "safe (ledger_rule P k) any_result (reconcile_manifest objects True now dir) t"
proof -
  have ledger: "safe (ledger_rule P k) any_result (write_ledger True (rs_ops st) now dir) t'"
    if "load_manifest (sd_manifest dir) = Inr items" and "reconcile_items objects now items = Inr st" for items st t'
    unfolding write_ledger_def if_True
    using reconcile_items_permitted [of objects now items _ st] assms [OF that(1)] that(2)
    by (intro safe_bind_any safe_mutate keeps_apply_ops) (simp_all add: reconcile_items_def)
  show ?thesis
    unfolding reconcile_manifest_def
    by (cases "load_manifest (sd_manifest dir)"; cases "reconcile_items objects now (projr (load_manifest (sd_manifest dir)))")
       (auto simp: liftE_def intro!: safe_bind_any ledger)
qed

lemma safe_reconcile_compute:
  assumes "\<And>items. load_manifest (sd_manifest dir) = Inr items \<Longrightarrow> permitted charge k items"
  shows "safe (ledger_rule P k) any_result (reconcile_compute sha objects True na sweep use_index dir) t"
  unfolding reconcile_compute_def
  by (auto intro!: safe_bind_any safe_now_any safe_reconcile_manifest assms safe_attempt_any safe_sweep split: prod.split)

end

interpretation capped: budget_law "\<lambda>l. 0 \<le> cap \<longrightarrow> within_cap cap mx l" "\<lambda>x. x = None" k cap mx for k cap mx
  by unfold_locales
     (auto simp: order_free_preds(1) [unfolded order_free_def] order_free_def
       intro: within_cap_reserve within_cap_release)

interpretation covering: budget_law covers "\<lambda>x. \<forall>v. x = Some v \<longrightarrow> 0 \<le> v" k cap mx for k cap mx
proof unfold_locales
  show "covers (l\<lparr>bl_inflight := AList.delete owner (bl_inflight l), bl_used_units := max 0 (bl_used_units l - r)\<rparr>)"
    if "covers l" and "map_of (bl_inflight l) owner = Some r" for l owner r
    using covers_settle(1) [OF that, of 0] by simp
qed (auto simp: order_free_preds intro: covers_reserve covers_settle split: option.split)

subsection \<open>The caps hold under any interleaving\<close>

text \<open>
  The programs of the whole system that write the ledger: dispatches, reconciliations with or without the sweep of
  the lease objects, and what external workers do with their budget.
\<close>

inductive dispatch_client :: "(rat option \<Rightarrow> bool) \<Rightarrow> string \<Rightarrow> rat \<Rightarrow> int \<Rightarrow> unit io \<Rightarrow> bool"
  for charge :: "rat option \<Rightarrow> bool" and k :: string and cap :: rat and mx :: int where
  dispatching: "co_cas co \<Longrightarrow> list_all (configured k cap mx) (co_targets co) \<Longrightarrow>
     dispatch_client charge k cap mx (forget (try_dispatch hex item job na co))"
| reconciling: "(\<And>items. load_manifest (sd_manifest dir) = Inr items \<Longrightarrow> permitted charge k items) \<Longrightarrow>
     dispatch_client charge k cap mx (forget (reconcile_compute sha objects True na sweep use_index dir))"
| budgeting: "budget_client charge k cap mx p \<Longrightarrow> dispatch_client charge k cap mx p"

context budget_law
begin

lemma safe_dispatch_client:
  assumes "dispatch_client charge k cap mx p"
  shows "safe (ledger_rule P k) any_result p t"
  using assms
proof cases
  case budgeting
  then show ?thesis by (rule safe_client)
qed (auto intro!: safe_forget_any safe_try_dispatch safe_reconcile_compute)

text \<open>So the predicate holds of the stored ledger in every reachable state.\<close>

lemma dispatch_reach:
  assumes store: "cas_store ops view" and clients: "\<And>i p. launch (i :: nat) p \<Longrightarrow> dispatch_client charge k cap mx p"
    and idle: "all_idle S0" and reach: "sys_reach ops launch S0 S"
    and init: "stored_ok P k (view (sys_store S0) BUDGET_STATE_KEY)"
  shows "stored_ok P k (view (sys_store S) BUDGET_STATE_KEY)"
proof -
  have trans: "stored_ok P k (v' BUDGET_STATE_KEY)"
    if "write_step (ledger_rule P k) t v v'" and "stored_ok P k (v BUDGET_STATE_KEY)" for t v v'
    using that by (auto simp: write_step_def ledger_rule_def)
  have "stored_ok P k (view (sys_store S) BUDGET_STATE_KEY) \<and>
      (\<forall>i. safe (ledger_rule P k) any_result (sys_proc S i) (sys_time S))"
    using reach idle discipline_ledger_rule safe_dispatch_client [OF clients] init _ trans
    by (rule cas_store.reach_invariant [OF store, where R = "\<lambda>_. ledger_rule P k"
          and I = "\<lambda>_ v. stored_ok P k (v BUDGET_STATE_KEY)"])
  then show ?thesis ..
qed

end

text \<open>
  C4: the cap of a backend holds for the whole system. If its stored ledger starts within the monthly cap and the
  slots, with its spend covering its reservations, then so it is in every reachable state of any interleaving of
  dispatches, reconciliations (their sweeps of the lease objects included) and operations of external workers that
  report no actual cost, whatever writes conflict, fail or lose their answer and whatever the backends answer.
\<close>

theorem dispatch_never_breaches_cap:
  assumes "cas_store ops view" and "\<And>i p. launch i p \<Longrightarrow> dispatch_client (\<lambda>x. x = None) k cap mx p"
    and "all_idle S0" and "sys_reach ops launch S0 S" and "0 \<le> cap"
    and "stored_ok (\<lambda>l. within_cap cap mx l \<and> covers l) k (view (sys_store S0) BUDGET_STATE_KEY)"
    and "view (sys_store S) BUDGET_STATE_KEY = Some d"
    and "map_of (bg_backends (decode_budget cur d)) k = Some l"
  shows "bl_used_units l \<le> cap \<and> inflight_count l \<le> mx \<and> sum_list (map snd (bl_inflight l)) \<le> bl_used_units l"
proof -
  have init: "stored_ok (\<lambda>l. 0 \<le> cap \<longrightarrow> within_cap cap mx l) k (view (sys_store S0) BUDGET_STATE_KEY)"
    "stored_ok covers k (view (sys_store S0) BUDGET_STATE_KEY)"
    using assms(6) by (auto simp: stored_ok_def backend_ok_def split: option.splits)
  have "dispatch_client (\<lambda>x. \<forall>v. x = Some v \<longrightarrow> 0 \<le> v) k cap mx p" if "launch i p" for i p
    using assms(2) [OF that]
  proof cases
    case (reconciling dir sha objects na sweep use_index)
    then show ?thesis
      by (auto simp: permitted_def list_all_iff intro: dispatch_client.reconciling)
  next
    case budgeting
    have "budget_client (\<lambda>x. \<forall>v. x = Some v \<longrightarrow> 0 \<le> v) k cap mx p"
      using budgeting by cases (auto intro: budget_client.intros)
    then show ?thesis by (rule dispatch_client.budgeting)
  qed (auto intro: dispatch_client.dispatching)
  then have "stored_ok covers k (view (sys_store S) BUDGET_STATE_KEY)"
    by (rule covering.dispatch_reach [OF assms(1) _ assms(3,4) init(2)])
  moreover have "stored_ok (\<lambda>l. 0 \<le> cap \<longrightarrow> within_cap cap mx l) k (view (sys_store S) BUDGET_STATE_KEY)"
    by (rule capped.dispatch_reach [OF assms(1,2,3,4) init(1)])
  ultimately show ?thesis
    using assms(5,7,8) by (auto simp: stored_ok_def backend_ok_def covers_def within_cap_def dest!: spec [of _ cur])
qed

subsection \<open>One dispatch\<close>

lemma select_backend_budget:
  "select_backend job ts b = (r, b') \<Longrightarrow> reserved b' ob \<Longrightarrow> reserved b ob"
proof (induction ts arbitrary: b)
  case (Cons target ts)
  obtain ok b1 where av: "available (db_name (dt_backend target)) (dt_monthly_gpu_seconds target) (dt_max_inflight target)
      (db_estimate_gpu_seconds (dt_backend target) job) None b = (ok, b1)" by fastforce
  have "reserved b1 ob \<Longrightarrow> reserved b ob"
  proof -
    obtain l c where cur: "current_ledger (db_name (dt_backend target)) None b = (l, c)" by fastforce
    have "b1 = c" using av cur by (simp add: available_def)
    then show "reserved b1 ob \<Longrightarrow> reserved b ob"
      using current_ledger_facts(1,3,5) [OF cur]
      by (cases "snd ob = db_name (dt_backend target)")
         (auto simp: reserved_def empty_ledger_def split: option.splits if_splits)
  qed
  then show ?case
    using Cons av by (auto split: if_splits)
qed simp

lemma reserved_roll [simp]: "reserved (roll_month now b) ob \<longleftrightarrow> reserved b ob"
  by (simp add: reserved_def roll_month_def)

lemma reserved_reserve:
  "reserved (reserve owner k est cycle b) ob \<Longrightarrow> reserved b ob \<or> ob = (owner, k)"
proof -
  obtain l c where cur: "current_ledger k cycle b = (l, c)" by fastforce
  then have "reserve owner k est cycle b =
      put_ledger k (l\<lparr>bl_used_units := bl_used_units l + est, bl_inflight := AList.update owner est (bl_inflight l)\<rparr>) c"
    by (simp add: reserve_def)
  then show "reserved (reserve owner k est cycle b) ob \<Longrightarrow> ?thesis"
    using current_ledger_facts(3,5) [OF cur]
    by (cases ob; cases "snd ob = k")
       (auto simp: reserved_def put_ledger_def dict_simps empty_ledger_def split: option.splits if_splits)
qed

lemma reserved_release: "reserved (release_budget owner k None b) ob \<longleftrightarrow> reserved b ob \<and> ob \<noteq> (owner, k)"
  using reserved_after [of _ "Release_Op owner k" b ob] by simp

lemma run_reserve:
  assumes store: "reliable_store ops view (\<lambda>_. True)"
    and av: "available k cap mx est cycle (roll_month now (stored_budget t (view s BUDGET_STATE_KEY))) = (ok, b1)"
  obtains s' where "run ops t (reserve_if_available owner k est cap mx cycle (Some now) (Suc n)) s = (Inr ok, s')"
    and "view s' = (if ok then (view s)(BUDGET_STATE_KEY := Some (serialize_budget (reserve owner k est cycle b1))) else view s)"
proof -
  let ?c = "view s BUDGET_STATE_KEY" and ?d = "serialize_budget (reserve owner k est cycle b1)"
  obtain s1 where load: "run ops t load_budget_cas s = (Inr (stored_budget t ?c, map_option ETag ?c), s1)"
    and v1: "view s1 = view s"
    by (rule run_load_budget [OF store])
  have "cond_holds (cond_of (map_option ETag ?c)) (view s1 BUDGET_STATE_KEY)"
    by (simp add: v1 cond_holds_current)
  then obtain s2 where p: "op_put ops s1 BUDGET_STATE_KEY ?d (cond_of (map_option ETag ?c)) = (Inr (ETag ?d), s2)"
    and v2: "view s2 = (view s1)(BUDGET_STATE_KEY := Some ?d)"
    using reliable_store.put_cases [OF store TrueI] by metis
  show thesis
    using av load p v1 v2
    by (cases ok; intro that [of "if ok then s2 else s1"]) (simp_all add: io_simps try_put_def)
qed

lemma budget_attempts: "BUDGET_ATTEMPTS = Suc 7"
  by (simp add: BUDGET_ATTEMPTS_def)

text \<open>What a dispatch that is let through leaves in the ledger and in the queue.\<close>

definition dispatched_as ::
  "dispatch_target \<Rightarrow> inference_job \<Rightarrow> string \<Rightarrow> instant \<Rightarrow> coordinator \<Rightarrow> work_item \<Rightarrow> work_item \<Rightarrow> coordinator \<Rightarrow> budget \<Rightarrow> bool" where
  "dispatched_as target job owner now co item item' co' b \<longleftrightarrow>
     item' = lease_item item owner (co_lease_ttl co) now \<and>
     map_of (co_leases co') (item_id item) = Some (owner, wi_lease_expires item') \<and>
     (\<exists>l. map_of (bg_backends b) (db_name (dt_backend target)) = Some l \<and>
          map_of (bl_inflight l) owner = Some (db_estimate_gpu_seconds (dt_backend target) job))"

lemma stored_budget_serialize: "stored_budget t (Some (serialize_budget b)) = norm_budget (month_key t) b"
  by (simp add: stored_budget_def budget_decode_serialize)

lemma reserve_entry:
  "\<exists>l. map_of (bg_backends (norm_budget cur (reserve owner k est cycle b))) k = Some l \<and>
       map_of (bl_inflight l) owner = Some est"
proof -
  obtain l c where cur: "current_ledger k cycle b = (l, c)" by fastforce
  then show ?thesis
    by (simp add: reserve_def norm_budget_backend put_ledger_def dict_simps norm_ledger_def)
qed

lemma run_dispatch_reserved:
  assumes store: "reliable_store ops view (\<lambda>_. True)"
    and run: "run ops t (dispatch_reserved target job hex t item co) s = (Inr (r, item', co'), s')"
    and owner: "owner = db_name (dt_backend target) @ '':'' @ hex"
    and fresh: "\<not> reserved (stored_budget t (view s BUDGET_STATE_KEY)) (owner, db_name (dt_backend target))"
  shows "case r of
      None \<Rightarrow> item' = item \<and> co_leases co' = co_leases co \<and>
        (\<forall>ob. reserved (stored_budget t (view s' BUDGET_STATE_KEY)) ob \<longrightarrow> reserved (stored_budget t (view s BUDGET_STATE_KEY)) ob)
    | Some h \<Rightarrow> db_run_inference (dt_backend target) job = Inr (Handle h) \<and>
        dispatched_as target job owner t co item item' co' (stored_budget t (view s' BUDGET_STATE_KEY))"
proof -
  let ?k = "db_name (dt_backend target)" and ?est = "db_estimate_gpu_seconds (dt_backend target) job"
  let ?b = "stored_budget t (view s BUDGET_STATE_KEY)"
  obtain ok b1 where av: "available ?k (dt_monthly_gpu_seconds target) (dt_max_inflight target) ?est None (roll_month t ?b) = (ok, b1)"
    by fastforce
  have keeps: "reserved b1 ob \<Longrightarrow> reserved ?b ob" for ob
    using select_backend_budget [of job "[target]" "roll_month t ?b" "if ok then Some target else None" b1 ob] av by simp
  obtain s1 where r1: "run ops t (reserve_if_available owner ?k ?est (dt_monthly_gpu_seconds target)
        (dt_max_inflight target) None (Some t) BUDGET_ATTEMPTS) s = (Inr ok, s1)"
    and v1: "view s1 = (if ok then (view s)(BUDGET_STATE_KEY := Some (serialize_budget (reserve owner ?k ?est None b1))) else view s)"
    by (rule run_reserve [where n = 7 and owner = owner, OF store av, folded budget_attempts])
  note start = run [unfolded dispatch_reserved_def Let_def owner [symmetric] run_bind r1]
  show ?thesis
  proof (cases ok)
    case False
    then show ?thesis using start v1 by auto
  next
    case True
    let ?b1 = "reserve owner ?k ?est None b1"
    have st1: "stored_budget t (view s1 BUDGET_STATE_KEY) = norm_budget (month_key t) ?b1"
      using v1 True by (simp add: stored_budget_serialize)
    obtain s2 where r2: "run ops t (release_reservation owner ?k None (Some t) BUDGET_ATTEMPTS) s1 =
          (Inr (release_budget owner ?k None (roll_month t (stored_budget t (view s1 BUDGET_STATE_KEY)))), s2)"
      and v2: "view s2 = (view s1)(BUDGET_STATE_KEY := Some (serialize_budget
          (release_budget owner ?k None (roll_month t (stored_budget t (view s1 BUDGET_STATE_KEY))))))"
      unfolding release_reservation_def budget_attempts
      by (rule run_mutate_budget [where f = "\<lambda>_. release_budget owner ?k None" and now = t, OF store refl])
    have undone: "reserved (stored_budget t (view s2 BUDGET_STATE_KEY)) ob \<Longrightarrow> reserved ?b ob" for ob
      using reserved_reserve [of owner ?k ?est None b1 ob] keeps
      by (auto simp: v2 stored_budget_serialize reserved_release st1)
    obtain s3 where r3: "run ops t load_budget_cas s1 =
        (Inr (stored_budget t (view s1 BUDGET_STATE_KEY), map_option ETag (view s1 BUDGET_STATE_KEY)), s3)"
      and v3: "view s3 = view s1"
      by (rule run_load_budget [OF store])
    show ?thesis
    proof (cases "db_run_inference (dt_backend target) job")
      case (Inl e)
      then show ?thesis using start True r2 by (simp add: io_simps)
    next
      case (Inr reply)
      then show ?thesis
      proof (cases reply)
        case Finished
        then show ?thesis using start True r2 Inr undone by (auto simp: io_simps)
      next
        case (Handle h)
        have "dispatched_as target job owner t co item (lease_item item owner (co_lease_ttl co) t) co'
            (stored_budget t (view s1 BUDGET_STATE_KEY))"
          if "map_of (co_leases co') (item_id item) = Some (owner, wi_lease_expires (lease_item item owner (co_lease_ttl co) t))"
          using reserve_entry that by (simp add: dispatched_as_def st1)
        then show ?thesis
          using start True r3 v3 Inr Handle by (auto simp: io_simps record_dispatch_def Let_def dict_simps)
      qed
    qed
  qed
qed

text \<open>
  C14: the outcome of one dispatch. A handle comes back only when a configured backend accepted the job; then
  the item is leased, the coordinator counts it as in flight until that lease ends, and the ledger holds the
  estimate under the lease's owner, whose backend the reconciler recovers from its name. When nothing is dispatched, the
  item and the leases are as before and no reservation is left over.
\<close>

theorem dispatch_outcome:
  assumes store: "reliable_store ops view (\<lambda>_. True)" and cas: "co_cas co"
    and fresh: "\<forall>target\<in>set (co_targets co). \<not> reserved (stored_budget t (view s BUDGET_STATE_KEY))
      (db_name (dt_backend target) @ '':'' @ hex, db_name (dt_backend target))"
    and run: "run ops t (try_dispatch hex item job None co) s = (Inr (r, item', co'), s')"
  shows "case r of
      None \<Rightarrow> item' = item \<and> co_leases co' = co_leases co \<and>
        (\<forall>ob. reserved (stored_budget t (view s' BUDGET_STATE_KEY)) ob \<longrightarrow> reserved (stored_budget t (view s BUDGET_STATE_KEY)) ob)
    | Some h \<Rightarrow> \<exists>target\<in>set (co_targets co). \<exists>owner.
        db_run_inference (dt_backend target) job = Inr (Handle h) \<and>
        item' = lease_item item owner (co_lease_ttl co) t \<and>
        (\<forall>now. is_inflight co' (item_id item) now = Inr (now < t + timedelta_us (co_lease_ttl co))) \<and>
        (\<exists>l. map_of (bg_backends (stored_budget t (view s' BUDGET_STATE_KEY))) (db_name (dt_backend target)) = Some l \<and>
             map_of (bl_inflight l) owner = Some (db_estimate_gpu_seconds (dt_backend target) job)) \<and>
        (CHR '':'' \<notin> set (db_name (dt_backend target)) \<longrightarrow> owner_backend owner = db_name (dt_backend target))"
proof -
  obtain s1 where load: "run ops t load_budget_cas s =
      (Inr (stored_budget t (view s BUDGET_STATE_KEY), map_option ETag (view s BUDGET_STATE_KEY)), s1)"
    and v1: "view s1 = view s"
    by (rule run_load_budget [OF store])
  obtain sel b where sel: "select_backend job (co_targets co) (roll_month t (stored_budget t (view s BUDGET_STATE_KEY))) = (sel, b)"
    by fastforce
  show ?thesis
  proof (cases sel)
    case None
    then show ?thesis using run load sel cas v1 by (auto simp: try_dispatch_def io_simps)
  next
    case (Some target)
    let ?k = "db_name (dt_backend target)" and ?co = "co\<lparr>co_budget := b\<rparr>"
    define owner where "owner = ?k @ '':'' @ hex"
    have mem: "target \<in> set (co_targets co)"
      using select_backend_member sel Some by blast
    have run': "run ops t (dispatch_reserved target job hex t item ?co) s1 = (Inr (r, item', co'), s')"
      using run load sel Some cas by (simp add: try_dispatch_def io_simps)
    have "\<not> reserved (stored_budget t (view s1 BUDGET_STATE_KEY)) (owner, ?k)"
      using fresh mem by (simp add: v1 owner_def)
    from run_dispatch_reserved [OF store run' owner_def this]
    have out: "case r of
        None \<Rightarrow> item' = item \<and> co_leases co' = co_leases co \<and>
          (\<forall>ob. reserved (stored_budget t (view s' BUDGET_STATE_KEY)) ob \<longrightarrow> reserved (stored_budget t (view s BUDGET_STATE_KEY)) ob)
      | Some h \<Rightarrow> db_run_inference (dt_backend target) job = Inr (Handle h) \<and>
          dispatched_as target job owner t ?co item item' co' (stored_budget t (view s' BUDGET_STATE_KEY))"
      by (simp add: v1 split: option.splits)
    have "owner_backend owner = ?k" if "CHR '':'' \<notin> set ?k"
      using that by (auto simp: owner_backend_def owner_def takeWhile_append)
    then show ?thesis
      using out mem
      by (auto simp: dispatched_as_def is_inflight_def expires_later_def lease_item_def split: option.splits)
  qed
qed

subsection \<open>A reservation nobody owns\<close>

lemma flaky_get_lost:
  "op_get flaky_bucket_ops \<lparr>fb_objs = b, fb_faults = [LostRequest, LostRequest, LostRequest]\<rparr> k =
     (Inl (StorageReadUnavailable k), \<lparr>fb_objs = b, fb_faults = []\<rparr>)"
proof -
  have "is_transient_storage_error unavailable"
    by (simp add: unavailable_def TRANSIENT_S3_CODES_def TRANSIENT_S3_STATUS_def)
  then show ?thesis
    by (simp add: s3_ops_def s3_get_bytes_def flaky_client_def next_fault_def retry_storage_read.simps
        deadline_passed_def)
qed

lemma reconcile_keeps_foreign:
  assumes store: "reliable_store ops view (\<lambda>_. True)"
    and run: "run ops t (reconcile_manifest objects True now dir) s = (Inr (st, dir'), s')"
    and foreign: "\<And>items. load_manifest (sd_manifest dir) = Inr items \<Longrightarrow> list_all (\<lambda>wi. wi_lease_owner wi \<noteq> owner) items"
    and "reserved (stored_budget t (view s BUDGET_STATE_KEY)) (owner, k)"
  shows "reserved (stored_budget t (view s' BUDGET_STATE_KEY)) (owner, k)"
proof -
  obtain items where items: "load_manifest (sd_manifest dir) = Inr items"
    and st: "reconcile_items objects now items = Inr st"
    by (rule run_reconcile_manifestD [OF run])
  obtain s1 where "run ops t (reconcile_manifest objects True now dir) s =
      (Inr (st, if rs_settled st + rs_reaped st = 0 then dir
                else dir\<lparr>sd_manifest := Some (save_manifest (rs_items st))\<rparr>), s1)"
    and "view s1 = (view s)(BUDGET_STATE_KEY :=
           Some (serialize_budget (settled_ledger (rs_ops st) now t (view s BUDGET_STATE_KEY))))"
    by (rule run_reconcile_manifest [OF store items st])
  with run have "view s' BUDGET_STATE_KEY = Some (serialize_budget (settled_ledger (rs_ops st) now t (view s BUDGET_STATE_KEY)))"
    by simp
  moreover have "(owner, k) \<notin> op_target ` set (rs_ops st)"
    using reconcile_items_reconciled [OF st] foreign [OF items] by (auto simp: reconciled_def list_all_iff)
  ultimately show ?thesis
    using assms(4) by (simp add: stored_budget_serialize settled_ledger_def reserved_after_all)
qed

text \<open>
  C40: after an accepted submission the coordinator reads the ledger once more, only to refresh its own copy. When
  that read fails, the dispatch fails with it: the job runs, its estimate is charged and its slot taken under an owner
  that no item carries, so no reconciliation of any manifest gives them back.
\<close>

theorem failed_refresh_orphans_reservation:
  assumes cas: "co_cas co" and targets: "co_targets co = [target]"
    and accepted: "db_run_inference (dt_backend target) job = Inr (Handle h)"
    and est: "est = db_estimate_gpu_seconds (dt_backend target) job" "est \<le> dt_monthly_gpu_seconds target"
    and slots: "0 < dt_max_inflight target"
    and k: "k = db_name (dt_backend target)" and owner: "owner = k @ '':'' @ hex"
  shows "\<exists>b. run flaky_bucket_ops t (try_dispatch hex item job None co)
        \<lparr>fb_objs = (\<lambda>_. None), fb_faults = [NoFault, NoFault, NoFault, LostRequest, LostRequest, LostRequest]\<rparr> =
      (Inl (StorageReadUnavailable BUDGET_STATE_KEY),
       \<lparr>fb_objs = [BUDGET_STATE_KEY \<mapsto> serialize_budget b], fb_faults = []\<rparr>) \<and>
    map_option bl_used_units (map_of (bg_backends b) k) = Some est \<and>
    map_option bl_inflight (map_of (bg_backends b) k) = Some [(owner, est)] \<and>
    (\<forall>t' objects now dir st dir' s'.
       run r2_bucket t' (reconcile_manifest objects True now dir) [BUDGET_STATE_KEY \<mapsto> serialize_budget b] = (Inr (st, dir'), s') \<longrightarrow>
       (\<forall>items. load_manifest (sd_manifest dir) = Inr items \<longrightarrow> list_all (\<lambda>wi. wi_lease_owner wi \<noteq> owner) items) \<longrightarrow>
       reserved (stored_budget t' (s' BUDGET_STATE_KEY)) (owner, k))"
proof -
  let ?m = "month_key t"
  let ?start = "\<lparr>bg_month = ?m, bg_backends = [(k, empty_ledger\<lparr>bl_cycle_key := ?m\<rparr>)], bg_runtime_estimates = []\<rparr>"
  define b where "b = \<lparr>bg_month = ?m, bg_backends = [(k, \<lparr>bl_used_units = est, bl_inflight = [(owner, est)], bl_cycle_key = ?m\<rparr>)],
    bg_runtime_estimates = []\<rparr>"
  have av: "available k (dt_monthly_gpu_seconds target) (dt_max_inflight target) est None (empty_budget ?m) = (True, ?start)"
    using est(2) slots
    by (auto simp: available_def current_ledger_def empty_budget_def empty_ledger_def target_cycle_def
        put_ledger_def inflight_count_def Let_def)
  have res: "reserve owner k est None ?start = b"
    by (simp add: b_def reserve_def current_ledger_def empty_ledger_def target_cycle_def put_ledger_def Let_def)
  have roll: "roll_month t (empty_budget ?m) = empty_budget ?m"
    by (simp add: roll_month_def empty_budget_def)
  have sel: "select_backend job (co_targets co) (empty_budget ?m) = (Some target, ?start)"
    using av by (simp add: targets k est(1))
  have "run flaky_bucket_ops t (reserve_if_available owner k est (dt_monthly_gpu_seconds target) (dt_max_inflight target)
          None (Some t) (Suc n)) \<lparr>fb_objs = (\<lambda>_. None), fb_faults = NoFault # NoFault # fs\<rparr> =
      (Inr True, \<lparr>fb_objs = [BUDGET_STATE_KEY \<mapsto> serialize_budget b], fb_faults = fs\<rparr>)" for n fs
    by (simp add: load_budget_cas_def io_simps utc_now_def flaky_get flaky_put roll av res try_put_def cond_of_def
        cond_holds_def)
  note reserves = this [of 7, folded budget_attempts]
  have loads: "run flaky_bucket_ops t load_budget_cas \<lparr>fb_objs = (\<lambda>_. None), fb_faults = NoFault # fs\<rparr> =
      (Inr (empty_budget ?m, None), \<lparr>fb_objs = (\<lambda>_. None), fb_faults = fs\<rparr>)" for fs
    by (simp add: load_budget_cas_def io_simps utc_now_def flaky_get)
  have fails: "run flaky_bucket_ops t load_budget_cas \<lparr>fb_objs = objs, fb_faults = [LostRequest, LostRequest, LostRequest]\<rparr> =
      (Inl (StorageReadUnavailable BUDGET_STATE_KEY), \<lparr>fb_objs = objs, fb_faults = []\<rparr>)" for objs
    by (simp add: load_budget_cas_def io_simps flaky_get_lost)
  have "run flaky_bucket_ops t (try_dispatch hex item job None co)
        \<lparr>fb_objs = (\<lambda>_. None), fb_faults = [NoFault, NoFault, NoFault, LostRequest, LostRequest, LostRequest]\<rparr> =
      (Inl (StorageReadUnavailable BUDGET_STATE_KEY),
       \<lparr>fb_objs = [BUDGET_STATE_KEY \<mapsto> serialize_budget b], fb_faults = []\<rparr>)"
    using reserves [of "[LostRequest, LostRequest, LostRequest]"]
    by (simp add: try_dispatch_def dispatch_reserved_def run_bind run_now loads fails cas sel roll accepted owner k est(1) Let_def)
  moreover have "reserved (stored_budget t' (s' BUDGET_STATE_KEY)) (owner, k)"
    if "run r2_bucket t' (reconcile_manifest objects True now dir) [BUDGET_STATE_KEY \<mapsto> serialize_budget b] = (Inr (st, dir'), s')"
      and "\<forall>items. load_manifest (sd_manifest dir) = Inr items \<longrightarrow> list_all (\<lambda>wi. wi_lease_owner wi \<noteq> owner) items"
    for t' objects now dir st dir' s'
    using reconcile_keeps_foreign [OF r2_reliable that(1), of owner k] that(2)
    by (simp add: stored_budget_serialize) (simp add: reserved_def b_def)
  ultimately show ?thesis
    by (intro exI [of _ b] conjI allI impI) (simp_all add: b_def)
qed

subsection \<open>Concrete dispatches\<close>

definition demo_job :: inference_job where
  "demo_job = \<lparr>ij_task = ''transcribe'', ij_inputs = [], ij_recipe_hash = ''r1''\<rparr>"

definition demo_handle :: job_handle where "demo_handle = \<lparr>jh_backend = ''modal'', jh_ref = ''j1''\<rparr>"

definition demo_target :: dispatch_target where
  "demo_target =
     \<lparr>dt_backend = \<lparr>db_name = ''modal'', db_estimate_gpu_seconds = (\<lambda>_. 4), db_run_inference = (\<lambda>_. Inr (Handle demo_handle))\<rparr>,
      dt_monthly_gpu_seconds = 10, dt_max_inflight = 2\<rparr>"

definition demo_coordinator :: coordinator where
  "demo_coordinator =
     \<lparr>co_targets = [demo_target], co_cas = True, co_budget = empty_budget ''1970-01'', co_budget_file = None,
      co_lease_ttl = 3600, co_leases = []\<rparr>"

lemma demo_simps:
  "db_name (dt_backend demo_target) = ''modal''" "db_estimate_gpu_seconds (dt_backend demo_target) j = 4"
  "db_run_inference (dt_backend demo_target) j = Inr (Handle demo_handle)"
  "dt_monthly_gpu_seconds demo_target = 10" "dt_max_inflight demo_target = 2"
  "co_targets demo_coordinator = [demo_target]" "co_cas demo_coordinator" "co_lease_ttl demo_coordinator = 3600"
  by (simp_all add: demo_target_def demo_coordinator_def)

definition demo_item :: work_item where "demo_item = new_item ''src'' ''u1'' ''transcript-asr''"

definition demo_dispatched :: budget where
  "demo_dispatched =
     \<lparr>bg_month = month_key 0, bg_backends = [(''modal'', \<lparr>bl_used_units = 4, bl_inflight = [(''modal:h'', 4)],
        bl_cycle_key = month_key 0\<rparr>)], bg_runtime_estimates = []\<rparr>"

definition demo_ledger_store :: bucket where
  "demo_ledger_store = [BUDGET_STATE_KEY \<mapsto> serialize_budget demo_dispatched]"

lemma demo_dispatch_run:
  "\<exists>item' co'. run r2_bucket 0 (try_dispatch ''h'' demo_item demo_job None demo_coordinator) (\<lambda>_. None) =
     (Inr (Some demo_handle, item', co'), demo_ledger_store)"
proof -
  let ?m = "month_key 0"
  let ?start = "\<lparr>bg_month = ?m, bg_backends = [(''modal'', empty_ledger\<lparr>bl_cycle_key := ?m\<rparr>)], bg_runtime_estimates = []\<rparr>"
  have av: "available ''modal'' 10 2 4 None (empty_budget ?m) = (True, ?start)"
    by (simp add: available_def current_ledger_def empty_budget_def empty_ledger_def target_cycle_def put_ledger_def
        inflight_count_def Let_def)
  have res: "reserve ''modal:h'' ''modal'' 4 None ?start = demo_dispatched"
    by (simp add: demo_dispatched_def reserve_def current_ledger_def empty_ledger_def target_cycle_def put_ledger_def Let_def)
  have roll: "roll_month 0 (empty_budget ?m) = empty_budget ?m"
    by (simp add: roll_month_def empty_budget_def)
  have loads: "run r2_bucket 0 load_budget_cas (\<lambda>_. None) = (Inr (empty_budget ?m, None), \<lambda>_. None)"
    "\<exists>b e. run r2_bucket 0 load_budget_cas demo_ledger_store = (Inr (b, e), demo_ledger_store)"
    by (simp_all add: load_budget_cas_def io_simps utc_now_def demo_ledger_store_def)
  have "run r2_bucket 0 (reserve_if_available ''modal:h'' ''modal'' 4 10 2 None (Some 0) (Suc n)) (\<lambda>_. None) =
      (Inr True, demo_ledger_store)" for n
    by (simp add: run_bind run_now loads(1) roll av res try_put_def io_simps cond_of_def cond_holds_def demo_ledger_store_def)
  note reserves = this [of 7, folded budget_attempts]
  have sel: "select_backend demo_job [demo_target] (empty_budget ?m) = (Some demo_target, ?start)"
    by (simp add: demo_simps av)
  have start: "run r2_bucket 0 (try_dispatch ''h'' demo_item demo_job None demo_coordinator) (\<lambda>_. None) =
      run r2_bucket 0 (dispatch_reserved demo_target demo_job ''h'' 0 demo_item (demo_coordinator\<lparr>co_budget := ?start\<rparr>)) (\<lambda>_. None)"
    unfolding try_dispatch_def run_bind run_now
    by (simp add: run_bind loads(1) roll demo_simps(6,7) sel del: select_backend.simps)
  from loads(2) reserves show ?thesis
    unfolding start
    by (auto simp: dispatch_reserved_def run_bind demo_simps record_dispatch_def Let_def)
qed

theorem dispatch_never_breaches_cap_witness:
  "map_option bl_used_units (map_of (bg_backends (decode_budget ''x'' (serialize_budget demo_dispatched))) ''modal'') = Some 4 \<and>
   (4::rat) \<le> 10"
proof -
  let ?p = "forget (try_dispatch ''h'' demo_item demo_job None demo_coordinator)"
  have "run r2_bucket 0 ?p (\<lambda>_. None) = (Inr (), demo_ledger_store)"
    using demo_dispatch_run by (auto simp: forget_def run_bind)
  note reach = solo_reach [where launch = "\<lambda>_ p. p = ?p" and i = 0, OF refl this]
  have client: "dispatch_client (\<lambda>x. x = None) ''modal'' 10 2 ?p"
    by (rule dispatching) (simp_all add: demo_simps configured_def)
  obtain l where l: "map_of (bg_backends (decode_budget ''x'' (serialize_budget demo_dispatched))) ''modal'' = Some l"
    and u: "bl_used_units l = 4"
    by (simp add: budget_decode_serialize norm_budget_backend demo_dispatched_def norm_ledger_def)
  have "bl_used_units l \<le> 10 \<and> inflight_count l \<le> 2 \<and> sum_list (map snd (bl_inflight l)) \<le> bl_used_units l"
    by (rule dispatch_never_breaches_cap [where view = "\<lambda>s. s" and k = "''modal''" and cap = 10 and mx = 2,
          OF r2_store _ _ reach _ _ _ l])
       (simp_all add: client stored_ok_def demo_ledger_store_def)
  then show ?thesis using l u by simp
qed

theorem dispatch_outcome_witness:
  "\<exists>item' co' s'. run r2_bucket 0 (try_dispatch ''h'' demo_item demo_job None demo_coordinator) (\<lambda>_. None) =
       (Inr (Some demo_handle, item', co'), s') \<and>
     item' = lease_item demo_item (wi_lease_owner item') 3600 0 \<and> is_inflight co' (item_id demo_item) 0 = Inr True"
proof -
  obtain item' co' where r: "run r2_bucket 0 (try_dispatch ''h'' demo_item demo_job None demo_coordinator) (\<lambda>_. None) =
      (Inr (Some demo_handle, item', co'), demo_ledger_store)"
    using demo_dispatch_run by blast
  have "\<not> reserved (stored_budget 0 ((\<lambda>_. None) BUDGET_STATE_KEY)) ob" for ob
    by (simp add: reserved_def stored_budget_def empty_budget_def)
  then obtain owner where "item' = lease_item demo_item owner 3600 0"
    and "is_inflight co' (item_id demo_item) 0 = Inr (0 < 0 + timedelta_us 3600)"
    using dispatch_outcome [where view = "\<lambda>s. s", OF r2_reliable demo_simps(7) _ r] by (auto simp: demo_simps)
  moreover have "0 < timedelta_us 3600" by code_simp
  ultimately show ?thesis using r by (auto simp: lease_item_def)
qed

definition demo_leased :: work_item where
  "demo_leased = lease_item demo_item ''modal:h'' 3600 0"

definition demo_dir :: state_dir where
  "demo_dir = \<lparr>sd_manifest = Some (save_manifest [demo_leased]), sd_budget = None\<rparr>"

text \<open>An hour and a microsecond later the lease has expired and no artifact has arrived.\<close>

definition demo_late :: instant where "demo_late = 3600000001"

lemma demo_manifest: "load_manifest (sd_manifest demo_dir) = Inr [demo_leased]"
  using manifest_file_roundtrip by (simp add: demo_dir_def)

lemma demo_not_leased: "is_leased demo_leased demo_late = Inr False"
  by code_simp

lemma demo_owner: "wi_lease_owner demo_leased = ''modal:h''"
  by (simp add: demo_leased_def lease_item_def)

lemma demo_reconciled: "\<exists>st. reconcile_items None demo_late [demo_leased] = Inr st \<and> rs_reaped st = 1"
  using demo_not_leased demo_owner
  by (simp add: reconcile_items_def reconcile_item_def transcript_artifact_present_def reap_item_def)

lemma demo_reconcile_run:
  obtains st dir' s' where "run r2_bucket demo_late (reconcile_manifest None True demo_late demo_dir) demo_ledger_store =
    (Inr (st, dir'), s')" and "rs_reaped st = 1"
proof -
  obtain st where st: "reconcile_items None demo_late [demo_leased] = Inr st" "rs_reaped st = 1"
    using demo_reconciled by blast
  show thesis
    by (rule run_reconcile_manifest [where view = "\<lambda>s. s", OF r2_reliable demo_manifest st(1)]) (rule that [OF _ st(2)])
qed

theorem reconcile_repeatable_witness:
  "\<exists>st dir' s1 s2. run r2_bucket demo_late (reconcile_manifest None True demo_late demo_dir) demo_ledger_store =
       (Inr (st, dir'), s1) \<and> rs_reaped st = 1 \<and>
     run r2_bucket demo_late (reconcile_manifest None True demo_late demo_dir) s1 = (Inr (st, dir'), s2) \<and> s2 = s1"
proof -
  obtain st dir' s1 where r: "run r2_bucket demo_late (reconcile_manifest None True demo_late demo_dir) demo_ledger_store =
      (Inr (st, dir'), s1)" and n: "rs_reaped st = 1"
    by (rule demo_reconcile_run)
  show ?thesis
    using reconcile_repeatable [where view = "\<lambda>s. s", OF r2_reliable r, of demo_late] r n by blast
qed

theorem reconcile_settles_each_lease_witness:
  "\<exists>st dir' s1. run r2_bucket demo_late (reconcile_manifest None True demo_late demo_dir) demo_ledger_store = (Inr (st, dir'), s1) \<and>
     list_ex (\<lambda>wi. item_id wi = item_id demo_leased \<and> wi_lease_owner wi = '''' \<and> wi_state wi = ''queued'') (rs_items st)"
proof -
  obtain st dir' s1 where r: "run r2_bucket demo_late (reconcile_manifest None True demo_late demo_dir) demo_ledger_store =
      (Inr (st, dir'), s1)"
    by (rule demo_reconcile_run)
  have "\<exists>wi'\<in>set (rs_items st). item_id wi' = item_id demo_leased \<and> wi_lease_owner wi' = '''' \<and> wi_state wi' = ''queued''"
    using reconcile_settles_each_lease [where view = "\<lambda>s. s" and wi = demo_leased,
        OF r2_reliable r demo_manifest _ demo_owner _ refl] demo_not_leased
    by (simp add: transcript_artifact_present_def)
  then show ?thesis using r by (auto simp: list_ex_iff)
qed

theorem failed_refresh_orphans_reservation_witness:
  "\<exists>b. run flaky_bucket_ops 0 (try_dispatch ''h'' demo_item demo_job None demo_coordinator)
        \<lparr>fb_objs = (\<lambda>_. None), fb_faults = [NoFault, NoFault, NoFault, LostRequest, LostRequest, LostRequest]\<rparr> =
      (Inl (StorageReadUnavailable BUDGET_STATE_KEY),
       \<lparr>fb_objs = [BUDGET_STATE_KEY \<mapsto> serialize_budget b], fb_faults = []\<rparr>) \<and>
    map_option bl_inflight (map_of (bg_backends b) ''modal'') = Some [(''modal:h'', 4)]"
proof -
  have "\<exists>b. run flaky_bucket_ops 0 (try_dispatch ''h'' demo_item demo_job None demo_coordinator)
        \<lparr>fb_objs = (\<lambda>_. None), fb_faults = [NoFault, NoFault, NoFault, LostRequest, LostRequest, LostRequest]\<rparr> =
      (Inl (StorageReadUnavailable BUDGET_STATE_KEY),
       \<lparr>fb_objs = [BUDGET_STATE_KEY \<mapsto> serialize_budget b], fb_faults = []\<rparr>) \<and>
    map_option bl_used_units (map_of (bg_backends b) ''modal'') = Some 4 \<and>
    map_option bl_inflight (map_of (bg_backends b) ''modal'') = Some [(''modal:h'', 4)] \<and>
    (\<forall>t' objects now dir st dir' s'.
       run r2_bucket t' (reconcile_manifest objects True now dir) [BUDGET_STATE_KEY \<mapsto> serialize_budget b] = (Inr (st, dir'), s') \<longrightarrow>
       (\<forall>items. load_manifest (sd_manifest dir) = Inr items \<longrightarrow> list_all (\<lambda>wi. wi_lease_owner wi \<noteq> ''modal:h'') items) \<longrightarrow>
       reserved (stored_budget t' (s' BUDGET_STATE_KEY)) (''modal:h'', ''modal''))"
    by (rule failed_refresh_orphans_reservation [where target = demo_target and hex = "''h''"]) (simp_all add: demo_simps)
  then show ?thesis by blast
qed

end
