(* ===== verification/Remedy_Queue.thy ===== *)
theory Remedy_Queue
  imports Work_Queue "HOL-Library.Product_Lexorder"
begin

section \<open>The publication queue of remedy decisions (remedy_queue.py)\<close>

text \<open>
  \<open>plan_publications\<close> decides which pull requests and issues to open, update, reopen or leave queued, from
  the decisions that are ready, the ledger's view of each and a snapshot of the artifacts on GitHub. The
  dictionaries that the function mutates are association lists and a planned pull request is a record of
  the list it sits in. SHA-256 is a parameter (\<open>sha256\<close>, the lowercase hex digest of a text), as is
  \<open>fromiso\<close>, the reading of an ISO 8601 text by \<open>datetime.fromisoformat\<close> (\<open>None\<close> where it raises).
\<close>

subsection \<open>Markers\<close>

definition is_hex :: "char \<Rightarrow> bool" where
  "is_hex c = (let n = (of_char c :: nat) in 48 \<le> n \<and> n \<le> 57 \<or> 97 \<le> n \<and> n \<le> 102)"

definition is_digest :: "string \<Rightarrow> bool" where
  "is_digest s \<longleftrightarrow> length s = 64 \<and> list_all is_hex s"

definition MARKER_PREFIX :: string where "MARKER_PREFIX = ''citypods:remedy:v1:''"

definition MARKER_END :: string where "MARKER_END = '' -->''"

definition marker :: "string \<Rightarrow> exn + string" where
  "marker decision_id =
     (if is_digest decision_id then Inr (''<!-- '' @ MARKER_PREFIX @ decision_id @ MARKER_END) else Inl ValueError)"

text \<open>\<open>sorted(set(xs))\<close>\<close>

definition sorted_set :: "string list \<Rightarrow> string list" where
  "sorted_set xs = sort (remdups xs)"

definition render_markers :: "string list \<Rightarrow> exn + string" where
  "render_markers ids = bindE (mapE marker (sorted_set ids)) (\<lambda>ms. Inr (py_join [CHR 0x0A] ms))"

text \<open>
  \<open>findall\<close> of an expression \<open>open([0-9a-f]{64}) -->\<close> with a literal opening: the text is scanned from the
  left, and the scan goes on behind a match.
\<close>

definition marker_here :: "string \<Rightarrow> string \<Rightarrow> string option" where
  "marker_here opening s =
     (let d = take 64 (drop (length opening) s) in
      if py_startswith s opening \<and> is_digest d \<and> py_startswith (drop (length opening + 64) s) MARKER_END
      then Some d else None)"

function find_markers :: "string \<Rightarrow> string \<Rightarrow> string list" where
  "find_markers opening s =
     (case s of [] \<Rightarrow> []
      | c # cs \<Rightarrow>
          (case marker_here opening s of
             None \<Rightarrow> find_markers opening cs
           | Some d \<Rightarrow> d # find_markers opening (drop (length opening + 63 + length MARKER_END) cs)))"
  by pat_completeness auto
termination by (relation "measure (\<lambda>(opening, s). length s)") auto

declare find_markers.simps [simp del]

definition MARKER_OPENING :: string where "MARKER_OPENING = ''<!-- citypods:remedy:v1:''"

definition LEGACY_OPENING :: string where "LEGACY_OPENING = ''<!-- citypods:remedy-p3:key=''"

definition parse_markers :: "string option \<Rightarrow> string list" where
  "parse_markers body =
     (let text = (case body of None \<Rightarrow> '''' | Some b \<Rightarrow> b)
      in sorted_set (find_markers MARKER_OPENING text @ find_markers LEGACY_OPENING text))"

subsection \<open>Branch names\<close>

definition strip_hyphens :: "string \<Rightarrow> string" where
  "strip_hyphens s = rev (dropWhile (\<lambda>c. c = CHR ''-'') (rev (dropWhile (\<lambda>c. c = CHR ''-'') s)))"

text \<open>\<open>hyphenate\<close> is \<open>re.sub(r"[^a-z0-9]+", "-", text)\<close>; the limit is the default 40.\<close>

definition slug_component :: "string \<Rightarrow> exn + string" where
  "slug_component text =
     (let s = strip_hyphens (take 40 (strip_hyphens (hyphenate False (py_lower text))))
      in if s = '''' then Inl ValueError else Inr s)"

definition group_hash :: "(string \<Rightarrow> string) \<Rightarrow> string list \<Rightarrow> string" where
  "group_hash sha256 ids = take 12 (sha256 (py_join [CHR 0x0A] (sorted_set ids)))"

text \<open>
  \<open>fix/remedy-[a-z0-9-]+-[0-9a-f]{12}\<close>: the last thirteen characters are a hyphen and the hash.
\<close>

definition branch_shape :: "string \<Rightarrow> bool" where
  "branch_shape name =
     (let rest = drop (length ''fix/remedy-'') name; n = length rest - 13 in
      py_startswith name ''fix/remedy-'' \<and> 14 \<le> length rest \<and>
      list_all (\<lambda>c. is_lower_alnum c \<or> c = CHR ''-'') (take n rest) \<and>
      rest ! n = CHR ''-'' \<and> list_all is_hex (drop (Suc n) rest))"

definition branch_name :: "(string \<Rightarrow> string) \<Rightarrow> string \<Rightarrow> string \<Rightarrow> string list \<Rightarrow> exn + string" where
  "branch_name sha256 city family decision_ids =
     (let ids = sorted_set decision_ids in
      if ids = [] then Inl ValueError
      else bindE (mapE marker ids) (\<lambda>_.
           bindE (slug_component city) (\<lambda>c.
           bindE (slug_component family) (\<lambda>f.
             let name = ''fix/remedy-'' @ c @ ''-'' @ f @ ''-'' @ group_hash sha256 ids
             in if branch_shape name then Inr name else Inl ValueError))))"

text \<open>\<open>head_ref.rsplit("-", 1)[-1]\<close> is the text behind the last hyphen.\<close>

definition branch_matches :: "(string \<Rightarrow> string) \<Rightarrow> string option \<Rightarrow> string list \<Rightarrow> bool" where
  "branch_matches sha256 head_ref decision_ids =
     (case head_ref of None \<Rightarrow> False
      | Some ref \<Rightarrow>
          branch_shape ref \<and>
          rev (takeWhile (\<lambda>c. c \<noteq> CHR ''-'') (rev ref)) = group_hash sha256 decision_ids)"

subsection \<open>Candidates, ledger views and artifacts\<close>

datatype artifact_kind = PullRequest | IssueArtifact

datatype artifact_state = OpenArtifact | ClosedArtifact | MergedArtifact

record publication_candidate =
  pc_decision_id :: string
  pc_city :: string
  pc_family :: string
  pc_outcome :: string
  pc_kind :: artifact_kind
  pc_eligible_since :: datetime
  pc_evidence_hash :: string
  pc_new_body :: bool
  pc_automatic_alias :: bool
  pc_reopen_requested :: bool
  pc_refines :: "string option"

record ledger_view =
  lv_state :: string
  lv_disposition :: "string option"
  lv_evidence_hash :: string
  lv_reopened :: bool
  lv_artifact_ref :: "string option"

record remedy_artifact =
  ra_kind :: artifact_kind
  ra_number :: int
  ra_url :: string
  ra_state :: artifact_state
  ra_opened_at :: datetime
  ra_decision_ids :: "string list"
  ra_reopened_at :: "datetime list"
  ra_head_ref :: json
  ra_actor :: string
  ra_body :: string
  ra_head_repo :: string
  ra_settled_by :: string
  ra_settled_at :: "datetime option"

record github_snapshot =
  gs_artifacts :: "remedy_artifact list"
  gs_complete :: bool

record publication_limits =
  li_decisions_per_pr :: int
  li_prs_per_rolling_week :: int
  li_open_prs :: int
  li_active_directional_issues :: int

text \<open>The bounds the validated configuration puts on them (\<open>Limits\<close> of \<open>remedy_evaluation.py\<close>).\<close>

definition valid_limits :: "publication_limits \<Rightarrow> bool" where
  "valid_limits l \<longleftrightarrow>
     1 \<le> li_decisions_per_pr l \<and> li_decisions_per_pr l \<le> 5 \<and>
     1 \<le> li_prs_per_rolling_week l \<and> li_prs_per_rolling_week l \<le> 8 \<and>
     1 \<le> li_open_prs l \<and> li_open_prs l \<le> 8 \<and>
     1 \<le> li_active_directional_issues l \<and> li_active_directional_issues l \<le> 12"

subsection \<open>Plans\<close>

record planned_pr =
  np_branch :: string
  np_city :: string
  np_family :: string
  np_outcome :: string
  np_decision_ids :: "string list"

record planned_issue =
  ni_decision_id :: string
  ni_city :: string
  ni_refines :: "string option"

record artifact_change =
  ac_artifact :: remedy_artifact
  ac_decision_ids :: "string list"

record queued_decision =
  qu_decision_id :: string
  qu_city :: string
  qu_kind :: artifact_kind
  qu_reason :: string
  qu_eligible_since :: datetime
  qu_age_days :: rat

record skipped_decision =
  sk_decision_id :: string
  sk_reason :: string

record publication_budget =
  pb_opened_in_window :: int
  pb_open_prs :: int
  pb_active_issues :: int
  pb_pr_slots :: int
  pb_issue_slots :: int
  pb_weekly_limit :: int
  pb_open_limit :: int
  pb_issue_limit :: int

record publication_plan =
  pn_prs :: "planned_pr list"
  pn_issues :: "planned_issue list"
  pn_updates :: "artifact_change list"
  pn_reopens :: "artifact_change list"
  pn_queued :: "queued_decision list"
  pn_skipped :: "skipped_decision list"
  pn_budget :: "publication_budget option"
  pn_notes :: "string list"

text \<open>\<open>round(x, 2)\<close> of the days since, never negative.\<close>

definition waiting_days :: "datetime \<Rightarrow> instant \<Rightarrow> rat" where
  "waiting_days since now =
     of_int (round_half_even (max 0 (of_int (now - aware since) / 1000000) / 86400 * 100)) / 100"

subsection \<open>Round robin over the cities\<close>

definition candidate_key :: "publication_candidate \<Rightarrow> instant \<times> string \<times> string" where
  "candidate_key c = (aware (pc_eligible_since c), pc_city c, pc_decision_id c)"

definition enqueue_city ::
  "publication_candidate \<Rightarrow> (string \<times> publication_candidate list) list \<Rightarrow> (string \<times> publication_candidate list) list" where
  "enqueue_city c queues =
     AList.update (pc_city c) ((case map_of queues (pc_city c) of None \<Rightarrow> [] | Some q \<Rightarrow> q) @ [c]) queues"

definition by_city :: "publication_candidate list \<Rightarrow> (string \<times> publication_candidate list) list" where
  "by_city cs = fold enqueue_city (sort_key candidate_key cs) []"

text \<open>One round: the first of every queue, oldest first; then each queue has lost it and the empty ones go.\<close>

definition round_heads :: "(string \<times> publication_candidate list) list \<Rightarrow> publication_candidate list" where
  "round_heads queues =
     map fst (sort_key (\<lambda>(head, city). (aware (pc_eligible_since head), city, pc_decision_id head))
       (map (\<lambda>(city, queue). (hd queue, city)) queues))"

definition pop_heads ::
  "(string \<times> publication_candidate list) list \<Rightarrow> (string \<times> publication_candidate list) list" where
  "pop_heads queues = filter (\<lambda>(city, queue). queue \<noteq> []) (map (\<lambda>(city, queue). (city, tl queue)) queues)"

definition queue_weight :: "(string \<times> publication_candidate list) list \<Rightarrow> nat" where
  "queue_weight queues = sum_list (map (\<lambda>(city, queue). Suc (length queue)) queues)"

lemma pop_heads_Cons:
  "pop_heads ((city, queue) # queues) =
     (if tl queue = [] then pop_heads queues else (city, tl queue) # pop_heads queues)"
  by (simp add: pop_heads_def)

lemma queue_weight_pop: "queue_weight (pop_heads queues) \<le> queue_weight queues"
  by (induction queues) (auto simp: pop_heads_Cons queue_weight_def pop_heads_def)

lemma queue_weight_pop_less: "queues \<noteq> [] \<Longrightarrow> queue_weight (pop_heads queues) < queue_weight queues"
proof (cases queues)
  case (Cons q rest)
  then show ?thesis
    using queue_weight_pop [of rest]
    by (cases q; cases "snd q") (auto simp: pop_heads_Cons queue_weight_def)
qed simp

function rounds :: "(string \<times> publication_candidate list) list \<Rightarrow> publication_candidate list" where
  "rounds queues = (if queues = [] then [] else round_heads queues @ rounds (pop_heads queues))"
  by pat_completeness auto
termination by (relation "measure queue_weight") (auto simp: queue_weight_pop_less)

declare rounds.simps [simp del]

definition round_robin :: "publication_candidate list \<Rightarrow> publication_candidate list" where
  "round_robin cs = rounds (by_city cs)"

subsection \<open>Sorting the candidates out\<close>

text \<open>\<open>by_decision[id]\<close>: the artifacts that carry a marker of the decision, in the order of the snapshot.\<close>

definition artifacts_of :: "remedy_artifact list \<Rightarrow> string \<Rightarrow> remedy_artifact list" where
  "artifacts_of artifacts decision_id =
     concat (map (\<lambda>a. map (\<lambda>_. a) (filter (\<lambda>i. i = decision_id) (ra_decision_ids a))) artifacts)"

record triage =
  tg_skipped :: "skipped_decision list"
  tg_updates :: "(int \<times> string list) list"
  tg_update_artifacts :: "(int \<times> remedy_artifact) list"
  tg_reopen_ids :: "(int \<times> publication_candidate list) list"
  tg_reopen_artifacts :: "(int \<times> remedy_artifact) list"
  tg_fresh :: "publication_candidate list"
  tg_seen :: "(string \<times> artifact_kind) list"

definition empty_triage :: triage where
  "empty_triage =
     \<lparr>tg_skipped = [], tg_updates = [], tg_update_artifacts = [], tg_reopen_ids = [],
      tg_reopen_artifacts = [], tg_fresh = [], tg_seen = []\<rparr>"

text \<open>\<open>d[k].append(x)\<close> of a \<open>defaultdict(list)\<close>.\<close>

definition append_at :: "int \<Rightarrow> 'a \<Rightarrow> (int \<times> 'a list) list \<Rightarrow> (int \<times> 'a list) list" where
  "append_at k x d = AList.update k ((case map_of d k of None \<Rightarrow> [] | Some xs \<Rightarrow> xs) @ [x]) d"

definition TERMINAL_STATES :: "string list" where
  "TERMINAL_STATES = [''covered'', ''excluded'', ''resolved'']"

definition settled_reason ::
  "(string \<Rightarrow> ledger_view option) \<Rightarrow> publication_candidate \<Rightarrow> string option" where
  "settled_reason ledger c =
     (case ledger (pc_decision_id c) of None \<Rightarrow> None
      | Some view \<Rightarrow>
          if lv_evidence_hash view \<noteq> pc_evidence_hash c then None
          else if lv_state view \<in> set TERMINAL_STATES then Some ''terminal_disposition_current''
          else if lv_disposition view = Some ''rejected'' \<and> pc_refines c = None
          then Some ''rejected_unchanged_evidence''
          else None)"

definition state_text :: "artifact_state \<Rightarrow> string" where
  "state_text s = (case s of OpenArtifact \<Rightarrow> ''open'' | ClosedArtifact \<Rightarrow> ''closed'' | MergedArtifact \<Rightarrow> ''merged'')"

definition skip_candidate :: "publication_candidate \<Rightarrow> string \<Rightarrow> triage \<Rightarrow> triage" where
  "skip_candidate c reason t =
     t\<lparr>tg_skipped := tg_skipped t @ [\<lparr>sk_decision_id = pc_decision_id c, sk_reason = reason\<rparr>]\<rparr>"

text \<open>The candidate has no open artifact: \<open>closed_one\<close> is the first closed or merged one.\<close>

definition triage_settled ::
  "remedy_artifact list \<Rightarrow> publication_candidate \<Rightarrow> triage \<Rightarrow> triage" where
  "triage_settled existing c t =
     (case find (\<lambda>a. ra_state a = ClosedArtifact \<or> ra_state a = MergedArtifact) existing of
        None \<Rightarrow> t\<lparr>tg_fresh := tg_fresh t @ [c]\<rparr>
      | Some a \<Rightarrow>
          if pc_reopen_requested c \<and> ra_state a = ClosedArtifact
          then t\<lparr>tg_reopen_ids := append_at (ra_number a) c (tg_reopen_ids t),
                 tg_reopen_artifacts := AList.update (ra_number a) a (tg_reopen_artifacts t)\<rparr>
          else skip_candidate c (''already_'' @ state_text (ra_state a)) t)"

definition triage_candidate ::
  "(string \<Rightarrow> ledger_view option) \<Rightarrow> remedy_artifact list \<Rightarrow> publication_candidate \<Rightarrow> triage \<Rightarrow> triage" where
  "triage_candidate ledger artifacts c t =
     (let identity = (pc_decision_id c, pc_kind c) in
      if identity \<in> set (tg_seen t) then skip_candidate c ''duplicate_candidate'' t
      else
        let t = t\<lparr>tg_seen := tg_seen t @ [identity]\<rparr> in
        case settled_reason ledger c of
          Some reason \<Rightarrow> skip_candidate c reason t
        | None \<Rightarrow>
            let existing = filter (\<lambda>a. ra_kind a = pc_kind c) (artifacts_of artifacts (pc_decision_id c)) in
            case find (\<lambda>a. ra_state a = OpenArtifact) existing of
              Some a \<Rightarrow>
                t\<lparr>tg_updates := append_at (ra_number a) (pc_decision_id c) (tg_updates t),
                  tg_update_artifacts := AList.update (ra_number a) a (tg_update_artifacts t)\<rparr>
            | None \<Rightarrow> triage_settled existing c t)"

definition triage_all ::
  "(string \<Rightarrow> ledger_view option) \<Rightarrow> remedy_artifact list \<Rightarrow> publication_candidate list \<Rightarrow> triage" where
  "triage_all ledger artifacts cs = fold (triage_candidate ledger artifacts) cs empty_triage"

subsection \<open>Admission\<close>

text \<open>A pull request while it is being filled: the dictionary of \<open>planned_prs\<close>.\<close>

record open_plan =
  op_city :: string
  op_family :: string
  op_outcome :: string
  op_ids :: "string list"
  op_alias :: bool
  op_new_body :: bool

record admission =
  am_weekly_left :: int
  am_open_left :: int
  am_issue_slots :: int
  am_reopens :: "artifact_change list"
  am_prs :: "open_plan list"
  am_issues :: "planned_issue list"
  am_queued :: "queued_decision list"

definition queued_as :: "instant \<Rightarrow> string \<Rightarrow> publication_candidate \<Rightarrow> queued_decision" where
  "queued_as now reason c =
     \<lparr>qu_decision_id = pc_decision_id c, qu_city = pc_city c, qu_kind = pc_kind c, qu_reason = reason,
      qu_eligible_since = pc_eligible_since c, qu_age_days = waiting_days (pc_eligible_since c) now\<rparr>"

definition defer_candidate :: "instant \<Rightarrow> string \<Rightarrow> publication_candidate \<Rightarrow> admission \<Rightarrow> admission" where
  "defer_candidate now reason c am = am\<lparr>am_queued := am_queued am @ [queued_as now reason c]\<rparr>"

definition take_pr_slot :: "admission \<Rightarrow> admission" where
  "take_pr_slot am = am\<lparr>am_weekly_left := am_weekly_left am - 1, am_open_left := am_open_left am - 1\<rparr>"

definition take_issue_slot :: "admission \<Rightarrow> admission" where
  "take_issue_slot am = am\<lparr>am_issue_slots := am_issue_slots am - 1\<rparr>"

definition reopen_one ::
  "instant \<Rightarrow> remedy_artifact \<times> publication_candidate list \<Rightarrow> admission \<Rightarrow> admission" where
  "reopen_one now r am =
     (case r of (a, cs) \<Rightarrow>
        let slots = (if ra_kind a = PullRequest then min (am_weekly_left am) (am_open_left am) else am_issue_slots am) in
        if slots \<le> 0 then fold (defer_candidate now ''reopen_budget'') cs am
        else
          let am = (if ra_kind a = PullRequest then take_pr_slot am else take_issue_slot am) in
          am\<lparr>am_reopens := am_reopens am @ [\<lparr>ac_artifact = a, ac_decision_ids = sort (map pc_decision_id cs)\<rparr>]\<rparr>)"

definition compatible :: "open_plan \<Rightarrow> publication_candidate \<Rightarrow> bool" where
  "compatible pr c \<longleftrightarrow>
     op_city pr = pc_city c \<and> op_family pr = pc_family c \<and> op_outcome pr = pc_outcome c \<and>
     \<not> (pc_new_body c \<and> op_alias pr) \<and> \<not> (pc_automatic_alias c \<and> op_new_body pr)"

definition has_room :: "publication_limits \<Rightarrow> publication_candidate \<Rightarrow> open_plan \<Rightarrow> bool" where
  "has_room limits c pr \<longleftrightarrow> int (length (op_ids pr)) < li_decisions_per_pr limits \<and> compatible pr c"

definition add_to_pr :: "publication_candidate \<Rightarrow> open_plan \<Rightarrow> open_plan" where
  "add_to_pr c pr =
     pr\<lparr>op_ids := op_ids pr @ [pc_decision_id c], op_alias := op_alias pr \<or> pc_automatic_alias c,
        op_new_body := op_new_body pr \<or> pc_new_body c\<rparr>"

definition empty_pr :: "publication_candidate \<Rightarrow> open_plan" where
  "empty_pr c =
     \<lparr>op_city = pc_city c, op_family = pc_family c, op_outcome = pc_outcome c, op_ids = [],
      op_alias = False, op_new_body = False\<rparr>"

text \<open>\<open>target = next(...)\<close>, then the dictionary it found is changed in place.\<close>

fun place_in_pr :: "publication_limits \<Rightarrow> publication_candidate \<Rightarrow> open_plan list \<Rightarrow> open_plan list option" where
  "place_in_pr limits c [] = None"
| "place_in_pr limits c (pr # prs) =
     (if has_room limits c pr then Some (add_to_pr c pr # prs)
      else map_option ((#) pr) (place_in_pr limits c prs))"

definition admit_issue :: "instant \<Rightarrow> publication_candidate \<Rightarrow> admission \<Rightarrow> admission" where
  "admit_issue now c am =
     (if 0 < am_issue_slots am
      then (take_issue_slot am)\<lparr>am_issues := am_issues am @
             [\<lparr>ni_decision_id = pc_decision_id c, ni_city = pc_city c, ni_refines = pc_refines c\<rparr>]\<rparr>
      else defer_candidate now ''issue_capacity'' c am)"

definition admit_pr :: "publication_limits \<Rightarrow> instant \<Rightarrow> publication_candidate \<Rightarrow> admission \<Rightarrow> admission" where
  "admit_pr limits now c am =
     (case place_in_pr limits c (am_prs am) of
        Some prs \<Rightarrow> am\<lparr>am_prs := prs\<rparr>
      | None \<Rightarrow>
          if am_weekly_left am \<le> 0 \<or> am_open_left am \<le> 0
          then defer_candidate now (if am_weekly_left am \<le> 0 then ''rolling_week_pr_budget'' else ''open_pr_cap'') c am
          else (take_pr_slot am)\<lparr>am_prs := am_prs am @ [add_to_pr c (empty_pr c)]\<rparr>)"

definition admit :: "publication_limits \<Rightarrow> instant \<Rightarrow> publication_candidate \<Rightarrow> admission \<Rightarrow> admission" where
  "admit limits now c am =
     (if pc_kind c = IssueArtifact then admit_issue now c am else admit_pr limits now c am)"

subsection \<open>The plan\<close>

definition ROLLING_WINDOW :: int where "ROLLING_WINDOW = 7 * us_per_day"

definition opened_in_window :: "instant \<Rightarrow> remedy_artifact list \<Rightarrow> int" where
  "opened_in_window now prs =
     int (length (filter (\<lambda>a. now - ROLLING_WINDOW \<le> aware (ra_opened_at a)) prs)) +
     int (length (filter (\<lambda>stamp. now - ROLLING_WINDOW \<le> aware stamp) (concat (map ra_reopened_at prs))))"

definition open_artifacts :: "artifact_kind \<Rightarrow> remedy_artifact list \<Rightarrow> int" where
  "open_artifacts kind artifacts =
     int (length (filter (\<lambda>a. ra_kind a = kind \<and> ra_state a = OpenArtifact) artifacts))"

definition count_budget :: "publication_limits \<Rightarrow> instant \<Rightarrow> remedy_artifact list \<Rightarrow> publication_budget" where
  "count_budget limits now artifacts =
     (let opened = opened_in_window now (filter (\<lambda>a. ra_kind a = PullRequest) artifacts);
          prs = open_artifacts PullRequest artifacts; issues = open_artifacts IssueArtifact artifacts
      in \<lparr>pb_opened_in_window = opened, pb_open_prs = prs, pb_active_issues = issues,
          pb_pr_slots = min (max 0 (li_prs_per_rolling_week limits - opened)) (max 0 (li_open_prs limits - prs)),
          pb_issue_slots = max 0 (li_active_directional_issues limits - issues),
          pb_weekly_limit = li_prs_per_rolling_week limits, pb_open_limit = li_open_prs limits,
          pb_issue_limit = li_active_directional_issues limits\<rparr>)"

definition start_admission :: "publication_budget \<Rightarrow> admission" where
  "start_admission b =
     \<lparr>am_weekly_left = max 0 (pb_weekly_limit b - pb_opened_in_window b),
      am_open_left = max 0 (pb_open_limit b - pb_open_prs b), am_issue_slots = pb_issue_slots b,
      am_reopens = [], am_prs = [], am_issues = [], am_queued = []\<rparr>"

text \<open>\<open>sorted(d.items())\<close>, each number with the artifact stored under it.\<close>

definition by_number :: "(int \<times> 'a) list \<Rightarrow> (int \<times> remedy_artifact) list \<Rightarrow> (remedy_artifact \<times> 'a) list" where
  "by_number d artifacts = map (\<lambda>(number, x). (the (map_of artifacts number), x)) (sort_key fst d)"

definition admit_all :: "publication_limits \<Rightarrow> instant \<Rightarrow> publication_budget \<Rightarrow> triage \<Rightarrow> admission" where
  "admit_all limits now b t =
     fold (admit limits now) (round_robin (tg_fresh t))
       (fold (reopen_one now) (by_number (tg_reopen_ids t) (tg_reopen_artifacts t)) (start_admission b))"

definition finish_pr :: "(string \<Rightarrow> string) \<Rightarrow> open_plan \<Rightarrow> exn + planned_pr" where
  "finish_pr sha256 pr =
     bindE (branch_name sha256 (op_city pr) (op_family pr) (op_ids pr)) (\<lambda>branch.
       Inr \<lparr>np_branch = branch, np_city = op_city pr, np_family = op_family pr, np_outcome = op_outcome pr,
            np_decision_ids = sort (op_ids pr)\<rparr>)"

definition plan_publications ::
  "(string \<Rightarrow> string) \<Rightarrow> publication_candidate list \<Rightarrow> (string \<Rightarrow> ledger_view option) \<Rightarrow> github_snapshot \<Rightarrow>
   publication_limits \<Rightarrow> datetime \<Rightarrow> exn + publication_plan" where
  "plan_publications sha256 candidates ledger snapshot limits now_arg =
     (let now = aware now_arg in
      if \<not> gs_complete snapshot
      then Inr \<lparr>pn_prs = [], pn_issues = [], pn_updates = [], pn_reopens = [],
                pn_queued = map (queued_as now ''github_snapshot_incomplete'') (round_robin candidates),
                pn_skipped = [], pn_budget = None,
                pn_notes = [''the GitHub snapshot was incomplete, so no slot was reserved'']\<rparr>
      else
        let b = count_budget limits now (gs_artifacts snapshot);
            t = triage_all ledger (gs_artifacts snapshot) candidates;
            am = admit_all limits now b t
        in bindE (mapE (finish_pr sha256) (am_prs am)) (\<lambda>prs.
             Inr \<lparr>pn_prs = prs, pn_issues = am_issues am,
                  pn_updates = map (\<lambda>(a, ids). \<lparr>ac_artifact = a, ac_decision_ids = sort ids\<rparr>)
                    (by_number (tg_updates t) (tg_update_artifacts t)),
                  pn_reopens = am_reopens am, pn_queued = am_queued am, pn_skipped = tg_skipped t,
                  pn_budget = Some b, pn_notes = []\<rparr>))"

subsection \<open>The report\<close>

definition kind_text :: "artifact_kind \<Rightarrow> string" where
  "kind_text k = (case k of PullRequest \<Rightarrow> ''pr'' | IssueArtifact \<Rightarrow> ''issue'')"

definition change_report :: "artifact_change \<Rightarrow> json" where
  "change_report u =
     JObj [(''url'', JStr (ra_url (ac_artifact u))), (''kind'', JStr (kind_text (ra_kind (ac_artifact u)))),
           (''decisions'', JList (map JStr (ac_decision_ids u)))]"

definition opt_str :: "string option \<Rightarrow> json" where
  "opt_str s = (case s of None \<Rightarrow> JNull | Some t \<Rightarrow> JStr t)"

definition plan_report :: "publication_plan \<Rightarrow> pydict" where
  "plan_report plan =
     [(''budget'',
       (case pn_budget plan of None \<Rightarrow> JNull
        | Some b \<Rightarrow>
            JObj [(''opened_in_window'', JInt (pb_opened_in_window b)), (''weekly_limit'', JInt (pb_weekly_limit b)),
                  (''open_prs'', JInt (pb_open_prs b)), (''open_limit'', JInt (pb_open_limit b)),
                  (''active_issues'', JInt (pb_active_issues b)), (''issue_limit'', JInt (pb_issue_limit b)),
                  (''pr_slots_before'', JInt (pb_pr_slots b)), (''issue_slots_before'', JInt (pb_issue_slots b))])),
      (''new_prs'',
       JList (map (\<lambda>p. JObj [(''branch'', JStr (np_branch p)), (''city'', JStr (np_city p)),
                             (''family'', JStr (np_family p)), (''outcome'', JStr (np_outcome p)),
                             (''decisions'', JList (map JStr (np_decision_ids p)))]) (pn_prs plan))),
      (''new_issues'',
       JList (map (\<lambda>i. JObj [(''decision'', JStr (ni_decision_id i)), (''city'', JStr (ni_city i)),
                             (''refines'', opt_str (ni_refines i))]) (pn_issues plan))),
      (''updates'', JList (map change_report (pn_updates plan))),
      (''reopens'', JList (map change_report (pn_reopens plan))),
      (''queued'',
       JList (map (\<lambda>q. JObj [(''decision'', JStr (qu_decision_id q)), (''city'', JStr (qu_city q)),
                             (''kind'', JStr (kind_text (qu_kind q))), (''reason'', JStr (qu_reason q)),
                             (''age_days'', JFloat (qu_age_days q))]) (pn_queued plan))),
      (''skipped'',
       JList (map (\<lambda>s. JObj [(''decision'', JStr (sk_decision_id s)), (''reason'', JStr (sk_reason s))])
         (pn_skipped plan))),
      (''notes'', JList (map JStr (pn_notes plan)))]"

subsection \<open>Reading the snapshot\<close>

text \<open>\<open>(x or {})\<close> whose \<open>.get\<close> is called, and \<open>(x or [])\<close> that is iterated.\<close>

definition mapping_or_empty :: "json \<Rightarrow> exn + pydict" where
  "mapping_or_empty j =
     (if py_truthy j then (case j of JObj d \<Rightarrow> Inr d | _ \<Rightarrow> Inl (AttributeError ''get'')) else Inr [])"

definition items_or_empty :: "json \<Rightarrow> exn + json list" where
  "items_or_empty j = (if py_truthy j then py_iter j else Inr [])"

definition text_or_empty :: "json \<Rightarrow> string" where
  "text_or_empty j = (if py_truthy j then py_str j else '''')"

definition login :: "json \<Rightarrow> string" where
  "login actor =
     (case actor of
        JObj d \<Rightarrow>
          (let name = text_or_empty (dget d ''login'' JNull) in
           if name \<noteq> '''' \<and> dget d ''__typename'' JNull = JStr ''Bot'' \<and> \<not> py_endswith name ''[bot]''
           then name @ ''[bot]'' else name)
      | _ \<Rightarrow> '''')"

text \<open>\<open>datetime.fromisoformat(str(value).replace("Z", "+00:00"))\<close>\<close>

definition replace_z :: "string \<Rightarrow> string" where
  "replace_z s = concat (map (\<lambda>c. if c = CHR ''Z'' then ''+00:00'' else [c]) s)"

definition read_time :: "(string \<Rightarrow> datetime option) \<Rightarrow> json \<Rightarrow> exn + datetime" where
  "read_time fromiso j = (case fromiso (replace_z (py_str j)) of None \<Rightarrow> Inl ValueError | Some t \<Rightarrow> Inr t)"

text \<open>\<open>node.get("body") or ""\<close> given to \<open>findall\<close>.\<close>

definition body_markers :: "json \<Rightarrow> exn + string list" where
  "body_markers j =
     (if py_truthy j then (case j of JStr s \<Rightarrow> Inr (parse_markers (Some s)) | _ \<Rightarrow> Inl TypeError)
      else Inr (parse_markers None))"

definition node_state :: "pydict \<Rightarrow> artifact_state option" where
  "node_state node =
     (let state = py_lower (text_or_empty (dget node ''state'' JNull)) in
      if state = ''merged'' \<or> py_truthy (dget node ''mergedAt'' JNull) then Some MergedArtifact
      else if state = ''open'' then Some OpenArtifact
      else if state = ''closed'' then Some ClosedArtifact else None)"

text \<open>The timeline events with a time, as dictionaries.\<close>

definition timed_events :: "pydict \<Rightarrow> exn + pydict list" where
  "timed_events node =
     bindE (mapping_or_empty (dget node ''timelineItems'' JNull)) (\<lambda>items.
     bindE (items_or_empty (dget items ''nodes'' JNull)) (\<lambda>events.
       Inr [d. JObj d \<leftarrow> events, py_truthy (dget d ''createdAt'' JNull)]))"

definition is_close_event :: "pydict \<Rightarrow> bool" where
  "is_close_event d \<longleftrightarrow> dget d ''__typename'' JNull = JStr ''ClosedEvent''"

text \<open>\<open>max(closes, key=...)\<close> keeps the first of the largest; the times are texts.\<close>

definition last_close :: "pydict list \<Rightarrow> pydict option" where
  "last_close closes =
     (case closes of [] \<Rightarrow> None
      | d # ds \<Rightarrow>
          Some (fold (\<lambda>e best. if py_str (dget best ''createdAt'' JNull) < py_str (dget e ''createdAt'' JNull) then e else best)
            ds d))"

definition settlement ::
  "(string \<Rightarrow> datetime option) \<Rightarrow> artifact_state \<Rightarrow> pydict \<Rightarrow> pydict list \<Rightarrow> exn + string \<times> datetime option" where
  "settlement fromiso state node events =
     (case (state, last_close (filter is_close_event events)) of
        (MergedArtifact, _) \<Rightarrow>
          if py_truthy (dget node ''mergedAt'' JNull)
          then bindE (read_time fromiso (dget node ''mergedAt'' JNull)) (\<lambda>t. Inr (login (dget node ''mergedBy'' JNull), Some t))
          else Inr (login (dget node ''mergedBy'' JNull), None)
      | (ClosedArtifact, Some event) \<Rightarrow>
          bindE (read_time fromiso (dget event ''createdAt'' JNull)) (\<lambda>t. Inr (login (dget event ''actor'' JNull), Some t))
      | _ \<Rightarrow> Inr ('''', None))"

definition parse_node ::
  "(string \<Rightarrow> datetime option) \<Rightarrow> pydict \<Rightarrow> string list \<Rightarrow> artifact_state \<Rightarrow> exn + remedy_artifact" where
  "parse_node fromiso node ids state =
     bindE (timed_events node) (\<lambda>events.
     bindE (mapE (\<lambda>d. read_time fromiso (dget d ''createdAt'' JNull)) (filter (\<lambda>d. \<not> is_close_event d) events)) (\<lambda>reopened.
     bindE (settlement fromiso state node events) (\<lambda>(settled_by, settled_at).
     bindE (py_int (dget node ''number'' JNull)) (\<lambda>number.
     bindE (case map_of node ''createdAt'' of None \<Rightarrow> Inl KeyError | Some j \<Rightarrow> read_time fromiso j) (\<lambda>opened.
     bindE (mapping_or_empty (dget node ''headRepository'' JNull)) (\<lambda>repo.
       Inr \<lparr>ra_kind = (if map_of node ''headRefName'' \<noteq> None then PullRequest else IssueArtifact),
            ra_number = number, ra_url = text_or_empty (dget node ''url'' JNull), ra_state = state,
            ra_opened_at = opened, ra_decision_ids = ids, ra_reopened_at = reopened,
            ra_head_ref = dget node ''headRefName'' JNull, ra_actor = login (dget node ''author'' JNull),
            ra_body = text_or_empty (dget node ''body'' JNull),
            ra_head_repo = text_or_empty (dget repo ''nameWithOwner'' JNull),
            ra_settled_by = settled_by, ra_settled_at = settled_at\<rparr>))))))"

text \<open>One element of the loop: no artifact, or the artifact of a marked node.\<close>

definition parse_entry :: "(string \<Rightarrow> datetime option) \<Rightarrow> json \<Rightarrow> exn + remedy_artifact list" where
  "parse_entry fromiso entry =
     (case entry of
        JObj node \<Rightarrow>
          if map_of node ''number'' = None then Inr []
          else bindE (body_markers (dget node ''body'' JNull)) (\<lambda>ids.
                 case node_state node of
                   Some state \<Rightarrow>
                     if ids = [] then Inr [] else bindE (parse_node fromiso node ids state) (\<lambda>a. Inr [a])
                 | None \<Rightarrow> Inr [])
      | _ \<Rightarrow> Inr [])"

definition snapshot_complete :: "pydict \<Rightarrow> json \<Rightarrow> nat \<Rightarrow> bool" where
  "snapshot_complete info matches listed \<longleftrightarrow>
     \<not> py_truthy (dget info ''hasNextPage'' JNull) \<and>
     (case matches of JInt n \<Rightarrow> n \<le> int listed | JBool b \<Rightarrow> (if b then 1 else 0) \<le> listed | _ \<Rightarrow> True)"

definition parse_snapshot :: "(string \<Rightarrow> datetime option) \<Rightarrow> pydict \<Rightarrow> exn + github_snapshot" where
  "parse_snapshot fromiso payload =
     bindE (items_or_empty (dget payload ''nodes'' JNull)) (\<lambda>nodes.
     bindE (mapE (parse_entry fromiso) nodes) (\<lambda>artifacts.
     bindE (mapping_or_empty (dget payload ''pageInfo'' JNull)) (\<lambda>info.
       Inr \<lparr>gs_artifacts = concat artifacts,
            gs_complete = snapshot_complete info (dget payload ''issueCount'' JNull) (length nodes)\<rparr>)))"

end
