(* ===== verification/Remedy_Properties.thy ===== *)
theory Remedy_Properties
  imports Remedy_Queue "HOL-Library.Multiset"
begin

section \<open>What a publication plan guarantees\<close>

text \<open>
  The cities take turns and each city is served oldest first; every candidate is accounted for exactly once;
  the budgets are never exceeded, and a decision stays queued only when its budget is spent; a new pull
  request carries compatible decisions that have no artifact yet; the markers of a body are read back.
\<close>

subsection \<open>Round robin\<close>

text \<open>A queue per city, none of them empty, each with candidates of its own city.\<close>

definition city_queues :: "(string \<times> publication_candidate list) list \<Rightarrow> bool" where
  "city_queues queues \<longleftrightarrow>
     distinct (map fst queues) \<and> list_all (\<lambda>(city, queue). queue \<noteq> [] \<and> (\<forall>c \<in> set queue. pc_city c = city)) queues"

lemma city_queues_Nil [simp]: "city_queues []"
  by (simp add: city_queues_def)

lemma city_queues_Cons [simp]:
  "city_queues ((x, q) # queues) \<longleftrightarrow>
     x \<notin> fst ` set queues \<and> q \<noteq> [] \<and> (\<forall>c \<in> set q. pc_city c = x) \<and> city_queues queues"
  by (auto simp: city_queues_def)

lemma pop_heads_keys: "fst ` set (pop_heads queues) \<subseteq> fst ` set queues"
  by (force simp: pop_heads_def)

lemma city_queues_pop: "city_queues queues \<Longrightarrow> city_queues (pop_heads queues)"
proof (induction queues)
  case (Cons q queues)
  then show ?case
    using pop_heads_keys [of queues] by (cases q; cases "snd q") (auto simp: pop_heads_Cons)
qed (simp add: pop_heads_def)

lemma mset_round_heads: "mset (round_heads queues) = mset (map (\<lambda>q. hd (snd q)) queues)"
  by (simp add: round_heads_def case_prod_beta comp_def multiset.map_comp)

lemma mset_pop_heads:
  "city_queues queues \<Longrightarrow>
   mset (round_heads queues) + mset (concat (map snd (pop_heads queues))) = mset (concat (map snd queues))"
proof (induction queues)
  case (Cons q queues)
  obtain city c rest where q: "q = (city, c # rest)"
    using Cons.prems by (cases q; cases "snd q") (auto simp: city_queues_def)
  have "city_queues queues"
    using Cons.prems by (simp add: city_queues_def)
  then show ?case
    using Cons.IH q by (simp add: mset_round_heads pop_heads_Cons ac_simps)
qed (simp add: round_heads_def pop_heads_def)

lemma mset_rounds: "city_queues queues \<Longrightarrow> mset (rounds queues) = mset (concat (map snd queues))"
proof (induction queues rule: rounds.induct)
  case (1 queues)
  show ?case
  proof (cases "queues = []")
    case False
    then show ?thesis
      using 1 mset_pop_heads [OF 1(2)] by (subst rounds.simps) (simp add: city_queues_pop)
  qed (simp add: rounds.simps)
qed

lemma map_of_enqueue:
  "map_of (enqueue_city c queues) x =
     (if x = pc_city c then Some ((case map_of queues x of None \<Rightarrow> [] | Some q \<Rightarrow> q) @ [c]) else map_of queues x)"
  by (simp add: enqueue_city_def dict_simps)

lemma city_queues_iff:
  "city_queues queues \<longleftrightarrow>
     distinct (map fst queues) \<and>
     (\<forall>x q. map_of queues x = Some q \<longrightarrow> q \<noteq> [] \<and> (\<forall>c \<in> set q. pc_city c = x))"
  unfolding city_queues_def list_all_iff Ball_def split_paired_All by (auto cong: conj_cong)

lemma city_queues_enqueue: "city_queues queues \<Longrightarrow> city_queues (enqueue_city c queues)"
proof -
  assume *: "city_queues queues"
  then have "distinct (map fst (enqueue_city c queues))"
    by (simp add: enqueue_city_def city_queues_def distinct_update)
  with * show ?thesis
    unfolding city_queues_iff map_of_enqueue
    by (auto split: option.splits if_splits)
qed

lemma fold_enqueue:
  "city_queues queues \<Longrightarrow>
   city_queues (fold enqueue_city cs queues) \<and>
   (\<forall>x. (case map_of (fold enqueue_city cs queues) x of None \<Rightarrow> [] | Some q \<Rightarrow> q) =
        (case map_of queues x of None \<Rightarrow> [] | Some q \<Rightarrow> q) @ filter (\<lambda>c. pc_city c = x) cs)"
proof (induction cs arbitrary: queues)
  case (Cons c cs)
  then show ?case
    using Cons.IH [OF city_queues_enqueue [OF Cons.prems, of c]] by (simp add: map_of_enqueue)
qed simp

text \<open>The queue of a city, empty when it has none.\<close>

definition queue_of :: "(string \<times> publication_candidate list) list \<Rightarrow> string \<Rightarrow> publication_candidate list" where
  "queue_of queues x = (case map_of queues x of None \<Rightarrow> [] | Some q \<Rightarrow> q)"

lemma by_city_queues: "city_queues (by_city cs)"
  using fold_enqueue [of "[]" "sort_key candidate_key cs"] by (simp add: by_city_def city_queues_def)

lemma queue_of_by_city: "queue_of (by_city cs) x = filter (\<lambda>c. pc_city c = x) (sort_key candidate_key cs)"
  using fold_enqueue [of "[]" "sort_key candidate_key cs"] by (simp add: by_city_def city_queues_def queue_of_def)

lemma filter_mset_queues:
  "city_queues queues \<Longrightarrow> filter (\<lambda>c. pc_city c = x) (concat (map snd queues)) = queue_of queues x"
proof (induction queues)
  case (Cons q queues)
  obtain y b where q: "q = (y, b)"
    by (cases q)
  have *: "filter (\<lambda>c. pc_city c = x) (concat (map snd queues)) = queue_of queues x"
    and y: "y \<notin> fst ` set queues" and b: "\<And>c. c \<in> set b \<Longrightarrow> pc_city c = y"
    using Cons q by auto
  have "queue_of queues y = []"
    using y map_of_eq_None_iff [of queues y] by (simp add: queue_of_def)
  then show ?case
    using * q b by (cases "x = y") (auto simp: queue_of_def filter_empty_conv intro: filter_True)
qed (simp add: queue_of_def)

text \<open>A round takes one candidate of every city that has one; the queues of the next round are the tails.\<close>

definition of_city :: "string \<Rightarrow> publication_candidate list \<Rightarrow> publication_candidate list" where
  "of_city x cs = filter (\<lambda>c. pc_city c = x) cs"

lemma of_city_append [simp]: "of_city x (as @ bs) = of_city x as @ of_city x bs"
  by (simp add: of_city_def)

lemma queue_of_pop: "city_queues queues \<Longrightarrow> queue_of (pop_heads queues) x = tl (queue_of queues x)"
proof (induction queues)
  case (Cons q queues)
  obtain y b where q: "q = (y, b)"
    by (cases q)
  have y: "map_of (pop_heads queues) y = None"
    using Cons.prems pop_heads_keys [of queues] q unfolding map_of_eq_None_iff by auto
  with Cons q show ?case
    by (auto simp: queue_of_def pop_heads_Cons)
qed (simp add: queue_of_def pop_heads_def)

lemma of_city_heads: "city_queues queues \<Longrightarrow> of_city x (round_heads queues) = take 1 (queue_of queues x)"
proof -
  assume q: "city_queues queues"
  have "mset (of_city x (round_heads queues)) = mset (filter (\<lambda>c. pc_city c = x) (map (\<lambda>q. hd (snd q)) queues))"
    by (simp only: of_city_def mset_filter mset_round_heads)
  also have "filter (\<lambda>c. pc_city c = x) (map (\<lambda>q. hd (snd q)) queues) = take 1 (queue_of queues x)"
    using q
  proof (induction queues)
    case (Cons q queues)
    obtain y b where y: "q = (y, b)"
      by (cases q)
    have "queue_of queues y = []"
      using Cons.prems y map_of_eq_None_iff [of queues y] by (simp add: queue_of_def)
    with Cons y show ?case
      by (cases b) (auto simp: queue_of_def)
  qed (simp add: queue_of_def)
  finally show ?thesis
    by (cases "queue_of queues x") auto
qed

lemma of_city_rounds: "city_queues queues \<Longrightarrow> of_city x (rounds queues) = queue_of queues x"
proof (induction queues rule: rounds.induct)
  case (1 queues)
  show ?case
  proof (cases "queues = []")
    case False
    then show ?thesis
      using 1 of_city_heads [OF 1(2)] queue_of_pop [OF 1(2)]
      by (subst rounds.simps) (cases "queue_of queues x", simp_all add: city_queues_pop)
  qed (simp add: rounds.simps of_city_def queue_of_def)
qed

lemma set_rounds: "city_queues queues \<Longrightarrow> c \<in> set (rounds queues) \<Longrightarrow> queue_of queues (pc_city c) \<noteq> []"
  using of_city_rounds [of queues "pc_city c"] by (auto simp: of_city_def filter_empty_conv)

text \<open>Before any candidate, no city is more than one ahead of the candidate's own.\<close>

lemma rounds_fair:
  "city_queues queues \<Longrightarrow> i < length (rounds queues) \<Longrightarrow>
   length (of_city d (take i (rounds queues))) \<le> Suc (length (of_city (pc_city (rounds queues ! i)) (take i (rounds queues))))"
proof (induction queues arbitrary: i rule: rounds.induct)
  case (1 queues)
  let ?h = "round_heads queues" and ?r = "rounds (pop_heads queues)"
  have ne: "queues \<noteq> []"
    using 1(3) by (auto simp: rounds.simps)
  have split: "rounds queues = ?h @ ?r"
    using ne by (subst rounds.simps) simp
  have one: "length (of_city d ?h) \<le> 1"
    using of_city_heads [OF 1(2)] by (cases "queue_of queues d") auto
  show ?case
  proof (cases "i < length ?h")
    case True
    have "of_city d ?h = of_city d (take i ?h) @ of_city d (drop i ?h)"
      by (metis append_take_drop_id of_city_append)
    then have "length (of_city d (take i ?h)) \<le> length (of_city d ?h)"
      by simp
    then show ?thesis
      using True one by (simp add: split)
  next
    case False
    let ?c = "?r ! (i - length ?h)"
    have k: "i - length ?h < length ?r"
      using False 1(3) by (simp add: split)
    have "tl (queue_of queues (pc_city ?c)) \<noteq> []"
      using set_rounds [OF city_queues_pop [OF 1(2)] nth_mem [OF k]] queue_of_pop [OF 1(2)] by simp
    then have "length (of_city (pc_city ?c) ?h) = 1"
      using of_city_heads [OF 1(2)] by (cases "queue_of queues (pc_city ?c)") auto
    then show ?thesis
      using 1(1) [OF ne city_queues_pop [OF 1(2)] k] one False by (simp add: split nth_append)
  qed
qed

lemma mset_round_robin: "mset (round_robin cs) = mset cs"
proof -
  have "mset (round_robin cs) = mset (concat (map snd (by_city cs)))"
    by (simp add: round_robin_def mset_rounds [OF by_city_queues])
  also have "\<dots> = mset cs"
  proof (rule multiset_eqI)
    fix c
    have "count (mset (concat (map snd (by_city cs)))) c = count (mset (queue_of (by_city cs) (pc_city c))) c"
      by (simp flip: filter_mset_queues [OF by_city_queues] add: mset_filter)
    also have "\<dots> = count (mset cs) c"
      by (simp add: queue_of_by_city)
    finally show "count (mset (concat (map snd (by_city cs)))) c = count (mset cs) c" .
  qed
  finally show ?thesis .
qed

lemma set_round_robin [simp]: "set (round_robin cs) = set cs"
  using mset_round_robin mset_eq_setD by blast

text \<open>
  C21: The order in which work is admitted has exactly the candidates of the input. Within a city it is oldest
  first (then by decision). And the cities take turns: among the candidates placed before any given one,
  no city has more than one more than the city of that candidate, however long its backlog is.
\<close>

theorem cities_take_turns:
  "mset (round_robin cs) = mset cs \<and>
   (\<forall>x. filter (\<lambda>c. pc_city c = x) (round_robin cs) = filter (\<lambda>c. pc_city c = x) (sort_key candidate_key cs)) \<and>
   (\<forall>i other. i < length cs \<longrightarrow>
      length (filter (\<lambda>c. pc_city c = other) (take i (round_robin cs))) \<le>
      Suc (length (filter (\<lambda>c. pc_city c = pc_city (round_robin cs ! i)) (take i (round_robin cs)))))"
proof (intro conjI allI impI)
  show "mset (round_robin cs) = mset cs"
    by (rule mset_round_robin)
  show "filter (\<lambda>c. pc_city c = x) (round_robin cs) = filter (\<lambda>c. pc_city c = x) (sort_key candidate_key cs)" for x
    using of_city_rounds [OF by_city_queues] by (simp add: of_city_def round_robin_def queue_of_by_city)
  fix i other
  assume "i < length cs"
  then have "i < length (rounds (by_city cs))"
    using mset_eq_length [OF mset_round_robin [of cs]] by (simp add: round_robin_def)
  then show "length (filter (\<lambda>c. pc_city c = other) (take i (round_robin cs))) \<le>
      Suc (length (filter (\<lambda>c. pc_city c = pc_city (round_robin cs ! i)) (take i (round_robin cs))))"
    using rounds_fair [OF by_city_queues] by (simp add: of_city_def round_robin_def)
qed

definition demo_candidate :: "string \<Rightarrow> string \<Rightarrow> int \<Rightarrow> publication_candidate" where
  "demo_candidate decision_id city since =
     \<lparr>pc_decision_id = decision_id, pc_city = city, pc_family = ''council'', pc_outcome = ''accept'',
      pc_kind = PullRequest, pc_eligible_since = Aware since, pc_evidence_hash = ''e1'', pc_new_body = False,
      pc_automatic_alias = True, pc_reopen_requested = False, pc_refines = None\<rparr>"

text \<open>Austin has three waiting decisions and Dallas a younger one: Dallas is second.\<close>

definition demo_backlog :: "publication_candidate list" where
  "demo_backlog = [demo_candidate ''a1'' ''austin'' 1, demo_candidate ''a2'' ''austin'' 2,
     demo_candidate ''a3'' ''austin'' 3, demo_candidate ''d1'' ''dallas'' 9]"

theorem cities_take_turns_witness:
  "map pc_decision_id (round_robin demo_backlog) = [''a1'', ''d1'', ''a2'', ''a3''] \<and>
   length (filter (\<lambda>c. pc_city c = ''austin'') (take 1 (round_robin demo_backlog))) \<le>
     Suc (length (filter (\<lambda>c. pc_city c = pc_city (round_robin demo_backlog ! 1)) (take 1 (round_robin demo_backlog))))"
proof -
  have "1 < length demo_backlog"
    by (simp add: demo_backlog_def)
  moreover have "map pc_decision_id (round_robin demo_backlog) = [''a1'', ''d1'', ''a2'', ''a3'']"
    by code_simp
  ultimately show ?thesis
    using cities_take_turns [of demo_backlog] by blast
qed

subsection \<open>Every candidate is accounted for\<close>

text \<open>The decisions a triage, an admission and a plan hold, each as often as it was placed.\<close>

definition all_values :: "('k \<times> 'a list) list \<Rightarrow> 'a multiset" where
  "all_values d = mset (concat (map snd d))"

lemma all_values_update:
  "distinct (map fst d) \<Longrightarrow>
   all_values (AList.update k ((case map_of d k of None \<Rightarrow> [] | Some xs \<Rightarrow> xs) @ [x]) d) = add_mset x (all_values d)"
proof (induction d)
  case (Cons p d)
  obtain k' xs where p: "p = (k', xs)"
    by (cases p)
  with Cons show ?case
    by (cases "k' = k") (auto simp: all_values_def)
qed (simp add: all_values_def)

lemma all_values_append_at:
  "distinct (map fst d) \<Longrightarrow> all_values (append_at k x d) = add_mset x (all_values d)"
  by (simp add: append_at_def all_values_update)

lemma distinct_append_at: "distinct (map fst d) \<Longrightarrow> distinct (map fst (append_at k x d))"
  by (simp add: append_at_def distinct_update)

definition triage_keys :: "triage \<Rightarrow> bool" where
  "triage_keys t \<longleftrightarrow> distinct (map fst (tg_updates t)) \<and> distinct (map fst (tg_reopen_ids t))"

definition triaged :: "triage \<Rightarrow> string multiset" where
  "triaged t =
     mset (map sk_decision_id (tg_skipped t)) + all_values (tg_updates t) +
     image_mset pc_decision_id (all_values (tg_reopen_ids t)) + mset (map pc_decision_id (tg_fresh t))"

definition adds_candidate :: "publication_candidate \<Rightarrow> triage \<Rightarrow> triage \<Rightarrow> bool" where
  "adds_candidate c t t' \<longleftrightarrow> triage_keys t' \<and> triaged t' = add_mset (pc_decision_id c) (triaged t)"

lemma adds_skip: "triage_keys t \<Longrightarrow> adds_candidate c t (skip_candidate c reason t)"
  by (simp add: adds_candidate_def triage_keys_def triaged_def skip_candidate_def)

lemma adds_seen: "adds_candidate c (t\<lparr>tg_seen := xs\<rparr>) t' \<longleftrightarrow> adds_candidate c t t'"
  by (simp add: adds_candidate_def triaged_def)

lemma adds_update:
  "triage_keys t \<Longrightarrow>
   adds_candidate c t (t\<lparr>tg_updates := append_at n (pc_decision_id c) (tg_updates t), tg_update_artifacts := u\<rparr>)"
  by (simp add: adds_candidate_def triage_keys_def triaged_def all_values_append_at distinct_append_at)

lemma adds_settled: "triage_keys t \<Longrightarrow> adds_candidate c t (triage_settled existing c t)"
  using adds_skip [of t c]
  by (auto simp: triage_settled_def adds_candidate_def triage_keys_def triaged_def all_values_append_at
      distinct_append_at split: option.split)

lemma triage_keys_seen [simp]: "triage_keys (t\<lparr>tg_seen := xs\<rparr>) = triage_keys t"
  by (simp add: triage_keys_def)

lemma adds_triage: "triage_keys t \<Longrightarrow> adds_candidate c t (triage_candidate ledger artifacts c t)"
  using adds_update [of "t\<lparr>tg_seen := tg_seen t @ [(pc_decision_id c, pc_kind c)]\<rparr>" c]
    adds_settled [of "t\<lparr>tg_seen := tg_seen t @ [(pc_decision_id c, pc_kind c)]\<rparr>" c]
    adds_skip [of "t\<lparr>tg_seen := tg_seen t @ [(pc_decision_id c, pc_kind c)]\<rparr>" c]
  by (simp add: triage_candidate_def adds_skip adds_seen Let_def split: option.split)

lemma triaged_all:
  "triage_keys (triage_all ledger artifacts cs) \<and>
   triaged (triage_all ledger artifacts cs) = mset (map pc_decision_id cs)"
proof -
  have "triage_keys t \<Longrightarrow>
    triage_keys (fold (triage_candidate ledger artifacts) cs t) \<and>
    triaged (fold (triage_candidate ledger artifacts) cs t) = mset (map pc_decision_id cs) + triaged t" for t
  proof (induction cs arbitrary: t)
    case (Cons c cs)
    then show ?case
      using Cons.IH adds_triage [OF Cons.prems, of c ledger artifacts] by (simp add: adds_candidate_def)
  qed simp
  from this [of empty_triage] show ?thesis
    by (simp add: triage_all_def empty_triage_def triage_keys_def triaged_def all_values_def)
qed

text \<open>What an admission holds; reopening or admitting a candidate adds it.\<close>

definition admitted :: "admission \<Rightarrow> string multiset" where
  "admitted am =
     mset (concat (map ac_decision_ids (am_reopens am))) + mset (concat (map op_ids (am_prs am))) +
     mset (map ni_decision_id (am_issues am)) + mset (map qu_decision_id (am_queued am))"

lemma admitted_defer [simp]:
  "admitted (defer_candidate now reason c am) = add_mset (pc_decision_id c) (admitted am)"
  by (simp add: admitted_def defer_candidate_def queued_as_def)

lemma admitted_defer_all [simp]:
  "admitted (fold (defer_candidate now reason) cs am) = mset (map pc_decision_id cs) + admitted am"
  by (induction cs arbitrary: am) simp_all

lemma admitted_slots [simp]: "admitted (take_pr_slot am) = admitted am" "admitted (take_issue_slot am) = admitted am"
  by (simp_all add: admitted_def take_pr_slot_def take_issue_slot_def)

lemma slot_parts [simp]:
  "am_reopens (take_pr_slot am) = am_reopens am" "am_prs (take_pr_slot am) = am_prs am"
  "am_issues (take_pr_slot am) = am_issues am" "am_queued (take_pr_slot am) = am_queued am"
  "am_reopens (take_issue_slot am) = am_reopens am" "am_prs (take_issue_slot am) = am_prs am"
  "am_issues (take_issue_slot am) = am_issues am" "am_queued (take_issue_slot am) = am_queued am"
  by (simp_all add: take_pr_slot_def take_issue_slot_def)

lemma admitted_reopen: "admitted (reopen_one now (a, cs) am) = mset (map pc_decision_id cs) + admitted am"
  by (simp add: reopen_one_def Let_def) (auto simp: admitted_def)

lemma placed_ids:
  "place_in_pr limits c prs = Some prs' \<Longrightarrow>
   mset (concat (map op_ids prs')) = add_mset (pc_decision_id c) (mset (concat (map op_ids prs)))"
  by (induction prs arbitrary: prs') (auto simp: add_to_pr_def split: if_splits)

lemma admitted_admit: "admitted (admit limits now c am) = add_mset (pc_decision_id c) (admitted am)"
  by (auto simp: admit_def admit_issue_def admit_pr_def split: option.split)
    (auto simp: admitted_def placed_ids add_to_pr_def empty_pr_def)

lemma admitted_fold:
  "admitted (fold (admit limits now) cs am) = mset (map pc_decision_id cs) + admitted am"
  by (induction cs arbitrary: am) (simp_all add: admitted_admit)

lemma admitted_fold_reopen:
  "admitted (fold (reopen_one now) rs am) = mset (map pc_decision_id (concat (map snd rs))) + admitted am"
  by (induction rs arbitrary: am) (auto simp: admitted_reopen)

lemma by_number_values: "mset (concat (map snd (by_number d artifacts))) = all_values d"
proof -
  have "map snd (by_number d artifacts) = map snd (sort_key fst d)"
    by (simp add: by_number_def case_prod_beta comp_def)
  moreover have "mset (concat (map snd xs)) = sum_mset (image_mset (\<lambda>p. mset (snd p)) (mset xs))"
    for xs :: "(int \<times> 'a list) list"
    by (induction xs) auto
  ultimately show ?thesis
    by (simp add: all_values_def)
qed

lemma finish_prs_ids:
  "mapE (finish_pr sha256) prs = Inr ps \<Longrightarrow>
   mset (concat (map np_decision_ids ps)) = mset (concat (map op_ids prs))"
proof (induction prs arbitrary: ps)
  case (Cons pr prs)
  then obtain p qs where "finish_pr sha256 pr = Inr p" and "mapE (finish_pr sha256) prs = Inr qs" and "ps = p # qs"
    by (auto split: sum.splits)
  moreover from this(1) have "np_decision_ids p = sort (op_ids pr)"
    by (auto simp: finish_pr_def bindE_Inr)
  ultimately show ?case
    using Cons.IH by simp
qed simp

lemma plan_complete:
  "gs_complete snapshot \<Longrightarrow>
   plan_publications sha256 candidates ledger snapshot limits now_arg = Inr plan \<longleftrightarrow>
   (\<exists>prs. mapE (finish_pr sha256)
       (am_prs (admit_all limits (aware now_arg) (count_budget limits (aware now_arg) (gs_artifacts snapshot))
         (triage_all ledger (gs_artifacts snapshot) candidates))) = Inr prs \<and>
     (let b = count_budget limits (aware now_arg) (gs_artifacts snapshot);
          t = triage_all ledger (gs_artifacts snapshot) candidates; am = admit_all limits (aware now_arg) b t
      in plan = \<lparr>pn_prs = prs, pn_issues = am_issues am,
          pn_updates = map (\<lambda>(a, ids). \<lparr>ac_artifact = a, ac_decision_ids = sort ids\<rparr>)
            (by_number (tg_updates t) (tg_update_artifacts t)),
          pn_reopens = am_reopens am, pn_queued = am_queued am, pn_skipped = tg_skipped t,
          pn_budget = Some b, pn_notes = []\<rparr>))"
  by (auto simp: plan_publications_def bindE_Inr Let_def)

lemma sorted_values_mset:
  "mset (concat (map (\<lambda>(a, ids). sort ids) xs)) = mset (concat (map snd xs))"
  by (induction xs) auto

text \<open>
  C19: Nothing is dropped and nothing is planned twice: the decisions of the new pull requests, new issues,
  updates, reopenings, the queue and the skipped list together are the decisions of the candidates, each as
  often as it was given, whatever the ledger, the snapshot and the limits are.
\<close>

theorem every_candidate_accounted_for:
  assumes "plan_publications sha256 candidates ledger snapshot limits now_arg = Inr plan"
  shows "mset (concat (map np_decision_ids (pn_prs plan)) @ map ni_decision_id (pn_issues plan) @
      concat (map ac_decision_ids (pn_updates plan)) @ concat (map ac_decision_ids (pn_reopens plan)) @
      map qu_decision_id (pn_queued plan) @ map sk_decision_id (pn_skipped plan)) =
    mset (map pc_decision_id candidates)"
proof (cases "gs_complete snapshot")
  case False
  then have "plan_publications sha256 candidates ledger snapshot limits now_arg = Inr plan \<Longrightarrow>
    map qu_decision_id (pn_queued plan) = map pc_decision_id (round_robin candidates) \<and> pn_prs plan = [] \<and>
    pn_issues plan = [] \<and> pn_updates plan = [] \<and> pn_reopens plan = [] \<and> pn_skipped plan = []"
    by (auto simp: plan_publications_def queued_as_def comp_def)
  with assms show ?thesis
    by (simp add: mset_round_robin)
next
  case True
  define t where "t = triage_all ledger (gs_artifacts snapshot) candidates"
  define am where "am = admit_all limits (aware now_arg) (count_budget limits (aware now_arg) (gs_artifacts snapshot)) t"
  obtain prs where prs: "mapE (finish_pr sha256) (am_prs am) = Inr prs" and pn: "pn_prs plan = prs"
    "pn_issues plan = am_issues am" "pn_reopens plan = am_reopens am" "pn_queued plan = am_queued am"
    "pn_skipped plan = tg_skipped t"
    and up: "map ac_decision_ids (pn_updates plan) = map (\<lambda>(a, ids). sort ids) (by_number (tg_updates t) (tg_update_artifacts t))"
    using assms plan_complete [OF True, of sha256 candidates ledger limits now_arg plan]
    by (auto simp: t_def am_def Let_def case_prod_beta comp_def)
  have "admitted am = mset (map pc_decision_id (tg_fresh t)) + image_mset pc_decision_id (all_values (tg_reopen_ids t))"
    using by_number_values [of "tg_reopen_ids t" "tg_reopen_artifacts t"]
    by (simp add: am_def admit_all_def admitted_fold admitted_fold_reopen mset_round_robin)
      (simp add: admitted_def start_admission_def)
  moreover have "mset (concat (map ac_decision_ids (pn_updates plan))) = all_values (tg_updates t)"
    by (simp add: up sorted_values_mset by_number_values)
  moreover have "triaged t = mset (map pc_decision_id candidates)"
    using triaged_all by (simp add: t_def)
  ultimately have "admitted am + mset (concat (map ac_decision_ids (pn_updates plan))) +
      mset (map sk_decision_id (tg_skipped t)) = mset (map pc_decision_id candidates)"
    by (simp add: triaged_def ac_simps)
  then show ?thesis
    using finish_prs_ids [OF prs] pn by (simp add: admitted_def ac_simps)
qed

text \<open>A plan over an empty GitHub: both Austin decisions share a pull request, Dallas has its own.\<close>

definition demo_sha :: "string \<Rightarrow> string" where
  "demo_sha text = replicate 64 (CHR ''a'')"

definition demo_id :: "char \<Rightarrow> string" where
  "demo_id c = replicate 64 c"

definition demo_limits :: publication_limits where
  "demo_limits =
     \<lparr>li_decisions_per_pr = 5, li_prs_per_rolling_week = 8, li_open_prs = 1, li_active_directional_issues = 12\<rparr>"

definition demo_candidates :: "publication_candidate list" where
  "demo_candidates = [demo_candidate (demo_id CHR ''a'') ''austin'' 1, demo_candidate (demo_id CHR ''b'') ''austin'' 2,
     demo_candidate (demo_id CHR ''d'') ''dallas'' 9]"

definition empty_github :: github_snapshot where
  "empty_github = \<lparr>gs_artifacts = [], gs_complete = True\<rparr>"

definition demo_plan :: "exn + publication_plan" where
  "demo_plan = plan_publications demo_sha demo_candidates (\<lambda>_. None) empty_github demo_limits (Aware 100)"

definition plan_shape :: "exn + publication_plan \<Rightarrow> (string list list \<times> (string \<times> string) list) option" where
  "plan_shape r =
     (case r of Inl _ \<Rightarrow> None
      | Inr p \<Rightarrow> Some (map np_decision_ids (pn_prs p), map (\<lambda>q. (qu_decision_id q, qu_reason q)) (pn_queued p)))"

lemma demo_plan_shape:
  "plan_shape demo_plan =
     Some ([[demo_id CHR ''a'', demo_id CHR ''b'']], [(demo_id CHR ''d'', ''open_pr_cap'')])"
  by code_simp

lemma demo_plan_ok: "\<exists>plan. demo_plan = Inr plan"
  using demo_plan_shape by (auto simp: plan_shape_def split: sum.splits)

theorem every_candidate_accounted_for_witness:
  "\<exists>plan. plan_publications demo_sha demo_candidates (\<lambda>_. None) empty_github demo_limits (Aware 100) = Inr plan \<and>
     mset (concat (map np_decision_ids (pn_prs plan)) @ map ni_decision_id (pn_issues plan) @
       concat (map ac_decision_ids (pn_updates plan)) @ concat (map ac_decision_ids (pn_reopens plan)) @
       map qu_decision_id (pn_queued plan) @ map sk_decision_id (pn_skipped plan)) =
     mset (map pc_decision_id demo_candidates)"
  using demo_plan_ok every_candidate_accounted_for unfolding demo_plan_def by blast

subsection \<open>Budgets\<close>

text \<open>How many pull requests and issues an admission has opened or reopened so far.\<close>

definition pr_admissions :: "admission \<Rightarrow> int" where
  "pr_admissions am =
     int (length (am_prs am)) + int (length (filter (\<lambda>r. ra_kind (ac_artifact r) = PullRequest) (am_reopens am)))"

definition issue_admissions :: "admission \<Rightarrow> int" where
  "issue_admissions am =
     int (length (am_issues am)) + int (length (filter (\<lambda>r. ra_kind (ac_artifact r) = IssueArtifact) (am_reopens am)))"

text \<open>The remaining slots are the budget less what was admitted, and never negative.\<close>

definition slots_counted :: "publication_budget \<Rightarrow> admission \<Rightarrow> bool" where
  "slots_counted b am \<longleftrightarrow>
     am_weekly_left am = max 0 (pb_weekly_limit b - pb_opened_in_window b) - pr_admissions am \<and>
     am_open_left am = max 0 (pb_open_limit b - pb_open_prs b) - pr_admissions am \<and>
     am_issue_slots am = pb_issue_slots b - issue_admissions am \<and>
     0 \<le> am_weekly_left am \<and> 0 \<le> am_open_left am \<and> 0 \<le> am_issue_slots am"

lemma slots_defer [simp]: "slots_counted b (defer_candidate now reason c am) = slots_counted b am"
  by (simp add: slots_counted_def defer_candidate_def pr_admissions_def issue_admissions_def)

lemma slots_defer_all [simp]: "slots_counted b (fold (defer_candidate now reason) cs am) = slots_counted b am"
  by (induction cs arbitrary: am) simp_all

text \<open>The two ways a reopening goes.\<close>

lemma reopen_one_cases:
  "reopen_one now (a, cs) am =
     (case ra_kind a of
        PullRequest \<Rightarrow>
          if am_weekly_left am \<le> 0 \<or> am_open_left am \<le> 0 then fold (defer_candidate now ''reopen_budget'') cs am
          else (take_pr_slot am)\<lparr>am_reopens := am_reopens am @ [\<lparr>ac_artifact = a, ac_decision_ids = sort (map pc_decision_id cs)\<rparr>]\<rparr>
      | IssueArtifact \<Rightarrow>
          if am_issue_slots am \<le> 0 then fold (defer_candidate now ''reopen_budget'') cs am
          else (take_issue_slot am)\<lparr>am_reopens := am_reopens am @ [\<lparr>ac_artifact = a, ac_decision_ids = sort (map pc_decision_id cs)\<rparr>]\<rparr>)"
  by (cases "ra_kind a") (simp_all add: reopen_one_def Let_def min_le_iff_disj)

lemma slots_reopen: "slots_counted b am \<Longrightarrow> slots_counted b (reopen_one now (a, cs) am)"
  by (cases "ra_kind a")
    (simp_all add: reopen_one_cases, auto simp: slots_counted_def pr_admissions_def issue_admissions_def
      take_pr_slot_def take_issue_slot_def)

lemma admit_cases:
  "admit limits now c am =
     (case pc_kind c of
        IssueArtifact \<Rightarrow> admit_issue now c am
      | PullRequest \<Rightarrow> admit_pr limits now c am)"
  by (cases "pc_kind c") (simp_all add: admit_def)

lemma place_length: "place_in_pr limits c prs = Some prs' \<Longrightarrow> length prs' = length prs"
  by (induction prs arbitrary: prs') (auto split: if_splits)

lemma slots_admit_issue: "slots_counted b am \<Longrightarrow> slots_counted b (admit_issue now c am)"
  by (simp add: admit_issue_def)
    (auto simp: slots_counted_def pr_admissions_def issue_admissions_def take_issue_slot_def)

lemma slots_admit_pr: "slots_counted b am \<Longrightarrow> slots_counted b (admit_pr limits now c am)"
  by (simp add: admit_pr_def split: option.split)
    (auto simp: slots_counted_def pr_admissions_def issue_admissions_def take_pr_slot_def place_length)

lemma slots_admit: "slots_counted b am \<Longrightarrow> slots_counted b (admit limits now c am)"
  by (cases "pc_kind c") (simp_all add: admit_cases slots_admit_issue slots_admit_pr)

lemma fold_preserves: "(\<And>x s. x \<in> set xs \<Longrightarrow> P s \<Longrightarrow> P (f x s)) \<Longrightarrow> P s \<Longrightarrow> P (fold f xs s)"
  by (induction xs arbitrary: s) simp_all

lemma admit_all_preserves:
  assumes "\<And>c am. P am \<Longrightarrow> P (admit limits now c am)"
    and "\<And>a cs am. (a, cs) \<in> set (by_number (tg_reopen_ids t) (tg_reopen_artifacts t)) \<Longrightarrow>
      P am \<Longrightarrow> P (reopen_one now (a, cs) am)"
    and "P (start_admission b)"
  shows "P (admit_all limits now b t)"
  unfolding admit_all_def
  by (intro fold_preserves [where P = P]) (use assms in \<open>auto simp: split_paired_all\<close>)

lemma slots_all: "0 \<le> pb_issue_slots b \<Longrightarrow> slots_counted b (admit_all limits now b t)"
  by (rule admit_all_preserves [where P = "slots_counted b"])
    (simp_all add: slots_admit slots_reopen,
     simp add: slots_counted_def start_admission_def pr_admissions_def issue_admissions_def)

text \<open>A candidate of the kind is left queued only when its slots are gone.\<close>

definition queue_justified :: "admission \<Rightarrow> bool" where
  "queue_justified am \<longleftrightarrow>
     (PullRequest \<in> qu_kind ` set (am_queued am) \<longrightarrow> am_weekly_left am \<le> 0 \<or> am_open_left am \<le> 0) \<and>
     (IssueArtifact \<in> qu_kind ` set (am_queued am) \<longrightarrow> am_issue_slots am \<le> 0)"

lemma queued_defer_all:
  "am_queued (fold (defer_candidate now reason) cs am) = am_queued am @ map (queued_as now reason) cs"
  "am_weekly_left (fold (defer_candidate now reason) cs am) = am_weekly_left am"
  "am_open_left (fold (defer_candidate now reason) cs am) = am_open_left am"
  "am_issue_slots (fold (defer_candidate now reason) cs am) = am_issue_slots am"
  by (induction cs arbitrary: am) (simp_all add: defer_candidate_def)

definition kinds_agree :: "remedy_artifact \<times> publication_candidate list \<Rightarrow> bool" where
  "kinds_agree r \<longleftrightarrow> (\<forall>c \<in> set (snd r). pc_kind c = ra_kind (fst r))"

lemma justified_reopen:
  "kinds_agree (a, cs) \<Longrightarrow> queue_justified am \<Longrightarrow> queue_justified (reopen_one now (a, cs) am)"
  by (cases "ra_kind a")
    (auto simp: reopen_one_cases queue_justified_def queued_defer_all kinds_agree_def queued_as_def
      take_pr_slot_def take_issue_slot_def)

lemma justified_admit: "queue_justified am \<Longrightarrow> queue_justified (admit limits now c am)"
  by (cases "pc_kind c")
    (auto simp: admit_cases admit_issue_def admit_pr_def queue_justified_def defer_candidate_def queued_as_def
      take_pr_slot_def take_issue_slot_def split: option.split)

text \<open>Pull requests and issues a plan opens or reopens.\<close>

definition planned_pr_count :: "publication_plan \<Rightarrow> int" where
  "planned_pr_count plan =
     int (length (pn_prs plan)) + int (length (filter (\<lambda>r. ra_kind (ac_artifact r) = PullRequest) (pn_reopens plan)))"

definition planned_issue_count :: "publication_plan \<Rightarrow> int" where
  "planned_issue_count plan =
     int (length (pn_issues plan)) + int (length (filter (\<lambda>r. ra_kind (ac_artifact r) = IssueArtifact) (pn_reopens plan)))"

lemma mapE_length: "mapE f xs = Inr ys \<Longrightarrow> length ys = length xs"
  by (induction xs arbitrary: ys) (auto split: sum.splits)

lemma plan_counts:
  assumes "plan_publications sha256 candidates ledger snapshot limits now_arg = Inr plan" and "gs_complete snapshot"
  obtains am where "slots_counted (count_budget limits (aware now_arg) (gs_artifacts snapshot)) am"
    "planned_pr_count plan = pr_admissions am" "planned_issue_count plan = issue_admissions am"
    "am = admit_all limits (aware now_arg) (count_budget limits (aware now_arg) (gs_artifacts snapshot))
       (triage_all ledger (gs_artifacts snapshot) candidates)"
    "mapE (finish_pr sha256) (am_prs am) = Inr (pn_prs plan)" "pn_queued plan = am_queued am"
proof -
  let ?b = "count_budget limits (aware now_arg) (gs_artifacts snapshot)"
  let ?am = "admit_all limits (aware now_arg) ?b (triage_all ledger (gs_artifacts snapshot) candidates)"
  obtain prs where prs: "mapE (finish_pr sha256) (am_prs ?am) = Inr prs" and pn: "pn_prs plan = prs"
    "pn_issues plan = am_issues ?am" "pn_reopens plan = am_reopens ?am" "pn_queued plan = am_queued ?am"
    using assms(1) plan_complete [OF assms(2), of sha256 candidates ledger limits now_arg plan]
    by (auto simp: Let_def)
  have "slots_counted ?b ?am"
    by (rule slots_all) (simp add: count_budget_def Let_def)
  then show ?thesis
    using that [of ?am] prs pn mapE_length [OF prs]
    by (simp add: planned_pr_count_def planned_issue_count_def pr_admissions_def issue_admissions_def)
qed

text \<open>
  C18: The budgets hold: with the pull requests opened or reopened by the plan, the ones of the last seven days
  stay within the weekly limit and the open ones within the cap (when the snapshot is over a limit already,
  nothing is added), and likewise the active issues. An incomplete snapshot adds nothing at all.
\<close>

theorem publication_within_budget:
  assumes "plan_publications sha256 candidates ledger snapshot limits now_arg = Inr plan"
  shows "let artifacts = gs_artifacts snapshot;
      opened = opened_in_window (aware now_arg) (filter (\<lambda>a. ra_kind a = PullRequest) artifacts)
    in opened + planned_pr_count plan \<le> max opened (li_prs_per_rolling_week limits) \<and>
       open_artifacts PullRequest artifacts + planned_pr_count plan \<le>
         max (open_artifacts PullRequest artifacts) (li_open_prs limits) \<and>
       open_artifacts IssueArtifact artifacts + planned_issue_count plan \<le>
         max (open_artifacts IssueArtifact artifacts) (li_active_directional_issues limits) \<and>
       (gs_complete snapshot \<or> planned_pr_count plan + planned_issue_count plan = 0)"
proof (cases "gs_complete snapshot")
  case True
  obtain am where am: "slots_counted (count_budget limits (aware now_arg) (gs_artifacts snapshot)) am"
    "planned_pr_count plan = pr_admissions am" "planned_issue_count plan = issue_admissions am"
    using plan_counts [OF assms True] by blast
  have "pr_admissions am \<le> max 0 (w - o1)" "pr_admissions am \<le> max 0 (c - o2)" "issue_admissions am \<le> max 0 (i - o3)"
    if "w = li_prs_per_rolling_week limits" "c = li_open_prs limits" "i = li_active_directional_issues limits"
      "o1 = opened_in_window (aware now_arg) (filter (\<lambda>a. ra_kind a = PullRequest) (gs_artifacts snapshot))"
      "o2 = open_artifacts PullRequest (gs_artifacts snapshot)" "o3 = open_artifacts IssueArtifact (gs_artifacts snapshot)"
    for w c i o1 o2 o3
    using am(1) that by (simp_all add: slots_counted_def count_budget_def Let_def)
  note bounds = this [OF refl refl refl refl refl refl]
  show ?thesis
    using bounds True by (simp only: am(2,3) Let_def simp_thms) (simp add: max_def split: if_splits)
next
  case False
  then have "planned_pr_count plan = 0" and "planned_issue_count plan = 0"
    using assms by (auto simp: plan_publications_def planned_pr_count_def planned_issue_count_def)
  then show ?thesis
    by (simp add: Let_def)
qed

theorem publication_within_budget_witness:
  "\<exists>plan. plan_publications demo_sha demo_candidates (\<lambda>_. None) empty_github demo_limits (Aware 100) = Inr plan \<and>
     open_artifacts PullRequest [] + planned_pr_count plan \<le> max (open_artifacts PullRequest []) 1"
proof -
  obtain plan where plan: "plan_publications demo_sha demo_candidates (\<lambda>_. None) empty_github demo_limits (Aware 100) = Inr plan"
    using demo_plan_ok unfolding demo_plan_def by blast
  show ?thesis
    using plan publication_within_budget [OF plan] by (auto simp: Let_def empty_github_def demo_limits_def)
qed

subsection \<open>What is queued had no slot\<close>

text \<open>Reopening keeps under each number the artifact of its candidates.\<close>

definition reopen_kinds :: "remedy_artifact list \<Rightarrow> triage \<Rightarrow> bool" where
  "reopen_kinds artifacts t \<longleftrightarrow>
     (\<forall>n cs. map_of (tg_reopen_ids t) n = Some cs \<longrightarrow>
        (\<exists>a \<in> set artifacts. map_of (tg_reopen_artifacts t) n = Some a \<and> ra_number a = n \<and>
           (\<forall>c \<in> set cs. pc_kind c = ra_kind a)))"

lemma map_of_append_at:
  "map_of (append_at k x d) k' =
     (if k' = k then Some ((case map_of d k of None \<Rightarrow> [] | Some xs \<Rightarrow> xs) @ [x]) else map_of d k')"
  by (simp add: append_at_def dict_simps)

lemma reopen_kinds_skip [simp]: "reopen_kinds artifacts (skip_candidate c reason t) = reopen_kinds artifacts t"
  by (simp add: reopen_kinds_def skip_candidate_def)

lemma reopen_kinds_fields [simp]:
  "reopen_kinds artifacts (t\<lparr>tg_fresh := x\<rparr>) = reopen_kinds artifacts t"
  "reopen_kinds artifacts (t\<lparr>tg_seen := y\<rparr>) = reopen_kinds artifacts t"
  "reopen_kinds artifacts (t\<lparr>tg_updates := u, tg_update_artifacts := v\<rparr>) = reopen_kinds artifacts t"
  by (simp_all add: reopen_kinds_def)

lemma find_mem: "find P xs = Some x \<Longrightarrow> x \<in> set xs \<and> P x"
  by (auto simp: find_Some_iff)

lemma reopen_kinds_settled:
  assumes "reopen_kinds artifacts t" and inj: "inj_on ra_number (set artifacts)"
    and ex: "\<And>a. a \<in> set existing \<Longrightarrow> a \<in> set artifacts \<and> ra_kind a = pc_kind c"
  shows "reopen_kinds artifacts (triage_settled existing c t)"
proof (cases "find (\<lambda>a. ra_state a = ClosedArtifact \<or> ra_state a = MergedArtifact) existing")
  case (Some a)
  then have a: "a \<in> set artifacts" "ra_kind a = pc_kind c"
    using ex find_mem by metis+
  have "b = a" if "b \<in> set artifacts" "ra_number b = ra_number a" for b
    using inj a that by (auto dest: inj_onD)
  then have kinds: "pc_kind d = ra_kind a"
    if "map_of (tg_reopen_ids t) (ra_number a) = Some ds" "d \<in> set ds" for ds d
    using assms(1) that unfolding reopen_kinds_def by metis
  have "reopen_kinds artifacts
     (t\<lparr>tg_reopen_ids := append_at (ra_number a) c (tg_reopen_ids t),
        tg_reopen_artifacts := AList.update (ra_number a) a (tg_reopen_artifacts t)\<rparr>)"
    unfolding reopen_kinds_def
  proof (intro allI impI)
    fix n cs
    assume n: "map_of (tg_reopen_ids (t\<lparr>tg_reopen_ids := append_at (ra_number a) c (tg_reopen_ids t),
        tg_reopen_artifacts := AList.update (ra_number a) a (tg_reopen_artifacts t)\<rparr>)) n = Some cs"
    show "\<exists>b \<in> set artifacts. map_of (tg_reopen_artifacts (t\<lparr>tg_reopen_ids := append_at (ra_number a) c (tg_reopen_ids t),
        tg_reopen_artifacts := AList.update (ra_number a) a (tg_reopen_artifacts t)\<rparr>)) n = Some b \<and>
        ra_number b = n \<and> (\<forall>c \<in> set cs. pc_kind c = ra_kind b)"
    proof (cases "n = ra_number a")
      case True
      then have "\<forall>d \<in> set cs. pc_kind d = ra_kind a"
        using n a kinds by (auto simp: map_of_append_at split: option.splits)
      then show ?thesis
        using True a by (auto simp: dict_simps intro!: bexI [of _ a])
    next
      case False
      then show ?thesis
        using n assms(1) by (simp add: map_of_append_at dict_simps reopen_kinds_def)
    qed
  qed
  then show ?thesis
    using Some assms(1) by (simp add: triage_settled_def)
qed (simp add: triage_settled_def assms(1))

lemma artifacts_of_mem: "a \<in> set (artifacts_of artifacts i) \<longleftrightarrow> a \<in> set artifacts \<and> i \<in> set (ra_decision_ids a)"
  by (auto simp: artifacts_of_def)

lemma reopen_kinds_triage:
  "reopen_kinds artifacts t \<Longrightarrow> inj_on ra_number (set artifacts) \<Longrightarrow>
   reopen_kinds artifacts (triage_candidate ledger artifacts c t)"
  by (auto simp: triage_candidate_def Let_def artifacts_of_mem intro!: reopen_kinds_settled split: option.split)

lemma reopen_kinds_all:
  "inj_on ra_number (set artifacts) \<Longrightarrow> reopen_kinds artifacts (triage_all ledger artifacts cs)"
  unfolding triage_all_def
  by (rule fold_preserves [where P = "reopen_kinds artifacts"])
    (simp_all add: reopen_kinds_triage, simp add: reopen_kinds_def empty_triage_def)

lemma by_number_kinds:
  assumes "reopen_kinds artifacts t" and "triage_keys t"
    and "(a, cs) \<in> set (by_number (tg_reopen_ids t) (tg_reopen_artifacts t))"
  shows "kinds_agree (a, cs)"
proof -
  obtain n where "(n, cs) \<in> set (tg_reopen_ids t)" and a: "a = the (map_of (tg_reopen_artifacts t) n)"
    using assms(3) by (auto simp: by_number_def)
  then have "map_of (tg_reopen_ids t) n = Some cs"
    using assms(2) by (simp add: triage_keys_def)
  then show ?thesis
    using assms(1) a by (fastforce simp: reopen_kinds_def kinds_agree_def)
qed

lemma justified_all:
  assumes "inj_on ra_number (set artifacts)"
  shows "queue_justified (admit_all limits now b (triage_all ledger artifacts cs))"
proof (rule admit_all_preserves [where P = queue_justified])
  show "queue_justified (start_admission b)"
    by (simp add: queue_justified_def start_admission_def)
  fix a ds am
  assume "(a, ds) \<in> set (by_number (tg_reopen_ids (triage_all ledger artifacts cs))
    (tg_reopen_artifacts (triage_all ledger artifacts cs)))" and am: "queue_justified am"
  then have "kinds_agree (a, ds)"
    using by_number_kinds reopen_kinds_all [OF assms] triaged_all by blast
  then show "queue_justified (reopen_one now (a, ds) am)"
    using am by (rule justified_reopen)
qed (rule justified_admit)

text \<open>
  No work waits beside a free slot: when a pull-request decision stays in the queue of a plan made against a
  complete snapshot, the plan's admissions have brought the last seven days to the weekly limit or the open
  pull requests to their cap; when an issue stays, the active issues are at theirs. (The artifacts of a
  repository have distinct numbers.)
\<close>

theorem queued_only_when_full:
  assumes "plan_publications sha256 candidates ledger snapshot limits now_arg = Inr plan"
    and "gs_complete snapshot" and "inj_on ra_number (set (gs_artifacts snapshot))"
    and "q \<in> set (pn_queued plan)"
  shows "let artifacts = gs_artifacts snapshot in
    if qu_kind q = PullRequest
    then li_prs_per_rolling_week limits \<le>
           opened_in_window (aware now_arg) (filter (\<lambda>a. ra_kind a = PullRequest) artifacts) + planned_pr_count plan \<or>
         li_open_prs limits \<le> open_artifacts PullRequest artifacts + planned_pr_count plan
    else li_active_directional_issues limits \<le> open_artifacts IssueArtifact artifacts + planned_issue_count plan"
proof -
  obtain am where am: "slots_counted (count_budget limits (aware now_arg) (gs_artifacts snapshot)) am"
    "planned_pr_count plan = pr_admissions am" "planned_issue_count plan = issue_admissions am"
    "am = admit_all limits (aware now_arg) (count_budget limits (aware now_arg) (gs_artifacts snapshot))
       (triage_all ledger (gs_artifacts snapshot) candidates)" and q: "pn_queued plan = am_queued am"
    using plan_counts [OF assms(1,2)] by blast
  have full: "queue_justified am"
    unfolding am(4) by (rule justified_all [OF assms(3)])
  have left: "am_weekly_left am = max 0 (w - o1) - pr_admissions am" "am_open_left am = max 0 (c - o2) - pr_admissions am"
    "am_issue_slots am = max 0 (i - o3) - issue_admissions am"
    if "w = li_prs_per_rolling_week limits" "c = li_open_prs limits" "i = li_active_directional_issues limits"
      "o1 = opened_in_window (aware now_arg) (filter (\<lambda>a. ra_kind a = PullRequest) (gs_artifacts snapshot))"
      "o2 = open_artifacts PullRequest (gs_artifacts snapshot)" "o3 = open_artifacts IssueArtifact (gs_artifacts snapshot)"
    for w c i o1 o2 o3
    using am(1) that by (simp_all add: slots_counted_def count_budget_def Let_def)
  note left = this [OF refl refl refl refl refl refl]
  show ?thesis
  proof (cases "qu_kind q")
    case PullRequest
    then have "PullRequest \<in> qu_kind ` set (am_queued am)"
      using assms(4) q by (metis image_eqI)
    then have "am_weekly_left am \<le> 0 \<or> am_open_left am \<le> 0"
      using full by (simp add: queue_justified_def)
    then show ?thesis
      using left PullRequest by (auto simp: am(2) Let_def)
  next
    case IssueArtifact
    then have "IssueArtifact \<in> qu_kind ` set (am_queued am)"
      using assms(4) q by (metis image_eqI)
    then have "am_issue_slots am \<le> 0"
      using full by (simp add: queue_justified_def)
    then show ?thesis
      using left IssueArtifact by (auto simp: am(3) Let_def)
  qed
qed

theorem queued_only_when_full_witness:
  "\<exists>plan q. plan_publications demo_sha demo_candidates (\<lambda>_. None) empty_github demo_limits (Aware 100) = Inr plan \<and>
     q \<in> set (pn_queued plan) \<and>
     (if qu_kind q = PullRequest
      then 8 \<le> opened_in_window 100 [] + planned_pr_count plan \<or> 1 \<le> open_artifacts PullRequest [] + planned_pr_count plan
      else 12 \<le> open_artifacts IssueArtifact [] + planned_issue_count plan)"
proof -
  obtain plan where plan: "plan_publications demo_sha demo_candidates (\<lambda>_. None) empty_github demo_limits (Aware 100) = Inr plan"
    and "map (\<lambda>q. (qu_decision_id q, qu_reason q)) (pn_queued plan) = [(demo_id CHR ''d'', ''open_pr_cap'')]"
    using demo_plan_shape unfolding demo_plan_def by (auto simp: plan_shape_def split: sum.splits)
  then obtain q where q: "q \<in> set (pn_queued plan)"
    by (cases "pn_queued plan") auto
  have "li_prs_per_rolling_week demo_limits = 8" "li_open_prs demo_limits = 1"
    "li_active_directional_issues demo_limits = 12" "gs_artifacts empty_github = []" "gs_complete empty_github"
    by (simp_all add: demo_limits_def empty_github_def)
  then have "if qu_kind q = PullRequest
      then 8 \<le> opened_in_window 100 [] + planned_pr_count plan \<or> 1 \<le> open_artifacts PullRequest [] + planned_pr_count plan
      else 12 \<le> open_artifacts IssueArtifact [] + planned_issue_count plan"
    using queued_only_when_full [OF plan _ _ q] by (simp add: Let_def aware_def split: if_split_asm)
  then show ?thesis
    using plan q by blast
qed

subsection \<open>What a new pull request carries\<close>

text \<open>
  The ledger has decided a candidate when its view of the decision rests on the candidate's own evidence and is
  final: covered, excluded or resolved, or rejected and the candidate does not refine the rejected one.
\<close>

definition decided :: "(string \<Rightarrow> ledger_view option) \<Rightarrow> publication_candidate \<Rightarrow> bool" where
  "decided ledger c \<longleftrightarrow>
     (\<exists>view. ledger (pc_decision_id c) = Some view \<and> lv_evidence_hash view = pc_evidence_hash c \<and>
        (lv_state view = ''covered'' \<or> lv_state view = ''excluded'' \<or> lv_state view = ''resolved'' \<or>
         lv_disposition view = Some ''rejected'' \<and> pc_refines c = None))"

lemma settled_reason_None: "settled_reason ledger c = None \<longleftrightarrow> \<not> decided ledger c"
  by (auto simp: settled_reason_def decided_def TERMINAL_STATES_def split: option.splits)

text \<open>The decision has no artifact of its kind yet, and the ledger has not decided it on the evidence it has.\<close>

definition unpublished ::
  "(string \<Rightarrow> ledger_view option) \<Rightarrow> remedy_artifact list \<Rightarrow> publication_candidate \<Rightarrow> bool" where
  "unpublished ledger artifacts c \<longleftrightarrow>
     \<not> decided ledger c \<and>
     list_all (\<lambda>a. ra_kind a \<noteq> pc_kind c \<or> pc_decision_id c \<notin> set (ra_decision_ids a)) artifacts"

definition identity :: "publication_candidate \<Rightarrow> string \<times> artifact_kind" where
  "identity c = (pc_decision_id c, pc_kind c)"

definition fresh_ok ::
  "publication_candidate list \<Rightarrow> (string \<Rightarrow> ledger_view option) \<Rightarrow> remedy_artifact list \<Rightarrow> triage \<Rightarrow> bool" where
  "fresh_ok cs ledger artifacts t \<longleftrightarrow>
     distinct (map identity (tg_fresh t)) \<and> identity ` set (tg_fresh t) \<subseteq> set (tg_seen t) \<and>
     (\<forall>c \<in> set (tg_fresh t). c \<in> set cs \<and> unpublished ledger artifacts c)"

lemma fresh_ok_fields [simp]:
  "fresh_ok cs ledger artifacts (skip_candidate c reason t) = fresh_ok cs ledger artifacts t"
  "fresh_ok cs ledger artifacts (t\<lparr>tg_updates := u, tg_update_artifacts := v\<rparr>) = fresh_ok cs ledger artifacts t"
  "fresh_ok cs ledger artifacts (t\<lparr>tg_reopen_ids := w, tg_reopen_artifacts := x\<rparr>) = fresh_ok cs ledger artifacts t"
  by (simp_all add: fresh_ok_def skip_candidate_def)

lemma fresh_ok_seen: "fresh_ok cs ledger artifacts t \<Longrightarrow> fresh_ok cs ledger artifacts (t\<lparr>tg_seen := tg_seen t @ xs\<rparr>)"
  by (auto simp: fresh_ok_def)

lemma fresh_ok_add:
  "fresh_ok cs ledger artifacts t \<Longrightarrow> identity c \<notin> set (tg_seen t) \<Longrightarrow> c \<in> set cs \<Longrightarrow> unpublished ledger artifacts c \<Longrightarrow>
   fresh_ok cs ledger artifacts (t\<lparr>tg_seen := tg_seen t @ [identity c], tg_fresh := tg_fresh t @ [c]\<rparr>)"
  by (auto simp: fresh_ok_def)

lemma no_artifact_unpublished:
  assumes "settled_reason ledger c = None"
    and "find (\<lambda>a. ra_state a = OpenArtifact) existing = None"
    and "find (\<lambda>a. ra_state a = ClosedArtifact \<or> ra_state a = MergedArtifact) existing = None"
    and "existing = filter (\<lambda>a. ra_kind a = pc_kind c) (artifacts_of artifacts (pc_decision_id c))"
  shows "unpublished ledger artifacts c"
proof -
  have none: "a \<notin> set existing" for a
    using assms(2,3) by (cases "ra_state a") (auto simp: find_None_iff)
  have "existing = []"
    using none [of "hd existing"] by (cases existing) auto
  then show ?thesis
    using assms(1,4) artifacts_of_mem [of _ artifacts "pc_decision_id c"]
    by (auto simp: unpublished_def settled_reason_None list_all_iff filter_empty_conv)
qed

lemma fresh_ok_triage:
  assumes "fresh_ok cs ledger artifacts t" and "c \<in> set cs"
  shows "fresh_ok cs ledger artifacts (triage_candidate ledger artifacts c t)"
proof (cases "identity c \<in> set (tg_seen t)")
  case True
  then show ?thesis
    using assms(1) by (simp add: triage_candidate_def identity_def)
next
  case False
  let ?t = "t\<lparr>tg_seen := tg_seen t @ [identity c]\<rparr>"
  define existing where "existing = filter (\<lambda>a. ra_kind a = pc_kind c) (artifacts_of artifacts (pc_decision_id c))"
  have t: "fresh_ok cs ledger artifacts ?t"
    using assms(1) by (rule fresh_ok_seen)
  have "fresh_ok cs ledger artifacts (triage_settled existing c ?t)"
    if "settled_reason ledger c = None" "find (\<lambda>a. ra_state a = OpenArtifact) existing = None"
    using t fresh_ok_add [OF assms(1) False assms(2)] no_artifact_unpublished [OF that _ existing_def]
    by (auto simp: triage_settled_def split: option.split)
  with t False show ?thesis
    by (simp add: triage_candidate_def Let_def identity_def flip: existing_def split: option.split)
qed

lemma fresh_ok_all: "fresh_ok cs ledger artifacts (triage_all ledger artifacts cs)"
  unfolding triage_all_def
  by (rule fold_preserves [where P = "fresh_ok cs ledger artifacts"])
    (simp_all add: fresh_ok_triage, simp add: fresh_ok_def empty_triage_def)

text \<open>Two decisions of a pull request never mix a new body with an automatic alias.\<close>

definition unmixed :: "publication_candidate \<Rightarrow> publication_candidate \<Rightarrow> bool" where
  "unmixed c d \<longleftrightarrow> \<not> (pc_new_body c \<and> pc_automatic_alias d) \<and> \<not> (pc_automatic_alias c \<and> pc_new_body d)"

text \<open>A pull request under construction and the candidates it was made from.\<close>

definition carries :: "publication_limits \<Rightarrow> publication_candidate set \<Rightarrow> open_plan \<Rightarrow> publication_candidate list \<Rightarrow> bool" where
  "carries limits S pr cs \<longleftrightarrow>
     op_ids pr = map pc_decision_id cs \<and> cs \<noteq> [] \<and> int (length cs) \<le> li_decisions_per_pr limits \<and>
     (\<forall>c \<in> set cs. c \<in> S \<and> pc_kind c = PullRequest \<and> pc_city c = op_city pr \<and> pc_family c = op_family pr \<and>
        pc_outcome c = op_outcome pr) \<and>
     op_alias pr = list_ex pc_automatic_alias cs \<and> op_new_body pr = list_ex pc_new_body cs \<and>
     sorted_wrt unmixed cs"

lemma carries_add:
  "carries limits S pr cs \<Longrightarrow> has_room limits c pr \<Longrightarrow> c \<in> S \<Longrightarrow> pc_kind c = PullRequest \<Longrightarrow>
   carries limits S (add_to_pr c pr) (cs @ [c])"
  by (auto simp: carries_def has_room_def compatible_def add_to_pr_def sorted_wrt_append unmixed_def list_ex_iff)

lemma carries_new:
  "c \<in> S \<Longrightarrow> pc_kind c = PullRequest \<Longrightarrow> 1 \<le> li_decisions_per_pr limits \<Longrightarrow>
   carries limits S (add_to_pr c (empty_pr c)) [c]"
  by (simp add: carries_def add_to_pr_def empty_pr_def)

definition prs_carry :: "publication_limits \<Rightarrow> publication_candidate set \<Rightarrow> open_plan list \<Rightarrow> bool" where
  "prs_carry limits S prs \<longleftrightarrow> list_all (\<lambda>pr. \<exists>cs. carries limits S pr cs) prs"

lemma prs_carry_place:
  "prs_carry limits S prs \<Longrightarrow> c \<in> S \<Longrightarrow> pc_kind c = PullRequest \<Longrightarrow> place_in_pr limits c prs = Some prs' \<Longrightarrow>
   prs_carry limits S prs'"
proof (induction prs arbitrary: prs')
  case (Cons pr prs)
  obtain cs where cs: "carries limits S pr cs" and rest: "prs_carry limits S prs"
    using Cons.prems(1) by (auto simp: prs_carry_def)
  show ?case
  proof (cases "has_room limits c pr")
    case True
    then have "carries limits S (add_to_pr c pr) (cs @ [c])"
      using carries_add cs Cons.prems(2,3) by blast
    with True rest Cons.prems(4) show ?thesis
      by (auto simp: prs_carry_def)
  next
    case False
    with Cons obtain qs where "place_in_pr limits c prs = Some qs" and "prs' = pr # qs"
      by auto
    with Cons.IH [OF rest Cons.prems(2,3)] cs show ?thesis
      by (auto simp: prs_carry_def)
  qed
qed simp

lemma prs_carry_admit:
  assumes "prs_carry limits S (am_prs am)" and "c \<in> S" and "1 \<le> li_decisions_per_pr limits"
  shows "prs_carry limits S (am_prs (admit limits now c am))"
proof (cases "pc_kind c")
  case PullRequest
  then show ?thesis
    using assms prs_carry_place [OF assms(1,2) PullRequest] carries_new [OF assms(2) PullRequest assms(3)]
    by (auto simp: admit_cases admit_pr_def defer_candidate_def prs_carry_def split: option.split)
next
  case IssueArtifact
  then show ?thesis
    using assms(1) by (simp add: admit_cases admit_issue_def defer_candidate_def)
qed

lemma reopen_prs: "am_prs (fold (reopen_one now) rs am) = am_prs am"
proof (induction rs arbitrary: am)
  case (Cons r rs)
  have "am_prs (fold (defer_candidate now reason) cs am) = am_prs am" for reason cs am
    by (induction cs arbitrary: am) (simp_all add: defer_candidate_def)
  then have "am_prs (reopen_one now r am) = am_prs am"
    by (cases r; cases "ra_kind (fst r)") (simp_all add: reopen_one_cases)
  with Cons show ?case
    by simp
qed simp

lemma prs_carry_all:
  "1 \<le> li_decisions_per_pr limits \<Longrightarrow> prs_carry limits (set (tg_fresh t)) (am_prs (admit_all limits now b t))"
  unfolding admit_all_def
  by (rule fold_preserves [where P = "\<lambda>am. prs_carry limits (set (tg_fresh t)) (am_prs am)"])
    (simp_all add: prs_carry_admit, simp add: reopen_prs start_admission_def prs_carry_def)

text \<open>No decision is in two new pull requests.\<close>

lemma admit_pr_ids:
  "mset (concat (map op_ids (am_prs (admit limits now c am)))) \<subseteq>#
   mset (concat (map op_ids (am_prs am))) + mset (map pc_decision_id (filter (\<lambda>c. pc_kind c = PullRequest) [c]))"
  by (cases "pc_kind c")
    (auto simp: admit_cases admit_issue_def admit_pr_def defer_candidate_def placed_ids add_to_pr_def empty_pr_def
      split: option.split)

lemma fold_admit_pr_ids:
  "mset (concat (map op_ids (am_prs (fold (admit limits now) cs am)))) \<subseteq>#
   mset (concat (map op_ids (am_prs am))) + mset (map pc_decision_id (filter (\<lambda>c. pc_kind c = PullRequest) cs))"
proof (induction cs arbitrary: am)
  case (Cons c cs)
  have "mset (concat (map op_ids (am_prs (fold (admit limits now) (c # cs) am)))) \<subseteq>#
      mset (concat (map op_ids (am_prs (admit limits now c am)))) +
      mset (map pc_decision_id (filter (\<lambda>c. pc_kind c = PullRequest) cs))"
    using Cons.IH [of "admit limits now c am"] by simp
  also have "\<dots> \<subseteq># mset (concat (map op_ids (am_prs am))) +
      mset (map pc_decision_id (filter (\<lambda>c. pc_kind c = PullRequest) [c])) +
      mset (map pc_decision_id (filter (\<lambda>c. pc_kind c = PullRequest) cs))"
    by (intro subset_mset.add_right_mono admit_pr_ids)
  finally show ?case
    by (simp add: ac_simps split: if_splits)
qed simp

lemma fresh_distinct:
  "distinct (map identity cs) \<Longrightarrow> distinct (map pc_decision_id (filter (\<lambda>c. pc_kind c = PullRequest) cs))"
  by (induction cs) (auto simp: identity_def)

lemma distinct_submset: "mset ys \<subseteq># mset xs \<Longrightarrow> distinct xs \<Longrightarrow> distinct ys"
proof -
  assume sub: "mset ys \<subseteq># mset xs" and d: "distinct xs"
  obtain zs where "mset xs = mset (ys @ zs)"
    using sub ex_mset by (metis mset_append mset_subset_eq_exists_conv)
  then show "distinct ys"
    using d mset_eq_imp_distinct_iff by fastforce
qed

lemma finish_pr_fields:
  "finish_pr sha256 pr = Inr p \<Longrightarrow>
   np_city p = op_city pr \<and> np_family p = op_family pr \<and> np_outcome p = op_outcome pr \<and>
   np_decision_ids p = sort (op_ids pr) \<and>
   branch_name sha256 (op_city pr) (op_family pr) (op_ids pr) = Inr (np_branch p)"
  by (auto simp: finish_pr_def bindE_Inr)

lemma mapE_mem: "mapE f xs = Inr ys \<Longrightarrow> y \<in> set ys \<Longrightarrow> \<exists>x \<in> set xs. f x = Inr y"
  by (induction xs arbitrary: ys) (auto split: sum.splits)

text \<open>What a planned pull request promises about the candidates behind it.\<close>

definition sound_pr ::
  "(string \<Rightarrow> ledger_view option) \<Rightarrow> remedy_artifact list \<Rightarrow> publication_limits \<Rightarrow> publication_candidate list \<Rightarrow>
   planned_pr \<Rightarrow> publication_candidate list \<Rightarrow> bool" where
  "sound_pr ledger artifacts limits candidates p cs \<longleftrightarrow>
     np_decision_ids p = sort (map pc_decision_id cs) \<and> cs \<noteq> [] \<and> int (length cs) \<le> li_decisions_per_pr limits \<and>
     (\<forall>c \<in> set cs. c \<in> set candidates \<and> pc_kind c = PullRequest \<and> pc_city c = np_city p \<and> pc_family c = np_family p \<and>
        pc_outcome c = np_outcome p \<and> unpublished ledger artifacts c) \<and>
     sorted_wrt unmixed cs"

text \<open>
  C20: A new pull request packs at least one and at most \<open>decisions_per_pr\<close> of the candidates, all of its city,
  family and approval outcome, no new body beside an automatic alias; each of them has no artifact of its
  kind on GitHub in any state, and the ledger has not decided it on the very evidence the candidate has: it
  is not covered, excluded or resolved there, and not rejected unless the candidate is a refinement, which
  the code publishes as the answer to a rejection. No decision is in two new pull requests.
\<close>

theorem new_pull_requests_are_sound:
  assumes "plan_publications sha256 candidates ledger snapshot limits now_arg = Inr plan" and "valid_limits limits"
  shows "list_all (\<lambda>p. \<exists>cs. sound_pr ledger (gs_artifacts snapshot) limits candidates p cs) (pn_prs plan) \<and>
    distinct (concat (map np_decision_ids (pn_prs plan)))"
proof (cases "gs_complete snapshot")
  case True
  let ?t = "triage_all ledger (gs_artifacts snapshot) candidates"
  obtain am where am: "am = admit_all limits (aware now_arg) (count_budget limits (aware now_arg) (gs_artifacts snapshot)) ?t"
    and fin: "mapE (finish_pr sha256) (am_prs am) = Inr (pn_prs plan)"
    using plan_counts [OF assms(1) True] by blast
  have carry: "prs_carry limits (set (tg_fresh ?t)) (am_prs am)"
    unfolding am by (rule prs_carry_all) (use assms(2) in \<open>simp add: valid_limits_def\<close>)
  have fresh: "fresh_ok candidates ledger (gs_artifacts snapshot) ?t"
    by (rule fresh_ok_all)
  have "\<exists>cs. sound_pr ledger (gs_artifacts snapshot) limits candidates p cs" if "p \<in> set (pn_prs plan)" for p
  proof -
    obtain pr where pr: "pr \<in> set (am_prs am)" "finish_pr sha256 pr = Inr p"
      using mapE_mem [OF fin \<open>p \<in> set (pn_prs plan)\<close>] by blast
    then obtain cs where "carries limits (set (tg_fresh ?t)) pr cs"
      using carry by (auto simp: prs_carry_def list_all_iff)
    then have "sound_pr ledger (gs_artifacts snapshot) limits candidates p cs"
      using finish_pr_fields [OF pr(2)] fresh by (auto simp: sound_pr_def carries_def fresh_ok_def)
    then show ?thesis ..
  qed
  moreover have "distinct (concat (map np_decision_ids (pn_prs plan)))"
  proof -
    have none: "am_prs (start_admission b) = []" for b
      by (simp add: start_admission_def)
    have "mset (concat (map op_ids (am_prs am))) \<subseteq>#
        mset (map pc_decision_id (filter (\<lambda>c. pc_kind c = PullRequest) (round_robin (tg_fresh ?t))))"
      unfolding am admit_all_def
      by (rule subset_mset.order_trans [OF fold_admit_pr_ids]) (simp add: reopen_prs none)
    then have "mset (concat (map op_ids (am_prs am))) \<subseteq>#
        mset (map pc_decision_id (filter (\<lambda>c. pc_kind c = PullRequest) (tg_fresh ?t)))"
      by (simp add: mset_filter mset_round_robin)
    moreover have "distinct (map pc_decision_id (filter (\<lambda>c. pc_kind c = PullRequest) (tg_fresh ?t)))"
      by (rule fresh_distinct) (use fresh in \<open>simp add: fresh_ok_def\<close>)
    ultimately have "distinct (concat (map op_ids (am_prs am)))"
      by (rule distinct_submset)
    then show ?thesis
      using finish_prs_ids [OF fin] mset_eq_imp_distinct_iff by blast
  qed
  ultimately show ?thesis
    by (simp add: list_all_iff)
next
  case False
  then show ?thesis
    using assms(1) by (auto simp: plan_publications_def)
qed

theorem new_pull_requests_are_sound_witness:
  "\<exists>plan cs. plan_publications demo_sha demo_candidates (\<lambda>_. None) empty_github demo_limits (Aware 100) = Inr plan \<and>
     pn_prs plan \<noteq> [] \<and> sound_pr (\<lambda>_. None) [] demo_limits demo_candidates (hd (pn_prs plan)) cs"
proof -
  obtain plan where plan: "plan_publications demo_sha demo_candidates (\<lambda>_. None) empty_github demo_limits (Aware 100) = Inr plan"
    and ids: "map np_decision_ids (pn_prs plan) = [[demo_id CHR ''a'', demo_id CHR ''b'']]"
    using demo_plan_shape unfolding demo_plan_def by (auto simp: plan_shape_def split: sum.splits)
  have limits: "valid_limits demo_limits" and github: "gs_artifacts empty_github = []"
    by (simp_all add: valid_limits_def demo_limits_def empty_github_def)
  have "pn_prs plan \<noteq> []"
    using ids by auto
  moreover from this have "\<exists>cs. sound_pr (\<lambda>_. None) [] demo_limits demo_candidates (hd (pn_prs plan)) cs"
    using new_pull_requests_are_sound [OF plan limits] github by (simp add: list_all_iff)
  ultimately show ?thesis
    using plan by blast
qed

subsection \<open>Bodies and branches\<close>

definition marker_text :: "string \<Rightarrow> string" where
  "marker_text d = ''<!-- citypods:remedy:v1:'' @ d @ '' -->''"

lemma marker_is_text: "marker d = Inr m \<longleftrightarrow> is_digest d \<and> m = marker_text d"
  by (auto simp: marker_def marker_text_def MARKER_PREFIX_def MARKER_END_def)

lemma find_markers_Cons:
  "find_markers opening (c # cs) =
     (case marker_here opening (c # cs) of
        None \<Rightarrow> find_markers opening cs
      | Some d \<Rightarrow> d # find_markers opening (drop (length opening + 63 + length MARKER_END) cs))"
  by (simp add: find_markers.simps)

lemma find_markers_plain:
  "hd opening = CHR ''<'' \<Longrightarrow> opening \<noteq> [] \<Longrightarrow> CHR ''<'' \<notin> set pre \<Longrightarrow>
   find_markers opening (pre @ s) = find_markers opening s"
proof (induction pre)
  case (Cons c pre)
  then have "marker_here opening ((c # pre) @ s) = None"
    by (cases "opening") (auto simp: marker_here_def py_startswith_def)
  with Cons show ?case
    by (simp add: find_markers_Cons)
qed simp

lemma find_own_marker:
  assumes "is_digest d"
  shows "find_markers MARKER_OPENING (marker_text d @ s) = d # find_markers MARKER_OPENING s"
proof -
  have len: "length d = 64"
    using assms by (simp add: is_digest_def)
  have here: "marker_here MARKER_OPENING (marker_text d @ s) = Some d"
    using len assms
    by (simp add: marker_here_def marker_text_def MARKER_OPENING_def MARKER_END_def py_startswith_def)
  have unfold_text: "marker_text d @ s = CHR ''<'' # ''!-- citypods:remedy:v1:'' @ d @ '' -->'' @ s"
    by (simp add: marker_text_def)
  have rest: "drop (length MARKER_OPENING + 63 + length MARKER_END) (''!-- citypods:remedy:v1:'' @ d @ '' -->'' @ s) = s"
    using len by (simp add: MARKER_OPENING_def MARKER_END_def)
  show ?thesis
    using here unfolding unfold_text find_markers_Cons rest by simp
qed

lemma find_foreign_marker:
  assumes "is_digest d"
  shows "find_markers LEGACY_OPENING (marker_text d @ s) = find_markers LEGACY_OPENING s"
proof -
  let ?rest = "''!-- citypods:remedy:v1:'' @ d @ '' -->''"
  have "CHR ''<'' \<notin> set d"
    using assms by (auto simp: is_digest_def is_hex_def list_all_iff Let_def)
  then have rest: "find_markers LEGACY_OPENING (?rest @ s) = find_markers LEGACY_OPENING s"
    by (intro find_markers_plain) (simp_all add: LEGACY_OPENING_def)
  have here: "marker_here LEGACY_OPENING (CHR ''<'' # ?rest @ s) = None"
    by (simp add: marker_here_def LEGACY_OPENING_def py_startswith_def)
  have unfold_text: "marker_text d @ s = CHR ''<'' # ?rest @ s"
    by (simp add: marker_text_def)
  show ?thesis
    unfolding unfold_text find_markers_Cons here option.case rest ..
qed

lemma find_markers_Nil [simp]: "find_markers opening [] = []"
  by (simp add: find_markers.simps)

lemma find_markers_newline:
  "hd opening = CHR ''<'' \<Longrightarrow> opening \<noteq> [] \<Longrightarrow> find_markers opening (CHR 0x0A # s) = find_markers opening s"
  using find_markers_plain [of "opening" "[CHR 0x0A]" s] by simp

lemma openings [simp]:
  "hd MARKER_OPENING = CHR ''<''" "MARKER_OPENING \<noteq> []" "hd LEGACY_OPENING = CHR ''<''" "LEGACY_OPENING \<noteq> []"
  by (simp_all add: MARKER_OPENING_def LEGACY_OPENING_def)

lemma find_joined:
  "list_all is_digest ds \<Longrightarrow>
   find_markers MARKER_OPENING (py_join [CHR 0x0A] (map marker_text ds)) = ds \<and>
   find_markers LEGACY_OPENING (py_join [CHR 0x0A] (map marker_text ds)) = []"
proof (induction ds)
  case (Cons d ds)
  show ?case
  proof (cases ds)
    case Nil
    then show ?thesis
      using Cons.prems find_own_marker [of d "[]"] find_foreign_marker [of d "[]"] by simp
  next
    case (Cons e es)
    with Cons.IH Cons.prems show ?thesis
      by (simp add: find_own_marker find_foreign_marker find_markers_newline)
  qed
qed simp

lemma mapE_marker: "mapE marker ds = Inr ms \<Longrightarrow> list_all is_digest ds \<and> ms = map marker_text ds"
proof (induction ds arbitrary: ms)
  case (Cons d ds)
  then show ?case
    by (cases "marker d") (auto simp: marker_is_text split: sum.splits)
qed simp

lemma sorted_set_idem: "sorted_set (sorted_set xs) = sorted_set xs"
  by (simp add: sorted_set_def sorted_sort_id distinct_remdups_id)

text \<open>A branch ends with a hyphen and the hash, which has no hyphen.\<close>

lemma branch_tail:
  assumes "branch_shape (''fix/remedy-'' @ p @ ''-'' @ h)" and "length h = 12"
  shows "rev (takeWhile (\<lambda>c. c \<noteq> CHR ''-'') (rev (''fix/remedy-'' @ p @ ''-'' @ h))) = h"
proof -
  have "list_all is_hex h"
    using assms by (auto simp: branch_shape_def Let_def)
  then have "c \<noteq> CHR ''-''" if "c \<in> set h" for c
    using that by (auto simp: list_all_iff is_hex_def Let_def)
  then have "takeWhile (\<lambda>c. c \<noteq> CHR ''-'') (rev h @ CHR ''-'' # rev (''fix/remedy-'' @ p)) = rev h"
    by (subst takeWhile_append2) auto
  then show ?thesis
    by simp
qed

text \<open>
  An artifact names its decisions: the markers rendered into a body, behind any text that opens no comment,
  are read back as exactly the set of decisions; and the branch derived from decisions is recognized as
  theirs, and as another set's only if the two sets have the same hash. (A digest has 64 characters.)
\<close>

theorem artifact_names_its_decisions:
  assumes "CHR ''<'' \<notin> set body" and "render_markers ids = Inr markers"
    and "branch_name sha256 city family ids = Inr branch" and "\<forall>t. length (sha256 t) = 64"
  shows "parse_markers (Some (body @ markers)) = sorted_set ids \<and>
    (branch_matches sha256 (Some branch) others \<longleftrightarrow> group_hash sha256 others = group_hash sha256 ids)"
proof
  obtain ms where ms: "mapE marker (sorted_set ids) = Inr ms" and markers: "markers = py_join [CHR 0x0A] ms"
    using assms(2) by (auto simp: render_markers_def bindE_Inr)
  have "find_markers MARKER_OPENING markers = sorted_set ids" "find_markers LEGACY_OPENING markers = []"
    using mapE_marker [OF ms] find_joined [of "sorted_set ids"] markers by auto
  then show "parse_markers (Some (body @ markers)) = sorted_set ids"
    using find_markers_plain [OF _ _ assms(1)] by (simp add: parse_markers_def sorted_set_idem)
  obtain c f where branch: "branch = ''fix/remedy-'' @ (c @ ''-'' @ f) @ ''-'' @ group_hash sha256 (sorted_set ids)"
    and shape: "branch_shape branch"
    using assms(3) unfolding branch_name_def Let_def by (simp split: if_split_asm) (auto simp: bindE_Inr split: if_split_asm)
  have "group_hash sha256 (sorted_set ids) = group_hash sha256 ids"
    by (simp add: group_hash_def sorted_set_idem)
  moreover have "length (group_hash sha256 (sorted_set ids)) = 12"
    using assms(4) by (simp add: group_hash_def)
  ultimately show "branch_matches sha256 (Some branch) others \<longleftrightarrow> group_hash sha256 others = group_hash sha256 ids"
    using shape branch_tail [of "c @ ''-'' @ f" "group_hash sha256 (sorted_set ids)"] unfolding branch
    by (auto simp: branch_matches_def)
qed

theorem artifact_names_its_decisions_witness:
  "\<exists>markers branch. render_markers [demo_id CHR ''b'', demo_id CHR ''a''] = Inr markers \<and>
     branch_name demo_sha ''Fort Worth'' ''council'' [demo_id CHR ''b'', demo_id CHR ''a''] = Inr branch \<and>
     parse_markers (Some (''Two aliases.'' @ markers)) = sorted_set [demo_id CHR ''b'', demo_id CHR ''a'']"
proof -
  have "\<not> isl (render_markers [demo_id CHR ''b'', demo_id CHR ''a''])"
    by code_simp
  moreover have "\<not> isl (branch_name demo_sha ''Fort Worth'' ''council'' [demo_id CHR ''b'', demo_id CHR ''a''])"
    by code_simp
  ultimately obtain markers branch where m: "render_markers [demo_id CHR ''b'', demo_id CHR ''a''] = Inr markers"
    and b: "branch_name demo_sha ''Fort Worth'' ''council'' [demo_id CHR ''b'', demo_id CHR ''a''] = Inr branch"
    by (metis isl_def sum.exhaust_sel)
  have "CHR ''<'' \<notin> set ''Two aliases.''" and "\<forall>t. length (demo_sha t) = 64"
    by (simp_all add: demo_sha_def)
  then show ?thesis
    using m b artifact_names_its_decisions [OF _ m b] by blast
qed

subsection \<open>A listing that was cut off\<close>

text \<open>
  When GitHub's search counts more results than it listed, the snapshot read from it reserves nothing: the
  plan against it opens, updates and reopens nothing, and every candidate is queued, in turn, with that
  reason.
\<close>

theorem truncated_listing_reserves_nothing:
  assumes "parse_snapshot fromiso payload = Inr snapshot"
    and "map_of payload ''nodes'' = Some (JList nodes)" and "nodes \<noteq> []"
    and "map_of payload ''issueCount'' = Some (JInt n)" and "int (length nodes) < n"
  shows "\<exists>plan. plan_publications sha256 candidates ledger snapshot limits now_arg = Inr plan \<and>
    pn_prs plan = [] \<and> pn_issues plan = [] \<and> pn_updates plan = [] \<and> pn_reopens plan = [] \<and> pn_budget plan = None \<and>
    map qu_decision_id (pn_queued plan) = map pc_decision_id (round_robin candidates) \<and>
    qu_reason ` set (pn_queued plan) \<subseteq> {''github_snapshot_incomplete''}"
proof -
  have "\<not> gs_complete snapshot"
    using assms by (auto simp: parse_snapshot_def bindE_Inr items_or_empty_def dget_def snapshot_complete_def)
  then show ?thesis
    by (auto simp: plan_publications_def queued_as_def comp_def Let_def)
qed

theorem truncated_listing_reserves_nothing_witness:
  "\<exists>snapshot plan.
     parse_snapshot (\<lambda>_. None) [(''nodes'', JList [JNull]), (''issueCount'', JInt 2)] = Inr snapshot \<and>
     plan_publications demo_sha demo_candidates (\<lambda>_. None) snapshot demo_limits (Aware 100) = Inr plan \<and>
     pn_prs plan = []"
proof -
  have "parse_snapshot (\<lambda>_. None) [(''nodes'', JList [JNull]), (''issueCount'', JInt 2)] =
      Inr \<lparr>gs_artifacts = [], gs_complete = False\<rparr>"
    by (simp add: parse_snapshot_def items_or_empty_def mapping_or_empty_def dget_def parse_entry_def snapshot_complete_def)
  from truncated_listing_reserves_nothing [OF this] this show ?thesis
    by fastforce
qed

end
