(* ===== verification/Resource_Gates.thy ===== *)
theory Resource_Gates
  imports Silence_Trim
begin

section \<open>Admission of native work (resources.py)\<close>

text \<open>
  One process runs its worker threads against three guards: \<open>ResourceAdmission\<close> (wait for free memory and a
  low load), \<open>NativeWorkGate\<close> (speech recognition never overlaps an encode) and \<open>MemoryReservation\<close> (the
  predicted peaks fit a budget). Every access to a guard is one critical section under its condition
  variable, so a guard is a state with atomic operations and the threads are a transition system over it.
  The log lines, the accumulated waiting time and the sleeps between two attempts decide nothing. Floats are
  exact rationals; the readings of \<open>/proc\<close> are texts.
\<close>

subsection \<open>Readings\<close>

record resource_snapshot =
  rs_rss_bytes :: "int option"
  rs_mem_total_bytes :: "int option"
  rs_mem_available_bytes :: "int option"
  rs_load1 :: "rat option"
  rs_load5 :: "rat option"
  rs_cpus :: int
  rs_disk_free_bytes :: "int option"
  rs_disk_total_bytes :: "int option"
  rs_thread_count :: int

text \<open>\<open>f"{n:.1f}"\<close> of a number that is not negative.\<close>

definition one_decimal :: "rat \<Rightarrow> string" where
  "one_decimal n = (let t = round_half_even (n * 10) in dec_int (t div 10) @ ''.'' @ dec_int (t mod 10))"

definition signed_decimal :: "rat \<Rightarrow> string" where
  "signed_decimal n = (if n < 0 then ''-'' @ one_decimal (- n) else one_decimal n)"

fun format_from :: "rat \<Rightarrow> string list \<Rightarrow> string" where
  "format_from n [] = signed_decimal n @ ''TiB''"
| "format_from n (unit # units) =
     (if \<bar>n\<bar> < 1024 \<or> units = []
      then (if unit = ''B'' then dec_int (py_trunc n) @ ''B'' else signed_decimal n @ unit)
      else format_from (n / 1024) units)"

definition format_bytes :: "int option \<Rightarrow> string" where
  "format_bytes value =
     (case value of None \<Rightarrow> ''unknown''
      | Some v \<Rightarrow> format_from (of_int v) [''B'', ''KiB'', ''MiB'', ''GiB'', ''TiB''])"

text \<open>
  The lines of \<open>/proc/meminfo\<close>: a line without a colon or a number that is not one discards everything.
\<close>

definition meminfo_line :: "string \<Rightarrow> (string \<times> int) list \<Rightarrow> ((string \<times> int) list) option" where
  "meminfo_line line values =
     (case split_at_char (\<lambda>c. c = CHR '':'') line of
        (key, None) \<Rightarrow> None
      | (key, Some raw) \<Rightarrow>
          (case py_split (py_strip raw) of
             [] \<Rightarrow> Some values
           | part # _ \<Rightarrow> map_option (\<lambda>n. AList.update key (n * 1024) values) (py_int_of_str part)))"

fun meminfo_lines :: "string list \<Rightarrow> (string \<times> int) list \<Rightarrow> ((string \<times> int) list) option" where
  "meminfo_lines [] values = Some values"
| "meminfo_lines (line # rest) values =
     (case meminfo_line line values of None \<Rightarrow> None | Some v \<Rightarrow> meminfo_lines rest v)"

text \<open>\<open>text\<close> is \<open>None\<close> when the file is missing or cannot be read.\<close>

definition proc_meminfo_bytes :: "string option \<Rightarrow> int option \<times> int option" where
  "proc_meminfo_bytes text =
     (case text of None \<Rightarrow> (None, None)
      | Some t \<Rightarrow>
          (case meminfo_lines (split_lines [] t) [] of
             None \<Rightarrow> (None, None)
           | Some values \<Rightarrow> (map_of values ''MemTotal'', map_of values ''MemAvailable'')))"

text \<open>
  \<open>VmRSS:\<close> and \<open>VmHWM:\<close> of \<open>/proc/self/status\<close>: the first line with the field decides; where it has no
  number, or the file is missing, \<open>ru_maxrss\<close> (in bytes, \<open>None\<close> where it fails) is used.
\<close>

definition status_bytes :: "string \<Rightarrow> string option \<Rightarrow> int option \<Rightarrow> int option" where
  "status_bytes field text maxrss =
     (case text of None \<Rightarrow> maxrss
      | Some t \<Rightarrow>
          (case find (\<lambda>line. py_startswith line field) (split_lines [] t) of
             None \<Rightarrow> maxrss
           | Some line \<Rightarrow>
               (case drop 1 (py_split line) of
                  [] \<Rightarrow> maxrss
                | part # _ \<Rightarrow> (case py_int_of_str part of None \<Rightarrow> maxrss | Some n \<Rightarrow> Some (n * 1024)))))"

definition process_rss_bytes :: "string option \<Rightarrow> int option \<Rightarrow> int option" where
  "process_rss_bytes = status_bytes ''VmRSS:''"

definition process_peak_rss_bytes :: "string option \<Rightarrow> int option \<Rightarrow> int option" where
  "process_peak_rss_bytes = status_bytes ''VmHWM:''"

subsection \<open>ResourceAdmission\<close>

record admission_guard =
  ag_min_available :: "int option"
  ag_max_load_per_cpu :: "rat option"

definition new_guard :: "int option \<Rightarrow> rat option \<Rightarrow> admission_guard" where
  "new_guard min_available max_load =
     \<lparr>ag_min_available = (case min_available of Some n \<Rightarrow> if 0 < n then Some n else None | None \<Rightarrow> None),
      ag_max_load_per_cpu = (case max_load of Some q \<Rightarrow> if 0 < q then Some q else None | None \<Rightarrow> None)\<rparr>"

datatype guard_reason = LowMemory | HighLoad

definition guard_reasons :: "admission_guard \<Rightarrow> resource_snapshot \<Rightarrow> guard_reason list" where
  "guard_reasons g snap =
     (case (ag_min_available g, rs_mem_available_bytes snap) of
        (Some m, Some a) \<Rightarrow> if a < m then [LowMemory] else [] | _ \<Rightarrow> []) @
     (case (ag_max_load_per_cpu g, rs_load1 snap) of
        (Some q, Some load) \<Rightarrow> if of_int (rs_cpus snap) * q < load then [HighLoad] else [] | _ \<Rightarrow> [])"

text \<open>The threads blocked in \<open>wait\<close>, per kind.\<close>

type_synonym waiting_counts = "(string \<times> int) list"

definition count_of :: "waiting_counts \<Rightarrow> string \<Rightarrow> int" where
  "count_of w kind = (case map_of w kind of None \<Rightarrow> 0 | Some n \<Rightarrow> n)"

definition count_in :: "string \<Rightarrow> waiting_counts \<Rightarrow> waiting_counts" where
  "count_in kind w = AList.update kind (count_of w kind + 1) w"

definition count_out :: "string \<Rightarrow> waiting_counts \<Rightarrow> waiting_counts" where
  "count_out kind w = AList.update kind (max 0 (count_of w kind - 1)) w"

text \<open>
  \<open>wait\<close>: each round is the answer of \<open>stop\<close> and the snapshot taken when it is false. \<open>None\<close> is a call that
  is still waiting after the rounds given.
\<close>

fun guard_wait ::
  "admission_guard \<Rightarrow> string \<Rightarrow> (bool \<times> resource_snapshot) list \<Rightarrow> bool \<Rightarrow> waiting_counts \<Rightarrow> bool option \<times> waiting_counts" where
  "guard_wait g kind [] counted w = (None, w)"
| "guard_wait g kind ((stop, snap) # rounds) counted w =
     (let leave = (\<lambda>result. (Some result, if counted then count_out kind w else w)) in
      if stop then leave False
      else if guard_reasons g snap = [] then leave True
      else guard_wait g kind rounds True (if counted then w else count_in kind w))"

definition current_waiting_counts :: "waiting_counts \<Rightarrow> waiting_counts" where
  "current_waiting_counts w = filter (\<lambda>(kind, n). n \<noteq> 0) w"

subsection \<open>NativeWorkGate\<close>

datatype native_work = Audio | AudioFinalize | Asr

record native_gate =
  ng_max_audio :: int
  ng_audio_active :: int
  ng_finalize_waiting :: int
  ng_asr_active :: bool
  ng_asr_waiting :: int

definition new_gate :: "int \<Rightarrow> native_gate" where
  "new_gate max_audio =
     \<lparr>ng_max_audio = max 1 max_audio, ng_audio_active = 0, ng_finalize_waiting = 0, ng_asr_active = False,
      ng_asr_waiting = 0\<rparr>"

definition work_of_kind :: "string \<Rightarrow> exn + native_work" where
  "work_of_kind kind =
     (if kind = ''audio'' then Inr Audio
      else if kind = ''audio-finalize'' then Inr AudioFinalize
      else if kind = ''asr'' then Inr Asr else Inl ValueError)"

text \<open>\<open>acquire\<close> counts a finalizing or recognizing caller as waiting before its first attempt.\<close>

definition announce :: "native_work \<Rightarrow> native_gate \<Rightarrow> native_gate" where
  "announce k g =
     (case k of
        Audio \<Rightarrow> g
      | AudioFinalize \<Rightarrow> g\<lparr>ng_finalize_waiting := ng_finalize_waiting g + 1\<rparr>
      | Asr \<Rightarrow> g\<lparr>ng_asr_waiting := ng_asr_waiting g + 1\<rparr>)"

text \<open>One attempt under the lock: the new state of the gate, or \<open>None\<close> when the caller must wait on.\<close>

definition try_audio :: "bool \<Rightarrow> native_gate \<Rightarrow> native_gate option" where
  "try_audio finalize g =
     (let finalize_block = (\<not> finalize \<and> 0 < ng_finalize_waiting g) in
      if \<not> ng_asr_active g \<and> ng_asr_waiting g = 0 \<and> \<not> finalize_block \<and> ng_audio_active g < ng_max_audio g
      then Some (g\<lparr>ng_audio_active := ng_audio_active g + 1,
                   ng_finalize_waiting := (if finalize then ng_finalize_waiting g - 1 else ng_finalize_waiting g)\<rparr>)
      else None)"

definition try_asr :: "native_gate \<Rightarrow> native_gate option" where
  "try_asr g =
     (if \<not> ng_asr_active g \<and> ng_audio_active g = 0
      then Some (g\<lparr>ng_asr_waiting := ng_asr_waiting g - 1, ng_asr_active := True\<rparr>) else None)"

definition try_acquire :: "native_work \<Rightarrow> native_gate \<Rightarrow> native_gate option" where
  "try_acquire k g =
     (case k of Audio \<Rightarrow> try_audio False g | AudioFinalize \<Rightarrow> try_audio True g | Asr \<Rightarrow> try_asr g)"

text \<open>The reason the audio caller logs.\<close>

definition audio_wait_reason :: "native_gate \<Rightarrow> string" where
  "audio_wait_reason g =
     (if ng_asr_active g \<or> ng_asr_waiting g \<noteq> 0 then ''asr-active-or-waiting''
      else if ng_max_audio g \<le> ng_audio_active g then ''audio-cap'' else ''audio-finalize-waiting'')"

text \<open>The \<open>finally\<close> of a caller that stops (or whose \<open>stop\<close> raises) before it was admitted.\<close>

definition withdraw :: "native_work \<Rightarrow> native_gate \<Rightarrow> native_gate" where
  "withdraw k g =
     (case k of
        Audio \<Rightarrow> g
      | AudioFinalize \<Rightarrow> g\<lparr>ng_finalize_waiting := max 0 (ng_finalize_waiting g - 1)\<rparr>
      | Asr \<Rightarrow> if 0 < ng_asr_waiting g then g\<lparr>ng_asr_waiting := ng_asr_waiting g - 1\<rparr> else g)"

definition release_gate :: "native_work \<Rightarrow> native_gate \<Rightarrow> exn + native_gate" where
  "release_gate k g =
     (if k = Asr
      then (if ng_asr_active g then Inr (g\<lparr>ng_asr_active := False\<rparr>) else Inl (OtherError ''RuntimeError''))
      else if ng_audio_active g \<le> 0 then Inl (OtherError ''RuntimeError'')
      else Inr (g\<lparr>ng_audio_active := ng_audio_active g - 1\<rparr>))"

text \<open>
  The threads: outside, waiting in \<open>acquire\<close>, or admitted and not yet released. A waiting thread tries
  again whenever it is woken or its time-out ends; a failed attempt changes nothing.
\<close>

datatype gate_phase = OutsideGate | AtGate native_work | InGate native_work

inductive gate_step :: "native_gate \<times> gate_phase list \<Rightarrow> native_gate \<times> gate_phase list \<Rightarrow> bool" where
  arrives: "i < length ph \<Longrightarrow> ph ! i = OutsideGate \<Longrightarrow> gate_step (g, ph) (announce k g, ph[i := AtGate k])"
| enters: "i < length ph \<Longrightarrow> ph ! i = AtGate k \<Longrightarrow> try_acquire k g = Some g' \<Longrightarrow> gate_step (g, ph) (g', ph[i := InGate k])"
| stops: "i < length ph \<Longrightarrow> ph ! i = AtGate k \<Longrightarrow> gate_step (g, ph) (withdraw k g, ph[i := OutsideGate])"
| leaves: "i < length ph \<Longrightarrow> ph ! i = InGate k \<Longrightarrow> release_gate k g = Inr g' \<Longrightarrow> gate_step (g, ph) (g', ph[i := OutsideGate])"

definition gate_start :: "int \<Rightarrow> nat \<Rightarrow> native_gate \<times> gate_phase list" where
  "gate_start max_audio threads = (new_gate max_audio, replicate threads OutsideGate)"

definition current_counts :: "native_gate \<Rightarrow> pydict" where
  "current_counts g =
     [(''audio_active'', JInt (ng_audio_active g)), (''max_audio_active'', JInt (ng_max_audio g)),
      (''audio_finalize_waiting'', JInt (ng_finalize_waiting g)), (''asr_active'', JBool (ng_asr_active g)),
      (''asr_waiting'', JInt (ng_asr_waiting g))]"

subsection \<open>MemoryReservation\<close>

record memory_pool =
  mp_budget :: int
  mp_reserved :: int

definition new_pool :: "int \<Rightarrow> memory_pool" where
  "new_pool budget = \<lparr>mp_budget = max 1 budget, mp_reserved = 0\<rparr>"

definition clamp :: "memory_pool \<Rightarrow> int \<Rightarrow> int" where
  "clamp p estimate = max 0 (min estimate (mp_budget p))"

definition try_once_locked :: "int \<Rightarrow> memory_pool \<Rightarrow> memory_pool option" where
  "try_once_locked need p =
     (if mp_reserved p + need \<le> mp_budget p then Some (p\<lparr>mp_reserved := mp_reserved p + need\<rparr>) else None)"

definition try_reserve :: "int \<Rightarrow> memory_pool \<Rightarrow> memory_pool option" where
  "try_reserve estimate p = try_once_locked (clamp p estimate) p"

definition release_memory :: "int \<Rightarrow> memory_pool \<Rightarrow> memory_pool" where
  "release_memory estimate p = p\<lparr>mp_reserved := max 0 (mp_reserved p - clamp p estimate)\<rparr>"

datatype memory_phase = NoMemory | WaitsFor int | Reserved int

text \<open>\<open>reserve\<close> repeats \<open>try_reserve\<close> until it succeeds or is stopped.\<close>

inductive memory_step :: "memory_pool \<times> memory_phase list \<Rightarrow> memory_pool \<times> memory_phase list \<Rightarrow> bool" where
  asks: "i < length ph \<Longrightarrow> ph ! i = NoMemory \<Longrightarrow> memory_step (p, ph) (p, ph[i := WaitsFor e])"
| gets: "i < length ph \<Longrightarrow> ph ! i = WaitsFor e \<Longrightarrow> try_reserve e p = Some p' \<Longrightarrow> memory_step (p, ph) (p', ph[i := Reserved e])"
| quits: "i < length ph \<Longrightarrow> ph ! i = WaitsFor e \<Longrightarrow> memory_step (p, ph) (p, ph[i := NoMemory])"
| frees: "i < length ph \<Longrightarrow> ph ! i = Reserved e \<Longrightarrow> memory_step (p, ph) (release_memory e p, ph[i := NoMemory])"

definition memory_start :: "int \<Rightarrow> nat \<Rightarrow> memory_pool \<times> memory_phase list" where
  "memory_start budget threads = (new_pool budget, replicate threads NoMemory)"

end
