(* ===== verification/Gate_Properties.thy ===== *)
theory Gate_Properties
  imports Resource_Gates
begin

section \<open>What the resource guards guarantee\<close>

text \<open>
  The counters of the native-work gate are exact in every reachable state, so recognition never runs beside
  an encode, encodes stay within their number, and a release never fails. A waiting recognition shuts the
  gate to encodes. The memory pool never promises more than its budget, and is never stuck.
\<close>

subsection \<open>Counting threads\<close>

definition n_of :: "('a \<Rightarrow> bool) \<Rightarrow> 'a list \<Rightarrow> int" where
  "n_of P xs = int (length (filter P xs))"

lemma n_of_update:
  "i < length xs \<Longrightarrow> n_of P (xs[i := x]) = n_of P xs - of_bool (P (xs ! i)) + of_bool (P x)"
proof (induction xs arbitrary: i)
  case (Cons y xs)
  then show ?case
    by (cases i) (auto simp: n_of_def)
qed simp

lemma n_of_nonneg [simp]: "0 \<le> n_of P xs"
  by (simp add: n_of_def)

lemma n_of_pos: "i < length xs \<Longrightarrow> P (xs ! i) \<Longrightarrow> 0 < n_of P xs"
  by (auto simp: n_of_def filter_empty_conv)

lemma n_of_replicate: "\<not> P x \<Longrightarrow> n_of P (replicate n x) = 0"
  by (simp add: n_of_def)

lemma n_of_zero: "n_of P xs = 0 \<Longrightarrow> i < length xs \<Longrightarrow> \<not> P (xs ! i)"
  by (auto simp: n_of_def filter_empty_conv)

lemma n_of_one:
  "n_of P xs \<le> 1 \<Longrightarrow> i < length xs \<Longrightarrow> j < length xs \<Longrightarrow> P (xs ! i) \<Longrightarrow> P (xs ! j) \<Longrightarrow> i = j"
proof (rule ccontr)
  assume *: "n_of P xs \<le> 1" "i < length xs" "j < length xs" "P (xs ! i)" "P (xs ! j)" "i \<noteq> j"
  have "card {i, j} \<le> card {k. k < length xs \<and> P (xs ! k)}"
    by (rule card_mono) (use * in auto)
  then show False
    using * by (simp add: n_of_def length_filter_conv_card)
qed

subsection \<open>The native-work gate\<close>

definition encodes :: "gate_phase \<Rightarrow> bool" where
  "encodes x \<longleftrightarrow> x = InGate Audio \<or> x = InGate AudioFinalize"

lemma encodes_simps [simp]:
  "\<not> encodes OutsideGate" "\<not> encodes (AtGate k)" "encodes (InGate k) \<longleftrightarrow> k \<noteq> Asr"
  by (cases k; simp add: encodes_def)+

text \<open>Every counter of the gate is the number of threads it stands for.\<close>

definition gate_exact :: "native_gate \<Rightarrow> gate_phase list \<Rightarrow> bool" where
  "gate_exact g ph \<longleftrightarrow>
     ng_audio_active g = n_of encodes ph \<and>
     n_of (\<lambda>x. x = InGate Asr) ph = of_bool (ng_asr_active g) \<and>
     ng_finalize_waiting g = n_of (\<lambda>x. x = AtGate AudioFinalize) ph \<and>
     ng_asr_waiting g = n_of (\<lambda>x. x = AtGate Asr) ph"

definition gate_safe :: "native_gate \<Rightarrow> bool" where
  "gate_safe g \<longleftrightarrow> ng_audio_active g \<le> ng_max_audio g \<and> (ng_asr_active g \<longrightarrow> ng_audio_active g = 0)"

lemma gate_safe_step: "gate_step s s' \<Longrightarrow> gate_safe (fst s) \<Longrightarrow> gate_safe (fst s') \<and> ng_max_audio (fst s') = ng_max_audio (fst s)"
proof (induction rule: gate_step.induct)
  case (arrives i ph g k)
  then show ?case
    by (cases k) (simp_all add: announce_def gate_safe_def)
next
  case (enters i ph k g g')
  then show ?case
    by (cases k) (auto simp: try_acquire_def try_audio_def try_asr_def gate_safe_def Let_def split: if_splits)
next
  case (stops i ph k g)
  then show ?case
    by (cases k) (simp_all add: withdraw_def gate_safe_def)
next
  case (leaves i ph k g g')
  then show ?case
    by (auto simp: release_gate_def gate_safe_def split: if_splits)
qed

lemma gate_exact_step: "gate_step s s' \<Longrightarrow> gate_exact (fst s) (snd s) \<Longrightarrow> gate_exact (fst s') (snd s')"
proof (induction rule: gate_step.induct)
  case (arrives i ph g k)
  then show ?case
    by (cases k) (simp_all add: announce_def gate_exact_def n_of_update)
next
  case (enters i ph k g g')
  then show ?case
    by (cases k) (auto simp: try_acquire_def try_audio_def try_asr_def gate_exact_def n_of_update Let_def split: if_splits)
next
  case (stops i ph k g)
  then have "0 < n_of (\<lambda>x. x = AtGate k) ph"
    by (intro n_of_pos) auto
  with stops show ?case
    by (cases k) (simp_all add: withdraw_def gate_exact_def n_of_update)
next
  case (leaves i ph k g g')
  then show ?case
    by (cases k) (auto simp: release_gate_def gate_exact_def n_of_update split: if_splits)
qed

lemma gate_reachable:
  assumes "gate_step\<^sup>*\<^sup>* (gate_start m n) (g, ph)"
  shows "gate_exact g ph \<and> gate_safe g \<and> ng_max_audio g = max 1 m"
proof -
  have "gate_exact (fst s) (snd s) \<and> gate_safe (fst s) \<and> ng_max_audio (fst s) = max 1 m"
    if "gate_step\<^sup>*\<^sup>* (gate_start m n) s" for s
    using that
  proof (induction rule: rtranclp_induct)
    case base
    show ?case
      by (simp add: gate_start_def new_gate_def gate_exact_def gate_safe_def n_of_replicate)
  next
    case (step s s')
    then show ?case
      using gate_exact_step gate_safe_step by metis
  qed
  from this [OF assms] show ?thesis
    by simp
qed

text \<open>
  C22: However the threads arrive, wait, stop and release: a thread in speech recognition is the only one inside
  the gate, never more than \<open>max_audio_active\<close> threads encode, the counters the heartbeat reports are the
  numbers of threads, and the release of a thread inside the gate never raises.
\<close>

theorem native_work_is_exclusive:
  assumes "gate_step\<^sup>*\<^sup>* (gate_start max_audio threads) (g, ph)"
  shows "(\<forall>i j k. i < length ph \<and> j < length ph \<and> ph ! i = InGate Asr \<and> ph ! j = InGate k \<longrightarrow> i = j) \<and>
    n_of encodes ph \<le> max 1 max_audio \<and> gate_exact g ph \<and>
    (\<forall>i k. i < length ph \<and> ph ! i = InGate k \<longrightarrow> (\<exists>g'. release_gate k g = Inr g'))"
proof -
  have exact: "gate_exact g ph" and safe: "gate_safe g" and max: "ng_max_audio g = max 1 max_audio"
    using gate_reachable [OF assms] by auto
  have asr: "ng_asr_active g \<and> n_of encodes ph = 0" if "i < length ph" "ph ! i = InGate Asr" for i
    using n_of_pos [of i ph "\<lambda>x. x = InGate Asr"] that exact safe
    by (cases "ng_asr_active g") (auto simp: gate_exact_def gate_safe_def)
  have "i = j" if "i < length ph" "j < length ph" "ph ! i = InGate Asr" "ph ! j = InGate k" for i j k
  proof (cases "k = Asr")
    case True
    then show ?thesis
      using n_of_one [of "\<lambda>x. x = InGate Asr" ph i j] that exact by (simp add: gate_exact_def)
  next
    case False
    then show ?thesis
      using n_of_zero [of encodes ph j] asr that by auto
  qed
  moreover have "\<exists>g'. release_gate k g = Inr g'" if "i < length ph" "ph ! i = InGate k" for i k
    using asr [of i] n_of_pos [of i ph encodes] that exact
    by (cases "k = Asr") (auto simp: release_gate_def gate_exact_def)
  moreover have "n_of encodes ph \<le> max 1 max_audio"
    using exact safe max by (simp add: gate_exact_def gate_safe_def)
  ultimately show ?thesis
    using exact by blast
qed

lemma gate_run:
  "i < length ph \<Longrightarrow> ph ! i = OutsideGate \<Longrightarrow> try_acquire k (announce k g) = Some g' \<Longrightarrow>
   gate_step\<^sup>*\<^sup>* (g, ph) (g', ph[i := InGate k])"
proof -
  assume *: "i < length ph" "ph ! i = OutsideGate" "try_acquire k (announce k g) = Some g'"
  have "gate_step (g, ph) (announce k g, ph[i := AtGate k])"
    using * by (intro arrives)
  moreover have "gate_step (announce k g, ph[i := AtGate k]) (g', (ph[i := AtGate k])[i := InGate k])"
    using * by (intro enters) auto
  ultimately show ?thesis
    by simp
qed

text \<open>One thread recognizes, a second has asked for an encode.\<close>

definition demo_gate :: native_gate where
  "demo_gate = (new_gate 2)\<lparr>ng_asr_active := True\<rparr>"

lemma demo_gate_reachable:
  "gate_step\<^sup>*\<^sup>* (gate_start 2 2) (demo_gate, [InGate Asr, AtGate Audio])"
proof -
  have "gate_step\<^sup>*\<^sup>* (gate_start 2 2) (demo_gate, [OutsideGate, OutsideGate][0 := InGate Asr])"
    using gate_run [of 0 "[OutsideGate, OutsideGate]" Asr "new_gate 2" demo_gate]
    by (simp add: gate_start_def numeral_2_eq_2 demo_gate_def new_gate_def try_acquire_def try_asr_def announce_def)
  moreover have "gate_step (demo_gate, [InGate Asr, OutsideGate]) (announce Audio demo_gate, [InGate Asr, OutsideGate][1 := AtGate Audio])"
    by (rule arrives) simp_all
  ultimately show ?thesis
    by (simp add: announce_def)
qed

theorem native_work_is_exclusive_witness:
  "gate_step\<^sup>*\<^sup>* (gate_start 2 2) (demo_gate, [InGate Asr, AtGate Audio]) \<and>
   n_of encodes [InGate Asr, AtGate Audio] \<le> 2 \<and> gate_exact demo_gate [InGate Asr, AtGate Audio]"
  using native_work_is_exclusive [OF demo_gate_reachable] demo_gate_reachable by simp

subsection \<open>A waiting recognition comes next\<close>

text \<open>A step during which thread \<open>i\<close> waits for recognition.\<close>

definition while_waiting ::
  "nat \<Rightarrow> native_gate \<times> gate_phase list \<Rightarrow> native_gate \<times> gate_phase list \<Rightarrow> bool" where
  "while_waiting i s s' \<longleftrightarrow> gate_step s s' \<and> snd s ! i = AtGate Asr \<and> snd s' ! i = AtGate Asr"

definition encoders :: "gate_phase list \<Rightarrow> nat set" where
  "encoders ph = {j. j < length ph \<and> encodes (ph ! j)}"

lemma gate_step_length: "gate_step s s' \<Longrightarrow> length (snd s') = length (snd s)"
  by (induction rule: gate_step.induct) simp_all

lemma no_encode_beside_waiting:
  assumes "gate_exact g ph" and "AtGate Asr \<in> set ph" and "k \<noteq> Asr"
  shows "try_acquire k g = None"
proof -
  obtain i where "i < length ph" "ph ! i = AtGate Asr"
    using assms(2) by (auto simp: in_set_conv_nth)
  then have "0 < ng_asr_waiting g"
    using assms(1) n_of_pos [of i ph "\<lambda>x. x = AtGate Asr"] by (simp add: gate_exact_def)
  then show ?thesis
    using assms(3) by (cases k) (simp_all add: try_acquire_def try_audio_def)
qed

lemma encoders_update:
  "j < length ph \<Longrightarrow> encoders (ph[j := x]) = (if encodes x then insert j (encoders ph) else encoders ph - {j})"
  by (auto simp: encoders_def nth_list_update)

lemma encoders_shrink:
  assumes "while_waiting i s s'" and "gate_exact (fst s) (snd s)" and "i < length (snd s)"
  shows "encoders (snd s') \<subseteq> encoders (snd s)"
proof -
  have waits: "AtGate Asr \<in> set (snd s)"
    using assms by (metis nth_mem while_waiting_def)
  have "gate_step s s'"
    using assms(1) by (simp add: while_waiting_def)
  then show ?thesis
    using assms(2) waits
  proof (induction rule: gate_step.induct)
    case (enters j ph k g g')
    then have "k = Asr"
      using no_encode_beside_waiting [of g ph k] by auto
    then show ?case
      using enters by (auto simp: encoders_update)
  qed (auto simp: encoders_update)
qed

lemma no_one_inside:
  assumes "gate_exact g ph" and "\<forall>k. InGate k \<notin> set ph"
  shows "\<exists>g'. try_acquire Asr g = Some g'"
proof -
  have "n_of encodes ph = 0" "n_of (\<lambda>x. x = InGate Asr) ph = 0"
    using assms(2) by (auto simp: n_of_def filter_empty_conv encodes_def)
  then show ?thesis
    using assms(1) by (auto simp: try_acquire_def try_asr_def gate_exact_def of_bool_def split: if_splits)
qed

text \<open>
  C23: A waiting recognition is not starved by encodes: as long as a thread waits for it, whatever the others do,
  no thread starts to encode, so the ones encoding are among those that already were; and as soon as no
  thread is inside the gate, the next attempt of the waiting thread succeeds.
\<close>

theorem waiting_asr_is_next:
  assumes "gate_step\<^sup>*\<^sup>* (gate_start max_audio threads) (g, ph)" and "i < length ph"
    and "(while_waiting i)\<^sup>*\<^sup>* (g, ph) (g', ph')" and "ph' ! i = AtGate Asr"
  shows "encoders ph' \<subseteq> encoders ph \<and> try_acquire Audio g' = None \<and> try_acquire AudioFinalize g' = None \<and>
    ((\<forall>k. InGate k \<notin> set ph') \<longrightarrow> (\<exists>g''. try_acquire Asr g' = Some g''))"
proof -
  have run: "encoders (snd s) \<subseteq> encoders ph \<and> gate_exact (fst s) (snd s) \<and> length (snd s) = length ph"
    if "(while_waiting i)\<^sup>*\<^sup>* (g, ph) s" for s
    using that
  proof (induction rule: rtranclp_induct)
    case base
    then show ?case
      using gate_reachable [OF assms(1)] by simp
  next
    case (step s s')
    have st: "gate_step s s'"
      using step(2) by (simp add: while_waiting_def)
    have ih: "encoders (snd s) \<subseteq> encoders ph" "gate_exact (fst s) (snd s)" "length (snd s) = length ph"
      using step(3) by simp_all
    have "encoders (snd s') \<subseteq> encoders (snd s)"
      using encoders_shrink [OF step(2) ih(2)] ih(3) assms(2) by simp
    then show ?case
      using gate_exact_step [OF st ih(2)] gate_step_length [OF st] ih by simp
  qed
  have end_state: "encoders ph' \<subseteq> encoders ph" "gate_exact g' ph'" "length ph' = length ph"
    using run [OF assms(3)] by simp_all
  have "AtGate Asr \<in> set ph'"
    using assms(2,4) end_state(3) by (metis nth_mem)
  then show ?thesis
    using no_encode_beside_waiting [OF end_state(2)] no_one_inside [OF end_state(2)] end_state(1) by blast
qed

text \<open>A thread encodes, another asks for recognition, and the first one finishes.\<close>

theorem waiting_asr_is_next_witness:
  "\<exists>g g' g''. gate_step\<^sup>*\<^sup>* (gate_start 1 2) (g, [InGate Audio, AtGate Asr]) \<and>
     (while_waiting 1)\<^sup>*\<^sup>* (g, [InGate Audio, AtGate Asr]) (g', [OutsideGate, AtGate Asr]) \<and>
     try_acquire Audio g' = None \<and> try_acquire Asr g' = Some g''"
proof -
  let ?busy = "(new_gate 1)\<lparr>ng_audio_active := 1\<rparr>"
  let ?queued = "announce Asr ?busy" and ?idle = "announce Asr (new_gate 1)"
  have "gate_step\<^sup>*\<^sup>* (gate_start 1 2) (?busy, [OutsideGate, OutsideGate][0 := InGate Audio])"
    unfolding gate_start_def
    by (subst numeral_2_eq_2, simp only: replicate.simps, rule gate_run)
      (simp_all add: new_gate_def try_acquire_def try_audio_def announce_def)
  moreover have "gate_step (?busy, [InGate Audio, OutsideGate]) (?queued, [InGate Audio, OutsideGate][1 := AtGate Asr])"
    by (rule arrives) simp_all
  ultimately have reach: "gate_step\<^sup>*\<^sup>* (gate_start 1 2) (?queued, [InGate Audio, AtGate Asr])"
    by simp
  have "gate_step (?queued, [InGate Audio, AtGate Asr]) (?idle, [InGate Audio, AtGate Asr][0 := OutsideGate])"
    by (rule leaves [of _ _ Audio]) (simp_all add: release_gate_def announce_def new_gate_def)
  then have wait: "(while_waiting 1)\<^sup>*\<^sup>* (?queued, [InGate Audio, AtGate Asr]) (?idle, [OutsideGate, AtGate Asr])"
    by (intro r_into_rtranclp) (simp add: while_waiting_def)
  have "\<forall>k. InGate k \<notin> set [OutsideGate, AtGate Asr]"
    by simp
  then show ?thesis
    using waiting_asr_is_next [OF reach _ wait] reach wait by fastforce
qed

subsection \<open>The memory pool\<close>

definition promised :: "memory_pool \<Rightarrow> memory_phase \<Rightarrow> int" where
  "promised p x = (case x of Reserved e \<Rightarrow> clamp p e | _ \<Rightarrow> 0)"

lemma promised_simps [simp]:
  "promised p NoMemory = 0" "promised p (WaitsFor e) = 0" "promised p (Reserved e) = clamp p e"
  by (simp_all add: promised_def)

lemma clamp_bounds [simp]: "0 \<le> clamp p e"
  by (simp add: clamp_def)

lemma promised_nonneg [simp]: "0 \<le> promised p x"
  by (cases x) simp_all

definition promised_total :: "memory_pool \<Rightarrow> memory_phase list \<Rightarrow> int" where
  "promised_total p ph = sum_list (map (promised p) ph)"

lemma promised_update:
  "i < length ph \<Longrightarrow> promised_total p (ph[i := x]) = promised_total p ph - promised p (ph ! i) + promised p x"
proof (induction ph arbitrary: i)
  case (Cons y ph)
  then show ?case
    by (cases i) (simp_all add: promised_total_def)
qed simp

lemma promised_le_total: "x \<in> set ph \<Longrightarrow> promised p x \<le> promised_total p ph"
  unfolding promised_total_def by (intro member_le_sum_list) auto

lemma promised_two:
  "i < length ph \<Longrightarrow> j < length ph \<Longrightarrow> i \<noteq> j \<Longrightarrow> promised p (ph ! i) + promised p (ph ! j) \<le> promised_total p ph"
proof -
  assume *: "i < length ph" "j < length ph" "i \<noteq> j"
  have "promised p (ph ! j) \<le> promised_total p (ph[i := NoMemory])"
    using * by (intro promised_le_total) (metis length_list_update nth_list_update_neq nth_mem)
  then show ?thesis
    using * by (simp add: promised_update)
qed

lemma promised_budget: "mp_budget p' = mp_budget p \<Longrightarrow> promised p' = promised p"
  by (rule ext) (simp add: promised_def clamp_def split: memory_phase.split)

lemma promised_total_budget: "mp_budget p' = mp_budget p \<Longrightarrow> promised_total p' ph = promised_total p ph"
  unfolding promised_total_def by (rule arg_cong [where f = "\<lambda>g. sum_list (map g ph)"]) (rule promised_budget)

definition pool_exact :: "memory_pool \<Rightarrow> memory_phase list \<Rightarrow> bool" where
  "pool_exact p ph \<longleftrightarrow> mp_reserved p = promised_total p ph \<and> mp_reserved p \<le> mp_budget p"

lemma pool_step:
  "memory_step s s' \<Longrightarrow> pool_exact (fst s) (snd s) \<Longrightarrow>
   pool_exact (fst s') (snd s') \<and> mp_budget (fst s') = mp_budget (fst s)"
proof (induction rule: memory_step.induct)
  case (asks i ph p e)
  then show ?case
    by (simp add: pool_exact_def promised_update)
next
  case (gets i ph e p p')
  then have p': "mp_reserved p' = mp_reserved p + clamp p e" "mp_budget p' = mp_budget p"
    "mp_reserved p + clamp p e \<le> mp_budget p"
    by (auto simp: try_reserve_def try_once_locked_def split: if_splits)
  have "promised_total p' (ph[i := Reserved e]) = promised_total p ph + clamp p e"
    using gets(1,2) by (simp add: promised_total_budget [OF p'(2)] promised_update)
  with gets(4) p' show ?case
    by (simp add: pool_exact_def)
next
  case (quits i ph e p)
  then show ?case
    by (simp add: pool_exact_def promised_update)
next
  case (frees i ph e p)
  have budget: "mp_budget (release_memory e p) = mp_budget p"
    by (simp add: release_memory_def)
  have "promised_total (release_memory e p) (ph[i := NoMemory]) = promised_total p ph - clamp p e"
    using frees(1,2) by (simp add: promised_total_budget [OF budget] promised_update)
  moreover have "clamp p e \<le> mp_reserved p"
    using frees promised_le_total [OF nth_mem [OF frees(1)], of p] by (simp add: pool_exact_def)
  then have "mp_reserved (release_memory e p) = mp_reserved p - clamp p e"
    by (simp add: release_memory_def)
  ultimately show ?case
    using frees(3) budget clamp_bounds [of p e] unfolding pool_exact_def fst_conv snd_conv by linarith
qed

text \<open>
  C24: In every reachable state the reserved bytes are exactly what the threads hold, and never above the budget.
  When no thread holds memory, an estimate of any size is admitted, so the pool is never stuck; and a thread
  whose estimate fills the budget runs alone, with only threads beside it that asked for nothing.
\<close>

theorem memory_never_overcommitted:
  assumes "memory_step\<^sup>*\<^sup>* (memory_start budget threads) (p, ph)"
  shows "mp_reserved p = sum_list (map (promised p) ph) \<and> mp_reserved p \<le> max 1 budget \<and>
    ((\<forall>e. Reserved e \<notin> set ph) \<longrightarrow> (\<forall>e. try_reserve e p \<noteq> None)) \<and>
    (\<forall>i j e f. i < length ph \<and> j < length ph \<and> i \<noteq> j \<and> ph ! i = Reserved e \<and> ph ! j = Reserved f \<and> max 1 budget \<le> e \<longrightarrow>
       clamp p f = 0)"
proof -
  have "pool_exact (fst s) (snd s) \<and> mp_budget (fst s) = max 1 budget"
    if "memory_step\<^sup>*\<^sup>* (memory_start budget threads) s" for s
    using that
  proof (induction rule: rtranclp_induct)
    case base
    show ?case
      by (simp add: memory_start_def new_pool_def pool_exact_def promised_total_def sum_list_replicate)
  next
    case (step s s')
    then show ?case
      using pool_step by metis
  qed
  from this [OF assms] have exact: "pool_exact p ph" and budget: "mp_budget p = max 1 budget"
    by simp_all
  have "try_reserve e p \<noteq> None" if none: "\<forall>e. Reserved e \<notin> set ph" for e
  proof -
    have "promised p x = 0" if "x \<in> set ph" for x
      using none that by (cases x) auto
    then have "promised_total p ph = 0"
      by (simp add: promised_total_def cong: map_cong)
    then show ?thesis
      using exact budget by (simp add: try_reserve_def try_once_locked_def clamp_def pool_exact_def)
  qed
  moreover have "clamp p f = 0"
    if "i < length ph" "j < length ph" "i \<noteq> j" "ph ! i = Reserved e" "ph ! j = Reserved f" "max 1 budget \<le> e" for i j e f
  proof -
    have "clamp p e = mp_budget p"
      using that budget by (simp add: clamp_def)
    then show ?thesis
      using promised_two [OF that(1-3), of p] that(4,5) exact clamp_bounds [of p f]
      unfolding pool_exact_def by (simp only: promised_simps) linarith
  qed
  ultimately show ?thesis
    using exact budget unfolding pool_exact_def promised_total_def by metis
qed

theorem memory_never_overcommitted_witness:
  "memory_step\<^sup>*\<^sup>* (memory_start 10 2) (\<lparr>mp_budget = 10, mp_reserved = 10\<rparr>, [Reserved 99, NoMemory]) \<and>
   sum_list (map (promised \<lparr>mp_budget = 10, mp_reserved = 10\<rparr>) [Reserved 99, NoMemory]) = 10"
proof -
  let ?p = "\<lparr>mp_budget = 10, mp_reserved = 0\<rparr>" and ?full = "\<lparr>mp_budget = 10, mp_reserved = 10\<rparr>"
  have "memory_step (?p, [NoMemory, NoMemory]) (?p, [NoMemory, NoMemory][0 := WaitsFor 99])"
    by (rule asks) simp_all
  moreover have "memory_step (?p, [WaitsFor 99, NoMemory]) (?full, [WaitsFor 99, NoMemory][0 := Reserved 99])"
    by (rule gets [of _ _ 99]) (simp_all add: try_reserve_def try_once_locked_def clamp_def)
  ultimately have run: "memory_step\<^sup>*\<^sup>* (memory_start 10 2) (?full, [Reserved 99, NoMemory])"
    by (simp add: memory_start_def new_pool_def numeral_2_eq_2)
  show ?thesis
    using memory_never_overcommitted [OF run] run by simp
qed

subsection \<open>The guard's waiting counts\<close>

text \<open>A call that has returned leaves the counts as it found them, however long it waited.\<close>

lemma count_out_in [simp]: "0 \<le> count_of w kind \<Longrightarrow> count_of (count_out kind (count_in kind w)) k = count_of w k"
  by (simp add: count_of_def count_out_def count_in_def dict_simps)

lemma guard_wait_counted:
  "guard_wait g kind rounds True w = (Some result, w') \<Longrightarrow> w' = count_out kind w"
  by (induction rounds) (auto simp: Let_def split: if_splits)

lemma guard_wait_balanced:
  "0 \<le> count_of w kind \<Longrightarrow> guard_wait g kind rounds False w = (Some result, w') \<Longrightarrow> count_of w' k = count_of w k"
  by (cases rounds) (auto simp: Let_def split: if_splits dest!: guard_wait_counted)

text \<open>It answers yes only on a snapshot that gives no reason to wait.\<close>

lemma guard_wait_admits:
  "guard_wait g kind rounds counted w = (Some True, w') \<Longrightarrow>
   \<exists>snap. (False, snap) \<in> set rounds \<and> guard_reasons g snap = []"
proof (induction rounds arbitrary: counted w)
  case (Cons r rounds)
  obtain stop snap where r: "r = (stop, snap)"
    by (cases r)
  show ?case
  proof (cases "stop \<or> guard_reasons g snap = []")
    case True
    with Cons.prems r have "\<not> stop \<and> guard_reasons g snap = []"
      by (auto simp: Let_def split: if_splits)
    with r show ?thesis
      by auto
  next
    case False
    with Cons r show ?thesis
      by (simp add: Let_def) blast
  qed
qed simp

end
