(* ===== verification/Remedy_Ledger.thy ===== *)
theory Remedy_Ledger
  imports Remedy_Queue Media_Availability
begin

section \<open>The decision history of the remedies (remedy_ledger.py)\<close>

text \<open>
  A decision is an append-only set of events, each naming its parents and identified by the hash of its own
  content. \<open>parse_event\<close> validates one, \<open>fold_events\<close> reconstructs the state of a decision from any
  collection of them. \<open>digest\<close> is SHA-256 of the text \<open>json.dumps\<close> gives a document with sorted keys;
  \<open>utc_offset\<close> is what \<open>datetime.fromisoformat\<close> finds in a text: \<open>None\<close> when it raises, otherwise the
  offset in seconds if the time has one. Tuples and lists are both \<open>JList\<close>.
\<close>

subsection \<open>Values\<close>

text \<open>An ISO time inside a document is the text it was written as.\<close>

definition text_value :: "json \<Rightarrow> string option" where
  "text_value j = (case j of JStr s \<Rightarrow> Some s | JTime t \<Rightarrow> Some (iso_text t) | _ \<Rightarrow> None)"

definition check :: "bool \<Rightarrow> exn + unit" where
  "check ok = (if ok then Inr () else Inl ValueError)"

definition filled_text :: "json \<Rightarrow> exn + string" where
  "filled_text j =
     (case text_value j of None \<Rightarrow> Inl ValueError
      | Some s \<Rightarrow> if py_strip s = '''' then Inl ValueError else Inr s)"

definition nullable_text :: "json \<Rightarrow> exn + string option" where
  "nullable_text j = (if j = JNull then Inr None else bindE (filled_text j) (\<lambda>s. Inr (Some s)))"

definition hash_value :: "json \<Rightarrow> exn + string" where
  "hash_value j =
     (case text_value j of None \<Rightarrow> Inl ValueError | Some s \<Rightarrow> if is_digest s then Inr s else Inl ValueError)"

definition sequence_value :: "json \<Rightarrow> exn + json list" where
  "sequence_value j = (case j of JList xs \<Rightarrow> Inr xs | _ \<Rightarrow> Inl ValueError)"

definition canonical_hash :: "(json \<Rightarrow> string) \<Rightarrow> json \<Rightarrow> string" where
  "canonical_hash digest j = digest (jsort j)"

text \<open>A dictionary with exactly these keys.\<close>

definition has_fields :: "string list \<Rightarrow> pydict \<Rightarrow> bool" where
  "has_fields names d \<longleftrightarrow> set (map fst d) = set names"

subsection \<open>References to approvals\<close>

fun slash_parts :: "string \<Rightarrow> string list" where
  "slash_parts [] = [[]]"
| "slash_parts (c # cs) =
     (if c = CHR ''/'' then [] # slash_parts cs
      else (case slash_parts cs of [] \<Rightarrow> [[c]] | p # ps \<Rightarrow> (c # p) # ps))"

definition numbered :: "string \<Rightarrow> string \<Rightarrow> bool" where
  "numbered prefix s \<longleftrightarrow>
     py_startswith s prefix \<and> drop (length prefix) s \<noteq> '''' \<and> list_all is_digit (drop (length prefix) s)"

text \<open>
  \<open>_policy_approval\<close> of \<open>config.py\<close>: \<open>urlparse\<close> drops leading blanks and line breaks, splits off the fragment, then
  the query, then the parameters of the last segment.
\<close>

definition approval_path :: "string \<Rightarrow> bool" where
  "approval_path path =
     (case slash_parts path of
        [lead, owner, repo, kind, number] \<Rightarrow>
          lead = '''' \<and> owner \<noteq> '''' \<and> repo \<noteq> '''' \<and> (kind = ''issues'' \<or> kind = ''pull'') \<and>
          numbered '''' (takeWhile (\<lambda>c. c \<noteq> CHR '';'') number)
      | _ \<Rightarrow> False)"

definition policy_approval :: "string \<Rightarrow> bool" where
  "policy_approval value =
     (let url = filter (\<lambda>c. (of_char c :: nat) \<notin> {9, 10, 13}) (dropWhile (\<lambda>c. (of_char c :: nat) \<le> 32) value) in
      case url_parts url of
        (scheme, netloc, path) \<Rightarrow>
          (let tail = drop (length path) (dropWhile (\<lambda>c. c \<noteq> CHR ''/'') (drop (length ''https://'') url));
               fragment = drop 1 (dropWhile (\<lambda>c. c \<noteq> CHR ''#'') tail);
               query = drop 1 (takeWhile (\<lambda>c. c \<noteq> CHR ''#'') tail)
           in scheme = ''https'' \<and> netloc = ''github.com'' \<and> approval_path path \<and> query = '''' \<and>
              (fragment = '''' \<or>
               numbered ''issuecomment-'' fragment \<or> numbered ''discussion_r-'' fragment \<or>
               numbered ''pullrequestreview-'' fragment)))"

subsection \<open>Events\<close>

record recording_ref =
  rr_source_key :: string
  rr_uid :: "string option"
  rr_provider_guid :: "string option"

record provenance =
  pv_role :: string
  pv_route_id :: string
  pv_model_family :: string
  pv_reasoning_level :: string
  pv_report_hash :: string

record feed_disposition =
  fd_feed_slug :: string
  fd_disposition :: string

record remedy_event =
  re_city :: string
  re_source_key :: string
  re_policy_id :: string
  re_normalized_label :: string
  re_decision_id :: string
  re_event_id :: string
  re_parent_event_ids :: "string list"
  re_occurred_at :: string
  re_actor_kind :: string
  re_actor_id :: string
  re_state :: string
  re_evidence_hash :: string
  re_config_hash :: string
  re_policy_hash :: string
  re_recording_refs :: "recording_ref list"
  re_provenance :: "provenance list"
  re_rationale :: string
  re_artifact_ref :: "string option"
  re_approval_ref :: "string option"
  re_external_delivery_id :: "string option"
  re_disposition :: "string option"
  re_feed_dispositions :: "feed_disposition list option"

definition STATES :: "string list" where
  "STATES = [''covered'', ''excluded'', ''proposed'', ''in_review'', ''refinement_needed'', ''blocked'', ''resolved'']"

definition DISPOSITIONS :: "string list" where
  "DISPOSITIONS = [''assigned'', ''excluded'', ''watch'', ''not_pursued'', ''rejected'']"

definition FIELDS :: "string list" where
  "FIELDS = [''schema_version'', ''city'', ''source_key'', ''policy_id'', ''normalized_label'', ''decision_id'', ''event_id'',
     ''parent_event_ids'', ''occurred_at'', ''actor_kind'', ''actor_id'', ''state'', ''evidence_hash'', ''config_hash'',
     ''policy_hash'', ''recording_refs'', ''provenance'', ''rationale'', ''artifact_ref'', ''approval_ref'',
     ''external_delivery_id'', ''disposition'']"

definition ref_json :: "recording_ref \<Rightarrow> json" where
  "ref_json r =
     JObj [(''source_key'', JStr (rr_source_key r)), (''uid'', opt_str (rr_uid r)), (''provider_guid'', opt_str (rr_provider_guid r))]"

definition provenance_json :: "provenance \<Rightarrow> json" where
  "provenance_json v =
     JObj [(''role'', JStr (pv_role v)), (''route_id'', JStr (pv_route_id v)), (''model_family'', JStr (pv_model_family v)),
           (''reasoning_level'', JStr (pv_reasoning_level v)), (''report_hash'', JStr (pv_report_hash v))]"

definition feed_json :: "feed_disposition \<Rightarrow> json" where
  "feed_json f = JObj [(''feed_slug'', JStr (fd_feed_slug f)), (''disposition'', JStr (fd_disposition f))]"

text \<open>\<open>payload\<close>: the field added later is left out while it is unset.\<close>

definition event_payload :: "remedy_event \<Rightarrow> pydict" where
  "event_payload e =
     [(''schema_version'', JInt 1), (''city'', JStr (re_city e)), (''source_key'', JStr (re_source_key e)),
      (''policy_id'', JStr (re_policy_id e)), (''normalized_label'', JStr (re_normalized_label e)),
      (''decision_id'', JStr (re_decision_id e)), (''event_id'', JStr (re_event_id e)),
      (''parent_event_ids'', JList (map JStr (re_parent_event_ids e))), (''occurred_at'', JStr (re_occurred_at e)),
      (''actor_kind'', JStr (re_actor_kind e)), (''actor_id'', JStr (re_actor_id e)), (''state'', JStr (re_state e)),
      (''evidence_hash'', JStr (re_evidence_hash e)), (''config_hash'', JStr (re_config_hash e)),
      (''policy_hash'', JStr (re_policy_hash e)), (''recording_refs'', JList (map ref_json (re_recording_refs e))),
      (''provenance'', JList (map provenance_json (re_provenance e))), (''rationale'', JStr (re_rationale e)),
      (''artifact_ref'', opt_str (re_artifact_ref e)), (''approval_ref'', opt_str (re_approval_ref e)),
      (''external_delivery_id'', opt_str (re_external_delivery_id e)), (''disposition'', opt_str (re_disposition e))] @
     (case re_feed_dispositions e of None \<Rightarrow> [] | Some fs \<Rightarrow> [(''feed_dispositions'', JList (map feed_json fs))])"

text \<open>\<open>_canonical\<close> drops the id and sorts the four collections by the hash of their elements.\<close>

definition COLLECTIONS :: "string list" where
  "COLLECTIONS = [''parent_event_ids'', ''recording_refs'', ''provenance'', ''feed_dispositions'']"

definition canonical_entry :: "(json \<Rightarrow> string) \<Rightarrow> string \<times> json \<Rightarrow> string \<times> json" where
  "canonical_entry digest kv =
     (case kv of (k, v) \<Rightarrow>
        (k, if k \<in> set COLLECTIONS then (case v of JList xs \<Rightarrow> JList (sort_key (canonical_hash digest) xs) | _ \<Rightarrow> v) else v))"

definition canonical :: "(json \<Rightarrow> string) \<Rightarrow> pydict \<Rightarrow> pydict" where
  "canonical digest payload = map (canonical_entry digest) (filter (\<lambda>(k, v). k \<noteq> ''event_id'') payload)"

definition event_id :: "(json \<Rightarrow> string) \<Rightarrow> pydict \<Rightarrow> string" where
  "event_id digest payload = canonical_hash digest (JObj (canonical digest payload))"

definition decision_id :: "(json \<Rightarrow> string) \<Rightarrow> string \<Rightarrow> string \<Rightarrow> string \<Rightarrow> string \<Rightarrow> exn + string" where
  "decision_id digest city source_key policy_id label =
     (let identity = [(''city'', city), (''source_key'', source_key), (''policy_id'', policy_id),
                      (''normalized_label'', body_key label)] in
      bindE (check (list_all (\<lambda>s. py_strip s \<noteq> '''') [city, source_key, policy_id, label])) (\<lambda>_.
      bindE (check (list_all (\<lambda>(k, s). py_strip s \<noteq> '''') identity)) (\<lambda>_.
        Inr (canonical_hash digest (JObj (map (\<lambda>(k, s). (k, JStr s)) identity))))))"

subsection \<open>parse\_event\<close>

definition parse_ref :: "string \<Rightarrow> json \<Rightarrow> exn + recording_ref" where
  "parse_ref source j =
     (case j of
        JObj d \<Rightarrow>
          bindE (check (has_fields [''source_key'', ''uid'', ''provider_guid''] d)) (\<lambda>_.
          bindE (check (text_value (dget d ''source_key'' JNull) = Some source)) (\<lambda>_.
          bindE (nullable_text (dget d ''uid'' JNull)) (\<lambda>uid.
          bindE (nullable_text (dget d ''provider_guid'' JNull)) (\<lambda>guid.
          bindE (check (uid \<noteq> None \<or> guid \<noteq> None)) (\<lambda>_.
            Inr \<lparr>rr_source_key = source, rr_uid = uid, rr_provider_guid = guid\<rparr>)))))
      | _ \<Rightarrow> Inl ValueError)"

definition parse_provenance :: "json \<Rightarrow> exn + provenance" where
  "parse_provenance j =
     (case j of
        JObj d \<Rightarrow>
          bindE (check (has_fields [''role'', ''route_id'', ''model_family'', ''reasoning_level'', ''report_hash''] d)) (\<lambda>_.
          bindE (filled_text (dget d ''role'' JNull)) (\<lambda>role.
          bindE (filled_text (dget d ''route_id'' JNull)) (\<lambda>route.
          bindE (filled_text (dget d ''model_family'' JNull)) (\<lambda>family.
          bindE (filled_text (dget d ''reasoning_level'' JNull)) (\<lambda>level.
          bindE (hash_value (dget d ''report_hash'' JNull)) (\<lambda>report.
            Inr \<lparr>pv_role = role, pv_route_id = route, pv_model_family = family, pv_reasoning_level = level,
                 pv_report_hash = report\<rparr>))))))
      | _ \<Rightarrow> Inl ValueError)"

text \<open>\<open>[a-z0-9]+(?:-[a-z0-9]+)*\<close>: no hyphen at either end, no two in a row.\<close>

definition feed_slug :: "string \<Rightarrow> bool" where
  "feed_slug s \<longleftrightarrow>
     s \<noteq> '''' \<and> list_all (\<lambda>c. is_lower_alnum c \<or> c = CHR ''-'') s \<and> hd s \<noteq> CHR ''-'' \<and> last s \<noteq> CHR ''-'' \<and>
     \<not> py_in_text ''--'' s"

definition parse_feed :: "json \<Rightarrow> exn + feed_disposition" where
  "parse_feed j =
     (case j of
        JObj d \<Rightarrow>
          bindE (check (has_fields [''feed_slug'', ''disposition''] d)) (\<lambda>_.
          bindE (filled_text (dget d ''feed_slug'' JNull)) (\<lambda>slug.
          bindE (check (feed_slug slug)) (\<lambda>_.
            let v = dget d ''disposition'' JNull in
            if \<not> hashable v then Inl TypeError
            else case text_value v of
                   None \<Rightarrow> Inl ValueError
                 | Some s \<Rightarrow>
                     if s = ''include'' \<or> s = ''exclude'' then Inr \<lparr>fd_feed_slug = slug, fd_disposition = s\<rparr>
                     else Inl ValueError)))
      | _ \<Rightarrow> Inl ValueError)"

definition parse_feeds :: "json \<Rightarrow> string \<Rightarrow> string option \<Rightarrow> exn + feed_disposition list option" where
  "parse_feeds j state outcome =
     (if j = JNull then Inr None
      else
        bindE (sequence_value j) (\<lambda>entries.
        bindE (mapE parse_feed entries) (\<lambda>feeds.
        bindE (check (distinct (map fd_feed_slug feeds))) (\<lambda>_.
        bindE (check (feeds \<noteq> [] \<or> state = ''blocked'' \<and> outcome = Some ''watch'' \<or>
                      state = ''excluded'' \<and> outcome = Some ''not_pursued'')) (\<lambda>_.
          Inr (Some (sort_key fd_feed_slug feeds)))))))"

text \<open>The fields that are read before the collections.\<close>

definition parse_head :: "(json \<Rightarrow> string) \<Rightarrow> (string \<Rightarrow> int option option) \<Rightarrow> pydict \<Rightarrow> exn + remedy_event" where
  "parse_head digest utc_offset p =
     bindE (check (dget p ''schema_version'' JNull = JInt 1)) (\<lambda>_.
     bindE (filled_text (dget p ''city'' JNull)) (\<lambda>city.
     bindE (filled_text (dget p ''source_key'' JNull)) (\<lambda>source.
     bindE (filled_text (dget p ''policy_id'' JNull)) (\<lambda>policy.
     bindE (filled_text (dget p ''normalized_label'' JNull)) (\<lambda>label.
     bindE (filled_text (dget p ''actor_id'' JNull)) (\<lambda>actor.
     bindE (filled_text (dget p ''rationale'' JNull)) (\<lambda>rationale.
     bindE (check (body_key label = label)) (\<lambda>_.
     bindE (check (length rationale \<le> 4000)) (\<lambda>_.
     bindE (case text_value (dget p ''actor_kind'' JNull) of None \<Rightarrow> Inl ValueError
            | Some k \<Rightarrow> if k \<in> {''maintainer'', ''automation'', ''system''} then Inr k else Inl ValueError) (\<lambda>kind.
     bindE (case text_value (dget p ''state'' JNull) of None \<Rightarrow> Inl ValueError
            | Some s \<Rightarrow> if s \<in> set STATES then Inr s else Inl ValueError) (\<lambda>state.
     bindE (if dget p ''disposition'' JNull = JNull then Inr None
            else case text_value (dget p ''disposition'' JNull) of None \<Rightarrow> Inl ValueError
                 | Some s \<Rightarrow> if s \<in> set DISPOSITIONS then Inr (Some s) else Inl ValueError) (\<lambda>outcome.
     bindE (hash_value (dget p ''decision_id'' JNull)) (\<lambda>decision.
     bindE (hash_value (dget p ''event_id'' JNull)) (\<lambda>event.
     bindE (hash_value (dget p ''evidence_hash'' JNull)) (\<lambda>evidence.
     bindE (hash_value (dget p ''config_hash'' JNull)) (\<lambda>config.
     bindE (hash_value (dget p ''policy_hash'' JNull)) (\<lambda>policy_hash.
     bindE (decision_id digest city source policy label) (\<lambda>own.
     bindE (check (decision = own)) (\<lambda>_.
     bindE (filled_text (dget p ''occurred_at'' JNull)) (\<lambda>occurred.
     bindE (check (utc_offset (replace_z occurred) = Some (Some 0))) (\<lambda>_.
       Inr \<lparr>re_city = city, re_source_key = source, re_policy_id = policy, re_normalized_label = label,
            re_decision_id = decision, re_event_id = event, re_parent_event_ids = [], re_occurred_at = occurred,
            re_actor_kind = kind, re_actor_id = actor, re_state = state, re_evidence_hash = evidence,
            re_config_hash = config, re_policy_hash = policy_hash, re_recording_refs = [], re_provenance = [],
            re_rationale = rationale, re_artifact_ref = None, re_approval_ref = None,
            re_external_delivery_id = None, re_disposition = outcome, re_feed_dispositions = None\<rparr>)))))))))))))))))))))"

definition parse_collections :: "(json \<Rightarrow> string) \<Rightarrow> pydict \<Rightarrow> remedy_event \<Rightarrow> exn + remedy_event" where
  "parse_collections digest p e =
     bindE (sequence_value (dget p ''parent_event_ids'' JNull)) (\<lambda>raw_parents.
     bindE (mapE hash_value raw_parents) (\<lambda>parents.
     bindE (check (distinct parents \<and> re_event_id e \<notin> set parents)) (\<lambda>_.
     bindE (sequence_value (dget p ''recording_refs'' JNull)) (\<lambda>raw_refs.
     bindE (mapE (parse_ref (re_source_key e)) raw_refs) (\<lambda>refs.
     bindE (sequence_value (dget p ''provenance'' JNull)) (\<lambda>raw_provenance.
     bindE (mapE parse_provenance raw_provenance) (\<lambda>provenance.
     bindE (parse_feeds (dget p ''feed_dispositions'' JNull) (re_state e) (re_disposition e)) (\<lambda>feeds.
       Inr (e\<lparr>re_parent_event_ids := sort parents,
              re_recording_refs := sort_key (\<lambda>r. canonical_hash digest (ref_json r)) refs,
              re_provenance := sort_key (\<lambda>v. canonical_hash digest (provenance_json v)) provenance,
              re_feed_dispositions := feeds\<rparr>)))))))))"

definition approval_text :: "json \<Rightarrow> exn + string option" where
  "approval_text j =
     bindE (nullable_text j) (\<lambda>r. case r of None \<Rightarrow> Inr None
       | Some s \<Rightarrow> if policy_approval s then Inr (Some s) else Inl ValueError)"

definition parse_references :: "pydict \<Rightarrow> remedy_event \<Rightarrow> exn + remedy_event" where
  "parse_references p e =
     bindE (approval_text (dget p ''artifact_ref'' JNull)) (\<lambda>artifact.
     bindE (approval_text (dget p ''approval_ref'' JNull)) (\<lambda>approval.
     bindE (nullable_text (dget p ''external_delivery_id'' JNull)) (\<lambda>delivery.
       Inr (e\<lparr>re_artifact_ref := artifact, re_approval_ref := approval, re_external_delivery_id := delivery\<rparr>))))"

text \<open>The rules between state, outcome, approval and recordings.\<close>

definition outcome_rules :: "remedy_event \<Rightarrow> bool" where
  "outcome_rules e \<longleftrightarrow>
     (re_state e \<in> {''covered'', ''excluded''} \<or>
      re_disposition e \<in> {Some ''assigned'', Some ''excluded'', Some ''not_pursued'', Some ''watch''} \<longrightarrow>
      re_approval_ref e \<noteq> None) \<and>
     (re_state e = ''covered'' \<or> re_disposition e = Some ''assigned'' \<longrightarrow> re_recording_refs e \<noteq> []) \<and>
     (re_disposition e = Some ''watch'' \<longrightarrow> re_state e = ''blocked'') \<and>
     (re_disposition e = Some ''rejected'' \<longrightarrow> re_state e = ''refinement_needed'')"

definition parse_event :: "(json \<Rightarrow> string) \<Rightarrow> (string \<Rightarrow> int option option) \<Rightarrow> json \<Rightarrow> exn + remedy_event" where
  "parse_event digest utc_offset payload =
     (case payload of
        JObj p \<Rightarrow>
          bindE (check (has_fields FIELDS p \<or> has_fields (FIELDS @ [''feed_dispositions'']) p)) (\<lambda>_.
          bindE (parse_head digest utc_offset p) (\<lambda>e.
          bindE (parse_collections digest p e) (\<lambda>e.
          bindE (parse_references p e) (\<lambda>e.
          bindE (check (outcome_rules e)) (\<lambda>_.
          bindE (check (event_id digest (event_payload e) = re_event_id e)) (\<lambda>_.
            Inr e))))))
      | _ \<Rightarrow> Inl ValueError)"

subsection \<open>fold\_events\<close>

record decision_state =
  ds_decision_id :: "string option"
  ds_source_key :: "string option"
  ds_state :: string
  ds_disposition :: "string option"
  ds_events :: "remedy_event list"
  ds_tip_ids :: "string list"
  ds_diagnostics :: "string list"

text \<open>One event per id (the last one given), in the order of the ids.\<close>

definition retained_events :: "remedy_event list \<Rightarrow> remedy_event list" where
  "retained_events es = sort_key re_event_id (map snd (fold (\<lambda>e. AList.update (re_event_id e) e) es []))"

definition identity_of :: "remedy_event \<Rightarrow> string list" where
  "identity_of e = [re_decision_id e, re_city e, re_source_key e, re_policy_id e, re_normalized_label e]"

text \<open>The events of one delivery, by source, actor and delivery id.\<close>

definition delivery_key :: "remedy_event \<Rightarrow> string list option" where
  "delivery_key e =
     map_option (\<lambda>d. [re_source_key e, re_actor_kind e, re_actor_id e, d]) (re_external_delivery_id e)"

definition add_delivery ::
  "remedy_event \<Rightarrow> (string list \<times> remedy_event list) list \<Rightarrow> (string list \<times> remedy_event list) list" where
  "add_delivery e groups =
     (case delivery_key e of None \<Rightarrow> groups
      | Some k \<Rightarrow> AList.update k ((case map_of groups k of None \<Rightarrow> [] | Some es \<Rightarrow> es) @ [e]) groups)"

text \<open>What an event says, without its id and the time it occurred.\<close>

definition semantics_of :: "(json \<Rightarrow> string) \<Rightarrow> remedy_event \<Rightarrow> string" where
  "semantics_of digest e =
     canonical_hash digest (JObj (filter (\<lambda>(k, v). k \<noteq> ''occurred_at'') (canonical digest (event_payload e))))"

type_synonym aliases = "(string \<times> string) list"

definition merge_delivery ::
  "(json \<Rightarrow> string) \<Rightarrow> string list \<times> remedy_event list \<Rightarrow> aliases \<times> string list \<Rightarrow> aliases \<times> string list" where
  "merge_delivery digest g acc =
     (case (g, acc) of
        ((k, es), (aliases, notes)) \<Rightarrow>
          if length (remdups (map (semantics_of digest) es)) \<noteq> 1 then (aliases, notes @ [''conflicting delivery content''])
          else let representative = (case sort (map re_event_id es) of [] \<Rightarrow> '''' | i # _ \<Rightarrow> i)
               in (fold (\<lambda>e. AList.update (re_event_id e) representative) es aliases, notes))"

definition alias_events :: "(json \<Rightarrow> string) \<Rightarrow> remedy_event list \<Rightarrow> aliases \<times> string list" where
  "alias_events digest retained =
     fold (merge_delivery digest) (fold add_delivery retained []) (map (\<lambda>e. (re_event_id e, re_event_id e)) retained, [])"

definition alias_of :: "aliases \<Rightarrow> string \<Rightarrow> string" where
  "alias_of aliases i = (case map_of aliases i of None \<Rightarrow> i | Some j \<Rightarrow> j)"

definition node_events :: "aliases \<Rightarrow> remedy_event list \<Rightarrow> (string \<times> remedy_event) list" where
  "node_events aliases retained =
     fold (\<lambda>e. AList.update (alias_of aliases (re_event_id e)) e) (rev retained) []"

definition node_parents :: "aliases \<Rightarrow> (string \<times> remedy_event) list \<Rightarrow> (string \<times> string list) list" where
  "node_parents aliases nodes =
     map (\<lambda>(key, e). (key, remdups (map (alias_of aliases) (re_parent_event_ids e)))) nodes"

text \<open>The elimination: the nodes whose parents are all done, until none is left or none is ready.\<close>

definition ready_nodes :: "(string \<times> string list) list \<Rightarrow> string list \<Rightarrow> string list \<Rightarrow> string list" where
  "ready_nodes parents remaining finished =
     filter (\<lambda>key. case map_of parents key of None \<Rightarrow> True | Some ps \<Rightarrow> set ps \<subseteq> set finished) remaining"

function eliminate :: "(string \<times> string list) list \<Rightarrow> string list \<Rightarrow> string list \<Rightarrow> string list" where
  "eliminate parents remaining finished =
     (let ready = ready_nodes parents remaining finished in
      if remaining = [] \<or> ready = [] then remaining
      else eliminate parents (filter (\<lambda>k. k \<notin> set ready) remaining) (finished @ ready))"
  by pat_completeness auto
termination
  by (relation "measure (\<lambda>(parents, remaining, finished). length remaining)")
    (auto simp: ready_nodes_def filter_empty_conv intro!: length_filter_less)

declare eliminate.simps [simp del]

definition history_notes :: "(string \<times> string list) list \<Rightarrow> string list \<Rightarrow> string list" where
  "history_notes parents notes =
     (let keys = map fst parents;
          missing = (if list_ex (\<lambda>(k, ps). \<not> set ps \<subseteq> set keys) parents then [''missing parent''] else []);
          roots = (if length (filter (\<lambda>(k, ps). ps = []) parents) \<noteq> 1 then [''multiple or absent roots''] else []);
          stuck = (if eliminate parents keys [] \<noteq> [] \<and> missing = [] then [''cycle''] else [])
      in notes @ missing @ roots @ stuck)"

definition tips_of :: "(string \<times> string list) list \<Rightarrow> string list" where
  "tips_of parents = sort (filter (\<lambda>k. k \<notin> set (concat (map snd parents))) (map fst parents))"

definition fold_retained :: "(json \<Rightarrow> string) \<Rightarrow> remedy_event list \<Rightarrow> exn + decision_state" where
  "fold_retained digest retained =
     (case retained of
        [] \<Rightarrow> Inr \<lparr>ds_decision_id = None, ds_source_key = None, ds_state = ''blocked'', ds_disposition = None,
                  ds_events = [], ds_tip_ids = [], ds_diagnostics = [''empty history'']\<rparr>
      | first # _ \<Rightarrow>
          if length (remdups (map identity_of retained)) \<noteq> 1 then Inl ValueError
          else
            let (aliases, conflicts) = alias_events digest retained;
                nodes = node_events aliases retained;
                parents = node_parents aliases nodes;
                tips = tips_of parents;
                notes = history_notes parents conflicts @
                  (if length tips \<noteq> 1 then [''multiple or absent tips''] else []);
                current = (case tips of [tip] \<Rightarrow> if notes = [] then map_of nodes tip else None | _ \<Rightarrow> None)
            in Inr \<lparr>ds_decision_id = Some (re_decision_id first), ds_source_key = Some (re_source_key first),
                    ds_state = (case current of None \<Rightarrow> ''blocked'' | Some e \<Rightarrow> re_state e),
                    ds_disposition = (case current of None \<Rightarrow> None | Some e \<Rightarrow> re_disposition e),
                    ds_events = retained, ds_tip_ids = tips, ds_diagnostics = sorted_set notes\<rparr>)"

definition fold_events ::
  "(json \<Rightarrow> string) \<Rightarrow> (string \<Rightarrow> int option option) \<Rightarrow> json list \<Rightarrow> exn + decision_state" where
  "fold_events digest utc_offset payloads =
     bindE (mapE (parse_event digest utc_offset) payloads) (\<lambda>es. fold_retained digest (retained_events es))"

subsection \<open>Where an event is stored\<close>

definition EVENT_PREFIX :: string where "EVENT_PREFIX = ''state/remedy/events/''"

text \<open>\<open>[a-z0-9][a-z0-9_-]*\<close>\<close>

definition source_segment :: "string \<Rightarrow> exn + string" where
  "source_segment s =
     (case s of [] \<Rightarrow> Inl ValueError
      | c # cs \<Rightarrow>
          if is_lower_alnum c \<and> list_all (\<lambda>c. is_lower_alnum c \<or> c = CHR ''_'' \<or> c = CHR ''-'') cs
          then Inr s else Inl ValueError)"

definition event_key :: "(json \<Rightarrow> string) \<Rightarrow> (string \<Rightarrow> int option option) \<Rightarrow> json \<Rightarrow> exn + string" where
  "event_key digest utc_offset payload =
     bindE (parse_event digest utc_offset payload) (\<lambda>e.
     bindE (source_segment (re_source_key e)) (\<lambda>source.
       Inr (EVENT_PREFIX @ source @ ''/'' @ re_decision_id e @ ''/'' @ re_event_id e @ ''.json'')))"

end
