(* ===== verification/Remedy_Ledger_Properties.thy ===== *)
theory Remedy_Ledger_Properties
  imports Remedy_Ledger Remedy_Properties
begin

section \<open>What the decision history guarantees\<close>

text \<open>
  The state of a decision does not depend on the order or the repetition of its events; it is a decision of
  its only tip, from which every event of the history is reached, and otherwise it is blocked. An accepted event is
  accepted again, unchanged, in the form it is printed in.
\<close>

subsection \<open>The order of the events does not matter\<close>

lemma set_update_sub: "set (AList.update k v d) \<subseteq> insert (k, v) (set d)"
  by (induction d) auto

lemma fold_update_distinct:
  "distinct (map fst d) \<Longrightarrow> distinct (map fst (fold (\<lambda>e. AList.update (f e) e) es d))"
  by (induction es arbitrary: d) (simp_all add: distinct_update)

lemma fold_update_entries:
  "set (fold (\<lambda>e. AList.update (f e) e) es d) \<subseteq> (\<lambda>e. (f e, e)) ` set es \<union> set d"
proof (induction es arbitrary: d)
  case (Cons e es)
  show ?case
    using Cons [of "AList.update (f e) e d"] set_update_sub [of "f e" e d] by auto
qed simp

lemma fold_update_keys:
  "fst ` set (fold (\<lambda>e. AList.update (f e) e) es d) = f ` set es \<union> fst ` set d"
  by (induction es arbitrary: d) (auto simp: dom_update)

lemma retained_set:
  assumes "inj_on re_event_id (set es)"
  shows "set (retained_events es) = set es \<and> distinct (map re_event_id (retained_events es)) \<and>
    sorted (map re_event_id (retained_events es))"
proof -
  define d where "d = fold (\<lambda>e. AList.update (re_event_id e) e) es []"
  have d: "distinct (map fst d)" "\<forall>p \<in> set d. fst p = re_event_id (snd p) \<and> snd p \<in> set es"
    using fold_update_distinct [of "[]" re_event_id es] fold_update_entries [of re_event_id es "[]"]
    unfolding d_def by auto
  have keys: "fst ` set d = re_event_id ` set es"
    using fold_update_keys [of re_event_id es "[]"] unfolding d_def by simp
  have ids: "map re_event_id (map snd d) = map fst d"
    using d(2) by auto
  have held: "set (map snd d) = set es"
  proof
    show "set (map snd d) \<subseteq> set es"
      using d(2) by auto
    show "set es \<subseteq> set (map snd d)"
    proof
      fix e
      assume e: "e \<in> set es"
      then obtain p where p: "p \<in> set d" "fst p = re_event_id e"
        using keys by (metis imageE imageI)
      then have "snd p = e"
        using d(2) e assms by (metis inj_onD)
      with p show "e \<in> set (map snd d)"
        by auto
    qed
  qed
  have "distinct (map re_event_id (sort_key re_event_id (map snd d)))"
  proof -
    have "mset (map re_event_id (sort_key re_event_id (map snd d))) = mset (map fst d)"
      using ids by (metis mset_map mset_sort)
    then show ?thesis
      using d(1) mset_eq_imp_distinct_iff by blast
  qed
  then show ?thesis
    using held by (simp add: retained_events_def d_def)
qed

lemma retained_canonical:
  assumes "inj_on re_event_id (set es)" and "set es = set es'"
  shows "retained_events es = retained_events es'"
proof -
  have *: "set (retained_events es) = set es" "distinct (map re_event_id (retained_events es))"
      "sorted (map re_event_id (retained_events es))"
    "set (retained_events es') = set es'" "distinct (map re_event_id (retained_events es'))"
      "sorted (map re_event_id (retained_events es'))"
    using retained_set assms by auto
  have "map re_event_id (retained_events es) = map re_event_id (retained_events es')"
    by (rule sorted_distinct_set_unique) (use * assms(2) in simp_all)
  then show ?thesis
    by (rule map_inj_on) (use * assms in simp_all)
qed

text \<open>
  C25: Two collections with the same events, in any order and with any repetitions, give the same decision, as
  long as an id stands for one event (as it does when SHA-256 does not collide, because the id is the hash
  of the content).
\<close>

theorem history_is_order_independent:
  assumes "mapE (parse_event digest utc_offset) payloads = Inr es"
    and "mapE (parse_event digest utc_offset) payloads' = Inr es'"
    and "set es = set es'" and "inj_on re_event_id (set es)"
  shows "fold_events digest utc_offset payloads = fold_events digest utc_offset payloads'"
  using assms retained_canonical [OF assms(4,3)] by (simp add: fold_events_def)

subsection \<open>The elimination\<close>

text \<open>From child to parent.\<close>

definition parent_edges :: "(string \<times> string list) list \<Rightarrow> (string \<times> string) set" where
  "parent_edges parents = {(k, q). \<exists>ps. map_of parents k = Some ps \<and> q \<in> set ps}"

definition unconsumed :: "(string \<times> string list) list \<Rightarrow> string \<Rightarrow> bool" where
  "unconsumed parents k \<longleftrightarrow> k \<in> set (map fst parents) \<and> (\<forall>c. (c, k) \<notin> parent_edges parents)"

text \<open>What is done is closed under parents, and the rest is still there.\<close>

definition elimination_state :: "(string \<times> string list) list \<Rightarrow> string list \<Rightarrow> string list \<Rightarrow> bool" where
  "elimination_state parents remaining finished \<longleftrightarrow>
     set remaining \<union> set finished = set (map fst parents) \<and> set remaining \<inter> set finished = {} \<and>
     (\<forall>c q. c \<in> set finished \<and> (c, q) \<in> parent_edges parents \<longrightarrow> q \<in> set finished)"

lemma ready_parents:
  "k \<in> set (ready_nodes parents remaining finished) \<longleftrightarrow>
   k \<in> set remaining \<and> (\<forall>q. (k, q) \<in> parent_edges parents \<longrightarrow> q \<in> set finished)"
  by (auto simp: ready_nodes_def parent_edges_def split: option.splits)

lemma elimination_state_step:
  assumes "elimination_state parents remaining finished"
  shows "elimination_state parents (filter (\<lambda>k. k \<notin> set (ready_nodes parents remaining finished)) remaining)
    (finished @ ready_nodes parents remaining finished)"
  using assms by (auto simp: elimination_state_def ready_parents)

lemma eliminated_reaches_tip:
  "elimination_state parents remaining finished \<Longrightarrow> eliminate parents remaining finished = [] \<Longrightarrow> k \<in> set remaining \<Longrightarrow>
   \<exists>t. unconsumed parents t \<and> (t, k) \<in> (parent_edges parents)\<^sup>*"
proof (induction parents remaining finished arbitrary: k rule: eliminate.induct)
  case (1 parents remaining finished)
  let ?ready = "ready_nodes parents remaining finished"
  let ?rest = "filter (\<lambda>k. k \<notin> set ?ready) remaining"
  have ne: "\<not> (remaining = [] \<or> ?ready = [])"
    using 1(3,4) by (subst (asm) eliminate.simps) (auto simp: Let_def split: if_splits)
  have rest: "eliminate parents ?rest (finished @ ?ready) = []"
    using 1(3) ne by (subst (asm) eliminate.simps) (simp add: Let_def)
  have reach: "\<exists>t. unconsumed parents t \<and> (t, c) \<in> (parent_edges parents)\<^sup>*" if "c \<in> set ?rest" for c
    using 1(1) [OF refl ne elimination_state_step [OF 1(2)] rest that] .
  show ?case
  proof (cases "k \<in> set ?ready")
    case False
    with 1(4) reach show ?thesis
      by auto
  next
    case True
    show ?thesis
    proof (cases "\<exists>c. (c, k) \<in> parent_edges parents")
      case False
      then have "unconsumed parents k"
        using 1(2,4) by (auto simp: unconsumed_def elimination_state_def)
      then show ?thesis
        by blast
    next
      case True
      then obtain c where c: "(c, k) \<in> parent_edges parents"
        by blast
      have "c \<in> set (map fst parents)"
        using c by (force simp: parent_edges_def dest: map_of_SomeD)
      moreover have "c \<notin> set finished" and "c \<notin> set ?ready"
        using 1(2,4) c by (auto simp: elimination_state_def ready_parents)
      ultimately have "c \<in> set ?rest"
        using 1(2) by (auto simp: elimination_state_def)
      from reach [OF this] show ?thesis
        using c by (meson rtrancl.rtrancl_into_rtrancl)
    qed
  qed
qed

subsection \<open>The current state\<close>

definition history_aliases :: "(json \<Rightarrow> string) \<Rightarrow> remedy_event list \<Rightarrow> aliases" where
  "history_aliases digest es = fst (alias_events digest es)"

definition history_parents :: "(json \<Rightarrow> string) \<Rightarrow> remedy_event list \<Rightarrow> (string \<times> string list) list" where
  "history_parents digest es =
     node_parents (history_aliases digest es) (node_events (history_aliases digest es) es)"

text \<open>The node that stands for an event; events of one delivery share it.\<close>

definition node_of :: "(json \<Rightarrow> string) \<Rightarrow> remedy_event list \<Rightarrow> remedy_event \<Rightarrow> string" where
  "node_of digest es e = alias_of (history_aliases digest es) (re_event_id e)"

lemma node_parents_keys [simp]: "map fst (node_parents al nodes) = map fst nodes"
  by (simp add: node_parents_def case_prod_beta comp_def)

lemma node_events_facts:
  "distinct (map fst (node_events al es))"
  "fst ` set (node_events al es) = (\<lambda>e. alias_of al (re_event_id e)) ` set es"
  "(k, e) \<in> set (node_events al es) \<Longrightarrow> e \<in> set es \<and> k = alias_of al (re_event_id e)"
  using fold_update_distinct [of "[]" "\<lambda>e. alias_of al (re_event_id e)" "rev es"]
    fold_update_keys [of "\<lambda>e. alias_of al (re_event_id e)" "rev es" "[]"]
    fold_update_entries [of "\<lambda>e. alias_of al (re_event_id e)" "rev es" "[]"]
  by (auto simp: node_events_def)

lemma tips_unconsumed: "distinct (map fst parents) \<Longrightarrow> set (tips_of parents) = {k. unconsumed parents k}"
  by (auto simp: tips_of_def unconsumed_def parent_edges_def)

lemma quiet_history:
  "history_notes parents ns = [] \<Longrightarrow> eliminate parents (map fst parents) [] = []"
  by (simp add: history_notes_def Let_def split: if_splits)

lemma quiet_reaches_tip:
  assumes "history_notes parents ns = []" and "distinct (map fst parents)" and "tips_of parents = [tip]"
    and "k \<in> set (map fst parents)"
  shows "(tip, k) \<in> (parent_edges parents)\<^sup>*"
proof -
  have start: "elimination_state parents (map fst parents) []"
    by (simp add: elimination_state_def)
  obtain t where t: "unconsumed parents t" "(t, k) \<in> (parent_edges parents)\<^sup>*"
    using eliminated_reaches_tip [OF start quiet_history [OF assms(1)] assms(4)] by blast
  have "t \<in> set (tips_of parents)"
    using t(1) tips_unconsumed [OF assms(2)] by simp
  then have "t = tip"
    by (simp add: assms(3))
  with t(2) show ?thesis
    by simp
qed

lemma fold_retained_cases:
  assumes "fold_retained digest es = Inr ds" and "es \<noteq> []"
  obtains ns where "ds_events ds = es" "ds_tip_ids ds = tips_of (history_parents digest es)"
    "ds_diagnostics ds = sorted_set ns"
    "ns = history_notes (history_parents digest es) (snd (alias_events digest es)) @
       (if length (tips_of (history_parents digest es)) \<noteq> 1 then [''multiple or absent tips''] else [])"
    "ns \<noteq> [] \<Longrightarrow> ds_state ds = ''blocked'' \<and> ds_disposition ds = None"
    "ns = [] \<Longrightarrow> tips_of (history_parents digest es) = [tip] \<Longrightarrow>
       map_of (node_events (history_aliases digest es) es) tip = Some e \<Longrightarrow>
       ds_state ds = re_state e \<and> ds_disposition ds = re_disposition e"
proof -
  obtain first rest where es: "es = first # rest"
    using assms(2) by (cases es) auto
  define ns where "ns = history_notes (history_parents digest es) (snd (alias_events digest es)) @
    (if length (tips_of (history_parents digest es)) \<noteq> 1 then [''multiple or absent tips''] else [])"
  define current where "current = (case tips_of (history_parents digest es) of
      [tip] \<Rightarrow> if ns = [] then map_of (node_events (history_aliases digest es) es) tip else None | _ \<Rightarrow> None)"
  have "fold_retained digest es =
     (if length (remdups (map identity_of es)) \<noteq> 1 then Inl ValueError else
      Inr \<lparr>ds_decision_id = Some (re_decision_id first), ds_source_key = Some (re_source_key first),
      ds_state = (case current of None \<Rightarrow> ''blocked'' | Some e \<Rightarrow> re_state e),
      ds_disposition = (case current of None \<Rightarrow> None | Some e \<Rightarrow> re_disposition e),
      ds_events = es, ds_tip_ids = tips_of (history_parents digest es), ds_diagnostics = sorted_set ns\<rparr>)"
    unfolding current_def ns_def history_parents_def history_aliases_def fold_retained_def es list.case
    by (simp only: Let_def case_prod_beta)
  then have ds: "ds = \<lparr>ds_decision_id = Some (re_decision_id first), ds_source_key = Some (re_source_key first),
      ds_state = (case current of None \<Rightarrow> ''blocked'' | Some e \<Rightarrow> re_state e),
      ds_disposition = (case current of None \<Rightarrow> None | Some e \<Rightarrow> re_disposition e),
      ds_events = es, ds_tip_ids = tips_of (history_parents digest es), ds_diagnostics = sorted_set ns\<rparr>"
    using assms(1) by (simp split: if_split_asm)
  show ?thesis
    by (rule that [of ns]) (auto simp: ds ns_def current_def split: list.split)
qed

text \<open>
  C26: A decision has a state other than blocked only when its history is in order; then it is the state of the one
  tip, and following parents from the tip reaches every event of the history, so no event is left out of the
  decision. With any diagnostic the decision is blocked and has no disposition.
\<close>

theorem current_state_covers_history:
  assumes "fold_events digest utc_offset payloads = Inr ds"
  shows "if ds_diagnostics ds = []
    then \<exists>tip e. ds_tip_ids ds = [tip] \<and> e \<in> set (ds_events ds) \<and> node_of digest (ds_events ds) e = tip \<and>
           ds_state ds = re_state e \<and> ds_disposition ds = re_disposition e \<and>
           (\<forall>f. f \<in> set (ds_events ds) \<longrightarrow>
              (tip, node_of digest (ds_events ds) f) \<in> (parent_edges (history_parents digest (ds_events ds)))\<^sup>*)
    else ds_state ds = ''blocked'' \<and> ds_disposition ds = None"
proof -
  obtain es where fold: "fold_retained digest es = Inr ds"
    using assms by (auto simp: fold_events_def bindE_Inr)
  show ?thesis
  proof (cases "es = []")
    case True
    then show ?thesis
      using fold by (auto simp: fold_retained_def)
  next
    case False
    let ?P = "history_parents digest es" and ?N = "node_events (history_aliases digest es) es"
    from fold_retained_cases [OF fold False] obtain ns where
      ev: "ds_events ds = es" and tips: "ds_tip_ids ds = tips_of ?P" and diag: "ds_diagnostics ds = sorted_set ns"
      and ns: "ns = history_notes ?P (snd (alias_events digest es)) @
         (if length (tips_of ?P) \<noteq> 1 then [''multiple or absent tips''] else [])"
      and blocked: "ns \<noteq> [] \<Longrightarrow> ds_state ds = ''blocked'' \<and> ds_disposition ds = None"
      by metis
    show ?thesis
    proof (cases "ns = []")
      case False
      then have "ds_diagnostics ds \<noteq> []"
        by (cases ns) (auto simp: diag sorted_set_def simp del: remdups.simps dest: arg_cong [where f = set])
      with blocked [OF False] show ?thesis
        by simp
    next
      case True
      then have one: "length (tips_of ?P) = 1" and quiet: "history_notes ?P (snd (alias_events digest es)) = []"
        by (simp_all add: ns split: if_splits)
      obtain tip where tip: "tips_of ?P = [tip]"
        using one by (auto simp: length_Suc_conv)
      have keys: "map fst ?P = map fst ?N"
        by (simp add: history_parents_def)
      have dist: "distinct (map fst ?P)"
        by (simp add: keys node_events_facts(1))
      have "tip \<in> set (map fst ?P)"
      proof -
        have "tip \<in> set (tips_of ?P)"
          by (simp add: tip)
        then show ?thesis
          using tips_unconsumed [OF dist] by (simp add: unconsumed_def)
      qed
      then obtain e where e: "map_of ?N tip = Some e"
        unfolding keys by (metis list.set_map map_of_eq_None_iff not_Some_eq)
      have st: "ds_state ds = re_state e \<and> ds_disposition ds = re_disposition e"
        by (rule fold_retained_cases [where tip = tip and e = e, OF fold False]) (use True tip e ns in simp)
      have "(tip, node_of digest es f) \<in> (parent_edges ?P)\<^sup>*" if "f \<in> set es" for f
      proof (rule quiet_reaches_tip [OF quiet dist tip])
        show "node_of digest es f \<in> set (map fst ?P)"
          using that unfolding keys set_map node_events_facts(2) by (simp add: node_of_def)
      qed
      moreover have "e \<in> set es" "node_of digest es e = tip"
        using node_events_facts(3) [OF map_of_SomeD [OF e]] by (simp_all add: node_of_def)
      moreover have "ds_diagnostics ds = []"
        using True by (simp add: diag sorted_set_def)
      ultimately show ?thesis
        using st tip tips ev by auto
    qed
  qed
qed

subsection \<open>An accepted event is accepted as it is printed\<close>

lemma check_Inr [simp]: "check ok = Inr u \<longleftrightarrow> ok"
  by (simp add: check_def)

lemma filled_Inr: "filled_text j = Inr s \<longleftrightarrow> text_value j = Some s \<and> py_strip s \<noteq> ''''"
  by (auto simp: filled_text_def split: option.splits)

lemma hash_Inr: "hash_value j = Inr s \<longleftrightarrow> text_value j = Some s \<and> is_digest s"
  by (auto simp: hash_value_def split: option.splits)

lemma nullable_Inr: "nullable_text j = Inr r \<longleftrightarrow> (if j = JNull then r = None else \<exists>s. r = Some s \<and> filled_text j = Inr s)"
  by (auto simp: nullable_text_def bindE_Inr)

lemma text_value_JStr [simp]: "text_value (JStr s) = Some s" "text_value JNull = None"
  by (simp_all add: text_value_def)

lemma opt_str_simps [simp]: "opt_str None = JNull" "opt_str (Some s) = JStr s" "opt_str r = JNull \<longleftrightarrow> r = None"
  by (auto simp: opt_str_def split: option.split)

lemma nullable_again: "nullable_text j = Inr r \<Longrightarrow> nullable_text (opt_str r) = Inr r"
  by (cases r) (auto simp: nullable_Inr filled_Inr split: if_splits)

lemma approval_again: "approval_text j = Inr r \<Longrightarrow> approval_text (opt_str r) = Inr r"
proof -
  assume ok: "approval_text j = Inr r"
  then obtain q where q: "nullable_text j = Inr q"
    and r: "(case q of None \<Rightarrow> Inr None | Some s \<Rightarrow> if policy_approval s then Inr (Some s) else Inl ValueError) = Inr r"
    by (auto simp: approval_text_def bindE_Inr)
  have "q = r"
    using r by (cases q) (simp_all split: if_splits)
  with r nullable_again [OF q] show ?thesis
    by (simp add: approval_text_def bindE_Inr)
qed

lemma dget_simps [simp]: "dget [] k d = d" "dget ((k', v) # xs) k d = (if k' = k then v else dget xs k d)"
  by (simp_all add: dget_def)

lemma ref_again: "parse_ref source j = Inr r \<Longrightarrow> parse_ref source (ref_json r) = Inr r"
proof -
  assume ok: "parse_ref source j = Inr r"
  then obtain d where j: "j = JObj d"
    by (cases j) (simp_all add: parse_ref_def)
  obtain uid guid where "nullable_text (dget d ''uid'' JNull) = Inr uid" "nullable_text (dget d ''provider_guid'' JNull) = Inr guid"
    and "uid \<noteq> None \<or> guid \<noteq> None" and r: "r = \<lparr>rr_source_key = source, rr_uid = uid, rr_provider_guid = guid\<rparr>"
    using ok unfolding j parse_ref_def json.case bindE_Inr check_Inr by auto
  then have "nullable_text (opt_str uid) = Inr uid" "nullable_text (opt_str guid) = Inr guid" "uid \<noteq> None \<or> guid \<noteq> None"
    using nullable_again by blast+
  then show ?thesis
    unfolding r by (simp add: parse_ref_def ref_json_def has_fields_def bindE_Inr check_def)
qed

lemma provenance_again: "parse_provenance j = Inr v \<Longrightarrow> parse_provenance (provenance_json v) = Inr v"
proof -
  assume ok: "parse_provenance j = Inr v"
  then obtain d where j: "j = JObj d"
    by (cases j) (simp_all add: parse_provenance_def)
  have "py_strip (pv_role v) \<noteq> ''''" "py_strip (pv_route_id v) \<noteq> ''''" "py_strip (pv_model_family v) \<noteq> ''''"
    "py_strip (pv_reasoning_level v) \<noteq> ''''" "is_digest (pv_report_hash v)"
    using ok unfolding j parse_provenance_def json.case bindE_Inr check_Inr filled_Inr hash_Inr by auto
  then show ?thesis
    by (simp add: parse_provenance_def provenance_json_def has_fields_def bindE_Inr check_def filled_Inr hash_Inr)
qed

lemma feed_again: "parse_feed j = Inr f \<Longrightarrow> parse_feed (feed_json f) = Inr f"
proof -
  assume ok: "parse_feed j = Inr f"
  then obtain d where j: "j = JObj d"
    by (cases j) (simp_all add: parse_feed_def)
  have "py_strip (fd_feed_slug f) \<noteq> ''''" "feed_slug (fd_feed_slug f)" "fd_disposition f = ''include'' \<or> fd_disposition f = ''exclude''"
    using ok unfolding j parse_feed_def json.case bindE_Inr check_Inr filled_Inr Let_def
    by (auto split: if_split_asm option.split_asm)
  then show ?thesis
    by (cases f) (auto simp: parse_feed_def feed_json_def has_fields_def bindE_Inr check_def filled_Inr hashable_def Let_def)
qed

lemma mapE_print: "(\<And>y. y \<in> set ys \<Longrightarrow> f (h y) = Inr y) \<Longrightarrow> mapE f (map h ys) = Inr ys"
  by (induction ys) auto

lemma mapE_source: "mapE f xs = Inr ys \<Longrightarrow> y \<in> set ys \<Longrightarrow> \<exists>x \<in> set xs. f x = Inr y"
  by (induction xs arbitrary: ys) (auto split: sum.splits)

lemma feeds_again:
  "parse_feeds j state outcome = Inr feeds \<Longrightarrow>
   parse_feeds (case feeds of None \<Rightarrow> JNull | Some fs \<Rightarrow> JList (map feed_json fs)) state outcome = Inr feeds"
proof -
  assume ok: "parse_feeds j state outcome = Inr feeds"
  show ?thesis
  proof (cases "j = JNull")
    case True
    with ok show ?thesis
      by (simp add: parse_feeds_def)
  next
    case False
    then obtain entries fs where fs: "mapE parse_feed entries = Inr fs" "distinct (map fd_feed_slug fs)"
      "fs \<noteq> [] \<or> state = ''blocked'' \<and> outcome = Some ''watch'' \<or> state = ''excluded'' \<and> outcome = Some ''not_pursued''"
      and feeds: "feeds = Some (sort_key fd_feed_slug fs)"
      using ok by (auto simp: parse_feeds_def bindE_Inr)
    have "mapE parse_feed (map feed_json (sort_key fd_feed_slug fs)) = Inr (sort_key fd_feed_slug fs)"
      using mapE_source [OF fs(1)] feed_again by (intro mapE_print) auto
    moreover have "distinct (map fd_feed_slug (sort_key fd_feed_slug fs))"
      using fs(2) by (simp add: distinct_map)
    ultimately show ?thesis
      using fs(3) by (simp add: feeds parse_feeds_def sequence_value_def bindE_Inr check_def sort_key_id_if_sorted)
        (auto dest: arg_cong [where f = length])
  qed
qed

lemma payload_get [simp]:
  "dget (event_payload e) ''schema_version'' JNull = JInt 1"
  "dget (event_payload e) ''city'' JNull = JStr (re_city e)"
  "dget (event_payload e) ''source_key'' JNull = JStr (re_source_key e)"
  "dget (event_payload e) ''policy_id'' JNull = JStr (re_policy_id e)"
  "dget (event_payload e) ''normalized_label'' JNull = JStr (re_normalized_label e)"
  "dget (event_payload e) ''decision_id'' JNull = JStr (re_decision_id e)"
  "dget (event_payload e) ''event_id'' JNull = JStr (re_event_id e)"
  "dget (event_payload e) ''parent_event_ids'' JNull = JList (map JStr (re_parent_event_ids e))"
  "dget (event_payload e) ''occurred_at'' JNull = JStr (re_occurred_at e)"
  "dget (event_payload e) ''actor_kind'' JNull = JStr (re_actor_kind e)"
  "dget (event_payload e) ''actor_id'' JNull = JStr (re_actor_id e)"
  "dget (event_payload e) ''state'' JNull = JStr (re_state e)"
  by (simp_all add: event_payload_def)

lemma payload_get_more [simp]:
  "dget (event_payload e) ''evidence_hash'' JNull = JStr (re_evidence_hash e)"
  "dget (event_payload e) ''config_hash'' JNull = JStr (re_config_hash e)"
  "dget (event_payload e) ''policy_hash'' JNull = JStr (re_policy_hash e)"
  "dget (event_payload e) ''recording_refs'' JNull = JList (map ref_json (re_recording_refs e))"
  "dget (event_payload e) ''provenance'' JNull = JList (map provenance_json (re_provenance e))"
  "dget (event_payload e) ''rationale'' JNull = JStr (re_rationale e)"
  "dget (event_payload e) ''artifact_ref'' JNull = opt_str (re_artifact_ref e)"
  "dget (event_payload e) ''approval_ref'' JNull = opt_str (re_approval_ref e)"
  "dget (event_payload e) ''external_delivery_id'' JNull = opt_str (re_external_delivery_id e)"
  "dget (event_payload e) ''disposition'' JNull = opt_str (re_disposition e)"
  "dget (event_payload e) ''feed_dispositions'' JNull =
     (case re_feed_dispositions e of None \<Rightarrow> JNull | Some fs \<Rightarrow> JList (map feed_json fs))"
  by (simp_all add: event_payload_def split: option.split)

lemma payload_fields:
  "has_fields FIELDS (event_payload e) \<or> has_fields (FIELDS @ [''feed_dispositions'']) (event_payload e)"
proof -
  have "map fst (event_payload e) = FIELDS @ (case re_feed_dispositions e of None \<Rightarrow> [] | Some fs \<Rightarrow> [''feed_dispositions''])"
    by (simp add: event_payload_def FIELDS_def split: option.split)
  then show ?thesis
    unfolding has_fields_def by (cases "re_feed_dispositions e") simp_all
qed

text \<open>What the first part of the validation establishes, and the event it yields.\<close>

definition head_ok :: "(json \<Rightarrow> string) \<Rightarrow> (string \<Rightarrow> int option option) \<Rightarrow> remedy_event \<Rightarrow> bool" where
  "head_ok digest utc_offset e \<longleftrightarrow>
     list_all (\<lambda>s. py_strip s \<noteq> '''')
       [re_city e, re_source_key e, re_policy_id e, re_normalized_label e, re_actor_id e, re_rationale e, re_occurred_at e] \<and>
     body_key (re_normalized_label e) = re_normalized_label e \<and> length (re_rationale e) \<le> 4000 \<and>
     re_actor_kind e \<in> {''maintainer'', ''automation'', ''system''} \<and> re_state e \<in> set STATES \<and>
     (case re_disposition e of None \<Rightarrow> True | Some s \<Rightarrow> s \<in> set DISPOSITIONS) \<and>
     list_all is_digest [re_decision_id e, re_event_id e, re_evidence_hash e, re_config_hash e, re_policy_hash e] \<and>
     decision_id digest (re_city e) (re_source_key e) (re_policy_id e) (re_normalized_label e) = Inr (re_decision_id e) \<and>
     utc_offset (replace_z (re_occurred_at e)) = Some (Some 0)"

definition head_of :: "remedy_event \<Rightarrow> remedy_event" where
  "head_of e =
     e\<lparr>re_parent_event_ids := [], re_recording_refs := [], re_provenance := [], re_artifact_ref := None,
       re_approval_ref := None, re_external_delivery_id := None, re_feed_dispositions := None\<rparr>"

lemma one_of_Inr:
  "(case t of None \<Rightarrow> Inl ValueError | Some k \<Rightarrow> if k \<in> S then Inr k else Inl ValueError) = Inr x \<longleftrightarrow>
   t = Some x \<and> x \<in> S"
  by (auto split: option.splits if_splits)

lemma outcome_Inr:
  "(if j = JNull then Inr None
    else case text_value j of None \<Rightarrow> Inl ValueError | Some s \<Rightarrow> if s \<in> S then Inr (Some s) else Inl ValueError) = Inr d \<longleftrightarrow>
   (if j = JNull then d = None else \<exists>s. text_value j = Some s \<and> s \<in> S \<and> d = Some s)"
  by (auto split: option.splits if_splits)

lemma head_facts:
  assumes "parse_head digest utc_offset p = Inr e"
  shows "head_ok digest utc_offset e \<and> head_of e = e"
  using assms unfolding parse_head_def bindE_Inr check_Inr filled_Inr hash_Inr one_of_Inr outcome_Inr sum.inject
  by (elim exE conjE, hypsubst)
    (simp only: head_ok_def head_of_def remedy_event.select_convs remedy_event.update_convs list.pred_inject simp_thms,
     auto split: if_split_asm)

lemma head_again:
  assumes "head_ok digest utc_offset e"
  shows "parse_head digest utc_offset (event_payload e) = Inr (head_of e)"
proof -
  have filled: "filled_text (JStr s) = Inr s" if "py_strip s \<noteq> ''''" for s
    using that by (simp add: filled_Inr)
  have hash: "hash_value (JStr s) = Inr s" if "is_digest s" for s
    using that by (simp add: hash_Inr)

  have "head_of e =
      \<lparr>re_city = re_city e, re_source_key = re_source_key e, re_policy_id = re_policy_id e,
       re_normalized_label = re_normalized_label e, re_decision_id = re_decision_id e, re_event_id = re_event_id e,
       re_parent_event_ids = [], re_occurred_at = re_occurred_at e, re_actor_kind = re_actor_kind e,
       re_actor_id = re_actor_id e, re_state = re_state e, re_evidence_hash = re_evidence_hash e,
       re_config_hash = re_config_hash e, re_policy_hash = re_policy_hash e, re_recording_refs = [],
       re_provenance = [], re_rationale = re_rationale e, re_artifact_ref = None, re_approval_ref = None,
       re_external_delivery_id = None, re_disposition = re_disposition e, re_feed_dispositions = None\<rparr>"
    by (cases e) (simp add: head_of_def)
  moreover have "(case Some (re_actor_kind e) of None \<Rightarrow> Inl ValueError
      | Some k \<Rightarrow> if k \<in> {''maintainer'', ''automation'', ''system''} then Inr k else Inl ValueError) = Inr (re_actor_kind e)"
    using assms by (simp add: head_ok_def)
  moreover have "(case Some (re_state e) of None \<Rightarrow> Inl ValueError
      | Some s \<Rightarrow> if s \<in> set STATES then Inr s else Inl ValueError) = Inr (re_state e)"
    using assms by (simp add: head_ok_def)
  ultimately show ?thesis
    using assms unfolding parse_head_def payload_get payload_get_more text_value_JStr
    by (cases "re_disposition e") (simp_all add: head_ok_def filled hash check_def)
qed

lemma collections_facts:
  assumes "parse_collections digest p e0 = Inr e" and "head_of e0 = e0"
  shows "parse_collections digest (event_payload (e\<lparr>re_artifact_ref := a, re_approval_ref := b, re_external_delivery_id := c\<rparr>)) e0 = Inr e \<and>
    head_of e = e0 \<and> re_artifact_ref e = None \<and> re_approval_ref e = None \<and> re_external_delivery_id e = None"
proof -
  obtain raw_parents parents raw_refs refs raw_provenance provenance feeds where
    parents: "mapE hash_value raw_parents = Inr parents" "distinct parents" "re_event_id e0 \<notin> set parents"
    and refs: "mapE (parse_ref (re_source_key e0)) raw_refs = Inr refs"
    and provenance: "mapE parse_provenance raw_provenance = Inr provenance"
    and feeds: "parse_feeds (dget p ''feed_dispositions'' JNull) (re_state e0) (re_disposition e0) = Inr feeds"
    and e: "e = e0\<lparr>re_parent_event_ids := sort parents,
              re_recording_refs := sort_key (\<lambda>r. canonical_hash digest (ref_json r)) refs,
              re_provenance := sort_key (\<lambda>v. canonical_hash digest (provenance_json v)) provenance,
              re_feed_dispositions := feeds\<rparr>"
    using assms(1) unfolding parse_collections_def bindE_Inr check_Inr by auto
  have "mapE hash_value (map JStr (sort parents)) = Inr (sort parents)"
    using mapE_source [OF parents(1)] by (intro mapE_print) (auto simp: hash_Inr)
  moreover have "mapE (parse_ref (re_source_key e0)) (map ref_json (re_recording_refs e)) = Inr (re_recording_refs e)"
    using mapE_source [OF refs] ref_again by (intro mapE_print) (auto simp: e)
  moreover have "mapE parse_provenance (map provenance_json (re_provenance e)) = Inr (re_provenance e)"
    using mapE_source [OF provenance] provenance_again by (intro mapE_print) (auto simp: e)
  moreover note feeds_again [OF feeds]
  ultimately have "parse_collections digest (event_payload (e\<lparr>re_artifact_ref := a, re_approval_ref := b, re_external_delivery_id := c\<rparr>)) e0 = Inr e"
    using parents(2,3) unfolding parse_collections_def payload_get payload_get_more
    by (simp add: e sequence_value_def check_def sort_key_id_if_sorted)
  moreover have "head_of e = e0"
    using assms(2) by (simp add: e head_of_def)
  moreover have "re_artifact_ref e0 = None" "re_approval_ref e0 = None" "re_external_delivery_id e0 = None"
    by (subst assms(2) [symmetric], simp add: head_of_def)+
  ultimately show ?thesis
    by (simp add: e)
qed

lemma head_ok_head_of [simp]: "head_ok digest utc_offset (head_of e) = head_ok digest utc_offset e"
  by (simp add: head_ok_def head_of_def)

text \<open>
  C27: An accepted event is a fixed point of its own printed form: the payload written from it is accepted and gives the same
  event, so what is stored can be read back by the same validation. Its id is the hash of that payload, and its
  decision id that of its identity.
\<close>

theorem accepted_event_reads_back:
  assumes "parse_event digest utc_offset payload = Inr e"
  shows "parse_event digest utc_offset (JObj (event_payload e)) = Inr e \<and>
    re_event_id e = event_id digest (event_payload e) \<and>
    decision_id digest (re_city e) (re_source_key e) (re_policy_id e) (re_normalized_label e) = Inr (re_decision_id e)"
proof -
  obtain p where payload: "payload = JObj p"
    using assms by (cases payload) (simp_all add: parse_event_def)
  obtain e0 e1 where head: "parse_head digest utc_offset p = Inr e0"
    and coll: "parse_collections digest p e0 = Inr e1" and refs: "parse_references p e1 = Inr e"
    and rules: "outcome_rules e" and id: "event_id digest (event_payload e) = re_event_id e"
    using assms unfolding payload parse_event_def json.case bindE_Inr check_Inr by auto
  obtain a b c where abc: "approval_text (dget p ''artifact_ref'' JNull) = Inr a" "approval_text (dget p ''approval_ref'' JNull) = Inr b"
    "nullable_text (dget p ''external_delivery_id'' JNull) = Inr c"
    and e: "e = e1\<lparr>re_artifact_ref := a, re_approval_ref := b, re_external_delivery_id := c\<rparr>"
    using refs unfolding parse_references_def bindE_Inr by auto
  have e0: "head_ok digest utc_offset e0" "head_of e0 = e0"
    using head_facts [OF head] by simp_all
  have e1: "parse_collections digest (event_payload e) e0 = Inr e1" "head_of e1 = e0"
    using collections_facts [where a = a and b = b and c = c, OF coll e0(2)] by (simp_all add: e)
  have "head_of e = e0"
    using e1(2) by (simp add: e head_of_def)
  moreover from this have ok: "head_ok digest utc_offset e"
    using e0(1) head_ok_head_of by metis
  ultimately have "parse_head digest utc_offset (event_payload e) = Inr e0"
    using head_again by metis
  moreover have "parse_references (event_payload e) e1 = Inr e"
    using approval_again [OF abc(1)] approval_again [OF abc(2)] nullable_again [OF abc(3)]
    by (simp add: parse_references_def e)
  ultimately have "parse_event digest utc_offset (JObj (event_payload e)) = Inr e"
    using e1(1) rules id payload_fields [of e] unfolding parse_event_def json.case by (simp add: check_def)
  then show ?thesis
    using id ok by (simp add: head_ok_def)
qed

subsection \<open>Examples\<close>

text \<open>A root event and the assignment that follows it, with a digest that tells them apart.\<close>

definition demo_digest :: "json \<Rightarrow> string" where
  "demo_digest j =
     (case j of
        JObj d \<Rightarrow>
          (case map_of d ''parent_event_ids'' of
             None \<Rightarrow> demo_id (CHR ''d'')
           | Some (JList []) \<Rightarrow> demo_id (CHR ''a'')
           | Some _ \<Rightarrow> demo_id (CHR ''b''))
      | _ \<Rightarrow> demo_id (CHR ''c''))"

definition demo_offset :: "string \<Rightarrow> int option option" where
  "demo_offset t = Some (Some 0)"

definition demo_event :: "char \<Rightarrow> string list \<Rightarrow> string \<Rightarrow> string option \<Rightarrow> string option \<Rightarrow> recording_ref list \<Rightarrow> remedy_event" where
  "demo_event own parents state outcome approval refs =
     \<lparr>re_city = ''austin'', re_source_key = ''austin-council'', re_policy_id = ''p1'', re_normalized_label = ''city council'',
      re_decision_id = demo_id (CHR ''d''), re_event_id = demo_id own, re_parent_event_ids = parents,
      re_occurred_at = ''2026-01-02T03:04:05Z'', re_actor_kind = ''maintainer'', re_actor_id = ''m1'', re_state = state,
      re_evidence_hash = demo_id (CHR ''e''), re_config_hash = demo_id (CHR ''e''), re_policy_hash = demo_id (CHR ''e''),
      re_recording_refs = refs, re_provenance = [], re_rationale = ''because'', re_artifact_ref = None,
      re_approval_ref = approval, re_external_delivery_id = None, re_disposition = outcome,
      re_feed_dispositions = None\<rparr>"

definition demo_root :: remedy_event where
  "demo_root = demo_event (CHR ''a'') [] ''proposed'' None None []"

definition demo_assignment :: remedy_event where
  "demo_assignment =
     demo_event (CHR ''b'') [demo_id (CHR ''a'')] ''covered'' (Some ''assigned'') (Some ''https://github.com/o/r/pull/12'')
       [\<lparr>rr_source_key = ''austin-council'', rr_uid = Some ''u1'', rr_provider_guid = None\<rparr>]"

lemma demo_root_parses: "parse_event demo_digest demo_offset (JObj (event_payload demo_root)) = Inr demo_root"
  by code_simp

lemma demo_assignment_parses:
  "parse_event demo_digest demo_offset (JObj (event_payload demo_assignment)) = Inr demo_assignment"
  by code_simp

theorem accepted_event_reads_back_witness:
  "parse_event demo_digest demo_offset (JObj (event_payload demo_assignment)) = Inr demo_assignment \<and>
   re_event_id demo_assignment = event_id demo_digest (event_payload demo_assignment)"
  using accepted_event_reads_back [OF demo_assignment_parses] by simp

lemma demo_history:
  "fold_events demo_digest demo_offset (map (\<lambda>e. JObj (event_payload e)) [demo_assignment, demo_root]) =
   fold_retained demo_digest (retained_events [demo_assignment, demo_root])"
  by (simp add: fold_events_def demo_root_parses demo_assignment_parses)

lemma demo_ids: "demo_id (CHR ''a'') \<noteq> demo_id (CHR ''b'')"
  by (simp add: demo_id_def)

theorem history_is_order_independent_witness:
  "fold_events demo_digest demo_offset (map (\<lambda>e. JObj (event_payload e)) [demo_root, demo_assignment]) =
   fold_events demo_digest demo_offset (map (\<lambda>e. JObj (event_payload e)) [demo_assignment, demo_root, demo_assignment])"
proof (rule history_is_order_independent)
  show "mapE (parse_event demo_digest demo_offset) (map (\<lambda>e. JObj (event_payload e)) [demo_root, demo_assignment]) =
      Inr [demo_root, demo_assignment]"
    by (simp add: demo_root_parses demo_assignment_parses)
  show "mapE (parse_event demo_digest demo_offset)
      (map (\<lambda>e. JObj (event_payload e)) [demo_assignment, demo_root, demo_assignment]) =
      Inr [demo_assignment, demo_root, demo_assignment]"
    by (simp add: demo_root_parses demo_assignment_parses)
  show "set [demo_root, demo_assignment] = set [demo_assignment, demo_root, demo_assignment]"
    by auto
  have "re_event_id demo_root \<noteq> re_event_id demo_assignment"
    using demo_ids by (simp add: demo_root_def demo_assignment_def demo_event_def)
  then show "inj_on re_event_id (set [demo_root, demo_assignment])"
    by auto
qed

lemma demo_state:
  "map_sum id (\<lambda>ds. (ds_state ds, ds_tip_ids ds, ds_diagnostics ds, length (ds_events ds)))
     (fold_retained demo_digest (retained_events [demo_assignment, demo_root])) =
   Inr (''covered'', [demo_id (CHR ''b'')], [], 2)"
  by code_simp

theorem current_state_covers_history_witness:
  "\<exists>ds tip e. fold_events demo_digest demo_offset (map (\<lambda>e. JObj (event_payload e)) [demo_assignment, demo_root]) = Inr ds \<and>
     ds_state ds = ''covered'' \<and> ds_tip_ids ds = [tip] \<and> e \<in> set (ds_events ds) \<and> ds_state ds = re_state e"
proof -
  obtain ds where ds: "fold_retained demo_digest (retained_events [demo_assignment, demo_root]) = Inr ds"
    and st: "ds_state ds = ''covered''" "ds_diagnostics ds = []"
    using demo_state by (cases "fold_retained demo_digest (retained_events [demo_assignment, demo_root])") auto
  then have fold: "fold_events demo_digest demo_offset (map (\<lambda>e. JObj (event_payload e)) [demo_assignment, demo_root]) = Inr ds"
    using demo_history by simp
  from current_state_covers_history [OF fold] st fold show ?thesis
    by auto
qed

end
