(* ===== verification/LLM_Lanes.thy ===== *)
theory LLM_Lanes
  imports Prelude "HOL-Library.Product_Lexorder"
begin

section \<open>The registry of dispatch lanes (compute/llm\_lanes.py)\<close>

text \<open>
  One entry per purpose of a language-model request that may reach the dispatch worker: its models, what it may
  spend per day and what one of its jobs costs. \<open>parse_lanes\<close> validates the block of the site configuration,
  \<open>lane_for\<close> is how a producer learns its models. Reading the YAML file is a parameter that yields
  the parsed document, whose mappings have strings as their keys.
\<close>

definition NON_DISPATCHING_PURPOSES :: "string list" where
  "NON_DISPATCHING_PURPOSES = [''topic-tags:rules'', ''city-onboarding'']"

record lane_config =
  lc_purpose :: string
  lc_models :: "string list"
  lc_max_dispatches_per_run :: "int option"
  lc_reserved_write_units :: int
  lc_daily_write_units :: int
  lc_max_queued_jobs :: "int option"
  lc_telemetry_producer :: string
  lc_telemetry_unit :: string
  lc_telemetry_completion :: string
  lc_telemetry_scope :: string
  lc_dispatch_shape :: string
  lc_backup_models :: "string list"
  lc_backup_after_attempts :: "int option"
  lc_catalog_backup_candidates :: bool
  lc_reasoning :: "(string \<times> string) list"
  lc_eligible_models :: "string list"
  lc_slots :: "(string \<times> string list) list"

definition accepts_catalog_backups :: "lane_config \<Rightarrow> bool" where
  "accepts_catalog_backups l \<longleftrightarrow> lc_catalog_backup_candidates l \<and> lc_dispatch_shape l = ''pooled''"

definition primary_model :: "lane_config \<Rightarrow> string" where
  "primary_model l = hd (lc_models l)"

definition additional_models :: "lane_config \<Rightarrow> string list" where
  "additional_models l = drop 1 (lc_models l)"

definition ingress_write_units_per_job :: "lane_config \<Rightarrow> int" where
  "ingress_write_units_per_job l =
     3 + (if lc_dispatch_shape l = ''per_model'' then 1 else int (length (lc_models l)))"

definition max_jobs_per_day :: "lane_config \<Rightarrow> int" where
  "max_jobs_per_day l = lc_daily_write_units l div ingress_write_units_per_job l"

subsection \<open>Field by field\<close>

definition demand :: "bool \<Rightarrow> exn + unit" where
  "demand ok = (if ok then Inr () else Inl ValueError)"

definition coerce_int :: "json \<Rightarrow> exn + int" where
  "coerce_int raw = (case raw of JInt n \<Rightarrow> if n < 0 then Inl ValueError else Inr n | _ \<Rightarrow> Inl ValueError)"

definition coerce_bool :: "json \<Rightarrow> exn + bool" where
  "coerce_bool raw = (case raw of JBool b \<Rightarrow> Inr b | _ \<Rightarrow> Inl ValueError)"

definition optional_int :: "json \<Rightarrow> exn + int option" where
  "optional_int raw = (if raw = JNull then Inr None else bindE (coerce_int raw) (\<lambda>n. Inr (Some n)))"

text \<open>A string that is not blank, stripped.\<close>

definition stripped_text :: "json \<Rightarrow> exn + string" where
  "stripped_text j =
     (case j of JStr s \<Rightarrow> if py_strip s = '''' then Inl ValueError else Inr (py_strip s) | _ \<Rightarrow> Inl ValueError)"

definition model_names :: "json list \<Rightarrow> exn + string list" where
  "model_names raw =
     bindE (mapE stripped_text raw) (\<lambda>models. bindE (demand (distinct models)) (\<lambda>_. Inr models))"

definition parse_model_list :: "json \<Rightarrow> exn + string list" where
  "parse_model_list raw =
     (case raw of JNull \<Rightarrow> Inr [] | JList xs \<Rightarrow> model_names xs | _ \<Rightarrow> Inl ValueError)"

definition filled_list :: "json \<Rightarrow> exn + json list" where
  "filled_list raw = (case raw of JList (x # xs) \<Rightarrow> Inr (x # xs) | _ \<Rightarrow> Inl ValueError)"

definition filled_mapping :: "json \<Rightarrow> exn + pydict" where
  "filled_mapping raw = (case raw of JObj (kv # kvs) \<Rightarrow> Inr (kv # kvs) | _ \<Rightarrow> Inl ValueError)"

text \<open>\<open>x in {...}\<close> of a set of strings: an unhashable value raises.\<close>

definition text_among :: "string list \<Rightarrow> json \<Rightarrow> exn + string" where
  "text_among allowed j =
     (case j of
        JStr s \<Rightarrow> if s \<in> set allowed then Inr s else Inl ValueError
      | JList _ \<Rightarrow> Inl TypeError
      | JObj _ \<Rightarrow> Inl TypeError
      | _ \<Rightarrow> Inl ValueError)"

definition REASONING_LEVELS :: "string list" where "REASONING_LEVELS = [''off'', ''low'']"

definition reasoning_pair :: "string list \<Rightarrow> string \<times> json \<Rightarrow> exn + string \<times> string" where
  "reasoning_pair lane_models kv =
     (case kv of (model, level) \<Rightarrow>
        bindE (demand (model \<in> set lane_models)) (\<lambda>_.
        bindE (text_among REASONING_LEVELS level) (\<lambda>l. Inr (model, l))))"

definition parse_reasoning :: "string list \<Rightarrow> json \<Rightarrow> exn + (string \<times> string) list" where
  "parse_reasoning lane_models raw =
     (case raw of
        JNull \<Rightarrow> Inr []
      | JObj d \<Rightarrow> bindE (mapE (reasoning_pair lane_models) d) (\<lambda>pairs. Inr (sort pairs))
      | _ \<Rightarrow> Inl ValueError)"

text \<open>The slots read so far, by model, and their members.\<close>

fun add_members :: "string list \<Rightarrow> string \<Rightarrow> string list \<Rightarrow> (string \<times> string) list \<Rightarrow> exn + (string \<times> string) list" where
  "add_members known name [] seen = Inr seen"
| "add_members known name (model # rest) seen =
     (if model \<notin> set known then Inl ValueError
      else if map_of seen model \<noteq> None then Inl ValueError
      else add_members known name rest (AList.update model name seen))"

fun parse_slot_items ::
  "string list \<Rightarrow> string list \<Rightarrow> pydict \<Rightarrow> (string \<times> string) list \<Rightarrow> (string \<times> string list) list \<Rightarrow>
   exn + (string \<times> string) list \<times> (string \<times> string list) list" where
  "parse_slot_items models eligible [] seen pairs = Inr (seen, pairs)"
| "parse_slot_items models eligible ((name, raw) # rest) seen pairs =
     bindE (parse_model_list raw) (\<lambda>members.
     bindE (demand (members \<noteq> [])) (\<lambda>_.
     bindE (add_members (models @ eligible) name members seen) (\<lambda>seen.
     bindE (demand (\<exists>m \<in> set members. m \<in> set models)) (\<lambda>_.
       parse_slot_items models eligible rest seen (pairs @ [(name, members)])))))"

definition parse_slots ::
  "string list \<Rightarrow> string list \<Rightarrow> json \<Rightarrow> exn + (string \<times> string list) list" where
  "parse_slots models eligible raw =
     (if raw = JNull then Inr []
      else
        bindE (filled_mapping raw) (\<lambda>d.
        bindE (parse_slot_items models eligible d [] []) (\<lambda>(seen, pairs).
        bindE (demand (\<forall>m \<in> set (models @ eligible). map_of seen m \<noteq> None)) (\<lambda>_. Inr (sort pairs)))))"

text \<open>The back-up models and the attempts after which they count: both or neither.\<close>

definition parse_backup :: "string \<Rightarrow> json \<Rightarrow> json \<Rightarrow> exn + string list \<times> int option" where
  "parse_backup shape raw_models raw_after =
     (if raw_models = JNull \<and> raw_after = JNull then Inr ([], None)
      else if raw_models = JNull \<or> raw_after = JNull then Inl ValueError
      else
        bindE (filled_list raw_models) (\<lambda>xs.
        bindE (model_names xs) (\<lambda>models.
        bindE (demand (shape \<noteq> ''per_model'')) (\<lambda>_.
        bindE (coerce_int raw_after) (\<lambda>after.
        bindE (demand (0 < after)) (\<lambda>_. Inr (models, Some after)))))))"

definition parse_telemetry :: "json \<Rightarrow> exn + string \<times> string \<times> string" where
  "parse_telemetry raw =
     (case raw of
        JObj d \<Rightarrow>
          bindE (demand (set (map fst d) = {''producer'', ''unit'', ''completion'', ''scope''})) (\<lambda>_.
          bindE (stripped_text (dget d ''producer'' JNull)) (\<lambda>producer.
          bindE (stripped_text (dget d ''unit'' JNull)) (\<lambda>unit.
          bindE (case dget d ''scope'' JNull of JStr s \<Rightarrow> text_among [''retained_catalog'', ''sample''] (JStr s)
                 | _ \<Rightarrow> Inl ValueError) (\<lambda>scope.
          bindE (demand (dget d ''completion'' JNull = JStr ''consumed'')) (\<lambda>_.
            Inr (producer, unit, scope))))))
      | _ \<Rightarrow> Inl ValueError)"

subsection \<open>One lane\<close>

text \<open>The two checks of the finished lane: it can pay for one job, and its run cap for no more than its day.\<close>

definition affordable :: "lane_config \<Rightarrow> bool" where
  "affordable l \<longleftrightarrow>
     ingress_write_units_per_job l \<le> lc_daily_write_units l \<and>
     (case lc_max_dispatches_per_run l of None \<Rightarrow> True | Some n \<Rightarrow> n \<le> max_jobs_per_day l)"

definition parse_lane :: "string \<Rightarrow> json \<Rightarrow> exn + lane_config" where
  "parse_lane purpose raw =
     (if purpose \<in> set NON_DISPATCHING_PURPOSES then Inl ValueError
      else case raw of
        JObj entry \<Rightarrow>
          bindE (filled_list (dget entry ''models'' JNull)) (\<lambda>raw_models.
          bindE (model_names raw_models) (\<lambda>models.
          bindE (coerce_int (dget entry ''reserved_write_units'' (JInt 0))) (\<lambda>reserved.
          bindE (coerce_int (dget entry ''daily_write_units'' JNull)) (\<lambda>daily.
          bindE (demand (reserved \<le> daily)) (\<lambda>_.
          bindE (text_among [''pooled'', ''per_model''] (dget entry ''dispatch_shape'' (JStr ''pooled''))) (\<lambda>shape.
          bindE (parse_backup shape (dget entry ''backup_models'' JNull) (dget entry ''backup_after_attempts'' JNull)) (\<lambda>(backup, after).
          bindE (parse_telemetry (dget entry ''telemetry'' JNull)) (\<lambda>(producer, unit, scope).
          bindE (parse_model_list (dget entry ''eligible_models'' JNull)) (\<lambda>eligible.
          bindE (demand (set eligible \<inter> set (models @ backup) = {})) (\<lambda>_.
          bindE (parse_slots models eligible (dget entry ''slots'' JNull)) (\<lambda>slots.
          bindE (parse_reasoning (models @ backup) (dget entry ''reasoning'' JNull)) (\<lambda>reasoning.
          bindE (optional_int (dget entry ''max_dispatches_per_run'' JNull)) (\<lambda>run_cap.
          bindE (optional_int (dget entry ''max_queued_jobs'' JNull)) (\<lambda>queue_cap.
          bindE (coerce_bool (dget entry ''catalog_backup_candidates'' (JBool True))) (\<lambda>candidates.
            let lane = \<lparr>lc_purpose = purpose, lc_models = models, lc_max_dispatches_per_run = run_cap,
                  lc_reserved_write_units = reserved, lc_daily_write_units = daily, lc_max_queued_jobs = queue_cap,
                  lc_telemetry_producer = producer, lc_telemetry_unit = unit, lc_telemetry_completion = ''consumed'',
                  lc_telemetry_scope = scope, lc_dispatch_shape = shape, lc_backup_models = backup,
                  lc_backup_after_attempts = after, lc_catalog_backup_candidates = candidates,
                  lc_reasoning = reasoning, lc_eligible_models = eligible, lc_slots = slots\<rparr>
            in bindE (demand (affordable lane)) (\<lambda>_. Inr lane))))))))))))))))
      | _ \<Rightarrow> Inl ValueError)"

definition parse_lanes :: "json \<Rightarrow> exn + (string \<times> lane_config) list" where
  "parse_lanes raw =
     bindE (filled_mapping raw) (\<lambda>block.
       mapE (\<lambda>(purpose, entry). bindE (parse_lane purpose entry) (\<lambda>lane. Inr (purpose, lane))) block)"

subsection \<open>Families\<close>

definition lane_models :: "lane_config \<Rightarrow> string list" where
  "lane_models l = lc_models l @ lc_backup_models l @ lc_eligible_models l"

definition parse_family :: "string \<times> json \<Rightarrow> exn + string \<times> string" where
  "parse_family kv =
     bindE (stripped_text (JStr (fst kv))) (\<lambda>model.
     bindE (stripped_text (snd kv)) (\<lambda>family. Inr (model, family)))"

definition parse_families :: "json \<Rightarrow> (string \<times> lane_config) list \<Rightarrow> exn + (string \<times> string) list" where
  "parse_families raw lanes =
     bindE (filled_mapping raw) (\<lambda>d.
     bindE (mapE parse_family d) (\<lambda>pairs.
       let families = fold (\<lambda>(m, f). AList.update m f) pairs []
       in bindE (demand (\<forall>l \<in> set (map snd lanes). \<forall>m \<in> set (lane_models l). map_of families m \<noteq> None)) (\<lambda>_.
            Inr families)))"

subsection \<open>Lookup\<close>

text \<open>\<open>load_lanes\<close> keeps what it parsed, per path; \<open>yaml\<close> reads and parses the file.\<close>

type_synonym lane_cache = "(string \<times> (string \<times> lane_config) list) list"

definition load_lanes ::
  "(string \<Rightarrow> exn + json) \<Rightarrow> string \<Rightarrow> lane_cache \<Rightarrow> exn + (string \<times> lane_config) list \<times> lane_cache" where
  "load_lanes yaml path cache =
     (case map_of cache path of
        Some lanes \<Rightarrow> Inr (lanes, cache)
      | None \<Rightarrow>
          bindE (yaml path) (\<lambda>raw.
          bindE (if py_truthy raw then (case raw of JObj d \<Rightarrow> Inr d | _ \<Rightarrow> Inl (AttributeError ''get'')) else Inr []) (\<lambda>d.
          bindE (parse_lanes (dget d ''llm_lanes'' JNull)) (\<lambda>lanes.
            Inr (lanes, AList.update path lanes cache)))))"

definition lane_for ::
  "(string \<Rightarrow> exn + json) \<Rightarrow> string \<Rightarrow> string \<Rightarrow> lane_cache \<Rightarrow> exn + lane_config \<times> lane_cache" where
  "lane_for yaml path purpose cache =
     bindE (load_lanes yaml path cache) (\<lambda>(lanes, cache).
       case map_of lanes purpose of
         Some lane \<Rightarrow> Inr (lane, cache)
       | None \<Rightarrow> Inl (OtherError ''UnregisteredLaneError''))"


text \<open>The families of the same file, with a cache of their own; \<open>load_lanes\<close> parses the lanes if nothing has.\<close>

type_synonym family_cache = "(string \<times> (string \<times> string) list) list"

definition load_families ::
  "(string \<Rightarrow> exn + json) \<Rightarrow> string \<Rightarrow> lane_cache \<Rightarrow> family_cache \<Rightarrow>
   exn + (string \<times> string) list \<times> lane_cache \<times> family_cache" where
  "load_families yaml path cache fcache =
     (case map_of fcache path of
        Some families \<Rightarrow> Inr (families, cache, fcache)
      | None \<Rightarrow>
          bindE (yaml path) (\<lambda>raw.
          bindE (if py_truthy raw then (case raw of JObj d \<Rightarrow> Inr d | _ \<Rightarrow> Inl (AttributeError ''get'')) else Inr []) (\<lambda>d.
          bindE (load_lanes yaml path cache) (\<lambda>(lanes, cache).
          bindE (parse_families (dget d ''llm_families'' JNull) lanes) (\<lambda>families.
            Inr (families, cache, AList.update path families fcache))))))"

definition clear_cache :: "lane_cache \<times> family_cache" where
  "clear_cache = ([], [])"

end
