(* ===== verification/Lane_Properties.thy ===== *)
theory Lane_Properties
  imports LLM_Lanes "HOL-Library.Multiset"
begin

section \<open>What an accepted registry of lanes guarantees\<close>

text \<open>
  Every lane of a registry that parses is sound: its models are proper and in their places, its budget pays for
  the jobs it may submit, its slots partition its models.
\<close>

subsection \<open>Stripped text\<close>

lemma dropWhile_hd: "t = [] \<or> \<not> P (hd t) \<Longrightarrow> dropWhile P t = t"
  by (cases t) auto

lemma py_strip_idem [simp]: "py_strip (py_strip s) = py_strip s"
proof -
  define t where "t = dropWhile is_space s"
  define u where "u = rev (dropWhile is_space (rev t))"
  have t: "t = [] \<or> \<not> is_space (hd t)"
    using hd_dropWhile [of is_space s] by (auto simp: t_def)
  obtain v where v: "t = u @ v"
  proof -
    have "rev t = takeWhile is_space (rev t) @ rev u"
      by (simp add: u_def)
    then have "t = u @ rev (takeWhile is_space (rev t))"
      by (metis rev_append rev_rev_ident)
    then show thesis
      by (rule that)
  qed
  have "dropWhile is_space u = u"
    using t v by (intro dropWhile_hd) (cases u, auto)
  moreover have "dropWhile is_space (rev u) = rev u"
    by (simp add: u_def dropWhile_idem)
  ultimately show ?thesis
    by (simp add: py_strip_def t_def u_def)
qed

definition proper_name :: "string \<Rightarrow> bool" where
  "proper_name s \<longleftrightarrow> s \<noteq> '''' \<and> py_strip s = s"

lemma stripped_Inr: "stripped_text j = Inr s \<Longrightarrow> proper_name s"
  by (auto simp: stripped_text_def proper_name_def split: json.splits if_splits)

lemma demand_Inr [simp]: "demand ok = Inr u \<longleftrightarrow> ok"
  by (simp add: demand_def)

lemma mapE_list_all: "mapE f xs = Inr ys \<Longrightarrow> (\<And>x y. f x = Inr y \<Longrightarrow> P y) \<Longrightarrow> list_all P ys"
  by (induction xs arbitrary: ys) (auto split: sum.splits)

lemma mapE_lengths: "mapE f xs = Inr ys \<Longrightarrow> length ys = length xs"
  by (induction xs arbitrary: ys) (auto split: sum.splits)

lemma model_names_ok: "model_names raw = Inr ms \<Longrightarrow> distinct ms \<and> list_all proper_name ms \<and> length ms = length raw"
  by (auto simp: model_names_def bindE_Inr mapE_lengths intro: mapE_list_all stripped_Inr)

lemma model_list_ok: "parse_model_list raw = Inr ms \<Longrightarrow> distinct ms \<and> list_all proper_name ms"
  by (auto simp: parse_model_list_def dest: model_names_ok split: json.splits)

subsection \<open>Slots\<close>

lemma add_members_ok:
  "add_members known name ms seen = Inr seen' \<Longrightarrow>
   distinct ms \<and> set ms \<subseteq> set known \<and> set ms \<inter> fst ` set seen = {} \<and> fst ` set seen' = fst ` set seen \<union> set ms"
proof (induction known name ms seen rule: add_members.induct)
  case (2 known name m rest seen)
  then have m: "m \<in> set known" "m \<notin> fst ` set seen"
    by (auto simp: map_of_eq_None_iff split: if_splits)
  with 2 show ?case
    by (auto simp: dom_update split: if_splits)
qed auto

definition slots_so_far :: "string list \<Rightarrow> string list \<Rightarrow> (string \<times> string) list \<Rightarrow> (string \<times> string list) list \<Rightarrow> bool" where
  "slots_so_far models eligible seen pairs \<longleftrightarrow>
     distinct (concat (map snd pairs)) \<and> set (concat (map snd pairs)) = fst ` set seen \<and>
     fst ` set seen \<subseteq> set (models @ eligible) \<and> list_all (\<lambda>(name, ms). \<exists>m \<in> set ms. m \<in> set models) pairs"

lemma slot_items_ok:
  "parse_slot_items models eligible d seen pairs = Inr (seen', pairs') \<Longrightarrow> slots_so_far models eligible seen pairs \<Longrightarrow>
   slots_so_far models eligible seen' pairs' \<and> (d \<noteq> [] \<or> pairs \<noteq> [] \<longrightarrow> pairs' \<noteq> [])"
proof (induction models eligible d seen pairs rule: parse_slot_items.induct)
  case (2 models eligible name raw rest seen pairs)
  obtain members seen1 where m: "parse_model_list raw = Inr members" "members \<noteq> []"
    "add_members (models @ eligible) name members seen = Inr seen1" "\<exists>m \<in> set members. m \<in> set models"
    and go: "parse_slot_items models eligible rest seen1 (pairs @ [(name, members)]) = Inr (seen', pairs')"
    using 2(2) by (auto simp: bindE_Inr)
  have "slots_so_far models eligible seen1 (pairs @ [(name, members)])"
    using 2(3) add_members_ok [OF m(3)] m(4) by (auto simp: slots_so_far_def)
  with 2(1) [OF go] show ?case
    by simp
qed simp

definition slots_partition :: "string list \<Rightarrow> string list \<Rightarrow> (string \<times> string list) list \<Rightarrow> bool" where
  "slots_partition models eligible slots \<longleftrightarrow>
     slots = [] \<or>
     distinct (concat (map snd slots)) \<and> set (concat (map snd slots)) = set (models @ eligible) \<and>
     list_all (\<lambda>(name, ms). \<exists>m \<in> set ms. m \<in> set models) slots"

lemma concat_mset_cong: "mset xs = mset ys \<Longrightarrow> mset (concat (map snd xs)) = mset (concat (map snd ys))"
proof -
  have "mset (concat (map snd xs)) = sum_mset (image_mset (\<lambda>p. mset (snd p)) (mset xs))" for xs :: "('a \<times> 'b list) list"
    by (induction xs) auto
  then show "mset xs = mset ys \<Longrightarrow> ?thesis"
    by metis
qed

lemma slots_ok: "parse_slots models eligible raw = Inr slots \<Longrightarrow> slots_partition models eligible slots"
proof (cases "raw = JNull")
  case False
  assume "parse_slots models eligible raw = Inr slots"
  with False obtain d seen pairs where items: "parse_slot_items models eligible d [] [] = Inr (seen, pairs)"
    and all: "\<forall>m \<in> set (models @ eligible). map_of seen m \<noteq> None" and slots: "slots = sort pairs"
    by (auto simp: parse_slots_def bindE_Inr)
  have ok: "slots_so_far models eligible seen pairs"
    using slot_items_ok [OF items] by (simp add: slots_so_far_def)
  have same: "mset (concat (map snd slots)) = mset (concat (map snd pairs))"
    by (rule concat_mset_cong) (simp add: slots)
  have "set (models @ eligible) \<subseteq> fst ` set seen"
    using all by (metis map_of_eq_None_iff subsetI)
  then have "set (concat (map snd pairs)) = set (models @ eligible)"
    using ok by (auto simp: slots_so_far_def)
  then have "set (concat (map snd slots)) = set (models @ eligible)"
    using mset_eq_setD [OF same] by simp
  moreover have "distinct (concat (map snd slots))"
    using ok mset_eq_imp_distinct_iff [OF same] by (simp add: slots_so_far_def)
  moreover have "list_all (\<lambda>(name, ms). \<exists>m \<in> set ms. m \<in> set models) slots"
    using ok by (simp add: slots_so_far_def slots list_all_iff)
  ultimately show ?thesis
    by (simp add: slots_partition_def)
qed (simp add: parse_slots_def slots_partition_def)

subsection \<open>Lanes\<close>

lemma text_among_Inr: "text_among allowed j = Inr s \<Longrightarrow> s \<in> set allowed"
  by (auto simp: text_among_def split: json.splits if_splits)

lemma coerce_int_ok: "coerce_int j = Inr n \<Longrightarrow> 0 \<le> n"
  by (auto simp: coerce_int_def split: json.splits if_splits)

lemma optional_int_ok: "optional_int j = Inr r \<Longrightarrow> r = None \<or> (\<exists>n. r = Some n \<and> 0 \<le> n)"
  by (auto simp: optional_int_def bindE_Inr dest: coerce_int_ok split: if_splits)

text \<open>A back-up goes with its threshold, and only with a pooled lane.\<close>

definition backup_ok :: "string \<Rightarrow> string list \<Rightarrow> int option \<Rightarrow> bool" where
  "backup_ok shape models after \<longleftrightarrow>
     distinct models \<and> list_all proper_name models \<and>
     (case after of None \<Rightarrow> models = [] | Some n \<Rightarrow> models \<noteq> [] \<and> 0 < n \<and> shape \<noteq> ''per_model'')"

lemma parse_backup_ok: "parse_backup shape a b = Inr (models, after) \<Longrightarrow> backup_ok shape models after"
proof (cases "a = JNull \<and> b = JNull")
  case False
  assume "parse_backup shape a b = Inr (models, after)"
  with False obtain xs n where xs: "filled_list a = Inr xs" and m: "model_names xs = Inr models"
    and n: "shape \<noteq> ''per_model''" "0 < n" "after = Some n"
    by (auto simp: parse_backup_def bindE_Inr split: if_splits)
  have "xs \<noteq> []"
    using xs by (auto simp: filled_list_def split: json.splits list.splits)
  with model_names_ok [OF m] n show ?thesis
    by (auto simp: backup_ok_def)
qed (simp add: parse_backup_def backup_ok_def)

lemma parse_reasoning_ok:
  "parse_reasoning lane raw = Inr pairs \<Longrightarrow> list_all (\<lambda>(m, l). m \<in> set lane \<and> l \<in> set REASONING_LEVELS) pairs"
proof (cases raw)
  case (JObj d)
  assume "parse_reasoning lane raw = Inr pairs"
  with JObj obtain ps where ps: "mapE (reasoning_pair lane) d = Inr ps" and pairs: "pairs = sort ps"
    by (auto simp: parse_reasoning_def bindE_Inr)
  have "list_all (\<lambda>(m, l). m \<in> set lane \<and> l \<in> set REASONING_LEVELS) ps"
    by (rule mapE_list_all [OF ps]) (auto simp: reasoning_pair_def bindE_Inr dest: text_among_Inr)
  then show ?thesis
    by (simp add: pairs list_all_iff)
qed (auto simp: parse_reasoning_def)

text \<open>What holds of a lane that was accepted.\<close>

definition lane_names_ok :: "lane_config \<Rightarrow> bool" where
  "lane_names_ok l \<longleftrightarrow>
     lc_models l \<noteq> [] \<and> distinct (lc_models l) \<and> distinct (lc_eligible_models l) \<and>
     list_all proper_name (lane_models l) \<and>
     set (lc_eligible_models l) \<inter> set (lc_models l @ lc_backup_models l) = {} \<and>
     backup_ok (lc_dispatch_shape l) (lc_backup_models l) (lc_backup_after_attempts l) \<and>
     slots_partition (lc_models l) (lc_eligible_models l) (lc_slots l) \<and>
     list_all (\<lambda>(m, r). m \<in> set (lc_models l @ lc_backup_models l) \<and> r \<in> set REASONING_LEVELS) (lc_reasoning l)"

definition lane_budget_ok :: "lane_config \<Rightarrow> bool" where
  "lane_budget_ok l \<longleftrightarrow>
     0 \<le> lc_reserved_write_units l \<and> lc_reserved_write_units l \<le> lc_daily_write_units l \<and>
     1 \<le> max_jobs_per_day l \<and> max_jobs_per_day l * ingress_write_units_per_job l \<le> lc_daily_write_units l \<and>
     (case lc_max_dispatches_per_run l of None \<Rightarrow> True
      | Some n \<Rightarrow> 0 \<le> n \<and> n * ingress_write_units_per_job l \<le> lc_daily_write_units l)"

lemma affordable_budget:
  assumes "affordable l" and "0 \<le> lc_reserved_write_units l" "lc_reserved_write_units l \<le> lc_daily_write_units l"
    and "lc_max_dispatches_per_run l = None \<or> (\<exists>n. lc_max_dispatches_per_run l = Some n \<and> 0 \<le> n)"
  shows "lane_budget_ok l"
proof -
  let ?u = "ingress_write_units_per_job l" and ?d = "lc_daily_write_units l"
  have u: "0 < ?u"
    by (simp add: ingress_write_units_per_job_def)
  have day: "max_jobs_per_day l * ?u \<le> ?d"
    using u by (simp add: max_jobs_per_day_def) (metis div_mult_mod_eq le_add_same_cancel1 pos_mod_sign)
  have "1 \<le> max_jobs_per_day l"
    using assms(1) u by (simp add: affordable_def max_jobs_per_day_def pos_imp_zdiv_pos_iff int_one_le_iff_zero_less)
  moreover have "n * ?u \<le> ?d" if "n \<le> max_jobs_per_day l" for n
    using mult_right_mono [OF that, of ?u] u day by linarith
  ultimately show ?thesis
    using assms day by (auto simp: lane_budget_ok_def affordable_def split: option.splits)
qed

lemma parse_lane_ok:
  assumes "parse_lane purpose raw = Inr l"
  shows "lc_purpose l = purpose \<and> purpose \<notin> set NON_DISPATCHING_PURPOSES \<and> lane_names_ok l \<and> lane_budget_ok l"
proof -
  obtain entry where raw: "raw = JObj entry" and new: "purpose \<notin> set NON_DISPATCHING_PURPOSES"
    using assms by (cases raw) (auto simp: parse_lane_def split: if_splits)
  obtain raw_models models reserved daily shape backup after producer unit scope eligible slots reasoning run_cap queue_cap candidates
    where f: "filled_list (dget entry ''models'' JNull) = Inr raw_models" "model_names raw_models = Inr models"
    "coerce_int (dget entry ''reserved_write_units'' (JInt 0)) = Inr reserved" "reserved \<le> daily"
    "parse_backup shape (dget entry ''backup_models'' JNull) (dget entry ''backup_after_attempts'' JNull) = Inr (backup, after)"
    "parse_model_list (dget entry ''eligible_models'' JNull) = Inr eligible" "set eligible \<inter> set (models @ backup) = {}"
    "parse_slots models eligible (dget entry ''slots'' JNull) = Inr slots"
    "parse_reasoning (models @ backup) (dget entry ''reasoning'' JNull) = Inr reasoning"
    "optional_int (dget entry ''max_dispatches_per_run'' JNull) = Inr run_cap" "affordable l"
    and l: "l = \<lparr>lc_purpose = purpose, lc_models = models, lc_max_dispatches_per_run = run_cap,
                  lc_reserved_write_units = reserved, lc_daily_write_units = daily, lc_max_queued_jobs = queue_cap,
                  lc_telemetry_producer = producer, lc_telemetry_unit = unit, lc_telemetry_completion = ''consumed'',
                  lc_telemetry_scope = scope, lc_dispatch_shape = shape, lc_backup_models = backup,
                  lc_backup_after_attempts = after, lc_catalog_backup_candidates = candidates,
                  lc_reasoning = reasoning, lc_eligible_models = eligible, lc_slots = slots\<rparr>"
    using assms new unfolding raw parse_lane_def json.case Let_def
    by (simp only: if_False bindE_Inr demand_Inr split: prod.splits) (fastforce simp: bindE_Inr)
  have ne: "raw_models \<noteq> []"
    using f(1) by (auto simp: filled_list_def split: json.splits list.splits)
  have "lane_names_ok l"
    using model_names_ok [OF f(2)] model_list_ok [OF f(6)] parse_backup_ok [OF f(5)] slots_ok [OF f(8)]
      parse_reasoning_ok [OF f(9)] f(7) ne
    by (auto simp: l lane_names_ok_def lane_models_def backup_ok_def)
  moreover have "lane_budget_ok l"
    by (rule affordable_budget [OF f(11)])
      (use coerce_int_ok [OF f(3)] f(4) optional_int_ok [OF f(10)] in \<open>simp_all add: l\<close>)
  ultimately show ?thesis
    using new by (simp add: l)
qed

definition registry_ok :: "(string \<times> lane_config) list \<Rightarrow> bool" where
  "registry_ok lanes \<longleftrightarrow>
     lanes \<noteq> [] \<and>
     list_all (\<lambda>(purpose, l). lc_purpose l = purpose \<and> purpose \<notin> set NON_DISPATCHING_PURPOSES \<and>
                              lane_names_ok l \<and> lane_budget_ok l) lanes"

lemma parse_lanes_ok: "parse_lanes raw = Inr lanes \<Longrightarrow> registry_ok lanes"
proof -
  assume "parse_lanes raw = Inr lanes"
  then obtain block where block: "filled_mapping raw = Inr block"
    and lanes: "mapE (\<lambda>(purpose, entry). bindE (parse_lane purpose entry) (\<lambda>lane. Inr (purpose, lane))) block = Inr lanes"
    by (auto simp: parse_lanes_def bindE_Inr)
  have "block \<noteq> []"
    using block by (auto simp: filled_mapping_def split: json.splits list.splits)
  then have "lanes \<noteq> []"
    using mapE_lengths [OF lanes] by auto
  moreover have "list_all (\<lambda>(purpose, l). lc_purpose l = purpose \<and> purpose \<notin> set NON_DISPATCHING_PURPOSES \<and>
      lane_names_ok l \<and> lane_budget_ok l) lanes"
    by (rule mapE_list_all [OF lanes]) (auto simp: bindE_Inr dest: parse_lane_ok)
  ultimately show ?thesis
    by (simp add: registry_ok_def)
qed

text \<open>Every model of every lane has a family that is not blank.\<close>

lemma fold_update_mem:
  "map_of (fold (\<lambda>(m, f). AList.update m f) ps d) k = Some v \<Longrightarrow> (k, v) \<in> set ps \<or> map_of d k = Some v"
  by (induction ps arbitrary: d) (fastforce simp: dict_simps split: if_splits)+

lemma parse_families_ok:
  assumes "parse_families raw lanes = Inr families" and "l \<in> set (map snd lanes)" and "m \<in> set (lane_models l)"
  shows "\<exists>f. map_of families m = Some f \<and> proper_name f"
proof -
  obtain d pairs where pairs: "mapE parse_family d = Inr pairs"
    and families: "families = fold (\<lambda>(m, f). AList.update m f) pairs []"
    and all: "\<forall>l \<in> set (map snd lanes). \<forall>m \<in> set (lane_models l). map_of families m \<noteq> None"
    using assms(1) unfolding parse_families_def bindE_Inr Let_def demand_Inr by auto
  have named: "list_all (\<lambda>(m, f). proper_name f) pairs"
    by (rule mapE_list_all [OF pairs]) (auto simp: parse_family_def bindE_Inr dest: stripped_Inr)
  obtain f where f: "map_of families m = Some f"
    using all assms(2,3) by blast
  then have "(m, f) \<in> set pairs"
    using fold_update_mem [of pairs "[]" m f] by (simp add: families)
  with named f show ?thesis
    by (auto simp: list_all_iff)
qed

definition cache_ok :: "lane_cache \<Rightarrow> bool" where
  "cache_ok cache \<longleftrightarrow> list_all (\<lambda>(path, lanes). registry_ok lanes) cache"

lemma cache_ok_update: "cache_ok cache \<Longrightarrow> registry_ok lanes \<Longrightarrow> cache_ok (AList.update path lanes cache)"
  by (induction cache) (auto simp: cache_ok_def)

lemma load_lanes_ok:
  "load_lanes yaml path cache = Inr (lanes, cache') \<Longrightarrow> cache_ok cache \<Longrightarrow> registry_ok lanes \<and> cache_ok cache'"
  by (auto simp: load_lanes_def bindE_Inr cache_ok_update dest: parse_lanes_ok split: option.splits)
    (auto simp: cache_ok_def list_all_iff dest: map_of_SomeD)

text \<open>What the two caches hold of one file agrees: each model of each lane has its family.\<close>

definition families_cover :: "(string \<times> lane_config) list \<Rightarrow> (string \<times> string) list \<Rightarrow> bool" where
  "families_cover lanes families \<longleftrightarrow>
     (\<forall>l \<in> set (map snd lanes). \<forall>m \<in> set (lane_models l). \<exists>f. map_of families m = Some f \<and> proper_name f)"

definition caches_agree :: "lane_cache \<Rightarrow> family_cache \<Rightarrow> bool" where
  "caches_agree cache fcache \<longleftrightarrow>
     (\<forall>path families. map_of fcache path = Some families \<longrightarrow>
        (\<exists>lanes. map_of cache path = Some lanes \<and> families_cover lanes families))"

lemma load_lanes_cached: "load_lanes yaml path cache = Inr (lanes, cache') \<Longrightarrow> map_of cache' path = Some lanes"
  by (auto simp: load_lanes_def bindE_Inr dict_simps split: option.splits)

lemma load_lanes_keeps:
  "load_lanes yaml path cache = Inr (lanes, cache') \<Longrightarrow> map_of cache p = Some ls \<Longrightarrow> map_of cache' p = Some ls"
  by (auto simp: load_lanes_def bindE_Inr dict_simps split: option.splits)

lemma load_lanes_agree:
  "load_lanes yaml path cache = Inr (lanes, cache') \<Longrightarrow> caches_agree cache fcache \<Longrightarrow> caches_agree cache' fcache"
  unfolding caches_agree_def by (blast dest: load_lanes_keeps)

lemma caches_agree_update:
  "caches_agree cache fcache \<Longrightarrow> map_of cache path = Some lanes \<Longrightarrow> families_cover lanes families \<Longrightarrow>
   caches_agree cache (AList.update path families fcache)"
  by (auto simp: caches_agree_def dict_simps split: if_splits)

lemma load_families_cover:
  assumes "load_families yaml path cache fcache = Inr (families, cache', fcache')" and "caches_agree cache fcache"
  shows "caches_agree cache' fcache' \<and> (\<exists>lanes. map_of cache' path = Some lanes \<and> families_cover lanes families)"
proof (cases "map_of fcache path")
  case (Some fs)
  with assms show ?thesis
    by (auto simp: load_families_def caches_agree_def)
next
  case None
  then obtain d lanes where lanes: "load_lanes yaml path cache = Inr (lanes, cache')"
    and families: "parse_families (dget d ''llm_families'' JNull) lanes = Inr families"
    and "fcache' = AList.update path families fcache"
    using assms(1) by (auto simp: load_families_def bindE_Inr)
  moreover have "families_cover lanes families"
    unfolding families_cover_def by (blast intro: parse_families_ok [OF families])
  ultimately show ?thesis
    using load_lanes_cached [OF lanes] load_lanes_agree [OF lanes assms(2)] by (blast intro: caches_agree_update)
qed

text \<open>
  C28: A producer that looks a purpose up gets a sound lane of that purpose, from the file or from what was kept of it: proper,
  distinct models, eligible models apart from active and back-up ones, slots that partition the active
  and eligible models with an active one in each, and a budget that pays for at least one job, for every job of
  its run cap and for all jobs of a day. A purpose without a lane raises, also one that never dispatches.
\<close>

theorem looked_up_lane_is_sound:
  assumes "lane_for yaml path purpose cache = r" and "cache_ok cache"
  shows "case r of
      Inr (l, cache') \<Rightarrow> lc_purpose l = purpose \<and> lane_names_ok l \<and> lane_budget_ok l \<and> cache_ok cache' \<and>
        purpose \<notin> set NON_DISPATCHING_PURPOSES
    | Inl e \<Rightarrow> (\<forall>lanes cache'. load_lanes yaml path cache = Inr (lanes, cache') \<longrightarrow>
        map_of lanes purpose = None \<and> e = OtherError ''UnregisteredLaneError'')"
proof (cases "load_lanes yaml path cache")
  case (Inl e)
  then show ?thesis
    using assms(1) by (auto simp: lane_for_def)
next
  case (Inr p)
  obtain lanes cache' where p: "p = (lanes, cache')"
    by (cases p)
  have ok: "registry_ok lanes" "cache_ok cache'"
    using load_lanes_ok Inr assms(2) unfolding p by auto
  show ?thesis
  proof (cases "map_of lanes purpose")
    case None
    then show ?thesis
      using assms(1) Inr p by (auto simp: lane_for_def)
  next
    case (Some l)
    then have "(purpose, l) \<in> set lanes"
      by (rule map_of_SomeD)
    with ok show ?thesis
      using assms(1) Inr p Some by (auto simp: lane_for_def registry_ok_def list_all_iff)
  qed
qed

definition demo_lanes :: json where
  "demo_lanes =
     JObj [(''llm_lanes'', JObj [(''r6-moments'', JObj
       [(''models'', JList [JStr '' gemini/flash '', JStr ''mistral/small'']), (''daily_write_units'', JInt 100),
        (''reserved_write_units'', JInt 10), (''max_dispatches_per_run'', JInt 20),
        (''telemetry'', JObj [(''producer'', JStr ''moments''), (''unit'', JStr ''episode''),
           (''completion'', JStr ''consumed''), (''scope'', JStr ''sample'')])])])]"

definition demo_yaml :: "string \<Rightarrow> exn + json" where
  "demo_yaml path = Inr demo_lanes"

lemma demo_lane:
  "map_sum id (\<lambda>(l, cache). (lc_models l, max_jobs_per_day l, length cache)) (lane_for demo_yaml ''site.yml'' ''r6-moments'' []) =
   Inr ([''gemini/flash'', ''mistral/small''], 20, 1)"
  by code_simp

theorem looked_up_lane_is_sound_witness:
  "\<exists>l cache. lane_for demo_yaml ''site.yml'' ''r6-moments'' [] = Inr (l, cache) \<and> lane_names_ok l \<and> lane_budget_ok l \<and>
     max_jobs_per_day l = 20"
proof -
  obtain l cache where l: "lane_for demo_yaml ''site.yml'' ''r6-moments'' [] = Inr (l, cache)" and "max_jobs_per_day l = 20"
    using demo_lane by (cases "lane_for demo_yaml ''site.yml'' ''r6-moments'' []") auto
  with looked_up_lane_is_sound [OF l] show ?thesis
    by (simp add: cache_ok_def)
qed

end
