(* ===== verification/Source_Gate.thy ===== *)
theory Source_Gate
  imports Prelude "HOL-Library.Word"
begin

section \<open>The gate on source URLs (security.py)\<close>

text \<open>
  \<open>validate_source_url\<close> and \<open>validate_city_sources\<close> with what they use of \<open>urllib.parse\<close>, \<open>fnmatch\<close> and
  \<open>ipaddress\<close> (their texts are ASCII, and no host pattern has a bracket expression). Addresses are words of 32
  and 128 bits, with the tables of Python 3.14. The resolver is an argument, as it is in the code.
\<close>

unbundle bit_operations_syntax

subsection \<open>IP addresses\<close>

datatype ip = V4 "32 word" | V6 "128 word"

text \<open>\<open>address in network\<close>: the masked address is the base of the network.\<close>

definition in_net :: "'a::len word \<Rightarrow> 'a word \<times> nat \<Rightarrow> bool" where
  "in_net a net \<longleftrightarrow> a AND push_bit (LENGTH('a) - snd net) (- 1) = fst net"

definition quad :: "int \<Rightarrow> int \<Rightarrow> int \<Rightarrow> int \<Rightarrow> 32 word" where
  "quad a b c d = word_of_int (((a * 256 + b) * 256 + c) * 256 + d)"

definition private_v4 :: "(32 word \<times> nat) list" where
  "private_v4 =
     [(quad 0 0 0 0, 8), (quad 10 0 0 0, 8), (quad 127 0 0 0, 8), (quad 169 254 0 0, 16), (quad 172 16 0 0, 12),
      (quad 192 0 0 0, 24), (quad 192 0 0 170, 31), (quad 192 0 2 0, 24), (quad 192 168 0 0, 16),
      (quad 198 18 0 0, 15), (quad 198 51 100 0, 24), (quad 203 0 113 0, 24), (quad 240 0 0 0, 4),
      (quad 255 255 255 255, 32)]"

definition private_v4_exceptions :: "(32 word \<times> nat) list" where
  "private_v4_exceptions = [(quad 192 0 0 9, 32), (quad 192 0 0 10, 32)]"

definition shared_address_space :: "32 word \<times> nat" where
  "shared_address_space = (quad 100 64 0 0, 10)"

definition is_private_v4 :: "32 word \<Rightarrow> bool" where
  "is_private_v4 a \<longleftrightarrow> list_ex (in_net a) private_v4 \<and> \<not> list_ex (in_net a) private_v4_exceptions"

text \<open>\<open>is_loopback\<close>, \<open>is_link_local\<close>, \<open>is_reserved\<close>, \<open>is_multicast\<close>, \<open>is_unspecified\<close> of an IPv4 address.\<close>

definition is_special_v4 :: "32 word \<Rightarrow> bool" where
  "is_special_v4 a \<longleftrightarrow>
     in_net a (quad 127 0 0 0, 8) \<or> in_net a (quad 169 254 0 0, 16) \<or> in_net a (quad 240 0 0 0, 4) \<or>
     in_net a (quad 224 0 0 0, 4) \<or> a = 0"

text \<open>A network of IPv6 whose base has only its first two, three or four groups.\<close>

definition groups :: "int list \<Rightarrow> 128 word" where
  "groups hs = foldl (\<lambda>a h. push_bit 16 a OR word_of_int h) 0 (hs @ replicate (8 - length hs) 0)"

definition private_v6 :: "(128 word \<times> nat) list" where
  "private_v6 =
     [(1, 128), (0, 128), (groups [0, 0, 0, 0, 0, 0xffff], 96), (groups [0x64, 0xff9b, 1], 48), (groups [0x100], 64),
      (groups [0x2001], 23), (groups [0x2001, 0xdb8], 32), (groups [0x2002], 16), (groups [0x3fff], 20),
      (groups [0xfc00], 7), (groups [0xfe80], 10)]"

definition private_v6_exceptions :: "(128 word \<times> nat) list" where
  "private_v6_exceptions =
     [(groups [0x2001, 1, 0, 0, 0, 0, 0, 1], 128), (groups [0x2001, 1, 0, 0, 0, 0, 0, 2], 128), (groups [0x2001, 3], 32),
      (groups [0x2001, 4, 0x112], 48), (groups [0x2001, 0x20], 28), (groups [0x2001, 0x30], 28)]"

definition reserved_v6 :: "(128 word \<times> nat) list" where
  "reserved_v6 =
     [(groups [0], 8), (groups [0x100], 8), (groups [0x200], 7), (groups [0x400], 6), (groups [0x800], 5),
      (groups [0x1000], 4), (groups [0x4000], 3), (groups [0x6000], 3), (groups [0x8000], 3), (groups [0xa000], 3),
      (groups [0xc000], 3), (groups [0xe000], 4), (groups [0xf000], 5), (groups [0xf800], 6), (groups [0xfe00], 9)]"

definition is_special_v6 :: "128 word \<Rightarrow> bool" where
  "is_special_v6 a \<longleftrightarrow>
     (list_ex (in_net a) private_v6 \<and> \<not> list_ex (in_net a) private_v6_exceptions) \<or> a = 1 \<or>
     in_net a (groups [0xfe80], 10) \<or> list_ex (in_net a) reserved_v6 \<or> in_net a (groups [0xff00], 8) \<or> a = 0"

definition ipv4_mapped :: "ip \<Rightarrow> 32 word option" where
  "ipv4_mapped ip =
     (case ip of
        V4 _ \<Rightarrow> None
      | V6 a \<Rightarrow> if drop_bit 32 a \<noteq> 0xffff then None else Some (ucast a))"

definition is_blocked_ip :: "ip \<Rightarrow> bool" where
  "is_blocked_ip ip \<longleftrightarrow>
     (case (case ipv4_mapped ip of Some a \<Rightarrow> V4 a | None \<Rightarrow> ip) of
        V4 a \<Rightarrow> is_private_v4 a \<or> is_special_v4 a \<or> in_net a shared_address_space
      | V6 a \<Rightarrow> is_special_v6 a)"

subsection \<open>Addresses as text\<close>

fun split_on :: "char \<Rightarrow> string \<Rightarrow> string list" where
  "split_on c [] = [[]]"
| "split_on c (x # xs) =
     (if x = c then [] # split_on c xs
      else case split_on c xs of [] \<Rightarrow> [[x]] | w # ws \<Rightarrow> (x # w) # ws)"

definition parse_octet :: "string \<Rightarrow> int option" where
  "parse_octet s =
     (if s = '''' \<or> \<not> list_all is_digit s \<or> 3 < length s \<or> (s \<noteq> ''0'' \<and> hd s = CHR ''0'') then None
      else case digits_value 0 s of None \<Rightarrow> None | Some n \<Rightarrow> if 255 < n then None else Some n)"

definition parse_ipv4 :: "string \<Rightarrow> 32 word option" where
  "parse_ipv4 s =
     (if CHR ''/'' \<in> set s then None
      else case map parse_octet (split_on CHR ''.'' s) of
        [Some a, Some b, Some c, Some d] \<Rightarrow> Some (quad a b c d)
      | _ \<Rightarrow> None)"

definition hex_value :: "char \<Rightarrow> int option" where
  "hex_value c =
     (if is_digit c then Some (of_char c - 48)
      else if lower_char c \<in> set ''abcdef'' then Some (of_char (lower_char c) - 87)
      else None)"

fun hex_digits :: "int \<Rightarrow> string \<Rightarrow> int option" where
  "hex_digits acc [] = Some acc"
| "hex_digits acc (c # cs) = (case hex_value c of None \<Rightarrow> None | Some d \<Rightarrow> hex_digits (acc * 16 + d) cs)"

text \<open>A group of an IPv6 text; a dotted suffix has become two numbers.\<close>

fun parse_hextet :: "string + int \<Rightarrow> int option" where
  "parse_hextet (Inl s) = (if s = '''' \<or> 4 < length s then None else hex_digits 0 s)"
| "parse_hextet (Inr n) = Some n"

fun hextets :: "(string + int) list \<Rightarrow> int list option" where
  "hextets [] = Some []"
| "hextets (p # ps) =
     (case parse_hextet p of
        None \<Rightarrow> None
      | Some n \<Rightarrow> (case hextets ps of None \<Rightarrow> None | Some ns \<Rightarrow> Some (n # ns)))"

definition ipv6_parts :: "string \<Rightarrow> (string + int) list option" where
  "ipv6_parts s =
     (let parts = split_on CHR '':'' s
      in if length parts < 3 then None
         else if CHR ''.'' \<in> set (last parts)
         then (case parse_ipv4 (last parts) of
                 None \<Rightarrow> None
               | Some a \<Rightarrow> Some (map Inl (butlast parts) @
                   [Inr (uint (drop_bit 16 a)), Inr (uint (a AND 0xffff))]))
         else Some (map Inl parts))"

text \<open>The groups before the \<open>::\<close>, the zeros it stands for, and the groups after it.\<close>

definition parse_ipv6 :: "string \<Rightarrow> 128 word option" where
  "parse_ipv6 s =
     (case ipv6_parts s of
        None \<Rightarrow> None
      | Some parts \<Rightarrow>
          let n = length parts
          in if 9 < n then None
             else (case filter (\<lambda>i. parts ! i = Inl '''') [1..<n - 1] of
               [] \<Rightarrow>
                 if n \<noteq> 8 then None else map_option groups (hextets parts)
             | [skip] \<Rightarrow>
                 let hi = (if parts ! 0 = Inl '''' then skip - 1 else skip);
                     lo = (if last parts = Inl '''' then n - skip - 2 else n - skip - 1)
                 in if (parts ! 0 = Inl '''' \<and> hi \<noteq> 0) \<or> (last parts = Inl '''' \<and> lo \<noteq> 0) \<or> 7 < hi + lo then None
                    else (case hextets (take hi parts) of
                        None \<Rightarrow> None
                      | Some high \<Rightarrow>
                          map_option (\<lambda>low. groups (high @ replicate (8 - (hi + lo)) 0 @ low))
                            (hextets (drop (n - lo) parts)))
             | _ \<Rightarrow> None))"

definition parse_scoped_ipv6 :: "string \<Rightarrow> 128 word option" where
  "parse_scoped_ipv6 s =
     (if CHR ''/'' \<in> set s then None
      else case split_on CHR ''%'' s of
        [addr] \<Rightarrow> parse_ipv6 addr
      | [addr, scope] \<Rightarrow> if scope = '''' then None else parse_ipv6 addr
      | _ \<Rightarrow> None)"

definition ip_address :: "string \<Rightarrow> ip option" where
  "ip_address s =
     (case parse_ipv4 s of Some a \<Rightarrow> Some (V4 a) | None \<Rightarrow> map_option V6 (parse_scoped_ipv6 s))"


subsection \<open>URLs\<close>

definition is_alpha :: "char \<Rightarrow> bool" where
  "is_alpha c \<longleftrightarrow> 97 \<le> (of_char (lower_char c) :: nat) \<and> (of_char (lower_char c) :: nat) \<le> 122"

definition scheme_char :: "char \<Rightarrow> bool" where
  "scheme_char c \<longleftrightarrow> is_alpha c \<or> is_digit c \<or> c \<in> set ''+.-''"

text \<open>\<open>_SCHEME_RE\<close>: a letter, then letters, digits and \<open>+ . -\<close>, then \<open>://\<close>.\<close>

definition has_scheme :: "string \<Rightarrow> bool" where
  "has_scheme url \<longleftrightarrow>
     url \<noteq> '''' \<and> is_alpha (hd url) \<and> py_startswith (dropWhile scheme_char url) ''://''"

text \<open>
  \<open>urlsplit\<close> of a text with such a scheme: tabs and line ends are removed, the network location ends at the first of
  \<open>/ ? #\<close>. What is wrong with brackets is a plain \<open>ValueError\<close>.
\<close>

definition url_scheme :: "string \<Rightarrow> string" where
  "url_scheme url = py_lower (takeWhile scheme_char url)"

definition url_netloc :: "string \<Rightarrow> string" where
  "url_netloc url =
     takeWhile (\<lambda>c. c \<notin> set ''/?#'')
       (filter (\<lambda>c. of_char c \<notin> {9, 10, 13 :: nat}) (drop 3 (dropWhile scheme_char url)))"

definition after_last :: "char \<Rightarrow> string \<Rightarrow> string" where
  "after_last c s = rev (takeWhile (\<lambda>x. x \<noteq> c) (rev s))"

definition hostinfo :: "string \<Rightarrow> string" where
  "hostinfo netloc =
     (let h = after_last CHR ''@'' netloc
      in if CHR ''['' \<in> set h then takeWhile (\<lambda>x. x \<noteq> CHR '']'') (drop 1 (dropWhile (\<lambda>x. x \<noteq> CHR ''['') h))
         else takeWhile (\<lambda>x. x \<noteq> CHR '':'') h)"

definition ipvfuture :: "string \<Rightarrow> bool" where
  "ipvfuture s =
     (let v = takeWhile (\<lambda>c. hex_value c \<noteq> None) (drop 1 s); r = dropWhile (\<lambda>c. hex_value c \<noteq> None) (drop 1 s)
      in v \<noteq> '''' \<and> py_startswith r ''.'' \<and> 1 < length r)"

definition bracketed_host_ok :: "string \<Rightarrow> bool" where
  "bracketed_host_ok host =
     (if py_startswith host ''v'' then ipvfuture host
      else case ip_address host of Some (V6 _) \<Rightarrow> True | _ \<Rightarrow> False)"

definition brackets_ok :: "string \<Rightarrow> bool" where
  "brackets_ok netloc =
     (let opn = CHR ''['' \<in> set netloc; close = CHR '']'' \<in> set netloc; h = after_last CHR ''@'' netloc
      in if opn \<noteq> close then False
         else if \<not> opn then True
         else if CHR ''['' \<in> set h
         then hd h = CHR ''['' \<and>
              (let port = drop 1 (dropWhile (\<lambda>x. x \<noteq> CHR '']'') h) in port = '''' \<or> hd port = CHR '':'') \<and>
              bracketed_host_ok (hostinfo netloc)
         else bracketed_host_ok (hostinfo netloc))"

text \<open>\<open>_hostname\<close>. Without a scheme \<open>urlsplit\<close> finds no network location unless the text begins with \<open>//\<close>; the callers
  pass a text with a scheme.\<close>

definition url_hostname :: "string \<Rightarrow> exn + string" where
  "url_hostname url =
     (if brackets_ok (url_netloc url) then Inr (py_lower (hostinfo (url_netloc url))) else Inl ValueError)"

subsection \<open>The gate\<close>

text \<open>\<open>fnmatch\<close> on patterns of literal characters, \<open>*\<close> and \<open>?\<close>.\<close>

fun glob :: "string \<Rightarrow> string \<Rightarrow> bool" where
  "glob [] s = (s = [])"
| "glob (c # p) [] = (c = CHR ''*'' \<and> glob p [])"
| "glob (c # p) (x # s) =
     (if c = CHR ''*'' then glob p (x # s) \<or> glob (c # p) s else (c = CHR ''?'' \<or> c = x) \<and> glob p s)"

definition host_allowed :: "string \<Rightarrow> string list \<Rightarrow> bool" where
  "host_allowed host patterns = list_ex (\<lambda>pat. glob (py_lower pat) host) patterns"

definition ALLOWED_SCHEMES :: "string list" where "ALLOWED_SCHEMES = [''https'']"

definition security_error :: exn where "security_error = OtherError ''SecurityError''"

fun check_addresses :: "string list \<Rightarrow> exn + unit" where
  "check_addresses [] = Inr ()"
| "check_addresses (s # rest) =
     (case ip_address s of
        None \<Rightarrow> Inl security_error
      | Some ip \<Rightarrow> if is_blocked_ip ip then Inl security_error else check_addresses rest)"

definition validate_source_url ::
  "string \<Rightarrow> string list option \<Rightarrow> bool \<Rightarrow> (string \<Rightarrow> exn + string list) \<Rightarrow> exn + unit" where
  "validate_source_url url allowed resolve resolver =
     (if \<not> has_scheme url then Inl security_error
      else bindE (url_hostname url) (\<lambda>host.
        if url_scheme url \<notin> set ALLOWED_SCHEMES then Inl security_error
        else if host = '''' then Inl security_error
        else if (case allowed of None \<Rightarrow> False | Some patterns \<Rightarrow> \<not> host_allowed host patterns)
        then Inl security_error
        else if resolve then bindE (resolver host) check_addresses
        else Inr ()))"

definition default_resolver :: "(string \<Rightarrow> string list option) \<Rightarrow> string \<Rightarrow> exn + string list" where
  "default_resolver getaddrinfo host =
     (case getaddrinfo host of
        None \<Rightarrow> Inl security_error
      | Some addresses \<Rightarrow> Inr (sorted_list_of_set (set addresses)))"

subsection \<open>The sources of a city\<close>

definition city_domain_patterns :: "string \<Rightarrow> exn + string list" where
  "city_domain_patterns website =
     (let url = (if website \<noteq> '''' \<and> \<not> has_scheme website then ''https://'' @ website else website)
      in if url = '''' then Inr []
         else bindE (url_hostname url) (\<lambda>host.
           if host = '''' then Inr []
           else let apex = (if py_startswith host ''www.'' then drop 4 host else host)
                in Inr [host, apex, ''*.'' @ apex]))"

definition PROVIDER_HOST_ALLOWLIST :: "(string \<times> string list) list" where
  "PROVIDER_HOST_ALLOWLIST =
     [(''granicus'', [''*.granicus.com'']), (''legistar'', [''*.legistar.com'', ''*.granicus.com'']),
      (''swagit'', [''*.swagit.com'', ''*.granicus.com'']),
      (''civicclerk'', [''*.api.civicclerk.com'', ''*.civicclerk.com'']), (''civicplus'', [])]"

definition allowed_hosts_for_city :: "string \<Rightarrow> string \<Rightarrow> exn + string list option" where
  "allowed_hosts_for_city provider website =
     (if provider = ''civicplus'' then bindE (city_domain_patterns website) (\<lambda>patterns. Inr (Some patterns))
      else Inr (map_of PROVIDER_HOST_ALLOWLIST provider))"

fun candidates :: "json \<Rightarrow> string list" where
  "candidates (JStr s) = (if has_scheme s then [s] else [])"
| "candidates (JList vs) = concat (map candidates vs)"
| "candidates (JObj d) = concat (map (\<lambda>kv. candidates (snd kv)) d)"
| "candidates _ = []"

definition iter_source_urls :: "pydict \<Rightarrow> string list" where
  "iter_source_urls source = concat (map (\<lambda>kv. candidates (snd kv)) source)"

fun validate_all :: "string list option \<Rightarrow> string list \<Rightarrow> exn + unit" where
  "validate_all allowed [] = Inr ()"
| "validate_all allowed (url # rest) =
     bindE (validate_source_url url allowed False (\<lambda>_. Inr [])) (\<lambda>_. validate_all allowed rest)"

definition validate_city_sources :: "string \<Rightarrow> pydict \<Rightarrow> string \<Rightarrow> exn + unit" where
  "validate_city_sources provider source website =
     bindE (allowed_hosts_for_city provider website) (\<lambda>allowed. validate_all allowed (iter_source_urls source))"

end
