(* ===== verification/Source_Gate_Properties.thy ===== *)
theory Source_Gate_Properties
  imports Source_Gate
begin

section \<open>What the gate lets through\<close>

text \<open>
  The addresses the gate refuses, as ranges of numbers, what an accepted URL looks like, and the hosts that the
  sources of a city can name.
\<close>

subsection \<open>Networks are ranges\<close>

lemma push_drop_bit: "a AND push_bit k (- 1) = push_bit k (drop_bit k a)" for a :: "'a::len word"
  by (rule bit_word_eqI) (auto simp: bit_simps)

lemma uint_push_drop_bit: "uint (push_bit k (drop_bit k a)) = uint a div 2 ^ k * 2 ^ k" for a :: "'a::len word"
proof -
  have "uint a div 2 ^ k * 2 ^ k \<le> uint a"
    by (simp add: minus_mod_eq_div_mult [symmetric])
  then have "uint a div 2 ^ k * 2 ^ k < 2 ^ LENGTH('a)"
    using uint_lt2p [of a] by (rule le_less_trans)
  then have "take_bit LENGTH('a) (uint a div 2 ^ k * 2 ^ k) = uint a div 2 ^ k * 2 ^ k"
    by (intro take_bit_int_eq_self) (simp add: pos_imp_zdiv_nonneg_iff)
  moreover have "take_bit LENGTH('a) (uint a) = uint a"
    by (simp add: take_bit_int_eq_self)
  ultimately show ?thesis
    by (simp only: unsigned_push_bit_eq unsigned_drop_bit_eq push_bit_eq_mult [of k "_ :: int"]
        drop_bit_eq_div [of k "_ :: int"])
qed

lemma div_eq_range: "0 < d \<Longrightarrow> x div d = q \<longleftrightarrow> q * d \<le> x \<and> x < q * d + d" for x d q :: int
proof -
  assume d: "0 < d"
  have "x - x div d * d = x mod d" and "0 \<le> x mod d" and "x mod d < d"
    using d by (simp_all add: minus_div_mult_eq_mod)
  then show ?thesis
    using int_div_pos_eq [of x d q "x - q * d"] by (auto simp: mult.commute)
qed

lemma in_net_range:
  fixes a :: "'a::len word"
  assumes b: "uint b = q * 2 ^ (LENGTH('a) - n)"
  shows "in_net a (b, n) \<longleftrightarrow> q * 2 ^ (LENGTH('a) - n) \<le> uint a \<and> uint a < q * 2 ^ (LENGTH('a) - n) + 2 ^ (LENGTH('a) - n)"
proof -
  have "in_net a (b, n) \<longleftrightarrow> push_bit (LENGTH('a) - n) (drop_bit (LENGTH('a) - n) a) = b"
    unfolding in_net_def push_drop_bit by simp
  also have "\<dots> \<longleftrightarrow> uint a div 2 ^ (LENGTH('a) - n) = q"
    by (simp add: word_uint_eq_iff uint_push_drop_bit b)
  finally show ?thesis
    by (simp add: div_eq_range)
qed


lemma in_net_iff:
  fixes a :: "'a::len word"
  assumes "uint b mod 2 ^ (LENGTH('a) - n) = 0"
  shows "in_net a (b, n) \<longleftrightarrow> uint b \<le> uint a \<and> uint a < uint b + 2 ^ (LENGTH('a) - n)"
  using in_net_range [of b "uint b div 2 ^ (LENGTH('a) - n)" n a] assms
  by (simp add: minus_mod_eq_div_mult [symmetric])

text \<open>The refused addresses of IPv4, and those of IPv6 that are let through, from the first to the last.\<close>

definition in_ranges :: "int \<Rightarrow> (int \<times> int) list \<Rightarrow> bool" where
  "in_ranges x rs \<longleftrightarrow> list_ex (\<lambda>(low, high). low \<le> x \<and> x \<le> high) rs"

definition dotted :: "int \<Rightarrow> int \<Rightarrow> int \<Rightarrow> int \<Rightarrow> int" where
  "dotted a b c d = ((a * 256 + b) * 256 + c) * 256 + d"

definition refused_v4 :: "(int \<times> int) list" where
  "refused_v4 =
     [(dotted 0 0 0 0, dotted 0 255 255 255), (dotted 10 0 0 0, dotted 10 255 255 255),
      (dotted 100 64 0 0, dotted 100 127 255 255), (dotted 127 0 0 0, dotted 127 255 255 255),
      (dotted 169 254 0 0, dotted 169 254 255 255), (dotted 172 16 0 0, dotted 172 31 255 255),
      (dotted 192 0 0 0, dotted 192 0 0 8), (dotted 192 0 0 11, dotted 192 0 0 255),
      (dotted 192 0 2 0, dotted 192 0 2 255), (dotted 192 168 0 0, dotted 192 168 255 255),
      (dotted 198 18 0 0, dotted 198 19 255 255), (dotted 198 51 100 0, dotted 198 51 100 255),
      (dotted 203 0 113 0, dotted 203 0 113 255), (dotted 224 0 0 0, dotted 255 255 255 255)]"

lemma refused_v4_ranges:
  "is_private_v4 a \<or> is_special_v4 a \<or> in_net a shared_address_space \<longleftrightarrow> in_ranges (uint a) refused_v4"
proof -
  have "0 \<le> uint a" and "uint a < 4294967296" and "a = 0 \<longleftrightarrow> uint a = 0"
    using uint_lt2p [of a] by (simp_all add: word_uint_eq_iff)
  then show ?thesis
    by (simp add: is_private_v4_def is_special_v4_def private_v4_def private_v4_exceptions_def quad_def
        shared_address_space_def in_net_iff in_ranges_def refused_v4_def dotted_def)
      (smt (verit))
qed


text \<open>The first number of the networks whose first three groups are given.\<close>

definition grouped :: "int \<Rightarrow> int \<Rightarrow> int \<Rightarrow> int" where
  "grouped a b c = ((a * 65536 + b) * 65536 + c) * 2 ^ 80"

definition accepted_v6 :: "(int \<times> int) list" where
  "accepted_v6 =
     [(grouped 0x2000 0 0, grouped 0x2001 0 0 - 1), (grouped 0x2001 1 0 + 1, grouped 0x2001 1 0 + 2),
      (grouped 0x2001 3 0, grouped 0x2001 4 0 - 1), (grouped 0x2001 4 0x112, grouped 0x2001 4 0x113 - 1),
      (grouped 0x2001 0x20 0, grouped 0x2001 0x40 0 - 1), (grouped 0x2001 0x200 0, grouped 0x2001 0xdb8 0 - 1),
      (grouped 0x2001 0xdb9 0, grouped 0x2002 0 0 - 1), (grouped 0x2003 0 0, grouped 0x3fff 0 0 - 1),
      (grouped 0x3fff 0x1000 0, grouped 0x4000 0 0 - 1), (grouped 0xfec0 0 0, grouped 0xff00 0 0 - 1)]"

lemma zero_groups:
  "replicate 2 (0::int) = [0, 0]" "replicate 3 (0::int) = [0, 0, 0]" "replicate 4 (0::int) = [0, 0, 0, 0]"
  "replicate 5 (0::int) = [0, 0, 0, 0, 0]" "replicate 6 (0::int) = [0, 0, 0, 0, 0, 0]"
  "replicate 7 (0::int) = [0, 0, 0, 0, 0, 0, 0]"
  by (simp_all add: numeral_eq_Suc)

lemma accepted_v6_ranges: "\<not> is_special_v6 a \<longleftrightarrow> in_ranges (uint a) accepted_v6"
proof -
  have "0 \<le> uint a" and "uint a < 340282366920938463463374607431768211456" and "a = 0 \<longleftrightarrow> uint a = 0" and "a = 1 \<longleftrightarrow> uint a = 1"
    using uint_lt2p [of a] by (simp_all add: word_uint_eq_iff)
  then show ?thesis
    by (simp add: is_special_v6_def private_v6_def private_v6_exceptions_def reserved_v6_def groups_def zero_groups
        in_net_iff in_ranges_def accepted_v6_def grouped_def)
      (smt (verit))
qed


text \<open>The addresses a build may fetch from; an IPv6 address that maps an IPv4 one is judged by the latter.\<close>

definition fetchable :: "ip \<Rightarrow> bool" where
  "fetchable ip =
     (case ip of
        V4 a \<Rightarrow> \<not> in_ranges (uint a) refused_v4
      | V6 a \<Rightarrow>
          if uint a div 2 ^ 32 = 0xffff then \<not> in_ranges (uint a mod 2 ^ 32) refused_v4
          else in_ranges (uint a) accepted_v6)"

lemma mapped_prefix: "drop_bit 32 a = 0xffff \<longleftrightarrow> uint a div 2 ^ 32 = 0xffff" for a :: "128 word"
  by (simp add: word_uint_eq_iff drop_bit_eq_div uint_div_distrib)

lemma mapped_number: "uint (ucast a :: 32 word) = uint a mod 2 ^ 32" for a :: "128 word"
  by (simp add: unsigned_ucast_eq take_bit_eq_mod)

lemma blocked_ip: "is_blocked_ip ip \<longleftrightarrow> \<not> fetchable ip"
  unfolding is_blocked_ip_def ipv4_mapped_def fetchable_def mapped_prefix
  by (cases ip) (auto simp: mapped_number refused_v4_ranges accepted_v6_ranges [symmetric])

lemma check_addresses_all:
  "check_addresses ss = Inr () \<longleftrightarrow>
     list_all (\<lambda>s. case ip_address s of None \<Rightarrow> False | Some ip \<Rightarrow> fetchable ip) ss"
  by (induction ss) (auto simp: blocked_ip split: option.splits)

text \<open>
  C29: A URL passes the gate of a fetch exactly when its scheme is https, it names a host (one that matches the allowed
  patterns, if there are any), the host resolves, and every address it resolves to is read and fetchable: outside the
  private, shared, loopback, link-local, multicast and reserved ranges, which are given here as ranges of numbers where the
  code masks words, also behind an IPv6 address that maps such an address.
\<close>

theorem accepted_url_is_public:
  "validate_source_url url allowed True resolver = Inr () \<longleftrightarrow>
     (\<exists>host addresses. has_scheme url \<and> url_scheme url = ''https'' \<and> url_hostname url = Inr host \<and> host \<noteq> '''' \<and>
        (case allowed of None \<Rightarrow> True | Some patterns \<Rightarrow> host_allowed host patterns) \<and>
        resolver host = Inr addresses \<and>
        list_all (\<lambda>s. case ip_address s of None \<Rightarrow> False | Some ip \<Rightarrow> fetchable ip) addresses)"
  unfolding validate_source_url_def
  by (auto simp: bindE_Inr check_addresses_all ALLOWED_SCHEMES_def split: option.splits if_splits)

text \<open>The metadata service of a cloud is refused, plain and mapped; the site-local addresses of IPv6 are let through.\<close>

lemma metadata_texts:
  "ip_address ''169.254.169.254'' = Some (V4 (quad 169 254 169 254))"
  "ip_address ''::ffff:169.254.169.254'' = Some (V6 (groups [0, 0, 0, 0, 0, 0xffff, 0xa9fe, 0xa9fe]))"
  "ip_address ''fec0::1'' = Some (V6 (groups [0xfec0, 0, 0, 0, 0, 0, 0, 1]))"
  by code_simp+

lemma metadata_service_refused:
  "\<not> fetchable (V4 (quad 169 254 169 254))"
  "\<not> fetchable (V6 (groups [0, 0, 0, 0, 0, 0xffff, 0xa9fe, 0xa9fe]))"
  by (simp_all add: fetchable_def quad_def groups_def in_ranges_def refused_v4_def dotted_def)

lemma site_local_address_passes: "fetchable (V6 (groups [0xfec0, 0, 0, 0, 0, 0, 0, 1]))"
  by (simp add: fetchable_def groups_def in_ranges_def accepted_v6_def grouped_def)


subsection \<open>The sources of a city\<close>

text \<open>A text that occurs anywhere in a configured value.\<close>

inductive occurs :: "string \<Rightarrow> json \<Rightarrow> bool" where
  "occurs s (JStr s)"
| "v \<in> set vs \<Longrightarrow> occurs s v \<Longrightarrow> occurs s (JList vs)"
| "(k, v) \<in> set d \<Longrightarrow> occurs s v \<Longrightarrow> occurs s (JObj d)"

text \<open>
  A text that is written as a URL, after RFC 3986: a scheme of letters, digits and \<open>+ . -\<close> that begins with a
  letter, then \<open>://\<close>.
\<close>

definition ascii_letters :: string where
  "ascii_letters = ''abcdefghijklmnopqrstuvwxyzABCDEFGHIJKLMNOPQRSTUVWXYZ''"

definition written_as_url :: "string \<Rightarrow> bool" where
  "written_as_url s \<longleftrightarrow>
     (\<exists>first scheme rest. s = first # scheme @ ''://'' @ rest \<and> first \<in> set ascii_letters \<and>
        set scheme \<subseteq> set ascii_letters \<union> set ''0123456789+.-'')"

lemma scheme_letters:
  "c \<in> set ascii_letters \<Longrightarrow> is_alpha c \<and> scheme_char c"
  "c \<in> set ''0123456789+.-'' \<Longrightarrow> scheme_char c"
  "\<not> scheme_char CHR '':''"
proof -
  have "list_all is_alpha ascii_letters"
    unfolding ascii_letters_def by (simp add: is_alpha_def lower_char_def)
  then show "c \<in> set ascii_letters \<Longrightarrow> is_alpha c \<and> scheme_char c"
    unfolding list_all_iff scheme_char_def by blast
  have "list_all (\<lambda>c. is_digit c \<or> c \<in> set ''+.-'') ''0123456789+.-''"
    by (simp add: is_digit_def)
  then show "c \<in> set ''0123456789+.-'' \<Longrightarrow> scheme_char c"
    unfolding list_all_iff scheme_char_def by blast
  show "\<not> scheme_char CHR '':''"
    by (simp add: scheme_char_def is_alpha_def lower_char_def is_digit_def)
qed

lemma written_has_scheme: "written_as_url s \<Longrightarrow> has_scheme s"
proof -
  assume "written_as_url s"
  then obtain first scheme rest where s: "s = first # scheme @ ''://'' @ rest" and first: "first \<in> set ascii_letters"
    and scheme: "set scheme \<subseteq> set ascii_letters \<union> set ''0123456789+.-''"
    by (auto simp: written_as_url_def)
  have "scheme_char c" if "c \<in> set scheme" for c
    using scheme scheme_letters(1,2) that by blast
  then have "dropWhile scheme_char (scheme @ ''://'' @ rest) = ''://'' @ rest"
    by (subst dropWhile_append2) (simp_all add: scheme_letters(3))
  then show ?thesis
    using scheme_letters(1) [OF first] by (simp add: has_scheme_def s py_startswith_def)
qed

lemma https_prefix:
  assumes "has_scheme url" and "url_scheme url = ''https''"
  shows "py_startswith (py_lower url) ''https://''"
proof -
  let ?d = "dropWhile scheme_char url"
  have "py_lower url = py_lower (takeWhile scheme_char url) @ py_lower ?d"
    by (simp add: py_lower_def flip: map_append)
  moreover have "take 3 ?d = ''://''"
    using assms(1) by (simp add: has_scheme_def py_startswith_def numeral_3_eq_3)
  then have "py_lower (take 3 ?d @ drop 3 ?d) = ''://'' @ py_lower (drop 3 ?d)"
    by (simp only: py_lower_def map_append) (simp add: lower_char_def)
  ultimately show ?thesis
    using assms(2) by (simp add: url_scheme_def py_startswith_def)
qed

lemma occurs_candidates: "occurs url v \<Longrightarrow> written_as_url url \<Longrightarrow> url \<in> set (candidates v)"
  by (induction rule: occurs.induct) (force simp: written_has_scheme)+

lemma validate_all_mem:
  "validate_all allowed urls = Inr () \<Longrightarrow> url \<in> set urls \<Longrightarrow>
     validate_source_url url allowed False (\<lambda>_. Inr []) = Inr ()"
  by (induction urls) (auto simp: bindE_Inr)

lemma glob_literal: "CHR ''*'' \<notin> set p \<Longrightarrow> CHR ''?'' \<notin> set p \<Longrightarrow> glob p s \<longleftrightarrow> s = p"
  by (induction p s rule: glob.induct) auto

lemma glob_suffix:
  assumes "CHR ''*'' \<notin> set q" and "CHR ''?'' \<notin> set q"
  shows "glob (CHR ''*'' # q) s \<Longrightarrow> \<exists>p. s = p @ q"
proof (induction s)
  case Nil
  then show ?case
    using assms by (simp add: glob_literal)
next
  case (Cons x s)
  then show ?case
    using assms by (auto simp: glob_literal intro: exI [of _ "_ # _"] exI [of _ "[]"])
qed

lemma allowlist_patterns:
  "map_of PROVIDER_HOST_ALLOWLIST provider = Some patterns \<Longrightarrow> pat \<in> set patterns \<Longrightarrow>
     \<exists>q. py_lower pat = CHR ''*'' # q \<and> drop 1 pat = q \<and> CHR ''*'' \<notin> set q \<and> CHR ''?'' \<notin> set q"
  by (auto simp: PROVIDER_HOST_ALLOWLIST_def py_lower_def lower_char_def split: if_splits)

text \<open>
  C30: When the sources of a city of a provider with an allowlist of its own pass the gate at load time, every text in
  them that is written as a URL (a scheme as RFC 3986 has it, then \<open>://\<close>), however deeply nested, begins with \<open>https://\<close>
  in some spelling of the case, and its host ends with the domain of one of the provider's patterns, dot included. A URL
  that does not begin its text, as after a blank, is not one the gate looks at (\<open>padded_url_is_not_checked\<close>).
\<close>

theorem city_urls_stay_on_provider_hosts:
  assumes "validate_city_sources provider source website = Inr ()" and "provider \<noteq> ''civicplus''"
    and "map_of PROVIDER_HOST_ALLOWLIST provider = Some patterns"
    and "(key, v) \<in> set source" and "occurs url v" and "written_as_url url"
  shows "url_scheme url = ''https'' \<and> py_startswith (py_lower url) ''https://'' \<and>
    (\<exists>host p pat. url_hostname url = Inr host \<and> pat \<in> set patterns \<and> host = p @ drop 1 pat)"
proof -
  have "url \<in> set (iter_source_urls source)"
    using occurs_candidates assms(4-6) by (force simp: iter_source_urls_def)
  then have "validate_source_url url (Some patterns) False (\<lambda>_. Inr []) = Inr ()"
    using assms(1-3) by (auto simp: validate_city_sources_def allowed_hosts_for_city_def intro: validate_all_mem)
  then obtain host pat where "url_scheme url = ''https''" and host: "url_hostname url = Inr host"
    and pat: "pat \<in> set patterns" "glob (py_lower pat) host"
    by (auto simp: validate_source_url_def bindE_Inr ALLOWED_SCHEMES_def host_allowed_def list_ex_iff split: if_splits)
  moreover have "py_startswith (py_lower url) ''https://''"
    by (rule https_prefix [OF written_has_scheme [OF assms(6)] \<open>url_scheme url = ''https''\<close>])
  moreover obtain p where "host = p @ drop 1 pat"
    using allowlist_patterns [OF assms(3) pat(1)] pat(2) glob_suffix by metis
  ultimately show ?thesis
    by blast
qed

definition demo_feeds :: pydict where
  "demo_feeds = [(''body'', JStr ''Council''), (''feed_urls'', JList [JStr ''https://Austin.granicus.com/ViewPublisher.php'']) ]"

theorem city_urls_stay_on_provider_hosts_witness:
  "\<exists>host p. url_hostname ''https://Austin.granicus.com/ViewPublisher.php'' = Inr host \<and> host = p @ ''.granicus.com''"
proof -
  have "validate_city_sources ''granicus'' demo_feeds '''' = Inr ()"
    by code_simp
  moreover have "map_of PROVIDER_HOST_ALLOWLIST ''granicus'' = Some [''*.granicus.com'']"
    by (simp add: PROVIDER_HOST_ALLOWLIST_def)
  moreover have "occurs ''https://Austin.granicus.com/ViewPublisher.php'' (JList [JStr ''https://Austin.granicus.com/ViewPublisher.php''])"
    by (auto intro: occurs.intros)
  moreover have "written_as_url ''https://Austin.granicus.com/ViewPublisher.php''"
    unfolding written_as_url_def
    by (intro exI [of _ "CHR ''h''"] exI [of _ "''ttps''"] exI [of _ "''Austin.granicus.com/ViewPublisher.php''"])
      (simp add: ascii_letters_def)
  ultimately show ?thesis
    using city_urls_stay_on_provider_hosts [of "''granicus''" demo_feeds "''''" "[''*.granicus.com'']" "''feed_urls''"]
    by (auto simp: demo_feeds_def)
qed

text \<open>A blank before the URL hides it from the gate: the text has no scheme, so it is not taken for a URL.\<close>

lemma padded_url_is_not_checked:
  "validate_city_sources ''granicus'' [(''feed_url'', JStr '' https://example.org/feed'')] '''' = Inr ()"
  by code_simp

end
