(* ===== verification/Range_Download.thy ===== *)
theory Range_Download
  imports Source_Gate
begin

section \<open>Downloads by byte ranges (granicus\_chunked.py)\<close>

text \<open>
  The client side of the authenticated proxy: exact ranges one after the other, each staged before it is appended, and one
  whole download when the server ignores ranges. The server is an argument that answers the n-th request, the stop flag
  one that answers the n-th poll; both may say anything. A byte is a \<open>char\<close>. The locks of the host limiter are left out.
\<close>

type_synonym octets = string

datatype fetch_error =
    ChunkedDownloadError
  | RangeUnsupported
  | RequestException
  | DownloadStopped
  | BadArgument
  | GateError exn

record response =
  rp_status :: int
  rp_content_length :: "string option"
  rp_content_range :: "string option"
  rp_chunks :: "octets list"
  rp_broken :: bool

text \<open>A request fails, or is answered; a body may break off (\<open>rp_broken\<close>) after the chunks that arrived.\<close>

datatype reply = NoReply | Reply response

record session =
  ss_server :: "nat \<Rightarrow> (int \<times> int) option \<Rightarrow> reply"
  ss_stop :: "(nat \<Rightarrow> bool) option"

text \<open>What has happened on the wire, and the bytes of the destination file.\<close>

record wire =
  wr_requests :: nat
  wr_polls :: nat
  wr_file :: octets

definition DEFAULT_CHUNK_BYTES :: int where "DEFAULT_CHUNK_BYTES = 16 * 1024 * 1024"
definition RANGE_ATTEMPTS :: nat where "RANGE_ATTEMPTS = 2"
definition TRANSIENT_RANGE_STATUSES :: "int list" where
  "TRANSIENT_RANGE_STATUSES = [408, 425, 429, 500, 502, 503, 504]"

definition positive_int :: "string option \<Rightarrow> int option" where
  "positive_int value =
     (case value of
        None \<Rightarrow> None
      | Some s \<Rightarrow> (case py_int_of_str s of None \<Rightarrow> None | Some n \<Rightarrow> if 0 \<le> n then Some n else None))"

definition octet_count :: "octets \<Rightarrow> int" where "octet_count bs = int (length bs)"

text \<open>\<open>b[:n]\<close>.\<close>

definition py_prefix :: "int \<Rightarrow> octets \<Rightarrow> octets" where
  "py_prefix n bs = (if n < 0 then take (nat (octet_count bs + n)) bs else take (nat n) bs)"

text \<open>\<open>_CONTENT_RANGE_RE\<close> on the stripped header: first byte, last byte and total, \<open>None\<close> for \<open>*\<close>.\<close>

definition parse_content_range :: "string \<Rightarrow> (int \<times> int \<times> int option) option" where
  "parse_content_range s =
     (let rest = drop 5 s; spec = dropWhile is_space rest
      in if py_lower (take 5 s) \<noteq> ''bytes'' \<or> rest = spec then None
         else case split_on CHR ''-'' spec of
           [a, bt] \<Rightarrow>
             (case split_on CHR ''/'' bt of
                [b, t] \<Rightarrow>
                  (case (unsigned_digits a, unsigned_digits b) of
                     (Some lo, Some hi) \<Rightarrow>
                       if t = ''*'' then Some (lo, hi, None)
                       else map_option (\<lambda>total. (lo, hi, Some total)) (unsigned_digits t)
                   | _ \<Rightarrow> None)
              | _ \<Rightarrow> None)
         | _ \<Rightarrow> None)"

subsection \<open>One body\<close>

text \<open>The bytes written, how many polls of the stop flag it took, and what was written to the destination.\<close>

type_synonym streamed = "(fetch_error + int) \<times> octets \<times> nat"

definition finish_stream :: "int option \<Rightarrow> int option \<Rightarrow> int \<Rightarrow> octets \<Rightarrow> nat \<Rightarrow> streamed" where
  "finish_stream expected max_download written out polls =
     (if max_download = Some written then (Inr written, out, polls)
      else if (case expected of None \<Rightarrow> False | Some n \<Rightarrow> written \<noteq> n) then (Inl ChunkedDownloadError, out, polls)
      else (Inr written, out, polls))"

definition exceeds :: "int \<Rightarrow> int option \<Rightarrow> bool" where
  "exceeds n limit = (case limit of None \<Rightarrow> False | Some m \<Rightarrow> m < n)"

definition polled :: "session \<Rightarrow> nat \<Rightarrow> nat" where
  "polled ss polls = (case ss_stop ss of None \<Rightarrow> polls | Some _ \<Rightarrow> Suc polls)"

definition stopped :: "session \<Rightarrow> nat \<Rightarrow> bool" where
  "stopped ss polls = (case ss_stop ss of None \<Rightarrow> False | Some stop \<Rightarrow> stop polls)"

fun stream_chunks ::
  "session \<Rightarrow> int option \<Rightarrow> int option \<Rightarrow> int option \<Rightarrow> bool \<Rightarrow> octets list \<Rightarrow> int \<Rightarrow> octets \<Rightarrow> nat \<Rightarrow> streamed" where
  "stream_chunks ss expected max_bytes max_download broken [] written out polls =
     (if broken then (Inl RequestException, out, polls)
      else finish_stream expected max_download written out polls)"
| "stream_chunks ss expected max_bytes max_download broken (chunk # rest) written out polls =
     (if stopped ss polls then (Inl DownloadStopped, out, polled ss polls)
      else if chunk = [] then
        stream_chunks ss expected max_bytes max_download broken rest written out (polled ss polls)
      else if exceeds (written + octet_count chunk) max_download then
        let allowed = the max_download - written
        in finish_stream expected max_download (written + allowed) (out @ py_prefix allowed chunk) (polled ss polls)
      else if exceeds (written + octet_count chunk) expected \<or> exceeds (written + octet_count chunk) max_bytes then
        (Inl ChunkedDownloadError, out, polled ss polls)
      else if max_download = Some (written + octet_count chunk) then
        (Inr (written + octet_count chunk), out @ chunk, polled ss polls)
      else
        stream_chunks ss expected max_bytes max_download broken rest (written + octet_count chunk) (out @ chunk)
          (polled ss polls))"

definition stream_response ::
  "session \<Rightarrow> response \<Rightarrow> int option \<Rightarrow> int option \<Rightarrow> int option \<Rightarrow> nat \<Rightarrow> streamed" where
  "stream_response ss rp expected max_bytes max_download polls =
     (if 400 \<le> rp_status rp \<and> rp_status rp < 600 then (Inl RequestException, [], polls)
      else stream_chunks ss expected max_bytes max_download (rp_broken rp) (rp_chunks rp) 0 [] polls)"

subsection \<open>The whole object\<close>

definition download_full ::
  "session \<Rightarrow> int option \<Rightarrow> int option \<Rightarrow> wire \<Rightarrow> (fetch_error + int) \<times> wire" where
  "download_full ss max_bytes max_download w =
     (let w' = w\<lparr>wr_requests := Suc (wr_requests w)\<rparr>
      in case ss_server ss (wr_requests w) None of
        NoReply \<Rightarrow> (Inl RequestException, w')
      | Reply rp \<Rightarrow>
          if rp_status rp \<noteq> 200 then (Inl ChunkedDownloadError, w')
          else
            let advertised = positive_int (rp_content_length rp)
            in if (case advertised of None \<Rightarrow> False | Some n \<Rightarrow> exceeds n max_bytes) then (Inl ChunkedDownloadError, w')
               else
                 (case stream_response ss rp advertised max_bytes max_download (wr_polls w') of
                    (r, out, polls) \<Rightarrow> (r, w'\<lparr>wr_polls := polls, wr_file := out\<rparr>)))"

subsection \<open>Range by range\<close>

text \<open>The position, and \<open>total\<close> and \<open>target_bytes\<close>, which the code sets together.\<close>

record progress =
  pg_start :: int
  pg_sizes :: "(int \<times> int) option"

text \<open>The checks on a 206 reply: its last byte, and the sizes the loop goes on with.\<close>

definition check_range ::
  "int option \<Rightarrow> int option \<Rightarrow> int \<Rightarrow> response \<Rightarrow> progress \<Rightarrow> fetch_error + int \<times> progress" where
  "check_range max_bytes max_download last_byte rp pg =
     (case parse_content_range (py_strip (case rp_content_range rp of None \<Rightarrow> '''' | Some h \<Rightarrow> h)) of
        None \<Rightarrow> Inl ChunkedDownloadError
      | Some (_, _, None) \<Rightarrow> Inl ChunkedDownloadError
      | Some (lo, hi, Some sz) \<Rightarrow>
          if lo \<noteq> pg_start pg \<or> hi < lo then Inl ChunkedDownloadError
          else
            (case pg_sizes pg of
               None \<Rightarrow>
                 if exceeds sz max_bytes then Inl ChunkedDownloadError
                 else if hi \<noteq> min last_byte (sz - 1) then Inl ChunkedDownloadError
                 else Inr (hi, pg\<lparr>pg_sizes := Some (sz, case max_download of None \<Rightarrow> sz | Some m \<Rightarrow> min sz m)\<rparr>)
             | Some (known, _) \<Rightarrow>
                 if known \<noteq> sz then Inl ChunkedDownloadError
                 else if hi \<noteq> min last_byte (known - 1) then Inl ChunkedDownloadError
                 else Inr (hi, pg)))"

text \<open>
  One attempt: to be tried again with an error (a failed request, a transient status, a broken body; the sizes of a reply
  stay known), failed for good, or the range is appended.
\<close>

datatype attempt = Again fetch_error progress wire | Failed fetch_error wire | Appended progress wire

definition range_attempt ::
  "session \<Rightarrow> int option \<Rightarrow> int option \<Rightarrow> int \<Rightarrow> progress \<Rightarrow> wire \<Rightarrow> attempt" where
  "range_attempt ss max_bytes max_download last_byte pg w =
     (let w' = w\<lparr>wr_requests := Suc (wr_requests w)\<rparr>
      in case ss_server ss (wr_requests w) (Some (pg_start pg, last_byte)) of
        NoReply \<Rightarrow> Again RequestException pg w'
      | Reply rp \<Rightarrow>
          if rp_status rp = 200 then Failed RangeUnsupported w'
          else if rp_status rp \<in> set TRANSIENT_RANGE_STATUSES then Again ChunkedDownloadError pg w'
          else if rp_status rp \<noteq> 206 then Failed ChunkedDownloadError w'
          else
            (case check_range max_bytes max_download last_byte rp pg of
               Inl e \<Rightarrow> Failed e w'
             | Inr (hi, pg') \<Rightarrow>
                 (case stream_response ss rp (Some (hi - pg_start pg' + 1)) None None (wr_polls w') of
                    (Inr received, staged, polls) \<Rightarrow>
                      Appended (pg'\<lparr>pg_start := pg_start pg' + received\<rparr>)
                        (w'\<lparr>wr_polls := polls, wr_file := wr_file w' @ staged\<rparr>)
                  | (Inl e, staged, polls) \<Rightarrow>
                      if e = RequestException then Again e pg' (w'\<lparr>wr_polls := polls\<rparr>)
                      else Failed e (w'\<lparr>wr_polls := polls\<rparr>))))"

fun range_attempts ::
  "session \<Rightarrow> int option \<Rightarrow> int option \<Rightarrow> int \<Rightarrow> nat \<Rightarrow> progress \<Rightarrow> wire \<Rightarrow> (fetch_error + progress) \<times> wire" where
  "range_attempts ss max_bytes max_download last_byte 0 pg w = (Inr pg, w)"
| "range_attempts ss max_bytes max_download last_byte (Suc left) pg w =
     (case range_attempt ss max_bytes max_download last_byte pg w of
        Again e pg' w' \<Rightarrow>
          if left = 0 then (Inl e, w') else range_attempts ss max_bytes max_download last_byte left pg' w'
      | Failed e w' \<Rightarrow> (Inl e, w')
      | Appended pg' w' \<Rightarrow> (Inr pg', w'))"

subsubsection \<open>Every range moves on\<close>

lemma finish_exact: "finish_stream (Some n) None written out polls = (Inr m, out', polls') \<Longrightarrow> m = n"
  by (auto simp: finish_stream_def split: if_splits)

lemma stream_exact:
  "stream_chunks ss (Some n) max_bytes None broken cs written out polls = (Inr m, out', polls') \<Longrightarrow> m = n"
  by (induction ss "Some n" max_bytes "None :: int option" broken cs written out polls rule: stream_chunks.induct)
    (auto simp: exceeds_def Let_def dest: finish_exact split: if_splits)

lemma response_exact: "stream_response ss rp (Some n) max_bytes None polls = (Inr m, out, polls') \<Longrightarrow> m = n"
  by (auto simp: stream_response_def dest: stream_exact split: if_splits)

text \<open>Sizes that are known do not change.\<close>

definition sizes_kept :: "progress \<Rightarrow> progress \<Rightarrow> bool" where
  "sizes_kept pg pg' \<longleftrightarrow> pg_sizes pg = None \<or> pg_sizes pg' = pg_sizes pg"

lemma check_range_facts:
  "check_range max_bytes max_download last_byte rp pg = Inr (hi, pg') \<Longrightarrow>
     pg_start pg \<le> hi \<and> hi \<le> last_byte \<and> pg_start pg' = pg_start pg \<and> pg_sizes pg' \<noteq> None \<and> sizes_kept pg pg' \<and>
     hi < fst (the (pg_sizes pg'))"
  by (auto simp: check_range_def sizes_kept_def split: option.splits if_splits prod.splits)

definition moved :: "int \<Rightarrow> progress \<Rightarrow> progress \<Rightarrow> bool" where
  "moved last_byte pg pg' \<longleftrightarrow>
     pg_start pg < pg_start pg' \<and> pg_start pg' \<le> last_byte + 1 \<and> pg_sizes pg' \<noteq> None \<and> sizes_kept pg pg' \<and>
     pg_start pg' \<le> fst (the (pg_sizes pg'))"

lemma range_attempt_moves:
  "case range_attempt ss max_bytes max_download last_byte pg w of
     Again e pg' w' \<Rightarrow> pg_start pg' = pg_start pg \<and> sizes_kept pg pg' \<and> wr_file w' = wr_file w
   | Failed e w' \<Rightarrow> wr_file w' = wr_file w
   | Appended pg' w' \<Rightarrow> moved last_byte pg pg'"
  by (auto simp: range_attempt_def Let_def sizes_kept_def moved_def split: reply.splits sum.splits prod.splits
      dest!: check_range_facts response_exact)

lemma moved_again: "sizes_kept pg pg' \<Longrightarrow> pg_start pg' = pg_start pg \<Longrightarrow> moved last_byte pg' pg'' \<Longrightarrow> moved last_byte pg pg''"
  by (auto simp: moved_def sizes_kept_def)

lemma range_attempts_moves:
  "range_attempts ss max_bytes max_download last_byte attempts pg w = (Inr pg', w') \<Longrightarrow> 0 < attempts \<Longrightarrow>
     moved last_byte pg pg'"
proof (induction attempts arbitrary: pg w)
  case (Suc left)
  then show ?case
    using range_attempt_moves [where ss = ss and max_bytes = max_bytes and max_download = max_download and last_byte = last_byte and pg = pg and w = w]
    by (auto split: attempt.splits if_splits intro: moved_again)
qed simp

subsubsection \<open>The loop\<close>

definition last_of :: "int \<Rightarrow> int option \<Rightarrow> progress \<Rightarrow> int" where
  "last_of chunk_bytes max_download pg =
     (let remaining =
        (case pg_sizes pg of
           Some (_, target) \<Rightarrow> Some (target - pg_start pg)
         | None \<Rightarrow> (case max_download of Some m \<Rightarrow> Some (m - pg_start pg) | None \<Rightarrow> None));
        step = (case remaining of None \<Rightarrow> chunk_bytes | Some r \<Rightarrow> min chunk_bytes r)
      in pg_start pg + step - 1)"

definition target_reached :: "progress \<Rightarrow> bool" where
  "target_reached pg \<longleftrightarrow> (case pg_sizes pg of None \<Rightarrow> False | Some (_, target) \<Rightarrow> target \<le> pg_start pg)"

definition sizes_unknown :: "progress \<Rightarrow> nat" where
  "sizes_unknown pg = (case pg_sizes pg of None \<Rightarrow> 1 | Some _ \<Rightarrow> 0)"

definition bytes_left :: "progress \<Rightarrow> nat" where
  "bytes_left pg = (case pg_sizes pg of None \<Rightarrow> 0 | Some (_, target) \<Rightarrow> nat (target - pg_start pg))"

lemma moved_decreases:
  "moved last_byte pg pg' \<Longrightarrow> \<not> target_reached pg \<Longrightarrow>
     sizes_unknown pg' < sizes_unknown pg \<or> sizes_unknown pg' = sizes_unknown pg \<and> bytes_left pg' < bytes_left pg"
  by (auto simp: moved_def sizes_kept_def target_reached_def sizes_unknown_def bytes_left_def split: option.splits prod.splits)

function range_loop ::
  "session \<Rightarrow> int \<Rightarrow> int option \<Rightarrow> int option \<Rightarrow> progress \<Rightarrow> wire \<Rightarrow> (fetch_error + progress) \<times> wire" where
  "range_loop ss chunk_bytes max_bytes max_download pg w =
     (if target_reached pg then (Inr pg, w)
      else
        (case range_attempts ss max_bytes max_download (last_of chunk_bytes max_download pg) RANGE_ATTEMPTS pg w of
           (Inl e, w') \<Rightarrow> (Inl e, w')
         | (Inr pg', w') \<Rightarrow> range_loop ss chunk_bytes max_bytes max_download pg' w'))"
  by pat_completeness auto

termination
  by (relation "measures
      [\<lambda>(ss, chunk_bytes, max_bytes, max_download, pg, w). sizes_unknown pg,
       \<lambda>(ss, chunk_bytes, max_bytes, max_download, pg, w). bytes_left pg]")
    (auto simp: RANGE_ATTEMPTS_def dest!: sym [of "(Inr _, _)"] range_attempts_moves moved_decreases)

declare range_loop.simps [simp del]

definition download_ranges ::
  "session \<Rightarrow> int \<Rightarrow> int option \<Rightarrow> int option \<Rightarrow> wire \<Rightarrow> (fetch_error + int) \<times> wire" where
  "download_ranges ss chunk_bytes max_bytes max_download w =
     (case range_loop ss chunk_bytes max_bytes max_download \<lparr>pg_start = 0, pg_sizes = None\<rparr> (w\<lparr>wr_file := []\<rparr>) of
        (Inl e, w') \<Rightarrow> (Inl e, w')
      | (Inr pg, w') \<Rightarrow>
          (case pg_sizes pg of
             None \<Rightarrow> (Inl ChunkedDownloadError, w')
           | Some (_, expected) \<Rightarrow>
               if pg_start pg \<noteq> expected \<or> octet_count (wr_file w') \<noteq> expected then (Inl ChunkedDownloadError, w')
               else (Inr (octet_count (wr_file w')), w')))"

subsection \<open>A verified download\<close>

text \<open>The URL is validated before the block whose handlers turn errors into \<open>ChunkedDownloadError\<close>.\<close>

definition download_verified ::
  "(string \<Rightarrow> exn + string list) \<Rightarrow> session \<Rightarrow> string \<Rightarrow> int \<Rightarrow> int option \<Rightarrow> int option \<Rightarrow> wire \<Rightarrow>
   (fetch_error + int) \<times> wire" where
  "download_verified resolver ss proxy_url chunk_bytes max_bytes max_download w =
     (if chunk_bytes \<le> 0 then (Inl BadArgument, w)
      else if (case max_download of None \<Rightarrow> False | Some m \<Rightarrow> m \<le> 0) then (Inl BadArgument, w)
      else
        (case validate_source_url proxy_url None True resolver of
           Inl e \<Rightarrow> (Inl (GateError e), w)
         | Inr _ \<Rightarrow>
             (case (case download_ranges ss chunk_bytes max_bytes max_download w of
                      (Inl RangeUnsupported, w') \<Rightarrow> download_full ss max_bytes max_download w'
                    | outcome \<Rightarrow> outcome) of
                (Inl RequestException, w') \<Rightarrow> (Inl ChunkedDownloadError, w')
              | outcome \<Rightarrow> outcome)))"

end
