(* ===== verification/Range_Properties.thy ===== *)
theory Range_Properties
  imports Range_Download Source_Gate_Properties
begin

section \<open>What a verified download yields\<close>

text \<open>
  Against a server that labels its bytes truthfully the file is the object; against any server the caps hold and the number of
  requests is bounded.
\<close>

subsection \<open>One body\<close>

definition prefix_of :: "octets \<Rightarrow> octets \<Rightarrow> bool" where
  "prefix_of bs obj \<longleftrightarrow> (\<exists>rest. obj = bs @ rest)"

lemma octet_count_simps [simp]:
  "octet_count [] = 0" "octet_count (x # xs) = 1 + octet_count xs" "octet_count (xs @ ys) = octet_count xs + octet_count ys"
  "0 \<le> octet_count xs" "octet_count xs = 0 \<longleftrightarrow> xs = []"
  by (auto simp: octet_count_def)

lemma prefix_of_append: "prefix_of (out @ c @ cs) obj \<Longrightarrow> prefix_of ((out @ c) @ cs) obj"
  by simp

lemma prefix_of_part: "prefix_of (out @ c @ cs) obj \<Longrightarrow> prefix_of (out @ py_prefix n c) obj"
  unfolding prefix_of_def py_prefix_def
  by (metis append.assoc append_take_drop_id)

lemma py_prefix_count: "0 \<le> n \<Longrightarrow> n \<le> octet_count c \<Longrightarrow> octet_count (py_prefix n c) = n"
  by (simp add: py_prefix_def octet_count_def)

text \<open>
  What a body leaves behind: a prefix of what the chunks carry, counted, within the limits that apply, and ended where
  it should be if the result is a number.
\<close>

definition limit_of :: "int option \<Rightarrow> int option \<Rightarrow> int option" where
  "limit_of max_bytes max_download = (case max_download of None \<Rightarrow> max_bytes | Some m \<Rightarrow> Some m)"

definition body_ok :: "int option \<Rightarrow> int option \<Rightarrow> int option \<Rightarrow> octets \<Rightarrow> streamed \<Rightarrow> bool" where
  "body_ok expected max_bytes max_download carried s \<longleftrightarrow>
     (case s of (r, out, _) \<Rightarrow>
        prefix_of out carried \<and> \<not> exceeds (octet_count out) (limit_of max_bytes max_download) \<and>
        (case r of
           Inl _ \<Rightarrow> True
         | Inr n \<Rightarrow> n = octet_count out \<and> (max_download = Some n \<or> (case expected of None \<Rightarrow> True | Some e \<Rightarrow> n = e))))"

lemma prefix_of_refl: "prefix_of out (out @ rest)"
  by (simp add: prefix_of_def)

lemma exceeds_iff: "exceeds n limit \<longleftrightarrow> (\<exists>m. limit = Some m \<and> m < n)"
  by (simp add: exceeds_def split: option.splits)

lemma body_ok_error:
  "prefix_of out carried \<Longrightarrow> \<not> exceeds (octet_count out) (limit_of max_bytes max_download) \<Longrightarrow>
     body_ok expected max_bytes max_download carried (Inl e, out, polls)"
  by (simp add: body_ok_def)

lemma body_ok_finish:
  "prefix_of out carried \<Longrightarrow> \<not> exceeds (octet_count out) (limit_of max_bytes max_download) \<Longrightarrow> written = octet_count out \<Longrightarrow>
     body_ok expected max_bytes max_download carried (finish_stream expected max_download written out polls)"
  by (auto simp: body_ok_def finish_stream_def split: option.splits)

lemma stream_body_ok:
  assumes "written = octet_count out" and "\<not> exceeds written (limit_of max_bytes max_download)"
    and "max_download \<noteq> Some written"
  shows "body_ok expected max_bytes max_download (out @ concat cs)
    (stream_chunks ss expected max_bytes max_download broken cs written out polls)"
  using assms
proof (induction cs arbitrary: written out polls)
  case Nil
  then show ?case
    by (auto simp: prefix_of_refl [of out "[]", simplified] intro: body_ok_error body_ok_finish)
next
  case (Cons c cs)
  have out: "prefix_of out (out @ c @ concat cs)" "prefix_of (out @ c) (out @ c @ concat cs)"
    by (simp_all add: prefix_of_def)
  let ?w = "written + octet_count c"
  consider "stopped ss polls" | "\<not> stopped ss polls" "c = []"
    | m where "\<not> stopped ss polls" "c \<noteq> []" "max_download = Some m" "m < ?w"
    | "\<not> stopped ss polls" "c \<noteq> []" "\<not> exceeds ?w max_download" "exceeds ?w expected \<or> exceeds ?w max_bytes"
    | "\<not> stopped ss polls" "c \<noteq> []" "\<not> exceeds ?w max_download" "\<not> exceeds ?w expected" "\<not> exceeds ?w max_bytes"
    using exceeds_iff [of ?w max_download] by blast
  then show ?case
  proof cases
    case 1
    with Cons.prems out show ?thesis
      by (simp add: body_ok_error)
  next
    case 2
    with Cons show ?thesis
      by simp
  next
    case (3 m)
    have count: "octet_count (py_prefix (m - written) c) = m - written"
      using 3 Cons.prems by (intro py_prefix_count) (auto simp: exceeds_def limit_of_def)
    have "prefix_of (out @ py_prefix (m - written) c) (out @ c @ concat cs)"
      by (rule prefix_of_part [where cs = "concat cs"]) (simp add: prefix_of_def)
    with count 3 Cons.prems show ?thesis
      by (auto simp: Let_def exceeds_def limit_of_def intro: body_ok_finish)
  next
    case 4
    with Cons.prems out show ?thesis
      by (auto simp: body_ok_error)
  next
    case 5
    have "\<not> exceeds ?w (limit_of max_bytes max_download)"
      using 5 by (auto simp: limit_of_def split: option.splits)
    then show ?thesis
      using 5 Cons.prems(1) out Cons.IH [of ?w "out @ c"] by (auto simp: body_ok_def)
  qed
qed

lemma response_body_ok:
  "\<not> exceeds 0 (limit_of max_bytes max_download) \<Longrightarrow> max_download \<noteq> Some 0 \<Longrightarrow>
     body_ok expected max_bytes max_download (concat (rp_chunks rp))
       (stream_response ss rp expected max_bytes max_download polls)"
  using stream_body_ok [of 0 "[]"] by (auto simp: stream_response_def intro!: body_ok_error simp: prefix_of_def)


subsection \<open>One range\<close>

text \<open>What the declared range of a reply is.\<close>

definition declared :: "response \<Rightarrow> (int \<times> int \<times> int) option" where
  "declared rp =
     (case parse_content_range (py_strip (case rp_content_range rp of None \<Rightarrow> '''' | Some h \<Rightarrow> h)) of
        Some (lo, hi, Some sz) \<Rightarrow> Some (lo, hi, sz)
      | _ \<Rightarrow> None)"

definition sizes_of :: "int option \<Rightarrow> int option \<Rightarrow> int \<Rightarrow> progress \<Rightarrow> (int \<times> int) option \<Rightarrow> bool" where
  "sizes_of max_bytes max_download sz pg sizes \<longleftrightarrow>
     (case pg_sizes pg of
        None \<Rightarrow> \<not> exceeds sz max_bytes \<and> sizes = Some (sz, case max_download of None \<Rightarrow> sz | Some m \<Rightarrow> min sz m)
      | Some (known, target) \<Rightarrow> known = sz \<and> sizes = pg_sizes pg)"

lemma check_range_declared:
  "check_range max_bytes max_download last_byte rp pg = Inr (hi, pg') \<longleftrightarrow>
     (\<exists>sz. declared rp = Some (pg_start pg, hi, sz) \<and> pg_start pg \<le> hi \<and> hi = min last_byte (sz - 1) \<and>
        sizes_of max_bytes max_download sz pg (pg_sizes pg') \<and> pg_start pg' = pg_start pg)"
  by (auto simp: check_range_def declared_def sizes_of_def not_less split: option.splits prod.splits if_splits)

definition appended ::
  "session \<Rightarrow> int option \<Rightarrow> int option \<Rightarrow> int \<Rightarrow> progress \<Rightarrow> wire \<Rightarrow> progress \<Rightarrow> wire \<Rightarrow> bool" where
  "appended ss max_bytes max_download last_byte pg w pg' w' \<longleftrightarrow>
     (\<exists>n req rp hi sz staged.
        ss_server ss n req = Reply rp \<and> rp_status rp = 206 \<and> declared rp = Some (pg_start pg, hi, sz) \<and>
        pg_start pg \<le> hi \<and> hi = min last_byte (sz - 1) \<and> pg_start pg' = hi + 1 \<and>
        sizes_of max_bytes max_download sz pg (pg_sizes pg') \<and>
        wr_file w' = wr_file w @ staged \<and> prefix_of staged (concat (rp_chunks rp)) \<and> octet_count staged = hi + 1 - pg_start pg)"

definition sizes_step :: "session \<Rightarrow> int option \<Rightarrow> int option \<Rightarrow> progress \<Rightarrow> progress \<Rightarrow> bool" where
  "sizes_step ss max_bytes max_download pg pg' \<longleftrightarrow>
     pg_start pg' = pg_start pg \<and>
     (pg_sizes pg' = pg_sizes pg \<or>
      (\<exists>n req rp lo hi sz. ss_server ss n req = Reply rp \<and> rp_status rp = 206 \<and> declared rp = Some (lo, hi, sz) \<and>
         sizes_of max_bytes max_download sz pg (pg_sizes pg')))"

lemma range_attempt_outcome:
  "case range_attempt ss max_bytes max_download last_byte pg w of
     Again e pg' w' \<Rightarrow>
       wr_file w' = wr_file w \<and> wr_requests w' = Suc (wr_requests w) \<and> e \<noteq> RangeUnsupported \<and>
       sizes_step ss max_bytes max_download pg pg'
   | Failed e w' \<Rightarrow> wr_file w' = wr_file w \<and> wr_requests w' = Suc (wr_requests w)
   | Appended pg' w' \<Rightarrow> wr_requests w' = Suc (wr_requests w) \<and> appended ss max_bytes max_download last_byte pg w pg' w'"
proof (cases "range_attempt ss max_bytes max_download last_byte pg w")
  case (Again e pg' w')
  then show ?thesis
    by (auto simp: range_attempt_def Let_def check_range_declared split: reply.splits sum.splits prod.splits if_splits)
      (auto simp: sizes_step_def)
next
  case (Failed e w')
  then show ?thesis
    by (auto simp: range_attempt_def Let_def split: reply.splits sum.splits prod.splits if_splits)
next
  case (Appended pg' w')
  then obtain rp hi pg1 received staged polls where
    rp: "ss_server ss (wr_requests w) (Some (pg_start pg, last_byte)) = Reply rp" "rp_status rp = 206"
    and range: "check_range max_bytes max_download last_byte rp pg = Inr (hi, pg1)"
    and body: "stream_response ss rp (Some (hi - pg_start pg1 + 1)) None None (wr_polls w) = (Inr received, staged, polls)"
    and eqs: "pg' = pg1\<lparr>pg_start := pg_start pg1 + received\<rparr>"
      "w' = w\<lparr>wr_requests := Suc (wr_requests w), wr_polls := polls, wr_file := wr_file w @ staged\<rparr>"
    by (auto simp: range_attempt_def Let_def split: reply.splits sum.splits prod.splits if_splits)
  have "received = octet_count staged" and "received = hi - pg_start pg1 + 1" and "prefix_of staged (concat (rp_chunks rp))"
    using response_body_ok [of None None "Some (hi - pg_start pg1 + 1)" rp ss "wr_polls w"] body
    by (auto simp: body_ok_def exceeds_def limit_of_def)
  moreover obtain sz where "declared rp = Some (pg_start pg, hi, sz)" "pg_start pg \<le> hi" "hi = min last_byte (sz - 1)"
    "sizes_of max_bytes max_download sz pg (pg_sizes pg1)" "pg_start pg1 = pg_start pg"
    using range unfolding check_range_declared by blast
  ultimately have "appended ss max_bytes max_download last_byte pg w pg' w'"
    unfolding appended_def eqs
    by (intro exI [of _ "wr_requests w"] exI [of _ "Some (pg_start pg, last_byte)"] exI [of _ rp] exI [of _ hi]
        exI [of _ sz] exI [of _ staged]) (simp add: rp)
  then show ?thesis
    unfolding Appended attempt.case eqs by simp
qed


subsection \<open>Laws of the loop\<close>

text \<open>
  A relation between the position and the file that the three things a server can do to them keep: learning the sizes,
  appending a range, nothing.
\<close>

locale range_law =
  fixes ss :: session and max_bytes max_download :: "int option" and related :: "progress \<Rightarrow> octets \<Rightarrow> bool"
  assumes learns: "related pg bs \<Longrightarrow> sizes_step ss max_bytes max_download pg pg' \<Longrightarrow> related pg' bs"
    and grows: "related pg (wr_file w) \<Longrightarrow> \<not> exceeds (last_byte + 1) max_download \<Longrightarrow>
      appended ss max_bytes max_download last_byte pg w pg' w' \<Longrightarrow> related pg' (wr_file w')"
    and within: "related pg bs \<Longrightarrow> pg_sizes pg = Some (t, g) \<Longrightarrow> \<not> exceeds g max_download"
begin

lemma attempts_related:
  "range_attempts ss max_bytes max_download last_byte attempts pg w = (r, w') \<Longrightarrow> related pg (wr_file w) \<Longrightarrow>
     \<not> exceeds (last_byte + 1) max_download \<Longrightarrow>
     (case r of Inr pg' \<Rightarrow> related pg' (wr_file w') | Inl _ \<Rightarrow> \<exists>pg'. related pg' (wr_file w'))"
proof (induction attempts arbitrary: pg w)
  case (Suc left)
  show ?case
  proof (cases "range_attempt ss max_bytes max_download last_byte pg w")
    case (Again e pg' w1)
    then have "related pg' (wr_file w1)"
      using Suc.prems(2) range_attempt_outcome [where ss = ss and max_bytes = max_bytes and max_download = max_download and last_byte = last_byte and pg = pg and w = w] by (auto intro: learns)
    with Again Suc show ?thesis
      by (auto split: if_splits)
  next
    case (Failed e w1)
    with Suc.prems show ?thesis
      using range_attempt_outcome [where ss = ss and max_bytes = max_bytes and max_download = max_download and last_byte = last_byte and pg = pg and w = w] by auto
  next
    case (Appended pg' w1)
    with Suc.prems show ?thesis
      using range_attempt_outcome [where ss = ss and max_bytes = max_bytes and max_download = max_download and last_byte = last_byte and pg = pg and w = w] by (auto intro: grows)
  qed
qed auto

lemma last_within: "related pg bs \<Longrightarrow> \<not> exceeds (last_of chunk_bytes max_download pg + 1) max_download"
  using within [of pg bs] by (auto simp: last_of_def exceeds_iff min_def split: option.splits)

lemma loop_related:
  assumes "range_loop ss chunk_bytes max_bytes max_download pg w = (r, w')" and "related pg (wr_file w)"
  shows "case r of Inr pg' \<Rightarrow> related pg' (wr_file w') \<and> target_reached pg' | Inl _ \<Rightarrow> \<exists>pg'. related pg' (wr_file w')"
proof -
  have "ss' = ss \<Longrightarrow> mb = max_bytes \<Longrightarrow> md = max_download \<Longrightarrow> range_loop ss' cb mb md pg w = (r, w') \<Longrightarrow>
      related pg (wr_file w) \<Longrightarrow>
      (case r of Inr pg' \<Rightarrow> related pg' (wr_file w') \<and> target_reached pg' | Inl _ \<Rightarrow> \<exists>pg'. related pg' (wr_file w'))"
    for ss' cb mb md
  proof (induction ss' cb mb md pg w rule: range_loop.induct)
    case (1 ss' cb mb md pg w)
    obtain r1 w1 where att:
      "range_attempts ss max_bytes max_download (last_of cb max_download pg) RANGE_ATTEMPTS pg w = (r1, w1)"
      by force
    note rel = attempts_related [OF att 1(6) last_within [OF 1(6)]]
    show ?case
      using 1 att rel range_loop.simps [of ss cb max_bytes max_download pg w]
      by (cases r1) (auto split: if_splits)
  qed
  with assms show ?thesis
    by blast
qed

end


subsubsection \<open>The caps\<close>

definition wanted :: "int option \<Rightarrow> int \<Rightarrow> int" where
  "wanted max_download t = (case max_download of None \<Rightarrow> t | Some m \<Rightarrow> min t m)"

text \<open>The file has as many bytes as the position says, no more than the target, and the target respects the caps.\<close>

definition capped :: "int option \<Rightarrow> int option \<Rightarrow> progress \<Rightarrow> octets \<Rightarrow> bool" where
  "capped max_bytes max_download pg bs \<longleftrightarrow>
     octet_count bs = pg_start pg \<and>
     (case pg_sizes pg of
        None \<Rightarrow> pg_start pg = 0
      | Some (t, g) \<Rightarrow> g = wanted max_download t \<and> \<not> exceeds t max_bytes \<and> (pg_start pg = 0 \<or> pg_start pg \<le> g))"

lemma sizes_of_capped:
  "sizes_of max_bytes max_download sz pg sizes \<Longrightarrow> capped max_bytes max_download pg bs \<Longrightarrow>
     sizes = Some (sz, wanted max_download sz) \<and> \<not> exceeds sz max_bytes"
  by (auto simp: sizes_of_def capped_def wanted_def split: option.splits)

lemma capped_learns:
  "capped max_bytes max_download pg bs \<Longrightarrow> sizes_step ss max_bytes max_download pg pg' \<Longrightarrow> capped max_bytes max_download pg' bs"
proof -
  assume c: "capped max_bytes max_download pg bs" and "sizes_step ss max_bytes max_download pg pg'"
  then consider "pg_start pg' = pg_start pg" "pg_sizes pg' = pg_sizes pg"
    | sz where "pg_start pg' = pg_start pg" "sizes_of max_bytes max_download sz pg (pg_sizes pg')"
    unfolding sizes_step_def by blast
  then show ?thesis
  proof cases
    case 2
    with c sizes_of_capped [OF 2(2) c] show ?thesis
      by (auto simp: capped_def sizes_of_def split: option.splits)
  qed (use c in \<open>auto simp: capped_def split: option.splits\<close>)
qed

lemma capped_grows:
  "capped max_bytes max_download pg (wr_file w) \<Longrightarrow> \<not> exceeds (last_byte + 1) max_download \<Longrightarrow>
   appended ss max_bytes max_download last_byte pg w pg' w' \<Longrightarrow> capped max_bytes max_download pg' (wr_file w')"
proof -
  assume c: "capped max_bytes max_download pg (wr_file w)" and last: "\<not> exceeds (last_byte + 1) max_download"
    and "appended ss max_bytes max_download last_byte pg w pg' w'"
  then obtain hi sz staged where hi: "hi = min last_byte (sz - 1)" "pg_start pg' = hi + 1"
    and sizes: "sizes_of max_bytes max_download sz pg (pg_sizes pg')"
    and w': "wr_file w' = wr_file w @ staged" "octet_count staged = hi + 1 - pg_start pg"
    unfolding appended_def by blast
  have "pg_sizes pg' = Some (sz, wanted max_download sz)" "\<not> exceeds sz max_bytes"
    using sizes_of_capped [OF sizes c] by auto
  with c last hi w' show ?thesis
    by (auto simp: capped_def wanted_def exceeds_iff split: option.splits)
qed

interpretation caps: range_law ss max_bytes max_download "capped max_bytes max_download"
proof (unfold_locales, goal_cases)
  case 1
  then show ?case
    by (rule capped_learns)
next
  case 2
  then show ?case
    by (rule capped_grows)
next
  case 3
  then show ?case
    by (auto simp: capped_def wanted_def exceeds_iff split: option.splits)
qed

subsubsection \<open>Truthful servers\<close>

text \<open>
  A server of one object: what it declares as the total is the object's size, what it sends for a range are bytes of the
  object from the declared first one on (perhaps not all of them), and a whole reply gives its length.
\<close>

definition truthful :: "octets \<Rightarrow> session \<Rightarrow> bool" where
  "truthful obj ss \<longleftrightarrow>
     (\<forall>n req rp. ss_server ss n req = Reply rp \<longrightarrow>
        (rp_status rp = 206 \<longrightarrow>
           (case declared rp of
              None \<Rightarrow> True
            | Some (lo, hi, sz) \<Rightarrow> sz = octet_count obj \<and> prefix_of (concat (rp_chunks rp)) (drop (nat lo) obj))) \<and>
        (rp_status rp = 200 \<longrightarrow>
           positive_int (rp_content_length rp) = Some (octet_count obj) \<and> prefix_of (concat (rp_chunks rp)) obj))"

definition copying :: "octets \<Rightarrow> session \<Rightarrow> int option \<Rightarrow> progress \<Rightarrow> octets \<Rightarrow> bool" where
  "copying obj ss max_download pg bs \<longleftrightarrow>
     truthful obj ss \<and> octet_count bs = pg_start pg \<and> prefix_of bs obj \<and>
     (pg_sizes pg = None \<or> pg_sizes pg = Some (octet_count obj, wanted max_download (octet_count obj)))"

lemma truthful_range:
  "truthful obj ss \<Longrightarrow> ss_server ss n req = Reply rp \<Longrightarrow> rp_status rp = 206 \<Longrightarrow> declared rp = Some (lo, hi, sz) \<Longrightarrow>
     sz = octet_count obj \<and> prefix_of (concat (rp_chunks rp)) (drop (nat lo) obj)"
  unfolding truthful_def by fastforce

lemma truthful_whole:
  "truthful obj ss \<Longrightarrow> ss_server ss n req = Reply rp \<Longrightarrow> rp_status rp = 200 \<Longrightarrow>
     positive_int (rp_content_length rp) = Some (octet_count obj) \<and> prefix_of (concat (rp_chunks rp)) obj"
  unfolding truthful_def by blast

lemma sizes_of_copying:
  "sizes_of max_bytes max_download (octet_count obj) pg sizes \<Longrightarrow> copying obj ss max_download pg bs \<Longrightarrow>
     sizes = Some (octet_count obj, wanted max_download (octet_count obj))"
  by (auto simp: sizes_of_def copying_def wanted_def split: option.splits)

lemma prefix_of_trans: "prefix_of a b \<Longrightarrow> prefix_of b c \<Longrightarrow> prefix_of a c"
  by (auto simp: prefix_of_def)

lemma prefix_of_drop: "prefix_of bs obj \<Longrightarrow> prefix_of cs (drop (nat (octet_count bs)) obj) \<Longrightarrow> prefix_of (bs @ cs) obj"
  by (auto simp: prefix_of_def octet_count_def)

lemma copying_learns:
  "copying obj ss max_download pg bs \<Longrightarrow> sizes_step ss max_bytes max_download pg pg' \<Longrightarrow> copying obj ss max_download pg' bs"
proof -
  assume c: "copying obj ss max_download pg bs" and step: "sizes_step ss max_bytes max_download pg pg'"
  have "pg_sizes pg' = pg_sizes pg \<or> pg_sizes pg' = Some (octet_count obj, wanted max_download (octet_count obj))"
    using step c truthful_range [of obj ss] sizes_of_copying [OF _ c] unfolding sizes_step_def copying_def by metis
  with c step show ?thesis
    by (auto simp: copying_def sizes_step_def)
qed

lemma copying_grows:
  "copying obj ss max_download pg (wr_file w) \<Longrightarrow> appended ss max_bytes max_download last_byte pg w pg' w' \<Longrightarrow>
   copying obj ss max_download pg' (wr_file w')"
proof -
  assume c: "copying obj ss max_download pg (wr_file w)" and "appended ss max_bytes max_download last_byte pg w pg' w'"
  then obtain n req rp hi sz staged where rp: "ss_server ss n req = Reply rp" "rp_status rp = 206"
      "declared rp = Some (pg_start pg, hi, sz)"
    and sizes: "sizes_of max_bytes max_download sz pg (pg_sizes pg')" and start: "pg_start pg' = hi + 1"
    and w': "wr_file w' = wr_file w @ staged" "octet_count staged = hi + 1 - pg_start pg"
      "prefix_of staged (concat (rp_chunks rp))"
    unfolding appended_def by blast
  have "sz = octet_count obj" and "prefix_of (concat (rp_chunks rp)) (drop (nat (pg_start pg)) obj)"
    using truthful_range [OF _ rp] c by (auto simp: copying_def)
  with sizes c w' start show ?thesis
    using sizes_of_copying [OF _ c] prefix_of_trans prefix_of_drop by (auto simp: copying_def)
qed

interpretation truth: range_law ss max_bytes max_download "copying obj ss max_download"
proof (unfold_locales, goal_cases)
  case 1
  then show ?case
    by (rule copying_learns)
next
  case 2
  then show ?case
    by (blast intro: copying_grows)
next
  case 3
  then show ?case
    by (auto simp: copying_def wanted_def exceeds_iff split: option.splits)
qed


subsection \<open>Verified downloads\<close>

lemma start_related:
  "capped max_bytes max_download \<lparr>pg_start = 0, pg_sizes = None\<rparr> []"
  "truthful obj ss \<Longrightarrow> copying obj ss max_download \<lparr>pg_start = 0, pg_sizes = None\<rparr> []"
  by (simp_all add: capped_def copying_def prefix_of_def)

lemma capped_file:
  "capped max_bytes max_download pg bs \<Longrightarrow> \<not> exceeds 0 max_bytes \<Longrightarrow> \<not> exceeds 0 max_download \<Longrightarrow>
     \<not> exceeds (octet_count bs) max_bytes \<and> \<not> exceeds (octet_count bs) max_download"
  by (auto simp: capped_def wanted_def exceeds_iff split: option.splits)

lemma ranges_capped:
  assumes "download_ranges ss chunk_bytes max_bytes max_download w = (r, w')"
    and "\<not> exceeds 0 max_bytes" and "\<not> exceeds 0 max_download"
  shows "\<not> exceeds (octet_count (wr_file w')) max_bytes \<and> \<not> exceeds (octet_count (wr_file w')) max_download"
proof -
  obtain q w1 where loop: "range_loop ss chunk_bytes max_bytes max_download \<lparr>pg_start = 0, pg_sizes = None\<rparr>
      (w\<lparr>wr_file := []\<rparr>) = (q, w1)"
    by force
  have "\<exists>pg. capped max_bytes max_download pg (wr_file w1)"
    using caps.loop_related [OF loop] start_related(1) by (auto split: sum.splits)
  moreover have "w' = w1"
    using assms(1) by (auto simp: download_ranges_def loop split: sum.splits option.splits if_splits)
  ultimately show ?thesis
    using capped_file assms(2,3) by blast
qed

lemma full_capped:
  assumes "download_full ss max_bytes max_download w = (r, w')" and "max_download \<noteq> Some 0"
    and "\<not> exceeds 0 (limit_of max_bytes max_download)" and "\<not> exceeds (octet_count (wr_file w)) (limit_of max_bytes max_download)"
  shows "\<not> exceeds (octet_count (wr_file w')) (limit_of max_bytes max_download)"
  using assms response_body_ok [OF assms(3,2)]
  by (fastforce simp: download_full_def Let_def body_ok_def split: reply.splits if_splits prod.splits)

lemma prefix_of_take: "prefix_of bs obj \<Longrightarrow> bs = take (nat (octet_count bs)) obj"
  by (auto simp: prefix_of_def octet_count_def)

lemma prefix_of_count: "prefix_of bs obj \<Longrightarrow> octet_count bs \<le> octet_count obj"
  by (auto simp: prefix_of_def)

lemma ranges_complete:
  assumes "download_ranges ss chunk_bytes max_bytes max_download w = (Inr n, w')" and "truthful obj ss"
  shows "n = wanted max_download (octet_count obj) \<and> wr_file w' = take (nat n) obj"
proof -
  obtain pg where loop: "range_loop ss chunk_bytes max_bytes max_download \<lparr>pg_start = 0, pg_sizes = None\<rparr>
      (w\<lparr>wr_file := []\<rparr>) = (Inr pg, w')"
    and n: "pg_sizes pg \<noteq> None" "pg_start pg = snd (the (pg_sizes pg))" "n = octet_count (wr_file w')"
    using assms(1) by (auto simp: download_ranges_def split: sum.splits prod.splits option.splits if_splits)
  have "copying obj ss max_download pg (wr_file w')"
    using truth.loop_related [OF loop] start_related(2) [OF assms(2)] by auto
  then have "octet_count (wr_file w') = wanted max_download (octet_count obj)" and "prefix_of (wr_file w') obj"
    using n by (simp_all add: copying_def)
  with n(3) show ?thesis
    by (metis prefix_of_take)
qed

lemma full_complete:
  assumes "download_full ss max_bytes max_download w = (Inr n, w')" and "truthful obj ss"
    and "\<not> exceeds 0 (limit_of max_bytes max_download)" and "max_download \<noteq> Some 0"
  shows "n = wanted max_download (octet_count obj) \<and> wr_file w' = take (nat n) obj"
proof -
  obtain rp out polls where rp: "ss_server ss (wr_requests w) None = Reply rp" "rp_status rp = 200"
    and body: "stream_response ss rp (positive_int (rp_content_length rp)) max_bytes max_download (wr_polls w) = (Inr n, out, polls)"
    and out: "wr_file w' = out"
    using assms(1) by (auto simp: download_full_def Let_def split: reply.splits if_splits prod.splits)
  have len: "positive_int (rp_content_length rp) = Some (octet_count obj)" and "prefix_of (concat (rp_chunks rp)) obj"
    using truthful_whole [OF assms(2) rp] by auto
  with response_body_ok [OF assms(3,4), of "Some (octet_count obj)" rp ss "wr_polls w"] body
  have "prefix_of out obj" and "n = octet_count out" and "max_download = Some n \<or> n = octet_count obj"
    and "\<not> exceeds n (limit_of max_bytes max_download)"
    by (auto simp: body_ok_def intro: prefix_of_trans)
  then have "prefix_of out obj" and "n = octet_count out" and "n = wanted max_download (octet_count obj)"
    using prefix_of_count [of out obj] by (auto simp: wanted_def limit_of_def exceeds_iff split: option.splits)
  then show ?thesis
    unfolding out by (metis prefix_of_take)
qed


subsection \<open>How many requests\<close>

lemma attempts_requests:
  "range_attempts ss max_bytes max_download last_byte attempts pg w = (r, w') \<Longrightarrow> wr_requests w' \<le> wr_requests w + attempts"
proof (induction attempts arbitrary: pg w)
  case (Suc left)
  have "wr_requests w1 \<le> Suc (wr_requests w)"
    if "range_attempt ss max_bytes max_download last_byte pg w \<in> {Again e pg1 w1, Failed e w1, Appended pg1 w1}" for e pg1 w1
    using that range_attempt_outcome [where ss = ss and max_bytes = max_bytes and max_download = max_download
        and last_byte = last_byte and pg = pg and w = w] by auto
  then show ?case
    using Suc by (fastforce split: attempt.splits if_splits)
qed simp

text \<open>The last byte asked for is a whole chunk away, or it is the last one wanted.\<close>

definition far_enough :: "int \<Rightarrow> int option \<Rightarrow> int \<Rightarrow> progress \<Rightarrow> bool" where
  "far_enough chunk_bytes max_download last_byte pg \<longleftrightarrow>
     last_byte + 1 = pg_start pg + chunk_bytes \<or> max_download = Some (last_byte + 1) \<or>
     (\<exists>t. pg_sizes pg = Some (t, last_byte + 1))"

lemma last_far_enough: "far_enough chunk_bytes max_download (last_of chunk_bytes max_download pg) pg"
  by (auto simp: far_enough_def last_of_def min_def split: option.splits)

lemma far_enough_step:
  "sizes_step ss max_bytes max_download pg pg' \<Longrightarrow> far_enough chunk_bytes max_download last_byte pg \<Longrightarrow>
     far_enough chunk_bytes max_download last_byte pg'"
  by (auto simp: sizes_step_def sizes_of_def far_enough_def)

lemma sizes_of_known: "sizes_of max_bytes max_download sz pg (Some (a, b)) \<Longrightarrow> pg_sizes pg = Some (t, g) \<Longrightarrow> g = b"
  by (auto simp: sizes_of_def)

lemma appended_far:
  assumes "appended ss max_bytes max_download last_byte pg w pg' w'" and "far_enough chunk_bytes max_download last_byte pg"
    and c: "capped max_bytes max_download pg (wr_file w)"
  shows "pg_start pg' = pg_start pg + chunk_bytes \<or> target_reached pg'"
proof -
  obtain hi sz where hi: "hi = min last_byte (sz - 1)" "pg_start pg' = hi + 1"
    and sizes: "sizes_of max_bytes max_download sz pg (pg_sizes pg')"
    using assms(1) unfolding appended_def by blast
  have new: "pg_sizes pg' = Some (sz, wanted max_download sz)"
    using sizes_of_capped [OF sizes c] by simp
  have old: "pg_sizes pg = Some (t, g) \<Longrightarrow> g = wanted max_download sz" for t g
    using sizes_of_known [OF sizes [unfolded new]] by simp
  have start: "pg_start pg' = min (last_byte + 1) sz"
    unfolding hi by (simp add: min_def)
  consider "last_byte + 1 = pg_start pg + chunk_bytes" | "max_download = Some (last_byte + 1)"
    | t where "pg_sizes pg = Some (t, last_byte + 1)"
    using assms(2) unfolding far_enough_def by blast
  then show ?thesis
  proof cases
    case 1
    with start show ?thesis
      by (cases max_download) (simp_all add: target_reached_def new wanted_def min_def)
  next
    case 2
    with start show ?thesis
      by (simp add: target_reached_def new wanted_def min_def)
  next
    case (3 t)
    from old [OF this] have "wanted max_download sz = last_byte + 1"
      by simp
    moreover have "wanted max_download sz \<le> sz"
      by (simp add: wanted_def split: option.split)
    ultimately show ?thesis
      using start by (simp add: target_reached_def new)
  qed
qed

lemma attempts_far:
  "range_attempts ss max_bytes max_download last_byte attempts pg w = (Inr pg', w') \<Longrightarrow> 0 < attempts \<Longrightarrow>
     far_enough chunk_bytes max_download last_byte pg \<Longrightarrow> capped max_bytes max_download pg (wr_file w) \<Longrightarrow>
     pg_start pg' = pg_start pg + chunk_bytes \<or> target_reached pg'"
proof (induction attempts arbitrary: pg w)
  case (Suc left)
  note out = range_attempt_outcome [where ss = ss and max_bytes = max_bytes and max_download = max_download
      and last_byte = last_byte and pg = pg and w = w]
  show ?case
  proof (cases "range_attempt ss max_bytes max_download last_byte pg w")
    case (Again e pg1 w1)
    then have step: "sizes_step ss max_bytes max_download pg pg1" and "wr_file w1 = wr_file w"
      using out by auto
    moreover have "pg_start pg1 = pg_start pg"
      using step by (simp add: sizes_step_def)
    ultimately show ?thesis
      using Again Suc.prems Suc.IH [of pg1 w1] far_enough_step [OF step] capped_learns [OF _ step]
      by (auto split: if_splits)
  next
    case (Failed e w1)
    with Suc.prems show ?thesis
      by simp
  next
    case (Appended pg1 w1)
    with Suc.prems out show ?thesis
      by (auto dest: appended_far)
  qed
qed simp

definition request_bound :: "int \<Rightarrow> int \<Rightarrow> int \<Rightarrow> nat" where
  "request_bound chunk_bytes limit start = 2 * (nat ((limit - start) div chunk_bytes) + 1)"

lemma request_bound_step:
  "0 < c \<Longrightarrow> s + c \<le> limit \<Longrightarrow> request_bound c limit s = request_bound c limit (s + c) + 2"
proof -
  assume c: "0 < c" "s + c \<le> limit"
  have "(limit - s) div c = (limit - (s + c)) div c + 1"
    using c div_add_self2 [of c "limit - (s + c)"] by (simp add: algebra_simps)
  moreover have "0 \<le> (limit - (s + c)) div c"
    using c by (simp add: pos_imp_zdiv_nonneg_iff)
  ultimately show ?thesis
    by (simp add: request_bound_def nat_add_distrib)
qed

lemma capped_limit:
  "capped max_bytes max_download pg bs \<Longrightarrow> limit_of max_bytes max_download = Some limit \<Longrightarrow> pg_sizes pg \<noteq> None \<Longrightarrow>
     \<not> target_reached pg \<Longrightarrow> pg_start pg \<le> limit"
  by (auto simp: capped_def wanted_def limit_of_def target_reached_def exceeds_iff split: option.splits prod.splits)

lemma loop_requests:
  assumes "range_loop ss chunk_bytes max_bytes max_download pg w = (r, w')" and "0 < chunk_bytes"
    and "capped max_bytes max_download pg (wr_file w)" and "limit_of max_bytes max_download = Some limit"
  shows "wr_requests w' \<le> wr_requests w + request_bound chunk_bytes limit (pg_start pg)"
  using assms
proof (induction ss chunk_bytes max_bytes max_download pg w rule: range_loop.induct)
  case (1 ss chunk_bytes max_bytes max_download pg w)
  obtain r1 w1 where att:
    "range_attempts ss max_bytes max_download (last_of chunk_bytes max_download pg) RANGE_ATTEMPTS pg w = (r1, w1)"
    by force
  have two: "wr_requests w1 \<le> wr_requests w + 2"
    using attempts_requests [OF att] by (simp add: RANGE_ATTEMPTS_def)
  note simp_loop = range_loop.simps [of ss chunk_bytes max_bytes max_download]
  show ?case
  proof (cases "target_reached pg \<or> isl r1")
    case True
    with 1(2) att two show ?thesis
      by (auto simp: simp_loop request_bound_def split: if_splits sum.splits)
  next
    case False
    then obtain pg1 where r1: "r1 = Inr pg1"
      by (cases r1) auto
    have c1: "capped max_bytes max_download pg1 (wr_file w1)"
      using caps.attempts_related [OF att 1(4) caps.last_within [OF 1(4)]] by (simp add: r1)
    have rest: "range_loop ss chunk_bytes max_bytes max_download pg1 w1 = (r, w')"
      using 1(2) False att r1 by (simp add: simp_loop [of pg])
    have far: "pg_start pg1 = pg_start pg + chunk_bytes \<or> target_reached pg1"
      by (rule attempts_far [OF att [unfolded r1] _ last_far_enough 1(4)]) (simp add: RANGE_ATTEMPTS_def)
    show ?thesis
    proof (cases "target_reached pg1")
      case True
      with rest two show ?thesis
        by (auto simp: simp_loop [of pg1] request_bound_def)
    next
      case reached: False
      have "pg_sizes pg1 \<noteq> None"
        using range_attempts_moves [OF att [unfolded r1]] by (simp add: RANGE_ATTEMPTS_def moved_def)
      then have "pg_start pg1 \<le> limit"
        using capped_limit [OF c1 1(5)] reached by simp
      with far reached 1(3) have "request_bound chunk_bytes limit (pg_start pg) = request_bound chunk_bytes limit (pg_start pg1) + 2"
        using request_bound_step [of chunk_bytes "pg_start pg" limit] by simp
      moreover have "wr_requests w' \<le> wr_requests w1 + request_bound chunk_bytes limit (pg_start pg1)"
        using 1(1) False att r1 rest 1(3,5) c1 by simp
      ultimately show ?thesis
        using two by simp
    qed
  qed
qed


subsection \<open>The properties\<close>

lemma verified_Inr:
  assumes "download_verified resolver ss url chunk_bytes max_bytes max_download w = (Inr n, w')"
  shows "0 < chunk_bytes \<and> max_download \<noteq> Some 0 \<and> \<not> exceeds 0 max_download \<and>
    (download_ranges ss chunk_bytes max_bytes max_download w = (Inr n, w') \<or>
     (\<exists>w1. download_full ss max_bytes max_download w1 = (Inr n, w')))"
  using assms by (fastforce simp: download_verified_def exceeds_iff split: if_splits sum.splits prod.splits fetch_error.splits option.splits)

text \<open>
  C31: Against a server that sends what it says it sends, a download that succeeds has written exactly the object, or the
  first bytes of it up to the number asked for, whatever requests failed, were answered with transient errors or broke off
  in the middle on the way, and whether the server knows ranges or not: no byte is missing, none is there twice.
\<close>

theorem verified_download_is_the_object:
  assumes "download_verified resolver ss url chunk_bytes max_bytes max_download w = (Inr n, w')"
    and "truthful obj ss" and "\<not> exceeds 0 max_bytes"
  shows "n = wanted max_download (octet_count obj) \<and> wr_file w' = take (nat n) obj"
proof -
  have "\<not> exceeds 0 (limit_of max_bytes max_download)" and "max_download \<noteq> Some 0"
    using verified_Inr [OF assms(1)] assms(3) by (auto simp: limit_of_def split: option.splits)
  then show ?thesis
    using verified_Inr [OF assms(1)] ranges_complete [OF _ assms(2)] full_complete [OF _ assms(2)] by blast
qed


lemma ranges_wire: "download_ranges ss chunk_bytes max_bytes max_download w = (r, w') \<Longrightarrow>
    \<exists>q. range_loop ss chunk_bytes max_bytes max_download \<lparr>pg_start = 0, pg_sizes = None\<rparr> (w\<lparr>wr_file := []\<rparr>) = (q, w')"
  by (auto simp: download_ranges_def split: sum.splits prod.splits option.splits if_splits)

lemma full_wire: "download_full ss max_bytes max_download w = (r, w') \<Longrightarrow> wr_requests w' = wr_requests w + 1"
  by (auto simp: download_full_def Let_def split: reply.splits prod.splits if_splits)

text \<open>Where a download ends: not begun, after its ranges, or after the whole object that follows them.\<close>

lemma verified_wire:
  assumes "download_verified resolver ss url chunk_bytes max_bytes max_download w = (r, w')"
  shows "w' = w \<or>
    (0 < chunk_bytes \<and> max_download \<noteq> Some 0 \<and> \<not> exceeds 0 max_download \<and>
     (\<exists>q w1. download_ranges ss chunk_bytes max_bytes max_download w = (q, w1) \<and>
        (w' = w1 \<or> (\<exists>q'. download_full ss max_bytes max_download w1 = (q', w')))))"
proof -
  obtain q w1 where ranges: "download_ranges ss chunk_bytes max_bytes max_download w = (q, w1)"
    by force
  obtain q' w2 where full: "download_full ss max_bytes max_download w1 = (q', w2)"
    by force
  show ?thesis
    using assms unfolding download_verified_def ranges
    by (fastforce simp: full exceeds_iff split: if_splits sum.splits fetch_error.splits option.splits)
qed

text \<open>
  C32: Whatever the server answers, and also when the download fails, the destination never holds more bytes than were
  asked for (\<open>max_download\<close>), or than the media cap allows when nothing was asked for.
\<close>

theorem caps_hold_on_any_server:
  assumes "download_verified resolver ss url chunk_bytes max_bytes max_download w = (r, w')"
    and "wr_file w = []" and "\<not> exceeds 0 max_bytes" and "\<not> exceeds 0 max_download"
  shows "\<not> exceeds (octet_count (wr_file w')) (limit_of max_bytes max_download)"
proof -
  have zero: "\<not> exceeds 0 (limit_of max_bytes max_download)"
    using assms(3,4) by (cases max_download) (simp_all add: limit_of_def)
  consider "w' = w" | q w1 where "max_download \<noteq> Some 0"
      "download_ranges ss chunk_bytes max_bytes max_download w = (q, w1)"
      "w' = w1 \<or> (\<exists>q'. download_full ss max_bytes max_download w1 = (q', w'))"
    using verified_wire [OF assms(1)] by blast
  then show ?thesis
  proof cases
    case 1
    with zero assms(2) show ?thesis
      by simp
  next
    case 2
    have "\<not> exceeds (octet_count (wr_file w1)) (limit_of max_bytes max_download)"
      using ranges_capped [OF 2(2) assms(3,4)] by (cases max_download) (simp_all add: limit_of_def)
    with 2 zero show ?thesis
      using full_capped by blast
  qed
qed

text \<open>
  C33: Under a cap the download ends after at most two requests per chunk of it, two for the remainder and one for the whole
  object, whatever the server answers.
\<close>

theorem requests_are_bounded:
  assumes "download_verified resolver ss url chunk_bytes max_bytes max_download w = (r, w')"
    and "limit_of max_bytes max_download = Some limit"
  shows "wr_requests w' \<le> wr_requests w + 2 * (nat (limit div chunk_bytes) + 1) + 1"
proof -
  consider "w' = w" | q w1 where "0 < chunk_bytes"
      "download_ranges ss chunk_bytes max_bytes max_download w = (q, w1)"
      "w' = w1 \<or> (\<exists>q'. download_full ss max_bytes max_download w1 = (q', w'))"
    using verified_wire [OF assms(1)] by blast
  then show ?thesis
  proof cases
    case 2
    obtain q' where "range_loop ss chunk_bytes max_bytes max_download \<lparr>pg_start = 0, pg_sizes = None\<rparr> (w\<lparr>wr_file := []\<rparr>) = (q', w1)"
      using ranges_wire [OF 2(2)] by blast
    from loop_requests [OF this 2(1) _ assms(2)] start_related(1)
    have "wr_requests w1 \<le> wr_requests w + request_bound chunk_bytes limit 0"
      by simp
    with 2(3) full_wire show ?thesis
      by (fastforce simp: request_bound_def)
  qed simp
qed

definition demo_object :: octets where "demo_object = ''abcdefgh''"

definition demo_reply :: "int \<Rightarrow> string \<Rightarrow> octets list \<Rightarrow> bool \<Rightarrow> reply" where
  "demo_reply status header chunks broken =
     Reply \<lparr>rp_status = status, rp_content_length = None, rp_content_range = Some header, rp_chunks = chunks, rp_broken = broken\<rparr>"

text \<open>The first body breaks off, the fourth request meets an overloaded server.\<close>

definition demo_server :: "nat \<Rightarrow> (int \<times> int) option \<Rightarrow> reply" where
  "demo_server n req =
     (if n = 3 then demo_reply 503 '''' [] False
      else if req = Some (0, 2) then demo_reply 206 ''bytes 0-2/8'' (if n = 0 then [''a''] else [''a'', ''bc'']) (n = 0)
      else if req = Some (3, 5) then demo_reply 206 ''bytes 3-5/8'' [''def''] False
      else if req = Some (6, 7) then demo_reply 206 ''bytes 6-7/8'' [''gh''] False
      else NoReply)"

definition demo_session :: session where
  "demo_session = \<lparr>ss_server = demo_server, ss_stop = None\<rparr>"

definition demo_url :: string where "demo_url = ''https://proxy.example.org/audio''"

definition demo_resolver :: "string \<Rightarrow> exn + string list" where
  "demo_resolver host = Inr [''93.184.216.34'']"

lemma demo_gate: "validate_source_url demo_url None True demo_resolver = Inr ()"
proof -
  have "has_scheme demo_url" "url_scheme demo_url = ''https''" "url_hostname demo_url = Inr ''proxy.example.org''"
    by code_simp+
  moreover have "ip_address ''93.184.216.34'' = Some (V4 (quad 93 184 216 34))"
    by code_simp
  moreover have "fetchable (V4 (quad 93 184 216 34))"
    by (simp add: fetchable_def quad_def in_ranges_def refused_v4_def dotted_def)
  ultimately show ?thesis
    by (simp add: validate_source_url_def demo_resolver_def blocked_ip ALLOWED_SCHEMES_def)
qed

definition demo_wire :: wire where "demo_wire = \<lparr>wr_requests = 0, wr_polls = 0, wr_file = []\<rparr>"

lemma demo_ranges:
  "download_ranges demo_session 3 (Some 100) None demo_wire = (Inr 8, \<lparr>wr_requests = 5, wr_polls = 0, wr_file = ''abcdefgh''\<rparr>)"
  by code_simp

lemma demo_download:
  "download_verified demo_resolver demo_session demo_url 3 (Some 100) None demo_wire =
     (Inr 8, \<lparr>wr_requests = 5, wr_polls = 0, wr_file = ''abcdefgh''\<rparr>)"
  by (simp add: download_verified_def demo_gate demo_ranges)

lemma demo_declared:
  "parse_content_range (py_strip ''bytes 0-2/8'') = Some (0, 2, Some 8)"
  "parse_content_range (py_strip ''bytes 3-5/8'') = Some (3, 5, Some 8)"
  "parse_content_range (py_strip ''bytes 6-7/8'') = Some (6, 7, Some 8)"
  by code_simp+

lemma demo_truthful: "truthful demo_object demo_session"
  unfolding truthful_def demo_session_def demo_server_def demo_reply_def demo_object_def
  by (auto simp: declared_def demo_declared prefix_of_def octet_count_def)

theorem verified_download_is_the_object_witness:
  "wr_file (snd (download_verified demo_resolver demo_session demo_url 3 (Some 100) None demo_wire)) = demo_object"
  using verified_download_is_the_object [OF demo_download demo_truthful]
  by (simp add: demo_download demo_object_def exceeds_def)

theorem caps_hold_on_any_server_witness:
  "octet_count (wr_file (snd (download_verified demo_resolver demo_session demo_url 3 (Some 100) None demo_wire))) \<le> 100"
  using caps_hold_on_any_server [OF demo_download] unfolding demo_download
  by (simp add: demo_wire_def exceeds_def limit_of_def)

theorem requests_are_bounded_witness:
  "wr_requests (snd (download_verified demo_resolver demo_session demo_url 3 (Some 100) None demo_wire)) \<le> 69"
  using requests_are_bounded [OF demo_download, of 100] unfolding demo_download
  by (simp add: limit_of_def demo_wire_def)

text \<open>
  What the gate refuses leaves \<open>download_verified\<close> as the error of the gate, past the handler that would have turned it into
  \<open>ChunkedDownloadError\<close>.
\<close>

lemma gate_error_escapes:
  "0 < chunk_bytes \<Longrightarrow> max_download = None \<Longrightarrow> validate_source_url url None True resolver = Inl e \<Longrightarrow>
     download_verified resolver ss url chunk_bytes max_bytes max_download w = (Inl (GateError e), w)"
  by (simp add: download_verified_def)

end
