(* ===== verification/Spec2Isabelle.thy ===== *)
theory Spec2Isabelle
  imports Prelude Store_IO S3_Storage Routing_Storage Storage_Properties
    Work_Leases Work_Lease_Protocol Work_Lease_Properties Work_Lease_Reaper
    Maintenance_Leases Maintenance_Properties Provider_Leases Provider_Properties
    Compute_Budget Budget_Properties Timeline Timeline_Properties
    Bodies Work_Queue Queue_Properties
    Media_Availability Availability_Properties Backoff Silence_Trim Silence_Properties
    Timeline_Stage Stage_Properties LLM_Policy LLM_Budget LLM_Scheduler
    LLM_Ledger_Properties LLM_Concurrency LLM_Properties
    Record_Merge Record_Properties Push_Properties
    Shard_Work Shard_Plan Shard_Properties Shard_Plan_Properties Shard_Theorems
    Compute_Dispatch Dispatch_Properties Remedy_Queue Remedy_Properties
    Resource_Gates Gate_Properties Remedy_Ledger Remedy_Ledger_Properties
    LLM_Lanes Lane_Properties Source_Gate Source_Gate_Properties
    Range_Download Range_Properties
begin

text \<open>
  \<^bold>\<open>The program.\<close> City Meeting Podcasts turns the recordings of public meetings into podcast feeds. GitHub
  Actions lanes (audio, transcription, chapters, links) run on a schedule, each split into shards, next
  to GPU workers outside GitHub; they share one object store and no database. The archive of a source is one JSON
  object, a dictionary from meeting uid to record; every lane pulls it, works on the blocks of the record it owns
  and pushes it back. What must not run twice at a time, or must not exceed a quota, is coordinated by small JSON
  objects that are changed by compare-and-swap.

  \<^bold>\<open>The parts\<close>, with the files under \<open>src/citypods\<close> they model, bottom up.

  \<^item> \<open>Prelude\<close>: the shared vocabulary, Python values and JSON documents, datetimes, dictionaries, exceptions.
  \<^item> \<open>Store_IO\<close> (\<open>storage/base.py\<close>): programs as trees of \<open>get_bytes\<close>, \<open>put_cas\<close> and clock calls (\<open>io\<close>);
    \<open>run\<close> executes one alone, \<open>sys_step\<close> and \<open>sys_reach\<close> interleave any number of them on one store. The locales
    \<open>cas_store\<close> and \<open>reliable_store\<close> are the two contracts of a store, \<open>safe\<close> is the program logic whose
    soundness lemma turns "every write of every program is an allowed edge" into an invariant of all interleavings.
  \<^item> \<open>S3_Storage\<close> (\<open>storage/s3.py\<close>) and \<open>Routing_Storage\<close> (\<open>storage/routing.py\<close>): the two backends, shown to be
    such stores by \<open>sublocale\<close>, and interpreted on concrete services. \<open>Storage_Properties\<close>: refinement, the bound of the
    retries, the lost reply.
  \<^item> \<open>Work_Leases\<close>, \<open>Work_Lease_Protocol\<close>, \<open>Work_Lease_Properties\<close>, \<open>Work_Lease_Reaper\<close> (\<open>ops/work_leases.py\<close>): one lease
    object per item. \<open>lease_edge\<close> is the abstract state machine; every operation refines it.
  \<^item> \<open>Maintenance_Leases\<close>, \<open>Maintenance_Properties\<close> (\<open>ops/maintenance_leases.py\<close>): named mutexes, one or several at once.
  \<^item> \<open>Provider_Leases\<close>, \<open>Provider_Properties\<close> (\<open>provider_leases.py\<close>): N slots of concurrency per provider domain.
  \<^item> \<open>Compute_Budget\<close>, \<open>Budget_Properties\<close> (\<open>compute/budget.py\<close>): the spend of each backend per billing cycle, with
    reservations in flight.
  \<^item> \<open>LLM_Policy\<close>, \<open>LLM_Budget\<close>, \<open>LLM_Scheduler\<close> (\<open>compute/llm_policy.py\<close>, \<open>llm_budget.py\<close>, \<open>llm_scheduler.py\<close>): routes, rate
    cards, the quota ledger, the choice of a route and its reservation. \<open>LLM_Ledger_Properties\<close> states the interface
    \<open>ledger_law\<close> (a property of the ledger that operations keep), \<open>LLM_Concurrency\<close> interprets it for the number of
    requests in flight, \<open>LLM_Properties\<close> holds the rest.
  \<^item> \<open>LLM_Lanes\<close>, \<open>Lane_Properties\<close> (\<open>compute/llm_lanes.py\<close>): the registry of dispatch lanes, what its validation promises of
    every lane a producer looks up, and the two caches of the parsed file.
  \<^item> \<open>Source_Gate\<close>, \<open>Source_Gate_Properties\<close> (\<open>security.py\<close>): which URLs may be configured and fetched. Addresses are words; what
    the masks of the code refuse is shown to be a list of ranges of numbers.
  \<^item> \<open>Range_Download\<close>, \<open>Range_Properties\<close> (\<open>granicus_chunked.py\<close>): downloads by byte ranges through the proxy. The locale
    \<open>range_law\<close> is a relation between position and file that every answer of a server keeps; it is interpreted for the caps,
    against any server, and for the contents, against a truthful one.
  \<^item> \<open>Timeline\<close>, \<open>Timeline_Properties\<close> (\<open>timeline.py\<close>): edit decision lists and the two maps between served and source time.
  \<^item> \<open>Silence_Trim\<close>, \<open>Silence_Properties\<close> (\<open>silence.py\<close>, parts of \<open>integrity.py\<close> and \<open>durations.py\<close>): reading the silence
    detector, cutting, judging, planning one episode. \<open>Timeline_Stage\<close>, \<open>Stage_Properties\<close> (\<open>concat.py\<close>, the timeline
    and remap stages of \<open>stages.py\<close>): plan, reuse or defer.
  \<^item> \<open>Media_Availability\<close>, \<open>Availability_Properties\<close> (\<open>availability.py\<close>): the verdict on recordings that may be empty.
  \<^item> \<open>Backoff\<close> (\<open>records.py\<close>): when failed work is due again.
  \<^item> \<open>Bodies\<close> (\<open>bodies.py\<close>, \<open>durations.py\<close>): names of public bodies, ranking within a body.
  \<^item> \<open>Work_Queue\<close>, \<open>Queue_Properties\<close> (\<open>ops/workqueue.py\<close> and the predicates it calls): the backlog manifest.
  \<^item> \<open>Record_Merge\<close>, \<open>Record_Properties\<close>, \<open>Push_Properties\<close> (\<open>records.py\<close>, \<open>statesync.py\<close>): which lane owns which block of a
    record, the merge of a scoped push with the remote archive, retention, and what histories of pushes keep.
  \<^item> \<open>Shard_Work\<close>, \<open>Shard_Plan\<close>, \<open>Shard_Properties\<close>, \<open>Shard_Plan_Properties\<close>, \<open>Shard_Theorems\<close> (\<open>sharding.py\<close>): the backlog of the
    transcription lane, balanced plans, their stored form and what each shard reads from them.
  \<^item> \<open>Compute_Dispatch\<close>, \<open>Dispatch_Properties\<close> (\<open>compute/dispatch.py\<close>): choosing a remote backend, dispatching one item on the
    budget and the lease ledger together, probing its artifacts, and the reconciliation that settles what finished. The
    locale \<open>budget_law\<close> is a property of the ledger that dispatchers and reconcilers keep between them.
  \<^item> \<open>Resource_Gates\<close>, \<open>Gate_Properties\<close> (\<open>resources.py\<close>): the load guard, the gate between encodes and speech recognition
    and the memory pool of one process, each with its threads as a transition system (\<open>gate_step\<close>, \<open>memory_step\<close>).
  \<^item> \<open>Remedy_Queue\<close>, \<open>Remedy_Properties\<close> (\<open>remedy_queue.py\<close>): which pull requests and issues to open for the decisions that
    are ready, within the weekly, open and per-request budgets, cities in turn.
  \<^item> \<open>Remedy_Ledger\<close>, \<open>Remedy_Ledger_Properties\<close> (\<open>remedy_ledger.py\<close>): the events of a decision, their validation and the
    reconstruction of its state from any collection of them.

  \<^bold>\<open>How they interact.\<close> The coordination modules (leases, mutexes, slots, budget, quota ledger) are clients of the store contract:
  their properties hold in every \<open>cas_store\<close>, and \<open>storage_stack_is_cas_store\<close> shows that the router is one when its
  coordination backend is the S3 backend over a service with conditional writes; of the primary, B2, which ignores
  conditional headers, nothing is assumed, since the router refuses conditional operations there. The planners of the timeline stage call the silence cut, the
  edit decision list and the availability verdict; the queue reads records through the predicates of bodies, durations
  and back-off; sharding weighs the same records; the push merges them with what other lanes wrote meanwhile. Dispatch
  reserves on the compute budget, submits, and leases the queue item under the owner of the reservation; the
  reconciliation reads the leases and the artifacts and returns or settles each reservation in one write of the budget.
  The resource guards and the remedy queue are on their own: the first is called by the stages around every
  encode and recognition, the second reads a GitHub snapshot and a ledger view and returns a plan.

  \<^bold>\<open>How the code is represented.\<close>

  \<^item> A Python function is a definition of the same name (with a prefix or suffix where the name is taken). A method that
    changes \<open>self\<close> takes and returns the record of its object; what it mutates through an argument is returned too.
  \<^item> \<open>int\<close> is \<open>int\<close>, which is exact: Python integers are unbounded. \<open>float\<close> is \<open>rat\<close>: rounding, infinities and NaN are not
    modelled, so statements about times and dollars are about exact arithmetic. The one exception is a number in a shard
    plan beyond the doubles, whose OverflowError leaves the loader (\<open>float_overflows\<close>). A \<open>datetime\<close> is a number of microseconds
    and remembers whether it is aware, because comparing the two kinds raises \<open>TypeError\<close>.
  \<^item> A \<open>dict\<close> is an association list in insertion order, a \<open>set\<close> a list without meaning of its order. JSON values are the datatype
    \<open>json\<close>; a stored object is a \<open>blob\<close>, a document or bytes that do not parse.
  \<^item> An exception is a value of \<open>exn\<close>; a function that may raise returns \<open>exn + 'a\<close>, and every raise, failed assertion,
    missing key and ill-typed operation the source can reach is a branch.
  \<^item> Regular expressions, \<open>datetime\<close> parsing of files, digests, time zones, fresh tokens, environment variables and subprocesses are
    arguments; what is relied on is a named hypothesis, and each is instantiated in the witness.

  \<^bold>\<open>Loops and their bounds.\<close> Loops over collections are structural. A compare-and-swap loop recurses on the number of attempts
  the source passes (\<open>max_attempts\<close>); running out is the branch the source has after its \<open>for\<close>. The S3
  retry loops terminate by a measure on the attempt, and \<open>retries_bounded\<close> unfolds them completely: three requests at
  most. The waiting loop of a provider slot, which the source leaves by a deadline or a stop request, runs for a number of
  passes and its properties hold for every number. Following an alias ends because visited names are remembered.

  \<^bold>\<open>What the theorems show.\<close> The manifest lists forty properties; the groups are these. Exclusion and legality in every
  interleaving: lease steps, live leases, mutexes, provider slots, LLM concurrency, the budget cap under any number of dispatchers
  and reconcilers, recognition against encodes, the memory pool. Exactness of ledgers:
  spend covers reservations, releasing returns what was reserved, reconciling twice is reconciling once and leaves no finished
  lease behind. Content: the silence cut
  removes silence only and yields a well-formed timeline, the time maps are inverse, emptiness needs two silent fetches and two
  suffice. Archives: pushes keep foreign blocks and write the own block. Sharding: assignments are balanced within one item
  and every unit of work is read by exactly one shard. Publication: budgets hold, nothing is dropped or
  published twice, cities take turns, and work waits only when its budget is spent; a decision is the same for every order of
  its events and rests on all of them. Failure: what a lost reply does to a
  conditional write, what an overlapping push erases, what a failed read after a submission leaves behind, when a silent
  source is never looked at again. Each property with a hypothesis is followed by its application at a concrete input. More of
  the same kind are theorems of the component theories without being listed: what a lost reply does to a charge, when the
  selection of a route stops, that plans and ledgers are read back, that pushes never touch other shards' uids.

  \<^bold>\<open>Not modelled.\<close> Running ffmpeg, ffprobe, speech recognition and the GPU workers; HTTP clients of providers and of language models
  and the text of their prompts; the scraping of providers; rendering of the site, the feeds and the search index; command lines and
  the stage driver; the catalogue, judging and evaluation tools; uploads, downloads and listings of files. These move data or depend on
  text formats of other parties; the decisions they share with the parts above are modelled there. Within modelled parts, log
  lines, metrics and back-off sleeps are left out since nothing reads them, and threads appear as the interleaving of their
  loop bodies.
\<close>

end
